(* ===== verification/Salsa_Prelude.thy ===== *)
theory Salsa_Prelude
  imports Complex_Main "HOL-Library.Word" "HOL-Library.Monad_Syntax" "HOL-Library.Signed_Division"
begin

text \<open>
  Shared vocabulary of the development: the C integer types of an LP64 target (32-bit
  \<^verbatim>\<open>int\<close>, 64-bit \<^verbatim>\<open>long\<close>) as words, the error numbers of \<^verbatim>\<open>errno.h\<close>, bounds-checked array
  access, and the generic facts about lists, options and words the components share.

  A model function whose result type is an \<open>option\<close> returns \<open>None\<close> exactly where the C code has
  no defined result: an access outside an array, a dereference of a null pointer, or a loop that
  never ends.  A C function that returns a status code returns the same integer in the model.
\<close>

unbundle bit_operations_syntax

section \<open>C integer types\<close>

type_synonym u8 = "8 word"
type_synonym u16 = "16 word"
type_synonym u32 = "32 word"
type_synonym u64 = "64 word"

abbreviation UINT_MAX :: u32 where "UINT_MAX \<equiv> - 1"
abbreviation INT_MAX :: int where "INT_MAX \<equiv> 2147483647"
abbreviation LONG_MAX :: int where "LONG_MAX \<equiv> 9223372036854775807"

section \<open>Error numbers\<close>

abbreviation (input) EPERM :: int where "EPERM \<equiv> 1"
abbreviation (input) ENOENT :: int where "ENOENT \<equiv> 2"
abbreviation (input) EINTR :: int where "EINTR \<equiv> 4"
abbreviation (input) EIO :: int where "EIO \<equiv> 5"
abbreviation (input) ENXIO :: int where "ENXIO \<equiv> 6"
abbreviation (input) EAGAIN :: int where "EAGAIN \<equiv> 11"
abbreviation (input) ENOMEM :: int where "ENOMEM \<equiv> 12"
abbreviation (input) EFAULT :: int where "EFAULT \<equiv> 14"
abbreviation (input) EBUSY :: int where "EBUSY \<equiv> 16"
abbreviation (input) ENODEV :: int where "ENODEV \<equiv> 19"
abbreviation (input) EINVAL :: int where "EINVAL \<equiv> 22"
abbreviation (input) EPIPE :: int where "EPIPE \<equiv> 32"
abbreviation (input) EBADFD :: int where "EBADFD \<equiv> 77"
abbreviation (input) ESTRPIPE :: int where "ESTRPIPE \<equiv> 86"

section \<open>Collections of facts\<close>

named_theorems hw_simps \<open>unfolding of the hardware parameter operations\<close>
named_theorems list_heap \<open>facts about the linked lists of the control layer\<close>

section \<open>Bounds-checked arrays\<close>

definition array_get :: "'a list \<Rightarrow> nat \<Rightarrow> 'a option" where
  "array_get xs i = (if i < length xs then Some (xs ! i) else None)"

definition array_set :: "'a list \<Rightarrow> nat \<Rightarrow> 'a \<Rightarrow> 'a list option" where
  "array_set xs i v = (if i < length xs then Some (xs[i := v]) else None)"

lemma array_get_in [simp]: "i < length xs \<Longrightarrow> array_get xs i = Some (xs ! i)"
  by (simp add: array_get_def)

lemma array_get_out [simp]: "length xs \<le> i \<Longrightarrow> array_get xs i = None"
  by (simp add: array_get_def)

lemma array_set_in [simp]: "i < length xs \<Longrightarrow> array_set xs i v = Some (xs[i := v])"
  by (simp add: array_set_def)

lemma array_set_out [simp]: "length xs \<le> i \<Longrightarrow> array_set xs i v = None"
  by (simp add: array_set_def)

lemma array_get_eq_Some: "array_get xs i = Some v \<longleftrightarrow> i < length xs \<and> v = xs ! i"
  by (auto simp: array_get_def)

lemma array_set_eq_Some: "array_set xs i v = Some ys \<longleftrightarrow> i < length xs \<and> ys = xs[i := v]"
  by (auto simp: array_set_def)

section \<open>Signed arithmetic\<close>

text \<open>Results of \<^verbatim>\<open>long\<close> and of \<^verbatim>\<open>int\<close> arithmetic; an overflow is undefined.\<close>

definition long :: "int \<Rightarrow> int option" where
  "long x = (if - (2 ^ 63) \<le> x \<and> x < 2 ^ 63 then Some x else None)"

definition int32 :: "int \<Rightarrow> int option" where
  "int32 x = (if - (2 ^ 31) \<le> x \<and> x < 2 ^ 31 then Some x else None)"

section \<open>Words\<close>

lemma unat_and_31: "unat ((v :: u32) AND 31) = unat v mod 32"
proof -
  have "v AND 31 = take_bit 5 v"
    by (simp add: take_bit_eq_mask mask_eq_exp_minus_1)
  then show ?thesis
    by (simp add: unsigned_take_bit_eq) (simp add: take_bit_eq_mod)
qed

lemma unat_u32_less: "unat (v :: u32) < 4294967296"
  using unsigned_less [of v] by simp

lemma bit_u32_top: "2 ^ n \<le> unat (w :: u32) \<Longrightarrow> unat w < 2 ^ Suc n \<Longrightarrow> bit w n"
proof -
  assume a: "2 ^ n \<le> unat w" "unat w < 2 ^ Suc n"
  then have "unat w div 2 ^ n = 1"
    by (simp add: div_nat_eqI)
  then have "bit (unat w) n" by (simp add: bit_iff_odd)
  then show "bit w n" by (simp add: bit_unsigned_iff)
qed

lemma bit_u32_low: "unat (w :: u32) < 2 ^ n \<Longrightarrow> \<not> bit w n"
proof
  assume "unat w < 2 ^ n" "bit w n"
  then have "bit (unat w) n" by (simp add: bit_unsigned_iff)
  then have "odd (unat w div 2 ^ n)" by (simp add: bit_iff_odd)
  with \<open>unat w < 2 ^ n\<close> show False by simp
qed

lemma bit_single: "n < 32 \<Longrightarrow> bit (push_bit n (1 :: u32)) k \<longleftrightarrow> k = n"
  using bit_imp_le_length [of "push_bit n (1 :: u32)" k]
  by (auto simp: bit_push_bit_iff bit_1_iff simp del: push_bit_of_1)

lemma unat_push_bit_1: "n < 32 \<Longrightarrow> unat (push_bit n (1 :: u32)) = 2 ^ n"
  by (simp add: unsigned_push_bit_eq take_bit_push_bit del: push_bit_of_1)

lemma u32_top_bit:
  assumes "(w :: u32) \<noteq> 0"
  obtains n where "n < 32" "2 ^ n \<le> unat w" "unat w < 2 ^ Suc n"
proof -
  have "1 \<le> unat w" using assms by (simp add: Suc_leI unat_gt_0)
  from ex_power_ivl1 [OF order_refl this] obtain n where n: "2 ^ n \<le> unat w" "unat w < 2 ^ (n + 1)"
    by blast
  then have "(2 :: nat) ^ n < 2 ^ 32" using unat_u32_less [of w] by simp
  then have "n < 32" by (rule power_less_imp_less_exp [rotated]) simp
  with n that show thesis by simp
qed

text \<open>The test \<^verbatim>\<open>w & (w - 1)\<close> of the sources is zero exactly for words with at most one bit.\<close>

lemma and_minus_1_zero_iff:
  "(w :: u32) AND (w - 1) = 0 \<longleftrightarrow> w = 0 \<or> (\<exists>k < 32. w = push_bit k 1)"
proof (cases "w = 0")
  case False
  then obtain n where n: "n < 32" "2 ^ n \<le> unat w" "unat w < 2 ^ Suc n" by (rule u32_top_bit)
  have m1: "unat (w - 1) = unat w - 1" using False by (simp add: unat_minus_one)
  show ?thesis
  proof (cases "unat w = 2 ^ n")
    case True
    then have w: "w = push_bit n 1"
      using n(1) by (intro word_unat_eq_iff [THEN iffD2]) (simp only: unat_push_bit_1)
    have "unat (w - 1) < 2 ^ n" using m1 True by simp
    then have "\<not> bit (w - 1) n" 
      using bit_u32_low by blast
    moreover have "bit w k \<longleftrightarrow> k = n" for k using n(1) unfolding w by (rule bit_single)
    ultimately have "w AND (w - 1) = 0"
      by (intro bit_eqI) (auto simp: bit_and_iff)
    with w n(1) show ?thesis by blast
  next
    case neq: False
    then have "bit (w - 1) n" using n m1 by (intro bit_u32_top) auto
    moreover have "bit w n" using n by (intro bit_u32_top)
    ultimately have "bit (w AND (w - 1)) n" by (simp add: bit_and_iff)
    then have "w AND (w - 1) \<noteq> 0" by auto
    moreover have "w \<noteq> push_bit k 1" if "k < 32" for k
    proof
      assume "w = push_bit k 1"
      then have "unat w = 2 ^ k" using that by (simp only: unat_push_bit_1)
      then have "k = n" using n power_le_imp_le_exp [of "2::nat" n k] power_less_imp_less_exp [of "2::nat" k "Suc n"] by simp
      with neq \<open>unat w = 2 ^ k\<close> show False by simp
    qed
    ultimately show ?thesis using False by blast
  qed
qed simp

lemma unat_u64_less: "unat (v :: u64) < 18446744073709551616"
  using unsigned_less [of v] by simp

lemma unat_drop_bit_5: "unat (drop_bit 5 (v :: u32)) = unat v div 32"
  by (simp add: drop_bit_eq_div unat_div)

lemma u32_nonzero_bit: "(w :: u32) \<noteq> 0 \<longleftrightarrow> (\<exists>k < 32. bit w k)"
proof
  assume "w \<noteq> 0"
  then obtain k where "bit w k" by (auto simp: bit_eq_iff)
  moreover from this have "k < 32" using bit_imp_le_length [of w k] by simp
  ultimately show "\<exists>k < 32. bit w k" by blast
qed auto

lemma u32_zero_bit: "(w :: u32) = 0 \<longleftrightarrow> (\<forall>k. \<not> bit w k)"
  using u32_nonzero_bit [of w] by auto

section \<open>Descriptors to poll\<close>

record pollfd =
  pfd_fd :: int
  pfd_events :: u16
  pfd_revents :: u16

abbreviation (input) EV_IN :: u16 where "EV_IN \<equiv> 0x1"
abbreviation (input) EV_OUT :: u16 where "EV_OUT \<equiv> 0x4"
abbreviation (input) EV_ERR :: u16 where "EV_ERR \<equiv> 0x8"
abbreviation (input) EV_NVAL :: u16 where "EV_NVAL \<equiv> 0x20"

end
