(* ===== verification/Param_Domain.thy ===== *)
theory Param_Domain
  imports Salsa_Prelude
begin

text \<open>
  The interface the hardware parameter layer relies on.  A parameter is either a mask or an
  interval; \<^verbatim>\<open>hw_param_set_first\<close>, \<^verbatim>\<open>hw_param_set_last\<close> and \<^verbatim>\<open>_snd_pcm_hw_param_get\<close> treat both the
  same way.  The locale states what they need: an emptiness test that agrees with the set of values
  the parameter stands for, and two operations that narrow a parameter that is not empty to its
  lowest or to its highest configuration.  It is interpreted on masks in \<^verbatim>\<open>Pcm_Mask\<close> and on intervals
  in \<^verbatim>\<open>Pcm_Interval\<close>.
\<close>

text \<open>\<open>below A B\<close>: every point of \<open>A\<close> is in \<open>B\<close> or above all of \<open>B\<close>, so \<open>B\<close> is a lowest part of \<open>A\<close>.\<close>

definition lowest_part :: "'v :: linorder set \<Rightarrow> 'v set \<Rightarrow> bool" where
  "lowest_part A B \<longleftrightarrow> B \<subseteq> A \<and> (\<forall>x \<in> A - B. \<forall>y \<in> B. y < x)"

definition highest_part :: "'v :: linorder set \<Rightarrow> 'v set \<Rightarrow> bool" where
  "highest_part A B \<longleftrightarrow> B \<subseteq> A \<and> (\<forall>x \<in> A - B. \<forall>y \<in> B. x < y)"

locale param_domain =
  fixes wf :: "'p \<Rightarrow> bool"
    and vals :: "'p \<Rightarrow> 'v :: linorder set"
    and is_empty :: "'p \<Rightarrow> bool"
    and is_single :: "'p \<Rightarrow> bool"
    and refine_first :: "'p \<Rightarrow> (int \<times> 'p) option"
    and refine_last :: "'p \<Rightarrow> (int \<times> 'p) option"
  assumes empty_iff: "wf p \<Longrightarrow> is_empty p \<longleftrightarrow> vals p = {}"
    and first_empty: "wf p \<Longrightarrow> is_empty p \<Longrightarrow> refine_first p = Some (- ENOENT, p)"
    and last_empty: "wf p \<Longrightarrow> is_empty p \<Longrightarrow> refine_last p = Some (- ENOENT, p)"
    and first_single: "wf p \<Longrightarrow> \<not> is_empty p \<Longrightarrow> is_single p \<Longrightarrow> refine_first p = Some (0, p)"
    and last_single: "wf p \<Longrightarrow> \<not> is_empty p \<Longrightarrow> is_single p \<Longrightarrow> refine_last p = Some (0, p)"
    and first_narrows: "wf p \<Longrightarrow> \<not> is_empty p \<Longrightarrow> \<not> is_single p \<Longrightarrow>
      \<exists>p'. refine_first p = Some (1, p') \<and> wf p' \<and> \<not> is_empty p' \<and> is_single p' \<and>
           lowest_part (vals p) (vals p')"
    and last_narrows: "wf p \<Longrightarrow> \<not> is_empty p \<Longrightarrow> \<not> is_single p \<Longrightarrow>
      \<exists>p'. refine_last p = Some (1, p') \<and> wf p' \<and> \<not> is_empty p' \<and> is_single p' \<and>
           highest_part (vals p) (vals p')"
begin

lemma first_total:
  assumes "wf p"
  obtains r p' where "refine_first p = Some (r, p')" "wf p'" "r \<in> {- ENOENT, 0, 1}"
  using assms first_empty first_single first_narrows
  by (cases "is_empty p"; cases "is_single p") blast+

lemma last_total:
  assumes "wf p"
  obtains r p' where "refine_last p = Some (r, p')" "wf p'" "r \<in> {- ENOENT, 0, 1}"
  using assms last_empty last_single last_narrows
  by (cases "is_empty p"; cases "is_single p") blast+

lemma first_error_iff:
  assumes "wf p" "refine_first p = Some (r, p')"
  shows "r < 0 \<longleftrightarrow> vals p = {}"
  using assms first_empty first_single first_narrows empty_iff
  by (cases "is_empty p"; cases "is_single p") fastforce+

lemma last_error_iff:
  assumes "wf p" "refine_last p = Some (r, p')"
  shows "r < 0 \<longleftrightarrow> vals p = {}"
  using assms last_empty last_single last_narrows empty_iff
  by (cases "is_empty p"; cases "is_single p") fastforce+

lemma first_result:
  assumes "wf p" "refine_first p = Some (r, p')" "0 \<le> r"
  shows "wf p' \<and> \<not> is_empty p' \<and> is_single p' \<and> lowest_part (vals p) (vals p')"
proof -
  have ne: "\<not> is_empty p" using assms first_error_iff empty_iff by fastforce
  show ?thesis
  proof (cases "is_single p")
    case True
    with assms ne show ?thesis by (simp add: first_single lowest_part_def)
  next
    case False
    with assms ne show ?thesis using first_narrows by fastforce
  qed
qed

lemma last_result:
  assumes "wf p" "refine_last p = Some (r, p')" "0 \<le> r"
  shows "wf p' \<and> \<not> is_empty p' \<and> is_single p' \<and> highest_part (vals p) (vals p')"
proof -
  have ne: "\<not> is_empty p" using assms last_error_iff empty_iff by fastforce
  show ?thesis
  proof (cases "is_single p")
    case True
    with assms ne show ?thesis by (simp add: last_single highest_part_def)
  next
    case False
    with assms ne show ?thesis using last_narrows by fastforce
  qed
qed

text \<open>Once a parameter has been narrowed to one configuration, narrowing again in either direction
  reports no change.\<close>

lemma first_stable:
  assumes "wf p" "refine_first p = Some (r, p')" "0 \<le> r"
  shows "refine_first p' = Some (0, p') \<and> refine_last p' = Some (0, p')"
  using first_result [OF assms] first_single last_single by blast

lemma last_stable:
  assumes "wf p" "refine_last p = Some (r, p')" "0 \<le> r"
  shows "refine_first p' = Some (0, p') \<and> refine_last p' = Some (0, p')"
  using last_result [OF assms] first_single last_single by blast

end

end
