(* ===== verification/Pcm_Mask.thy ===== *)
theory Pcm_Mask
  imports Param_Domain
begin

text \<open>
  The bit masks of the PCM hardware parameters: \<^verbatim>\<open>snd_mask_t\<close> of \<^verbatim>\<open>asound.h\<close>, the inline mask
  operations of \<^verbatim>\<open>pcm_macros.h\<close> and the non-inlined ones at the head of \<^verbatim>\<open>pcm_params.c\<close>.  A mask
  is an array of eight 32-bit words; \<open>mask_vals\<close> reads it as the set of the numbers below 256 whose
  bit is set, and every operation is shown to compute the corresponding operation on sets.  Reads
  and writes at \<^verbatim>\<open>bits[val >> 5]\<close> are bounds-checked: they give \<open>None\<close> when \<^verbatim>\<open>val\<close> is not below 256.
\<close>

section \<open>Definitions\<close>

record snd_mask =
  bits :: "u32 list"

abbreviation SND_MASK_MAX :: nat where "SND_MASK_MAX \<equiv> 256"
abbreviation MASK_SIZE :: nat where "MASK_SIZE \<equiv> 8"

definition wf_mask :: "snd_mask \<Rightarrow> bool" where
  "wf_mask m \<longleftrightarrow> length (bits m) = MASK_SIZE"

definition MASK_OFS :: "u32 \<Rightarrow> nat" where
  "MASK_OFS i = unat (drop_bit 5 i)"

definition MASK_BIT :: "u32 \<Rightarrow> u32" where
  "MASK_BIT i = push_bit (unat (i AND 31)) 1"

definition snd_mask_none :: "snd_mask \<Rightarrow> snd_mask" where
  "snd_mask_none m = m\<lparr>bits := replicate MASK_SIZE 0\<rparr>"

definition snd_mask_any :: "snd_mask \<Rightarrow> snd_mask" where
  "snd_mask_any m = m\<lparr>bits := replicate MASK_SIZE (- 1)\<rparr>"

definition snd_mask_set :: "snd_mask \<Rightarrow> u32 \<Rightarrow> snd_mask option" where
  "snd_mask_set m val = do {
     w \<leftarrow> array_get (bits m) (MASK_OFS val);
     ws \<leftarrow> array_set (bits m) (MASK_OFS val) (w OR MASK_BIT val);
     Some (m\<lparr>bits := ws\<rparr>)
   }"

definition snd_mask_reset :: "snd_mask \<Rightarrow> u32 \<Rightarrow> snd_mask option" where
  "snd_mask_reset m val = do {
     w \<leftarrow> array_get (bits m) (MASK_OFS val);
     ws \<leftarrow> array_set (bits m) (MASK_OFS val) (w AND NOT (MASK_BIT val));
     Some (m\<lparr>bits := ws\<rparr>)
   }"

definition snd_mask_test :: "snd_mask \<Rightarrow> u32 \<Rightarrow> u32 option" where
  "snd_mask_test m val = do {
     w \<leftarrow> array_get (bits m) (MASK_OFS val);
     Some (w AND MASK_BIT val)
   }"

definition snd_mask_empty :: "snd_mask \<Rightarrow> bool" where
  "snd_mask_empty m \<longleftrightarrow> list_all (\<lambda>w. w = 0) (bits m)"

text \<open>\<^verbatim>\<open>mask_is_single\<close>: the loop over the words, with the counter \<^verbatim>\<open>c\<close> of the words that are not zero.\<close>

fun mask_is_single_loop :: "u32 list \<Rightarrow> nat \<Rightarrow> bool" where
  "mask_is_single_loop [] c = True"
| "mask_is_single_loop (w # ws) c =
     (if w = 0 then mask_is_single_loop ws c
      else if w AND (w - 1) \<noteq> 0 then False
      else if c \<noteq> 0 then False
      else mask_is_single_loop ws (Suc c))"

definition mask_is_single :: "snd_mask \<Rightarrow> bool" where
  "mask_is_single m = mask_is_single_loop (bits m) 0"

definition mask_leave_single :: "snd_mask \<Rightarrow> u32 \<Rightarrow> snd_mask option" where
  "mask_leave_single m val = do {
     v \<leftarrow> snd_mask_test m val;
     let m' = snd_mask_none m;
     ws \<leftarrow> array_set (bits m') (MASK_OFS val) v;
     Some (m'\<lparr>bits := ws\<rparr>)
   }"

text \<open>The loop of \<^verbatim>\<open>mask_reset_range\<close> over 32-bit counters; it has no result when it leaves the
  array or never ends.\<close>

partial_function (option) mask_reset_range :: "snd_mask \<Rightarrow> u32 \<Rightarrow> u32 \<Rightarrow> snd_mask option" where
  "mask_reset_range m from to =
     (if from \<le> to
      then Option.bind (snd_mask_reset m from) (\<lambda>m'. mask_reset_range m' (from + 1) to)
      else Some m)"

text \<open>\<^verbatim>\<open>ld2\<close>: the position of the top bit by bisection, with the loop variables \<^verbatim>\<open>v\<close>, \<^verbatim>\<open>bits\<close>, \<^verbatim>\<open>r\<close>.\<close>

partial_function (option) ld2_loop :: "u32 \<Rightarrow> nat \<Rightarrow> u32 \<Rightarrow> u32 option" where
  "ld2_loop v b r =
     (if v > 1
      then (if v \<ge> push_bit b 1 then ld2_loop (drop_bit b v) (b div 2) (r + of_nat b)
            else ld2_loop v (b div 2) r)
      else Some r)"

definition ld2 :: "u32 \<Rightarrow> u32 option" where
  "ld2 v = ld2_loop v 16 0"

text \<open>\<^verbatim>\<open>ffs\<close> of the C library: one plus the index of the least significant set bit, or 0.\<close>

definition ffs :: "u32 \<Rightarrow> int" where
  "ffs w = (case List.find (\<lambda>k. bit w k) [0..<32] of None \<Rightarrow> 0 | Some k \<Rightarrow> int k + 1)"

fun mask_get_max_loop :: "u32 list \<Rightarrow> nat \<Rightarrow> u32 option" where
  "mask_get_max_loop ws 0 = Some 0"
| "mask_get_max_loop ws (Suc i) = do {
     w \<leftarrow> array_get ws i;
     if w \<noteq> 0 then do { r \<leftarrow> ld2 w; Some (r + push_bit 5 (of_nat i)) }
     else mask_get_max_loop ws i
   }"

definition mask_get_max :: "snd_mask \<Rightarrow> u32 option" where
  "mask_get_max m = mask_get_max_loop (bits m) MASK_SIZE"

fun mask_get_min_loop :: "u32 list \<Rightarrow> nat \<Rightarrow> u32" where
  "mask_get_min_loop [] i = 0"
| "mask_get_min_loop (w # ws) i =
     (if w \<noteq> 0 then of_int (ffs w - 1) + push_bit 5 (of_nat i)
      else mask_get_min_loop ws (Suc i))"

definition mask_get_min :: "snd_mask \<Rightarrow> u32" where
  "mask_get_min m = mask_get_min_loop (bits m) 0"

definition mask_is_full :: "snd_mask \<Rightarrow> bool" where
  "mask_is_full m \<longleftrightarrow> list_all (\<lambda>w. w = UINT_MAX) (bits m)"

text \<open>\<^verbatim>\<open>memcmp\<close> over the bytes of two masks (little-endian words); only the sign of a result that is
  not zero is specified by the C library.\<close>

definition word_bytes :: "u32 \<Rightarrow> u8 list" where
  "word_bytes w = map (\<lambda>k. ucast (drop_bit (8 * k) w)) [0..<4]"

fun memcmp_bytes :: "u8 list \<Rightarrow> u8 list \<Rightarrow> int" where
  "memcmp_bytes (a # as) (b # bs) = (if a = b then memcmp_bytes as bs else uint a - uint b)"
| "memcmp_bytes _ _ = 0"

definition mask_memcmp :: "snd_mask \<Rightarrow> snd_mask \<Rightarrow> int" where
  "mask_memcmp a b =
     memcmp_bytes (concat (map word_bytes (bits a))) (concat (map word_bytes (bits b)))"

definition snd_mask_refine :: "snd_mask \<Rightarrow> snd_mask \<Rightarrow> int \<times> snd_mask" where
  "snd_mask_refine m v =
     (let m' = m\<lparr>bits := map2 (AND) (bits m) (bits v)\<rparr>
      in if snd_mask_empty m' then (- EINVAL, m') else (mask_memcmp m' m, m'))"

definition snd_mask_refine_first :: "snd_mask \<Rightarrow> (int \<times> snd_mask) option" where
  "snd_mask_refine_first m =
     (if snd_mask_empty m then Some (- ENOENT, m)
      else if mask_is_single m then Some (0, m)
      else do { m' \<leftarrow> mask_leave_single m (mask_get_min m); Some (1, m') })"

definition snd_mask_refine_last :: "snd_mask \<Rightarrow> (int \<times> snd_mask) option" where
  "snd_mask_refine_last m =
     (if snd_mask_empty m then Some (- ENOENT, m)
      else if mask_is_single m then Some (0, m)
      else do { v \<leftarrow> mask_get_max m; m' \<leftarrow> mask_leave_single m v; Some (1, m') })"

definition snd_mask_refine_min :: "snd_mask \<Rightarrow> u32 \<Rightarrow> (int \<times> snd_mask) option" where
  "snd_mask_refine_min m val =
     (if snd_mask_empty m then Some (- ENOENT, m)
      else if mask_get_min m \<ge> val then Some (0, m)
      else do {
        m' \<leftarrow> mask_reset_range m 0 (val - 1);
        if snd_mask_empty m' then Some (- EINVAL, m') else Some (1, m')
      })"

definition snd_mask_refine_max :: "snd_mask \<Rightarrow> u32 \<Rightarrow> (int \<times> snd_mask) option" where
  "snd_mask_refine_max m val =
     (if snd_mask_empty m then Some (- ENOENT, m)
      else do {
        top \<leftarrow> mask_get_max m;
        if top \<le> val then Some (0, m)
        else do {
          m' \<leftarrow> mask_reset_range m (val + 1) (of_nat SND_MASK_MAX - 1);
          if snd_mask_empty m' then Some (- EINVAL, m') else Some (1, m')
        }
      })"

definition snd_mask_refine_set :: "snd_mask \<Rightarrow> u32 \<Rightarrow> (int \<times> snd_mask) option" where
  "snd_mask_refine_set m val =
     (if snd_mask_empty m then Some (- ENOENT, m)
      else do {
        m' \<leftarrow> mask_leave_single m val;
        if snd_mask_empty m' then Some (- EINVAL, m')
        else Some (if mask_is_single m then 0 else 1, m')
      })"

text \<open>The set a mask stands for.\<close>

definition mask_vals :: "snd_mask \<Rightarrow> nat set" where
  "mask_vals m = {v. v < SND_MASK_MAX \<and> bit (bits m ! (v div 32)) (v mod 32)}"

section \<open>The mask as a set\<close>

lemma MASK_OFS_eq: "MASK_OFS v = unat v div 32"
  by (simp add: MASK_OFS_def unat_drop_bit_5)

lemma MASK_BIT_eq: "MASK_BIT v = push_bit (unat v mod 32) 1"
  by (simp only: MASK_BIT_def unat_and_31)

lemma MASK_OFS_less: "MASK_OFS v < MASK_SIZE \<longleftrightarrow> unat v < SND_MASK_MAX"
  by (simp add: MASK_OFS_eq less_mult_imp_div_less) linarith

lemma mask_vals_bounded: "mask_vals m \<subseteq> {..<SND_MASK_MAX}"
  by (auto simp: mask_vals_def)

lemma finite_mask_vals [simp]: "finite (mask_vals m)"
  using finite_subset [OF mask_vals_bounded] by blast

lemma mem_mask_vals:
  "i < MASK_SIZE \<Longrightarrow> k < 32 \<Longrightarrow> 32 * i + k \<in> mask_vals m \<longleftrightarrow> bit (bits m ! i) k"
  by (simp add: mask_vals_def)

lemma mask_vals_split:
  "v \<in> mask_vals m \<longleftrightarrow> (\<exists>i < MASK_SIZE. \<exists>k < 32. v = 32 * i + k \<and> bit (bits m ! i) k)"
proof
  assume "v \<in> mask_vals m"
  then have "v div 32 < MASK_SIZE" "v mod 32 < 32" "v = 32 * (v div 32) + v mod 32"
    "bit (bits m ! (v div 32)) (v mod 32)"
    by (auto simp: mask_vals_def)
  then show "\<exists>i < MASK_SIZE. \<exists>k < 32. v = 32 * i + k \<and> bit (bits m ! i) k" by blast
qed (auto simp: mem_mask_vals)

lemma snd_mask_empty_iff: "wf_mask m \<Longrightarrow> snd_mask_empty m \<longleftrightarrow> mask_vals m = {}"
proof -
  assume wf: "wf_mask m"
  have "snd_mask_empty m \<longleftrightarrow> (\<forall>i < MASK_SIZE. bits m ! i = 0)"
    using wf by (simp add: snd_mask_empty_def list_all_length wf_mask_def)
  also have "\<dots> \<longleftrightarrow> mask_vals m = {}"
    using u32_nonzero_bit by (auto simp: mask_vals_split set_eq_iff)
  finally show ?thesis .
qed

lemma wf_snd_mask_none [simp]: "wf_mask (snd_mask_none m)"
  by (simp add: wf_mask_def snd_mask_none_def)

lemma wf_snd_mask_any [simp]: "wf_mask (snd_mask_any m)"
  by (simp add: wf_mask_def snd_mask_any_def)

lemma mask_vals_none [simp]: "mask_vals (snd_mask_none m) = {}"
  by (auto simp: mask_vals_def snd_mask_none_def)

lemma mask_vals_any [simp]: "mask_vals (snd_mask_any m) = {..<SND_MASK_MAX}"
  by (auto simp: mask_vals_def snd_mask_any_def)

lemma same_word_bound: "(x :: nat) div 32 = y div 32 \<Longrightarrow> y < SND_MASK_MAX \<Longrightarrow> x < SND_MASK_MAX"
  using div_mult_mod_eq [of x 32] mod_less_divisor [of 32 x] less_mult_imp_div_less [of y 8 32]
  by simp

lemma mask_update_vals:
  assumes "wf_mask m" "unat v < SND_MASK_MAX"
  shows "mask_vals (m\<lparr>bits := (bits m)[MASK_OFS v := w]\<rparr>)
       = {x \<in> mask_vals m. x div 32 \<noteq> unat v div 32} \<union> {x. x div 32 = unat v div 32 \<and> bit w (x mod 32)}"
  using assms same_word_bound
  by (auto simp: mask_vals_def MASK_OFS_eq wf_mask_def nth_list_update)

lemma div_mod_32_eq: "(x :: nat) div 32 = y div 32 \<Longrightarrow> x mod 32 = y mod 32 \<longleftrightarrow> x = y"
  by (metis div_mult_mod_eq)

lemma snd_mask_reset_in:
  assumes "wf_mask m" "unat v < SND_MASK_MAX"
  obtains m' where "snd_mask_reset m v = Some m'" "wf_mask m'" "mask_vals m' = mask_vals m - {unat v}"
proof -
  let ?m' = "m\<lparr>bits := (bits m)[MASK_OFS v := bits m ! MASK_OFS v AND NOT (MASK_BIT v)]\<rparr>"
  have len: "MASK_OFS v < length (bits m)"
    using assms by (simp add: wf_mask_def MASK_OFS_less)
  then have "snd_mask_reset m v = Some ?m'" by (simp add: snd_mask_reset_def)
  moreover have "wf_mask ?m'" using assms by (simp add: wf_mask_def)
  moreover have "bit (bits m ! MASK_OFS v AND NOT (MASK_BIT v)) (x mod 32) \<longleftrightarrow> x \<in> mask_vals m \<and> x \<noteq> unat v"
    if "x div 32 = unat v div 32" for x
  proof -
    have "x < SND_MASK_MAX" using that assms(2) by (rule same_word_bound)
    then show ?thesis
      using that div_mod_32_eq [OF that]
      by (simp only: bit_and_iff bit_not_iff MASK_BIT_eq bit_single mod_less_divisor)
         (auto simp: mask_vals_def MASK_OFS_eq)
  qed
  then have "mask_vals ?m' = mask_vals m - {unat v}"
    using assms by (auto simp: mask_update_vals)
  ultimately show thesis by (rule that)
qed

lemma snd_mask_reset_out: "wf_mask m \<Longrightarrow> SND_MASK_MAX \<le> unat v \<Longrightarrow> snd_mask_reset m v = None"
  using MASK_OFS_less [of v] by (simp add: snd_mask_reset_def wf_mask_def)

lemma mask_leave_single_in:
  assumes "wf_mask m" "unat v < SND_MASK_MAX"
  obtains m' where "mask_leave_single m v = Some m'" "wf_mask m'" "mask_vals m' = mask_vals m \<inter> {unat v}"
proof -
  let ?w = "bits m ! MASK_OFS v AND MASK_BIT v"
  let ?m' = "(snd_mask_none m)\<lparr>bits := (bits (snd_mask_none m))[MASK_OFS v := ?w]\<rparr>"
  have len: "MASK_OFS v < MASK_SIZE" using assms by (simp add: MASK_OFS_less)
  then have "mask_leave_single m v = Some ?m'"
    using assms by (simp add: mask_leave_single_def snd_mask_test_def snd_mask_none_def wf_mask_def Let_def)
  moreover have "wf_mask ?m'" by (simp add: wf_mask_def snd_mask_none_def)
  moreover have "bit ?w (x mod 32) \<longleftrightarrow> x \<in> mask_vals m \<and> x = unat v"
    if "x div 32 = unat v div 32" for x
  proof -
    have "x < SND_MASK_MAX" using that assms(2) by (rule same_word_bound)
    then show ?thesis
      using that div_mod_32_eq [OF that]
      by (simp only: bit_and_iff bit_not_iff MASK_BIT_eq bit_single mod_less_divisor)
         (auto simp: mask_vals_def MASK_OFS_eq)
  qed
  then have "mask_vals ?m' = mask_vals m \<inter> {unat v}"
    using assms(2) by (subst mask_update_vals) auto
  ultimately show thesis by (rule that)
qed

lemma mask_leave_single_out:
  "wf_mask m \<Longrightarrow> SND_MASK_MAX \<le> unat v \<Longrightarrow> mask_leave_single m v = None"
  using MASK_OFS_less [of v] by (simp add: mask_leave_single_def snd_mask_test_def wf_mask_def)

lemma unat_u32_Suc: "unat (v :: u32) < 4294967295 \<Longrightarrow> unat (v + 1) = Suc (unat v)"
  by (simp add: unat_plus_if_size word_size)

lemma mask_reset_range_in:
  assumes "wf_mask m" "unat to < SND_MASK_MAX"
  obtains m' where "mask_reset_range m from to = Some m'" "wf_mask m'"
    "mask_vals m' = mask_vals m - {unat from..unat to}"
proof -
  have "\<exists>m'. mask_reset_range m from to = Some m' \<and> wf_mask m' \<and>
      mask_vals m' = mask_vals m - {unat from..unat to}"
    using assms(1)
  proof (induction "Suc (unat to) - unat from" arbitrary: m "from")
    case 0
    then show ?case by (subst mask_reset_range.simps) (auto simp: word_le_nat_alt)
  next
    case (Suc n)
    then have le: "unat from \<le> unat to" by simp
    with assms(2) Suc.prems obtain m1 where m1: "snd_mask_reset m from = Some m1" "wf_mask m1"
      "mask_vals m1 = mask_vals m - {unat from}"
      using snd_mask_reset_in [of m "from"] by auto
    have nxt: "unat (from + 1) = Suc (unat from)" using le assms(2) by (intro unat_u32_Suc) simp
    with Suc.hyps(2) le have "n = Suc (unat to) - unat (from + 1)" by simp
    with m1(2) obtain m' where "mask_reset_range m1 (from + 1) to = Some m'" "wf_mask m'"
      "mask_vals m' = mask_vals m1 - {unat (from + 1)..unat to}"
      using Suc.hyps(1) by blast
    with m1 le have "mask_reset_range m from to = Some m'"
      by (subst mask_reset_range.simps) (simp add: word_le_nat_alt)
    moreover have "mask_vals m' = mask_vals m - {unat from..unat to}"
      by (simp only: \<open>mask_vals m' = _\<close> m1(3) nxt atLeastAtMost_insertL [OF le, symmetric]
          Diff_insert2 [of _ _ "{Suc (unat from)..unat to}"])
    ultimately show ?case using \<open>wf_mask m'\<close> by blast
  qed
  with that show thesis by blast
qed

lemma mask_reset_range_out:
  assumes "wf_mask m" "unat from \<le> SND_MASK_MAX" "SND_MASK_MAX \<le> unat to"
  shows "mask_reset_range m from to = None"
  using assms(1,2)
proof (induction "SND_MASK_MAX - unat from" arbitrary: m "from")
  case 0
  then show ?case using assms(3)
    by (subst mask_reset_range.simps) (simp add: word_le_nat_alt snd_mask_reset_out)
next
  case (Suc n)
  then have lt: "unat from < SND_MASK_MAX" by simp
  with Suc.prems obtain m1 where m1: "snd_mask_reset m from = Some m1" "wf_mask m1"
    using snd_mask_reset_in [of m "from"] by auto
  have nxt: "unat (from + 1) = Suc (unat from)" using lt by (intro unat_u32_Suc) simp
  have "mask_reset_range m1 (from + 1) to = None"
    using Suc.hyps(1) [of "from + 1" m1] Suc.hyps(2) m1(2) nxt lt by simp
  with m1 show ?case
    using assms(3) lt by (subst mask_reset_range.simps) (simp add: word_le_nat_alt)
qed

lemma word_index_inj:
  assumes "k < 32" "l < 32"
  shows "32 * i + k = 32 * j + (l :: nat) \<longleftrightarrow> i = j \<and> k = l"
proof
  assume eq: "32 * i + k = 32 * j + l"
  have "i = (32 * i + k) div 32" "j = (32 * j + l) div 32" using assms by simp_all
  then have "i = j" using eq by simp
  with eq show "i = j \<and> k = l" by simp
qed simp

lemma mask_is_single_loop_Suc:
  "mask_is_single_loop ws (Suc c) \<longleftrightarrow> (\<forall>w \<in> set ws. w = 0)"
  by (induction ws) auto

lemma mask_is_single_loop_0:
  "mask_is_single_loop ws 0 \<longleftrightarrow>
     (\<forall>i < length ws. \<forall>j < length ws. \<forall>k l. bit (ws ! i) k \<longrightarrow> bit (ws ! j) l \<longrightarrow> i = j \<and> k = l)"
proof (induction ws)
  case Nil
  show ?case by simp
next
  case (Cons w ws)
  show ?case
  proof (cases "w = 0")
    case True
    with Cons show ?thesis by (simp add: All_less_Suc2)
  next
    case False
    then obtain n where n: "bit w n" using u32_nonzero_bit by blast
    have one: "w AND (w - 1) = 0 \<longleftrightarrow> (\<forall>k l. bit w k \<longrightarrow> bit w l \<longrightarrow> k = l)"
    proof
      assume "w AND (w - 1) = 0"
      with False and_minus_1_zero_iff obtain k where "k < 32" "w = push_bit k 1" by blast
      then show "\<forall>k l. bit w k \<longrightarrow> bit w l \<longrightarrow> k = l" by (metis bit_single)
    next
      assume u: "\<forall>k l. bit w k \<longrightarrow> bit w l \<longrightarrow> k = l"
      have "n < 32" using n bit_imp_le_length [of w n] by simp
      then have "w = push_bit n 1" using u n by (intro bit_eqI) (metis bit_single)
      with \<open>n < 32\<close> show "w AND (w - 1) = 0" using and_minus_1_zero_iff by blast
    qed
    have "(\<forall>v \<in> set ws. v = 0) \<longleftrightarrow> (\<forall>i < length ws. \<forall>k. \<not> bit (ws ! i) k)"
      by (simp add: all_set_conv_all_nth u32_zero_bit)
    with False one n show ?thesis
      by (simp add: mask_is_single_loop_Suc All_less_Suc2) blast
  qed
qed

lemma mask_is_single_iff:
  assumes "wf_mask m"
  shows "mask_is_single m \<longleftrightarrow> (\<forall>v \<in> mask_vals m. \<forall>w \<in> mask_vals m. v = w)"
proof
  assume L: "mask_is_single m"
  show "\<forall>v \<in> mask_vals m. \<forall>w \<in> mask_vals m. v = w"
    using L assms unfolding mask_is_single_def mask_is_single_loop_0 wf_mask_def
    by (metis mask_vals_split)
next
  assume R: "\<forall>v \<in> mask_vals m. \<forall>w \<in> mask_vals m. v = w"
  show "mask_is_single m"
    unfolding mask_is_single_def mask_is_single_loop_0
  proof (intro allI impI)
    fix i j k l
    assume a: "i < length (bits m)" "j < length (bits m)" "bit (bits m ! i) k" "bit (bits m ! j) l"
    then have kl: "k < 32" "l < 32" using bit_imp_le_length by fastforce+
    with a assms have "32 * i + k \<in> mask_vals m" "32 * j + l \<in> mask_vals m"
      by (simp_all add: wf_mask_def mem_mask_vals)
    with R have "32 * i + k = 32 * j + l" by blast
    with kl show "i = j \<and> k = l" by (simp add: word_index_inj)
  qed
qed

lemma ffs_bit:
  assumes "w \<noteq> 0"
  obtains k where "k < 32" "ffs w = int k + 1" "bit w k" "\<And>j. j < k \<Longrightarrow> \<not> bit w j"
proof -
  from assms u32_nonzero_bit obtain k0 where k0: "k0 < 32" "bit w k0" by blast
  from k0(2) obtain k where k: "bit w k" "\<And>j. j < k \<Longrightarrow> \<not> bit w j"
    using exists_least_iff [of "bit w"] by blast
  have "k < 32" using k(1) bit_imp_le_length [of w k] by simp
  with k have "List.find (bit w) [0..<32] = Some k"
    unfolding find_Some_iff by (intro exI [of _ k]) simp
  with k \<open>k < 32\<close> that show thesis by (simp add: ffs_def)
qed

lemma mask_get_min_loop_spec:
  assumes "\<exists>w \<in> set ws. w \<noteq> 0" "j + length ws \<le> MASK_SIZE"
  obtains i k where "i < length ws" "k < 32" "unat (mask_get_min_loop ws j) = 32 * (j + i) + k"
    "bit (ws ! i) k" "\<And>l. l < k \<Longrightarrow> \<not> bit (ws ! i) l" "\<And>l. l < i \<Longrightarrow> ws ! l = 0"
  using assms
proof (induction ws arbitrary: j thesis)
  case Nil
  then show ?case by simp
next
  case (Cons w ws)
  show ?case
  proof (cases "w = 0")
    case True
    with Cons.prems(2,3) have "\<exists>w \<in> set ws. w \<noteq> 0" "Suc j + length ws \<le> MASK_SIZE" by auto
    with Cons.IH obtain i k where "i < length ws" "k < 32"
      "unat (mask_get_min_loop ws (Suc j)) = 32 * (Suc j + i) + k"
      "bit (ws ! i) k" "\<And>l. l < k \<Longrightarrow> \<not> bit (ws ! i) l" "\<And>l. l < i \<Longrightarrow> ws ! l = 0"
      by blast
    with True show ?thesis
      by (intro Cons.prems(1) [of "Suc i" k]) (auto simp: nth_Cons split: nat.split)
  next
    case False
    then obtain k where k: "k < 32" "ffs w = int k + 1" "bit w k" "\<And>j. j < k \<Longrightarrow> \<not> bit w j"
      by (rule ffs_bit) blast
    have j: "j < 8" using Cons.prems by simp
    have "unat (of_int (ffs w - 1) + push_bit 5 (of_nat j) :: u32) = 32 * j + k"
    proof -
      have "of_int (ffs w - 1) + push_bit 5 (of_nat j) = (of_nat (32 * j + k) :: u32)"
        using k(2) by (simp add: push_bit_eq_mult)
      then show ?thesis using j k(1) by (simp only: unat_of_nat) simp
    qed
    with False k show ?thesis
      by (intro Cons.prems(1) [of 0 k]) auto
  qed
qed

lemma mask_get_min_spec:
  assumes "wf_mask m" "mask_vals m \<noteq> {}"
  shows "unat (mask_get_min m) = Min (mask_vals m)"
proof -
  have "\<exists>w \<in> set (bits m). w \<noteq> 0"
    using assms snd_mask_empty_iff by (auto simp: snd_mask_empty_def list_all_iff)
  then obtain i k where ik: "i < MASK_SIZE" "k < 32" "unat (mask_get_min m) = 32 * i + k"
    "bit (bits m ! i) k" "\<And>l. l < k \<Longrightarrow> \<not> bit (bits m ! i) l" "\<And>l. l < i \<Longrightarrow> bits m ! l = 0"
    using mask_get_min_loop_spec [of "bits m" 0] assms(1)
    by (auto simp: mask_get_min_def wf_mask_def)
  have "Min (mask_vals m) = 32 * i + k"
  proof (rule Min_eqI)
    fix v assume "v \<in> mask_vals m"
    then obtain i' k' where v: "i' < MASK_SIZE" "k' < 32" "v = 32 * i' + k'" "bit (bits m ! i') k'"
      by (auto simp: mask_vals_split)
    then have "i \<le> i'" "i = i' \<longrightarrow> k \<le> k'" using ik by (metis bit_0_eq bot_apply bot_bool_def not_less)+
    with v ik(2) show "32 * i + k \<le> v" by linarith
  qed (use ik in \<open>auto simp: mem_mask_vals\<close>)
  with ik show ?thesis by simp
qed

lemma unat_drop_bit: "unat (drop_bit b (v :: u32)) = unat v div 2 ^ b"
  using unat_u32_less [of v]
  by (simp add: unsigned_drop_bit_eq take_bit_nat_eq_self) (simp add: drop_bit_eq_div)

lemma ld2_loop_spec:
  assumes "b = 2 ^ n" "n \<le> 4" "unat v < 2 ^ (2 * b)"
  shows "\<exists>t. ld2_loop v b r = Some (r + of_nat t) \<and>
             (v \<noteq> 0 \<longrightarrow> 2 ^ t \<le> unat v \<and> unat v < 2 ^ Suc t)"
  using assms
proof (induction n arbitrary: b v r)
  case 0
  then have v: "unat v < 4" "b = 1" by simp_all
  show ?case
  proof (cases "v > 1")
    case False
    then have "v = 0 \<or> v = 1" by (simp add: word_less_nat_alt word_unat_eq_iff) linarith
    with False show ?thesis by (subst ld2_loop.simps) (auto intro!: exI [of _ 0])
  next
    case True
    have ge: "push_bit 1 1 \<le> v" using True by (simp add: word_less_nat_alt word_le_nat_alt)
    have "unat (drop_bit 1 v) = 1"
      unfolding unat_drop_bit using v True by (simp add: word_less_nat_alt div_nat_eqI)
    then have d: "drop_bit 1 v = 1" by (simp add: word_unat_eq_iff)
    have "ld2_loop v b r = Some (r + of_nat 1)"
      using True ge d v(2) by (subst ld2_loop.simps, subst ld2_loop.simps) simp
    with v True show ?thesis by (intro exI [of _ 1]) (simp add: word_less_nat_alt)
  qed
next
  case (Suc n)
  have b: "b div 2 = 2 ^ n" "b = 2 * 2 ^ n" using Suc.prems(1) by simp_all
  have b32: "b < 32" using Suc.prems(1,2) power_increasing [of "Suc n" 4 "2::nat"] by simp
  have n: "n \<le> 4" using Suc.prems by simp
  show ?case
  proof (cases "v > 1")
    case False
    then have "v = 0 \<or> v = 1" by (simp add: word_less_nat_alt word_unat_eq_iff) linarith
    with False show ?thesis by (subst ld2_loop.simps) (auto intro!: exI [of _ 0])
  next
    case True
    show ?thesis
    proof (cases "push_bit b 1 \<le> v")
      case ge: True
      then have le: "2 ^ b \<le> unat v"
        using unat_push_bit_1 [OF b32] by (simp only: word_le_nat_alt)
      have "unat (drop_bit b v) < 2 ^ b"
        using Suc.prems(3) unfolding unat_drop_bit
        by (intro less_mult_imp_div_less) (simp add: power_add [symmetric] mult_2)
      with Suc.IH [OF b(1) n, of "drop_bit b v" "r + of_nat b"] b obtain t where
        t: "ld2_loop (drop_bit b v) (b div 2) (r + of_nat b) = Some (r + of_nat b + of_nat t)"
        "drop_bit b v \<noteq> 0 \<longrightarrow> 2 ^ t \<le> unat v div 2 ^ b \<and> unat v div 2 ^ b < 2 ^ Suc t"
        by (auto simp: unat_drop_bit)
      have "0 < unat v div 2 ^ b" using le by (simp add: div_greater_zero_iff)
      then have "drop_bit b v \<noteq> 0" by (metis less_irrefl unat_0 unat_drop_bit)
      with t(2) have q: "2 ^ t \<le> unat v div 2 ^ b" "unat v div 2 ^ b < 2 ^ Suc t" by simp_all
      have "2 ^ (b + t) \<le> unat v" "unat v < 2 ^ Suc (b + t)"
        using q by (simp_all add: power_add less_eq_div_iff_mult_less_eq div_less_iff_less_mult mult.commute)
      moreover have "ld2_loop v b r = Some (r + of_nat (b + t))"
        using True ge t(1) by (subst ld2_loop.simps) (simp add: add.assoc)
      ultimately show ?thesis by blast
    next
      case lt: False
      then have "unat v < 2 ^ b"
        using unat_push_bit_1 [OF b32] by (simp only: word_le_nat_alt not_le)
      with Suc.IH [OF b(1) n, of v r] b obtain t where
        "ld2_loop v (b div 2) r = Some (r + of_nat t)"
        "v \<noteq> 0 \<longrightarrow> 2 ^ t \<le> unat v \<and> unat v < 2 ^ Suc t"
        by auto
      then show ?thesis
        using True lt by (intro exI [of _ t]) (subst ld2_loop.simps, simp)
    qed
  qed
qed

lemma ld2_spec:
  assumes "w \<noteq> 0"
  obtains t where "t < 32" "ld2 w = Some (of_nat t)" "bit w t" "\<And>j. t < j \<Longrightarrow> \<not> bit w j"
proof -
  obtain t where t: "ld2_loop w 16 0 = Some (0 + of_nat t)" "2 ^ t \<le> unat w" "unat w < 2 ^ Suc t"
    using ld2_loop_spec [of 16 4 w 0] unat_u32_less [of w] assms by auto
  have "\<not> bit w j" if "t < j" for j
    using t(3) that power_increasing [of "Suc t" j "2 :: nat"] by (intro bit_u32_low) simp
  moreover have "bit w t" using t by (intro bit_u32_top)
  moreover from this have "t < 32" using bit_imp_le_length [of w t] by simp
  ultimately show thesis using that t(1) by (simp add: ld2_def)
qed

lemma mask_get_max_loop_spec:
  assumes "\<exists>l < n. ws ! l \<noteq> 0" "n \<le> length ws" "n \<le> MASK_SIZE"
  shows "\<exists>i k r. i < n \<and> k < 32 \<and> mask_get_max_loop ws n = Some r \<and> unat r = 32 * i + k \<and>
    bit (ws ! i) k \<and> (\<forall>l. k < l \<longrightarrow> \<not> bit (ws ! i) l) \<and> (\<forall>l. i < l \<longrightarrow> l < n \<longrightarrow> ws ! l = 0)"
  using assms
proof (induction n)
  case 0
  then show ?case by simp
next
  case (Suc n)
  show ?case
  proof (cases "ws ! n = 0")
    case True
    with Suc.prems have "\<exists>l < n. ws ! l \<noteq> 0" by (auto simp: less_Suc_eq)
    with Suc.IH Suc.prems(2,3) obtain i k r where ik: "i < n" "k < 32"
      "mask_get_max_loop ws n = Some r" "unat r = 32 * i + k" "bit (ws ! i) k"
      "\<forall>l. k < l \<longrightarrow> \<not> bit (ws ! i) l" "\<forall>l. i < l \<longrightarrow> l < n \<longrightarrow> ws ! l = 0"
      by auto
    with True have "\<forall>l. i < l \<longrightarrow> l < Suc n \<longrightarrow> ws ! l = 0" by (simp add: less_Suc_eq)
    with ik True Suc.prems(2) show ?thesis
      by (intro exI [of _ i] exI [of _ k] exI [of _ r]) simp
  next
    case False
    then obtain k where k: "k < 32" "ld2 (ws ! n) = Some (of_nat k)" "bit (ws ! n) k"
      "\<And>j. k < j \<Longrightarrow> \<not> bit (ws ! n) j" by (rule ld2_spec) blast
    have eq: "of_nat k + push_bit 5 (of_nat n) = (of_nat (32 * n + k) :: u32)"
      by (simp add: push_bit_eq_mult)
    have "unat (of_nat (32 * n + k) :: u32) = 32 * n + k"
      using Suc.prems(3) k(1) by (simp only: unat_of_nat) simp
    with k eq False Suc.prems(2) show ?thesis
      by (intro exI [of _ n] exI [of _ k] exI [of _ "of_nat (32 * n + k)"]) simp
  qed
qed

lemma mask_get_max_spec:
  assumes "wf_mask m" "mask_vals m \<noteq> {}"
  obtains r where "mask_get_max m = Some r" "unat r = Max (mask_vals m)"
proof -
  have "\<exists>l < MASK_SIZE. bits m ! l \<noteq> 0"
    using assms snd_mask_empty_iff by (auto simp: snd_mask_empty_def list_all_length wf_mask_def)
  then obtain i k r where ik: "i < MASK_SIZE" "k < 32" "mask_get_max m = Some r" "unat r = 32 * i + k"
    "bit (bits m ! i) k" "\<And>l. k < l \<Longrightarrow> \<not> bit (bits m ! i) l"
    "\<And>l. i < l \<Longrightarrow> l < MASK_SIZE \<Longrightarrow> bits m ! l = 0"
    using mask_get_max_loop_spec [of MASK_SIZE "bits m"] assms(1)
    unfolding mask_get_max_def wf_mask_def by force
  have "Max (mask_vals m) = 32 * i + k"
  proof (rule Max_eqI)
    fix v assume "v \<in> mask_vals m"
    then obtain i' k' where v: "i' < MASK_SIZE" "k' < 32" "v = 32 * i' + k'" "bit (bits m ! i') k'"
      by (auto simp: mask_vals_split)
    then have "i' \<le> i" "i = i' \<longrightarrow> k' \<le> k" using ik by (metis bit_0_eq bot_apply bot_bool_def not_less)+
    with v ik(2) show "v \<le> 32 * i + k" by linarith
  qed (use ik in \<open>auto simp: mem_mask_vals\<close>)
  with ik that show thesis by simp
qed

lemma mask_get_min_less: "wf_mask m \<Longrightarrow> mask_vals m \<noteq> {} \<Longrightarrow> unat (mask_get_min m) < SND_MASK_MAX"
  using mask_get_min_spec [of m] Min_in [of "mask_vals m"] mask_vals_bounded [of m]
  by (metis finite_mask_vals lessThan_iff subsetD)

section \<open>Refinement of masks\<close>

lemma mask_single_leave:
  assumes "wf_mask m" "x \<in> mask_vals m" "unat v = x"
  obtains m' where "mask_leave_single m v = Some m'" "wf_mask m'" "mask_vals m' = {x}"
proof -
  have "unat v < SND_MASK_MAX" using assms mask_vals_bounded by blast
  with assms show thesis using that mask_leave_single_in [of m v] by auto
qed

lemma snd_mask_refine_first_spec:
  assumes "wf_mask m" "mask_vals m \<noteq> {}"
  shows "\<exists>m'. snd_mask_refine_first m = Some (if mask_is_single m then 0 else 1, m') \<and>
              wf_mask m' \<and> mask_vals m' = {Min (mask_vals m)}"
proof (cases "mask_is_single m")
  case True
  then have "mask_vals m = {Min (mask_vals m)}"
    using assms mask_is_single_iff [OF assms(1)] Min_in [OF finite_mask_vals assms(2)] by blast
  with True assms show ?thesis
    by (simp add: snd_mask_refine_first_def snd_mask_empty_iff)
next
  case False
  obtain m' where "mask_leave_single m (mask_get_min m) = Some m'" "wf_mask m'"
    "mask_vals m' = {Min (mask_vals m)}"
    using mask_single_leave [OF assms(1) Min_in [OF finite_mask_vals assms(2)] mask_get_min_spec [OF assms]]
    by blast
  with False assms show ?thesis
    by (simp add: snd_mask_refine_first_def snd_mask_empty_iff)
qed

lemma snd_mask_refine_last_spec:
  assumes "wf_mask m" "mask_vals m \<noteq> {}"
  shows "\<exists>m'. snd_mask_refine_last m = Some (if mask_is_single m then 0 else 1, m') \<and>
              wf_mask m' \<and> mask_vals m' = {Max (mask_vals m)}"
proof (cases "mask_is_single m")
  case True
  then have "mask_vals m = {Max (mask_vals m)}"
    using assms mask_is_single_iff [OF assms(1)] Max_in [OF finite_mask_vals assms(2)] by blast
  with True assms show ?thesis
    by (simp add: snd_mask_refine_last_def snd_mask_empty_iff)
next
  case False
  obtain r where r: "mask_get_max m = Some r" "unat r = Max (mask_vals m)"
    using mask_get_max_spec [OF assms] .
  obtain m' where "mask_leave_single m r = Some m'" "wf_mask m'"
    "mask_vals m' = {Max (mask_vals m)}"
    using mask_single_leave [OF assms(1) Max_in [OF finite_mask_vals assms(2)] r(2)]
    by blast
  with False r assms show ?thesis
    by (simp add: snd_mask_refine_last_def snd_mask_empty_iff)
qed

lemma snd_mask_refine_first_empty:
  "wf_mask m \<Longrightarrow> mask_vals m = {} \<Longrightarrow> snd_mask_refine_first m = Some (- ENOENT, m)"
  by (simp add: snd_mask_refine_first_def snd_mask_empty_iff)

lemma snd_mask_refine_last_empty:
  "wf_mask m \<Longrightarrow> mask_vals m = {} \<Longrightarrow> snd_mask_refine_last m = Some (- ENOENT, m)"
  by (simp add: snd_mask_refine_last_def snd_mask_empty_iff)

interpretation mask: param_domain wf_mask mask_vals snd_mask_empty mask_is_single
  snd_mask_refine_first snd_mask_refine_last
proof
  fix p
  assume wf: "wf_mask p"
  show "snd_mask_empty p \<longleftrightarrow> mask_vals p = {}" using wf by (rule snd_mask_empty_iff)
  assume ne: "\<not> snd_mask_empty p"
  then have ne': "mask_vals p \<noteq> {}" using wf snd_mask_empty_iff by blast
  show "snd_mask_refine_first p = Some (0, p)" "snd_mask_refine_last p = Some (0, p)" if "mask_is_single p"
    using ne that by (simp_all add: snd_mask_refine_first_def snd_mask_refine_last_def)
  assume ns: "\<not> mask_is_single p"
  have part: "lowest_part (mask_vals p) {Min (mask_vals p)}" "highest_part (mask_vals p) {Max (mask_vals p)}"
    using ne' by (auto simp: lowest_part_def highest_part_def order.strict_iff_order)
  show "\<exists>p'. snd_mask_refine_first p = Some (1, p') \<and> wf_mask p' \<and> \<not> snd_mask_empty p' \<and>
      mask_is_single p' \<and> lowest_part (mask_vals p) (mask_vals p')"
    using snd_mask_refine_first_spec [OF wf ne'] ns part(1)
    by (auto simp: snd_mask_empty_iff mask_is_single_iff)
  show "\<exists>p'. snd_mask_refine_last p = Some (1, p') \<and> wf_mask p' \<and> \<not> snd_mask_empty p' \<and>
      mask_is_single p' \<and> highest_part (mask_vals p) (mask_vals p')"
    using snd_mask_refine_last_spec [OF wf ne'] ns part(2)
    by (auto simp: snd_mask_empty_iff mask_is_single_iff)
qed (simp_all add: snd_mask_refine_first_def snd_mask_refine_last_def)

lemma snd_mask_refine_min_cases:
  assumes "wf_mask m" "mask_vals m \<noteq> {}" "unat val \<le> SND_MASK_MAX"
  shows "\<exists>m'. snd_mask_refine_min m val =
           Some (if mask_vals m \<subseteq> {unat val..} then 0
                 else if mask_vals m \<inter> {unat val..} = {} then - EINVAL else 1, m') \<and>
         wf_mask m' \<and> mask_vals m' = mask_vals m \<inter> {unat val..}"
proof (cases "val \<le> mask_get_min m")
  case True
  then have "unat val \<le> Min (mask_vals m)"
    using mask_get_min_spec [OF assms(1,2)] by (simp add: word_le_nat_alt)
  then have sub: "mask_vals m \<subseteq> {unat val..}" using assms(2) by auto
  with True assms show ?thesis
    by (auto simp: snd_mask_refine_min_def snd_mask_empty_iff)
next
  case False
  have "Min (mask_vals m) < unat val"
    using False mask_get_min_spec [OF assms(1,2)] by (simp add: word_le_nat_alt)
  then have ns: "\<not> mask_vals m \<subseteq> {unat val..}" and pos: "0 < unat val"
    using Min_in [OF finite_mask_vals assms(2)] by auto
  have pred: "unat (val - 1) = unat val - 1" using pos by (simp add: unat_minus_one unat_gt_0)
  then have "unat (val - 1) < SND_MASK_MAX" using assms(3) pos by simp
  then obtain m' where m': "mask_reset_range m 0 (val - 1) = Some m'" "wf_mask m'"
    "mask_vals m' = mask_vals m - {unat (0 :: u32)..unat (val - 1)}"
    by (rule mask_reset_range_in [OF assms(1)])
  have "mask_vals m' = mask_vals m \<inter> {unat val..}"
    unfolding m'(3) pred using pos by auto
  with m' False ns assms show ?thesis
    by (simp add: snd_mask_refine_min_def snd_mask_empty_iff)
qed

lemma snd_mask_refine_max_cases:
  assumes "wf_mask m" "mask_vals m \<noteq> {}"
  shows "\<exists>m'. snd_mask_refine_max m val =
           Some (if mask_vals m \<subseteq> {..unat val} then 0
                 else if mask_vals m \<inter> {..unat val} = {} then - EINVAL else 1, m') \<and>
         wf_mask m' \<and> mask_vals m' = mask_vals m \<inter> {..unat val}"
proof -
  obtain r where r: "mask_get_max m = Some r" "unat r = Max (mask_vals m)"
    using mask_get_max_spec [OF assms] .
  show ?thesis
  proof (cases "r \<le> val")
    case True
    then have "Max (mask_vals m) \<le> unat val" using r(2) by (simp add: word_le_nat_alt)
    then have "mask_vals m \<subseteq> {..unat val}" using assms(2) by auto
    with True r assms show ?thesis
      by (auto simp: snd_mask_refine_max_def snd_mask_empty_iff)
  next
    case False
    then have lt: "unat val < Max (mask_vals m)" using r(2) by (simp add: word_le_nat_alt)
    then have ns: "\<not> mask_vals m \<subseteq> {..unat val}"
      using Max_in [OF finite_mask_vals assms(2)] by auto
    have "Max (mask_vals m) < SND_MASK_MAX"
      using Max_in [OF finite_mask_vals assms(2)] mask_vals_bounded by blast
    then have nxt: "unat (val + 1) = Suc (unat val)" using lt by (intro unat_u32_Suc) simp
    obtain m' where m': "mask_reset_range m (val + 1) (of_nat SND_MASK_MAX - 1) = Some m'" "wf_mask m'"
      "mask_vals m' = mask_vals m - {unat (val + 1)..unat (of_nat SND_MASK_MAX - 1 :: u32)}"
      by (rule mask_reset_range_in [OF assms(1), of "of_nat SND_MASK_MAX - 1"]) simp
    have "mask_vals m' = mask_vals m \<inter> {..unat val}"
      unfolding m'(3) nxt using mask_vals_bounded [of m] by (auto simp: not_le subset_iff)
    with m' False r ns assms show ?thesis
      by (simp add: snd_mask_refine_max_def snd_mask_empty_iff)
  qed
qed

lemma snd_mask_refine_set_cases:
  assumes "wf_mask m" "mask_vals m \<noteq> {}" "unat val < SND_MASK_MAX"
  shows "\<exists>m'. snd_mask_refine_set m val =
           Some (if unat val \<notin> mask_vals m then - EINVAL
                 else if mask_vals m = {unat val} then 0 else 1, m') \<and>
         wf_mask m' \<and> mask_vals m' = mask_vals m \<inter> {unat val}"
proof -
  obtain m' where m': "mask_leave_single m val = Some m'" "wf_mask m'" "mask_vals m' = mask_vals m \<inter> {unat val}"
    using mask_leave_single_in [OF assms(1,3)] .
  have "mask_is_single m \<longleftrightarrow> mask_vals m = {unat val}" if "unat val \<in> mask_vals m"
    using that mask_is_single_iff [OF assms(1)] by auto
  with m' assms show ?thesis
    by (auto simp: snd_mask_refine_set_def snd_mask_empty_iff)
qed


lemma memcmp_bytes_le:
  assumes "list_all2 (\<le>) as bs"
  shows "memcmp_bytes as bs \<le> 0 \<and> (memcmp_bytes as bs = 0 \<longleftrightarrow> as = bs)"
  using assms
proof (induction rule: list_all2_induct)
  case (Cons a as b bs)
  then show ?case by (auto simp: word_le_def word_uint_eq_iff)
qed simp

lemma word_bytes_bit: "n < 32 \<Longrightarrow> bit (word_bytes w ! (n div 8)) (n mod 8) \<longleftrightarrow> bit w n"
  by (simp add: word_bytes_def less_mult_imp_div_less bit_unsigned_iff bit_drop_bit_eq)

lemma word_bytes_inj: "word_bytes v = word_bytes w \<longleftrightarrow> v = w"
proof
  assume "word_bytes v = word_bytes w"
  then show "v = w" using word_bytes_bit [of _ v] word_bytes_bit [of _ w]
    by (intro bit_word_eqI) simp
qed simp

lemma word_bytes_and_le: "list_all2 (\<le>) (word_bytes (v AND w)) (word_bytes v)"
proof -
  have "(ucast (a AND b) :: u8) \<le> ucast a" for a b :: u32
    by (simp add: unsigned_and_eq word_and_le2)
  then show ?thesis by (simp add: word_bytes_def list_all2_conv_all_nth)
qed

lemma length_word_bytes [simp]: "length (word_bytes w) = 4"
  by (simp add: word_bytes_def)

lemma mask_memcmp_and:
  assumes "wf_mask m" "wf_mask v"
  defines "m' \<equiv> m\<lparr>bits := map2 (AND) (bits m) (bits v)\<rparr>"
  shows "mask_memcmp m' m \<le> 0 \<and> (mask_memcmp m' m = 0 \<longleftrightarrow> m' = m)"
proof -
  have len: "length (bits m) = length (bits v)" using assms by (simp add: wf_mask_def)
  have "list_all2 (\<le>) (concat (map word_bytes (map2 (AND) (bits m) (bits v)))) (concat (map word_bytes (bits m)))"
    using len by (induction rule: list_induct2) (simp_all add: list_all2_appendI word_bytes_and_le)
  moreover have "concat (map word_bytes (bits m')) = concat (map word_bytes (bits m)) \<longleftrightarrow> m' = m"
  proof -
    have "concat (map word_bytes (bits m')) = concat (map word_bytes (bits m)) \<longleftrightarrow>
          map word_bytes (bits m') = map word_bytes (bits m)"
      using len by (intro concat_eq_concat_iff) (auto simp: m'_def set_zip)
    also have "\<dots> \<longleftrightarrow> bits m' = bits m"
      by (rule inj_map_eq_map) (simp add: inj_def word_bytes_inj)
    also have "\<dots> \<longleftrightarrow> m' = m" by (cases m) (simp add: m'_def)
    finally show ?thesis .
  qed
  ultimately show ?thesis
    using memcmp_bytes_le unfolding mask_memcmp_def m'_def by auto
qed

lemma snd_mask_refine_vals:
  assumes "wf_mask m" "wf_mask v"
  shows "wf_mask (snd (snd_mask_refine m v)) \<and>
         mask_vals (snd (snd_mask_refine m v)) = mask_vals m \<inter> mask_vals v"
  using assms
  by (auto simp: snd_mask_refine_def Let_def wf_mask_def mask_vals_def bit_and_iff)


section \<open>Properties\<close>

definition mask_narrowed_to :: "snd_mask \<Rightarrow> nat set \<Rightarrow> (int \<times> snd_mask) option \<Rightarrow> bool" where
  "mask_narrowed_to m S res \<longleftrightarrow>
     (\<exists>m'. res = Some (if mask_vals m \<inter> S = {} then - EINVAL
                      else if mask_vals m \<subseteq> S then 0 else 1, m') \<and>
           wf_mask m' \<and> mask_vals m' = mask_vals m \<inter> S)"

text \<open>C33. For a mask that is not empty, \<^verbatim>\<open>snd_mask_refine_first\<close> leaves exactly its smallest value and
  \<^verbatim>\<open>snd_mask_refine_last\<close> exactly its largest one; both report 0 when the mask already had a single
  value and 1 otherwise.  In particular the bisection \<^verbatim>\<open>ld2\<close> and the scans over the words terminate
  and find the top and the bottom bit.\<close>

theorem mask_refine_first_last:
  assumes "wf_mask m" "mask_vals m \<noteq> {}"
  shows "\<exists>a b. snd_mask_refine_first m = Some (if card (mask_vals m) = 1 then 0 else 1, a) \<and>
               snd_mask_refine_last m = Some (if card (mask_vals m) = 1 then 0 else 1, b) \<and>
               mask_vals a = {Min (mask_vals m)} \<and> mask_vals b = {Max (mask_vals m)}"
proof -
  have "mask_is_single m \<longleftrightarrow> card (mask_vals m) = 1"
    using assms mask_is_single_iff [OF assms(1)] by (auto simp: card_1_singleton_iff)
  with snd_mask_refine_first_spec [OF assms] snd_mask_refine_last_spec [OF assms] show ?thesis
    by auto
qed

definition demo_mask :: snd_mask where
  "demo_mask = \<lparr>bits = [0x44, 0, 1, 0, 0, 0, 0, 0]\<rparr>"

lemma demo_mask_ok: "wf_mask demo_mask" "mask_vals demo_mask \<noteq> {}"
proof -
  show wf: "wf_mask demo_mask" by (simp add: wf_mask_def demo_mask_def)
  show "mask_vals demo_mask \<noteq> {}"
    using snd_mask_empty_iff [OF wf] by (simp add: snd_mask_empty_def demo_mask_def)
qed

theorem mask_refine_first_last_witness:
  "wf_mask demo_mask \<and> mask_vals demo_mask \<noteq> {} \<and>
   (\<exists>a b. snd_mask_refine_first demo_mask = Some (if card (mask_vals demo_mask) = 1 then 0 else 1, a) \<and>
          snd_mask_refine_last demo_mask = Some (if card (mask_vals demo_mask) = 1 then 0 else 1, b) \<and>
          mask_vals a = {Min (mask_vals demo_mask)} \<and> mask_vals b = {Max (mask_vals demo_mask)})"
  using mask_refine_first_last [OF demo_mask_ok] demo_mask_ok by blast

text \<open>C36. \<^verbatim>\<open>snd_mask_refine_min\<close>, \<^verbatim>\<open>snd_mask_refine_max\<close> and \<^verbatim>\<open>snd_mask_refine_set\<close> intersect the mask
  with the values from \<^verbatim>\<open>val\<close> upwards, up to \<^verbatim>\<open>val\<close>, and with \<^verbatim>\<open>val\<close> alone; they report
  \<^verbatim>\<open>-EINVAL\<close> exactly when nothing is left, and otherwise whether the mask changed.\<close>

theorem mask_refine_bounds_exact:
  assumes "wf_mask m" "mask_vals m \<noteq> {}" "unat val < SND_MASK_MAX"
  shows "mask_narrowed_to m {unat val..} (snd_mask_refine_min m val) \<and>
         mask_narrowed_to m {..unat val} (snd_mask_refine_max m val) \<and>
         mask_narrowed_to m {unat val} (snd_mask_refine_set m val)"
proof (intro conjI)
  have ex: "\<not> mask_vals m \<subseteq> S" if "mask_vals m \<inter> S = {}" for S using assms(2) that by blast
  have "unat val \<le> SND_MASK_MAX" using assms(3) by simp
  from snd_mask_refine_min_cases [OF assms(1,2) this]
  show "mask_narrowed_to m {unat val..} (snd_mask_refine_min m val)"
    using ex [of "{unat val..}"] unfolding mask_narrowed_to_def by presburger
  show "mask_narrowed_to m {..unat val} (snd_mask_refine_max m val)"
    using ex [of "{..unat val}"] snd_mask_refine_max_cases [OF assms(1,2), of val]
    unfolding mask_narrowed_to_def by presburger
  have "mask_vals m = {unat val} \<longleftrightarrow> mask_vals m \<subseteq> {unat val}"
    and "unat val \<notin> mask_vals m \<longleftrightarrow> mask_vals m \<inter> {unat val} = {}"
    using assms(2) by blast+
  then show "mask_narrowed_to m {unat val} (snd_mask_refine_set m val)"
    using snd_mask_refine_set_cases [OF assms] unfolding mask_narrowed_to_def by presburger
qed

theorem mask_refine_bounds_exact_witness:
  "wf_mask demo_mask \<and> mask_vals demo_mask \<noteq> {} \<and> unat (5 :: u32) < SND_MASK_MAX \<and>
   mask_narrowed_to demo_mask {unat (5 :: u32)..} (snd_mask_refine_min demo_mask 5) \<and>
   mask_narrowed_to demo_mask {..unat (5 :: u32)} (snd_mask_refine_max demo_mask 5) \<and>
   mask_narrowed_to demo_mask {unat (5 :: u32)} (snd_mask_refine_set demo_mask 5)"
  using mask_refine_bounds_exact [OF demo_mask_ok, of 5] demo_mask_ok by simp

text \<open>A value that no mask can hold makes the code leave the eight words of the mask:
  \<^verbatim>\<open>snd_mask_refine_min\<close> with a value above 256 clears bits past the end of \<^verbatim>\<open>bits\<close>, and
  \<^verbatim>\<open>snd_mask_refine_set\<close> with a value from 256 on reads and writes there.  \<^verbatim>\<open>snd_mask_refine_max\<close> has no
  such input.\<close>

theorem mask_refine_out_of_bounds:
  assumes "wf_mask m" "mask_vals m \<noteq> {}"
  shows "(snd_mask_refine_min m val = None \<longleftrightarrow> SND_MASK_MAX < unat val) \<and>
         (snd_mask_refine_set m val = None \<longleftrightarrow> SND_MASK_MAX \<le> unat val) \<and>
         snd_mask_refine_max m val \<noteq> None"
proof (intro conjI)
  show "snd_mask_refine_min m val = None \<longleftrightarrow> SND_MASK_MAX < unat val"
  proof (cases "SND_MASK_MAX < unat val")
    case True
    then have "\<not> val \<le> mask_get_min m"
      using mask_get_min_less [OF assms] by (simp add: word_le_nat_alt)
    moreover have "unat (val - 1) = unat val - 1"
      using True by (intro unat_minus_one) auto
    then have "mask_reset_range m 0 (val - 1) = None"
      using True by (intro mask_reset_range_out [OF assms(1)]) auto
    ultimately show ?thesis using True assms by (simp add: snd_mask_refine_min_def snd_mask_empty_iff)
  next
    case False
    with snd_mask_refine_min_cases [OF assms, of val] show ?thesis by auto
  qed
  show "snd_mask_refine_set m val = None \<longleftrightarrow> SND_MASK_MAX \<le> unat val"
  proof (cases "SND_MASK_MAX \<le> unat val")
    case True
    with mask_leave_single_out [OF assms(1)] assms show ?thesis
      by (simp add: snd_mask_refine_set_def snd_mask_empty_iff)
  next
    case False
    with snd_mask_refine_set_cases [OF assms, of val] show ?thesis by auto
  qed
  show "snd_mask_refine_max m val \<noteq> None"
    using snd_mask_refine_max_cases [OF assms, of val] by auto
qed

theorem mask_refine_out_of_bounds_witness:
  "wf_mask demo_mask \<and> mask_vals demo_mask \<noteq> {} \<and>
   snd_mask_refine_min demo_mask 300 = None \<and> snd_mask_refine_set demo_mask 300 = None"
  using mask_refine_out_of_bounds [OF demo_mask_ok, of 300] demo_mask_ok by simp

text \<open>\<^verbatim>\<open>snd_mask_refine\<close> intersects two masks.  Its result is 0 exactly when the intersection is not
  empty and equal to the old mask; because the comparison is a \<^verbatim>\<open>memcmp\<close> of a mask with a superset of
  it, every change is reported by a negative number, as an error is.\<close>

theorem snd_mask_refine_exact:
  assumes "wf_mask m" "wf_mask v"
  shows "mask_vals (snd (snd_mask_refine m v)) = mask_vals m \<inter> mask_vals v \<and>
         (fst (snd_mask_refine m v) = 0 \<longleftrightarrow>
            mask_vals m \<inter> mask_vals v \<noteq> {} \<and> snd (snd_mask_refine m v) = m) \<and>
         fst (snd_mask_refine m v) \<le> 0"
proof -
  have "wf_mask (m\<lparr>bits := map2 (AND) (bits m) (bits v)\<rparr>)"
    and "mask_vals (m\<lparr>bits := map2 (AND) (bits m) (bits v)\<rparr>) = mask_vals m \<inter> mask_vals v"
    using snd_mask_refine_vals [OF assms] by (auto simp: snd_mask_refine_def Let_def split: if_splits)
  then show ?thesis
    using mask_memcmp_and [OF assms] snd_mask_refine_vals [OF assms]
    by (auto simp: snd_mask_refine_def Let_def snd_mask_empty_iff)
qed

theorem snd_mask_refine_exact_witness:
  "wf_mask demo_mask \<and>
   mask_vals (snd (snd_mask_refine demo_mask (snd_mask_any demo_mask))) =
     mask_vals demo_mask \<inter> mask_vals (snd_mask_any demo_mask)"
  using snd_mask_refine_exact [OF demo_mask_ok(1) wf_snd_mask_any] demo_mask_ok(1) by simp

end
