(* ===== verification/Pcm_Interval.thy ===== *)
theory Pcm_Interval
  imports Param_Domain
begin

text \<open>
  The intervals of \<^verbatim>\<open>src/src/pcm_params.c\<close> (lines 189 to 339): \<^verbatim>\<open>snd_interval_t\<close> as a record and one
  definition per operation.  The two bounds are 32-bit words, so that \<^verbatim>\<open>min++\<close> and \<^verbatim>\<open>max--\<close> wrap
  around; the one-bit fields are booleans.  An operation that changes the interval in place and
  returns a status is a function to the status and the new interval.

  The meaning of an interval is a set of reals, restricted to the integers when the flag
  \<^verbatim>\<open>integer\<close> is set; the lemmas show which of the refinements compute intersections of these sets,
  and where the wrap-around makes them fail to.
\<close>

section \<open>Definitions\<close>

record snd_interval =
  imin :: u32
  imax :: u32
  openmin :: bool
  openmax :: bool
  integer :: bool
  empty :: bool

definition interval_set_any :: "snd_interval \<Rightarrow> snd_interval" where
  "interval_set_any i = i\<lparr>imin := 0, openmin := False, imax := - 1, openmax := False,
     integer := False, empty := False\<rparr>"

definition interval_is_full :: "snd_interval \<Rightarrow> bool" where
  "interval_is_full i \<longleftrightarrow> imin i = 0 \<and> \<not> openmin i \<and> imax i = - 1 \<and> \<not> openmax i"

definition interval_is_single :: "snd_interval \<Rightarrow> bool" where
  "interval_is_single i \<longleftrightarrow> imin i = imax i \<or> (imin i + 1 = imax i \<and> openmax i)"

definition interval_check_empty :: "snd_interval \<Rightarrow> int \<times> snd_interval" where
  "interval_check_empty i =
     (if imax i < imin i \<or> (imin i = imax i \<and> (openmin i \<or> openmax i))
      then (- 1, i\<lparr>empty := True\<rparr>) else (0, i))"

definition snd_interval_refine_min :: "snd_interval \<Rightarrow> u32 \<Rightarrow> bool \<Rightarrow> bool \<Rightarrow> int \<times> snd_interval" where
  "snd_interval_refine_min i mn opn intg =
     (if empty i then (- ENOENT, i)
      else
        let (changed, i) =
              (if imin i < mn then (1, i\<lparr>imin := mn, openmin := opn\<rparr>)
               else if imin i = mn \<and> \<not> openmin i \<and> opn then (1, i\<lparr>openmin := True\<rparr>)
               else (0, i));
            (changed, i) = (if \<not> integer i \<and> intg then (1, i\<lparr>integer := True\<rparr>) else (changed, i));
            i = (if integer i \<and> openmin i then i\<lparr>imin := imin i + 1, openmin := False\<rparr> else i);
            (err, i) = interval_check_empty i
        in (if err \<noteq> 0 then - EINVAL else changed, i))"

definition snd_interval_refine_max :: "snd_interval \<Rightarrow> u32 \<Rightarrow> bool \<Rightarrow> bool \<Rightarrow> int \<times> snd_interval" where
  "snd_interval_refine_max i mx opn intg =
     (if empty i then (- ENOENT, i)
      else
        let (changed, i) =
              (if mx < imax i then (1, i\<lparr>imax := mx, openmax := opn\<rparr>)
               else if imax i = mx \<and> \<not> openmax i \<and> opn then (1, i\<lparr>openmax := True\<rparr>)
               else (0, i));
            (changed, i) = (if \<not> integer i \<and> intg then (1, i\<lparr>integer := True\<rparr>) else (changed, i));
            i = (if integer i \<and> openmax i then i\<lparr>imax := imax i - 1, openmax := False\<rparr> else i);
            (err, i) = interval_check_empty i
        in (if err \<noteq> 0 then - EINVAL else changed, i))"

text \<open>The results of the two calls are 0 or 1 here, so that \<^verbatim>\<open>changed |= err\<close> is their maximum.\<close>

definition snd_interval_refine :: "snd_interval \<Rightarrow> snd_interval \<Rightarrow> int \<times> snd_interval" where
  "snd_interval_refine i v =
     (let (err, i) = snd_interval_refine_min i (imin v) (openmin v) (integer v) in
      if err < 0 then (err, i)
      else let changed = err;
               (err, i) = snd_interval_refine_max i (imax v) (openmax v) (integer v) in
      if err < 0 then (err, i)
      else let changed = changed OR err;
               i = (if \<not> integer i \<and> \<not> openmin i \<and> \<not> openmax i \<and> imin i = imax i
                    then i\<lparr>integer := True\<rparr> else i)
           in (changed, i))"

definition snd_interval_refine_first :: "snd_interval \<Rightarrow> int \<times> snd_interval" where
  "snd_interval_refine_first i =
     (if empty i then (- ENOENT, i)
      else if interval_is_single i then (0, i)
      else let i = i\<lparr>imax := imin i, openmax := openmin i\<rparr>;
               i = (if openmax i then i\<lparr>imax := imax i + 1\<rparr> else i)
           in (1, i))"

definition snd_interval_refine_last :: "snd_interval \<Rightarrow> int \<times> snd_interval" where
  "snd_interval_refine_last i =
     (if empty i then (- ENOENT, i)
      else if interval_is_single i then (0, i)
      else let i = i\<lparr>imin := imax i, openmin := openmax i\<rparr>;
               i = (if openmin i then i\<lparr>imin := imin i - 1\<rparr> else i)
           in (1, i))"

definition snd_interval_refine_set :: "snd_interval \<Rightarrow> u32 \<Rightarrow> int \<times> snd_interval" where
  "snd_interval_refine_set i val =
     (let t = \<lparr>imin = val, imax = val, openmin = False, openmax = False, integer = True, empty = False\<rparr>
      in snd_interval_refine i t)"

section \<open>Meaning\<close>

definition uval :: "u32 \<Rightarrow> real" where
  "uval w = real (unat w)"

definition above_min :: "snd_interval \<Rightarrow> real \<Rightarrow> bool" where
  "above_min i x \<longleftrightarrow> (if openmin i then uval (imin i) < x else uval (imin i) \<le> x)"

definition below_max :: "snd_interval \<Rightarrow> real \<Rightarrow> bool" where
  "below_max i x \<longleftrightarrow> (if openmax i then x < uval (imax i) else x \<le> uval (imax i))"

definition interval_vals :: "snd_interval \<Rightarrow> real set" where
  "interval_vals i = {x. above_min i x \<and> below_max i x \<and> (integer i \<longrightarrow> x \<in> \<int>)}"

text \<open>The state every sequence of refinements keeps: the flag \<^verbatim>\<open>empty\<close> agrees with the bounds, and
  an integer interval has closed bounds.\<close>

definition bounds_empty :: "snd_interval \<Rightarrow> bool" where
  "bounds_empty i \<longleftrightarrow> imax i < imin i \<or> (imin i = imax i \<and> (openmin i \<or> openmax i))"

definition wf_interval :: "snd_interval \<Rightarrow> bool" where
  "wf_interval i \<longleftrightarrow> (empty i \<longleftrightarrow> bounds_empty i) \<and> (integer i \<longrightarrow> \<not> openmin i \<and> \<not> openmax i)"

section \<open>Emptiness and single values\<close>

lemma uval_less [simp]: "uval a < uval b \<longleftrightarrow> a < b"
  by (simp add: uval_def word_less_nat_alt del: of_nat_unat)

lemma uval_le [simp]: "uval a \<le> uval b \<longleftrightarrow> a \<le> b"
  by (simp add: uval_def word_le_nat_alt del: of_nat_unat)

lemma uval_eq [simp]: "uval a = uval b \<longleftrightarrow> a = b"
  by (simp add: uval_def word_unat_eq_iff del: of_nat_unat)

lemma uval_Ints [simp]: "uval a \<in> \<int>"
  by (simp add: uval_def del: of_nat_unat)

lemma unat_u32_inc: "(a :: u32) < b \<Longrightarrow> unat (a + 1) = unat a + 1"
  using unat_u32_less [of b] by (simp add: word_less_nat_alt unat_word_ariths)

lemma unat_u32_dec: "(a :: u32) < b \<Longrightarrow> unat (b - 1) = unat b - 1"
  by (metis unat_minus_one word_not_simps(1))

lemma uval_inc: "a < b \<Longrightarrow> uval (a + 1) = uval a + 1"
  by (simp add: uval_def unat_u32_inc del: of_nat_unat)

lemma uval_dec: "a < b \<Longrightarrow> uval (b - 1) = uval b - 1"
  by (auto simp add: uval_def unat_u32_dec word_less_nat_alt of_nat_diff simp del: of_nat_unat)

lemma u32_inc_le: "(a :: u32) < b \<Longrightarrow> a + 1 \<le> b"
  by (simp add: word_le_nat_alt unat_u32_inc) (simp add: word_less_nat_alt)

lemma Ints_succ_le: "x \<in> \<int> \<Longrightarrow> uval a < x \<Longrightarrow> uval a + 1 \<le> (x :: real)"
proof -
  assume "x \<in> \<int>" "uval a < x"
  then obtain k where "x = of_int k" by (auto elim: Ints_cases)
  with \<open>uval a < x\<close> have "int (unat a) < k" by (simp add: uval_def del: of_nat_unat)
  then have "int (unat a) + 1 \<le> k" by simp
  then have "real_of_int (int (unat a) + 1) \<le> real_of_int k" by (simp only: of_int_le_iff)
  with \<open>x = of_int k\<close> show "uval a + 1 \<le> x" by (simp add: uval_def del: of_nat_unat)
qed

lemma Ints_le_pred: "x \<in> \<int> \<Longrightarrow> x < uval a \<Longrightarrow> (x :: real) \<le> uval a - 1"
proof -
  assume "x \<in> \<int>" "x < uval a"
  then obtain k where "x = of_int k" by (auto elim: Ints_cases)
  with \<open>x < uval a\<close> have "k < int (unat a)" by (simp add: uval_def del: of_nat_unat)
  then have "k + 1 \<le> int (unat a)" by simp
  then have "real_of_int (k + 1) \<le> real_of_int (int (unat a))" by (simp only: of_int_le_iff)
  with \<open>x = of_int k\<close> show "x \<le> uval a - 1" by (simp add: uval_def del: of_nat_unat)
qed

lemma bounds_not_empty_vals:
  assumes "\<not> bounds_empty i" "integer i \<longrightarrow> \<not> openmin i \<and> \<not> openmax i"
  shows "interval_vals i \<noteq> {}"
proof (cases "openmin i \<or> openmax i")
  case True
  then have "uval (imin i) < uval (imax i)"
    using assms(1) by (auto simp: bounds_empty_def)
  then have "(uval (imin i) + uval (imax i)) / 2 \<in> interval_vals i"
    using True assms(2) unfolding interval_vals_def above_min_def below_max_def by (auto simp del: uval_less uval_le)
  then show ?thesis by blast
next
  case False
  then have "uval (imin i) \<in> interval_vals i"
    using assms(1) by (auto simp: interval_vals_def above_min_def below_max_def bounds_empty_def)
  then show ?thesis by blast
qed

lemma bounds_empty_vals:
  assumes "bounds_empty i"
  shows "interval_vals i = {}"
proof -
  have "uval (imax i) < uval (imin i) \<or> uval (imin i) = uval (imax i) \<and> (openmin i \<or> openmax i)"
    using assms by (simp add: bounds_empty_def)
  then show ?thesis
    unfolding interval_vals_def above_min_def below_max_def
    by (auto simp del: uval_less uval_eq split: if_splits)
qed

lemma interval_empty_iff: "wf_interval i \<Longrightarrow> empty i \<longleftrightarrow> interval_vals i = {}"
  using bounds_empty_vals bounds_not_empty_vals unfolding wf_interval_def by blast

lemma wf_interval_set_any [simp]: "wf_interval (interval_set_any i)"
  by (simp add: wf_interval_def interval_set_any_def bounds_empty_def)

lemma not_single_bounds:
  assumes "wf_interval i" "\<not> empty i" "\<not> interval_is_single i"
  shows "imin i < imax i" "uval (imin i) + 1 < uval (imax i) \<or> uval (imin i) + 1 = uval (imax i) \<and> \<not> openmax i"
proof -
  show lt: "imin i < imax i"
    using assms by (auto simp: wf_interval_def bounds_empty_def interval_is_single_def not_less)
  have "imin i + 1 < imax i \<or> imin i + 1 = imax i \<and> \<not> openmax i"
    using u32_inc_le [OF lt] assms(3) by (auto simp: interval_is_single_def)
  then have "uval (imin i + 1) < uval (imax i) \<or> uval (imin i + 1) = uval (imax i) \<and> \<not> openmax i"
    by (simp only: uval_less uval_eq)
  then show "uval (imin i) + 1 < uval (imax i) \<or> uval (imin i) + 1 = uval (imax i) \<and> \<not> openmax i"
    by (simp only: uval_inc [OF lt])
qed

lemma interval_first_narrows:
  assumes "wf_interval i" "\<not> empty i" "\<not> interval_is_single i"
  shows "\<exists>j. snd_interval_refine_first i = (1, j) \<and> wf_interval j \<and> \<not> empty j \<and> interval_is_single j \<and>
             lowest_part (interval_vals i) (interval_vals j)"
proof (cases "openmin i")
  case True
  note b = not_single_bounds [OF assms]
  let ?j = "i\<lparr>openmax := True, imax := imin i + 1\<rparr>"
  have vals: "interval_vals ?j = {x. uval (imin i) < x \<and> x < uval (imin i) + 1 }"
    using True assms by (auto simp: interval_vals_def above_min_def below_max_def uval_inc [OF b(1)] wf_interval_def)
  have "\<not> imin i + 1 \<le> imin i" using uval_inc [OF b(1)] uval_le [of "imin i + 1" "imin i"] by simp
  then have "imin i < imin i + 1" by simp
  then have "wf_interval ?j \<and> \<not> empty ?j \<and> interval_is_single ?j"
    using assms True by (auto simp: wf_interval_def bounds_empty_def interval_is_single_def)
  moreover have "lowest_part (interval_vals i) (interval_vals ?j)"
    using b(2) True assms unfolding vals
    by (auto simp: lowest_part_def interval_vals_def above_min_def below_max_def wf_interval_def)
  ultimately show ?thesis
    using assms True by (auto simp: snd_interval_refine_first_def Let_def)
next
  case False
  note b = not_single_bounds [OF assms]
  let ?j = "i\<lparr>imax := imin i, openmax := False\<rparr>"
  have vals: "interval_vals ?j = {uval (imin i)}"
    using False by (auto simp: interval_vals_def above_min_def below_max_def)
  have "wf_interval ?j \<and> \<not> empty ?j \<and> interval_is_single ?j"
    using assms False by (auto simp: wf_interval_def bounds_empty_def interval_is_single_def)
  moreover have "lowest_part (interval_vals i) (interval_vals ?j)"
    using b False unfolding vals
    by (auto simp: lowest_part_def interval_vals_def above_min_def below_max_def)
  ultimately show ?thesis
    using assms False by (auto simp: snd_interval_refine_first_def Let_def)
qed

lemma interval_last_narrows:
  assumes "wf_interval i" "\<not> empty i" "\<not> interval_is_single i"
  shows "\<exists>j. snd_interval_refine_last i = (1, j) \<and> wf_interval j \<and> \<not> empty j \<and> interval_is_single j \<and>
             highest_part (interval_vals i) (interval_vals j)"
proof (cases "openmax i")
  case True
  note b = not_single_bounds [OF assms]
  let ?j = "i\<lparr>openmin := True, imin := imax i - 1\<rparr>"
  have vals: "interval_vals ?j = {x. uval (imax i) - 1 < x \<and> x < uval (imax i)}"
    using True assms by (auto simp: interval_vals_def above_min_def below_max_def uval_dec [OF b(1)] wf_interval_def)
  have "\<not> imax i \<le> imax i - 1" using uval_dec [OF b(1)] uval_le [of "imax i" "imax i - 1"] by simp
  then have "imax i - 1 < imax i" by simp
  then have "wf_interval ?j \<and> \<not> empty ?j \<and> interval_is_single ?j"
    using assms True by (auto simp: wf_interval_def bounds_empty_def interval_is_single_def)
  moreover have "highest_part (interval_vals i) (interval_vals ?j)"
    using b(2) True assms unfolding vals
    by (auto simp: highest_part_def interval_vals_def above_min_def below_max_def wf_interval_def)
  ultimately show ?thesis
    using assms True by (auto simp: snd_interval_refine_last_def Let_def)
next
  case False
  note b = not_single_bounds [OF assms]
  let ?j = "i\<lparr>imin := imax i, openmin := False\<rparr>"
  have vals: "interval_vals ?j = {uval (imax i)}"
    using False by (auto simp: interval_vals_def above_min_def below_max_def)
  have "wf_interval ?j \<and> \<not> empty ?j \<and> interval_is_single ?j"
    using assms False by (auto simp: wf_interval_def bounds_empty_def interval_is_single_def)
  moreover have "highest_part (interval_vals i) (interval_vals ?j)"
    using b False unfolding vals
    by (auto simp: highest_part_def interval_vals_def above_min_def below_max_def)
  ultimately show ?thesis
    using assms False by (auto simp: snd_interval_refine_last_def Let_def)
qed

text \<open>Intervals satisfy the contract of the parameter layer.\<close>

interpretation interval: param_domain wf_interval interval_vals empty interval_is_single
  "\<lambda>i. Some (snd_interval_refine_first i)" "\<lambda>i. Some (snd_interval_refine_last i)"
proof
  fix p
  assume "wf_interval p"
  then show "empty p \<longleftrightarrow> interval_vals p = {}" by (rule interval_empty_iff)
  assume "\<not> empty p" "\<not> interval_is_single p"
  with \<open>wf_interval p\<close> show "\<exists>p'. Some (snd_interval_refine_first p) = Some (1, p') \<and> wf_interval p' \<and> \<not> empty p' \<and>
      interval_is_single p' \<and> lowest_part (interval_vals p) (interval_vals p')"
    and "\<exists>p'. Some (snd_interval_refine_last p) = Some (1, p') \<and> wf_interval p' \<and> \<not> empty p' \<and>
      interval_is_single p' \<and> highest_part (interval_vals p) (interval_vals p')"
    using interval_first_narrows interval_last_narrows by simp_all
qed (simp_all add: snd_interval_refine_first_def snd_interval_refine_last_def)

section \<open>Exactness of the refinements\<close>

definition raise_min :: "snd_interval \<Rightarrow> u32 \<Rightarrow> bool \<Rightarrow> snd_interval" where
  "raise_min i mn opn = (if imin i < mn then i\<lparr>imin := mn, openmin := opn\<rparr>
     else if imin i = mn \<and> \<not> openmin i \<and> opn then i\<lparr>openmin := True\<rparr> else i)"

definition round_min :: "snd_interval \<Rightarrow> snd_interval" where
  "round_min i = (if integer i \<and> openmin i then i\<lparr>imin := imin i + 1, openmin := False\<rparr> else i)"

definition lower_max :: "snd_interval \<Rightarrow> u32 \<Rightarrow> bool \<Rightarrow> snd_interval" where
  "lower_max i mx opn = (if mx < imax i then i\<lparr>imax := mx, openmax := opn\<rparr>
     else if imax i = mx \<and> \<not> openmax i \<and> opn then i\<lparr>openmax := True\<rparr> else i)"

definition round_max :: "snd_interval \<Rightarrow> snd_interval" where
  "round_max i = (if integer i \<and> openmax i then i\<lparr>imax := imax i - 1, openmax := False\<rparr> else i)"

definition at_least :: "u32 \<Rightarrow> bool \<Rightarrow> real set" where
  "at_least mn opn = (if opn then {uval mn<..} else {uval mn..})"

definition at_most :: "u32 \<Rightarrow> bool \<Rightarrow> real set" where
  "at_most mx opn = (if opn then {..<uval mx} else {..uval mx})"

definition int_if :: "bool \<Rightarrow> real set" where
  "int_if b = (if b then \<int> else UNIV)"

lemma interval_vals_alt:
  "interval_vals i = at_least (imin i) (openmin i) \<inter> at_most (imax i) (openmax i) \<inter> int_if (integer i)"
  by (auto simp: interval_vals_def above_min_def below_max_def at_least_def at_most_def int_if_def)

lemma raise_min_at_least:
  "at_least (imin (raise_min i mn opn)) (openmin (raise_min i mn opn)) =
   at_least (imin i) (openmin i) \<inter> at_least mn opn"
proof -
  have "uval (imin i) < uval mn \<or> uval (imin i) = uval mn \<or> uval mn < uval (imin i)" by linarith
  then show ?thesis
    by (cases "openmin i"; cases opn) (auto simp: raise_min_def at_least_def simp flip: uval_less uval_eq)
qed

lemma lower_max_at_most:
  "at_most (imax (lower_max i mx opn)) (openmax (lower_max i mx opn)) =
   at_most (imax i) (openmax i) \<inter> at_most mx opn"
proof -
  have "uval (imax i) < uval mx \<or> uval (imax i) = uval mx \<or> uval mx < uval (imax i)" by linarith
  then show ?thesis
    by (cases "openmax i"; cases opn) (auto simp: lower_max_def at_most_def simp flip: uval_less uval_eq)
qed

lemma uval_inc': "a \<noteq> - 1 \<Longrightarrow> uval (a + 1) = uval a + 1"
  using uval_inc [of a "- 1"] by (simp add: word_order.not_eq_extremum)

lemma uval_dec': "a \<noteq> 0 \<Longrightarrow> uval (a - 1) = uval a - 1"
  using uval_dec [of 0 a] by (simp add: word_neq_0_conv)

lemma round_min_at_least:
  assumes "integer i \<Longrightarrow> openmin i \<Longrightarrow> imin i \<noteq> - 1"
  shows "at_least (imin (round_min i)) (openmin (round_min i)) \<inter> int_if (integer i) =
         at_least (imin i) (openmin i) \<inter> int_if (integer i)"
  using assms Ints_succ_le [of _ "imin i"]
  by (auto simp: round_min_def at_least_def int_if_def uval_inc')

lemma round_max_at_most:
  assumes "integer i \<Longrightarrow> openmax i \<Longrightarrow> imax i \<noteq> 0"
  shows "at_most (imax (round_max i)) (openmax (round_max i)) \<inter> int_if (integer i) =
         at_most (imax i) (openmax i) \<inter> int_if (integer i)"
  using assms Ints_le_pred [of _ "imax i"]
  by (auto simp: round_max_def at_most_def int_if_def uval_dec')

lemma raise_min_step:
  "(if imin i < mn then (1 :: int, i\<lparr>imin := mn, openmin := opn\<rparr>)
    else if imin i = mn \<and> \<not> openmin i \<and> opn then (1, i\<lparr>openmin := True\<rparr>) else (0, i)) =
   (if raise_min i mn opn \<noteq> i then 1 else 0, raise_min i mn opn)"
  by (cases i) (auto simp: raise_min_def)

lemma lower_max_step:
  "(if mx < imax i then (1 :: int, i\<lparr>imax := mx, openmax := opn\<rparr>)
    else if imax i = mx \<and> \<not> openmax i \<and> opn then (1, i\<lparr>openmax := True\<rparr>) else (0, i)) =
   (if lower_max i mx opn \<noteq> i then 1 else 0, lower_max i mx opn)"
  by (cases i) (auto simp: lower_max_def)

lemma set_integer_step:
  "(if \<not> integer i \<and> intg then (1 :: int, i\<lparr>integer := True\<rparr>) else (c, i)) =
   (if intg \<and> \<not> integer i then 1 else c, i\<lparr>integer := integer i \<or> intg\<rparr>)"
  by (cases i) auto

lemma raise_min_keeps [simp]:
  "imax (raise_min i mn opn) = imax i" "openmax (raise_min i mn opn) = openmax i"
  "integer (raise_min i mn opn) = integer i" "empty (raise_min i mn opn) = empty i"
  by (simp_all add: raise_min_def)

lemma lower_max_keeps [simp]:
  "imin (lower_max i mn opn) = imin i" "openmin (lower_max i mn opn) = openmin i"
  "integer (lower_max i mn opn) = integer i" "empty (lower_max i mn opn) = empty i"
  by (simp_all add: lower_max_def)

lemma round_min_keeps [simp]:
  "imax (round_min i) = imax i" "openmax (round_min i) = openmax i"
  "integer (round_min i) = integer i" "empty (round_min i) = empty i"
  "openmin (round_min i) \<longleftrightarrow> openmin i \<and> \<not> integer i"
  by (auto simp add: round_min_def)

lemma round_max_keeps [simp]:
  "imin (round_max i) = imin i" "openmin (round_max i) = openmin i"
  "integer (round_max i) = integer i" "empty (round_max i) = empty i"
  "openmax (round_max i) \<longleftrightarrow> openmax i \<and> \<not> integer i"
  by (auto simp add: round_max_def)

definition min_step :: "snd_interval \<Rightarrow> u32 \<Rightarrow> bool \<Rightarrow> bool \<Rightarrow> snd_interval" where
  "min_step i mn opn intg = round_min ((raise_min i mn opn)\<lparr>integer := integer i \<or> intg\<rparr>)"

definition max_step :: "snd_interval \<Rightarrow> u32 \<Rightarrow> bool \<Rightarrow> bool \<Rightarrow> snd_interval" where
  "max_step i mx opn intg = round_max ((lower_max i mx opn)\<lparr>integer := integer i \<or> intg\<rparr>)"

lemma refine_min_unfold:
  assumes "\<not> empty i"
  shows "snd_interval_refine_min i mn opn intg =
    (if bounds_empty (min_step i mn opn intg) then (- EINVAL, (min_step i mn opn intg)\<lparr>empty := True\<rparr>)
     else (if raise_min i mn opn \<noteq> i \<or> intg \<and> \<not> integer i then 1 else 0, min_step i mn opn intg))"
  unfolding snd_interval_refine_min_def raise_min_step set_integer_step Let_def prod.case
    round_min_def [symmetric] interval_check_empty_def bounds_empty_def [symmetric] min_step_def
  using assms by auto

lemma refine_max_unfold:
  assumes "\<not> empty i"
  shows "snd_interval_refine_max i mx opn intg =
    (if bounds_empty (max_step i mx opn intg) then (- EINVAL, (max_step i mx opn intg)\<lparr>empty := True\<rparr>)
     else (if lower_max i mx opn \<noteq> i \<or> intg \<and> \<not> integer i then 1 else 0, max_step i mx opn intg))"
  unfolding snd_interval_refine_max_def lower_max_step set_integer_step Let_def prod.case
    round_max_def [symmetric] interval_check_empty_def bounds_empty_def [symmetric] max_step_def
  using assms by auto

lemma int_if_or: "int_if (a \<or> b) = int_if a \<inter> int_if b"
  by (auto simp: int_if_def)

lemma min_step_vals:
  assumes "integer i \<or> intg \<Longrightarrow> openmin (raise_min i mn opn) \<Longrightarrow> imin (raise_min i mn opn) \<noteq> - 1"
  shows "interval_vals (min_step i mn opn intg) = interval_vals i \<inter> at_least mn opn \<inter> int_if intg"
proof -
  let ?j = "(raise_min i mn opn)\<lparr>integer := integer i \<or> intg\<rparr>"
  have "at_least (imin (round_min ?j)) (openmin (round_min ?j)) \<inter> int_if (integer ?j) =
        at_least (imin ?j) (openmin ?j) \<inter> int_if (integer ?j)"
    using assms by (intro round_min_at_least) simp
  then show ?thesis
    using raise_min_at_least [of i mn opn]
    unfolding interval_vals_alt min_step_def
    by (simp add: int_if_or) blast
qed

lemma max_step_vals:
  assumes "integer i \<or> intg \<Longrightarrow> openmax (lower_max i mx opn) \<Longrightarrow> imax (lower_max i mx opn) \<noteq> 0"
  shows "interval_vals (max_step i mx opn intg) = interval_vals i \<inter> at_most mx opn \<inter> int_if intg"
proof -
  let ?j = "(lower_max i mx opn)\<lparr>integer := integer i \<or> intg\<rparr>"
  have "at_most (imax (round_max ?j)) (openmax (round_max ?j)) \<inter> int_if (integer ?j) =
        at_most (imax ?j) (openmax ?j) \<inter> int_if (integer ?j)"
    using assms by (intro round_max_at_most) simp
  then show ?thesis
    using lower_max_at_most [of i mx opn]
    unfolding interval_vals_alt max_step_def
    by (simp add: int_if_or) blast
qed

lemma nonempty_imin: "\<not> bounds_empty i \<Longrightarrow> openmin i \<Longrightarrow> imin i \<noteq> - 1"
  by (auto simp: bounds_empty_def not_less word_order.extremum_unique)

lemma nonempty_imax: "\<not> bounds_empty i \<Longrightarrow> openmax i \<Longrightarrow> imax i \<noteq> 0"
  by (auto simp: bounds_empty_def word_order.extremum_strict not_less)

lemma raise_min_no_wrap:
  assumes "\<not> bounds_empty i" "opn \<Longrightarrow> mn \<noteq> - 1" "openmin (raise_min i mn opn)"
  shows "imin (raise_min i mn opn) \<noteq> - 1"
  using assms nonempty_imin [of i] by (auto simp: raise_min_def split: if_splits)

lemma lower_max_no_wrap:
  assumes "\<not> bounds_empty i" "opn \<Longrightarrow> mx \<noteq> 0" "openmax (lower_max i mx opn)"
  shows "imax (lower_max i mx opn) \<noteq> 0"
  using assms nonempty_imax [of i] by (auto simp: lower_max_def split: if_splits)

lemma refine_min_spec:
  assumes "\<not> empty i" "\<not> bounds_empty i" "opn \<Longrightarrow> mn \<noteq> - 1"
    and "snd_interval_refine_min i mn opn intg = (r, j)"
  shows "interval_vals j = interval_vals i \<inter> at_least mn opn \<inter> int_if intg"
    and "r = (if bounds_empty j then - EINVAL else if r = 0 then 0 else 1)" and "r = 0 \<Longrightarrow> raise_min i mn opn = i"
    and "empty j \<longleftrightarrow> bounds_empty j" and "integer j \<longleftrightarrow> integer i \<or> intg"
    and "openmin j \<Longrightarrow> \<not> integer j" and "imax j = imax i" and "openmax j = openmax i"
proof -
  have vals: "interval_vals (min_step i mn opn intg) = interval_vals i \<inter> at_least mn opn \<inter> int_if intg"
    using raise_min_no_wrap assms(2,3) by (intro min_step_vals) blast
  have same: "interval_vals (k\<lparr>empty := b\<rparr>) = interval_vals k" "bounds_empty (k\<lparr>empty := b\<rparr>) = bounds_empty k" for k b
    by (simp_all add: interval_vals_def above_min_def below_max_def bounds_empty_def)
  note u = assms(4) [unfolded refine_min_unfold [OF assms(1)], symmetric]
  show "interval_vals j = interval_vals i \<inter> at_least mn opn \<inter> int_if intg"
    using u vals by (auto simp: same split: if_splits)
  show "r = (if bounds_empty j then - EINVAL else if r = 0 then 0 else 1)"
    using u by (auto simp: same split: if_splits)
  show "r = 0 \<Longrightarrow> raise_min i mn opn = i" using u by (auto split: if_splits)
  show "empty j \<longleftrightarrow> bounds_empty j"
    using u assms(1) by (auto simp: same min_step_def split: if_splits)
  show "integer j \<longleftrightarrow> integer i \<or> intg" "openmin j \<Longrightarrow> \<not> integer j" "imax j = imax i" "openmax j = openmax i"
    using u by (auto simp: min_step_def split: if_splits)
qed

lemma refine_max_spec:
  assumes "\<not> empty i" "\<not> bounds_empty i" "opn \<Longrightarrow> mx \<noteq> 0"
    and "snd_interval_refine_max i mx opn intg = (r, j)"
  shows "interval_vals j = interval_vals i \<inter> at_most mx opn \<inter> int_if intg"
    and "r = (if bounds_empty j then - EINVAL else if r = 0 then 0 else 1)" and "r = 0 \<Longrightarrow> lower_max i mx opn = i"
    and "empty j \<longleftrightarrow> bounds_empty j" and "integer j \<longleftrightarrow> integer i \<or> intg"
    and "openmax j \<Longrightarrow> \<not> integer j" and "imin j = imin i" and "openmin j = openmin i"
proof -
  have vals: "interval_vals (max_step i mx opn intg) = interval_vals i \<inter> at_most mx opn \<inter> int_if intg"
    using lower_max_no_wrap assms(2,3) by (intro max_step_vals) blast
  have same: "interval_vals (k\<lparr>empty := b\<rparr>) = interval_vals k" "bounds_empty (k\<lparr>empty := b\<rparr>) = bounds_empty k" for k b
    by (simp_all add: interval_vals_def above_min_def below_max_def bounds_empty_def)
  note u = assms(4) [unfolded refine_max_unfold [OF assms(1)], symmetric]
  show "interval_vals j = interval_vals i \<inter> at_most mx opn \<inter> int_if intg"
    using u vals by (auto simp: same split: if_splits)
  show "r = (if bounds_empty j then - EINVAL else if r = 0 then 0 else 1)"
    using u by (auto simp: same split: if_splits)
  show "r = 0 \<Longrightarrow> lower_max i mx opn = i" using u by (auto split: if_splits)
  show "empty j \<longleftrightarrow> bounds_empty j"
    using u assms(1) by (auto simp: same max_step_def split: if_splits)
  show "integer j \<longleftrightarrow> integer i \<or> intg" "openmax j \<Longrightarrow> \<not> integer j" "imin j = imin i" "openmin j = openmin i"
    using u by (auto simp: max_step_def split: if_splits)
qed

text \<open>An unchanged result is the same interval, so refining with what already holds is the identity.\<close>

lemma refine_min_0:
  assumes "\<not> empty i" "wf_interval i" "snd_interval_refine_min i mn opn False = (0, j)"
  shows "j = i"
  using assms by (auto simp: refine_min_unfold min_step_def round_min_def wf_interval_def split: if_splits)

lemma refine_max_0:
  assumes "\<not> empty i" "wf_interval i" "snd_interval_refine_max i mn opn False = (0, j)"
  shows "j = i"
  using assms by (auto simp: refine_max_unfold max_step_def round_max_def wf_interval_def split: if_splits)

definition interval_narrowed_to :: "snd_interval \<Rightarrow> real set \<Rightarrow> int \<times> snd_interval \<Rightarrow> bool" where
  "interval_narrowed_to i S res \<longleftrightarrow> (case res of (r, j) \<Rightarrow>
     interval_vals j = interval_vals i \<inter> S \<and>
     (if interval_vals i \<inter> S = {} then r = - EINVAL \<and> empty j else (r = 0 \<or> r = 1) \<and> wf_interval j) \<and>
     (r = 0 \<longrightarrow> interval_vals j = interval_vals i))"

lemma interval_nonempty:
  assumes "wf_interval i" "interval_vals i \<noteq> {}"
  shows "\<not> empty i" "\<not> bounds_empty i"
  using assms interval_empty_iff [of i] by (auto simp: wf_interval_def)

lemma refine_min_narrows:
  assumes "wf_interval i" "interval_vals i \<noteq> {}" "opn \<Longrightarrow> b \<noteq> UINT_MAX"
  shows "interval_narrowed_to i (at_least b opn) (snd_interval_refine_min i b opn False)"
proof -
  note ne = interval_nonempty [OF assms(1,2)]
  obtain r j where rj: "snd_interval_refine_min i b opn False = (r, j)" by (cases "snd_interval_refine_min i b opn False")
  note s = refine_min_spec [OF ne assms(3) rj]
  have wf: "wf_interval j" using s(4-8) assms(1) by (auto simp: wf_interval_def)
  have "r = 0 \<Longrightarrow> j = i" using refine_min_0 rj ne assms(1) by blast
  then show ?thesis
    using s(1,2) wf interval_empty_iff [OF wf] s(4) unfolding interval_narrowed_to_def rj
    by (auto simp: int_if_def split: if_splits)
qed

lemma refine_max_narrows:
  assumes "wf_interval i" "interval_vals i \<noteq> {}" "opn \<Longrightarrow> b \<noteq> 0"
  shows "interval_narrowed_to i (at_most b opn) (snd_interval_refine_max i b opn False)"
proof -
  note ne = interval_nonempty [OF assms(1,2)]
  obtain r j where rj: "snd_interval_refine_max i b opn False = (r, j)" by (cases "snd_interval_refine_max i b opn False")
  note s = refine_max_spec [OF ne assms(3) rj]
  have wf: "wf_interval j" using s(4-8) assms(1) by (auto simp: wf_interval_def)
  have "r = 0 \<Longrightarrow> j = i" using refine_max_0 rj ne assms(1) by blast
  then show ?thesis
    using s(1,2) wf interval_empty_iff [OF wf] s(4) unfolding interval_narrowed_to_def rj
    by (auto simp: int_if_def split: if_splits)
qed

lemma refine_min_status:
  assumes "\<not> empty i" "snd_interval_refine_min i mn opn intg = (r, j)"
  shows "r \<in> {- EINVAL, 0, 1}"
  using assms by (auto simp: refine_min_unfold split: if_splits)

lemma refine_max_status:
  assumes "\<not> empty i" "snd_interval_refine_max i mn opn intg = (r, j)"
  shows "r \<in> {- EINVAL, 0, 1}"
  using assms by (auto simp: refine_max_unfold split: if_splits)

lemma promote_vals:
  assumes "openmin i = False" "openmax i = False" "imin i = imax i"
  shows "interval_vals (i\<lparr>integer := True\<rparr>) = interval_vals i"
  using assms by (auto simp: interval_vals_def above_min_def below_max_def)

text \<open>The last step of \<^verbatim>\<open>snd_interval_refine\<close>: an interval with one closed point becomes an integer.\<close>

definition promote :: "snd_interval \<Rightarrow> snd_interval" where
  "promote i = (if \<not> integer i \<and> \<not> openmin i \<and> \<not> openmax i \<and> imin i = imax i then i\<lparr>integer := True\<rparr> else i)"

lemma promote_facts:
  "interval_vals (promote i) = interval_vals i" "wf_interval i \<Longrightarrow> wf_interval (promote i)"
  using promote_vals [of i] by (auto simp: promote_def wf_interval_def bounds_empty_def)

lemma interval_refine_narrows:
  assumes "wf_interval i" "interval_vals i \<noteq> {}" "wf_interval v" "interval_vals v \<noteq> {}"
  shows "interval_narrowed_to i (interval_vals v) (snd_interval_refine i v)"
proof -
  note ne = interval_nonempty [OF assms(1,2)] and nev = interval_nonempty [OF assms(3,4)]
  obtain r1 i1 where m1: "snd_interval_refine_min i (imin v) (openmin v) (integer v) = (r1, i1)"
    by (cases "snd_interval_refine_min i (imin v) (openmin v) (integer v)")
  note s1 = refine_min_spec [OF ne nonempty_imin [OF nev(2)] m1]
  have r1: "r1 \<in> {- EINVAL, 0, 1}" using refine_min_status ne m1 by blast
  have v: "interval_vals v = at_least (imin v) (openmin v) \<inter> at_most (imax v) (openmax v) \<inter> int_if (integer v)"
    by (rule interval_vals_alt)
  show ?thesis
  proof (cases "bounds_empty i1")
    case True
    then have "interval_vals i1 = {}" by (rule bounds_empty_vals)
    then have none: "interval_vals i \<inter> interval_vals v = {}" using s1(1) v by blast
    have "r1 = - EINVAL" using True s1(2) by simp
    with none \<open>interval_vals i1 = {}\<close> True s1(4) show ?thesis
      by (simp add: snd_interval_refine_def m1 interval_narrowed_to_def)
  next
    case False
    then have e1: "\<not> empty i1" and r1': "r1 = 0 \<or> r1 = 1" using s1(2,4) by (auto split: if_splits)
    obtain r2 i2 where m2: "snd_interval_refine_max i1 (imax v) (openmax v) (integer v) = (r2, i2)"
      by (cases "snd_interval_refine_max i1 (imax v) (openmax v) (integer v)")
    note s2 = refine_max_spec [OF e1 False nonempty_imax [OF nev(2)] m2]
    have vals: "interval_vals i2 = interval_vals i \<inter> interval_vals v"
      using s1(1) s2(1) v by blast
    have wf2: "wf_interval i2"
      using s1(5,6) s2(4-8) by (auto simp: wf_interval_def)
    have r2: "r2 \<in> {- EINVAL, 0, 1}" using refine_max_status e1 m2 by blast
    have res: "snd_interval_refine i v = (if r2 < 0 then (r2, i2) else (r1 OR r2, promote i2))"
      using r1' by (auto simp: snd_interval_refine_def m1 m2 promote_def)
    show ?thesis
    proof (cases "bounds_empty i2")
      case True
      then show ?thesis
        using s2(2) s2(4) bounds_empty_vals [OF True] vals r2
        by (simp add: res interval_narrowed_to_def)
    next
      case nb: False
      then have "r2 = 0 \<or> r2 = 1" using s2(2) by (auto split: if_splits)
      moreover have "interval_vals i2 = interval_vals i" if "r1 OR r2 = 0"
      proof -
        have "r1 = 0" "r2 = 0" using that r1' \<open>r2 = 0 \<or> r2 = 1\<close> by auto
        then have "raise_min i (imin v) (openmin v) = i" "lower_max i1 (imax v) (openmax v) = i1" using s1(3) s2(3) by auto
        moreover have "integer v \<longrightarrow> integer i"
          using m1 ne \<open>r1 = 0\<close> by (auto simp: refine_min_unfold split: if_splits)
        ultimately show ?thesis
          using raise_min_at_least [of i "imin v" "openmin v"] lower_max_at_most [of i1 "imax v" "openmax v"] s1(1) s2(1)
          unfolding interval_vals_alt by (auto simp: int_if_def s1(7,8))
      qed
      moreover have "interval_vals i2 \<noteq> {}" using nb wf2 interval_empty_iff s2(4) by blast
      ultimately show ?thesis
        using vals wf2 r1' promote_facts [of i2]
        by (auto simp: res interval_narrowed_to_def)
    qed
  qed
qed

section \<open>Properties of intervals\<close>

definition demo_interval :: snd_interval where
  "demo_interval = \<lparr>imin = 8000, imax = 48000, openmin = True, openmax = False, integer = False, empty = False\<rparr>"

definition demo_channels :: snd_interval where
  "demo_channels = \<lparr>imin = 1, imax = 8, openmin = False, openmax = False, integer = True, empty = False\<rparr>"

lemma demo_interval_ok: "wf_interval demo_interval" "interval_vals demo_interval \<noteq> {}"
  and demo_channels_ok: "wf_interval demo_channels" "interval_vals demo_channels \<noteq> {}"
proof -
  show w: "wf_interval demo_interval" "wf_interval demo_channels"
    by (simp_all add: wf_interval_def bounds_empty_def demo_interval_def demo_channels_def)
  show "interval_vals demo_interval \<noteq> {}" "interval_vals demo_channels \<noteq> {}"
    using interval_empty_iff w by (force simp: demo_interval_def demo_channels_def)+
qed

text \<open>Refining the lower bound of an interval that is not empty intersects its set of values with
  the values at or above the bound, refining the upper bound with the values at or below it; the
  status is \<^verbatim>\<open>-EINVAL\<close> exactly when nothing is left.  The open bounds excluded are the two whose
  normalisation for integer intervals wraps around.\<close>

theorem interval_refine_bounds_exact:
  assumes "wf_interval i" "interval_vals i \<noteq> {}"
  shows "(\<not> (opn \<and> b = UINT_MAX) \<longrightarrow>
           interval_narrowed_to i (if opn then {uval b<..} else {uval b..}) (snd_interval_refine_min i b opn False)) \<and>
         (\<not> (opn \<and> b = 0) \<longrightarrow>
           interval_narrowed_to i (if opn then {..<uval b} else {..uval b}) (snd_interval_refine_max i b opn False))"
  using refine_min_narrows [OF assms, of opn b] refine_max_narrows [OF assms, of opn b]
  by (auto simp: at_least_def at_most_def)

theorem interval_refine_bounds_exact_witness:
  "wf_interval demo_interval \<and> interval_vals demo_interval \<noteq> {} \<and>
   interval_narrowed_to demo_interval {uval 44100..} (snd_interval_refine_min demo_interval 44100 False False) \<and>
   interval_narrowed_to demo_interval {..<uval 44100} (snd_interval_refine_max demo_interval 44100 True False)"
  using interval_refine_bounds_exact [OF demo_interval_ok, of False 44100]
    interval_refine_bounds_exact [OF demo_interval_ok, of True 44100] demo_interval_ok by simp

text \<open>C18. \<^verbatim>\<open>snd_interval_refine\<close> computes the intersection of two intervals that are not empty, for
  every combination of open and closed bounds and integer flags, and \<^verbatim>\<open>snd_interval_refine_set\<close> the
  intersection with one integer; the status is \<^verbatim>\<open>-EINVAL\<close>, with the flag \<^verbatim>\<open>empty\<close> set, exactly when
  the intersection is empty, and an unchanged interval is reported by 0 only.\<close>

theorem snd_interval_refine_exact:
  assumes "wf_interval i" "interval_vals i \<noteq> {}" "wf_interval v" "interval_vals v \<noteq> {}"
  shows "interval_narrowed_to i (interval_vals v) (snd_interval_refine i v) \<and>
         interval_narrowed_to i {uval val} (snd_interval_refine_set i val)"
proof
  let ?t = "\<lparr>imin = val, imax = val, openmin = False, openmax = False, integer = True, empty = False\<rparr>"
  have "interval_vals ?t = {uval val}"
    by (auto simp: interval_vals_def above_min_def below_max_def)
  moreover have "wf_interval ?t" by (simp add: wf_interval_def bounds_empty_def)
  ultimately show "interval_narrowed_to i {uval val} (snd_interval_refine_set i val)"
    using interval_refine_narrows [OF assms(1,2), of ?t] by (simp add: snd_interval_refine_set_def)
qed (rule interval_refine_narrows [OF assms])

theorem snd_interval_refine_exact_witness:
  "wf_interval demo_interval \<and> interval_vals demo_interval \<noteq> {} \<and>
   wf_interval demo_channels \<and> interval_vals demo_channels \<noteq> {} \<and>
   interval_narrowed_to demo_interval (interval_vals demo_channels) (snd_interval_refine demo_interval demo_channels) \<and>
   interval_narrowed_to demo_interval {uval 44100} (snd_interval_refine_set demo_interval 44100)"
  using snd_interval_refine_exact [OF demo_interval_ok demo_channels_ok, of 44100]
    demo_interval_ok demo_channels_ok by simp

text \<open>\<^verbatim>\<open>snd_interval_refine_first\<close> and \<^verbatim>\<open>snd_interval_refine_last\<close> leave the lowest and the highest
  configuration of an interval that is not empty: a subset of its values below, or above, all the
  other ones, which the code treats as a single value; refining the result again changes nothing.\<close>

theorem interval_refine_first_last:
  assumes "wf_interval i" "interval_vals i \<noteq> {}"
    and "snd_interval_refine_first i = (r, a)" and "snd_interval_refine_last i = (s, b)"
  shows "r \<in> {0, 1} \<and> s \<in> {0, 1} \<and> interval_is_single a \<and> interval_is_single b \<and>
         lowest_part (interval_vals i) (interval_vals a) \<and> highest_part (interval_vals i) (interval_vals b) \<and>
         interval_vals a \<noteq> {} \<and> interval_vals b \<noteq> {} \<and>
         snd_interval_refine_first a = (0, a) \<and> snd_interval_refine_last b = (0, b)"
proof -
  have e: "Some (snd_interval_refine_first i) = Some (r, a)" "Some (snd_interval_refine_last i) = Some (s, b)"
    using assms(3,4) by simp_all
  have pos: "0 \<le> r" "0 \<le> s"
    using interval.first_error_iff [OF assms(1) e(1)] interval.last_error_iff [OF assms(1) e(2)] assms(2) by auto
  have "r \<in> {0, 1}" "s \<in> {0, 1}"
    using assms(3,4) pos by (auto simp: snd_interval_refine_first_def snd_interval_refine_last_def Let_def split: if_splits)
  then show ?thesis
    using interval.first_result [OF assms(1) e(1) pos(1)] interval.last_result [OF assms(1) e(2) pos(2)]
      interval.first_stable [OF assms(1) e(1) pos(1)] interval.last_stable [OF assms(1) e(2) pos(2)]
      interval_empty_iff by auto
qed

theorem interval_refine_first_last_witness:
  "\<exists>r a s b. wf_interval demo_interval \<and> snd_interval_refine_first demo_interval = (r, a) \<and>
     snd_interval_refine_last demo_interval = (s, b) \<and>
     interval_is_single a \<and> lowest_part (interval_vals demo_interval) (interval_vals a) \<and>
     highest_part (interval_vals demo_interval) (interval_vals b)"
  using interval_refine_first_last [OF demo_interval_ok prod.collapse [symmetric] prod.collapse [symmetric]]
    demo_interval_ok(1) by (metis prod.collapse)

text \<open>The two open bounds left out above: for an integer interval, asking for values strictly below 0
  makes \<^verbatim>\<open>max--\<close> wrap, so that the interval is widened up to the largest 32-bit value and reported as
  changed instead of being refused, and asking for values strictly above that value widens it down
  to 0.\<close>

theorem interval_refine_wraps:
  assumes "wf_interval i" "interval_vals i \<noteq> {}" "integer i"
  shows "(0 < imax i \<longrightarrow> snd_interval_refine_max i 0 True False = (1, i\<lparr>imax := UINT_MAX\<rparr>)) \<and>
         (imin i < UINT_MAX \<longrightarrow> snd_interval_refine_min i UINT_MAX True False = (1, i\<lparr>imin := 0\<rparr>))"
  using assms(1,3) interval_nonempty [OF assms(1,2)]
  by (cases i) (auto simp: refine_max_unfold refine_min_unfold min_step_def max_step_def raise_min_def lower_max_def
      round_min_def round_max_def bounds_empty_def wf_interval_def)

theorem interval_refine_wraps_witness:
  "wf_interval demo_channels \<and>
   snd_interval_refine_max demo_channels 0 True False = (1, demo_channels\<lparr>imax := UINT_MAX\<rparr>)"
  using interval_refine_wraps [OF demo_channels_ok] demo_channels_ok(1)
  by (simp add: demo_channels_def)

end
