(* ===== verification/Pcm_HwParams.thy ===== *)
theory Pcm_HwParams
  imports Pcm_Mask Pcm_Interval
begin

text \<open>
  The hardware parameter space of \<^verbatim>\<open>src/src/pcm_params.c\<close> (lines 365 to 906): \<^verbatim>\<open>snd_pcm_hw_params_t\<close> and
  the operations that read and narrow one parameter, ask the kernel to propagate the change, and put
  the old space back on failure.

  The kernel is a parameter: \<open>k\<close> stands for \<^verbatim>\<open>ioctl(fd, SNDRV_PCM_IOCTL_HW_REFINE, params)\<close> and maps the
  parameters to the result of the call, the value of \<^verbatim>\<open>errno\<close> and the parameters the kernel wrote
  back.  What a theorem needs of it is the hypothesis \<open>kernel_narrows\<close>.

  A pointer argument that may be \<^verbatim>\<open>NULL\<close> is an \<open>option\<close>: \<open>None\<close> for \<^verbatim>\<open>NULL\<close>, otherwise the value pointed
  to; the function returns the value afterwards.  The outer \<open>option\<close> of a result is \<open>None\<close> where the
  code leaves an array or reads through a null pointer.
\<close>

section \<open>The parameter space\<close>

record snd_pcm_hw_params =
  hwp_flags :: u32
  masks :: "snd_mask list"
  mres :: "snd_mask list"
  intervals :: "snd_interval list"
  ires :: "snd_interval list"
  rmask :: u32
  cmask :: u32
  hwp_info :: u32
  hwp_msbits :: u32
  hwp_rate_num :: u32
  hwp_rate_den :: u32
  hwp_fifo_size :: u64
  hwp_reserved :: "u8 list"

abbreviation (input) HW_ACCESS :: int where "HW_ACCESS \<equiv> 0"
abbreviation (input) HW_FORMAT :: int where "HW_FORMAT \<equiv> 1"
abbreviation (input) HW_SUBFORMAT :: int where "HW_SUBFORMAT \<equiv> 2"
abbreviation (input) HW_SAMPLE_BITS :: int where "HW_SAMPLE_BITS \<equiv> 8"
abbreviation (input) HW_FRAME_BITS :: int where "HW_FRAME_BITS \<equiv> 9"
abbreviation (input) HW_CHANNELS :: int where "HW_CHANNELS \<equiv> 10"
abbreviation (input) HW_RATE :: int where "HW_RATE \<equiv> 11"
abbreviation (input) HW_PERIOD_TIME :: int where "HW_PERIOD_TIME \<equiv> 12"
abbreviation (input) HW_PERIOD_SIZE :: int where "HW_PERIOD_SIZE \<equiv> 13"
abbreviation (input) HW_PERIOD_BYTES :: int where "HW_PERIOD_BYTES \<equiv> 14"
abbreviation (input) HW_PERIODS :: int where "HW_PERIODS \<equiv> 15"
abbreviation (input) HW_BUFFER_TIME :: int where "HW_BUFFER_TIME \<equiv> 16"
abbreviation (input) HW_BUFFER_SIZE :: int where "HW_BUFFER_SIZE \<equiv> 17"
abbreviation (input) HW_BUFFER_BYTES :: int where "HW_BUFFER_BYTES \<equiv> 18"
abbreviation (input) HW_TICK_TIME :: int where "HW_TICK_TIME \<equiv> 19"

type_synonym refine_ioctl = "snd_pcm_hw_params \<Rightarrow> int \<times> int \<times> snd_pcm_hw_params"

text \<open>The static inline \<^verbatim>\<open>snd_pcm_hw_refine\<close> of \<^verbatim>\<open>pcm_macros.h\<close>.\<close>

definition snd_pcm_hw_refine :: "refine_ioctl \<Rightarrow> snd_pcm_hw_params \<Rightarrow> int \<times> snd_pcm_hw_params" where
  "snd_pcm_hw_refine k params =
     (case k params of (ret, errno, params) \<Rightarrow> if ret < 0 then (- errno, params) else (0, params))"

definition hw_is_mask :: "int \<Rightarrow> bool" where
  "hw_is_mask var \<longleftrightarrow> HW_ACCESS \<le> var \<and> var \<le> HW_SUBFORMAT"

definition hw_is_interval :: "int \<Rightarrow> bool" where
  "hw_is_interval var \<longleftrightarrow> HW_SAMPLE_BITS \<le> var \<and> var \<le> HW_TICK_TIME"

text \<open>The pointers \<^verbatim>\<open>hw_param_mask\<close> and \<^verbatim>\<open>hw_param_interval\<close> return, read and written.\<close>

definition hw_param_mask :: "snd_pcm_hw_params \<Rightarrow> int \<Rightarrow> snd_mask option" where
  "hw_param_mask params var = (if var < HW_ACCESS then None else array_get (masks params) (nat (var - HW_ACCESS)))"

definition hw_param_interval :: "snd_pcm_hw_params \<Rightarrow> int \<Rightarrow> snd_interval option" where
  "hw_param_interval params var =
     (if var < HW_SAMPLE_BITS then None else array_get (intervals params) (nat (var - HW_SAMPLE_BITS)))"

definition put_mask :: "snd_pcm_hw_params \<Rightarrow> int \<Rightarrow> snd_mask \<Rightarrow> snd_pcm_hw_params" where
  "put_mask params var m = params\<lparr>masks := (masks params)[nat (var - HW_ACCESS) := m]\<rparr>"

definition put_interval :: "snd_pcm_hw_params \<Rightarrow> int \<Rightarrow> snd_interval \<Rightarrow> snd_pcm_hw_params" where
  "put_interval params var i = params\<lparr>intervals := (intervals params)[nat (var - HW_SAMPLE_BITS) := i]\<rparr>"

text \<open>A call that changes the mask, or the interval, behind such a pointer.\<close>

definition on_mask :: "snd_pcm_hw_params \<Rightarrow> int \<Rightarrow> (snd_mask \<Rightarrow> (int \<times> snd_mask) option) \<Rightarrow>
    (int \<times> snd_pcm_hw_params) option" where
  "on_mask params var f = do {
     m \<leftarrow> hw_param_mask params var;
     (r, m) \<leftarrow> f m;
     Some (r, put_mask params var m) }"

definition on_interval :: "snd_pcm_hw_params \<Rightarrow> int \<Rightarrow> (snd_interval \<Rightarrow> int \<times> snd_interval) \<Rightarrow>
    (int \<times> snd_pcm_hw_params) option" where
  "on_interval params var f = do {
     i \<leftarrow> hw_param_interval params var;
     (let (r, i) = f i in Some (r, put_interval params var i)) }"

text \<open>\<^verbatim>\<open>cmask |= 1 << var; rmask |= 1 << var\<close>; the shift is defined for \<^verbatim>\<open>var\<close> from 0 to 30.\<close>

definition mark_changed :: "snd_pcm_hw_params \<Rightarrow> int \<Rightarrow> snd_pcm_hw_params option" where
  "mark_changed params var =
     (if 0 \<le> var \<and> var < 31
      then Some (params\<lparr>cmask := cmask params OR push_bit (nat var) 1, rmask := rmask params OR push_bit (nat var) 1\<rparr>)
      else None)"

definition snd_pcm_hw_param_any0 :: "snd_pcm_hw_params \<Rightarrow> int \<Rightarrow> snd_pcm_hw_params option" where
  "snd_pcm_hw_param_any0 params var = do {
     (_, params) \<leftarrow>
       (if hw_is_mask var then on_mask params var (\<lambda>m. Some (0, snd_mask_any m))
        else on_interval params var (\<lambda>i. (0, interval_set_any i)));
     mark_changed params var }"

definition snd_pcm_hw_param_empty :: "snd_pcm_hw_params \<Rightarrow> int \<Rightarrow> bool option" where
  "snd_pcm_hw_param_empty params var =
     (if hw_is_mask var then map_option snd_mask_empty (hw_param_mask params var)
      else map_option empty (hw_param_interval params var))"

text \<open>\<^verbatim>\<open>memset(params, 0, sizeof *params)\<close>.\<close>

definition zero_mask :: snd_mask where
  "zero_mask = \<lparr>bits = replicate MASK_SIZE 0\<rparr>"

definition zero_interval :: snd_interval where
  "zero_interval = \<lparr>imin = 0, imax = 0, openmin = False, openmax = False, integer = False, empty = False\<rparr>"

definition zero_params :: snd_pcm_hw_params where
  "zero_params = \<lparr>hwp_flags = 0, masks = replicate 3 zero_mask, mres = replicate 5 zero_mask,
     intervals = replicate 12 zero_interval, ires = replicate 9 zero_interval, rmask = 0, cmask = 0,
     hwp_info = 0, hwp_msbits = 0, hwp_rate_num = 0, hwp_rate_den = 0, hwp_fifo_size = 0,
     hwp_reserved = replicate 64 0\<rparr>"

primrec param_any_loop :: "int list \<Rightarrow> snd_pcm_hw_params \<Rightarrow> snd_pcm_hw_params option" where
  "param_any_loop [] params = Some params"
| "param_any_loop (k # ks) params = snd_pcm_hw_param_any0 params k \<bind> param_any_loop ks"

abbreviation (input) HW_PARAMS_NORESAMPLE :: u32 where "HW_PARAMS_NORESAMPLE \<equiv> 1"
abbreviation (input) HW_PARAMS_NO_PERIOD_WAKEUP :: u32 where "HW_PARAMS_NO_PERIOD_WAKEUP \<equiv> 4"

definition snd_pcm_hw_params_any0 :: "snd_pcm_hw_params option" where
  "snd_pcm_hw_params_any0 = do {
     params \<leftarrow> param_any_loop [HW_ACCESS..HW_SUBFORMAT] zero_params;
     params \<leftarrow> param_any_loop [HW_SAMPLE_BITS..HW_TICK_TIME] params;
     Some (params\<lparr>rmask := - 1, cmask := 0, hwp_info := - 1, hwp_flags := HW_PARAMS_NORESAMPLE\<rparr>) }"

definition snd_pcm_hw_params_any :: "refine_ioctl \<Rightarrow> (int \<times> snd_pcm_hw_params) option" where
  "snd_pcm_hw_params_any k = map_option (snd_pcm_hw_refine k) snd_pcm_hw_params_any0"

section \<open>Reading one parameter\<close>

type_synonym get_result = "(int \<times> u32 option \<times> int option) option"

text \<open>\<^verbatim>\<open>if (p) *p = v\<close>.\<close>

definition store_if :: "'a option \<Rightarrow> 'a \<Rightarrow> 'a option" where
  "store_if p v = map_option (\<lambda>_. v) p"

definition snd_pcm_hw_param_get :: "snd_pcm_hw_params \<Rightarrow> int \<Rightarrow> u32 option \<Rightarrow> int option \<Rightarrow> get_result" where
  "snd_pcm_hw_param_get params var val dir =
     (if hw_is_mask var then do {
        m \<leftarrow> hw_param_mask params var;
        Some (if snd_mask_empty m \<or> \<not> mask_is_single m then (- EINVAL, val, dir)
              else (0, store_if val (mask_get_min m), store_if dir 0)) }
      else if hw_is_interval var then do {
        i \<leftarrow> hw_param_interval params var;
        Some (if empty i \<or> \<not> interval_is_single i then (- EINVAL, val, dir)
              else (0, store_if val (imin i), store_if dir (of_bool (openmin i)))) }
      else Some (- EINVAL, val, dir))"

definition snd_pcm_hw_param_get_min :: "snd_pcm_hw_params \<Rightarrow> int \<Rightarrow> u32 option \<Rightarrow> int option \<Rightarrow> get_result" where
  "snd_pcm_hw_param_get_min params var val dir =
     (if hw_is_mask var then do {
        m \<leftarrow> hw_param_mask params var;
        Some (0, store_if val (mask_get_min m), store_if dir 0) }
      else if hw_is_interval var then do {
        i \<leftarrow> hw_param_interval params var;
        Some (0, store_if val (imin i), store_if dir (of_bool (openmin i))) }
      else Some (0, val, dir))"

definition snd_pcm_hw_param_get_max :: "snd_pcm_hw_params \<Rightarrow> int \<Rightarrow> u32 option \<Rightarrow> int option \<Rightarrow> get_result" where
  "snd_pcm_hw_param_get_max params var val dir =
     (if hw_is_mask var then do {
        m \<leftarrow> hw_param_mask params var;
        v \<leftarrow> (case val of None \<Rightarrow> Some None | Some _ \<Rightarrow> map_option Some (mask_get_max m));
        Some (0, v, store_if dir 0) }
      else if hw_is_interval var then do {
        i \<leftarrow> hw_param_interval params var;
        Some (0, store_if val (imax i), store_if dir (- of_bool (openmax i))) }
      else Some (0, val, dir))"

section \<open>Narrowing one parameter\<close>

definition hw_param_set_min :: "snd_pcm_hw_params \<Rightarrow> int \<Rightarrow> u32 \<Rightarrow> int \<Rightarrow> (int \<times> snd_pcm_hw_params) option" where
  "hw_param_set_min params var val dir =
     (if hw_is_mask var then on_mask params var (\<lambda>m. snd_mask_refine_min m val)
      else let (opn, val) = (if dir > 0 then (True, val)
                             else if dir < 0 \<and> val > 0 then (True, val - 1)
                             else (False, val))
           in on_interval params var (\<lambda>i. snd_interval_refine_min i val opn False))"

definition hw_param_update_var :: "refine_ioctl \<Rightarrow> snd_pcm_hw_params \<Rightarrow> int \<Rightarrow> int \<Rightarrow>
    (int \<times> snd_pcm_hw_params) option" where
  "hw_param_update_var k params var changed =
     (if changed < 0 then Some (changed, params)
      else do {
        params \<leftarrow> (if changed \<noteq> 0 then mark_changed params var else Some params);
        (if rmask params \<noteq> 0 then
           let (changed, params) = snd_pcm_hw_refine k params in
           if changed < 0 then Some (changed, params)
           else do {
             e \<leftarrow> snd_pcm_hw_param_empty params var;
             Some (if e then - ENOENT else 0, params) }
         else Some (0, params)) })"

type_synonym set_result = "(int \<times> snd_pcm_hw_params \<times> u32 option \<times> int option) option"

text \<open>\<^verbatim>\<open>dir ? *dir : 0\<close>.\<close>

definition deref_or_0 :: "int option \<Rightarrow> int" where
  "deref_or_0 dir = (case dir of None \<Rightarrow> 0 | Some d \<Rightarrow> d)"

definition snd_pcm_hw_param_set_min :: "refine_ioctl \<Rightarrow> snd_pcm_hw_params \<Rightarrow> int \<Rightarrow> u32 option \<Rightarrow> int option \<Rightarrow>
    set_result" where
  "snd_pcm_hw_param_set_min k params var val dir = do {
     let save = params;
     v \<leftarrow> val;
     (err, params) \<leftarrow> hw_param_set_min params var v (deref_or_0 dir);
     (err, params) \<leftarrow> hw_param_update_var k params var err;
     (if err = 0 then do {
        (r, val, dir) \<leftarrow> snd_pcm_hw_param_get_min params var val dir;
        Some (r, params, val, dir) }
      else Some (err, save, val, dir)) }"

definition hw_param_set_max :: "snd_pcm_hw_params \<Rightarrow> int \<Rightarrow> u32 \<Rightarrow> int \<Rightarrow> (int \<times> snd_pcm_hw_params) option" where
  "hw_param_set_max params var val dir =
     (if hw_is_mask var then on_mask params var (\<lambda>m. snd_mask_refine_max m val)
      else let (opn, val) = (if dir \<noteq> 0 then (True, if dir > 0 then val + 1 else val) else (False, val))
           in on_interval params var (\<lambda>i. snd_interval_refine_max i val opn False))"

definition snd_pcm_hw_param_set_max :: "refine_ioctl \<Rightarrow> snd_pcm_hw_params \<Rightarrow> int \<Rightarrow> u32 option \<Rightarrow> int option \<Rightarrow>
    set_result" where
  "snd_pcm_hw_param_set_max k params var val dir = do {
     let save = params;
     v \<leftarrow> val;
     (err, params) \<leftarrow> hw_param_set_max params var v (deref_or_0 dir);
     (err, params) \<leftarrow> hw_param_update_var k params var err;
     (if err = 0 then do {
        (r, val, dir) \<leftarrow> snd_pcm_hw_param_get_max params var val dir;
        Some (r, params, val, dir) }
      else Some (err, save, val, dir)) }"

definition hw_param_set_minmax :: "snd_pcm_hw_params \<Rightarrow> int \<Rightarrow> u32 \<Rightarrow> int \<Rightarrow> u32 \<Rightarrow> int \<Rightarrow>
    (int \<times> snd_pcm_hw_params) option" where
  "hw_param_set_minmax params var mn mindir mx maxdir = do {
     (c1, params) \<leftarrow> hw_param_set_min params var mn mindir;
     (if c1 < 0 then Some (c1, params)
      else do {
        (c2, params) \<leftarrow> hw_param_set_max params var mx maxdir;
        Some (if c2 < 0 then c2 else of_bool (c1 \<noteq> 0 \<or> c2 \<noteq> 0), params) }) }"

definition snd_pcm_hw_param_set_minmax :: "refine_ioctl \<Rightarrow> snd_pcm_hw_params \<Rightarrow> int \<Rightarrow>
    u32 option \<Rightarrow> int option \<Rightarrow> u32 option \<Rightarrow> int option \<Rightarrow>
    (int \<times> snd_pcm_hw_params \<times> (u32 option \<times> int option) \<times> (u32 option \<times> int option)) option" where
  "snd_pcm_hw_param_set_minmax k params var mn mindir mx maxdir = do {
     let save = params;
     mnv \<leftarrow> mn;
     mxv \<leftarrow> mx;
     (err, params) \<leftarrow> hw_param_set_minmax params var mnv (deref_or_0 mindir) mxv (deref_or_0 maxdir);
     (err, params) \<leftarrow> hw_param_update_var k params var err;
     (if err = 0 then do {
        (err, mn, mindir) \<leftarrow> snd_pcm_hw_param_get_min params var mn mindir;
        (if err \<ge> 0 then do {
           (r, mx, maxdir) \<leftarrow> snd_pcm_hw_param_get_max params var mx maxdir;
           Some (r, params, (mn, mindir), (mx, maxdir)) }
         else Some (err, save, (mn, mindir), (mx, maxdir))) }
      else Some (err, save, (mn, mindir), (mx, maxdir))) }"

definition hw_param_set :: "snd_pcm_hw_params \<Rightarrow> int \<Rightarrow> u32 \<Rightarrow> int \<Rightarrow> (int \<times> snd_pcm_hw_params) option" where
  "hw_param_set params var val dir =
     (if hw_is_mask var then
        if val = 0 \<and> dir < 0 then on_mask params var (\<lambda>m. Some (- EINVAL, snd_mask_none m))
        else let val = (if dir > 0 then val + 1 else if dir < 0 then val - 1 else val)
             in on_mask params var (\<lambda>m. snd_mask_refine_set m val)
      else
        if val = 0 \<and> dir < 0 then on_interval params var (\<lambda>i. (- EINVAL, i\<lparr>empty := True\<rparr>))
        else if dir = 0 then on_interval params var (\<lambda>i. snd_interval_refine_set i val)
        else let t = \<lparr>imin = if dir < 0 then val - 1 else val, imax = if dir < 0 then val else val + 1,
                      openmin = True, openmax = True, integer = False, empty = False\<rparr>
             in on_interval params var (\<lambda>i. snd_interval_refine i t))"

definition snd_pcm_hw_param_set :: "refine_ioctl \<Rightarrow> snd_pcm_hw_params \<Rightarrow> int \<Rightarrow> u32 \<Rightarrow> int \<Rightarrow>
    (int \<times> snd_pcm_hw_params) option" where
  "snd_pcm_hw_param_set k params var val dir = do {
     let save = params;
     (err, params) \<leftarrow> hw_param_set params var val dir;
     (err, params) \<leftarrow> hw_param_update_var k params var err;
     Some (if err < 0 then (err, save) else (err, params)) }"

definition snd_pcm_hw_param_test :: "refine_ioctl \<Rightarrow> snd_pcm_hw_params \<Rightarrow> int \<Rightarrow> u32 \<Rightarrow> int option \<Rightarrow>
    (int \<times> snd_pcm_hw_params) option" where
  "snd_pcm_hw_param_test k params var val dir = do {
     let save = params;
     (err, _) \<leftarrow> snd_pcm_hw_param_set k params var val (deref_or_0 dir);
     Some (err, save) }"

definition snd_pcm_hw_param_set_integer :: "refine_ioctl \<Rightarrow> snd_pcm_hw_params \<Rightarrow> int \<Rightarrow>
    (int \<times> snd_pcm_hw_params) option" where
  "snd_pcm_hw_param_set_integer k params var = do {
     i \<leftarrow> hw_param_interval params var;
     (if integer i then Some (0, params)
      else let (e, i) = interval_check_empty i; params = put_interval params var i in
      if e \<noteq> 0 then Some (- EINVAL, params)
      else let save = params; params = put_interval params var (i\<lparr>integer := True\<rparr>) in do {
        (err, params) \<leftarrow> hw_param_update_var k params var 1;
        Some (if err < 0 then (err, save) else (err, params)) }) }"

definition snd_pcm_hw_param_set_mask :: "refine_ioctl \<Rightarrow> snd_pcm_hw_params \<Rightarrow> int \<Rightarrow> snd_mask \<Rightarrow>
    (int \<times> snd_pcm_hw_params) option" where
  "snd_pcm_hw_param_set_mask k params var val = do {
     (r, params) \<leftarrow> on_mask params var (\<lambda>m. Some (snd_mask_refine m val));
     params \<leftarrow> (if r \<noteq> 0 then mark_changed params var else Some params);
     Some (if rmask params \<noteq> 0 then snd_pcm_hw_refine k params else (0, params)) }"

definition hw_param_set_first :: "snd_pcm_hw_params \<Rightarrow> int \<Rightarrow> (int \<times> snd_pcm_hw_params) option" where
  "hw_param_set_first params var =
     (if hw_is_mask var then on_mask params var snd_mask_refine_first
      else on_interval params var snd_interval_refine_first)"

definition hw_param_set_last :: "snd_pcm_hw_params \<Rightarrow> int \<Rightarrow> (int \<times> snd_pcm_hw_params) option" where
  "hw_param_set_last params var =
     (if hw_is_mask var then on_mask params var snd_mask_refine_last
      else on_interval params var snd_interval_refine_last)"

definition snd_pcm_hw_param_set_first :: "refine_ioctl \<Rightarrow> snd_pcm_hw_params \<Rightarrow> int \<Rightarrow> u32 option \<Rightarrow> int option \<Rightarrow>
    set_result" where
  "snd_pcm_hw_param_set_first k params var val dir = do {
     (err, params) \<leftarrow> hw_param_set_first params var;
     (err, params) \<leftarrow> hw_param_update_var k params var err;
     (if err = 0 then do {
        (r, val, dir) \<leftarrow> snd_pcm_hw_param_get params var val dir;
        Some (r, params, val, dir) }
      else Some (err, params, val, dir)) }"

definition snd_pcm_hw_param_set_last :: "refine_ioctl \<Rightarrow> snd_pcm_hw_params \<Rightarrow> int \<Rightarrow> u32 option \<Rightarrow> int option \<Rightarrow>
    set_result" where
  "snd_pcm_hw_param_set_last k params var val dir = do {
     (err, params) \<leftarrow> hw_param_set_last params var;
     (err, params) \<leftarrow> hw_param_update_var k params var err;
     (if err = 0 then do {
        (r, val, dir) \<leftarrow> snd_pcm_hw_param_get params var val dir;
        Some (r, params, val, dir) }
      else Some (err, params, val, dir)) }"

section \<open>The nearest value\<close>

text \<open>C \<^verbatim>\<open>int\<close> arithmetic: \<open>None\<close> where the result does not fit.\<close>

definition c_int :: "int \<Rightarrow> int option" where
  "c_int x = (if - INT_MAX - 1 \<le> x \<and> x \<le> INT_MAX then Some x else None)"

definition norm_dir :: "int \<Rightarrow> int" where
  "norm_dir d = (if d < 0 then - 1 else if d > 0 then 1 else 0)"

definition boundary_sub :: "int \<Rightarrow> int \<Rightarrow> int \<Rightarrow> int \<Rightarrow> (int \<times> int) option" where
  "boundary_sub a adir b bdir = do {
     let adir = norm_dir adir;
     let bdir = norm_dir bdir;
     a \<leftarrow> c_int (a - b);
     let cdir = adir - bdir;
     a \<leftarrow> (if cdir = - 2 then c_int (a - 1) else if cdir = 2 then c_int (a + 1) else Some a);
     Some (a, cdir) }"

definition boundary_lt :: "u32 \<Rightarrow> int \<Rightarrow> u32 \<Rightarrow> int \<Rightarrow> bool" where
  "boundary_lt a adir b bdir =
     (let (a, adir) = (if adir < 0 then (a - 1, 1) else if adir > 0 then (a, 1) else (a, adir));
          (b, bdir) = (if bdir < 0 then (b - 1, 1) else if bdir > 0 then (b, 1) else (b, bdir))
      in a < b \<or> (a = b \<and> adir < bdir))"

definition boundary_nearer :: "int \<Rightarrow> int \<Rightarrow> int \<Rightarrow> int \<Rightarrow> int \<Rightarrow> int \<Rightarrow> bool option" where
  "boundary_nearer mn mindir best bestdir mx maxdir = do {
     (dmin, dmindir) \<leftarrow> boundary_sub best bestdir mn mindir;
     (dmax, dmaxdir) \<leftarrow> boundary_sub mx maxdir best bestdir;
     Some (boundary_lt (word_of_int dmin) dmindir (word_of_int dmax) dmaxdir) }"

text \<open>The label \<^verbatim>\<open>_end\<close> of \<^verbatim>\<open>_snd_pcm_hw_param_set_near\<close>.\<close>

definition set_near_end :: "refine_ioctl \<Rightarrow> snd_pcm_hw_params \<Rightarrow> int \<Rightarrow> bool \<Rightarrow> u32 option \<Rightarrow> int option \<Rightarrow>
    set_result" where
  "set_near_end k params var lst val dir =
     (if lst then snd_pcm_hw_param_set_last k params var val dir
      else snd_pcm_hw_param_set_first k params var val dir)"

definition snd_pcm_hw_param_set_near :: "refine_ioctl \<Rightarrow> snd_pcm_hw_params \<Rightarrow> int \<Rightarrow> u32 option \<Rightarrow> int option \<Rightarrow>
    set_result" where
  "snd_pcm_hw_param_set_near k params var val dir = do {
     best \<leftarrow> val;
     let valdir = deref_or_0 dir;
     let best = (if best > of_int INT_MAX then of_int INT_MAX else best);
     let mn = best;
     let mindir = valdir;
     let (maxdir, mx) = (if valdir > 0 then (0, best) else if valdir = 0 then (- 1, best) else (1, best - 1));
     let save = params;
     let saved_min = mn;
     (err, params, mn, mindir) \<leftarrow> snd_pcm_hw_param_set_min k params var (Some mn) (Some mindir);
     mn \<leftarrow> mn;
     mindir \<leftarrow> mindir;
     i \<leftarrow> hw_param_interval params var;
     (if \<not> empty i \<and> interval_is_single i then do {
        (r, val, dir) \<leftarrow> snd_pcm_hw_param_get_min params var val dir;
        Some (r, params, val, dir) }
      else if err \<ge> 0 then
        if mn = saved_min \<and> mindir = valdir then set_near_end k params var False val dir
        else do {
          (err, params1, mx, maxdir) \<leftarrow> snd_pcm_hw_param_set_max k save var (Some mx) (Some maxdir);
          mx \<leftarrow> mx;
          maxdir \<leftarrow> maxdir;
          (if err < 0 then set_near_end k params var False val dir
           else do {
             nearer \<leftarrow> boundary_nearer (sint mx) maxdir (sint best) valdir (sint mn) mindir;
             (if nearer then set_near_end k params1 var True val dir
              else set_near_end k params var False val dir) }) }
      else do {
        (err, params, _, _) \<leftarrow> snd_pcm_hw_param_set_max k save var (Some mx) (Some maxdir);
        (if err < 0 then Some (err, params, val, dir)
         else set_near_end k params var True val dir) }) }"

definition snd_pcm_hw_param_get_mask :: "snd_pcm_hw_params \<Rightarrow> int \<Rightarrow> snd_mask option" where
  "snd_pcm_hw_param_get_mask params var = hw_param_mask params var"

section \<open>Choosing a configuration\<close>

definition param_choices :: "(int \<times> bool) list" where
  "param_choices = [(HW_ACCESS, False), (HW_FORMAT, False), (HW_SUBFORMAT, False), (HW_CHANNELS, False),
     (HW_RATE, False), (HW_BUFFER_SIZE, True), (HW_PERIOD_SIZE, False), (HW_PERIOD_TIME, False),
     (HW_TICK_TIME, False)]"

primrec choose_loop :: "refine_ioctl \<Rightarrow> (int \<times> bool) list \<Rightarrow> snd_pcm_hw_params \<Rightarrow>
    (int \<times> snd_pcm_hw_params) option" where
  "choose_loop k [] params = Some (0, params)"
| "choose_loop k (c # cs) params = (case c of (var, lst) \<Rightarrow> do {
     (err, params, _, _) \<leftarrow> (if lst then snd_pcm_hw_param_set_last k params var None None
                            else snd_pcm_hw_param_set_first k params var None None);
     (if err < 0 then Some (err, params) else choose_loop k cs params) })"

definition snd_pcm_hw_params_choose :: "refine_ioctl \<Rightarrow> snd_pcm_hw_params \<Rightarrow> (int \<times> snd_pcm_hw_params) option" where
  "snd_pcm_hw_params_choose k params = choose_loop k param_choices params"

section \<open>Meaning and well-formedness\<close>

definition wf_params :: "snd_pcm_hw_params \<Rightarrow> bool" where
  "wf_params p \<longleftrightarrow> length (masks p) = 3 \<and> list_all wf_mask (masks p) \<and>
                 length (intervals p) = 12 \<and> list_all wf_interval (intervals p)"

definition hw_var :: "int \<Rightarrow> bool" where
  "hw_var var \<longleftrightarrow> hw_is_mask var \<or> hw_is_interval var"

text \<open>The values the parameter \<open>var\<close> may still take.\<close>

definition param_vals :: "snd_pcm_hw_params \<Rightarrow> int \<Rightarrow> real set" where
  "param_vals p var =
     (if hw_is_mask var then real ` mask_vals (masks p ! nat var)
      else interval_vals (intervals p ! nat (var - HW_SAMPLE_BITS)))"

text \<open>What \<^verbatim>\<open>SNDRV_PCM_IOCTL_HW_REFINE\<close> is documented to do: it only takes values away, it fails with an
  error number instead of leaving a parameter without values, and it keeps the layout of the space.\<close>

definition kernel_narrows :: "refine_ioctl \<Rightarrow> bool" where
  "kernel_narrows k \<longleftrightarrow> (\<forall>p ret errno p'. wf_params p \<longrightarrow> k p = (ret, errno, p') \<longrightarrow>
     (if ret < 0 then 0 < errno
      else wf_params p' \<and> (\<forall>var. hw_var var \<longrightarrow> param_vals p' var \<subseteq> param_vals p var \<and> param_vals p' var \<noteq> {})))"

lemma hw_var_cases [consumes 2, case_names mask interval]:
  assumes "wf_params p" "hw_var var"
  obtains (mask) m where "hw_is_mask var" "hw_param_mask p var = Some m" "wf_mask m" "m = masks p ! nat var"
    "param_vals p var = real ` mask_vals m"
  | (interval) i where "\<not> hw_is_mask var" "hw_is_interval var" "hw_param_interval p var = Some i" "wf_interval i"
    "i = intervals p ! nat (var - HW_SAMPLE_BITS)" "param_vals p var = interval_vals i"
proof (cases "hw_is_mask var")
  case True
  then have "nat var < 3" "0 \<le> var" by (auto simp: hw_is_mask_def)
  then show thesis
    using mask [of "masks p ! nat var"] True assms
    by (auto simp: wf_params_def hw_param_mask_def param_vals_def list_all_length)
next
  case False
  then have "hw_is_interval var" using assms by (simp add: hw_var_def)
  moreover from this have "nat (var - HW_SAMPLE_BITS) < 12" "8 \<le> var" by (auto simp: hw_is_interval_def)
  ultimately show thesis
    using interval [of "intervals p ! nat (var - HW_SAMPLE_BITS)"] False assms
    by (auto simp: wf_params_def hw_param_interval_def param_vals_def list_all_length)
qed

lemma param_vals_put_mask:
  assumes "wf_params p" "hw_is_mask var" "wf_mask m" "hw_var v"
  shows "wf_params (put_mask p var m)"
    "param_vals (put_mask p var m) v = (if v = var then real ` mask_vals m else param_vals p v)"
  using assms
  by (auto simp: wf_params_def put_mask_def param_vals_def hw_is_mask_def hw_var_def hw_is_interval_def
      list_all_length nth_list_update eq_nat_nat_iff)

lemma param_vals_put_interval:
  assumes "wf_params p" "hw_is_interval var" "wf_interval i" "hw_var v"
  shows "wf_params (put_interval p var i)"
    "param_vals (put_interval p var i) v = (if v = var then interval_vals i else param_vals p v)"
  using assms
  by (auto simp: wf_params_def put_interval_def param_vals_def hw_is_mask_def hw_var_def hw_is_interval_def
      list_all_length nth_list_update eq_nat_nat_iff)

section \<open>One narrowing step\<close>

definition ok_space :: "snd_pcm_hw_params \<Rightarrow> bool" where
  "ok_space p \<longleftrightarrow> wf_params p \<and> (\<forall>v. hw_var v \<longrightarrow> param_vals p v \<noteq> {})"

definition narrower :: "snd_pcm_hw_params \<Rightarrow> snd_pcm_hw_params \<Rightarrow> bool" where
  "narrower q p \<longleftrightarrow> (\<forall>v. hw_var v \<longrightarrow> param_vals q v \<subseteq> param_vals p v)"

lemma narrower_refl [simp]: "narrower p p"
  by (simp add: narrower_def)

lemma narrower_trans: "narrower r q \<Longrightarrow> narrower q p \<Longrightarrow> narrower r p"
  unfolding narrower_def by blast

text \<open>The effect of narrowing \<open>var\<close> to the values in \<open>S\<close>, before the kernel is asked.\<close>

definition step_ok :: "snd_pcm_hw_params \<Rightarrow> int \<Rightarrow> real set \<Rightarrow> (int \<times> snd_pcm_hw_params) option \<Rightarrow> bool" where
  "step_ok p var S res \<longleftrightarrow> (\<exists>r p'. res = Some (r, p') \<and> rmask p' = rmask p \<and>
     (r < 0 \<longleftrightarrow> param_vals p var \<inter> S = {}) \<and>
     (0 \<le> r \<longrightarrow> wf_params p' \<and>
        (\<forall>v. hw_var v \<longrightarrow> param_vals p' v = (if v = var then param_vals p v \<inter> S else param_vals p v))))"

lemma hw_is_mask_nth: "hw_is_mask var \<Longrightarrow> hw_param_mask p var = array_get (masks p) (nat var)"
  by (simp add: hw_is_mask_def hw_param_mask_def)

lemma real_image_Int: "real ` A \<inter> S = real ` (A \<inter> {n. real n \<in> S})"
  by auto

lemma on_mask_step:
  assumes "ok_space p" "hw_is_mask var"
    and f: "\<And>m. m = masks p ! nat var \<Longrightarrow> wf_mask m \<Longrightarrow> mask_vals m \<noteq> {} \<Longrightarrow> \<exists>r m'. f m = Some (r, m') \<and> wf_mask m' \<and>
          mask_vals m' = mask_vals m \<inter> {n. real n \<in> S} \<and> (r < 0 \<longleftrightarrow> mask_vals m' = {})"
  shows "step_ok p var S (on_mask p var f)"
proof -
  have wf: "wf_params p" and hv: "hw_var var" using assms by (auto simp: ok_space_def hw_var_def)
  from wf hv show ?thesis
  proof (cases rule: hw_var_cases)
    case (mask m)
    have ne: "mask_vals m \<noteq> {}" using assms(1) hv mask(5) by (auto simp: ok_space_def)
    obtain r m' where m': "f m = Some (r, m')" "wf_mask m'" "mask_vals m' = mask_vals m \<inter> {n. real n \<in> S}"
      "r < 0 \<longleftrightarrow> mask_vals m' = {}" using f [OF mask(4,3) ne] by blast
    have vals: "param_vals p var \<inter> S = real ` mask_vals m'"
      unfolding mask(5) m'(3) by (rule real_image_Int)
    then have "r < 0 \<longleftrightarrow> param_vals p var \<inter> S = {}" using m'(4) by simp
    moreover have "rmask (put_mask p var m') = rmask p" by (simp add: put_mask_def)
    moreover note param_vals_put_mask [OF wf assms(2) m'(2)]
    moreover have "on_mask p var f = Some (r, put_mask p var m')"
      using mask(2) m'(1) by (simp add: on_mask_def)
    ultimately show ?thesis unfolding step_ok_def using vals hv by auto
  qed (use assms in simp)
qed

lemma on_interval_step:
  assumes "ok_space p" "hw_is_interval var"
    and f: "\<And>i. i = intervals p ! nat (var - HW_SAMPLE_BITS) \<Longrightarrow> wf_interval i \<Longrightarrow> interval_vals i \<noteq> {} \<Longrightarrow> interval_narrowed_to i S (f i)"
  shows "step_ok p var S (on_interval p var f)"
proof -
  have wf: "wf_params p" and hv: "hw_var var" using assms by (auto simp: ok_space_def hw_var_def)
  have nm: "\<not> hw_is_mask var" using assms(2) by (auto simp: hw_is_mask_def hw_is_interval_def)
  from wf hv show ?thesis
  proof (cases rule: hw_var_cases)
    case (interval i)
    have ne: "interval_vals i \<noteq> {}" using assms(1) hv interval(6) by (auto simp: ok_space_def)
    obtain r j where j: "f i = (r, j)" by (cases "f i")
    have n: "interval_vals j = interval_vals i \<inter> S" "r < 0 \<longleftrightarrow> interval_vals i \<inter> S = {}"
      "0 \<le> r \<Longrightarrow> wf_interval j"
      using f [OF interval(5,4) ne] unfolding j by (auto simp: interval_narrowed_to_def split: if_splits)
    have "rmask (put_interval p var j) = rmask p" by (simp add: put_interval_def)
    moreover have "on_interval p var f = Some (r, put_interval p var j)"
      using interval(3) j by (simp add: on_interval_def)
    moreover have "wf_params (put_interval p var j) \<and>
        (\<forall>v. hw_var v \<longrightarrow> param_vals (put_interval p var j) v = (if v = var then param_vals p v \<inter> S else param_vals p v))"
      if "0 \<le> r"
      using param_vals_put_interval [OF wf assms(2) n(3) [OF that]] n(1) interval(6) hv by auto
    ultimately show ?thesis unfolding step_ok_def using n(2) interval(6) by auto
  qed (use nm in simp)
qed

section \<open>Asking the kernel\<close>

lemma mark_changed_facts:
  assumes "mark_changed p var = Some q"
  shows "masks q = masks p" "intervals q = intervals p" "rmask q \<noteq> 0"
proof -
  have q: "q = p\<lparr>cmask := cmask p OR push_bit (nat var) 1, rmask := rmask p OR push_bit (nat var) 1\<rparr>"
    and "nat var < 32" using assms by (auto simp: mark_changed_def split: if_splits)
  then have "bit (rmask q) (nat var)" by (simp add: bit_or_iff bit_single del: push_bit_of_1)
  then show "rmask q \<noteq> 0" by auto
  show "masks q = masks p" "intervals q = intervals p" using q by simp_all
qed

lemma same_arrays:
  assumes "masks q = masks p" "intervals q = intervals p"
  shows "wf_params q = wf_params p" "param_vals q v = param_vals p v" "snd_pcm_hw_param_empty q v = snd_pcm_hw_param_empty p v"
  using assms by (simp_all add: wf_params_def param_vals_def snd_pcm_hw_param_empty_def hw_param_mask_def hw_param_interval_def)

lemma snd_pcm_hw_param_empty_iff:
  assumes "wf_params p" "hw_var v"
  shows "snd_pcm_hw_param_empty p v = Some (param_vals p v = {})"
  using assms
  by (cases rule: hw_var_cases)
     (auto simp: snd_pcm_hw_param_empty_def snd_mask_empty_iff interval_empty_iff)

lemma hw_refine_cases [consumes 2, case_names fail ok]:
  assumes "kernel_narrows k" "wf_params p"
  obtains (fail) e q where "snd_pcm_hw_refine k p = (e, q)" "e < 0"
  | (ok) q where "snd_pcm_hw_refine k p = (0, q)" "ok_space q" "narrower q p"
proof -
  obtain ret errno q where k: "k p = (ret, errno, q)" by (cases "k p")
  have "if ret < 0 then 0 < errno
      else wf_params q \<and> (\<forall>var. hw_var var \<longrightarrow> param_vals q var \<subseteq> param_vals p var \<and> param_vals q var \<noteq> {})"
    using assms k unfolding kernel_narrows_def by blast
  then show thesis
    using fail ok by (cases "ret < 0") (auto simp: snd_pcm_hw_refine_def k ok_space_def narrower_def)
qed

lemma mark_changed_in: "hw_var var \<Longrightarrow> \<exists>q. mark_changed p var = Some q"
  by (auto simp: hw_var_def hw_is_mask_def hw_is_interval_def mark_changed_def)

lemma update_var_ok:
  assumes "kernel_narrows k" "ok_space p" "hw_var var"
  shows "\<exists>e q. hw_param_update_var k p var r = Some (e, q) \<and> e \<le> 0 \<and> (r < 0 \<longrightarrow> e = r) \<and>
               (e = 0 \<longrightarrow> ok_space q \<and> narrower q p)"
proof (cases "r < 0")
  case True
  then show ?thesis by (simp add: hw_param_update_var_def)
next
  case False
  obtain p1 where p1: "(if r \<noteq> 0 then mark_changed p var else Some p) = Some p1"
    "masks p1 = masks p" "intervals p1 = intervals p"
    using mark_changed_in [OF assms(3), of p] mark_changed_facts by (cases "r = 0") auto
  note same = same_arrays [OF p1(2,3)]
  have wf1: "wf_params p1" using assms(2) same by (simp add: ok_space_def)
  show ?thesis
  proof (cases "rmask p1 = 0")
    case True
    then show ?thesis using False p1(1) same assms(2)
      by (auto simp: hw_param_update_var_def ok_space_def narrower_def)
  next
    case nz: False
    from assms(1) wf1 show ?thesis
    proof (cases rule: hw_refine_cases)
      case (fail e q)
      then show ?thesis using False nz p1(1) by (simp add: hw_param_update_var_def)
    next
      case (ok q)
      then have "snd_pcm_hw_param_empty q var = Some False" 
        using snd_pcm_hw_param_empty_iff [of q var] assms(3) by (auto simp: ok_space_def)
      moreover have "narrower q p" using ok(3) same by (simp add: narrower_def)
      ultimately show ?thesis using ok False nz p1(1) by (simp add: hw_param_update_var_def)
    qed
  qed
qed

section \<open>What a request asks for\<close>

definition req_min :: "int \<Rightarrow> u32 \<Rightarrow> int \<Rightarrow> real set" where
  "req_min var val dir =
     (if hw_is_mask var then {uval val..}
      else if dir > 0 then {uval val<..}
      else if dir < 0 \<and> val > 0 then {uval val - 1<..}
      else {uval val..})"

definition req_max :: "int \<Rightarrow> u32 \<Rightarrow> int \<Rightarrow> real set" where
  "req_max var val dir =
     (if hw_is_mask var \<or> dir = 0 then {..uval val}
      else if dir > 0 then {..<uval val + 1} else {..<uval val})"

definition req_set :: "int \<Rightarrow> u32 \<Rightarrow> int \<Rightarrow> real set" where
  "req_set var val dir =
     (if hw_is_mask var \<or> dir = 0 then {uval val + of_int (norm_dir dir)}
      else if dir < 0 then {uval val - 1<..<uval val} else {uval val<..<uval val + 1})"

text \<open>The arguments for which the code neither leaves the mask nor wraps a bound around.\<close>

definition min_arg_ok :: "int \<Rightarrow> u32 \<Rightarrow> int \<Rightarrow> bool" where
  "min_arg_ok var val dir \<longleftrightarrow> (if hw_is_mask var then unat val \<le> SND_MASK_MAX else \<not> (dir > 0 \<and> val = UINT_MAX))"

definition max_arg_ok :: "int \<Rightarrow> u32 \<Rightarrow> int \<Rightarrow> bool" where
  "max_arg_ok var val dir \<longleftrightarrow> hw_is_mask var \<or> (\<not> (dir < 0 \<and> val = 0) \<and> \<not> (dir > 0 \<and> val = UINT_MAX))"

definition set_arg_ok :: "int \<Rightarrow> u32 \<Rightarrow> int \<Rightarrow> bool" where
  "set_arg_ok var val dir \<longleftrightarrow>
     (if hw_is_mask var then uval val + of_int (norm_dir dir) < real SND_MASK_MAX
      else \<not> (dir > 0 \<and> val = UINT_MAX) \<and> \<not> (dir < 0 \<and> val = 0))"

lemma uval_real_less: "uval v \<le> real n \<longleftrightarrow> unat v \<le> n" "uval v < real n \<longleftrightarrow> unat v < n" "real n = uval v \<longleftrightarrow> n = unat v"
  by (auto simp: uval_def simp del: of_nat_unat)

lemma uval_UINT_MAX: "uval UINT_MAX = 4294967295"
  by (simp add: uval_def unsigned_minus_1_eq_mask mask_eq_exp_minus_1 del: of_nat_unat)

lemma hw_param_set_min_step:
  assumes "ok_space p" "hw_var var" "min_arg_ok var val dir"
  shows "step_ok p var (req_min var val dir) (hw_param_set_min p var val dir)"
proof (cases "hw_is_mask var")
  case True
  have "step_ok p var {uval val..} (on_mask p var (\<lambda>m. snd_mask_refine_min m val))"
  proof (rule on_mask_step [OF assms(1) True])
    fix m assume m: "wf_mask m" "mask_vals m \<noteq> {}"
    have eq: "{n. real n \<in> {uval val..}} = {unat val..}" by (auto simp: uval_real_less)
    show "\<exists>r m'. snd_mask_refine_min m val = Some (r, m') \<and> wf_mask m' \<and>
        mask_vals m' = mask_vals m \<inter> {n. real n \<in> {uval val..}} \<and> (r < 0 \<longleftrightarrow> mask_vals m' = {})"
      unfolding eq
      using snd_mask_refine_min_cases [OF m, of val] assms(3) True m(2)
      by (auto simp: min_arg_ok_def Int_absorb2 split: if_splits)
  qed
  with True show ?thesis by (simp add: hw_param_set_min_def req_min_def)
next
  case False
  then have iv: "hw_is_interval var" using assms(2) by (simp add: hw_var_def)
  have *: "step_ok p var (at_least b opn) (on_interval p var (\<lambda>i. snd_interval_refine_min i b opn False))"
    if "opn \<Longrightarrow> b \<noteq> UINT_MAX" for b opn
    by (rule on_interval_step [OF assms(1) iv]) (use that in \<open>auto intro: refine_min_narrows\<close>)
  have dec: "val - 1 \<noteq> UINT_MAX \<and> uval (val - 1) = uval val - 1" if "val > 0"
    using that uval_dec [OF that] by (auto simp: word_neq_0_conv)
  show ?thesis
    using False assms(3) * [of True val] * [of True "val - 1"] * [of False val] dec
    by (auto simp add: hw_param_set_min_def req_min_def min_arg_ok_def at_least_def)
qed

lemma hw_param_set_max_step:
  assumes "ok_space p" "hw_var var" "max_arg_ok var val dir"
  shows "step_ok p var (req_max var val dir) (hw_param_set_max p var val dir)"
proof (cases "hw_is_mask var")
  case True
  have "step_ok p var {..uval val} (on_mask p var (\<lambda>m. snd_mask_refine_max m val))"
  proof (rule on_mask_step [OF assms(1) True])
    fix m assume m: "wf_mask m" "mask_vals m \<noteq> {}"
    have eq: "{n. real n \<in> {..uval val}} = {..unat val}" by (auto simp: uval_def simp del: of_nat_unat)
    show "\<exists>r m'. snd_mask_refine_max m val = Some (r, m') \<and> wf_mask m' \<and>
        mask_vals m' = mask_vals m \<inter> {n. real n \<in> {..uval val}} \<and> (r < 0 \<longleftrightarrow> mask_vals m' = {})"
      unfolding eq
      using snd_mask_refine_max_cases [OF m, of val] m(2)
      by (auto simp: Int_absorb2 split: if_splits)
  qed
  with True show ?thesis by (simp add: hw_param_set_max_def req_max_def)
next
  case False
  then have iv: "hw_is_interval var" using assms(2) by (simp add: hw_var_def)
  have *: "step_ok p var (at_most b opn) (on_interval p var (\<lambda>i. snd_interval_refine_max i b opn False))"
    if "opn \<Longrightarrow> b \<noteq> 0" for b opn
    by (rule on_interval_step [OF assms(1) iv]) (use that in \<open>auto intro: refine_max_narrows\<close>)
  have inc: "val + 1 \<noteq> 0 \<and> uval (val + 1) = uval val + 1" if "val \<noteq> UINT_MAX"
    using uval_inc' [OF that] uval_less [of val "val + 1"] by auto
  show ?thesis
    using False assms(3) * [of True val] * [of True "val + 1"] * [of False val] inc
    by (auto simp: hw_param_set_max_def req_max_def max_arg_ok_def at_most_def)
qed

lemma hw_param_set_step:
  assumes "ok_space p" "hw_var var" "set_arg_ok var val dir"
  shows "step_ok p var (req_set var val dir) (hw_param_set p var val dir)"
proof (cases "hw_is_mask var")
  case True
  let ?v = "if dir > 0 then val + 1 else if dir < 0 then val - 1 else val"
  show ?thesis
  proof (cases "val = 0 \<and> dir < 0")
    case neg: True
    have "step_ok p var {- 1} (on_mask p var (\<lambda>m. Some (- EINVAL, snd_mask_none m)))"
      by (rule on_mask_step [OF assms(1) True]) auto
    with neg True show ?thesis by (simp add: hw_param_set_def req_set_def norm_dir_def uval_def)
  next
    case nneg: False
    have lt: "uval val + of_int (norm_dir dir) < 256" using assms(3) True by (simp add: set_arg_ok_def)
    then have "val \<noteq> UINT_MAX" if "dir > 0" using that by (auto simp: norm_dir_def uval_UINT_MAX)
    then have v: "uval ?v = uval val + of_int (norm_dir dir)"
      using nneg uval_inc' [of val] uval_dec' [of val] by (auto simp: norm_dir_def)
    have "uval ?v < real SND_MASK_MAX" using lt unfolding v by simp
    then have bound: "unat ?v < SND_MASK_MAX" by (simp only: uval_real_less)
    have "step_ok p var {uval ?v} (on_mask p var (\<lambda>m. snd_mask_refine_set m ?v))"
    proof (rule on_mask_step [OF assms(1) True])
      fix m assume m: "wf_mask m" "mask_vals m \<noteq> {}"
      have eq: "{n. real n \<in> {uval ?v}} = {unat ?v}" by (auto simp: uval_def simp del: of_nat_unat)
      show "\<exists>r m'. snd_mask_refine_set m ?v = Some (r, m') \<and> wf_mask m' \<and>
          mask_vals m' = mask_vals m \<inter> {n. real n \<in> {uval ?v}} \<and> (r < 0 \<longleftrightarrow> mask_vals m' = {})"
        unfolding eq
        using snd_mask_refine_set_cases [OF m bound] 
        by (auto split: if_splits)
    qed
    with True nneg show ?thesis by (auto simp add: hw_param_set_def req_set_def v Let_def)
  qed
next
  case False
  then have iv: "hw_is_interval var" using assms(2) by (simp add: hw_var_def)
  have args: "dir > 0 \<Longrightarrow> val \<noteq> UINT_MAX" "dir < 0 \<Longrightarrow> val \<noteq> 0" using assms(3) False by (auto simp: set_arg_ok_def)
  have *: "step_ok p var (interval_vals t) (on_interval p var (\<lambda>i. snd_interval_refine i t))"
    if "wf_interval t" "interval_vals t \<noteq> {}" for t
    by (rule on_interval_step [OF assms(1) iv]) (use that in \<open>auto intro: interval_refine_narrows\<close>)
  let ?pt = "\<lparr>imin = val, imax = val, openmin = False, openmax = False, integer = True, empty = False\<rparr>"
  have pt: "interval_vals ?pt = {uval val}" "wf_interval ?pt"
    by (auto simp: interval_vals_def above_min_def below_max_def wf_interval_def bounds_empty_def)
  have op: "step_ok p var {uval a<..<uval b} (on_interval p var (\<lambda>i. snd_interval_refine i
      \<lparr>imin = a, imax = b, openmin = True, openmax = True, integer = False, empty = False\<rparr>))" if "a < b" for a b
  proof -
    let ?t = "\<lparr>imin = a, imax = b, openmin = True, openmax = True, integer = False, empty = False\<rparr>"
    have "interval_vals ?t = {uval a<..<uval b}" "wf_interval ?t"
      using that by (auto simp: interval_vals_def above_min_def below_max_def wf_interval_def bounds_empty_def)
    moreover from this have "interval_vals ?t \<noteq> {}" using that by simp
    ultimately show ?thesis using * [of ?t] by simp
  qed
  have up: "val < val + 1 \<and> uval (val + 1) = uval val + 1" if "dir > 0"
    using uval_inc' [OF args(1) [OF that]] uval_less [of val "val + 1"] by simp
  have dn: "val - 1 < val \<and> uval (val - 1) = uval val - 1" if "dir < 0"
    using uval_dec' [OF args(2) [OF that]] uval_less [of "val - 1" val] by simp
  show ?thesis
    using False args * [OF pt(2)] pt(1) op [of val "val + 1"] op [of "val - 1" val] up dn
    by (auto simp: hw_param_set_def req_set_def snd_interval_refine_set_def Let_def norm_dir_def)
qed

section \<open>A request and the kernel together\<close>

definition settled :: "snd_pcm_hw_params \<Rightarrow> int \<Rightarrow> real set \<Rightarrow> (int \<times> snd_pcm_hw_params) option \<Rightarrow> bool" where
  "settled p var S res \<longleftrightarrow> (\<exists>e q. res = Some (e, q) \<and> e \<le> 0 \<and>
     (e = 0 \<longrightarrow> ok_space q \<and> narrower q p \<and> param_vals q var \<subseteq> S) \<and>
     (param_vals p var \<inter> S = {} \<longrightarrow> e < 0))"

lemma settledE:
  assumes "settled p var S res"
  obtains (ok) q where "res = Some (0, q)" "ok_space q" "narrower q p" "param_vals q var \<subseteq> S" "param_vals p var \<inter> S \<noteq> {}"
  | (fail) e q where "res = Some (e, q)" "e < 0"
  using assms unfolding settled_def by force

text \<open>The two calls every operation starts with: narrow, then \<^verbatim>\<open>hw_param_update_var\<close>.\<close>

definition ask :: "refine_ioctl \<Rightarrow> int \<Rightarrow> (int \<times> snd_pcm_hw_params) option \<Rightarrow> (int \<times> snd_pcm_hw_params) option" where
  "ask k var res = Option.bind res (\<lambda>(r, p1). hw_param_update_var k p1 var r)"

lemma ask_bind:
  "Option.bind res (\<lambda>(r, p1). Option.bind (hw_param_update_var k p1 var r) g) = Option.bind (ask k var res) g"
  by (cases res) (auto simp: ask_def)

lemma step_settled:
  assumes "kernel_narrows k" "ok_space p" "hw_var var" "step_ok p var S res"
  shows "settled p var S (ask k var res)"
proof -
  obtain r p1 where r: "res = Some (r, p1)" "r < 0 \<longleftrightarrow> param_vals p var \<inter> S = {}"
    "0 \<le> r \<Longrightarrow> wf_params p1 \<and>
        (\<forall>v. hw_var v \<longrightarrow> param_vals p1 v = (if v = var then param_vals p v \<inter> S else param_vals p v))"
    using assms(4) unfolding step_ok_def by blast
  show ?thesis
  proof (cases "r < 0")
    case True
    then show ?thesis by (auto simp: settled_def r(1) hw_param_update_var_def ask_def)
  next
    case False
    then have p1: "wf_params p1" "\<And>v. hw_var v \<Longrightarrow> param_vals p1 v = (if v = var then param_vals p v \<inter> S else param_vals p v)"
      using r(3) by auto
    have ok1: "ok_space p1" using p1 False r(2) assms(2) by (auto simp: ok_space_def)
    have "narrower p1 p" using p1(2) by (auto simp: narrower_def)
    moreover obtain e q where "hw_param_update_var k p1 var r = Some (e, q)" "e \<le> 0" "e = 0 \<longrightarrow> ok_space q \<and> narrower q p1"
      using update_var_ok [OF assms(1) ok1 assms(3)] by blast
    moreover have "param_vals q var \<subseteq> S" if "narrower q p1"
      using that p1(2) [OF assms(3)] assms(3) unfolding narrower_def by fastforce
    ultimately show ?thesis
      using r(1,2) False narrower_trans unfolding settled_def ask_def by auto
  qed
qed

lemma get_min_total:
  assumes "wf_params q" "hw_var var"
  shows "\<exists>v d. snd_pcm_hw_param_get_min q var val dir = Some (0, v, d) \<and> (v = None \<longleftrightarrow> val = None) \<and> (d = None \<longleftrightarrow> dir = None)"
  using assms
  by (cases rule: hw_var_cases) (auto simp: snd_pcm_hw_param_get_min_def store_if_def)

lemma get_max_total:
  assumes "ok_space q" "hw_var var"
  shows "\<exists>v d. snd_pcm_hw_param_get_max q var val dir = Some (0, v, d) \<and> (v = None \<longleftrightarrow> val = None) \<and> (d = None \<longleftrightarrow> dir = None)"
proof -
  have "wf_params q" using assms(1) by (simp add: ok_space_def)
  from this assms(2) show ?thesis
  proof (cases rule: hw_var_cases)
    case (mask m)
    then have "mask_vals m \<noteq> {}" using assms by (auto simp: ok_space_def)
    then obtain r where "mask_get_max m = Some r" using mask_get_max_spec [OF mask(3)] by blast
    then show ?thesis using mask by (auto simp: snd_pcm_hw_param_get_max_def store_if_def split: option.splits)
  qed (auto simp: snd_pcm_hw_param_get_max_def store_if_def)
qed

text \<open>The operations that put the old parameters back when they fail.\<close>

definition settled_or_restored :: "snd_pcm_hw_params \<Rightarrow> int \<Rightarrow> real set \<Rightarrow> (int \<times> snd_pcm_hw_params) option \<Rightarrow> bool" where
  "settled_or_restored p var S res \<longleftrightarrow> settled p var S res \<and> (\<forall>e q. res = Some (e, q) \<longrightarrow> e \<noteq> 0 \<longrightarrow> q = p)"

definition params_of :: "(int \<times> snd_pcm_hw_params \<times> 'x) option \<Rightarrow> (int \<times> snd_pcm_hw_params) option" where
  "params_of = map_option (\<lambda>(e, q, _). (e, q))"

lemma set_min_settled:
  assumes "kernel_narrows k" "ok_space p" "hw_var var" "min_arg_ok var val (deref_or_0 dir)"
  shows "settled_or_restored p var (req_min var val (deref_or_0 dir))
           (params_of (snd_pcm_hw_param_set_min k p var (Some val) dir))"
proof -
  have "settled p var (req_min var val (deref_or_0 dir))
      (ask k var (hw_param_set_min p var val (deref_or_0 dir)))"
    by (intro step_settled hw_param_set_min_step assms)
  then show ?thesis
  proof (cases rule: settledE)
    case (ok q)
    then have "wf_params q" by (simp add: ok_space_def)
    from get_min_total [OF this assms(3), of "Some val" dir] ok show ?thesis
      by (auto simp: snd_pcm_hw_param_set_min_def ask_bind settled_or_restored_def settled_def params_of_def)
  next
    case (fail e q)
    then show ?thesis
      by (auto simp: snd_pcm_hw_param_set_min_def ask_bind settled_or_restored_def settled_def params_of_def)
  qed
qed

lemma set_max_settled:
  assumes "kernel_narrows k" "ok_space p" "hw_var var" "max_arg_ok var val (deref_or_0 dir)"
  shows "settled_or_restored p var (req_max var val (deref_or_0 dir))
           (params_of (snd_pcm_hw_param_set_max k p var (Some val) dir))"
proof -
  have "settled p var (req_max var val (deref_or_0 dir))
      (ask k var (hw_param_set_max p var val (deref_or_0 dir)))"
    by (intro step_settled hw_param_set_max_step assms)
  then show ?thesis
  proof (cases rule: settledE)
    case (ok q)
    from get_max_total [OF ok(2) assms(3), of "Some val" dir] ok show ?thesis
      by (auto simp: snd_pcm_hw_param_set_max_def ask_bind settled_or_restored_def settled_def params_of_def)
  next
    case (fail e q)
    then show ?thesis
      by (auto simp: snd_pcm_hw_param_set_max_def ask_bind settled_or_restored_def settled_def params_of_def)
  qed
qed

lemma set_settled:
  assumes "kernel_narrows k" "ok_space p" "hw_var var" "set_arg_ok var val dir"
  shows "settled_or_restored p var (req_set var val dir) (snd_pcm_hw_param_set k p var val dir)"
proof -
  have "settled p var (req_set var val dir)
      (ask k var (hw_param_set p var val dir))"
    by (intro step_settled hw_param_set_step assms)
  then show ?thesis
    by (cases rule: settledE)
      (auto simp: snd_pcm_hw_param_set_def ask_bind settled_or_restored_def settled_def)
qed

section \<open>Lowest and highest configuration\<close>

lemma uval_half: "uval a \<le> uval b + 1 / 2 \<Longrightarrow> uval a \<le> uval b"
proof -
  assume "uval a \<le> uval b + 1 / 2"
  then have "real (unat a) < real (unat b + 1)" by (simp add: uval_def del: of_nat_unat)
  then have "unat a < unat b + 1" by (simp only: of_nat_less_iff)
  then show "uval a \<le> uval b" by (simp add: uval_def del: of_nat_unat)
qed

lemma uval_gap: "uval a + 1 < uval b \<Longrightarrow> uval a + 2 \<le> uval b"
proof -
  assume "uval a + 1 < uval b"
  then have "real (unat a + 1) < real (unat b)" by (simp add: uval_def del: of_nat_unat)
  then have "unat a + 2 \<le> unat b" by (simp only: of_nat_less_iff)
  then have "real (unat a + 2) \<le> real (unat b)" by (simp only: of_nat_le_iff)
  then show "uval a + 2 \<le> uval b" by (simp add: uval_def del: of_nat_unat)
qed

lemma interval_single_vals:
  assumes "wf_interval i" "interval_is_single i" "x \<in> interval_vals i"
  shows "uval (imin i) \<le> x" "x < uval (imin i) + 1"
proof -
  have ne: "\<not> bounds_empty i" using interval_nonempty(2) [OF assms(1)] assms(3) by blast
  show "uval (imin i) \<le> x" using assms(3) by (auto simp: interval_vals_def above_min_def split: if_splits)
  show "x < uval (imin i) + 1"
  proof (cases "imin i = imax i")
    case True
    then show ?thesis using assms(3) by (auto simp: interval_vals_def below_max_def split: if_splits)
  next
    case False
    then have "imax i = imin i + 1" "openmax i" using assms(2) by (auto simp: interval_is_single_def)
    moreover have "imin i < imax i" using False ne by (auto simp: bounds_empty_def)
    ultimately show ?thesis using assms(3) uval_inc [of "imin i" "imax i"]
      by (auto simp: interval_vals_def below_max_def)
  qed
qed

lemma interval_single_antimono:
  assumes "wf_interval i" "interval_is_single i" "wf_interval j" "interval_vals j \<subseteq> interval_vals i" "interval_vals j \<noteq> {}"
  shows "interval_is_single j"
proof (rule ccontr)
  assume ns: "\<not> interval_is_single j"
  note b = not_single_bounds [OF assms(3) interval_nonempty(1) [OF assms(3,5)] ns]
  let ?lo = "if integer j then uval (imin j) else uval (imin j) + 1 / 2"
  let ?hi = "if openmax j then uval (imax j) - 1 / 2 else uval (imax j)"
  have closed: "integer j \<Longrightarrow> \<not> openmin j \<and> \<not> openmax j" using assms(3) by (simp add: wf_interval_def)
  have lo: "?lo \<in> interval_vals j" and hi: "?hi \<in> interval_vals j"
    using b closed unfolding interval_vals_def above_min_def below_max_def by auto
  have "uval (imin i) \<le> ?lo" using interval_single_vals(1) [OF assms(1,2)] lo assms(4) by blast
  then have low: "uval (imin i) \<le> uval (imin j)" using uval_half [of "imin i" "imin j"] by (auto split: if_splits)
  have up: "?hi < uval (imin i) + 1" using interval_single_vals(2) [OF assms(1,2)] hi assms(4) by blast
  from b(2) show False
  proof
    assume "uval (imin j) + 1 < uval (imax j)"
    from uval_gap [OF this] low up show False by (auto simp del: uval_le split: if_splits)
  next
    assume "uval (imin j) + 1 = uval (imax j) \<and> \<not> openmax j"
    with low up show False by (auto simp del: uval_le)
  qed
qed

definition param_single :: "snd_pcm_hw_params \<Rightarrow> int \<Rightarrow> bool" where
  "param_single p var \<longleftrightarrow> (if hw_is_mask var then mask_is_single (masks p ! nat var)
     else interval_is_single (intervals p ! nat (var - HW_SAMPLE_BITS)))"

lemma param_single_antimono:
  assumes "wf_params p" "wf_params q" "hw_var var" "param_single p var"
    and "param_vals q var \<subseteq> param_vals p var" "param_vals q var \<noteq> {}"
  shows "param_single q var"
  using assms(1,3)
proof (cases rule: hw_var_cases)
  case (mask m)
  note p = mask
  from assms(2,3) show ?thesis
  proof (cases rule: hw_var_cases)
    case m': (mask m')
    have "mask_vals m' \<subseteq> mask_vals m" using assms(5) unfolding p(5) m'(5) by (simp add: inj_image_subset_iff)
    moreover have "mask_vals m' \<noteq> {}" using assms(6) m'(5) by simp
    ultimately show ?thesis
      using assms(4) p(1,4) m'(4) mask_is_single_iff [OF p(3)] mask_is_single_iff [OF m'(3)]
      unfolding param_single_def by (simp only: if_True subset_iff) metis
  qed (use mask in simp)
next
  case (interval i)
  note p = interval
  from assms(2,3) show ?thesis
  proof (cases rule: hw_var_cases)
    case j: (interval j)
    then show ?thesis
      using p assms(4-6) interval_single_antimono [of i j] by (simp add: param_single_def)
  qed (use interval in simp)
qed

lemma get_single:
  assumes "ok_space p" "hw_var var"
  shows "\<exists>v d. snd_pcm_hw_param_get p var val dir = Some (if param_single p var then 0 else - EINVAL, v, d) \<and>
               (v = None \<longleftrightarrow> val = None) \<and> (d = None \<longleftrightarrow> dir = None)"
proof -
  have wf: "wf_params p" and ne: "param_vals p var \<noteq> {}" using assms by (auto simp: ok_space_def)
  from wf assms(2) show ?thesis
  proof (cases rule: hw_var_cases)
    case (mask m)
    then show ?thesis using ne
      by (auto simp: snd_pcm_hw_param_get_def param_single_def snd_mask_empty_iff store_if_def)
  next
    case (interval i)
    then show ?thesis using ne interval_empty_iff [of i]
      by (auto simp: snd_pcm_hw_param_get_def param_single_def store_if_def)
  qed
qed

text \<open>Picking one configuration of a parameter, whichever it is.\<close>

definition pick_result :: "snd_pcm_hw_params \<Rightarrow> int \<Rightarrow> (real set \<Rightarrow> real set \<Rightarrow> bool) \<Rightarrow> int \<Rightarrow> snd_pcm_hw_params \<Rightarrow> bool" where
  "pick_result p var L r q \<longleftrightarrow> 0 \<le> r \<and> wf_params q \<and> rmask q = rmask p \<and>
     (\<forall>v. hw_var v \<longrightarrow> v \<noteq> var \<longrightarrow> param_vals q v = param_vals p v) \<and>
     param_vals q var \<subseteq> param_vals p var \<and> param_vals q var \<noteq> {} \<and> param_single q var \<and>
     L (param_vals p var) (param_vals q var)"

lemma pick_step:
  fixes L :: "real set \<Rightarrow> real set \<Rightarrow> bool"
  assumes "ok_space p" "hw_var var"
    and M: "\<And>m. wf_mask m \<Longrightarrow> mask_vals m \<noteq> {} \<Longrightarrow> \<exists>r m'. f m = Some (r, m') \<and> 0 \<le> r \<and> wf_mask m' \<and>
          mask_is_single m' \<and> mask_vals m' \<noteq> {} \<and> mask_vals m' \<subseteq> mask_vals m \<and> L (real ` mask_vals m) (real ` mask_vals m')"
    and I: "\<And>i. wf_interval i \<Longrightarrow> interval_vals i \<noteq> {} \<Longrightarrow> \<exists>r j. g i = (r, j) \<and> 0 \<le> r \<and> wf_interval j \<and>
          interval_is_single j \<and> interval_vals j \<noteq> {} \<and> interval_vals j \<subseteq> interval_vals i \<and> L (interval_vals i) (interval_vals j)"
  shows "\<exists>r q. (if hw_is_mask var then on_mask p var f else on_interval p var g) = Some (r, q) \<and> pick_result p var L r q"
proof -
  have wf: "wf_params p" and ne: "param_vals p var \<noteq> {}" using assms by (auto simp: ok_space_def)
  from wf assms(2) show ?thesis
  proof (cases rule: hw_var_cases)
    case (mask m)
    then have "mask_vals m \<noteq> {}" using ne by simp
    from M [OF mask(3) this] obtain r m' where m': "f m = Some (r, m')" "0 \<le> r" "wf_mask m'" "mask_is_single m'"
      "mask_vals m' \<noteq> {}" "mask_vals m' \<subseteq> mask_vals m" "L (real ` mask_vals m) (real ` mask_vals m')" by blast
    note q = param_vals_put_mask [OF wf mask(1) m'(3)]
    have "param_single (put_mask p var m') var"
      using mask(1,4) m'(4) wf by (auto simp: param_single_def put_mask_def wf_params_def hw_is_mask_def)
    moreover have "rmask (put_mask p var m') = rmask p" by (simp add: put_mask_def)
    ultimately have "pick_result p var L r (put_mask p var m')"
      using m' mask q assms(2) unfolding pick_result_def by auto
    with mask m' show ?thesis by (auto simp: on_mask_def)
  next
    case (interval i)
    then have "interval_vals i \<noteq> {}" using ne by simp
    from I [OF interval(4) this] obtain r j where j: "g i = (r, j)" "0 \<le> r" "wf_interval j" "interval_is_single j"
      "interval_vals j \<noteq> {}" "interval_vals j \<subseteq> interval_vals i" "L (interval_vals i) (interval_vals j)" by blast
    note q = param_vals_put_interval [OF wf interval(2) j(3)]
    have "param_single (put_interval p var j) var"
      using interval(1,2) j(4) wf by (auto simp: param_single_def put_interval_def wf_params_def hw_is_interval_def)
    moreover have "rmask (put_interval p var j) = rmask p" by (simp add: put_interval_def)
    ultimately have "pick_result p var L r (put_interval p var j)"
      using j interval q assms(2) unfolding pick_result_def by auto
    with interval j show ?thesis by (auto simp: on_interval_def)
  qed
qed

lemma lowest_part_real: "lowest_part (real ` A) (real ` B) \<longleftrightarrow> lowest_part A B"
  by (simp add: lowest_part_def inj_image_subset_iff flip: image_set_diff)

lemma highest_part_real: "highest_part (real ` A) (real ` B) \<longleftrightarrow> highest_part A B"
  by (simp add: highest_part_def inj_image_subset_iff flip: image_set_diff)

lemma set_first_step:
  assumes "ok_space p" "hw_var var"
  shows "\<exists>r q. hw_param_set_first p var = Some (r, q) \<and> pick_result p var lowest_part r q"
  unfolding hw_param_set_first_def
proof (rule pick_step [OF assms, where L = lowest_part and f = snd_mask_refine_first and g = snd_interval_refine_first])
  fix m assume m: "wf_mask m" "mask_vals m \<noteq> {}"
  obtain r m' where r: "snd_mask_refine_first m = Some (r, m')" using mask.first_total [OF m(1)] by blast
  have "0 \<le> r" using mask.first_error_iff [OF m(1) r] m(2) by simp
  with mask.first_result [OF m(1) r this] r show "\<exists>r m'. snd_mask_refine_first m = Some (r, m') \<and> 0 \<le> r \<and> wf_mask m' \<and>
      mask_is_single m' \<and> mask_vals m' \<noteq> {} \<and> mask_vals m' \<subseteq> mask_vals m \<and>
      lowest_part (real ` mask_vals m) (real ` mask_vals m')"
    by (auto simp: lowest_part_real snd_mask_empty_iff) (auto simp: lowest_part_def)
next
  fix i assume i: "wf_interval i" "interval_vals i \<noteq> {}"
  obtain r j where r: "Some (snd_interval_refine_first i) = Some (r, j)" using interval.first_total [OF i(1)] by blast
  have "0 \<le> r" using interval.first_error_iff [OF i(1) r] i(2) by simp
  with interval.first_result [OF i(1) r this] r show "\<exists>r j. snd_interval_refine_first i = (r, j) \<and> 0 \<le> r \<and> wf_interval j \<and>
      interval_is_single j \<and> interval_vals j \<noteq> {} \<and> interval_vals j \<subseteq> interval_vals i \<and>
      lowest_part (interval_vals i) (interval_vals j)"
    by (auto simp: interval_empty_iff lowest_part_def)
qed

lemma set_last_step:
  assumes "ok_space p" "hw_var var"
  shows "\<exists>r q. hw_param_set_last p var = Some (r, q) \<and> pick_result p var highest_part r q"
  unfolding hw_param_set_last_def
proof (rule pick_step [OF assms, where L = highest_part and f = snd_mask_refine_last and g = snd_interval_refine_last])
  fix m assume m: "wf_mask m" "mask_vals m \<noteq> {}"
  obtain r m' where r: "snd_mask_refine_last m = Some (r, m')" using mask.last_total [OF m(1)] by blast
  have "0 \<le> r" using mask.last_error_iff [OF m(1) r] m(2) by simp
  with mask.last_result [OF m(1) r this] r show "\<exists>r m'. snd_mask_refine_last m = Some (r, m') \<and> 0 \<le> r \<and> wf_mask m' \<and>
      mask_is_single m' \<and> mask_vals m' \<noteq> {} \<and> mask_vals m' \<subseteq> mask_vals m \<and>
      highest_part (real ` mask_vals m) (real ` mask_vals m')"
    by (auto simp: highest_part_real snd_mask_empty_iff) (auto simp: highest_part_def)
next
  fix i assume i: "wf_interval i" "interval_vals i \<noteq> {}"
  obtain r j where r: "Some (snd_interval_refine_last i) = Some (r, j)" using interval.last_total [OF i(1)] by blast
  have "0 \<le> r" using interval.last_error_iff [OF i(1) r] i(2) by simp
  with interval.last_result [OF i(1) r this] r show "\<exists>r j. snd_interval_refine_last i = (r, j) \<and> 0 \<le> r \<and> wf_interval j \<and>
      interval_is_single j \<and> interval_vals j \<noteq> {} \<and> interval_vals j \<subseteq> interval_vals i \<and>
      highest_part (interval_vals i) (interval_vals j)"
    by (auto simp: interval_empty_iff highest_part_def)
qed

text \<open>After a pick the kernel may narrow the other parameters, but the picked one stays decided, so
  that reading it back succeeds.\<close>

definition picked :: "snd_pcm_hw_params \<Rightarrow> int \<Rightarrow> (real set \<Rightarrow> real set \<Rightarrow> bool) \<Rightarrow> u32 option \<Rightarrow> int option \<Rightarrow> set_result \<Rightarrow> bool" where
  "picked p var L val dir res \<longleftrightarrow> (\<exists>e q v d. res = Some (e, q, v, d) \<and> e \<le> 0 \<and>
     (if e = 0 then ok_space q \<and> narrower q p \<and> param_single q var \<and>
        (\<exists>S. L (param_vals p var) S \<and> param_vals q var \<subseteq> S) \<and> snd_pcm_hw_param_get q var val dir = Some (0, v, d)
      else v = val \<and> d = dir))"

lemma pick_ask:
  assumes k: "kernel_narrows k" and ok: "ok_space p" "hw_var var"
    and res: "res = Some (r, q)" "pick_result p var L r q"
  shows "picked p var L val dir (Option.bind (ask k var res) (\<lambda>(err, params).
      if err = 0 then Option.bind (snd_pcm_hw_param_get params var val dir) (\<lambda>(r, val, dir). Some (r, params, val, dir))
      else Some (err, params, val, dir)))"
proof -
  have r: "0 \<le> r" "wf_params q" "\<And>v. hw_var v \<Longrightarrow> v \<noteq> var \<Longrightarrow> param_vals q v = param_vals p v"
      "param_vals q var \<subseteq> param_vals p var" "param_vals q var \<noteq> {}" "param_single q var"
      "L (param_vals p var) (param_vals q var)"
    using res(2) by (auto simp: pick_result_def)
  have okq: "ok_space q" using r(2,3,5) ok unfolding ok_space_def by metis
  obtain e s where s: "hw_param_update_var k q var r = Some (e, s)" "e \<le> 0" "e = 0 \<Longrightarrow> ok_space s \<and> narrower s q"
    using update_var_ok [OF k okq ok(2)] by blast
  show ?thesis
  proof (cases "e = 0")
    case True
    then have ss: "ok_space s" "narrower s q" using s(3) by auto
    have sub: "param_vals s var \<subseteq> param_vals q var" "param_vals s var \<noteq> {}"
      using ss ok(2) by (auto simp: narrower_def ok_space_def)
    have single: "param_single s var"
      using param_single_antimono [OF r(2) _ ok(2) r(6) sub] ss(1) by (simp add: ok_space_def)
    have "narrower q p" using r(3,4) unfolding narrower_def by blast
    then have "narrower s p" using narrower_trans ss(2) by blast
    moreover obtain v d where "snd_pcm_hw_param_get s var val dir = Some (0, v, d)"
      using get_single [OF ss(1) ok(2), of val dir] single by auto
    moreover have "ask k var res = Some (0, s)" using s(1) True by (simp add: ask_def res(1))
    ultimately show ?thesis using single sub(1) r(7) ss(1) by (auto simp: picked_def)
  next
    case False
    with s show ?thesis by (auto simp: picked_def ask_def res(1))
  qed
qed

lemma set_first_picked:
  assumes "kernel_narrows k" "ok_space p" "hw_var var"
  shows "picked p var lowest_part val dir (snd_pcm_hw_param_set_first k p var val dir)"
proof -
  obtain r q where "hw_param_set_first p var = Some (r, q)" "pick_result p var lowest_part r q"
    using set_first_step [OF assms(2,3)] by blast
  then show ?thesis
    unfolding snd_pcm_hw_param_set_first_def ask_bind by (intro pick_ask [OF assms])
qed

lemma set_last_picked:
  assumes "kernel_narrows k" "ok_space p" "hw_var var"
  shows "picked p var highest_part val dir (snd_pcm_hw_param_set_last k p var val dir)"
proof -
  obtain r q where "hw_param_set_last p var = Some (r, q)" "pick_result p var highest_part r q"
    using set_last_step [OF assms(2,3)] by blast
  then show ?thesis
    unfolding snd_pcm_hw_param_set_last_def ask_bind by (intro pick_ask [OF assms])
qed

lemma set_minmax_step:
  assumes "ok_space p" "hw_var var" "min_arg_ok var mn mindir" "max_arg_ok var mx maxdir"
  shows "step_ok p var (req_min var mn mindir \<inter> req_max var mx maxdir) (hw_param_set_minmax p var mn mindir mx maxdir)"
proof -
  obtain c1 p1 where s1: "hw_param_set_min p var mn mindir = Some (c1, p1)" "rmask p1 = rmask p"
    "c1 < 0 \<longleftrightarrow> param_vals p var \<inter> req_min var mn mindir = {}"
    "0 \<le> c1 \<Longrightarrow> wf_params p1 \<and> (\<forall>v. hw_var v \<longrightarrow> param_vals p1 v = (if v = var then param_vals p v \<inter> req_min var mn mindir else param_vals p v))"
    using hw_param_set_min_step [OF assms(1-3)] unfolding step_ok_def by blast
  show ?thesis
  proof (cases "c1 < 0")
    case True
    then show ?thesis using s1 by (auto simp: hw_param_set_minmax_def step_ok_def)
  next
    case False
    then have ok1: "ok_space p1" using s1 assms(1) by (auto simp: ok_space_def)
    obtain c2 p2 where s2: "hw_param_set_max p1 var mx maxdir = Some (c2, p2)" "rmask p2 = rmask p1"
      "c2 < 0 \<longleftrightarrow> param_vals p1 var \<inter> req_max var mx maxdir = {}"
      "0 \<le> c2 \<Longrightarrow> wf_params p2 \<and> (\<forall>v. hw_var v \<longrightarrow> param_vals p2 v = (if v = var then param_vals p1 v \<inter> req_max var mx maxdir else param_vals p1 v))"
      using hw_param_set_max_step [OF ok1 assms(2,4)] unfolding step_ok_def by blast
    have "param_vals p1 var = param_vals p var \<inter> req_min var mn mindir" using False s1(4) assms(2) by simp
    then show ?thesis using False s1 s2 assms(2)
      by (auto simp: hw_param_set_minmax_def step_ok_def Int_assoc)
  qed
qed

lemma set_minmax_settled:
  assumes "kernel_narrows k" "ok_space p" "hw_var var"
    and "min_arg_ok var mn (deref_or_0 mindir)" "max_arg_ok var mx (deref_or_0 maxdir)"
  shows "settled_or_restored p var (req_min var mn (deref_or_0 mindir) \<inter> req_max var mx (deref_or_0 maxdir))
           (params_of (snd_pcm_hw_param_set_minmax k p var (Some mn) mindir (Some mx) maxdir))"
proof -
  have "settled p var (req_min var mn (deref_or_0 mindir) \<inter> req_max var mx (deref_or_0 maxdir))
      (ask k var (hw_param_set_minmax p var mn (deref_or_0 mindir) mx (deref_or_0 maxdir)))"
    by (intro step_settled set_minmax_step assms)
  then show ?thesis
  proof (cases rule: settledE)
    case (ok q)
    then have "wf_params q" by (simp add: ok_space_def)
    from get_min_total [OF this assms(3), of "Some mn" mindir] get_max_total [OF ok(2) assms(3), of "Some mx" maxdir] ok
    show ?thesis
      by (auto simp: snd_pcm_hw_param_set_minmax_def ask_bind settled_or_restored_def settled_def params_of_def)
  next
    case (fail e q)
    then show ?thesis
      by (auto simp: snd_pcm_hw_param_set_minmax_def ask_bind settled_or_restored_def settled_def params_of_def)
  qed
qed

lemma choose_loop_decides:
  assumes "kernel_narrows k" "ok_space p" "\<forall>c \<in> set cs. hw_var (fst c)"
  shows "\<exists>e q. choose_loop k cs p = Some (e, q) \<and> e \<le> 0 \<and>
           (e = 0 \<longrightarrow> ok_space q \<and> narrower q p \<and> (\<forall>c \<in> set cs. param_single q (fst c)))"
  using assms(2,3)
proof (induction cs arbitrary: p)
  case (Cons c cs)
  obtain var lst where c: "c = (var, lst)" by (cases c)
  then have hv: "hw_var var" using Cons.prems by simp
  have "\<exists>L. picked p var L None None (if lst then snd_pcm_hw_param_set_last k p var None None
          else snd_pcm_hw_param_set_first k p var None None)"
    using set_first_picked [OF assms(1) Cons.prems(1) hv] set_last_picked [OF assms(1) Cons.prems(1) hv] by metis
  then obtain e q v d where st: "(if lst then snd_pcm_hw_param_set_last k p var None None
      else snd_pcm_hw_param_set_first k p var None None) = Some (e, q, v, d)" "e \<le> 0"
    "e = 0 \<Longrightarrow> ok_space q \<and> narrower q p \<and> param_single q var"
    unfolding picked_def by (metis (no_types))
  show ?case
  proof (cases "e < 0")
    case True
    with st show ?thesis by (simp add: c)
  next
    case False
    then have q: "ok_space q" "narrower q p" "param_single q var" "e = 0" using st by auto
    obtain e' r where r: "choose_loop k cs q = Some (e', r)" "e' \<le> 0"
      "e' = 0 \<longrightarrow> ok_space r \<and> narrower r q \<and> (\<forall>c \<in> set cs. param_single r (fst c))"
      using Cons.IH [OF q(1)] Cons.prems(2) by auto
    have "param_single r var" if "ok_space r" "narrower r q"
      using param_single_antimono [OF _ _ hv q(3), of r] q(1) that hv by (auto simp: ok_space_def narrower_def)
    with r q st(1) show ?thesis
      by (auto simp: c intro: narrower_trans)
  qed
qed simp

lemma update_var_status: "hw_param_update_var k p var r = Some (e, q) \<Longrightarrow> e \<le> 0"
  by (auto simp: hw_param_update_var_def Let_def split: if_splits prod.splits bind_splits)

end
