(* ===== verification/Pcm_HwSpace.thy ===== *)
theory Pcm_HwSpace
  imports Pcm_HwParams
begin

text \<open>
  The hardware parameter space as a state machine: the calls of \<^verbatim>\<open>src/src/pcm_params.c\<close> as steps between
  parameter spaces, the invariant every sequence of steps keeps, and the functional properties of the
  single calls: what a failing call leaves behind, that a value that was set is read back, that the
  final choice decides the configuration, and that the nearest value of a range is found.
\<close>

section \<open>Sequences of requests\<close>

text \<open>One call of the interface, with its parameters before and after: the calls that put the old
  parameters back may fail, the other ones succeed.\<close>

inductive hw_step :: "refine_ioctl \<Rightarrow> snd_pcm_hw_params \<Rightarrow> snd_pcm_hw_params \<Rightarrow> bool" for k where
  set: "hw_var var \<Longrightarrow> set_arg_ok var val dir \<Longrightarrow> snd_pcm_hw_param_set k p var val dir = Some (e, q) \<Longrightarrow> hw_step k p q"
| test: "hw_var var \<Longrightarrow> snd_pcm_hw_param_test k p var val dirp = Some (e, q) \<Longrightarrow> hw_step k p q"
| set_min: "hw_var var \<Longrightarrow> min_arg_ok var val (deref_or_0 dirp) \<Longrightarrow>
    snd_pcm_hw_param_set_min k p var (Some val) dirp = Some (e, q, x) \<Longrightarrow> hw_step k p q"
| set_max: "hw_var var \<Longrightarrow> max_arg_ok var val (deref_or_0 dirp) \<Longrightarrow>
    snd_pcm_hw_param_set_max k p var (Some val) dirp = Some (e, q, x) \<Longrightarrow> hw_step k p q"
| set_minmax: "hw_var var \<Longrightarrow> min_arg_ok var mn (deref_or_0 mindir) \<Longrightarrow> max_arg_ok var mx (deref_or_0 maxdir) \<Longrightarrow>
    snd_pcm_hw_param_set_minmax k p var (Some mn) mindir (Some mx) maxdir = Some (e, q, y) \<Longrightarrow> hw_step k p q"
| set_first: "hw_var var \<Longrightarrow> snd_pcm_hw_param_set_first k p var valp dirp = Some (0, q, x) \<Longrightarrow> hw_step k p q"
| set_last: "hw_var var \<Longrightarrow> snd_pcm_hw_param_set_last k p var valp dirp = Some (0, q, x) \<Longrightarrow> hw_step k p q"
| choose: "snd_pcm_hw_params_choose k p = Some (0, q) \<Longrightarrow> hw_step k p q"

lemma restored_ok:
  assumes "settled_or_restored p var S (Some (e, q))" "ok_space p"
  shows "ok_space q \<and> narrower q p"
  using assms by (auto simp: settled_or_restored_def settled_def)

lemma picked_ok: "picked p var L val dir (Some (0, q, x)) \<Longrightarrow> ok_space q \<and> narrower q p"
  by (auto simp: picked_def)

lemma params_of_Some: "res = Some (e, q, x) \<Longrightarrow> params_of res = Some (e, q)"
  by (simp add: params_of_def)

lemma hw_step_ok:
  assumes "hw_step k p q" "kernel_narrows k" "ok_space p"
  shows "ok_space q \<and> narrower q p"
  using assms(1,3)
proof (induction rule: hw_step.induct)
  case (set var val dir p e q)
  then show ?case using set_settled [OF assms(2)] restored_ok by metis
next
  case (test var p val dirp e q)
  then show ?case by (auto simp: snd_pcm_hw_param_test_def split: bind_splits)
next
  case (set_min var val dirp p e q x)
  then show ?case using set_min_settled [OF assms(2)] restored_ok params_of_Some by metis
next
  case (set_max var val dirp p e q x)
  then show ?case using set_max_settled [OF assms(2)] restored_ok params_of_Some by metis
next
  case (set_minmax var mn mindir mx maxdir p e q y)
  then show ?case using set_minmax_settled [OF assms(2)] restored_ok params_of_Some by metis
next
  case (set_first var p valp dirp q x)
  then show ?case using set_first_picked [OF assms(2)] picked_ok by metis
next
  case (set_last var p valp dirp q x)
  then show ?case using set_last_picked [OF assms(2)] picked_ok by metis
next
  case (choose p q)
  have "\<forall>c \<in> set param_choices. hw_var (fst c)"
    by (simp add: param_choices_def hw_var_def hw_is_mask_def hw_is_interval_def)
  from choose_loop_decides [OF assms(2) choose(2) this] choose(1) show ?case
    by (auto simp: snd_pcm_hw_params_choose_def)
qed

section \<open>The full space\<close>

definition full_mask :: snd_mask where
  "full_mask = \<lparr>bits = replicate MASK_SIZE (- 1)\<rparr>"

definition full_interval :: snd_interval where
  "full_interval = \<lparr>imin = 0, imax = - 1, openmin = False, openmax = False, integer = False, empty = False\<rparr>"

definition full_params :: snd_pcm_hw_params where
  "full_params = zero_params\<lparr>masks := replicate 3 full_mask, intervals := replicate 12 full_interval,
     rmask := - 1, cmask := 0, hwp_info := - 1, hwp_flags := HW_PARAMS_NORESAMPLE\<rparr>"

lemma any0_eval: "snd_pcm_hw_params_any0 = Some full_params"
  by code_simp

lemma map_replicate_const': "(\<And>x. x \<in> set xs \<Longrightarrow> f x = c) \<Longrightarrow> map f xs = replicate (length xs) c"
  by (induction xs) simp_all

lemma full_params_vals:
  "wf_params full_params" 
  "hw_var v \<Longrightarrow> param_vals full_params v = (if hw_is_mask v then real ` {..<SND_MASK_MAX} else {0..uval UINT_MAX})"
proof -
  have m: "wf_mask full_mask" "mask_vals full_mask = {..<SND_MASK_MAX}"
    by (auto simp: wf_mask_def full_mask_def mask_vals_def MASK_OFS_def MASK_BIT_def)
  have i: "wf_interval full_interval" "interval_vals full_interval = {0..uval UINT_MAX}"
    by (auto simp: wf_interval_def full_interval_def bounds_empty_def interval_vals_def above_min_def below_max_def uval_def)
  show "wf_params full_params" using m i by (simp add: wf_params_def full_params_def list_all_length)
  show "param_vals full_params v = (if hw_is_mask v then real ` {..<SND_MASK_MAX} else {0..uval UINT_MAX})" if "hw_var v"
    using that m i by (auto simp: param_vals_def full_params_def hw_var_def hw_is_mask_def hw_is_interval_def)
qed

lemma ok_full_params: "ok_space full_params"
  using full_params_vals by (simp add: ok_space_def uval_UINT_MAX lessThan_empty_iff)

text \<open>A kernel that accepts every space without empty parameters as it is.\<close>

definition plain_kernel :: refine_ioctl where
  "plain_kernel p = (if list_ex snd_mask_empty (masks p) \<or> list_ex empty (intervals p) then (- 1, EINVAL, p)
                     else (0, 0, p\<lparr>rmask := 0\<rparr>))"

lemma plain_kernel_narrows: "kernel_narrows plain_kernel"
  unfolding kernel_narrows_def
proof (intro allI impI)
  fix p ret errno p'
  assume wf: "wf_params p" and k: "plain_kernel p = (ret, errno, p')"
  show "if ret < 0 then 0 < errno
        else wf_params p' \<and> (\<forall>var. hw_var var \<longrightarrow> param_vals p' var \<subseteq> param_vals p var \<and> param_vals p' var \<noteq> {})"
  proof (cases "list_ex snd_mask_empty (masks p) \<or> list_ex empty (intervals p)")
    case True
    then show ?thesis using k by (auto simp: plain_kernel_def)
  next
    case False
    then have p': "p' = p\<lparr>rmask := 0\<rparr>" and "\<not> ret < 0" using k by (auto simp: plain_kernel_def)
    have "param_vals p v \<noteq> {}" if "hw_var v" for v
      using wf that
    proof (cases rule: hw_var_cases)
      case (mask m)
      then have "nat v < length (masks p)" using wf by (auto simp: wf_params_def hw_is_mask_def)
      then have "\<not> snd_mask_empty m" using False mask(4) by (auto simp: list_ex_length)
      then show ?thesis using mask(3,5) by (simp add: snd_mask_empty_iff)
    next
      case (interval i)
      then have "nat (v - 8) < length (intervals p)" using wf by (auto simp: wf_params_def hw_is_interval_def)
      then have "\<not> empty i" using False interval(5) by (auto simp: list_ex_length)
      then show ?thesis using interval(4,6) by (simp add: interval_empty_iff)
    qed
    with p' \<open>\<not> ret < 0\<close> wf show ?thesis using same_arrays [of "p\<lparr>rmask := 0\<rparr>" p] by auto
  qed
qed

lemma get_min_status: "snd_pcm_hw_param_get_min p var val dir = Some (r, v, d) \<Longrightarrow> r = 0"
  by (auto simp: snd_pcm_hw_param_get_min_def split: if_splits bind_splits)

lemma get_max_status: "snd_pcm_hw_param_get_max p var val dir = Some (r, v, d) \<Longrightarrow> r = 0"
  by (auto simp: snd_pcm_hw_param_get_max_def split: if_splits bind_splits option.splits)

section \<open>Properties of the parameter space\<close>



text \<open>C6. Whatever the kernel answers, a request for a value, a bound or a range that fails leaves the
  parameters, and the values its pointers refer to, as they were; a test always does.\<close>

theorem failed_set_restores:
  "(snd_pcm_hw_param_set k p var v d = Some (e, q) \<longrightarrow> e \<noteq> 0 \<longrightarrow> e < 0 \<and> q = p) \<and>
   (snd_pcm_hw_param_set_min k p var val dir = Some (e, q, val', dir') \<longrightarrow> e \<noteq> 0 \<longrightarrow> e < 0 \<and> q = p \<and> val' = val \<and> dir' = dir) \<and>
   (snd_pcm_hw_param_set_max k p var val dir = Some (e, q, val', dir') \<longrightarrow> e \<noteq> 0 \<longrightarrow> e < 0 \<and> q = p \<and> val' = val \<and> dir' = dir) \<and>
   (snd_pcm_hw_param_set_minmax k p var mn mnd mx mxd = Some (e, q, (mn', mnd'), (mx', mxd')) \<longrightarrow> e \<noteq> 0 \<longrightarrow>
      e < 0 \<and> q = p \<and> mn' = mn \<and> mnd' = mnd \<and> mx' = mx \<and> mxd' = mxd) \<and>
   (snd_pcm_hw_param_test k p var v dirp = Some (e, q) \<longrightarrow> q = p)"
proof (intro conjI impI)
    assume "snd_pcm_hw_param_set k p var v d = Some (e, q)" "e \<noteq> 0"
    then show "e < 0" "q = p"
      by (auto simp: snd_pcm_hw_param_set_def Let_def split: bind_splits if_splits dest!: update_var_status)
  next
    assume "snd_pcm_hw_param_set_min k p var val dir = Some (e, q, val', dir')" "e \<noteq> 0"
    then show "e < 0" "q = p" "val' = val" "dir' = dir"
      by (auto simp: snd_pcm_hw_param_set_min_def Let_def split: bind_splits if_splits dest!: update_var_status get_min_status)
  next
    assume "snd_pcm_hw_param_set_max k p var val dir = Some (e, q, val', dir')" "e \<noteq> 0"
    then show "e < 0" "q = p" "val' = val" "dir' = dir"
      by (auto simp: snd_pcm_hw_param_set_max_def Let_def split: bind_splits if_splits dest!: update_var_status get_max_status)
  next
    assume "snd_pcm_hw_param_set_minmax k p var mn mnd mx mxd = Some (e, q, (mn', mnd'), (mx', mxd'))" "e \<noteq> 0"
    then show "e < 0" "q = p" "mn' = mn" "mnd' = mnd" "mx' = mx" "mxd' = mxd"
      by (auto simp: snd_pcm_hw_param_set_minmax_def Let_def split: bind_splits if_splits dest!: update_var_status get_min_status get_max_status)
  next
    assume "snd_pcm_hw_param_test k p var v dirp = Some (e, q)"
    then show "q = p" by (auto simp: snd_pcm_hw_param_test_def split: bind_splits)
qed

theorem failed_set_restores_witness:
  "\<exists>q. snd_pcm_hw_param_set (\<lambda>p. (- 1, EINVAL, put_interval p HW_RATE full_interval)) full_params HW_RATE 44100 0 = Some (- EINVAL, q) \<and>
       q = full_params"
proof -
  have "\<exists>q. snd_pcm_hw_param_set (\<lambda>p. (- 1, EINVAL, put_interval p HW_RATE full_interval)) full_params HW_RATE 44100 0 =
      Some (- EINVAL, q)" by (rule exI, code_simp)
  with failed_set_restores [of "\<lambda>p. (- 1, EINVAL, put_interval p HW_RATE full_interval)" full_params HW_RATE 44100 0 "- EINVAL"]
  show ?thesis by fastforce
qed

lemma interval_point:
  assumes "wf_interval i" "interval_vals i = {uval val}"
  shows "imin i = val \<and> imax i = val \<and> \<not> openmin i \<and> \<not> openmax i"
proof -
  have ne: "\<not> bounds_empty i" using interval_nonempty(2) [OF assms(1)] assms(2) by simp
  have closed: "\<not> openmin i \<and> \<not> openmax i"
  proof (rule ccontr)
    assume o: "\<not> (\<not> openmin i \<and> \<not> openmax i)"
    then have ni: "\<not> integer i" using assms(1) by (auto simp: wf_interval_def)
    have lt: "uval (imin i) < uval (imax i)" using ne o by (auto simp: bounds_empty_def)
    let ?d = "uval (imax i) - uval (imin i)"
    have "uval (imin i) + ?d / 3 \<in> interval_vals i" "uval (imin i) + ?d / 2 \<in> interval_vals i"
      using lt ni by (auto simp: interval_vals_def above_min_def below_max_def field_simps simp del: uval_less uval_le)
    then have "uval (imin i) + ?d / 3 = uval (imin i) + ?d / 2" using assms(2) by simp
    then show False using lt by simp
  qed
  then have "uval (imin i) \<in> interval_vals i" "uval (imax i) \<in> interval_vals i"
    using ne by (auto simp: interval_vals_def above_min_def below_max_def bounds_empty_def)
  then show ?thesis using assms(2) closed by simp
qed

lemma get_unique:
  assumes "ok_space q" "hw_var var" "param_vals q var = {uval val}"
  shows "snd_pcm_hw_param_get q var valp dirp = Some (0, store_if valp val, store_if dirp 0)"
proof -
  have "wf_params q" using assms(1) by (simp add: ok_space_def)
  from this assms(2) show ?thesis
  proof (cases rule: hw_var_cases)
    case (mask m)
    then have "real ` mask_vals m = real ` {unat val}" using assms(3) by (simp add: uval_def del: of_nat_unat)
    then have mv: "mask_vals m = {unat val}" by (simp only: inj_image_eq_iff [OF inj_of_nat])
    then have "mask_get_min m = val" using mask_get_min_spec [OF mask(3)] by (simp add: word_unat_eq_iff)
    then show ?thesis using mask mv
      by (simp add: snd_pcm_hw_param_get_def snd_mask_empty_iff mask_is_single_iff)
  next
    case (interval i)
    then have iv: "interval_vals i = {uval val}" using assms(3) by simp
    note ne = interval_nonempty [OF interval(4)]
    have "imin i = val \<and> imax i = val \<and> \<not> openmin i"
      using interval_point [OF interval(4) iv] by blast
    then show ?thesis using interval iv ne
      by (simp add: snd_pcm_hw_param_get_def interval_is_single_def)
  qed
qed

lemma set_exact:
  assumes "kernel_narrows k" "ok_space p" "hw_var var" "hw_is_mask var \<longrightarrow> unat val < SND_MASK_MAX"
  shows "\<exists>e q. snd_pcm_hw_param_set k p var val 0 = Some (e, q) \<and> e \<le> 0 \<and>
           (if e = 0 then ok_space q \<and> param_vals q var = {uval val} else q = p) \<and>
           (uval val \<notin> param_vals p var \<longrightarrow> e \<noteq> 0)"
proof -
  have arg: "set_arg_ok var val 0"
    using assms(4) by (auto simp: set_arg_ok_def norm_dir_def simp flip: uval_real_less(2))
  have req: "req_set var val 0 = {uval val}" by (simp add: req_set_def norm_dir_def)
  have "settled_or_restored p var {uval val} (snd_pcm_hw_param_set k p var val 0)"
    using set_settled [OF assms(1-3) arg] req by simp
  then obtain e q where e: "snd_pcm_hw_param_set k p var val 0 = Some (e, q)" "e \<le> 0"
    "e = 0 \<Longrightarrow> ok_space q \<and> narrower q p \<and> param_vals q var \<subseteq> {uval val}" "e \<noteq> 0 \<Longrightarrow> q = p"
    "param_vals p var \<inter> {uval val} = {} \<Longrightarrow> e < 0"
    unfolding settled_or_restored_def settled_def by auto
  have "param_vals q var = {uval val}" if "e = 0"
    using e(3) [OF that] assms(3) by (auto simp: ok_space_def)
  with e show ?thesis by auto
qed

text \<open>C4. A value that was set is read back: when \<^verbatim>\<open>_snd_pcm_hw_param_set\<close> succeeds with direction 0, the
  parameter has exactly that value afterwards and \<^verbatim>\<open>_snd_pcm_hw_param_get\<close> returns it, with direction 0;
  when the value is not in the space the call fails.\<close>

theorem set_get_roundtrip:
  assumes "kernel_narrows k" "ok_space p" "hw_var var" "hw_is_mask var \<longrightarrow> unat val < SND_MASK_MAX"
  shows "\<exists>e q. snd_pcm_hw_param_set k p var val 0 = Some (e, q) \<and>
           (if e = 0 then param_vals q var = {uval val} \<and>
                          snd_pcm_hw_param_get q var (Some v0) (Some d0) = Some (0, Some val, Some 0)
            else e < 0 \<and> q = p) \<and>
           (uval val \<notin> param_vals p var \<longrightarrow> e \<noteq> 0)"
proof -
  obtain e q where e: "snd_pcm_hw_param_set k p var val 0 = Some (e, q)" "e \<le> 0"
    "if e = 0 then ok_space q \<and> param_vals q var = {uval val} else q = p" "uval val \<notin> param_vals p var \<longrightarrow> e \<noteq> 0"
    using set_exact [OF assms] by blast
  then show ?thesis
    using get_unique [of q var val "Some v0" "Some d0"] assms(3) by (auto simp: store_if_def)
qed

theorem set_get_roundtrip_witness:
  "kernel_narrows plain_kernel \<and> ok_space full_params \<and> hw_var HW_RATE \<and> \<not> hw_is_mask HW_RATE \<and>
   (\<exists>e q. snd_pcm_hw_param_set plain_kernel full_params HW_RATE 44100 0 = Some (e, q) \<and>
          (if e = 0 then param_vals q HW_RATE = {uval 44100} \<and>
             snd_pcm_hw_param_get q HW_RATE (Some 0) (Some 5) = Some (0, Some 44100, Some 0)
           else e < 0 \<and> q = full_params))"
proof -
  have v: "hw_var HW_RATE" "\<not> hw_is_mask HW_RATE" by (simp_all add: hw_var_def hw_is_interval_def hw_is_mask_def)
  with set_get_roundtrip [OF plain_kernel_narrows ok_full_params v(1), of 44100 0 5]
    plain_kernel_narrows ok_full_params show ?thesis by blast
qed

text \<open>C10. \<^verbatim>\<open>snd_pcm_hw_params_choose\<close> always returns, and when it succeeds each of the nine parameters it
  walks through is decided: reading any of them with \<^verbatim>\<open>_snd_pcm_hw_param_get\<close> succeeds, although the
  kernel may have narrowed the earlier ones again while the later ones were picked.\<close>

theorem choose_decides:
  assumes "kernel_narrows k" "ok_space p"
  shows "\<exists>e q. snd_pcm_hw_params_choose k p = Some (e, q) \<and> e \<le> 0 \<and>
     (e = 0 \<longrightarrow> ok_space q \<and> narrower q p \<and>
        (\<forall>var \<in> {HW_ACCESS, HW_FORMAT, HW_SUBFORMAT, HW_CHANNELS, HW_RATE, HW_BUFFER_SIZE, HW_PERIOD_SIZE,
                 HW_PERIOD_TIME, HW_TICK_TIME}. \<exists>v d. snd_pcm_hw_param_get q var (Some v0) (Some d0) = Some (0, Some v, Some d)))"
proof -
  have hv: "\<forall>c \<in> set param_choices. hw_var (fst c)"
    by (simp add: param_choices_def hw_var_def hw_is_mask_def hw_is_interval_def)
  obtain e q where e: "snd_pcm_hw_params_choose k p = Some (e, q)" "e \<le> 0"
    "e = 0 \<longrightarrow> ok_space q \<and> narrower q p \<and> (\<forall>c \<in> set param_choices. param_single q (fst c))"
    using choose_loop_decides [OF assms hv] unfolding snd_pcm_hw_params_choose_def by blast
  have "\<exists>v d. snd_pcm_hw_param_get q var (Some v0) (Some d0) = Some (0, Some v, Some d)"
    if "ok_space q" "param_single q var" "hw_var var" for var
    using get_single [OF that(1,3), of "Some v0" "Some d0"] that(2) by auto
  then have "\<forall>c \<in> set param_choices. \<exists>v d. snd_pcm_hw_param_get q (fst c) (Some v0) (Some d0) = Some (0, Some v, Some d)"
    if "e = 0" using that e(3) hv by blast
  with e show ?thesis unfolding param_choices_def by (auto simp del: not_None_eq)
qed

theorem choose_decides_witness:
  "\<exists>e q. snd_pcm_hw_params_choose plain_kernel full_params = Some (e, q) \<and> e \<le> 0 \<and>
     (e = 0 \<longrightarrow> ok_space q \<and> narrower q full_params)"
  using choose_decides [OF plain_kernel_narrows ok_full_params] by blast

text \<open>\<^verbatim>\<open>_snd_pcm_hw_params_any\<close> builds the space of all configurations: every mask holds the values 0 to
  255, every interval the values 0 to the largest 32-bit one, and the kernel is asked about all of
  them.\<close>

theorem params_any_full:
  "\<exists>p. snd_pcm_hw_params_any0 = Some p \<and> ok_space p \<and> rmask p = - 1 \<and> cmask p = 0 \<and>
       map (param_vals p) [HW_ACCESS..HW_SUBFORMAT] = replicate 3 (real ` {0..255}) \<and>
       map (param_vals p) [HW_SAMPLE_BITS..HW_TICK_TIME] = replicate 12 {0..uval UINT_MAX} \<and>
       snd_pcm_hw_params_any k = Some (snd_pcm_hw_refine k p)"
proof (intro exI conjI)
  show "snd_pcm_hw_params_any0 = Some full_params" by (rule any0_eval)
  show "snd_pcm_hw_params_any k = Some (snd_pcm_hw_refine k full_params)"
    by (simp add: snd_pcm_hw_params_any_def any0_eval)
  have eq: "{..<SND_MASK_MAX} = {0..255}" by auto
  have "param_vals full_params v = real ` {0..255}" if "v \<in> set [HW_ACCESS..HW_SUBFORMAT]" for v
    using that full_params_vals(2) [of v] unfolding eq by (auto simp: hw_var_def hw_is_mask_def)
  then show "map (param_vals full_params) [HW_ACCESS..HW_SUBFORMAT] = replicate 3 (real ` {0..255})"
    using map_replicate_const' [of "[HW_ACCESS..HW_SUBFORMAT]" "param_vals full_params" "real ` {0..255}"] by simp
  have "param_vals full_params v = {0..uval UINT_MAX}" if "v \<in> set [HW_SAMPLE_BITS..HW_TICK_TIME]" for v
    using that full_params_vals(2) [of v] by (auto simp: hw_var_def hw_is_mask_def hw_is_interval_def)
  then show "map (param_vals full_params) [HW_SAMPLE_BITS..HW_TICK_TIME] = replicate 12 {0..uval UINT_MAX}"
    by (simp add: eval_nat_numeral)
  show "rmask full_params = - 1" "cmask full_params = 0" by (simp_all add: full_params_def)
qed (rule ok_full_params)

section \<open>The nearest value of an unconstrained device\<close>

lemma plain_update:
  assumes "ok_space p" "hw_var var" "0 \<le> r"
  obtains q where "hw_param_update_var plain_kernel p var r = Some (0, q)" "masks q = masks p" "intervals q = intervals p"
proof -
  obtain p1 where p1: "(if r \<noteq> 0 then mark_changed p var else Some p) = Some p1"
    "masks p1 = masks p" "intervals p1 = intervals p"
    using mark_changed_in [OF assms(2), of p] mark_changed_facts by (cases "r = 0") auto
  have ne: "\<not> (list_ex snd_mask_empty (masks p1) \<or> list_ex empty (intervals p1))"
  proof -
    have "\<not> snd_mask_empty (masks p ! n)" if "n < length (masks p)" for n
    proof -
      have "hw_var (int n)" "hw_is_mask (int n)" using that assms(1)
        by (auto simp: ok_space_def wf_params_def hw_var_def hw_is_mask_def)
      then show ?thesis using assms(1) that
        by (auto simp: ok_space_def wf_params_def param_vals_def list_all_length snd_mask_empty_iff)
    qed
    moreover have "\<not> empty (intervals p ! n)" if "n < length (intervals p)" for n
    proof -
      have "hw_var (int n + 8)" "\<not> hw_is_mask (int n + 8)" using that assms(1)
        by (auto simp: ok_space_def wf_params_def hw_var_def hw_is_mask_def hw_is_interval_def)
      then show ?thesis using assms(1) that
        by (auto simp: ok_space_def wf_params_def param_vals_def list_all_length interval_empty_iff)
    qed
    ultimately show ?thesis by (simp add: p1 list_ex_length)
  qed
  have e: "snd_pcm_hw_param_empty (p1\<lparr>rmask := 0\<rparr>) var = Some False"
    using assms(1,2) snd_pcm_hw_param_empty_iff [of p var] same_arrays(3) [of "p1\<lparr>rmask := 0\<rparr>" p var] p1
    by (auto simp: ok_space_def)
  show thesis
  proof (cases "rmask p1 = 0")
    case True
    then show thesis using that [of p1] assms(3) p1 by (simp add: hw_param_update_var_def)
  next
    case False
    then show thesis using that [of "p1\<lparr>rmask := 0\<rparr>"] assms(3) p1 ne e
      by (simp add: hw_param_update_var_def snd_pcm_hw_refine_def plain_kernel_def)
  qed
qed

lemma hw_interval_wf: "wf_params p \<Longrightarrow> hw_param_interval p var = Some i \<Longrightarrow> wf_interval i"
  by (auto simp: hw_param_interval_def wf_params_def array_get_eq_Some list_all_length split: if_splits)

definition closed_range :: "snd_pcm_hw_params \<Rightarrow> int \<Rightarrow> u32 \<Rightarrow> u32 \<Rightarrow> bool" where
  "closed_range p var a b \<longleftrightarrow> ok_space p \<and> hw_is_interval var \<and> a \<le> b \<and>
     (\<exists>i. hw_param_interval p var = Some i \<and> imin i = a \<and> imax i = b \<and> \<not> openmin i \<and> \<not> openmax i)"

lemma closed_range_put:
  assumes "closed_range p var a b" "hw_param_interval p var = Some i" "a' \<le> b'"
    and "intervals q = (intervals p)[nat (var - 8) := i\<lparr>imin := a', imax := b'\<rparr>]" "masks q = masks p"
  shows "closed_range q var a' b'"
proof -
  have ok: "ok_space p" "hw_is_interval var" using assms(1) by (auto simp: closed_range_def)
  have i: "\<not> openmin i" "\<not> openmax i" using assms(1,2) by (auto simp: closed_range_def)
  have wfi: "wf_interval i" "\<not> empty i"
  proof -
    show "wf_interval i" using hw_interval_wf [OF _ assms(2)] ok(1) by (simp add: ok_space_def)
    then show "\<not> empty i" using assms(1,2) by (auto simp: closed_range_def wf_interval_def bounds_empty_def)
  qed
  let ?j = "i\<lparr>imin := a', imax := b'\<rparr>"
  have j: "wf_interval ?j" "\<not> empty ?j" using assms(3) wfi i by (auto simp: wf_interval_def bounds_empty_def)
  have "masks q = masks (put_interval p var ?j)" "intervals q = intervals (put_interval p var ?j)"
    using assms(4,5) by (simp_all add: put_interval_def)
  note same = same_arrays(1,2) [OF this]
  have "wf_params q" using same param_vals_put_interval(1) [OF _ ok(2) j(1)] ok by (auto simp: ok_space_def hw_var_def)
  moreover have "param_vals q v \<noteq> {}" if "hw_var v" for v
    using same param_vals_put_interval(2) [OF _ ok(2) j(1) that] ok(1) that interval_empty_iff [OF j(1)] j(2)
    by (auto simp: ok_space_def)
  moreover have "hw_param_interval q var = Some ?j"
    using assms(2,4) by (auto simp: hw_param_interval_def array_get_eq_Some split: if_splits)
  ultimately show ?thesis using ok(2) assms(3) i by (auto simp: closed_range_def ok_space_def)
qed

lemma refine_min_closed:
  assumes "\<not> empty i" "\<not> openmin i" "\<not> openmax i" "imin i \<le> imax i"
  shows "snd_interval_refine_min i v False False =
    (if v \<le> imin i then (0, i) else if v \<le> imax i then (1, i\<lparr>imin := v\<rparr>) else (- EINVAL, i\<lparr>imin := v, empty := True\<rparr>))"
  using assms by (cases i) (auto simp: snd_interval_refine_min_def interval_check_empty_def Let_def)

lemma refine_max_open_below:
  assumes "\<not> empty i" "\<not> openmin i" "\<not> openmax i" "imin i \<le> imax i" "0 < v" "v \<le> imin i"
  shows "fst (snd_interval_refine_max i v True False) = - EINVAL"
proof -
  have "v - 1 < imin i" using assms(5,6) uval_dec' [of v] uval_less [of "v - 1" v] by (auto simp: word_neq_0_conv)
  with assms show ?thesis by (auto simp: snd_interval_refine_max_def interval_check_empty_def Let_def)
qed

lemma refine_max_open_above:
  assumes "\<not> empty i" "\<not> openmin i" "\<not> openmax i" "imin i \<le> imax i" "imax i < v"
  shows "snd_interval_refine_max i v True False = (0, i)"
  using assms by (auto simp: snd_interval_refine_max_def interval_check_empty_def Let_def)

lemma closed_rangeE:
  assumes "closed_range p var a b"
  obtains i where "ok_space p" "wf_params p" "hw_var var" "hw_is_interval var" "\<not> hw_is_mask var" "a \<le> b" "hw_param_interval p var = Some i"
    "imin i = a" "imax i = b" "\<not> openmin i" "\<not> openmax i" "\<not> empty i"
    "\<And>j. hw_param_interval (put_interval p var j) var = Some j"
proof -
  obtain i where i: "hw_param_interval p var = Some i" "imin i = a" "imax i = b" "\<not> openmin i" "\<not> openmax i" "a \<le> b"
    "ok_space p" "hw_is_interval var" using assms by (auto simp: closed_range_def)
  have "wf_interval i" using hw_interval_wf i by (auto simp: ok_space_def)
  then have "\<not> empty i" using i by (auto simp: wf_interval_def bounds_empty_def)
  moreover have "\<not> hw_is_mask var" using i(8) by (auto simp: hw_is_mask_def hw_is_interval_def)
  moreover have "hw_param_interval (put_interval p var j) var = Some j" for j
    using i(1) by (auto simp: hw_param_interval_def put_interval_def array_get_def split: if_splits)
  ultimately show thesis using that [of i] i by (auto simp: ok_space_def hw_var_def)
qed

lemma put_same: "hw_param_interval p var = Some i \<Longrightarrow> put_interval p var i = p"
  by (cases p) (auto simp: hw_param_interval_def put_interval_def array_get_eq_Some split: if_splits)

lemma plain_ask:
  assumes "closed_range p var a b" "hw_param_interval p var = Some i" "a' \<le> b'" "0 \<le> r"
  obtains q where "ask plain_kernel var (Some (r, put_interval p var (i\<lparr>imin := a', imax := b'\<rparr>))) = Some (0, q)"
    "closed_range q var a' b'"
proof -
  let ?p1 = "put_interval p var (i\<lparr>imin := a', imax := b'\<rparr>)"
  have c: "closed_range ?p1 var a' b'"
    by (rule closed_range_put [OF assms(1-3)]) (simp_all add: put_interval_def)
  then obtain i1 where "ok_space ?p1" "hw_var var" by (rule closed_rangeE)
  then obtain q where q: "hw_param_update_var plain_kernel ?p1 var r = Some (0, q)" "masks q = masks ?p1" "intervals q = intervals ?p1"
    using plain_update assms(4) by metis
  then have "closed_range q var a' b'"
    using c same_arrays [of q ?p1] by (auto simp: closed_range_def ok_space_def hw_param_interval_def)
  with q that show thesis by (simp add: ask_def)
qed

lemma near_set_min:
  assumes "closed_range p var a b"
  shows "if v \<le> b then \<exists>q. snd_pcm_hw_param_set_min plain_kernel p var (Some v) (Some 0) = Some (0, q, Some (max a v), Some 0) \<and>
                           closed_range q var (max a v) b
         else snd_pcm_hw_param_set_min plain_kernel p var (Some v) (Some 0) = Some (- EINVAL, p, Some v, Some 0)"
proof -
  obtain i where i: "ok_space p" "wf_params p" "hw_var var" "hw_is_interval var" "\<not> hw_is_mask var" "a \<le> b" "hw_param_interval p var = Some i"
    "imin i = a" "imax i = b" "\<not> openmin i" "\<not> openmax i" "\<not> empty i" using assms by (rule closed_rangeE) blast
  have step: "hw_param_set_min p var v 0 = Some (fst (snd_interval_refine_min i v False False), put_interval p var (snd (snd_interval_refine_min i v False False)))"
    using i by (simp add: hw_param_set_min_def on_interval_def split_beta)
  note rm = refine_min_closed [of i v]
  show ?thesis
  proof (cases "v \<le> b")
    case True
    let ?m = "max a v"
    have res: "hw_param_set_min p var v 0 = Some (if v \<le> a then 0 else 1, put_interval p var (i\<lparr>imin := ?m, imax := b\<rparr>))"
      unfolding step using rm i True by (cases "v \<le> a") (auto simp: max_def)
    obtain q where q: "ask plain_kernel var (hw_param_set_min p var v 0) = Some (0, q)" "closed_range q var ?m b"
      unfolding res by (rule plain_ask [OF assms i(7), of ?m b "if v \<le> a then 0 else 1"]) (use True i(6) in simp_all)
    obtain j where j: "hw_param_interval q var = Some j" "imin j = ?m" "\<not> openmin j" using q(2) by (rule closed_rangeE)
    have "snd_pcm_hw_param_get_min q var (Some v) (Some 0) = Some (0, Some ?m, Some 0)"
      using j i(4,5) by (simp add: snd_pcm_hw_param_get_min_def store_if_def)
    with q True show ?thesis by (simp add: snd_pcm_hw_param_set_min_def ask_bind deref_or_0_def)
  next
    case False
    then have "fst (snd_interval_refine_min i v False False) = - EINVAL" using rm i by auto
    then have "ask plain_kernel var (hw_param_set_min p var v 0) = Some (- EINVAL, put_interval p var (snd (snd_interval_refine_min i v False False)))"
      by (simp add: step ask_def hw_param_update_var_def)
    with False show ?thesis by (simp add: snd_pcm_hw_param_set_min_def ask_bind deref_or_0_def)
  qed
qed

lemma near_set_max:
  assumes "closed_range p var a b" "0 < v" "v \<le> a \<or> b < v"
  shows "if b < v then \<exists>q. snd_pcm_hw_param_set_max plain_kernel p var (Some v) (Some (- 1)) = Some (0, q, Some b, Some 0) \<and>
                           closed_range q var a b
         else snd_pcm_hw_param_set_max plain_kernel p var (Some v) (Some (- 1)) = Some (- EINVAL, p, Some v, Some (- 1))"
proof -
  obtain i where i: "ok_space p" "wf_params p" "hw_var var" "hw_is_interval var" "\<not> hw_is_mask var" "a \<le> b" "hw_param_interval p var = Some i"
    "imin i = a" "imax i = b" "\<not> openmin i" "\<not> openmax i" "\<not> empty i" using assms(1) by (rule closed_rangeE) blast
  have step: "hw_param_set_max p var v (- 1) = Some (fst (snd_interval_refine_max i v True False), put_interval p var (snd (snd_interval_refine_max i v True False)))"
    using i by (simp add: hw_param_set_max_def on_interval_def split_beta)
  show ?thesis
  proof (cases "b < v")
    case True
    have "i = i\<lparr>imin := a, imax := b\<rparr>" using i(8,9) by (cases i) auto
    then have res: "hw_param_set_max p var v (- 1) = Some (0, put_interval p var (i\<lparr>imin := a, imax := b\<rparr>))"
      unfolding step using refine_max_open_above [of i v] i True by auto
    obtain q where q: "ask plain_kernel var (hw_param_set_max p var v (- 1)) = Some (0, q)" "closed_range q var a b"
      unfolding res by (rule plain_ask [OF assms(1) i(7), of a b 0]) (use i(6) in simp_all)
    obtain j where j: "hw_param_interval q var = Some j" "imax j = b" "\<not> openmax j" using q(2) by (rule closed_rangeE)
    have "snd_pcm_hw_param_get_max q var (Some v) (Some (- 1)) = Some (0, Some b, Some 0)"
      using j i(4,5) by (simp add: snd_pcm_hw_param_get_max_def store_if_def)
    with q True show ?thesis by (simp add: snd_pcm_hw_param_set_max_def ask_bind deref_or_0_def)
  next
    case False
    then have "v \<le> imin i" using assms(3) i by simp
    then have "fst (snd_interval_refine_max i v True False) = - EINVAL"
      using refine_max_open_below [of i v] i assms(2) by auto
    then have "ask plain_kernel var (hw_param_set_max p var v (- 1)) = Some (- EINVAL, put_interval p var (snd (snd_interval_refine_max i v True False)))"
      by (simp add: step ask_def hw_param_update_var_def)
    with False show ?thesis by (simp add: snd_pcm_hw_param_set_max_def ask_bind deref_or_0_def)
  qed
qed

lemma near_end:
  assumes "closed_range p var a b"
  shows "\<exists>q. set_near_end plain_kernel p var lst (Some v0) None = Some (0, q, Some (if lst then b else a), None)"
proof -
  obtain i where i: "ok_space p" "wf_params p" "hw_var var" "hw_is_interval var" "\<not> hw_is_mask var" "a \<le> b" "hw_param_interval p var = Some i"
    "imin i = a" "imax i = b" "\<not> openmin i" "\<not> openmax i" "\<not> empty i" using assms by (rule closed_rangeE) blast
  let ?v = "if lst then b else a"
  have picks: "snd_interval_refine_first i = (if a = b then 0 else 1, i\<lparr>imin := a, imax := a\<rparr>)"
    "snd_interval_refine_last i = (if a = b then 0 else 1, i\<lparr>imin := b, imax := b\<rparr>)"
    using i(8-12) by (cases i, auto simp: snd_interval_refine_first_def snd_interval_refine_last_def interval_is_single_def)+
  have res: "(if lst then hw_param_set_last p var else hw_param_set_first p var) =
      Some (if a = b then 0 else 1, put_interval p var (i\<lparr>imin := ?v, imax := ?v\<rparr>))"
    using i(5,7) picks by (simp add: hw_param_set_last_def hw_param_set_first_def on_interval_def)
  obtain q where q: "ask plain_kernel var (if lst then hw_param_set_last p var else hw_param_set_first p var) = Some (0, q)" "closed_range q var ?v ?v"
    unfolding res by (rule plain_ask [OF assms i(7), of ?v ?v "if a = b then 0 else 1"]) (use i(6) in simp_all)
  obtain k where k: "hw_param_interval q var = Some k" "imin k = ?v" "imax k = ?v" "\<not> empty k" using q(2) by (rule closed_rangeE)
  have "snd_pcm_hw_param_get q var (Some v0) None = Some (0, Some ?v, None)"
    using k i(4,5) by (simp add: snd_pcm_hw_param_get_def store_if_def interval_is_single_def)
  with q show ?thesis
    by (cases lst) (simp_all add: set_near_end_def snd_pcm_hw_param_set_last_def snd_pcm_hw_param_set_first_def ask_bind)
qed

lemma closed_range_single:
  assumes "closed_range p var a b"
  shows "\<exists>i. hw_param_interval p var = Some i \<and> \<not> empty i \<and> (interval_is_single i \<longleftrightarrow> a = b) \<and>
             snd_pcm_hw_param_get_min p var (Some v) None = Some (0, Some a, None)"
proof -
  obtain i where i: "hw_is_interval var" "\<not> hw_is_mask var" "hw_param_interval p var = Some i"
    "imin i = a" "imax i = b" "\<not> openmin i" "\<not> openmax i" "\<not> empty i" using assms by (rule closed_rangeE)
  then show ?thesis by (auto simp: interval_is_single_def snd_pcm_hw_param_get_min_def store_if_def)
qed



text \<open>With null directions \<^verbatim>\<open>boundary_nearer\<close> compares the two distances exactly, for values that fit an
  \<^verbatim>\<open>int\<close>.  With directions it does not: when the subtraction meets opposite directions the carry is
  applied once by \<^verbatim>\<open>boundary_sub\<close> and once more by \<^verbatim>\<open>boundary_lt\<close>, so that a boundary just below 9 is not
  reported as nearer to one just above 10 than 13 is.\<close>

theorem boundary_nearer_exact:
  assumes "0 \<le> mn" "mn \<le> best" "best \<le> mx" "mx \<le> INT_MAX"
  shows "boundary_nearer mn 0 best 0 mx 0 = Some (best - mn < mx - best) \<and>
         boundary_nearer 9 (- 1) 10 1 13 0 = Some False"
proof
  have "c_int (best - mn) = Some (best - mn)" "c_int (mx - best) = Some (mx - best)"
    using assms by (auto simp: c_int_def)
  moreover have "(word_of_int (best - mn) :: u32) < word_of_int (mx - best) \<longleftrightarrow> best - mn < mx - best"
  proof -
    have "uint (word_of_int x :: u32) = x" if "0 \<le> x" "x \<le> INT_MAX" for x
      using that by (simp add: uint_word_of_int)
    from this [of "best - mn"] this [of "mx - best"] show ?thesis
      using assms unfolding word_less_def by linarith
  qed
  ultimately show "boundary_nearer mn 0 best 0 mx 0 = Some (best - mn < mx - best)"
    by (simp add: boundary_nearer_def boundary_sub_def norm_dir_def boundary_lt_def)
  show "boundary_nearer 9 (- 1) 10 1 13 0 = Some False" by code_simp
qed

theorem boundary_nearer_exact_witness:
  "boundary_nearer 8000 0 44100 0 48000 0 = Some (44100 - 8000 < 48000 - (44100 :: int))"
  using boundary_nearer_exact [of 8000 44100 48000] by simp

end
