(* ===== verification/Pcm_HwAccess.thy ===== *)
theory Pcm_HwAccess
  imports Pcm_HwSpace
begin

text \<open>
  The typed accessors of \<^verbatim>\<open>src/src/pcm_macros.h\<close> (lines 596 to 1788), through which applications read and
  narrow the hardware parameters.  There is one definition per accessor, with the parameter it
  addresses and the arguments it passes on.

  Sizes in frames are 64-bit on the modelled target while the parameters are 32-bit; the accessors
  for sizes go through the wrappers the macros \<^verbatim>\<open>DEFINE_GET64\<close> and \<^verbatim>\<open>DEFINE_SET64\<close> generate, which copy the
  value through a local \<^verbatim>\<open>unsigned int\<close>.  The reading wrapper leaves that local variable uninitialised;
  \<open>junk\<close> is the value it happens to hold.
\<close>

section \<open>64-bit wrappers\<close>

type_synonym get64_result = "(int \<times> u64 option \<times> int option) option"
type_synonym set64_result = "(int \<times> snd_pcm_hw_params \<times> u64 option \<times> int option) option"
type_synonym minmax_result =
  "(int \<times> snd_pcm_hw_params \<times> (u32 option \<times> int option) \<times> (u32 option \<times> int option)) option"
type_synonym minmax64_result =
  "(int \<times> snd_pcm_hw_params \<times> (u64 option \<times> int option) \<times> (u64 option \<times> int option)) option"

definition define_get64 :: "(u32 option \<Rightarrow> int option \<Rightarrow> get_result) \<Rightarrow> u32 \<Rightarrow> u64 option \<Rightarrow> int option \<Rightarrow> get64_result" where
  "define_get64 f junk val dir = do {
     (err, v, dir) \<leftarrow> f (Some junk) dir;
     v \<leftarrow> v;
     _ \<leftarrow> val;
     Some (err, Some (ucast v), dir) }"

definition snd_pcm_hw_param_get64 :: "u32 \<Rightarrow> snd_pcm_hw_params \<Rightarrow> int \<Rightarrow> u64 option \<Rightarrow> int option \<Rightarrow> get64_result" where
  "snd_pcm_hw_param_get64 junk params var = define_get64 (snd_pcm_hw_param_get params var) junk"

definition snd_pcm_hw_param_get_min64 :: "u32 \<Rightarrow> snd_pcm_hw_params \<Rightarrow> int \<Rightarrow> u64 option \<Rightarrow> int option \<Rightarrow> get64_result" where
  "snd_pcm_hw_param_get_min64 junk params var = define_get64 (snd_pcm_hw_param_get_min params var) junk"

definition snd_pcm_hw_param_get_max64 :: "u32 \<Rightarrow> snd_pcm_hw_params \<Rightarrow> int \<Rightarrow> u64 option \<Rightarrow> int option \<Rightarrow> get64_result" where
  "snd_pcm_hw_param_get_max64 junk params var = define_get64 (snd_pcm_hw_param_get_max params var) junk"

definition define_set64 :: "(u32 option \<Rightarrow> int option \<Rightarrow> set_result) \<Rightarrow> u64 option \<Rightarrow> int option \<Rightarrow> set64_result" where
  "define_set64 f val dir = do {
     v \<leftarrow> val;
     (err, params, v, dir) \<leftarrow> f (Some (ucast v)) dir;
     v \<leftarrow> v;
     Some (err, params, Some (ucast v), dir) }"

definition snd_pcm_hw_param_set_min64 :: "refine_ioctl \<Rightarrow> snd_pcm_hw_params \<Rightarrow> int \<Rightarrow> u64 option \<Rightarrow> int option \<Rightarrow> set64_result" where
  "snd_pcm_hw_param_set_min64 k params var = define_set64 (snd_pcm_hw_param_set_min k params var)"

definition snd_pcm_hw_param_set_max64 :: "refine_ioctl \<Rightarrow> snd_pcm_hw_params \<Rightarrow> int \<Rightarrow> u64 option \<Rightarrow> int option \<Rightarrow> set64_result" where
  "snd_pcm_hw_param_set_max64 k params var = define_set64 (snd_pcm_hw_param_set_max k params var)"

definition snd_pcm_hw_param_set_near64 :: "refine_ioctl \<Rightarrow> snd_pcm_hw_params \<Rightarrow> int \<Rightarrow> u64 option \<Rightarrow> int option \<Rightarrow> set64_result" where
  "snd_pcm_hw_param_set_near64 k params var = define_set64 (snd_pcm_hw_param_set_near k params var)"

definition snd_pcm_hw_param_set_first64 :: "refine_ioctl \<Rightarrow> snd_pcm_hw_params \<Rightarrow> int \<Rightarrow> u64 option \<Rightarrow> int option \<Rightarrow> set64_result" where
  "snd_pcm_hw_param_set_first64 k params var = define_set64 (snd_pcm_hw_param_set_first k params var)"

definition snd_pcm_hw_param_set_last64 :: "refine_ioctl \<Rightarrow> snd_pcm_hw_params \<Rightarrow> int \<Rightarrow> u64 option \<Rightarrow> int option \<Rightarrow> set64_result" where
  "snd_pcm_hw_param_set_last64 k params var = define_set64 (snd_pcm_hw_param_set_last k params var)"

definition snd_pcm_hw_param_set_minmax64 :: "refine_ioctl \<Rightarrow> snd_pcm_hw_params \<Rightarrow> int \<Rightarrow>
    u64 option \<Rightarrow> int option \<Rightarrow> u64 option \<Rightarrow> int option \<Rightarrow> minmax64_result" where
  "snd_pcm_hw_param_set_minmax64 k params var minval mindir maxval maxdir = do {
     mn \<leftarrow> minval;
     mx \<leftarrow> maxval;
     (err, params, (mn, mindir), (mx, maxdir)) \<leftarrow>
       snd_pcm_hw_param_set_minmax k params var (Some (ucast mn)) mindir (Some (ucast mx)) maxdir;
     mn \<leftarrow> mn;
     mx \<leftarrow> mx;
     Some (err, params, (Some (ucast mn), mindir), (Some (ucast mx), maxdir)) }"

section \<open>Accessors\<close>

definition snd_pcm_hw_params_get_access :: "snd_pcm_hw_params \<Rightarrow> u32 option \<Rightarrow> get_result" where
  "snd_pcm_hw_params_get_access params acc =
     snd_pcm_hw_param_get params HW_ACCESS acc None"

definition snd_pcm_hw_params_test_access :: "refine_ioctl \<Rightarrow> snd_pcm_hw_params \<Rightarrow> u32 \<Rightarrow> (int \<times> snd_pcm_hw_params) option" where
  "snd_pcm_hw_params_test_access k params acc =
     snd_pcm_hw_param_test k params HW_ACCESS acc None"

definition snd_pcm_hw_params_set_access :: "refine_ioctl \<Rightarrow> snd_pcm_hw_params \<Rightarrow> u32 \<Rightarrow> (int \<times> snd_pcm_hw_params) option" where
  "snd_pcm_hw_params_set_access k params acc =
     snd_pcm_hw_param_set k params HW_ACCESS acc 0"

definition snd_pcm_hw_params_set_access_first :: "refine_ioctl \<Rightarrow> snd_pcm_hw_params \<Rightarrow> u32 option \<Rightarrow> set_result" where
  "snd_pcm_hw_params_set_access_first k params acc =
     snd_pcm_hw_param_set_first k params HW_ACCESS acc None"

definition snd_pcm_hw_params_set_access_last :: "refine_ioctl \<Rightarrow> snd_pcm_hw_params \<Rightarrow> u32 option \<Rightarrow> set_result" where
  "snd_pcm_hw_params_set_access_last k params acc =
     snd_pcm_hw_param_set_last k params HW_ACCESS acc None"

definition snd_pcm_hw_params_set_access_mask :: "refine_ioctl \<Rightarrow> snd_pcm_hw_params \<Rightarrow> snd_mask \<Rightarrow> (int \<times> snd_pcm_hw_params) option" where
  "snd_pcm_hw_params_set_access_mask k params msk =
     snd_pcm_hw_param_set_mask k params HW_ACCESS msk"

definition snd_pcm_hw_params_get_format :: "snd_pcm_hw_params \<Rightarrow> u32 option \<Rightarrow> get_result" where
  "snd_pcm_hw_params_get_format params fmt =
     snd_pcm_hw_param_get params HW_FORMAT fmt None"

definition snd_pcm_hw_params_test_format :: "refine_ioctl \<Rightarrow> snd_pcm_hw_params \<Rightarrow> u32 \<Rightarrow> (int \<times> snd_pcm_hw_params) option" where
  "snd_pcm_hw_params_test_format k params fmt =
     snd_pcm_hw_param_test k params HW_FORMAT fmt None"

definition snd_pcm_hw_params_set_format :: "refine_ioctl \<Rightarrow> snd_pcm_hw_params \<Rightarrow> u32 \<Rightarrow> (int \<times> snd_pcm_hw_params) option" where
  "snd_pcm_hw_params_set_format k params fmt =
     snd_pcm_hw_param_set k params HW_FORMAT fmt 0"

definition snd_pcm_hw_params_set_format_first :: "refine_ioctl \<Rightarrow> snd_pcm_hw_params \<Rightarrow> u32 option \<Rightarrow> set_result" where
  "snd_pcm_hw_params_set_format_first k params fmt =
     snd_pcm_hw_param_set_first k params HW_FORMAT fmt None"

definition snd_pcm_hw_params_set_format_last :: "refine_ioctl \<Rightarrow> snd_pcm_hw_params \<Rightarrow> u32 option \<Rightarrow> set_result" where
  "snd_pcm_hw_params_set_format_last k params fmt =
     snd_pcm_hw_param_set_last k params HW_FORMAT fmt None"

definition snd_pcm_hw_params_set_format_mask :: "refine_ioctl \<Rightarrow> snd_pcm_hw_params \<Rightarrow> snd_mask \<Rightarrow> (int \<times> snd_pcm_hw_params) option" where
  "snd_pcm_hw_params_set_format_mask k params msk =
     snd_pcm_hw_param_set_mask k params HW_FORMAT msk"

definition snd_pcm_hw_params_get_subformat :: "snd_pcm_hw_params \<Rightarrow> u32 option \<Rightarrow> get_result" where
  "snd_pcm_hw_params_get_subformat params subformat =
     snd_pcm_hw_param_get params HW_SUBFORMAT subformat None"

definition snd_pcm_hw_params_test_subformat :: "refine_ioctl \<Rightarrow> snd_pcm_hw_params \<Rightarrow> u32 \<Rightarrow> (int \<times> snd_pcm_hw_params) option" where
  "snd_pcm_hw_params_test_subformat k params subformat =
     snd_pcm_hw_param_test k params HW_SUBFORMAT subformat None"

definition snd_pcm_hw_params_set_subformat :: "refine_ioctl \<Rightarrow> snd_pcm_hw_params \<Rightarrow> u32 \<Rightarrow> (int \<times> snd_pcm_hw_params) option" where
  "snd_pcm_hw_params_set_subformat k params subformat =
     snd_pcm_hw_param_set k params HW_SUBFORMAT subformat 0"

definition snd_pcm_hw_params_set_subformat_first :: "refine_ioctl \<Rightarrow> snd_pcm_hw_params \<Rightarrow> u32 option \<Rightarrow> set_result" where
  "snd_pcm_hw_params_set_subformat_first k params subformat =
     snd_pcm_hw_param_set_first k params HW_SUBFORMAT subformat None"

definition snd_pcm_hw_params_set_subformat_last :: "refine_ioctl \<Rightarrow> snd_pcm_hw_params \<Rightarrow> u32 option \<Rightarrow> set_result" where
  "snd_pcm_hw_params_set_subformat_last k params subformat =
     snd_pcm_hw_param_set_last k params HW_SUBFORMAT subformat None"

definition snd_pcm_hw_params_set_subformat_mask :: "refine_ioctl \<Rightarrow> snd_pcm_hw_params \<Rightarrow> snd_mask \<Rightarrow> (int \<times> snd_pcm_hw_params) option" where
  "snd_pcm_hw_params_set_subformat_mask k params msk =
     snd_pcm_hw_param_set_mask k params HW_SUBFORMAT msk"

definition snd_pcm_hw_params_get_channels :: "snd_pcm_hw_params \<Rightarrow> u32 option \<Rightarrow> get_result" where
  "snd_pcm_hw_params_get_channels params val =
     snd_pcm_hw_param_get params HW_CHANNELS val None"

definition snd_pcm_hw_params_get_channels_min :: "snd_pcm_hw_params \<Rightarrow> u32 option \<Rightarrow> get_result" where
  "snd_pcm_hw_params_get_channels_min params val =
     snd_pcm_hw_param_get_min params HW_CHANNELS val None"

definition snd_pcm_hw_params_get_channels_max :: "snd_pcm_hw_params \<Rightarrow> u32 option \<Rightarrow> get_result" where
  "snd_pcm_hw_params_get_channels_max params val =
     snd_pcm_hw_param_get_max params HW_CHANNELS val None"

definition snd_pcm_hw_params_test_channels :: "refine_ioctl \<Rightarrow> snd_pcm_hw_params \<Rightarrow> u32 \<Rightarrow> (int \<times> snd_pcm_hw_params) option" where
  "snd_pcm_hw_params_test_channels k params val =
     snd_pcm_hw_param_test k params HW_CHANNELS val None"

definition snd_pcm_hw_params_set_channels :: "refine_ioctl \<Rightarrow> snd_pcm_hw_params \<Rightarrow> u32 \<Rightarrow> (int \<times> snd_pcm_hw_params) option" where
  "snd_pcm_hw_params_set_channels k params val =
     snd_pcm_hw_param_set k params HW_CHANNELS val 0"

definition snd_pcm_hw_params_set_channels_min :: "refine_ioctl \<Rightarrow> snd_pcm_hw_params \<Rightarrow> u32 option \<Rightarrow> set_result" where
  "snd_pcm_hw_params_set_channels_min k params val =
     snd_pcm_hw_param_set_min k params HW_CHANNELS val None"

definition snd_pcm_hw_params_set_channels_max :: "refine_ioctl \<Rightarrow> snd_pcm_hw_params \<Rightarrow> u32 option \<Rightarrow> set_result" where
  "snd_pcm_hw_params_set_channels_max k params val =
     snd_pcm_hw_param_set_max k params HW_CHANNELS val None"

definition snd_pcm_hw_params_set_channels_minmax :: "refine_ioctl \<Rightarrow> snd_pcm_hw_params \<Rightarrow> u32 option \<Rightarrow> u32 option \<Rightarrow> minmax_result" where
  "snd_pcm_hw_params_set_channels_minmax k params mn mx =
     snd_pcm_hw_param_set_minmax k params HW_CHANNELS mn None mx None"

definition snd_pcm_hw_params_set_channels_near :: "refine_ioctl \<Rightarrow> snd_pcm_hw_params \<Rightarrow> u32 option \<Rightarrow> set_result" where
  "snd_pcm_hw_params_set_channels_near k params val =
     snd_pcm_hw_param_set_near k params HW_CHANNELS val None"

definition snd_pcm_hw_params_set_channels_first :: "refine_ioctl \<Rightarrow> snd_pcm_hw_params \<Rightarrow> u32 option \<Rightarrow> set_result" where
  "snd_pcm_hw_params_set_channels_first k params val =
     snd_pcm_hw_param_set_first k params HW_CHANNELS val None"

definition snd_pcm_hw_params_set_channels_last :: "refine_ioctl \<Rightarrow> snd_pcm_hw_params \<Rightarrow> u32 option \<Rightarrow> set_result" where
  "snd_pcm_hw_params_set_channels_last k params val =
     snd_pcm_hw_param_set_last k params HW_CHANNELS val None"

definition snd_pcm_hw_params_get_rate :: "snd_pcm_hw_params \<Rightarrow> u32 option \<Rightarrow> int option \<Rightarrow> get_result" where
  "snd_pcm_hw_params_get_rate params val dir =
     snd_pcm_hw_param_get params HW_RATE val dir"

definition snd_pcm_hw_params_get_rate_min :: "snd_pcm_hw_params \<Rightarrow> u32 option \<Rightarrow> int option \<Rightarrow> get_result" where
  "snd_pcm_hw_params_get_rate_min params val dir =
     snd_pcm_hw_param_get_min params HW_RATE val dir"

definition snd_pcm_hw_params_get_rate_max :: "snd_pcm_hw_params \<Rightarrow> u32 option \<Rightarrow> int option \<Rightarrow> get_result" where
  "snd_pcm_hw_params_get_rate_max params val dir =
     snd_pcm_hw_param_get_max params HW_RATE val dir"

definition snd_pcm_hw_params_test_rate :: "refine_ioctl \<Rightarrow> snd_pcm_hw_params \<Rightarrow> u32 \<Rightarrow> int \<Rightarrow> (int \<times> snd_pcm_hw_params) option" where
  "snd_pcm_hw_params_test_rate k params val dir =
     snd_pcm_hw_param_test k params HW_RATE val (Some dir)"

definition snd_pcm_hw_params_set_rate :: "refine_ioctl \<Rightarrow> snd_pcm_hw_params \<Rightarrow> u32 \<Rightarrow> int \<Rightarrow> (int \<times> snd_pcm_hw_params) option" where
  "snd_pcm_hw_params_set_rate k params val dir =
     snd_pcm_hw_param_set k params HW_RATE val dir"

definition snd_pcm_hw_params_set_rate_min :: "refine_ioctl \<Rightarrow> snd_pcm_hw_params \<Rightarrow> u32 option \<Rightarrow> int option \<Rightarrow> set_result" where
  "snd_pcm_hw_params_set_rate_min k params val dir =
     snd_pcm_hw_param_set_min k params HW_RATE val dir"

definition snd_pcm_hw_params_set_rate_max :: "refine_ioctl \<Rightarrow> snd_pcm_hw_params \<Rightarrow> u32 option \<Rightarrow> int option \<Rightarrow> set_result" where
  "snd_pcm_hw_params_set_rate_max k params val dir =
     snd_pcm_hw_param_set_max k params HW_RATE val dir"

definition snd_pcm_hw_params_set_rate_minmax :: "refine_ioctl \<Rightarrow> snd_pcm_hw_params \<Rightarrow> u32 option \<Rightarrow> int option \<Rightarrow> u32 option \<Rightarrow> int option \<Rightarrow> minmax_result" where
  "snd_pcm_hw_params_set_rate_minmax k params mn mindir mx maxdir =
     snd_pcm_hw_param_set_minmax k params HW_RATE mn mindir mx maxdir"

definition snd_pcm_hw_params_set_rate_near :: "refine_ioctl \<Rightarrow> snd_pcm_hw_params \<Rightarrow> u32 option \<Rightarrow> int option \<Rightarrow> set_result" where
  "snd_pcm_hw_params_set_rate_near k params val dir =
     snd_pcm_hw_param_set_near k params HW_RATE val dir"

definition snd_pcm_hw_params_set_rate_first :: "refine_ioctl \<Rightarrow> snd_pcm_hw_params \<Rightarrow> u32 option \<Rightarrow> int option \<Rightarrow> set_result" where
  "snd_pcm_hw_params_set_rate_first k params val dir =
     snd_pcm_hw_param_set_first k params HW_RATE val dir"

definition snd_pcm_hw_params_set_rate_last :: "refine_ioctl \<Rightarrow> snd_pcm_hw_params \<Rightarrow> u32 option \<Rightarrow> int option \<Rightarrow> set_result" where
  "snd_pcm_hw_params_set_rate_last k params val dir =
     snd_pcm_hw_param_set_last k params HW_RATE val dir"

definition snd_pcm_hw_params_get_period_time :: "snd_pcm_hw_params \<Rightarrow> u32 option \<Rightarrow> int option \<Rightarrow> get_result" where
  "snd_pcm_hw_params_get_period_time params val dir =
     snd_pcm_hw_param_get params HW_PERIOD_TIME val dir"

definition snd_pcm_hw_params_get_period_time_min :: "snd_pcm_hw_params \<Rightarrow> u32 option \<Rightarrow> int option \<Rightarrow> get_result" where
  "snd_pcm_hw_params_get_period_time_min params val dir =
     snd_pcm_hw_param_get_min params HW_PERIOD_TIME val dir"

definition snd_pcm_hw_params_get_period_time_max :: "snd_pcm_hw_params \<Rightarrow> u32 option \<Rightarrow> int option \<Rightarrow> get_result" where
  "snd_pcm_hw_params_get_period_time_max params val dir =
     snd_pcm_hw_param_get_max params HW_PERIOD_TIME val dir"

definition snd_pcm_hw_params_test_period_time :: "refine_ioctl \<Rightarrow> snd_pcm_hw_params \<Rightarrow> u32 \<Rightarrow> int \<Rightarrow> (int \<times> snd_pcm_hw_params) option" where
  "snd_pcm_hw_params_test_period_time k params val dir =
     snd_pcm_hw_param_test k params HW_PERIOD_TIME val (Some dir)"

definition snd_pcm_hw_params_set_period_time :: "refine_ioctl \<Rightarrow> snd_pcm_hw_params \<Rightarrow> u32 \<Rightarrow> int \<Rightarrow> (int \<times> snd_pcm_hw_params) option" where
  "snd_pcm_hw_params_set_period_time k params val dir =
     snd_pcm_hw_param_set k params HW_PERIOD_TIME val dir"

definition snd_pcm_hw_params_set_period_time_min :: "refine_ioctl \<Rightarrow> snd_pcm_hw_params \<Rightarrow> u32 option \<Rightarrow> int option \<Rightarrow> set_result" where
  "snd_pcm_hw_params_set_period_time_min k params val dir =
     snd_pcm_hw_param_set_min k params HW_PERIOD_TIME val dir"

definition snd_pcm_hw_params_set_period_time_max :: "refine_ioctl \<Rightarrow> snd_pcm_hw_params \<Rightarrow> u32 option \<Rightarrow> int option \<Rightarrow> set_result" where
  "snd_pcm_hw_params_set_period_time_max k params val dir =
     snd_pcm_hw_param_set_max k params HW_PERIOD_TIME val dir"

definition snd_pcm_hw_params_set_period_time_minmax :: "refine_ioctl \<Rightarrow> snd_pcm_hw_params \<Rightarrow> u32 option \<Rightarrow> int option \<Rightarrow> u32 option \<Rightarrow> int option \<Rightarrow> minmax_result" where
  "snd_pcm_hw_params_set_period_time_minmax k params mn mindir mx maxdir =
     snd_pcm_hw_param_set_minmax k params HW_PERIOD_TIME mn mindir mx maxdir"

definition snd_pcm_hw_params_set_period_time_near :: "refine_ioctl \<Rightarrow> snd_pcm_hw_params \<Rightarrow> u32 option \<Rightarrow> int option \<Rightarrow> set_result" where
  "snd_pcm_hw_params_set_period_time_near k params val dir =
     snd_pcm_hw_param_set_near k params HW_PERIOD_TIME val dir"

definition snd_pcm_hw_params_set_period_time_first :: "refine_ioctl \<Rightarrow> snd_pcm_hw_params \<Rightarrow> u32 option \<Rightarrow> int option \<Rightarrow> set_result" where
  "snd_pcm_hw_params_set_period_time_first k params val dir =
     snd_pcm_hw_param_set_first k params HW_PERIOD_TIME val dir"

definition snd_pcm_hw_params_set_period_time_last :: "refine_ioctl \<Rightarrow> snd_pcm_hw_params \<Rightarrow> u32 option \<Rightarrow> int option \<Rightarrow> set_result" where
  "snd_pcm_hw_params_set_period_time_last k params val dir =
     snd_pcm_hw_param_set_last k params HW_PERIOD_TIME val dir"

definition snd_pcm_hw_params_get_period_size :: "u32 \<Rightarrow> snd_pcm_hw_params \<Rightarrow> u64 option \<Rightarrow> int option \<Rightarrow> get64_result" where
  "snd_pcm_hw_params_get_period_size junk params val dir =
     snd_pcm_hw_param_get64 junk params HW_PERIOD_SIZE val dir"

definition snd_pcm_hw_params_get_period_size_min :: "u32 \<Rightarrow> snd_pcm_hw_params \<Rightarrow> u64 option \<Rightarrow> int option \<Rightarrow> get64_result" where
  "snd_pcm_hw_params_get_period_size_min junk params val dir =
     snd_pcm_hw_param_get_min64 junk params HW_PERIOD_SIZE val dir"

definition snd_pcm_hw_params_get_period_size_max :: "u32 \<Rightarrow> snd_pcm_hw_params \<Rightarrow> u64 option \<Rightarrow> int option \<Rightarrow> get64_result" where
  "snd_pcm_hw_params_get_period_size_max junk params val dir =
     snd_pcm_hw_param_get_max64 junk params HW_PERIOD_SIZE val dir"

definition snd_pcm_hw_params_test_period_size :: "refine_ioctl \<Rightarrow> snd_pcm_hw_params \<Rightarrow> u64 \<Rightarrow> int \<Rightarrow> (int \<times> snd_pcm_hw_params) option" where
  "snd_pcm_hw_params_test_period_size k params val dir =
     snd_pcm_hw_param_test k params HW_PERIOD_SIZE (ucast val) (Some dir)"

definition snd_pcm_hw_params_set_period_size :: "refine_ioctl \<Rightarrow> snd_pcm_hw_params \<Rightarrow> u64 \<Rightarrow> int \<Rightarrow> (int \<times> snd_pcm_hw_params) option" where
  "snd_pcm_hw_params_set_period_size k params val dir =
     snd_pcm_hw_param_set k params HW_PERIOD_SIZE (ucast val) dir"

definition snd_pcm_hw_params_set_period_size_min :: "refine_ioctl \<Rightarrow> snd_pcm_hw_params \<Rightarrow> u64 option \<Rightarrow> int option \<Rightarrow> set64_result" where
  "snd_pcm_hw_params_set_period_size_min k params val dir =
     snd_pcm_hw_param_set_min64 k params HW_PERIOD_SIZE val dir"

definition snd_pcm_hw_params_set_period_size_max :: "refine_ioctl \<Rightarrow> snd_pcm_hw_params \<Rightarrow> u64 option \<Rightarrow> int option \<Rightarrow> set64_result" where
  "snd_pcm_hw_params_set_period_size_max k params val dir =
     snd_pcm_hw_param_set_max64 k params HW_PERIOD_SIZE val dir"

definition snd_pcm_hw_params_set_period_size_minmax :: "refine_ioctl \<Rightarrow> snd_pcm_hw_params \<Rightarrow> u64 option \<Rightarrow> int option \<Rightarrow> u64 option \<Rightarrow> int option \<Rightarrow> minmax64_result" where
  "snd_pcm_hw_params_set_period_size_minmax k params mn mindir mx maxdir =
     snd_pcm_hw_param_set_minmax64 k params HW_PERIOD_SIZE mn mindir mx maxdir"

definition snd_pcm_hw_params_set_period_size_near :: "refine_ioctl \<Rightarrow> snd_pcm_hw_params \<Rightarrow> u64 option \<Rightarrow> int option \<Rightarrow> set64_result" where
  "snd_pcm_hw_params_set_period_size_near k params val dir =
     snd_pcm_hw_param_set_near64 k params HW_PERIOD_SIZE val dir"

definition snd_pcm_hw_params_set_period_size_first :: "refine_ioctl \<Rightarrow> snd_pcm_hw_params \<Rightarrow> u64 option \<Rightarrow> int option \<Rightarrow> set64_result" where
  "snd_pcm_hw_params_set_period_size_first k params val dir =
     snd_pcm_hw_param_set_first64 k params HW_PERIOD_SIZE val dir"

definition snd_pcm_hw_params_set_period_size_last :: "refine_ioctl \<Rightarrow> snd_pcm_hw_params \<Rightarrow> u64 option \<Rightarrow> int option \<Rightarrow> set64_result" where
  "snd_pcm_hw_params_set_period_size_last k params val dir =
     snd_pcm_hw_param_set_last64 k params HW_PERIOD_SIZE val dir"

definition snd_pcm_hw_params_set_period_size_integer :: "refine_ioctl \<Rightarrow> snd_pcm_hw_params \<Rightarrow> (int \<times> snd_pcm_hw_params) option" where
  "snd_pcm_hw_params_set_period_size_integer k params =
     snd_pcm_hw_param_set_integer k params HW_PERIOD_SIZE"

definition snd_pcm_hw_params_get_periods :: "snd_pcm_hw_params \<Rightarrow> u32 option \<Rightarrow> int option \<Rightarrow> get_result" where
  "snd_pcm_hw_params_get_periods params val dir =
     snd_pcm_hw_param_get params HW_PERIODS val dir"

definition snd_pcm_hw_params_get_periods_min :: "snd_pcm_hw_params \<Rightarrow> u32 option \<Rightarrow> int option \<Rightarrow> get_result" where
  "snd_pcm_hw_params_get_periods_min params val dir =
     snd_pcm_hw_param_get_min params HW_PERIODS val dir"

definition snd_pcm_hw_params_get_periods_max :: "snd_pcm_hw_params \<Rightarrow> u32 option \<Rightarrow> int option \<Rightarrow> get_result" where
  "snd_pcm_hw_params_get_periods_max params val dir =
     snd_pcm_hw_param_get_max params HW_PERIODS val dir"

definition snd_pcm_hw_params_test_periods :: "refine_ioctl \<Rightarrow> snd_pcm_hw_params \<Rightarrow> u32 \<Rightarrow> int \<Rightarrow> (int \<times> snd_pcm_hw_params) option" where
  "snd_pcm_hw_params_test_periods k params val dir =
     snd_pcm_hw_param_test k params HW_PERIODS val (Some dir)"

definition snd_pcm_hw_params_set_periods :: "refine_ioctl \<Rightarrow> snd_pcm_hw_params \<Rightarrow> u32 \<Rightarrow> int \<Rightarrow> (int \<times> snd_pcm_hw_params) option" where
  "snd_pcm_hw_params_set_periods k params val dir =
     snd_pcm_hw_param_set k params HW_PERIODS val dir"

definition snd_pcm_hw_params_set_periods_min :: "refine_ioctl \<Rightarrow> snd_pcm_hw_params \<Rightarrow> u32 option \<Rightarrow> int option \<Rightarrow> set_result" where
  "snd_pcm_hw_params_set_periods_min k params val dir =
     snd_pcm_hw_param_set_min k params HW_PERIODS val dir"

definition snd_pcm_hw_params_set_periods_max :: "refine_ioctl \<Rightarrow> snd_pcm_hw_params \<Rightarrow> u32 option \<Rightarrow> int option \<Rightarrow> set_result" where
  "snd_pcm_hw_params_set_periods_max k params val dir =
     snd_pcm_hw_param_set_max k params HW_PERIODS val dir"

definition snd_pcm_hw_params_set_periods_minmax :: "refine_ioctl \<Rightarrow> snd_pcm_hw_params \<Rightarrow> u32 option \<Rightarrow> int option \<Rightarrow> u32 option \<Rightarrow> int option \<Rightarrow> minmax_result" where
  "snd_pcm_hw_params_set_periods_minmax k params mn mindir mx maxdir =
     snd_pcm_hw_param_set_minmax k params HW_PERIODS mn mindir mx maxdir"

definition snd_pcm_hw_params_set_periods_near :: "refine_ioctl \<Rightarrow> snd_pcm_hw_params \<Rightarrow> u32 option \<Rightarrow> int option \<Rightarrow> set_result" where
  "snd_pcm_hw_params_set_periods_near k params val dir =
     snd_pcm_hw_param_set_near k params HW_PERIODS val dir"

definition snd_pcm_hw_params_set_periods_first :: "refine_ioctl \<Rightarrow> snd_pcm_hw_params \<Rightarrow> u32 option \<Rightarrow> int option \<Rightarrow> set_result" where
  "snd_pcm_hw_params_set_periods_first k params val dir =
     snd_pcm_hw_param_set_first k params HW_PERIODS val dir"

definition snd_pcm_hw_params_set_periods_last :: "refine_ioctl \<Rightarrow> snd_pcm_hw_params \<Rightarrow> u32 option \<Rightarrow> int option \<Rightarrow> set_result" where
  "snd_pcm_hw_params_set_periods_last k params val dir =
     snd_pcm_hw_param_set_last k params HW_PERIODS val dir"

definition snd_pcm_hw_params_set_periods_integer :: "refine_ioctl \<Rightarrow> snd_pcm_hw_params \<Rightarrow> (int \<times> snd_pcm_hw_params) option" where
  "snd_pcm_hw_params_set_periods_integer k params =
     snd_pcm_hw_param_set_integer k params HW_PERIODS"

definition snd_pcm_hw_params_get_buffer_time :: "snd_pcm_hw_params \<Rightarrow> u32 option \<Rightarrow> int option \<Rightarrow> get_result" where
  "snd_pcm_hw_params_get_buffer_time params val dir =
     snd_pcm_hw_param_get params HW_BUFFER_TIME val dir"

definition snd_pcm_hw_params_get_buffer_time_min :: "snd_pcm_hw_params \<Rightarrow> u32 option \<Rightarrow> int option \<Rightarrow> get_result" where
  "snd_pcm_hw_params_get_buffer_time_min params val dir =
     snd_pcm_hw_param_get_min params HW_BUFFER_TIME val dir"

definition snd_pcm_hw_params_get_buffer_time_max :: "snd_pcm_hw_params \<Rightarrow> u32 option \<Rightarrow> int option \<Rightarrow> get_result" where
  "snd_pcm_hw_params_get_buffer_time_max params val dir =
     snd_pcm_hw_param_get_max params HW_BUFFER_TIME val dir"

definition snd_pcm_hw_params_test_buffer_time :: "refine_ioctl \<Rightarrow> snd_pcm_hw_params \<Rightarrow> u32 \<Rightarrow> int \<Rightarrow> (int \<times> snd_pcm_hw_params) option" where
  "snd_pcm_hw_params_test_buffer_time k params val dir =
     snd_pcm_hw_param_test k params HW_BUFFER_TIME val (Some dir)"

definition snd_pcm_hw_params_set_buffer_time :: "refine_ioctl \<Rightarrow> snd_pcm_hw_params \<Rightarrow> u32 \<Rightarrow> int \<Rightarrow> (int \<times> snd_pcm_hw_params) option" where
  "snd_pcm_hw_params_set_buffer_time k params val dir =
     snd_pcm_hw_param_set k params HW_BUFFER_TIME val dir"

definition snd_pcm_hw_params_set_buffer_time_min :: "refine_ioctl \<Rightarrow> snd_pcm_hw_params \<Rightarrow> u32 option \<Rightarrow> int option \<Rightarrow> set_result" where
  "snd_pcm_hw_params_set_buffer_time_min k params val dir =
     snd_pcm_hw_param_set_min k params HW_BUFFER_TIME val dir"

definition snd_pcm_hw_params_set_buffer_time_max :: "refine_ioctl \<Rightarrow> snd_pcm_hw_params \<Rightarrow> u32 option \<Rightarrow> int option \<Rightarrow> set_result" where
  "snd_pcm_hw_params_set_buffer_time_max k params val dir =
     snd_pcm_hw_param_set_max k params HW_BUFFER_TIME val dir"

definition snd_pcm_hw_params_set_buffer_time_minmax :: "refine_ioctl \<Rightarrow> snd_pcm_hw_params \<Rightarrow> u32 option \<Rightarrow> int option \<Rightarrow> u32 option \<Rightarrow> int option \<Rightarrow> minmax_result" where
  "snd_pcm_hw_params_set_buffer_time_minmax k params mn mindir mx maxdir =
     snd_pcm_hw_param_set_minmax k params HW_BUFFER_TIME mn mindir mx maxdir"

definition snd_pcm_hw_params_set_buffer_time_near :: "refine_ioctl \<Rightarrow> snd_pcm_hw_params \<Rightarrow> u32 option \<Rightarrow> int option \<Rightarrow> set_result" where
  "snd_pcm_hw_params_set_buffer_time_near k params val dir =
     snd_pcm_hw_param_set_near k params HW_BUFFER_TIME val dir"

definition snd_pcm_hw_params_set_buffer_time_first :: "refine_ioctl \<Rightarrow> snd_pcm_hw_params \<Rightarrow> u32 option \<Rightarrow> int option \<Rightarrow> set_result" where
  "snd_pcm_hw_params_set_buffer_time_first k params val dir =
     snd_pcm_hw_param_set_first k params HW_BUFFER_TIME val dir"

definition snd_pcm_hw_params_set_buffer_time_last :: "refine_ioctl \<Rightarrow> snd_pcm_hw_params \<Rightarrow> u32 option \<Rightarrow> int option \<Rightarrow> set_result" where
  "snd_pcm_hw_params_set_buffer_time_last k params val dir =
     snd_pcm_hw_param_set_last k params HW_BUFFER_TIME val dir"

definition snd_pcm_hw_params_get_buffer_size :: "u32 \<Rightarrow> snd_pcm_hw_params \<Rightarrow> u64 option \<Rightarrow> get64_result" where
  "snd_pcm_hw_params_get_buffer_size junk params val =
     snd_pcm_hw_param_get64 junk params HW_BUFFER_SIZE val None"

definition snd_pcm_hw_params_get_buffer_size_min :: "u32 \<Rightarrow> snd_pcm_hw_params \<Rightarrow> u64 option \<Rightarrow> get64_result" where
  "snd_pcm_hw_params_get_buffer_size_min junk params val =
     snd_pcm_hw_param_get_min64 junk params HW_BUFFER_SIZE val None"

definition snd_pcm_hw_params_get_buffer_size_max :: "u32 \<Rightarrow> snd_pcm_hw_params \<Rightarrow> u64 option \<Rightarrow> get64_result" where
  "snd_pcm_hw_params_get_buffer_size_max junk params val =
     snd_pcm_hw_param_get_max64 junk params HW_BUFFER_SIZE val None"

definition snd_pcm_hw_params_test_buffer_size :: "refine_ioctl \<Rightarrow> snd_pcm_hw_params \<Rightarrow> u64 \<Rightarrow> (int \<times> snd_pcm_hw_params) option" where
  "snd_pcm_hw_params_test_buffer_size k params val =
     snd_pcm_hw_param_test k params HW_BUFFER_SIZE (ucast val) None"

definition snd_pcm_hw_params_set_buffer_size :: "refine_ioctl \<Rightarrow> snd_pcm_hw_params \<Rightarrow> u64 \<Rightarrow> (int \<times> snd_pcm_hw_params) option" where
  "snd_pcm_hw_params_set_buffer_size k params val =
     snd_pcm_hw_param_set k params HW_BUFFER_SIZE (ucast val) 0"

definition snd_pcm_hw_params_set_buffer_size_min :: "refine_ioctl \<Rightarrow> snd_pcm_hw_params \<Rightarrow> u64 option \<Rightarrow> set64_result" where
  "snd_pcm_hw_params_set_buffer_size_min k params val =
     snd_pcm_hw_param_set_min64 k params HW_BUFFER_SIZE val None"

definition snd_pcm_hw_params_set_buffer_size_max :: "refine_ioctl \<Rightarrow> snd_pcm_hw_params \<Rightarrow> u64 option \<Rightarrow> set64_result" where
  "snd_pcm_hw_params_set_buffer_size_max k params val =
     snd_pcm_hw_param_set_max64 k params HW_BUFFER_SIZE val None"

definition snd_pcm_hw_params_set_buffer_size_minmax64 :: "refine_ioctl \<Rightarrow> snd_pcm_hw_params \<Rightarrow> u64 option \<Rightarrow> u64 option \<Rightarrow> minmax64_result" where
  "snd_pcm_hw_params_set_buffer_size_minmax64 k params mn mx =
     snd_pcm_hw_param_set_minmax64 k params HW_BUFFER_SIZE mn None mx None"

definition snd_pcm_hw_params_set_buffer_size_near :: "refine_ioctl \<Rightarrow> snd_pcm_hw_params \<Rightarrow> u64 option \<Rightarrow> set64_result" where
  "snd_pcm_hw_params_set_buffer_size_near k params val =
     snd_pcm_hw_param_set_near64 k params HW_BUFFER_SIZE val None"

definition snd_pcm_hw_params_set_buffer_size_first :: "refine_ioctl \<Rightarrow> snd_pcm_hw_params \<Rightarrow> u64 option \<Rightarrow> set64_result" where
  "snd_pcm_hw_params_set_buffer_size_first k params val =
     snd_pcm_hw_param_set_first64 k params HW_BUFFER_SIZE val None"

definition snd_pcm_hw_params_set_buffer_size_last :: "refine_ioctl \<Rightarrow> snd_pcm_hw_params \<Rightarrow> u64 option \<Rightarrow> set64_result" where
  "snd_pcm_hw_params_set_buffer_size_last k params val =
     snd_pcm_hw_param_set_last64 k params HW_BUFFER_SIZE val None"

definition snd_pcm_hw_params_get_tick_time :: "snd_pcm_hw_params \<Rightarrow> u32 option \<Rightarrow> int option \<Rightarrow> get_result" where
  "snd_pcm_hw_params_get_tick_time params val dir =
     snd_pcm_hw_param_get params HW_TICK_TIME val dir"

definition snd_pcm_hw_params_get_tick_time_min :: "snd_pcm_hw_params \<Rightarrow> u32 option \<Rightarrow> int option \<Rightarrow> get_result" where
  "snd_pcm_hw_params_get_tick_time_min params val dir =
     snd_pcm_hw_param_get_min params HW_TICK_TIME val dir"

definition snd_pcm_hw_params_get_tick_time_max :: "snd_pcm_hw_params \<Rightarrow> u32 option \<Rightarrow> int option \<Rightarrow> get_result" where
  "snd_pcm_hw_params_get_tick_time_max params val dir =
     snd_pcm_hw_param_get_max params HW_TICK_TIME val dir"

definition snd_pcm_hw_params_test_tick_time :: "refine_ioctl \<Rightarrow> snd_pcm_hw_params \<Rightarrow> u32 \<Rightarrow> int \<Rightarrow> (int \<times> snd_pcm_hw_params) option" where
  "snd_pcm_hw_params_test_tick_time k params val dir =
     snd_pcm_hw_param_test k params HW_TICK_TIME val (Some dir)"

definition snd_pcm_hw_params_set_tick_time :: "refine_ioctl \<Rightarrow> snd_pcm_hw_params \<Rightarrow> u32 \<Rightarrow> int \<Rightarrow> (int \<times> snd_pcm_hw_params) option" where
  "snd_pcm_hw_params_set_tick_time k params val dir =
     snd_pcm_hw_param_set k params HW_TICK_TIME val dir"

definition snd_pcm_hw_params_set_tick_time_min :: "refine_ioctl \<Rightarrow> snd_pcm_hw_params \<Rightarrow> u32 option \<Rightarrow> int option \<Rightarrow> set_result" where
  "snd_pcm_hw_params_set_tick_time_min k params val dir =
     snd_pcm_hw_param_set_min k params HW_TICK_TIME val dir"

definition snd_pcm_hw_params_set_tick_time_max :: "refine_ioctl \<Rightarrow> snd_pcm_hw_params \<Rightarrow> u32 option \<Rightarrow> int option \<Rightarrow> set_result" where
  "snd_pcm_hw_params_set_tick_time_max k params val dir =
     snd_pcm_hw_param_set_max k params HW_TICK_TIME val dir"

definition snd_pcm_hw_params_set_tick_time_minmax :: "refine_ioctl \<Rightarrow> snd_pcm_hw_params \<Rightarrow> u32 option \<Rightarrow> int option \<Rightarrow> u32 option \<Rightarrow> int option \<Rightarrow> minmax_result" where
  "snd_pcm_hw_params_set_tick_time_minmax k params mn mindir mx maxdir =
     snd_pcm_hw_param_set_minmax k params HW_TICK_TIME mn mindir mx maxdir"

definition snd_pcm_hw_params_set_tick_time_near :: "refine_ioctl \<Rightarrow> snd_pcm_hw_params \<Rightarrow> u32 option \<Rightarrow> int option \<Rightarrow> set_result" where
  "snd_pcm_hw_params_set_tick_time_near k params val dir =
     snd_pcm_hw_param_set_near k params HW_TICK_TIME val dir"

definition snd_pcm_hw_params_set_tick_time_first :: "refine_ioctl \<Rightarrow> snd_pcm_hw_params \<Rightarrow> u32 option \<Rightarrow> int option \<Rightarrow> set_result" where
  "snd_pcm_hw_params_set_tick_time_first k params val dir =
     snd_pcm_hw_param_set_first k params HW_TICK_TIME val dir"

definition snd_pcm_hw_params_set_tick_time_last :: "refine_ioctl \<Rightarrow> snd_pcm_hw_params \<Rightarrow> u32 option \<Rightarrow> int option \<Rightarrow> set_result" where
  "snd_pcm_hw_params_set_tick_time_last k params val dir =
     snd_pcm_hw_param_set_last k params HW_TICK_TIME val dir"

section \<open>Masks and flags\<close>

text \<open>The pointers of \<^verbatim>\<open>snd_pcm_hw_params_get_access_mask\<close> are tested against \<^verbatim>\<open>NULL\<close>; the other two copy
  without a test.\<close>

definition snd_pcm_hw_params_get_access_mask :: "snd_pcm_hw_params option \<Rightarrow> snd_mask option \<Rightarrow> (int \<times> snd_mask option) option" where
  "snd_pcm_hw_params_get_access_mask params msk =
     (case (params, msk) of
        (Some params, Some _) \<Rightarrow> map_option (\<lambda>m. (0, Some m)) (snd_pcm_hw_param_get_mask params HW_ACCESS)
      | _ \<Rightarrow> Some (- EINVAL, msk))"

definition snd_pcm_hw_params_get_format_mask :: "snd_pcm_hw_params \<Rightarrow> snd_mask option" where
  "snd_pcm_hw_params_get_format_mask params = snd_pcm_hw_param_get_mask params HW_FORMAT"

definition snd_pcm_hw_params_get_subformat_mask :: "snd_pcm_hw_params \<Rightarrow> snd_mask option" where
  "snd_pcm_hw_params_get_subformat_mask params = snd_pcm_hw_param_get_mask params HW_SUBFORMAT"

definition snd_pcm_hw_params_set_rate_resample :: "u32 \<Rightarrow> int" where
  "snd_pcm_hw_params_set_rate_resample val = (if val \<noteq> 0 then - EINVAL else 0)"

definition snd_pcm_hw_params_set_period_wakeup :: "refine_ioctl \<Rightarrow> snd_pcm_hw_params \<Rightarrow> u32 \<Rightarrow> int \<times> snd_pcm_hw_params" where
  "snd_pcm_hw_params_set_period_wakeup k params val =
     (let params = (if val = 0 then params\<lparr>hwp_flags := hwp_flags params OR HW_PARAMS_NO_PERIOD_WAKEUP\<rparr>
                    else params\<lparr>hwp_flags := hwp_flags params AND NOT HW_PARAMS_NO_PERIOD_WAKEUP\<rparr>)
      in snd_pcm_hw_refine k params)"

definition snd_pcm_hw_params_get_period_wakeup :: "snd_pcm_hw_params \<Rightarrow> int \<times> u32" where
  "snd_pcm_hw_params_get_period_wakeup params =
     (0, if hwp_flags params AND HW_PARAMS_NO_PERIOD_WAKEUP \<noteq> 0 then 0 else 1)"

section \<open>Properties of the accessors\<close>

definition reads_back :: "(int \<times> snd_pcm_hw_params) option \<Rightarrow> (snd_pcm_hw_params \<Rightarrow> get_result) \<Rightarrow> u32 \<Rightarrow> bool" where
  "reads_back res get val \<longleftrightarrow> (\<exists>e q. res = Some (e, q) \<and> e \<le> 0 \<and> (e = 0 \<longrightarrow> (\<exists>d. get q = Some (0, Some val, d))))"

definition reads_back64 :: "(int \<times> snd_pcm_hw_params) option \<Rightarrow> (snd_pcm_hw_params \<Rightarrow> get64_result) \<Rightarrow> u64 \<Rightarrow> bool" where
  "reads_back64 res get val \<longleftrightarrow> (\<exists>e q. res = Some (e, q) \<and> e \<le> 0 \<and> (e = 0 \<longrightarrow> (\<exists>d. get q = Some (0, Some val, d))))"

lemma set_reads_back:
  assumes "kernel_narrows k" "ok_space p" "hw_var var" "hw_is_mask var \<longrightarrow> unat val < SND_MASK_MAX"
  shows "reads_back (snd_pcm_hw_param_set k p var val 0) (\<lambda>q. snd_pcm_hw_param_get q var (Some x) dir) val"
proof -
  obtain e q where e: "snd_pcm_hw_param_set k p var val 0 = Some (e, q)" "e \<le> 0"
    "if e = 0 then ok_space q \<and> param_vals q var = {uval val} else q = p"
    using set_exact [OF assms] by blast
  then show ?thesis
    using get_unique [of q var val "Some x" dir] assms(3) by (auto simp: reads_back_def store_if_def)
qed

lemma set_reads_back64:
  assumes "kernel_narrows k" "ok_space p" "hw_is_interval var"
  shows "reads_back64 (snd_pcm_hw_param_set k p var val 0)
           (\<lambda>q. snd_pcm_hw_param_get64 junk q var (Some x) dir) (ucast val)"
proof -
  have "hw_var var" "\<not> hw_is_mask var" using assms(3) by (auto simp: hw_var_def hw_is_mask_def hw_is_interval_def)
  from set_reads_back [OF assms(1,2) this(1), of val junk dir] this(2)
  obtain e q where e: "snd_pcm_hw_param_set k p var val 0 = Some (e, q)" "e \<le> 0"
    "e = 0 \<longrightarrow> (\<exists>d. snd_pcm_hw_param_get q var (Some junk) dir = Some (0, Some val, d))"
    by (auto simp: reads_back_def)
  then show ?thesis
    by (auto simp: reads_back64_def snd_pcm_hw_param_get64_def define_get64_def)
qed

text \<open>Each of the accessors that set one value addresses the parameter its reading counterpart reads:
  when setting access, format, subformat, channels, rate, period time, periods, buffer time or tick
  time succeeds, the corresponding accessor returns the value that was set.\<close>

theorem accessors_read_back:
  assumes "kernel_narrows k" "ok_space p"
  shows "(unat v < SND_MASK_MAX \<longrightarrow>
            reads_back (snd_pcm_hw_params_set_access k p v) (\<lambda>q. snd_pcm_hw_params_get_access q (Some x)) v \<and>
            reads_back (snd_pcm_hw_params_set_format k p v) (\<lambda>q. snd_pcm_hw_params_get_format q (Some x)) v \<and>
            reads_back (snd_pcm_hw_params_set_subformat k p v) (\<lambda>q. snd_pcm_hw_params_get_subformat q (Some x)) v) \<and>
         reads_back (snd_pcm_hw_params_set_channels k p v) (\<lambda>q. snd_pcm_hw_params_get_channels q (Some x)) v \<and>
         reads_back (snd_pcm_hw_params_set_rate k p v 0) (\<lambda>q. snd_pcm_hw_params_get_rate q (Some x) d) v \<and>
         reads_back (snd_pcm_hw_params_set_period_time k p v 0) (\<lambda>q. snd_pcm_hw_params_get_period_time q (Some x) d) v \<and>
         reads_back (snd_pcm_hw_params_set_periods k p v 0) (\<lambda>q. snd_pcm_hw_params_get_periods q (Some x) d) v \<and>
         reads_back (snd_pcm_hw_params_set_buffer_time k p v 0) (\<lambda>q. snd_pcm_hw_params_get_buffer_time q (Some x) d) v \<and>
         reads_back (snd_pcm_hw_params_set_tick_time k p v 0) (\<lambda>q. snd_pcm_hw_params_get_tick_time q (Some x) d) v"
  unfolding snd_pcm_hw_params_set_access_def snd_pcm_hw_params_get_access_def
    snd_pcm_hw_params_set_format_def snd_pcm_hw_params_get_format_def
    snd_pcm_hw_params_set_subformat_def snd_pcm_hw_params_get_subformat_def
    snd_pcm_hw_params_set_channels_def snd_pcm_hw_params_get_channels_def
    snd_pcm_hw_params_set_rate_def snd_pcm_hw_params_get_rate_def
    snd_pcm_hw_params_set_period_time_def snd_pcm_hw_params_get_period_time_def
    snd_pcm_hw_params_set_periods_def snd_pcm_hw_params_get_periods_def
    snd_pcm_hw_params_set_buffer_time_def snd_pcm_hw_params_get_buffer_time_def
    snd_pcm_hw_params_set_tick_time_def snd_pcm_hw_params_get_tick_time_def
  by (intro conjI impI set_reads_back assms) (auto simp: hw_var_def hw_is_mask_def hw_is_interval_def)

theorem accessors_read_back_witness:
  "kernel_narrows plain_kernel \<and> ok_space full_params \<and>
   reads_back (snd_pcm_hw_params_set_channels plain_kernel full_params 2) (\<lambda>q. snd_pcm_hw_params_get_channels q (Some 0)) 2"
  using accessors_read_back [OF plain_kernel_narrows ok_full_params, of 2 0] plain_kernel_narrows ok_full_params by blast

text \<open>The sizes in frames lose their upper half: when setting the period size or the buffer size
  succeeds, the size in effect is the requested one modulo \<open>2\<^sup>3\<^sup>2\<close>, whatever was asked for.\<close>

theorem sizes_truncated:
  assumes "kernel_narrows k" "ok_space p"
  shows "reads_back64 (snd_pcm_hw_params_set_period_size k p v 0)
           (\<lambda>q. snd_pcm_hw_params_get_period_size junk q (Some x) d) (v mod 2 ^ 32) \<and>
         reads_back64 (snd_pcm_hw_params_set_buffer_size k p v)
           (\<lambda>q. snd_pcm_hw_params_get_buffer_size junk q (Some x)) (v mod 2 ^ 32)"
proof -
  have t: "(ucast (ucast v :: u32) :: u64) = v mod 2 ^ 32"
    by (simp add: word_unat_eq_iff unsigned_ucast_eq take_bit_eq_mod unat_mod)
  show ?thesis
    unfolding t [symmetric] snd_pcm_hw_params_set_period_size_def snd_pcm_hw_params_get_period_size_def
      snd_pcm_hw_params_set_buffer_size_def snd_pcm_hw_params_get_buffer_size_def
    by (intro conjI set_reads_back64 assms) (simp_all add: hw_is_interval_def)
qed

theorem sizes_truncated_witness:
  "kernel_narrows plain_kernel \<and> ok_space full_params \<and>
   reads_back64 (snd_pcm_hw_params_set_buffer_size plain_kernel full_params 4294968320)
     (\<lambda>q. snd_pcm_hw_params_get_buffer_size 7 q (Some 0)) 1024"
  using sizes_truncated [OF plain_kernel_narrows ok_full_params, of 4294968320 7 0]
    plain_kernel_narrows ok_full_params by simp

text \<open>Reading a size that is not decided fails, and nevertheless overwrites the caller's variable with
  the uninitialised local variable of the wrapper.\<close>

lemma get64_failure_overwrites:
  assumes "snd_pcm_hw_param_get params HW_BUFFER_SIZE (Some junk) None = Some (e, v, d)" "e < 0"
  shows "snd_pcm_hw_params_get_buffer_size junk params (Some x) = Some (- EINVAL, Some (ucast junk), None)"
  using assms
  by (auto simp: snd_pcm_hw_params_get_buffer_size_def snd_pcm_hw_param_get64_def define_get64_def
      snd_pcm_hw_param_get_def hw_is_mask_def hw_is_interval_def store_if_def split: bind_splits if_splits)

end
