(* ===== verification/Pcm_Format.thy ===== *)
theory Pcm_Format
  imports Salsa_Prelude
begin

text \<open>
  Sample formats: the table and the functions of \<^verbatim>\<open>src/src/pcm_misc.c\<close>, the queries of \<^verbatim>\<open>src/src/pcm_macros.h\<close>
  (lines 2271 to 2380), and the format names of \<^verbatim>\<open>src/src/pcm.c\<close> (lines 302 to 479).

  A format is the number of the C enumeration; a query with a number outside the table has no
  defined result.  Memory is a list of bytes and an address an index into it; a write outside the
  memory has no defined result.
\<close>

section \<open>Memory\<close>

type_synonym memory = "u8 list"

definition mem_read :: "memory \<Rightarrow> nat \<Rightarrow> nat \<Rightarrow> u8 list option" where
  "mem_read mem a n = (if a + n \<le> length mem then Some (take n (drop a mem)) else None)"

definition mem_write :: "memory \<Rightarrow> nat \<Rightarrow> u8 list \<Rightarrow> memory option" where
  "mem_write mem a bs =
     (if a + length bs \<le> length mem then Some (take a mem @ bs @ drop (a + length bs) mem) else None)"

section \<open>The format table\<close>

record snd_pcm_format_data =
  width :: int
  phys :: int
  le :: int
  signd :: int
  silence :: "u8 list"

definition fmt :: "int \<Rightarrow> int \<Rightarrow> int \<Rightarrow> int \<Rightarrow> u8 list \<Rightarrow> snd_pcm_format_data" where
  "fmt w p l s sil = \<lparr>width = w, phys = p, le = l, signd = s, silence = sil\<rparr>"

definition snd_pcm_formats :: "snd_pcm_format_data list" where
  "snd_pcm_formats = [
     fmt (8) (8) (- EINVAL) (1) [0, 0, 0, 0, 0, 0, 0, 0],
     fmt (8) (8) (- EINVAL) (0) [0x80, 0, 0, 0, 0, 0, 0, 0],
     fmt (16) (16) (1) (1) [0, 0, 0, 0, 0, 0, 0, 0],
     fmt (16) (16) (0) (1) [0, 0, 0, 0, 0, 0, 0, 0],
     fmt (16) (16) (1) (0) [0x00, 0x80, 0, 0, 0, 0, 0, 0],
     fmt (16) (16) (0) (0) [0x80, 0x00, 0, 0, 0, 0, 0, 0],
     fmt (24) (32) (1) (1) [0, 0, 0, 0, 0, 0, 0, 0],
     fmt (24) (32) (0) (1) [0, 0, 0, 0, 0, 0, 0, 0],
     fmt (24) (32) (1) (0) [0x00, 0x00, 0x80, 0x00, 0, 0, 0, 0],
     fmt (24) (32) (0) (0) [0x00, 0x80, 0x00, 0x00, 0, 0, 0, 0],
     fmt (32) (32) (1) (1) [0, 0, 0, 0, 0, 0, 0, 0],
     fmt (32) (32) (0) (1) [0, 0, 0, 0, 0, 0, 0, 0],
     fmt (32) (32) (1) (0) [0x00, 0x00, 0x00, 0x80, 0, 0, 0, 0],
     fmt (32) (32) (0) (0) [0x80, 0x00, 0x00, 0x00, 0, 0, 0, 0],
     fmt (32) (32) (1) (- EINVAL) [0, 0, 0, 0, 0, 0, 0, 0],
     fmt (32) (32) (0) (- EINVAL) [0, 0, 0, 0, 0, 0, 0, 0],
     fmt (64) (64) (1) (- EINVAL) [0, 0, 0, 0, 0, 0, 0, 0],
     fmt (64) (64) (0) (- EINVAL) [0, 0, 0, 0, 0, 0, 0, 0],
     fmt (32) (32) (1) (- EINVAL) [0, 0, 0, 0, 0, 0, 0, 0],
     fmt (32) (32) (0) (- EINVAL) [0, 0, 0, 0, 0, 0, 0, 0],
     fmt (8) (8) (- EINVAL) (- EINVAL) [0x7f, 0, 0, 0, 0, 0, 0, 0],
     fmt (8) (8) (- EINVAL) (- EINVAL) [0x55, 0, 0, 0, 0, 0, 0, 0],
     fmt (4) (4) (- EINVAL) (- EINVAL) [0, 0, 0, 0, 0, 0, 0, 0],
     fmt (- EINVAL) (- EINVAL) (- EINVAL) (- EINVAL) [0, 0, 0, 0, 0, 0, 0, 0],
     fmt (- EINVAL) (- EINVAL) (- EINVAL) (- EINVAL) [0, 0, 0, 0, 0, 0, 0, 0],
     fmt (- EINVAL) (- EINVAL) (- EINVAL) (- EINVAL) [0, 0, 0, 0, 0, 0, 0, 0],
     fmt (- EINVAL) (- EINVAL) (- EINVAL) (- EINVAL) [0, 0, 0, 0, 0, 0, 0, 0],
     fmt (- EINVAL) (- EINVAL) (- EINVAL) (- EINVAL) [0, 0, 0, 0, 0, 0, 0, 0],
     fmt (- EINVAL) (- EINVAL) (- EINVAL) (- EINVAL) [0, 0, 0, 0, 0, 0, 0, 0],
     fmt (- EINVAL) (- EINVAL) (- EINVAL) (- EINVAL) [0, 0, 0, 0, 0, 0, 0, 0],
     fmt (- EINVAL) (- EINVAL) (- EINVAL) (- EINVAL) [0, 0, 0, 0, 0, 0, 0, 0],
     fmt (- EINVAL) (- EINVAL) (- EINVAL) (- EINVAL) [0, 0, 0, 0, 0, 0, 0, 0],
     fmt (24) (24) (1) (1) [0, 0, 0, 0, 0, 0, 0, 0],
     fmt (24) (24) (0) (1) [0, 0, 0, 0, 0, 0, 0, 0],
     fmt (24) (24) (1) (0) [0x00, 0x00, 0x80, 0, 0, 0, 0, 0],
     fmt (24) (24) (0) (0) [0x80, 0x00, 0x00, 0, 0, 0, 0, 0],
     fmt (20) (24) (1) (1) [0, 0, 0, 0, 0, 0, 0, 0],
     fmt (20) (24) (0) (1) [0, 0, 0, 0, 0, 0, 0, 0],
     fmt (20) (24) (1) (0) [0x00, 0x00, 0x08, 0, 0, 0, 0, 0],
     fmt (20) (24) (0) (0) [0x08, 0x00, 0x00, 0, 0, 0, 0, 0],
     fmt (18) (24) (1) (1) [0, 0, 0, 0, 0, 0, 0, 0],
     fmt (18) (24) (0) (1) [0, 0, 0, 0, 0, 0, 0, 0],
     fmt (18) (24) (1) (0) [0x00, 0x00, 0x02, 0, 0, 0, 0, 0],
     fmt (18) (24) (0) (0) [0x02, 0x00, 0x00, 0, 0, 0, 0, 0],
     fmt (3) (3) (- 1) (- 1) [0, 0, 0, 0, 0, 0, 0, 0],
     fmt 0 0 0 0 [0, 0, 0, 0, 0, 0, 0, 0],
     fmt (5) (5) (- 1) (- 1) [0, 0, 0, 0, 0, 0, 0, 0],
     fmt 0 0 0 0 [0, 0, 0, 0, 0, 0, 0, 0],
     fmt (8) (8) (1) (0) [0x69, 0, 0, 0, 0, 0, 0, 0],
     fmt (16) (16) (1) (0) [0x69, 0x69, 0, 0, 0, 0, 0, 0],
     fmt (32) (32) (1) (0) [0x69, 0x69, 0x69, 0x69, 0, 0, 0, 0],
     fmt (16) (16) (0) (0) [0x69, 0x69, 0, 0, 0, 0, 0, 0],
     fmt (32) (32) (0) (0) [0x69, 0x69, 0x69, 0x69, 0, 0, 0, 0]]"

definition format_data :: "int \<Rightarrow> snd_pcm_format_data option" where
  "format_data format = (if format < 0 then None else array_get snd_pcm_formats (nat format))"

definition snd_pcm_format_signed :: "int \<Rightarrow> int option" where
  "snd_pcm_format_signed format = map_option signd (format_data format)"

definition snd_pcm_format_unsigned :: "int \<Rightarrow> int option" where
  "snd_pcm_format_unsigned format =
     map_option (\<lambda>val. if val < 0 then val else of_bool (val = 0)) (snd_pcm_format_signed format)"

definition snd_pcm_format_linear :: "int \<Rightarrow> int option" where
  "snd_pcm_format_linear format = map_option (\<lambda>val. of_bool (val \<ge> 0)) (snd_pcm_format_signed format)"

definition snd_pcm_format_float :: "int \<Rightarrow> int" where
  "snd_pcm_format_float format = (if format \<in> {14, 15, 16, 17} then 1 else 0)"

definition snd_pcm_format_little_endian :: "int \<Rightarrow> int option" where
  "snd_pcm_format_little_endian format = map_option le (format_data format)"

definition snd_pcm_format_big_endian :: "int \<Rightarrow> int option" where
  "snd_pcm_format_big_endian format =
     map_option (\<lambda>val. if val < 0 then val else of_bool (val = 0)) (snd_pcm_format_little_endian format)"

definition snd_pcm_format_cpu_endian :: "int \<Rightarrow> int option" where
  "snd_pcm_format_cpu_endian format = snd_pcm_format_little_endian format"

definition snd_pcm_format_width :: "int \<Rightarrow> int option" where
  "snd_pcm_format_width format = map_option width (format_data format)"

definition snd_pcm_format_physical_width :: "int \<Rightarrow> int option" where
  "snd_pcm_format_physical_width format = map_option phys (format_data format)"

text \<open>\<^verbatim>\<open>samples * phys_width / 8\<close> is computed in 64-bit unsigned arithmetic and returned as \<^verbatim>\<open>ssize_t\<close>.\<close>

definition snd_pcm_format_size :: "int \<Rightarrow> u64 \<Rightarrow> int option" where
  "snd_pcm_format_size format samples =
     map_option (\<lambda>phys_width. if phys_width < 0 then - EINVAL
                              else sint (samples * of_int phys_width div 8))
       (snd_pcm_format_physical_width format)"

section \<open>Silence\<close>

text \<open>The inner loop of \<^verbatim>\<open>snd_pcm_format_silence_64\<close> and the loop around it.\<close>

primrec silence_inner :: "u8 list \<Rightarrow> nat list \<Rightarrow> u64 \<Rightarrow> u64 option" where
  "silence_inner pat [] sil = Some sil"
| "silence_inner pat (i # is) sil = do {
     b \<leftarrow> array_get pat i;
     silence_inner pat is ((push_bit 8 sil) OR ucast b) }"

function silence_outer :: "u8 list \<Rightarrow> nat \<Rightarrow> nat \<Rightarrow> u64 \<Rightarrow> u64 option" where
  "silence_outer pat p w sil =
     (if p < w then silence_inner pat [0..<w] sil \<bind> silence_outer pat (p + w) w else Some sil)"
  by pat_completeness auto
termination by (relation "measure (\<lambda>(_, p, w, _). w - p)") auto

definition snd_pcm_format_silence_64 :: "int \<Rightarrow> u64 option" where
  "snd_pcm_format_silence_64 format = do {
     f \<leftarrow> format_data format;
     (if phys f \<le> 0 then Some 0
      else silence_outer (silence f) 0 (nat (width f sdiv 8)) 0) }"

definition snd_pcm_format_silence_32 :: "int \<Rightarrow> u32 option" where
  "snd_pcm_format_silence_32 format = map_option ucast (snd_pcm_format_silence_64 format)"

definition snd_pcm_format_silence_16 :: "int \<Rightarrow> u16 option" where
  "snd_pcm_format_silence_16 format = map_option ucast (snd_pcm_format_silence_64 format)"

definition snd_pcm_format_silence :: "int \<Rightarrow> u8 option" where
  "snd_pcm_format_silence format = map_option ucast (snd_pcm_format_silence_64 format)"

primrec set_silence_loop :: "nat \<Rightarrow> u8 list \<Rightarrow> nat \<Rightarrow> memory \<Rightarrow> nat \<Rightarrow> memory option" where
  "set_silence_loop 0 pat w mem dst = Some mem"
| "set_silence_loop (Suc samples) pat w mem dst = do {
     bs \<leftarrow> mem_read pat 0 w;
     mem \<leftarrow> mem_write mem dst bs;
     set_silence_loop samples pat w mem (dst + w) }"

definition snd_pcm_format_set_silence :: "int \<Rightarrow> memory \<Rightarrow> nat \<Rightarrow> u32 \<Rightarrow> (int \<times> memory) option" where
  "snd_pcm_format_set_silence format mem data samples =
     (if samples = 0 then Some (0, mem)
      else do {
        f \<leftarrow> format_data format;
        let wd = phys f;
        (if wd \<le> 0 then Some (- EINVAL, mem)
         else if signd f = 1 \<or> wd \<le> 8 then do {
           pat0 \<leftarrow> array_get (silence f) 0;
           let bytes = samples * of_int wd div 8;
           mem \<leftarrow> mem_write mem data (replicate (unat bytes) pat0);
           Some (0, mem) }
         else do {
           mem \<leftarrow> set_silence_loop (unat samples) (silence f) (nat (wd sdiv 8)) mem data;
           Some (0, mem) }) })"

section \<open>Building a linear format\<close>

definition linear_formats :: "int list list list" where
  "linear_formats = [[[0, 0], [1, 1]], [[2, 3], [4, 5]], [[6, 7], [8, 9]], [[10, 11], [12, 13]]]"

definition linear24_formats :: "int list list list" where
  "linear24_formats = [[[32, 33], [34, 35]], [[36, 37], [38, 39]], [[40, 41], [42, 43]]]"

definition snd_pcm_build_linear_format :: "int \<Rightarrow> int \<Rightarrow> int \<Rightarrow> int \<Rightarrow> int" where
  "snd_pcm_build_linear_format wd pwidth unsignd big_endian =
     (let u = of_bool (unsignd \<noteq> 0); b = of_bool (big_endian \<noteq> 0) in
      if pwidth = 24 then
        if wd = 24 then linear24_formats ! 0 ! u ! b
        else if wd = 20 then linear24_formats ! 1 ! u ! b
        else if wd = 18 then linear24_formats ! 2 ! u ! b
        else - 1
      else
        if wd = 8 then linear_formats ! 0 ! u ! b
        else if wd = 16 then linear_formats ! 1 ! u ! b
        else if wd = 24 then linear_formats ! 2 ! u ! b
        else if wd = 32 then linear_formats ! 3 ! u ! b
        else - 1)"

section \<open>Names\<close>

definition snd_pcm_format_names :: "string option list" where
  "snd_pcm_format_names = [
     Some ''S8'', Some ''U8'', Some ''S16_LE'', Some ''S16_BE'', Some ''U16_LE'', Some ''U16_BE'', Some ''S24_LE'',
     Some ''S24_BE'', Some ''U24_LE'', Some ''U24_BE'', Some ''S32_LE'', Some ''S32_BE'', Some ''U32_LE'',
     Some ''U32_BE'', Some ''FLOAT_LE'', Some ''FLOAT_BE'', Some ''FLOAT64_LE'', Some ''FLOAT64_BE'',
     Some ''IEC958_SUBFRAME_LE'', Some ''IEC958_SUBFRAME_BE'', Some ''MU_LAW'', Some ''A_LAW'', Some ''IMA_ADPCM'',
     Some ''MPEG'', Some ''GSM'', None, None, None, None, None, None, Some ''SPECIAL'', Some ''S24_3LE'',
     Some ''S24_3BE'', Some ''U24_3LE'', Some ''U24_3BE'', Some ''S20_3LE'', Some ''S20_3BE'', Some ''U20_3LE'',
     Some ''U20_3BE'', Some ''S18_3LE'', Some ''S18_3BE'', Some ''U18_3LE'', Some ''U18_3BE'', Some ''G723_24'',
     Some ''G723_24_1B'', Some ''G723_40'', Some ''G723_40_1B'', Some ''DSD_U8'', Some ''DSD_U16_LE'',
     Some ''DSD_U32_LE'', Some ''DSD_U16_BE'', Some ''DSD_U32_BE'']"

definition snd_pcm_format_aliases :: "string option list" where
  "snd_pcm_format_aliases = [
     None, None, Some ''S16'', None, Some ''U16'', None, Some ''S24'', None, Some ''U24'', None, Some ''S32'',
     None, Some ''U32'', None, Some ''FLOAT'', None, Some ''FLOAT64'', None, Some ''IEC958_SUBFRAME'', None, None,
     None, None, None, None, None, None, None, None, None, None, None, None, None, None, None, None, None, None,
     None, None, None, None, None, None, None, None, None, None, None, None, None, None]"

definition snd_pcm_format_descriptions :: "string option list" where
  "snd_pcm_format_descriptions = [
     Some ''Signed 8 bit'', Some ''Unsigned 8 bit'', Some ''Signed 16 bit Little Endian'',
     Some ''Signed 16 bit Big Endian'', Some ''Unsigned 16 bit Little Endian'',
     Some ''Unsigned 16 bit Big Endian'', Some ''Signed 24 bit Little Endian'', Some ''Signed 24 bit Big Endian'',
     Some ''Unsigned 24 bit Little Endian'', Some ''Unsigned 24 bit Big Endian'',
     Some ''Signed 32 bit Little Endian'', Some ''Signed 32 bit Big Endian'',
     Some ''Unsigned 32 bit Little Endian'', Some ''Unsigned 32 bit Big Endian'',
     Some ''Float 32 bit Little Endian'', Some ''Float 32 bit Big Endian'', Some ''Float 64 bit Little Endian'',
     Some ''Float 64 bit Big Endian'', Some ''IEC-958 Little Endian'', Some ''IEC-958 Big Endian'',
     Some ''Mu-Law'', Some ''A-Law'', Some ''Ima-ADPCM'', Some ''MPEG'', Some ''GSM'', None, None, None, None,
     None, None, Some ''Special'', Some ''Signed 24 bit Little Endian in 3bytes'',
     Some ''Signed 24 bit Big Endian in 3bytes'', Some ''Unsigned 24 bit Little Endian in 3bytes'',
     Some ''Unsigned 24 bit Big Endian in 3bytes'', Some ''Signed 20 bit Little Endian in 3bytes'',
     Some ''Signed 20 bit Big Endian in 3bytes'', Some ''Unsigned 20 bit Little Endian in 3bytes'',
     Some ''Unsigned 20 bit Big Endian in 3bytes'', Some ''Signed 18 bit Little Endian in 3bytes'',
     Some ''Signed 18 bit Big Endian in 3bytes'', Some ''Unsigned 18 bit Little Endian in 3bytes'',
     Some ''Unsigned 18 bit Big Endian in 3bytes'', Some ''G.723 (ADPCM) 24 kbit/s, 8 samples in 3 bytes'',
     Some ''G.723 (ADPCM) 24 kbit/s, 1 sample in 1 byte'', Some ''G.723 (ADPCM) 40 kbit/s, 8 samples in 3 bytes'',
     Some ''G.723 (ADPCM) 40 kbit/s, 1 sample in 1 byte'',
     Some ''Direct Stream Digital (DSD) in 1-byte samples (x8)'',
     Some ''Direct Stream Digital (DSD) in 2-byte samples (x16)'',
     Some ''Direct Stream Digital (DSD) in 4-byte samples (x32)'',
     Some ''Direct Stream Digital (DSD) in 2-byte samples (x16)'',
     Some ''Direct Stream Digital (DSD) in 4-byte samples (x32)'']"

text \<open>\<^verbatim>\<open>tolower\<close> in the C locale, and \<^verbatim>\<open>strcasecmp(a, b) == 0\<close>.\<close>

definition tolower :: "char \<Rightarrow> char" where
  "tolower c = (if 65 \<le> (of_char c :: nat) \<and> (of_char c :: nat) \<le> 90 then char_of ((of_char c :: nat) + 32) else c)"

definition strcaseeq :: "string \<Rightarrow> string \<Rightarrow> bool" where
  "strcaseeq a b \<longleftrightarrow> map tolower a = map tolower b"

definition entry_matches :: "string option list \<Rightarrow> string \<Rightarrow> nat \<Rightarrow> bool" where
  "entry_matches names name format = (case names ! format of None \<Rightarrow> False | Some n \<Rightarrow> strcaseeq name n)"

primrec format_value_loop1 :: "string \<Rightarrow> nat list \<Rightarrow> int option" where
  "format_value_loop1 name [] = None"
| "format_value_loop1 name (format # formats) =
     (if entry_matches snd_pcm_format_names name format then Some (int format)
      else if entry_matches snd_pcm_format_aliases name format then Some (int format)
      else format_value_loop1 name formats)"

primrec format_value_loop2 :: "string \<Rightarrow> nat list \<Rightarrow> int option" where
  "format_value_loop2 name [] = None"
| "format_value_loop2 name (format # formats) =
     (if entry_matches snd_pcm_format_descriptions name format then Some (int format)
      else format_value_loop2 name formats)"

definition snd_pcm_format_value :: "string \<Rightarrow> int" where
  "snd_pcm_format_value name =
     (case format_value_loop1 name [0..<53] of
        Some f \<Rightarrow> f
      | None \<Rightarrow> (case format_value_loop2 name [0..<53] of Some f \<Rightarrow> f | None \<Rightarrow> - 1))"

definition snd_pcm_format_name :: "int \<Rightarrow> string option option" where
  "snd_pcm_format_name format = (if format < 0 then None else array_get snd_pcm_format_names (nat format))"

definition snd_pcm_format_description :: "int \<Rightarrow> string option option" where
  "snd_pcm_format_description format = (if format < 0 then None else array_get snd_pcm_format_descriptions (nat format))"

lemma tolower_simps [simp]:
  "tolower CHR '' '' = CHR '' ''"
  "tolower CHR ''('' = CHR ''(''"
  "tolower CHR '')'' = CHR '')''"
  "tolower CHR '','' = CHR '',''"
  "tolower CHR ''-'' = CHR ''-''"
  "tolower CHR ''.'' = CHR ''.''"
  "tolower CHR ''/'' = CHR ''/''"
  "tolower CHR ''0'' = CHR ''0''"
  "tolower CHR ''1'' = CHR ''1''"
  "tolower CHR ''2'' = CHR ''2''"
  "tolower CHR ''3'' = CHR ''3''"
  "tolower CHR ''4'' = CHR ''4''"
  "tolower CHR ''5'' = CHR ''5''"
  "tolower CHR ''6'' = CHR ''6''"
  "tolower CHR ''7'' = CHR ''7''"
  "tolower CHR ''8'' = CHR ''8''"
  "tolower CHR ''9'' = CHR ''9''"
  "tolower CHR ''A'' = CHR ''a''"
  "tolower CHR ''B'' = CHR ''b''"
  "tolower CHR ''C'' = CHR ''c''"
  "tolower CHR ''D'' = CHR ''d''"
  "tolower CHR ''E'' = CHR ''e''"
  "tolower CHR ''F'' = CHR ''f''"
  "tolower CHR ''G'' = CHR ''g''"
  "tolower CHR ''I'' = CHR ''i''"
  "tolower CHR ''L'' = CHR ''l''"
  "tolower CHR ''M'' = CHR ''m''"
  "tolower CHR ''O'' = CHR ''o''"
  "tolower CHR ''P'' = CHR ''p''"
  "tolower CHR ''R'' = CHR ''r''"
  "tolower CHR ''S'' = CHR ''s''"
  "tolower CHR ''T'' = CHR ''t''"
  "tolower CHR ''U'' = CHR ''u''"
  "tolower CHR ''W'' = CHR ''w''"
  "tolower CHR ''_'' = CHR ''_''"
  "tolower CHR ''a'' = CHR ''a''"
  "tolower CHR ''b'' = CHR ''b''"
  "tolower CHR ''c'' = CHR ''c''"
  "tolower CHR ''d'' = CHR ''d''"
  "tolower CHR ''e'' = CHR ''e''"
  "tolower CHR ''g'' = CHR ''g''"
  "tolower CHR ''i'' = CHR ''i''"
  "tolower CHR ''k'' = CHR ''k''"
  "tolower CHR ''l'' = CHR ''l''"
  "tolower CHR ''m'' = CHR ''m''"
  "tolower CHR ''n'' = CHR ''n''"
  "tolower CHR ''o'' = CHR ''o''"
  "tolower CHR ''p'' = CHR ''p''"
  "tolower CHR ''r'' = CHR ''r''"
  "tolower CHR ''s'' = CHR ''s''"
  "tolower CHR ''t'' = CHR ''t''"
  "tolower CHR ''u'' = CHR ''u''"
  "tolower CHR ''w'' = CHR ''w''"
  "tolower CHR ''x'' = CHR ''x''"
  "tolower CHR ''y'' = CHR ''y''"
  by (simp_all add: tolower_def of_char_def char_of_def bit_Suc_0_iff)

definition lower_names :: "string option list" where
  "lower_names = [
     Some ''s8'', Some ''u8'', Some ''s16_le'', Some ''s16_be'', Some ''u16_le'', Some ''u16_be'', Some ''s24_le'',
     Some ''s24_be'', Some ''u24_le'', Some ''u24_be'', Some ''s32_le'', Some ''s32_be'', Some ''u32_le'',
     Some ''u32_be'', Some ''float_le'', Some ''float_be'', Some ''float64_le'', Some ''float64_be'',
     Some ''iec958_subframe_le'', Some ''iec958_subframe_be'', Some ''mu_law'', Some ''a_law'', Some ''ima_adpcm'',
     Some ''mpeg'', Some ''gsm'', None, None, None, None, None, None, Some ''special'', Some ''s24_3le'',
     Some ''s24_3be'', Some ''u24_3le'', Some ''u24_3be'', Some ''s20_3le'', Some ''s20_3be'', Some ''u20_3le'',
     Some ''u20_3be'', Some ''s18_3le'', Some ''s18_3be'', Some ''u18_3le'', Some ''u18_3be'', Some ''g723_24'',
     Some ''g723_24_1b'', Some ''g723_40'', Some ''g723_40_1b'', Some ''dsd_u8'', Some ''dsd_u16_le'',
     Some ''dsd_u32_le'', Some ''dsd_u16_be'', Some ''dsd_u32_be'']"

definition lower_aliases :: "string option list" where
  "lower_aliases = [
     None, None, Some ''s16'', None, Some ''u16'', None, Some ''s24'', None, Some ''u24'', None, Some ''s32'',
     None, Some ''u32'', None, Some ''float'', None, Some ''float64'', None, Some ''iec958_subframe'', None, None,
     None, None, None, None, None, None, None, None, None, None, None, None, None, None, None, None, None, None,
     None, None, None, None, None, None, None, None, None, None, None, None, None, None]"

lemma lower_aliases: "map (map_option (map tolower)) snd_pcm_format_aliases = lower_aliases"
  by (simp add: snd_pcm_format_aliases_def lower_aliases_def)

lemma lower_names: "map (map_option (map tolower)) snd_pcm_format_names = lower_names"
  by (simp add: snd_pcm_format_names_def lower_names_def)

lemma lower_names_distinct: "distinct (filter (\<lambda>x. x \<noteq> None) lower_names)"
  by (simp add: lower_names_def)

lemma lower_aliases_fresh: "list_all (\<lambda>x. x = None \<or> x \<notin> set lower_names) lower_aliases"
  by (simp add: lower_names_def lower_aliases_def)

lemma table_lengths [simp]:
  "length snd_pcm_formats = 53" "length snd_pcm_format_names = 53" "length snd_pcm_format_aliases = 53"
  "length lower_names = 53" "length lower_aliases = 53"
  by (simp_all add: snd_pcm_formats_def snd_pcm_format_names_def snd_pcm_format_aliases_def lower_names_def lower_aliases_def)

lemma entry_matches_lower:
  assumes "f < length names"
  shows "entry_matches names name f \<longleftrightarrow> map (map_option (map tolower)) names ! f = Some (map tolower name)"
  using assms by (auto simp: entry_matches_def strcaseeq_def split: option.splits)

lemma filter_distinct_nth:
  assumes "distinct (filter P xs)" "i < length xs" "j < length xs" "P (xs ! i)" "xs ! i = xs ! j"
  shows "i = j"
proof (rule ccontr)
  assume "i \<noteq> j"
  then consider "i < j" | "j < i" by linarith
  then show False
  proof cases
    case 1
    have "xs = take j xs @ xs ! j # drop (Suc j) xs" using assms(3) by (rule id_take_nth_drop)
    then have "distinct (filter P (take j xs) @ filter P (xs ! j # drop (Suc j) xs))"
      using assms(1) by (metis filter_append)
    moreover have "xs ! i \<in> set (filter P (take j xs))" using 1 assms by (auto simp: in_set_conv_nth)
    ultimately show False using assms(4,5) by auto
  next
    case 2
    have "xs = take i xs @ xs ! i # drop (Suc i) xs" using assms(2) by (rule id_take_nth_drop)
    then have "distinct (filter P (take i xs) @ filter P (xs ! i # drop (Suc i) xs))"
      using assms(1) by (metis filter_append)
    moreover have "xs ! j \<in> set (filter P (take i xs))" using 2 assms by (auto simp: in_set_conv_nth)
    ultimately show False using assms(4,5) by auto
  qed
qed

lemma loop1_first:
  assumes "f \<in> set fs" "entry_matches snd_pcm_format_names name f"
    and "\<And>g. g \<in> set fs \<Longrightarrow> g \<noteq> f \<Longrightarrow> \<not> entry_matches snd_pcm_format_names name g"
    and "\<And>g. g \<in> set fs \<Longrightarrow> \<not> entry_matches snd_pcm_format_aliases name g"
  shows "format_value_loop1 name fs = Some (int f)"
  using assms by (induction fs) auto

section \<open>Properties of the formats\<close>

text \<open>Looking up the name of a format, in any mixture of upper and lower case, gives the format back;
  no alias and no earlier name gets in the way.\<close>

theorem format_name_roundtrip:
  assumes "snd_pcm_format_name f = Some (Some n)" "map tolower name = map tolower n"
  shows "snd_pcm_format_value name = f"
proof -
  have f: "nat f < 53" "0 \<le> f" "snd_pcm_format_names ! nat f = Some n"
    using assms(1) by (auto simp: snd_pcm_format_name_def array_get_eq_Some split: if_splits)
  have at: "lower_names ! g = map_option (map tolower) (snd_pcm_format_names ! g)" if "g < 53" for g
    using that unfolding lower_names [symmetric] by simp
  have lf: "lower_names ! nat f = Some (map tolower name)" using at [OF f(1)] f(3) assms(2) by simp
  have "format_value_loop1 name [0..<53] = Some (int (nat f))"
  proof (rule loop1_first)
    show "nat f \<in> set [0..<53]" using f(1) by simp
    show "entry_matches snd_pcm_format_names name (nat f)"
      using lf f(1) by (simp add: entry_matches_lower lower_names)
    show "\<not> entry_matches snd_pcm_format_names name g" if "g \<in> set [0..<53]" "g \<noteq> nat f" for g
    proof
      assume "entry_matches snd_pcm_format_names name g"
      then have "lower_names ! g = lower_names ! nat f" using that lf by (simp add: entry_matches_lower lower_names)
      with filter_distinct_nth [OF lower_names_distinct, of "nat f" g] that f(1) lf show False by simp
    qed
    show "\<not> entry_matches snd_pcm_format_aliases name g" if "g \<in> set [0..<53]" for g
    proof
      assume "entry_matches snd_pcm_format_aliases name g"
      then have "lower_aliases ! g = lower_names ! nat f" using that lf by (simp add: entry_matches_lower lower_aliases)
      moreover have "lower_aliases ! g = None \<or> lower_aliases ! g \<notin> set lower_names"
        using lower_aliases_fresh that by (auto simp: list_all_length)
      ultimately show False using lf f(1) nth_mem [of "nat f" lower_names] by auto
    qed
  qed
  then show ?thesis using f(2) by (simp add: snd_pcm_format_value_def)
qed

theorem format_name_roundtrip_witness:
  "snd_pcm_format_name 2 = Some (Some ''S16_LE'') \<and> snd_pcm_format_value ''s16_Le'' = 2"
proof -
  have "snd_pcm_format_name 2 = Some (Some ''S16_LE'')"
    by (simp add: snd_pcm_format_name_def snd_pcm_format_names_def)
  with format_name_roundtrip [OF this, of "''s16_Le''"] show ?thesis by simp
qed

lemma format_data_cases:
  "format_data f = Some d \<longleftrightarrow> 0 \<le> f \<and> f < 53 \<and> d = snd_pcm_formats ! nat f"
  by (auto simp: format_data_def array_get_eq_Some)

definition entry_ok :: "snd_pcm_format_data \<Rightarrow> bool" where
  "entry_ok d \<longleftrightarrow> length (silence d) = 8 \<and> phys d \<le> 64 \<and> (signd d = 1 \<longrightarrow> silence d = replicate 8 0)"

lemma table_ok: "list_all entry_ok snd_pcm_formats"
  by (simp add: snd_pcm_formats_def fmt_def entry_ok_def numeral_eq_Suc)

lemma format_data_ok: "format_data f = Some d \<Longrightarrow> entry_ok d"
  using table_ok by (auto simp: format_data_cases list_all_length)

lemma mem_write_length: "mem_write mem a bs = Some mem' \<Longrightarrow> length mem' = length mem"
  by (auto simp: mem_write_def split: if_splits)

lemma set_silence_loop_eq:
  assumes "w \<le> length pat" "dst + n * w \<le> length mem"
  shows "set_silence_loop n pat w mem dst =
    Some (take dst mem @ concat (replicate n (take w pat)) @ drop (dst + n * w) mem)"
  using assms(2)
proof (induction n arbitrary: mem dst)
  case (Suc n)
  let ?mem = "take dst mem @ take w pat @ drop (dst + w) mem"
  have len: "length ?mem = length mem" using Suc.prems assms(1) by auto
  have "mem_write mem dst (take w pat) = Some ?mem"
    using Suc.prems assms(1) by (simp add: mem_write_def)
  moreover have "mem_read pat 0 w = Some (take w pat)" using assms(1) by (simp add: mem_read_def)
  moreover have "take (dst + w) ?mem = take dst mem @ take w pat" using Suc.prems assms(1) by simp
  moreover have "drop (dst + w + n * w) ?mem = drop (dst + Suc n * w) mem"
    using Suc.prems assms(1) by (simp add: algebra_simps)
  moreover have "dst + w + n * w \<le> length ?mem" unfolding len using Suc.prems by simp
  ultimately show ?case using Suc.IH [of "dst + w" ?mem] assms(1) by (simp add: min_absorb2 algebra_simps)
qed simp

lemma concat_replicate_zero: "concat (replicate n (replicate w x)) = replicate (n * w) x"
  by (induction n) (simp_all add: replicate_add)

text \<open>\<^verbatim>\<open>snd_pcm_format_set_silence\<close> fills exactly the bytes of the samples with the silence pattern of the
  format, for every format that takes whole bytes, and changes no other byte.\<close>

theorem set_silence_fills:
  assumes "format_data f = Some d" "0 < phys d" "8 dvd phys d"
    and "unat samples * nat (phys d) < 2 ^ 32" "data + unat samples * nat (phys d div 8) \<le> length mem"
  shows "snd_pcm_format_set_silence f mem data samples =
    Some (0, take data mem @ concat (replicate (unat samples) (take (nat (phys d div 8)) (silence d))) @
             drop (data + unat samples * nat (phys d div 8)) mem)"
proof (cases "samples = 0")
  case True
  then show ?thesis by (simp add: snd_pcm_format_set_silence_def)
next
  case False
  note e = format_data_ok [OF assms(1), unfolded entry_ok_def]
  obtain w where w: "phys d = 8 * int w" "0 < w" using assms(2,3) by (metis dvdE mult_pos_pos nonneg_int_cases not_less zero_less_mult_pos less_imp_le of_nat_0_less_iff zero_less_numeral)
  have w8: "w \<le> 8" using e w by simp
  have wd: "phys d div 8 = int w" "phys d sdiv 8 = int w" using w by (simp_all add: signed_divide_int_def)
  show ?thesis
  proof (cases "signd d = 1 \<or> phys d \<le> 8")
    case True
    have small: "unat samples * (8 * w) < 2 ^ 32" using assms(4) w by (simp add: nat_mult_distrib)
    have "unat (samples * of_int (phys d)) = unat samples * (8 * w)"
      using small w8 unfolding w(1) by (simp add: unat_mult_lem [THEN iffD1] unat_word_ariths unsigned_of_nat take_bit_eq_mod)
    then have bytes: "unat (samples * of_int (phys d) div 8) = unat samples * w"
      by (simp add: unat_div)
    have hd: "array_get (silence d) 0 = Some (silence d ! 0)" using e by simp
    have pat: "take w (silence d) = replicate w (silence d ! 0)"
    proof (cases "signd d = 1")
      case True
      then show ?thesis using e w8 by (simp add: min_absorb1)
    next
      case False
      then have "w = 1" using True w by simp
      then show ?thesis using e by (cases "silence d") simp_all
    qed
    then show ?thesis
      using False True hd bytes assms(1,2,5) wd
      by (simp add: snd_pcm_format_set_silence_def mem_write_def concat_replicate_zero)
  next
    case nz: False
    then show ?thesis
      using False assms(1,2,5) wd e w8 set_silence_loop_eq [of w "silence d" data "unat samples" mem]
      by (simp add: snd_pcm_format_set_silence_def)
  qed
qed

lemma format_data_U16_LE: "format_data 4 = Some (fmt 16 16 1 0 [0, 0x80, 0, 0, 0, 0, 0, 0])"
  by (simp add: format_data_def snd_pcm_formats_def)

theorem set_silence_fills_witness:
  "snd_pcm_format_set_silence 4 (replicate 8 7) 2 2 = Some (0, [7, 7, 0, 0x80, 0, 0x80, 7, 7])"
proof -
  have "take 2 (replicate 8 7) @ concat (replicate 2 (take 2 [0, 0x80, 0, 0, 0, 0, 0, 0])) @ drop 6 (replicate 8 7) =
      [7, 7, 0, 0x80, 0, 0x80, 7, 7 :: u8]" by code_simp
  with set_silence_fills [OF format_data_U16_LE, of 2 2 "replicate 8 7"] show ?thesis
    by (simp add: fmt_def)
qed

text \<open>C2. The silence patterns of the linear formats are the middle of the range of values: read with the
  byte order of the format, the pattern is 0 for a signed and \<open>2 ^ (width - 1)\<close> for an unsigned format,
  the three-byte and padded formats included.\<close>

primrec le_value :: "u8 list \<Rightarrow> nat" where
  "le_value [] = 0"
| "le_value (b # bs) = unat b + 256 * le_value bs"

definition silence_value :: "snd_pcm_format_data \<Rightarrow> nat" where
  "silence_value d = (let bs = take (nat (phys d div 8)) (silence d) in le_value (if le d = 0 then rev bs else bs))"

lemma table_silence:
  "list_all (\<lambda>d. phys d \<le> 0 \<or> signd d < 0 \<or> silence_value d = (if signd d = 1 then 0 else 2 ^ (nat (width d) - 1)))
     (take 48 snd_pcm_formats)"
  by (simp add: snd_pcm_formats_def fmt_def silence_value_def)

theorem silence_is_midpoint:
  assumes "format_data f = Some d" "f < 48" "0 < phys d" "snd_pcm_format_linear f = Some 1"
  shows "silence_value d = (if snd_pcm_format_signed f = Some 1 then 0 else 2 ^ (nat (width d) - 1))"
proof -
  have f: "0 \<le> f" "d = snd_pcm_formats ! nat f" using assms(1) by (auto simp: format_data_cases)
  then have "d = take 48 snd_pcm_formats ! nat f" "nat f < length (take 48 snd_pcm_formats)" using assms(2) by simp_all
  then have "phys d \<le> 0 \<or> signd d < 0 \<or> silence_value d = (if signd d = 1 then 0 else 2 ^ (nat (width d) - 1))"
    using table_silence unfolding list_all_length by blast
  moreover have "snd_pcm_format_signed f = Some (signd d)" using assms(1) by (simp add: snd_pcm_format_signed_def)
  ultimately show ?thesis using assms(3,4) by (auto simp: snd_pcm_format_linear_def split: if_splits)
qed

theorem silence_is_midpoint_witness:
  "silence_value (fmt 16 16 1 0 [0, 0x80, 0, 0, 0, 0, 0, 0]) = 2 ^ 15"
proof -
  have "snd_pcm_format_linear 4 = Some 1" "snd_pcm_format_signed 4 = Some 0"
    by (simp_all add: snd_pcm_format_linear_def snd_pcm_format_signed_def format_data_U16_LE fmt_def)
  with silence_is_midpoint [OF format_data_U16_LE] show ?thesis by (simp add: fmt_def)
qed

definition linear_check :: "int \<Rightarrow> int \<Rightarrow> int \<Rightarrow> int \<Rightarrow> bool" where
  "linear_check w pw u b =
     (let f = snd_pcm_build_linear_format w pw u b in
      f = - 1 \<or>
      snd_pcm_format_width f = Some w \<and>
      snd_pcm_format_physical_width f = Some (if pw = 24 then 24 else if w = 24 then 32 else w) \<and>
      snd_pcm_format_unsigned f = Some u \<and> snd_pcm_format_linear f = Some 1 \<and>
      (w = 8 \<or> snd_pcm_format_big_endian f = Some b))"

lemma linear_checked:
  "list_all (\<lambda>w. list_all (\<lambda>pw. list_all (\<lambda>u. list_all (\<lambda>b. linear_check w pw u b) [0, 1]) [0, 1]) [24, 0]) [24, 20, 18, 8, 16, 32]"
  by code_simp

text \<open>\<^verbatim>\<open>snd_pcm_build_linear_format\<close> is inverse to the queries: the format it returns has the requested
  width, sign and byte order, and the requested physical width where that is 24 bits.\<close>

theorem build_linear_roundtrip:
  assumes "snd_pcm_build_linear_format w pw u b = f" "f \<noteq> - 1"
  shows "snd_pcm_format_width f = Some w \<and>
         snd_pcm_format_physical_width f = Some (if pw = 24 then 24 else if w = 24 then 32 else w) \<and>
         snd_pcm_format_unsigned f = Some (of_bool (u \<noteq> 0)) \<and> snd_pcm_format_linear f = Some 1 \<and>
         (w \<noteq> 8 \<longrightarrow> snd_pcm_format_big_endian f = Some (of_bool (b \<noteq> 0)))"
proof -
  define p' where "p' = (if pw = 24 then 24 else 0 :: int)"
  define u' where "u' = (of_bool (u \<noteq> 0) :: int)"
  define b' where "b' = (of_bool (b \<noteq> 0) :: int)"
  have "w \<in> {24, 20, 18, 8, 16, 32}"
    using assms by (auto simp: snd_pcm_build_linear_format_def Let_def split: if_splits)
  moreover have "p' \<in> {24, 0}" "u' \<in> {0, 1}" "b' \<in> {0, 1}" by (auto simp: p'_def u'_def b'_def)
  ultimately have "linear_check w p' u' b'" using linear_checked unfolding list_all_iff by auto
  moreover have norm: "u' \<noteq> 0 \<longleftrightarrow> u \<noteq> 0" "b' \<noteq> 0 \<longleftrightarrow> b \<noteq> 0" "p' = 24 \<longleftrightarrow> pw = 24"
    by (simp_all add: p'_def u'_def b'_def)
  moreover have "snd_pcm_build_linear_format w p' u' b' = f"
    using assms(1) unfolding snd_pcm_build_linear_format_def norm .
  ultimately show ?thesis
    using assms(2) unfolding linear_check_def Let_def by (simp only: u'_def b'_def) blast
qed

theorem build_linear_roundtrip_witness:
  "snd_pcm_build_linear_format 20 24 1 1 = 39 \<and> snd_pcm_format_width 39 = Some 20"
proof -
  have "snd_pcm_build_linear_format 20 24 1 1 = 39"
    by (simp add: snd_pcm_build_linear_format_def linear24_formats_def)
  with build_linear_roundtrip [OF this] show ?thesis by simp
qed

lemma silence_outer_once: "0 < w \<Longrightarrow> silence_outer pat 0 w sil = silence_inner pat [0..<w] sil"
proof -
  assume "0 < w"
  have "silence_outer pat w w s = Some s" for s by (subst silence_outer.simps) simp
  with \<open>0 < w\<close> show ?thesis
    by (subst silence_outer.simps, cases "silence_inner pat [0..<w] sil") (simp_all del: silence_outer.simps)
qed

text \<open>\<^verbatim>\<open>snd_pcm_format_silence_64\<close> reads the pattern as a big-endian number of as many whole bytes as the
  width has, whatever the byte order of the format: for the unsigned little-endian formats the
  result is the silence sample with its bytes reversed, and the upper bytes of the 64 bits stay
  zero.\<close>

theorem silence_64_byte_order:
  "snd_pcm_format_silence_64 4 = Some 0x0080 \<and> snd_pcm_format_silence_64 5 = Some 0x8000 \<and>
   snd_pcm_format_silence_64 12 = Some 0x00000080 \<and> snd_pcm_format_silence_64 13 = Some 0x80000000 \<and>
   snd_pcm_format_silence_64 1 = Some 0x80 \<and> snd_pcm_format_silence_16 4 = Some 0x0080"
  by (simp add: snd_pcm_format_silence_16_def snd_pcm_format_silence_64_def format_data_def snd_pcm_formats_def fmt_def
      silence_outer_once signed_divide_int_def upt_rec)

end
