(* ===== verification/Pcm_Area.thy ===== *)
theory Pcm_Area
  imports Pcm_Format
begin

text \<open>
  Silencing and copying channel areas: \<^verbatim>\<open>src/src/pcm.c\<close>, lines 580 to 766, and
  \<^verbatim>\<open>snd_pcm_channel_area_addr\<close> of \<^verbatim>\<open>src/src/pcm_macros.h\<close>.  An area is an address, the offset of its
  first sample and the distance of its samples, both in bits.  The areas of a stream live in one
  memory, so that copying between overlapping areas is expressible; a \<^verbatim>\<open>memcpy\<close> between overlapping
  bytes has no defined result.
\<close>

section \<open>Definitions\<close>

record snd_pcm_channel_area =
  addr :: "nat option"
  first :: u32
  step :: u32

definition snd_pcm_channel_area_addr :: "snd_pcm_channel_area \<Rightarrow> u64 \<Rightarrow> nat option" where
  "snd_pcm_channel_area_addr area offset =
     (let bitofs = (ucast (ucast (first area) + ucast (step area) * offset :: u64) :: u32)
      in map_option (\<lambda>a. a + unat (bitofs div 8)) (addr area))"

definition mem_copy :: "memory \<Rightarrow> nat \<Rightarrow> nat \<Rightarrow> nat \<Rightarrow> memory option" where
  "mem_copy mem dst src n =
     (if n = 0 then Some mem
      else if dst < src + n \<and> src < dst + n then None
      else mem_read mem src n \<bind> mem_write mem dst)"

text \<open>\<^verbatim>\<open>*dst &= m\<close>, and the step of the bit position.\<close>

definition mem_and :: "memory \<Rightarrow> nat \<Rightarrow> u8 \<Rightarrow> memory option" where
  "mem_and mem a m = do { b \<leftarrow> array_get mem a; array_set mem a (b AND m) }"

definition nibble_step :: "nat \<Rightarrow> nat \<Rightarrow> nat \<Rightarrow> nat \<Rightarrow> nat \<times> nat" where
  "nibble_step a bitpos astep bit_step =
     (let a = a + astep; bitpos = bitpos + bit_step in if bitpos = 8 then (a + 1, 0) else (a, bitpos))"

primrec area_silence_4bit_loop :: "nat \<Rightarrow> memory \<Rightarrow> nat \<Rightarrow> nat \<Rightarrow> nat \<Rightarrow> nat \<Rightarrow> memory option" where
  "area_silence_4bit_loop 0 mem dst dstbit dst_step dstbit_step = Some mem"
| "area_silence_4bit_loop (Suc samples) mem dst dstbit dst_step dstbit_step = do {
     mem \<leftarrow> mem_and mem dst (if dstbit \<noteq> 0 then 0xf0 else 0x0f);
     (let (dst, dstbit) = nibble_step dst dstbit dst_step dstbit_step
      in area_silence_4bit_loop samples mem dst dstbit dst_step dstbit_step) }"

definition area_silence_4bit :: "memory \<Rightarrow> snd_pcm_channel_area \<Rightarrow> u64 \<Rightarrow> u32 \<Rightarrow> (int \<times> memory) option" where
  "area_silence_4bit mem dst_area dst_offset samples = do {
     dst \<leftarrow> snd_pcm_channel_area_addr dst_area dst_offset;
     mem \<leftarrow> area_silence_4bit_loop (unat samples) mem dst (unat (first dst_area mod 8))
              (unat (step dst_area div 8)) (unat (step dst_area mod 8));
     Some (0, mem) }"

primrec area_silence_loop :: "nat \<Rightarrow> int \<Rightarrow> memory \<Rightarrow> nat \<Rightarrow> nat \<Rightarrow> memory option" where
  "area_silence_loop 0 format mem dst dst_step = Some mem"
| "area_silence_loop (Suc samples) format mem dst dst_step = do {
     (_, mem) \<leftarrow> snd_pcm_format_set_silence format mem dst 1;
     area_silence_loop samples format mem (dst + dst_step) dst_step }"

definition snd_pcm_area_silence :: "memory \<Rightarrow> snd_pcm_channel_area \<Rightarrow> u64 \<Rightarrow> u32 \<Rightarrow> int \<Rightarrow> (int \<times> memory) option" where
  "snd_pcm_area_silence mem dst_area dst_offset samples format =
     (if addr dst_area = None then Some (0, mem)
      else do {
        width \<leftarrow> snd_pcm_format_physical_width format;
        (if width < 8 then area_silence_4bit mem dst_area dst_offset samples
         else do {
           dst \<leftarrow> snd_pcm_channel_area_addr dst_area dst_offset;
           (if step dst_area = of_int width then do {
              (_, mem) \<leftarrow> snd_pcm_format_set_silence format mem dst samples;
              Some (0, mem) }
            else do {
              mem \<leftarrow> area_silence_loop (unat samples) format mem dst (unat (step dst_area div 8));
              Some (0, mem) }) }) })"

text \<open>\<^verbatim>\<open>snd_pcm_areas_silence\<close> and \<^verbatim>\<open>snd_pcm_areas_copy\<close> pass their 64-bit frame count on as a 32-bit one.\<close>

primrec areas_silence_loop :: "nat \<Rightarrow> memory \<Rightarrow> snd_pcm_channel_area list \<Rightarrow> u64 \<Rightarrow> u64 \<Rightarrow> int \<Rightarrow> memory option" where
  "areas_silence_loop 0 mem areas offset frames format = Some mem"
| "areas_silence_loop (Suc channels) mem areas offset frames format = do {
     area \<leftarrow> array_get areas 0;
     (_, mem) \<leftarrow> snd_pcm_area_silence mem area offset (ucast frames) format;
     areas_silence_loop channels mem (tl areas) offset frames format }"

definition snd_pcm_areas_silence :: "memory \<Rightarrow> snd_pcm_channel_area list \<Rightarrow> u64 \<Rightarrow> u32 \<Rightarrow> u64 \<Rightarrow> int \<Rightarrow>
    (int \<times> memory) option" where
  "snd_pcm_areas_silence mem dst_areas dst_offset channels frames format =
     map_option (\<lambda>mem. (0, mem)) (areas_silence_loop (unat channels) mem dst_areas dst_offset frames format)"

primrec area_copy_4bit_loop :: "nat \<Rightarrow> memory \<Rightarrow> nat \<times> nat \<Rightarrow> nat \<times> nat \<Rightarrow> nat \<times> nat \<Rightarrow> nat \<times> nat \<Rightarrow> memory option" where
  "area_copy_4bit_loop 0 mem s d sstep dstep = Some mem"
| "area_copy_4bit_loop (Suc samples) mem s d sstep dstep =
     (case (s, d) of ((src, srcbit), (dst, dstbit)) \<Rightarrow> do {
        b \<leftarrow> array_get mem src;
        let srcval = (if srcbit \<noteq> 0 then b AND 0x0f else b AND 0xf0);
        mem \<leftarrow> mem_and mem dst (if dstbit \<noteq> 0 then 0xf0 else 0x0f);
        c \<leftarrow> array_get mem dst;
        mem \<leftarrow> array_set mem dst (c OR srcval);
        area_copy_4bit_loop samples mem (nibble_step src srcbit (fst sstep) (snd sstep))
          (nibble_step dst dstbit (fst dstep) (snd dstep)) sstep dstep })"

definition area_copy_4bit :: "memory \<Rightarrow> snd_pcm_channel_area \<Rightarrow> u64 \<Rightarrow> snd_pcm_channel_area \<Rightarrow> u64 \<Rightarrow> u32 \<Rightarrow>
    (int \<times> memory) option" where
  "area_copy_4bit mem dst_area dst_offset src_area src_offset samples = do {
     src \<leftarrow> snd_pcm_channel_area_addr src_area src_offset;
     dst \<leftarrow> snd_pcm_channel_area_addr dst_area dst_offset;
     mem \<leftarrow> area_copy_4bit_loop (unat samples) mem
       (src, unat (first src_area mod 8)) (dst, unat (first dst_area mod 8))
       (unat (step src_area div 8), unat (step src_area mod 8)) (unat (step dst_area div 8), unat (step dst_area mod 8));
     Some (0, mem) }"

primrec area_copy_loop :: "nat \<Rightarrow> nat \<Rightarrow> memory \<Rightarrow> nat \<Rightarrow> nat \<Rightarrow> nat \<Rightarrow> nat \<Rightarrow> memory option" where
  "area_copy_loop 0 w mem dst src dst_step src_step = Some mem"
| "area_copy_loop (Suc samples) w mem dst src dst_step src_step = do {
     mem \<leftarrow> mem_copy mem dst src w;
     area_copy_loop samples w mem (dst + dst_step) (src + src_step) dst_step src_step }"

text \<open>\<open>same\<close> is the comparison \<^verbatim>\<open>dst_area == src_area\<close> of the two pointers.\<close>

definition snd_pcm_area_copy :: "memory \<Rightarrow> bool \<Rightarrow> snd_pcm_channel_area \<Rightarrow> u64 \<Rightarrow> snd_pcm_channel_area \<Rightarrow> u64 \<Rightarrow>
    u32 \<Rightarrow> int \<Rightarrow> (int \<times> memory) option" where
  "snd_pcm_area_copy mem same dst_area dst_offset src_area src_offset samples format =
     (if addr dst_area = None then Some (0, mem)
      else if same \<and> dst_offset = src_offset then Some (0, mem)
      else if addr src_area = None then snd_pcm_area_silence mem dst_area dst_offset samples format
      else do {
        width \<leftarrow> snd_pcm_format_physical_width format;
        (if width < 8 then area_copy_4bit mem dst_area dst_offset src_area src_offset samples
         else do {
           src \<leftarrow> snd_pcm_channel_area_addr src_area src_offset;
           dst \<leftarrow> snd_pcm_channel_area_addr dst_area dst_offset;
           (if step src_area = of_int width \<and> step dst_area = of_int width then do {
              mem \<leftarrow> mem_copy mem dst src (unat (samples * of_int width div 8));
              Some (0, mem) }
            else do {
              mem \<leftarrow> area_copy_loop (unat samples) (nat (width sdiv 8)) mem dst src
                       (unat (step dst_area div 8)) (unat (step src_area div 8));
              Some (0, mem) }) }) })"

primrec areas_copy_loop :: "nat \<Rightarrow> memory \<Rightarrow> bool \<Rightarrow> snd_pcm_channel_area list \<Rightarrow> u64 \<Rightarrow> snd_pcm_channel_area list \<Rightarrow> u64 \<Rightarrow>
    u64 \<Rightarrow> int \<Rightarrow> memory option" where
  "areas_copy_loop 0 mem same dst_areas dst_offset src_areas src_offset frames format = Some mem"
| "areas_copy_loop (Suc channels) mem same dst_areas dst_offset src_areas src_offset frames format = do {
     d \<leftarrow> array_get dst_areas 0;
     s \<leftarrow> array_get src_areas 0;
     (_, mem) \<leftarrow> snd_pcm_area_copy mem same d dst_offset s src_offset (ucast frames) format;
     areas_copy_loop channels mem same (tl dst_areas) dst_offset (tl src_areas) src_offset frames format }"

definition snd_pcm_areas_copy :: "memory \<Rightarrow> bool \<Rightarrow> snd_pcm_channel_area list \<Rightarrow> u64 \<Rightarrow> snd_pcm_channel_area list \<Rightarrow> u64 \<Rightarrow>
    u32 \<Rightarrow> u64 \<Rightarrow> int \<Rightarrow> (int \<times> memory) option" where
  "snd_pcm_areas_copy mem same dst_areas dst_offset src_areas src_offset channels frames format =
     (if channels = 0 then Some (- EINVAL, mem)
      else if frames = 0 then Some (- EINVAL, mem)
      else map_option (\<lambda>mem. (0, mem))
             (areas_copy_loop (unat channels) mem same dst_areas dst_offset src_areas src_offset frames format))"

section \<open>Strided copies\<close>

lemma mem_copy_in:
  assumes "dst + n \<le> length mem" "src + n \<le> length mem" "src + n \<le> dst \<or> dst + n \<le> src"
  obtains mem' where "mem_copy mem dst src n = Some mem'" "length mem' = length mem"
    "\<And>i. i < n \<Longrightarrow> mem' ! (dst + i) = mem ! (src + i)"
    "\<And>a. a < dst \<or> dst + n \<le> a \<Longrightarrow> mem' ! a = mem ! a"
proof (cases "n = 0")
  case True
  then show thesis using that [of mem] by (simp add: mem_copy_def)
next
  case False
  let ?m = "take dst mem @ take n (drop src mem) @ drop (dst + n) mem"
  have "mem_copy mem dst src n = Some ?m"
    using assms False by (auto simp: mem_copy_def mem_read_def mem_write_def)
  moreover have "length ?m = length mem" using assms by auto
  moreover have "?m ! (dst + i) = mem ! (src + i)" if "i < n" for i
    using that assms by (simp add: nth_append)
  moreover have "?m ! a = mem ! a" if "a < dst \<or> dst + n \<le> a" for a
    using that assms by (auto simp: nth_append)
  ultimately show thesis using that by blast
qed

lemma area_copy_loop_in:
  assumes "\<forall>k < n. dst + k * dstep + w \<le> length mem" "\<forall>k < n. src + k * sstep + w \<le> length mem" "w \<le> dstep"
    and "\<forall>j < n. \<forall>k < n. src + j * sstep + w \<le> dst + k * dstep \<or> dst + k * dstep + w \<le> src + j * sstep"
  shows "\<exists>mem'. area_copy_loop n w mem dst src dstep sstep = Some mem' \<and> length mem' = length mem \<and>
    (\<forall>k < n. \<forall>i < w. mem' ! (dst + k * dstep + i) = mem ! (src + k * sstep + i)) \<and>
    (\<forall>a. (\<forall>k < n. a < dst + k * dstep \<or> dst + k * dstep + w \<le> a) \<longrightarrow> mem' ! a = mem ! a)"
  using assms(1,2,4)
proof (induction n arbitrary: mem dst src)
  case (Suc n)
  obtain m1 where m1: "mem_copy mem dst src w = Some m1" "length m1 = length mem"
    "\<And>i. i < w \<Longrightarrow> m1 ! (dst + i) = mem ! (src + i)" "\<And>a. a < dst \<or> dst + w \<le> a \<Longrightarrow> m1 ! a = mem ! a"
    by (rule mem_copy_in [of dst w mem src]) (use Suc.prems in \<open>force+\<close>)
  have "\<exists>mem'. area_copy_loop n w m1 (dst + dstep) (src + sstep) dstep sstep = Some mem' \<and> length mem' = length m1 \<and>
    (\<forall>k < n. \<forall>i < w. mem' ! (dst + dstep + k * dstep + i) = m1 ! (src + sstep + k * sstep + i)) \<and>
    (\<forall>a. (\<forall>k < n. a < dst + dstep + k * dstep \<or> dst + dstep + k * dstep + w \<le> a) \<longrightarrow> mem' ! a = m1 ! a)"
  proof (rule Suc.IH)
    show "\<forall>k<n. dst + dstep + k * dstep + w \<le> length m1" "\<forall>k<n. src + sstep + k * sstep + w \<le> length m1"
      using Suc.prems(1,2) m1(2) by (auto simp: algebra_simps dest: spec [of _ "Suc _"])
    show "\<forall>j<n. \<forall>k<n. src + sstep + j * sstep + w \<le> dst + dstep + k * dstep \<or> dst + dstep + k * dstep + w \<le> src + sstep + j * sstep"
    proof (intro allI impI)
      fix j k assume "j < n" "k < n"
      with Suc.prems(3) [rule_format, of "Suc j" "Suc k"]
      show "src + sstep + j * sstep + w \<le> dst + dstep + k * dstep \<or> dst + dstep + k * dstep + w \<le> src + sstep + j * sstep"
        by (simp add: algebra_simps)
    qed
  qed
  then obtain m2 where m2: "area_copy_loop n w m1 (dst + dstep) (src + sstep) dstep sstep = Some m2" "length m2 = length m1"
    "\<And>k i. k < n \<Longrightarrow> i < w \<Longrightarrow> m2 ! (dst + dstep + k * dstep + i) = m1 ! (src + sstep + k * sstep + i)"
    "\<And>a. (\<forall>k < n. a < dst + dstep + k * dstep \<or> dst + dstep + k * dstep + w \<le> a) \<Longrightarrow> m2 ! a = m1 ! a" by blast
  have "m2 ! (dst + k * dstep + i) = mem ! (src + k * sstep + i)" if "k < Suc n" "i < w" for k i
  proof (cases k)
    case 0
    have "m2 ! (dst + i) = m1 ! (dst + i)" by (rule m2(4)) (use that assms(3) in auto)
    then show ?thesis using 0 m1(3) [OF that(2)] by simp
  next
    case (Suc k')
    then have "m2 ! (dst + k * dstep + i) = m1 ! (src + k * sstep + i)"
      using m2(3) [of k' i] that by (simp add: algebra_simps)
    also have "\<dots> = mem ! (src + k * sstep + i)"
    proof (rule m1(4))
      show "src + k * sstep + i < dst \<or> dst + w \<le> src + k * sstep + i"
        using Suc.prems(3) [rule_format, of k 0] that by auto
    qed
    finally show ?thesis .
  qed
  moreover have "m2 ! a = mem ! a" if out: "\<forall>k < Suc n. a < dst + k * dstep \<or> dst + k * dstep + w \<le> a" for a
  proof -
    have "a < dst + dstep + k * dstep \<or> dst + dstep + k * dstep + w \<le> a" if "k < n" for k
      using out [rule_format, of "Suc k"] that by (simp add: algebra_simps)
    then have "m2 ! a = m1 ! a" by (intro m2(4)) blast
    also have "\<dots> = mem ! a" using out [rule_format, of 0] by (intro m1(4)) simp
    finally show ?thesis .
  qed
  ultimately show ?case using m1(1,2) m2(1,2) by auto
qed simp

section \<open>Properties of areas\<close>

text \<open>The address of sample \<open>k\<close> of an area, from an offset, without the truncation of the code.\<close>

definition sample_addr :: "snd_pcm_channel_area \<Rightarrow> u64 \<Rightarrow> nat \<Rightarrow> nat" where
  "sample_addr area offset k =
     the (addr area) + (unat (first area) + unat (step area) * unat offset) div 8 + k * (unat (step area) div 8)"

definition area_fits :: "snd_pcm_channel_area \<Rightarrow> u64 \<Rightarrow> nat \<Rightarrow> nat \<Rightarrow> memory \<Rightarrow> bool" where
  "area_fits area offset n w mem \<longleftrightarrow> addr area \<noteq> None \<and>
     unat (first area) + unat (step area) * unat offset < 2 ^ 32 \<and>
     (\<forall>k < n. sample_addr area offset k + w \<le> length mem)"

lemma unat_ucast_u32_u64 [simp]: "unat (ucast (v :: u32) :: u64) = unat v"
  using unat_u32_less [of v] by (simp add: unsigned_ucast_eq take_bit_nat_eq_self)

lemma area_addr_in:
  assumes "area_fits area offset n w mem"
  shows "snd_pcm_channel_area_addr area offset = Some (sample_addr area offset 0)"
proof -
  have lt: "unat (first area) + unat (step area) * unat offset < 2 ^ 32" using assms by (simp add: area_fits_def)
  have "unat (ucast (first area) + ucast (step area) * offset :: u64) = unat (first area) + unat (step area) * unat offset"
    using lt by (simp add: unat_word_ariths)
  then have "unat (ucast (ucast (first area) + ucast (step area) * offset :: u64) :: u32) =
      unat (first area) + unat (step area) * unat offset"
    using lt by (simp add: unsigned_ucast_eq take_bit_eq_mod)
  then show ?thesis using assms
    by (auto simp: snd_pcm_channel_area_addr_def sample_addr_def area_fits_def unat_div)
qed

definition samples_copied :: "memory \<Rightarrow> memory \<Rightarrow> (nat \<Rightarrow> nat) \<Rightarrow> (nat \<Rightarrow> nat) \<Rightarrow> nat \<Rightarrow> nat \<Rightarrow> bool" where
  "samples_copied mem mem' d s n w \<longleftrightarrow> length mem' = length mem \<and>
     (\<forall>k < n. \<forall>i < w. mem' ! (d k + i) = mem ! (s k + i)) \<and>
     (\<forall>a. (\<forall>k < n. a < d k \<or> d k + w \<le> a) \<longrightarrow> mem' ! a = mem ! a)"

lemma block_copied:
  assumes "length mem' = length mem" "\<And>i. i < n * w \<Longrightarrow> mem' ! (d + i) = mem ! (s + i)"
    and "\<And>a. a < d \<or> d + n * w \<le> a \<Longrightarrow> mem' ! a = mem ! a"
  shows "samples_copied mem mem' (\<lambda>k. d + k * w) (\<lambda>k. s + k * w) n w"
  unfolding samples_copied_def
proof (intro conjI allI impI)
  fix k i assume "k < n" "i < w"
  then have "k * w + i < n * w" using mult_le_mono1 [of "Suc k" n w] by simp
  from assms(2) [OF this] show "mem' ! (d + k * w + i) = mem ! (s + k * w + i)" by (simp add: add.assoc)
next
  fix a assume out: "\<forall>k < n. a < d + k * w \<or> d + k * w + w \<le> a"
  show "mem' ! a = mem ! a"
  proof (rule assms(3), rule ccontr)
    assume "\<not> (a < d \<or> d + n * w \<le> a)"
    then have a: "a - d < n * w" "d \<le> a" by auto
    then have "0 < w" by (cases w) auto
    then have "(a - d) div w < n" using a(1) by (simp add: less_mult_imp_div_less)
    from out [rule_format, OF this] show False
      using a(2) \<open>0 < w\<close> div_mult_mod_eq [of "a - d" w] mod_less_divisor [of w "a - d"] by linarith
  qed
qed (rule assms(1))

text \<open>C28. Copying samples between two areas that lie in memory and do not overlap moves every sample to its
  place and changes no other byte, for the interleaved and the contiguous layout alike.\<close>

theorem area_copy_moves_samples:
  assumes "format_data f = Some d" "phys d = 8 * int w" "0 < w"
    and "area_fits da doff (unat samples) w mem" "area_fits sa soff (unat samples) w mem"
    and "w \<le> unat (step da) div 8" "unat samples * (8 * w) < 2 ^ 32"
    and "\<forall>j < unat samples. \<forall>k < unat samples. sample_addr sa soff j + w \<le> sample_addr da doff k \<or>
                                                sample_addr da doff k + w \<le> sample_addr sa soff j"
    and "(unat (step da) = 8 * w \<and> unat (step sa) = 8 * w) \<longrightarrow>
           sample_addr sa soff (unat samples) \<le> sample_addr da doff 0 \<or> sample_addr da doff (unat samples) \<le> sample_addr sa soff 0"
  shows "\<exists>mem'. snd_pcm_area_copy mem False da doff sa soff samples f = Some (0, mem') \<and>
           samples_copied mem mem' (sample_addr da doff) (sample_addr sa soff) (unat samples) w"
proof -
  define n where "n = unat samples"
  define D where "D = sample_addr da doff 0"
  define S where "S = sample_addr sa soff 0"
  let ?ds = "unat (step da) div 8" and ?ss = "unat (step sa) div 8"
  have pw: "snd_pcm_format_physical_width f = Some (8 * int w)" using assms(1,2) by (simp add: snd_pcm_format_physical_width_def)
  have w8: "w \<le> 8" using format_data_ok [OF assms(1)] assms(2) by (simp add: entry_ok_def)
  have addrs: "addr da \<noteq> None" "addr sa \<noteq> None" using assms(4,5) by (auto simp: area_fits_def)
  have da: "sample_addr da doff = (\<lambda>k. D + k * ?ds)" and sa: "sample_addr sa soff = (\<lambda>k. S + k * ?ss)"
    by (simp_all add: sample_addr_def D_def S_def fun_eq_iff)
  have stp: "(step a = of_int (8 * int w)) \<longleftrightarrow> unat (step a) = 8 * w" for a :: snd_pcm_channel_area
    using w8 by (simp add: word_unat_eq_iff unsigned_of_nat unat_word_ariths take_bit_eq_mod)
  have fits: "\<forall>k < n. D + k * ?ds + w \<le> length mem" "\<forall>k < n. S + k * ?ss + w \<le> length mem"
    using assms(4,5) unfolding area_fits_def da sa n_def by auto
  note unf = snd_pcm_area_copy_def pw area_addr_in [OF assms(4), folded D_def] area_addr_in [OF assms(5), folded S_def]
  show ?thesis
  proof (cases "unat (step da) = 8 * w \<and> unat (step sa) = 8 * w")
    case True
    have bytes: "unat (samples * of_int (8 * int w) div 8) = n * w"
      using assms(7) w8 by (simp add: n_def unat_div unat_word_ariths unsigned_of_nat take_bit_eq_mod)
    have ds: "?ds = w" "?ss = w" using True by simp_all
    obtain m where m: "mem_copy mem D S (n * w) = Some m" "length m = length mem"
      "\<And>i. i < n * w \<Longrightarrow> m ! (D + i) = mem ! (S + i)" "\<And>a. a < D \<or> D + n * w \<le> a \<Longrightarrow> m ! a = mem ! a"
    proof (cases n)
      case 0
      then show thesis using that [of mem] by (simp add: mem_copy_def)
    next
      case (Suc n')
      have fit: "D + n * w \<le> length mem" "S + n * w \<le> length mem"
        using fits [rule_format, of n'] Suc ds by (simp_all add: algebra_simps)
      have "S + n * w \<le> D \<or> D + n * w \<le> S" using assms(9) True ds unfolding da sa n_def by simp
      from mem_copy_in [OF fit this] that show thesis by blast
    qed
    have "samples_copied mem m (sample_addr da doff) (sample_addr sa soff) n w"
      using block_copied [OF m(2-4)] unfolding da sa ds by simp
    moreover have "step sa = of_int (8 * int w) \<and> step da = of_int (8 * int w)" using True stp by blast
    then have "snd_pcm_area_copy mem False da doff sa soff samples f = Some (0, m)"
      using m(1) addrs assms(3) bytes unfolding unf by auto
    ultimately show ?thesis unfolding n_def by blast
  next
    case False
    have "\<exists>m. area_copy_loop n w mem D S ?ds ?ss = Some m \<and> length m = length mem \<and>
      (\<forall>k < n. \<forall>i < w. m ! (D + k * ?ds + i) = mem ! (S + k * ?ss + i)) \<and>
      (\<forall>a. (\<forall>k < n. a < D + k * ?ds \<or> D + k * ?ds + w \<le> a) \<longrightarrow> m ! a = mem ! a)"
      using fits assms(6,8) unfolding da sa n_def by (intro area_copy_loop_in) auto
    then obtain m where m: "area_copy_loop n w mem D S ?ds ?ss = Some m"
      "samples_copied mem m (sample_addr da doff) (sample_addr sa soff) n w"
      unfolding samples_copied_def da sa by blast
    have "unat (step da div 8) = ?ds" "unat (step sa div 8) = ?ss" by (simp_all add: unat_div)
    moreover have "\<not> (step sa = of_int (8 * int w) \<and> step da = of_int (8 * int w))" using False stp by blast
    moreover have "nat (8 * int w sdiv 8) = w" using assms(3) by (simp add: signed_divide_int_def)
    ultimately have "snd_pcm_area_copy mem False da doff sa soff samples f = Some (0, m)"
      using m(1) addrs assms(3) unfolding unf n_def by auto
    with m(2) show ?thesis unfolding n_def by blast
  qed
qed

definition demo_mem :: memory where
  "demo_mem = [1, 2, 3, 4, 5, 6, 7, 8, 9, 10, 11, 12]"

definition demo_src :: snd_pcm_channel_area where
  "demo_src = \<lparr>addr = Some 0, first = 0, step = 16\<rparr>"

definition demo_dst :: snd_pcm_channel_area where
  "demo_dst = \<lparr>addr = Some 4, first = 0, step = 32\<rparr>"

lemma format_data_S16: "format_data 2 = Some (fmt 16 16 1 1 [0, 0, 0, 0, 0, 0, 0, 0])"
  by (simp add: format_data_def snd_pcm_formats_def)

theorem area_copy_moves_samples_witness:
  "\<exists>mem'. snd_pcm_area_copy demo_mem False demo_dst 0 demo_src 0 2 2 = Some (0, mem') \<and>
     samples_copied demo_mem mem' (sample_addr demo_dst 0) (sample_addr demo_src 0) 2 2"
proof -
  have two: "k < 2 \<longleftrightarrow> k = 0 \<or> k = 1" for k :: nat by auto
  have sm: "unat (2 :: u32) = 2" by simp
  have fits: "area_fits demo_dst 0 2 2 demo_mem" "area_fits demo_src 0 2 2 demo_mem"
    by (auto simp: area_fits_def sample_addr_def demo_dst_def demo_src_def demo_mem_def two)
  have dis: "\<forall>j < 2. \<forall>k < 2. sample_addr demo_src 0 j + 2 \<le> sample_addr demo_dst 0 k \<or>
      sample_addr demo_dst 0 k + 2 \<le> sample_addr demo_src 0 j"
    by (auto simp: sample_addr_def demo_dst_def demo_src_def two)
  have ph: "phys (fmt 16 16 1 1 [0, 0, 0, 0, 0, 0, 0, 0]) = 8 * int 2" by (simp add: fmt_def)
  show ?thesis
    by (rule area_copy_moves_samples [OF format_data_S16 ph, of demo_dst 0 2 demo_mem demo_src 0, unfolded sm, OF _ fits _ _ dis])
      (simp_all add: demo_dst_def)
qed

text \<open>For a four-bit format the bit position starts at the bit of the first sample of the area and
  ignores the offset: silencing from frame 1 of an area whose samples are four bits apart does what
  silencing from frame 0 does.\<close>

theorem silence_4bit_ignores_offset:
  assumes "addr area = Some a" "first area = 0" "step area = 4"
  shows "area_silence_4bit mem area 1 samples = area_silence_4bit mem area 0 samples"
  using assms by (simp add: area_silence_4bit_def snd_pcm_channel_area_addr_def)

theorem silence_4bit_ignores_offset_witness:
  "area_silence_4bit [0xab, 0xcd] \<lparr>addr = Some 0, first = 0, step = 4\<rparr> 1 1 =
   area_silence_4bit [0xab, 0xcd] \<lparr>addr = Some 0, first = 0, step = 4\<rparr> 0 1"
  using silence_4bit_ignores_offset [of "\<lparr>addr = Some 0, first = 0, step = 4\<rparr>" 0] by simp

end
