(* ===== verification/Pcm_Device.thy ===== *)
theory Pcm_Device
  imports Pcm_HwAccess Pcm_Area
begin

text \<open>
  The PCM handle and the calls that forward one request to the kernel: \<^verbatim>\<open>struct _snd_pcm\<close> and the
  inline commands of \<^verbatim>\<open>src/src/pcm_macros.h\<close>, the transfers, the error mapping, \<^verbatim>\<open>snd_pcm_wait\<close> and
  \<^verbatim>\<open>snd_pcm_recover\<close> of \<^verbatim>\<open>src/src/pcm.c\<close>.

  The kernel is a record of functions over a world \<open>'w\<close>: everything outside the handle, the pages the
  driver shares with the library included.  A system call returns the C result, the value of \<^verbatim>\<open>errno\<close>,
  what the kernel wrote through its pointer argument, and the next world.

  \<^verbatim>\<open>mmap_status\<close> and \<^verbatim>\<open>mmap_control\<close> point into \<^verbatim>\<open>sync_ptr\<close> when the driver cannot map them, and into the
  shared pages otherwise.  The field \<open>sync_ptr\<close> tells the two cases apart: a read of a mapped page goes
  to the world, which may have moved on since the last read.  The addresses of the mapped pages are
  the fields \<open>status_addr\<close> and \<open>control_addr\<close>.
\<close>

section \<open>The handle\<close>

record snd_pcm_mmap_status =
  state :: int
  hw_ptr :: u64

record snd_pcm_mmap_control =
  appl_ptr :: u64
  ctl_avail_min :: u64

record snd_pcm_sync_ptr =
  sync_flags :: u32
  s_status :: snd_pcm_mmap_status
  c_control :: snd_pcm_mmap_control

record snd_pcm_sw_params =
  sw_tstamp_mode :: int
  sw_period_step :: u32
  sw_sleep_min :: u32
  sw_avail_min :: u64
  sw_xfer_align :: u64
  sw_start_threshold :: u64
  sw_stop_threshold :: u64
  sw_silence_threshold :: u64
  sw_silence_size :: u64
  sw_boundary :: u64
  sw_tstamp_type :: u32
  sw_period_event :: u32

record sndrv_pcm_channel_info =
  ci_channel :: u32
  ci_offset :: int
  ci_first :: u32
  ci_step :: u32

record snd_pcm_channel_info =
  ci_info :: sndrv_pcm_channel_info
  ci_addr :: "nat option"

record snd_pcm =
  pcm_name :: "string option"
  pcm_type :: int
  pcm_stream :: int
  pcm_mode :: int
  pcm_setup :: bool
  pcm_monotonic :: bool
  pcm_card :: int
  pcm_device :: int
  pcm_subdevice :: int
  pcm_protocol :: int
  pcm_fd :: int
  pcm_pollfd :: pollfd
  pcm_hw_params :: snd_pcm_hw_params
  pcm_sw_params :: snd_pcm_sw_params
  pcm_access :: u32
  pcm_format :: u32
  pcm_subformat :: u32
  pcm_channels :: u32
  pcm_rate :: u32
  pcm_period_size :: u64
  pcm_period_time :: u32
  pcm_boundary :: u64
  pcm_buffer_size :: u64
  pcm_sample_bits :: u32
  pcm_frame_bits :: u32
  sync_ptr :: "snd_pcm_sync_ptr option"
  status_addr :: "nat option"
  control_addr :: "nat option"
  mmap_channels :: "snd_pcm_channel_info list option"
  running_areas :: "snd_pcm_channel_area list option"

abbreviation (input) STREAM_PLAYBACK :: int where "STREAM_PLAYBACK \<equiv> 0"
abbreviation (input) STREAM_CAPTURE :: int where "STREAM_CAPTURE \<equiv> 1"
abbreviation (input) STATE_RUNNING :: int where "STATE_RUNNING \<equiv> 3"
abbreviation (input) STATE_XRUN :: int where "STATE_XRUN \<equiv> 4"
abbreviation (input) STATE_SUSPENDED :: int where "STATE_SUSPENDED \<equiv> 7"
abbreviation (input) STATE_DISCONNECTED :: int where "STATE_DISCONNECTED \<equiv> 8"
abbreviation (input) SYNC_PTR_HWSYNC :: u32 where "SYNC_PTR_HWSYNC \<equiv> 1"
abbreviation (input) SYNC_PTR_APPL :: u32 where "SYNC_PTR_APPL \<equiv> 2"

section \<open>The kernel\<close>

text \<open>The requests without a result, the transfers and the moves of the application pointer.\<close>

datatype pcm_request =
    REQ_HWSYNC | REQ_XRUN | REQ_RESUME | REQ_PREPARE | REQ_RESET | REQ_START | REQ_DROP | REQ_DRAIN
  | REQ_PAUSE int | REQ_LINK int | REQ_UNLINK | REQ_HW_FREE

datatype pcm_transfer = WRITEI_FRAMES | WRITEN_FRAMES | READI_FRAMES | READN_FRAMES

datatype pcm_move = REWIND | FORWARD

record 'w pcm_kernel =
  k_request :: "pcm_request \<Rightarrow> 'w \<Rightarrow> int \<times> int \<times> 'w"
  k_sync_ptr :: "snd_pcm_sync_ptr \<Rightarrow> 'w \<Rightarrow> int \<times> int \<times> snd_pcm_sync_ptr \<times> 'w"
  k_status_page :: "'w \<Rightarrow> snd_pcm_mmap_status \<times> 'w"
  k_control_page :: "'w \<Rightarrow> snd_pcm_mmap_control \<times> 'w"
  k_control_store :: "snd_pcm_mmap_control \<Rightarrow> 'w \<Rightarrow> 'w"
  k_delay :: "'w \<Rightarrow> int \<times> int \<times> int \<times> 'w"
  k_transfer :: "pcm_transfer \<Rightarrow> nat \<Rightarrow> u64 \<Rightarrow> 'w \<Rightarrow> int \<times> int \<times> int \<times> 'w"
  k_move :: "pcm_move \<Rightarrow> u64 \<Rightarrow> 'w \<Rightarrow> int \<times> int \<times> u64 \<times> 'w"
  k_poll :: "int \<Rightarrow> 'w \<Rightarrow> int \<times> int \<times> u16 \<times> 'w"
  k_sleep :: "'w \<Rightarrow> 'w"

text \<open>The reads and writes through \<^verbatim>\<open>mmap_status\<close> and \<^verbatim>\<open>mmap_control\<close>.\<close>

definition mmap_status :: "'w pcm_kernel \<Rightarrow> snd_pcm \<Rightarrow> 'w \<Rightarrow> snd_pcm_mmap_status \<times> 'w" where
  "mmap_status k pcm w = (case sync_ptr pcm of Some sp \<Rightarrow> (s_status sp, w) | None \<Rightarrow> k_status_page k w)"

definition mmap_control :: "'w pcm_kernel \<Rightarrow> snd_pcm \<Rightarrow> 'w \<Rightarrow> snd_pcm_mmap_control \<times> 'w" where
  "mmap_control k pcm w = (case sync_ptr pcm of Some sp \<Rightarrow> (c_control sp, w) | None \<Rightarrow> k_control_page k w)"

definition store_control :: "'w pcm_kernel \<Rightarrow> snd_pcm \<Rightarrow> 'w \<Rightarrow>
    (snd_pcm_mmap_control \<Rightarrow> snd_pcm_mmap_control) \<Rightarrow> snd_pcm \<times> 'w" where
  "store_control k pcm w f =
     (case sync_ptr pcm of
        Some sp \<Rightarrow> (pcm\<lparr>sync_ptr := Some (sp\<lparr>c_control := f (c_control sp)\<rparr>)\<rparr>, w)
      | None \<Rightarrow> (let (c, w) = k_control_page k w in (pcm, k_control_store k (f c) w)))"

section \<open>Commands\<close>

definition snd_pcm_sync_ptr0 :: "'w pcm_kernel \<Rightarrow> snd_pcm \<Rightarrow> 'w \<Rightarrow> u32 \<Rightarrow> int \<times> snd_pcm \<times> 'w" where
  "snd_pcm_sync_ptr0 k pcm w flags =
     (case sync_ptr pcm of
        Some sp \<Rightarrow>
          (case k_sync_ptr k (sp\<lparr>sync_flags := flags\<rparr>) w of (ret, errno, sp, w) \<Rightarrow>
             (if ret < 0 then - errno else 0, pcm\<lparr>sync_ptr := Some sp\<rparr>, w))
      | None \<Rightarrow> (0, pcm, w))"

definition snd_pcm_state :: "'w pcm_kernel \<Rightarrow> snd_pcm \<Rightarrow> 'w \<Rightarrow> int \<times> snd_pcm \<times> 'w" where
  "snd_pcm_state k pcm w =
     (let (_, pcm, w) = snd_pcm_sync_ptr0 k pcm w SYNC_PTR_APPL;
          (st, w) = mmap_status k pcm w
      in (state st, pcm, w))"

text \<open>\<^verbatim>\<open>if (ioctl(pcm->fd, ...) < 0) return -errno; return 0;\<close>\<close>

definition request :: "'w pcm_kernel \<Rightarrow> pcm_request \<Rightarrow> 'w \<Rightarrow> int \<times> 'w" where
  "request k r w = (case k_request k r w of (ret, errno, w) \<Rightarrow> (if ret < 0 then - errno else 0, w))"

definition snd_pcm_hwsync :: "'w pcm_kernel \<Rightarrow> snd_pcm \<Rightarrow> 'w \<Rightarrow> int \<times> snd_pcm \<times> 'w" where
  "snd_pcm_hwsync k pcm w =
     (if sync_ptr pcm \<noteq> None then snd_pcm_sync_ptr0 k pcm w SYNC_PTR_HWSYNC
      else let (r, w) = request k REQ_HWSYNC w in (r, pcm, w))"

definition snd_pcm_delay :: "'w pcm_kernel \<Rightarrow> 'w \<Rightarrow> int \<Rightarrow> int \<times> int \<times> 'w" where
  "snd_pcm_delay k w delay =
     (case k_delay k w of (ret, errno, d, w) \<Rightarrow> if ret < 0 then (- errno, delay, w) else (0, d, w))"

definition snd_pcm_resume :: "'w pcm_kernel \<Rightarrow> 'w \<Rightarrow> int \<times> 'w" where
  "snd_pcm_resume k w = request k REQ_RESUME w"

text \<open>\<^verbatim>\<open>snd_pcm_prepare\<close> and \<^verbatim>\<open>snd_pcm_reset\<close> read the pointers back after the request.\<close>

definition request_sync :: "'w pcm_kernel \<Rightarrow> pcm_request \<Rightarrow> snd_pcm \<Rightarrow> 'w \<Rightarrow> int \<times> snd_pcm \<times> 'w" where
  "request_sync k r pcm w =
     (case k_request k r w of (ret, errno, w) \<Rightarrow>
        if ret < 0 then (- errno, pcm, w) else snd_pcm_sync_ptr0 k pcm w SYNC_PTR_APPL)"

definition snd_pcm_prepare :: "'w pcm_kernel \<Rightarrow> snd_pcm \<Rightarrow> 'w \<Rightarrow> int \<times> snd_pcm \<times> 'w" where
  "snd_pcm_prepare k pcm w = request_sync k REQ_PREPARE pcm w"

definition snd_pcm_reset :: "'w pcm_kernel \<Rightarrow> snd_pcm \<Rightarrow> 'w \<Rightarrow> int \<times> snd_pcm \<times> 'w" where
  "snd_pcm_reset k pcm w = request_sync k REQ_RESET pcm w"

definition snd_pcm_start :: "'w pcm_kernel \<Rightarrow> snd_pcm \<Rightarrow> 'w \<Rightarrow> int \<times> snd_pcm \<times> 'w" where
  "snd_pcm_start k pcm w =
     (let (_, pcm, w) = snd_pcm_sync_ptr0 k pcm w 0; (r, w) = request k REQ_START w in (r, pcm, w))"

definition snd_pcm_drop :: "'w pcm_kernel \<Rightarrow> 'w \<Rightarrow> int \<times> 'w" where
  "snd_pcm_drop k w = request k REQ_DROP w"

definition snd_pcm_drain :: "'w pcm_kernel \<Rightarrow> 'w \<Rightarrow> int \<times> 'w" where
  "snd_pcm_drain k w = request k REQ_DRAIN w"

definition snd_pcm_pause :: "'w pcm_kernel \<Rightarrow> 'w \<Rightarrow> int \<Rightarrow> int \<times> 'w" where
  "snd_pcm_pause k w enable = request k (REQ_PAUSE enable) w"

definition snd_pcm_link :: "'w pcm_kernel \<Rightarrow> snd_pcm \<Rightarrow> 'w \<Rightarrow> int \<times> 'w" where
  "snd_pcm_link k pcm2 w = request k (REQ_LINK (pcm_fd pcm2)) w"

definition snd_pcm_unlink :: "'w pcm_kernel \<Rightarrow> 'w \<Rightarrow> int \<times> 'w" where
  "snd_pcm_unlink k w = request k REQ_UNLINK w"

text \<open>The kernel overwrites \<^verbatim>\<open>frames\<close> with the distance it moved; the result is that distance as a \<^verbatim>\<open>long\<close>.\<close>

definition move_pointer :: "'w pcm_kernel \<Rightarrow> pcm_move \<Rightarrow> snd_pcm \<Rightarrow> 'w \<Rightarrow> u64 \<Rightarrow> int \<times> snd_pcm \<times> 'w" where
  "move_pointer k m pcm w frames =
     (if frames = 0 then (0, pcm, w)
      else case k_move k m frames w of (ret, errno, frames, w) \<Rightarrow>
        if ret < 0 then (- errno, pcm, w)
        else let (_, pcm, w) = snd_pcm_sync_ptr0 k pcm w SYNC_PTR_APPL in (sint frames, pcm, w))"

definition snd_pcm_rewind :: "'w pcm_kernel \<Rightarrow> snd_pcm \<Rightarrow> 'w \<Rightarrow> u64 \<Rightarrow> int \<times> snd_pcm \<times> 'w" where
  "snd_pcm_rewind k pcm w frames = move_pointer k REWIND pcm w frames"

definition snd_pcm_forward :: "'w pcm_kernel \<Rightarrow> snd_pcm \<Rightarrow> 'w \<Rightarrow> u64 \<Rightarrow> int \<times> snd_pcm \<times> 'w" where
  "snd_pcm_forward k pcm w frames = move_pointer k FORWARD pcm w frames"

section \<open>Transfers and errors\<close>

definition correct_pcm_error :: "'w pcm_kernel \<Rightarrow> snd_pcm \<Rightarrow> 'w \<Rightarrow> int \<Rightarrow> int \<times> snd_pcm \<times> 'w" where
  "correct_pcm_error k pcm w err =
     (let (st, pcm, w) = snd_pcm_state k pcm w
      in (if st = STATE_XRUN then - EPIPE
          else if st = STATE_SUSPENDED then - ESTRPIPE
          else if st = STATE_DISCONNECTED then - ENODEV
          else err, pcm, w))"

definition snd_pcm_check_error :: "'w pcm_kernel \<Rightarrow> snd_pcm \<Rightarrow> 'w \<Rightarrow> int \<Rightarrow> int \<times> snd_pcm \<times> 'w" where
  "snd_pcm_check_error k pcm w err =
     (if err = - EINTR then correct_pcm_error k pcm w err else (err, pcm, w))"

text \<open>The common body of the four transfer calls, which differ in the request number only.\<close>

definition transfer :: "'w pcm_kernel \<Rightarrow> pcm_transfer \<Rightarrow> snd_pcm \<Rightarrow> 'w \<Rightarrow> nat \<Rightarrow> u64 \<Rightarrow> int \<times> snd_pcm \<times> 'w" where
  "transfer k t pcm w buf frames =
     (case k_transfer k t buf frames w of (ret, errno, result, w) \<Rightarrow>
        if ret < 0 then snd_pcm_check_error k pcm w (- errno)
        else let (_, pcm, w) = snd_pcm_sync_ptr0 k pcm w SYNC_PTR_APPL in (result, pcm, w))"

definition snd_pcm_writei :: "'w pcm_kernel \<Rightarrow> snd_pcm \<Rightarrow> 'w \<Rightarrow> nat \<Rightarrow> u64 \<Rightarrow> int \<times> snd_pcm \<times> 'w" where
  "snd_pcm_writei k = transfer k WRITEI_FRAMES"

definition snd_pcm_writen :: "'w pcm_kernel \<Rightarrow> snd_pcm \<Rightarrow> 'w \<Rightarrow> nat \<Rightarrow> u64 \<Rightarrow> int \<times> snd_pcm \<times> 'w" where
  "snd_pcm_writen k = transfer k WRITEN_FRAMES"

definition snd_pcm_readi :: "'w pcm_kernel \<Rightarrow> snd_pcm \<Rightarrow> 'w \<Rightarrow> nat \<Rightarrow> u64 \<Rightarrow> int \<times> snd_pcm \<times> 'w" where
  "snd_pcm_readi k = transfer k READI_FRAMES"

definition snd_pcm_readn :: "'w pcm_kernel \<Rightarrow> snd_pcm \<Rightarrow> 'w \<Rightarrow> nat \<Rightarrow> u64 \<Rightarrow> int \<times> snd_pcm \<times> 'w" where
  "snd_pcm_readn k = transfer k READN_FRAMES"

text \<open>
  \<^verbatim>\<open>snd_pcm_wait\<close> polls until something happens, without a bound on interrupted or spurious wake-ups;
  \<^verbatim>\<open>snd_pcm_recover\<close> retries the resume, sleeping a second in between, as long as the driver answers
  \<^verbatim>\<open>-EAGAIN\<close>.  Both return \<open>None\<close> when they never come back.
\<close>

abbreviation (input) POLLIN :: u16 where "POLLIN \<equiv> 0x1"
abbreviation (input) POLLOUT :: u16 where "POLLOUT \<equiv> 0x4"
abbreviation (input) POLLERR :: u16 where "POLLERR \<equiv> 0x8"
abbreviation (input) POLLNVAL :: u16 where "POLLNVAL \<equiv> 0x20"

partial_function (option) snd_pcm_wait ::
    "'w pcm_kernel \<Rightarrow> snd_pcm \<Rightarrow> int \<Rightarrow> 'w \<Rightarrow> (int \<times> snd_pcm \<times> 'w) option" where
  "snd_pcm_wait k pcm timeout w =
     (case k_poll k timeout w of (err, errno, revents, w) \<Rightarrow>
        if err < 0 then (if errno = EINTR then snd_pcm_wait k pcm timeout w else Some (- errno, pcm, w))
        else if err = 0 then Some (0, pcm, w)
        else if revents AND (POLLERR OR POLLNVAL) \<noteq> 0 then Some (correct_pcm_error k pcm w (- EIO))
        else if revents AND (POLLIN OR POLLOUT) \<noteq> 0 then Some (1, pcm, w)
        else snd_pcm_wait k pcm timeout w)"

partial_function (option) resume_loop :: "'w pcm_kernel \<Rightarrow> 'w \<Rightarrow> (int \<times> 'w) option" where
  "resume_loop k w =
     (case snd_pcm_resume k w of (err, w) \<Rightarrow>
        if err = - EAGAIN then resume_loop k (k_sleep k w) else Some (err, w))"

definition snd_pcm_recover :: "'w pcm_kernel \<Rightarrow> snd_pcm \<Rightarrow> 'w \<Rightarrow> int \<Rightarrow> (int \<times> snd_pcm \<times> 'w) option" where
  "snd_pcm_recover k pcm w err =
     (let err = (if err > 0 then - err else err)
      in if err = - EINTR then Some (0, pcm, w)
         else if err = - EPIPE then Some (snd_pcm_prepare k pcm w)
         else if err = - ESTRPIPE then do {
           (err, w) \<leftarrow> resume_loop k w;
           if err < 0 then Some (snd_pcm_prepare k pcm w) else Some (0, pcm, w) }
         else Some (err, pcm, w))"

section \<open>What the calls change\<close>

text \<open>Apart from the copy of the pointers in \<open>sync_ptr\<close>, the commands leave the handle alone.\<close>

definition same_handle :: "snd_pcm \<Rightarrow> snd_pcm \<Rightarrow> bool" where
  "same_handle pcm pcm' \<longleftrightarrow> pcm' = pcm\<lparr>sync_ptr := sync_ptr pcm'\<rparr> \<and> (sync_ptr pcm' = None \<longleftrightarrow> sync_ptr pcm = None)"

lemma same_handle_refl [simp]: "same_handle pcm pcm"
  by (simp add: same_handle_def)

lemma same_handle_trans [trans]: "same_handle a b \<Longrightarrow> same_handle b c \<Longrightarrow> same_handle a c"
  by (cases a; cases b; cases c) (simp add: same_handle_def)

lemma same_handle_put: "sync_ptr pcm = Some sp \<Longrightarrow> same_handle pcm (pcm\<lparr>sync_ptr := Some sp'\<rparr>)"
  by (simp add: same_handle_def)

lemma sync_ptr_same: "snd_pcm_sync_ptr0 k pcm w flags = (r, pcm', w') \<Longrightarrow> same_handle pcm pcm'"
  by (auto simp: snd_pcm_sync_ptr0_def same_handle_put split: option.splits prod.splits)

lemma state_same: "snd_pcm_state k pcm w = (r, pcm', w') \<Longrightarrow> same_handle pcm pcm'"
  by (auto simp: snd_pcm_state_def dest: sync_ptr_same split: prod.splits)

lemma correct_error_same: "correct_pcm_error k pcm w err = (r, pcm', w') \<Longrightarrow> same_handle pcm pcm'"
  by (auto simp: correct_pcm_error_def Let_def dest: state_same split: prod.splits)

lemma transfer_same: "transfer k t pcm w buf frames = (r, pcm', w') \<Longrightarrow> same_handle pcm pcm'"
  by (auto simp: transfer_def snd_pcm_check_error_def Let_def dest: correct_error_same sync_ptr_same
           split: prod.splits if_splits)

lemma move_pointer_same: "move_pointer k m pcm w frames = (r, pcm', w') \<Longrightarrow> same_handle pcm pcm'"
  by (auto simp: move_pointer_def Let_def dest: sync_ptr_same split: prod.splits if_splits)

lemma request_sync_same: "request_sync k rq pcm w = (r, pcm', w') \<Longrightarrow> same_handle pcm pcm'"
  by (auto simp: request_sync_def dest: sync_ptr_same split: prod.splits if_splits)

lemmas command_same = sync_ptr_same state_same correct_error_same transfer_same move_pointer_same request_sync_same

section \<open>Recovery\<close>

text \<open>The world before the resume number \<open>n\<close>.\<close>

primrec before_resume :: "'w pcm_kernel \<Rightarrow> 'w \<Rightarrow> nat \<Rightarrow> 'w" where
  "before_resume k w 0 = w"
| "before_resume k w (Suc n) = k_sleep k (snd (snd_pcm_resume k (before_resume k w n)))"

lemma before_resume_shift:
  "before_resume k (k_sleep k (snd (snd_pcm_resume k w))) n = before_resume k w (Suc n)"
  by (induction n) simp_all

lemma resume_loop_enough:
  assumes "\<forall>i < n. fst (snd_pcm_resume k (before_resume k w i)) = - EAGAIN"
    and "snd_pcm_resume k (before_resume k w n) = (r, w')" "r \<noteq> - EAGAIN"
  shows "resume_loop k w = Some (r, w')"
  using assms
proof (induction n arbitrary: w)
  case 0
  then show ?case by (subst resume_loop.simps) simp
next
  case (Suc n)
  obtain a w1 where a: "snd_pcm_resume k w = (a, w1)" by fastforce
  have "a = - EAGAIN" using Suc.prems(1) a by (metis before_resume.simps(1) fst_conv zero_less_Suc)
  moreover have "resume_loop k (k_sleep k w1) = Some (r, w')"
  proof (rule Suc.IH)
    show "\<forall>i < n. fst (snd_pcm_resume k (before_resume k (k_sleep k w1) i)) = - EAGAIN"
      using Suc.prems(1) before_resume_shift [of k w] a by (metis Suc_less_eq snd_conv)
    show "snd_pcm_resume k (before_resume k (k_sleep k w1) n) = (r, w')"
      using Suc.prems(2) before_resume_shift [of k w n] a by simp
  qed (use Suc.prems in simp)
  ultimately show ?case by (subst resume_loop.simps) (simp add: a)
qed

definition resumed :: "'w pcm_kernel \<Rightarrow> 'w \<Rightarrow> int \<times> 'w \<Rightarrow> bool" where
  "resumed k w y \<longleftrightarrow> (\<exists>n. (\<forall>i < n. fst (snd_pcm_resume k (before_resume k w i)) = - EAGAIN) \<and>
     snd_pcm_resume k (before_resume k w n) = y \<and> fst y \<noteq> - EAGAIN)"

lemma resumed_step:
  assumes "snd_pcm_resume k w = (- EAGAIN, w1)" "resumed k (k_sleep k w1) y"
  shows "resumed k w y"
proof -
  have sh: "before_resume k (k_sleep k w1) i = before_resume k w (Suc i)" for i
    using before_resume_shift [of k w i] assms(1) by simp
  from assms(2) obtain n where
    n: "\<forall>i < n. fst (snd_pcm_resume k (before_resume k w (Suc i))) = - EAGAIN"
       "snd_pcm_resume k (before_resume k w (Suc n)) = y" "fst y \<noteq> - EAGAIN"
    unfolding resumed_def sh by blast
  have "\<forall>i < Suc n. fst (snd_pcm_resume k (before_resume k w i)) = - EAGAIN"
    using n(1) assms(1) by (auto simp: less_Suc_eq_0_disj simp del: before_resume.simps(2))
  with n show ?thesis unfolding resumed_def by blast
qed

lemma resume_loop_returns:
  assumes "resume_loop k w = Some y"
  shows "resumed k w y"
proof (rule resume_loop.raw_induct [OF _ assms])
  fix f :: "'a pcm_kernel \<Rightarrow> 'a \<Rightarrow> (int \<times> 'a) option" and k w y
  assume ih: "\<And>k w y. f k w = Some y \<Longrightarrow> resumed k w y"
    and s: "(case snd_pcm_resume k w of (err, w) \<Rightarrow>
        if err = - EAGAIN then f k (k_sleep k w) else Some (err, w)) = Some y"
  obtain a w1 where a: "snd_pcm_resume k w = (a, w1)" by fastforce
  show "resumed k w y"
  proof (cases "a = - EAGAIN")
    case True
    with a s ih [of k "k_sleep k w1" y] show ?thesis by (intro resumed_step [of k w w1]) simp_all
  next
    case False
    with a s have "y = (a, w1)" by simp
    with a False show ?thesis unfolding resumed_def by (intro exI [of _ 0]) simp
  qed
qed

text \<open>\<^verbatim>\<open>snd_pcm_recover\<close> on a suspended stream: it comes back with result \<open>x\<close> exactly when the driver answers
  something other than \<^verbatim>\<open>-EAGAIN\<close> after finitely many tries, and the result is then that of
  \<^verbatim>\<open>snd_pcm_prepare\<close> if the resume failed and 0 if it succeeded.  A driver that answers \<^verbatim>\<open>-EAGAIN\<close> for ever
  keeps the caller for ever.\<close>

theorem recover_suspended:
  "snd_pcm_recover k pcm w (- ESTRPIPE) = Some x \<longleftrightarrow>
     (\<exists>n r w'. (\<forall>i < n. fst (snd_pcm_resume k (before_resume k w i)) = - EAGAIN) \<and>
        snd_pcm_resume k (before_resume k w n) = (r, w') \<and> r \<noteq> - EAGAIN \<and>
        x = (if r < 0 then snd_pcm_prepare k pcm w' else (0, pcm, w')))"
  (is "?l \<longleftrightarrow> (\<exists>n r w'. ?P n r w')")
proof
  assume ?l
  then have l: "resume_loop k w \<bind> (\<lambda>(r, w'). Some (if r < 0 then snd_pcm_prepare k pcm w' else (0, pcm, w'))) = Some x"
    by (simp add: snd_pcm_recover_def if_distrib [of Some])
  then obtain r w' where y: "resume_loop k w = Some (r, w')" by (cases "resume_loop k w") fastforce+
  with l have x: "x = (if r < 0 then snd_pcm_prepare k pcm w' else (0, pcm, w'))" by simp
  from resume_loop_returns [OF y] obtain n where
    "(\<forall>i < n. fst (snd_pcm_resume k (before_resume k w i)) = - EAGAIN) \<and>
     snd_pcm_resume k (before_resume k w n) = (r, w') \<and> r \<noteq> - EAGAIN"
    unfolding resumed_def fst_conv by blast
  with x show "\<exists>n r w'. ?P n r w'" by blast
next
  assume "\<exists>n r w'. ?P n r w'"
  then obtain n r w' where p: "?P n r w'" by blast
  then have "resume_loop k w = Some (r, w')" using resume_loop_enough [of n k w r w'] by simp
  with p show ?l by (simp add: snd_pcm_recover_def)
qed

section \<open>Transfers\<close>

text \<open>What the library makes of an interrupted call: the state tells why the driver gave up.\<close>

definition error_of_state :: "int \<Rightarrow> int \<Rightarrow> int" where
  "error_of_state st err =
     (if st = STATE_XRUN then - EPIPE else if st = STATE_SUSPENDED then - ESTRPIPE
      else if st = STATE_DISCONNECTED then - ENODEV else err)"

text \<open>Every transfer either returns the count the driver reports, or a negative error; an interrupted
  transfer on a stream that has over- or underrun, is suspended or is disconnected reports that
  instead of the interruption.  Whatever the outcome, the call changes nothing in the handle but the
  copy of the pointers.\<close>

theorem transfer_outcome:
  assumes "k_transfer k t buf frames w = (ret, errno, n, w1)" "ret < 0 \<longrightarrow> 0 < errno"
    and "transfer k t pcm w buf frames = (r, pcm', w')"
  shows "same_handle pcm pcm' \<and>
         (if 0 \<le> ret then r = n
          else if errno \<noteq> EINTR then r = - errno \<and> w' = w1
          else r = error_of_state (fst (snd_pcm_state k pcm w1)) (- EINTR))"
proof
  show "same_handle pcm pcm'" using assms(3) by (rule transfer_same)
  show "if 0 \<le> ret then r = n
        else if errno \<noteq> EINTR then r = - errno \<and> w' = w1
        else r = error_of_state (fst (snd_pcm_state k pcm w1)) (- EINTR)"
    using assms by (auto simp: transfer_def snd_pcm_check_error_def correct_pcm_error_def error_of_state_def Let_def
           split: prod.splits if_splits)
qed

text \<open>A device whose world is the two shared pages and whose transfers are interrupted.\<close>

definition interrupted_kernel :: "(snd_pcm_mmap_status \<times> snd_pcm_mmap_control) pcm_kernel" where
  "interrupted_kernel = \<lparr>k_request = (\<lambda>_ w. (0, 0, w)), k_sync_ptr = (\<lambda>sp w. (0, 0, sp, w)),
     k_status_page = (\<lambda>w. (fst w, w)), k_control_page = (\<lambda>w. (snd w, w)), k_control_store = (\<lambda>c w. (fst w, c)),
     k_delay = (\<lambda>w. (0, 0, 0, w)), k_transfer = (\<lambda>_ _ _ w. (- 1, EINTR, 0, w)),
     k_move = (\<lambda>_ f w. (0, 0, f, w)), k_poll = (\<lambda>_ w. (0, 0, 0, w)), k_sleep = (\<lambda>w. w)\<rparr>"

definition xrun_world :: "snd_pcm_mmap_status \<times> snd_pcm_mmap_control" where
  "xrun_world = (\<lparr>state = STATE_XRUN, hw_ptr = 0\<rparr>, \<lparr>appl_ptr = 0, ctl_avail_min = 1\<rparr>)"

definition zero_sw_params :: snd_pcm_sw_params where
  "zero_sw_params = \<lparr>sw_tstamp_mode = 0, sw_period_step = 0, sw_sleep_min = 0, sw_avail_min = 0, sw_xfer_align = 0,
     sw_start_threshold = 0, sw_stop_threshold = 0, sw_silence_threshold = 0, sw_silence_size = 0, sw_boundary = 0,
     sw_tstamp_type = 0, sw_period_event = 0\<rparr>"

text \<open>The handle as \<^verbatim>\<open>calloc\<close> returns it, with the stream and the file descriptor filled in.\<close>

definition new_pcm :: "int \<Rightarrow> int \<Rightarrow> snd_pcm" where
  "new_pcm strm fd = \<lparr>pcm_name = None, pcm_type = 0, pcm_stream = strm, pcm_mode = 0, pcm_setup = False, pcm_monotonic = False,
     pcm_card = 0, pcm_device = 0, pcm_subdevice = 0, pcm_protocol = 0, pcm_fd = fd,
     pcm_pollfd = \<lparr>pfd_fd = 0, pfd_events = 0, pfd_revents = 0\<rparr>, pcm_hw_params = zero_params,
     pcm_sw_params = zero_sw_params, pcm_access = 0, pcm_format = 0, pcm_subformat = 0, pcm_channels = 0,
     pcm_rate = 0, pcm_period_size = 0, pcm_period_time = 0, pcm_boundary = 0, pcm_buffer_size = 0,
     pcm_sample_bits = 0, pcm_frame_bits = 0, sync_ptr = None, status_addr = None, control_addr = None,
     mmap_channels = None, running_areas = None\<rparr>"

theorem transfer_outcome_witness:
  "fst (transfer interrupted_kernel WRITEI_FRAMES (new_pcm 0 3) xrun_world 0 10) = - EPIPE"
  using transfer_outcome [of interrupted_kernel WRITEI_FRAMES 0 10 xrun_world "- 1" EINTR 0 xrun_world "new_pcm 0 3"]
  by (cases "transfer interrupted_kernel WRITEI_FRAMES (new_pcm 0 3) xrun_world 0 10")
    (simp add: interrupted_kernel_def error_of_state_def snd_pcm_state_def snd_pcm_sync_ptr0_def mmap_status_def
       new_pcm_def xrun_world_def)

text \<open>A driver that is ready to resume at the second try.\<close>

definition slow_kernel :: "(snd_pcm_mmap_status \<times> snd_pcm_mmap_control) pcm_kernel" where
  "slow_kernel = interrupted_kernel\<lparr>k_request :=
     (\<lambda>_ w. if state (fst w) = STATE_SUSPENDED then (- 1, EAGAIN, ((fst w)\<lparr>state := STATE_RUNNING\<rparr>, snd w)) else (0, 0, w))\<rparr>"

definition suspended_world :: "snd_pcm_mmap_status \<times> snd_pcm_mmap_control" where
  "suspended_world = (\<lparr>state = STATE_SUSPENDED, hw_ptr = 0\<rparr>, \<lparr>appl_ptr = 0, ctl_avail_min = 1\<rparr>)"

theorem recover_suspended_witness:
  "\<exists>w. snd_pcm_recover slow_kernel (new_pcm 0 3) suspended_world (- ESTRPIPE) = Some (0, new_pcm 0 3, w)"
proof -
  let ?w = "(\<lparr>state = STATE_RUNNING, hw_ptr = 0\<rparr>, \<lparr>appl_ptr = 0, ctl_avail_min = 1\<rparr>) :: snd_pcm_mmap_status \<times> snd_pcm_mmap_control"
  have "\<forall>i < Suc 0. fst (snd_pcm_resume slow_kernel (before_resume slow_kernel suspended_world i)) = - EAGAIN"
    by (simp add: snd_pcm_resume_def request_def slow_kernel_def suspended_world_def)
  moreover have "snd_pcm_resume slow_kernel (before_resume slow_kernel suspended_world (Suc 0)) = (0, ?w)"
    by (simp add: snd_pcm_resume_def request_def slow_kernel_def suspended_world_def interrupted_kernel_def)
  ultimately have "snd_pcm_recover slow_kernel (new_pcm 0 3) suspended_world (- ESTRPIPE) = Some (0, new_pcm 0 3, ?w)"
    unfolding recover_suspended by (intro exI [of _ "Suc 0"] exI [of _ 0] exI [of _ ?w]) simp
  then show ?thesis by blast
qed

end
