(* ===== verification/Pcm_Ring.thy ===== *)
theory Pcm_Ring
  imports Pcm_Device
begin

text \<open>
  The ring buffer of a stream: \<^verbatim>\<open>src/src/pcm.c\<close>, lines 941 to 1060.  The driver moves \<^verbatim>\<open>hw_ptr\<close>, the
  application moves \<^verbatim>\<open>appl_ptr\<close>; both are frame counters that wrap at a boundary, and their distance tells
  how many frames may be read or written.

  The counters are compared with the two frame counts they stand for, which never wrap.  The
  locale \<open>stream_avail\<close> states what the computation of the distance promises; it is interpreted for the
  playback and for the capture direction.
\<close>

section \<open>Definitions\<close>

definition playback_avail :: "snd_pcm \<Rightarrow> u64 \<Rightarrow> u64 \<Rightarrow> u64" where
  "playback_avail pcm hw appl =
     (let avail = hw + pcm_buffer_size pcm - appl
      in if avail <s 0 then avail + pcm_boundary pcm
         else if pcm_boundary pcm \<le> avail then avail - pcm_boundary pcm
         else avail)"

definition capture_avail :: "snd_pcm \<Rightarrow> u64 \<Rightarrow> u64 \<Rightarrow> u64" where
  "capture_avail pcm hw appl =
     (let avail = hw - appl in if avail <s 0 then avail + pcm_boundary pcm else avail)"

definition snd_pcm_mmap_playback_avail :: "'w pcm_kernel \<Rightarrow> snd_pcm \<Rightarrow> 'w \<Rightarrow> u64 \<times> 'w" where
  "snd_pcm_mmap_playback_avail k pcm w =
     (let (st, w) = mmap_status k pcm w; (ctl, w) = mmap_control k pcm w
      in (playback_avail pcm (hw_ptr st) (appl_ptr ctl), w))"

definition snd_pcm_mmap_capture_avail :: "'w pcm_kernel \<Rightarrow> snd_pcm \<Rightarrow> 'w \<Rightarrow> u64 \<times> 'w" where
  "snd_pcm_mmap_capture_avail k pcm w =
     (let (st, w) = mmap_status k pcm w; (ctl, w) = mmap_control k pcm w
      in (capture_avail pcm (hw_ptr st) (appl_ptr ctl), w))"

definition snd_pcm_mmap_avail :: "'w pcm_kernel \<Rightarrow> snd_pcm \<Rightarrow> 'w \<Rightarrow> u64 \<times> 'w" where
  "snd_pcm_mmap_avail k pcm w =
     (if pcm_stream pcm = STREAM_PLAYBACK then snd_pcm_mmap_playback_avail k pcm w
      else snd_pcm_mmap_capture_avail k pcm w)"

definition snd_pcm_mmap_hw_avail :: "'w pcm_kernel \<Rightarrow> snd_pcm \<Rightarrow> 'w \<Rightarrow> int \<times> 'w" where
  "snd_pcm_mmap_hw_avail k pcm w =
     (let (avail, w) = snd_pcm_mmap_avail k pcm w in (sint (pcm_buffer_size pcm - avail), w))"

definition snd_pcm_avail_update :: "'w pcm_kernel \<Rightarrow> snd_pcm \<Rightarrow> 'w \<Rightarrow> int \<times> snd_pcm \<times> 'w" where
  "snd_pcm_avail_update k pcm w =
     (let (_, pcm, w) = snd_pcm_sync_ptr0 k pcm w 0;
          (avail, w) = snd_pcm_mmap_avail k pcm w;
          (st, pcm, w) = snd_pcm_state k pcm w
      in if st = STATE_RUNNING \<and> sw_stop_threshold (pcm_sw_params pcm) \<le> avail then
           case k_request k REQ_XRUN w of (ret, errno, w) \<Rightarrow>
             if ret < 0 then (- errno, pcm, w) else (- EPIPE, pcm, w)
         else if st = STATE_XRUN then (- EPIPE, pcm, w)
         else (sint avail, pcm, w))"

definition snd_pcm_avail :: "'w pcm_kernel \<Rightarrow> snd_pcm \<Rightarrow> 'w \<Rightarrow> int \<times> snd_pcm \<times> 'w" where
  "snd_pcm_avail k pcm w =
     (let (err, pcm, w) = snd_pcm_hwsync k pcm w
      in if err < 0 then (err, pcm, w) else snd_pcm_avail_update k pcm w)"

text \<open>\<^verbatim>\<open>int\<close> of a \<^verbatim>\<open>long\<close>: the conversion keeps the low 32 bits.\<close>

definition long_to_int :: "int \<Rightarrow> int" where
  "long_to_int v = sint (word_of_int v :: u32)"

definition snd_pcm_avail_delay :: "'w pcm_kernel \<Rightarrow> snd_pcm \<Rightarrow> 'w \<Rightarrow> int \<Rightarrow> int \<Rightarrow>
    int \<times> int \<times> int \<times> snd_pcm \<times> 'w" where
  "snd_pcm_avail_delay k pcm w availp delayp =
     (let (err, delayp, w) = snd_pcm_delay k w delayp
      in if err < 0 then (err, availp, delayp, pcm, w)
         else let (val, pcm, w) = snd_pcm_avail_update k pcm w
              in if val < 0 then (long_to_int val, availp, delayp, pcm, w)
                 else (0, val, delayp, pcm, w))"

text \<open>The division by a buffer size of 0 traps.\<close>

definition snd_pcm_mmap_begin :: "'w pcm_kernel \<Rightarrow> snd_pcm \<Rightarrow> 'w \<Rightarrow> u64 \<Rightarrow>
    (int \<times> snd_pcm_channel_area list option \<times> u64 \<times> u64 \<times> 'w) option" where
  "snd_pcm_mmap_begin k pcm w frames =
     (if pcm_buffer_size pcm = 0 then None
      else let (ctl, w) = mmap_control k pcm w;
               offset = appl_ptr ctl mod pcm_buffer_size pcm;
               (avail, w) = snd_pcm_mmap_avail k pcm w;
               avail = (if avail > pcm_buffer_size pcm then pcm_buffer_size pcm else avail);
               cont = pcm_buffer_size pcm - offset;
               f = frames;
               f = (if f > avail then avail else f);
               f = (if f > cont then cont else f)
           in Some (0, running_areas pcm, offset, f, w))"

definition snd_pcm_mmap_commit :: "'w pcm_kernel \<Rightarrow> snd_pcm \<Rightarrow> 'w \<Rightarrow> u64 \<Rightarrow> int \<times> snd_pcm \<times> 'w" where
  "snd_pcm_mmap_commit k pcm w frames =
     (let (ctl, w) = mmap_control k pcm w;
          appl = appl_ptr ctl + frames;
          appl = (if pcm_boundary pcm \<le> appl then appl - pcm_boundary pcm else appl);
          (pcm, w) = store_control k pcm w (\<lambda>c. c\<lparr>appl_ptr := appl\<rparr>);
          (_, pcm, w) = snd_pcm_sync_ptr0 k pcm w 0
      in (sint frames, pcm, w))"

section \<open>The counters and the counts\<close>

lemma u64_sless_0: "- (2 ^ 63) \<le> x \<Longrightarrow> x < 2 ^ 63 \<Longrightarrow> (word_of_int x :: u64) <s 0 \<longleftrightarrow> x < 0"
  by (simp add: word_sless_alt sint_sbintrunc' signed_take_bit_int_eq_self)

lemma unat_of_int_u64: "0 \<le> x \<Longrightarrow> x < 2 ^ 64 \<Longrightarrow> unat (word_of_int x :: u64) = nat x"
  by (simp add: unsigned_of_int take_bit_int_eq_self)

lemma unat_of_nat_u64: "n < 2 ^ 64 \<Longrightarrow> unat (of_nat n :: u64) = n"
  by (simp add: unat_of_nat)

lemma mod_add_small:
  assumes "(d :: nat) < b"
  shows "(n + d) mod b = n mod b + d \<or> (n + d) mod b + b = n mod b + d"
proof (cases "n mod b + d < b")
  case True
  have "(n + d) mod b = (n mod b + d) mod b" by (simp add: mod_add_left_eq)
  with True show ?thesis by simp
next
  case False
  have "(n + d) mod b = (n mod b + d) mod b" by (simp add: mod_add_left_eq)
  also have "\<dots> = (n mod b + d - b) mod b" using False by (simp add: le_mod_geq)
  also have "\<dots> = n mod b + d - b"
    using assms mod_less_divisor [of b n] by (intro mod_less) linarith
  finally show ?thesis using False by simp
qed

text \<open>The value of a counter that has advanced by \<open>n\<close> frames: a boundary of 0 means that it never wraps.\<close>

definition ptr :: "snd_pcm \<Rightarrow> nat \<Rightarrow> u64" where
  "ptr pcm n = of_nat (if pcm_boundary pcm = 0 then n else n mod unat (pcm_boundary pcm))"

abbreviation bufsize :: "snd_pcm \<Rightarrow> nat" where
  "bufsize pcm \<equiv> unat (pcm_buffer_size pcm)"

definition ring_fits :: "snd_pcm \<Rightarrow> nat \<Rightarrow> nat \<Rightarrow> bool" where
  "ring_fits pcm hc ac \<longleftrightarrow> 0 < bufsize pcm \<and>
     (if pcm_boundary pcm = 0 then hc + bufsize pcm < 2 ^ 63 \<and> ac + bufsize pcm < 2 ^ 63
      else bufsize pcm dvd unat (pcm_boundary pcm) \<and> bufsize pcm < unat (pcm_boundary pcm) \<and>
           unat (pcm_boundary pcm) + bufsize pcm \<le> 2 ^ 63)"

lemma ring_fits_mono: "ring_fits pcm hc ac \<Longrightarrow> hc' \<le> hc \<Longrightarrow> ac' \<le> ac \<Longrightarrow> ring_fits pcm hc' ac'"
  by (auto simp: ring_fits_def split: if_splits)

lemma unat_ptr:
  assumes "ring_fits pcm hc ac"
  shows "unat (ptr pcm hc) = (if pcm_boundary pcm = 0 then hc else hc mod unat (pcm_boundary pcm))"
    and "unat (ptr pcm ac) = (if pcm_boundary pcm = 0 then ac else ac mod unat (pcm_boundary pcm))"
proof -
  have *: "unat (ptr pcm n) = (if pcm_boundary pcm = 0 then n else n mod unat (pcm_boundary pcm))"
    if "ring_fits pcm n n" for n
  proof (cases "pcm_boundary pcm = 0")
    case True
    with that show ?thesis by (simp add: ptr_def ring_fits_def unat_of_nat)
  next
    case False
    then have "n mod unat (pcm_boundary pcm) < unat (pcm_boundary pcm)" by (simp add: unat_gt_0)
    with False unat_u64_less [of "pcm_boundary pcm"] show ?thesis by (simp add: ptr_def unat_of_nat)
  qed
  show "unat (ptr pcm hc) = (if pcm_boundary pcm = 0 then hc else hc mod unat (pcm_boundary pcm))"
    using assms by (intro *) (auto simp: ring_fits_def split: if_splits)
  show "unat (ptr pcm ac) = (if pcm_boundary pcm = 0 then ac else ac mod unat (pcm_boundary pcm))"
    using assms by (intro *) (auto simp: ring_fits_def split: if_splits)
qed

text \<open>The counter as an integer: the word is the image of every integer with the same value.\<close>

lemma ptr_word: "ring_fits pcm hc ac \<Longrightarrow> ptr pcm hc = word_of_int (int (unat (ptr pcm hc)))"
  "ring_fits pcm hc ac \<Longrightarrow> ptr pcm ac = word_of_int (int (unat (ptr pcm ac)))"
  by simp_all

lemma playback_word:
  "playback_avail pcm hw appl =
     (let x = int (unat hw) + int (bufsize pcm) - int (unat appl); a = (word_of_int x :: u64)
      in if a <s 0 then a + pcm_boundary pcm else if pcm_boundary pcm \<le> a then a - pcm_boundary pcm else a)"
  by (simp add: playback_avail_def Let_def)

lemma capture_word:
  "capture_avail pcm hw appl =
     (let x = int (unat hw) - int (unat appl); a = (word_of_int x :: u64)
      in if a <s 0 then a + pcm_boundary pcm else a)"
  by (simp add: capture_avail_def Let_def)

section \<open>The contract of a direction\<close>

text \<open>
  \<open>level_ok n hc ac\<close>: after \<open>hc\<close> frames of the driver and \<open>ac\<close> of the application the fill level of a buffer
  of \<open>n\<close> frames is within its bounds; \<open>room n hc ac\<close> is the number of frames the application may
  transfer next.
\<close>

locale stream_avail =
  fixes avail :: "snd_pcm \<Rightarrow> u64 \<Rightarrow> u64 \<Rightarrow> u64"
    and level_ok :: "snd_pcm \<Rightarrow> nat \<Rightarrow> nat \<Rightarrow> bool"
    and room :: "snd_pcm \<Rightarrow> nat \<Rightarrow> nat \<Rightarrow> nat"
  assumes avail_exact: "ring_fits pcm hc ac \<Longrightarrow> level_ok pcm hc ac \<Longrightarrow>
      unat (avail pcm (ptr pcm hc) (ptr pcm ac)) = room pcm hc ac"
    and room_le: "level_ok pcm hc ac \<Longrightarrow> room pcm hc ac \<le> bufsize pcm"
    and appl_moves: "level_ok pcm hc ac \<Longrightarrow> f \<le> room pcm hc ac \<Longrightarrow>
      level_ok pcm hc (ac + f) \<and> room pcm hc (ac + f) + f = room pcm hc ac"
    and hw_moves: "level_ok pcm hc ac \<Longrightarrow> m + room pcm hc ac \<le> bufsize pcm \<Longrightarrow>
      level_ok pcm (hc + m) ac \<and> room pcm (hc + m) ac = room pcm hc ac + m"
    and owner: "level_ok pcm hc ac \<Longrightarrow> (hc + (bufsize pcm - room pcm hc ac)) mod bufsize pcm = ac mod bufsize pcm"
begin

text \<open>
  The slots of the buffer the driver may touch before the application moves again begin at its own
  position and end where those of the application begin: none of the slots of the application is
  among them.
\<close>

lemma free_slot:
  assumes ok: "level_ok pcm hc ac" and i: "i < room pcm hc ac"
    and j: "hc \<le> j" "j < hc + (bufsize pcm - room pcm hc ac)"
  shows "(ac + i) mod bufsize pcm \<noteq> j mod bufsize pcm"
proof
  assume eq: "(ac + i) mod bufsize pcm = j mod bufsize pcm"
  define e where "e = hc + (bufsize pcm - room pcm hc ac)"
  have "(e + i) mod bufsize pcm = (ac + i) mod bufsize pcm"
    using owner [OF ok] unfolding e_def by (metis mod_add_left_eq)
  then have m: "(e + i) mod bufsize pcm = j mod bufsize pcm" using eq by simp
  have lt: "j < e + i" using j(2) by (simp add: e_def)
  have "e + i < j + bufsize pcm" using i j(1) room_le [OF ok] by (simp add: e_def)
  moreover have "bufsize pcm dvd (e + i - j)" using m lt by (simp add: mod_eq_dvd_iff_nat)
  ultimately show False using lt by (metis less_diff_conv2 less_imp_le_nat nat_dvd_not_less zero_less_diff add.commute)
qed

text \<open>The frames granted by \<^verbatim>\<open>snd_pcm_mmap_begin\<close>, with its two limits.\<close>

lemma grant:
  assumes fits: "ring_fits pcm hc ac" and ok: "level_ok pcm hc ac"
  defines "a \<equiv> avail pcm (ptr pcm hc) (ptr pcm ac)"
  defines "a' \<equiv> if a > pcm_buffer_size pcm then pcm_buffer_size pcm else a"
  shows "unat (if frames > a' then a' else frames) = min (unat frames) (room pcm hc ac)"
proof -
  have "unat a = room pcm hc ac" unfolding a_def using fits ok by (rule avail_exact)
  moreover from this have "a' = a"
    using room_le [OF ok] by (simp add: a'_def word_less_nat_alt)
  ultimately show ?thesis by (simp add: min_def word_less_nat_alt)
qed

end

lemma playback_exact:
  assumes fits: "ring_fits pcm hc ac" and le: "hc \<le> ac" "ac \<le> hc + bufsize pcm"
  shows "unat (playback_avail pcm (ptr pcm hc) (ptr pcm ac)) = hc + bufsize pcm - ac"
proof -
  define n where "n = bufsize pcm"
  define d where "d = ac - hc"
  have d: "ac = hc + d" "d \<le> n" using le by (simp_all add: d_def n_def)
  show ?thesis
  proof (cases "pcm_boundary pcm = 0")
    case True
    then have "playback_avail pcm (ptr pcm hc) (ptr pcm ac) = pcm_buffer_size pcm - of_nat d"
      by (simp add: playback_avail_def Let_def ptr_def d)
    also have "\<dots> = of_nat (n - d)" using d(2) by (simp add: n_def of_nat_diff)
    finally have "unat (playback_avail pcm (ptr pcm hc) (ptr pcm ac)) = (n - d) mod 2 ^ 64"
      by (simp only: unat_of_nat) simp
    moreover have "n - d < 2 ^ 64" using fits True by (auto simp: ring_fits_def n_def)
    ultimately show ?thesis using d by (simp add: n_def)
  next
    case False
    define b where "b = unat (pcm_boundary pcm)"
    have b: "n < b" "b + n \<le> 2 ^ 63" "0 < n" using fits False by (auto simp: ring_fits_def n_def b_def)
    have bw: "pcm_boundary pcm = word_of_int (int b)" by (simp add: b_def)
    have h: "hc mod b < b" using b by simp
    from mod_add_small [of d b hc] d b
    consider "ac mod b = hc mod b + d" | "ac mod b + b = hc mod b + d" by auto
    then show ?thesis
    proof cases
      case 1
      then have x: "int (hc mod b) + int n - int (ac mod b) = int (n - d)" using d by simp
      have lt: "\<not> pcm_boundary pcm \<le> word_of_int (int (n - d))"
        using b by (simp add: word_le_nat_alt b_def [symmetric] unat_of_nat)
      have "playback_avail pcm (ptr pcm hc) (ptr pcm ac) = word_of_int (int (n - d))"
        unfolding playback_word unat_ptr [OF fits] n_def [symmetric] b_def [symmetric]
        using False x lt u64_sless_0 [of "int (n - d)"] b by (simp add: Let_def)
      then show ?thesis using d b unat_of_nat_u64 [of "n - d"] by (simp add: n_def [symmetric] del: of_nat_diff)
    next
      case 2
      then have x: "int (hc mod b) + int n - int (ac mod b) = int (n - d + b)" using d by simp
      have ge: "pcm_boundary pcm \<le> word_of_int (int (n - d + b))"
        using unat_of_nat_u64 [of "n - d + b"] b d unfolding word_le_nat_alt b_def [symmetric] of_int_of_nat_eq by simp
      have ns: "\<not> (word_of_int (int (n - d + b)) :: u64) <s 0"
      proof -
        have "0 < d" using 2 h by linarith
        then have "n - d + b < 9223372036854775808" using b d by simp
        then show ?thesis by (subst u64_sless_0) simp_all
      qed
      have "playback_avail pcm (ptr pcm hc) (ptr pcm ac) = word_of_int (int (n - d + b)) - pcm_boundary pcm"
        unfolding playback_word unat_ptr [OF fits] n_def [symmetric] b_def [symmetric]
        using False x ge ns by (simp only: Let_def if_False if_True)
      also have "\<dots> = word_of_int (int (n - d))" by (simp add: bw)
      finally show ?thesis using d b unat_of_nat_u64 [of "n - d"] by (simp add: n_def [symmetric] del: of_nat_diff)
    qed
  qed
qed

lemma capture_exact:
  assumes fits: "ring_fits pcm hc ac" and le: "ac \<le> hc" "hc \<le> ac + bufsize pcm"
  shows "unat (capture_avail pcm (ptr pcm hc) (ptr pcm ac)) = hc - ac"
proof -
  define n where "n = bufsize pcm"
  define d where "d = hc - ac"
  have d: "hc = ac + d" "d \<le> n" using le by (simp_all add: d_def n_def)
  show ?thesis
  proof (cases "pcm_boundary pcm = 0")
    case True
    then have "capture_avail pcm (ptr pcm hc) (ptr pcm ac) = of_nat d"
      by (simp add: capture_avail_def Let_def ptr_def d)
    then show ?thesis using d fits True by (simp add: unat_of_nat ring_fits_def)
  next
    case False
    define b where "b = unat (pcm_boundary pcm)"
    have b: "n < b" "b + n \<le> 2 ^ 63" "0 < n" using fits False by (auto simp: ring_fits_def n_def b_def)
    have bw: "pcm_boundary pcm = word_of_int (int b)" by (simp add: b_def)
    have h: "ac mod b < b" using b by simp
    from mod_add_small [of d b ac] d b
    consider "hc mod b = ac mod b + d" | "hc mod b + b = ac mod b + d" by auto
    then show ?thesis
    proof cases
      case 1
      then have x: "int (hc mod b) - int (ac mod b) = int d" by simp
      have "capture_avail pcm (ptr pcm hc) (ptr pcm ac) = word_of_int (int d)"
        unfolding capture_word unat_ptr [OF fits] b_def [symmetric]
        using False x u64_sless_0 [of "int d"] b d by (simp add: Let_def)
      then show ?thesis using d b by (simp add: unat_of_nat)
    next
      case 2
      then have x: "int (hc mod b) - int (ac mod b) = int d - int b" by simp
      have "capture_avail pcm (ptr pcm hc) (ptr pcm ac) = word_of_int (int d - int b) + pcm_boundary pcm"
        unfolding capture_word unat_ptr [OF fits] b_def [symmetric]
        using False x u64_sless_0 [of "int d - int b"] b d by (simp add: Let_def)
      also have "\<dots> = word_of_int (int d)" by (simp add: bw)
      finally show ?thesis using d b by (simp add: unat_of_nat)
    qed
  qed
qed

interpretation playback: stream_avail playback_avail
  "\<lambda>pcm hc ac. hc \<le> ac \<and> ac \<le> hc + bufsize pcm" "\<lambda>pcm hc ac. hc + bufsize pcm - ac"
proof unfold_locales
  fix pcm hc ac
  assume "hc \<le> ac \<and> ac \<le> hc + bufsize pcm"
  then show "(hc + (bufsize pcm - (hc + bufsize pcm - ac))) mod bufsize pcm = ac mod bufsize pcm" by simp
qed (auto simp: playback_exact)

interpretation capture: stream_avail capture_avail
  "\<lambda>pcm hc ac. ac \<le> hc \<and> hc \<le> ac + bufsize pcm" "\<lambda>pcm hc ac. hc - ac"
proof unfold_locales
  fix pcm hc ac
  assume "ac \<le> hc \<and> hc \<le> ac + bufsize pcm"
  then have "hc + (bufsize pcm - (hc - ac)) = ac + bufsize pcm" by linarith
  then show "(hc + (bufsize pcm - (hc - ac))) mod bufsize pcm = ac mod bufsize pcm" by simp
qed (auto simp: capture_exact)

text \<open>A stream of either direction.\<close>

definition avail_of :: "snd_pcm \<Rightarrow> u64 \<Rightarrow> u64 \<Rightarrow> u64" where
  "avail_of pcm = (if pcm_stream pcm = STREAM_PLAYBACK then playback_avail pcm else capture_avail pcm)"

definition level_of :: "snd_pcm \<Rightarrow> nat \<Rightarrow> nat \<Rightarrow> bool" where
  "level_of pcm hc ac \<longleftrightarrow>
     (if pcm_stream pcm = STREAM_PLAYBACK then hc \<le> ac \<and> ac \<le> hc + bufsize pcm
      else ac \<le> hc \<and> hc \<le> ac + bufsize pcm)"

definition room_of :: "snd_pcm \<Rightarrow> nat \<Rightarrow> nat \<Rightarrow> nat" where
  "room_of pcm hc ac = (if pcm_stream pcm = STREAM_PLAYBACK then hc + bufsize pcm - ac else hc - ac)"

interpretation ring: stream_avail avail_of level_of room_of
proof unfold_locales
  fix pcm hc ac f m
  assume ok: "level_of pcm hc ac"
  show "room_of pcm hc ac \<le> bufsize pcm"
    using ok playback.room_le [of hc ac pcm] capture.room_le [of ac hc pcm] by (auto simp: level_of_def room_of_def)
  show "ring_fits pcm hc ac \<Longrightarrow> unat (avail_of pcm (ptr pcm hc) (ptr pcm ac)) = room_of pcm hc ac"
    using ok playback.avail_exact [of pcm hc ac] capture.avail_exact [of pcm hc ac]
    by (simp add: level_of_def room_of_def avail_of_def split: if_splits)
  show "f \<le> room_of pcm hc ac \<Longrightarrow> level_of pcm hc (ac + f) \<and> room_of pcm hc (ac + f) + f = room_of pcm hc ac"
    using ok playback.appl_moves [of hc ac pcm f] capture.appl_moves [of ac hc pcm f]
    by (simp add: level_of_def room_of_def split: if_splits)
  show "m + room_of pcm hc ac \<le> bufsize pcm \<Longrightarrow>
      level_of pcm (hc + m) ac \<and> room_of pcm (hc + m) ac = room_of pcm hc ac + m"
    using ok playback.hw_moves [of hc ac pcm m] capture.hw_moves [of ac hc pcm m]
    by (simp add: level_of_def room_of_def split: if_splits)
  show "(hc + (bufsize pcm - room_of pcm hc ac)) mod bufsize pcm = ac mod bufsize pcm"
    using ok playback.owner [of hc ac pcm] capture.owner [of ac hc pcm]
    by (simp add: level_of_def room_of_def split: if_splits)
qed

section \<open>Begin and commit\<close>

text \<open>The two counters as the library reads them.\<close>

definition counters :: "'w pcm_kernel \<Rightarrow> snd_pcm \<Rightarrow> 'w \<Rightarrow> u64 \<times> u64" where
  "counters k pcm w = (hw_ptr (fst (mmap_status k pcm w)), appl_ptr (fst (mmap_control k pcm w)))"

text \<open>
  The kernel during one call: the shared pages are memory, and a synchronisation with no flags takes
  over the position of the application.  What the driver does in the meantime is a step of its own.
\<close>

definition still_pages :: "'w pcm_kernel \<Rightarrow> bool" where
  "still_pages k \<longleftrightarrow>
     (\<forall>w. snd (k_status_page k w) = w \<and> snd (k_control_page k w) = w) \<and>
     (\<forall>c w. fst (k_control_page k (k_control_store k c w)) = c \<and>
            fst (k_status_page k (k_control_store k c w)) = fst (k_status_page k w)) \<and>
     (\<forall>sp w. sync_flags sp = 0 \<longrightarrow> (\<exists>ret errno w'. k_sync_ptr k sp w = (ret, errno, sp, w')))"

lemma still_status: "still_pages k \<Longrightarrow> snd (mmap_status k pcm w) = w"
  by (simp add: still_pages_def mmap_status_def split: option.splits)

lemma still_control: "still_pages k \<Longrightarrow> snd (mmap_control k pcm w) = w"
  by (simp add: still_pages_def mmap_control_def split: option.splits)

lemma mmap_avail_counters:
  assumes "still_pages k" "counters k pcm w = (h, a)"
  shows "snd_pcm_mmap_avail k pcm w = (avail_of pcm h a, w)"
  using assms still_status [OF assms(1), of pcm w] still_control [OF assms(1), of pcm w]
  by (auto simp: snd_pcm_mmap_avail_def snd_pcm_mmap_playback_avail_def snd_pcm_mmap_capture_avail_def
      counters_def avail_of_def split: prod.splits)

lemma mmap_begin_counters:
  assumes k: "still_pages k" and c: "counters k pcm w = (ptr pcm hc, ptr pcm ac)"
    and fits: "ring_fits pcm hc ac" and ok: "level_of pcm hc ac"
  shows "\<exists>offset f. snd_pcm_mmap_begin k pcm w frames = Some (0, running_areas pcm, offset, f, w) \<and>
           unat offset = ac mod bufsize pcm \<and>
           unat f = min (min (unat frames) (room_of pcm hc ac)) (bufsize pcm - ac mod bufsize pcm)"
proof -
  define n where "n = pcm_buffer_size pcm"
  have n0: "n \<noteq> 0" using fits by (auto simp: ring_fits_def n_def)
  define offset where "offset = ptr pcm ac mod n"
  have off: "unat offset = ac mod bufsize pcm"
  proof -
    have "unat offset = unat (ptr pcm ac) mod bufsize pcm" by (simp add: offset_def n_def unat_mod)
    also have "\<dots> = ac mod bufsize pcm"
      using unat_ptr(2) [OF fits] fits by (simp add: ring_fits_def mod_mod_cancel split: if_splits)
    finally show ?thesis .
  qed
  define a where "a = avail_of pcm (ptr pcm hc) (ptr pcm ac)"
  define a' where "a' = (if a > n then n else a)"
  define f where "f = (if frames > a' then a' else frames)"
  define f' where "f' = (if f > n - offset then n - offset else f)"
  have uf: "unat f = min (unat frames) (room_of pcm hc ac)"
    unfolding f_def a'_def a_def n_def by (rule ring.grant [OF fits ok])
  have "offset \<le> n" using n0 by (simp add: offset_def word_le_nat_alt unat_mod unat_gt_0 mod_le_divisor)
  then have "unat (n - offset) = unat n - unat offset" by (rule unat_sub)
  then have "unat f' = min (min (unat frames) (room_of pcm hc ac)) (bufsize pcm - ac mod bufsize pcm)"
    using uf off by (auto simp: f'_def n_def min_def word_less_nat_alt)
  moreover have "snd_pcm_mmap_begin k pcm w frames = Some (0, running_areas pcm, offset, f', w)"
    using n0 mmap_avail_counters [OF k c] still_control [OF k, of pcm w] c
    by (auto simp: snd_pcm_mmap_begin_def Let_def counters_def offset_def f'_def f_def a'_def a_def n_def split: prod.splits)
  ultimately show ?thesis using off by blast
qed

lemma ptr_add:
  assumes fits: "ring_fits pcm hc (ac + f)" and f: "f \<le> bufsize pcm"
  defines "a \<equiv> ptr pcm ac + of_nat f"
  shows "(if pcm_boundary pcm \<le> a then a - pcm_boundary pcm else a) = ptr pcm (ac + f)"
proof (cases "pcm_boundary pcm = 0")
  case True
  then show ?thesis by (simp add: a_def ptr_def)
next
  case False
  define b where "b = unat (pcm_boundary pcm)"
  have b: "bufsize pcm < b" "b + bufsize pcm \<le> 2 ^ 63" using fits False by (auto simp: ring_fits_def b_def)
  have a: "a = of_nat (ac mod b + f)" using False by (simp add: a_def ptr_def b_def)
  have "ac mod b < b" using b by simp
  moreover have "b + bufsize pcm < 2 ^ 64" using b by simp
  ultimately have lt: "ac mod b + f < 2 ^ 64" using f by linarith
  have ua: "unat a = ac mod b + f" unfolding a using lt by (rule unat_of_nat_u64)
  have p: "ptr pcm (ac + f) = of_nat ((ac + f) mod b)" using False by (simp add: ptr_def b_def)
  have f': "f < b" using b f by simp
  from mod_add_small [OF f', of ac] show ?thesis
  proof
    assume e: "(ac + f) mod b = ac mod b + f"
    have "(ac + f) mod b < b" using b by simp
    with e ua have "\<not> pcm_boundary pcm \<le> a" by (simp add: word_le_nat_alt b_def [symmetric])
    then show ?thesis unfolding p e by (simp only: a if_False)
  next
    assume e: "(ac + f) mod b + b = ac mod b + f"
    then have "pcm_boundary pcm \<le> a" using ua by (simp add: word_le_nat_alt b_def [symmetric])
    moreover have "a - pcm_boundary pcm = of_nat ((ac + f) mod b)"
      unfolding a e [symmetric] by (simp add: b_def)
    ultimately show ?thesis unfolding p by simp
  qed
qed

lemma commit_counters:
  assumes k: "still_pages k" and c: "counters k pcm w = (h, a)"
    and cm: "snd_pcm_mmap_commit k pcm w frames = (r, pcm', w')"
  shows "same_handle pcm pcm' \<and> r = sint frames \<and>
         counters k pcm' w' = (h, if pcm_boundary pcm \<le> a + frames then a + frames - pcm_boundary pcm else a + frames)"
proof (cases "sync_ptr pcm")
  case None
  have "k_control_page k w = (fst (k_control_page k w), w)" using k by (simp add: still_pages_def prod_eq_iff)
  with None k c cm show ?thesis
    by (auto simp: snd_pcm_mmap_commit_def Let_def store_control_def snd_pcm_sync_ptr0_def counters_def
        mmap_control_def mmap_status_def still_pages_def split: prod.splits)
next
  case (Some sp)
  have a: "appl_ptr (c_control sp) = a" using c Some by (simp add: counters_def mmap_control_def)
  define a1 where "a1 = (if pcm_boundary pcm \<le> a + frames then a + frames - pcm_boundary pcm else a + frames)"
  define sp1 where "sp1 = sp\<lparr>c_control := (c_control sp)\<lparr>appl_ptr := a1\<rparr>, sync_flags := 0\<rparr>"
  have "sync_flags sp1 = 0" by (simp add: sp1_def)
  then obtain ret errno w1 where s: "k_sync_ptr k sp1 w = (ret, errno, sp1, w1)"
    using k unfolding still_pages_def by blast
  have "snd_pcm_mmap_commit k pcm w frames = (sint frames, pcm\<lparr>sync_ptr := Some sp1\<rparr>, w1)"
    using Some s a by (cases "pcm_boundary pcm \<le> a + frames")
      (simp_all add: snd_pcm_mmap_commit_def Let_def store_control_def snd_pcm_sync_ptr0_def
        mmap_control_def a1_def sp1_def)
  with cm Some c show ?thesis
    by (auto simp: counters_def mmap_control_def mmap_status_def sp1_def a1_def same_handle_def)
qed

section \<open>Runs\<close>

lemma same_handle_ring:
  assumes "same_handle pcm pcm'"
  shows "ptr pcm' = ptr pcm" "ring_fits pcm' = ring_fits pcm" "level_of pcm' = level_of pcm"
    "room_of pcm' = room_of pcm" "pcm_buffer_size pcm' = pcm_buffer_size pcm" "avail_of pcm' = avail_of pcm"
    "pcm_boundary pcm' = pcm_boundary pcm" "running_areas pcm' = running_areas pcm"
proof -
  obtain sp where "pcm' = pcm\<lparr>sync_ptr := sp\<rparr>" using assms by (auto simp: same_handle_def)
  then show "ptr pcm' = ptr pcm" "ring_fits pcm' = ring_fits pcm" "level_of pcm' = level_of pcm"
    "room_of pcm' = room_of pcm" "pcm_buffer_size pcm' = pcm_buffer_size pcm" "avail_of pcm' = avail_of pcm"
    "pcm_boundary pcm' = pcm_boundary pcm" "running_areas pcm' = running_areas pcm"
    by (simp_all add: ptr_def ring_fits_def level_of_def room_of_def avail_of_def playback_avail_def capture_avail_def
        fun_eq_iff Let_def)
qed

text \<open>
  A run of an application that transfers through the mapped buffer, with the driver in between.  The
  state is the handle, the world and the two frame counts.  The application may ask for any number
  of frames and commit any part of the grant; the driver moves within the frames it has.
\<close>

inductive ring_step :: "'w pcm_kernel \<Rightarrow> snd_pcm \<times> 'w \<times> nat \<times> nat \<Rightarrow> snd_pcm \<times> 'w \<times> nat \<times> nat \<Rightarrow> bool"
  for k where
  application: "snd_pcm_mmap_begin k pcm w frames = Some (0, areas, offset, granted, w1) \<Longrightarrow> f \<le> granted \<Longrightarrow>
     snd_pcm_mmap_commit k pcm w1 f = (r, pcm', w') \<Longrightarrow>
     ring_step k (pcm, w, hc, ac) (pcm', w', hc, ac + unat f)"
| driver: "same_handle pcm pcm' \<Longrightarrow> m + room_of pcm hc ac \<le> bufsize pcm \<Longrightarrow>
     counters k pcm' w' = (ptr pcm (hc + m), snd (counters k pcm w)) \<Longrightarrow>
     ring_step k (pcm, w, hc, ac) (pcm', w', hc + m, ac)"

inductive_cases ring_stepE: "ring_step k s s'"

definition ring_inv :: "'w pcm_kernel \<Rightarrow> snd_pcm \<Rightarrow> snd_pcm \<times> 'w \<times> nat \<times> nat \<Rightarrow> bool" where
  "ring_inv k pcm s \<longleftrightarrow> (case s of (pcm', w, hc, ac) \<Rightarrow>
     same_handle pcm pcm' \<and> level_of pcm hc ac \<and> counters k pcm' w = (ptr pcm hc, ptr pcm ac))"

lemma ring_step_mono: "ring_step k (pcm, w, hc, ac) (pcm', w', hc', ac') \<Longrightarrow> hc \<le> hc' \<and> ac \<le> ac'"
  by (auto elim: ring_stepE)

lemma ring_step_inv:
  assumes k: "still_pages k" and st: "ring_step k s s'" and inv: "ring_inv k pcm0 s"
    and fits: "case s' of (_, _, hc, ac) \<Rightarrow> ring_fits pcm0 hc ac"
  shows "ring_inv k pcm0 s'"
  using st
proof cases
  case (application pcm w frames areas offset granted w1 f r pcm' w' hc ac)
  from inv application(1) have same: "same_handle pcm0 pcm" and ok: "level_of pcm0 hc ac"
    and c: "counters k pcm w = (ptr pcm0 hc, ptr pcm0 ac)" by (auto simp: ring_inv_def)
  note h = same_handle_ring [OF same]
  have fits1: "ring_fits pcm0 hc (ac + unat f)" using fits application(2) by simp
  have fits0: "ring_fits pcm0 hc ac" by (rule ring_fits_mono [OF fits1]) simp_all
  from mmap_begin_counters [OF k, of pcm w hc ac frames] c fits0 ok h application(3)
  have g: "unat granted = min (min (unat frames) (room_of pcm0 hc ac)) (bufsize pcm0 - ac mod bufsize pcm0)"
    and w1: "w1 = w" by auto
  have le: "unat f \<le> room_of pcm0 hc ac" using g application(4) by (simp add: word_le_nat_alt)
  have "same_handle pcm pcm' \<and> counters k pcm' w' = (ptr pcm0 hc, ptr pcm0 (ac + unat f))"
    using commit_counters [OF k c] application(5) w1 ptr_add [OF fits1] le ring.room_le [OF ok] h
    by fastforce
  with same same_handle_trans ring.appl_moves [OF ok le] application(2) show ?thesis
    by (auto simp: ring_inv_def)
next
  case (driver pcm pcm' m hc ac w' w)
  from inv driver(1) have same: "same_handle pcm0 pcm" and ok: "level_of pcm0 hc ac"
    and c: "counters k pcm w = (ptr pcm0 hc, ptr pcm0 ac)" by (auto simp: ring_inv_def)
  note h = same_handle_ring [OF same]
  show ?thesis
    using driver(2,3,4,5) ring.hw_moves [OF ok, of m] same_handle_trans [OF same] c h by (auto simp: ring_inv_def)
qed

lemma ring_run_inv:
  assumes k: "still_pages k" and run: "(ring_step k)\<^sup>*\<^sup>* s s'" and inv: "ring_inv k pcm0 s"
    and fits: "case s' of (_, _, hc, ac) \<Rightarrow> ring_fits pcm0 hc ac"
  shows "ring_inv k pcm0 s'"
  using run fits
proof (induction rule: rtranclp_induct)
  case base
  show ?case by (rule inv)
next
  case (step y z)
  obtain p w h a where y: "y = (p, w, h, a)" by (cases y) 
  obtain p' w' h' a' where z: "z = (p', w', h', a')" by (cases z)
  have "ring_fits pcm0 h a" 
    using step(4) ring_step_mono [of k p w h a p' w' h' a'] step(2) ring_fits_mono [of pcm0 h' a' h a] y z by simp
  with step(3) y have "ring_inv k pcm0 y" by simp
  with k step(2) show ?case using step(4) by (rule ring_step_inv)
qed

text \<open>C2. The ring buffer invariant.  However the application and the driver interleave, starting from equal
  counters: the fill level stays within the buffer, the two counters are the frame counts reduced to
  the boundary, and \<^verbatim>\<open>snd_pcm_mmap_avail\<close> is exactly the number of frames the application may transfer,
  which is never more than the buffer size.  The boundary is a multiple of the buffer size small
  enough for signed arithmetic, or 0 as long as neither count has reached \<open>2 ^ 63\<close>.\<close>

theorem ring_invariant:
  assumes "still_pages k" "counters k pcm w = (0, 0)"
    and "(ring_step k)\<^sup>*\<^sup>* (pcm, w, 0, 0) (pcm', w', hc, ac)" "ring_fits pcm hc ac"
  shows "level_of pcm hc ac \<and> counters k pcm' w' = (ptr pcm hc, ptr pcm ac) \<and>
         unat (fst (snd_pcm_mmap_avail k pcm' w')) = room_of pcm hc ac \<and> room_of pcm hc ac \<le> bufsize pcm"
proof -
  have "ring_inv k pcm (pcm, w, 0, 0)"
    using assms(2) by (simp add: ring_inv_def level_of_def ptr_def)
  from ring_run_inv [OF assms(1,3) this] assms(4)
  have same: "same_handle pcm pcm'" and ok: "level_of pcm hc ac"
    and c: "counters k pcm' w' = (ptr pcm hc, ptr pcm ac)" by (auto simp: ring_inv_def)
  with mmap_avail_counters [OF assms(1) c] same_handle_ring(6) [OF same] ring.avail_exact [OF assms(4) ok] ring.room_le [OF ok]
  show ?thesis by simp
qed

text \<open>C7. What \<^verbatim>\<open>snd_pcm_mmap_begin\<close> grants: as many frames as asked for, limited by the room and by the end of
  the buffer; they lie in the buffer, the slot of frame \<open>i\<close> of the grant is where frame \<open>ac + i\<close> of the
  stream belongs, and the driver owns none of these slots.\<close>

theorem mmap_begin_grant:
  assumes "still_pages k" "counters k pcm w = (ptr pcm hc, ptr pcm ac)" "ring_fits pcm hc ac" "level_of pcm hc ac"
  shows "\<exists>offset f. snd_pcm_mmap_begin k pcm w frames = Some (0, running_areas pcm, offset, f, w) \<and>
           unat f = min (min (unat frames) (room_of pcm hc ac)) (bufsize pcm - unat offset) \<and>
           unat offset + unat f \<le> bufsize pcm \<and>
           (\<forall>i < unat f. unat offset + i = (ac + i) mod bufsize pcm \<and>
              (\<forall>j. hc \<le> j \<and> j < hc + (bufsize pcm - room_of pcm hc ac) \<longrightarrow> unat offset + i \<noteq> j mod bufsize pcm))"
proof -
  from mmap_begin_counters [OF assms] obtain offset f where
    b: "snd_pcm_mmap_begin k pcm w frames = Some (0, running_areas pcm, offset, f, w)"
    and o: "unat offset = ac mod bufsize pcm"
    and f: "unat f = min (min (unat frames) (room_of pcm hc ac)) (bufsize pcm - ac mod bufsize pcm)" by blast
  have n: "0 < bufsize pcm" using assms(3) by (simp add: ring_fits_def)
  have slot: "unat offset + i = (ac + i) mod bufsize pcm" if "i < unat f" for i
  proof -
    have "ac mod bufsize pcm + i < bufsize pcm" using that f mod_less_divisor [OF n, of ac] by linarith
    then show ?thesis using o by (metis mod_add_left_eq mod_less)
  qed
  have "unat offset + unat f \<le> bufsize pcm"
    using f o mod_le_divisor [OF n, of ac] by simp
  moreover have "unat offset + i \<noteq> j mod bufsize pcm"
    if "i < unat f" "hc \<le> j" "j < hc + (bufsize pcm - room_of pcm hc ac)" for i j
    using ring.free_slot [OF assms(4) _ that(2,3), of i] that(1) f slot [OF that(1)] by simp
  ultimately show ?thesis using b o f slot by metis
qed

section \<open>Witnesses\<close>

text \<open>A playback handle with a buffer of 4 frames and counters that wrap at 8.\<close>

definition small_pcm :: snd_pcm where
  "small_pcm = (new_pcm STREAM_PLAYBACK 3)\<lparr>pcm_setup := True, pcm_buffer_size := 4, pcm_boundary := 8\<rparr>"

definition idle_world :: "snd_pcm_mmap_status \<times> snd_pcm_mmap_control" where
  "idle_world = (\<lparr>state = STATE_RUNNING, hw_ptr = 0\<rparr>, \<lparr>appl_ptr = 0, ctl_avail_min = 1\<rparr>)"

lemma still_interrupted [simp]: "still_pages interrupted_kernel"
  by (simp add: still_pages_def interrupted_kernel_def)

lemma small_pcm_fits [simp]: "ring_fits small_pcm hc ac"
  by (simp add: ring_fits_def small_pcm_def new_pcm_def)

lemma idle_counters [simp]: "counters interrupted_kernel small_pcm idle_world = (0, 0)"
  by (simp add: counters_def mmap_status_def mmap_control_def interrupted_kernel_def small_pcm_def new_pcm_def idle_world_def)

lemma small_room: "room_of small_pcm 0 0 = 4" and small_size: "bufsize small_pcm = 4"
  and small_areas: "running_areas small_pcm = None"
  by (simp_all add: room_of_def small_pcm_def new_pcm_def)

text \<open>The application writes three frames, then the driver plays two of them.\<close>

definition played_world :: "snd_pcm_mmap_status \<times> snd_pcm_mmap_control" where
  "played_world = (\<lparr>state = STATE_RUNNING, hw_ptr = 2\<rparr>, \<lparr>appl_ptr = 3, ctl_avail_min = 1\<rparr>)"

lemma small_run: "(ring_step interrupted_kernel)\<^sup>*\<^sup>* (small_pcm, idle_world, 0, 0) (small_pcm, played_world, 2, 3)"
proof -
  let ?w1 = "(\<lparr>state = STATE_RUNNING, hw_ptr = 0\<rparr>, \<lparr>appl_ptr = 3, ctl_avail_min = 1\<rparr>) :: snd_pcm_mmap_status \<times> snd_pcm_mmap_control"
  have b: "snd_pcm_mmap_begin interrupted_kernel small_pcm idle_world 3 = Some (0, None, 0, 3, idle_world)"
    by code_simp
  have c: "snd_pcm_mmap_commit interrupted_kernel small_pcm idle_world 3 = (3, small_pcm, ?w1)"
    by code_simp
  have "ring_step interrupted_kernel (small_pcm, idle_world, 0, 0) (small_pcm, ?w1, 0, 0 + unat (3 :: u64))"
    using b order_refl c by (rule ring_step.application)
  moreover have "ring_step interrupted_kernel (small_pcm, ?w1, 0, 3) (small_pcm, played_world, 0 + 2, 3)"
  proof (rule ring_step.driver)
    show "2 + room_of small_pcm 0 3 \<le> bufsize small_pcm" by (simp add: room_of_def small_pcm_def new_pcm_def)
    show "counters interrupted_kernel small_pcm played_world =
        (ptr small_pcm (0 + 2), snd (counters interrupted_kernel small_pcm ?w1))"
      by (simp add: counters_def mmap_status_def mmap_control_def interrupted_kernel_def small_pcm_def new_pcm_def
          played_world_def ptr_def)
  qed simp
  ultimately have "ring_step interrupted_kernel (small_pcm, idle_world, 0, 0) (small_pcm, ?w1, 0, 3)"
    "ring_step interrupted_kernel (small_pcm, ?w1, 0, 3) (small_pcm, played_world, 2, 3)"
    by (simp_all only: add_0) simp
  then show ?thesis by (meson r_into_rtranclp rtranclp_trans)
qed

theorem ring_invariant_witness:
  "unat (fst (snd_pcm_mmap_avail interrupted_kernel small_pcm played_world)) = 3"
proof -
  have "unat (fst (snd_pcm_mmap_avail interrupted_kernel small_pcm played_world)) = room_of small_pcm 2 3"
    using ring_invariant [OF still_interrupted idle_counters small_run small_pcm_fits] by simp
  also have "\<dots> = 3" by (simp add: room_of_def small_pcm_def new_pcm_def)
  finally show ?thesis .
qed

theorem mmap_begin_grant_witness:
  "\<exists>offset f. snd_pcm_mmap_begin interrupted_kernel small_pcm idle_world 7 = Some (0, None, offset, f, idle_world) \<and>
     unat f = 4 - unat offset"
proof -
  have "counters interrupted_kernel small_pcm idle_world = (ptr small_pcm 0, ptr small_pcm 0)"
    by (simp add: ptr_def)
  moreover have "level_of small_pcm 0 0" by (simp add: level_of_def)
  ultimately show ?thesis
    using mmap_begin_grant [OF still_interrupted, of small_pcm idle_world 0 0 7]
    by (auto simp: small_room small_size small_areas)
qed

section \<open>Reporting\<close>

lemma sint_small_u64: "unat (v :: u64) < 2 ^ 63 \<Longrightarrow> sint v = int (unat v)"
proof -
  assume *: "unat v < 2 ^ 63"
  have "sint v = sint (word_of_int (int (unat v)) :: u64)" by simp
  also have "\<dots> = signed_take_bit 63 (int (unat v))" by (simp only: sint_sbintrunc') simp
  also have "\<dots> = int (unat v)"
  proof (rule signed_take_bit_int_eq_self)
    show "int (unat v) < 2 ^ 63" using * by (metis of_nat_less_iff of_nat_numeral of_nat_power)
    show "- (2 ^ 63) \<le> int (unat v)" by (rule order_trans [of _ 0]) simp_all
  qed
  finally show ?thesis .
qed

lemma avail_update_same: "snd_pcm_avail_update k pcm w = (r, pcm', w') \<Longrightarrow> same_handle pcm pcm'"
  by (auto simp: snd_pcm_avail_update_def Let_def dest!: sync_ptr_same state_same
      intro: same_handle_trans split: prod.splits if_splits)

text \<open>\<^verbatim>\<open>snd_pcm_avail_update\<close> on counters within the buffer: a stream in the XRUN state reports \<^verbatim>\<open>-EPIPE\<close>; a running
  stream whose room has reached the stop threshold is stopped through the driver and reports
  \<^verbatim>\<open>-EPIPE\<close>, or the error of that request; otherwise the result is exactly the room, so a running stream
  never reports as many frames as the stop threshold.\<close>

theorem avail_update_reports:
  assumes "still_pages k" "sync_ptr pcm = None" "mmap_status k pcm w = (st, w)"
    and "counters k pcm w = (ptr pcm hc, ptr pcm ac)" "ring_fits pcm hc ac" "level_of pcm hc ac"
  shows "fst (snd_pcm_avail_update k pcm w) =
     (if state st = STATE_XRUN then - EPIPE
      else if state st = STATE_RUNNING \<and> unat (sw_stop_threshold (pcm_sw_params pcm)) \<le> room_of pcm hc ac then
        (case k_request k REQ_XRUN w of (ret, errno, _) \<Rightarrow> if ret < 0 then - errno else - EPIPE)
      else int (room_of pcm hc ac))"
proof -
  define av where "av = avail_of pcm (ptr pcm hc) (ptr pcm ac)"
  have a: "snd_pcm_mmap_avail k pcm w = (av, w)" using mmap_avail_counters [OF assms(1,4)] by (simp add: av_def)
  have u: "unat av = room_of pcm hc ac" using ring.avail_exact [OF assms(5,6)] by (simp add: av_def)
  have "room_of pcm hc ac < 2 ^ 63" using ring.room_le [OF assms(6)] assms(5) by (auto simp: ring_fits_def split: if_splits)
  then have s: "sint av = int (room_of pcm hc ac)"
    using u sint_small_u64 [of av] by simp
  show ?thesis
    using assms(2,3) a s u
    by (auto simp: snd_pcm_avail_update_def snd_pcm_sync_ptr0_def snd_pcm_state_def Let_def word_le_nat_alt split: prod.splits)
qed

lemma idle_state: "state (fst idle_world) = STATE_RUNNING"
  and small_stop: "sw_stop_threshold (pcm_sw_params small_pcm) = 0"
  and interrupted_request: "k_request interrupted_kernel r w = (0, 0, w)"
  by (simp_all add: idle_world_def small_pcm_def new_pcm_def zero_sw_params_def interrupted_kernel_def)

theorem avail_update_reports_witness:
  "fst (snd_pcm_avail_update interrupted_kernel small_pcm idle_world) = - EPIPE"
proof -
  have "mmap_status interrupted_kernel small_pcm idle_world = (fst idle_world, idle_world)"
    by (simp add: mmap_status_def interrupted_kernel_def small_pcm_def new_pcm_def)
  moreover have "counters interrupted_kernel small_pcm idle_world = (ptr small_pcm 0, ptr small_pcm 0)"
    by (simp add: ptr_def)
  moreover have "level_of small_pcm 0 0" "sync_ptr small_pcm = None"
    by (simp_all add: level_of_def small_pcm_def new_pcm_def)
  ultimately show ?thesis
    using avail_update_reports [OF still_interrupted, of small_pcm idle_world "fst idle_world" 0 0]
    by (simp add: idle_state small_stop interrupted_request)
qed

text \<open>A boundary of 0, the value every handle keeps, does not match the driver.  Once the driver's counter
  has wrapped at its own boundary \<open>b\<close> while the application's counter runs on, the playback distance is
  negative, and as an unsigned number it exceeds the buffer: the library takes the whole buffer for
  free whatever the driver still has to play.\<close>

theorem boundary_zero_overruns:
  assumes "pcm_boundary pcm = 0" "bufsize pcm < b" "b \<le> hc" "hc \<le> ac" "ac \<le> hc + bufsize pcm" "ac < 2 ^ 63"
  shows "bufsize pcm < unat (playback_avail pcm (of_nat (hc mod b)) (of_nat ac))"
proof -
  have lt: "hc mod b + bufsize pcm < ac"
  proof -
    have "b * 1 \<le> b * (hc div b)" using assms(2,3) by (intro mult_le_mono2) (simp add: Suc_leI div_greater_zero_iff)
    then have "hc mod b + b \<le> hc" using mult_div_mod_eq [of b hc] by linarith
    then show ?thesis using assms(2,4) by linarith
  qed
  define d where "d = ac - (hc mod b + bufsize pcm)"
  have d: "0 < d" "d < 2 ^ 63" using lt assms(6) by (auto simp: d_def)
  have "playback_avail pcm (of_nat (hc mod b)) (of_nat ac) = of_nat (hc mod b) + pcm_buffer_size pcm - of_nat ac"
    using assms(1) by (simp add: playback_avail_def Let_def)
  also have "\<dots> = of_nat (hc mod b + bufsize pcm) - of_nat ac" by simp
  also have "\<dots> = - of_nat d" using lt by (simp add: d_def of_nat_diff)
  also have "\<dots> = of_nat (2 ^ 64 - d)" using d by (simp add: of_nat_diff)
  finally have "unat (playback_avail pcm (of_nat (hc mod b)) (of_nat ac)) = 2 ^ 64 - d"
    using d unat_of_nat_u64 [of "2 ^ 64 - d"] by simp
  moreover have "bufsize pcm < 2 ^ 63" using lt assms(6) by linarith
  ultimately show ?thesis using d by simp
qed

theorem boundary_zero_overruns_witness:
  "4 < unat (playback_avail (small_pcm\<lparr>pcm_boundary := 0\<rparr>) (of_nat (8 mod 8)) (of_nat 9))"
  using boundary_zero_overruns [of "small_pcm\<lparr>pcm_boundary := 0\<rparr>" 8 8 9]
  by (simp add: small_size)

end
