(* ===== verification/Pcm_Map.thy ===== *)
theory Pcm_Map
  imports Pcm_Ring
begin

text \<open>
  Mapping the ring buffer of a stream: \<^verbatim>\<open>src/src/pcm.c\<close>, lines 773 to 885.

  The requests that mapping and configuring a stream need in addition to those of the open handle
  are the record \<open>setup_kernel\<close>.  An address is a natural number; a call that returns \<^verbatim>\<open>MAP_FAILED\<close> or
  \<^verbatim>\<open>NULL\<close> returns \<open>None\<close> or \<open>False\<close>.  The theorems show that unmapping undoes mapping, also after a mapping
  that stopped half way, and that every channel area lies in its mapping.
\<close>

record 'w setup_kernel =
  dev :: "'w pcm_kernel"
  k_refine :: refine_ioctl
  k_hw_params :: "snd_pcm_hw_params \<Rightarrow> 'w \<Rightarrow> int \<times> int \<times> snd_pcm_hw_params \<times> 'w"
  k_sw_params :: "snd_pcm_sw_params \<Rightarrow> 'w \<Rightarrow> int \<times> int \<times> snd_pcm_sw_params \<times> 'w"
  k_channel_info :: "sndrv_pcm_channel_info \<Rightarrow> 'w \<Rightarrow> int \<times> int \<times> sndrv_pcm_channel_info \<times> 'w"
  k_mmap :: "u64 \<Rightarrow> int \<Rightarrow> 'w \<Rightarrow> nat option \<times> int \<times> 'w"
  k_munmap :: "nat \<Rightarrow> u64 \<Rightarrow> 'w \<Rightarrow> int \<times> int \<times> 'w"
  k_calloc :: "u64 \<Rightarrow> u64 \<Rightarrow> 'w \<Rightarrow> bool \<times> 'w"
  k_page_size :: u64

section \<open>Mapping the buffer\<close>

definition page_align :: "'w setup_kernel \<Rightarrow> u64 \<Rightarrow> u64" where
  "page_align k sz =
     (let psz = k_page_size k; r = sz mod psz in if r \<noteq> 0 then sz + psz - r else sz)"

text \<open>The extent of a channel in bits: \<^verbatim>\<open>first + step * (buffer_size - 1) + sample_bits\<close>.\<close>

definition chan_bits :: "snd_pcm \<Rightarrow> snd_pcm_channel_info \<Rightarrow> u64" where
  "chan_bits pcm i = ucast (ci_first (ci_info i)) + ucast (ci_step (ci_info i)) * (pcm_buffer_size pcm - 1)
     + ucast (pcm_sample_bits pcm)"

text \<open>The loops over \<^verbatim>\<open>c1\<close> that look for the largest extent among the channels that share a mapping.\<close>

primrec widest :: "snd_pcm \<Rightarrow> (snd_pcm_channel_info \<Rightarrow> bool) \<Rightarrow> u64 \<Rightarrow> snd_pcm_channel_info list \<Rightarrow> u64" where
  "widest pcm shares sz [] = sz"
| "widest pcm shares sz (i1 # rest) =
     widest pcm shares (if shares i1 then (let s = chan_bits pcm i1 in if s > sz then s else sz) else sz) rest"

definition map_size :: "'w setup_kernel \<Rightarrow> u64 \<Rightarrow> u64" where
  "map_size k sz = page_align k ((sz + 7) div 8)"

definition area_of :: "snd_pcm_channel_info \<Rightarrow> snd_pcm_channel_area" where
  "area_of i = \<lparr>addr = ci_addr i, first = ci_first (ci_info i), step = ci_step (ci_info i)\<rparr>"

definition zero_area :: snd_pcm_channel_area where
  "zero_area = \<lparr>addr = None, first = 0, step = 0\<rparr>"

definition zero_channel :: snd_pcm_channel_info where
  "zero_channel = \<lparr>ci_info = \<lparr>ci_channel = 0, ci_offset = 0, ci_first = 0, ci_step = 0\<rparr>, ci_addr = None\<rparr>"

text \<open>The first loop of \<^verbatim>\<open>_snd_pcm_mmap\<close>, with \<open>n\<close> channels to go from channel \<open>c\<close>; the first component is the value
  of an early return.\<close>

primrec channel_info_loop :: "'w setup_kernel \<Rightarrow> nat \<Rightarrow> nat \<Rightarrow> 'w \<Rightarrow>
    int option \<times> snd_pcm_channel_info list \<times> 'w" where
  "channel_info_loop k 0 c w = (None, [], w)"
| "channel_info_loop k (Suc n) c w =
     (case k_channel_info k ((ci_info zero_channel)\<lparr>ci_channel := of_nat c\<rparr>) w of (ret, errno, info, w) \<Rightarrow>
        if ret < 0 then (Some (- errno), zero_channel\<lparr>ci_info := info\<rparr> # replicate n zero_channel, w)
        else let (r, rest, w) = channel_info_loop k n (Suc c) w
             in (r, zero_channel\<lparr>ci_info := info\<rparr> # rest, w))"

text \<open>The second loop: the result, the channels and the areas as they are left, and the world.\<close>

function mmap_loop :: "'w setup_kernel \<Rightarrow> snd_pcm \<Rightarrow> snd_pcm_channel_info list \<Rightarrow> 'w \<Rightarrow>
    int \<times> snd_pcm_channel_info list \<times> snd_pcm_channel_area list \<times> 'w" where
  "mmap_loop k pcm [] w = (0, [], [], w)"
| "mmap_loop k pcm (i # rest) w =
     (if ci_addr i \<noteq> None then
        let (r, cs, areas, w) = mmap_loop k pcm rest w in (r, i # cs, area_of i # areas, w)
      else
        let shares = (\<lambda>i1. ci_offset (ci_info i1) = ci_offset (ci_info i));
            sz = map_size k (widest pcm shares (chan_bits pcm i) rest)
        in case k_mmap k sz (ci_offset (ci_info i)) w of
             (None, errno, w) \<Rightarrow> (- errno, i # rest, replicate (Suc (length rest)) zero_area, w)
           | (Some p, _, w) \<Rightarrow>
               let i = i\<lparr>ci_addr := Some p\<rparr>;
                   (r, cs, areas, w) =
                     mmap_loop k pcm (map (\<lambda>i1. if shares i1 then i1\<lparr>ci_addr := ci_addr i\<rparr> else i1) rest) w
               in (r, i # cs, area_of i # areas, w))"
  by pat_completeness auto
termination by (relation "measure (\<lambda>(k, pcm, cs, w). length cs)") auto

text \<open>The loop of \<^verbatim>\<open>_snd_pcm_munmap\<close>.\<close>

function munmap_loop :: "'w setup_kernel \<Rightarrow> snd_pcm \<Rightarrow> snd_pcm_channel_info list \<Rightarrow> 'w \<Rightarrow>
    int option \<times> snd_pcm_channel_info list \<times> 'w" where
  "munmap_loop k pcm [] w = (None, [], w)"
| "munmap_loop k pcm (i # rest) w =
     (case ci_addr i of
        None \<Rightarrow> let (r, cs, w) = munmap_loop k pcm rest w in (r, i # cs, w)
      | Some a \<Rightarrow>
          let shares = (\<lambda>i1. ci_addr i1 = ci_addr i);
              sz = map_size k (widest pcm shares (chan_bits pcm i) rest);
              rest = map (\<lambda>i1. if shares i1 then i1\<lparr>ci_addr := None\<rparr> else i1) rest
          in case k_munmap k a sz w of (ret, errno, w) \<Rightarrow>
               if ret < 0 then (Some (- errno), i # rest, w)
               else let (r, cs, w) = munmap_loop k pcm rest w in (r, i\<lparr>ci_addr := None\<rparr> # cs, w))"
  by pat_completeness auto
termination by (relation "measure (\<lambda>(k, pcm, cs, w). length cs)") auto

text \<open>
  The loop runs over \<^verbatim>\<open>pcm->channels\<close> entries of the table.  The table has as many unless the channels changed
  after an unmapping that failed; reading beyond it has no defined result.
\<close>

definition snd_pcm_munmap :: "'w setup_kernel \<Rightarrow> snd_pcm \<Rightarrow> 'w \<Rightarrow> (int \<times> snd_pcm \<times> 'w) option" where
  "snd_pcm_munmap k pcm w =
     (case mmap_channels pcm of
        None \<Rightarrow> Some (0, pcm, w)
      | Some cs \<Rightarrow>
          (let n = unat (pcm_channels pcm)
           in if length cs < n then None
              else case munmap_loop k pcm (take n cs) w of
                (Some err, cs', w) \<Rightarrow> Some (err, pcm\<lparr>mmap_channels := Some (cs' @ drop n cs)\<rparr>, w)
              | (None, _, w) \<Rightarrow> Some (0, pcm\<lparr>mmap_channels := None, running_areas := None\<rparr>, w)))"

definition snd_pcm_mmap :: "'w setup_kernel \<Rightarrow> snd_pcm \<Rightarrow> 'w \<Rightarrow> (int \<times> snd_pcm \<times> 'w) option" where
  "snd_pcm_mmap k pcm w = do {
     (_, pcm, w) \<leftarrow> snd_pcm_munmap k pcm w;
     (let n = unat (pcm_channels pcm);
          (ok, w) = k_calloc k (ucast (pcm_channels pcm)) 32 w
      in if \<not> ok then Some (- ENOMEM, pcm\<lparr>mmap_channels := None\<rparr>, w)
         else let (ok, w) = k_calloc k (ucast (pcm_channels pcm)) 16 w
              in if \<not> ok then Some (- ENOMEM, pcm\<lparr>mmap_channels := None, running_areas := None\<rparr>, w)
                 else case channel_info_loop k n 0 w of
                   (Some err, cs, w) \<Rightarrow>
                     Some (err, pcm\<lparr>mmap_channels := Some cs, running_areas := Some (replicate n zero_area)\<rparr>, w)
                 | (None, cs, w) \<Rightarrow>
                     let (r, cs, areas, w) = mmap_loop k pcm cs w
                     in Some (r, pcm\<lparr>mmap_channels := Some cs, running_areas := Some areas\<rparr>, w)) }"

section \<open>Every mapping is returned\<close>

text \<open>
  \<open>mm w\<close> is the table of the mappings of the process in world \<open>w\<close>, from address to size.  The system calls
  behave as documented: a new mapping has an address of its own, unmapping exactly a mapping
  removes it, and a call that fails sets a positive \<^verbatim>\<open>errno\<close>.
\<close>

definition tracks_mappings :: "'w setup_kernel \<Rightarrow> ('w \<Rightarrow> nat \<rightharpoonup> u64) \<Rightarrow> bool" where
  "tracks_mappings k mm \<longleftrightarrow>
     (\<forall>sz off w a e w'. k_mmap k sz off w = (Some a, e, w') \<longrightarrow> mm w a = None \<and> mm w' = (mm w)(a \<mapsto> sz)) \<and>
     (\<forall>sz off w e w'. k_mmap k sz off w = (None, e, w') \<longrightarrow> 0 < e \<and> mm w' = mm w) \<and>
     (\<forall>a sz w r e w'. mm w a = Some sz \<longrightarrow> k_munmap k a sz w = (r, e, w') \<longrightarrow> 0 \<le> r \<and> mm w' = (mm w)(a := None)) \<and>
     (\<forall>i w r e i' w'. k_channel_info k i w = (r, e, i', w') \<longrightarrow> (r < 0 \<longrightarrow> 0 < e) \<and> mm w' = mm w) \<and>
     (\<forall>n sz w ok w'. k_calloc k n sz w = (ok, w') \<longrightarrow> mm w' = mm w)"

lemma tracks_mmap_ok: "tracks_mappings k mm \<Longrightarrow> k_mmap k sz off w = (Some a, e, w') \<Longrightarrow> mm w a = None \<and> mm w' = (mm w)(a \<mapsto> sz)"
  by (simp add: tracks_mappings_def)

lemma tracks_mmap_fail: "tracks_mappings k mm \<Longrightarrow> k_mmap k sz off w = (None, e, w') \<Longrightarrow> 0 < e \<and> mm w' = mm w"
  by (simp add: tracks_mappings_def)

lemma tracks_munmap: "tracks_mappings k mm \<Longrightarrow> mm w a = Some sz \<Longrightarrow> k_munmap k a sz w = (r, e, w') \<Longrightarrow>
    0 \<le> r \<and> mm w' = (mm w)(a := None)"
  by (simp add: tracks_mappings_def)

lemma tracks_info: "tracks_mappings k mm \<Longrightarrow> k_channel_info k i w = (r, e, i', w') \<Longrightarrow> (r < 0 \<longrightarrow> 0 < e) \<and> mm w' = mm w"
  by (simp add: tracks_mappings_def)

lemma tracks_calloc: "tracks_mappings k mm \<Longrightarrow> k_calloc k n sz w = (ok, w') \<Longrightarrow> mm w' = mm w"
  by (simp add: tracks_mappings_def)

definition addrs :: "snd_pcm_channel_info list \<Rightarrow> nat set" where
  "addrs cs = {a. \<exists>i \<in> set cs. ci_addr i = Some a}"

definition gbits :: "snd_pcm \<Rightarrow> (snd_pcm_channel_info \<Rightarrow> bool) \<Rightarrow> snd_pcm_channel_info list \<Rightarrow> u64" where
  "gbits pcm P cs = foldr max (map (chan_bits pcm) (filter P cs)) 0"

lemma max_0_u64 [simp]: "max (x :: u64) 0 = x" "max 0 (x :: u64) = x"
  by (simp_all add: max_def)

lemma gbits_simps [simp]:
  "gbits pcm P [] = 0"
  "gbits pcm P (i # cs) = (if P i then max (chan_bits pcm i) (gbits pcm P cs) else gbits pcm P cs)"
  by (simp_all add: gbits_def)

lemma gbits_append [simp]: "gbits pcm P (xs @ ys) = max (gbits pcm P xs) (gbits pcm P ys)"
  by (induction xs) (auto simp: max.assoc)

lemma gbits_cong: "(\<And>i. i \<in> set cs \<Longrightarrow> P i = Q i) \<Longrightarrow> gbits pcm P cs = gbits pcm Q cs"
  by (induction cs) auto

lemma gbits_none: "(\<And>i. i \<in> set cs \<Longrightarrow> \<not> P i) \<Longrightarrow> gbits pcm P cs = 0"
  by (induction cs) auto

lemma chan_bits_addr [simp]: "chan_bits pcm (i\<lparr>ci_addr := a\<rparr>) = chan_bits pcm i"
  by (simp add: chan_bits_def)

lemma gbits_map: "(\<And>i. chan_bits pcm (f i) = chan_bits pcm i) \<Longrightarrow> gbits pcm P (map f cs) = gbits pcm (\<lambda>i. P (f i)) cs"
  by (induction cs) auto

lemma widest_eq: "widest pcm P s cs = max s (gbits pcm P cs)"
proof (induction cs arbitrary: s)
  case (Cons i cs)
  have "(if chan_bits pcm i > s then chan_bits pcm i else s) = max s (chan_bits pcm i)"
    by (auto simp: max_def)
  with Cons show ?case by (simp add: Let_def max.assoc)
qed simp

lemma addrs_simps [simp]:
  "addrs [] = {}" "addrs (i # cs) = set_option (ci_addr i) \<union> addrs cs" "addrs (xs @ ys) = addrs xs \<union> addrs ys"
  by (auto simp: addrs_def)

text \<open>Every address of the table is a mapping with the size the table computes for its group.\<close>

definition backed :: "'w setup_kernel \<Rightarrow> snd_pcm \<Rightarrow> snd_pcm_channel_info list \<Rightarrow> (nat \<rightharpoonup> u64) \<Rightarrow> bool" where
  "backed k pcm cs m \<longleftrightarrow> (\<forall>a \<in> addrs cs. m a = Some (map_size k (gbits pcm (\<lambda>i. ci_addr i = Some a) cs)))"

definition clear_addr :: "nat \<Rightarrow> snd_pcm_channel_info \<Rightarrow> snd_pcm_channel_info" where
  "clear_addr a i = (if ci_addr i = Some a then i\<lparr>ci_addr := None\<rparr> else i)"

lemma addrs_clear [simp]: "addrs (map (clear_addr a) cs) = addrs cs - {a}"
  by (induction cs) (auto simp: clear_addr_def)

lemma gbits_clear: "b \<noteq> a \<Longrightarrow> gbits pcm (\<lambda>i. ci_addr i = Some b) (map (clear_addr a) cs) = gbits pcm (\<lambda>i. ci_addr i = Some b) cs"
  by (subst gbits_map) (auto simp: clear_addr_def intro!: gbits_cong)

lemma munmap_loop_frees:
  assumes "tracks_mappings k mm" "backed k pcm cs (mm w)"
  shows "\<exists>cs' w'. munmap_loop k pcm cs w = (None, cs', w') \<and> mm w' = mm w |` (- addrs cs)"
  using assms(2)
proof (induction "length cs" arbitrary: cs w rule: less_induct)
  case less
  show ?case
  proof (cases cs)
    case (Cons i rest)
    show ?thesis
    proof (cases "ci_addr i")
      case None
      have "backed k pcm rest (mm w)" using less.prems Cons None by (simp add: backed_def)
      with less.hyps [of rest w] Cons None show ?thesis by auto
    next
      case (Some a)
      let ?sz = "map_size k (gbits pcm (\<lambda>i. ci_addr i = Some a) cs)"
      obtain r e w1 where u: "k_munmap k a ?sz w = (r, e, w1)" by (cases "k_munmap k a ?sz w") auto
      have "mm w a = Some ?sz" using less.prems Cons Some by (simp add: backed_def)
      then have r: "0 \<le> r" and m1: "mm w1 = (mm w)(a := None)"
        using tracks_munmap [OF assms(1) _ u] by simp_all
      have "backed k pcm (map (clear_addr a) rest) (mm w1)"
        using less.prems Cons Some m1 by (auto simp: backed_def gbits_clear)
      then obtain cs' w' where ih: "munmap_loop k pcm (map (clear_addr a) rest) w1 = (None, cs', w')"
        "mm w' = mm w1 |` (- addrs (map (clear_addr a) rest))"
        using less.hyps [of "map (clear_addr a) rest" w1] Cons by auto
      have "munmap_loop k pcm cs w = (None, i\<lparr>ci_addr := None\<rparr> # cs', w')"
        using Cons Some u r ih(1) by (simp add: Let_def widest_eq clear_addr_def [abs_def])
      moreover have "mm w' = mm w |` (- addrs cs)"
        using ih(2) m1 Cons Some by (auto simp: restrict_map_def fun_eq_iff)
      ultimately show ?thesis by blast
    qed
  qed (simp add: restrict_map_def)
qed

text \<open>
  The table during the mapping loop: every address in it is a mapping made since the start, all
  other mappings are as they were.
\<close>

definition table_inv :: "'w setup_kernel \<Rightarrow> snd_pcm \<Rightarrow> (nat \<rightharpoonup> u64) \<Rightarrow> snd_pcm_channel_info list \<Rightarrow> (nat \<rightharpoonup> u64) \<Rightarrow> bool" where
  "table_inv k pcm m0 cs m \<longleftrightarrow> backed k pcm cs m \<and> m |` (- addrs cs) = m0 \<and> (\<forall>a \<in> addrs cs. m0 a = None)"

text \<open>Channels that are still to be visited share an address with all channels of their offset.\<close>

definition grouped :: "snd_pcm_channel_info list \<Rightarrow> snd_pcm_channel_info list \<Rightarrow> bool" where
  "grouped pre todo \<longleftrightarrow> (\<forall>i \<in> set todo. \<forall>j \<in> set (pre @ todo).
     ci_offset (ci_info i) = ci_offset (ci_info j) \<and> ci_addr j \<noteq> None \<longrightarrow> ci_addr i = ci_addr j)"

definition set_addr :: "snd_pcm_channel_info \<Rightarrow> nat \<Rightarrow> snd_pcm_channel_info \<Rightarrow> snd_pcm_channel_info" where
  "set_addr i a i1 = (if ci_offset (ci_info i1) = ci_offset (ci_info i) then i1\<lparr>ci_addr := Some a\<rparr> else i1)"

lemma table_inv_step:
  assumes inv: "table_inv k pcm m0 (pre @ i # rest) m" and grp: "grouped pre (i # rest)"
    and i: "ci_addr i = None" and fresh: "m a = None"
    and sz: "sz = map_size k (widest pcm (\<lambda>i1. ci_offset (ci_info i1) = ci_offset (ci_info i)) (chan_bits pcm i) rest)"
  shows "table_inv k pcm m0 (pre @ i\<lparr>ci_addr := Some a\<rparr> # map (set_addr i a) rest) (m(a \<mapsto> sz))"
    and "grouped (pre @ [i\<lparr>ci_addr := Some a\<rparr>]) (map (set_addr i a) rest)"
proof -
  let ?i = "i\<lparr>ci_addr := Some a\<rparr>" and ?rest = "map (set_addr i a) rest"
  have new: "a \<notin> addrs (pre @ i # rest)" using inv fresh unfolding table_inv_def backed_def by force
  have unset: "ci_addr i1 = None" if "i1 \<in> set rest" "ci_offset (ci_info i1) = ci_offset (ci_info i)" for i1
  proof -
    have "ci_offset (ci_info i) = ci_offset (ci_info i1) \<and> ci_addr i1 \<noteq> None \<longrightarrow> ci_addr i = ci_addr i1"
      using grp that(1) unfolding grouped_def by simp
    with that(2) i show ?thesis by auto
  qed
  have A: "addrs (pre @ ?i # ?rest) = insert a (addrs (pre @ i # rest))"
    using i unset by (fastforce simp: addrs_def set_addr_def split: if_splits)
  have old: "gbits pcm (\<lambda>i. ci_addr i = Some b) (pre @ ?i # ?rest) = gbits pcm (\<lambda>i. ci_addr i = Some b) (pre @ i # rest)"
    if "b \<noteq> a" for b
  proof -
    have "gbits pcm (\<lambda>i. ci_addr i = Some b) ?rest = gbits pcm (\<lambda>i. ci_addr i = Some b) rest"
      using that unset by (subst gbits_map) (auto simp: set_addr_def intro!: gbits_cong)
    with that i show ?thesis by simp
  qed
  have grpnew: "gbits pcm (\<lambda>i. ci_addr i = Some a) (pre @ ?i # ?rest) =
      widest pcm (\<lambda>i1. ci_offset (ci_info i1) = ci_offset (ci_info i)) (chan_bits pcm i) rest"
  proof -
    have "gbits pcm (\<lambda>i. ci_addr i = Some a) pre = 0" using new by (intro gbits_none) (auto simp: addrs_def)
    moreover have "gbits pcm (\<lambda>i. ci_addr i = Some a) ?rest =
        gbits pcm (\<lambda>i1. ci_offset (ci_info i1) = ci_offset (ci_info i)) rest"
      using new by (subst gbits_map) (auto simp: set_addr_def addrs_def intro!: gbits_cong)
    ultimately show ?thesis by (simp add: widest_eq)
  qed
  show "table_inv k pcm m0 (pre @ ?i # ?rest) (m(a \<mapsto> sz))"
    unfolding table_inv_def
  proof (intro conjI)
    show "backed k pcm (pre @ ?i # ?rest) (m(a \<mapsto> sz))"
      unfolding backed_def A
    proof
      fix b assume b: "b \<in> insert a (addrs (pre @ i # rest))"
      show "(m(a \<mapsto> sz)) b = Some (map_size k (gbits pcm (\<lambda>i. ci_addr i = Some b) (pre @ ?i # ?rest)))"
      proof (cases "b = a")
        case True
        then show ?thesis using sz grpnew by simp
      next
        case False
        with b inv have "m b = Some (map_size k (gbits pcm (\<lambda>i. ci_addr i = Some b) (pre @ i # rest)))"
          unfolding table_inv_def backed_def by blast
        with False old show ?thesis by simp
      qed
    qed
    show "m(a \<mapsto> sz) |` (- addrs (pre @ ?i # ?rest)) = m0"
      unfolding A using inv fresh new unfolding table_inv_def by (auto simp: restrict_map_def fun_eq_iff split: if_splits)
    show "\<forall>b \<in> addrs (pre @ ?i # ?rest). m0 b = None"
      unfolding A using inv fresh unfolding table_inv_def by (auto simp: restrict_map_def split: if_splits)
  qed
  show "grouped (pre @ [?i]) ?rest"
    using grp i unset unfolding grouped_def by (fastforce simp: set_addr_def split: if_splits)
qed

lemma mmap_loop_inv:
  assumes k: "tracks_mappings k mm"
    and "grouped pre todo" "table_inv k pcm m0 (pre @ todo) (mm w)"
    and "mmap_loop k pcm todo w = (r, cs, areas, w')"
  shows "table_inv k pcm m0 (pre @ cs) (mm w') \<and> length cs = length todo \<and> r \<le> 0 \<and>
         (r = 0 \<longrightarrow> areas = map area_of cs \<and> (\<forall>i \<in> set cs. ci_addr i \<noteq> None))"
  using assms(2-)
proof (induction "length todo" arbitrary: pre todo w r cs areas w' rule: less_induct)
  case less
  show ?case
  proof (cases todo)
    case Nil
    with less.prems show ?thesis by simp
  next
    case (Cons i rest)
    show ?thesis
    proof (cases "ci_addr i")
      case (Some a)
      obtain r1 cs1 as1 w1 where l: "mmap_loop k pcm rest w = (r1, cs1, as1, w1)" by (metis prod_cases4)
      with less.prems(3) Cons Some have res: "r = r1" "cs = i # cs1" "areas = area_of i # as1" "w' = w1" by auto
      have g: "grouped (pre @ [i]) rest" using less.prems(1) Cons unfolding grouped_def by simp
      have t: "table_inv k pcm m0 ((pre @ [i]) @ rest) (mm w)" using less.prems(2) Cons by simp
      from less.hyps [OF _ g t l] Cons res Some show ?thesis by auto
    next
      case None
      let ?sz = "map_size k (widest pcm (\<lambda>i1. ci_offset (ci_info i1) = ci_offset (ci_info i)) (chan_bits pcm i) rest)"
      obtain p e w1 where m: "k_mmap k ?sz (ci_offset (ci_info i)) w = (p, e, w1)" by (metis prod_cases3)
      show ?thesis
      proof (cases p)
        case None
        with m have "0 < e" "mm w1 = mm w" using tracks_mmap_fail [OF k] by simp_all
        with less.prems m None \<open>ci_addr i = None\<close> Cons show ?thesis by auto
      next
        case (Some a)
        with m have fresh: "mm w a = None" and m1: "mm w1 = (mm w)(a \<mapsto> ?sz)"
          using tracks_mmap_ok [OF k] by simp_all
        obtain r1 cs1 as1 w2 where l: "mmap_loop k pcm (map (set_addr i a) rest) w1 = (r1, cs1, as1, w2)"
          by (metis prod_cases4)
        have f: "(\<lambda>i1. if ci_offset (ci_info i1) = ci_offset (ci_info i)
              then i1\<lparr>ci_addr := ci_addr (i\<lparr>ci_addr := Some a\<rparr>)\<rparr> else i1) = set_addr i a"
          by (simp add: set_addr_def fun_eq_iff)
        have res: "r = r1" "cs = i\<lparr>ci_addr := Some a\<rparr> # cs1" "areas = area_of (i\<lparr>ci_addr := Some a\<rparr>) # as1" "w' = w2"
          using less.prems(3) Cons m Some l \<open>ci_addr i = None\<close> by (auto simp: Let_def f)
        note s = table_inv_step [OF less.prems(2) [unfolded Cons] less.prems(1) [unfolded Cons] \<open>ci_addr i = None\<close> fresh refl]
        have t: "table_inv k pcm m0 ((pre @ [i\<lparr>ci_addr := Some a\<rparr>]) @ map (set_addr i a) rest) (mm w1)"
          using s(1) m1 by simp
        from less.hyps [OF _ s(2) t l] Cons res show ?thesis by auto
      qed
    qed
  qed
qed

lemma channel_info_loop_keeps:
  assumes "tracks_mappings k mm" "channel_info_loop k n c w = (r, cs, w')"
  shows "mm w' = mm w \<and> length cs = n \<and> addrs cs = {} \<and> (\<forall>e. r = Some e \<longrightarrow> e < 0)"
  using assms(2)
proof (induction n arbitrary: c w r cs w')
  case (Suc n)
  obtain ret e info w1 where i: "k_channel_info k ((ci_info zero_channel)\<lparr>ci_channel := of_nat c\<rparr>) w = (ret, e, info, w1)"
    by (metis prod_cases4)
  then have m1: "mm w1 = mm w" "ret < 0 \<longrightarrow> 0 < e" using tracks_info [OF assms(1)] by simp_all
  show ?case
  proof (cases "ret < 0")
    case True
    then show ?thesis using Suc.prems i m1 by (auto simp: addrs_def zero_channel_def)
  next
    case False
    obtain r2 cs2 w2 where l: "channel_info_loop k n (Suc c) w1 = (r2, cs2, w2)" by (metis prod_cases3)
    from Suc.IH [OF l] Suc.prems i l m1 False show ?thesis by (auto simp: zero_channel_def)
  qed
qed simp

lemma backed_handle:
  "pcm_buffer_size pcm' = pcm_buffer_size pcm \<Longrightarrow> pcm_sample_bits pcm' = pcm_sample_bits pcm \<Longrightarrow>
   chan_bits pcm' = chan_bits pcm"
  by (simp add: chan_bits_def fun_eq_iff)

lemma mmap_inv:
  assumes k: "tracks_mappings k mm" and none: "mmap_channels pcm = None" "running_areas pcm = None"
    and m: "snd_pcm_mmap k pcm w = Some (r, pcm', w')"
  shows "case mmap_channels pcm' of
           None \<Rightarrow> r < 0 \<and> mm w' = mm w \<and> pcm' = pcm
         | Some cs \<Rightarrow> table_inv k pcm (mm w) cs (mm w') \<and> length cs = unat (pcm_channels pcm) \<and> r \<le> 0 \<and>
             (\<exists>areas. pcm' = pcm\<lparr>mmap_channels := Some cs, running_areas := Some areas\<rparr> \<and>
                (r = 0 \<longrightarrow> areas = map area_of cs \<and> (\<forall>i \<in> set cs. ci_addr i \<noteq> None)))"
proof -
  let ?n = "ucast (pcm_channels pcm) :: u64"
  obtain ok1 w1 where c1: "k_calloc k ?n 32 w = (ok1, w1)" by fastforce
  obtain ok2 w2 where c2: "k_calloc k ?n 16 w1 = (ok2, w2)" by fastforce
  have mw: "mm w1 = mm w" "mm w2 = mm w" using tracks_calloc [OF k c1] tracks_calloc [OF k c2] by simp_all
  have un: "snd_pcm_munmap k pcm w = Some (0, pcm, w)" using none by (simp add: snd_pcm_munmap_def)
  have same: "pcm\<lparr>mmap_channels := None\<rparr> = pcm" "pcm\<lparr>mmap_channels := None, running_areas := None\<rparr> = pcm"
    using none by (cases pcm; simp)+
  consider (a) "\<not> ok1" | (b) "ok1 \<and> \<not> ok2" | (c) "ok1 \<and> ok2" by blast
  then show ?thesis
  proof cases
    case c
    obtain e cs w3 where l: "channel_info_loop k (unat (pcm_channels pcm)) 0 w2 = (e, cs, w3)" by (metis prod_cases3)
    note keep = channel_info_loop_keeps [OF k l]
    have inv: "table_inv k pcm (mm w) cs (mm w3)"
      using keep mw by (simp add: table_inv_def backed_def restrict_map_def)
    show ?thesis
    proof (cases e)
      case (Some err)
      then show ?thesis using m c1 c2 c un l inv keep by (auto simp: snd_pcm_mmap_def)
    next
      case None
      obtain r1 cs1 as1 w4 where ml: "mmap_loop k pcm cs w3 = (r1, cs1, as1, w4)" by (metis prod_cases4)
      have "grouped [] cs" using keep by (auto simp: grouped_def addrs_def)
      from mmap_loop_inv [OF k this _ ml] inv have "table_inv k pcm (mm w) cs1 (mm w4) \<and> length cs1 = length cs \<and> r1 \<le> 0 \<and>
         (r1 = 0 \<longrightarrow> as1 = map area_of cs1 \<and> (\<forall>i \<in> set cs1. ci_addr i \<noteq> None))" by simp
      then show ?thesis using m c1 c2 c un l None ml keep by (auto simp: snd_pcm_mmap_def)
    qed
  qed (use m c1 c2 mw un same none in \<open>auto simp: snd_pcm_mmap_def\<close>)
qed

text \<open>C15. Whether \<^verbatim>\<open>_snd_pcm_mmap\<close> succeeds or stops half way, \<^verbatim>\<open>_snd_pcm_munmap\<close> undoes it: each unmapping names an
  address and exactly the size it was mapped with, although one loop groups the channels by file
  offset and the other by address, and afterwards the process has the mappings it had before.\<close>

theorem mmap_munmap_balance:
  assumes "tracks_mappings k mm" "mmap_channels pcm = None" "running_areas pcm = None"
    and "snd_pcm_mmap k pcm w = Some (r, pcm1, w1)"
  shows "\<exists>w2. snd_pcm_munmap k pcm1 w1 = Some (0, pcm, w2) \<and> mm w2 = mm w"
proof -
  note inv = mmap_inv [OF assms]
  show ?thesis
  proof (cases "mmap_channels pcm1")
    case None
    with inv show ?thesis by (simp add: snd_pcm_munmap_def)
  next
    case (Some cs)
    with inv obtain areas where t: "table_inv k pcm (mm w) cs (mm w1)"
      and len: "length cs = unat (pcm_channels pcm)"
      and p: "pcm1 = pcm\<lparr>mmap_channels := Some cs, running_areas := Some areas\<rparr>" by auto
    have "chan_bits pcm1 = chan_bits pcm" by (rule backed_handle) (simp_all add: p)
    then have "backed k pcm1 cs (mm w1)" using t by (simp add: table_inv_def backed_def gbits_def)
    from munmap_loop_frees [OF assms(1) this] obtain cs' w2 where
      l: "munmap_loop k pcm1 cs w1 = (None, cs', w2)" and m2: "mm w2 = mm w1 |` (- addrs cs)" by blast
    have "pcm_channels pcm1 = pcm_channels pcm" by (simp add: p)
    then have "snd_pcm_munmap k pcm1 w1 = Some (0, pcm1\<lparr>mmap_channels := None, running_areas := None\<rparr>, w2)"
      using Some l len by (simp add: snd_pcm_munmap_def)
    moreover have "pcm1\<lparr>mmap_channels := None, running_areas := None\<rparr> = pcm"
      using p assms(2,3) by (cases pcm) simp
    ultimately show ?thesis using m2 t by (simp add: table_inv_def)
  qed
qed

section \<open>The areas lie in their mappings\<close>

lemma unat_add_u64: "unat a + unat b < 2 ^ 64 \<Longrightarrow> unat (a + b :: u64) = unat a + unat b"
  using unat_add_lem [of a b] by simp

lemma unat_mult_u64: "unat a * unat b < 2 ^ 64 \<Longrightarrow> unat (a * b :: u64) = unat a * unat b"
  using unat_mult_lem [of a b] by simp

lemma page_align_le:
  assumes "unat sz + unat (k_page_size k) < 2 ^ 64" "0 < unat (k_page_size k)"
  shows "unat sz \<le> unat (page_align k sz)"
proof -
  define p where "p = k_page_size k"
  define r where "r = sz mod p"
  have s: "unat (sz + p) = unat sz + unat p" using assms(1) by (intro unat_add_u64) (simp add: p_def)
  have "unat r \<le> unat p" using assms(2) by (simp add: r_def p_def unat_mod mod_le_divisor)
  then have "r \<le> sz + p" and le: "unat sz \<le> unat sz + unat p - unat r" using s by (simp_all add: word_le_nat_alt)
  then have "unat (sz + p - r) = unat sz + unat p - unat r" using s by (simp add: unat_sub)
  with le show ?thesis by (simp add: page_align_def Let_def p_def r_def)
qed

lemma map_size_le:
  assumes "unat b < 2 ^ 62" "0 < unat (k_page_size k)" "unat (k_page_size k) \<le> 2 ^ 32"
  shows "unat b \<le> 8 * unat (map_size k b)"
proof -
  have "unat (b + 7) = unat b + 7" using assms(1) by (subst unat_add_u64) simp_all
  then have d: "unat ((b + 7) div 8) = (unat b + 7) div 8" by (simp add: unat_div)
  then have "unat ((b + 7) div 8) + unat (k_page_size k) < 2 ^ 64" using assms by simp
  from page_align_le [OF this assms(2)] d have "(unat b + 7) div 8 \<le> unat (map_size k b)" by (simp add: map_size_def)
  then show ?thesis by simp
qed

text \<open>The extent of a channel, computed without wrap-around.\<close>

definition extent :: "snd_pcm \<Rightarrow> sndrv_pcm_channel_info \<Rightarrow> nat" where
  "extent pcm i = unat (ci_first i) + unat (ci_step i) * (bufsize pcm - 1) + unat (pcm_sample_bits pcm)"

lemma chan_bits_extent:
  assumes "extent pcm (ci_info i) < 2 ^ 62" "0 < bufsize pcm"
  shows "unat (chan_bits pcm i) = extent pcm (ci_info i)"
proof -
  have b: "unat (pcm_buffer_size pcm - 1) = bufsize pcm - 1"
  proof -
    have "pcm_buffer_size pcm \<noteq> 0" using assms(2) by auto
    then show ?thesis by (simp add: unat_minus_one)
  qed
  have m: "unat (ucast (ci_step (ci_info i)) * (pcm_buffer_size pcm - 1) :: u64) = unat (ci_step (ci_info i)) * (bufsize pcm - 1)"
    using assms(1) b by (subst unat_mult_u64) (simp_all add: extent_def)
  have a: "unat (ucast (ci_first (ci_info i)) + ucast (ci_step (ci_info i)) * (pcm_buffer_size pcm - 1) :: u64) =
      unat (ci_first (ci_info i)) + unat (ci_step (ci_info i)) * (bufsize pcm - 1)"
    using assms(1) m by (subst unat_add_u64) (simp_all add: extent_def)
  show ?thesis
    unfolding chan_bits_def using assms(1) a by (subst unat_add_u64) (simp_all add: extent_def)
qed

lemma gbits_member: "i \<in> set cs \<Longrightarrow> P i \<Longrightarrow> chan_bits pcm i \<le> gbits pcm P cs"
  by (induction cs) (auto simp: le_max_iff_disj)

lemma gbits_bound: "(\<And>i. i \<in> set cs \<Longrightarrow> unat (chan_bits pcm i) < n) \<Longrightarrow> 0 < n \<Longrightarrow> unat (gbits pcm P cs) < n"
  by (induction cs) (auto simp: max_def)

text \<open>After a successful \<^verbatim>\<open>_snd_pcm_mmap\<close> every channel has an area, and the area lies in a mapping that is
  large enough for its last sample: the extent of the channel in bits does not exceed the mapped
  bytes.  No wrap-around is assumed of the extents that the driver reports, and a page size of at
  most 4 GiB.\<close>

theorem mmap_areas_inside:
  assumes k: "tracks_mappings k mm" and none: "mmap_channels pcm = None" "running_areas pcm = None"
    and m: "snd_pcm_mmap k pcm w = Some (0, pcm1, w1)" and buf: "0 < bufsize pcm"
    and page: "0 < unat (k_page_size k)" "unat (k_page_size k) \<le> 2 ^ 32"
    and ext: "\<forall>i \<in> set (the (mmap_channels pcm1)). extent pcm (ci_info i) < 2 ^ 62"
  shows "\<exists>cs areas. mmap_channels pcm1 = Some cs \<and> running_areas pcm1 = Some areas \<and>
           length areas = unat (pcm_channels pcm) \<and>
           (\<forall>c < length areas. \<exists>a s. addr (areas ! c) = Some a \<and> mm w1 a = Some s \<and>
              unat (first (areas ! c)) + unat (step (areas ! c)) * (bufsize pcm - 1) + unat (pcm_sample_bits pcm) \<le> 8 * unat s)"
proof -
  from mmap_inv [OF k none m] obtain cs where cs: "mmap_channels pcm1 = Some cs"
    by (cases "mmap_channels pcm1") auto
  with mmap_inv [OF k none m] have t: "table_inv k pcm (mm w) cs (mm w1)" and len: "length cs = unat (pcm_channels pcm)"
    and areas: "running_areas pcm1 = Some (map area_of cs)" and set: "\<forall>i \<in> set cs. ci_addr i \<noteq> None"
    by auto
  have bts: "unat (chan_bits pcm i) = extent pcm (ci_info i)" if "i \<in> set cs" for i
    using ext cs that buf by (intro chan_bits_extent) auto
  have inside: "\<exists>a s. addr (area_of i) = Some a \<and> mm w1 a = Some s \<and> extent pcm (ci_info i) \<le> 8 * unat s"
    if i: "i \<in> set cs" for i
  proof -
    obtain a where a: "ci_addr i = Some a" using set i by auto
    let ?g = "gbits pcm (\<lambda>i. ci_addr i = Some a) cs"
    have "a \<in> addrs cs" using i a by (auto simp: addrs_def)
    then have s: "mm w1 a = Some (map_size k ?g)" using t by (simp add: table_inv_def backed_def)
    have "unat ?g < 2 ^ 62" using ext cs bts by (intro gbits_bound) auto
    then have "unat ?g \<le> 8 * unat (map_size k ?g)" using page by (rule map_size_le)
    moreover have "unat (chan_bits pcm i) \<le> unat ?g"
      using gbits_member [of i cs "\<lambda>i. ci_addr i = Some a" pcm] i a by (simp add: word_le_nat_alt)
    ultimately show ?thesis using s a bts [OF i] by (simp add: area_of_def)
  qed
  have "\<forall>c < length (map area_of cs). \<exists>a s. addr (map area_of cs ! c) = Some a \<and> mm w1 a = Some s \<and>
      unat (first (map area_of cs ! c)) + unat (step (map area_of cs ! c)) * (bufsize pcm - 1) + unat (pcm_sample_bits pcm) \<le> 8 * unat s"
  proof (intro allI impI)
    fix c assume "c < length (map area_of cs)"
    then have c: "cs ! c \<in> set cs" and n: "map area_of cs ! c = area_of (cs ! c)" by simp_all
    from inside [OF c] show "\<exists>a s. addr (map area_of cs ! c) = Some a \<and> mm w1 a = Some s \<and>
      unat (first (map area_of cs ! c)) + unat (step (map area_of cs ! c)) * (bufsize pcm - 1) + unat (pcm_sample_bits pcm) \<le> 8 * unat s"
      unfolding n by (simp add: extent_def area_of_def)
  qed
  with cs areas len show ?thesis by simp
qed

text \<open>
  A system whose world is a table of mappings and the next free address, with two interleaved
  channels of 16 bits.
\<close>

definition idle_device :: "'w pcm_kernel" where
  "idle_device = \<lparr>k_request = (\<lambda>_ w. (0, 0, w)), k_sync_ptr = (\<lambda>sp w. (0, 0, sp, w)),
     k_status_page = (\<lambda>w. (\<lparr>state = 2, hw_ptr = 0\<rparr>, w)), k_control_page = (\<lambda>w. (\<lparr>appl_ptr = 0, ctl_avail_min = 1\<rparr>, w)),
     k_control_store = (\<lambda>_ w. w), k_delay = (\<lambda>w. (0, 0, 0, w)), k_transfer = (\<lambda>_ _ n w. (0, 0, sint n, w)),
     k_move = (\<lambda>_ f w. (0, 0, f, w)), k_poll = (\<lambda>_ w. (0, 0, 0, w)), k_sleep = (\<lambda>w. w)\<rparr>"

type_synonym map_world = "(nat \<rightharpoonup> u64) \<times> nat"

definition map_kernel :: "map_world setup_kernel" where
  "map_kernel = \<lparr>dev = idle_device, k_refine = (\<lambda>p. (0, 0, p)), k_hw_params = (\<lambda>p w. (0, 0, p, w)),
     k_sw_params = (\<lambda>p w. (0, 0, p, w)),
     k_channel_info = (\<lambda>i w. (0, 0, i\<lparr>ci_offset := 0, ci_first := 16 * ci_channel i, ci_step := 32\<rparr>, w)),
     k_mmap = (\<lambda>sz _ w. (Some (snd w), 0, ((fst w)(snd w \<mapsto> sz), Suc (snd w)))),
     k_munmap = (\<lambda>a _ w. (0, 0, ((fst w)(a := None), snd w))),
     k_calloc = (\<lambda>_ _ w. (True, w)), k_page_size = 4096\<rparr>"

definition live_maps :: "map_world \<Rightarrow> nat \<rightharpoonup> u64" where
  "live_maps w = fst w |` {..< snd w}"

lemma map_kernel_tracks: "tracks_mappings map_kernel live_maps"
  unfolding tracks_mappings_def
proof (intro conjI allI impI)
  fix sz off w a e w'
  assume "k_mmap map_kernel sz off w = (Some a, e, w')"
  then show "live_maps w a = None" "live_maps w' = (live_maps w)(a \<mapsto> sz)"
    by (auto simp: map_kernel_def live_maps_def restrict_map_def fun_eq_iff)
next
  fix sz off w e w'
  assume "k_mmap map_kernel sz off w = (None, e, w')"
  then show "0 < e" "live_maps w' = live_maps w" by (simp_all add: map_kernel_def)
next
  fix a sz w r e w'
  assume "k_munmap map_kernel a sz w = (r, e, w')"
  then show "0 \<le> r" "live_maps w' = (live_maps w)(a := None)"
    by (auto simp: map_kernel_def live_maps_def restrict_map_def fun_eq_iff)
qed (auto simp: map_kernel_def)

definition two_channels :: snd_pcm where
  "two_channels = (new_pcm 0 3)\<lparr>pcm_channels := 2, pcm_buffer_size := 1024, pcm_sample_bits := 16\<rparr>"

abbreviation empty_world :: map_world where "empty_world \<equiv> (Map.empty, 1)"

abbreviation (input) mapped_channels :: "snd_pcm_channel_info list" where
  "mapped_channels \<equiv>
     [\<lparr>ci_info = \<lparr>ci_channel = 0, ci_offset = 0, ci_first = 0, ci_step = 32\<rparr>, ci_addr = Some 1\<rparr>,
      \<lparr>ci_info = \<lparr>ci_channel = 1, ci_offset = 0, ci_first = 16, ci_step = 32\<rparr>, ci_addr = Some 1\<rparr>]"

lemma two_channels_simps:
  "mmap_channels two_channels = None" "running_areas two_channels = None" "pcm_buffer_size two_channels = 1024"
  "pcm_channels two_channels = 2" "pcm_sample_bits two_channels = 16"
  by (simp_all add: two_channels_def new_pcm_def)

lemma two_channels_info:
  "channel_info_loop map_kernel 2 0 w = (None, map (\<lambda>i. i\<lparr>ci_addr := None\<rparr>) mapped_channels, w)"
  by (simp add: map_kernel_def zero_channel_def numeral_2_eq_2)

lemma two_channels_loop:
  "mmap_loop map_kernel two_channels (map (\<lambda>i. i\<lparr>ci_addr := None\<rparr>) mapped_channels) empty_world =
     (0, mapped_channels, map area_of mapped_channels, ([1 \<mapsto> 4096], 2))"
  by (simp add: map_kernel_def Let_def map_size_def page_align_def chan_bits_def two_channels_simps)

lemma two_channels_mapped:
  "snd_pcm_mmap map_kernel two_channels empty_world =
     Some (0, two_channels\<lparr>mmap_channels := Some mapped_channels, running_areas := Some (map area_of mapped_channels)\<rparr>,
      ([1 \<mapsto> 4096], 2))"
proof -
  have "k_calloc map_kernel n sz w = (True, w)" for n sz w by (simp add: map_kernel_def)
  then show ?thesis
    using two_channels_info [of empty_world] two_channels_loop
    by (simp add: snd_pcm_mmap_def snd_pcm_munmap_def two_channels_simps)
qed

theorem mmap_munmap_balance_witness:
  "\<exists>w. snd_pcm_munmap map_kernel (two_channels\<lparr>mmap_channels := Some mapped_channels,
        running_areas := Some (map area_of mapped_channels)\<rparr>) ([1 \<mapsto> 4096], 2) =
     Some (0, two_channels, w) \<and> live_maps w = Map.empty"
  using mmap_munmap_balance [OF map_kernel_tracks _ _ two_channels_mapped]
  by (simp add: two_channels_simps live_maps_def)

theorem mmap_areas_inside_witness:
  "\<exists>a s. addr (area_of (mapped_channels ! 1)) = Some a \<and> live_maps ([1 \<mapsto> 4096], 2) a = Some s \<and>
     16 + 32 * 1023 + 16 \<le> 8 * unat s"
proof -
  note two = two_channels_simps
  have page: "k_page_size map_kernel = 4096" by (simp add: map_kernel_def)
  have "\<forall>i \<in> set mapped_channels. extent two_channels (ci_info i) < 2 ^ 62"
    by (simp add: extent_def two)
  with mmap_areas_inside [OF map_kernel_tracks two(1,2) two_channels_mapped] two page
  have "\<forall>c < 2. \<exists>a s. addr (map area_of mapped_channels ! c) = Some a \<and> live_maps ([1 \<mapsto> 4096], 2) a = Some s \<and>
      unat (first (map area_of mapped_channels ! c)) + unat (step (map area_of mapped_channels ! c)) * 1023 + 16 \<le> 8 * unat s"
    by simp
  from this [rule_format, of 1] show ?thesis by (simp add: area_of_def)
qed

end
