(* ===== verification/Pcm_Setup.thy ===== *)
theory Pcm_Setup
  imports Pcm_Map
begin

text \<open>
  Configuring a stream: the software parameters and their default, and the installation of a
  hardware configuration (\<^verbatim>\<open>src/src/pcm_params.c\<close>, lines 340 to 363 and 908 to 1013, and the inline accessors
  of \<^verbatim>\<open>src/src/pcm_macros.h\<close>).  The theorems show that the default boundary makes the counters of the ring
  buffer exact, and that an installed configuration is the one the driver returned.
\<close>


section \<open>Software parameters\<close>

text \<open>\<^verbatim>\<open>while (params->boundary * 2 <= LONG_MAX - pcm->buffer_size) params->boundary *= 2;\<close>\<close>

partial_function (option) boundary_loop :: "u64 \<Rightarrow> u64 \<Rightarrow> u64 option" where
  "boundary_loop bufsz b =
     (if b * 2 \<le> of_int LONG_MAX - bufsz then boundary_loop bufsz (b * 2) else Some b)"

definition snd_pcm_sw_params_default :: "snd_pcm \<Rightarrow> snd_pcm_sw_params \<Rightarrow> (int \<times> snd_pcm_sw_params) option" where
  "snd_pcm_sw_params_default pcm params = do {
     b \<leftarrow> boundary_loop (pcm_buffer_size pcm) (pcm_buffer_size pcm);
     Some (0, params\<lparr>sw_tstamp_mode := 0, sw_tstamp_type := sw_tstamp_type (pcm_sw_params pcm), sw_period_step := 1,
       sw_sleep_min := 0, sw_avail_min := pcm_period_size pcm, sw_xfer_align := pcm_period_size pcm,
       sw_start_threshold := 1, sw_stop_threshold := pcm_buffer_size pcm, sw_silence_threshold := 0,
       sw_silence_size := 0, sw_boundary := b\<rparr>) }"

definition snd_pcm_sw_params0 :: "'w setup_kernel \<Rightarrow> snd_pcm \<Rightarrow> snd_pcm_sw_params \<Rightarrow> 'w \<Rightarrow>
    int \<times> snd_pcm \<times> snd_pcm_sw_params \<times> 'w" where
  "snd_pcm_sw_params0 k pcm params w =
     (if \<not> pcm_setup pcm then (- EBADFD, pcm, params, w)
      else case k_sw_params k params w of (ret, errno, params, w) \<Rightarrow>
        if ret < 0 then (- errno, pcm, params, w)
        else let (pcm, w) = store_control (dev k) (pcm\<lparr>pcm_sw_params := params\<rparr>) w
                   (\<lambda>c. c\<lparr>ctl_avail_min := sw_avail_min params\<rparr>)
             in (0, pcm, params, w))"

definition snd_pcm_sw_params_current :: "snd_pcm \<Rightarrow> int \<times> snd_pcm_sw_params" where
  "snd_pcm_sw_params_current pcm = (0, pcm_sw_params pcm)"

definition snd_pcm_sw_params_get_boundary :: "snd_pcm_sw_params \<Rightarrow> int \<times> u64" where
  "snd_pcm_sw_params_get_boundary params = (0, sw_boundary params)"

definition snd_pcm_sw_params_set_tstamp_mode :: "snd_pcm \<Rightarrow> snd_pcm_sw_params \<Rightarrow> int \<Rightarrow> int \<times> snd_pcm_sw_params" where
  "snd_pcm_sw_params_set_tstamp_mode pcm params val = (0, params\<lparr>sw_tstamp_mode := val\<rparr>)"

definition snd_pcm_sw_params_get_tstamp_mode :: "snd_pcm_sw_params \<Rightarrow> int \<times> int" where
  "snd_pcm_sw_params_get_tstamp_mode params = (0, sw_tstamp_mode params)"

definition snd_pcm_sw_params_set_tstamp_type :: "snd_pcm \<Rightarrow> snd_pcm_sw_params \<Rightarrow> u32 \<Rightarrow> int \<times> snd_pcm_sw_params" where
  "snd_pcm_sw_params_set_tstamp_type pcm params val = (0, params\<lparr>sw_tstamp_type := val\<rparr>)"

definition snd_pcm_sw_params_get_tstamp_type :: "snd_pcm_sw_params \<Rightarrow> int \<times> u32" where
  "snd_pcm_sw_params_get_tstamp_type params = (0, sw_tstamp_type params)"

definition snd_pcm_sw_params_set_sleep_min :: "snd_pcm \<Rightarrow> snd_pcm_sw_params \<Rightarrow> u32 \<Rightarrow> int \<times> snd_pcm_sw_params" where
  "snd_pcm_sw_params_set_sleep_min pcm params val = (0, params\<lparr>sw_sleep_min := val\<rparr>)"

definition snd_pcm_sw_params_get_sleep_min :: "snd_pcm_sw_params \<Rightarrow> int \<times> u32" where
  "snd_pcm_sw_params_get_sleep_min params = (0, sw_sleep_min params)"

definition snd_pcm_sw_params_set_avail_min :: "snd_pcm \<Rightarrow> snd_pcm_sw_params \<Rightarrow> u64 \<Rightarrow> int \<times> snd_pcm_sw_params" where
  "snd_pcm_sw_params_set_avail_min pcm params val =
     (let val = (if val < pcm_period_size pcm then pcm_period_size pcm else val) in (0, params\<lparr>sw_avail_min := val\<rparr>))"

definition snd_pcm_sw_params_get_avail_min :: "snd_pcm_sw_params \<Rightarrow> int \<times> u64" where
  "snd_pcm_sw_params_get_avail_min params = (0, sw_avail_min params)"

definition snd_pcm_sw_params_set_xfer_align :: "snd_pcm \<Rightarrow> snd_pcm_sw_params \<Rightarrow> u64 \<Rightarrow> int \<times> snd_pcm_sw_params" where
  "snd_pcm_sw_params_set_xfer_align pcm params val = (0, params\<lparr>sw_xfer_align := val\<rparr>)"

definition snd_pcm_sw_params_get_xfer_align :: "snd_pcm_sw_params \<Rightarrow> int \<times> u64" where
  "snd_pcm_sw_params_get_xfer_align params = (0, sw_xfer_align params)"

definition snd_pcm_sw_params_set_start_threshold :: "snd_pcm \<Rightarrow> snd_pcm_sw_params \<Rightarrow> u64 \<Rightarrow> int \<times> snd_pcm_sw_params" where
  "snd_pcm_sw_params_set_start_threshold pcm params val = (0, params\<lparr>sw_start_threshold := val\<rparr>)"

definition snd_pcm_sw_params_get_start_threshold :: "snd_pcm_sw_params \<Rightarrow> int \<times> u64" where
  "snd_pcm_sw_params_get_start_threshold params = (0, sw_start_threshold params)"

definition snd_pcm_sw_params_set_stop_threshold :: "snd_pcm \<Rightarrow> snd_pcm_sw_params \<Rightarrow> u64 \<Rightarrow> int \<times> snd_pcm_sw_params" where
  "snd_pcm_sw_params_set_stop_threshold pcm params val = (0, params\<lparr>sw_stop_threshold := val\<rparr>)"

definition snd_pcm_sw_params_get_stop_threshold :: "snd_pcm_sw_params \<Rightarrow> int \<times> u64" where
  "snd_pcm_sw_params_get_stop_threshold params = (0, sw_stop_threshold params)"

definition snd_pcm_sw_params_set_silence_threshold :: "snd_pcm \<Rightarrow> snd_pcm_sw_params \<Rightarrow> u64 \<Rightarrow> int \<times> snd_pcm_sw_params" where
  "snd_pcm_sw_params_set_silence_threshold pcm params val = (0, params\<lparr>sw_silence_threshold := val\<rparr>)"

definition snd_pcm_sw_params_get_silence_threshold :: "snd_pcm_sw_params \<Rightarrow> int \<times> u64" where
  "snd_pcm_sw_params_get_silence_threshold params = (0, sw_silence_threshold params)"

definition snd_pcm_sw_params_set_silence_size :: "snd_pcm \<Rightarrow> snd_pcm_sw_params \<Rightarrow> u64 \<Rightarrow> int \<times> snd_pcm_sw_params" where
  "snd_pcm_sw_params_set_silence_size pcm params val = (0, params\<lparr>sw_silence_size := val\<rparr>)"

definition snd_pcm_sw_params_get_silence_size :: "snd_pcm_sw_params \<Rightarrow> int \<times> u64" where
  "snd_pcm_sw_params_get_silence_size params = (0, sw_silence_size params)"

definition snd_pcm_sw_params_set_period_event :: "snd_pcm \<Rightarrow> snd_pcm_sw_params \<Rightarrow> int \<Rightarrow> int \<times> snd_pcm_sw_params" where
  "snd_pcm_sw_params_set_period_event pcm params val = (0, params\<lparr>sw_period_event := of_int val\<rparr>)"

definition snd_pcm_sw_params_get_period_event :: "snd_pcm_sw_params \<Rightarrow> int \<times> int" where
  "snd_pcm_sw_params_get_period_event params = (0, sint (sw_period_event params))"

section \<open>Installing a configuration\<close>

definition snd_pcm_hw_free :: "'w setup_kernel \<Rightarrow> snd_pcm \<Rightarrow> 'w \<Rightarrow> (int \<times> snd_pcm \<times> 'w) option" where
  "snd_pcm_hw_free k pcm w =
     (if \<not> pcm_setup pcm then Some (0, pcm, w)
      else do {
        (_, pcm, w) \<leftarrow> snd_pcm_munmap k pcm w;
        (case k_request (dev k) REQ_HW_FREE w of (ret, errno, w) \<Rightarrow>
           if ret < 0 then Some (- errno, pcm, w) else Some (0, pcm\<lparr>pcm_setup := False\<rparr>, w)) })"

text \<open>
  The values the accessors leave in the handle: an accessor that fails leaves the old value, except
  that the 64-bit wrappers store what they find in an uninitialised variable, here \<open>junk\<close>.
\<close>

definition install_params :: "u32 \<Rightarrow> snd_pcm \<Rightarrow> snd_pcm_hw_params \<Rightarrow> snd_pcm option" where
  "install_params junk pcm params = do {
     (let pcm = pcm\<lparr>pcm_setup := True, pcm_hw_params := params\<rparr> in do {
     (_, v1, _) \<leftarrow> snd_pcm_hw_params_get_access params (Some (pcm_access pcm)); v1 \<leftarrow> v1;
     (_, v2, _) \<leftarrow> snd_pcm_hw_params_get_format params (Some (pcm_format pcm)); v2 \<leftarrow> v2;
     (_, v3, _) \<leftarrow> snd_pcm_hw_params_get_subformat params (Some (pcm_subformat pcm)); v3 \<leftarrow> v3;
     (_, v4, _) \<leftarrow> snd_pcm_hw_params_get_channels params (Some (pcm_channels pcm)); v4 \<leftarrow> v4;
     (_, v5, _) \<leftarrow> snd_pcm_hw_params_get_rate params (Some (pcm_rate pcm)) None; v5 \<leftarrow> v5;
     (_, v6, _) \<leftarrow> snd_pcm_hw_params_get_period_time params (Some (pcm_period_time pcm)) None; v6 \<leftarrow> v6;
     (_, v7, _) \<leftarrow> snd_pcm_hw_params_get_period_size junk params (Some (pcm_period_size pcm)) None; v7 \<leftarrow> v7;
     (_, v8, _) \<leftarrow> snd_pcm_hw_params_get_buffer_size junk params (Some (pcm_buffer_size pcm)); v8 \<leftarrow> v8;
     physw \<leftarrow> snd_pcm_format_physical_width (sint v2);
     Some (pcm\<lparr>pcm_access := v1, pcm_format := v2, pcm_subformat := v3, pcm_channels := v4, pcm_rate := v5,
       pcm_period_time := v6, pcm_period_size := v7, pcm_buffer_size := v8,
       pcm_sample_bits := of_int physw, pcm_frame_bits := of_int physw * v4\<rparr>) }) }"

definition mmap_access :: "u32 \<Rightarrow> bool" where
  "mmap_access a \<longleftrightarrow> a = 0 \<or> a = 1 \<or> a = 2"

definition snd_pcm_hw_params0 :: "'w setup_kernel \<Rightarrow> u32 \<Rightarrow> snd_pcm \<Rightarrow> snd_pcm_hw_params \<Rightarrow> 'w \<Rightarrow>
    (int \<times> snd_pcm \<times> snd_pcm_hw_params \<times> 'w) option" where
  "snd_pcm_hw_params0 k junk pcm params w =
     (let (err, params) = snd_pcm_hw_refine (k_refine k) params
      in if err < 0 then Some (err, pcm, params, w)
         else do {
           (_, params) \<leftarrow> snd_pcm_hw_params_choose (k_refine k) params;
           (_, pcm, w) \<leftarrow> snd_pcm_hw_free k pcm w;
           (case k_hw_params k params w of (ret, errno, params, w) \<Rightarrow>
              if ret < 0 then Some (- errno, pcm, params, w)
              else do {
                pcm \<leftarrow> install_params junk pcm params;
                (_, sw) \<leftarrow> snd_pcm_sw_params_default pcm zero_sw_params;
                (let (_, pcm, _, w) = snd_pcm_sw_params0 k pcm sw w in do {
                (err, pcm, w) \<leftarrow> (if mmap_access (pcm_access pcm) then snd_pcm_mmap k pcm w else Some (0, pcm, w));
                (if err < 0 then do {
                   (_, pcm, w) \<leftarrow> snd_pcm_munmap k pcm w;
                   Some (err, pcm, params, w) }
                 else let (_, pcm, w) = snd_pcm_sync_ptr0 (dev k) pcm w 0 in Some (0, pcm, params, w)) }) }) })"

definition snd_pcm_hw_params_install :: "'w setup_kernel \<Rightarrow> u32 \<Rightarrow> snd_pcm \<Rightarrow> snd_pcm_hw_params \<Rightarrow> 'w \<Rightarrow>
    (int \<times> snd_pcm \<times> snd_pcm_hw_params \<times> 'w) option" where
  "snd_pcm_hw_params_install k junk pcm params w = do {
     (err, pcm, params, w) \<leftarrow> snd_pcm_hw_params0 k junk pcm params w;
     (if err < 0 then Some (err, pcm, params, w)
      else let (err, pcm, w) = snd_pcm_prepare (dev k) pcm w in Some (err, pcm, params, w)) }"

text \<open>\<^verbatim>\<open>while (fb % 8) { fb *= 2; min_align *= 2; }\<close>, in 32-bit arithmetic: three rounds at most.\<close>

fun min_align_loop :: "nat \<Rightarrow> u32 \<Rightarrow> u32 \<Rightarrow> u32 option" where
  "min_align_loop 0 fb align = (if fb mod 8 \<noteq> 0 then None else Some align)"
| "min_align_loop (Suc n) fb align =
     (if fb mod 8 \<noteq> 0 then min_align_loop n (fb * 2) (align * 2) else Some align)"

definition snd_pcm_hw_params_get_min_align :: "snd_pcm_hw_params \<Rightarrow> u64 option \<Rightarrow> (int \<times> u64 option) option" where
  "snd_pcm_hw_params_get_min_align params val = do {
     (err, fmt, _) \<leftarrow> snd_pcm_hw_param_get params HW_FORMAT (Some 0) None;
     (if err < 0 then Some (err, val)
      else do {
        fmt \<leftarrow> fmt;
        (err, chans, _) \<leftarrow> snd_pcm_hw_param_get params HW_CHANNELS (Some 0) None;
        (if err < 0 then Some (err, val)
         else do {
           chans \<leftarrow> chans;
           physw \<leftarrow> snd_pcm_format_physical_width (sint fmt);
           align \<leftarrow> min_align_loop 3 (of_int physw * chans) 1;
           Some (0, map_option (\<lambda>_. ucast align) val) }) }) }"

definition snd_pcm_hw_params_current :: "snd_pcm \<Rightarrow> snd_pcm_hw_params \<Rightarrow> int \<times> snd_pcm_hw_params" where
  "snd_pcm_hw_params_current pcm params = (if \<not> pcm_setup pcm then (- EBADFD, params) else (0, pcm_hw_params pcm))"

definition snd_pcm_get_params :: "snd_pcm \<Rightarrow> u64 \<Rightarrow> u64 \<Rightarrow> int \<times> u64 \<times> u64" where
  "snd_pcm_get_params pcm bufsz persz =
     (if \<not> pcm_setup pcm then (- EBADFD, bufsz, persz) else (0, pcm_buffer_size pcm, pcm_period_size pcm))"


section \<open>The default boundary\<close>

abbreviation (input) boundary_limit :: "nat \<Rightarrow> nat" where
  "boundary_limit n \<equiv> 9223372036854775807 - n"

lemma boundary_limit_word:
  fixes bufsz :: u64
  assumes "unat bufsz < 2 ^ 62"
  shows "unat (of_int LONG_MAX - bufsz) = boundary_limit (unat bufsz)"
proof -
  have u: "unat (of_int LONG_MAX :: u64) = 9223372036854775807" by simp
  have "bufsz \<le> of_int LONG_MAX" using assms by (simp add: word_le_nat_alt)
  then show ?thesis using u by (simp add: unat_sub)
qed

lemma boundary_loop_returns:
  assumes n: "0 < unat bufsz" "unat bufsz < 2 ^ 62"
    and "unat b = unat bufsz * 2 ^ j" "unat b \<le> boundary_limit (unat bufsz)"
  shows "\<exists>i b'. boundary_loop bufsz b = Some b' \<and> j \<le> i \<and> unat b' = unat bufsz * 2 ^ i \<and>
     unat b' \<le> boundary_limit (unat bufsz) \<and> boundary_limit (unat bufsz) < 2 * unat b'"
  using assms(3-)
proof (induction "boundary_limit (unat bufsz) - unat b" arbitrary: b j rule: less_induct)
  case less
  have d: "unat (b * 2) = 2 * unat b"
  proof -
    have "unat b * unat (2 :: u64) < 2 ^ 64" using less.prems(2) by simp
    then show ?thesis by (simp add: unat_mult_u64)
  qed
  show ?case
  proof (cases "2 * unat b \<le> boundary_limit (unat bufsz)")
    case True
    have pos: "0 < unat b" using less.prems(1) n by simp
    have "\<exists>i b'. boundary_loop bufsz (b * 2) = Some b' \<and> Suc j \<le> i \<and> unat b' = unat bufsz * 2 ^ i \<and>
       unat b' \<le> boundary_limit (unat bufsz) \<and> boundary_limit (unat bufsz) < 2 * unat b'"
    proof (rule less.hyps)
      show "boundary_limit (unat bufsz) - unat (b * 2) < boundary_limit (unat bufsz) - unat b"
        using pos d True by linarith
      show "unat (b * 2) = unat bufsz * 2 ^ Suc j" using d less.prems(1) by simp
      show "unat (b * 2) \<le> boundary_limit (unat bufsz)" using d True by simp
    qed
    moreover have "boundary_loop bufsz b = boundary_loop bufsz (b * 2)"
      using True d boundary_limit_word [OF n(2)] by (subst boundary_loop.simps) (simp add: word_le_nat_alt)
    ultimately show ?thesis by (metis Suc_leD)
  next
    case False
    then have "boundary_loop bufsz b = Some b"
      using d boundary_limit_word [OF n(2)] by (subst boundary_loop.simps) (simp add: word_le_nat_alt)
    with False less.prems show ?thesis by auto
  qed
qed

lemma boundary_loop_0: "boundary_loop 0 0 = None"
proof -
  have "P" if "boundary_loop s b = Some y" "s = 0" "b = 0" for s b y P
    using that
  proof (induction rule: boundary_loop.raw_induct [rotated, consumes 1, case_names step])
    case (step f s b y)
    then show ?case by (simp add: word_le_nat_alt)
  qed
  then show ?thesis by (metis not_Some_eq)
qed

text \<open>\<^verbatim>\<open>snd_pcm_sw_params_default\<close> ends for every buffer of less than \<open>2 ^ 61\<close> frames that is not empty, with a boundary
  that is the buffer size times a power of two, more than the buffer, and the largest one that
  leaves room for one buffer below \<^verbatim>\<open>LONG_MAX\<close>.  These are exactly the conditions under which the counters of
  the ring buffer are exact.  For an empty buffer the loop never ends.\<close>

theorem default_boundary_fits:
  assumes "bufsize pcm < 2 ^ 61"
  shows "if bufsize pcm = 0 then snd_pcm_sw_params_default pcm params = None
         else \<exists>sw i. snd_pcm_sw_params_default pcm params = Some (0, sw) \<and>
           unat (sw_boundary sw) = bufsize pcm * 2 ^ i \<and> 0 < i \<and>
           unat (sw_boundary sw) + bufsize pcm < 2 ^ 63 \<and> 2 ^ 63 \<le> 2 * unat (sw_boundary sw) + bufsize pcm \<and>
           ring_fits (pcm\<lparr>pcm_boundary := sw_boundary sw\<rparr>) hc ac"
proof (cases "bufsize pcm = 0")
  case True
  then have "pcm_buffer_size pcm = 0" by (simp add: unat_eq_0)
  then show ?thesis using boundary_loop_0 by (simp add: snd_pcm_sw_params_default_def)
next
  case False
  define n where "n = bufsize pcm"
  have n: "0 < n" "n < 2 ^ 61" using False assms by (simp_all add: n_def)
  obtain i b where b: "boundary_loop (pcm_buffer_size pcm) (pcm_buffer_size pcm) = Some b"
    "unat b = n * 2 ^ i" "unat b \<le> boundary_limit n" "boundary_limit n < 2 * unat b"
  proof -
    have "bufsize pcm \<le> boundary_limit (bufsize pcm)" using n(2) by (simp add: n_def)
    with boundary_loop_returns [of "pcm_buffer_size pcm" "pcm_buffer_size pcm" 0] n that show thesis
      by (auto simp: n_def)
  qed
  have i: "0 < i" using b(2,4) n by (cases i) auto
  then have lt: "n < unat b" using n(1) b(2) one_less_power [of "2 :: nat" i] by simp
  have up: "unat b + n < 2 ^ 63" using b(3) n by simp
  have "pcm_boundary (pcm\<lparr>pcm_boundary := b\<rparr>) \<noteq> 0" using lt by auto
  then have "ring_fits (pcm\<lparr>pcm_boundary := b\<rparr>) hc ac"
    using lt up n(1) b(2) by (simp add: ring_fits_def n_def [symmetric])
  with False b i up n show ?thesis
    by (auto simp: snd_pcm_sw_params_default_def n_def [symmetric])
qed

theorem default_boundary_fits_witness:
  "\<exists>sw i. snd_pcm_sw_params_default two_channels zero_sw_params = Some (0, sw) \<and>
     unat (sw_boundary sw) = 1024 * 2 ^ i \<and> unat (sw_boundary sw) + 1024 < 2 ^ 63"
  using default_boundary_fits [of two_channels zero_sw_params 0 0] by (auto simp: two_channels_simps)


section \<open>What a configured handle knows\<close>

text \<open>The part of the handle that describes the configuration.\<close>

definition config where
  "config pcm = (pcm_stream pcm, pcm_setup pcm, pcm_fd pcm, pcm_hw_params pcm, pcm_access pcm, pcm_format pcm,
     pcm_subformat pcm, pcm_channels pcm, pcm_rate pcm, pcm_period_size pcm, pcm_period_time pcm, pcm_boundary pcm,
     pcm_buffer_size pcm, pcm_sample_bits pcm, pcm_frame_bits pcm)"

lemma config_same: "same_handle pcm pcm' \<Longrightarrow> config pcm' = config pcm"
  by (cases pcm; cases pcm') (simp add: same_handle_def config_def)

lemma config_sync: "snd_pcm_sync_ptr0 k pcm w f = (r, pcm', w') \<Longrightarrow> config pcm' = config pcm"
  by (rule config_same) (rule sync_ptr_same)

lemma config_store: "store_control k pcm w f = (pcm', w') \<Longrightarrow> config pcm' = config pcm"
  by (auto simp: store_control_def config_def split: option.splits prod.splits)

lemma config_munmap: "snd_pcm_munmap k pcm w = Some (r, pcm', w') \<Longrightarrow> config pcm' = config pcm"
  by (auto simp: snd_pcm_munmap_def config_def Let_def split: option.splits prod.splits if_splits)

lemma config_mmap: "snd_pcm_mmap k pcm w = Some (r, pcm', w') \<Longrightarrow> config pcm' = config pcm"
proof -
  assume a: "snd_pcm_mmap k pcm w = Some (r, pcm', w')"
  then obtain r0 p0 w0 where u: "snd_pcm_munmap k pcm w = Some (r0, p0, w0)"
    by (auto simp: snd_pcm_mmap_def Option.bind_eq_Some_conv)
  from a have "config pcm' = config p0"
    unfolding snd_pcm_mmap_def u by (auto simp: Let_def config_def split: prod.splits if_splits option.splits)
  with config_munmap [OF u] show ?thesis by simp
qed

lemma config_sw: "snd_pcm_sw_params0 k pcm sw w = (r, pcm', sw', w') \<Longrightarrow> config pcm' = config pcm"
proof -
  assume a: "snd_pcm_sw_params0 k pcm sw w = (r, pcm', sw', w')"
  have "config (pcm\<lparr>pcm_sw_params := x\<rparr>) = config pcm" for x by (simp add: config_def)
  with a show ?thesis
    by (auto simp: snd_pcm_sw_params0_def Let_def dest: config_store split: prod.splits if_splits)
qed

text \<open>The handle agrees with the parameters: every accessor that succeeds returns the value in the handle.\<close>

definition installed :: "snd_pcm \<Rightarrow> bool" where
  "installed pcm \<longleftrightarrow> (let p = pcm_hw_params pcm in
     pcm_setup pcm \<and>
     (\<forall>v d. snd_pcm_hw_params_get_access p (Some v) = Some (0, d) \<longrightarrow> fst d = Some (pcm_access pcm)) \<and>
     (\<forall>v d. snd_pcm_hw_params_get_format p (Some v) = Some (0, d) \<longrightarrow> fst d = Some (pcm_format pcm)) \<and>
     (\<forall>v d. snd_pcm_hw_params_get_subformat p (Some v) = Some (0, d) \<longrightarrow> fst d = Some (pcm_subformat pcm)) \<and>
     (\<forall>v d. snd_pcm_hw_params_get_channels p (Some v) = Some (0, d) \<longrightarrow> fst d = Some (pcm_channels pcm)) \<and>
     (\<forall>v d. snd_pcm_hw_params_get_rate p (Some v) None = Some (0, d) \<longrightarrow> fst d = Some (pcm_rate pcm)) \<and>
     (\<forall>v d. snd_pcm_hw_params_get_period_time p (Some v) None = Some (0, d) \<longrightarrow> fst d = Some (pcm_period_time pcm)) \<and>
     (\<forall>j v d. snd_pcm_hw_params_get_period_size j p (Some v) None = Some (0, d) \<longrightarrow> fst d = Some (pcm_period_size pcm)) \<and>
     (\<forall>j v d. snd_pcm_hw_params_get_buffer_size j p (Some v) = Some (0, d) \<longrightarrow> fst d = Some (pcm_buffer_size pcm)) \<and>
     map_option of_int (snd_pcm_format_physical_width (sint (pcm_format pcm))) = Some (pcm_sample_bits pcm) \<and>
     pcm_frame_bits pcm = pcm_sample_bits pcm * pcm_channels pcm)"

lemma installed_config: "config pcm' = config pcm \<Longrightarrow> installed pcm' = installed pcm"
  by (simp add: installed_def config_def)

text \<open>A getter that succeeds does not depend on what was in the variable before.\<close>

lemma param_get_indep:
  assumes "snd_pcm_hw_param_get p var (Some v) dir = Some (0, d)"
    and "snd_pcm_hw_param_get p var (Some v') dir = Some (r, Some x, y)"
  shows "fst d = Some x"
  using assms
  by (auto simp: snd_pcm_hw_param_get_def store_if_def Option.bind_eq_Some_conv split: if_splits option.splits)

lemma param_get64_indep:
  assumes "snd_pcm_hw_param_get64 j p var (Some v) dir = Some (0, d)"
    and "snd_pcm_hw_param_get64 j' p var (Some v') dir = Some (r, Some x, y)"
  shows "fst d = Some x"
  using assms param_get_indep [of p var j dir _ j']
  by (fastforce simp: snd_pcm_hw_param_get64_def define_get64_def Option.bind_eq_Some_conv)


lemmas getter_defs = snd_pcm_hw_params_get_access_def snd_pcm_hw_params_get_format_def
  snd_pcm_hw_params_get_subformat_def snd_pcm_hw_params_get_channels_def snd_pcm_hw_params_get_rate_def
  snd_pcm_hw_params_get_period_time_def

lemmas getter64_defs = snd_pcm_hw_params_get_period_size_def snd_pcm_hw_params_get_buffer_size_def

lemma install_params_installed:
  assumes "install_params junk pcm params = Some pcm'"
  shows "installed pcm' \<and> pcm_hw_params pcm' = params \<and> pcm_boundary pcm' = pcm_boundary pcm \<and>
         pcm_stream pcm' = pcm_stream pcm \<and> pcm_fd pcm' = pcm_fd pcm"
proof -
  from assms obtain r1 v1 d1 r2 v2 d2 r3 v3 d3 r4 v4 d4 r5 v5 d5 r6 v6 d6 r7 v7 d7 r8 v8 d8 physw where
    g1: "snd_pcm_hw_params_get_access params (Some (pcm_access pcm)) = Some (r1, Some v1, d1)" and
    g2: "snd_pcm_hw_params_get_format params (Some (pcm_format pcm)) = Some (r2, Some v2, d2)" and
    g3: "snd_pcm_hw_params_get_subformat params (Some (pcm_subformat pcm)) = Some (r3, Some v3, d3)" and
    g4: "snd_pcm_hw_params_get_channels params (Some (pcm_channels pcm)) = Some (r4, Some v4, d4)" and
    g5: "snd_pcm_hw_params_get_rate params (Some (pcm_rate pcm)) None = Some (r5, Some v5, d5)" and
    g6: "snd_pcm_hw_params_get_period_time params (Some (pcm_period_time pcm)) None = Some (r6, Some v6, d6)" and
    g7: "snd_pcm_hw_params_get_period_size junk params (Some (pcm_period_size pcm)) None = Some (r7, Some v7, d7)" and
    g8: "snd_pcm_hw_params_get_buffer_size junk params (Some (pcm_buffer_size pcm)) = Some (r8, Some v8, d8)" and
    pw: "snd_pcm_format_physical_width (sint v2) = Some physw" and
    p: "pcm' = pcm\<lparr>pcm_setup := True, pcm_hw_params := params, pcm_access := v1, pcm_format := v2, pcm_subformat := v3,
          pcm_channels := v4, pcm_rate := v5, pcm_period_time := v6, pcm_period_size := v7, pcm_buffer_size := v8,
          pcm_sample_bits := of_int physw, pcm_frame_bits := of_int physw * v4\<rparr>"
    by (auto simp: install_params_def Let_def Option.bind_eq_Some_conv)
  note g = g1 g2 g3 g4 g5 g6 g7 g8
  have "installed pcm'"
    unfolding installed_def Let_def
  proof (intro conjI allI impI)
    fix v d assume "snd_pcm_hw_params_get_access (pcm_hw_params pcm') (Some v) = Some (0, d)"
    with g1 show "fst d = Some (pcm_access pcm')" unfolding p getter_defs by (simp add: param_get_indep)
  next
    fix v d assume "snd_pcm_hw_params_get_format (pcm_hw_params pcm') (Some v) = Some (0, d)"
    with g2 show "fst d = Some (pcm_format pcm')" unfolding p getter_defs by (simp add: param_get_indep)
  next
    fix v d assume "snd_pcm_hw_params_get_subformat (pcm_hw_params pcm') (Some v) = Some (0, d)"
    with g3 show "fst d = Some (pcm_subformat pcm')" unfolding p getter_defs by (simp add: param_get_indep)
  next
    fix v d assume "snd_pcm_hw_params_get_channels (pcm_hw_params pcm') (Some v) = Some (0, d)"
    with g4 show "fst d = Some (pcm_channels pcm')" unfolding p getter_defs by (simp add: param_get_indep)
  next
    fix v d assume "snd_pcm_hw_params_get_rate (pcm_hw_params pcm') (Some v) None = Some (0, d)"
    with g5 show "fst d = Some (pcm_rate pcm')" unfolding p getter_defs by (simp add: param_get_indep)
  next
    fix v d assume "snd_pcm_hw_params_get_period_time (pcm_hw_params pcm') (Some v) None = Some (0, d)"
    with g6 show "fst d = Some (pcm_period_time pcm')" unfolding p getter_defs by (simp add: param_get_indep)
  next
    fix j v d assume "snd_pcm_hw_params_get_period_size j (pcm_hw_params pcm') (Some v) None = Some (0, d)"
    with g7 show "fst d = Some (pcm_period_size pcm')" unfolding p getter64_defs by (simp add: param_get64_indep)
  next
    fix j v d assume "snd_pcm_hw_params_get_buffer_size j (pcm_hw_params pcm') (Some v) = Some (0, d)"
    with g8 show "fst d = Some (pcm_buffer_size pcm')" unfolding p getter64_defs by (simp add: param_get64_indep)
  qed (simp_all add: p pw)
  then show ?thesis by (simp add: p)
qed

lemma config_hw_free:
  assumes "snd_pcm_hw_free k pcm w = Some (r, pcm', w')"
  shows "pcm_boundary pcm' = pcm_boundary pcm \<and> pcm_stream pcm' = pcm_stream pcm \<and> pcm_fd pcm' = pcm_fd pcm"
proof (cases "pcm_setup pcm")
  case True
  with assms obtain r0 p0 w0 where u: "snd_pcm_munmap k pcm w = Some (r0, p0, w0)"
    by (auto simp: snd_pcm_hw_free_def Option.bind_eq_Some_conv)
  with True assms have "pcm' = p0 \<or> pcm' = p0\<lparr>pcm_setup := False\<rparr>"
    by (auto simp: snd_pcm_hw_free_def split: prod.splits if_splits)
  with config_munmap [OF u] show ?thesis by (auto simp: config_def)
qed (use assms in \<open>simp add: snd_pcm_hw_free_def\<close>)

text \<open>C19. A configuration that \<^verbatim>\<open>snd_pcm_hw_params\<close> has installed: the handle is marked as set up, holds the parameters
  the driver returned, and agrees with them on access, format, channels, rate, period and buffer;
  the frame size follows from the format and the channels.  The stream and the descriptor are those
  of before, and so is the boundary of the counters, which no part of the installation sets.\<close>

theorem hw_params_installs:
  assumes "snd_pcm_hw_params0 k junk pcm params w = Some (r, pcm', params', w')" "0 \<le> r"
    and "\<And>p w r e p' w'. k_hw_params k p w = (r, e, p', w') \<Longrightarrow> r < 0 \<Longrightarrow> 0 < e"
  shows "installed pcm' \<and> pcm_hw_params pcm' = params' \<and> pcm_boundary pcm' = pcm_boundary pcm \<and>
         pcm_stream pcm' = pcm_stream pcm \<and> pcm_fd pcm' = pcm_fd pcm"
proof -
  obtain e0 p0 where rf: "snd_pcm_hw_refine (k_refine k) params = (e0, p0)" by fastforce
  have "\<not> e0 < 0" using assms(1,2) rf by (auto simp: snd_pcm_hw_params0_def)
  with assms(1) rf obtain c p1 r1 pcm1 w1 where ch: "snd_pcm_hw_params_choose (k_refine k) p0 = Some (c, p1)"
    and fr: "snd_pcm_hw_free k pcm w = Some (r1, pcm1, w1)"
    by (auto simp: snd_pcm_hw_params0_def Option.bind_eq_Some_conv)
  obtain ret e p2 w2 where hp: "k_hw_params k p1 w1 = (ret, e, p2, w2)" by (metis prod_cases4)
  have ok: "\<not> ret < 0"
    using assms(1,2) assms(3) [OF hp] rf ch fr hp \<open>\<not> e0 < 0\<close> by (auto simp: snd_pcm_hw_params0_def)
  obtain pcm2 where ins: "install_params junk pcm1 p2 = Some pcm2"
    using assms(1) rf ch fr hp ok \<open>\<not> e0 < 0\<close> by (auto simp: snd_pcm_hw_params0_def Option.bind_eq_Some_conv)
  obtain d sw where df: "snd_pcm_sw_params_default pcm2 zero_sw_params = Some (d, sw)"
    using assms(1) rf ch fr hp ok ins \<open>\<not> e0 < 0\<close> by (auto simp: snd_pcm_hw_params0_def Option.bind_eq_Some_conv)
  obtain r3 pcm3 sw3 w3 where sp: "snd_pcm_sw_params0 k pcm2 sw w2 = (r3, pcm3, sw3, w3)" by (metis prod_cases4)
  obtain r4 pcm4 w4 where mp: "(if mmap_access (pcm_access pcm3) then snd_pcm_mmap k pcm3 w3 else Some (0, pcm3, w3)) = Some (r4, pcm4, w4)"
    using assms(1) rf ch fr hp ok ins df sp \<open>\<not> e0 < 0\<close>
    by (auto simp: snd_pcm_hw_params0_def Option.bind_eq_Some_conv)
  have c4: "config pcm4 = config pcm3" using mp config_mmap by (auto split: if_splits)
  obtain r5 pcm5 w5 where sy: "snd_pcm_sync_ptr0 (dev k) pcm4 w4 0 = (r5, pcm5, w5)" by (metis prod_cases3)
  have res: "\<not> r4 < 0 \<and> pcm' = pcm5 \<and> params' = p2"
    using assms(1,2) rf ch fr hp ok ins df sp mp sy \<open>\<not> e0 < 0\<close>
    by (auto simp: snd_pcm_hw_params0_def Let_def Option.bind_eq_Some_conv split: prod.splits if_splits)
  have c: "config pcm' = config pcm2" using res config_sync [OF sy] c4 config_sw [OF sp] by simp
  with install_params_installed [OF ins] config_hw_free [OF fr] res installed_config [OF c]
  show ?thesis by (simp add: config_def)
qed


text \<open>A driver that settles on 16-bit stereo at 48 kHz with a buffer of 1024 frames.\<close>

definition exactly :: "u32 \<Rightarrow> snd_interval" where
  "exactly v = \<lparr>imin = v, imax = v, openmin = False, openmax = False, integer = True, empty = False\<rparr>"

definition stereo_params :: "snd_pcm_hw_params" where
  "stereo_params = zero_params\<lparr>masks := map (\<lambda>b. \<lparr>bits = b # replicate 7 0\<rparr>) [8, 4, 1],
     intervals := map exactly [16, 32, 2, 48000, 5333, 256, 1024, 4, 21333, 1024, 4096, 0]\<rparr>"

definition stereo_kernel :: "map_world setup_kernel" where
  "stereo_kernel = map_kernel\<lparr>k_hw_params := (\<lambda>_ w. (0, 0, stereo_params, w))\<rparr>"

definition stereo_pcm :: snd_pcm where
  "stereo_pcm = (new_pcm 0 3)\<lparr>pcm_setup := True, pcm_hw_params := stereo_params, pcm_access := 3, pcm_format := 2,
     pcm_subformat := 0, pcm_channels := 2, pcm_rate := 48000, pcm_period_time := 5333, pcm_period_size := 256,
     pcm_buffer_size := 1024, pcm_sample_bits := 16, pcm_frame_bits := 32\<rparr>"

lemma stereo_choose: "snd_pcm_hw_params_choose (k_refine stereo_kernel) zero_params = Some (- 2, zero_params)"
  by code_simp

lemma stereo_install: "install_params 0 (new_pcm 0 3) stereo_params = Some stereo_pcm"
  by code_simp

lemma stereo_simps:
  "snd_pcm_hw_refine (k_refine stereo_kernel) zero_params = (0, zero_params)"
  "snd_pcm_hw_free stereo_kernel (new_pcm 0 3) w = Some (0, new_pcm 0 3, w)"
  "k_hw_params stereo_kernel zero_params w = (0, 0, stereo_params, w)"
  "snd_pcm_sw_params0 stereo_kernel stereo_pcm sw w = (0, stereo_pcm\<lparr>pcm_sw_params := sw\<rparr>, sw, w)"
  "snd_pcm_sync_ptr0 (dev stereo_kernel) (stereo_pcm\<lparr>pcm_sw_params := sw\<rparr>) w f = (0, stereo_pcm\<lparr>pcm_sw_params := sw\<rparr>, w)"
  "\<not> mmap_access (pcm_access stereo_pcm)" "pcm_buffer_size stereo_pcm = 1024"
  by (simp_all add: snd_pcm_hw_refine_def snd_pcm_hw_free_def new_pcm_def stereo_kernel_def map_kernel_def idle_device_def
      snd_pcm_sync_ptr0_def snd_pcm_sw_params0_def store_control_def stereo_pcm_def mmap_access_def)

lemma stereo_hw_params:
  "\<exists>p. snd_pcm_hw_params0 stereo_kernel 0 (new_pcm 0 3) zero_params w = Some (0, p, stereo_params, w)"
proof -
  obtain b where b: "boundary_loop 1024 1024 = Some b"
    using boundary_loop_returns [of 1024 1024 0] by auto
  then show ?thesis
    using stereo_choose stereo_install
    by (simp add: snd_pcm_hw_params0_def snd_pcm_sw_params_default_def stereo_simps)
qed

theorem hw_params_installs_witness:
  "\<exists>p. snd_pcm_hw_params0 stereo_kernel 0 (new_pcm 0 3) zero_params empty_world = Some (0, p, stereo_params, empty_world) \<and>
     installed p \<and> pcm_boundary p = 0"
proof -
  obtain p where p: "snd_pcm_hw_params0 stereo_kernel 0 (new_pcm 0 3) zero_params empty_world =
      Some (0, p, stereo_params, empty_world)" using stereo_hw_params by blast
  moreover have "0 < e" if "k_hw_params stereo_kernel q v = (r, e, q', v')" "r < 0" for q v r e q' v'
    using that by (simp add: stereo_kernel_def)
  ultimately have "installed p \<and> pcm_boundary p = pcm_boundary (new_pcm 0 3)"
    using hw_params_installs [OF p] by blast
  then show ?thesis using p by (simp add: new_pcm_def)
qed

end
