(* ===== verification/C_String.thy ===== *)
theory C_String
  imports Salsa_Prelude
begin

text \<open>
  What the sources use of the string functions of the C library: the numbers that \<^verbatim>\<open>printf\<close> writes, the numbers
  that \<^verbatim>\<open>scanf\<close> and \<^verbatim>\<open>strtoul\<close> read, output into an array of a given size, prefixes and searches.

  A C string is the list of its characters without the final zero.  A number that \<^verbatim>\<open>scanf\<close> reads and \<^verbatim>\<open>int\<close> cannot hold
  has no defined result, nor has a write behind the end of an array: the result is \<open>None\<close>.
\<close>

section \<open>Numbers in decimal\<close>

definition digit_char :: "nat \<Rightarrow> char" where
  "digit_char d = char_of (48 + d)"

fun show_nat :: "nat \<Rightarrow> string" where
  "show_nat n = (if n < 10 then [digit_char n] else show_nat (n div 10) @ [digit_char (n mod 10)])"

declare show_nat.simps [simp del]

definition show_int :: "int \<Rightarrow> string" where
  "show_int i = (if i < 0 then CHR ''-'' # show_nat (nat (- i)) else show_nat (nat i))"

section \<open>Reading numbers\<close>

definition is_space :: "char \<Rightarrow> bool" where
  "is_space c \<longleftrightarrow> (let n = of_char c :: nat in n = 32 \<or> 9 \<le> n \<and> n \<le> 13)"

definition digit_value :: "char \<Rightarrow> nat" where
  "digit_value c = (let n = of_char c :: nat in
     if 48 \<le> n \<and> n \<le> 57 then n - 48 else if 97 \<le> n \<and> n \<le> 122 then n - 87 else if 65 \<le> n \<and> n \<le> 90 then n - 55 else 36)"

text \<open>The digits of a base at the start of a string: their value, and the rest.\<close>

fun scan_digits :: "nat \<Rightarrow> nat \<Rightarrow> string \<Rightarrow> nat \<times> string" where
  "scan_digits base acc (c # s) = (if digit_value c < base then scan_digits base (acc * base + digit_value c) s else (acc, c # s))"
| "scan_digits base acc [] = (acc, [])"

fun scan_sign :: "string \<Rightarrow> bool \<times> string" where
  "scan_sign (c # s) = (if c = CHR ''-'' then (True, s) else if c = CHR ''+'' then (False, s) else (False, c # s))"
| "scan_sign [] = (False, [])"

text \<open>The base of a number read with base zero, and the string after the prefix of a hexadecimal number.\<close>

fun scan_base :: "string \<Rightarrow> nat \<times> string" where
  "scan_base (c # d # s) = (if c = CHR ''0'' \<and> (d = CHR ''x'' \<or> d = CHR ''X'') then (16, s) else if c = CHR ''0'' then (8, c # d # s) else (10, c # d # s))"
| "scan_base [c] = (if c = CHR ''0'' then 8 else 10, [c])"
| "scan_base [] = (10, [])"

text \<open>
  A conversion \<^verbatim>\<open>%i\<close> (the base follows from the prefix) or \<^verbatim>\<open>%d\<close>: the first \<open>option\<close> is undefined behaviour, the
  second tells whether there is a number.
\<close>

definition scan_number :: "bool \<Rightarrow> nat \<Rightarrow> string \<Rightarrow> (int \<times> string) option option" where
  "scan_number neg base s =
     (case s of
        [] \<Rightarrow> Some None
      | c # _ \<Rightarrow>
          if digit_value c < base
          then (let (n, rest) = scan_digits base 0 s; i = (if neg then - int n else int n)
                in map_option (\<lambda>i. Some (i, rest)) (int32 i))
          else Some None)"

definition scan_int :: "bool \<Rightarrow> string \<Rightarrow> (int \<times> string) option option" where
  "scan_int auto s =
     (let (neg, s) = scan_sign (dropWhile is_space s);
          (base, s) = (if auto then scan_base s else (10, s))
      in scan_number neg base s)"

section \<open>Arrays of characters\<close>

text \<open>\<^verbatim>\<open>sprintf\<close> into an array of \<open>n\<close> characters, and \<^verbatim>\<open>snprintf\<close> with its size.\<close>

definition sprintf_array :: "nat \<Rightarrow> string \<Rightarrow> string option" where
  "sprintf_array n s = (if length s < n then Some s else None)"

definition snprintf_array :: "nat \<Rightarrow> string \<Rightarrow> string" where
  "snprintf_array n s = take (n - 1) s"

text \<open>\<^verbatim>\<open>strncmp(s, t, n) == 0\<close> and \<^verbatim>\<open>strchr\<close>.\<close>

definition strneq :: "string \<Rightarrow> string \<Rightarrow> nat \<Rightarrow> bool" where
  "strneq s t n \<longleftrightarrow> take n s = take n t"

definition strchr :: "string \<Rightarrow> char \<Rightarrow> string option" where
  "strchr s c = (case dropWhile (\<lambda>d. d \<noteq> c) s of [] \<Rightarrow> None | t \<Rightarrow> Some t)"

definition to_lower :: "char \<Rightarrow> char" where
  "to_lower c = (let n = of_char c :: nat in if 65 \<le> n \<and> n \<le> 90 then char_of (n + 32) else c)"

text \<open>\<^verbatim>\<open>strncasecmp(s, t, n) == 0\<close> and \<^verbatim>\<open>strcasecmp(s, t) == 0\<close> in the C locale.\<close>

definition strncaseeq :: "string \<Rightarrow> string \<Rightarrow> nat \<Rightarrow> bool" where
  "strncaseeq s t n \<longleftrightarrow> map to_lower (take n s) = map to_lower (take n t)"

definition strcaseeq :: "string \<Rightarrow> string \<Rightarrow> bool" where
  "strcaseeq s t \<longleftrightarrow> map to_lower s = map to_lower t"

section \<open>Facts about numbers\<close>

lemma digit_value_char [simp]: "d < 10 \<Longrightarrow> digit_value (digit_char d) = d"
  by (simp add: digit_value_def digit_char_def Let_def)

lemma digit_char_inj: "d < 10 \<Longrightarrow> digit_char d = c \<longleftrightarrow> of_char c = 48 + d"
  by (auto simp: digit_char_def char_of_eq_iff take_bit_eq_mod)

lemma digit_not_space [simp]: "d < 10 \<Longrightarrow> \<not> is_space (digit_char d)"
  by (simp add: is_space_def digit_char_def Let_def)

lemma show_nat_neq_Nil [simp]: "show_nat n \<noteq> []"
  by (subst show_nat.simps) simp

lemma show_nat_0: "show_nat 0 = ''0''"
  by (subst show_nat.simps) (simp add: digit_char_def char_of_eq_iff)

lemma show_nat_digits: "c \<in> set (show_nat n) \<Longrightarrow> \<exists>d < 10. c = digit_char d"
proof (induction n rule: show_nat.induct)
  case (1 n)
  show ?case
  proof (cases "n < 10")
    case True
    then show ?thesis using 1(2) by (subst (asm) show_nat.simps) auto
  next
    case False
    then have "c \<in> set (show_nat (n div 10)) \<or> c = digit_char (n mod 10)" using 1(2) by (subst (asm) show_nat.simps) auto
    then show ?thesis using 1(1) False by (metis mod_less_divisor zero_less_numeral)
  qed
qed

lemma hd_show_nat: "\<exists>d < 10. hd (show_nat n) = digit_char d"
  using show_nat_digits [of "hd (show_nat n)" n] by simp

text \<open>No leading zero.\<close>

lemma hd_show_nat_pos: "0 < n \<Longrightarrow> hd (show_nat n) \<noteq> CHR ''0''"
proof (induction n rule: show_nat.induct)
  case (1 n)
  then show ?case by (subst show_nat.simps) (simp add: digit_char_inj)
qed

lemma length_show_nat: "n < 10 ^ k \<Longrightarrow> 0 < k \<Longrightarrow> length (show_nat n) \<le> k"
proof (induction n arbitrary: k rule: show_nat.induct)
  case (1 n)
  show ?case
  proof (cases "n < 10")
    case True
    then show ?thesis using 1(3) by (subst show_nat.simps) simp
  next
    case False
    then obtain j where k: "k = Suc j" "0 < j" using 1(2,3) by (cases k; cases "k - 1") auto
    then have "n div 10 < 10 ^ j" using 1(2) by (simp add: less_mult_imp_div_less mult.commute)
    then have "length (show_nat (n div 10)) \<le> j" using 1(1) False k(2) by simp
    then show ?thesis using False k(1) by (subst show_nat.simps) simp
  qed
qed

lemma length_show_int: "- (2 ^ 31) \<le> i \<Longrightarrow> i < 2 ^ 31 \<Longrightarrow> length (show_int i) \<le> 11"
  using length_show_nat [of "nat i" 11] length_show_nat [of "nat (- i)" 10] by (auto simp: show_int_def show_nat_0)

lemma scan_digits_append:
  "\<forall>c \<in> set s. digit_value c < base \<Longrightarrow> scan_digits base acc (s @ t) = scan_digits base (fst (scan_digits base acc s)) t"
  by (induction s arbitrary: acc) auto

definition ends_number :: "nat \<Rightarrow> string \<Rightarrow> bool" where
  "ends_number base t \<longleftrightarrow> (case t of [] \<Rightarrow> True | c # _ \<Rightarrow> base \<le> digit_value c)"

lemma scan_digits_end: "ends_number base t \<Longrightarrow> scan_digits base acc t = (acc, t)"
  by (cases t) (auto simp: ends_number_def)

lemma scan_show_nat_acc: "fst (scan_digits 10 0 (show_nat n)) = n"
proof (induction n rule: show_nat.induct)
  case (1 n)
  have "\<forall>c \<in> set (show_nat (n div 10)). digit_value c < 10" using show_nat_digits by fastforce
  note a = scan_digits_append [OF this, of 0 "[digit_char (n mod 10)]"]
  show ?case
  proof (cases "n < 10")
    case True
    then show ?thesis by (subst show_nat.simps) simp
  next
    case False
    then show ?thesis using a 1 by (subst show_nat.simps) simp
  qed
qed

lemma scan_digits_show: "ends_number 10 t \<Longrightarrow> scan_digits 10 0 (show_nat n @ t) = (n, t)"
proof -
  assume t: "ends_number 10 t"
  have "\<forall>c \<in> set (show_nat n). digit_value c < 10" using show_nat_digits by fastforce
  from scan_digits_append [OF this] show ?thesis by (simp add: scan_digits_end [OF t] scan_show_nat_acc)
qed

lemma not_sign_digit: "d < 10 \<Longrightarrow> digit_char d \<noteq> CHR ''-'' \<and> digit_char d \<noteq> CHR ''+''"
  by (simp add: digit_char_inj)

lemma scan_number_show:
  assumes "ends_number 10 t"
  shows "scan_number neg 10 (show_nat n @ t) = map_option (\<lambda>i. Some (i, t)) (int32 (if neg then - int n else int n))"
proof -
  obtain d s where s: "show_nat n = digit_char d # s" "d < 10"
    using hd_show_nat [of n] by (cases "show_nat n") auto
  then have "\<exists>s'. show_nat n @ t = digit_char d # s'" by simp
  then obtain s' where s': "show_nat n @ t = digit_char d # s'" ..
  have "scan_digits 10 0 (show_nat n @ t) = (n, t)" by (rule scan_digits_show [OF assms])
  then show ?thesis using s(2) unfolding s' by (simp add: scan_number_def)
qed

text \<open>A printed number is read back.\<close>

lemma scan_base_show: "n \<noteq> 0 \<Longrightarrow> scan_base (show_nat n @ t) = (10, show_nat n @ t)"
proof -
  assume "n \<noteq> 0"
  then have "hd (show_nat n) \<noteq> CHR ''0''" using hd_show_nat_pos [of n] by simp
  then show ?thesis by (cases "show_nat n"; cases "tl (show_nat n @ t)") auto
qed

lemma scan_sign_show [simp]: "scan_sign (show_nat n @ t) = (False, show_nat n @ t)"
  using hd_show_nat [of n] not_sign_digit by (cases "show_nat n") auto

lemma space_show [simp]: "dropWhile is_space (show_nat n @ t) = show_nat n @ t"
  using hd_show_nat [of n] by (cases "show_nat n") auto

lemma scan_int_show_nat:
  assumes "ends_number 10 t" "int n < 2 ^ 31" "auto \<longrightarrow> n \<noteq> 0"
  shows "scan_int auto (show_nat n @ t) = Some (Some (int n, t))"
  using assms(2,3) by (auto simp: scan_int_def scan_base_show scan_number_show [OF assms(1)] int32_def)

lemma scan_int_show_neg:
  assumes "ends_number 10 t" "0 < n" "int n \<le> 2 ^ 31"
  shows "scan_int auto (CHR ''-'' # show_nat n @ t) = Some (Some (- int n, t))"
  using assms(2,3) by (auto simp: scan_int_def scan_base_show scan_number_show [OF assms(1)] int32_def is_space_def Let_def)

lemma scan_int_zero:
  assumes "ends_number 8 t" "\<forall>s. t \<noteq> CHR ''x'' # s \<and> t \<noteq> CHR ''X'' # s"
  shows "scan_int True (show_nat 0 @ t) = Some (Some (0, t))"
proof -
  have "scan_base (show_nat 0 @ t) = (8, show_nat 0 @ t)" using assms(2) by (cases t) (auto simp: show_nat_0)
  then show ?thesis using assms(1)
    by (simp add: scan_int_def scan_number_def show_nat_0 digit_value_def scan_digits_end int32_def Let_def is_space_def)
qed

lemma scan_int_show:
  assumes "ends_number 10 t" "- (2 ^ 31) \<le> i" "i < 2 ^ 31"
  shows "scan_int False (show_int i @ t) = Some (Some (i, t))"
  using scan_int_show_nat [OF assms(1), of "nat i" False] scan_int_show_neg [OF assms(1), of "nat (- i)" False] assms(2,3)
  by (auto simp: show_int_def)

end
