(* ===== verification/Ctl_Elem.thy ===== *)
theory Ctl_Elem
  imports Salsa_Prelude
begin

text \<open>
  The objects of the control interface and the calls that move them to and from the kernel: the accessors of
  \<^verbatim>\<open>src/src/ctl_macros.h\<close>, and the user-defined elements, the TLV transfers and the wait of
  \<^verbatim>\<open>src/src/control.c\<close>.

  The unions of \<^verbatim>\<open>snd_ctl_elem_info\<close> and \<^verbatim>\<open>snd_ctl_elem_value\<close> are lists of bytes, and their members are read
  and written little-endian at their offsets, so that the members alias as they do in memory.  An index
  outside the array of a member returns \<open>None\<close>.  A name is the string its array holds; one that fills the
  array has no terminator.  A control device is a record of functions on a world \<open>'w\<close>; each returns the result
  of the system call, \<^verbatim>\<open>errno\<close>, the object and the world.
\<close>

section \<open>Objects\<close>

record snd_ctl_elem_id =
  id_numid :: u32
  id_iface :: int
  id_device :: u32
  id_subdevice :: u32
  id_name :: string
  id_index :: u32

record snd_ctl_elem_list =
  el_offset :: u32
  el_space :: u32
  el_used :: u32
  el_count :: u32
  el_pids :: "snd_ctl_elem_id list"

record snd_ctl_event =
  ev_type :: int
  ev_mask :: u32
  ev_id :: snd_ctl_elem_id

record snd_ctl_card_info =
  ci_card :: int
  ci_id :: string
  ci_driver :: string
  ci_name :: string
  ci_longname :: string
  ci_mixername :: string
  ci_components :: string

record snd_ctl_elem_info =
  info_id :: snd_ctl_elem_id
  info_type :: int
  info_access :: u32
  info_count :: u32
  info_owner :: int
  info_value :: "u8 list"
  info_dimen :: "u16 list"

record snd_ctl_elem_value =
  value_id :: snd_ctl_elem_id
  value_indirect :: bool
  value_data :: "u8 list"

abbreviation (input) TYPE_BOOLEAN :: int where "TYPE_BOOLEAN \<equiv> 1"
abbreviation (input) TYPE_INTEGER :: int where "TYPE_INTEGER \<equiv> 2"
abbreviation (input) TYPE_ENUMERATED :: int where "TYPE_ENUMERATED \<equiv> 3"
abbreviation (input) TYPE_BYTES :: int where "TYPE_BYTES \<equiv> 4"
abbreviation (input) TYPE_IEC958 :: int where "TYPE_IEC958 \<equiv> 5"
abbreviation (input) TYPE_INTEGER64 :: int where "TYPE_INTEGER64 \<equiv> 6"

section \<open>Bytes\<close>

primrec le_nat :: "u8 list \<Rightarrow> nat" where
  "le_nat [] = 0"
| "le_nat (b # bs) = unat b + 256 * le_nat bs"

primrec le_bytes :: "nat \<Rightarrow> nat \<Rightarrow> u8 list" where
  "le_bytes 0 v = []"
| "le_bytes (Suc n) v = of_nat (v mod 256) # le_bytes n (v div 256)"

definition load :: "nat \<Rightarrow> nat \<Rightarrow> u8 list \<Rightarrow> nat option" where
  "load w off bs = (if off + w \<le> length bs then Some (le_nat (take w (drop off bs))) else None)"

definition store :: "nat \<Rightarrow> nat \<Rightarrow> nat \<Rightarrow> u8 list \<Rightarrow> u8 list option" where
  "store w v off bs = (if off + w \<le> length bs then Some (take off bs @ le_bytes w v @ drop (off + w) bs) else None)"

definition load_u32 :: "nat \<Rightarrow> u8 list \<Rightarrow> u32 option" where
  "load_u32 off bs = map_option of_nat (load 4 off bs)"

definition load_long :: "nat \<Rightarrow> u8 list \<Rightarrow> int option" where
  "load_long off bs = map_option (\<lambda>n. sint (of_nat n :: u64)) (load 8 off bs)"

definition load_array :: "nat \<Rightarrow> (nat \<Rightarrow> u8 list \<Rightarrow> 'a option) \<Rightarrow> nat \<Rightarrow> u32 \<Rightarrow> u8 list \<Rightarrow> 'a option" where
  "load_array cnt ld w idx bs = (if unat idx < cnt then ld (w * unat idx) bs else None)"

definition store_array :: "nat \<Rightarrow> nat \<Rightarrow> u32 \<Rightarrow> nat \<Rightarrow> snd_ctl_elem_value \<Rightarrow> snd_ctl_elem_value option" where
  "store_array cnt w idx v obj =
     (if unat idx < cnt then map_option (\<lambda>bs. obj\<lparr>value_data := bs\<rparr>) (store w v (w * unat idx) (value_data obj)) else None)"

text \<open>A string in an array of characters, and the conversion of a \<^verbatim>\<open>long\<close> to \<^verbatim>\<open>int\<close>.\<close>

definition c_string :: "u8 list \<Rightarrow> string" where
  "c_string bs = map (\<lambda>b. char_of (unat b)) (takeWhile (\<lambda>b. b \<noteq> 0) bs)"

definition int_of_long :: "int \<Rightarrow> int" where
  "int_of_long x = sint (word_of_int x :: u32)"

definition strncpy44 :: "string \<Rightarrow> string" where
  "strncpy44 s = take 44 s"

section \<open>Accessors\<close>

definition snd_ctl_elem_id_get_numid :: "snd_ctl_elem_id \<Rightarrow> u32" where
  "snd_ctl_elem_id_get_numid obj = id_numid obj"

definition snd_ctl_elem_id_get_interface :: "snd_ctl_elem_id \<Rightarrow> int" where
  "snd_ctl_elem_id_get_interface obj = id_iface obj"

definition snd_ctl_elem_id_get_device :: "snd_ctl_elem_id \<Rightarrow> u32" where
  "snd_ctl_elem_id_get_device obj = id_device obj"

definition snd_ctl_elem_id_get_subdevice :: "snd_ctl_elem_id \<Rightarrow> u32" where
  "snd_ctl_elem_id_get_subdevice obj = id_subdevice obj"

definition snd_ctl_elem_id_get_name :: "snd_ctl_elem_id \<Rightarrow> string" where
  "snd_ctl_elem_id_get_name obj = id_name obj"

definition snd_ctl_elem_id_get_index :: "snd_ctl_elem_id \<Rightarrow> u32" where
  "snd_ctl_elem_id_get_index obj = id_index obj"

definition snd_ctl_elem_id_set_numid :: "snd_ctl_elem_id \<Rightarrow> u32 \<Rightarrow> snd_ctl_elem_id" where
  "snd_ctl_elem_id_set_numid obj val = obj\<lparr>id_numid := val\<rparr>"

definition snd_ctl_elem_id_set_interface :: "snd_ctl_elem_id \<Rightarrow> int \<Rightarrow> snd_ctl_elem_id" where
  "snd_ctl_elem_id_set_interface obj val = obj\<lparr>id_iface := val\<rparr>"

definition snd_ctl_elem_id_set_device :: "snd_ctl_elem_id \<Rightarrow> u32 \<Rightarrow> snd_ctl_elem_id" where
  "snd_ctl_elem_id_set_device obj val = obj\<lparr>id_device := val\<rparr>"

definition snd_ctl_elem_id_set_subdevice :: "snd_ctl_elem_id \<Rightarrow> u32 \<Rightarrow> snd_ctl_elem_id" where
  "snd_ctl_elem_id_set_subdevice obj val = obj\<lparr>id_subdevice := val\<rparr>"

definition snd_ctl_elem_id_set_name :: "snd_ctl_elem_id \<Rightarrow> string \<Rightarrow> snd_ctl_elem_id" where
  "snd_ctl_elem_id_set_name obj val = obj\<lparr>id_name := strncpy44 val\<rparr>"

definition snd_ctl_elem_id_set_index :: "snd_ctl_elem_id \<Rightarrow> u32 \<Rightarrow> snd_ctl_elem_id" where
  "snd_ctl_elem_id_set_index obj val = obj\<lparr>id_index := val\<rparr>"

definition snd_ctl_elem_info_get_id :: "snd_ctl_elem_info \<Rightarrow> snd_ctl_elem_id" where
  "snd_ctl_elem_info_get_id obj = info_id obj"

definition snd_ctl_elem_info_get_numid :: "snd_ctl_elem_info \<Rightarrow> u32" where
  "snd_ctl_elem_info_get_numid obj = id_numid (info_id obj)"

definition snd_ctl_elem_info_get_interface :: "snd_ctl_elem_info \<Rightarrow> int" where
  "snd_ctl_elem_info_get_interface obj = id_iface (info_id obj)"

definition snd_ctl_elem_info_get_device :: "snd_ctl_elem_info \<Rightarrow> u32" where
  "snd_ctl_elem_info_get_device obj = id_device (info_id obj)"

definition snd_ctl_elem_info_get_subdevice :: "snd_ctl_elem_info \<Rightarrow> u32" where
  "snd_ctl_elem_info_get_subdevice obj = id_subdevice (info_id obj)"

definition snd_ctl_elem_info_get_name :: "snd_ctl_elem_info \<Rightarrow> string" where
  "snd_ctl_elem_info_get_name obj = id_name (info_id obj)"

definition snd_ctl_elem_info_get_index :: "snd_ctl_elem_info \<Rightarrow> u32" where
  "snd_ctl_elem_info_get_index obj = id_index (info_id obj)"

definition snd_ctl_elem_info_set_id :: "snd_ctl_elem_info \<Rightarrow> snd_ctl_elem_id \<Rightarrow> snd_ctl_elem_info" where
  "snd_ctl_elem_info_set_id obj p = obj\<lparr>info_id := p\<rparr>"

definition snd_ctl_elem_info_set_numid :: "snd_ctl_elem_info \<Rightarrow> u32 \<Rightarrow> snd_ctl_elem_info" where
  "snd_ctl_elem_info_set_numid obj val = obj\<lparr>info_id := snd_ctl_elem_id_set_numid (info_id obj) val\<rparr>"

definition snd_ctl_elem_info_set_interface :: "snd_ctl_elem_info \<Rightarrow> int \<Rightarrow> snd_ctl_elem_info" where
  "snd_ctl_elem_info_set_interface obj val = obj\<lparr>info_id := snd_ctl_elem_id_set_interface (info_id obj) val\<rparr>"

definition snd_ctl_elem_info_set_device :: "snd_ctl_elem_info \<Rightarrow> u32 \<Rightarrow> snd_ctl_elem_info" where
  "snd_ctl_elem_info_set_device obj val = obj\<lparr>info_id := snd_ctl_elem_id_set_device (info_id obj) val\<rparr>"

definition snd_ctl_elem_info_set_subdevice :: "snd_ctl_elem_info \<Rightarrow> u32 \<Rightarrow> snd_ctl_elem_info" where
  "snd_ctl_elem_info_set_subdevice obj val = obj\<lparr>info_id := snd_ctl_elem_id_set_subdevice (info_id obj) val\<rparr>"

definition snd_ctl_elem_info_set_name :: "snd_ctl_elem_info \<Rightarrow> string \<Rightarrow> snd_ctl_elem_info" where
  "snd_ctl_elem_info_set_name obj val = obj\<lparr>info_id := snd_ctl_elem_id_set_name (info_id obj) val\<rparr>"

definition snd_ctl_elem_info_set_index :: "snd_ctl_elem_info \<Rightarrow> u32 \<Rightarrow> snd_ctl_elem_info" where
  "snd_ctl_elem_info_set_index obj val = obj\<lparr>info_id := snd_ctl_elem_id_set_index (info_id obj) val\<rparr>"

definition snd_ctl_elem_value_get_id :: "snd_ctl_elem_value \<Rightarrow> snd_ctl_elem_id" where
  "snd_ctl_elem_value_get_id obj = value_id obj"

definition snd_ctl_elem_value_get_numid :: "snd_ctl_elem_value \<Rightarrow> u32" where
  "snd_ctl_elem_value_get_numid obj = id_numid (value_id obj)"

definition snd_ctl_elem_value_get_interface :: "snd_ctl_elem_value \<Rightarrow> int" where
  "snd_ctl_elem_value_get_interface obj = id_iface (value_id obj)"

definition snd_ctl_elem_value_get_device :: "snd_ctl_elem_value \<Rightarrow> u32" where
  "snd_ctl_elem_value_get_device obj = id_device (value_id obj)"

definition snd_ctl_elem_value_get_subdevice :: "snd_ctl_elem_value \<Rightarrow> u32" where
  "snd_ctl_elem_value_get_subdevice obj = id_subdevice (value_id obj)"

definition snd_ctl_elem_value_get_name :: "snd_ctl_elem_value \<Rightarrow> string" where
  "snd_ctl_elem_value_get_name obj = id_name (value_id obj)"

definition snd_ctl_elem_value_get_index :: "snd_ctl_elem_value \<Rightarrow> u32" where
  "snd_ctl_elem_value_get_index obj = id_index (value_id obj)"

definition snd_ctl_elem_value_set_id :: "snd_ctl_elem_value \<Rightarrow> snd_ctl_elem_id \<Rightarrow> snd_ctl_elem_value" where
  "snd_ctl_elem_value_set_id obj p = obj\<lparr>value_id := p\<rparr>"

definition snd_ctl_elem_value_set_numid :: "snd_ctl_elem_value \<Rightarrow> u32 \<Rightarrow> snd_ctl_elem_value" where
  "snd_ctl_elem_value_set_numid obj val = obj\<lparr>value_id := snd_ctl_elem_id_set_numid (value_id obj) val\<rparr>"

definition snd_ctl_elem_value_set_interface :: "snd_ctl_elem_value \<Rightarrow> int \<Rightarrow> snd_ctl_elem_value" where
  "snd_ctl_elem_value_set_interface obj val = obj\<lparr>value_id := snd_ctl_elem_id_set_interface (value_id obj) val\<rparr>"

definition snd_ctl_elem_value_set_device :: "snd_ctl_elem_value \<Rightarrow> u32 \<Rightarrow> snd_ctl_elem_value" where
  "snd_ctl_elem_value_set_device obj val = obj\<lparr>value_id := snd_ctl_elem_id_set_device (value_id obj) val\<rparr>"

definition snd_ctl_elem_value_set_subdevice :: "snd_ctl_elem_value \<Rightarrow> u32 \<Rightarrow> snd_ctl_elem_value" where
  "snd_ctl_elem_value_set_subdevice obj val = obj\<lparr>value_id := snd_ctl_elem_id_set_subdevice (value_id obj) val\<rparr>"

definition snd_ctl_elem_value_set_name :: "snd_ctl_elem_value \<Rightarrow> string \<Rightarrow> snd_ctl_elem_value" where
  "snd_ctl_elem_value_set_name obj val = obj\<lparr>value_id := snd_ctl_elem_id_set_name (value_id obj) val\<rparr>"

definition snd_ctl_elem_value_set_index :: "snd_ctl_elem_value \<Rightarrow> u32 \<Rightarrow> snd_ctl_elem_value" where
  "snd_ctl_elem_value_set_index obj val = obj\<lparr>value_id := snd_ctl_elem_id_set_index (value_id obj) val\<rparr>"

definition snd_ctl_event_elem_get_mask :: "snd_ctl_event \<Rightarrow> u32" where
  "snd_ctl_event_elem_get_mask obj = ev_mask obj"

definition snd_ctl_event_elem_get_id :: "snd_ctl_event \<Rightarrow> snd_ctl_elem_id" where
  "snd_ctl_event_elem_get_id obj = ev_id obj"

definition snd_ctl_event_elem_get_numid :: "snd_ctl_event \<Rightarrow> u32" where
  "snd_ctl_event_elem_get_numid obj = id_numid (ev_id obj)"

definition snd_ctl_event_elem_get_interface :: "snd_ctl_event \<Rightarrow> int" where
  "snd_ctl_event_elem_get_interface obj = id_iface (ev_id obj)"

definition snd_ctl_event_elem_get_device :: "snd_ctl_event \<Rightarrow> u32" where
  "snd_ctl_event_elem_get_device obj = id_device (ev_id obj)"

definition snd_ctl_event_elem_get_subdevice :: "snd_ctl_event \<Rightarrow> u32" where
  "snd_ctl_event_elem_get_subdevice obj = id_subdevice (ev_id obj)"

definition snd_ctl_event_elem_get_name :: "snd_ctl_event \<Rightarrow> string" where
  "snd_ctl_event_elem_get_name obj = id_name (ev_id obj)"

definition snd_ctl_event_elem_get_index :: "snd_ctl_event \<Rightarrow> u32" where
  "snd_ctl_event_elem_get_index obj = id_index (ev_id obj)"

definition snd_ctl_event_get_type :: "snd_ctl_event \<Rightarrow> int" where
  "snd_ctl_event_get_type obj = ev_type obj"

definition snd_ctl_card_info_get_card :: "snd_ctl_card_info \<Rightarrow> int" where
  "snd_ctl_card_info_get_card obj = ci_card obj"

definition snd_ctl_card_info_get_id :: "snd_ctl_card_info \<Rightarrow> string" where
  "snd_ctl_card_info_get_id obj = ci_id obj"

definition snd_ctl_card_info_get_driver :: "snd_ctl_card_info \<Rightarrow> string" where
  "snd_ctl_card_info_get_driver obj = ci_driver obj"

definition snd_ctl_card_info_get_name :: "snd_ctl_card_info \<Rightarrow> string" where
  "snd_ctl_card_info_get_name obj = ci_name obj"

definition snd_ctl_card_info_get_longname :: "snd_ctl_card_info \<Rightarrow> string" where
  "snd_ctl_card_info_get_longname obj = ci_longname obj"

definition snd_ctl_card_info_get_mixername :: "snd_ctl_card_info \<Rightarrow> string" where
  "snd_ctl_card_info_get_mixername obj = ci_mixername obj"

definition snd_ctl_card_info_get_components :: "snd_ctl_card_info \<Rightarrow> string" where
  "snd_ctl_card_info_get_components obj = ci_components obj"

definition snd_ctl_elem_list_set_offset :: "snd_ctl_elem_list \<Rightarrow> u32 \<Rightarrow> snd_ctl_elem_list" where
  "snd_ctl_elem_list_set_offset obj val = obj\<lparr>el_offset := val\<rparr>"

definition snd_ctl_elem_list_get_used :: "snd_ctl_elem_list \<Rightarrow> u32" where
  "snd_ctl_elem_list_get_used obj = el_used obj"

definition snd_ctl_elem_list_get_count :: "snd_ctl_elem_list \<Rightarrow> u32" where
  "snd_ctl_elem_list_get_count obj = el_count obj"

definition snd_ctl_elem_list_get_id :: "snd_ctl_elem_list \<Rightarrow> u32 \<Rightarrow> snd_ctl_elem_id option" where
  "snd_ctl_elem_list_get_id obj idx = array_get (el_pids obj) (unat idx)"

definition snd_ctl_elem_list_get_numid :: "snd_ctl_elem_list \<Rightarrow> u32 \<Rightarrow> u32 option" where
  "snd_ctl_elem_list_get_numid obj idx = map_option id_numid (array_get (el_pids obj) (unat idx))"

definition snd_ctl_elem_list_get_interface :: "snd_ctl_elem_list \<Rightarrow> u32 \<Rightarrow> int option" where
  "snd_ctl_elem_list_get_interface obj idx = map_option id_iface (array_get (el_pids obj) (unat idx))"

definition snd_ctl_elem_list_get_device :: "snd_ctl_elem_list \<Rightarrow> u32 \<Rightarrow> u32 option" where
  "snd_ctl_elem_list_get_device obj idx = map_option id_device (array_get (el_pids obj) (unat idx))"

definition snd_ctl_elem_list_get_subdevice :: "snd_ctl_elem_list \<Rightarrow> u32 \<Rightarrow> u32 option" where
  "snd_ctl_elem_list_get_subdevice obj idx = map_option id_subdevice (array_get (el_pids obj) (unat idx))"

definition snd_ctl_elem_list_get_name :: "snd_ctl_elem_list \<Rightarrow> u32 \<Rightarrow> string option" where
  "snd_ctl_elem_list_get_name obj idx = map_option id_name (array_get (el_pids obj) (unat idx))"

definition snd_ctl_elem_list_get_index :: "snd_ctl_elem_list \<Rightarrow> u32 \<Rightarrow> u32 option" where
  "snd_ctl_elem_list_get_index obj idx = map_option id_index (array_get (el_pids obj) (unat idx))"

definition snd_ctl_elem_info_get_type :: "snd_ctl_elem_info \<Rightarrow> int" where
  "snd_ctl_elem_info_get_type obj = info_type obj"

definition snd_ctl_elem_info_is_readable :: "snd_ctl_elem_info \<Rightarrow> int" where
  "snd_ctl_elem_info_is_readable obj = of_bool (info_access obj AND 0x1 \<noteq> 0)"

definition snd_ctl_elem_info_is_writable :: "snd_ctl_elem_info \<Rightarrow> int" where
  "snd_ctl_elem_info_is_writable obj = of_bool (info_access obj AND 0x2 \<noteq> 0)"

definition snd_ctl_elem_info_is_volatile :: "snd_ctl_elem_info \<Rightarrow> int" where
  "snd_ctl_elem_info_is_volatile obj = of_bool (info_access obj AND 0x4 \<noteq> 0)"

definition snd_ctl_elem_info_is_inactive :: "snd_ctl_elem_info \<Rightarrow> int" where
  "snd_ctl_elem_info_is_inactive obj = of_bool (info_access obj AND 0x100 \<noteq> 0)"

definition snd_ctl_elem_info_is_locked :: "snd_ctl_elem_info \<Rightarrow> int" where
  "snd_ctl_elem_info_is_locked obj = of_bool (info_access obj AND 0x200 \<noteq> 0)"

definition snd_ctl_elem_info_is_owner :: "snd_ctl_elem_info \<Rightarrow> int" where
  "snd_ctl_elem_info_is_owner obj = of_bool (info_access obj AND 0x400 \<noteq> 0)"

definition snd_ctl_elem_info_is_user :: "snd_ctl_elem_info \<Rightarrow> int" where
  "snd_ctl_elem_info_is_user obj = of_bool (info_access obj AND 0x20000000 \<noteq> 0)"

definition snd_ctl_elem_info_is_tlv_readable :: "snd_ctl_elem_info \<Rightarrow> int" where
  "snd_ctl_elem_info_is_tlv_readable obj = of_bool (info_access obj AND 0x10 \<noteq> 0)"

definition snd_ctl_elem_info_is_tlv_writable :: "snd_ctl_elem_info \<Rightarrow> int" where
  "snd_ctl_elem_info_is_tlv_writable obj = of_bool (info_access obj AND 0x20 \<noteq> 0)"

definition snd_ctl_elem_info_is_tlv_commandable :: "snd_ctl_elem_info \<Rightarrow> int" where
  "snd_ctl_elem_info_is_tlv_commandable obj = of_bool (info_access obj AND 0x40 \<noteq> 0)"

definition snd_ctl_elem_info_get_owner :: "snd_ctl_elem_info \<Rightarrow> int" where
  "snd_ctl_elem_info_get_owner obj = info_owner obj"

definition snd_ctl_elem_info_get_count :: "snd_ctl_elem_info \<Rightarrow> u32" where
  "snd_ctl_elem_info_get_count obj = info_count obj"

definition snd_ctl_elem_info_get_min :: "snd_ctl_elem_info \<Rightarrow> int option" where
  "snd_ctl_elem_info_get_min obj = load_long 0 (info_value obj)"

definition snd_ctl_elem_info_get_min64 :: "snd_ctl_elem_info \<Rightarrow> int option" where
  "snd_ctl_elem_info_get_min64 obj = load_long 0 (info_value obj)"

definition snd_ctl_elem_info_get_max :: "snd_ctl_elem_info \<Rightarrow> int option" where
  "snd_ctl_elem_info_get_max obj = load_long 8 (info_value obj)"

definition snd_ctl_elem_info_get_max64 :: "snd_ctl_elem_info \<Rightarrow> int option" where
  "snd_ctl_elem_info_get_max64 obj = load_long 8 (info_value obj)"

definition snd_ctl_elem_info_get_step :: "snd_ctl_elem_info \<Rightarrow> int option" where
  "snd_ctl_elem_info_get_step obj = load_long 16 (info_value obj)"

definition snd_ctl_elem_info_get_step64 :: "snd_ctl_elem_info \<Rightarrow> int option" where
  "snd_ctl_elem_info_get_step64 obj = load_long 16 (info_value obj)"

definition snd_ctl_elem_info_get_items :: "snd_ctl_elem_info \<Rightarrow> u32 option" where
  "snd_ctl_elem_info_get_items obj = load_u32 0 (info_value obj)"

definition snd_ctl_elem_info_set_item :: "snd_ctl_elem_info \<Rightarrow> u32 \<Rightarrow> snd_ctl_elem_info option" where
  "snd_ctl_elem_info_set_item obj val = map_option (\<lambda>bs. obj\<lparr>info_value := bs\<rparr>) (store 4 (unat val) 4 (info_value obj))"

definition snd_ctl_elem_info_get_item_name :: "snd_ctl_elem_info \<Rightarrow> string" where
  "snd_ctl_elem_info_get_item_name obj = c_string (take 64 (drop 8 (info_value obj)))"

definition snd_ctl_elem_value_get_boolean :: "snd_ctl_elem_value \<Rightarrow> u32 \<Rightarrow> int option" where
  "snd_ctl_elem_value_get_boolean obj idx = map_option int_of_long (load_array 128 load_long 8 idx (value_data obj))"

definition snd_ctl_elem_value_get_integer :: "snd_ctl_elem_value \<Rightarrow> u32 \<Rightarrow> int option" where
  "snd_ctl_elem_value_get_integer obj idx = load_array 128 load_long 8 idx (value_data obj)"

definition snd_ctl_elem_value_get_integer64 :: "snd_ctl_elem_value \<Rightarrow> u32 \<Rightarrow> int option" where
  "snd_ctl_elem_value_get_integer64 obj idx = load_array 64 load_long 8 idx (value_data obj)"

definition snd_ctl_elem_value_get_enumerated :: "snd_ctl_elem_value \<Rightarrow> u32 \<Rightarrow> u32 option" where
  "snd_ctl_elem_value_get_enumerated obj idx = load_array 128 load_u32 4 idx (value_data obj)"

definition snd_ctl_elem_value_get_byte :: "snd_ctl_elem_value \<Rightarrow> u32 \<Rightarrow> u8 option" where
  "snd_ctl_elem_value_get_byte obj idx = load_array 512 (\<lambda>i bs. array_get bs i) 1 idx (value_data obj)"

definition snd_ctl_elem_value_set_boolean :: "snd_ctl_elem_value \<Rightarrow> u32 \<Rightarrow> int \<Rightarrow> snd_ctl_elem_value option" where
  "snd_ctl_elem_value_set_boolean obj idx val = store_array 128 8 idx (unat (word_of_int val :: u64)) obj"

definition snd_ctl_elem_value_set_integer :: "snd_ctl_elem_value \<Rightarrow> u32 \<Rightarrow> int \<Rightarrow> snd_ctl_elem_value option" where
  "snd_ctl_elem_value_set_integer obj idx val = store_array 128 8 idx (unat (word_of_int val :: u64)) obj"

definition snd_ctl_elem_value_set_integer64 :: "snd_ctl_elem_value \<Rightarrow> u32 \<Rightarrow> int \<Rightarrow> snd_ctl_elem_value option" where
  "snd_ctl_elem_value_set_integer64 obj idx val = store_array 64 8 idx (unat (word_of_int val :: u64)) obj"

definition snd_ctl_elem_value_set_enumerated :: "snd_ctl_elem_value \<Rightarrow> u32 \<Rightarrow> u32 \<Rightarrow> snd_ctl_elem_value option" where
  "snd_ctl_elem_value_set_enumerated obj idx val = store_array 128 4 idx (unat val) obj"

definition snd_ctl_elem_value_set_byte :: "snd_ctl_elem_value \<Rightarrow> u32 \<Rightarrow> u8 \<Rightarrow> snd_ctl_elem_value option" where
  "snd_ctl_elem_value_set_byte obj idx val = store_array 512 1 idx (unat val) obj"

definition snd_ctl_elem_set_bytes :: "snd_ctl_elem_value \<Rightarrow> u8 list \<Rightarrow> snd_ctl_elem_value" where
  "snd_ctl_elem_set_bytes obj data =
     (if length data < 512 then obj\<lparr>value_data := data @ drop (length data) (value_data obj)\<rparr> else obj)"

definition snd_ctl_elem_value_get_bytes :: "snd_ctl_elem_value \<Rightarrow> u8 list" where
  "snd_ctl_elem_value_get_bytes obj = take 512 (value_data obj)"

primrec dimensions_loop :: "u16 list \<Rightarrow> nat \<Rightarrow> int" where
  "dimensions_loop d 0 = 0"
| "dimensions_loop d (Suc i) = (if d ! i \<noteq> 0 then int i + 1 else dimensions_loop d i)"

definition snd_ctl_elem_info_get_dimensions :: "snd_ctl_elem_info \<Rightarrow> int" where
  "snd_ctl_elem_info_get_dimensions obj = dimensions_loop (info_dimen obj) 4"

definition snd_ctl_elem_info_get_dimension :: "snd_ctl_elem_info \<Rightarrow> u32 \<Rightarrow> int option" where
  "snd_ctl_elem_info_get_dimension obj idx =
     (if idx \<ge> 3 then Some 0 else map_option uint (array_get (info_dimen obj) (unat idx)))"

text \<open>\<^verbatim>\<open>strcmp\<close>: the difference of the first characters that differ.\<close>

fun strcmp :: "string \<Rightarrow> string \<Rightarrow> int" where
  "strcmp [] [] = 0"
| "strcmp (a # as) [] = of_char a"
| "strcmp [] (b # bs) = - of_char b"
| "strcmp (a # as) (b # bs) = (if a = b then strcmp as bs else of_char a - of_char b)"

definition snd_ctl_elem_id_compare_set :: "snd_ctl_elem_id \<Rightarrow> snd_ctl_elem_id \<Rightarrow> int option" where
  "snd_ctl_elem_id_compare_set id1 id2 = do {
     d \<leftarrow> int32 (id_iface id1 - id_iface id2);
     Some (if d \<noteq> 0 then d
       else let d = sint (id_device id1 - id_device id2) in
       if d \<noteq> 0 then d
       else let d = sint (id_subdevice id1 - id_subdevice id2) in
       if d \<noteq> 0 then d
       else let d = strcmp (id_name id1) (id_name id2) in
       if d \<noteq> 0 then d
       else sint (id_index id1 - id_index id2)) }"

section \<open>Calls\<close>

record 'w ctl_kernel =
  k_card_info :: "snd_ctl_card_info \<Rightarrow> 'w \<Rightarrow> int \<times> int \<times> snd_ctl_card_info \<times> 'w"
  k_elem_info :: "snd_ctl_elem_info \<Rightarrow> 'w \<Rightarrow> int \<times> int \<times> snd_ctl_elem_info \<times> 'w"
  k_elem_add :: "snd_ctl_elem_info \<Rightarrow> u8 list \<Rightarrow> 'w \<Rightarrow> int \<times> int \<times> snd_ctl_elem_info \<times> 'w"
  k_elem_remove :: "snd_ctl_elem_id \<Rightarrow> 'w \<Rightarrow> int \<times> int \<times> snd_ctl_elem_id \<times> 'w"
  k_elem_read :: "snd_ctl_elem_value \<Rightarrow> 'w \<Rightarrow> int \<times> int \<times> snd_ctl_elem_value \<times> 'w"
  k_elem_write :: "snd_ctl_elem_value \<Rightarrow> 'w \<Rightarrow> int \<times> int \<times> snd_ctl_elem_value \<times> 'w"
  k_elem_lock :: "snd_ctl_elem_id \<Rightarrow> 'w \<Rightarrow> int \<times> int \<times> snd_ctl_elem_id \<times> 'w"
  k_elem_unlock :: "snd_ctl_elem_id \<Rightarrow> 'w \<Rightarrow> int \<times> int \<times> snd_ctl_elem_id \<times> 'w"
  k_hwdep_next :: "int \<Rightarrow> 'w \<Rightarrow> int \<times> int \<times> int \<times> 'w"
  k_pcm_next :: "int \<Rightarrow> 'w \<Rightarrow> int \<times> int \<times> int \<times> 'w"
  k_pcm_prefer :: "int \<Rightarrow> 'w \<Rightarrow> int \<times> int \<times> int \<times> 'w"
  k_rawmidi_next :: "int \<Rightarrow> 'w \<Rightarrow> int \<times> int \<times> int \<times> 'w"
  k_rawmidi_prefer :: "int \<Rightarrow> 'w \<Rightarrow> int \<times> int \<times> int \<times> 'w"
  k_tlv :: "int \<Rightarrow> u32 \<Rightarrow> u8 list \<Rightarrow> 'w \<Rightarrow> int \<times> int \<times> u8 list \<times> 'w"
  k_malloc :: "nat \<Rightarrow> 'w \<Rightarrow> bool \<times> 'w"
  k_poll :: "int \<Rightarrow> 'w \<Rightarrow> int \<times> int \<times> u16 \<times> 'w"

definition status :: "int \<times> int \<times> 'a \<times> 'w \<Rightarrow> int \<times> 'a \<times> 'w" where
  "status r = (case r of (ret, errno, obj, w) \<Rightarrow> (if ret < 0 then - errno else 0, obj, w))"

definition snd_ctl_card_info0 :: "'w ctl_kernel \<Rightarrow> snd_ctl_card_info \<Rightarrow> 'w \<Rightarrow> int \<times> snd_ctl_card_info \<times> 'w" where
  "snd_ctl_card_info0 k obj w = status (k_card_info k obj w)"

definition snd_ctl_elem_info0 :: "'w ctl_kernel \<Rightarrow> snd_ctl_elem_info \<Rightarrow> 'w \<Rightarrow> int \<times> snd_ctl_elem_info \<times> 'w" where
  "snd_ctl_elem_info0 k obj w = status (k_elem_info k obj w)"

definition snd_ctl_elem_remove :: "'w ctl_kernel \<Rightarrow> snd_ctl_elem_id \<Rightarrow> 'w \<Rightarrow> int \<times> snd_ctl_elem_id \<times> 'w" where
  "snd_ctl_elem_remove k obj w = status (k_elem_remove k obj w)"

definition snd_ctl_elem_read :: "'w ctl_kernel \<Rightarrow> snd_ctl_elem_value \<Rightarrow> 'w \<Rightarrow> int \<times> snd_ctl_elem_value \<times> 'w" where
  "snd_ctl_elem_read k obj w = status (k_elem_read k obj w)"

definition snd_ctl_elem_write :: "'w ctl_kernel \<Rightarrow> snd_ctl_elem_value \<Rightarrow> 'w \<Rightarrow> int \<times> snd_ctl_elem_value \<times> 'w" where
  "snd_ctl_elem_write k obj w = status (k_elem_write k obj w)"

definition snd_ctl_elem_lock :: "'w ctl_kernel \<Rightarrow> snd_ctl_elem_id \<Rightarrow> 'w \<Rightarrow> int \<times> snd_ctl_elem_id \<times> 'w" where
  "snd_ctl_elem_lock k obj w = status (k_elem_lock k obj w)"

definition snd_ctl_elem_unlock :: "'w ctl_kernel \<Rightarrow> snd_ctl_elem_id \<Rightarrow> 'w \<Rightarrow> int \<times> snd_ctl_elem_id \<times> 'w" where
  "snd_ctl_elem_unlock k obj w = status (k_elem_unlock k obj w)"

definition snd_ctl_hwdep_next_device :: "'w ctl_kernel \<Rightarrow> int \<Rightarrow> 'w \<Rightarrow> int \<times> int \<times> 'w" where
  "snd_ctl_hwdep_next_device k obj w = status (k_hwdep_next k obj w)"

definition snd_ctl_pcm_next_device :: "'w ctl_kernel \<Rightarrow> int \<Rightarrow> 'w \<Rightarrow> int \<times> int \<times> 'w" where
  "snd_ctl_pcm_next_device k obj w = status (k_pcm_next k obj w)"

definition snd_ctl_pcm_prefer_subdevice :: "'w ctl_kernel \<Rightarrow> int \<Rightarrow> 'w \<Rightarrow> int \<times> int \<times> 'w" where
  "snd_ctl_pcm_prefer_subdevice k obj w = status (k_pcm_prefer k obj w)"

definition snd_ctl_rawmidi_next_device :: "'w ctl_kernel \<Rightarrow> int \<Rightarrow> 'w \<Rightarrow> int \<times> int \<times> 'w" where
  "snd_ctl_rawmidi_next_device k obj w = status (k_rawmidi_next k obj w)"

definition snd_ctl_rawmidi_prefer_subdevice :: "'w ctl_kernel \<Rightarrow> int \<Rightarrow> 'w \<Rightarrow> int \<times> int \<times> 'w" where
  "snd_ctl_rawmidi_prefer_subdevice k obj w = status (k_rawmidi_prefer k obj w)"

definition snd_ctl_elem_add :: "'w ctl_kernel \<Rightarrow> snd_ctl_elem_info \<Rightarrow> u8 list \<Rightarrow> 'w \<Rightarrow> int \<times> snd_ctl_elem_info \<times> 'w" where
  "snd_ctl_elem_add k obj names w = status (k_elem_add k obj names w)"

section \<open>User-defined elements\<close>

text \<open>\<open>info0\<close> and \<open>val0\<close> are what the uninitialised locals \<^verbatim>\<open>info\<close> and \<^verbatim>\<open>val\<close> hold: \<^verbatim>\<open>memzero_valgrind\<close> is empty.\<close>

primrec fill_values :: "(snd_ctl_elem_value \<Rightarrow> u32 \<Rightarrow> int \<Rightarrow> snd_ctl_elem_value option) \<Rightarrow> int \<Rightarrow> nat \<Rightarrow> snd_ctl_elem_value \<Rightarrow>
    snd_ctl_elem_value option" where
  "fill_values st v 0 val = Some val"
| "fill_values st v (Suc n) val = do { val \<leftarrow> fill_values st v n val; st val (of_nat n) v }"

definition store_range :: "int \<Rightarrow> int \<Rightarrow> int \<Rightarrow> snd_ctl_elem_info \<Rightarrow> snd_ctl_elem_info option" where
  "store_range mn mx stp info = do {
     bs \<leftarrow> store 8 (unat (word_of_int mn :: u64)) 0 (info_value info);
     bs \<leftarrow> store 8 (unat (word_of_int mx :: u64)) 8 bs;
     bs \<leftarrow> store 8 (unat (word_of_int stp :: u64)) 16 bs;
     Some (info\<lparr>info_value := bs\<rparr>) }"

definition snd_ctl_elem_add_integer :: "'w ctl_kernel \<Rightarrow> snd_ctl_elem_info \<Rightarrow> snd_ctl_elem_value \<Rightarrow> snd_ctl_elem_id \<Rightarrow> u32 \<Rightarrow>
    int \<Rightarrow> int \<Rightarrow> int \<Rightarrow> 'w \<Rightarrow> (int \<times> 'w) option" where
  "snd_ctl_elem_add_integer k info0 val0 eid n mn mx stp w = do {
     info \<leftarrow> store_range mn mx stp (info0\<lparr>info_id := eid, info_type := TYPE_INTEGER, info_access := 0x33, info_count := n\<rparr>);
     (case snd_ctl_elem_add k info [] w of (err, _, w) \<Rightarrow>
        if err < 0 then Some (err, w)
        else do {
          val \<leftarrow> fill_values snd_ctl_elem_value_set_integer mn (unat n) (val0\<lparr>value_id := eid\<rparr>);
          (case snd_ctl_elem_write k val w of (err, _, w) \<Rightarrow> Some (err, w)) }) }"

definition snd_ctl_elem_add_integer64 :: "'w ctl_kernel \<Rightarrow> snd_ctl_elem_info \<Rightarrow> snd_ctl_elem_value \<Rightarrow> snd_ctl_elem_id \<Rightarrow> u32 \<Rightarrow>
    int \<Rightarrow> int \<Rightarrow> int \<Rightarrow> 'w \<Rightarrow> (int \<times> 'w) option" where
  "snd_ctl_elem_add_integer64 k info0 val0 eid n mn mx stp w = do {
     info \<leftarrow> store_range mn mx stp (info0\<lparr>info_id := eid, info_type := TYPE_INTEGER64, info_count := n\<rparr>);
     (case snd_ctl_elem_add k info [] w of (err, _, w) \<Rightarrow>
        if err < 0 then Some (err, w)
        else do {
          val \<leftarrow> fill_values snd_ctl_elem_value_set_integer64 mn (unat n) (val0\<lparr>value_id := eid\<rparr>);
          (case snd_ctl_elem_write k val w of (err, _, w) \<Rightarrow> Some (err, w)) }) }"

definition snd_ctl_elem_add_boolean :: "'w ctl_kernel \<Rightarrow> snd_ctl_elem_info \<Rightarrow> snd_ctl_elem_id \<Rightarrow> u32 \<Rightarrow> 'w \<Rightarrow> (int \<times> 'w) option" where
  "snd_ctl_elem_add_boolean k info0 eid n w = do {
     bs \<leftarrow> store 8 0 0 (info_value info0);
     bs \<leftarrow> store 8 1 8 bs;
     (case snd_ctl_elem_add k (info0\<lparr>info_id := eid, info_type := TYPE_BOOLEAN, info_count := n, info_value := bs\<rparr>) [] w of
        (err, _, w) \<Rightarrow> Some (err, w)) }"

definition snd_ctl_elem_add_iec958 :: "'w ctl_kernel \<Rightarrow> snd_ctl_elem_info \<Rightarrow> snd_ctl_elem_id \<Rightarrow> 'w \<Rightarrow> int \<times> 'w" where
  "snd_ctl_elem_add_iec958 k info0 eid w =
     (case snd_ctl_elem_add k (info0\<lparr>info_id := eid, info_type := TYPE_IEC958, info_count := 1\<rparr>) [] w of
        (err, _, w) \<Rightarrow> (err, w))"

text \<open>The flattening of the names: \<^verbatim>\<open>None\<close> for too many of them, an outer \<open>None\<close> for a missing one.\<close>

definition name_bytes :: "string \<Rightarrow> u8 list" where
  "name_bytes s = map of_char s @ [0]"

primrec flatten_names :: "nat \<Rightarrow> string list \<Rightarrow> u8 list \<Rightarrow> u8 list option option" where
  "flatten_names 0 names buf = Some (Some buf)"
| "flatten_names (Suc n) names buf =
     (case names of
        [] \<Rightarrow> None
      | s # names \<Rightarrow>
          if length buf + length (name_bytes s) \<ge> 256 then Some None else flatten_names n names (buf @ name_bytes s))"

definition snd_ctl_elem_add_enumerated :: "'w ctl_kernel \<Rightarrow> int \<Rightarrow> snd_ctl_elem_info \<Rightarrow> snd_ctl_elem_id \<Rightarrow> u32 \<Rightarrow> u32 \<Rightarrow>
    string list \<Rightarrow> u64 \<Rightarrow> 'w \<Rightarrow> (int \<times> 'w) option" where
  "snd_ctl_elem_add_enumerated k protocol info0 eid n items names buf_addr w =
     (if protocol < 0x20007 then Some (- ENXIO, w)
      else if items = 0 then Some (- EINVAL, w)
      else do {
        bs \<leftarrow> store 4 (unat items) 0 (info_value info0);
        r \<leftarrow> flatten_names (unat items) names [];
        (case r of
           None \<Rightarrow> Some (- ENOMEM, w)
         | Some buf \<Rightarrow> do {
             bs \<leftarrow> store 8 (unat buf_addr) 72 bs;
             bs \<leftarrow> store 4 (length buf) 80 bs;
             (case snd_ctl_elem_add k (info0\<lparr>info_id := eid, info_type := TYPE_ENUMERATED, info_count := n, info_value := bs\<rparr>) buf w of
                (err, _, w) \<Rightarrow> Some (err, w)) }) })"

section \<open>TLV transfers\<close>

abbreviation (input) TLV_READ :: int where "TLV_READ \<equiv> 0x1a"
abbreviation (input) TLV_WRITE :: int where "TLV_WRITE \<equiv> 0x1b"
abbreviation (input) TLV_COMMAND :: int where "TLV_COMMAND \<equiv> 0x1c"

text \<open>The buffer is a list of bytes; the second result is its new contents.\<close>

definition hw_elem_tlv :: "'w ctl_kernel \<Rightarrow> int \<Rightarrow> int \<Rightarrow> u32 \<Rightarrow> u8 list \<Rightarrow> u32 \<Rightarrow> 'w \<Rightarrow> (int \<times> u8 list \<times> 'w) option" where
  "hw_elem_tlv k protocol inum numid tlv tlv_size w =
     (if protocol < 0x20004 then Some (- ENXIO, tlv, w)
      else case k_malloc k (8 + unat tlv_size) w of
        (False, w) \<Rightarrow> Some (- ENOMEM, tlv, w)
      | (True, w) \<Rightarrow>
          if length tlv < unat tlv_size then None
          else case k_tlv k inum numid (take (unat tlv_size) tlv) w of (ret, errno, xtlv, w) \<Rightarrow>
            if ret < 0 then Some (- errno, tlv, w)
            else if inum = TLV_READ then do {
              len \<leftarrow> load 4 4 xtlv;
              Some (if len + 8 > unat tlv_size then (- EFAULT, tlv, w)
                    else (0, take (len + 8) xtlv @ drop (len + 8) tlv, w)) }
            else Some (0, tlv, w))"

text \<open>\<open>info0\<close> is the uninitialised \<^verbatim>\<open>info\<close>.\<close>

definition snd_ctl_tlv_do :: "'w ctl_kernel \<Rightarrow> int \<Rightarrow> snd_ctl_elem_info \<Rightarrow> int \<Rightarrow> snd_ctl_elem_id \<Rightarrow> u8 list \<Rightarrow> u32 \<Rightarrow> 'w \<Rightarrow>
    (int \<times> u8 list \<times> 'w) option" where
  "snd_ctl_tlv_do k protocol info0 cmd eid tlv tlv_size w =
     (if id_numid eid = 0 then
        (case snd_ctl_elem_info0 k (info0\<lparr>info_id := eid\<rparr>) w of (err, info, w) \<Rightarrow>
           if err < 0 then Some (err, tlv, w)
           else if id_numid (info_id info) = 0 then Some (- ENOENT, tlv, w)
           else hw_elem_tlv k protocol cmd (id_numid (info_id info)) tlv tlv_size w)
      else hw_elem_tlv k protocol cmd (id_numid eid) tlv tlv_size w)"

definition snd_ctl_elem_tlv_read :: "'w ctl_kernel \<Rightarrow> int \<Rightarrow> snd_ctl_elem_info \<Rightarrow> snd_ctl_elem_id \<Rightarrow> u8 list \<Rightarrow> u32 \<Rightarrow> 'w \<Rightarrow>
    (int \<times> u8 list \<times> 'w) option" where
  "snd_ctl_elem_tlv_read k protocol info0 eid tlv tlv_size w =
     (if tlv_size < 8 then Some (- EINVAL, tlv, w)
      else do {
        tlv \<leftarrow> store 4 0xffffffff 0 tlv;
        tlv \<leftarrow> store 4 0 4 tlv;
        (err, tlv, w) \<leftarrow> snd_ctl_tlv_do k protocol info0 TLV_READ eid tlv tlv_size w;
        (if err \<ge> 0 then do {
           ty \<leftarrow> load 4 0 tlv;
           Some (if ty = 0xffffffff then - ENXIO else err, tlv, w) }
         else Some (err, tlv, w)) })"

definition snd_ctl_elem_tlv_write :: "'w ctl_kernel \<Rightarrow> int \<Rightarrow> snd_ctl_elem_info \<Rightarrow> snd_ctl_elem_id \<Rightarrow> u8 list \<Rightarrow> 'w \<Rightarrow>
    (int \<times> u8 list \<times> 'w) option" where
  "snd_ctl_elem_tlv_write k protocol info0 eid tlv w = do {
     len \<leftarrow> load 4 4 tlv;
     snd_ctl_tlv_do k protocol info0 TLV_WRITE eid tlv (of_nat (len + 8)) w }"

definition snd_ctl_elem_tlv_command :: "'w ctl_kernel \<Rightarrow> int \<Rightarrow> snd_ctl_elem_info \<Rightarrow> snd_ctl_elem_id \<Rightarrow> u8 list \<Rightarrow> 'w \<Rightarrow>
    (int \<times> u8 list \<times> 'w) option" where
  "snd_ctl_elem_tlv_command k protocol info0 eid tlv w = do {
     len \<leftarrow> load 4 4 tlv;
     snd_ctl_tlv_do k protocol info0 TLV_COMMAND eid tlv (of_nat (len + 8)) w }"

section \<open>Waiting\<close>

partial_function (option) snd_ctl_wait :: "'w ctl_kernel \<Rightarrow> int \<Rightarrow> 'w \<Rightarrow> (int \<times> 'w) option" where
  "snd_ctl_wait k timeout w =
     (case k_poll k timeout w of (err, errno, revents, w) \<Rightarrow>
        if err < 0 then Some (- errno, w)
        else if err = 0 then Some (0, w)
        else if revents AND 0x28 \<noteq> 0 then Some (- EIO, w)
        else if revents AND 0x5 \<noteq> 0 then Some (1, w)
        else snd_ctl_wait k timeout w)"

partial_function (option) snd_hctl_wait :: "'w ctl_kernel \<Rightarrow> int \<Rightarrow> 'w \<Rightarrow> (int \<times> 'w) option" where
  "snd_hctl_wait k timeout w = do {
     (err, w) \<leftarrow> snd_ctl_wait k timeout w;
     (if err = - EINTR then snd_hctl_wait k timeout w else Some (err, w)) }"

section \<open>Reading what was written\<close>

lemma le_bytes_length [simp]: "length (le_bytes n v) = n"
  by (induction n arbitrary: v) simp_all

lemma le_nat_bytes: "le_nat (le_bytes n v) = v mod 256 ^ n"
proof (induction n arbitrary: v)
  case (Suc n)
  have "unat (of_nat (v mod 256) :: u8) = v mod 256" by (simp add: unsigned_of_nat take_bit_nat_eq_self)
  then show ?case using Suc by (simp add: mod_mult2_eq)
qed simp

lemma store_length: "store w v off bs = Some bs' \<Longrightarrow> length bs' = length bs"
  by (auto simp: store_def split: if_splits)

lemma load_store_same: "store w v off bs = Some bs' \<Longrightarrow> load w off bs' = Some (v mod 256 ^ w)"
  by (auto simp: store_def load_def le_nat_bytes split: if_splits)

lemma store_nth:
  assumes "store w v off bs = Some bs'" "j < off \<or> off + w \<le> j"
  shows "bs' ! j = bs ! j"
proof -
  have bs': "off + w \<le> length bs" "bs' = take off bs @ le_bytes w v @ drop (off + w) bs"
    using assms(1) by (auto simp: store_def split: if_splits)
  from assms(2) show ?thesis
  proof
    assume "j < off"
    then show ?thesis using bs' by (simp add: nth_append)
  next
    assume j: "off + w \<le> j"
    then have "bs' ! j = (le_bytes w v @ drop (off + w) bs) ! (j - off)" using bs' by (simp add: nth_append)
    moreover have "\<not> j - off < w" using j by linarith
    ultimately have "bs' ! j = drop (off + w) bs ! (j - off - w)" by (simp add: nth_append)
    also have "\<dots> = bs ! j" using j bs' by simp
    finally show ?thesis .
  qed
qed

lemma load_store_other:
  assumes "store w v off bs = Some bs'" "off' + w' \<le> off \<or> off + w \<le> off'"
  shows "load w' off' bs' = load w' off' bs"
proof -
  have "take w' (drop off' bs') = take w' (drop off' bs)"
    using assms store_length [OF assms(1)] by (intro nth_equalityI) (auto simp: store_nth)
  then show ?thesis using store_length [OF assms(1)] by (simp add: load_def)
qed

lemma store_defined: "off + w \<le> length bs \<Longrightarrow> \<exists>bs'. store w v off bs = Some bs'"
  by (simp add: store_def)

lemma sint_u64_roundtrip: "- (2 ^ 63) \<le> v \<Longrightarrow> v < 2 ^ 63 \<Longrightarrow> sint (of_nat (unat (word_of_int v :: u64)) :: u64) = v"
  by (simp add: sint_sbintrunc' signed_take_bit_int_eq_self)

text \<open>An array member of the union: the entry that is set has its value, the others keep theirs.\<close>

lemma store_array_reads:
  assumes "unat idx < cnt" "cnt * w \<le> length (value_data obj)" "v < 256 ^ w"
  shows "\<exists>obj'. store_array cnt w idx v obj = Some obj' \<and> value_id obj' = value_id obj \<and>
     length (value_data obj') = length (value_data obj) \<and> load w (w * unat idx) (value_data obj') = Some v \<and>
     (\<forall>j < cnt. j \<noteq> unat idx \<longrightarrow> load w (w * j) (value_data obj') = load w (w * j) (value_data obj))"
proof -
  have le: "w * j + w \<le> length (value_data obj)" if "j < cnt" for j
  proof -
    have "w * j + w \<le> cnt * w" using mult_le_mono2 [of "Suc j" cnt w] that by (simp add: mult.commute)
    with assms(2) show ?thesis by simp
  qed
  obtain bs where bs: "store w v (w * unat idx) (value_data obj) = Some bs" using store_defined [OF le [OF assms(1)]] by blast
  have "load w (w * j) bs = load w (w * j) (value_data obj)" if "j \<noteq> unat idx" for j
  proof (rule load_store_other [OF bs])
    show "w * j + w \<le> w * unat idx \<or> w * unat idx + w \<le> w * j"
      using that mult_le_mono2 [of "Suc j" "unat idx" w] mult_le_mono2 [of "Suc (unat idx)" j w]
      by (cases "j < unat idx") auto
  qed
  with bs load_store_same [OF bs] store_length [OF bs] assms show ?thesis by (simp add: store_array_def)
qed

lemma strcmp_eq: "CHR 0x00 \<notin> set a \<Longrightarrow> CHR 0x00 \<notin> set b \<Longrightarrow> strcmp a b = 0 \<longleftrightarrow> a = b"
proof (induction a b rule: strcmp.induct)
  case (2 a as)
  have "of_char a = (0 :: int) \<longleftrightarrow> a = CHR 0x00" using of_char_eq_iff [of a "CHR 0x00"] by simp
  with 2 show ?case by auto
next
  case (3 b bs)
  have "of_char b = (0 :: int) \<longleftrightarrow> b = CHR 0x00" using of_char_eq_iff [of b "CHR 0x00"] by simp
  with 3 show ?case by auto
qed auto

section \<open>Properties\<close>

lemma integer_set_get:
  assumes "length (value_data obj) = 1024" "- (2 ^ 63) \<le> v" "v < 2 ^ 63" "unat idx < 128"
  shows "\<exists>obj'. snd_ctl_elem_value_set_integer obj idx v = Some obj' \<and> snd_ctl_elem_value_get_integer obj' idx = Some v \<and>
     (\<forall>j. j \<noteq> idx \<longrightarrow> snd_ctl_elem_value_get_integer obj' j = snd_ctl_elem_value_get_integer obj j) \<and>
     value_id obj' = value_id obj \<and> length (value_data obj') = 1024"
proof -
  have v: "unat (word_of_int v :: u64) < 256 ^ 8" using unat_u64_less [of "word_of_int v"] by simp
  have ne: "unat j \<noteq> unat idx" if "j \<noteq> idx" for j using that by (simp add: word_unat_eq_iff)
  from store_array_reads [OF assms(4) _ v, of obj] assms(1) obtain o1 where
    o1: "store_array 128 8 idx (unat (word_of_int v :: u64)) obj = Some o1" "value_id o1 = value_id obj" "length (value_data o1) = 1024"
      "load 8 (8 * unat idx) (value_data o1) = Some (unat (word_of_int v :: u64))"
      "\<forall>j < 128. j \<noteq> unat idx \<longrightarrow> load 8 (8 * j) (value_data o1) = load 8 (8 * j) (value_data obj)" by auto
  then show ?thesis
    using assms(4) ne sint_u64_roundtrip [OF assms(2,3)]
    by (simp add: snd_ctl_elem_value_set_integer_def snd_ctl_elem_value_get_integer_def load_array_def load_long_def)
qed

lemma enumerated_set_get:
  assumes "length (value_data obj) = 1024" "unat idx < 128"
  shows "\<exists>obj'. snd_ctl_elem_value_set_enumerated obj idx item = Some obj' \<and> snd_ctl_elem_value_get_enumerated obj' idx = Some item \<and>
     (\<forall>j. j \<noteq> idx \<longrightarrow> snd_ctl_elem_value_get_enumerated obj' j = snd_ctl_elem_value_get_enumerated obj j) \<and>
     value_id obj' = value_id obj \<and> length (value_data obj') = 1024"
proof -
  have v: "unat item < 256 ^ 4" using unat_u32_less [of item] by simp
  have ne: "unat j \<noteq> unat idx" if "j \<noteq> idx" for j using that by (simp add: word_unat_eq_iff)
  from store_array_reads [OF assms(2) _ v, of obj] assms(1) obtain o2 where
    o2: "store_array 128 4 idx (unat item) obj = Some o2" "value_id o2 = value_id obj" "length (value_data o2) = 1024"
      "load 4 (4 * unat idx) (value_data o2) = Some (unat item)"
      "\<forall>j < 128. j \<noteq> unat idx \<longrightarrow> load 4 (4 * j) (value_data o2) = load 4 (4 * j) (value_data obj)" by auto
  then show ?thesis
    using assms(2) ne
    by (simp add: snd_ctl_elem_value_set_enumerated_def snd_ctl_elem_value_get_enumerated_def load_array_def load_u32_def)
qed

text \<open>The members of the value union read back what was set: an integer set at an index below 128 is the
  one read there, every other entry and the identifier keep their values, and the same holds for
  enumerated items; an index from 128 on is outside the array.\<close>

theorem value_set_get:
  assumes "length (value_data obj) = 1024" "- (2 ^ 63) \<le> v" "v < 2 ^ 63"
  shows "if unat idx < 128 then
      (\<exists>obj'. snd_ctl_elem_value_set_integer obj idx v = Some obj' \<and> snd_ctl_elem_value_get_integer obj' idx = Some v \<and>
         (\<forall>j. j \<noteq> idx \<longrightarrow> snd_ctl_elem_value_get_integer obj' j = snd_ctl_elem_value_get_integer obj j) \<and>
         value_id obj' = value_id obj \<and> length (value_data obj') = 1024) \<and>
      (\<exists>obj'. snd_ctl_elem_value_set_enumerated obj idx item = Some obj' \<and> snd_ctl_elem_value_get_enumerated obj' idx = Some item \<and>
         (\<forall>j. j \<noteq> idx \<longrightarrow> snd_ctl_elem_value_get_enumerated obj' j = snd_ctl_elem_value_get_enumerated obj j) \<and>
         value_id obj' = value_id obj \<and> length (value_data obj') = 1024)
    else snd_ctl_elem_value_set_integer obj idx v = None \<and> snd_ctl_elem_value_set_enumerated obj idx item = None"
proof (cases "unat idx < 128")
  case True
  with integer_set_get [OF assms True] enumerated_set_get [OF assms(1) True] show ?thesis by simp
next
  case False
  then show ?thesis
    by (simp add: snd_ctl_elem_value_set_integer_def snd_ctl_elem_value_set_enumerated_def store_array_def)
qed

definition zero_id :: snd_ctl_elem_id where
  "zero_id = \<lparr>id_numid = 0, id_iface = 0, id_device = 0, id_subdevice = 0, id_name = [], id_index = 0\<rparr>"

definition blank_value :: snd_ctl_elem_value where
  "blank_value = \<lparr>value_id = zero_id, value_indirect = False, value_data = replicate 1024 0\<rparr>"

theorem value_set_get_witness:
  "\<exists>obj'. snd_ctl_elem_value_set_integer blank_value 5 (- 70) = Some obj' \<and> snd_ctl_elem_value_get_integer obj' 5 = Some (- 70)"
  using value_set_get [of blank_value "- 70" 5 0] by (auto simp: blank_value_def)

text \<open>Comparing two identifiers gives zero exactly when they agree in interface, device, subdevice, name and
  index; the numeric identifier is not compared.\<close>

theorem compare_set_zero:
  assumes "- (2 ^ 31) \<le> id_iface a - id_iface b" "id_iface a - id_iface b < 2 ^ 31"
    and "CHR 0x00 \<notin> set (id_name a)" "CHR 0x00 \<notin> set (id_name b)"
  shows "snd_ctl_elem_id_compare_set a b = Some 0 \<longleftrightarrow> a\<lparr>id_numid := 0\<rparr> = b\<lparr>id_numid := 0\<rparr>"
proof -
  have w: "sint (x - y) = 0 \<longleftrightarrow> x = y" for x y :: u32 by (metis eq_iff_diff_eq_0 signed_eq_0_iff)
  show ?thesis using assms strcmp_eq [OF assms(3,4)] by (cases a; cases b) (auto simp: snd_ctl_elem_id_compare_set_def int32_def w Let_def)
qed

theorem compare_set_zero_witness: "snd_ctl_elem_id_compare_set zero_id (zero_id\<lparr>id_numid := 7\<rparr>) = Some 0"
  by (subst compare_set_zero) (simp_all add: zero_id_def)


text \<open>The kernel transfers into the buffer it is given.\<close>

definition tlv_in_place :: "'w ctl_kernel \<Rightarrow> bool" where
  "tlv_in_place k \<longleftrightarrow> (\<forall>cmd numid bs w. case k_tlv k cmd numid bs w of (ret, errno, bs', w') \<Rightarrow>
     length bs' = length bs \<and> (ret < 0 \<longrightarrow> 0 < errno))"

definition info_fails :: "'w ctl_kernel \<Rightarrow> bool" where
  "info_fails k \<longleftrightarrow> (\<forall>info w. case k_elem_info k info w of (ret, errno, info', w') \<Rightarrow> ret < 0 \<longrightarrow> 0 < errno)"

text \<open>What a read leaves of the buffer: its length, the bytes past \<^verbatim>\<open>tlv_size\<close>, and on success data that fits.\<close>

definition tlv_kept :: "u8 list \<Rightarrow> u32 \<Rightarrow> int \<Rightarrow> u8 list \<Rightarrow> bool" where
  "tlv_kept tlv sz r tlv' \<longleftrightarrow> length tlv' = length tlv \<and> drop (unat sz) tlv' = drop (unat sz) tlv \<and>
     (r \<ge> 0 \<longrightarrow> (\<exists>len. load 4 4 tlv' = Some len \<and> len + 8 \<le> unat sz))"

lemma load_take: "8 \<le> n \<Longrightarrow> n \<le> length xs \<Longrightarrow> load 4 4 (take n xs @ ys) = load 4 4 xs"
  by (auto simp: load_def drop_take min_def)

lemma hw_elem_tlv_read:
  assumes "tlv_in_place k" "8 \<le> unat sz" "unat sz \<le> length tlv"
  shows "\<exists>r tlv' w'. hw_elem_tlv k protocol TLV_READ numid tlv sz w = Some (r, tlv', w') \<and> tlv_kept tlv sz r tlv'"
proof -
  obtain ok w1 where m: "k_malloc k (8 + unat sz) w = (ok, w1)" by fastforce
  obtain ret errno x w2 where t: "k_tlv k TLV_READ numid (take (unat sz) tlv) w1 = (ret, errno, x, w2)" by (metis prod_cases4)
  have "case k_tlv k TLV_READ numid (take (unat sz) tlv) w1 of (ret, errno, bs', w') \<Rightarrow>
     length bs' = length (take (unat sz) tlv) \<and> (ret < 0 \<longrightarrow> 0 < errno)" using assms(1) unfolding tlv_in_place_def by (elim allE)
  then have x: "length x = unat sz" "ret < 0 \<longrightarrow> 0 < errno" using t assms(3) by simp_all
  obtain len where len: "load 4 4 x = Some len" using x assms(2) by (simp add: load_def)
  have k: "r < 0 \<Longrightarrow> tlv_kept tlv sz r tlv" for r by (simp add: tlv_kept_def)
  let ?t = "take (len + 8) x @ drop (len + 8) tlv"
  have "hw_elem_tlv k protocol TLV_READ numid tlv sz w = Some
    (if protocol < 0x20004 then (- ENXIO, tlv, w) else if \<not> ok then (- ENOMEM, tlv, w1)
     else if ret < 0 then (- errno, tlv, w2) else if len + 8 > unat sz then (- EFAULT, tlv, w2) else (0, ?t, w2))"
    using m t len assms(3) by (cases ok) (simp_all add: hw_elem_tlv_def)
  moreover have "len + 8 \<le> unat sz \<Longrightarrow> tlv_kept tlv sz 0 ?t"
    using x(1) assms(3) len load_take [of "len + 8" x "drop (len + 8) tlv"] by (auto simp: tlv_kept_def)
  ultimately show ?thesis using k x(2) by simp
qed

text \<open>C34.
  Reading the TLV data of an element never writes past the size the caller gives and always returns: the
  buffer keeps its length and its bytes past \<^verbatim>\<open>tlv_size\<close>, and when the read succeeds the data it holds, with
  its header, fits the size.\<close>

theorem tlv_read_bounded:
  assumes "tlv_in_place k" "info_fails k" "unat sz \<le> length tlv"
  shows "\<exists>r tlv' w'. snd_ctl_elem_tlv_read k protocol info0 eid tlv sz w = Some (r, tlv', w') \<and> tlv_kept tlv sz r tlv'"
proof (cases "sz < 8")
  case True
  then show ?thesis by (simp add: snd_ctl_elem_tlv_read_def tlv_kept_def)
next
  case False
  then have s8: "8 \<le> unat sz" by (simp add: word_less_nat_alt)
  obtain t1 where t1: "store 4 0xffffffff 0 tlv = Some t1" using s8 assms(3) store_defined [of 0 4 tlv] by auto
  obtain t2 where t2: "store 4 0 4 t1 = Some t2" using s8 assms(3) store_length [OF t1] store_defined [of 4 4 t1] by auto
  have l: "length t2 = length tlv" using store_length [OF t1] store_length [OF t2] by simp
  have d: "drop (unat sz) t2 = drop (unat sz) tlv"
    using s8 l by (intro nth_equalityI) (auto simp: store_nth [OF t2] store_nth [OF t1])
  have "\<exists>r t3 w3. snd_ctl_tlv_do k protocol info0 TLV_READ eid t2 sz w = Some (r, t3, w3) \<and> tlv_kept t2 sz r t3"
  proof -
    note hw = hw_elem_tlv_read [OF assms(1) s8, of t2] 
    obtain ret errno info w1 where i: "k_elem_info k (info0\<lparr>info_id := eid\<rparr>) w = (ret, errno, info, w1)" by (metis prod_cases4)
    have "case k_elem_info k (info0\<lparr>info_id := eid\<rparr>) w of (ret, errno, info', w') \<Rightarrow> ret < 0 \<longrightarrow> 0 < errno"
      using assms(2) by (simp add: info_fails_def)
    then have "ret < 0 \<longrightarrow> 0 < errno" using i by simp
    then show ?thesis
      using hw assms(3) l i
      by (auto simp: snd_ctl_tlv_do_def snd_ctl_elem_info0_def status_def tlv_kept_def split: if_splits)
  qed
  then obtain r t3 w3 where t3: "snd_ctl_tlv_do k protocol info0 TLV_READ eid t2 sz w = Some (r, t3, w3)" "tlv_kept t2 sz r t3" by blast
  have "\<exists>ty. load 4 0 t3 = Some ty" using t3(2) s8 assms(3) l by (simp add: tlv_kept_def load_def)
  then show ?thesis using False t1 t2 t3 l d by (auto simp: snd_ctl_elem_tlv_read_def tlv_kept_def)
qed


text \<open>A device with one element, whose value is the world; it echoes TLV data and is always ready.\<close>

definition one_elem :: "snd_ctl_elem_info \<Rightarrow> snd_ctl_elem_value ctl_kernel" where
  "one_elem info =
     \<lparr>k_card_info = \<lambda>c w. (0, 0, c, w), k_elem_info = \<lambda>i w. (0, 0, info\<lparr>info_id := info_id i\<rparr>, w),
      k_elem_add = \<lambda>i names w. (0, 0, i, w), k_elem_remove = \<lambda>i w. (- 1, EPERM, i, w),
      k_elem_read = \<lambda>v w. (0, 0, w\<lparr>value_id := value_id v\<rparr>, w), k_elem_write = \<lambda>v w. (0, 0, v, v),
      k_elem_lock = \<lambda>i w. (0, 0, i, w), k_elem_unlock = \<lambda>i w. (0, 0, i, w),
      k_hwdep_next = \<lambda>d w. (0, 0, - 1, w), k_pcm_next = \<lambda>d w. (0, 0, - 1, w), k_pcm_prefer = \<lambda>d w. (0, 0, d, w),
      k_rawmidi_next = \<lambda>d w. (0, 0, - 1, w), k_rawmidi_prefer = \<lambda>d w. (0, 0, d, w),
      k_tlv = \<lambda>cmd n bs w. (0, 0, bs, w), k_malloc = \<lambda>n w. (True, w), k_poll = \<lambda>t w. (1, 0, 1, w)\<rparr>"

definition blank_info :: snd_ctl_elem_info where
  "blank_info = \<lparr>info_id = zero_id, info_type = 0, info_access = 0, info_count = 0, info_owner = 0,
     info_value = replicate 128 0, info_dimen = replicate 4 0\<rparr>"

theorem tlv_read_bounded_witness:
  "\<exists>r tlv' w'. snd_ctl_elem_tlv_read (one_elem blank_info) 0x20007 blank_info (zero_id\<lparr>id_numid := 3\<rparr>) (replicate 20 1) 16 blank_value =
     Some (r, tlv', w') \<and> tlv_kept (replicate 20 1) 16 r tlv'"
  by (rule tlv_read_bounded) (simp_all add: tlv_in_place_def info_fails_def one_elem_def)

section \<open>User-defined elements\<close>

lemma fill_integers:
  assumes "length (value_data val) = 1024" "- (2 ^ 63) \<le> v" "v < 2 ^ 63"
  shows "n \<le> 128 \<Longrightarrow> \<exists>val'. fill_values snd_ctl_elem_value_set_integer v n val = Some val' \<and> length (value_data val') = 1024 \<and>
     value_id val' = value_id val \<and> (\<forall>j. unat j < n \<longrightarrow> snd_ctl_elem_value_get_integer val' j = Some v)"
proof (induction n)
  case (Suc n)
  then obtain v1 where v1: "fill_values snd_ctl_elem_value_set_integer v n val = Some v1" "length (value_data v1) = 1024"
    "value_id v1 = value_id val" "\<forall>j. unat j < n \<longrightarrow> snd_ctl_elem_value_get_integer v1 j = Some v" by auto
  have u: "unat (of_nat n :: u32) = n" using Suc.prems by (simp add: unsigned_of_nat take_bit_nat_eq_self)
  with Suc.prems integer_set_get [OF v1(2) assms(2,3), of "of_nat n"] obtain v2 where
    v2: "snd_ctl_elem_value_set_integer v1 (of_nat n) v = Some v2" "snd_ctl_elem_value_get_integer v2 (of_nat n) = Some v"
      "\<forall>j. j \<noteq> of_nat n \<longrightarrow> snd_ctl_elem_value_get_integer v2 j = snd_ctl_elem_value_get_integer v1 j"
      "value_id v2 = value_id v1" "length (value_data v2) = 1024" by auto
  have "snd_ctl_elem_value_get_integer v2 j = Some v" if "unat j < Suc n" for j
  proof (cases "j = of_nat n")
    case False
    then have "unat j < n" using that u by (metis less_antisym word_unat_eq_iff)
    with False v1(4) v2(3) show ?thesis by simp
  qed (use v2(2) in simp)
  with v1 v2 show ?case by simp
qed (use assms in simp)

end
