(* ===== verification/Cards.thy ===== *)
theory Cards
  imports C_String Ctl_Elem
begin

text \<open>
  Sound cards and device names: \<^verbatim>\<open>src/src/cards.c\<close>.

  The system calls are the record \<open>sys_kernel\<close> over a world \<open>'w\<close>; each returns its result, which is minus the error
  number when it fails.  The C library keeps \<^verbatim>\<open>errno\<close> and the state has the descriptors that are open.  The directory of
  the device files is fixed when the library is configured.
\<close>

section \<open>System calls\<close>

record 'w sys =
  sys_errno :: int
  sys_fds :: "int set"
  sys_world :: 'w

datatype sys_request =
    PCM_PREFER_SUBDEVICE int | RAWMIDI_PREFER_SUBDEVICE int | PCM_USER_PVERSION int | TIMER_TREAD int
  | TIMER_SELECT int int int int int

datatype version_request = CTL_PVERSION | PCM_PVERSION | RAWMIDI_PVERSION | HWDEP_PVERSION | TIMER_PVERSION

datatype info_request = PCM_INFO | RAWMIDI_INFO int

record 'w sys_kernel =
  sk_devpath :: string
  sk_open :: "string \<Rightarrow> u32 \<Rightarrow> 'w \<Rightarrow> int \<times> 'w"
  sk_close :: "int \<Rightarrow> 'w \<Rightarrow> int \<times> 'w"
  sk_access :: "string \<Rightarrow> 'w \<Rightarrow> int \<times> 'w"
  sk_request :: "int \<Rightarrow> sys_request \<Rightarrow> 'w \<Rightarrow> int \<times> 'w"
  sk_version :: "int \<Rightarrow> version_request \<Rightarrow> 'w \<Rightarrow> int \<times> int \<times> 'w"
  sk_subdevice :: "int \<Rightarrow> info_request \<Rightarrow> 'w \<Rightarrow> int \<times> int \<times> 'w"
  sk_card_info :: "int \<Rightarrow> 'w \<Rightarrow> int \<times> snd_ctl_card_info \<times> 'w"
  sk_getfl :: "int \<Rightarrow> 'w \<Rightarrow> int \<times> 'w"
  sk_setfl :: "int \<Rightarrow> int \<Rightarrow> 'w \<Rightarrow> int \<times> 'w"
  sk_calloc :: "'w \<Rightarrow> bool \<times> 'w"

abbreviation (input) O_RDONLY :: u32 where "O_RDONLY \<equiv> 0"
abbreviation (input) O_WRONLY :: u32 where "O_WRONLY \<equiv> 1"
abbreviation (input) O_RDWR :: u32 where "O_RDWR \<equiv> 2"
abbreviation (input) O_ACCMODE :: u32 where "O_ACCMODE \<equiv> 3"
abbreviation (input) O_APPEND :: u32 where "O_APPEND \<equiv> 0x400"
abbreviation (input) O_NONBLOCK :: u32 where "O_NONBLOCK \<equiv> 0x800"
abbreviation (input) ASYNC_FLAG :: u32 where "ASYNC_FLAG \<equiv> 0x2000"
abbreviation (input) O_SYNC :: u32 where "O_SYNC \<equiv> 0x101000"

text \<open>The result of a system call: a failure stores the error number and gives \<open>- 1\<close>.\<close>

definition sys_result :: "int \<Rightarrow> 'w \<Rightarrow> 'w sys \<Rightarrow> int \<times> 'w sys" where
  "sys_result r w s = (if r < 0 then (- 1, s\<lparr>sys_errno := - r, sys_world := w\<rparr>) else (r, s\<lparr>sys_world := w\<rparr>))"

definition sys_open :: "'w sys_kernel \<Rightarrow> string \<Rightarrow> u32 \<Rightarrow> 'w sys \<Rightarrow> int \<times> 'w sys" where
  "sys_open k path flags s =
     (case sk_open k path flags (sys_world s) of (r, w) \<Rightarrow>
        (case sys_result r w s of (fd, s) \<Rightarrow> (fd, if fd < 0 then s else s\<lparr>sys_fds := insert fd (sys_fds s)\<rparr>)))"

definition sys_close :: "'w sys_kernel \<Rightarrow> int \<Rightarrow> 'w sys \<Rightarrow> int \<times> 'w sys" where
  "sys_close k fd s = (case sk_close k fd (sys_world s) of (r, w) \<Rightarrow> sys_result r w (s\<lparr>sys_fds := sys_fds s - {fd}\<rparr>))"

definition sys_access :: "'w sys_kernel \<Rightarrow> string \<Rightarrow> 'w sys \<Rightarrow> int \<times> 'w sys" where
  "sys_access k path s = (case sk_access k path (sys_world s) of (r, w) \<Rightarrow> sys_result r w s)"

definition sys_request :: "'w sys_kernel \<Rightarrow> int \<Rightarrow> sys_request \<Rightarrow> 'w sys \<Rightarrow> int \<times> 'w sys" where
  "sys_request k fd req s = (case sk_request k fd req (sys_world s) of (r, w) \<Rightarrow> sys_result r w s)"

definition sys_version :: "'w sys_kernel \<Rightarrow> int \<Rightarrow> version_request \<Rightarrow> 'w sys \<Rightarrow> int \<times> int \<times> 'w sys" where
  "sys_version k fd req s = (case sk_version k fd req (sys_world s) of (r, ver, w) \<Rightarrow> (case sys_result r w s of (r, s) \<Rightarrow> (r, ver, s)))"

definition sys_subdevice :: "'w sys_kernel \<Rightarrow> int \<Rightarrow> info_request \<Rightarrow> 'w sys \<Rightarrow> int \<times> int \<times> 'w sys" where
  "sys_subdevice k fd req s = (case sk_subdevice k fd req (sys_world s) of (r, sub, w) \<Rightarrow> (case sys_result r w s of (r, s) \<Rightarrow> (r, sub, s)))"

definition sys_card_info :: "'w sys_kernel \<Rightarrow> int \<Rightarrow> 'w sys \<Rightarrow> int \<times> snd_ctl_card_info \<times> 'w sys" where
  "sys_card_info k fd s = (case sk_card_info k fd (sys_world s) of (r, info, w) \<Rightarrow> (case sys_result r w s of (r, s) \<Rightarrow> (r, info, s)))"

definition sys_getfl :: "'w sys_kernel \<Rightarrow> int \<Rightarrow> 'w sys \<Rightarrow> int \<times> 'w sys" where
  "sys_getfl k fd s = (case sk_getfl k fd (sys_world s) of (r, w) \<Rightarrow> sys_result r w s)"

definition sys_setfl :: "'w sys_kernel \<Rightarrow> int \<Rightarrow> int \<Rightarrow> 'w sys \<Rightarrow> int \<times> 'w sys" where
  "sys_setfl k fd flags s = (case sk_setfl k fd flags (sys_world s) of (r, w) \<Rightarrow> sys_result r w s)"

definition sys_calloc :: "'w sys_kernel \<Rightarrow> 'w sys \<Rightarrow> bool \<times> 'w sys" where
  "sys_calloc k s = (case sk_calloc k (sys_world s) of (ok, w) \<Rightarrow> (ok, s\<lparr>sys_world := w\<rparr>))"

section \<open>Descriptors\<close>

definition snd_set_nonblock :: "'w sys_kernel \<Rightarrow> int \<Rightarrow> int \<Rightarrow> 'w sys \<Rightarrow> int \<times> 'w sys" where
  "snd_set_nonblock k fd nonblock s =
     (let (flags, s) = sys_getfl k fd s
      in if flags < 0 then (- sys_errno s, s)
         else let flags = (if nonblock \<noteq> 0 then flags OR uint O_NONBLOCK else flags AND NOT (uint O_NONBLOCK));
                  (r, s) = sys_setfl k fd flags s
              in if r < 0 then (- sys_errno s, s) else (0, s))"

section \<open>Cards\<close>

abbreviation (input) SALSA_MAX_CARDS :: int where "SALSA_MAX_CARDS \<equiv> 32"
abbreviation (input) SALSA_MAX_DEVICES :: int where "SALSA_MAX_DEVICES \<equiv> 32"

text \<open>The name of a control device, in an array of \<^verbatim>\<open>sizeof(SND_FILE_CONTROL) + 10\<close> characters.\<close>

definition control_name :: "'w sys_kernel \<Rightarrow> int \<Rightarrow> string option" where
  "control_name k crd = sprintf_array (length (sk_devpath k @ ''/controlC%i'') + 1 + 10) (sk_devpath k @ ''/controlC'' @ show_int crd)"

definition snd_card_load :: "'w sys_kernel \<Rightarrow> int \<Rightarrow> 'w sys \<Rightarrow> (bool \<times> 'w sys) option" where
  "snd_card_load k crd s = do {
     control \<leftarrow> control_name k crd;
     (case sys_access k control s of (r, s) \<Rightarrow> Some (r = 0, s)) }"

function card_next_loop :: "'w sys_kernel \<Rightarrow> int \<Rightarrow> 'w sys \<Rightarrow> (int \<times> 'w sys) option" where
  "card_next_loop k crd s =
     (if crd < SALSA_MAX_CARDS then do {
        (loaded, s) \<leftarrow> snd_card_load k crd s;
        (if loaded then Some (crd, s) else card_next_loop k (crd + 1) s) }
      else Some (- 1, s))"
  by pat_completeness auto
termination by (relation "measure (\<lambda>(k, crd, s). nat (SALSA_MAX_CARDS - crd))") auto

declare card_next_loop.simps [simp del]

text \<open>The pointer \<open>rcard\<close> may be null; the second result is what it points to afterwards.\<close>

definition snd_card_next :: "'w sys_kernel \<Rightarrow> int option \<Rightarrow> 'w sys \<Rightarrow> (int \<times> int option \<times> 'w sys) option" where
  "snd_card_next k rcard s =
     (case rcard of None \<Rightarrow> Some (- EINVAL, None, s)
      | Some crd \<Rightarrow> do {
          crd \<leftarrow> (if crd < 0 then Some 0 else int32 (crd + 1));
          (crd, s) \<leftarrow> card_next_loop k crd s;
          Some (0, Some crd, s) })"

text \<open>The substream with a given number; \<open>prefer\<close> is the request with the number.\<close>

definition snd_open_subdev :: "'w sys_kernel \<Rightarrow> string \<Rightarrow> u32 \<Rightarrow> int \<Rightarrow> sys_request \<Rightarrow> 'w sys \<Rightarrow> (int \<times> 'w sys) option" where
  "snd_open_subdev k filename fmode crd prefer s = do {
     control \<leftarrow> control_name k crd;
     let (ctl, s) = sys_open k control O_RDWR s;
     (if ctl < 0 then Some (- sys_errno s, s)
      else do {
        let (r, s) = sys_request k ctl prefer s;
        let (fd, s) = (if r \<ge> 0 then (- 1, s) else sys_open k filename fmode s);
        let (_, s) = sys_close k ctl s;
        Some (if fd < 0 then - sys_errno s else fd, s) }) }"

text \<open>The second result is \<^verbatim>\<open>info\<close>, which is not initialised unless the request succeeds.\<close>

definition load_card_info :: "'w sys_kernel \<Rightarrow> string \<Rightarrow> snd_ctl_card_info \<Rightarrow> 'w sys \<Rightarrow> int \<times> snd_ctl_card_info \<times> 'w sys" where
  "load_card_info k control info s =
     (let (open_dev, s) = sys_open k control O_RDONLY s
      in if open_dev < 0 then (- sys_errno s, info, s)
         else let (r, info, s) = sys_card_info k open_dev s;
                  (_, s) = sys_close k open_dev s
              in if r < 0 then (- sys_errno s, info, s) else (0, info, s))"

definition snd_card_load2 :: "'w sys_kernel \<Rightarrow> snd_ctl_card_info \<Rightarrow> string \<Rightarrow> 'w sys \<Rightarrow> int \<times> 'w sys" where
  "snd_card_load2 k uninit control s =
     (let (err, info, s) = load_card_info k control uninit s in if err < 0 then (err, s) else (ci_card info, s))"

definition get_card_info :: "'w sys_kernel \<Rightarrow> int \<Rightarrow> snd_ctl_card_info \<Rightarrow> 'w sys \<Rightarrow> (int \<times> snd_ctl_card_info \<times> 'w sys) option" where
  "get_card_info k crd info s = do { control \<leftarrow> control_name k crd; Some (load_card_info k control info s) }"

function card_id_loop :: "'w sys_kernel \<Rightarrow> snd_ctl_card_info \<Rightarrow> string \<Rightarrow> int \<Rightarrow> 'w sys \<Rightarrow> (int \<times> 'w sys) option" where
  "card_id_loop k info str crd s =
     (if crd < SALSA_MAX_CARDS then do {
        (err, info, s) \<leftarrow> get_card_info k crd info s;
        (if err < 0 then card_id_loop k info str (crd + 1) s
         else if ci_id info = str then Some (crd, s)
         else card_id_loop k info str (crd + 1) s) }
      else Some (- ENODEV, s))"
  by pat_completeness auto
termination by (relation "measure (\<lambda>(k, info, str, crd, s). nat (SALSA_MAX_CARDS - crd))") auto

declare card_id_loop.simps [simp del]

definition snd_card_get_index :: "'w sys_kernel \<Rightarrow> snd_ctl_card_info \<Rightarrow> string option \<Rightarrow> 'w sys \<Rightarrow> (int \<times> 'w sys) option" where
  "snd_card_get_index k uninit str s =
     (case str of
        None \<Rightarrow> Some (- EINVAL, s)
      | Some [] \<Rightarrow> Some (- EINVAL, s)
      | Some (c # cs) \<Rightarrow>
          if c = CHR ''/'' then Some (snd_card_load2 k uninit (c # cs) s)
          else do {
            number \<leftarrow> scan_int True (c # cs);
            (case number of
               Some (crd, _) \<Rightarrow>
                 if crd < 0 \<or> crd \<ge> SALSA_MAX_CARDS then Some (- EINVAL, s)
                 else do { (loaded, s) \<leftarrow> snd_card_load k crd s; Some (if loaded then crd else - ENODEV, s) }
             | None \<Rightarrow> card_id_loop k uninit (c # cs) 0 s) })"

text \<open>The result of \<^verbatim>\<open>strdup\<close> is stored through \<^verbatim>\<open>name\<close>, also when it is null.\<close>

definition snd_card_get_name :: "'w sys_kernel \<Rightarrow> snd_ctl_card_info \<Rightarrow> int \<Rightarrow> string option \<Rightarrow> 'w sys \<Rightarrow> (int \<times> string option \<times> 'w sys) option" where
  "snd_card_get_name k uninit crd name s = do {
     (err, info, s) \<leftarrow> get_card_info k crd uninit s;
     (if err < 0 then Some (err, name, s)
      else case sys_calloc k s of (ok, s) \<Rightarrow> Some (if ok then (0, Some (ci_name info), s) else (- ENOMEM, None, s))) }"

definition snd_card_get_longname :: "'w sys_kernel \<Rightarrow> snd_ctl_card_info \<Rightarrow> int \<Rightarrow> string option \<Rightarrow> 'w sys \<Rightarrow> (int \<times> string option \<times> 'w sys) option" where
  "snd_card_get_longname k uninit crd name s = do {
     (err, info, s) \<leftarrow> get_card_info k crd uninit s;
     (if err < 0 then Some (err, name, s)
      else case sys_calloc k s of (ok, s) \<Rightarrow> Some (if ok then (0, Some (ci_longname info), s) else (- ENOMEM, None, s))) }"

section \<open>Device names\<close>

text \<open>\<^verbatim>\<open>sscanf(name, ",%d,%d", devp, subdevp)\<close>: what the two pointers hold afterwards.\<close>

definition scan_device :: "string \<Rightarrow> int \<Rightarrow> int \<Rightarrow> (int \<times> int) option" where
  "scan_device name dev subdev =
     (case name of
        [] \<Rightarrow> Some (dev, subdev)
      | c # t \<Rightarrow>
          if c \<noteq> CHR '','' then Some (dev, subdev)
          else do {
            number \<leftarrow> scan_int False t;
            (case number of
               None \<Rightarrow> Some (dev, subdev)
             | Some (dev, []) \<Rightarrow> Some (dev, subdev)
             | Some (dev, c # t) \<Rightarrow>
                 if c \<noteq> CHR '','' then Some (dev, subdev)
                 else do {
                   number \<leftarrow> scan_int False t;
                   Some (dev, case number of Some (sub, _) \<Rightarrow> sub | None \<Rightarrow> subdev) }) })"

definition strip_prefix :: "string \<Rightarrow> string option" where
  "strip_prefix name =
     (if strneq name ''hw:'' 3 then Some (drop 3 name)
      else if strneq name ''default:'' 8 then Some (drop 8 name)
      else if strneq name ''sysdefault:'' 11 then Some (drop 11 name)
      else None)"

text \<open>The result, and what \<^verbatim>\<open>cardp\<close>, \<^verbatim>\<open>devp\<close> and \<^verbatim>\<open>subdevp\<close> hold; the flags tell whether the last two are not null.\<close>

definition snd_dev_get_device ::
  "'w sys_kernel \<Rightarrow> snd_ctl_card_info \<Rightarrow> string \<Rightarrow> bool \<Rightarrow> bool \<Rightarrow> 'w sys \<Rightarrow> (int \<times> int \<times> int option \<times> int option \<times> 'w sys) option" where
  "snd_dev_get_device k uninit name devp subdevp s =
     (let dev = (if devp then Some 0 else None); sub = (if subdevp then Some (- 1) else None)
      in if name = ''hw'' \<or> name = ''default'' \<or> name = ''sysdefault'' then Some (0, 0, dev, sub, s)
         else case strip_prefix name of
             None \<Rightarrow> Some (- EINVAL, 0, dev, sub, s)
           | Some name \<Rightarrow> do {
               (crd, s) \<leftarrow> snd_card_get_index k uninit (Some name) s;
               (if crd < 0 then Some (crd, 0, dev, sub, s)
                else if devp \<and> subdevp then
                  (case strchr name (CHR '','') of
                     None \<Rightarrow> Some (0, crd, dev, sub, s)
                   | Some name \<Rightarrow> do {
                       (d, sd) \<leftarrow> scan_device name 0 (- 1);
                       Some (if d < 0 \<or> d \<ge> SALSA_MAX_DEVICES then - EINVAL else 0, crd, Some d, Some sd, s) })
                else Some (0, crd, dev, sub, s)) })"


section \<open>Facts\<close>

definition control_path :: "'w sys_kernel \<Rightarrow> int \<Rightarrow> string" where
  "control_path k crd = sk_devpath k @ ''/controlC'' @ show_int crd"

text \<open>The name of a control device fits in its array, for every \<^verbatim>\<open>int\<close>.\<close>

lemma control_name_fits: "- (2 ^ 31) \<le> crd \<Longrightarrow> crd < 2 ^ 31 \<Longrightarrow> control_name k crd = Some (control_path k crd)"
  using length_show_int [of crd] by (simp add: control_name_def sprintf_array_def control_path_def)

lemma sys_result_fields [simp]:
  "sys_fds (snd (sys_result r w s)) = sys_fds s" "sys_world (snd (sys_result r w s)) = w"
  "fst (sys_result r w s) < 0 \<longleftrightarrow> r < 0" "0 \<le> r \<Longrightarrow> sys_result r w s = (r, s\<lparr>sys_world := w\<rparr>)"
  "r < 0 \<Longrightarrow> sys_result r w s = (- 1, s\<lparr>sys_errno := - r, sys_world := w\<rparr>)"
  by (simp_all add: sys_result_def)

text \<open>Which cards can be read, at every time.\<close>

definition cards_readable :: "'w sys_kernel \<Rightarrow> (int \<Rightarrow> bool) \<Rightarrow> bool" where
  "cards_readable k present \<longleftrightarrow> (\<forall>crd w. fst (sk_access k (control_path k crd) w) = (if present crd then 0 else - ENOENT))"

lemma card_load:
  assumes "cards_readable k present" "- (2 ^ 31) \<le> crd" "crd < 2 ^ 31"
  obtains s' where "snd_card_load k crd s = Some (present crd, s')" "sys_fds s' = sys_fds s"
proof -
  obtain r w where a: "sk_access k (control_path k crd) (sys_world s) = (r, w)" by fastforce
  then have r: "r = (if present crd then 0 else - ENOENT)" using assms(1) by (auto simp: cards_readable_def dest!: spec [of _ crd] spec [of _ "sys_world s"])
  show ?thesis
    by (rule that [of "snd (sys_result r w s)"]) (auto simp: snd_card_load_def control_name_fits [OF assms(2,3)] sys_access_def a r)
qed

lemma card_next_loop_least:
  "cards_readable k present \<Longrightarrow> - (2 ^ 31) \<le> crd \<Longrightarrow> \<exists>r s'. card_next_loop k crd s = Some (r, s') \<and> sys_fds s' = sys_fds s \<and>
    (r = - 1 \<and> (\<forall>c. crd \<le> c \<longrightarrow> c < SALSA_MAX_CARDS \<longrightarrow> \<not> present c) \<or>
     crd \<le> r \<and> r < SALSA_MAX_CARDS \<and> present r \<and> (\<forall>c. crd \<le> c \<longrightarrow> c < r \<longrightarrow> \<not> present c))"
proof (induction k crd s rule: card_next_loop.induct)
  case (1 k crd s)
  show ?case
  proof (cases "crd < SALSA_MAX_CARDS")
    case True
    then have "crd < 2 ^ 31" by simp
    from card_load [OF 1(2,3) this, of s] obtain s1 where l: "snd_card_load k crd s = Some (present crd, s1)" "sys_fds s1 = sys_fds s"
      by blast
    show ?thesis
    proof (cases "present crd")
      case p: True
      then show ?thesis using l True by (subst card_next_loop.simps) auto
    next
      case p: False
      have "- (2 ^ 31) \<le> crd + 1" using 1(3) by simp
      from 1(1) [OF True l(1) refl p 1(2) this] obtain r s' where r: "card_next_loop k (crd + 1) s1 = Some (r, s')" "sys_fds s' = sys_fds s1"
        "r = - 1 \<and> (\<forall>c. crd + 1 \<le> c \<longrightarrow> c < SALSA_MAX_CARDS \<longrightarrow> \<not> present c) \<or>
         crd + 1 \<le> r \<and> r < SALSA_MAX_CARDS \<and> present r \<and> (\<forall>c. crd + 1 \<le> c \<longrightarrow> c < r \<longrightarrow> \<not> present c)"
        by blast
      have e: "card_next_loop k crd s = Some (r, s')" using l p True r(1) by (subst card_next_loop.simps) simp
      have split: "(crd \<le> c) = (c = crd \<or> crd + 1 \<le> c)" for c by auto
      show ?thesis unfolding e using r(2,3) l(2) p by (auto simp: split)
    qed
  next
    case False
    then show ?thesis by (subst card_next_loop.simps) auto
  qed
qed

text \<open>The names that identify cards, at every time: \<open>ids crd\<close> is the identifier of a card that can be opened.\<close>

definition card_ids :: "'w sys_kernel \<Rightarrow> (int \<Rightarrow> string option) \<Rightarrow> bool" where
  "card_ids k ids \<longleftrightarrow> (\<forall>crd w. case ids crd of
     None \<Rightarrow> fst (sk_open k (control_path k crd) O_RDONLY w) < 0
   | Some i \<Rightarrow> (\<exists>fd w'. sk_open k (control_path k crd) O_RDONLY w = (fd, w') \<and> 0 \<le> fd \<and>
       (\<exists>r info w''. sk_card_info k fd w' = (r, info, w'') \<and> 0 \<le> r \<and> ci_id info = i)))"

lemma get_card_info_id:
  assumes "card_ids k ids" "0 \<le> crd" "crd < SALSA_MAX_CARDS"
  shows "\<exists>err info' s'. get_card_info k crd info s = Some (err, info', s') \<and>
    (case ids crd of None \<Rightarrow> err < 0 | Some i \<Rightarrow> err = 0 \<and> ci_id info' = i)"
proof -
  have n: "control_name k crd = Some (control_path k crd)" using assms(2,3) by (intro control_name_fits) auto
  obtain fd w1 where o: "sk_open k (control_path k crd) O_RDONLY (sys_world s) = (fd, w1)" by fastforce
  show ?thesis
  proof (cases "ids crd")
    case None
    then have "fd < 0" using assms(1) o by (auto simp: card_ids_def dest!: spec [of _ crd] spec [of _ "sys_world s"])
    then show ?thesis using None n o by (simp add: get_card_info_def load_card_info_def sys_open_def)
  next
    case (Some i)
    then have "0 \<le> fd \<and> (\<exists>r info w''. sk_card_info k fd w1 = (r, info, w'') \<and> 0 \<le> r \<and> ci_id info = i)"
      using assms(1) o unfolding card_ids_def by (auto dest!: spec [of _ crd] spec [of _ "sys_world s"])
    then obtain r info' w2 where "0 \<le> fd" "sk_card_info k fd w1 = (r, info', w2)" "0 \<le> r" "ci_id info' = i" by blast
    then show ?thesis using Some n o
      by (auto simp: get_card_info_def load_card_info_def sys_open_def sys_card_info_def Let_def split: prod.splits)
  qed
qed

lemma card_id_loop_first:
  "card_ids k ids \<Longrightarrow> 0 \<le> crd \<Longrightarrow> \<exists>r s'. card_id_loop k info str crd s = Some (r, s') \<and>
    (r = - ENODEV \<and> (\<forall>c. crd \<le> c \<longrightarrow> c < SALSA_MAX_CARDS \<longrightarrow> ids c \<noteq> Some str) \<or>
     crd \<le> r \<and> r < SALSA_MAX_CARDS \<and> ids r = Some str \<and> (\<forall>c. crd \<le> c \<longrightarrow> c < r \<longrightarrow> ids c \<noteq> Some str))"
proof (induction k info str crd s rule: card_id_loop.induct)
  case (1 k info str crd s)
  show ?case
  proof (cases "crd < SALSA_MAX_CARDS")
    case True
    from get_card_info_id [OF 1(3,4) True] obtain err info' s1 where g: "get_card_info k crd info s = Some (err, info', s1)"
      "case ids crd of None \<Rightarrow> err < 0 | Some i \<Rightarrow> err = 0 \<and> ci_id info' = i" by blast
    show ?thesis
    proof (cases "ids crd = Some str")
      case p: True
      then show ?thesis using g True by (subst card_id_loop.simps) auto
    next
      case p: False
      have z: "0 \<le> crd + 1" using 1(4) by simp
      have "\<exists>r s'. card_id_loop k info' str (crd + 1) s1 = Some (r, s') \<and>
        (r = - ENODEV \<and> (\<forall>c. crd + 1 \<le> c \<longrightarrow> c < SALSA_MAX_CARDS \<longrightarrow> ids c \<noteq> Some str) \<or>
         crd + 1 \<le> r \<and> r < SALSA_MAX_CARDS \<and> ids r = Some str \<and> (\<forall>c. crd + 1 \<le> c \<longrightarrow> c < r \<longrightarrow> ids c \<noteq> Some str))"
      proof (cases "err < 0")
        case e: True
        from 1(1) [OF True g(1) refl refl e 1(3) z] show ?thesis .
      next
        case e: False
        then have "ci_id info' \<noteq> str" using g(2) p by (cases "ids crd") auto
        from 1(2) [OF True g(1) refl refl e this 1(3) z] show ?thesis .
      qed
      then obtain r s' where r: "card_id_loop k info' str (crd + 1) s1 = Some (r, s')"
        "r = - ENODEV \<and> (\<forall>c. crd + 1 \<le> c \<longrightarrow> c < SALSA_MAX_CARDS \<longrightarrow> ids c \<noteq> Some str) \<or>
         crd + 1 \<le> r \<and> r < SALSA_MAX_CARDS \<and> ids r = Some str \<and> (\<forall>c. crd + 1 \<le> c \<longrightarrow> c < r \<longrightarrow> ids c \<noteq> Some str)" by blast
      have e: "card_id_loop k info str crd s = Some (r, s')"
        using g p True r(1) by (subst card_id_loop.simps) (cases "ids crd"; simp)
      have split: "(crd \<le> c) = (c = crd \<or> crd + 1 \<le> c)" for c by auto
      show ?thesis unfolding e using r(2) p by (auto simp: split)
    qed
  next
    case False
    then show ?thesis by (subst card_id_loop.simps) auto
  qed
qed


lemma strchr_append: "(\<forall>x \<in> set a. x \<noteq> c) \<Longrightarrow> strchr (a @ c # t) c = Some (c # t)"
  by (simp add: strchr_def)

lemma digit_not_comma: "d < 10 \<Longrightarrow> digit_char d \<noteq> CHR '','' \<and> digit_char d \<noteq> CHR ''/''"
  by (simp add: digit_char_inj)

lemma show_nat_no_comma: "x \<in> set (show_nat n) \<Longrightarrow> x \<noteq> CHR '','' \<and> x \<noteq> CHR ''/''"
  by (drule show_nat_digits) (auto simp: digit_not_comma)

lemma ends_comma [simp]: "ends_number 10 (CHR '','' # t)" "ends_number 8 (CHR '','' # t)" "ends_number b []"
  by (simp_all add: ends_number_def digit_value_def Let_def)

lemma scan_card_number: "int n < 2 ^ 31 \<Longrightarrow> scan_int True (show_nat n @ CHR '','' # t) = Some (Some (int n, CHR '','' # t))"
  using scan_int_show_nat [of "CHR '','' # t" n True] scan_int_zero [of "CHR '','' # t"] by (cases "n = 0") auto

lemma card_index_number:
  assumes "cards_readable k present" "n < 32" "present (int n)"
  shows "\<exists>s'. snd_card_get_index k uninit (Some (show_nat n @ CHR '','' # t)) s = Some (int n, s')"
proof -
  obtain c cs where c: "show_nat n = c # cs" by (cases "show_nat n") auto
  then have "c \<noteq> CHR ''/''" using show_nat_no_comma [of c n] by simp
  moreover have "scan_int True (c # cs @ CHR '','' # t) = Some (Some (int n, CHR '','' # t))"
    using scan_card_number [of n t] assms(2) c by simp
  moreover have "- (2 ^ 31) \<le> int n" "int n < 2 ^ 31" using assms(2) by simp_all
  from card_load [OF assms(1) this, of s] assms(3) obtain s' where "snd_card_load k (int n) s = Some (True, s')" by auto
  ultimately show ?thesis using c assms(2) by (simp add: snd_card_get_index_def)
qed

lemma scan_device_show:
  assumes "- (2 ^ 31) \<le> sd" "sd < 2 ^ 31" "d < 32"
  shows "scan_device (CHR '','' # show_nat d @ CHR '','' # show_int sd) dev sub = Some (int d, sd)"
proof -
  have "scan_int False (show_nat d @ CHR '','' # show_int sd) = Some (Some (int d, CHR '','' # show_int sd))"
    by (rule scan_int_show_nat) (use assms(3) in simp_all)
  moreover have "scan_int False (show_int sd) = Some (Some (sd, []))"
    using scan_int_show [of "[]", OF _ assms(1,2)] by simp
  ultimately show ?thesis by (simp add: scan_device_def)
qed

lemma strip_hw: "strip_prefix (''hw:'' @ name) = Some name"
  by (simp add: strip_prefix_def strneq_def)

section \<open>Properties\<close>

text \<open>The card after a given one: \<^verbatim>\<open>snd_card_next\<close> gives the least readable card with a greater number, or \<open>- 1\<close> when there
  is none below the limit, so that a client that starts from \<open>- 1\<close> sees every card once, in order.\<close>
theorem card_next_least:
  assumes "cards_readable k present" "c < 2 ^ 31 - 1"
  shows "\<exists>r s'. snd_card_next k (Some c) s = Some (0, Some r, s') \<and> sys_fds s' = sys_fds s \<and>
    (let start = (if c < 0 then 0 else c + 1)
     in if \<exists>d \<ge> start. d < SALSA_MAX_CARDS \<and> present d
        then start \<le> r \<and> r < SALSA_MAX_CARDS \<and> present r \<and> (\<forall>d. start \<le> d \<longrightarrow> d < r \<longrightarrow> \<not> present d)
        else r = - 1)"
proof -
  let ?start = "if c < 0 then 0 else c + 1"
  have "- (2 ^ 31) \<le> ?start" by simp
  from card_next_loop_least [OF assms(1) this, of s] obtain r s' where r: "card_next_loop k ?start s = Some (r, s')" "sys_fds s' = sys_fds s"
    "r = - 1 \<and> (\<forall>c. ?start \<le> c \<longrightarrow> c < SALSA_MAX_CARDS \<longrightarrow> \<not> present c) \<or>
     ?start \<le> r \<and> r < SALSA_MAX_CARDS \<and> present r \<and> (\<forall>c. ?start \<le> c \<longrightarrow> c < r \<longrightarrow> \<not> present c)" by blast
  have "snd_card_next k (Some c) s = Some (0, Some r, s')"
    using r(1) assms(2) by (auto simp: snd_card_next_def int32_def)
  then show ?thesis using r(2,3) unfolding Let_def by (intro exI [of _ r] exI [of _ s']) auto
qed

text \<open>A name that is neither a path nor starts with a number is looked up among the identifiers of the cards: the first
  card that has it is the result, and without one the result is \<^verbatim>\<open>-ENODEV\<close>.\<close>
theorem card_index_of_id:
  assumes "card_ids k ids" "str \<noteq> []" "hd str \<noteq> CHR ''/''" "scan_int True str = Some None"
  shows "\<exists>r s'. snd_card_get_index k uninit (Some str) s = Some (r, s') \<and>
    (if \<exists>c \<ge> 0. c < SALSA_MAX_CARDS \<and> ids c = Some str
     then 0 \<le> r \<and> r < SALSA_MAX_CARDS \<and> ids r = Some str \<and> (\<forall>c. 0 \<le> c \<longrightarrow> c < r \<longrightarrow> ids c \<noteq> Some str)
     else r = - ENODEV)"
proof -
  obtain a as where str: "str = a # as" using assms(2) by (cases str) auto
  from card_id_loop_first [OF assms(1), of 0 uninit str s] obtain r s' where r: "card_id_loop k uninit str 0 s = Some (r, s')"
    "r = - ENODEV \<and> (\<forall>c. 0 \<le> c \<longrightarrow> c < SALSA_MAX_CARDS \<longrightarrow> ids c \<noteq> Some str) \<or>
     0 \<le> r \<and> r < SALSA_MAX_CARDS \<and> ids r = Some str \<and> (\<forall>c. 0 \<le> c \<longrightarrow> c < r \<longrightarrow> ids c \<noteq> Some str)" by auto
  have "snd_card_get_index k uninit (Some str) s = Some (r, s')"
    using r(1) assms(3,4) by (simp add: snd_card_get_index_def str)
  then show ?thesis using r(2) by (intro exI [of _ r] exI [of _ s']) auto
qed

text \<open>C26. A device name with the numbers of a card, a device and a subdevice is read back: \<^verbatim>\<open>hw:C,D,S\<close> gives the three numbers
  when the card can be read and the first two are below the limits.\<close>
theorem device_name_roundtrip:
  assumes "cards_readable k present" "present (int c)" "c < 32" "d < 32" "- (2 ^ 31) \<le> sd" "sd < 2 ^ 31"
  shows "\<exists>s'. snd_dev_get_device k uninit (''hw:'' @ show_nat c @ '','' @ show_nat d @ '','' @ show_int sd) True True s
    = Some (0, int c, Some (int d), Some sd, s')"
proof -
  let ?t = "show_nat d @ CHR '','' # show_int sd"
  obtain s' where i: "snd_card_get_index k uninit (Some (show_nat c @ CHR '','' # ?t)) s = Some (int c, s')"
    using card_index_number [OF assms(1,3,2), of uninit ?t s] by blast
  have c: "strchr (show_nat c @ CHR '','' # ?t) CHR '','' = Some (CHR '','' # ?t)"
    by (rule strchr_append) (simp add: show_nat_no_comma)
  have "strip_prefix (''hw:'' @ show_nat c @ CHR '','' # ?t) = Some (show_nat c @ CHR '','' # ?t)" by (rule strip_hw)
  then show ?thesis using i c scan_device_show [OF assms(5,6,4), of 0 "- 1"] assms(4)
    by (auto simp: snd_dev_get_device_def)
qed

text \<open>A card given by its identifier cannot be followed by a device number: the whole rest of the name is compared with the
  identifiers, and as no identifier has a comma the result is \<^verbatim>\<open>-ENODEV\<close>.\<close>
theorem named_card_with_device:
  assumes "card_ids k ids" "\<forall>c i. ids c = Some i \<longrightarrow> CHR '','' \<notin> set i"
    "name \<noteq> []" "hd name \<noteq> CHR ''/''" "scan_int True (name @ CHR '','' # t) = Some None"
  shows "\<exists>s'. snd_dev_get_device k uninit (''hw:'' @ name @ '','' @ t) devp subdevp s
    = Some (- ENODEV, 0, if devp then Some 0 else None, if subdevp then Some (- 1) else None, s')"
proof -
  obtain a as where str: "name @ CHR '','' # t = a # as" "a \<noteq> CHR ''/''" using assms(3,4) by (cases name) auto
  from card_id_loop_first [OF assms(1), of 0 uninit "name @ CHR '','' # t" s] obtain r s' where
    r: "card_id_loop k uninit (name @ CHR '','' # t) 0 s = Some (r, s')" "r = - ENODEV \<or> ids r = Some (name @ CHR '','' # t)" by auto
  then have "r = - ENODEV" using assms(2) [rule_format, of r "name @ CHR '','' # t"] by auto
  then have "snd_card_get_index k uninit (Some (name @ CHR '','' # t)) s = Some (- ENODEV, s')"
    using r(1) assms(5) str(2) by (simp add: snd_card_get_index_def str(1))
  moreover have "strip_prefix (''hw:'' @ name @ CHR '','' # t) = Some (name @ CHR '','' # t)" by (rule strip_hw)
  ultimately show ?thesis by (auto simp: snd_dev_get_device_def)
qed

text \<open>C29. The substream is opened only when the control device refuses the request that prefers it.  When the request is accepted
  nothing is opened and the result is minus whatever \<^verbatim>\<open>errno\<close> was before, so that with \<^verbatim>\<open>errno\<close> zero the caller takes the
  descriptor 0.\<close>
theorem open_subdev_inverted:
  assumes "- (2 ^ 31) \<le> c" "c < 2 ^ 31" "sk_open k (control_path k c) O_RDWR (sys_world s) = (ctl, w1)" "0 \<le> ctl"
    "sk_request k ctl prefer w1 = (r, w2)" "0 \<le> r" "sk_close k ctl w2 = (r', w3)" "0 \<le> r'"
  shows "snd_open_subdev k filename fmode c prefer s = Some (- sys_errno s, s\<lparr>sys_fds := sys_fds s - {ctl}, sys_world := w3\<rparr>)"
  using assms(3-8) control_name_fits [OF assms(1,2), of k]
  by (cases s) (simp add: snd_open_subdev_def sys_open_def sys_request_def sys_close_def)

section \<open>Witnesses\<close>

text \<open>A machine with the cards 0 and 2, called \<open>PCH\<close> and \<open>USB\<close>; every other device exists, and opening gives the descriptor 5.\<close>

definition two_cards :: "int \<Rightarrow> string option" where
  "two_cards c = (if c = 0 then Some ''PCH'' else if c = 2 then Some ''USB'' else None)"

definition card_of_path :: "string \<Rightarrow> int" where
  "card_of_path path = (if path = ''/dev/snd/controlC0'' then 0 else if path = ''/dev/snd/controlC2'' then 2 else - 1)"

definition plain_sys :: "int sys_kernel" where
  "plain_sys = \<lparr>sk_devpath = ''/dev/snd'',
     sk_open = (\<lambda>path flags w. if take 17 path = ''/dev/snd/controlC'' \<and> two_cards (card_of_path path) = None then (- ENOENT, w)
                               else (5, card_of_path path)),
     sk_close = (\<lambda>fd w. (0, w)),
     sk_access = (\<lambda>path w. (if two_cards (card_of_path path) = None then - ENOENT else 0, w)),
     sk_request = (\<lambda>fd req w. (0, w)), sk_version = (\<lambda>fd req w. (0, 0x20010, w)), sk_subdevice = (\<lambda>fd req w. (0, 0, w)),
     sk_card_info = (\<lambda>fd w. (0, \<lparr>ci_card = w, ci_id = (case two_cards w of Some i \<Rightarrow> i | None \<Rightarrow> []), ci_driver = [], ci_name = ''Card'',
       ci_longname = [], ci_mixername = [], ci_components = []\<rparr>, w)),
     sk_getfl = (\<lambda>fd w. (2, w)), sk_setfl = (\<lambda>fd fl w. (0, w)), sk_calloc = (\<lambda>w. (True, w))\<rparr>"

definition no_files :: "int sys" where
  "no_files = \<lparr>sys_errno = 0, sys_fds = {}, sys_world = 0\<rparr>"

definition blank_card_info :: snd_ctl_card_info where
  "blank_card_info = \<lparr>ci_card = 0, ci_id = [], ci_driver = [], ci_name = [], ci_longname = [], ci_mixername = [], ci_components = []\<rparr>"

lemma show_nat_inj: "show_nat m = show_nat n \<Longrightarrow> m = n"
  by (metis scan_show_nat_acc)

lemma show_int_digit: "0 \<le> c \<Longrightarrow> c < 10 \<Longrightarrow> show_int x = [digit_char (nat c)] \<longleftrightarrow> x = c"
proof
  assume c: "0 \<le> c" "c < 10" and e: "show_int x = [digit_char (nat c)]"
  have "show_nat (nat c) = [digit_char (nat c)]" using c by (subst show_nat.simps) simp
  moreover have "0 \<le> x" using e c not_sign_digit [of "nat c"] by (cases "x < 0") (auto simp: show_int_def)
  ultimately show "x = c" using e c show_nat_inj [of "nat x" "nat c"] by (simp add: show_int_def)
next
  assume "0 \<le> c" "c < 10" "x = c"
  then show "show_int x = [digit_char (nat c)]" by (simp add: show_int_def) (subst show_nat.simps, simp)
qed

lemma digit_char_eqs: "digit_char 0 = CHR ''0''" "digit_char 2 = CHR ''2''"
  by (simp_all add: digit_char_def char_of_eq_iff)

lemma plain_ops:
  "sk_access plain_sys path w = (if two_cards (card_of_path path) = None then - ENOENT else 0, w)"
  "sk_open plain_sys path flags w = (if take 17 path = ''/dev/snd/controlC'' \<and> two_cards (card_of_path path) = None then (- ENOENT, w)
     else (5, card_of_path path))"
  by (simp_all add: plain_sys_def)

lemma plain_path: "card_of_path (control_path plain_sys c) = (if c = 0 \<or> c = 2 then c else - 1)"
proof -
  have p: "control_path plain_sys c = ''/dev/snd/controlC'' @ show_int c" by (simp add: control_path_def plain_sys_def)
  have "show_int c = ''0'' \<longleftrightarrow> c = 0" "show_int c = ''2'' \<longleftrightarrow> c = 2"
    using show_int_digit [of 0 c] show_int_digit [of 2 c] by (simp_all add: digit_char_eqs)
  moreover from this have "show_int 2 = ''2''" using show_int_digit [of 2 2] by (simp add: digit_char_eqs)
  ultimately show ?thesis by (auto simp: p card_of_path_def)
qed

lemma two_cards_path: "two_cards (if c = 0 \<or> c = 2 then c else - 1) = two_cards c"
  by (simp add: two_cards_def)

lemma plain_readable: "cards_readable plain_sys (\<lambda>c. two_cards c \<noteq> None)"
  by (simp add: cards_readable_def plain_ops plain_path two_cards_path)

lemma plain_ids: "card_ids plain_sys two_cards"
proof -
  have o: "sk_open plain_sys (control_path plain_sys c) O_RDONLY w = (if two_cards c = None then (- ENOENT, w) else (5, c))" for c w
  proof -
    have "take 17 (control_path plain_sys c) = ''/dev/snd/controlC''" by (simp add: control_path_def plain_sys_def)
    then show ?thesis
      by (simp add: plain_ops plain_path two_cards_path) (simp add: two_cards_def)
  qed
  show ?thesis
    by (auto simp: card_ids_def o split: option.split) (simp add: plain_sys_def)
qed

theorem card_next_least_witness:
  "\<exists>s'. snd_card_next plain_sys (Some 0) no_files = Some (0, Some 2, s')"
proof -
  have "\<exists>d \<ge> 1. d < SALSA_MAX_CARDS \<and> two_cards d \<noteq> None" by (intro exI [of _ 2]) (simp add: two_cards_def)
  moreover have "two_cards r \<noteq> None \<and> 1 \<le> r \<longleftrightarrow> r = 2" for r by (simp add: two_cards_def)
  ultimately show ?thesis using card_next_least [OF plain_readable, of 0 no_files] by (simp add: Let_def) metis
qed

theorem card_index_of_id_witness:
  "\<exists>s'. snd_card_get_index plain_sys blank_card_info (Some ''USB'') no_files = Some (2, s')"
proof -
  have "scan_int True ''USB'' = Some None" by code_simp
  from card_index_of_id [OF plain_ids _ _ this, of blank_card_info no_files]
  obtain r s' where r: "snd_card_get_index plain_sys blank_card_info (Some ''USB'') no_files = Some (r, s')"
    "if \<exists>c \<ge> 0. c < SALSA_MAX_CARDS \<and> two_cards c = Some ''USB'' then two_cards r = Some ''USB'' else r = - ENODEV" by auto
  have "\<exists>c \<ge> 0. c < SALSA_MAX_CARDS \<and> two_cards c = Some ''USB''" by (intro exI [of _ 2]) (simp add: two_cards_def)
  then have "r = 2" using r(2) by (auto simp: two_cards_def split: if_splits)
  with r(1) show ?thesis by simp
qed

theorem device_name_roundtrip_witness:
  "\<exists>s'. snd_dev_get_device plain_sys blank_card_info ''hw:2,3,-1'' True True no_files = Some (0, 2, Some 3, Some (- 1), s')"
proof -
  have n: "show_nat 2 = ''2''" "show_nat 3 = ''3''" "show_int (- 1) = ''-1''" by code_simp+
  show ?thesis
    using device_name_roundtrip [OF plain_readable, of 2 3 "- 1" blank_card_info no_files] by (simp add: two_cards_def n)
qed

theorem named_card_with_device_witness:
  "\<exists>s'. snd_dev_get_device plain_sys blank_card_info ''hw:USB,0'' True True no_files = Some (- ENODEV, 0, Some 0, Some (- 1), s')"
proof -
  have s: "scan_int True (''USB'' @ '','' @ ''0'') = Some None" by code_simp
  have "\<forall>c i. two_cards c = Some i \<longrightarrow> CHR '','' \<notin> set i" by (simp add: two_cards_def)
  from named_card_with_device [OF plain_ids this, of "''USB''" "''0''" blank_card_info True True no_files] s show ?thesis by simp
qed

theorem open_subdev_inverted_witness:
  "snd_open_subdev plain_sys ''/dev/snd/pcmC0D0p'' O_RDWR 0 (PCM_PREFER_SUBDEVICE 1) no_files
    = Some (0, no_files\<lparr>sys_fds := {}, sys_world := 0\<rparr>)"
proof -
  have "sk_open plain_sys (control_path plain_sys 0) O_RDWR (sys_world no_files) = (5, 0)"
    by (simp add: plain_ops plain_path) (simp add: two_cards_def)
  from open_subdev_inverted [OF _ _ this, of "PCM_PREFER_SUBDEVICE 1" 0 0 0 0] show ?thesis
    by (simp add: plain_sys_def no_files_def)
qed

end
