(* ===== verification/Registry.thy ===== *)
theory Registry
  imports Salsa_Prelude "HOL-Library.Multiset"
begin

text \<open>
  The library keeps several collections of objects that come and go: the elements of a control handle
  on a doubly linked list, the asynchronous handlers on a singly linked list, the mixer elements in a
  growing array.  The locale \<open>registry\<close> is the contract they share: entering an object adds exactly it,
  leaving removes exactly it, and both are defined on every registry that is in order.
\<close>

locale registry =
  fixes contents :: "'s \<Rightarrow> nat list \<Rightarrow> bool"
    and admits :: "'s \<Rightarrow> nat \<Rightarrow> bool"
    and enter :: "nat \<Rightarrow> 's \<Rightarrow> 's option"
    and leave :: "nat \<Rightarrow> 's \<Rightarrow> 's option"
  assumes contents_distinct: "contents s xs \<Longrightarrow> distinct xs"
    and enters: "contents s xs \<Longrightarrow> admits s a \<Longrightarrow> a \<notin> set xs \<Longrightarrow>
      \<exists>s' ys. enter a s = Some s' \<and> contents s' ys \<and> mset ys = add_mset a (mset xs)"
    and leaves: "contents s xs \<Longrightarrow> a \<in> set xs \<Longrightarrow>
      \<exists>s' ys. leave a s = Some s' \<and> contents s' ys \<and> mset ys = mset xs - {#a#}"
begin

lemma enter_members:
  assumes "contents s xs" "admits s a" "a \<notin> set xs"
  obtains s' ys where "enter a s = Some s'" "contents s' ys" "set ys = insert a (set xs)" "length ys = Suc (length xs)"
  using enters [OF assms] by (metis mset_eq_setD set_mset_add_mset_insert set_mset_mset size_add_mset size_mset)

lemma leave_members:
  assumes "contents s xs" "a \<in> set xs"
  obtains s' ys where "leave a s = Some s'" "contents s' ys" "set ys = set xs - {a}" "Suc (length ys) = length xs"
proof -
  from leaves [OF assms] obtain s' ys where y: "leave a s = Some s'" "contents s' ys" "mset ys = mset xs - {#a#}" by blast
  have "mset ys = mset (remove1 a xs)" using y(3) by simp
  then have "set ys = set (remove1 a xs)" "length ys = length (remove1 a xs)" by (metis set_mset_mset, metis size_mset)
  with y contents_distinct [OF assms(1)] assms(2) that show thesis
    by (metis One_nat_def Suc_pred length_pos_if_in_set length_remove1 set_remove1_eq)
qed

text \<open>An object that enters and leaves again leaves the registry with the members it had.\<close>

lemma enter_leave:
  assumes "contents s xs" "admits s a" "a \<notin> set xs"
  shows "\<exists>s1 s2 ys. enter a s = Some s1 \<and> leave a s1 = Some s2 \<and> contents s2 ys \<and> mset ys = mset xs"
proof -
  from enters [OF assms] obtain s1 ys where y: "enter a s = Some s1" "contents s1 ys" "mset ys = add_mset a (mset xs)" by blast
  then have "a \<in> set ys" by (metis set_mset_mset union_single_eq_member)
  from leaves [OF y(2) this] y show ?thesis by fastforce
qed

text \<open>A whole registry can be emptied, in any order.\<close>

primrec leave_each :: "nat list \<Rightarrow> 's \<Rightarrow> 's option" where
  "leave_each [] s = Some s"
| "leave_each (a # as) s = leave a s \<bind> leave_each as"

lemma leave_all:
  assumes "contents s xs" "mset as = mset xs"
  shows "\<exists>s'. leave_each as s = Some s' \<and> contents s' []"
  using assms
proof (induction as arbitrary: s xs)
  case (Cons a as)
  have "a \<in> set xs" using Cons.prems(2) by (metis list.set_intros(1) mset_eq_setD)
  from leaves [OF Cons.prems(1) this] obtain s' ys where
    y: "leave a s = Some s'" "contents s' ys" "mset ys = mset xs - {#a#}" by blast
  have "mset as = mset ys" using y(3) Cons.prems(2) by (metis add_mset_remove_trivial mset.simps(2))
  from Cons.IH [OF y(2) this] y(1) show ?case by simp
qed simp

end

end
