(* ===== verification/Async.thy ===== *)
theory Async
  imports Registry
begin

text \<open>
  Asynchronous notification: \<^verbatim>\<open>src/src/async.c\<close> and its users in \<^verbatim>\<open>pcm.c\<close> and \<^verbatim>\<open>control.c\<close>.  The handlers of the
  process are on a singly linked list; one signal handler serves them all.

  The state has the head of the list, the heap of handlers, the cells that hold a pointer to a handler (the
  member \<^verbatim>\<open>async\<close> of a stream or a control handle) and the rest of the world.  The system calls and the
  callbacks are parameters; a system call returns its result and \<^verbatim>\<open>errno\<close>.  \<open>None\<close> is the use of a pointer to no object.
\<close>

section \<open>State\<close>

record async_handler =
  ah_fd :: int
  ah_callback :: "nat option"
  ah_private_data :: nat
  ah_rec :: nat
  ah_pointer :: "nat option"
  ah_next :: "nat option"

record 'w async =
  async_list :: "nat option"
  async_heap :: "nat \<rightharpoonup> async_handler"
  async_cells :: "nat \<Rightarrow> nat option"
  async_world :: 'w

record 'w async_os =
  os_calloc :: "'w async \<Rightarrow> nat option \<times> 'w"
  os_getfl :: "int \<Rightarrow> 'w \<Rightarrow> int \<times> int \<times> 'w"
  os_setfl :: "int \<Rightarrow> int \<Rightarrow> 'w \<Rightarrow> int \<times> int \<times> 'w"
  os_setsig :: "int \<Rightarrow> int \<Rightarrow> 'w \<Rightarrow> int \<times> int \<times> 'w"
  os_setown :: "int \<Rightarrow> 'w \<Rightarrow> int \<times> int \<times> 'w"
  os_sigaction :: "bool \<Rightarrow> 'w \<Rightarrow> int \<times> int \<times> 'w"
  os_callback :: "nat \<Rightarrow> nat \<Rightarrow> 'w async \<Rightarrow> 'w async"

abbreviation (input) O_ASYNC :: int where "O_ASYNC \<equiv> 0x2000"
abbreviation (input) SIGIO :: int where "SIGIO \<equiv> 29"

section \<open>The descriptor\<close>

text \<open>The signal of the descriptor and its owner; the second call is made when the first succeeds.\<close>

definition set_signal :: "'w async_os \<Rightarrow> int \<Rightarrow> int \<Rightarrow> int \<Rightarrow> 'w \<Rightarrow> int \<times> 'w" where
  "set_signal os fd sig flags w =
     (let (r, errno, w) = os_setsig os fd sig w;
          (r, errno, w) = (if r < 0 then (r, errno, w) else os_setown os fd w)
      in if r < 0 then (let (_, _, w) = os_setfl os fd (flags AND NOT O_ASYNC) w in (- errno, w)) else (0, w))"

definition snd_set_async :: "'w async_os \<Rightarrow> int \<Rightarrow> int \<Rightarrow> 'w \<Rightarrow> int \<times> 'w" where
  "snd_set_async os fd sig w =
     (let (flags, errno, w) = os_getfl os fd w
      in if flags < 0 then (- errno, w)
         else let flags = (if sig \<ge> 0 then flags OR O_ASYNC else flags AND NOT O_ASYNC);
                  (r, errno, w) = os_setfl os fd flags w
              in if r < 0 then (- errno, w)
                 else if sig \<ge> 0 then set_signal os fd sig flags w
                 else (0, w))"

section \<open>The signal handler\<close>

partial_function (option) handler_loop :: "'w async_os \<Rightarrow> int \<Rightarrow> nat option \<Rightarrow> 'w async \<Rightarrow> 'w async option" where
  "handler_loop os fd h s =
     (case h of
        None \<Rightarrow> Some s
      | Some a \<Rightarrow> do {
          x \<leftarrow> async_heap s a;
          let s = (if ah_fd x = fd then (case ah_callback x of Some f \<Rightarrow> os_callback os f a s | None \<Rightarrow> s) else s);
          x \<leftarrow> async_heap s a;
          handler_loop os fd (ah_next x) s })"

definition snd_async_handler :: "'w async_os \<Rightarrow> int \<Rightarrow> 'w async \<Rightarrow> 'w async option" where
  "snd_async_handler os fd s = handler_loop os fd (async_list s) s"

section \<open>Adding and removing handlers\<close>

definition set_world :: "'w \<Rightarrow> 'w async \<Rightarrow> 'w async" where
  "set_world w s = s\<lparr>async_world := w\<rparr>"

definition free_handler :: "nat \<Rightarrow> 'w async \<Rightarrow> 'w async" where
  "free_handler a s = s\<lparr>async_heap := (async_heap s)(a := None)\<rparr>"

text \<open>\<open>cell\<close> is the address that \<^verbatim>\<open>handler\<close> holds; \<^verbatim>\<open>async_list = h\<close> is the last step but one.\<close>

definition enter_handler :: "nat \<Rightarrow> 'w async \<Rightarrow> 'w async option" where
  "enter_handler a s = Some (s\<lparr>async_list := Some a\<rparr>)"

definition install_signal :: "'w async_os \<Rightarrow> int \<Rightarrow> nat \<Rightarrow> 'w async \<Rightarrow> int \<times> 'w async" where
  "install_signal os fd a s =
     (if async_list s = None then
        (case os_sigaction os True (async_world s) of (r, errno, w) \<Rightarrow>
           if r < 0 then (case snd_set_async os fd (- 1) w of (_, w) \<Rightarrow> (- errno, free_handler a (set_world w s)))
           else (0, set_world w s))
      else (0, s))"

definition snd_async_add_handler :: "'w async_os \<Rightarrow> nat \<Rightarrow> int \<Rightarrow> nat option \<Rightarrow> nat \<Rightarrow> 'w async \<Rightarrow> (int \<times> 'w async) option" where
  "snd_async_add_handler os cell fd callback private_data s =
     (case os_calloc os s of
        (None, w) \<Rightarrow> Some (- ENOMEM, set_world w s)
      | (Some a, w) \<Rightarrow>
          let h = \<lparr>ah_fd = fd, ah_callback = callback, ah_private_data = private_data, ah_rec = 0, ah_pointer = None, ah_next = async_list s\<rparr>;
              s = (set_world w s)\<lparr>async_heap := (async_heap s)(a \<mapsto> h)\<rparr>;
              (err, w) = snd_set_async os fd SIGIO (async_world s);
              s = set_world w s
          in if err < 0 then Some (err, free_handler a s)
             else let (err, s) = install_signal os fd a s
               in if err < 0 then Some (err, s)
                  else do {
                    s \<leftarrow> enter_handler a s;
                    Some (0, s\<lparr>async_cells := (async_cells s)(cell := Some a)\<rparr>) })"

text \<open>The search and the unlinking; the first result is false when the handler is not on the list.\<close>

partial_function (option) unlink_loop :: "nat \<Rightarrow> nat option \<Rightarrow> nat option \<Rightarrow> 'w async \<Rightarrow> (bool \<times> 'w async) option" where
  "unlink_loop handler h prev s =
     (case h of
        None \<Rightarrow> Some (False, s)
      | Some a \<Rightarrow>
          if a = handler then do {
            x \<leftarrow> async_heap s a;
            (case prev of
               Some p \<Rightarrow> do { y \<leftarrow> async_heap s p; Some (True, s\<lparr>async_heap := (async_heap s)(p \<mapsto> y\<lparr>ah_next := ah_next x\<rparr>)\<rparr>) }
             | None \<Rightarrow> Some (True, s\<lparr>async_list := ah_next x\<rparr>)) }
          else do { x \<leftarrow> async_heap s a; unlink_loop handler (ah_next x) h s })"

text \<open>\<^verbatim>\<open>snd_set_async(h, -1)\<close>, the reset of the owner's pointer, and \<^verbatim>\<open>free\<close>.\<close>

definition release_handler :: "'w async_os \<Rightarrow> nat \<Rightarrow> 'w async \<Rightarrow> 'w async option" where
  "release_handler os a s = do {
     x \<leftarrow> async_heap s a;
     (case snd_set_async os (ah_fd x) (- 1) (async_world s) of (_, w) \<Rightarrow>
        let s = set_world w s;
            s = (case ah_pointer x of Some c \<Rightarrow> s\<lparr>async_cells := (async_cells s)(c := None)\<rparr> | None \<Rightarrow> s)
        in Some (free_handler a s)) }"

definition leave_handler :: "'w async_os \<Rightarrow> nat \<Rightarrow> 'w async \<Rightarrow> 'w async option" where
  "leave_handler os handler s = do {
     (found, s) \<leftarrow> unlink_loop handler (async_list s) None s;
     (if found then release_handler os handler s else Some s) }"

definition snd_async_del_handler :: "'w async_os \<Rightarrow> nat \<Rightarrow> 'w async \<Rightarrow> (int \<times> 'w async) option" where
  "snd_async_del_handler os handler s = do {
     s \<leftarrow> leave_handler os handler s;
     (if async_list s = None then (case os_sigaction os False (async_world s) of (_, _, w) \<Rightarrow> Some (0, set_world w s))
      else Some (0, s)) }"

section \<open>Streams and control handles\<close>

text \<open>
  A stream or control handle with its \<^verbatim>\<open>async\<close> in \<open>cell\<close>; \<open>owner\<close> is its address.  The argument \<^verbatim>\<open>handlerp\<close> is not used.
\<close>

definition claim_handler :: "nat \<Rightarrow> nat \<Rightarrow> 'w async \<Rightarrow> 'w async option" where
  "claim_handler cell owner s = do {
     a \<leftarrow> async_cells s cell;
     x \<leftarrow> async_heap s a;
     Some (s\<lparr>async_heap := (async_heap s)(a \<mapsto> x\<lparr>ah_rec := owner, ah_pointer := Some cell\<rparr>)\<rparr>) }"

definition snd_async_add_pcm_handler :: "'w async_os \<Rightarrow> nat \<Rightarrow> nat \<Rightarrow> int \<Rightarrow> nat option \<Rightarrow> nat \<Rightarrow> 'w async \<Rightarrow> (int \<times> 'w async) option" where
  "snd_async_add_pcm_handler os cell pcm fd callback private_data s =
     (if async_cells s cell \<noteq> None then Some (- EBUSY, s)
      else do {
        (err, s) \<leftarrow> snd_async_add_handler os cell fd callback private_data s;
        (if err < 0 then Some (err, s) else do { s \<leftarrow> claim_handler cell pcm s; Some (0, s) }) })"

definition snd_async_add_ctl_handler :: "'w async_os \<Rightarrow> nat \<Rightarrow> nat \<Rightarrow> int \<Rightarrow> nat option \<Rightarrow> nat \<Rightarrow> 'w async \<Rightarrow> (int \<times> 'w async) option" where
  "snd_async_add_ctl_handler os cell ctl fd callback private_data s =
     (if async_cells s cell \<noteq> None then Some (- EBUSY, s)
      else do {
        (err, s) \<leftarrow> snd_async_add_handler os cell fd callback private_data s;
        (if err < 0 then Some (err, s) else do { s \<leftarrow> claim_handler cell ctl s; Some (0, s) }) })"

definition snd_async_handler_get_pcm :: "async_handler \<Rightarrow> nat" where
  "snd_async_handler_get_pcm h = ah_rec h"

definition snd_async_handler_get_ctl :: "async_handler \<Rightarrow> nat" where
  "snd_async_handler_get_ctl h = ah_rec h"

section \<open>The list in order\<close>

primrec chain :: "(nat \<rightharpoonup> async_handler) \<Rightarrow> nat option \<Rightarrow> nat list \<Rightarrow> bool" where
  "chain m p [] = (p = None)"
| "chain m p (a # as) = (p = Some a \<and> (case m a of None \<Rightarrow> False | Some h \<Rightarrow> chain m (ah_next h) as))"

definition handlers :: "'w async \<Rightarrow> nat list \<Rightarrow> bool" where
  "handlers s xs \<longleftrightarrow> chain (async_heap s) (async_list s) xs \<and> distinct xs"

lemma chain_alloc: "chain m p xs \<Longrightarrow> a \<in> set xs \<Longrightarrow> \<exists>h. m a = Some h"
  by (induction xs arbitrary: p) (auto split: option.splits)

lemma chain_cong: "\<forall>a \<in> set xs. map_option ah_next (m' a) = map_option ah_next (m a) \<Longrightarrow> chain m' p xs = chain m p xs"
  by (induction xs arbitrary: p) (auto split: option.splits)

lemma unlink_loop_skips:
  "chain (async_heap s) (Some b) (b # as @ a # rest) \<Longrightarrow> distinct (b # as @ a # rest) \<Longrightarrow> b \<noteq> a \<Longrightarrow>
   \<exists>p y x. last (b # as) = p \<and> async_heap s p = Some y \<and> async_heap s a = Some x \<and>
     unlink_loop a (Some b) prev s = Some (True, s\<lparr>async_heap := (async_heap s)(p \<mapsto> y\<lparr>ah_next := ah_next x\<rparr>)\<rparr>)"
proof (induction as arbitrary: b prev)
  case Nil
  then obtain y x where yx: "async_heap s b = Some y" "ah_next y = Some a" "async_heap s a = Some x"
    by (auto split: option.splits)
  with Nil.prems(3) show ?case
    by (subst unlink_loop.simps) (simp add: unlink_loop.simps [of a "Some a"])
next
  case (Cons c as)
  then obtain y where y: "async_heap s b = Some y" "ah_next y = Some c" "chain (async_heap s) (Some c) (c # as @ a # rest)"
    by (auto split: option.splits)
  have "distinct (c # as @ a # rest)" "c \<noteq> a" using Cons.prems(2) by auto
  from Cons.IH [OF y(3) this, of "Some b"] obtain p y' x where
    p: "last (c # as) = p" "async_heap s p = Some y'" "async_heap s a = Some x"
      "unlink_loop a (Some c) (Some b) s = Some (True, s\<lparr>async_heap := (async_heap s)(p \<mapsto> y'\<lparr>ah_next := ah_next x\<rparr>)\<rparr>)" by blast
  with y Cons.prems(3) show ?case by (subst unlink_loop.simps) simp
qed

lemma chain_relink:
  "chain m p (cs @ q # a # bs) \<Longrightarrow> distinct (cs @ q # a # bs) \<Longrightarrow> m q = Some y \<Longrightarrow> m a = Some x \<Longrightarrow>
   chain (m(q \<mapsto> y\<lparr>ah_next := ah_next x\<rparr>)) p (cs @ q # bs)"
proof (induction cs arbitrary: p)
  case Nil
  then have "\<forall>b \<in> set bs. map_option ah_next ((m(q \<mapsto> y\<lparr>ah_next := ah_next x\<rparr>)) b) = map_option ah_next (m b)" "chain m (ah_next x) bs" "p = Some q"
    by auto
  with chain_cong [OF this(1)] show ?case by simp
next
  case (Cons c cs)
  then show ?case by (auto split: option.splits)
qed

text \<open>A handler but for its place in the list.\<close>

definition unlinked :: "async_handler \<Rightarrow> async_handler" where
  "unlinked h = h\<lparr>ah_next := None\<rparr>"

lemma unlinked_next [simp]: "unlinked (h\<lparr>ah_next := q\<rparr>) = unlinked h"
  by (simp add: unlinked_def)

lemma unlink_removes:
  assumes "handlers s (as @ a # bs)"
  shows "\<exists>s'. unlink_loop a (async_list s) None s = Some (True, s') \<and> handlers s' (as @ bs) \<and> a \<notin> set (as @ bs) \<and>
     (\<forall>b. map_option unlinked (async_heap s' b) = map_option unlinked (async_heap s b)) \<and>
     async_cells s' = async_cells s \<and> async_world s' = async_world s"
proof -
  have c: "chain (async_heap s) (async_list s) (as @ a # bs)" "distinct (as @ a # bs)" using assms by (simp_all add: handlers_def)
  show ?thesis
  proof (cases as)
    case Nil
    with c obtain x where x: "async_list s = Some a" "async_heap s a = Some x" "chain (async_heap s) (ah_next x) bs" by (auto split: option.splits)
    with Nil c(2) show ?thesis
      by (intro exI [of _ "s\<lparr>async_list := ah_next x\<rparr>"]) (subst unlink_loop.simps, simp add: handlers_def)
  next
    case (Cons d ds)
    have b: "async_list s = Some d" "d \<noteq> a" using c Cons by auto
    from unlink_loop_skips [of s d ds a bs None] c b Cons obtain p y x where
      p: "last (d # ds) = p" "async_heap s p = Some y" "async_heap s a = Some x"
        "unlink_loop a (Some d) None s = Some (True, s\<lparr>async_heap := (async_heap s)(p \<mapsto> y\<lparr>ah_next := ah_next x\<rparr>)\<rparr>)" by auto
    have as: "as = butlast (d # ds) @ [p]" using p(1) Cons by (metis append_butlast_last_id list.distinct(1))
    have "chain (async_heap s) (async_list s) (butlast (d # ds) @ p # a # bs)" "distinct (butlast (d # ds) @ p # a # bs)"
      using c as by (metis append.assoc append_Cons append_Nil)+
    from chain_relink [OF this p(2,3)] have
      "chain ((async_heap s)(p \<mapsto> y\<lparr>ah_next := ah_next x\<rparr>)) (async_list s) (as @ bs)" using as by (metis append.assoc append_Cons append_Nil)
    with p b(1) c(2) show ?thesis
      by (intro exI [of _ "s\<lparr>async_heap := (async_heap s)(p \<mapsto> y\<lparr>ah_next := ah_next x\<rparr>)\<rparr>"]) (auto simp: handlers_def)
  qed
qed

lemma leave_removes:
  assumes "handlers s (as @ a # bs)"
  shows "\<exists>s' h. leave_handler os a s = Some s' \<and> handlers s' (as @ bs) \<and> async_heap s a = Some h \<and> async_heap s' a = None \<and>
     (\<forall>b. b \<noteq> a \<longrightarrow> map_option unlinked (async_heap s' b) = map_option unlinked (async_heap s b)) \<and>
     async_cells s' = (case ah_pointer h of None \<Rightarrow> async_cells s | Some c \<Rightarrow> (async_cells s)(c := None)) \<and>
     async_world s' = snd (snd_set_async os (ah_fd h) (- 1) (async_world s))"
proof -
  from unlink_removes [OF assms] obtain s1 where
    1: "unlink_loop a (async_list s) None s = Some (True, s1)" "handlers s1 (as @ bs)" "a \<notin> set (as @ bs)"
      "\<forall>b. map_option unlinked (async_heap s1 b) = map_option unlinked (async_heap s b)"
      "async_cells s1 = async_cells s" "async_world s1 = async_world s" by blast
  obtain h where h: "async_heap s a = Some h" using assms chain_alloc [of "async_heap s" "async_list s" "as @ a # bs" a] by (auto simp: handlers_def)
  with 1(4) obtain x where x: "async_heap s1 a = Some x" "unlinked x = unlinked h" by (metis map_option_eq_Some)
  then have f: "ah_fd x = ah_fd h" "ah_pointer x = ah_pointer h" by (metis async_handler.select_convs(1,5) async_handler.surjective async_handler.update_convs(6) unlinked_def)+
  obtain r w where w: "snd_set_async os (ah_fd h) (- 1) (async_world s) = (r, w)" by force
  define s2 where "s2 = (case ah_pointer h of Some c \<Rightarrow> (set_world w s1)\<lparr>async_cells := (async_cells (set_world w s1))(c := None)\<rparr> | None \<Rightarrow> set_world w s1)"
  have s2: "async_list s2 = async_list s1" "async_heap s2 = async_heap s1" "async_world s2 = w"
    "async_cells s2 = (case ah_pointer h of None \<Rightarrow> async_cells s | Some c \<Rightarrow> (async_cells s)(c := None))"
    using 1(5) by (simp_all add: s2_def set_world_def split: option.split)
  have "leave_handler os a s = Some (free_handler a s2)"
    using 1(1,6) x(1) f w by (simp add: leave_handler_def release_handler_def Let_def s2_def)
  moreover have "chain ((async_heap s1)(a := None)) (async_list s1) (as @ bs)"
    using 1(2,3) chain_cong [of "as @ bs" "(async_heap s1)(a := None)" "async_heap s1"] by (auto simp: handlers_def)
  then have "handlers (free_handler a s2) (as @ bs)" using 1(2) s2 by (simp add: handlers_def free_handler_def)
  ultimately show ?thesis using h w s2 1(4) by (intro exI [of _ "free_handler a s2"]) (simp add: free_handler_def)
qed

definition unentered :: "'w async \<Rightarrow> nat \<Rightarrow> bool" where
  "unentered s a = (case async_heap s a of None \<Rightarrow> False | Some h \<Rightarrow> ah_next h = async_list s)"

interpretation async: registry handlers unentered enter_handler "leave_handler os" for os
proof (unfold_locales, goal_cases)
  case (1 s xs)
  then show ?case by (simp add: handlers_def)
next
  case (2 s xs a)
  then have "handlers (s\<lparr>async_list := Some a\<rparr>) (a # xs)" by (auto simp: handlers_def unentered_def split: option.splits)
  then show ?case by (auto simp: enter_handler_def)
next
  case (3 s xs a)
  then obtain as bs where xs: "xs = as @ a # bs" by (auto simp: in_set_conv_decomp)
  from leave_removes [OF 3(1) [unfolded xs], of os] obtain s' where "leave_handler os a s = Some s'" "handlers s' (as @ bs)" by blast
  then show ?case using xs by (intro exI [of _ s'] exI [of _ "as @ bs"]) simp
qed

section \<open>Notification\<close>

text \<open>The callbacks that a signal for a descriptor runs, in order.\<close>

definition notified :: "'w async \<Rightarrow> int \<Rightarrow> nat list \<Rightarrow> (nat \<times> nat) list" where
  "notified s fd xs = concat (map (\<lambda>a. case async_heap s a of
     None \<Rightarrow> []
   | Some x \<Rightarrow> if ah_fd x = fd then (case ah_callback x of Some f \<Rightarrow> [(f, a)] | None \<Rightarrow> []) else []) xs)"

text \<open>Callbacks that do not add or delete handlers.\<close>

definition calm :: "'w async_os \<Rightarrow> bool" where
  "calm os \<longleftrightarrow> (\<forall>f a s. async_list (os_callback os f a s) = async_list s \<and> async_heap (os_callback os f a s) = async_heap s)"

lemma handler_loop_runs:
  assumes "calm os"
  shows "chain (async_heap s) p xs \<Longrightarrow>
    handler_loop os fd p s = Some (fold (\<lambda>(f, a). os_callback os f a) (notified s fd xs) s)"
proof (induction xs arbitrary: p s)
  case Nil
  then show ?case by (simp add: handler_loop.simps notified_def)
next
  case (Cons a xs)
  then obtain x where x: "p = Some a" "async_heap s a = Some x" "chain (async_heap s) (ah_next x) xs" by (auto split: option.splits)
  define s1 where "s1 = (if ah_fd x = fd then (case ah_callback x of Some f \<Rightarrow> os_callback os f a s | None \<Rightarrow> s) else s)"
  have h: "async_heap s1 = async_heap s" using assms by (simp add: s1_def calm_def split: option.split)
  have "handler_loop os fd p s = handler_loop os fd (ah_next x) s1"
    using x h by (subst handler_loop.simps) (simp add: s1_def)
  also have "\<dots> = Some (fold (\<lambda>(f, a). os_callback os f a) (notified s1 fd xs) s1)" using Cons.IH [of s1 "ah_next x"] x(3) h by simp
  also have "notified s1 fd xs = notified s fd xs" by (simp add: notified_def h)
  finally show ?case using x by (simp add: notified_def s1_def split: option.split)
qed

text \<open>System calls that fail leave an error number, and memory that is given out is not in use.\<close>

definition os_errors :: "'w async_os \<Rightarrow> bool" where
  "os_errors os \<longleftrightarrow>
     (\<forall>fd w. case os_getfl os fd w of (r, errno, w') \<Rightarrow> r < 0 \<longrightarrow> 0 < errno) \<and>
     (\<forall>fd fl w. case os_setfl os fd fl w of (r, errno, w') \<Rightarrow> r < 0 \<longrightarrow> 0 < errno) \<and>
     (\<forall>fd sig w. case os_setsig os fd sig w of (r, errno, w') \<Rightarrow> r < 0 \<longrightarrow> 0 < errno) \<and>
     (\<forall>fd w. case os_setown os fd w of (r, errno, w') \<Rightarrow> r < 0 \<longrightarrow> 0 < errno) \<and>
     (\<forall>b w. case os_sigaction os b w of (r, errno, w') \<Rightarrow> r < 0 \<longrightarrow> 0 < errno) \<and>
     (\<forall>s a w. os_calloc os s = (Some a, w) \<longrightarrow> async_heap s a = None)"

lemma os_errors_D:
  assumes "os_errors os"
  shows "os_sigaction os b w = (r, errno, w') \<Longrightarrow> r < 0 \<Longrightarrow> 0 < errno" "os_calloc os s = (Some a, w) \<Longrightarrow> async_heap s a = None"
proof -
  show "os_calloc os s = (Some a, w) \<Longrightarrow> async_heap s a = None" using assms unfolding os_errors_def by blast
  assume h: "os_sigaction os b w = (r, errno, w')" "r < 0"
  have "\<forall>b w. case os_sigaction os b w of (r, errno, w') \<Rightarrow> r < 0 \<longrightarrow> 0 < errno" using assms unfolding os_errors_def by (elim conjE)
  from this [THEN spec, THEN spec, of b w] h show "0 < errno" by simp
qed

lemma install_signal_outcome:
  assumes "os_errors os" "install_signal os fd a s = (err, s')"
  shows "err < 0 \<and> (\<exists>w. s' = free_handler a (set_world w s)) \<or> err = 0 \<and> (\<exists>w. s' = set_world w s)"
proof (cases "async_list s = None")
  case True
  obtain r errno w2 where sg: "os_sigaction os True (async_world s) = (r, errno, w2)" by (rule prod_cases3)
  obtain r3 w3 where sa: "snd_set_async os fd (- 1) w2 = (r3, w3)" by force
  show ?thesis
    using assms(2) True sg sa os_errors_D(1) [OF assms(1) sg] by (cases "r < 0") (auto simp: install_signal_def)
next
  case False
  moreover have "s = set_world (async_world s) s" by (simp add: set_world_def)
  ultimately show ?thesis using assms(2) by (auto simp: install_signal_def)
qed

lemma add_handler_outcome:
  assumes "os_errors os" "handlers s xs"
  shows "\<exists>r s'. snd_async_add_handler os cell fd callback private_data s = Some (r, s') \<and>
    (r < 0 \<and> handlers s' xs \<and> async_heap s' = async_heap s \<and> async_cells s' = async_cells s \<or>
     r = 0 \<and> (\<exists>a h. handlers s' (a # xs) \<and> async_heap s a = None \<and> async_heap s' = (async_heap s)(a \<mapsto> h) \<and> ah_fd h = fd \<and>
       ah_callback h = callback \<and> ah_pointer h = None \<and> async_cells s' = (async_cells s)(cell := Some a)))"
proof (cases "os_calloc os s")
  case (Pair q w)
  show ?thesis
  proof (cases q)
    case None
    with Pair assms(2) show ?thesis
      by (intro exI [of _ "- ENOMEM"] exI [of _ "set_world w s"]) (simp add: snd_async_add_handler_def set_world_def handlers_def)
  next
    case (Some a)
    with Pair os_errors_D(2) [OF assms(1)] have fr: "async_heap s a = None" by blast
    have na: "a \<notin> set xs" using chain_alloc fr assms(2) by (fastforce simp: handlers_def)
    define h where "h = \<lparr>ah_fd = fd, ah_callback = callback, ah_private_data = private_data, ah_rec = 0, ah_pointer = None, ah_next = async_list s\<rparr>"
    define s1 where "s1 = s\<lparr>async_heap := (async_heap s)(a \<mapsto> h)\<rparr>"
    obtain err w1 where e: "snd_set_async os fd SIGIO w = (err, w1)" by force
    obtain err2 s2 where i: "install_signal os fd a (set_world w1 s1) = (err2, s2)" by force
    have "(async_heap s)(a := None) = async_heap s" using fr by auto
    then have f: "handlers (free_handler a (set_world w' s1)) xs" "async_heap (free_handler a (set_world w' s1)) = async_heap s"
      "async_cells (free_handler a (set_world w' s1)) = async_cells s" for w'
      using assms(2) by (simp_all add: free_handler_def s1_def handlers_def set_world_def)
    have "chain ((async_heap s)(a \<mapsto> h)) (async_list s) xs"
      using assms(2) na chain_cong [of xs "(async_heap s)(a \<mapsto> h)" "async_heap s"] by (auto simp: handlers_def)
    then have lk: "handlers ((set_world w' s1)\<lparr>async_list := Some a, async_cells := c\<rparr>) (a # xs)" for w' c
      using assms(2) na by (simp add: handlers_def s1_def h_def set_world_def)
    have sw: "set_world w' (set_world w s1) = set_world w' s1" "(set_world w s)\<lparr>async_heap := (async_heap s)(a \<mapsto> h)\<rparr> = set_world w s1"
      "async_world (set_world w s) = w" for w w' by (simp_all add: set_world_def s1_def)
    have step: "snd_async_add_handler os cell fd callback private_data s =
      (if err < 0 then Some (err, free_handler a (set_world w1 s1))
       else if err2 < 0 then Some (err2, s2)
       else Some (0, s2\<lparr>async_list := Some a, async_cells := (async_cells s2)(cell := Some a)\<rparr>))"
      using Pair Some e i by (simp add: snd_async_add_handler_def Let_def h_def [symmetric] sw enter_handler_def)
    show ?thesis
    proof (cases "err < 0 \<or> err2 < 0")
      case True
      with step install_signal_outcome [OF assms(1) i] f sw(1) show ?thesis by (cases "err < 0") auto
    next
      case False
      with install_signal_outcome [OF assms(1) i] sw(1) obtain w' where s2: "s2 = set_world w' s1" by auto
      have "async_cells s2 = async_cells s" "async_heap s2 = (async_heap s)(a \<mapsto> h)" by (simp_all add: s2 set_world_def s1_def)
      with False step fr lk show ?thesis
        by (intro exI [of _ 0] exI [of _ "s2\<lparr>async_list := Some a, async_cells := (async_cells s2)(cell := Some a)\<rparr>"] conjI disjI2 refl
            exI [of _ a] exI [of _ h]) (simp_all add: s2 h_def)
    qed
  qed
qed

section \<open>Properties\<close>

text \<open>A process without handlers on a system where every call succeeds; the world is the flags of each descriptor.\<close>

definition plain_os :: "nat \<Rightarrow> (int \<Rightarrow> int) async_os" where
  "plain_os n = \<lparr>os_calloc = \<lambda>s. (find (\<lambda>a. async_heap s a = None) [0..<n], async_world s),
     os_getfl = \<lambda>fd w. (max 0 (w fd), 0, w), os_setfl = \<lambda>fd fl w. (0, 0, w(fd := fl)), os_setsig = \<lambda>fd sig w. (0, 0, w),
     os_setown = \<lambda>fd w. (0, 0, w), os_sigaction = \<lambda>b w. (0, 0, w), os_callback = \<lambda>f a s. s\<rparr>"

definition no_handlers :: "'w \<Rightarrow> 'w async" where
  "no_handlers w = \<lparr>async_list = None, async_heap = Map.empty, async_cells = (\<lambda>c. None), async_world = w\<rparr>"

lemma plain_os_errors: "os_errors (plain_os n)"
  by (auto simp: os_errors_def plain_os_def find_Some_iff)

lemma no_handlers_list: "handlers (no_handlers w) []"
  by (simp add: handlers_def no_handlers_def)

text \<open>A signal for a descriptor runs the callbacks of exactly the handlers of that descriptor, in the order of the list, and returns, as long
  as the callbacks leave the list alone.\<close>

theorem signal_runs_callbacks:
  assumes "calm os" "handlers s xs"
  shows "snd_async_handler os fd s = Some (fold (\<lambda>(f, a). os_callback os f a) (notified s fd xs) s)"
  using handler_loop_runs [OF assms(1)] assms(2) by (simp add: snd_async_handler_def handlers_def)

theorem signal_runs_callbacks_witness:
  "snd_async_handler ((plain_os 4)\<lparr>os_callback := \<lambda>f a s. s\<lparr>async_world := (async_world s)(int f := int a)\<rparr>\<rparr>) 3
     \<lparr>async_list = Some 1, async_heap = [1 \<mapsto> \<lparr>ah_fd = 3, ah_callback = Some 9, ah_private_data = 0, ah_rec = 0, ah_pointer = None, ah_next = None\<rparr>],
      async_cells = (\<lambda>c. None), async_world = (\<lambda>fd. 0)\<rparr> =
   Some \<lparr>async_list = Some 1, async_heap = [1 \<mapsto> \<lparr>ah_fd = 3, ah_callback = Some 9, ah_private_data = 0, ah_rec = 0, ah_pointer = None, ah_next = None\<rparr>],
      async_cells = (\<lambda>c. None), async_world = (\<lambda>fd. 0)(9 := 1)\<rparr>"
  by (subst signal_runs_callbacks [where xs = "[1]"]) (simp_all add: calm_def handlers_def notified_def)

text \<open>A callback that deletes its own handler makes the signal handler follow a pointer of freed memory.\<close>

lemma self_deletion_undefined:
  assumes "async_list s = Some a" "async_heap s a = Some x" "ah_fd x = fd" "ah_callback x = Some f"
    "async_heap (os_callback os f a s) a = None"
  shows "snd_async_handler os fd s = None"
  using assms by (simp add: snd_async_handler_def handler_loop.simps)

text \<open>C24. Adding the handler of a stream always returns: on any failure the list, the handlers and the stream are as before; on success the handler is
  the first of the list, belongs to the stream and to no other cell, a second one is refused with \<^verbatim>\<open>-EBUSY\<close>, and deleting it leaves the list and the
  stream as they were before.\<close>

theorem pcm_handler_lifecycle:
  assumes "os_errors os" "handlers s xs" "async_cells s cell = None"
  shows "\<exists>r s'. snd_async_add_pcm_handler os cell pcm fd callback private_data s = Some (r, s') \<and>
    (r < 0 \<and> handlers s' xs \<and> async_heap s' = async_heap s \<and> async_cells s' = async_cells s \<or>
     r = 0 \<and> (\<exists>a h. handlers s' (a # xs) \<and> async_cells s' cell = Some a \<and> async_heap s' a = Some h \<and> snd_async_handler_get_pcm h = pcm \<and> ah_fd h = fd \<and>
       snd_async_add_pcm_handler os cell pcm fd callback private_data s' = Some (- EBUSY, s') \<and>
       (\<exists>s2. snd_async_del_handler os a s' = Some (0, s2) \<and> handlers s2 xs \<and> async_heap s2 a = None \<and> async_cells s2 = async_cells s)))"
proof -
  from add_handler_outcome [OF assms(1,2), of cell fd callback private_data] obtain r s1 where
    1: "snd_async_add_handler os cell fd callback private_data s = Some (r, s1)"
      "r < 0 \<and> handlers s1 xs \<and> async_heap s1 = async_heap s \<and> async_cells s1 = async_cells s \<or>
     r = 0 \<and> (\<exists>a h. handlers s1 (a # xs) \<and> async_heap s a = None \<and> async_heap s1 = (async_heap s)(a \<mapsto> h) \<and> ah_fd h = fd \<and>
       ah_callback h = callback \<and> ah_pointer h = None \<and> async_cells s1 = (async_cells s)(cell := Some a))" by blast
  show ?thesis
  proof (cases "r < 0")
    case True
    with 1 assms(3) show ?thesis by (intro exI [of _ r] exI [of _ s1]) (auto simp: snd_async_add_pcm_handler_def)
  next
    case False
    with 1(2) obtain a h where a: "r = 0" "handlers s1 (a # xs)" "async_heap s1 = (async_heap s)(a \<mapsto> h)" "ah_fd h = fd"
      "async_cells s1 = (async_cells s)(cell := Some a)" by auto
    define h' where "h' = h\<lparr>ah_rec := pcm, ah_pointer := Some cell\<rparr>"
    define s2 where "s2 = s1\<lparr>async_heap := (async_heap s1)(a \<mapsto> h')\<rparr>"
    have add: "snd_async_add_pcm_handler os cell pcm fd callback private_data s = Some (0, s2)"
      using 1(1) a assms(3) by (simp add: snd_async_add_pcm_handler_def claim_handler_def s2_def h'_def)
    have s2: "async_cells s2 cell = Some a" "async_heap s2 a = Some h'" "async_cells s2 = async_cells s1" by (simp_all add: s2_def a)
    have "chain (async_heap s2) (async_list s1) (a # xs)"
      using a(2,3) chain_cong [of "a # xs" "async_heap s2" "async_heap s1" "async_list s1"] by (simp add: handlers_def s2_def h'_def)
    then have hs: "handlers s2 (a # xs)" using a(2) by (simp add: handlers_def s2_def)
    from leave_removes [of s2 "[]" a xs os] hs s2(2) obtain s3 where
      s3: "leave_handler os a s2 = Some s3" "handlers s3 xs" "async_heap s3 a = None" "async_cells s3 = (async_cells s2)(cell := None)"
      by (auto simp: h'_def)
    have cl: "async_cells s3 = async_cells s" using s3(4) s2(3) a(5) assms(3) by auto
    have w: "handlers (set_world w s3) xs" "async_heap (set_world w s3) a = None" "async_cells (set_world w s3) = async_cells s" for w
      using s3 cl by (simp_all add: set_world_def handlers_def)
    obtain r4 e4 w4 where "os_sigaction os False (async_world s3) = (r4, e4, w4)" by (rule prod_cases3)
    then have "snd_async_del_handler os a s2 = Some (0, if async_list s3 = None then set_world w4 s3 else s3)"
      using s3(1) by (simp add: snd_async_del_handler_def)
    then have "\<exists>t. snd_async_del_handler os a s2 = Some (0, t) \<and> handlers t xs \<and> async_heap t a = None \<and> async_cells t = async_cells s"
      using s3(2,3) cl w by auto
    moreover have "snd_async_add_pcm_handler os cell pcm fd callback private_data s2 = Some (- EBUSY, s2)"
      using s2(1) by (simp add: snd_async_add_pcm_handler_def)
    moreover have "snd_async_handler_get_pcm h' = pcm" "ah_fd h' = fd" using a(4) by (simp_all add: h'_def snd_async_handler_get_pcm_def)
    ultimately have "\<exists>a h. handlers s2 (a # xs) \<and> async_cells s2 cell = Some a \<and> async_heap s2 a = Some h \<and> snd_async_handler_get_pcm h = pcm \<and> ah_fd h = fd \<and>
       snd_async_add_pcm_handler os cell pcm fd callback private_data s2 = Some (- EBUSY, s2) \<and>
       (\<exists>t. snd_async_del_handler os a s2 = Some (0, t) \<and> handlers t xs \<and> async_heap t a = None \<and> async_cells t = async_cells s)"
      using hs s2(1,2) by (intro exI [of _ a] exI [of _ h'] conjI) assumption+
    with add show ?thesis by blast
  qed
qed

theorem pcm_handler_lifecycle_witness:
  "\<exists>r s'. snd_async_add_pcm_handler (plain_os 4) 8 100 3 (Some 9) 0 (no_handlers (\<lambda>fd :: int. (0 :: int))) = Some (r, s') \<and>
    (r < 0 \<and> handlers s' [] \<and> async_heap s' = async_heap (no_handlers (\<lambda>fd :: int. (0 :: int))) \<and> async_cells s' = async_cells (no_handlers (\<lambda>fd :: int. (0 :: int))) \<or>
     r = 0 \<and> (\<exists>a h. handlers s' [a] \<and> async_cells s' 8 = Some a \<and> async_heap s' a = Some h \<and> snd_async_handler_get_pcm h = 100 \<and> ah_fd h = 3 \<and>
       snd_async_add_pcm_handler (plain_os 4) 8 100 3 (Some 9) 0 s' = Some (- EBUSY, s') \<and>
       (\<exists>s2. snd_async_del_handler (plain_os 4) a s' = Some (0, s2) \<and> handlers s2 [] \<and> async_heap s2 a = None \<and>
          async_cells s2 = async_cells (no_handlers (\<lambda>fd :: int. (0 :: int))))))"
  by (rule pcm_handler_lifecycle [OF plain_os_errors no_handlers_list]) (simp add: no_handlers_def)

text \<open>Two handlers on one descriptor: deleting one of them turns the notification of the descriptor off although the other one is still on the
  list, so that it is never called again.\<close>

theorem shared_descriptor_silenced:
  assumes "\<forall>fd w. os_getfl os fd w = (fl w fd, 0, w) \<and> 0 \<le> fl w fd"
    "\<forall>fd flags w. 0 \<le> flags \<longrightarrow> (\<exists>w'. os_setfl os fd flags w = (0, 0, w') \<and> fl w' = (fl w)(fd := flags))"
    "handlers s xs" "a \<in> set xs" "b \<in> set xs" "a \<noteq> b" "async_heap s a = Some x" "async_heap s b = Some y" "ah_fd x = ah_fd y"
  shows "\<exists>s' ys. snd_async_del_handler os a s = Some (0, s') \<and> handlers s' ys \<and> b \<in> set ys \<and> (\<exists>y'. async_heap s' b = Some y' \<and> ah_fd y' = ah_fd y) \<and>
    fl (async_world s') (ah_fd y) AND O_ASYNC = 0"
proof -
  obtain as bs where xs: "xs = as @ a # bs" using assms(4) by (auto simp: in_set_conv_decomp)
  from leave_removes [OF assms(3) [unfolded xs], of os] assms(7) obtain s' where
    s': "leave_handler os a s = Some s'" "handlers s' (as @ bs)" "\<forall>b. b \<noteq> a \<longrightarrow> map_option unlinked (async_heap s' b) = map_option unlinked (async_heap s b)"
      "async_world s' = snd (snd_set_async os (ah_fd x) (- 1) (async_world s))" by auto
  have b: "b \<in> set (as @ bs)" using assms(5,6) xs by auto
  then have "async_list s' \<noteq> None" using s'(2) by (cases "as @ bs") (auto simp: handlers_def)
  then have d: "snd_async_del_handler os a s = Some (0, s')" using s'(1) by (auto simp: snd_async_del_handler_def)
  have "map_option unlinked (async_heap s' b) = Some (unlinked y)" using s'(3) assms(6,8) by auto
  then obtain y' where y': "async_heap s' b = Some y'" "unlinked y' = unlinked y" by auto
  then have "ah_fd y' = ah_fd y" by (metis async_handler.select_convs(1) async_handler.surjective async_handler.update_convs(6) unlinked_def)
  let ?w = "async_world s" and ?fd = "ah_fd x"
  obtain w' where w': "os_setfl os ?fd (fl ?w ?fd AND NOT O_ASYNC) ?w = (0, 0, w')" "fl w' = (fl ?w)(?fd := fl ?w ?fd AND NOT O_ASYNC)"
    using assms(1,2) by (meson and_nonnegative_int_iff)
  have "\<not> fl ?w ?fd < 0" "os_getfl os ?fd ?w = (fl ?w ?fd, 0, ?w)" using assms(1) by (simp_all add: not_less)
  then have "async_world s' = w'" using s'(4) w'(1) by (simp add: snd_set_async_def)
  then have "fl (async_world s') (ah_fd y) = fl ?w ?fd AND NOT O_ASYNC" using w'(2) assms(9) by simp
  moreover have "(fl ?w ?fd AND NOT O_ASYNC) AND O_ASYNC = 0" by (simp add: and.assoc)
  ultimately show ?thesis using d s'(2) b y'(1) \<open>ah_fd y' = ah_fd y\<close> by auto
qed

definition two_handlers :: "(int \<Rightarrow> int) async" where
  "two_handlers = \<lparr>async_list = Some 1,
     async_heap = [1 \<mapsto> \<lparr>ah_fd = 3, ah_callback = Some 9, ah_private_data = 0, ah_rec = 0, ah_pointer = None, ah_next = Some 2\<rparr>,
                   2 \<mapsto> \<lparr>ah_fd = 3, ah_callback = Some 9, ah_private_data = 7, ah_rec = 0, ah_pointer = None, ah_next = None\<rparr>],
     async_cells = (\<lambda>c. None), async_world = (\<lambda>fd. O_ASYNC)\<rparr>"

theorem shared_descriptor_silenced_witness:
  "\<exists>s' ys. snd_async_del_handler (plain_os 4) 1 two_handlers = Some (0, s') \<and> handlers s' ys \<and> 2 \<in> set ys \<and>
    (\<exists>y'. async_heap s' 2 = Some y' \<and> ah_fd y' = 3) \<and> max 0 (async_world s' 3) AND O_ASYNC = 0"
proof -
  have "\<forall>fd w. os_getfl (plain_os 4) fd w = (max 0 (w fd), 0, w) \<and> 0 \<le> max 0 (w fd)" by (simp add: plain_os_def)
  moreover have "\<exists>w'. os_setfl (plain_os 4) fd flags w = (0, 0, w') \<and> (\<lambda>fd. max 0 (w' fd)) = (\<lambda>fd. max 0 (w fd))(fd := flags)"
    if "0 \<le> flags" for fd flags w
    using that by (intro exI [of _ "w(fd := flags)"]) (auto simp: plain_os_def fun_eq_iff)
  moreover have "handlers two_handlers [1, 2]" by (simp add: handlers_def two_handlers_def)
  moreover have "async_heap two_handlers 1 = Some \<lparr>ah_fd = 3, ah_callback = Some 9, ah_private_data = 0, ah_rec = 0, ah_pointer = None, ah_next = Some 2\<rparr>"
    "async_heap two_handlers 2 = Some \<lparr>ah_fd = 3, ah_callback = Some 9, ah_private_data = 7, ah_rec = 0, ah_pointer = None, ah_next = None\<rparr>"
    by (simp_all add: two_handlers_def)
  ultimately show ?thesis
    using shared_descriptor_silenced [of "plain_os 4" "\<lambda>w fd. max 0 (w fd)" two_handlers "[1, 2]" 1 2
      "\<lparr>ah_fd = 3, ah_callback = Some 9, ah_private_data = 0, ah_rec = 0, ah_pointer = None, ah_next = Some 2\<rparr>"
      "\<lparr>ah_fd = 3, ah_callback = Some 9, ah_private_data = 7, ah_rec = 0, ah_pointer = None, ah_next = None\<rparr>"] by simp
qed

end
