(* ===== verification/Devices.thy ===== *)
theory Devices
  imports Cards Async
begin

text \<open>
  Opening and closing the devices of a card: control devices (\<^verbatim>\<open>src/src/control.c\<close>), hardware dependent devices
  (\<^verbatim>\<open>src/src/hwdep.c\<close>) and timers (\<^verbatim>\<open>src/src/timer.c\<close>), with the inline functions on their descriptors.

  The handles are records that the caller keeps; the notification handler of a control device is on the list of \<open>Async\<close>,
  whose world is the state of the descriptors.
\<close>

section \<open>Control devices\<close>

text \<open>The name of a device file in an array of \<^verbatim>\<open>sizeof(SALSA_DEVPATH) + 24\<close> characters.\<close>

definition device_file :: "'w sys_kernel \<Rightarrow> string \<Rightarrow> string" where
  "device_file k rest = snprintf_array (length (sk_devpath k) + 1 + 24) (sk_devpath k @ rest)"

record snd_ctl =
  ctl_name :: "string option"
  ctl_type :: int
  ctl_nonblock :: int
  ctl_fd :: int
  ctl_card :: int
  ctl_protocol :: int
  ctl_pollfd :: pollfd

definition new_ctl :: "int \<Rightarrow> int \<Rightarrow> int \<Rightarrow> snd_ctl" where
  "new_ctl crd fd ver = \<lparr>ctl_name = None, ctl_type = 0, ctl_nonblock = 0, ctl_fd = fd, ctl_card = crd, ctl_protocol = ver,
     ctl_pollfd = \<lparr>pfd_fd = fd, pfd_events = EV_IN OR EV_ERR OR EV_NVAL, pfd_revents = 0\<rparr>\<rparr>"

definition ctl_open_flags :: "u32 \<Rightarrow> u32" where
  "ctl_open_flags mode =
     (let fmode = (if mode AND 4 \<noteq> 0 then O_RDONLY else O_RDWR);
          fmode = (if mode AND 1 \<noteq> 0 then fmode OR O_NONBLOCK else fmode)
      in if mode AND 2 \<noteq> 0 then fmode OR ASYNC_FLAG else fmode)"

text \<open>The device file is opened, the version of its protocol is read, and the handle is allocated; a step that fails closes the file.\<close>

definition open_failed :: "'w sys_kernel \<Rightarrow> int \<Rightarrow> int \<Rightarrow> 'w sys \<Rightarrow> int \<times> 'h option \<times> 'w sys" where
  "open_failed k err fd s = (case sys_close k fd s of (_, s) \<Rightarrow> (err, None, s))"

definition open_device :: "'w sys_kernel \<Rightarrow> string \<Rightarrow> u32 \<Rightarrow> version_request \<Rightarrow> 'w sys \<Rightarrow> int \<times> (int \<times> int) option \<times> 'w sys" where
  "open_device k file flags req s =
     (let (fd, s) = sys_open k file flags s
      in if fd < 0 then (- sys_errno s, None, s)
         else let (r, ver, s) = sys_version k fd req s
           in if r < 0 then open_failed k (- sys_errno s) fd s
              else let (ok, s) = sys_calloc k s
                in if \<not> ok then open_failed k (- ENOMEM) fd s
                   else (0, Some (fd, ver), s))"

definition snd_ctl_open :: "'w sys_kernel \<Rightarrow> snd_ctl_card_info \<Rightarrow> string \<Rightarrow> u32 \<Rightarrow> 'w sys \<Rightarrow> (int \<times> snd_ctl option \<times> 'w sys) option" where
  "snd_ctl_open k uninit name mode s = do {
     (err, crd, _, _, s) \<leftarrow> snd_dev_get_device k uninit name False False s;
     (if err < 0 then Some (err, None, s)
      else let (err, h, s) = open_device k (device_file k (''/controlC'' @ show_int crd)) (ctl_open_flags mode) CTL_PVERSION s
        in Some (err, map_option (\<lambda>(fd, ver). new_ctl crd fd ver) h, s)) }"

text \<open>\<open>cell\<close> is the address of the member \<^verbatim>\<open>async\<close>.\<close>

definition snd_ctl_close :: "'w sys async_os \<Rightarrow> 'w sys_kernel \<Rightarrow> nat \<Rightarrow> snd_ctl \<Rightarrow> 'w sys async \<Rightarrow> (int \<times> 'w sys async) option" where
  "snd_ctl_close os k cell ctl a = do {
     (_, a) \<leftarrow> (case async_cells a cell of Some h \<Rightarrow> snd_async_del_handler os h a | None \<Rightarrow> Some (0, a));
     (case sys_close k (ctl_fd ctl) (async_world a) of (_, s) \<Rightarrow> Some (0, set_world s a)) }"

definition snd_ctl_set_nonblock :: "'w sys_kernel \<Rightarrow> snd_ctl \<Rightarrow> int \<Rightarrow> 'w sys \<Rightarrow> int \<times> 'w sys" where
  "snd_ctl_set_nonblock k ctl nonblock s = snd_set_nonblock k (ctl_fd ctl) nonblock s"

definition snd_ctl_name :: "snd_ctl \<Rightarrow> string option" where
  "snd_ctl_name ctl = ctl_name ctl"

definition snd_ctl_type :: "snd_ctl \<Rightarrow> int" where
  "snd_ctl_type ctl = ctl_type ctl"

definition snd_ctl_poll_descriptors_count :: "snd_ctl \<Rightarrow> int" where
  "snd_ctl_poll_descriptors_count ctl = 1"

text \<open>The first element of \<^verbatim>\<open>pfds\<close> is overwritten, also when there is no room for it.\<close>

definition snd_ctl_poll_descriptors :: "snd_ctl \<Rightarrow> pollfd list \<Rightarrow> u32 \<Rightarrow> (int \<times> pollfd list) option" where
  "snd_ctl_poll_descriptors ctl pfds space = do { pfds \<leftarrow> array_set pfds 0 (ctl_pollfd ctl); Some (1, pfds) }"

definition snd_ctl_poll_descriptors_revents :: "snd_ctl \<Rightarrow> pollfd list \<Rightarrow> u32 \<Rightarrow> (int \<times> u16) option" where
  "snd_ctl_poll_descriptors_revents ctl pfds nfds = do { p \<leftarrow> array_get pfds 0; Some (0, pfd_revents p) }"

section \<open>Hardware dependent devices\<close>

record snd_hwdep =
  hwdep_name :: "string option"
  hwdep_type :: int
  hwdep_mode :: u32
  hwdep_fd :: int
  hwdep_pollfd :: pollfd

definition access_events :: "u32 \<Rightarrow> u16" where
  "access_events mode =
     (if mode AND O_ACCMODE = O_WRONLY then EV_OUT OR EV_ERR OR EV_NVAL
      else if mode AND O_ACCMODE = O_RDONLY then EV_IN OR EV_ERR OR EV_NVAL
      else if mode AND O_ACCMODE = O_RDWR then EV_OUT OR EV_IN OR EV_ERR OR EV_NVAL
      else 0)"

definition new_hwdep :: "string option \<Rightarrow> u32 \<Rightarrow> int \<Rightarrow> snd_hwdep" where
  "new_hwdep name mode fd = \<lparr>hwdep_name = name, hwdep_type = 0, hwdep_mode = mode, hwdep_fd = fd,
     hwdep_pollfd = \<lparr>pfd_fd = fd, pfd_events = access_events mode, pfd_revents = 0\<rparr>\<rparr>"

text \<open>The name is duplicated; when there is no memory for it the handle has none.\<close>

definition snd_hwdep_open :: "'w sys_kernel \<Rightarrow> snd_ctl_card_info \<Rightarrow> string \<Rightarrow> u32 \<Rightarrow> 'w sys \<Rightarrow> (int \<times> snd_hwdep option \<times> 'w sys) option" where
  "snd_hwdep_open k uninit name mode s = do {
     (err, crd, device, _, s) \<leftarrow> snd_dev_get_device k uninit name True False s;
     device \<leftarrow> device;
     (if err < 0 then Some (err, None, s)
      else case open_device k (device_file k (''/hwC'' @ show_int crd @ ''D'' @ show_int device)) mode HWDEP_PVERSION s of
          (err, None, s) \<Rightarrow> Some (err, None, s)
        | (err, Some (fd, ver), s) \<Rightarrow>
            (case sys_calloc k s of (dup, s) \<Rightarrow> Some (0, Some (new_hwdep (if dup then Some name else None) mode fd), s))) }"

definition snd_hwdep_close :: "'w sys_kernel \<Rightarrow> snd_hwdep \<Rightarrow> 'w sys \<Rightarrow> int \<times> 'w sys" where
  "snd_hwdep_close k hwdep s = (case sys_close k (hwdep_fd hwdep) s of (_, s) \<Rightarrow> (0, s))"

definition snd_hwdep_set_nonblock :: "'w sys_kernel \<Rightarrow> snd_hwdep \<Rightarrow> int \<Rightarrow> 'w sys \<Rightarrow> int \<times> 'w sys" where
  "snd_hwdep_set_nonblock k hwdep nonblock s = snd_set_nonblock k (hwdep_fd hwdep) nonblock s"

definition snd_hwdep_poll_descriptors_count :: "snd_hwdep \<Rightarrow> int" where
  "snd_hwdep_poll_descriptors_count hwdep = 1"

definition snd_hwdep_poll_descriptors :: "snd_hwdep \<Rightarrow> pollfd list \<Rightarrow> u32 \<Rightarrow> (int \<times> pollfd list) option" where
  "snd_hwdep_poll_descriptors hwdep pfds space = do { pfds \<leftarrow> array_set pfds 0 (hwdep_pollfd hwdep); Some (1, pfds) }"

text \<open>The requested events, not the events that happened.\<close>

definition snd_hwdep_poll_descriptors_revents :: "snd_hwdep \<Rightarrow> pollfd list \<Rightarrow> u32 \<Rightarrow> (int \<times> u16) option" where
  "snd_hwdep_poll_descriptors_revents hwdep pfds nfds = do { p \<leftarrow> array_get pfds 0; Some (0, pfd_events p) }"

section \<open>Timers\<close>

record snd_timer =
  timer_name :: "string option"
  timer_type :: int
  timer_version :: int
  timer_mode :: u32
  timer_fd :: int
  timer_pollfd :: pollfd

abbreviation (input) TIMER_OPEN_NONBLOCK :: u32 where "TIMER_OPEN_NONBLOCK \<equiv> 1"
abbreviation (input) TIMER_OPEN_TREAD :: u32 where "TIMER_OPEN_TREAD \<equiv> 2"

text \<open>The numbers that \<^verbatim>\<open>sscanf\<close> reads between the literals of its format, until one does not match.\<close>

fun scan_fields :: "string list \<Rightarrow> string \<Rightarrow> int list option" where
  "scan_fields [] s = Some []"
| "scan_fields (lit # lits) s =
     (if strneq s lit (length lit) then do {
        number \<leftarrow> scan_int True (drop (length lit) s);
        (case number of None \<Rightarrow> Some [] | Some (n, rest) \<Rightarrow> do { ns \<leftarrow> scan_fields lits rest; Some (n # ns) }) }
      else Some [])"

definition timer_format :: "string list" where
  "timer_format = [''hw:CLASS='', '',SCLASS='', '',CARD='', '',DEV='', '',SUBDEV='']"

text \<open>Fields that are not read keep their defaults.\<close>

definition timer_fields :: "string \<Rightarrow> int list option option" where
  "timer_fields name =
     (let defaults = [1, 0, 0, 0, 0]
      in if name = ''hw'' then Some (Some defaults)
         else do { ns \<leftarrow> scan_fields timer_format name;
                   Some (if ns = [] then None else Some (ns @ drop (length ns) defaults)) })"

definition new_timer :: "string option \<Rightarrow> int \<Rightarrow> u32 \<Rightarrow> u32 \<Rightarrow> int \<Rightarrow> snd_timer" where
  "new_timer name ver tmode mode fd = \<lparr>timer_name = name, timer_type = 0, timer_version = ver, timer_mode = tmode, timer_fd = fd,
     timer_pollfd = \<lparr>pfd_fd = fd, pfd_events = access_events mode, pfd_revents = 0\<rparr>\<rparr>"

text \<open>The format of the events and the choice of the timer.\<close>

definition timer_select :: "'w sys_kernel \<Rightarrow> int \<Rightarrow> u32 \<Rightarrow> int list \<Rightarrow> 'w sys \<Rightarrow> int \<times> 'w sys" where
  "timer_select k fd mode v s =
     (let (r, s) = (if mode AND TIMER_OPEN_TREAD \<noteq> 0 then sys_request k fd (TIMER_TREAD 1) s else (0, s))
      in if r < 0 then (r, s) else sys_request k fd (TIMER_SELECT (v ! 0) (v ! 1) (v ! 2) (v ! 3) (v ! 4)) s)"

definition timer_setup :: "'w sys_kernel \<Rightarrow> int \<Rightarrow> u32 \<Rightarrow> int list \<Rightarrow> 'w sys \<Rightarrow> int \<times> (int \<times> int) option \<times> 'w sys" where
  "timer_setup k fd mode v s =
     (let (r, ver, s) = sys_version k fd TIMER_PVERSION s
      in if r < 0 then open_failed k (- sys_errno s) fd s
         else let (r, s) = timer_select k fd mode v s
           in if r < 0 then open_failed k (- sys_errno s) fd s
              else let (ok, s) = sys_calloc k s
                in if \<not> ok then open_failed k (- ENOMEM) fd s else (0, Some (fd, ver), s))"

definition snd_timer_open :: "'w sys_kernel \<Rightarrow> string \<Rightarrow> u32 \<Rightarrow> 'w sys \<Rightarrow> (int \<times> snd_timer option \<times> 'w sys) option" where
  "snd_timer_open k name mode s = do {
     fields \<leftarrow> timer_fields name;
     (case fields of
        None \<Rightarrow> Some (- ENODEV, None, s)
      | Some v \<Rightarrow>
          let tmode = (if mode AND TIMER_OPEN_NONBLOCK \<noteq> 0 then O_RDONLY OR O_NONBLOCK else O_RDONLY);
              (fd, s) = sys_open k (sk_devpath k @ ''/timer'') tmode s
          in if fd < 0 then Some (- sys_errno s, None, s)
             else (case timer_setup k fd mode v s of
                 (err, None, s) \<Rightarrow> Some (err, None, s)
               | (err, Some (fd, ver), s) \<Rightarrow>
                   (case sys_calloc k s of (dup, s) \<Rightarrow>
                      Some (0, Some (new_timer (if dup then Some name else None) ver tmode mode fd), s)))) }"

definition snd_timer_close :: "'w sys_kernel \<Rightarrow> snd_timer \<Rightarrow> 'w sys \<Rightarrow> int \<times> 'w sys" where
  "snd_timer_close k handle s = (case sys_close k (timer_fd handle) s of (_, s) \<Rightarrow> (0, s))"

definition snd_timer_set_nonblock :: "'w sys_kernel \<Rightarrow> snd_timer \<Rightarrow> int \<Rightarrow> 'w sys \<Rightarrow> int \<times> snd_timer \<times> 'w sys" where
  "snd_timer_set_nonblock k timer nonblock s =
     (let (err, s) = snd_set_nonblock k (timer_fd timer) nonblock s
      in if err < 0 then (err, timer, s)
         else (0, timer\<lparr>timer_mode := (if nonblock \<noteq> 0 then timer_mode timer OR TIMER_OPEN_NONBLOCK
                                       else timer_mode timer AND NOT TIMER_OPEN_NONBLOCK)\<rparr>, s))"

definition snd_timer_poll_descriptors_count :: "snd_timer \<Rightarrow> int" where
  "snd_timer_poll_descriptors_count handle = 1"

definition snd_timer_poll_descriptors :: "snd_timer \<Rightarrow> pollfd list \<Rightarrow> u32 \<Rightarrow> (int \<times> pollfd list) option" where
  "snd_timer_poll_descriptors handle pfds space = do { pfds \<leftarrow> array_set pfds 0 (timer_pollfd handle); Some (1, pfds) }"

definition snd_timer_poll_descriptors_revents :: "snd_timer \<Rightarrow> pollfd list \<Rightarrow> u32 \<Rightarrow> (int \<times> u16) option" where
  "snd_timer_poll_descriptors_revents timer pfds nfds = do { p \<leftarrow> array_get pfds 0; Some (0, pfd_events p) }"

section \<open>What the calls do to the descriptors\<close>

lemma sys_open_fds:
  assumes "sys_open k path flags s = (fd, s')"
  shows "fd < 0 \<and> sys_fds s' = sys_fds s \<and> 0 < sys_errno s' \<or> 0 \<le> fd \<and> sys_fds s' = insert fd (sys_fds s)"
  using assms by (auto simp: sys_open_def sys_result_def split: prod.splits if_splits)

lemma sys_close_fds: "sys_close k fd s = (r, s') \<Longrightarrow> sys_fds s' = sys_fds s - {fd}"
  by (auto simp: sys_close_def sys_result_def split: prod.splits if_splits)

lemma sys_request_fds: "sys_request k fd rq s = (r, s') \<Longrightarrow> sys_fds s' = sys_fds s \<and> (r < 0 \<longrightarrow> 0 < sys_errno s')"
  by (auto simp: sys_request_def sys_result_def split: prod.splits if_splits)

lemma sys_version_fds: "sys_version k fd rq s = (r, v, s') \<Longrightarrow> sys_fds s' = sys_fds s \<and> (r < 0 \<longrightarrow> 0 < sys_errno s')"
  by (auto simp: sys_version_def sys_result_def split: prod.splits if_splits)

lemma sys_card_info_fds: "sys_card_info k fd s = (r, v, s') \<Longrightarrow> sys_fds s' = sys_fds s"
  by (auto simp: sys_card_info_def sys_result_def split: prod.splits if_splits)

lemma sys_access_fds: "sys_access k path s = (r, s') \<Longrightarrow> sys_fds s' = sys_fds s"
  by (auto simp: sys_access_def sys_result_def split: prod.splits if_splits)

lemma sys_calloc_fds: "sys_calloc k s = (ok, s') \<Longrightarrow> sys_fds s' = sys_fds s"
  by (auto simp: sys_calloc_def split: prod.splits)

lemma card_load_fds: "snd_card_load k c s = Some (b, s') \<Longrightarrow> sys_fds s' = sys_fds s"
  by (cases "control_name k c"; cases "sys_access k (the (control_name k c)) s") (auto simp: snd_card_load_def dest: sys_access_fds)

lemma load_card_info_fds: "load_card_info k path info s = (err, info', s') \<Longrightarrow> sys_fds s' \<subseteq> sys_fds s"
  by (auto simp: load_card_info_def Let_def split: prod.splits if_splits dest!: sys_open_fds sys_close_fds sys_card_info_fds)

lemma card_id_loop_fds: "card_id_loop k info str c s = Some (r, s') \<Longrightarrow> sys_fds s' \<subseteq> sys_fds s"
proof (induction k info str c s arbitrary: r s' rule: card_id_loop.induct)
  case (1 k info str c s)
  show ?case
  proof (cases "c < SALSA_MAX_CARDS")
    case True
    from 1(3) obtain err info1 s1 where g: "get_card_info k c info s = Some (err, info1, s1)"
      and rest: "(if err < 0 then card_id_loop k info1 str (c + 1) s1 else if ci_id info1 = str then Some (c, s1)
                  else card_id_loop k info1 str (c + 1) s1) = Some (r, s')"
      using True by (subst (asm) card_id_loop.simps) (auto simp: bind_eq_Some_conv)
    from g have "sys_fds s1 \<subseteq> sys_fds s" by (auto simp: get_card_info_def bind_eq_Some_conv dest: load_card_info_fds)
    moreover have "sys_fds s' \<subseteq> sys_fds s1"
      using rest 1(1) [OF True g refl refl] 1(2) [OF True g refl refl] by (auto split: if_splits)
    ultimately show ?thesis by blast
  next
    case False
    with 1(3) show ?thesis by (subst (asm) card_id_loop.simps) simp
  qed
qed

lemma card_index_fds: "snd_card_get_index k uninit str s = Some (r, s') \<Longrightarrow> sys_fds s' \<subseteq> sys_fds s"
  by (auto simp: snd_card_get_index_def snd_card_load2_def Let_def bind_eq_Some_conv
      split: option.splits list.splits if_splits prod.splits dest!: load_card_info_fds card_load_fds card_id_loop_fds)

lemma get_device_fds: "snd_dev_get_device k uninit name dp sp s = Some (err, c, d, sd, s') \<Longrightarrow> sys_fds s' \<subseteq> sys_fds s"
  by (auto simp: snd_dev_get_device_def Let_def bind_eq_Some_conv
      split: option.splits if_splits prod.splits dest!: card_index_fds)

lemmas fds_rules = sys_open_fds sys_close_fds sys_request_fds sys_version_fds sys_calloc_fds get_device_fds

text \<open>
  The outcome of an open: with an error there is no handle and no descriptor more than before; otherwise the descriptor of
  the handle is open, and no other new one.
\<close>

definition clean_open :: "('h \<Rightarrow> int) \<Rightarrow> 'w sys \<Rightarrow> int \<Rightarrow> 'h option \<Rightarrow> 'w sys \<Rightarrow> bool" where
  "clean_open fd s err h s' \<longleftrightarrow>
     (case h of
        None \<Rightarrow> err < 0 \<and> sys_fds s' \<subseteq> sys_fds s
      | Some h \<Rightarrow> err = 0 \<and> 0 \<le> fd h \<and> fd h \<in> sys_fds s' \<and> sys_fds s' \<subseteq> insert (fd h) (sys_fds s))"

lemma clean_mono: "clean_open fd s1 err h s' \<Longrightarrow> sys_fds s1 \<subseteq> sys_fds s \<Longrightarrow> clean_open fd s err h s'"
  by (auto simp: clean_open_def split: option.splits)

lemma open_failed_clean:
  assumes "open_failed k err fd s1 = (e, h, s')" "sys_fds s1 = insert fd (sys_fds s)" "err < 0"
  shows "clean_open f s e h s'"
  using assms by (auto simp: open_failed_def clean_open_def split: prod.splits dest!: sys_close_fds)

lemma clean_Some: "0 \<le> fd \<Longrightarrow> sys_fds s' = insert fd (sys_fds s) \<Longrightarrow> clean_open fst s 0 (Some (fd, ver)) s'"
  by (simp add: clean_open_def)

lemma open_device_clean:
  assumes "open_device k file flags req s = (err, h, s')"
  shows "clean_open fst s err h s'"
proof -
  obtain fd s1 where o: "sys_open k file flags s = (fd, s1)" by fastforce
  obtain r ver s2 where v: "sys_version k fd req s1 = (r, ver, s2)" by (metis prod_cases3)
  obtain ok s3 where c: "sys_calloc k s2 = (ok, s3)" by fastforce
  note f = sys_open_fds [OF o] sys_version_fds [OF v] sys_calloc_fds [OF c]
  show ?thesis
  proof (cases "fd < 0")
    case True
    with assms f show ?thesis by (auto simp: open_device_def o clean_open_def)
  next
    case fd: False
    show ?thesis
    proof (cases "r < 0")
      case True
      with assms fd have "open_failed k (- sys_errno s2) fd s2 = (err, h, s')" by (simp add: open_device_def o v)
      then show ?thesis by (rule open_failed_clean) (use f fd True in auto)
    next
      case False
      with assms fd have e: "(if \<not> ok then open_failed k (- ENOMEM) fd s3 else (0, Some (fd, ver), s3)) = (err, h, s')"
        by (simp add: open_device_def o v c)
      have i: "sys_fds s3 = insert fd (sys_fds s)" using f fd by auto
      show ?thesis
      proof (cases ok)
        case True
        with e fd i clean_Some [of fd s3 s ver] show ?thesis by auto
      next
        case False
        with e show ?thesis by (auto intro: open_failed_clean [OF _ i])
      qed
    qed
  qed
qed

lemma timer_setup_clean:
  assumes "timer_setup k fd mode v s1 = (err, h, s')" "sys_fds s1 = insert fd (sys_fds s)" "0 \<le> fd"
  shows "clean_open fst s err h s' \<and> (\<forall>fd' ver. h = Some (fd', ver) \<longrightarrow> fd' = fd)"
proof -
  obtain r ver s2 where v: "sys_version k fd TIMER_PVERSION s1 = (r, ver, s2)" by (metis prod_cases3)
  obtain r' s3 where t: "timer_select k fd mode v s2 = (r', s3)" by fastforce
  obtain ok s4 where c: "sys_calloc k s3 = (ok, s4)" by fastforce
  have t': "sys_fds s3 = sys_fds s2 \<and> (r' < 0 \<longrightarrow> 0 < sys_errno s3)"
    using t by (auto simp: timer_select_def Let_def split: if_splits prod.split_asm dest!: sys_request_fds)
  note f = assms(2) sys_version_fds [OF v] t' sys_calloc_fds [OF c]
  have n: "open_failed k e fd s = (e', h', s'') \<Longrightarrow> h' = None" for e s e' s'' and h' :: "(int \<times> int) option"
    by (auto simp: open_failed_def split: prod.splits)
  consider "r < 0" "open_failed k (- sys_errno s2) fd s2 = (err, h, s')"
    | "r' < 0" "open_failed k (- sys_errno s3) fd s3 = (err, h, s')"
    | "\<not> ok" "open_failed k (- ENOMEM) fd s4 = (err, h, s')"
    | "err = 0" "h = Some (fd, ver)" "s' = s4"
    using assms(1) by (auto simp: timer_setup_def v t c split: if_splits)
  then show ?thesis
  proof cases
    case 1
    then show ?thesis using open_failed_clean [OF 1(2), of s] n [OF 1(2)] f by auto
  next
    case 2
    then show ?thesis using open_failed_clean [OF 2(2), of s] n [OF 2(2)] f by auto
  next
    case 3
    then show ?thesis using open_failed_clean [OF 3(2), of s] n [OF 3(2)] f by auto
  next
    case 4
    then show ?thesis using clean_Some [of fd s4 s ver] f assms(3) by auto
  qed
qed

lemma ctl_open_clean:
  assumes "snd_ctl_open k uninit name mode s = Some (err, h, s')"
  shows "clean_open ctl_fd s err h s'"
proof -
  obtain err1 crd d sd s1 where g: "snd_dev_get_device k uninit name False False s = Some (err1, crd, d, sd, s1)"
    using assms by (auto simp: snd_ctl_open_def bind_eq_Some_conv)
  obtain err2 h2 s2 where o: "open_device k (device_file k (''/controlC'' @ show_int crd)) (ctl_open_flags mode) CTL_PVERSION s1 = (err2, h2, s2)"
    by (metis prod_cases3)
  have "clean_open ctl_fd s1 err2 (map_option (\<lambda>(fd, ver). new_ctl crd fd ver) h2) s2"
    using open_device_clean [OF o] by (auto simp: clean_open_def new_ctl_def split: option.splits)
  then show ?thesis using assms g get_device_fds [OF g]
    by (auto simp: snd_ctl_open_def o clean_open_def simp del: append_Cons split: if_splits option.splits)
qed

lemma hwdep_open_clean:
  assumes "snd_hwdep_open k uninit name mode s = Some (err, h, s')"
  shows "clean_open hwdep_fd s err h s'"
proof -
  obtain err1 crd d sd s1 where g: "snd_dev_get_device k uninit name True False s = Some (err1, crd, Some d, sd, s1)"
    using assms by (auto simp: snd_hwdep_open_def bind_eq_Some_conv)
  obtain err2 h2 s2 where o: "open_device k (device_file k (''/hwC'' @ show_int crd @ ''D'' @ show_int d)) mode HWDEP_PVERSION s1 = (err2, h2, s2)"
    by (metis prod_cases3)
  obtain dup s3 where c: "sys_calloc k s2 = (dup, s3)" by fastforce
  note f = get_device_fds [OF g] open_device_clean [OF o] sys_calloc_fds [OF c]
  show ?thesis using assms f
    by (cases h2) (auto simp: snd_hwdep_open_def g o c clean_open_def new_hwdep_def simp del: append_Cons split: if_splits, blast+)
qed

abbreviation timer_flags :: "u32 \<Rightarrow> u32" where
  "timer_flags mode \<equiv> (if mode AND TIMER_OPEN_NONBLOCK \<noteq> 0 then O_RDONLY OR O_NONBLOCK else O_RDONLY)"

text \<open>The ways in which the open of a timer ends.\<close>

lemma timer_open_cases:
  assumes "snd_timer_open k name mode s = Some (err, h, s')"
  obtains "err = - ENODEV" "h = None" "s' = s"
  | fd where "sys_open k (sk_devpath k @ ''/timer'') (timer_flags mode) s = (fd, s')" "fd < 0" "err = - sys_errno s'" "h = None"
  | fd s1 v where "sys_open k (sk_devpath k @ ''/timer'') (timer_flags mode) s = (fd, s1)" "0 \<le> fd"
      "timer_setup k fd mode v s1 = (err, None, s')" "h = None"
  | fd s1 v e fd' ver s2 dup name' where "sys_open k (sk_devpath k @ ''/timer'') (timer_flags mode) s = (fd, s1)" "0 \<le> fd"
      "timer_setup k fd mode v s1 = (e, Some (fd', ver), s2)" "sys_calloc k s2 = (dup, s')" "err = 0"
      "h = Some (new_timer name' ver (timer_flags mode) mode fd')"
proof -
  obtain fields where v: "timer_fields name = Some fields" using assms by (auto simp: snd_timer_open_def bind_eq_Some_conv)
  show ?thesis
  proof (cases fields)
    case None
    with assms v that(1) show ?thesis by (auto simp: snd_timer_open_def)
  next
    case (Some vs)
    obtain fd s1 where o: "sys_open k (sk_devpath k @ ''/timer'') (timer_flags mode) s = (fd, s1)" by fastforce
    obtain err2 h2 s2 where t: "timer_setup k fd mode vs s1 = (err2, h2, s2)" by (metis prod_cases3)
    obtain dup s3 where c: "sys_calloc k s2 = (dup, s3)" by fastforce
    have e: "snd_timer_open k name mode s =
      (if fd < 0 then Some (- sys_errno s1, None, s1)
       else (case h2 of None \<Rightarrow> Some (err2, None, s2)
             | Some (fd, ver) \<Rightarrow> Some (0, Some (new_timer (if dup then Some name else None) ver (timer_flags mode) mode fd), s3)))"
      unfolding snd_timer_open_def Let_def by (simp add: v Some o [unfolded Let_def] t c split: option.split)
    show ?thesis
    proof (cases "fd < 0")
      case True
      with assms e that(2) [of fd] o show ?thesis by auto
    next
      case False
      with assms e that(3) [of fd s1 vs] that(4) [of fd s1 vs err2 _ _ s2 dup] o t c show ?thesis
        by (cases h2) (auto simp: not_less)
    qed
  qed
qed

lemma timer_open_clean:
  assumes "snd_timer_open k name mode s = Some (err, h, s')"
  shows "clean_open timer_fd s err h s'"
  using assms
proof (cases rule: timer_open_cases)
  case 1
  then show ?thesis by (simp add: clean_open_def)
next
  case 2
  then show ?thesis using sys_open_fds [OF 2(1)] by (auto simp: clean_open_def)
next
  case (3 fd s1 v)
  then have "sys_fds s1 = insert fd (sys_fds s)" using sys_open_fds [OF 3(1)] by auto
  from timer_setup_clean [OF 3(3) this 3(2)] show ?thesis using 3(4) by (simp add: clean_open_def)
next
  case (4 fd s1 v e fd' ver s2 dup name')
  then have "sys_fds s1 = insert fd (sys_fds s)" using sys_open_fds [OF 4(1)] by auto
  from timer_setup_clean [OF 4(3) this 4(2)] show ?thesis using 4(5,6) sys_calloc_fds [OF 4(4)]
    by (auto simp: clean_open_def new_timer_def)
qed

text \<open>The text after the number of the card changes nothing for a device that has no device number.\<close>

lemma card_index_ignores_rest:
  assumes "c < 32"
  shows "snd_card_get_index k uninit (Some (show_nat c @ CHR '','' # t)) s = snd_card_get_index k uninit (Some (show_nat c)) s"
proof -
  obtain d ds where c: "show_nat c = d # ds" by (cases "show_nat c") auto
  then have "d \<noteq> CHR ''/''" using show_nat_no_comma [of d c] by simp
  moreover have "scan_int True (d # ds @ CHR '','' # t) = Some (Some (int c, CHR '','' # t))"
    using scan_card_number [of c t] assms c by simp
  moreover have "scan_int True (d # ds) = Some (Some (int c, []))"
    using scan_int_show_nat [of "[]" c True] scan_int_zero [of "[]"] assms c by (cases "c = 0") auto
  ultimately show ?thesis by (simp add: snd_card_get_index_def c)
qed

lemma get_device_hw:
  assumes "n \<noteq> []"
  shows "snd_dev_get_device k uninit (''hw:'' @ n) True False s =
    do { (crd, s) \<leftarrow> snd_card_get_index k uninit (Some n) s; Some (if crd < 0 then (crd, 0, Some 0, None, s) else (0, crd, Some 0, None, s)) }"
proof -
  have "strip_prefix (''hw:'' @ n) = Some n" by (rule strip_hw)
  then show ?thesis using assms
    by (cases "snd_card_get_index k uninit (Some n) s") (auto simp: snd_dev_get_device_def Let_def)
qed

section \<open>Properties\<close>

text \<open>C25. Opening a control device, a hardware dependent device or a timer: whatever the system calls return, an error leaves no
  handle and no descriptor more than before, and a success opens exactly the descriptor of the handle.\<close>
theorem open_leaves_no_descriptor:
  "(snd_ctl_open k uninit name mode s = Some (err, ctl, s') \<longrightarrow> clean_open ctl_fd s err ctl s') \<and>
   (snd_hwdep_open k uninit name mode s = Some (err, hwdep, s') \<longrightarrow> clean_open hwdep_fd s err hwdep s') \<and>
   (snd_timer_open k name mode s = Some (err, timer, s') \<longrightarrow> clean_open timer_fd s err timer s')"
  by (intro conjI impI ctl_open_clean hwdep_open_clean timer_open_clean)

text \<open>A hardware dependent device is always opened with the device number 0: the parser reads the number only for a caller that
  also asks for a subdevice, so that \<^verbatim>\<open>hw:C,D\<close> opens what \<^verbatim>\<open>hw:C\<close> opens.\<close>
theorem hwdep_number_ignored:
  assumes "c < 32"
  shows "map_option (\<lambda>(err, h, s'). (err, map_option (\<lambda>h. (hwdep_mode h, hwdep_fd h, hwdep_pollfd h)) h, s'))
      (snd_hwdep_open k uninit (''hw:'' @ show_nat c @ '','' @ t) mode s)
    = map_option (\<lambda>(err, h, s'). (err, map_option (\<lambda>h. (hwdep_mode h, hwdep_fd h, hwdep_pollfd h)) h, s'))
      (snd_hwdep_open k uninit (''hw:'' @ show_nat c) mode s)"
proof -
  let ?n = "''hw:'' @ show_nat c @ CHR '','' # t" and ?m = "''hw:'' @ show_nat c"
  have "snd_dev_get_device k uninit ?n True False s = snd_dev_get_device k uninit ?m True False s"
    by (subst (1 2) get_device_hw) (simp_all add: card_index_ignores_rest [OF assms])
  then have n: "snd_dev_get_device k uninit (''hw:'' @ show_nat c @ '','' @ t) True False s = snd_dev_get_device k uninit ?m True False s"
    by simp
  show ?thesis
  proof (cases "snd_dev_get_device k uninit ?m True False s")
    case None
    then show ?thesis by (simp add: snd_hwdep_open_def n del: append_Cons)
  next
    case (Some r)
    obtain err crd d sd s1 where r: "r = (err, crd, d, sd, s1)" by (cases r)
    obtain e h s2 where o: "open_device k (device_file k (''/hwC'' @ show_int crd @ ''D'' @ show_int (the d))) mode HWDEP_PVERSION s1 = (e, h, s2)"
      by (metis prod_cases3)
    show ?thesis
      by (cases d; cases h) (use Some r o in \<open>auto simp: snd_hwdep_open_def n new_hwdep_def simp del: append_Cons split: prod.split\<close>)
  qed
qed

text \<open>A timer opened in nonblocking mode never reports that it can be read: the flags of \<^verbatim>\<open>snd_timer_open\<close> are compared with the
  access modes of \<^verbatim>\<open>open\<close>, and \<^verbatim>\<open>SND_TIMER_OPEN_NONBLOCK\<close> has the value of \<^verbatim>\<open>O_WRONLY\<close>, so that the descriptor, which is
  open for reading only, is polled for writing.\<close>
theorem timer_nonblock_polls_output:
  assumes "snd_timer_open k name TIMER_OPEN_NONBLOCK s = Some (0, Some h, s')"
  shows "pfd_events (timer_pollfd h) AND EV_IN = 0 \<and> pfd_events (timer_pollfd h) AND EV_OUT \<noteq> 0 \<and> timer_mode h AND O_ACCMODE = O_RDONLY"
proof -
  have "timer_mode h = O_NONBLOCK \<and> pfd_events (timer_pollfd h) = access_events TIMER_OPEN_NONBLOCK"
    using assms by (cases rule: timer_open_cases) (auto simp: new_timer_def)
  then show ?thesis by (simp add: access_events_def)
qed

text \<open>Closing a control device deletes its notification handler, with the list of the others kept in order, and closes its
  descriptor.\<close>
theorem ctl_close_releases:
  assumes "handlers a (as @ h # bs)" "async_cells a cell = Some h" "async_heap a h = Some x" "ah_pointer x = Some cell"
  shows "\<exists>a'. snd_ctl_close os k cell ctl a = Some (0, a') \<and> handlers a' (as @ bs) \<and> async_heap a' h = None \<and> async_cells a' cell = None \<and>
    ctl_fd ctl \<notin> sys_fds (async_world a')"
proof -
  from leave_removes [OF assms(1), of os] assms(3,4) obtain a1 where
    l: "leave_handler os h a = Some a1" "handlers a1 (as @ bs)" "async_heap a1 h = None" "async_cells a1 = (async_cells a)(cell := None)" by auto
  define a2 where "a2 = (if async_list a1 = None then set_world (snd (snd (os_sigaction os False (async_world a1)))) a1 else a1)"
  have d: "snd_async_del_handler os h a = Some (0, a2)"
    using l(1) by (auto simp: snd_async_del_handler_def a2_def split: prod.splits)
  have a2: "handlers a2 (as @ bs)" "async_heap a2 h = None" "async_cells a2 cell = None"
    using l(2-4) by (auto simp: a2_def handlers_def set_world_def)
  obtain r s where c: "sys_close k (ctl_fd ctl) (async_world a2) = (r, s)" by fastforce
  have "snd_ctl_close os k cell ctl a = Some (0, set_world s a2)" using assms(2) d c by (simp add: snd_ctl_close_def)
  then show ?thesis using a2 sys_close_fds [OF c] by (simp add: handlers_def set_world_def)
qed

lemma plain_ops2:
  "sk_version plain_sys fd req w = (0, 0x20010, w)" "sk_request plain_sys fd rq w = (0, w)" "sk_calloc plain_sys w = (True, w)"
  "sk_devpath plain_sys = ''/dev/snd''"
  by (simp_all add: plain_sys_def)

lemma plain_ctl_opens: "\<exists>s. snd_ctl_open plain_sys blank_card_info ''hw'' 0 no_files = Some (0, Some (new_ctl 0 5 0x20010), s)"
proof -
  have d: "snd_dev_get_device plain_sys blank_card_info ''hw'' False False no_files = Some (0, 0, None, None, no_files)"
    by (simp add: snd_dev_get_device_def)
  have "device_file plain_sys (''/controlC'' @ show_int 0) = ''/dev/snd/controlC0''"
    by (simp add: device_file_def snprintf_array_def plain_sys_def show_int_def show_nat_0)
  then have "\<exists>s. open_device plain_sys (device_file plain_sys (''/controlC'' @ show_int 0)) (ctl_open_flags 0) CTL_PVERSION no_files = (0, Some (5, 0x20010), s)"
    by (simp add: open_device_def sys_open_def plain_ops card_of_path_def two_cards_def sys_version_def sys_calloc_def plain_ops2 del: append_Cons)
  then obtain s where o: "open_device plain_sys (device_file plain_sys (''/controlC'' @ show_int 0)) (ctl_open_flags 0) CTL_PVERSION no_files = (0, Some (5, 0x20010), s)" ..
  show ?thesis using d o by (simp add: snd_ctl_open_def del: append_Cons)
qed

theorem open_leaves_no_descriptor_witness:
  "\<exists>ctl s'. snd_ctl_open plain_sys blank_card_info ''hw'' 0 no_files = Some (0, Some ctl, s') \<and> clean_open ctl_fd no_files 0 (Some ctl) s'"
  using plain_ctl_opens open_leaves_no_descriptor by blast

theorem hwdep_number_ignored_witness:
  "map_option (\<lambda>(err, h, s'). err) (snd_hwdep_open plain_sys blank_card_info ''hw:2,7'' O_RDWR no_files)
    = map_option (\<lambda>(err, h, s'). err) (snd_hwdep_open plain_sys blank_card_info ''hw:2'' O_RDWR no_files)"
proof -
  have n: "show_nat 2 = ''2''" by code_simp
  have e: "map_option (\<lambda>(err, h, s'). err) r = map_option fst (map_option (\<lambda>(err, h, s'). (err, map_option (\<lambda>h. (hwdep_mode h, hwdep_fd h, hwdep_pollfd h)) h, s')) r)"
    for r :: "(int \<times> snd_hwdep option \<times> int sys) option" by (cases r) auto
  show ?thesis unfolding e using hwdep_number_ignored [of 2 plain_sys blank_card_info "''7''" O_RDWR no_files] by (simp add: n)
qed

definition plain_timer :: snd_timer where
  "plain_timer = new_timer (Some ''hw'') 0x20010 O_NONBLOCK TIMER_OPEN_NONBLOCK 5"

theorem timer_nonblock_polls_output_witness:
  "pfd_events (timer_pollfd plain_timer) AND EV_IN = 0 \<and> pfd_events (timer_pollfd plain_timer) AND EV_OUT \<noteq> 0 \<and>
   timer_mode plain_timer AND O_ACCMODE = O_RDONLY"
proof -
  have "\<exists>s'. snd_timer_open plain_sys ''hw'' TIMER_OPEN_NONBLOCK no_files = Some (0, Some plain_timer, s')"
    by (simp add: snd_timer_open_def timer_fields_def sys_open_def timer_setup_def timer_select_def sys_version_def sys_request_def
        sys_calloc_def plain_timer_def Let_def plain_ops plain_ops2 card_of_path_def)
  then show ?thesis using timer_nonblock_polls_output by blast
qed

definition quiet_os :: "'w async_os" where
  "quiet_os = \<lparr>os_calloc = \<lambda>s. (None, async_world s), os_getfl = \<lambda>fd w. (0, 0, w), os_setfl = \<lambda>fd fl w. (0, 0, w),
     os_setsig = \<lambda>fd sig w. (0, 0, w), os_setown = \<lambda>fd w. (0, 0, w), os_sigaction = \<lambda>b w. (0, 0, w), os_callback = \<lambda>f a s. s\<rparr>"

definition card_handler :: async_handler where
  "card_handler = \<lparr>ah_fd = 3, ah_callback = Some 9, ah_private_data = 0, ah_rec = 0, ah_pointer = Some 8, ah_next = None\<rparr>"

definition one_handler :: "int sys async" where
  "one_handler = \<lparr>async_list = Some 1, async_heap = [1 \<mapsto> card_handler], async_cells = (\<lambda>c. None)(8 := Some 1),
     async_world = no_files\<lparr>sys_fds := {3}\<rparr>\<rparr>"

theorem ctl_close_releases_witness:
  "\<exists>a'. snd_ctl_close quiet_os plain_sys 8 (new_ctl 0 3 1) one_handler = Some (0, a') \<and>
     handlers a' [] \<and> async_heap a' 1 = None \<and> async_cells a' 8 = None \<and> 3 \<notin> sys_fds (async_world a')"
proof -
  have "handlers one_handler ([] @ 1 # [])" "async_cells one_handler 8 = Some 1" "async_heap one_handler 1 = Some card_handler"
    "ah_pointer card_handler = Some 8" by (simp_all add: handlers_def one_handler_def card_handler_def)
  from ctl_close_releases [OF this, of quiet_os plain_sys "new_ctl 0 3 1"] show ?thesis by (simp add: new_ctl_def)
qed

end
