(* ===== verification/Pcm_Open.thy ===== *)
theory Pcm_Open
  imports Pcm_Setup Devices
begin

text \<open>
  Opening and closing a PCM device: \<^verbatim>\<open>snd_pcm_open\<close>, \<^verbatim>\<open>snd_pcm_close\<close> and the pages of the pointers in \<^verbatim>\<open>src/src/pcm.c\<close>,
  and the calls of \<^verbatim>\<open>src/src/pcm_macros.h\<close> that only use the handle.

  The system calls of \<open>Cards\<close> find and open the device; \<open>po_handle fd\<close> is the kernel that the handle on \<open>fd\<close> sees.  The
  theorems show that an open that fails leaves nothing behind and that a close returns every descriptor and every mapping.
\<close>

record 'w pcm_os =
  po_sys :: "'w sys_kernel"
  po_handle :: "int \<Rightarrow> 'w sys setup_kernel"

section \<open>The handle\<close>

definition snd_pcm_set_nonblock :: "'w sys_kernel \<Rightarrow> snd_pcm \<Rightarrow> int \<Rightarrow> 'w sys \<Rightarrow> int \<times> 'w sys" where
  "snd_pcm_set_nonblock k pcm nonblock s = snd_set_nonblock k (pcm_fd pcm) nonblock s"

definition snd_pcm_abort :: "'w sys_kernel \<Rightarrow> snd_pcm \<Rightarrow> 'w sys \<Rightarrow> int \<times> 'w sys" where
  "snd_pcm_abort k pcm s = snd_pcm_set_nonblock k pcm 2 s"

definition snd_pcm_name :: "snd_pcm \<Rightarrow> string option" where
  "snd_pcm_name pcm = pcm_name pcm"

definition snd_pcm_type :: "snd_pcm \<Rightarrow> int" where
  "snd_pcm_type pcm = pcm_type pcm"

definition snd_pcm_stream :: "snd_pcm \<Rightarrow> int" where
  "snd_pcm_stream pcm = pcm_stream pcm"

definition snd_pcm_poll_descriptors_count :: "snd_pcm \<Rightarrow> int" where
  "snd_pcm_poll_descriptors_count pcm = 1"

definition snd_pcm_poll_descriptors :: "snd_pcm \<Rightarrow> pollfd list \<Rightarrow> u32 \<Rightarrow> (int \<times> pollfd list) option" where
  "snd_pcm_poll_descriptors pcm pfds space = do { pfds \<leftarrow> array_set pfds 0 (pcm_pollfd pcm); Some (1, pfds) }"

definition snd_pcm_poll_descriptors_revents :: "snd_pcm \<Rightarrow> pollfd list \<Rightarrow> u32 \<Rightarrow> (int \<times> u16) option" where
  "snd_pcm_poll_descriptors_revents pcm pfds nfds = do { p \<leftarrow> array_get pfds 0; Some (0, pfd_revents p) }"

section \<open>The pages of the pointers\<close>

abbreviation (input) STATUS_BYTES :: u64 where "STATUS_BYTES \<equiv> 56"
abbreviation (input) CONTROL_BYTES :: u64 where "CONTROL_BYTES \<equiv> 16"
abbreviation (input) SYNC_PTR_BYTES :: u64 where "SYNC_PTR_BYTES \<equiv> 136"
abbreviation (input) OFFSET_STATUS :: int where "OFFSET_STATUS \<equiv> 0x82000000"
abbreviation (input) OFFSET_CONTROL :: int where "OFFSET_CONTROL \<equiv> 0x83000000"

definition zero_sync_ptr :: snd_pcm_sync_ptr where
  "zero_sync_ptr = \<lparr>sync_flags = 0, s_status = \<lparr>state = 0, hw_ptr = 0\<rparr>, c_control = \<lparr>appl_ptr = 0, ctl_avail_min = 0\<rparr>\<rparr>"

text \<open>A driver without these pages gets a copy of the pointers that requests bring up to date.\<close>

definition no_mmap :: "'w setup_kernel \<Rightarrow> snd_pcm \<Rightarrow> 'w \<Rightarrow> int \<times> snd_pcm \<times> 'w" where
  "no_mmap k pcm w =
     (let (ok, w) = k_calloc k 1 SYNC_PTR_BYTES w
      in if \<not> ok then (- ENOMEM, pcm, w)
         else let (pcm, w) = store_control (dev k) (pcm\<lparr>sync_ptr := Some zero_sync_ptr\<rparr>) w (\<lambda>c. c\<lparr>ctl_avail_min := 1\<rparr>);
                  (_, pcm, w) = snd_pcm_sync_ptr0 (dev k) pcm w 0
              in (0, pcm, w))"

definition snd_pcm_hw_mmap_status :: "'w setup_kernel \<Rightarrow> snd_pcm \<Rightarrow> 'w \<Rightarrow> int \<times> snd_pcm \<times> 'w" where
  "snd_pcm_hw_mmap_status k pcm w =
     (if sync_ptr pcm \<noteq> None then (0, pcm, w)
      else case k_mmap k (page_align k STATUS_BYTES) OFFSET_STATUS w of
        (None, _, w) \<Rightarrow> no_mmap k (pcm\<lparr>status_addr := None\<rparr>) w
      | (Some a, _, w) \<Rightarrow>
          (case k_mmap k (page_align k CONTROL_BYTES) OFFSET_CONTROL w of
             (None, _, w) \<Rightarrow>
               (case k_munmap k a (page_align k STATUS_BYTES) w of (_, _, w) \<Rightarrow>
                  no_mmap k (pcm\<lparr>status_addr := None, control_addr := None\<rparr>) w)
           | (Some c, _, w) \<Rightarrow>
               let (pcm, w) = store_control (dev k) (pcm\<lparr>status_addr := Some a, control_addr := Some c\<rparr>) w (\<lambda>c. c\<lparr>ctl_avail_min := 1\<rparr>)
               in (0, pcm, w)))"

text \<open>The address of a null pointer is 0.\<close>

definition address_of :: "nat option \<Rightarrow> nat" where
  "address_of a = (case a of Some a \<Rightarrow> a | None \<Rightarrow> 0)"

definition snd_pcm_hw_munmap_status :: "'w setup_kernel \<Rightarrow> snd_pcm \<Rightarrow> 'w \<Rightarrow> snd_pcm \<times> 'w" where
  "snd_pcm_hw_munmap_status k pcm w =
     (let w = (if sync_ptr pcm \<noteq> None then w
               else let (_, _, w) = k_munmap k (address_of (status_addr pcm)) (page_align k STATUS_BYTES) w;
                        (_, _, w) = k_munmap k (address_of (control_addr pcm)) (page_align k CONTROL_BYTES) w
                    in w)
      in (pcm\<lparr>sync_ptr := None, status_addr := None, control_addr := None\<rparr>, w))"

section \<open>Opening\<close>

definition get_pcm_subdev :: "'w sys_kernel \<Rightarrow> int \<Rightarrow> 'w sys \<Rightarrow> int \<times> 'w sys" where
  "get_pcm_subdev k fd s = (let (r, sub, s) = sys_subdevice k fd PCM_INFO s in if r < 0 then (- 1, s) else (sub, s))"

text \<open>The descriptor, or an error, and the number of the subdevice.\<close>

definition open_pcm_fd :: "'w sys_kernel \<Rightarrow> string \<Rightarrow> u32 \<Rightarrow> int \<Rightarrow> int \<Rightarrow> 'w sys \<Rightarrow> (int \<times> int \<times> 'w sys) option" where
  "open_pcm_fd k filename fmode crd subdev s =
     (if subdev \<ge> 0 then do {
        (fd, s) \<leftarrow> snd_open_subdev k filename fmode crd (PCM_PREFER_SUBDEVICE subdev) s;
        (if fd < 0 then Some (fd, subdev, s)
         else let (sub, s) = get_pcm_subdev k fd s
           in if sub \<noteq> subdev then (case sys_close k fd s of (_, s) \<Rightarrow> Some (- EBUSY, subdev, s)) else Some (fd, subdev, s)) }
      else let (fd, s) = sys_open k filename fmode s
        in if fd < 0 then Some (- sys_errno s, subdev, s)
           else let (sub, s) = get_pcm_subdev k fd s
             in if sub < 0 then (case sys_close k fd s of (_, s) \<Rightarrow> Some (- EBUSY, sub, s)) else Some (fd, sub, s))"

text \<open>The version of the driver's protocol; a new driver is told the version of the library.\<close>

definition pcm_version :: "'w sys_kernel \<Rightarrow> int \<Rightarrow> 'w sys \<Rightarrow> int \<times> int \<times> 'w sys" where
  "pcm_version k fd s =
     (let (r, ver, s) = sys_version k fd PCM_PVERSION s
      in if r < 0 then (- sys_errno s, ver, s)
         else if 0x2000e \<le> ver
           then let (r, s) = sys_request k fd (PCM_USER_PVERSION 0x2000f) s in (if r < 0 then - sys_errno s else 0, ver, s)
         else (0, ver, s))"

definition fresh_pcm :: "int \<Rightarrow> int \<Rightarrow> int \<Rightarrow> int \<Rightarrow> int \<Rightarrow> int \<Rightarrow> snd_pcm" where
  "fresh_pcm crd strm d subdev ver fd = (new_pcm strm fd)\<lparr>pcm_card := crd, pcm_device := d, pcm_subdevice := subdev, pcm_protocol := ver,
     pcm_pollfd := \<lparr>pfd_fd = fd, pfd_events = (if strm = STREAM_PLAYBACK then EV_OUT else EV_IN) OR EV_ERR OR EV_NVAL, pfd_revents = 0\<rparr>\<rparr>"

text \<open>The handle on an open descriptor.\<close>

definition attach_pcm :: "'w pcm_os \<Rightarrow> int \<Rightarrow> int \<Rightarrow> int \<Rightarrow> int \<Rightarrow> int \<Rightarrow> 'w sys \<Rightarrow> int \<times> snd_pcm option \<times> 'w sys" where
  "attach_pcm po crd strm d subdev fd s =
     (let (err, ver, s) = pcm_version (po_sys po) fd s
      in if err < 0 then open_failed (po_sys po) err fd s
         else let (ok, s) = sys_calloc (po_sys po) s
           in if \<not> ok then open_failed (po_sys po) (- ENOMEM) fd s
              else let (err, pcm, s) = snd_pcm_hw_mmap_status (po_handle po fd) (fresh_pcm crd strm d subdev ver fd) s
                in if err < 0 then open_failed (po_sys po) err fd s else (0, Some pcm, s))"

definition snd_pcm_open :: "'w pcm_os \<Rightarrow> snd_ctl_card_info \<Rightarrow> string \<Rightarrow> int \<Rightarrow> u32 \<Rightarrow> 'w sys \<Rightarrow> (int \<times> snd_pcm option \<times> 'w sys) option" where
  "snd_pcm_open po uninit name strm mode s = do {
     (err, crd, d, sub, s) \<leftarrow> snd_dev_get_device (po_sys po) uninit name True True s;
     d \<leftarrow> d; subdev \<leftarrow> sub;
     (if err < 0 then Some (err, None, s)
      else do {
        let filename = device_file (po_sys po) (''/pcmC'' @ show_int crd @ ''D'' @ show_int d @ (if strm = STREAM_PLAYBACK then ''p'' else ''c''));
        let fmode = (if mode AND 2 \<noteq> 0 then O_RDWR OR O_NONBLOCK OR ASYNC_FLAG else O_RDWR OR O_NONBLOCK);
        (fd, subdev, s) \<leftarrow> open_pcm_fd (po_sys po) filename fmode crd subdev s;
        (if fd < 0 then Some (fd, None, s)
         else let s = (if mode AND 1 = 0 then snd (sys_setfl (po_sys po) fd (uint (fmode AND NOT O_NONBLOCK)) s) else s)
           in Some (attach_pcm po crd strm d subdev fd s)) }) }"

section \<open>Closing\<close>

text \<open>The part of the close before the handler of the stream is deleted.\<close>

definition release_pcm :: "'w setup_kernel \<Rightarrow> snd_pcm \<Rightarrow> 'w \<Rightarrow> (snd_pcm \<times> 'w) option" where
  "release_pcm k pcm w = do {
     (pcm, w) \<leftarrow> (if pcm_setup pcm
       then let (_, w) = snd_pcm_drop (dev k) w in do { (_, pcm, w) \<leftarrow> snd_pcm_hw_free k pcm w; Some (pcm, w) }
       else Some (pcm, w));
     (_, pcm, w) \<leftarrow> snd_pcm_munmap k pcm w;
     Some (snd_pcm_hw_munmap_status k pcm w) }"

definition snd_pcm_close :: "'w sys async_os \<Rightarrow> 'w pcm_os \<Rightarrow> nat \<Rightarrow> snd_pcm \<Rightarrow> 'w sys async \<Rightarrow> (int \<times> 'w sys async) option" where
  "snd_pcm_close os po cell pcm a = do {
     (pcm, s) \<leftarrow> release_pcm (po_handle po (pcm_fd pcm)) pcm (async_world a);
     let a = set_world s a;
     (_, a) \<leftarrow> (case async_cells a cell of Some h \<Rightarrow> snd_async_del_handler os h a | None \<Rightarrow> Some (0, a));
     (case sys_close (po_sys po) (pcm_fd pcm) (async_world a) of (_, s) \<Rightarrow> Some (0, set_world s a)) }"

section \<open>What the calls keep\<close>

text \<open>\<open>f\<close> is a part of the world that only the calls which open, close, map and unmap change: a system call on a handle
  keeps the descriptors of the process, and one on a device file keeps its mappings.\<close>

definition device_keeps :: "'w setup_kernel \<Rightarrow> ('w \<Rightarrow> 'a) \<Rightarrow> bool" where
  "device_keeps k f \<longleftrightarrow>
     (\<forall>r w x e w'. k_request (dev k) r w = (x, e, w') \<longrightarrow> f w' = f w) \<and>
     (\<forall>sp w x e sp' w'. k_sync_ptr (dev k) sp w = (x, e, sp', w') \<longrightarrow> f w' = f w) \<and>
     (\<forall>w c w'. k_control_page (dev k) w = (c, w') \<longrightarrow> f w' = f w) \<and>
     (\<forall>c w. f (k_control_store (dev k) c w) = f w)"

definition mapping_keeps :: "'w setup_kernel \<Rightarrow> ('w \<Rightarrow> 'a) \<Rightarrow> bool" where
  "mapping_keeps k f \<longleftrightarrow> device_keeps k f \<and>
     (\<forall>sz off w a e w'. k_mmap k sz off w = (a, e, w') \<longrightarrow> f w' = f w) \<and>
     (\<forall>a sz w x e w'. k_munmap k a sz w = (x, e, w') \<longrightarrow> f w' = f w) \<and>
     (\<forall>n sz w ok w'. k_calloc k n sz w = (ok, w') \<longrightarrow> f w' = f w)"

definition sys_keeps :: "'w sys_kernel \<Rightarrow> ('w \<Rightarrow> 'a) \<Rightarrow> bool" where
  "sys_keeps k f \<longleftrightarrow>
     (\<forall>p fl w. f (snd (sk_open k p fl w)) = f w) \<and> (\<forall>fd w. f (snd (sk_close k fd w)) = f w) \<and>
     (\<forall>p w. f (snd (sk_access k p w)) = f w) \<and> (\<forall>fd r w. f (snd (sk_request k fd r w)) = f w) \<and>
     (\<forall>fd r w. f (snd (snd (sk_version k fd r w))) = f w) \<and> (\<forall>fd r w. f (snd (snd (sk_subdevice k fd r w))) = f w) \<and>
     (\<forall>fd w. f (snd (snd (sk_card_info k fd w))) = f w) \<and> (\<forall>fd fl w. f (snd (sk_setfl k fd fl w)) = f w) \<and>
     (\<forall>w. f (snd (sk_calloc k w)) = f w)"

text \<open>\<open>mm\<close> is the table of the mappings, and all the kernels agree on it.\<close>

definition process :: "'w pcm_os \<Rightarrow> ('w \<Rightarrow> nat \<rightharpoonup> u64) \<Rightarrow> bool" where
  "process po mm \<longleftrightarrow> sys_keeps (po_sys po) mm \<and>
     (\<forall>fd. tracks_mappings (po_handle po fd) (\<lambda>s. mm (sys_world s)) \<and> device_keeps (po_handle po fd) (\<lambda>s. mm (sys_world s)) \<and>
        mapping_keeps (po_handle po fd) sys_fds)"

lemma processD:
  assumes "process po mm"
  shows "sys_keeps (po_sys po) mm" "tracks_mappings (po_handle po fd) (\<lambda>s. mm (sys_world s))"
    "device_keeps (po_handle po fd) (\<lambda>s. mm (sys_world s))" "mapping_keeps (po_handle po fd) sys_fds"
  using assms by (simp_all add: process_def)

lemma sys_result_world [simp]: "sys_world (snd (sys_result r w s)) = w"
  by (simp add: sys_result_def)

lemma sys_call_keeps:
  assumes "sys_keeps k f"
  shows "sys_open k p fl s = (r, s') \<Longrightarrow> f (sys_world s') = f (sys_world s)"
    "sys_close k fd s = (r, s') \<Longrightarrow> f (sys_world s') = f (sys_world s)"
    "sys_access k p s = (r, s') \<Longrightarrow> f (sys_world s') = f (sys_world s)"
    "sys_request k fd rq s = (r, s') \<Longrightarrow> f (sys_world s') = f (sys_world s)"
    "sys_version k fd vr s = (r, v, s') \<Longrightarrow> f (sys_world s') = f (sys_world s)"
    "sys_subdevice k fd ir s = (r, v, s') \<Longrightarrow> f (sys_world s') = f (sys_world s)"
    "sys_card_info k fd s = (r, info, s') \<Longrightarrow> f (sys_world s') = f (sys_world s)"
    "sys_setfl k fd n s = (r, s') \<Longrightarrow> f (sys_world s') = f (sys_world s)"
    "sys_calloc k s = (ok, s') \<Longrightarrow> f (sys_world s') = f (sys_world s)"
  using assms unfolding sys_keeps_def
  by (auto simp: sys_open_def sys_close_def sys_access_def sys_request_def sys_version_def sys_subdevice_def sys_card_info_def
      sys_setfl_def sys_calloc_def sys_result_def split: prod.splits if_splits) (metis snd_conv)+

lemma load_card_info_keeps:
  assumes "sys_keeps k f" "load_card_info k path info s = (err, info', s')"
  shows "f (sys_world s') = f (sys_world s)"
  using assms(2) by (auto simp: load_card_info_def Let_def split: prod.splits if_splits dest!: sys_call_keeps [OF assms(1)])

lemma card_load_keeps:
  assumes "sys_keeps k f" "snd_card_load k c s = Some (b, s')"
  shows "f (sys_world s') = f (sys_world s)"
  using assms(2) by (cases "control_name k c"; cases "sys_access k (the (control_name k c)) s")
    (auto simp: snd_card_load_def dest: sys_call_keeps [OF assms(1)])

lemma card_id_loop_keeps:
  assumes "sys_keeps k f"
  shows "card_id_loop k info str c s = Some (r, s') \<Longrightarrow> f (sys_world s') = f (sys_world s)"
proof (induction "nat (SALSA_MAX_CARDS - c)" arbitrary: info c s)
  case 0
  then show ?case by (subst (asm) card_id_loop.simps) simp
next
  case (Suc n)
  then have c: "c < SALSA_MAX_CARDS" and n: "n = nat (SALSA_MAX_CARDS - (c + 1))" by simp_all
  from Suc.prems c obtain err info1 s1 where g: "get_card_info k c info s = Some (err, info1, s1)"
    and rest: "card_id_loop k info1 str (c + 1) s1 = Some (r, s') \<or> s' = s1"
    by (subst (asm) card_id_loop.simps) (auto simp: bind_eq_Some_conv split: if_splits)
  from g have "f (sys_world s1) = f (sys_world s)"
    by (auto simp: get_card_info_def bind_eq_Some_conv dest: load_card_info_keeps [OF assms])
  with rest Suc.hyps(1) [OF n] show ?case by auto
qed

lemma get_device_keeps:
  assumes "sys_keeps k f" "snd_dev_get_device k uninit name dp sp s = Some (err, c, d, sd, s')"
  shows "f (sys_world s') = f (sys_world s)"
proof -
  have "snd_card_get_index k uninit str s = Some (r, s') \<Longrightarrow> f (sys_world s') = f (sys_world s)" for str r s'
    by (auto simp: snd_card_get_index_def snd_card_load2_def Let_def bind_eq_Some_conv
        split: option.splits list.splits if_splits prod.splits
        dest!: load_card_info_keeps [OF assms(1)] card_load_keeps [OF assms(1)] card_id_loop_keeps [OF assms(1)])
  with assms(2) show ?thesis
    by (auto simp: snd_dev_get_device_def Let_def bind_eq_Some_conv split: option.splits if_splits prod.splits)
qed

lemma store_control_keeps:
  assumes "device_keeps k f" "store_control (dev k) pcm w g = (pcm', w')"
  shows "f w' = f w \<and> same_handle pcm pcm'"
  using assms by (auto simp: store_control_def device_keeps_def same_handle_def split: option.splits prod.splits)

lemma sync_ptr_keeps:
  assumes "device_keeps k f" "snd_pcm_sync_ptr0 (dev k) pcm w fl = (r, pcm', w')"
  shows "f w' = f w \<and> same_handle pcm pcm'"
  using assms sync_ptr_same [OF assms(2)] by (auto simp: snd_pcm_sync_ptr0_def device_keeps_def split: option.splits prod.splits)

lemma request_keeps: "device_keeps k f \<Longrightarrow> request (dev k) r w = (x, w') \<Longrightarrow> f w' = f w"
  by (auto simp: request_def device_keeps_def split: prod.splits)

section \<open>The mappings of a handle\<close>

text \<open>The pages of the pointers are mapped, or the handle has a copy of them.\<close>

definition pages_mapped :: "'w setup_kernel \<Rightarrow> snd_pcm \<Rightarrow> (nat \<rightharpoonup> u64) \<Rightarrow> (nat \<rightharpoonup> u64) \<Rightarrow> bool" where
  "pages_mapped k pcm m0 m \<longleftrightarrow>
     (if sync_ptr pcm \<noteq> None then m = m0
      else \<exists>a c. status_addr pcm = Some a \<and> control_addr pcm = Some c \<and> a \<noteq> c \<and> m0 a = None \<and> m0 c = None \<and>
        m = m0(a \<mapsto> page_align k STATUS_BYTES, c \<mapsto> page_align k CONTROL_BYTES))"

text \<open>The mappings \<open>m\<close> are those in \<open>m0\<close>, the pages and the buffer.\<close>

definition handle_maps :: "'w setup_kernel \<Rightarrow> snd_pcm \<Rightarrow> (nat \<rightharpoonup> u64) \<Rightarrow> (nat \<rightharpoonup> u64) \<Rightarrow> bool" where
  "handle_maps k pcm m0 m \<longleftrightarrow>
     (\<exists>m1. pages_mapped k pcm m0 m1 \<and>
        (case mmap_channels pcm of
           None \<Rightarrow> m = m1 \<and> running_areas pcm = None
         | Some cs \<Rightarrow> table_inv k pcm m1 cs m \<and> length cs = unat (pcm_channels pcm)))"

definition same_rest :: "snd_pcm \<Rightarrow> snd_pcm \<Rightarrow> bool" where
  "same_rest pcm pcm' \<longleftrightarrow> pcm_fd pcm' = pcm_fd pcm \<and> mmap_channels pcm' = mmap_channels pcm \<and> running_areas pcm' = running_areas pcm"

lemma no_mmap_maps:
  assumes "tracks_mappings k mm" "device_keeps k mm" "mapping_keeps k f" "no_mmap k pcm w = (err, pcm', w')"
  shows "f w' = f w \<and> mm w' = mm w \<and> (err < 0 \<or> err = 0 \<and> sync_ptr pcm' \<noteq> None \<and> same_rest pcm pcm')"
proof -
  obtain ok w1 where c: "k_calloc k 1 SYNC_PTR_BYTES w = (ok, w1)" by fastforce
  have w1: "mm w1 = mm w" "f w1 = f w" using tracks_calloc [OF assms(1) c] assms(3) c by (auto simp: mapping_keeps_def)
  show ?thesis
  proof (cases ok)
    case True
    obtain pcm1 w2 where s: "store_control (dev k) (pcm\<lparr>sync_ptr := Some zero_sync_ptr\<rparr>) w1 (\<lambda>c. c\<lparr>ctl_avail_min := 1\<rparr>) = (pcm1, w2)" by fastforce
    obtain r pcm2 w3 where p: "snd_pcm_sync_ptr0 (dev k) pcm1 w2 0 = (r, pcm2, w3)" by (metis prod_cases3)
    have e: "err = 0" "pcm' = pcm2" "w' = w3" using assms(4) c True s p by (simp_all add: no_mmap_def)
    have d: "device_keeps k f" using assms(3) by (simp add: mapping_keeps_def)
    note st = store_control_keeps [OF assms(2) s] store_control_keeps [OF d s] sync_ptr_keeps [OF assms(2) p] sync_ptr_keeps [OF d p]
    obtain sp where p1: "pcm1 = pcm\<lparr>sync_ptr := Some sp\<rparr>" using s by (auto simp: store_control_def)
    then obtain sp' where "pcm2 = pcm\<lparr>sync_ptr := Some sp'\<rparr>" using p by (auto simp: snd_pcm_sync_ptr0_def split: prod.splits)
    then have "sync_ptr pcm' \<noteq> None" "same_rest pcm pcm'" using e by (simp_all add: same_rest_def)
    then show ?thesis using e st w1 by simp
  qed (use assms(4) c w1 in \<open>simp add: no_mmap_def\<close>)
qed

lemma mmap_status_maps:
  assumes "tracks_mappings k mm" "device_keeps k mm" "mapping_keeps k f" "sync_ptr pcm = None"
    and "snd_pcm_hw_mmap_status k pcm w = (err, pcm', w')"
  shows "f w' = f w \<and> (err < 0 \<and> mm w' = mm w \<or> err = 0 \<and> pages_mapped k pcm' (mm w) (mm w') \<and> same_rest pcm pcm')"
proof -
  have fk: "f w2 = f w1" if "k_mmap k sz off w1 = (a, e, w2)" for sz off w1 a e w2 using assms(3) that by (simp add: mapping_keeps_def)
  have fu: "f w2 = f w1" if "k_munmap k a sz w1 = (x, e, w2)" for a sz w1 x e w2 using assms(3) that by (simp add: mapping_keeps_def)
  obtain sa e1 w1 where m1: "k_mmap k (page_align k STATUS_BYTES) OFFSET_STATUS w = (sa, e1, w1)" by (metis prod_cases3)
  show ?thesis
  proof (cases sa)
    case None
    then have n: "no_mmap k (pcm\<lparr>status_addr := None\<rparr>) w1 = (err, pcm', w')"
      using assms(4,5) m1 by (simp add: snd_pcm_hw_mmap_status_def)
    have "mm w1 = mm w" using tracks_mmap_fail [OF assms(1)] m1 None by auto
    then show ?thesis using no_mmap_maps [OF assms(1-3) n] fk [OF m1] by (elim conjE disjE) (auto simp: pages_mapped_def same_rest_def)
  next
    case (Some a)
    obtain ca e2 w2 where m2: "k_mmap k (page_align k CONTROL_BYTES) OFFSET_CONTROL w1 = (ca, e2, w2)" by (metis prod_cases3)
    have a: "mm w a = None" "mm w1 = (mm w)(a \<mapsto> page_align k STATUS_BYTES)" using tracks_mmap_ok [OF assms(1)] m1 Some by auto
    show ?thesis
    proof (cases ca)
      case None
      obtain x e3 w3 where m3: "k_munmap k a (page_align k STATUS_BYTES) w2 = (x, e3, w3)" by (metis prod_cases3)
      have w2: "mm w2 = mm w1" using tracks_mmap_fail [OF assms(1)] m2 None by auto
      then have "mm w2 a = Some (page_align k STATUS_BYTES)" using a by simp
      from tracks_munmap [OF assms(1) this m3] have w3: "mm w3 = mm w" using w2 a by (auto simp: fun_eq_iff)
      have n: "no_mmap k (pcm\<lparr>status_addr := None, control_addr := None\<rparr>) w3 = (err, pcm', w')"
        using assms(4,5) m1 m2 m3 Some None by (simp add: snd_pcm_hw_mmap_status_def)
      show ?thesis using no_mmap_maps [OF assms(1-3) n] w3 fk [OF m1] fk [OF m2] fu [OF m3] by (elim conjE disjE) (auto simp: pages_mapped_def same_rest_def)
    next
      case c: (Some c)
      obtain pcm2 w3 where s: "store_control (dev k) (pcm\<lparr>status_addr := Some a, control_addr := Some c\<rparr>) w2 (\<lambda>c. c\<lparr>ctl_avail_min := 1\<rparr>) = (pcm2, w3)"
        by fastforce
      have e: "err = 0" "pcm' = pcm2" "w' = w3" using assms(4,5) m1 m2 Some c s by (simp_all add: snd_pcm_hw_mmap_status_def)
      have cm: "mm w1 c = None" "mm w2 = (mm w1)(c \<mapsto> page_align k CONTROL_BYTES)" using tracks_mmap_ok [OF assms(1)] m2 c by auto
      have d: "device_keeps k f" using assms(3) by (simp add: mapping_keeps_def)
      note st = store_control_keeps [OF assms(2) s] store_control_keeps [OF d s]
      have p2: "pcm2 = pcm\<lparr>status_addr := Some a, control_addr := Some c\<rparr>" using s assms(4) by (simp add: store_control_def split: prod.splits)
      have u: "same_rest pcm pcm2" using p2 by (simp add: same_rest_def)
      have "a \<noteq> c" "mm w c = None" using cm(1) a by (auto split: if_splits)
      then have "pages_mapped k pcm2 (mm w) (mm w3)" using st a cm p2 assms(4) by (simp add: pages_mapped_def)
      then show ?thesis using e st u fk [OF m1] fk [OF m2] by simp
    qed
  qed
qed

lemma munmap_status_maps:
  assumes "tracks_mappings k mm" "mapping_keeps k f" "pages_mapped k pcm m0 (mm w)" "snd_pcm_hw_munmap_status k pcm w = (pcm', w')"
  shows "mm w' = m0 \<and> f w' = f w"
proof (cases "sync_ptr pcm = None")
  case True
  then obtain a c where ac: "status_addr pcm = Some a" "control_addr pcm = Some c" "a \<noteq> c" "m0 a = None" "m0 c = None"
    "mm w = m0(a \<mapsto> page_align k STATUS_BYTES, c \<mapsto> page_align k CONTROL_BYTES)" using assms(3) by (auto simp: pages_mapped_def)
  obtain x e w1 where u1: "k_munmap k a (page_align k STATUS_BYTES) w = (x, e, w1)" by (metis prod_cases3)
  obtain y e' w2 where u2: "k_munmap k c (page_align k CONTROL_BYTES) w1 = (y, e', w2)" by (metis prod_cases3)
  have "mm w a = Some (page_align k STATUS_BYTES)" using ac by simp
  from tracks_munmap [OF assms(1) this u1] have w1: "mm w1 = (mm w)(a := None)" by simp
  then have "mm w1 c = Some (page_align k CONTROL_BYTES)" using ac by simp
  from tracks_munmap [OF assms(1) this u2] w1 have "mm w2 = m0" using ac by (auto simp: fun_eq_iff)
  moreover have "f w2 = f w" using assms(2) u1 u2 by (simp add: mapping_keeps_def)
  ultimately show ?thesis using assms(4) True ac u1 u2 by (simp add: snd_pcm_hw_munmap_status_def address_of_def)
qed (use assms(3,4) in \<open>auto simp: snd_pcm_hw_munmap_status_def pages_mapped_def\<close>)

lemma munmap_loop_keeps: "mapping_keeps k f \<Longrightarrow> munmap_loop k pcm cs w = (r, cs', w') \<Longrightarrow> f w' = f w"
  by (induction k pcm cs w arbitrary: r cs' w' rule: munmap_loop.induct)
    (force simp: mapping_keeps_def Let_def split: option.splits prod.splits if_splits)+

lemma munmap_maps:
  assumes "tracks_mappings k mm" "mapping_keeps k f" "handle_maps k pcm m0 (mm w)"
  shows "\<exists>w'. snd_pcm_munmap k pcm w = Some (0, pcm\<lparr>mmap_channels := None, running_areas := None\<rparr>, w') \<and> f w' = f w \<and>
    pages_mapped k (pcm\<lparr>mmap_channels := None, running_areas := None\<rparr>) m0 (mm w')"
proof (cases "mmap_channels pcm")
  case None
  have "pcm = pcm\<lparr>mmap_channels := None, running_areas := None\<rparr>" using None assms(3) by (cases pcm) (auto simp: handle_maps_def)
  moreover have "pages_mapped k pcm m0 (mm w)" using None assms(3) by (auto simp: handle_maps_def)
  ultimately show ?thesis using None by (auto simp: snd_pcm_munmap_def)
next
  case (Some cs)
  then obtain m1 where m: "pages_mapped k pcm m0 m1" "table_inv k pcm m1 cs (mm w)" "length cs = unat (pcm_channels pcm)"
    using assms(3) by (auto simp: handle_maps_def)
  from munmap_loop_frees [OF assms(1), of pcm cs w] m obtain cs' w' where l: "munmap_loop k pcm cs w = (None, cs', w')" "mm w' = m1"
    by (auto simp: table_inv_def)
  have "snd_pcm_munmap k pcm w = Some (0, pcm\<lparr>mmap_channels := None, running_areas := None\<rparr>, w')"
    using Some l m(3) by (simp add: snd_pcm_munmap_def)
  moreover have "pages_mapped k (pcm\<lparr>mmap_channels := None, running_areas := None\<rparr>) m0 (mm w')"
    using m(1) l(2) by (cases "sync_ptr pcm") (simp_all add: pages_mapped_def)
  ultimately show ?thesis using munmap_loop_keeps [OF assms(2) l(1)] by blast
qed

lemma hw_free_maps:
  assumes "tracks_mappings k mm" "device_keeps k mm" "mapping_keeps k f" "handle_maps k pcm m0 (mm w)"
  shows "\<exists>r pcm' w'. snd_pcm_hw_free k pcm w = Some (r, pcm', w') \<and> f w' = f w \<and> handle_maps k pcm' m0 (mm w')"
proof (cases "pcm_setup pcm")
  case True
  from munmap_maps [OF assms(1,3,4)] obtain w1 where
    u: "snd_pcm_munmap k pcm w = Some (0, pcm\<lparr>mmap_channels := None, running_areas := None\<rparr>, w1)" "f w1 = f w"
      "pages_mapped k (pcm\<lparr>mmap_channels := None, running_areas := None\<rparr>) m0 (mm w1)" by blast
  obtain x e w2 where r: "k_request (dev k) REQ_HW_FREE w1 = (x, e, w2)" by (metis prod_cases3)
  have w2: "mm w2 = mm w1" "f w2 = f w1" using assms(2,3) r by (auto simp: device_keeps_def mapping_keeps_def)
  then have "handle_maps k (pcm\<lparr>mmap_channels := None, running_areas := None\<rparr>) m0 (mm w2)"
    "handle_maps k (pcm\<lparr>mmap_channels := None, running_areas := None, pcm_setup := False\<rparr>) m0 (mm w2)"
    using u(3) by (auto simp: handle_maps_def pages_mapped_def)
  then show ?thesis using True u r w2 by (cases "x < 0") (simp_all add: snd_pcm_hw_free_def)
qed (use assms(4) in \<open>simp add: snd_pcm_hw_free_def\<close>)

lemma release_maps:
  assumes "tracks_mappings k mm" "device_keeps k mm" "mapping_keeps k f" "handle_maps k pcm m0 (mm w)"
  shows "\<exists>pcm' w'. release_pcm k pcm w = Some (pcm', w') \<and> f w' = f w \<and> mm w' = m0"
proof -
  have "\<exists>pcm1 w1. (if pcm_setup pcm then let (_, w) = snd_pcm_drop (dev k) w in do { (_, pcm, w) \<leftarrow> snd_pcm_hw_free k pcm w; Some (pcm, w) }
      else Some (pcm, w)) = Some (pcm1, w1) \<and> f w1 = f w \<and> handle_maps k pcm1 m0 (mm w1)"
  proof (cases "pcm_setup pcm")
    case True
    obtain x w1 where d: "snd_pcm_drop (dev k) w = (x, w1)" by fastforce
    have "device_keeps k f" using assms(3) by (simp add: mapping_keeps_def)
    then have w1: "mm w1 = mm w" "f w1 = f w" using request_keeps [OF assms(2)] request_keeps [of k f] d by (auto simp: snd_pcm_drop_def)
    from hw_free_maps [OF assms(1-3), of pcm m0 w1] assms(4) w1(1) obtain r pcm2 w2 where
      "snd_pcm_hw_free k pcm w1 = Some (r, pcm2, w2)" "f w2 = f w1" "handle_maps k pcm2 m0 (mm w2)" by auto
    then show ?thesis using True d w1 by simp
  qed (use assms(4) in simp)
  then obtain pcm1 w1 where s: "(if pcm_setup pcm then let (_, w) = snd_pcm_drop (dev k) w in do { (_, pcm, w) \<leftarrow> snd_pcm_hw_free k pcm w; Some (pcm, w) }
      else Some (pcm, w)) = Some (pcm1, w1)" "f w1 = f w" "handle_maps k pcm1 m0 (mm w1)" by blast
  from munmap_maps [OF assms(1,3) s(3)] obtain w2 where
    u: "snd_pcm_munmap k pcm1 w1 = Some (0, pcm1\<lparr>mmap_channels := None, running_areas := None\<rparr>, w2)" "f w2 = f w1"
      "pages_mapped k (pcm1\<lparr>mmap_channels := None, running_areas := None\<rparr>) m0 (mm w2)" by blast
  obtain pcm3 w3 where v: "snd_pcm_hw_munmap_status k (pcm1\<lparr>mmap_channels := None, running_areas := None\<rparr>) w2 = (pcm3, w3)" by fastforce
  have "release_pcm k pcm w = Some (pcm3, w3)" unfolding release_pcm_def s(1) by (simp add: u(1) v)
  with munmap_status_maps [OF assms(1,3) u(3) v] u(2) s(2) show ?thesis by auto
qed

text \<open>Mapping the buffer of a handle keeps the invariant.\<close>

lemma mmap_maps:
  assumes "tracks_mappings k mm" "handle_maps k pcm m0 (mm w)" "mmap_channels pcm = None" "snd_pcm_mmap k pcm w = Some (r, pcm', w')"
  shows "handle_maps k pcm' m0 (mm w')"
proof -
  have pages: "pages_mapped k pcm m0 (mm w)" and "running_areas pcm = None" using assms(2,3) by (auto simp: handle_maps_def)
  note inv = mmap_inv [OF assms(1,3) this(2) assms(4)]
  show ?thesis
  proof (cases "mmap_channels pcm'")
    case None
    then show ?thesis using inv assms(2,3) by (simp add: handle_maps_def)
  next
    case (Some cs)
    with inv obtain areas where t: "table_inv k pcm (mm w) cs (mm w')" "length cs = unat (pcm_channels pcm)"
      and p: "pcm' = pcm\<lparr>mmap_channels := Some cs, running_areas := Some areas\<rparr>" by auto
    have "chan_bits pcm' = chan_bits pcm" by (rule backed_handle) (simp_all add: p)
    then have "table_inv k pcm' (mm w) cs (mm w')" using t(1) by (simp add: table_inv_def backed_def gbits_def)
    moreover have "pages_mapped k pcm' m0 (mm w)" using pages by (auto simp: p pages_mapped_def)
    ultimately show ?thesis using Some t(2) p by (auto simp: handle_maps_def)
  qed
qed

section \<open>The descriptors\<close>

lemma sys_subdevice_fds: "sys_subdevice k fd rq s = (r, v, s') \<Longrightarrow> sys_fds s' = sys_fds s"
  by (auto simp: sys_subdevice_def sys_result_def split: prod.splits if_splits)

lemma sys_setfl_fds: "sys_setfl k fd fl s = (r, s') \<Longrightarrow> sys_fds s' = sys_fds s"
  by (auto simp: sys_setfl_def sys_result_def split: prod.splits if_splits)

definition opened :: "('w \<Rightarrow> nat \<rightharpoonup> u64) \<Rightarrow> int \<Rightarrow> 'w sys \<Rightarrow> 'w sys \<Rightarrow> bool" where
  "opened mm fd s s' \<longleftrightarrow> sys_fds s' \<subseteq> (if fd < 0 then sys_fds s else insert fd (sys_fds s)) \<and> mm (sys_world s') = mm (sys_world s)"

lemma open_subdev_opened:
  assumes "sys_keeps k mm" "snd_open_subdev k path fmode crd rq s = Some (fd, s')"
  shows "opened mm fd s s'"
proof -
  obtain control where c: "control_name k crd = Some control" using assms(2) by (auto simp: snd_open_subdev_def bind_eq_Some_conv)
  obtain ctl s1 where o: "sys_open k control O_RDWR s = (ctl, s1)" by fastforce
  note keep = sys_call_keeps [OF assms(1)]
  show ?thesis
  proof (cases "ctl < 0")
    case True
    then show ?thesis using assms(2) c o sys_open_fds [OF o] keep(1) [OF o] by (auto simp: snd_open_subdev_def opened_def)
  next
    case False
    obtain r s2 where q: "sys_request k ctl rq s1 = (r, s2)" by fastforce
    obtain f s3 where f: "(if r \<ge> 0 then (- 1, s2) else sys_open k path fmode s2) = (f, s3)" by fastforce
    obtain x s4 where cl: "sys_close k ctl s3 = (x, s4)" by fastforce
    have e: "fd = (if f < 0 then - sys_errno s4 else f)" "s' = s4"
      using assms(2) c o False q f cl by (auto simp: snd_open_subdev_def split: if_splits)
    have f': "(f < 0 \<and> sys_fds s3 = sys_fds s2 \<or> 0 \<le> f \<and> sys_fds s3 = insert f (sys_fds s2)) \<and> mm (sys_world s3) = mm (sys_world s2)"
      using f sys_open_fds [of k path fmode s2] keep(1) [of path fmode s2] by (cases "r \<ge> 0") auto
    show ?thesis
      using e f' False sys_open_fds [OF o] sys_request_fds [OF q] sys_close_fds [OF cl] keep(1) [OF o] keep(4) [OF q] keep(2) [OF cl]
      by (auto simp: opened_def)
  qed
qed

lemma get_subdev_keeps:
  assumes "sys_keeps k mm" "get_pcm_subdev k fd s = (sub, s')"
  shows "sys_fds s' = sys_fds s \<and> mm (sys_world s') = mm (sys_world s)"
proof -
  obtain r v s1 where q: "sys_subdevice k fd PCM_INFO s = (r, v, s1)" by (metis prod_cases3)
  then have "s' = s1" using assms(2) by (auto simp: get_pcm_subdev_def split: if_splits)
  then show ?thesis using sys_subdevice_fds [OF q] sys_call_keeps(6) [OF assms(1) q] by simp
qed

lemma open_pcm_fd_opened:
  assumes "sys_keeps k mm" "open_pcm_fd k path fmode crd subdev s = Some (fd, sub, s')"
  shows "opened mm fd s s'"
proof -
  note keep = sys_call_keeps [OF assms(1)]
  have closed: "opened mm (- EBUSY) s s'" if "opened mm f s s1" "get_pcm_subdev k f s1 = (u, s2)" "sys_close k f s2 = (x, s')" "\<not> f < 0" for f s1 u s2 x
    using that get_subdev_keeps [OF assms(1) that(2)] sys_close_fds [OF that(3)] keep(2) [OF that(3)] by (auto simp: opened_def)
  have same: "opened mm f s s2" if "opened mm f s s1" "get_pcm_subdev k f s1 = (u, s2)" for f s1 u s2
    using that get_subdev_keeps [OF assms(1) that(2)] by (auto simp: opened_def)
  show ?thesis
  proof (cases "subdev \<ge> 0")
    case True
    obtain f s1 where o: "snd_open_subdev k path fmode crd (PCM_PREFER_SUBDEVICE subdev) s = Some (f, s1)"
      using assms(2) True by (auto simp: open_pcm_fd_def bind_eq_Some_conv)
    obtain u s2 where g: "get_pcm_subdev k f s1 = (u, s2)" by fastforce
    obtain x s3 where c: "sys_close k f s2 = (x, s3)" by fastforce
    note op = open_subdev_opened [OF assms(1) o]
    have "fd = f \<and> s' = s1 \<or> \<not> f < 0 \<and> fd = - EBUSY \<and> s' = s3 \<or> fd = f \<and> s' = s2"
      using assms(2) True o g c by (auto simp: open_pcm_fd_def split: if_splits)
    then show ?thesis using op same [OF op g] closed [OF op g] c by auto
  next
    case False
    obtain f s1 where o: "sys_open k path fmode s = (f, s1)" by fastforce
    obtain u s2 where g: "get_pcm_subdev k f s1 = (u, s2)" by fastforce
    obtain x s3 where c: "sys_close k f s2 = (x, s3)" by fastforce
    have op: "opened mm f s s1" using sys_open_fds [OF o] keep(1) [OF o] by (auto simp: opened_def)
    have "f < 0 \<and> fd = - sys_errno s1 \<and> s' = s1 \<or> \<not> f < 0 \<and> fd = - EBUSY \<and> s' = s3 \<or> fd = f \<and> s' = s2"
      using assms(2) False o g c by (auto simp: open_pcm_fd_def split: if_splits)
    moreover have "opened mm (- sys_errno s1) s s1" if "f < 0" using op sys_open_fds [OF o] that by (auto simp: opened_def)
    ultimately show ?thesis using same [OF op g] closed [OF op g] c by auto
  qed
qed

lemma pcm_version_keeps:
  assumes "sys_keeps k mm" "pcm_version k fd s = (err, ver, s')"
  shows "sys_fds s' = sys_fds s \<and> mm (sys_world s') = mm (sys_world s) \<and> err \<le> 0"
proof -
  obtain r v s1 where v: "sys_version k fd PCM_PVERSION s = (r, v, s1)" by (metis prod_cases3)
  obtain q s2 where q: "sys_request k fd (PCM_USER_PVERSION 0x2000f) s1 = (q, s2)" by fastforce
  have "s' = s1 \<and> (err = 0 \<or> r < 0 \<and> err = - sys_errno s1) \<or> s' = s2 \<and> (err = 0 \<or> q < 0 \<and> err = - sys_errno s2)"
    using assms(2) v q by (auto simp: pcm_version_def split: if_splits)
  then show ?thesis
    using sys_version_fds [OF v] sys_request_fds [OF q] sys_call_keeps(5) [OF assms(1) v] sys_call_keeps(4) [OF assms(1) q] by auto
qed

text \<open>What an open leaves behind.\<close>

definition pcm_result :: "'w pcm_os \<Rightarrow> ('w \<Rightarrow> nat \<rightharpoonup> u64) \<Rightarrow> 'w sys \<Rightarrow> int \<Rightarrow> snd_pcm option \<Rightarrow> 'w sys \<Rightarrow> bool" where
  "pcm_result po mm s err h s' \<longleftrightarrow>
     (case h of
        None \<Rightarrow> err < 0 \<and> sys_fds s' \<subseteq> sys_fds s \<and> mm (sys_world s') = mm (sys_world s)
      | Some pcm \<Rightarrow> err = 0 \<and> sys_fds s' \<subseteq> insert (pcm_fd pcm) (sys_fds s) \<and>
          handle_maps (po_handle po (pcm_fd pcm)) pcm (mm (sys_world s)) (mm (sys_world s')))"

lemma open_failed_result:
  assumes "process po mm" "open_failed (po_sys po) e fd s1 = (err, h, s')" "e < 0" "sys_fds s1 \<subseteq> insert fd (sys_fds s)"
    "mm (sys_world s1) = mm (sys_world s)"
  shows "pcm_result po mm s err h s'"
proof -
  obtain x s2 where c: "sys_close (po_sys po) fd s1 = (x, s2)" by fastforce
  have "err = e" "h = None" "s' = s2" using assms(2) c by (simp_all add: open_failed_def)
  then show ?thesis using assms(3-5) sys_close_fds [OF c] sys_call_keeps(2) [OF processD(1) [OF assms(1)] c] by (auto simp: pcm_result_def)
qed

lemma attach_result:
  assumes p: "process po mm" and a: "attach_pcm po crd strm d subdev fd s1 = (err, h, s')"
    and s: "sys_fds s1 \<subseteq> insert fd (sys_fds s)" "mm (sys_world s1) = mm (sys_world s)"
  shows "pcm_result po mm s err h s'"
proof -
  let ?k = "po_sys po"
  obtain e ver s2 where v: "pcm_version ?k fd s1 = (e, ver, s2)" by (metis prod_cases3)
  note v' = pcm_version_keeps [OF processD(1) [OF p] v]
  obtain ok s3 where c: "sys_calloc ?k s2 = (ok, s3)" by fastforce
  note c' = sys_calloc_fds [OF c] sys_call_keeps(9) [OF processD(1) [OF p] c]
  obtain e2 pcm s4 where m: "snd_pcm_hw_mmap_status (po_handle po fd) (fresh_pcm crd strm d subdev ver fd) s3 = (e2, pcm, s4)" by (metis prod_cases3)
  have f: "sync_ptr (fresh_pcm crd strm d subdev ver fd) = None" by (simp add: fresh_pcm_def new_pcm_def)
  note m' = mmap_status_maps [OF processD(2-4) [OF p] f m]
  consider "e < 0" "open_failed ?k e fd s2 = (err, h, s')" | "\<not> ok" "open_failed ?k (- ENOMEM) fd s3 = (err, h, s')"
    | "e2 < 0" "open_failed ?k e2 fd s4 = (err, h, s')" | "\<not> e2 < 0" "err = 0" "h = Some pcm" "s' = s4"
    using a v c m by (auto simp: attach_pcm_def split: if_splits)
  then show ?thesis
  proof cases
    case 1
    then show ?thesis using v' s by (intro open_failed_result [OF p 1(2)]) auto
  next
    case 2
    then show ?thesis using v' c' s by (intro open_failed_result [OF p 2(2)]) auto
  next
    case 3
    then show ?thesis using v' c' m' s by (intro open_failed_result [OF p 3(2)]) auto
  next
    case 4
    then have pm: "pages_mapped (po_handle po fd) pcm (mm (sys_world s3)) (mm (sys_world s4))" "same_rest (fresh_pcm crd strm d subdev ver fd) pcm"
      "sys_fds s4 = sys_fds s3" using m' by auto
    then have "pcm_fd pcm = fd" "mmap_channels pcm = None" "running_areas pcm = None" by (simp_all add: same_rest_def fresh_pcm_def new_pcm_def)
    then show ?thesis using 4 pm v' c' s by (simp add: pcm_result_def handle_maps_def)
  qed
qed

lemma munmap_fd: "snd_pcm_munmap k pcm w = Some (r, pcm', w') \<Longrightarrow> pcm_fd pcm' = pcm_fd pcm"
  by (auto simp: snd_pcm_munmap_def Let_def split: option.splits if_splits prod.splits)

lemma release_fd: "release_pcm k pcm w = Some (pcm', w') \<Longrightarrow> pcm_fd pcm' = pcm_fd pcm"
  by (auto simp: release_pcm_def snd_pcm_hw_free_def snd_pcm_hw_munmap_status_def bind_eq_Some_conv Let_def
      split: if_splits prod.splits dest!: munmap_fd)

section \<open>Properties\<close>

text \<open>C9. Opening a stream leaves nothing behind when it fails, at whatever step: the process has no descriptor and no mapping more than
  before.  When it succeeds the new descriptor is the handle's, and the new mappings are the two pages of the pointers, or
  none when the handle has a copy of them.\<close>
theorem pcm_open_clean:
  assumes "process po mm" "snd_pcm_open po uninit name strm mode s = Some (err, h, s')"
  shows "case h of
      None \<Rightarrow> err < 0 \<and> sys_fds s' \<subseteq> sys_fds s \<and> mm (sys_world s') = mm (sys_world s)
    | Some pcm \<Rightarrow> err = 0 \<and> sys_fds s' \<subseteq> insert (pcm_fd pcm) (sys_fds s) \<and>
        handle_maps (po_handle po (pcm_fd pcm)) pcm (mm (sys_world s)) (mm (sys_world s'))"
proof -
  let ?k = "po_sys po"
  obtain err1 crd d sub s1 where g: "snd_dev_get_device ?k uninit name True True s = Some (err1, crd, Some d, Some sub, s1)"
    using assms(2) by (auto simp: snd_pcm_open_def bind_eq_Some_conv)
  note g' = get_device_fds [OF g] get_device_keeps [OF processD(1) [OF assms(1)] g]
  define path where "path = device_file ?k (''/pcmC'' @ show_int crd @ ''D'' @ show_int d @ (if strm = STREAM_PLAYBACK then ''p'' else ''c''))"
  define fmode where "fmode = (if mode AND 2 \<noteq> 0 then O_RDWR OR O_NONBLOCK OR ASYNC_FLAG else O_RDWR OR O_NONBLOCK)"
  have "pcm_result po mm s err h s'"
  proof (cases "err1 < 0")
    case True
    then show ?thesis using assms(2) g g' by (auto simp: snd_pcm_open_def pcm_result_def)
  next
    case False
    then obtain fd subdev s2 where o: "open_pcm_fd ?k path fmode crd sub s1 = Some (fd, subdev, s2)"
      and rest: "(if fd < 0 then Some (fd, None, s2)
         else let s = (if mode AND 1 = 0 then snd (sys_setfl ?k fd (uint (fmode AND NOT O_NONBLOCK)) s2) else s2)
           in Some (attach_pcm po crd strm d subdev fd s)) = Some (err, h, s')"
      using assms(2) g unfolding snd_pcm_open_def path_def fmode_def by (auto simp: bind_eq_Some_conv Let_def simp del: append_Cons)
    have op: "sys_fds s2 \<subseteq> (if fd < 0 then sys_fds s else insert fd (sys_fds s))" "mm (sys_world s2) = mm (sys_world s)"
      using open_pcm_fd_opened [OF processD(1) [OF assms(1)] o] g' by (auto simp: opened_def split: if_splits)
    show ?thesis
    proof (cases "fd < 0")
      case True
      then show ?thesis using rest op by (auto simp: pcm_result_def)
    next
      case fd: False
      obtain x s3 where f: "sys_setfl ?k fd (uint (fmode AND NOT O_NONBLOCK)) s2 = (x, s3)" by fastforce
      note f' = sys_setfl_fds [OF f] sys_call_keeps(8) [OF processD(1) [OF assms(1)] f]
      have "attach_pcm po crd strm d subdev fd (if mode AND 1 = 0 then s3 else s2) = (err, h, s')"
        using rest fd unfolding Let_def f snd_conv by simp
      then show ?thesis by (rule attach_result [OF assms(1)]) (use op f' fd in auto)
    qed
  qed
  then show ?thesis by (simp add: pcm_result_def)
qed

text \<open>C13. Closing a stream returns everything it had: its buffer and its pages are unmapped, whatever state it is in and
  whatever the requests to stop it return, its descriptor is closed, and nothing else changes.\<close>
theorem pcm_close_releases:
  assumes "process po mm" "handle_maps (po_handle po (pcm_fd pcm)) pcm m0 (mm (sys_world (async_world a)))" "async_cells a cell = None"
  shows "\<exists>s'. snd_pcm_close os po cell pcm a = Some (0, a\<lparr>async_world := s'\<rparr>) \<and>
    sys_fds s' = sys_fds (async_world a) - {pcm_fd pcm} \<and> mm (sys_world s') = m0"
proof -
  from release_maps [OF processD(2-4) [OF assms(1)] assms(2)] obtain pcm' s1 where
    r: "release_pcm (po_handle po (pcm_fd pcm)) pcm (async_world a) = Some (pcm', s1)" "sys_fds s1 = sys_fds (async_world a)" "mm (sys_world s1) = m0" by blast
  obtain x s2 where c: "sys_close (po_sys po) (pcm_fd pcm) s1 = (x, s2)" by fastforce
  have "snd_pcm_close os po cell pcm a = Some (0, a\<lparr>async_world := s2\<rparr>)"
    using r(1) c assms(3) release_fd [OF r(1)] by (simp add: snd_pcm_close_def set_world_def)
  then show ?thesis using r sys_close_fds [OF c] sys_call_keeps(2) [OF processD(1) [OF assms(1)] c] by auto
qed

section \<open>Witnesses\<close>

text \<open>A machine on which every call succeeds; its world is the table of the mappings with the next free address.\<close>

definition easy_sys :: "'w sys_kernel" where
  "easy_sys = \<lparr>sk_devpath = ''/dev/snd'', sk_open = (\<lambda>path flags w. (5, w)), sk_close = (\<lambda>fd w. (0, w)), sk_access = (\<lambda>path w. (0, w)),
     sk_request = (\<lambda>fd req w. (0, w)), sk_version = (\<lambda>fd req w. (0, 0x20010, w)), sk_subdevice = (\<lambda>fd req w. (0, 0, w)),
     sk_card_info = (\<lambda>fd w. (0, blank_card_info, w)), sk_getfl = (\<lambda>fd w. (2, w)), sk_setfl = (\<lambda>fd fl w. (0, w)), sk_calloc = (\<lambda>w. (True, w))\<rparr>"

definition easy_handle :: "map_world sys setup_kernel" where
  "easy_handle = \<lparr>dev = idle_device, k_refine = (\<lambda>p. (0, 0, p)), k_hw_params = (\<lambda>p w. (0, 0, p, w)), k_sw_params = (\<lambda>p w. (0, 0, p, w)),
     k_channel_info = (\<lambda>i w. (0, 0, i, w)),
     k_mmap = (\<lambda>sz _ s. case sys_world s of (m, a) \<Rightarrow> (Some a, 0, s\<lparr>sys_world := (m(a \<mapsto> sz), Suc a)\<rparr>)),
     k_munmap = (\<lambda>a _ s. case sys_world s of (m, n) \<Rightarrow> (0, 0, s\<lparr>sys_world := (m(a := None), n)\<rparr>)),
     k_calloc = (\<lambda>_ _ w. (True, w)), k_page_size = 4096\<rparr>"

definition easy_os :: "map_world pcm_os" where
  "easy_os = \<lparr>po_sys = easy_sys, po_handle = (\<lambda>fd. easy_handle)\<rparr>"

definition easy_start :: "map_world sys" where
  "easy_start = \<lparr>sys_errno = 0, sys_fds = {}, sys_world = (Map.empty, 1)\<rparr>"

lemma easy_tracks: "tracks_mappings easy_handle (\<lambda>s. live_maps (sys_world s))"
  unfolding tracks_mappings_def
proof (intro conjI allI impI)
  fix sz off s a e s'
  assume "k_mmap easy_handle sz off s = (Some a, e, s')"
  then show "live_maps (sys_world s) a = None" "live_maps (sys_world s') = (live_maps (sys_world s))(a \<mapsto> sz)"
    by (auto simp: easy_handle_def live_maps_def restrict_map_def fun_eq_iff split: prod.splits)
next
  fix sz off s e s'
  assume "k_mmap easy_handle sz off s = (None, e, s')"
  then show "0 < e" "live_maps (sys_world s') = live_maps (sys_world s)" by (auto simp: easy_handle_def split: prod.splits)
next
  fix a sz s r e s'
  assume "k_munmap easy_handle a sz s = (r, e, s')"
  then show "0 \<le> r" "live_maps (sys_world s') = (live_maps (sys_world s))(a := None)"
    by (auto simp: easy_handle_def live_maps_def restrict_map_def fun_eq_iff split: prod.splits)
qed (auto simp: easy_handle_def)

lemma easy_process: "process easy_os live_maps"
proof -
  have "device_keeps easy_handle f" for f :: "map_world sys \<Rightarrow> 'b" by (simp add: device_keeps_def easy_handle_def idle_device_def)
  moreover have "mapping_keeps easy_handle sys_fds" using calculation by (simp add: mapping_keeps_def) (auto simp: easy_handle_def split: prod.splits)
  moreover have "sys_keeps easy_sys live_maps" by (simp add: sys_keeps_def easy_sys_def)
  ultimately show ?thesis using easy_tracks by (simp add: process_def easy_os_def)
qed

theorem pcm_open_clean_witness:
  "\<exists>pcm s'. snd_pcm_open easy_os blank_card_info ''hw'' STREAM_PLAYBACK 0 easy_start = Some (0, Some pcm, s') \<and> pcm_fd pcm = 5 \<and>
     sys_fds s' \<subseteq> {5} \<and> handle_maps easy_handle pcm Map.empty (live_maps (sys_world s'))"
proof -
  have d: "snd_dev_get_device easy_sys blank_card_info ''hw'' True True easy_start = Some (0, 0, Some 0, Some (- 1), easy_start)"
    by (simp add: snd_dev_get_device_def)
  have "\<exists>pcm s'. snd_pcm_open easy_os blank_card_info ''hw'' STREAM_PLAYBACK 0 easy_start = Some (0, Some pcm, s') \<and> pcm_fd pcm = 5"
    using d by (simp add: snd_pcm_open_def easy_os_def open_pcm_fd_def sys_open_def get_pcm_subdev_def sys_subdevice_def sys_setfl_def
        attach_pcm_def pcm_version_def sys_version_def sys_request_def sys_calloc_def snd_pcm_hw_mmap_status_def store_control_def
        easy_sys_def easy_handle_def easy_start_def sys_result_def idle_device_def fresh_pcm_def new_pcm_def Let_def del: append_Cons)
  then obtain pcm s' where r: "snd_pcm_open easy_os blank_card_info ''hw'' STREAM_PLAYBACK 0 easy_start = Some (0, Some pcm, s')" "pcm_fd pcm = 5" by blast
  have "live_maps (sys_world easy_start) = Map.empty" "sys_fds easy_start = {}" by (simp_all add: easy_start_def live_maps_def)
  with pcm_open_clean [OF easy_process r(1)] r show ?thesis by (auto simp: easy_os_def)
qed

definition open_stream :: snd_pcm where
  "open_stream = (new_pcm 0 5)\<lparr>status_addr := Some 1, control_addr := Some 2\<rparr>"

definition open_world :: "map_world sys" where
  "open_world = \<lparr>sys_errno = 0, sys_fds = {5}, sys_world = ([1 \<mapsto> 4096, 2 \<mapsto> 4096], 3)\<rparr>"

definition no_handlers :: "map_world sys async" where
  "no_handlers = \<lparr>async_list = None, async_heap = Map.empty, async_cells = Map.empty, async_world = open_world\<rparr>"

theorem pcm_close_releases_witness:
  "\<exists>s'. snd_pcm_close quiet_os easy_os 8 open_stream no_handlers = Some (0, no_handlers\<lparr>async_world := s'\<rparr>) \<and>
     sys_fds s' = {} \<and> live_maps (sys_world s') = Map.empty"
proof -
  have live: "live_maps (sys_world open_world) = [1 \<mapsto> 4096, 2 \<mapsto> 4096]"
    by (auto simp: open_world_def live_maps_def restrict_map_def fun_eq_iff)
  have "page_align easy_handle STATUS_BYTES = 4096" "page_align easy_handle CONTROL_BYTES = 4096"
    by (simp_all add: page_align_def easy_handle_def)
  then have "handle_maps easy_handle open_stream Map.empty (live_maps (sys_world open_world))"
    unfolding live by (simp add: handle_maps_def pages_mapped_def open_stream_def new_pcm_def)
  moreover have "po_handle easy_os (pcm_fd open_stream) = easy_handle" by (simp add: easy_os_def)
  moreover have "async_world no_handlers = open_world" "async_cells no_handlers 8 = None" by (simp_all add: no_handlers_def)
  ultimately show ?thesis
    using pcm_close_releases [OF easy_process, of open_stream Map.empty no_handlers 8 quiet_os]
    by (simp add: open_stream_def new_pcm_def open_world_def)
qed

end
