(* ===== verification/Chmap_Query.thy ===== *)
theory Chmap_Query
  imports Pcm_Chmap
begin

text \<open>
  The channel maps of a stream in its control device (\<^verbatim>\<open>src/src/pcm.c\<close>): the control device is opened for every call; the maps that
  the driver offers are read from the TLV data of an element, and the current map is the value of the element.

  \<open>ck fd\<close> is the kernel that a control handle on \<open>fd\<close> sees.  A handle that was just opened has no notification handler, so its close
  only closes the descriptor.
\<close>

record snd_pcm_chmap_query =
  query_type :: int
  query_map :: snd_pcm_chmap

section \<open>The control device\<close>

definition chmap_id :: "u32 \<Rightarrow> u32 \<Rightarrow> int \<Rightarrow> snd_ctl_elem_id" where
  "chmap_id d subdev strm = \<lparr>id_numid = 0, id_iface = 3, id_device = d, id_subdevice = 0,
     id_name = (if strm = STREAM_PLAYBACK then ''Playback Channel Map'' else ''Capture Channel Map''), id_index = subdev\<rparr>"

definition do_ctl_chmap ::
  "'w sys_kernel \<Rightarrow> snd_ctl_card_info \<Rightarrow> int \<Rightarrow> u32 \<Rightarrow> u32 \<Rightarrow> int \<Rightarrow>
   (snd_ctl \<Rightarrow> snd_ctl_elem_id \<Rightarrow> 'a \<Rightarrow> 'w sys \<Rightarrow> (int \<times> 'a \<times> 'w sys) option) \<Rightarrow> 'a \<Rightarrow> 'w sys \<Rightarrow> (int \<times> 'a \<times> 'w sys) option" where
  "do_ctl_chmap k uninit crd d subdev strm func arg s = do {
     ctlname \<leftarrow> sprintf_array 32 (''hw:'' @ show_int crd);
     (ret, ctl, s) \<leftarrow> snd_ctl_open k uninit ctlname 0 s;
     (if ret < 0 then Some (ret, arg, s)
      else do {
        ctl \<leftarrow> ctl;
        (ret, arg, s) \<leftarrow> func ctl (chmap_id d subdev strm) arg s;
        (case sys_close k (ctl_fd ctl) s of (_, s) \<Rightarrow> Some (if ret < 0 then ret else 0, arg, s)) }) }"

section \<open>The maps of the driver\<close>

fun words_of_bytes :: "u8 list \<Rightarrow> u32 list" where
  "words_of_bytes (a # b # c # d # bs) = of_nat (le_nat [a, b, c, d]) # words_of_bytes bs"
| "words_of_bytes bs = []"

abbreviation (input) TLV_WORDS :: nat where "TLV_WORDS \<equiv> 256"

definition do_read_tlv :: "(int \<Rightarrow> 'w sys ctl_kernel) \<Rightarrow> snd_ctl_elem_info \<Rightarrow> snd_ctl \<Rightarrow> snd_ctl_elem_id \<Rightarrow> u8 list \<Rightarrow> 'w sys \<Rightarrow>
    (int \<times> u8 list \<times> 'w sys) option" where
  "do_read_tlv ck info0 ctl eid tlv s = snd_ctl_elem_tlv_read (ck (ctl_fd ctl)) (ctl_protocol ctl) info0 eid tlv 1024 s"

definition is_chmap_type :: "u32 \<Rightarrow> bool" where
  "is_chmap_type ty \<longleftrightarrow> 0x101 \<le> sint ty \<and> sint ty \<le> 0x103"

text \<open>The number of the maps in a container, or \<open>None\<close> when one has another type; the outer \<open>option\<close> is a read behind the buffer.\<close>

function count_chmaps :: "u32 list \<Rightarrow> nat \<Rightarrow> int \<Rightarrow> nat \<Rightarrow> nat option option" where
  "count_chmaps tlv p sz nums =
     (if sz > 0 then do {
        ty \<leftarrow> array_get tlv p;
        (if \<not> is_chmap_type ty then Some None
         else do {
           len \<leftarrow> array_get tlv (p + 1);
           count_chmaps tlv (p + unat len div 4 + 2) (sint (word_of_int sz - (len + 8))) (Suc nums) }) }
      else Some (Some nums))"
  by pat_completeness auto
termination by (relation "measure (\<lambda>(tlv, p, sz, nums). length tlv - p)") (auto simp: array_get_eq_Some)

declare count_chmaps.simps [simp del]

text \<open>The first map, and how many there are.\<close>

definition chmaps_start :: "u32 list \<Rightarrow> (nat \<times> nat) option option" where
  "chmaps_start tlv = do {
     ty \<leftarrow> array_get tlv 0;
     (if ty \<noteq> 0 then Some (if is_chmap_type ty then Some (0, 1) else None)
      else do {
        sz \<leftarrow> array_get tlv 1;
        nums \<leftarrow> count_chmaps tlv 2 (sint sz) 0;
        Some (map_option (\<lambda>n. (2, n)) nums) }) }"

text \<open>The copies; without memory for one of them they are all freed.\<close>

fun copy_chmaps :: "'w sys_kernel \<Rightarrow> u32 list \<Rightarrow> nat \<Rightarrow> nat \<Rightarrow> 'w sys \<Rightarrow> (snd_pcm_chmap_query list option \<times> 'w sys) option" where
  "copy_chmaps k tlv start 0 s = Some (Some [], s)"
| "copy_chmaps k tlv start (Suc n) s = do {
     len \<leftarrow> array_get tlv (start + 1);
     (case sys_calloc k s of
        (False, s) \<Rightarrow> Some (None, s)
      | (True, s) \<Rightarrow> do {
          ty \<leftarrow> array_get tlv start;
          (if 4 * length tlv < 4 * (start + 2) + unat len then None
           else do {
             let words = unat len div 4;
             (maps, s) \<leftarrow> copy_chmaps k tlv (start + words + 2) n s;
             Some (map_option (\<lambda>maps. \<lparr>query_type = sint (ty - 0x100),
               query_map = \<lparr>chmap_channels = len div 4, chmap_pos = take words (drop (start + 2) tlv)\<rparr>\<rparr> # maps) maps, s) }) }) }"

definition decode_chmaps :: "'w sys_kernel \<Rightarrow> u32 list \<Rightarrow> 'w sys \<Rightarrow> (snd_pcm_chmap_query list option \<times> 'w sys) option" where
  "decode_chmaps k tlv s = do {
     r \<leftarrow> chmaps_start tlv;
     (case r of
        None \<Rightarrow> Some (None, s)
      | Some (start, nums) \<Rightarrow>
          (case sys_calloc k s of (False, s) \<Rightarrow> Some (None, s) | (True, s) \<Rightarrow> copy_chmaps k tlv start nums s)) }"

text \<open>\<open>tlv\<close> is the uninitialised buffer.\<close>

definition snd_pcm_query_chmaps_from_hw ::
  "'w sys_kernel \<Rightarrow> (int \<Rightarrow> 'w sys ctl_kernel) \<Rightarrow> snd_ctl_card_info \<Rightarrow> snd_ctl_elem_info \<Rightarrow> u8 list \<Rightarrow> int \<Rightarrow> u32 \<Rightarrow> u32 \<Rightarrow> int \<Rightarrow> 'w sys \<Rightarrow>
   (snd_pcm_chmap_query list option \<times> 'w sys) option" where
  "snd_pcm_query_chmaps_from_hw k ck uninit info0 tlv crd d subdev strm s = do {
     (r, tlv, s) \<leftarrow> do_ctl_chmap k uninit crd d subdev strm (do_read_tlv ck info0) tlv s;
     (if r < 0 then Some (None, s) else decode_chmaps k (words_of_bytes tlv) s) }"

definition snd_pcm_query_chmaps ::
  "'w sys_kernel \<Rightarrow> (int \<Rightarrow> 'w sys ctl_kernel) \<Rightarrow> snd_ctl_card_info \<Rightarrow> snd_ctl_elem_info \<Rightarrow> u8 list \<Rightarrow> snd_pcm \<Rightarrow> 'w sys \<Rightarrow>
   (snd_pcm_chmap_query list option \<times> 'w sys) option" where
  "snd_pcm_query_chmaps k ck uninit info0 tlv pcm s =
     snd_pcm_query_chmaps_from_hw k ck uninit info0 tlv (pcm_card pcm) (of_int (pcm_device pcm)) (of_int (pcm_subdevice pcm)) (pcm_stream pcm) s"

section \<open>The current map\<close>

definition chmap_value :: "snd_ctl_elem_id \<Rightarrow> snd_ctl_elem_value" where
  "chmap_value eid = blank_value\<lparr>value_id := eid\<rparr>"

fun load_positions :: "snd_ctl_elem_value \<Rightarrow> nat \<Rightarrow> nat \<Rightarrow> u32 list option" where
  "load_positions val i 0 = Some []"
| "load_positions val i (Suc n) = do {
     v \<leftarrow> snd_ctl_elem_value_get_integer val (of_nat i);
     vs \<leftarrow> load_positions val (Suc i) n;
     Some (word_of_int v # vs) }"

fun store_positions :: "snd_ctl_elem_value \<Rightarrow> nat \<Rightarrow> u32 list \<Rightarrow> snd_ctl_elem_value option" where
  "store_positions val i [] = Some val"
| "store_positions val i (v # vs) = do {
     val \<leftarrow> snd_ctl_elem_value_set_integer val (of_nat i) (uint v);
     store_positions val (Suc i) vs }"

definition do_get_chmap :: "(int \<Rightarrow> 'w sys ctl_kernel) \<Rightarrow> snd_ctl \<Rightarrow> snd_ctl_elem_id \<Rightarrow> snd_pcm_chmap \<Rightarrow> 'w sys \<Rightarrow> (int \<times> snd_pcm_chmap \<times> 'w sys) option" where
  "do_get_chmap ck ctl eid m s =
     (case snd_ctl_elem_read (ck (ctl_fd ctl)) (chmap_value eid) s of (ret, val, s) \<Rightarrow>
        if ret < 0 then Some (ret, m, s)
        else do {
          vs \<leftarrow> load_positions val 0 (unat (chmap_channels m));
          Some (0, m\<lparr>chmap_pos := vs\<rparr>, s) })"

definition snd_pcm_get_chmap ::
  "'w sys_kernel \<Rightarrow> (int \<Rightarrow> 'w sys ctl_kernel) \<Rightarrow> snd_ctl_card_info \<Rightarrow> u32 list \<Rightarrow> snd_pcm \<Rightarrow> 'w sys \<Rightarrow> (snd_pcm_chmap option \<times> 'w sys) option" where
  "snd_pcm_get_chmap k ck uninit junk pcm s =
     (case sys_calloc k s of
        (False, s) \<Rightarrow> Some (None, s)
      | (True, s) \<Rightarrow> do {
          (r, m, s) \<leftarrow> do_ctl_chmap k uninit (pcm_card pcm) (of_int (pcm_device pcm)) (of_int (pcm_subdevice pcm)) (pcm_stream pcm)
            (do_get_chmap ck) \<lparr>chmap_channels = pcm_channels pcm, chmap_pos = junk\<rparr> s;
          Some (if r < 0 then None else Some m, s) })"

definition do_set_chmap :: "(int \<Rightarrow> 'w sys ctl_kernel) \<Rightarrow> snd_ctl \<Rightarrow> snd_ctl_elem_id \<Rightarrow> snd_pcm_chmap \<Rightarrow> 'w sys \<Rightarrow> (int \<times> snd_pcm_chmap \<times> 'w sys) option" where
  "do_set_chmap ck ctl eid m s = do {
     val \<leftarrow> (if length (chmap_pos m) < unat (chmap_channels m) then None
            else store_positions (chmap_value eid) 0 (take (unat (chmap_channels m)) (chmap_pos m)));
     (case snd_ctl_elem_write (ck (ctl_fd ctl)) val s of (ret, _, s) \<Rightarrow> Some (ret, m, s)) }"

definition snd_pcm_set_chmap ::
  "'w sys_kernel \<Rightarrow> (int \<Rightarrow> 'w sys ctl_kernel) \<Rightarrow> snd_ctl_card_info \<Rightarrow> snd_pcm \<Rightarrow> snd_pcm_chmap \<Rightarrow> 'w sys \<Rightarrow> (int \<times> 'w sys) option" where
  "snd_pcm_set_chmap k ck uninit pcm m s =
     (if chmap_channels m > 128 then Some (- EINVAL, s)
      else do {
        (ret, _, s) \<leftarrow> do_ctl_chmap k uninit (pcm_card pcm) (of_int (pcm_device pcm)) (of_int (pcm_subdevice pcm)) (pcm_stream pcm) (do_set_chmap ck) m s;
        Some (if ret = - ENOENT \<or> ret = - EPERM then - ENXIO else ret, s) })"

section \<open>Facts\<close>

definition query_words :: "snd_pcm_chmap_query \<Rightarrow> u32 list" where
  "query_words q = of_int (query_type q + 0x100) # of_nat (4 * length (chmap_pos (query_map q))) # chmap_pos (query_map q)"

definition query_ok :: "snd_pcm_chmap_query \<Rightarrow> bool" where
  "query_ok q \<longleftrightarrow> 1 \<le> query_type q \<and> query_type q \<le> 3 \<and> chmap_channels (query_map q) = of_nat (length (chmap_pos (query_map q)))"

definition queries_words :: "snd_pcm_chmap_query list \<Rightarrow> u32 list" where
  "queries_words qs = concat (map query_words qs)"

lemma queries_words_simps [simp]:
  "queries_words [] = []" "queries_words (q # qs) = query_words q @ queries_words qs"
  by (simp_all add: queries_words_def)

lemma query_words_length [simp]: "length (query_words q) = length (chmap_pos (query_map q)) + 2"
  by (simp add: query_words_def)

lemma sint_small: "- (2 ^ 31) \<le> x \<Longrightarrow> x < 2 ^ 31 \<Longrightarrow> sint (word_of_int x :: u32) = x"
  by (simp add: sint_sbintrunc' signed_take_bit_int_eq_self)

lemma query_type_word:
  assumes "query_ok q"
  shows "is_chmap_type (of_int (query_type q + 0x100))" "sint (of_int (query_type q + 0x100) - 0x100 :: u32) = query_type q"
proof -
  from sint_small [of "query_type q + 0x100"] sint_small [of "query_type q"] assms
  show "is_chmap_type (of_int (query_type q + 0x100))" "sint (of_int (query_type q + 0x100) - 0x100 :: u32) = query_type q"
    by (simp_all add: is_chmap_type_def query_ok_def)
qed

lemma array_get_append: "array_get (pre @ x # post) (length pre) = Some x" "array_get (pre @ x # y # post) (length pre + 1) = Some y"
  by (simp_all add: array_get_def nth_append)

lemma query_unat_words: "n < 1000 \<Longrightarrow> unat (of_nat (4 * n) :: u32) = 4 * n"
  by (simp add: unat_of_nat del: of_nat_mult)

lemma count_queries:
  assumes "\<forall>q \<in> set qs. query_ok q" "length (queries_words qs) < 500"
  shows "count_chmaps (pre @ queries_words qs @ post) (length pre) (4 * int (length (queries_words qs))) n = Some (Some (n + length qs))"
  using assms
proof (induction qs arbitrary: pre n)
  case (Cons q qs)
  define ps where "ps = chmap_pos (query_map q)"
  define ty :: u32 where "ty = of_int (query_type q + 0x100)"
  define tlv where "tlv = pre @ queries_words (q # qs) @ post"
  have tlv: "tlv = pre @ ty # of_nat (4 * length ps) # ps @ queries_words qs @ post" by (simp add: tlv_def query_words_def ps_def ty_def)
  have len: "length ps < 500" using Cons.prems(2) by (simp add: ps_def)
  have ty: "is_chmap_type ty" using query_type_word(1) Cons.prems(1) by (simp add: ty_def)
  have sz: "sint (word_of_int (4 * int (length (queries_words (q # qs)))) - (of_nat (4 * length ps) + 8) :: u32) = 4 * int (length (queries_words qs))"
  proof -
    have a: "(word_of_int (4 * int (length (queries_words (q # qs)))) - (of_nat (4 * length ps) + 8) :: u32) = word_of_int (4 * int (length (queries_words qs)))"
      by (simp add: ps_def algebra_simps)
    have "4 * int (length (queries_words qs)) < 2 ^ 31" using Cons.prems(2) by simp
    then show ?thesis unfolding a by (intro sint_small) simp_all
  qed
  have step: "count_chmaps tlv (length pre) (4 * int (length (queries_words (q # qs)))) n =
      count_chmaps tlv (length pre + length ps + 2) (4 * int (length (queries_words qs))) (Suc n)"
  proof -
    have "tlv ! length pre = ty" "tlv ! Suc (length pre) = of_nat (4 * length ps)" "Suc (length pre) < length tlv"
      by (simp_all add: tlv nth_append del: of_nat_mult)
    moreover have "queries_words (q # qs) \<noteq> []" by (simp add: query_words_def)
    ultimately show ?thesis using len ty sz
      by (subst count_chmaps.simps) (simp add: array_get_def query_unat_words del: of_nat_mult queries_words_simps)
  qed
  have "tlv = (pre @ query_words q) @ queries_words qs @ post" by (simp add: tlv_def)
  moreover have "length pre + length ps + 2 = length (pre @ query_words q)" by (simp add: ps_def)
  ultimately show ?case using step Cons.IH [of "pre @ query_words q" "Suc n"] Cons.prems by (simp add: tlv_def)
qed (subst count_chmaps.simps, simp)

text \<open>Memory never runs out.\<close>

definition enough_memory :: "'w sys_kernel \<Rightarrow> bool" where
  "enough_memory k \<longleftrightarrow> (\<forall>w. fst (sk_calloc k w))"

lemma enough_memoryE: assumes "enough_memory k" obtains s' where "sys_calloc k s = (True, s')"
  using assms by (cases "sk_calloc k (sys_world s)") (auto simp: enough_memory_def sys_calloc_def dest: spec [of _ "sys_world s"])

lemma copy_queries:
  assumes "enough_memory k" "\<forall>q \<in> set qs. query_ok q" "length (queries_words qs) < 500"
  shows "\<exists>s'. copy_chmaps k (pre @ queries_words qs @ post) (length pre) (length qs) s = Some (Some qs, s')"
  using assms(2,3)
proof (induction qs arbitrary: pre s)
  case (Cons q qs)
  define ps where "ps = chmap_pos (query_map q)"
  define ty :: u32 where "ty = of_int (query_type q + 0x100)"
  define tlv where "tlv = pre @ queries_words (q # qs) @ post"
  have tlv: "tlv = pre @ ty # of_nat (4 * length ps) # ps @ queries_words qs @ post" by (simp add: tlv_def query_words_def ps_def ty_def)
  have len: "length ps < 500" using Cons.prems(2) by (simp add: ps_def)
  obtain s1 where m: "sys_calloc k s = (True, s1)" by (rule enough_memoryE [OF assms(1)])
  have "tlv = (pre @ query_words q) @ queries_words qs @ post" by (simp add: tlv_def)
  moreover have p: "length pre + length ps + 2 = length (pre @ query_words q)" by (simp add: ps_def)
  ultimately obtain s2 where c: "copy_chmaps k tlv (length pre + length ps + 2) (length qs) s1 = Some (Some qs, s2)"
    using Cons.IH [of "pre @ query_words q" s1] Cons.prems by auto
  have g: "tlv ! Suc (length pre) = of_nat (4 * length ps)" "tlv ! length pre = ty"
    by (simp_all add: tlv nth_append del: of_nat_mult)
  have l: "length tlv = length pre + length ps + 2 + length (queries_words qs) + length post" by (simp add: tlv)
  have t: "take (length ps) (drop (length pre + 2) tlv) = ps" by (simp add: tlv)
  have d: "(of_nat (4 * length ps) :: u32) div 4 = of_nat (length ps)"
    using len by (intro word_unat_eq_iff [THEN iffD2]) (simp add: unat_div query_unat_words unat_of_nat del: of_nat_mult)
  have q: "\<lparr>query_type = sint (ty - 0x100), query_map = \<lparr>chmap_channels = of_nat (length ps), chmap_pos = ps\<rparr>\<rparr> = q"
    using Cons.prems(1) query_type_word(2) [of q] by (cases q; cases "query_map q") (simp add: ty_def ps_def query_ok_def)
  have "copy_chmaps k tlv (length pre) (length (q # qs)) s = Some (Some (q # qs), s2)"
    using len using c t by (simp add: g m l query_unat_words d q Let_def array_get_def del: of_nat_mult)
  then show ?case unfolding tlv_def by blast
qed simp

lemma positions_stored:
  assumes "length (value_data val) = 1024" "i + length vs \<le> 128"
  shows "\<exists>val'. store_positions val i vs = Some val' \<and> value_id val' = value_id val \<and> length (value_data val') = 1024 \<and>
    (\<forall>j < i. snd_ctl_elem_value_get_integer val' (of_nat j) = snd_ctl_elem_value_get_integer val (of_nat j)) \<and>
    (\<forall>j < length vs. snd_ctl_elem_value_get_integer val' (of_nat (i + j)) = Some (uint (vs ! j)))"
  using assms
proof (induction vs arbitrary: val i)
  case (Cons v vs)
  have ne: "(of_nat j :: u32) \<noteq> of_nat i" if "j < i" for j
  proof
    assume "(of_nat j :: u32) = of_nat i"
    then have "unat (of_nat j :: u32) = unat (of_nat i :: u32)" by simp
    then show False using that Cons.prems(2) by (simp add: unat_of_nat)
  qed
  have v: "uint v < 2 ^ 32" "0 \<le> uint v" using uint_lt2p [of v] by simp_all
  have i: "unat (of_nat i :: u32) < 128" using Cons.prems(2) by (simp add: unat_of_nat)
  from integer_set_get [OF Cons.prems(1) _ _ i, of "uint v"] v obtain val1 where
    s: "snd_ctl_elem_value_set_integer val (of_nat i) (uint v) = Some val1" "snd_ctl_elem_value_get_integer val1 (of_nat i) = Some (uint v)"
    "\<forall>j. j \<noteq> of_nat i \<longrightarrow> snd_ctl_elem_value_get_integer val1 j = snd_ctl_elem_value_get_integer val j"
    "value_id val1 = value_id val" "length (value_data val1) = 1024" by auto
  from Cons.IH [of val1 "Suc i"] s(5) Cons.prems(2) obtain val2 where
    r: "store_positions val1 (Suc i) vs = Some val2" "value_id val2 = value_id val1" "length (value_data val2) = 1024"
    "\<forall>j < Suc i. snd_ctl_elem_value_get_integer val2 (of_nat j) = snd_ctl_elem_value_get_integer val1 (of_nat j)"
    "\<forall>j < length vs. snd_ctl_elem_value_get_integer val2 (of_nat (Suc i + j)) = Some (uint (vs ! j))" by auto
  have "snd_ctl_elem_value_get_integer val2 (of_nat (i + j)) = Some (uint ((v # vs) ! j))" if "j < length (v # vs)" for j
  proof (cases j)
    case 0
    then show ?thesis using r(4) s(2) by simp
  next
    case (Suc j')
    then show ?thesis using r(5) that by (simp del: of_nat_add of_nat_Suc)
  qed
  moreover have "snd_ctl_elem_value_get_integer val2 (of_nat j) = snd_ctl_elem_value_get_integer val (of_nat j)" if "j < i" for j
    using r(4) s(3) ne [OF that] that by simp
  ultimately show ?case using s(1,4) r(1-3) by simp
qed simp

lemma positions_loaded:
  "(\<forall>j < length vs. snd_ctl_elem_value_get_integer val (of_nat (i + j)) = Some (uint (vs ! j))) \<Longrightarrow> load_positions val i (length vs) = Some vs"
proof (induction vs arbitrary: i)
  case (Cons v vs)
  have "snd_ctl_elem_value_get_integer val (of_nat (i + 0)) = Some (uint v)" using Cons.prems by (metis length_greater_0_conv list.simps(3) nth_Cons_0)
  moreover have "\<forall>j < length vs. snd_ctl_elem_value_get_integer val (of_nat (Suc i + j)) = Some (uint (vs ! j))"
    using Cons.prems by (metis Suc_less_eq add_Suc_shift length_Cons nth_Cons_Suc)
  ultimately show ?case using Cons.IH [of "Suc i"] by simp
qed simp

section \<open>Properties\<close>

text \<open>C35. The maps that a driver lists in a container are the maps the client gets, in the same order, when there is memory for them.\<close>
theorem driver_chmaps_returned:
  assumes "enough_memory k" "\<forall>q \<in> set qs. query_ok q" "length (queries_words qs) < 500"
  shows "\<exists>s'. decode_chmaps k (0 # of_nat (4 * length (queries_words qs)) # queries_words qs @ post) s = Some (Some qs, s')"
proof -
  let ?tlv = "0 # of_nat (4 * length (queries_words qs)) # queries_words qs @ post"
  have sz: "sint (of_nat (4 * length (queries_words qs)) :: u32) = 4 * int (length (queries_words qs))"
    using sint_small [of "4 * int (length (queries_words qs))"] assms(3) by simp
  have c: "count_chmaps ?tlv 2 (4 * int (length (queries_words qs))) 0 = Some (Some (length qs))"
    using count_queries [OF assms(2,3), of "[0, of_nat (4 * length (queries_words qs))]" post 0] by (simp add: numeral_2_eq_2)
  have st: "chmaps_start ?tlv = Some (Some (2, length qs))"
    using sz c by (simp add: chmaps_start_def array_get_def del: of_nat_mult)
  obtain s1 where m: "sys_calloc k s = (True, s1)" by (rule enough_memoryE [OF assms(1)])
  from copy_queries [OF assms, of "[0, of_nat (4 * length (queries_words qs))]" post s1]
  obtain s2 where "copy_chmaps k ?tlv 2 (length qs) s1 = Some (Some qs, s2)" by (auto simp: numeral_2_eq_2)
  then show ?thesis using st m by (simp add: decode_chmaps_def del: of_nat_mult)
qed

text \<open>A map that is set is the map that is read back, for a driver that keeps the value of the element.\<close>
theorem chmap_set_get:
  assumes "chmap_channels m = of_nat (length (chmap_pos m))" "length (chmap_pos m) \<le> 128"
    and "\<forall>val s. k_elem_write (ck (ctl_fd ctl)) val s = (0, 0, val, put val s)"
    and "\<forall>val s. k_elem_read (ck (ctl_fd ctl)) val s = (0, 0, val\<lparr>value_data := kept s\<rparr>, s)"
    and "\<forall>val s. kept (put val s) = value_data val"
  shows "\<exists>s1. do_set_chmap ck ctl eid m s = Some (0, m, s1) \<and>
    do_get_chmap ck ctl eid \<lparr>chmap_channels = chmap_channels m, chmap_pos = junk\<rparr> s1 = Some (0, m, s1)"
proof -
  have n: "unat (chmap_channels m) = length (chmap_pos m)" using assms(1,2) by (simp add: unat_of_nat)
  have z: "length (value_data (chmap_value eid)) = 1024" "value_id (chmap_value eid) = eid" by (simp_all add: chmap_value_def blank_value_def)
  from positions_stored [OF z(1), of 0 "chmap_pos m"] assms(2) z(2) obtain val where
    v: "store_positions (chmap_value eid) 0 (chmap_pos m) = Some val" "value_id val = eid"
    "\<forall>j < length (chmap_pos m). snd_ctl_elem_value_get_integer val (of_nat (0 + j)) = Some (uint (chmap_pos m ! j))" by auto
  have "snd_ctl_elem_value_get_integer ((chmap_value eid)\<lparr>value_data := value_data val\<rparr>) j = snd_ctl_elem_value_get_integer val j" for j
    by (simp add: snd_ctl_elem_value_get_integer_def)
  then have "load_positions ((chmap_value eid)\<lparr>value_data := value_data val\<rparr>) 0 (length (chmap_pos m)) = Some (chmap_pos m)"
    using v(3) by (intro positions_loaded) simp
  moreover have "do_set_chmap ck ctl eid m s = Some (0, m, put val s)"
    using v(1) n assms(3) by (simp add: do_set_chmap_def snd_ctl_elem_write_def status_def)
  ultimately show ?thesis using assms(4,5) n
    by (simp add: do_get_chmap_def snd_ctl_elem_read_def status_def)
qed

lemma copy_fds: "copy_chmaps k w st n s = Some (x, s') \<Longrightarrow> sys_fds s' = sys_fds s"
proof (induction n arbitrary: st s x s')
  case (Suc n)
  obtain ok s1 where m: "sys_calloc k s = (ok, s1)" by fastforce
  show ?case
  proof (cases ok)
    case True
    then obtain st' x' where "copy_chmaps k w st' n s1 = Some (x', s')"
      using Suc.prems m by (auto simp: bind_eq_Some_conv Let_def split: if_splits)
    then show ?thesis using Suc.IH sys_calloc_fds [OF m] by simp
  qed (use Suc.prems m sys_calloc_fds [OF m] in \<open>auto simp: bind_eq_Some_conv\<close>)
qed simp

lemma decode_fds: "decode_chmaps k w s = Some (x, s') \<Longrightarrow> sys_fds s' = sys_fds s"
  by (cases "sys_calloc k s"; cases "fst (sys_calloc k s)")
    (auto simp: decode_chmaps_def bind_eq_Some_conv split: option.split_asm prod.split_asm dest!: sys_calloc_fds copy_fds)

text \<open>A control device whose requests keep the descriptors of the process.\<close>

definition ctl_keeps_fds :: "'w sys ctl_kernel \<Rightarrow> bool" where
  "ctl_keeps_fds k \<longleftrightarrow>
     (\<forall>n nid tlv s r e t s'. k_tlv k n nid tlv s = (r, e, t, s') \<longrightarrow> sys_fds s' = sys_fds s) \<and>
     (\<forall>obj s r e i s'. k_elem_info k obj s = (r, e, i, s') \<longrightarrow> sys_fds s' = sys_fds s) \<and>
     (\<forall>n s ok s'. k_malloc k n s = (ok, s') \<longrightarrow> sys_fds s' = sys_fds s)"

lemma hw_elem_tlv_fds:
  assumes "ctl_keeps_fds k" "hw_elem_tlv k p n nid t sz w = Some (x, y, w')"
  shows "sys_fds w' = sys_fds w"
proof -
  obtain ok w1 where m: "k_malloc k (8 + unat sz) w = (ok, w1)" by fastforce
  obtain r e t' w2 where q: "k_tlv k n nid (take (unat sz) t) w1 = (r, e, t', w2)" by (metis prod_cases4)
  have "w' = w \<or> w' = w1 \<or> w' = w2"
    using assms(2) m q by (cases ok) (auto simp: hw_elem_tlv_def bind_eq_Some_conv split: if_splits)
  then show ?thesis using assms(1) m q by (auto simp: ctl_keeps_fds_def)
qed

lemma tlv_do_fds:
  assumes "ctl_keeps_fds k" "snd_ctl_tlv_do k p i0 n eid t sz w = Some (x, y, w')"
  shows "sys_fds w' = sys_fds w"
proof -
  obtain r e i w1 where q: "k_elem_info k (i0\<lparr>info_id := eid\<rparr>) w = (r, e, i, w1)" by (metis prod_cases4)
  have "sys_fds w1 = sys_fds w" using assms(1) q by (auto simp: ctl_keeps_fds_def)
  then show ?thesis using assms(2) q
    by (auto simp: snd_ctl_tlv_do_def snd_ctl_elem_info0_def status_def split: if_splits dest!: hw_elem_tlv_fds [OF assms(1)])
qed

lemma read_tlv_fds:
  assumes "\<forall>fd. ctl_keeps_fds (ck fd)" "do_read_tlv ck info0 ctl eid tlv s = Some (r, out, s')"
  shows "sys_fds s' = sys_fds s"
proof -
  from assms(2) obtain tlv1 x where "snd_ctl_tlv_do (ck (ctl_fd ctl)) (ctl_protocol ctl) info0 TLV_READ eid tlv1 1024 s = Some (x, out, s')"
    by (auto simp: do_read_tlv_def snd_ctl_elem_tlv_read_def bind_eq_Some_conv split: if_splits)
  then show ?thesis by (rule tlv_do_fds [OF spec [OF assms(1)]])
qed

lemma do_ctl_chmap_fds:
  assumes "do_ctl_chmap k uninit crd d subdev strm func arg s = Some (ret, out, s')"
    and "\<And>ctl s r out s'. func ctl (chmap_id d subdev strm) arg s = Some (r, out, s') \<Longrightarrow> sys_fds s' = sys_fds s"
  shows "sys_fds s' \<subseteq> sys_fds s"
proof -
  obtain e h s1 where o: "snd_ctl_open k uninit (''hw:'' @ show_int crd) 0 s = Some (e, h, s1)"
    using assms(1) by (auto simp: do_ctl_chmap_def bind_eq_Some_conv sprintf_array_def split: if_splits simp del: append_Cons)
  note cl = ctl_open_clean [OF o]
  show ?thesis
  proof (cases h)
    case None
    then have "e < 0" using cl by (simp add: clean_open_def)
    then have "s' = s1" using assms(1) o by (auto simp: do_ctl_chmap_def bind_eq_Some_conv sprintf_array_def split: if_splits simp del: append_Cons)
    then show ?thesis using cl None by (simp add: clean_open_def)
  next
    case (Some ctl)
    then have c: "e = 0" "sys_fds s1 \<subseteq> insert (ctl_fd ctl) (sys_fds s)" using cl by (auto simp: clean_open_def)
    then obtain r2 out2 s2 where f: "func ctl (chmap_id d subdev strm) arg s1 = Some (r2, out2, s2)"
      using assms(1) o Some by (auto simp: do_ctl_chmap_def bind_eq_Some_conv sprintf_array_def split: if_splits simp del: append_Cons)
    obtain x s3 where cls: "sys_close k (ctl_fd ctl) s2 = (x, s3)" by fastforce
    have "s' = s3" using assms(1) o Some c f cls
      by (auto simp: do_ctl_chmap_def bind_eq_Some_conv sprintf_array_def split: if_splits simp del: append_Cons)
    then show ?thesis using assms(2) [OF f] c sys_close_fds [OF cls] by auto
  qed
qed

text \<open>Asking for the maps of a stream leaves no descriptor of the control device open, whatever the driver answers.\<close>
theorem chmap_query_closes:
  assumes "\<forall>fd. ctl_keeps_fds (ck fd)" "snd_pcm_query_chmaps_from_hw k ck uninit info0 tlv crd d subdev strm s = Some (r, s')"
  shows "sys_fds s' \<subseteq> sys_fds s"
proof -
  obtain ret out s1 where q: "do_ctl_chmap k uninit crd d subdev strm (do_read_tlv ck info0) tlv s = Some (ret, out, s1)"
    and rest: "(if ret < 0 then Some (None, s1) else decode_chmaps k (words_of_bytes out) s1) = Some (r, s')"
    using assms(2) by (auto simp: snd_pcm_query_chmaps_from_hw_def bind_eq_Some_conv)
  have "sys_fds s' = sys_fds s1" using rest by (auto split: if_splits dest: decode_fds)
  moreover have "sys_fds s1 \<subseteq> sys_fds s" by (rule do_ctl_chmap_fds [OF q]) (rule read_tlv_fds [OF assms(1)])
  ultimately show ?thesis by simp
qed

section \<open>Witnesses\<close>

definition two_maps :: "snd_pcm_chmap_query list" where
  "two_maps = [\<lparr>query_type = 1, query_map = \<lparr>chmap_channels = 2, chmap_pos = [3, 4]\<rparr>\<rparr>, \<lparr>query_type = 2, query_map = \<lparr>chmap_channels = 1, chmap_pos = [2]\<rparr>\<rparr>]"

theorem driver_chmaps_returned_witness:
  "\<exists>s'. decode_chmaps plain_sys [0, 28, 0x101, 8, 3, 4, 0x102, 4, 2, 0] no_files = Some (Some two_maps, s')"
proof -
  have "enough_memory plain_sys" by (simp add: enough_memory_def plain_sys_def)
  moreover have w: "queries_words two_maps = [0x101, 8, 3, 4, 0x102, 4, 2]" by (simp add: two_maps_def query_words_def)
  moreover have "\<forall>q \<in> set two_maps. query_ok q" by (simp add: two_maps_def query_ok_def)
  ultimately show ?thesis using driver_chmaps_returned [of plain_sys two_maps "[0]" no_files] by (simp add: w)
qed

text \<open>A driver whose world is the value of its element.\<close>

definition value_driver :: "u8 list sys ctl_kernel" where
  "value_driver = \<lparr>k_card_info = (\<lambda>i w. (0, 0, i, w)), k_elem_info = (\<lambda>i w. (0, 0, i, w)), k_elem_add = (\<lambda>i _ w. (0, 0, i, w)),
     k_elem_remove = (\<lambda>i w. (0, 0, i, w)), k_elem_read = (\<lambda>v w. (0, 0, v\<lparr>value_data := sys_world w\<rparr>, w)),
     k_elem_write = (\<lambda>v w. (0, 0, v, w\<lparr>sys_world := value_data v\<rparr>)), k_elem_lock = (\<lambda>i w. (0, 0, i, w)), k_elem_unlock = (\<lambda>i w. (0, 0, i, w)),
     k_hwdep_next = (\<lambda>i w. (0, 0, i, w)), k_pcm_next = (\<lambda>i w. (0, 0, i, w)), k_pcm_prefer = (\<lambda>i w. (0, 0, i, w)),
     k_rawmidi_next = (\<lambda>i w. (0, 0, i, w)), k_rawmidi_prefer = (\<lambda>i w. (0, 0, i, w)), k_tlv = (\<lambda>_ _ t w. (0, 0, t, w)),
     k_malloc = (\<lambda>_ w. (True, w)), k_poll = (\<lambda>_ w. (0, 0, 0, w))\<rparr>"

definition value_start :: "u8 list sys" where
  "value_start = \<lparr>sys_errno = 0, sys_fds = {}, sys_world = []\<rparr>"

theorem chmap_set_get_witness:
  "\<exists>s1. do_set_chmap (\<lambda>_. value_driver) (new_ctl 0 5 1) (chmap_id 0 0 0) stereo_map value_start = Some (0, stereo_map, s1) \<and>
    do_get_chmap (\<lambda>_. value_driver) (new_ctl 0 5 1) (chmap_id 0 0 0) \<lparr>chmap_channels = 3, chmap_pos = []\<rparr> s1 = Some (0, stereo_map, s1)"
proof -
  have m: "chmap_channels stereo_map = of_nat (length (chmap_pos stereo_map))" "length (chmap_pos stereo_map) \<le> 128" "chmap_channels stereo_map = 3"
    by (simp_all add: stereo_map_def)
  show ?thesis
    using chmap_set_get [OF m(1,2), of "\<lambda>_. value_driver" "new_ctl 0 5 1" "\<lambda>v w. w\<lparr>sys_world := value_data v\<rparr>" sys_world "chmap_id 0 0 0" value_start "[]"]
    by (simp add: m(3) value_driver_def)
qed

theorem chmap_query_closes_witness:
  "\<exists>r s'. snd_pcm_query_chmaps_from_hw easy_sys (\<lambda>_. value_driver) blank_card_info blank_info (replicate 1024 0) 7 0 0 0 value_start = Some (r, s') \<and>
     sys_fds s' \<subseteq> sys_fds value_start"
proof -
  have keep: "\<forall>fd :: int. ctl_keeps_fds value_driver" by (simp add: ctl_keeps_fds_def value_driver_def)
  have n: "show_int 7 = ''7''" "scan_int True ''7'' = Some (Some (7, []))" by code_simp+
  have "snd_card_load easy_sys 7 value_start = Some (True, value_start)"
    by (simp add: snd_card_load_def control_name_def sprintf_array_def n sys_access_def sys_result_def easy_sys_def value_start_def)
  then have d: "snd_dev_get_device easy_sys blank_card_info ''hw:7'' False False value_start = Some (0, 7, None, None, value_start)"
    by (simp add: snd_dev_get_device_def strip_prefix_def strneq_def snd_card_get_index_def n)
  have "\<exists>s. snd_ctl_open easy_sys blank_card_info ''hw:7'' 0 value_start = Some (0, Some (new_ctl 7 5 0x20010), s)"
    using d by (simp add: snd_ctl_open_def open_device_def sys_open_def sys_version_def sys_calloc_def sys_result_def easy_sys_def del: append_Cons)
  then obtain s where o: "snd_ctl_open easy_sys blank_card_info ''hw:7'' 0 value_start = Some (0, Some (new_ctl 7 5 0x20010), s)" by blast
  have "\<exists>r s'. snd_pcm_query_chmaps_from_hw easy_sys (\<lambda>_. value_driver) blank_card_info blank_info (replicate 1024 0) 7 0 0 0 value_start = Some (r, s')"
    using o by (simp add: snd_pcm_query_chmaps_from_hw_def do_ctl_chmap_def sprintf_array_def n do_read_tlv_def snd_ctl_elem_tlv_read_def store_def
        snd_ctl_tlv_do_def chmap_id_def snd_ctl_elem_info0_def status_def value_driver_def sys_close_def easy_sys_def sys_result_def)
  then obtain r s' where q: "snd_pcm_query_chmaps_from_hw easy_sys (\<lambda>_. value_driver) blank_card_info blank_info (replicate 1024 0) 7 0 0 0 value_start = Some (r, s')" by blast
  from chmap_query_closes [OF keep q] q show ?thesis by blast
qed

end
