(* ===== verification/Ctl_Tlv.thy ===== *)
theory Ctl_Tlv
  imports Salsa_Prelude
begin

text \<open>
  The TLV data of control elements and the conversion between raw volumes and gains in 1/100 dB:
  \<^verbatim>\<open>src/src/control.c\<close>.

  A TLV pointer is a buffer of words and an offset into it; reading outside the buffer returns \<open>None\<close>, and
  so does a signed overflow, in \<^verbatim>\<open>long\<close> or in \<^verbatim>\<open>int\<close> arithmetic, and the use of a variable that is not
  initialised.  What a function stores through a pointer is an optional result: \<open>None\<close> where it stores
  nothing.  The build without floating point is modelled, where the linear scale is refused.
\<close>

section \<open>Definitions\<close>

abbreviation (input) TLVT_CONTAINER :: u32 where "TLVT_CONTAINER \<equiv> 0"
abbreviation (input) TLVT_DB_SCALE :: u32 where "TLVT_DB_SCALE \<equiv> 1"
abbreviation (input) TLVT_DB_LINEAR :: u32 where "TLVT_DB_LINEAR \<equiv> 2"
abbreviation (input) TLVT_DB_RANGE :: u32 where "TLVT_DB_RANGE \<equiv> 3"
abbreviation (input) TLVT_DB_MINMAX :: u32 where "TLVT_DB_MINMAX \<equiv> 4"
abbreviation (input) TLVT_DB_MINMAX_MUTE :: u32 where "TLVT_DB_MINMAX_MUTE \<equiv> 5"
abbreviation (input) GAIN_MUTE :: int where "GAIN_MUTE \<equiv> - 9999999"
abbreviation (input) MAX_TLV_RANGE_SIZE :: nat where "MAX_TLV_RANGE_SIZE \<equiv> 256"

definition int_index :: "u32 \<Rightarrow> nat" where
  "int_index n = (unat n + 3) div 4"

function snd_tlv_parse_dB_info :: "u32 list \<Rightarrow> nat \<Rightarrow> u32 \<Rightarrow> (int \<times> nat option) option"
  and parse_container :: "u32 list \<Rightarrow> nat \<Rightarrow> u32 \<Rightarrow> (int \<times> nat option) option" where
  "snd_tlv_parse_dB_info buf p tlv_size = do {
     ty \<leftarrow> array_get buf p;
     sz \<leftarrow> array_get buf (p + 1);
     (let tlv_size = tlv_size - 8
      in if sz > tlv_size then Some (- EINVAL, None)
         else if ty = TLVT_CONTAINER then parse_container buf (p + 2) (of_nat (int_index sz * 4))
         else if ty = TLVT_DB_SCALE \<or> ty = TLVT_DB_MINMAX \<or> ty = TLVT_DB_MINMAX_MUTE \<or> ty = TLVT_DB_RANGE
           then Some (sint (sz + 8), Some p)
         else Some (0, None)) }"
| "parse_container buf p sz =
     (if sz > 0 then do {
        (err, q) \<leftarrow> snd_tlv_parse_dB_info buf p sz;
        (if err \<noteq> 0 then Some (err, q)
         else do {
           l \<leftarrow> array_get buf (p + 1);
           (let len = int_index l + 2 in parse_container buf (p + len) (sz - of_nat (len * 4))) }) }
      else Some (- EINVAL, None))"
  by pat_completeness auto
termination
  by (relation "measure (\<lambda>x. case x of Inl (buf, p, _) \<Rightarrow> 2 * (length buf - p) | Inr (buf, p, _) \<Rightarrow> 2 * (length buf - p) + 1)")
    (auto simp: array_get_eq_Some)

definition tlv_to_dB_scale :: "u32 list \<Rightarrow> nat \<Rightarrow> int \<Rightarrow> int \<Rightarrow> int \<Rightarrow> (int \<times> int option) option" where
  "tlv_to_dB_scale buf p rangemin rangemax volume = do {
     mn \<leftarrow> array_get buf (p + 2);
     t3 \<leftarrow> array_get buf (p + 3);
     (let stp = uint (t3 AND 0xffff);
          mute = drop_bit 16 t3 AND 1
      in if mute \<noteq> 0 \<and> volume = rangemin then Some (0, Some GAIN_MUTE)
         else do {
           d \<leftarrow> long (volume - rangemin);
           g \<leftarrow> long (d * stp);
           g \<leftarrow> long (g + sint mn);
           Some (0, Some g) }) }"

definition tlv_to_dB_minmax :: "u32 list \<Rightarrow> nat \<Rightarrow> int \<Rightarrow> int \<Rightarrow> int \<Rightarrow> (int \<times> int option) option" where
  "tlv_to_dB_minmax buf p rangemin rangemax volume = do {
     mindb \<leftarrow> array_get buf (p + 2);
     maxdb \<leftarrow> array_get buf (p + 3);
     ty \<leftarrow> array_get buf p;
     (if volume \<le> rangemin \<or> rangemax \<le> rangemin then
        Some (0, Some (if ty = TLVT_DB_MINMAX_MUTE then GAIN_MUTE else sint mindb))
      else if volume \<ge> rangemax then Some (0, Some (sint maxdb))
      else do {
        d \<leftarrow> int32 (sint maxdb - sint mindb);
        v \<leftarrow> long (volume - rangemin);
        n \<leftarrow> long (d * v);
        r \<leftarrow> long (rangemax - rangemin);
        g \<leftarrow> long (n sdiv r + sint mindb);
        Some (0, Some g) }) }"

definition tlv_to_dB_linear :: "(int \<times> int option) option" where
  "tlv_to_dB_linear = Some (- EINVAL, None)"

function snd_tlv_convert_to_dB :: "u32 list \<Rightarrow> nat \<Rightarrow> int \<Rightarrow> int \<Rightarrow> int \<Rightarrow> (int \<times> int option) option"
  and to_dB_range_loop :: "u32 list \<Rightarrow> nat \<Rightarrow> nat \<Rightarrow> nat \<Rightarrow> int \<Rightarrow> (int \<times> int option) option" where
  "snd_tlv_convert_to_dB buf p rangemin rangemax volume = do {
     ty \<leftarrow> array_get buf p;
     (if ty = TLVT_DB_RANGE then do {
        l \<leftarrow> array_get buf (p + 1);
        (if int_index l > MAX_TLV_RANGE_SIZE then Some (- EINVAL, None)
         else to_dB_range_loop buf p 2 (int_index l) volume) }
      else if ty = TLVT_DB_SCALE then tlv_to_dB_scale buf p rangemin rangemax volume
      else if ty = TLVT_DB_MINMAX \<or> ty = TLVT_DB_MINMAX_MUTE then tlv_to_dB_minmax buf p rangemin rangemax volume
      else if ty = TLVT_DB_LINEAR then tlv_to_dB_linear
      else Some (- EINVAL, None)) }"
| "to_dB_range_loop buf p pos len volume =
     (if pos + 4 \<le> len then do {
        rangemin \<leftarrow> array_get buf (p + pos);
        rangemax \<leftarrow> array_get buf (p + pos + 1);
        (if volume \<ge> sint rangemin \<and> volume \<le> sint rangemax
         then snd_tlv_convert_to_dB buf (p + pos + 2) (sint rangemin) (sint rangemax) volume
         else do {
           l \<leftarrow> array_get buf (p + pos + 3);
           to_dB_range_loop buf p (pos + 3 + int_index l + 1) len volume }) }
      else Some (- EINVAL, None))"
  by pat_completeness auto
termination
  by (relation "measures [\<lambda>x. case x of Inl (buf, p, _) \<Rightarrow> length buf - p | Inr (buf, p, _) \<Rightarrow> length buf - p,
      \<lambda>x. case x of Inl _ \<Rightarrow> 1 | Inr _ \<Rightarrow> 0, \<lambda>x. case x of Inl _ \<Rightarrow> 0 | Inr (_, _, pos, len, _) \<Rightarrow> len - pos]")
    (auto simp: array_get_eq_Some)

definition tlv_range_dB_scale :: "u32 list \<Rightarrow> nat \<Rightarrow> int \<Rightarrow> int \<Rightarrow> (int \<times> int option \<times> int option) option" where
  "tlv_range_dB_scale buf p rangemin rangemax = do {
     t3 \<leftarrow> array_get buf (p + 3);
     t2 \<leftarrow> array_get buf (p + 2);
     (let mn = (if t3 AND 0x10000 \<noteq> 0 then GAIN_MUTE else sint t2);
          stp = uint (t3 AND 0xffff)
      in do {
        d \<leftarrow> long (rangemax - rangemin);
        m \<leftarrow> long (stp * d);
        mx \<leftarrow> long (sint t2 + m);
        Some (0, Some mn, Some mx) }) }"

text \<open>\<open>mn\<close> and \<open>mx\<close> are the contents of \<^verbatim>\<open>*min\<close> and \<^verbatim>\<open>*max\<close>, \<open>None\<close> as long as they are not initialised.\<close>

function snd_tlv_get_dB_range :: "u32 list \<Rightarrow> nat \<Rightarrow> int \<Rightarrow> int \<Rightarrow> int option \<Rightarrow> int option \<Rightarrow>
      (int \<times> int option \<times> int option) option"
  and range_dB_range_loop :: "u32 list \<Rightarrow> nat \<Rightarrow> nat \<Rightarrow> nat \<Rightarrow> int \<Rightarrow> int option \<Rightarrow> int option \<Rightarrow>
      (int \<times> int option \<times> int option) option" where
  "snd_tlv_get_dB_range buf p rangemin rangemax mn mx = do {
     ty \<leftarrow> array_get buf p;
     (if ty = TLVT_DB_RANGE then do {
        l \<leftarrow> array_get buf (p + 1);
        (if int_index l > MAX_TLV_RANGE_SIZE then Some (- EINVAL, mn, mx)
         else range_dB_range_loop buf p 2 (int_index l) rangemax mn mx) }
      else if ty = TLVT_DB_SCALE then tlv_range_dB_scale buf p rangemin rangemax
      else if ty = TLVT_DB_MINMAX \<or> ty = TLVT_DB_LINEAR then do {
        t2 \<leftarrow> array_get buf (p + 2);
        t3 \<leftarrow> array_get buf (p + 3);
        Some (0, Some (sint t2), Some (sint t3)) }
      else if ty = TLVT_DB_MINMAX_MUTE then do {
        t3 \<leftarrow> array_get buf (p + 3);
        Some (0, Some GAIN_MUTE, Some (sint t3)) }
      else Some (- EINVAL, mn, mx)) }"
| "range_dB_range_loop buf p pos len rangemax mn mx =
     (if pos + 4 \<le> len then do {
        submin \<leftarrow> array_get buf (p + pos);
        submax \<leftarrow> array_get buf (p + pos + 1);
        (let submax = (if rangemax < sint submax then rangemax else sint submax) in do {
        (err, rmin, rmax) \<leftarrow> snd_tlv_get_dB_range buf (p + pos + 2) (sint submin) submax None None;
        (if err < 0 then Some (err, mn, mx)
         else do {
           rmin \<leftarrow> rmin;
           rmax \<leftarrow> rmax;
           (mn, mx) \<leftarrow>
             (if pos + 2 > 4 then do {
                mn \<leftarrow> mn;
                mx \<leftarrow> mx;
                Some (if rmin < mn then rmin else mn, if rmax > mx then rmax else mx) }
              else Some (rmin, rmax));
           (if rangemax = submax then Some (0, Some mn, Some mx)
            else do {
              l \<leftarrow> array_get buf (p + pos + 3);
              range_dB_range_loop buf p (pos + 3 + int_index l + 1) len rangemax (Some mn) (Some mx) }) }) }) }
      else Some (0, mn, mx))"
  by pat_completeness auto
termination
  by (relation "measures [\<lambda>x. case x of Inl (buf, p, _) \<Rightarrow> length buf - p | Inr (buf, p, _) \<Rightarrow> length buf - p,
      \<lambda>x. case x of Inl _ \<Rightarrow> 1 | Inr _ \<Rightarrow> 0, \<lambda>x. case x of Inl _ \<Rightarrow> 0 | Inr (_, _, pos, len, _) \<Rightarrow> len - pos]")
    (auto simp: array_get_eq_Some)

definition tlv_from_dB_minmax0 :: "int \<Rightarrow> int \<Rightarrow> int \<Rightarrow> int \<Rightarrow> int \<Rightarrow> int \<Rightarrow> bool \<Rightarrow> int option" where
  "tlv_from_dB_minmax0 rangemin rangemax db_gain xdir mn mx have_mute =
     (if db_gain \<le> mn then
        if db_gain > GAIN_MUTE \<and> xdir > 0 \<and> have_mute then long (rangemin + 1) else Some rangemin
      else if db_gain \<ge> mx then Some rangemax
      else do {
        d \<leftarrow> long (db_gain - mn);
        r \<leftarrow> long (rangemax - rangemin);
        v \<leftarrow> long (d * r);
        w \<leftarrow> int32 (mx - mn);
        v \<leftarrow> (if xdir > 0 then long (v + (w - 1)) else Some v);
        long (v sdiv w + rangemin) })"

definition tlv_from_dB_scale :: "u32 list \<Rightarrow> nat \<Rightarrow> int \<Rightarrow> int \<Rightarrow> int \<Rightarrow> int \<Rightarrow> (int \<times> int option) option" where
  "tlv_from_dB_scale buf p rangemin rangemax db_gain xdir = do {
     mn \<leftarrow> array_get buf (p + 2);
     t3 \<leftarrow> array_get buf (p + 3);
     (let stp = uint (t3 AND 0xffff) in do {
     r \<leftarrow> long (rangemax - rangemin);
     m \<leftarrow> long (stp * r);
     mx \<leftarrow> int32 (sint mn + sint (word_of_int m :: u32));
     v \<leftarrow> tlv_from_dB_minmax0 rangemin rangemax db_gain xdir (sint mn) mx (t3 AND 0x10000 \<noteq> 0);
     Some (0, Some v) }) }"

definition tlv_from_dB_minmax :: "u32 list \<Rightarrow> nat \<Rightarrow> int \<Rightarrow> int \<Rightarrow> int \<Rightarrow> int \<Rightarrow> (int \<times> int option) option" where
  "tlv_from_dB_minmax buf p rangemin rangemax db_gain xdir = do {
     mn \<leftarrow> array_get buf (p + 2);
     mx \<leftarrow> array_get buf (p + 3);
     ty \<leftarrow> array_get buf p;
     v \<leftarrow> tlv_from_dB_minmax0 rangemin rangemax db_gain xdir (sint mn) (sint mx) (ty = TLVT_DB_MINMAX_MUTE);
     Some (0, Some v) }"

definition tlv_from_dB_linear :: "(int \<times> int option) option" where
  "tlv_from_dB_linear = Some (- EINVAL, None)"

text \<open>
  The loop of \<^verbatim>\<open>tlv_from_dB_range\<close>, which reads each entry two words too far: \<open>pos\<close> has been advanced past the
  two limits, and 2 and 3 are added to it again.
\<close>

function snd_tlv_convert_from_dB :: "u32 list \<Rightarrow> nat \<Rightarrow> int \<Rightarrow> int \<Rightarrow> int \<Rightarrow> int \<Rightarrow> (int \<times> int option) option"
  and from_dB_range_loop :: "u32 list \<Rightarrow> nat \<Rightarrow> nat \<Rightarrow> nat \<Rightarrow> int \<Rightarrow> int \<Rightarrow> int \<Rightarrow> int \<Rightarrow> int option \<Rightarrow> int option \<Rightarrow>
      (int \<times> int option) option" where
  "snd_tlv_convert_from_dB buf p rangemin rangemax db_gain xdir = do {
     ty \<leftarrow> array_get buf p;
     (if ty = TLVT_DB_RANGE then do {
        l \<leftarrow> array_get buf (p + 1);
        (if int_index l < 6 \<or> int_index l > MAX_TLV_RANGE_SIZE then Some (- EINVAL, None)
         else from_dB_range_loop buf p 2 (int_index l) rangemax db_gain xdir 0 None None) }
      else if ty = TLVT_DB_SCALE then tlv_from_dB_scale buf p rangemin rangemax db_gain xdir
      else if ty = TLVT_DB_MINMAX \<or> ty = TLVT_DB_MINMAX_MUTE then tlv_from_dB_minmax buf p rangemin rangemax db_gain xdir
      else if ty = TLVT_DB_LINEAR then tlv_from_dB_linear
      else Some (- EINVAL, None)) }"
| "from_dB_range_loop buf p pos len rangemax db_gain xdir prev_submax dbmin dbmax =
     (if pos + 4 \<le> len then do {
        submin \<leftarrow> array_get buf (p + pos);
        submax \<leftarrow> array_get buf (p + pos + 1);
        (let submax = (if rangemax < sint submax then rangemax else sint submax);
             pos = pos + 2
         in do {
        (err, dbmin, dbmax) \<leftarrow> snd_tlv_get_dB_range buf (p + pos + 2) (sint submin) submax dbmin dbmax;
        m \<leftarrow> dbmin;
        inside \<leftarrow> (if err \<noteq> 0 \<or> db_gain < m then Some False else do { mx \<leftarrow> dbmax; Some (db_gain \<le> mx) });
        (if inside then snd_tlv_convert_from_dB buf (p + pos + 2) (sint submin) submax db_gain xdir
         else if db_gain < m then Some (0, Some (if xdir > 0 \<or> pos = 2 then sint submin else prev_submax))
         else if rangemax = submax then Some (0, Some submax)
         else do {
           l \<leftarrow> array_get buf (p + pos + 3);
           from_dB_range_loop buf p (pos + int_index l + 4) len rangemax db_gain xdir submax dbmin dbmax }) }) }
      else Some (0, Some prev_submax))"
  by pat_completeness auto
termination
  by (relation "measures [\<lambda>x. case x of Inl (buf, p, _) \<Rightarrow> length buf - p | Inr (buf, p, _) \<Rightarrow> length buf - p,
      \<lambda>x. case x of Inl _ \<Rightarrow> 1 | Inr _ \<Rightarrow> 0, \<lambda>x. case x of Inl _ \<Rightarrow> 0 | Inr (_, _, pos, len, _) \<Rightarrow> len - pos]")
    (auto simp: array_get_eq_Some)

declare snd_tlv_parse_dB_info.simps [simp del] parse_container.simps [simp del]
  snd_tlv_convert_to_dB.simps [simp del] to_dB_range_loop.simps [simp del]
  snd_tlv_get_dB_range.simps [simp del] range_dB_range_loop.simps [simp del]
  snd_tlv_convert_from_dB.simps [simp del] from_dB_range_loop.simps [simp del]

section \<open>Finding the dB information\<close>

text \<open>
  What a TLV buffer holds: data of a type other than 0, or a container of such.  \<open>tlv_words\<close> lays it out in
  words; \<open>tlv_find\<close> is the search for dB information, which gives up at the first container without any.
\<close>

datatype tlv = Data u32 "u32 list" | Container "tlv list"

fun tlv_words :: "tlv \<Rightarrow> u32 list" where
  "tlv_words (Data ty ws) = ty # of_nat (4 * length ws) # ws"
| "tlv_words (Container ts) =
     (let ws = concat (map tlv_words ts) in TLVT_CONTAINER # of_nat (4 * length ws) # ws)"

fun wf_tlv :: "tlv \<Rightarrow> bool" where
  "wf_tlv (Data ty ws) \<longleftrightarrow> ty \<noteq> TLVT_CONTAINER"
| "wf_tlv (Container ts) \<longleftrightarrow> list_all wf_tlv ts"

definition db_type :: "u32 \<Rightarrow> bool" where
  "db_type ty \<longleftrightarrow> ty = TLVT_DB_SCALE \<or> ty = TLVT_DB_MINMAX \<or> ty = TLVT_DB_MINMAX_MUTE \<or> ty = TLVT_DB_RANGE"

fun tlv_find :: "nat \<Rightarrow> tlv \<Rightarrow> int \<times> nat option"
  and tlv_scan :: "nat \<Rightarrow> tlv list \<Rightarrow> int \<times> nat option" where
  "tlv_find p (Data ty ws) = (if db_type ty then (int (4 * length ws + 8), Some p) else (0, None))"
| "tlv_find p (Container ts) = tlv_scan (p + 2) ts"
| "tlv_scan p [] = (- EINVAL, None)"
| "tlv_scan p (t # ts) =
     (case tlv_find p t of (r, q) \<Rightarrow> if r \<noteq> 0 then (r, q) else tlv_scan (p + length (tlv_words t)) ts)"

lemma array_get_drop: "drop p xs = a # ys \<Longrightarrow> array_get xs p = Some a \<and> drop (Suc p) xs = ys"
proof -
  assume d: "drop p xs = a # ys"
  then have "p < length xs" by (metis drop_all list.distinct(1) not_le)
  with d show ?thesis by (metis Cons_nth_drop_Suc array_get_in list.inject)
qed

lemma int_index_words: "4 * n < 2 ^ 32 \<Longrightarrow> int_index (of_nat (4 * n)) = n"
  by (simp add: int_index_def unsigned_of_nat take_bit_nat_eq_self del: of_nat_mult)

lemma tlv_words_length: "length (tlv_words t) \<ge> 2"
  by (cases t) (simp_all add: Let_def)

lemma unat_words: "4 * n < 2 ^ 32 \<Longrightarrow> unat (of_nat (4 * n) :: u32) = 4 * n"
  by (simp add: unsigned_of_nat take_bit_nat_eq_self del: of_nat_mult)

lemma tlv_second: "\<exists>ty. tlv_words t = ty # of_nat (4 * (length (tlv_words t) - 2)) # drop 2 (tlv_words t)"
  by (cases t) (simp_all add: Let_def del: of_nat_mult)

text \<open>An entry that fits its space passes the size check.\<close>

lemma entry_size_ok:
  assumes "4 * length (tlv_words t) \<le> unat (tlv_size :: u32)"
  shows "\<not> of_nat (4 * (length (tlv_words t) - 2)) > tlv_size - 8"
proof -
  have n: "4 * length (tlv_words t) < 2 ^ 32" using assms unat_u32_less [of tlv_size] by simp
  have "8 \<le> unat tlv_size" using assms tlv_words_length [of t] by simp
  then have "unat (tlv_size - 8) = unat tlv_size - 8" by (simp add: unat_sub word_le_nat_alt)
  moreover have "unat (of_nat (4 * (length (tlv_words t) - 2)) :: u32) = 4 * (length (tlv_words t) - 2)"
    using n by (intro unat_words) simp
  ultimately show ?thesis using assms by (simp add: word_less_nat_alt)
qed

lemma parse_finds:
  shows "wf_tlv t \<Longrightarrow> drop p buf = tlv_words t @ ys \<Longrightarrow> 4 * length (tlv_words t) \<le> unat tlv_size \<Longrightarrow>
     4 * length (tlv_words t) < 2 ^ 31 \<Longrightarrow> snd_tlv_parse_dB_info buf p tlv_size = Some (tlv_find p t)"
    and "list_all wf_tlv ts \<Longrightarrow> drop p buf = concat (map tlv_words ts) @ ys \<Longrightarrow>
     4 * length (concat (map tlv_words ts)) < 2 ^ 31 \<Longrightarrow>
     parse_container buf p (of_nat (4 * length (concat (map tlv_words ts)))) = Some (tlv_scan p ts)"
proof (induction p t and p ts arbitrary: ys tlv_size and ys rule: tlv_find_tlv_scan.induct)
  case (1 p ty ws)
  let ?sz = "of_nat (4 * length ws) :: u32"
  have "array_get buf p = Some ty" "array_get buf (p + 1) = Some ?sz"
    using 1(2) array_get_drop [of p buf ty] array_get_drop [of "Suc p" buf ?sz] by (simp_all del: of_nat_mult)
  moreover have "\<not> ?sz > tlv_size - 8" using entry_size_ok [OF 1(3)] by (simp del: of_nat_mult)
  moreover have "sint (?sz + 8) = int (4 * length ws + 8)"
  proof -
    have "?sz + 8 = of_nat (4 * length ws + 8)" by simp
    moreover have "4 * length ws + 8 < 2 ^ 31" using 1(4) by simp
    ultimately show ?thesis by (simp only: signed_of_nat) (simp add: signed_take_bit_int_eq_self)
  qed
  ultimately show ?case using 1(1) by (simp add: snd_tlv_parse_dB_info.simps db_type_def Let_def del: of_nat_mult)
next
  case (2 p ts)
  let ?ws = "concat (map tlv_words ts)"
  let ?sz = "of_nat (4 * length ?ws) :: u32"
  have g: "array_get buf p = Some 0" "array_get buf (p + 1) = Some ?sz" "drop (p + 2) buf = ?ws @ ys"
    using 2(3) array_get_drop [of p buf 0] array_get_drop [of "Suc p" buf ?sz] by (simp_all add: Let_def del: of_nat_mult)
  have "\<not> ?sz > tlv_size - 8" using entry_size_ok [OF 2(4)] by (simp add: Let_def del: of_nat_mult)
  moreover have "int_index ?sz = length ?ws" using 2(5) by (intro int_index_words) (simp add: Let_def)
  moreover have "parse_container buf (p + 2) (of_nat (4 * length ?ws)) = Some (tlv_scan (p + 2) ts)"
    using 2(2,5) g(3) by (intro 2(1)) (simp_all add: Let_def)
  ultimately show ?case using g(1,2) by (simp add: snd_tlv_parse_dB_info.simps Let_def mult.commute del: of_nat_mult)
next
  case (3 p)
  then show ?case by (simp add: parse_container.simps)
next
  case (4 p t ts)
  let ?n = "length (tlv_words t)" and ?m = "length (concat (map tlv_words ts))"
  have sz: "4 * length (concat (map tlv_words (t # ts))) = 4 * (?n + ?m)" by simp
  have u: "unat (of_nat (4 * (?n + ?m)) :: u32) = 4 * (?n + ?m)" using 4(5) by (intro unat_words) simp
  have pos: "(0 :: u32) < of_nat (4 * (?n + ?m))" unfolding word_less_nat_alt u using tlv_words_length [of t] by auto
  have f: "snd_tlv_parse_dB_info buf p (of_nat (4 * (?n + ?m))) = Some (tlv_find p t)"
    using 4(3,4,5) u by (intro 4(1) [where ys = "concat (map tlv_words ts) @ ys"]) simp_all
  obtain r q where rq: "tlv_find p t = (r, q)" by fastforce
  show ?case
  proof (cases "r = 0")
    case True
    obtain k where k: "?n = k + 2" using tlv_words_length [of t] by (metis add.commute le_Suc_ex)
    obtain ty where "tlv_words t = ty # of_nat (4 * k) # drop 2 (tlv_words t)"
      using tlv_second [of t] k by (metis add_diff_cancel_right')
    then have "drop p buf = ty # of_nat (4 * k) # drop 2 (tlv_words t) @ concat (map tlv_words ts) @ ys"
      using 4(4) by (metis append_Cons append_assoc concat.simps(2) list.simps(9))
    from array_get_drop [OF conjunct2 [OF array_get_drop [OF this]]]
    have g: "array_get buf (p + 1) = Some (of_nat (4 * k))" by (simp del: of_nat_mult)
    have i: "int_index (of_nat (4 * k)) = k" using 4(5) k by (intro int_index_words) simp
    have d: "of_nat (4 * (?n + ?m)) - of_nat ((k + 2) * 4) = (of_nat (4 * ?m) :: u32)" unfolding k by (simp add: algebra_simps)
    have c: "parse_container buf (p + (k + 2)) (of_nat (4 * ?m)) = Some (tlv_scan (p + ?n) ts)" unfolding k [symmetric]
    proof (rule 4(2) [OF rq [symmetric]])
      have "drop (p + ?n) buf = drop ?n (drop p buf)" by (simp add: add.commute)
      then show "drop (p + ?n) buf = concat (map tlv_words ts) @ ys" using 4(4) by simp
    qed (use True 4(3,5) in simp_all)
    have "parse_container buf p (of_nat (4 * (?n + ?m))) = parse_container buf (p + (k + 2)) (of_nat (4 * (?n + ?m)) - of_nat ((k + 2) * 4))"
      using f rq True pos g i by (subst parse_container.simps) (simp only: if_True if_False Option.bind.simps prod.case Let_def not_False_eq_True simp_thms)
    also have "\<dots> = Some (tlv_scan (p + ?n) ts)" unfolding d c ..
    finally show ?thesis unfolding sz using rq True by (simp del: of_nat_mult of_nat_add)
  next
    case False
    with f rq pos show ?thesis unfolding sz by (subst parse_container.simps) (simp del: of_nat_mult of_nat_add)
  qed
qed

section \<open>Gains and volumes\<close>

text \<open>The limits of a control: raw values in 32 bits, so that the products of the conversions fit a \<^verbatim>\<open>long\<close>.\<close>

definition raw_range :: "int \<Rightarrow> int \<Rightarrow> bool" where
  "raw_range rmin rmax \<longleftrightarrow> - (2 ^ 31) \<le> rmin \<and> rmin < rmax \<and> rmax < 2 ^ 31"

lemma long_small: "\<bar>x\<bar> < 2 ^ 63 \<Longrightarrow> long x = Some x"
  by (simp add: long_def abs_less_iff)

lemma int32_small: "\<bar>x\<bar> < 2 ^ 31 \<Longrightarrow> int32 x = Some x"
  by (simp add: int32_def abs_less_iff)

lemma sdiv_pos: "0 \<le> a \<Longrightarrow> 0 < b \<Longrightarrow> a sdiv b = a div (b :: int)"
  by (simp add: signed_divide_int_def sgn_if)

lemma product_small:
  assumes "\<bar>a\<bar> < 2 ^ 31" "\<bar>b\<bar> < 2 ^ 32"
  shows "\<bar>a * b :: int\<bar> < 2 ^ 63 - 2 ^ 32"
proof -
  have "\<bar>a\<bar> * \<bar>b\<bar> \<le> (2 ^ 31 - 1) * (2 ^ 32 - 1)" using assms by (intro mult_mono) simp_all
  then show ?thesis by (simp add: abs_mult)
qed

lemma from_minmax_between:
  assumes r: "raw_range rmin rmax" and g: "mn < g" "g < mx" "mx - mn < 2 ^ 31"
  shows "tlv_from_dB_minmax0 rmin rmax g xdir mn mx mute =
     Some (((g - mn) * (rmax - rmin) + (if xdir > 0 then mx - mn - 1 else 0)) div (mx - mn) + rmin)"
proof -
  define d where "d = g - mn"
  define R where "R = rmax - rmin"
  define w where "w = mx - mn"
  have b: "0 < d" "d < w" "w < 2 ^ 31" "0 < R" "R < 2 ^ 32" using r g by (simp_all add: d_def R_def w_def raw_range_def)
  have dR: "0 < d * R" using b by simp
  have dR: "0 < d * R" "d * R < 2 ^ 63 - 2 ^ 32" using dR b product_small [of d R] by simp_all
  define n where "n = d * R + (if xdir > 0 then w - 1 else 0)"
  have n: "0 \<le> n" "n \<le> w * R + w - 1" "n < 2 ^ 63"
  proof -
    have "d * R \<le> w * R" using b by (intro mult_right_mono) simp_all
    moreover have c: "n = d * R \<or> n = d * R + (w - 1)" by (simp add: n_def)
    ultimately show "0 \<le> n" "n \<le> w * R + w - 1" using b dR by linarith+
    show "n < 2 ^ 63" using c b dR by auto
  qed
  have "n div w \<le> R"
  proof -
    have "n div w \<le> (w * R + (w - 1)) div w" using n(2) b by (intro zdiv_mono1) simp_all
    also have "\<dots> = R" using b by (simp add: div_add1_eq)
    finally show ?thesis .
  qed
  moreover have "0 \<le> n div w" using n b by (simp add: pos_imp_zdiv_nonneg_iff)
  ultimately have v: "\<bar>n div w + rmin\<bar> < 2 ^ 63" using r b by (simp add: raw_range_def R_def abs_less_iff)
  have "long d = Some d" "long R = Some R" "long (d * R) = Some (d * R)" "int32 w = Some w"
    "(if xdir > 0 then long (d * R + (w - 1)) else Some (d * R)) = Some n" "n sdiv w = n div w" "long (n div w + rmin) = Some (n div w + rmin)"
    using b dR n v by (auto simp: n_def intro!: long_small int32_small sdiv_pos)
  moreover have "\<not> g \<le> mn" "\<not> g \<ge> mx" using g by simp_all
  ultimately show ?thesis
    unfolding tlv_from_dB_minmax0_def d_def [symmetric] R_def [symmetric] w_def [symmetric] n_def [symmetric]
    by (simp only: if_False Option.bind.simps)
qed

text \<open>Rounding down, and rounding up, in the terms of the two scales.\<close>

lemma from_minmax_rounds:
  assumes r: "raw_range rmin rmax" and g: "mn < mx" "mx - mn < 2 ^ 31" "mn \<le> g" "g \<le> mx"
  shows "\<exists>v. tlv_from_dB_minmax0 rmin rmax g xdir mn mx False = Some v \<and> rmin \<le> v \<and> v \<le> rmax \<and>
     (if xdir > 0 then (v - rmin - 1) * (mx - mn) < (g - mn) * (rmax - rmin) \<and> (g - mn) * (rmax - rmin) \<le> (v - rmin) * (mx - mn)
      else (v - rmin) * (mx - mn) \<le> (g - mn) * (rmax - rmin) \<and> (g - mn) * (rmax - rmin) < (v - rmin + 1) * (mx - mn))"
proof -
  define d where "d = g - mn"
  define R where "R = rmax - rmin"
  define w where "w = mx - mn"
  have b: "0 \<le> d" "d \<le> w" "0 < w" "0 < R" using r g by (simp_all add: d_def R_def w_def raw_range_def)
  define n where "n = d * R + (if xdir > 0 then w - 1 else 0)"
  have dR: "0 \<le> d * R" "d * R \<le> w * R" using b by (simp_all add: mult_right_mono)
  have "tlv_from_dB_minmax0 rmin rmax g xdir mn mx False = Some (n div w + rmin)"
  proof -
    consider "d = 0" | "d = w" | "0 < d" "d < w" using b by linarith
    then show ?thesis
    proof cases
      case 1
      then have "n div w = 0" using b by (simp add: n_def)
      with 1 show ?thesis by (simp add: tlv_from_dB_minmax0_def d_def)
    next
      case 2
      then have "n div w = R" using b by (simp add: n_def div_pos_pos_trivial)
      with 2 b show ?thesis by (simp add: tlv_from_dB_minmax0_def d_def w_def R_def)
    next
      case 3
      with from_minmax_between [OF r, of mn g mx xdir False] g show ?thesis by (simp add: n_def d_def w_def R_def)
    qed
  qed
  moreover have q: "n div w * w \<le> n" "n < (n div w + 1) * w"
    using b by (simp_all add: algebra_simps) (metis mult.commute add.commute pos_mod_sign mult_div_mod_eq pos_mod_bound add_less_cancel_right add_left_mono le_add_same_cancel2, metis add.commute add_less_cancel_left minus_mod_eq_div_mult pos_mod_bound diff_add_cancel mult.commute)
  moreover have "0 \<le> n div w" using b dR by (simp add: n_def pos_imp_zdiv_nonneg_iff)
  moreover have "n div w \<le> R"
  proof (rule ccontr)
    assume "\<not> n div w \<le> R"
    then have "(R + 1) * w \<le> n div w * w" using b by (intro mult_right_mono) simp_all
    moreover have "n = d * R \<or> n = d * R + (w - 1)" by (simp add: n_def)
    then have "n \<le> w * R + (w - 1)" using dR b by linarith
    ultimately show False using q(1) by (simp add: algebra_simps)
  qed
  ultimately show ?thesis unfolding d_def [symmetric] R_def [symmetric] w_def [symmetric]
    by (intro exI [of _ "n div w + rmin"]) (auto simp: n_def R_def algebra_simps)
qed

section \<open>Entries\<close>

text \<open>A scale or a min/max entry at the start of a buffer: its limits in 1/100 dB, as the conversions see them.\<close>

definition db_scale :: "u32 list \<Rightarrow> int \<Rightarrow> int \<Rightarrow> bool" where
  "db_scale buf mn stp \<longleftrightarrow> 4 \<le> length buf \<and> buf ! 0 = TLVT_DB_SCALE \<and> sint (buf ! 2) = mn \<and> uint (buf ! 3 AND 0xffff) = stp"

definition db_minmax :: "u32 list \<Rightarrow> int \<Rightarrow> int \<Rightarrow> bool" where
  "db_minmax buf mn mx \<longleftrightarrow> 4 \<le> length buf \<and> (buf ! 0 = TLVT_DB_MINMAX \<or> buf ! 0 = TLVT_DB_MINMAX_MUTE) \<and>
     sint (buf ! 2) = mn \<and> sint (buf ! 3) = mx"

lemma entry_reads:
  assumes "4 \<le> length buf"
  shows "array_get buf 0 = Some (buf ! 0)" "array_get buf 2 = Some (buf ! 2)" "array_get buf 3 = Some (buf ! 3)"
  using assms by (auto simp: array_get_def)

lemma sint_u32_bounds: "- (2 ^ 31) \<le> sint (w :: u32)" "sint (w :: u32) < 2 ^ 31"
  using sint_ge [of w] sint_lt [of w] by simp_all

lemma step_bounds: "0 \<le> uint (w AND 0xffff :: u32)" "uint (w AND 0xffff :: u32) < 2 ^ 16"
proof -
  have "w AND 0xffff = take_bit 16 w" by (simp add: take_bit_eq_mask mask_eq_exp_minus_1)
  then show "uint (w AND 0xffff) < 2 ^ 16" using take_bit_int_less_exp [of 16 "uint w"] by (simp add: unsigned_take_bit_eq)
qed simp

lemma bind_Some: "m \<bind> (\<lambda>v. Some (f v)) = map_option f m"
  by (cases m) simp_all

text \<open>The gain of a volume on a scale.\<close>

lemma scale_to_dB:
  assumes "db_scale buf mn stp" "raw_range rmin rmax" "rmin \<le> v" "v \<le> rmax" "mn + stp * (rmax - rmin) < 2 ^ 31"
  shows "snd_tlv_convert_to_dB buf 0 rmin rmax v =
     Some (0, Some (if drop_bit 16 (buf ! 3) AND 1 \<noteq> 0 \<and> v = rmin then GAIN_MUTE else (v - rmin) * stp + mn))"
proof -
  have s: "0 \<le> stp" "stp < 2 ^ 16" using assms(1) step_bounds by (auto simp: db_scale_def)
  have m: "- (2 ^ 31) \<le> mn" "mn < 2 ^ 31" using assms(1) sint_u32_bounds by (auto simp: db_scale_def)
  have d: "0 \<le> v - rmin" "v - rmin < 2 ^ 32" using assms(2-4) by (simp_all add: raw_range_def)
  have p: "0 \<le> (v - rmin) * stp" using s d by simp
  have "(v - rmin) * stp \<le> 2 ^ 32 * 2 ^ 16" using s d by (intro mult_mono) simp_all
  then have l: "long (v - rmin) = Some (v - rmin)" "long ((v - rmin) * stp) = Some ((v - rmin) * stp)"
    "long ((v - rmin) * stp + mn) = Some ((v - rmin) * stp + mn)"
    using d p m by (auto intro!: long_small simp: abs_less_iff)
  show ?thesis
    using assms(1) l entry_reads [of buf] by (simp add: snd_tlv_convert_to_dB.simps tlv_to_dB_scale_def db_scale_def Let_def del: add_2_eq_Suc')
qed

text \<open>The volume of a gain on a scale is that of the min/max pair it spans.\<close>

lemma scale_from_dB:
  assumes "db_scale buf mn stp" "raw_range rmin rmax" "mn + stp * (rmax - rmin) < 2 ^ 31" "stp * (rmax - rmin) < 2 ^ 31"
  shows "snd_tlv_convert_from_dB buf 0 rmin rmax g xdir =
     map_option (\<lambda>v. (0, Some v)) (tlv_from_dB_minmax0 rmin rmax g xdir mn (mn + stp * (rmax - rmin)) (buf ! 3 AND 0x10000 \<noteq> 0))"
proof -
  have s: "0 \<le> stp" "stp < 2 ^ 16" using assms(1) step_bounds by (auto simp: db_scale_def)
  have m: "- (2 ^ 31) \<le> mn" "mn < 2 ^ 31" using assms(1) sint_u32_bounds by (auto simp: db_scale_def)
  have d: "0 < rmax - rmin" "rmax - rmin < 2 ^ 32" using assms(2) by (simp_all add: raw_range_def)
  have p: "0 \<le> stp * (rmax - rmin)" "stp * (rmax - rmin) < 2 ^ 32" using s d m assms(3) by simp_all
  have c: "int32 (mn + sint (word_of_int (stp * (rmax - rmin)) :: u32)) = Some (mn + stp * (rmax - rmin))"
  proof -
    have "sint (word_of_int (stp * (rmax - rmin)) :: u32) = stp * (rmax - rmin)"
      using p(1) assms(4) by (simp only: sint_sbintrunc') (simp add: signed_take_bit_int_eq_self)
    moreover have "\<bar>mn + stp * (rmax - rmin)\<bar> < 2 ^ 31 \<or> mn + stp * (rmax - rmin) = - (2 ^ 31)" using m p assms(3) by linarith
    ultimately show ?thesis using m p assms(3) by (simp only: int32_def) simp
  qed
  have l: "long (rmax - rmin) = Some (rmax - rmin)" "long (stp * (rmax - rmin)) = Some (stp * (rmax - rmin))"
    using d p by (auto intro!: long_small)
  show ?thesis
    using assms(1) l c entry_reads [of buf] by (simp add: snd_tlv_convert_from_dB.simps tlv_from_dB_scale_def db_scale_def Let_def bind_Some del: add_2_eq_Suc' of_int_mult of_int_diff)
qed

lemma minmax_to_dB:
  assumes "db_minmax buf mn mx" "raw_range rmin rmax" "rmin \<le> v" "v \<le> rmax" "mn \<le> mx" "mx - mn < 2 ^ 31"
  shows "snd_tlv_convert_to_dB buf 0 rmin rmax v =
     Some (0, Some (if v = rmin then if buf ! 0 = TLVT_DB_MINMAX_MUTE then GAIN_MUTE else mn
                    else (mx - mn) * (v - rmin) div (rmax - rmin) + mn))"
proof -
  have m: "- (2 ^ 31) \<le> mn" "mx < 2 ^ 31" using assms(1) sint_u32_bounds by (auto simp: db_minmax_def)
  have d: "0 \<le> v - rmin" "v - rmin \<le> rmax - rmin" "0 < rmax - rmin" "rmax - rmin < 2 ^ 32"
    using assms(2-4) by (simp_all add: raw_range_def)
  let ?q = "(mx - mn) * (v - rmin) div (rmax - rmin)"
  have p: "0 \<le> (mx - mn) * (v - rmin)" using assms(5) d by simp
  have b: "\<bar>(mx - mn) * (v - rmin)\<bar> < 2 ^ 63 - 2 ^ 32" using assms(5,6) d by (intro product_small) simp_all
  have "(mx - mn) * (v - rmin) \<le> (mx - mn) * (rmax - rmin)" using assms(5) d by (intro mult_left_mono) simp_all
  then have "?q \<le> (mx - mn) * (rmax - rmin) div (rmax - rmin)" using d by (intro zdiv_mono1) simp_all
  then have q: "0 \<le> ?q" "?q \<le> mx - mn" using d p by (simp_all add: pos_imp_zdiv_nonneg_iff)
  have l: "int32 (mx - mn) = Some (mx - mn)" "long (v - rmin) = Some (v - rmin)"
    "long ((mx - mn) * (v - rmin)) = Some ((mx - mn) * (v - rmin))" "long (rmax - rmin) = Some (rmax - rmin)"
    "(mx - mn) * (v - rmin) sdiv (rmax - rmin) = ?q" "long (?q + mn) = Some (?q + mn)"
    using assms(5,6) d p b q m by (auto intro!: int32_small long_small sdiv_pos)
  note r = entry_reads [of buf]
  have ty: "buf ! 0 \<noteq> 3" "buf ! 0 \<noteq> 1" "buf ! 0 = 4 \<or> buf ! 0 = 5" "4 \<le> length buf" "sint (buf ! 2) = mn" "sint (buf ! 3) = mx"
    using assms(1) by (auto simp: db_minmax_def)
  have c: "snd_tlv_convert_to_dB buf 0 rmin rmax v = tlv_to_dB_minmax buf 0 rmin rmax v"
    using ty r by (simp add: snd_tlv_convert_to_dB.simps)
  consider "v = rmin" | "v = rmax" | "rmin < v" "v < rmax" using assms(3,4) by linarith
  then show ?thesis
  proof cases
    case 1
    then show ?thesis using c ty r by (simp add: tlv_to_dB_minmax_def del: add_2_eq_Suc')
  next
    case 2
    then show ?thesis using c ty r d by (simp add: tlv_to_dB_minmax_def del: add_2_eq_Suc')
  next
    case 3
    then show ?thesis using c ty r l by (simp add: tlv_to_dB_minmax_def del: add_2_eq_Suc')
  qed
qed

lemma minmax_from_dB:
  assumes "db_minmax buf mn mx"
  shows "snd_tlv_convert_from_dB buf 0 rmin rmax g xdir =
     map_option (\<lambda>v. (0, Some v)) (tlv_from_dB_minmax0 rmin rmax g xdir mn mx (buf ! 0 = TLVT_DB_MINMAX_MUTE))"
proof -
  have "buf ! 0 = 4 \<or> buf ! 0 = 5" "4 \<le> length buf" "sint (buf ! 2) = mn" "sint (buf ! 3) = mx"
    using assms(1) by (auto simp: db_minmax_def)
  then show ?thesis
    using entry_reads [of buf] by (auto simp: snd_tlv_convert_from_dB.simps tlv_from_dB_minmax_def bind_Some simp del: add_2_eq_Suc')
qed

text \<open>Both readings of the mute bit.\<close>

lemma mute_bit: "drop_bit 16 (t :: u32) AND 1 \<noteq> 0 \<longleftrightarrow> bit t 16" "t AND 0x10000 \<noteq> 0 \<longleftrightarrow> bit t 16"
proof -
  show "drop_bit 16 t AND 1 \<noteq> 0 \<longleftrightarrow> bit t 16" by (simp add: and_one_eq bit_iff_odd_drop_bit odd_iff_mod_2_eq_one)
  have "t AND 0x10000 = t AND push_bit 16 1" by (simp add: push_bit_eq_mult)
  also have "\<dots> \<noteq> 0 \<longleftrightarrow> bit t 16"
    using bit_single [of 16] by (auto simp: bit_eq_iff [of _ "0 :: u32"] bit_and_iff simp del: push_bit_of_1)
  finally show "t AND 0x10000 \<noteq> 0 \<longleftrightarrow> bit t 16" .
qed

lemma from_minmax_muted: "g \<le> mn \<Longrightarrow> mute \<longrightarrow> g \<le> GAIN_MUTE \<Longrightarrow> tlv_from_dB_minmax0 rmin rmax g xdir mn mx mute = Some rmin"
  by (auto simp: tlv_from_dB_minmax0_def)

lemma from_minmax_max: "mn < mx \<Longrightarrow> mx \<le> g \<Longrightarrow> tlv_from_dB_minmax0 rmin rmax g xdir mn mx mute = Some rmax"
  by (simp add: tlv_from_dB_minmax0_def)

lemma scale_roundtrip:
  assumes s: "db_scale buf mn stp" "0 < stp" "mn + stp * (rmax - rmin) < 2 ^ 31" "stp * (rmax - rmin) < 2 ^ 31"
    and r: "raw_range rmin rmax" and v: "rmin \<le> v" "v \<le> rmax" and m: "GAIN_MUTE \<le> mn"
  shows "\<exists>g. snd_tlv_convert_to_dB buf 0 rmin rmax v = Some (0, Some g) \<and>
     snd_tlv_convert_from_dB buf 0 rmin rmax g xdir = Some (0, Some v)"
proof -
  note td = scale_to_dB [OF s(1) r v s(3)] and fd = scale_from_dB [OF s(1) r s(3,4)]
  define w where "w = stp * (rmax - rmin)"
  have R: "0 < rmax - rmin" using r by (simp add: raw_range_def)
  then have w: "0 < w" using s(2) by (simp add: w_def)
  consider "v = rmin" | "v = rmax" "rmin < v" | "rmin < v" "v < rmax" using v by linarith
  then show ?thesis
  proof cases
    case 1
    with td fd m show ?thesis by (auto simp: from_minmax_muted mute_bit)
  next
    case 2
    then have "tlv_from_dB_minmax0 rmin rmax ((v - rmin) * stp + mn) xdir mn (mn + w) (buf ! 3 AND 0x10000 \<noteq> 0) = Some v"
      using w from_minmax_max by (simp add: w_def mult.commute)
    with 2 td fd show ?thesis by (simp add: w_def)
  next
    case 3
    have "(v - rmin) * stp < w" "0 < (v - rmin) * stp" using 3 s(2) by (simp_all add: w_def mult.commute)
    then have "tlv_from_dB_minmax0 rmin rmax ((v - rmin) * stp + mn) xdir mn (mn + w) (buf ! 3 AND 0x10000 \<noteq> 0) =
      Some (((v - rmin) * w + (if xdir > 0 then w - 1 else 0)) div w + rmin)"
      using from_minmax_between [OF r, of mn "(v - rmin) * stp + mn" "mn + w"] s(4) by (simp add: w_def algebra_simps)
    moreover have "((v - rmin) * w + (if xdir > 0 then w - 1 else 0)) div w = v - rmin" using w by simp
    ultimately show ?thesis using 3 td fd by (simp add: w_def)
  qed
qed

lemma minmax_roundtrip:
  assumes s: "db_minmax buf mn mx" "rmax - rmin \<le> mx - mn" "mx - mn < 2 ^ 31" and x: "0 < xdir"
    and r: "raw_range rmin rmax" and v: "rmin \<le> v" "v \<le> rmax" and m: "GAIN_MUTE \<le> mn"
  shows "\<exists>g. snd_tlv_convert_to_dB buf 0 rmin rmax v = Some (0, Some g) \<and>
     snd_tlv_convert_from_dB buf 0 rmin rmax g xdir = Some (0, Some v)"
proof -
  define R where "R = rmax - rmin"
  define D where "D = mx - mn"
  have b: "0 < R" "R \<le> D" using r s(2) by (simp_all add: R_def D_def raw_range_def)
  have mx: "mn \<le> mx" using b by (simp add: D_def)
  note td = minmax_to_dB [OF s(1) r v mx s(3)] and fd = minmax_from_dB [OF s(1)]
  consider "v = rmin" | "v = rmax" "rmin < v" | "rmin < v" "v < rmax" using v by linarith
  then show ?thesis
  proof cases
    case 1
    with td fd m show ?thesis by (auto simp: from_minmax_muted)
  next
    case 2
    then have "D * (v - rmin) div R + mn = mx" using b by (simp add: R_def D_def)
    then have "tlv_from_dB_minmax0 rmin rmax (D * (v - rmin) div R + mn) xdir mn mx (buf ! 0 = TLVT_DB_MINMAX_MUTE) = Some v"
      using b 2 from_minmax_max [of mn mx mx] by (simp add: D_def)
    with 2 td fd show ?thesis by (simp add: R_def D_def)
  next
    case 3
    define y where "y = v - rmin"
    define q where "q = D * y div R"
    have y: "0 < y" "y < R" using 3 by (simp_all add: y_def R_def)
    have q: "q * R \<le> D * y" "D * y < (q + 1) * R"
      using minus_mod_eq_div_mult [of "D * y" R] pos_mod_sign [OF b(1), of "D * y"] pos_mod_bound [OF b(1), of "D * y"]
      unfolding q_def distrib_right by linarith+
    have q1: "1 \<le> q"
    proof -
      have "R * 1 \<le> D * y" using b y by (intro mult_mono) simp_all
      then show ?thesis using zdiv_mono1 [of R "D * y" R] b by (simp add: q_def)
    qed
    have qD: "q < D"
    proof (rule ccontr)
      assume "\<not> q < D"
      then have "D * R \<le> q * R" using b by (intro mult_right_mono) simp_all
      also have "\<dots> \<le> D * y" by (rule q(1))
      finally show False using b y by simp
    qed
    have "tlv_from_dB_minmax0 rmin rmax (q + mn) xdir mn mx (buf ! 0 = TLVT_DB_MINMAX_MUTE) = Some ((q * R + (D - 1)) div D + rmin)"
      using from_minmax_between [OF r, of mn "q + mn" mx xdir] s(3) x q1 qD by (simp add: D_def R_def algebra_simps)
    moreover have "(q * R + (D - 1)) div D = y"
    proof -
      have "D * y \<le> q * R + (D - 1)" "q * R + (D - 1) < D * (y + 1)" using q b by (simp_all add: algebra_simps)
      then show ?thesis using b int_div_pos_eq [of "q * R + (D - 1)" D y "q * R + (D - 1) - D * y"] by (simp add: algebra_simps)
    qed
    ultimately show ?thesis using 3 td fd by (simp add: q_def y_def D_def R_def)
  qed
qed

section \<open>Properties\<close>

text \<open>C23.
  \<^verbatim>\<open>snd_tlv_parse_dB_info\<close> finds in a buffer what the search on the structure laid out in it finds: the first
  dB entry in the order of the containers, with its size, unless a container without one comes before
  it, which ends the search with \<^verbatim>\<open>-EINVAL\<close>.  No word outside the structure is read.\<close>

theorem parse_dB_info_finds:
  assumes "wf_tlv t" "4 * length (tlv_words t) \<le> unat tlv_size" "4 * length (tlv_words t) < 2 ^ 31"
  shows "snd_tlv_parse_dB_info (tlv_words t @ ys) 0 tlv_size = Some (tlv_find 0 t)"
  using parse_finds(1) [OF assms(1) _ assms(2,3), of 0 "tlv_words t @ ys" ys] by simp

theorem parse_dB_info_finds_witness:
  "snd_tlv_parse_dB_info (tlv_words (Container [Data 7 [5], Data TLVT_DB_SCALE [0, 100]]) @ [1, 2]) 0 64 = Some (16, Some 5)"
  by (subst parse_dB_info_finds) (simp_all add: db_type_def Let_def)

text \<open>C12.
  A raw volume survives the conversion to a gain and back: on a dB scale with a step, rounding either
  way, and on a min/max pair with at least 1/100 dB for each raw step, rounding up; with and without a
  mute at the lowest volume.\<close>

theorem dB_roundtrip:
  assumes "raw_range rmin rmax" "rmin \<le> v" "v \<le> rmax" "GAIN_MUTE \<le> mn"
    and "db_scale buf mn stp \<and> 0 < stp \<and> mn + stp * (rmax - rmin) < 2 ^ 31 \<and> stp * (rmax - rmin) < 2 ^ 31 \<or>
         db_minmax buf mn mx \<and> rmax - rmin \<le> mx - mn \<and> mx - mn < 2 ^ 31 \<and> 0 < xdir"
  shows "\<exists>g. snd_tlv_convert_to_dB buf 0 rmin rmax v = Some (0, Some g) \<and>
     snd_tlv_convert_from_dB buf 0 rmin rmax g xdir = Some (0, Some v)"
  using assms(5) scale_roundtrip [OF _ _ _ _ assms(1-4)] minmax_roundtrip [OF _ _ _ _ assms(1-4)] by blast

theorem dB_roundtrip_witness:
  "\<exists>g. snd_tlv_convert_to_dB [TLVT_DB_SCALE, 8, - 3400, 0x10064] 0 0 31 7 = Some (0, Some g) \<and>
     snd_tlv_convert_from_dB [TLVT_DB_SCALE, 8, - 3400, 0x10064] 0 0 31 g 0 = Some (0, Some 7)"
  by (rule dB_roundtrip [where mn = "- 3400" and stp = 100]) (simp_all add: raw_range_def db_scale_def)

text \<open>A gain between the limits of a min/max pair becomes a raw volume of the control's range, the largest
  one whose share of the range is not above that of the gain, or, rounding up, the smallest one whose
  share is not below.\<close>

theorem from_dB_rounds:
  assumes "raw_range rmin rmax" "db_minmax buf mn mx" "buf ! 0 = TLVT_DB_MINMAX" "mn < mx" "mx - mn < 2 ^ 31" "mn \<le> g" "g \<le> mx"
  shows "\<exists>v. snd_tlv_convert_from_dB buf 0 rmin rmax g xdir = Some (0, Some v) \<and> rmin \<le> v \<and> v \<le> rmax \<and>
     (if xdir > 0 then (v - rmin - 1) * (mx - mn) < (g - mn) * (rmax - rmin) \<and> (g - mn) * (rmax - rmin) \<le> (v - rmin) * (mx - mn)
      else (v - rmin) * (mx - mn) \<le> (g - mn) * (rmax - rmin) \<and> (g - mn) * (rmax - rmin) < (v - rmin + 1) * (mx - mn))"
  using from_minmax_rounds [OF assms(1,4-7), of xdir] minmax_from_dB [OF assms(2)] assms(3) by auto

theorem from_dB_rounds_witness:
  "\<exists>v. snd_tlv_convert_from_dB [TLVT_DB_MINMAX, 8, - 1000, 500] 0 0 7 0 1 = Some (0, Some v) \<and> 0 \<le> v \<and> v \<le> 7 \<and>
     (v - 0 - 1) * (500 - - 1000) < (0 - - 1000) * (7 - (0 :: int)) \<and> (0 - - 1000) * (7 - 0) \<le> (v - 0) * (500 - - 1000)"
  using from_dB_rounds [of 0 7 "[TLVT_DB_MINMAX, 8, - 1000, 500]" "- 1000" 500 0 1]
  by (simp add: raw_range_def db_minmax_def)

text \<open>
  A range of one scale: the conversion from a gain reads the lowest gain as the type of the entry, and then
  uses limits that were never set.  The conversion to a gain reads the entry as it is.
\<close>

lemma from_dB_range_misreads:
  "snd_tlv_convert_to_dB [TLVT_DB_RANGE, 24, 0, 10, TLVT_DB_SCALE, 8, - 1000, 100] 0 0 10 4 = Some (0, Some (- 600)) \<and>
   snd_tlv_convert_from_dB [TLVT_DB_RANGE, 24, 0, 10, TLVT_DB_SCALE, 8, - 1000, 100] 0 0 10 (- 600) 0 = None"
  by code_simp

text \<open>A container with less than a header left in it is read past its end.\<close>

lemma parse_dB_info_overreads: "snd_tlv_parse_dB_info [TLVT_CONTAINER, 4, 7] 0 12 = None"
  by code_simp

end
