(* ===== verification/Ctl_Ascii.thy ===== *)
theory Ctl_Ascii
  imports C_String Ctl_Elem Ctl_Tlv
begin

text \<open>
  Control elements as text, and their dB ranges looked up by identifier: the last part of
  \<^verbatim>\<open>src/src/control.c\<close>.

  \<^verbatim>\<open>strsep\<close> writes into the string it is given, which the source casts from \<^verbatim>\<open>const\<close>; the model follows the
  pointer only.  The numbers that \<^verbatim>\<open>%d\<close> reads into the unsigned members of an identifier are the bits of an
  \<^verbatim>\<open>int\<close>; a number that \<^verbatim>\<open>int\<close> cannot hold, a name that fills its array without a terminator and an interface
  name that does not fit its buffer have no defined result (\<open>None\<close>).
\<close>

section \<open>Gains of an element\<close>

text \<open>
  \<open>info0\<close> is what the uninitialised local \<^verbatim>\<open>info\<close> holds and \<open>buf\<close> what \<^verbatim>\<open>rec->buf\<close> holds, 4096 words that nothing
  writes before they are parsed.  The result carries the two limits and where in \<open>buf\<close> the gains are, which
  is a null pointer when the parser finds none.
\<close>

definition get_tlv_info :: "'w ctl_kernel \<Rightarrow> snd_ctl_elem_info \<Rightarrow> u32 list \<Rightarrow> snd_ctl_elem_id \<Rightarrow> 'w \<Rightarrow>
    (int \<times> (int \<times> int \<times> nat option) \<times> 'w) option" where
  "get_tlv_info k info0 buf eid w =
     (case snd_ctl_elem_info0 k (info0\<lparr>info_id := eid\<rparr>) w of (err, info, w) \<Rightarrow>
        if err < 0 then Some (err, (0, 0, None), w)
        else do {
          minval \<leftarrow> load_long 0 (info_value info);
          maxval \<leftarrow> load_long 8 (info_value info);
          (err, tlv) \<leftarrow> snd_tlv_parse_dB_info buf 0 16384;
          Some (err, (minval, maxval, tlv), w) })"

definition snd_ctl_get_dB_range :: "'w ctl_kernel \<Rightarrow> snd_ctl_elem_info \<Rightarrow> u32 list \<Rightarrow> snd_ctl_elem_id \<Rightarrow> int option \<Rightarrow> int option \<Rightarrow>
    'w \<Rightarrow> (int \<times> int option \<times> int option \<times> 'w) option" where
  "snd_ctl_get_dB_range k info0 buf eid mn mx w = do {
     (err, (minval, maxval, tlv), w) \<leftarrow> get_tlv_info k info0 buf eid w;
     (if err < 0 then Some (err, mn, mx, w)
      else do {
        p \<leftarrow> tlv;
        (err, mn, mx) \<leftarrow> snd_tlv_get_dB_range buf p minval maxval mn mx;
        Some (err, mn, mx, w) }) }"

definition snd_ctl_convert_to_dB :: "'w ctl_kernel \<Rightarrow> snd_ctl_elem_info \<Rightarrow> u32 list \<Rightarrow> snd_ctl_elem_id \<Rightarrow> int \<Rightarrow> 'w \<Rightarrow>
    (int \<times> int option \<times> 'w) option" where
  "snd_ctl_convert_to_dB k info0 buf eid volume w = do {
     (err, (minval, maxval, tlv), w) \<leftarrow> get_tlv_info k info0 buf eid w;
     (if err < 0 then Some (err, None, w)
      else do {
        p \<leftarrow> tlv;
        (err, db_gain) \<leftarrow> snd_tlv_convert_to_dB buf p minval maxval volume;
        Some (err, db_gain, w) }) }"

definition snd_ctl_convert_from_dB :: "'w ctl_kernel \<Rightarrow> snd_ctl_elem_info \<Rightarrow> u32 list \<Rightarrow> snd_ctl_elem_id \<Rightarrow> int \<Rightarrow> int \<Rightarrow> 'w \<Rightarrow>
    (int \<times> int option \<times> 'w) option" where
  "snd_ctl_convert_from_dB k info0 buf eid db_gain xdir w = do {
     (err, (minval, maxval, tlv), w) \<leftarrow> get_tlv_info k info0 buf eid w;
     (if err < 0 then Some (err, None, w)
      else do {
        p \<leftarrow> tlv;
        (err, v) \<leftarrow> snd_tlv_convert_from_dB buf p minval maxval db_gain xdir;
        Some (err, v, w) }) }"

section \<open>Identifiers as text\<close>

definition snd_ctl_elem_iface_names :: "string list" where
  "snd_ctl_elem_iface_names = [''CARD'', ''HWDEP'', ''MIXER'', ''PCM'', ''RAWMIDI'', ''TIMER'', ''SEQUENCER'']"

abbreviation (input) ELEM_IFACE_LAST :: nat where "ELEM_IFACE_LAST \<equiv> 6"

text \<open>\<^verbatim>\<open>snprintf(buf + len, sizeof(buf) - len, "...%d", n)\<close> behind what the buffer of 256 characters holds.\<close>

definition append_number :: "string \<Rightarrow> u32 \<Rightarrow> string \<Rightarrow> string" where
  "append_number key n buf =
     (if length buf < 256 \<and> n > 0 then buf @ snprintf_array (256 - length buf) (key @ show_int (sint n)) else buf)"

text \<open>\<open>strdup_ok\<close>: whether there is memory for the copy; the inner option is the null pointer.\<close>

definition snd_ctl_ascii_elem_id_get :: "bool \<Rightarrow> snd_ctl_elem_id \<Rightarrow> string option option" where
  "snd_ctl_ascii_elem_id_get strdup_ok i = do {
     iface \<leftarrow> (if id_iface i < 0 then None else array_get snd_ctl_elem_iface_names (nat (id_iface i)));
     name \<leftarrow> (if length (id_name i) < 44 then Some (id_name i) else None);
     (let buf = snprintf_array 256 (''numid='' @ show_nat (unat (id_numid i)) @ '',iface='' @ iface @ '',name='' @ [CHR 0x27] @ name @ [CHR 0x27]);
          buf = append_number '',index='' (id_index i) buf;
          buf = append_number '',device='' (id_device i) buf;
          buf = append_number '',subdevice='' (id_subdevice i) buf
      in Some (if strdup_ok then Some buf else None)) }"

definition strsep_comma :: "string \<Rightarrow> string \<times> string option" where
  "strsep_comma s = (takeWhile (\<lambda>c. c \<noteq> CHR '','') s,
     case dropWhile (\<lambda>c. c \<noteq> CHR '','') s of [] \<Rightarrow> None | _ # t \<Rightarrow> Some t)"

lemma strsep_comma_rest: "(p, Some t) = strsep_comma s \<Longrightarrow> length t < length s"
  by (induction s arbitrary: p) (auto simp: strsep_comma_def split: if_splits)

text \<open>
  \<^verbatim>\<open>sscanf(p, "<key>%n[^c]")\<close> and \<^verbatim>\<open>sscanf(p, "<key>%d")\<close>: the inner option is whether the call returns 1, with what
  it stores.
\<close>

definition scan_key :: "string \<Rightarrow> string \<Rightarrow> string option" where
  "scan_key key p = (if take (length key) p = key then Some (drop (length key) p) else None)"

definition scan_text :: "string \<Rightarrow> nat \<Rightarrow> char \<Rightarrow> string \<Rightarrow> string option" where
  "scan_text key n stop p = do {
     s \<leftarrow> scan_key key p;
     (let t = take n (takeWhile (\<lambda>c. c \<noteq> stop) s) in if t = [] then None else Some t) }"

definition scan_field :: "string \<Rightarrow> string \<Rightarrow> u32 option option" where
  "scan_field key p =
     (case scan_key key p of
        None \<Rightarrow> Some None
      | Some s \<Rightarrow> do { r \<leftarrow> scan_int False s; Some (map_option (\<lambda>(i, _). word_of_int i) r) })"

text \<open>The search for an interface: its index, or one more than the last.\<close>

function find_iface :: "string \<Rightarrow> nat \<Rightarrow> nat option" where
  "find_iface iface i =
     (if i \<le> ELEM_IFACE_LAST then do {
        nm \<leftarrow> array_get snd_ctl_elem_iface_names i;
        (if strcmp iface nm = 0 then Some i else find_iface iface (i + 1)) }
      else Some i)"
  by pat_completeness auto
termination by (relation "measure (\<lambda>(_, i). 7 - i)") auto

declare find_iface.simps [simp del]

text \<open>One part between commas: the identifier with what the part sets, or an error.\<close>

definition parse_part :: "string \<Rightarrow> snd_ctl_elem_id \<Rightarrow> (int \<times> snd_ctl_elem_id) option" where
  "parse_part p dst =
     (case scan_text ''iface='' 20 (CHR '','') p of
        Some iface \<Rightarrow>
          if length iface < 20 then do {
            i \<leftarrow> find_iface iface 0;
            Some (if i \<le> ELEM_IFACE_LAST then (0, dst\<lparr>id_iface := int i\<rparr>) else (- EINVAL, dst)) }
          else None
      | None \<Rightarrow>
          (case scan_text (''name='' @ [CHR 0x27]) 42 (CHR 0x27) p of
             Some name \<Rightarrow> Some (0, dst\<lparr>id_name := name\<rparr>)
           | None \<Rightarrow> do {
               n \<leftarrow> scan_field ''numid='' p;
               (case n of Some v \<Rightarrow> Some (0, dst\<lparr>id_numid := v\<rparr>)
                | None \<Rightarrow> do {
                    n \<leftarrow> scan_field ''index='' p;
                    (case n of Some v \<Rightarrow> Some (0, dst\<lparr>id_index := v\<rparr>)
                     | None \<Rightarrow> do {
                         n \<leftarrow> scan_field ''device='' p;
                         (case n of Some v \<Rightarrow> Some (0, dst\<lparr>id_device := v\<rparr>)
                          | None \<Rightarrow> do {
                              n \<leftarrow> scan_field ''subdevice='' p;
                              (case n of Some v \<Rightarrow> Some (0, dst\<lparr>id_subdevice := v\<rparr>)
                               | None \<Rightarrow> Some (- EINVAL, dst)) }) }) }) }))"

function snd_ctl_ascii_elem_id_parse :: "snd_ctl_elem_id \<Rightarrow> string \<Rightarrow> (int \<times> snd_ctl_elem_id) option" where
  "snd_ctl_ascii_elem_id_parse dst str =
     (case strsep_comma str of (p, s) \<Rightarrow> do {
        (err, dst) \<leftarrow> parse_part p dst;
        (if err < 0 then Some (err, dst)
         else case s of None \<Rightarrow> Some (0, dst) | Some s \<Rightarrow> snd_ctl_ascii_elem_id_parse dst s) })"
  by pat_completeness auto
termination
  by (relation "measure (length \<circ> snd)") (auto simp: strsep_comma_rest)

declare snd_ctl_ascii_elem_id_parse.simps [simp del]

section \<open>Values as text\<close>

text \<open>\<^verbatim>\<open>strtol(s, NULL, 0)\<close>, which is \<^verbatim>\<open>strtoll\<close> where \<^verbatim>\<open>long\<close> has 64 bits: zero without a number, and the nearest value
  of the type for a number outside it.\<close>

definition strtol :: "string \<Rightarrow> int" where
  "strtol s =
     (let (neg, s) = scan_sign (dropWhile is_space s);
          (base, s) = scan_base s;
          n = int (fst (scan_digits base 0 s))
      in max (- (2 ^ 63)) (min (2 ^ 63 - 1) (if neg then - n else n)))"

definition yes_names :: "string list" where
  "yes_names = [''on'', ''up'', ''yes'', ''true'']"

text \<open>\<^verbatim>\<open>strncasecmp\<close> is used as if it returned true for a match.\<close>

primrec match_yes_loop :: "string list \<Rightarrow> string \<Rightarrow> int" where
  "match_yes_loop [] s = 0"
| "match_yes_loop (p # ps) s = (if \<not> strncaseeq s p (length p) then 1 else match_yes_loop ps s)"

definition match_yes :: "string \<Rightarrow> int" where
  "match_yes s = match_yes_loop yes_names s"

text \<open>The number of items is read again after each call, which overwrites \<^verbatim>\<open>*info\<close>; \<open>i\<close> is an \<^verbatim>\<open>int\<close>.\<close>

function get_enum_index_loop :: "'w ctl_kernel \<Rightarrow> nat \<Rightarrow> snd_ctl_elem_info \<Rightarrow> string \<Rightarrow> 'w \<Rightarrow>
    (int \<times> snd_ctl_elem_info \<times> 'w) option" where
  "get_enum_index_loop k i info s w = do {
     items \<leftarrow> snd_ctl_elem_info_get_items info;
     (if i < unat items then do {
        info \<leftarrow> snd_ctl_elem_info_set_item info (of_nat i);
        (case snd_ctl_elem_info0 k info w of (err, info, w) \<Rightarrow>
           if err < 0 then Some (- 1, info, w)
           else let name = snd_ctl_elem_info_get_item_name info in
             if strneq s name (length name) then Some (int i, info, w)
             else if int i + 1 < 2 ^ 31 then get_enum_index_loop k (i + 1) info s w
             else None) }
      else Some (- 1, info, w)) }"
  by pat_completeness auto
termination by (relation "measure (\<lambda>(_, i, _). 2 ^ 31 - i)") auto

declare get_enum_index_loop.simps [simp del]

definition get_enum_index :: "'w ctl_kernel \<Rightarrow> snd_ctl_elem_info \<Rightarrow> string \<Rightarrow> 'w \<Rightarrow> (int \<times> snd_ctl_elem_info \<times> 'w) option" where
  "get_enum_index k info s w = get_enum_index_loop k 0 info s w"

text \<open>One element: a status, the value, \<^verbatim>\<open>*info\<close> and the world.\<close>

definition parse_value :: "'w ctl_kernel \<Rightarrow> u32 \<Rightarrow> snd_ctl_elem_value \<Rightarrow> snd_ctl_elem_info \<Rightarrow> string \<Rightarrow> 'w \<Rightarrow>
    (int \<times> snd_ctl_elem_value \<times> snd_ctl_elem_info \<times> 'w) option" where
  "parse_value k idx dst info s w =
     (if info_type info = TYPE_BOOLEAN then do {
        tmp \<leftarrow> (if strncaseeq s ''toggle'' 6
                then map_option (\<lambda>v. if v = 0 then 1 else 0) (snd_ctl_elem_value_get_integer dst idx)
                else Some (if match_yes s \<noteq> 0 \<or> take 1 s = ''1'' then 1 else 0));
        dst \<leftarrow> snd_ctl_elem_value_set_integer dst idx tmp;
        Some (0, dst, info, w) }
      else if info_type info = TYPE_INTEGER \<or> info_type info = TYPE_INTEGER64 then do {
        dst \<leftarrow> snd_ctl_elem_value_set_integer dst idx (strtol s);
        Some (0, dst, info, w) }
      else if info_type info = TYPE_ENUMERATED then do {
        (tmp, info, w) \<leftarrow> get_enum_index k info s w;
        (if tmp < 0 then Some (- EINVAL, dst, info, w)
         else do {
           dst \<leftarrow> snd_ctl_elem_value_set_enumerated dst idx (word_of_int tmp);
           Some (0, dst, info, w) }) }
      else Some (0, dst, info, w))"

function ascii_value_loop :: "'w ctl_kernel \<Rightarrow> nat \<Rightarrow> snd_ctl_elem_value \<Rightarrow> snd_ctl_elem_info \<Rightarrow> string \<Rightarrow> 'w \<Rightarrow>
    (int \<times> snd_ctl_elem_value \<times> snd_ctl_elem_info \<times> 'w) option" where
  "ascii_value_loop k idx dst info s w =
     (if idx < unat (info_count info) \<and> idx < 128 \<and> s \<noteq> [] then do {
        (err, dst, info, w) \<leftarrow> parse_value k (of_nat idx) dst info s w;
        (if err < 0 then Some (err, dst, info, w)
         else ascii_value_loop k (idx + 1) dst info (dropWhile (\<lambda>c. c \<noteq> CHR '','') s) w) }
      else Some (0, dst, info, w))"
  by pat_completeness auto
termination by (relation "measure (\<lambda>(_, idx, _). 128 - idx)") auto

declare ascii_value_loop.simps [simp del]

definition snd_ctl_ascii_value_parse :: "'w ctl_kernel \<Rightarrow> snd_ctl_elem_value \<Rightarrow> snd_ctl_elem_info \<Rightarrow> string \<Rightarrow> 'w \<Rightarrow>
    (int \<times> snd_ctl_elem_value \<times> snd_ctl_elem_info \<times> 'w) option" where
  "snd_ctl_ascii_value_parse k dst info s w = ascii_value_loop k 0 dst info s w"

section \<open>What is printed is read back\<close>

lemma strsep_last: "CHR '','' \<notin> set p \<Longrightarrow> strsep_comma p = (p, None)"
  by (induction p) (auto simp: strsep_comma_def)

lemma strsep_more: "CHR '','' \<notin> set p \<Longrightarrow> strsep_comma (p @ CHR '','' # t) = (p, Some t)"
  by (induction p) (auto simp: strsep_comma_def)

lemma parse_last:
  assumes "parse_part p dst = Some (0, dst')" "CHR '','' \<notin> set p"
  shows "snd_ctl_ascii_elem_id_parse dst p = Some (0, dst')"
  using assms by (subst snd_ctl_ascii_elem_id_parse.simps) (simp add: strsep_last)

lemma parse_more:
  assumes "parse_part p dst = Some (0, dst')" "CHR '','' \<notin> set p"
  shows "snd_ctl_ascii_elem_id_parse dst (p @ CHR '','' # t) = snd_ctl_ascii_elem_id_parse dst' t"
  using assms by (subst snd_ctl_ascii_elem_id_parse.simps) (simp add: strsep_more)

lemma scan_key_simps [simp]:
  "scan_key [] p = Some p" "scan_key (k # ks) [] = None" "scan_key (k # ks) (c # p) = (if k = c then scan_key ks p else None)"
  by (auto simp: scan_key_def)

lemma scan_field_nat:
  "n < 2 ^ 31 \<Longrightarrow> scan_key key p = Some (show_nat n) \<Longrightarrow> scan_field key p = Some (Some (of_nat n))"
  using scan_int_show_nat [of "[]" n False] by (simp add: scan_field_def ends_number_def)

lemma find_iface_step:
  "i \<le> ELEM_IFACE_LAST \<Longrightarrow> find_iface s i = (if strcmp s (snd_ctl_elem_iface_names ! i) = 0 then Some i else find_iface s (i + 1))"
  by (subst find_iface.simps) (simp add: snd_ctl_elem_iface_names_def array_get_def)

lemma ifaces_listed: "distinct snd_ctl_elem_iface_names" "length snd_ctl_elem_iface_names = 7"
  "\<forall>nm \<in> set snd_ctl_elem_iface_names. CHR 0x00 \<notin> set nm \<and> nm \<noteq> [] \<and> CHR '','' \<notin> set nm \<and> length nm \<le> 9"
  unfolding snd_ctl_elem_iface_names_def by simp_all

lemma iface_name:
  assumes "i \<le> ELEM_IFACE_LAST"
  shows "snd_ctl_elem_iface_names ! i \<noteq> []" "CHR '','' \<notin> set (snd_ctl_elem_iface_names ! i)"
    "length (snd_ctl_elem_iface_names ! i) \<le> 9" "CHR 0x00 \<notin> set (snd_ctl_elem_iface_names ! i)"
  using ifaces_listed(2,3) assms by simp_all

lemma find_iface_from: "i \<le> ELEM_IFACE_LAST \<Longrightarrow> j \<le> i \<Longrightarrow> find_iface (snd_ctl_elem_iface_names ! i) j = Some i"
proof (induction "i - j" arbitrary: j)
  case 0
  then show ?case using strcmp_eq [of "snd_ctl_elem_iface_names ! i" "snd_ctl_elem_iface_names ! i"] iface_name(4) [of i]
    by (simp add: find_iface_step)
next
  case (Suc n)
  then have "snd_ctl_elem_iface_names ! i \<noteq> snd_ctl_elem_iface_names ! j"
    using ifaces_listed(1,2) by (simp add: nth_eq_iff_index_eq)
  then have "strcmp (snd_ctl_elem_iface_names ! i) (snd_ctl_elem_iface_names ! j) \<noteq> 0"
    using strcmp_eq [of "snd_ctl_elem_iface_names ! i" "snd_ctl_elem_iface_names ! j"] iface_name(4) [of i] iface_name(4) [of j] Suc.prems by simp
  then show ?case using Suc by (simp add: find_iface_step)
qed

lemma takeWhile_all: "c \<notin> set s \<Longrightarrow> takeWhile (\<lambda>d. d \<noteq> c) s = s"
  by (induction s) auto

lemma part_numid: "unat n < 2 ^ 31 \<Longrightarrow> parse_part (''numid='' @ show_nat (unat n)) dst = Some (0, dst\<lparr>id_numid := n\<rparr>)"
  by (simp add: parse_part_def scan_text_def scan_field_nat)

lemma part_iface:
  assumes "i \<le> ELEM_IFACE_LAST"
  shows "parse_part (''iface='' @ snd_ctl_elem_iface_names ! i) dst = Some (0, dst\<lparr>id_iface := int i\<rparr>)"
  using iface_name [OF assms] find_iface_from [OF assms, of 0] assms
  by (simp add: parse_part_def scan_text_def takeWhile_all Let_def)

lemma part_name:
  assumes "name \<noteq> []" "length name \<le> 42" "CHR 0x27 \<notin> set name"
  shows "parse_part (''name='' @ [CHR 0x27] @ name @ [CHR 0x27]) dst = Some (0, dst\<lparr>id_name := name\<rparr>)"
proof -
  have "takeWhile (\<lambda>c. c \<noteq> CHR 0x27) (name @ [CHR 0x27]) = name" using assms(3) by (induction name) auto
  then show ?thesis using assms(1,2) by (simp add: parse_part_def scan_text_def Let_def)
qed

lemma scan_show_word: "scan_int False (show_int (sint n)) = Some (Some (sint (n :: u32), []))"
  using scan_int_show [of "[]" "sint n"] sint_u32_bounds [of n] by (simp add: ends_number_def)

lemma part_numbers:
  "parse_part (''index='' @ show_int (sint n)) dst = Some (0, dst\<lparr>id_index := n\<rparr>)"
  "parse_part (''device='' @ show_int (sint n)) dst = Some (0, dst\<lparr>id_device := n\<rparr>)"
  "parse_part (''subdevice='' @ show_int (sint n)) dst = Some (0, dst\<lparr>id_subdevice := n\<rparr>)"
  by (simp_all add: parse_part_def scan_text_def scan_field_def scan_show_word)

lemma show_int_no_comma: "CHR '','' \<notin> set (show_int i)" "CHR '','' \<notin> set (show_nat n)"
proof -
  have d: "CHR '','' \<noteq> digit_char d" if "d < 10" for d using digit_char_inj [OF that, of "CHR '',''"] by auto
  have "CHR '','' \<notin> set (show_nat n)" for n using show_nat_digits [of "CHR '',''" n] d by blast
  then show "CHR '','' \<notin> set (show_int i)" "CHR '','' \<notin> set (show_nat n)" by (auto simp: show_int_def)
qed

lemma append_number_fits:
  assumes "length buf + length key \<le> 240"
  shows "append_number key n buf = buf @ (if n > 0 then key @ show_int (sint n) else [])"
  using length_show_int [of "sint n"] sint_u32_bounds [of n] assms by (simp add: append_number_def snprintf_array_def)

text \<open>A text as its parts, and the identifiers that each part sets.\<close>

definition tail_text :: "string list \<Rightarrow> string" where
  "tail_text ps = concat (map (\<lambda>p. CHR '','' # p) ps)"

primrec set_parts :: "string list \<Rightarrow> snd_ctl_elem_id \<Rightarrow> snd_ctl_elem_id \<Rightarrow> bool" where
  "set_parts [] dst i \<longleftrightarrow> dst = i"
| "set_parts (p # ps) dst i \<longleftrightarrow> CHR '','' \<notin> set p \<and> (\<exists>dst'. parse_part p dst = Some (0, dst') \<and> set_parts ps dst' i)"

lemma set_parts_append: "set_parts (ps @ qs) dst i \<longleftrightarrow> (\<exists>dst'. set_parts ps dst dst' \<and> set_parts qs dst' i)"
  by (induction ps arbitrary: dst) auto

lemma parse_parts: "set_parts (p # ps) dst i \<Longrightarrow> snd_ctl_ascii_elem_id_parse dst (p @ tail_text ps) = Some (0, i)"
proof (induction ps arbitrary: p dst)
  case Nil
  then show ?case using parse_last by (auto simp: tail_text_def)
next
  case (Cons q ps)
  then obtain dst' where "parse_part p dst = Some (0, dst')" "CHR '','' \<notin> set p" "set_parts (q # ps) dst' i" by auto
  with Cons.IH show ?case using parse_more [of p dst dst' "q @ tail_text ps"] by (simp add: tail_text_def)
qed

definition number_part :: "string \<Rightarrow> u32 \<Rightarrow> string list" where
  "number_part key n = (if n > 0 then [key @ show_int (sint n)] else [])"

lemma append_number_part:
  assumes "length buf + length key \<le> 239"
  shows "append_number (CHR '','' # key) n buf = buf @ tail_text (number_part key n)"
    "length (tail_text (number_part key n)) \<le> length key + 12"
  using append_number_fits [of buf "CHR '','' # key" n] length_show_int [of "sint n"] sint_u32_bounds [of n] assms
  by (simp_all add: number_part_def tail_text_def)

lemma number_parts_set:
  "id_index dst = 0 \<Longrightarrow> set_parts (number_part ''index='' n) dst (dst\<lparr>id_index := n\<rparr>)"
  "id_device dst = 0 \<Longrightarrow> set_parts (number_part ''device='' n) dst (dst\<lparr>id_device := n\<rparr>)"
  "id_subdevice dst = 0 \<Longrightarrow> set_parts (number_part ''subdevice='' n) dst (dst\<lparr>id_subdevice := n\<rparr>)"
  using part_numbers [of n dst] by (auto simp: number_part_def show_int_no_comma word_gt_0)

text \<open>The text of an identifier, which always fits into the buffer.\<close>

definition printable_id :: "snd_ctl_elem_id \<Rightarrow> bool" where
  "printable_id i \<longleftrightarrow> unat (id_numid i) < 2 ^ 31 \<and> 0 \<le> id_iface i \<and> id_iface i \<le> 6 \<and> id_name i \<noteq> [] \<and> length (id_name i) \<le> 42 \<and>
     CHR '','' \<notin> set (id_name i) \<and> CHR 0x27 \<notin> set (id_name i)"

abbreviation numid_part :: "snd_ctl_elem_id \<Rightarrow> string" where
  "numid_part i \<equiv> ''numid='' @ show_nat (unat (id_numid i))"

abbreviation iface_part :: "snd_ctl_elem_id \<Rightarrow> string" where
  "iface_part i \<equiv> ''iface='' @ snd_ctl_elem_iface_names ! nat (id_iface i)"

abbreviation name_part :: "snd_ctl_elem_id \<Rightarrow> string" where
  "name_part i \<equiv> ''name='' @ [CHR 0x27] @ id_name i @ [CHR 0x27]"

definition id_parts :: "snd_ctl_elem_id \<Rightarrow> string list" where
  "id_parts i = [iface_part i, name_part i] @
     number_part ''index='' (id_index i) @ number_part ''device='' (id_device i) @ number_part ''subdevice='' (id_subdevice i)"

lemma tail_text_append: "tail_text (ps @ qs) = tail_text ps @ tail_text qs"
  by (simp add: tail_text_def)

lemma id_get_text:
  assumes "printable_id i"
  shows "snd_ctl_ascii_elem_id_get True i = Some (Some (numid_part i @ tail_text (id_parts i)))"
proof -
  let ?head = "numid_part i @ tail_text [iface_part i, name_part i]"
  have i: "nat (id_iface i) \<le> ELEM_IFACE_LAST" "\<not> id_iface i < 0" using assms by (auto simp: printable_id_def)
  have n: "length (show_nat (unat (id_numid i))) \<le> 10"
    using assms length_show_nat [of "unat (id_numid i)" 10] by (simp add: printable_id_def)
  have l: "length ?head \<le> 90" using iface_name(3) [OF i(1)] n assms by (simp add: printable_id_def tail_text_def)
  have g: "array_get snd_ctl_elem_iface_names (nat (id_iface i)) = Some (snd_ctl_elem_iface_names ! nat (id_iface i))"
    using i ifaces_listed(2) by (simp add: array_get_def)
  have h: "''numid='' @ show_nat (unat (id_numid i)) @ '',iface='' @ snd_ctl_elem_iface_names ! nat (id_iface i) @ '',name='' @ [CHR 0x27] @
      id_name i @ [CHR 0x27] = ?head" by (simp add: tail_text_def)
  have s: "snprintf_array 256 ?head = ?head" using l unfolding snprintf_array_def by (intro take_all) simp
  have s: "snprintf_array 256 (''numid='' @ show_nat (unat (id_numid i)) @ '',iface='' @ snd_ctl_elem_iface_names ! nat (id_iface i) @
      '',name='' @ [CHR 0x27] @ id_name i @ [CHR 0x27]) = ?head" unfolding h by (rule s)
  define head where "head = ?head"
  have "length (id_name i) < 44" using assms by (simp add: printable_id_def)
  then have "snd_ctl_ascii_elem_id_get True i = Some (Some (append_number '',subdevice='' (id_subdevice i)
      (append_number '',device='' (id_device i) (append_number '',index='' (id_index i) head))))"
    using i(2) g unfolding snd_ctl_ascii_elem_id_get_def head_def Let_def by (simp only: s if_True if_False bind.bind_lunit)
  moreover have "length head \<le> 90" using l unfolding head_def .
  ultimately show ?thesis
    using append_number_part(2) [of "[]" "''index=''" "id_index i"] append_number_part(2) [of "[]" "''device=''" "id_device i"]
    by (simp add: append_number_part(1) id_parts_def tail_text_append head_def) (simp add: tail_text_def)
qed

text \<open>C32. An identifier printed as text is parsed back into the same identifier, whatever its numbers are, also those
  that are printed as negative: for every interface, a numeric identifier that \<^verbatim>\<open>int\<close> holds, and a name of 1 to 42
  characters without a comma or an apostrophe.  The object parsed into only has to have no index, device and
  subdevice, since zeros are not printed.
\<close>

theorem ascii_id_roundtrip:
  assumes "printable_id i" "id_index dst = 0" "id_device dst = 0" "id_subdevice dst = 0"
  shows "\<exists>s. snd_ctl_ascii_elem_id_get True i = Some (Some s) \<and> snd_ctl_ascii_elem_id_parse dst s = Some (0, i)"
proof -
  let ?d1 = "dst\<lparr>id_numid := id_numid i, id_iface := id_iface i, id_name := id_name i\<rparr>"
  let ?d2 = "?d1\<lparr>id_index := id_index i\<rparr>"
  let ?d3 = "?d2\<lparr>id_device := id_device i\<rparr>"
  have i: "nat (id_iface i) \<le> ELEM_IFACE_LAST" "int (nat (id_iface i)) = id_iface i" using assms by (auto simp: printable_id_def)
  have "set_parts [numid_part i, iface_part i, name_part i] dst ?d1"
    using part_numid [of "id_numid i" dst] part_iface [OF i(1), of "dst\<lparr>id_numid := id_numid i\<rparr>"] iface_name(2) [OF i(1)]
      part_name [of "id_name i" "dst\<lparr>id_numid := id_numid i, id_iface := id_iface i\<rparr>"] assms(1) i(2)
    by (simp add: printable_id_def show_int_no_comma)
  moreover have "?d3\<lparr>id_subdevice := id_subdevice i\<rparr> = i" by (cases i; cases dst) simp
  moreover have "set_parts (number_part ''index='' (id_index i)) ?d1 ?d2"
    "set_parts (number_part ''device='' (id_device i)) ?d2 ?d3"
    "set_parts (number_part ''subdevice='' (id_subdevice i)) ?d3 (?d3\<lparr>id_subdevice := id_subdevice i\<rparr>)"
    using number_parts_set(1) [of ?d1 "id_index i"] number_parts_set(2) [of ?d2 "id_device i"]
      number_parts_set(3) [of ?d3 "id_subdevice i"] assms(2-) by simp_all
  ultimately have "set_parts ([numid_part i, iface_part i, name_part i] @ number_part ''index='' (id_index i) @
      number_part ''device='' (id_device i) @ number_part ''subdevice='' (id_subdevice i)) dst i"
    unfolding set_parts_append by metis
  then have "set_parts (numid_part i # id_parts i) dst i" by (simp add: id_parts_def)
  from parse_parts [OF this] id_get_text [OF assms(1)] show ?thesis by blast
qed

definition demo_id :: snd_ctl_elem_id where
  "demo_id = \<lparr>id_numid = 7, id_iface = 2, id_device = 0, id_subdevice = 3, id_name = ''Master'', id_index = - 5\<rparr>"

theorem ascii_id_roundtrip_witness:
  "\<exists>s. snd_ctl_ascii_elem_id_get True demo_id = Some (Some s) \<and> snd_ctl_ascii_elem_id_parse zero_id s = Some (0, demo_id)"
  by (rule ascii_id_roundtrip) (simp_all add: demo_id_def zero_id_def printable_id_def)

section \<open>What is parsed into a value\<close>

text \<open>Every text differs from one of the words, so that it is always taken as a yes.\<close>

lemma match_yes_always: "match_yes s = 1"
proof (rule ccontr)
  assume "match_yes s \<noteq> 1"
  then have "map to_lower (take 2 s) = ''on''" "map to_lower (take 2 s) = ''up''"
    by (auto simp: match_yes_def yes_names_def strncaseeq_def to_lower_def Let_def split: if_splits)
  then show False by simp
qed

lemma strtol_comma: "strtol (CHR '','' # s) = 0"
  by (cases s) (auto simp: strtol_def is_space_def digit_value_def Let_def)

definition first_value :: "int \<Rightarrow> int \<Rightarrow> string \<Rightarrow> int" where
  "first_value ty old s = (if ty = TYPE_BOOLEAN then (if strncaseeq s ''toggle'' 6 \<and> old \<noteq> 0 then 0 else 1) else strtol s)"

definition later_value :: "int \<Rightarrow> int" where
  "later_value ty = (if ty = TYPE_BOOLEAN then 1 else 0)"

lemma strtol_bounds: "- (2 ^ 63) \<le> strtol s" "strtol s < 2 ^ 63"
  by (auto simp: strtol_def Let_def split: prod.splits)

lemma parse_value_stores:
  assumes "info_type info \<in> {TYPE_BOOLEAN, TYPE_INTEGER, TYPE_INTEGER64}" "length (value_data obj) = 1024" "unat idx < 128"
    and "snd_ctl_elem_value_get_integer obj idx = Some old"
  shows "\<exists>obj'. parse_value k idx obj info s w = Some (0, obj', info, w) \<and>
     snd_ctl_elem_value_set_integer obj idx (first_value (info_type info) old s) = Some obj' \<and>
     snd_ctl_elem_value_get_integer obj' idx = Some (first_value (info_type info) old s) \<and>
     (\<forall>j. j \<noteq> idx \<longrightarrow> snd_ctl_elem_value_get_integer obj' j = snd_ctl_elem_value_get_integer obj j) \<and>
     length (value_data obj') = 1024"
proof -
  have "- (2 ^ 63) \<le> first_value (info_type info) old s" "first_value (info_type info) old s < 2 ^ 63"
    using strtol_bounds [of s] by (auto simp: first_value_def)
  from integer_set_get [OF assms(2) this assms(3)] obtain obj' where
    o: "snd_ctl_elem_value_set_integer obj idx (first_value (info_type info) old s) = Some obj'"
      "snd_ctl_elem_value_get_integer obj' idx = Some (first_value (info_type info) old s)"
      "\<forall>j. j \<noteq> idx \<longrightarrow> snd_ctl_elem_value_get_integer obj' j = snd_ctl_elem_value_get_integer obj j"
      "length (value_data obj') = 1024" by blast
  then have "parse_value k idx obj info s w = Some (0, obj', info, w)"
    using assms(1,4) by (auto simp: parse_value_def first_value_def match_yes_always split: if_splits)
  with o show ?thesis by blast
qed

lemma later_stored: "first_value ty old (CHR '','' # s) = later_value ty"
  by (simp add: first_value_def later_value_def strtol_comma strncaseeq_def to_lower_def Let_def)

lemma get_integer_defined:
  "length (value_data obj) = 1024 \<Longrightarrow> unat idx < 128 \<Longrightarrow> \<exists>v. snd_ctl_elem_value_get_integer obj idx = Some v"
  by (simp add: snd_ctl_elem_value_get_integer_def load_array_def load_long_def load_def)

lemma value_loop_stuck:
  assumes "info_type info \<in> {TYPE_BOOLEAN, TYPE_INTEGER, TYPE_INTEGER64}"
  shows "length (value_data obj) = 1024 \<Longrightarrow>
   \<exists>obj'. ascii_value_loop k idx obj info (CHR '','' # s) w = Some (0, obj', info, w) \<and> length (value_data obj') = 1024 \<and>
     (\<forall>j. snd_ctl_elem_value_get_integer obj' j =
        (if idx \<le> unat j \<and> unat j < min 128 (unat (info_count info)) then Some (later_value (info_type info))
         else snd_ctl_elem_value_get_integer obj j))"
proof (induction "128 - idx" arbitrary: idx obj)
  case 0
  then show ?case by (subst ascii_value_loop.simps) auto
next
  case (Suc n)
  show ?case
  proof (cases "idx < unat (info_count info) \<and> idx < 128")
    case False
    then show ?thesis using Suc.prems by (subst ascii_value_loop.simps) auto
  next
    case True
    then have i: "unat (of_nat idx :: u32) = idx" by (simp add: unat_of_nat)
    then have b: "unat (of_nat idx :: u32) < 128" using True by simp
    from get_integer_defined [OF Suc.prems b] obtain old where old: "snd_ctl_elem_value_get_integer obj (of_nat idx) = Some old" by blast
    from parse_value_stores [OF assms Suc.prems b old, of k "CHR '','' # s" w] obtain o1 where
      o1: "parse_value k (of_nat idx) obj info (CHR '','' # s) w = Some (0, o1, info, w)"
        "snd_ctl_elem_value_get_integer o1 (of_nat idx) = Some (later_value (info_type info))"
        "\<forall>j. j \<noteq> of_nat idx \<longrightarrow> snd_ctl_elem_value_get_integer o1 j = snd_ctl_elem_value_get_integer obj j"
        "length (value_data o1) = 1024" by (auto simp: later_stored)
    have "n = 128 - (idx + 1)" using Suc(2) by simp
    from Suc(1) [OF this o1(4)] obtain o2 where
      o2: "ascii_value_loop k (idx + 1) o1 info (CHR '','' # s) w = Some (0, o2, info, w)" "length (value_data o2) = 1024"
        "\<forall>j. snd_ctl_elem_value_get_integer o2 j =
          (if idx + 1 \<le> unat j \<and> unat j < min 128 (unat (info_count info)) then Some (later_value (info_type info))
           else snd_ctl_elem_value_get_integer o1 j)" by blast
    have "ascii_value_loop k idx obj info (CHR '','' # s) w = Some (0, o2, info, w)"
      using True o1(1) o2(1) by (subst ascii_value_loop.simps) simp
    moreover have "j = of_nat idx \<longleftrightarrow> unat j = idx" for j :: u32 by (simp only: word_unat_eq_iff i)
    moreover have "idx \<le> unat j \<longleftrightarrow> j = of_nat idx \<or> idx + 1 \<le> unat j" for j :: u32 using calculation(2) [of j] by auto
    ultimately show ?thesis using o1(2,3) o2(2,3) True by (intro exI [of _ o2]) (auto simp: not_le)
  qed
qed

text \<open>A list of values separated by commas sets only its first element as written.  For a boolean or integer
  element the pointer stops at the first comma and is never moved over it, so that every later element reads the
  text from the comma on: integers become 0 and booleans become 1, whatever the list says; without a comma the
  later elements are kept.  A boolean is set to 1 by every text but a toggle, \<^verbatim>\<open>off\<close> included, because the
  comparison with the affirmative words is inverted.
\<close>

theorem ascii_list_first_only:
  assumes "info_type info \<in> {TYPE_BOOLEAN, TYPE_INTEGER, TYPE_INTEGER64}" "info_count info > 0"
    and "length (value_data obj) = 1024" "snd_ctl_elem_value_get_integer obj 0 = Some old" "s \<noteq> []"
  shows "\<exists>obj'. snd_ctl_ascii_value_parse k obj info s w = Some (0, obj', info, w) \<and>
     snd_ctl_elem_value_get_integer obj' 0 = Some (first_value (info_type info) old s) \<and>
     (\<forall>j. 0 < unat j \<longrightarrow> snd_ctl_elem_value_get_integer obj' j =
        (if CHR '','' \<in> set s \<and> unat j < min 128 (unat (info_count info)) then Some (later_value (info_type info))
         else snd_ctl_elem_value_get_integer obj j))"
proof -
  have "unat (info_count info) > 0" using assms(2) by (simp add: word_gt_0 unat_gt_0)
  then have unfold: "snd_ctl_ascii_value_parse k obj info s w = parse_value k 0 obj info s w \<bind>
      (\<lambda>(err, obj, info, w). if err < 0 then Some (err, obj, info, w)
         else ascii_value_loop k 1 obj info (dropWhile (\<lambda>c. c \<noteq> CHR '','') s) w)"
    using assms(5) unfolding snd_ctl_ascii_value_parse_def by (subst ascii_value_loop.simps) (simp cong: if_cong)
  from parse_value_stores [OF assms(1,3) _ assms(4), of k s w] obtain o1 where
    o1: "parse_value k 0 obj info s w = Some (0, o1, info, w)"
      "snd_ctl_elem_value_get_integer o1 0 = Some (first_value (info_type info) old s)"
      "\<forall>j. j \<noteq> 0 \<longrightarrow> snd_ctl_elem_value_get_integer o1 j = snd_ctl_elem_value_get_integer obj j"
      "length (value_data o1) = 1024" by auto
  have nz: "0 < unat j \<longleftrightarrow> j \<noteq> 0" for j :: u32 by (simp add: unat_gt_0)
  show ?thesis
  proof (cases "dropWhile (\<lambda>c. c \<noteq> CHR '','') s")
    case Nil
    then have "CHR '','' \<notin> set s" by (auto simp: dropWhile_eq_Nil_conv)
    moreover have "ascii_value_loop k 1 o1 info [] w = Some (0, o1, info, w)" by (subst ascii_value_loop.simps) simp
    ultimately show ?thesis using o1 unfolding unfold Nil by (intro exI [of _ o1]) (simp add: nz)
  next
    case (Cons c t)
    then have c: "c = CHR '',''" using hd_dropWhile [of "\<lambda>c. c \<noteq> CHR '',''" s] by simp
    have "c \<in> set s" using Cons by (metis list.set_intros(1) set_dropWhileD)
    with c have m: "CHR '','' \<in> set s" by simp
    from value_loop_stuck [OF assms(1) o1(4), of k 1 t w] obtain o2 where o2:
      "ascii_value_loop k 1 o1 info (CHR '','' # t) w = Some (0, o2, info, w)"
      "\<forall>j. snd_ctl_elem_value_get_integer o2 j =
        (if 1 \<le> unat j \<and> unat j < min 128 (unat (info_count info)) then Some (later_value (info_type info))
         else snd_ctl_elem_value_get_integer o1 j)" by blast
    show ?thesis using o2 o1 Cons c m by (intro exI [of _ o2]) (simp add: unfold nz Suc_le_eq)
  qed
qed

theorem ascii_list_first_only_witness:
  "\<exists>obj'. snd_ctl_ascii_value_parse (one_elem blank_info) blank_value (blank_info\<lparr>info_type := 2, info_count := 2\<rparr>) ''7,9'' blank_value =
     Some (0, obj', blank_info\<lparr>info_type := 2, info_count := 2\<rparr>, blank_value) \<and>
   snd_ctl_elem_value_get_integer obj' 0 = Some 7 \<and> snd_ctl_elem_value_get_integer obj' 1 = Some 0"
proof -
  have "snd_ctl_elem_value_get_integer blank_value 0 = Some 0"
    by (simp add: snd_ctl_elem_value_get_integer_def load_array_def load_long_def load_def blank_value_def numeral_eq_Suc)
  moreover have "length (value_data blank_value) = 1024" by (simp add: blank_value_def)
  moreover have "first_value 2 0 ''7,9'' = 7"
    by (simp add: first_value_def strtol_def is_space_def digit_value_def Let_def)
  ultimately show ?thesis
    using ascii_list_first_only [of "blank_info\<lparr>info_type := 2, info_count := 2\<rparr>" blank_value 0 "''7,9''" "one_elem blank_info" blank_value]
    by (force simp: later_value_def)
qed

text \<open>A text with a part that names nothing is refused, and so is the empty text.\<close>

lemma ascii_empty_refused: "snd_ctl_ascii_elem_id_parse dst [] = Some (- EINVAL, dst)"
  by (subst snd_ctl_ascii_elem_id_parse.simps)
    (simp add: strsep_comma_def parse_part_def scan_text_def scan_field_def)

text \<open>An interface name that does not fit the buffer of 20 characters is written behind its end.\<close>

lemma ascii_iface_overflow:
  assumes "20 \<le> length s" "CHR '','' \<notin> set s"
  shows "snd_ctl_ascii_elem_id_parse dst (''iface='' @ s) = None"
proof -
  have "parse_part (''iface='' @ s) dst = None"
    using assms by (auto simp: parse_part_def scan_text_def takeWhile_all Let_def)
  then show ?thesis using strsep_last [of "''iface='' @ s"] assms by (subst snd_ctl_ascii_elem_id_parse.simps) simp
qed

text \<open>The gains of an element do not depend on what the driver says they are: the TLV data is never read.\<close>

lemma dB_range_ignores_driver:
  "snd_ctl_get_dB_range (k\<lparr>k_tlv := f\<rparr>) info0 buf eid mn mx w = snd_ctl_get_dB_range k info0 buf eid mn mx w"
  by (simp add: snd_ctl_get_dB_range_def get_tlv_info_def snd_ctl_elem_info0_def)

end
