(* ===== verification/Device_Objects.thy ===== *)
theory Device_Objects
  imports Devices
begin

text \<open>
  The objects that describe hardware dependent devices, timers and MIDI devices, their accessors, and the requests and
  transfers on the handles: \<^verbatim>\<open>src/src/hwdep_macros.h\<close>, \<^verbatim>\<open>src/src/timer_macros.h\<close> and
  \<^verbatim>\<open>src/src/rawmidi_macros.h\<close>.  Reserved members are left out; a name is the string its array holds.
\<close>

section \<open>System calls on the descriptor of a device\<close>

text \<open>A request that passes an object, one that passes none, and the transfer of bytes; \<open>io\<close> is the answer of the kernel.\<close>

definition ioctl_object :: "(int \<Rightarrow> 'a \<Rightarrow> 'w \<Rightarrow> int \<times> 'a \<times> 'w) \<Rightarrow> int \<Rightarrow> 'a \<Rightarrow> 'w sys \<Rightarrow> int \<times> 'a \<times> 'w sys" where
  "ioctl_object io fd obj s =
     (case io fd obj (sys_world s) of (r, obj, w) \<Rightarrow>
        (case sys_result r w s of (r, s) \<Rightarrow> (if r < 0 then (- sys_errno s, obj, s) else (0, obj, s))))"

definition ioctl_none :: "(int \<Rightarrow> 'w \<Rightarrow> int \<times> 'w) \<Rightarrow> int \<Rightarrow> 'w sys \<Rightarrow> int \<times> 'w sys" where
  "ioctl_none io fd s =
     (case io fd (sys_world s) of (r, w) \<Rightarrow> (case sys_result r w s of (r, s) \<Rightarrow> (if r < 0 then (- sys_errno s, s) else (0, s))))"

definition sys_write :: "(int \<Rightarrow> u8 list \<Rightarrow> 'w \<Rightarrow> int \<times> 'w) \<Rightarrow> int \<Rightarrow> u8 list \<Rightarrow> 'w sys \<Rightarrow> int \<times> 'w sys" where
  "sys_write io fd buf s =
     (case io fd buf (sys_world s) of (r, w) \<Rightarrow> (case sys_result r w s of (r, s) \<Rightarrow> (if r < 0 then - sys_errno s else r, s)))"

definition sys_read :: "(int \<Rightarrow> u64 \<Rightarrow> 'w \<Rightarrow> int \<times> u8 list \<times> 'w) \<Rightarrow> int \<Rightarrow> u64 \<Rightarrow> 'w sys \<Rightarrow> int \<times> u8 list \<times> 'w sys" where
  "sys_read io fd n s =
     (case io fd n (sys_world s) of (r, buf, w) \<Rightarrow> (case sys_result r w s of (r, s) \<Rightarrow> (if r < 0 then - sys_errno s else r, buf, s)))"

text \<open>A time stamp in seconds and nanoseconds; without 64-bit padding it is copied as it is.\<close>

record timespec =
  tv_sec :: int
  tv_nsec :: int

section \<open>Hardware dependent devices\<close>

record snd_hwdep_info =
  hi_device :: u32
  hi_card :: int
  hi_id :: string
  hi_name :: string
  hi_iface :: int

record snd_hwdep_dsp_status =
  ds_version :: u32
  ds_id :: string
  ds_num_dsps :: u32
  ds_dsp_loaded :: u32
  ds_chip_ready :: u32

record snd_hwdep_dsp_image =
  di_index :: u32
  di_name :: string
  di_image :: "u8 list"
  di_length :: u64

definition snd_hwdep_info_get_device :: "snd_hwdep_info \<Rightarrow> u32" where
  "snd_hwdep_info_get_device obj = hi_device obj"

definition snd_hwdep_info_get_card :: "snd_hwdep_info \<Rightarrow> int" where
  "snd_hwdep_info_get_card obj = hi_card obj"

definition snd_hwdep_info_get_id :: "snd_hwdep_info \<Rightarrow> string" where
  "snd_hwdep_info_get_id obj = hi_id obj"

definition snd_hwdep_info_get_name :: "snd_hwdep_info \<Rightarrow> string" where
  "snd_hwdep_info_get_name obj = hi_name obj"

definition snd_hwdep_info_get_iface :: "snd_hwdep_info \<Rightarrow> int" where
  "snd_hwdep_info_get_iface obj = hi_iface obj"

definition snd_hwdep_info_set_device :: "snd_hwdep_info \<Rightarrow> u32 \<Rightarrow> snd_hwdep_info" where
  "snd_hwdep_info_set_device obj val = obj\<lparr>hi_device := val\<rparr>"

definition snd_hwdep_dsp_status_get_version :: "snd_hwdep_dsp_status \<Rightarrow> u32" where
  "snd_hwdep_dsp_status_get_version obj = ds_version obj"

definition snd_hwdep_dsp_status_get_id :: "snd_hwdep_dsp_status \<Rightarrow> string" where
  "snd_hwdep_dsp_status_get_id obj = ds_id obj"

definition snd_hwdep_dsp_status_get_num_dsps :: "snd_hwdep_dsp_status \<Rightarrow> u32" where
  "snd_hwdep_dsp_status_get_num_dsps obj = ds_num_dsps obj"

definition snd_hwdep_dsp_status_get_dsp_loaded :: "snd_hwdep_dsp_status \<Rightarrow> u32" where
  "snd_hwdep_dsp_status_get_dsp_loaded obj = ds_dsp_loaded obj"

definition snd_hwdep_dsp_status_get_chip_ready :: "snd_hwdep_dsp_status \<Rightarrow> u32" where
  "snd_hwdep_dsp_status_get_chip_ready obj = ds_chip_ready obj"

definition snd_hwdep_dsp_image_get_index :: "snd_hwdep_dsp_image \<Rightarrow> u32" where
  "snd_hwdep_dsp_image_get_index obj = di_index obj"

definition snd_hwdep_dsp_image_get_name :: "snd_hwdep_dsp_image \<Rightarrow> string" where
  "snd_hwdep_dsp_image_get_name obj = di_name obj"

definition snd_hwdep_dsp_image_get_image :: "snd_hwdep_dsp_image \<Rightarrow> u8 list" where
  "snd_hwdep_dsp_image_get_image obj = di_image obj"

definition snd_hwdep_dsp_image_get_length :: "snd_hwdep_dsp_image \<Rightarrow> u64" where
  "snd_hwdep_dsp_image_get_length obj = di_length obj"

definition snd_hwdep_dsp_image_set_index :: "snd_hwdep_dsp_image \<Rightarrow> u32 \<Rightarrow> snd_hwdep_dsp_image" where
  "snd_hwdep_dsp_image_set_index obj val = obj\<lparr>di_index := val\<rparr>"

text \<open>The name is cut to the 64 characters of its array and the last one is overwritten by a zero.\<close>

definition snd_hwdep_dsp_image_set_name :: "snd_hwdep_dsp_image \<Rightarrow> string \<Rightarrow> snd_hwdep_dsp_image" where
  "snd_hwdep_dsp_image_set_name obj val = obj\<lparr>di_name := take 63 val\<rparr>"

definition snd_hwdep_dsp_image_set_image :: "snd_hwdep_dsp_image \<Rightarrow> u8 list \<Rightarrow> snd_hwdep_dsp_image" where
  "snd_hwdep_dsp_image_set_image obj val = obj\<lparr>di_image := val\<rparr>"

definition snd_hwdep_dsp_image_set_length :: "snd_hwdep_dsp_image \<Rightarrow> u64 \<Rightarrow> snd_hwdep_dsp_image" where
  "snd_hwdep_dsp_image_set_length obj val = obj\<lparr>di_length := val\<rparr>"

definition snd_hwdep_info0 :: "(int \<Rightarrow> snd_hwdep_info \<Rightarrow> 'w \<Rightarrow> int \<times> snd_hwdep_info \<times> 'w) \<Rightarrow> snd_hwdep \<Rightarrow> snd_hwdep_info \<Rightarrow> 'w sys \<Rightarrow> int \<times> snd_hwdep_info \<times> 'w sys" where
  "snd_hwdep_info0 io handle obj s = ioctl_object io (hwdep_fd handle) obj s"

definition snd_hwdep_ioctl :: "(int \<Rightarrow> 'a \<Rightarrow> 'w \<Rightarrow> int \<times> 'a \<times> 'w) \<Rightarrow> snd_hwdep \<Rightarrow> 'a \<Rightarrow> 'w sys \<Rightarrow> int \<times> 'a \<times> 'w sys" where
  "snd_hwdep_ioctl io handle obj s = ioctl_object io (hwdep_fd handle) obj s"

definition snd_hwdep_dsp_status0 :: "(int \<Rightarrow> snd_hwdep_dsp_status \<Rightarrow> 'w \<Rightarrow> int \<times> snd_hwdep_dsp_status \<times> 'w) \<Rightarrow> snd_hwdep \<Rightarrow> snd_hwdep_dsp_status \<Rightarrow> 'w sys \<Rightarrow> int \<times> snd_hwdep_dsp_status \<times> 'w sys" where
  "snd_hwdep_dsp_status0 io handle obj s = snd_hwdep_ioctl io handle obj s"

definition snd_hwdep_dsp_load :: "(int \<Rightarrow> snd_hwdep_dsp_image \<Rightarrow> 'w \<Rightarrow> int \<times> snd_hwdep_dsp_image \<times> 'w) \<Rightarrow> snd_hwdep \<Rightarrow> snd_hwdep_dsp_image \<Rightarrow> 'w sys \<Rightarrow> int \<times> snd_hwdep_dsp_image \<times> 'w sys" where
  "snd_hwdep_dsp_load io handle obj s = snd_hwdep_ioctl io handle obj s"

definition snd_hwdep_write :: "(int \<Rightarrow> u8 list \<Rightarrow> 'w \<Rightarrow> int \<times> 'w) \<Rightarrow> snd_hwdep \<Rightarrow> u8 list \<Rightarrow> 'w sys \<Rightarrow> int \<times> 'w sys" where
  "snd_hwdep_write io handle buf s = sys_write io (hwdep_fd handle) buf s"

definition snd_hwdep_read :: "(int \<Rightarrow> u64 \<Rightarrow> 'w \<Rightarrow> int \<times> u8 list \<times> 'w) \<Rightarrow> snd_hwdep \<Rightarrow> u64 \<Rightarrow> 'w sys \<Rightarrow> int \<times> u8 list \<times> 'w sys" where
  "snd_hwdep_read io handle n s = sys_read io (hwdep_fd handle) n s"

section \<open>Timers\<close>

record snd_timer_id =
  ti_class :: int
  ti_sclass :: int
  ti_card :: int
  ti_device :: int
  ti_subdevice :: int

definition snd_timer_id_set_class :: "snd_timer_id \<Rightarrow> int \<Rightarrow> snd_timer_id" where
  "snd_timer_id_set_class obj val = obj\<lparr>ti_class := val\<rparr>"

definition snd_timer_id_get_class :: "snd_timer_id \<Rightarrow> int" where
  "snd_timer_id_get_class obj = ti_class obj"

definition snd_timer_id_set_sclass :: "snd_timer_id \<Rightarrow> int \<Rightarrow> snd_timer_id" where
  "snd_timer_id_set_sclass obj val = obj\<lparr>ti_sclass := val\<rparr>"

definition snd_timer_id_get_sclass :: "snd_timer_id \<Rightarrow> int" where
  "snd_timer_id_get_sclass obj = ti_sclass obj"

definition snd_timer_id_set_card :: "snd_timer_id \<Rightarrow> int \<Rightarrow> snd_timer_id" where
  "snd_timer_id_set_card obj val = obj\<lparr>ti_card := val\<rparr>"

definition snd_timer_id_get_card :: "snd_timer_id \<Rightarrow> int" where
  "snd_timer_id_get_card obj = ti_card obj"

definition snd_timer_id_set_device :: "snd_timer_id \<Rightarrow> int \<Rightarrow> snd_timer_id" where
  "snd_timer_id_set_device obj val = obj\<lparr>ti_device := val\<rparr>"

definition snd_timer_id_get_device :: "snd_timer_id \<Rightarrow> int" where
  "snd_timer_id_get_device obj = ti_device obj"

definition snd_timer_id_set_subdevice :: "snd_timer_id \<Rightarrow> int \<Rightarrow> snd_timer_id" where
  "snd_timer_id_set_subdevice obj val = obj\<lparr>ti_subdevice := val\<rparr>"

definition snd_timer_id_get_subdevice :: "snd_timer_id \<Rightarrow> int" where
  "snd_timer_id_get_subdevice obj = ti_subdevice obj"

record snd_timer_ginfo =
  tg_tid :: snd_timer_id
  tg_flags :: u32
  tg_card :: int
  tg_id :: string
  tg_name :: string
  tg_resolution :: u64
  tg_resolution_min :: u64
  tg_resolution_max :: u64
  tg_clients :: u32

definition snd_timer_ginfo_set_tid :: "snd_timer_ginfo \<Rightarrow> snd_timer_id \<Rightarrow> int \<times> snd_timer_ginfo" where
  "snd_timer_ginfo_set_tid obj tid = (0, obj\<lparr>tg_tid := tid\<rparr>)"

definition snd_timer_ginfo_get_tid :: "snd_timer_ginfo \<Rightarrow> snd_timer_id" where
  "snd_timer_ginfo_get_tid obj = tg_tid obj"

definition snd_timer_ginfo_get_flags :: "snd_timer_ginfo \<Rightarrow> u32" where
  "snd_timer_ginfo_get_flags obj = tg_flags obj"

definition snd_timer_ginfo_get_card :: "snd_timer_ginfo \<Rightarrow> int" where
  "snd_timer_ginfo_get_card obj = tg_card obj"

definition snd_timer_ginfo_get_id :: "snd_timer_ginfo \<Rightarrow> string" where
  "snd_timer_ginfo_get_id obj = tg_id obj"

definition snd_timer_ginfo_get_name :: "snd_timer_ginfo \<Rightarrow> string" where
  "snd_timer_ginfo_get_name obj = tg_name obj"

definition snd_timer_ginfo_get_resolution :: "snd_timer_ginfo \<Rightarrow> u64" where
  "snd_timer_ginfo_get_resolution obj = tg_resolution obj"

definition snd_timer_ginfo_get_resolution_min :: "snd_timer_ginfo \<Rightarrow> u64" where
  "snd_timer_ginfo_get_resolution_min obj = tg_resolution_min obj"

definition snd_timer_ginfo_get_resolution_max :: "snd_timer_ginfo \<Rightarrow> u64" where
  "snd_timer_ginfo_get_resolution_max obj = tg_resolution_max obj"

definition snd_timer_ginfo_get_clients :: "snd_timer_ginfo \<Rightarrow> u32" where
  "snd_timer_ginfo_get_clients obj = tg_clients obj"

record snd_timer_info =
  tf_flags :: u32
  tf_card :: int
  tf_id :: string
  tf_name :: string
  tf_resolution :: u64

definition snd_timer_info_is_slave :: "snd_timer_info \<Rightarrow> int" where
  "snd_timer_info_is_slave obj = (if tf_flags obj AND 1 \<noteq> 0 then 1 else 0)"

definition snd_timer_info_get_card :: "snd_timer_info \<Rightarrow> int" where
  "snd_timer_info_get_card obj = tf_card obj"

definition snd_timer_info_get_id :: "snd_timer_info \<Rightarrow> string" where
  "snd_timer_info_get_id obj = tf_id obj"

definition snd_timer_info_get_name :: "snd_timer_info \<Rightarrow> string" where
  "snd_timer_info_get_name obj = tf_name obj"

definition snd_timer_info_get_resolution :: "snd_timer_info \<Rightarrow> int" where
  "snd_timer_info_get_resolution obj = sint (tf_resolution obj)"

record snd_timer_params =
  tp_flags :: u32
  tp_ticks :: u32
  tp_queue_size :: u32
  tp_filter :: u32

definition snd_timer_params_set_auto_start :: "snd_timer_params \<Rightarrow> int \<Rightarrow> int \<times> snd_timer_params" where
  "snd_timer_params_set_auto_start params val =
     (0, params\<lparr>tp_flags := (if val \<noteq> 0 then tp_flags params OR 1 else tp_flags params AND NOT 1)\<rparr>)"

definition snd_timer_params_get_auto_start :: "snd_timer_params \<Rightarrow> int" where
  "snd_timer_params_get_auto_start obj = (if tp_flags obj AND 1 \<noteq> 0 then 1 else 0)"

definition snd_timer_params_set_exclusive :: "snd_timer_params \<Rightarrow> int \<Rightarrow> int \<times> snd_timer_params" where
  "snd_timer_params_set_exclusive params val =
     (0, params\<lparr>tp_flags := (if val \<noteq> 0 then tp_flags params OR 2 else tp_flags params AND NOT 2)\<rparr>)"

definition snd_timer_params_get_exclusive :: "snd_timer_params \<Rightarrow> int" where
  "snd_timer_params_get_exclusive obj = (if tp_flags obj AND 2 \<noteq> 0 then 1 else 0)"

definition snd_timer_params_set_early_event :: "snd_timer_params \<Rightarrow> int \<Rightarrow> int \<times> snd_timer_params" where
  "snd_timer_params_set_early_event params val =
     (0, params\<lparr>tp_flags := (if val \<noteq> 0 then tp_flags params OR 4 else tp_flags params AND NOT 4)\<rparr>)"

definition snd_timer_params_get_early_event :: "snd_timer_params \<Rightarrow> int" where
  "snd_timer_params_get_early_event obj = (if tp_flags obj AND 4 \<noteq> 0 then 1 else 0)"

text \<open>Numbers of type \<^verbatim>\<open>long\<close> are stored in 32 bits.\<close>

definition snd_timer_params_set_ticks :: "snd_timer_params \<Rightarrow> int \<Rightarrow> snd_timer_params" where
  "snd_timer_params_set_ticks obj val = obj\<lparr>tp_ticks := word_of_int val\<rparr>"

definition snd_timer_params_get_ticks :: "snd_timer_params \<Rightarrow> int" where
  "snd_timer_params_get_ticks obj = uint (tp_ticks obj)"

definition snd_timer_params_set_queue_size :: "snd_timer_params \<Rightarrow> int \<Rightarrow> snd_timer_params" where
  "snd_timer_params_set_queue_size obj val = obj\<lparr>tp_queue_size := word_of_int val\<rparr>"

definition snd_timer_params_get_queue_size :: "snd_timer_params \<Rightarrow> int" where
  "snd_timer_params_get_queue_size obj = uint (tp_queue_size obj)"

definition snd_timer_params_set_filter :: "snd_timer_params \<Rightarrow> u32 \<Rightarrow> snd_timer_params" where
  "snd_timer_params_set_filter obj val = obj\<lparr>tp_filter := val\<rparr>"

definition snd_timer_params_get_filter :: "snd_timer_params \<Rightarrow> u32" where
  "snd_timer_params_get_filter obj = tp_filter obj"

record snd_timer_status =
  ts_tstamp :: timespec
  ts_resolution :: u32
  ts_lost :: u32
  ts_overrun :: u32
  ts_queue :: u32

definition snd_timer_status_get_timestamp :: "snd_timer_status \<Rightarrow> timespec" where
  "snd_timer_status_get_timestamp obj = ts_tstamp obj"

definition snd_timer_status_get_resolution :: "snd_timer_status \<Rightarrow> int" where
  "snd_timer_status_get_resolution obj = uint (ts_resolution obj)"

definition snd_timer_status_get_lost :: "snd_timer_status \<Rightarrow> int" where
  "snd_timer_status_get_lost obj = uint (ts_lost obj)"

definition snd_timer_status_get_overrun :: "snd_timer_status \<Rightarrow> int" where
  "snd_timer_status_get_overrun obj = uint (ts_overrun obj)"

definition snd_timer_status_get_queue :: "snd_timer_status \<Rightarrow> int" where
  "snd_timer_status_get_queue obj = uint (ts_queue obj)"

definition snd_timer_info0 :: "(int \<Rightarrow> snd_timer_info \<Rightarrow> 'w \<Rightarrow> int \<times> snd_timer_info \<times> 'w) \<Rightarrow> snd_timer \<Rightarrow> snd_timer_info \<Rightarrow> 'w sys \<Rightarrow> int \<times> snd_timer_info \<times> 'w sys" where
  "snd_timer_info0 io handle obj s = ioctl_object io (timer_fd handle) obj s"

definition snd_timer_params0 :: "(int \<Rightarrow> snd_timer_params \<Rightarrow> 'w \<Rightarrow> int \<times> snd_timer_params \<times> 'w) \<Rightarrow> snd_timer \<Rightarrow> snd_timer_params \<Rightarrow> 'w sys \<Rightarrow> int \<times> snd_timer_params \<times> 'w sys" where
  "snd_timer_params0 io handle obj s = ioctl_object io (timer_fd handle) obj s"

definition snd_timer_status0 :: "(int \<Rightarrow> snd_timer_status \<Rightarrow> 'w \<Rightarrow> int \<times> snd_timer_status \<times> 'w) \<Rightarrow> snd_timer \<Rightarrow> snd_timer_status \<Rightarrow> 'w sys \<Rightarrow> int \<times> snd_timer_status \<times> 'w sys" where
  "snd_timer_status0 io handle obj s = ioctl_object io (timer_fd handle) obj s"

definition snd_timer_start :: "(int \<Rightarrow> 'w \<Rightarrow> int \<times> 'w) \<Rightarrow> snd_timer \<Rightarrow> 'w sys \<Rightarrow> int \<times> 'w sys" where
  "snd_timer_start io handle s = ioctl_none io (timer_fd handle) s"

definition snd_timer_stop :: "(int \<Rightarrow> 'w \<Rightarrow> int \<times> 'w) \<Rightarrow> snd_timer \<Rightarrow> 'w sys \<Rightarrow> int \<times> 'w sys" where
  "snd_timer_stop io handle s = ioctl_none io (timer_fd handle) s"

definition snd_timer_continue :: "(int \<Rightarrow> 'w \<Rightarrow> int \<times> 'w) \<Rightarrow> snd_timer \<Rightarrow> 'w sys \<Rightarrow> int \<times> 'w sys" where
  "snd_timer_continue io handle s = ioctl_none io (timer_fd handle) s"

definition snd_timer_read :: "(int \<Rightarrow> u64 \<Rightarrow> 'w \<Rightarrow> int \<times> u8 list \<times> 'w) \<Rightarrow> snd_timer \<Rightarrow> u64 \<Rightarrow> 'w sys \<Rightarrow> int \<times> u8 list \<times> 'w sys" where
  "snd_timer_read io handle n s = sys_read io (timer_fd handle) n s"

text \<open>What is not implemented answers \<^verbatim>\<open>-ENXIO\<close> and touches nothing.\<close>

section \<open>MIDI devices\<close>

record snd_rawmidi_info =
  ri_device :: u32
  ri_subdevice :: u32
  ri_stream :: int
  ri_card :: int
  ri_flags :: u32
  ri_id :: string
  ri_name :: string
  ri_subname :: string
  ri_subdevices_count :: u32
  ri_subdevices_avail :: u32

definition snd_rawmidi_info_get_device :: "snd_rawmidi_info \<Rightarrow> u32" where
  "snd_rawmidi_info_get_device obj = ri_device obj"

definition snd_rawmidi_info_get_subdevice :: "snd_rawmidi_info \<Rightarrow> u32" where
  "snd_rawmidi_info_get_subdevice obj = ri_subdevice obj"

definition snd_rawmidi_info_get_stream :: "snd_rawmidi_info \<Rightarrow> int" where
  "snd_rawmidi_info_get_stream obj = ri_stream obj"

definition snd_rawmidi_info_get_card :: "snd_rawmidi_info \<Rightarrow> int" where
  "snd_rawmidi_info_get_card obj = ri_card obj"

definition snd_rawmidi_info_get_flags :: "snd_rawmidi_info \<Rightarrow> u32" where
  "snd_rawmidi_info_get_flags obj = ri_flags obj"

definition snd_rawmidi_info_get_id :: "snd_rawmidi_info \<Rightarrow> string" where
  "snd_rawmidi_info_get_id obj = ri_id obj"

definition snd_rawmidi_info_get_name :: "snd_rawmidi_info \<Rightarrow> string" where
  "snd_rawmidi_info_get_name obj = ri_name obj"

definition snd_rawmidi_info_get_subdevice_name :: "snd_rawmidi_info \<Rightarrow> string" where
  "snd_rawmidi_info_get_subdevice_name obj = ri_subname obj"

definition snd_rawmidi_info_get_subdevices_count :: "snd_rawmidi_info \<Rightarrow> u32" where
  "snd_rawmidi_info_get_subdevices_count obj = ri_subdevices_count obj"

definition snd_rawmidi_info_get_subdevices_avail :: "snd_rawmidi_info \<Rightarrow> u32" where
  "snd_rawmidi_info_get_subdevices_avail obj = ri_subdevices_avail obj"

definition snd_rawmidi_info_set_device :: "snd_rawmidi_info \<Rightarrow> u32 \<Rightarrow> snd_rawmidi_info" where
  "snd_rawmidi_info_set_device obj val = obj\<lparr>ri_device := val\<rparr>"

definition snd_rawmidi_info_set_subdevice :: "snd_rawmidi_info \<Rightarrow> u32 \<Rightarrow> snd_rawmidi_info" where
  "snd_rawmidi_info_set_subdevice obj val = obj\<lparr>ri_subdevice := val\<rparr>"

definition snd_rawmidi_info_set_stream :: "snd_rawmidi_info \<Rightarrow> int \<Rightarrow> snd_rawmidi_info" where
  "snd_rawmidi_info_set_stream obj val = obj\<lparr>ri_stream := val\<rparr>"

record rawmidi_params =
  rp_stream :: int
  rp_buffer_size :: u64
  rp_avail_min :: u64
  rp_no_active_sensing :: bool

definition snd_rawmidi_params_set_buffer_size :: "rawmidi_params \<Rightarrow> u64 \<Rightarrow> int \<times> rawmidi_params" where
  "snd_rawmidi_params_set_buffer_size params val = (0, params\<lparr>rp_buffer_size := val\<rparr>)"

definition snd_rawmidi_params_get_buffer_size :: "rawmidi_params \<Rightarrow> u64" where
  "snd_rawmidi_params_get_buffer_size obj = rp_buffer_size obj"

definition snd_rawmidi_params_set_avail_min :: "rawmidi_params \<Rightarrow> u64 \<Rightarrow> int \<times> rawmidi_params" where
  "snd_rawmidi_params_set_avail_min params val = (0, params\<lparr>rp_avail_min := val\<rparr>)"

definition snd_rawmidi_params_get_avail_min :: "rawmidi_params \<Rightarrow> u64" where
  "snd_rawmidi_params_get_avail_min obj = rp_avail_min obj"

text \<open>A field of one bit: only the lowest bit of the argument is kept.\<close>

definition snd_rawmidi_params_set_no_active_sensing :: "rawmidi_params \<Rightarrow> int \<Rightarrow> int \<times> rawmidi_params" where
  "snd_rawmidi_params_set_no_active_sensing params val = (0, params\<lparr>rp_no_active_sensing := odd val\<rparr>)"

definition snd_rawmidi_params_get_no_active_sensing :: "rawmidi_params \<Rightarrow> int" where
  "snd_rawmidi_params_get_no_active_sensing obj = of_bool (rp_no_active_sensing obj)"

record rawmidi_status =
  rs_stream :: int
  rs_tstamp :: timespec
  rs_avail :: u64
  rs_xruns :: u64

definition snd_rawmidi_status_get_tstamp :: "rawmidi_status \<Rightarrow> timespec" where
  "snd_rawmidi_status_get_tstamp obj = rs_tstamp obj"

definition snd_rawmidi_status_get_avail :: "rawmidi_status \<Rightarrow> u64" where
  "snd_rawmidi_status_get_avail obj = rs_avail obj"

definition snd_rawmidi_status_get_xruns :: "rawmidi_status \<Rightarrow> u64" where
  "snd_rawmidi_status_get_xruns obj = rs_xruns obj"

section \<open>The flags of a timer\<close>

lemma flag_bit: "bit (1 :: u32) n \<longleftrightarrow> n = 0" "bit (2 :: u32) n \<longleftrightarrow> n = 1" "bit (4 :: u32) n \<longleftrightarrow> n = 2"
proof -
  show "bit (1 :: u32) n \<longleftrightarrow> n = 0" by (simp add: bit_1_iff)
  show "bit (2 :: u32) n \<longleftrightarrow> n = 1" using bit_single [of 1 n] by (simp add: push_bit_eq_mult)
  show "bit (4 :: u32) n \<longleftrightarrow> n = 2" using bit_single [of 2 n] by (simp add: push_bit_eq_mult)
qed

lemma and_flag: "(w :: u32) AND 1 \<noteq> 0 \<longleftrightarrow> bit w 0" "w AND 2 \<noteq> 0 \<longleftrightarrow> bit w 1" "w AND 4 \<noteq> 0 \<longleftrightarrow> bit w 2"
  unfolding u32_nonzero_bit bit_and_iff flag_bit by auto

definition set_flag :: "u32 \<Rightarrow> bool \<Rightarrow> u32 \<Rightarrow> u32" where
  "set_flag m on w = (if on then w OR m else w AND NOT m)"

lemma bit_set_flag: "n < 32 \<Longrightarrow> bit (set_flag m on w) n \<longleftrightarrow> (if bit m n then on else bit w n)"
  by (auto simp: set_flag_def bit_or_iff bit_and_iff bit_not_iff)

lemma set_flag_commute: "(\<And>n. \<not> (bit m n \<and> bit m' n)) \<Longrightarrow> set_flag m a (set_flag m' b w) = set_flag m' b (set_flag m a w)"
  by (rule bit_word_eqI) (auto simp: bit_set_flag)

lemma flags_set:
  "snd (snd_timer_params_set_auto_start p a) = p\<lparr>tp_flags := set_flag 1 (a \<noteq> 0) (tp_flags p)\<rparr>"
  "snd (snd_timer_params_set_exclusive p a) = p\<lparr>tp_flags := set_flag 2 (a \<noteq> 0) (tp_flags p)\<rparr>"
  "snd (snd_timer_params_set_early_event p a) = p\<lparr>tp_flags := set_flag 4 (a \<noteq> 0) (tp_flags p)\<rparr>"
  by (simp_all add: snd_timer_params_set_auto_start_def snd_timer_params_set_exclusive_def snd_timer_params_set_early_event_def set_flag_def)

lemma flags_get:
  "snd_timer_params_get_auto_start p = of_bool (bit (tp_flags p) 0)"
  "snd_timer_params_get_exclusive p = of_bool (bit (tp_flags p) 1)"
  "snd_timer_params_get_early_event p = of_bool (bit (tp_flags p) 2)"
  unfolding snd_timer_params_get_auto_start_def snd_timer_params_get_exclusive_def snd_timer_params_get_early_event_def and_flag by simp_all

text \<open>The three flags of a timer's parameters are independent: whatever they were, after setting them in any order each reads
  back as what was set last, and the numbers beside them are untouched.\<close>
theorem timer_flags_independent:
  "let p1 = snd (snd_timer_params_set_auto_start p a);
       p2 = snd (snd_timer_params_set_exclusive p1 b);
       p3 = snd (snd_timer_params_set_early_event p2 c)
   in snd_timer_params_get_auto_start p3 = of_bool (a \<noteq> 0) \<and> snd_timer_params_get_exclusive p3 = of_bool (b \<noteq> 0) \<and>
      snd_timer_params_get_early_event p3 = of_bool (c \<noteq> 0) \<and>
      p3 = snd (snd_timer_params_set_auto_start (snd (snd_timer_params_set_exclusive (snd (snd_timer_params_set_early_event p c)) b)) a) \<and>
      snd_timer_params_get_ticks p3 = snd_timer_params_get_ticks p \<and> snd_timer_params_get_filter p3 = snd_timer_params_get_filter p"
proof -
  have 1: "set_flag 4 c (set_flag 2 b w) = set_flag 2 b (set_flag 4 c w)" for b c w
    by (rule set_flag_commute) (simp only: flag_bit, simp)
  have 2: "set_flag 4 c (set_flag 1 a w) = set_flag 1 a (set_flag 4 c w)" for a c w
    by (rule set_flag_commute) (simp only: flag_bit, simp)
  have 3: "set_flag 2 b (set_flag 1 a w) = set_flag 1 a (set_flag 2 b w)" for a b w
    by (rule set_flag_commute) (simp only: flag_bit, simp)
  have "set_flag 4 c (set_flag 2 b (set_flag 1 a w)) = set_flag 1 a (set_flag 2 b (set_flag 4 c w))" for a b c w
    by (simp only: 1 2 3)
  moreover have "bit (set_flag 4 c (set_flag 2 b (set_flag 1 a w))) 0 \<longleftrightarrow> a" "bit (set_flag 4 c (set_flag 2 b (set_flag 1 a w))) 1 \<longleftrightarrow> b"
    "bit (set_flag 4 c (set_flag 2 b (set_flag 1 a w))) 2 \<longleftrightarrow> c" for a b c w
    by (simp_all only: bit_set_flag flag_bit) simp_all
  ultimately show ?thesis
    by (simp add: flags_set flags_get snd_timer_params_get_ticks_def snd_timer_params_get_filter_def del: One_nat_def)
qed

end
