(* ===== verification/Pcm_Objects.thy ===== *)
theory Pcm_Objects
  imports Pcm_Ring Device_Objects
begin

text \<open>
  The rest of the inline functions of \<^verbatim>\<open>src/src/pcm_macros.h\<close>: the stream information and status objects, the names of the
  enumerations (with the tables of \<^verbatim>\<open>src/src/pcm.c\<close>), the capability bits of a parameter space, the typed masks, the
  conversions between bytes, samples and frames, and the transfers through the mapped buffer.

  A table is read at the index given, which is not checked: outside it there is no result.  A time stamp is copied as
  it is, since the build has no 64-bit padding.
\<close>

section \<open>Stream information and status\<close>

record snd_pcm_info =
  pi_device :: u32
  pi_subdevice :: u32
  pi_stream :: int
  pi_card :: int
  pi_id :: string
  pi_name :: string
  pi_subname :: string
  pi_dev_class :: int
  pi_dev_subclass :: int
  pi_subdevices_count :: u32
  pi_subdevices_avail :: u32
  pi_sync :: "u8 list"

record snd_pcm_status =
  ps_state :: int
  ps_trigger_tstamp :: timespec
  ps_tstamp :: timespec
  ps_appl_ptr :: u64
  ps_hw_ptr :: u64
  ps_delay :: int
  ps_avail :: u64
  ps_avail_max :: u64
  ps_overrange :: u64
  ps_suspended_state :: int
  ps_audio_tstamp :: timespec
  ps_driver_tstamp :: timespec
  ps_audio_tstamp_accuracy :: u32

record snd_timestamp =
  ts_sec :: int
  ts_usec :: int

definition snd_pcm_info0 :: "(int \<Rightarrow> snd_pcm_info \<Rightarrow> 'w \<Rightarrow> int \<times> snd_pcm_info \<times> 'w) \<Rightarrow> snd_pcm \<Rightarrow> snd_pcm_info \<Rightarrow> 'w sys \<Rightarrow>
    int \<times> snd_pcm_info \<times> 'w sys" where
  "snd_pcm_info0 io pcm info s = ioctl_object io (pcm_fd pcm) info s"

text \<open>A driver older than 2.0.13 is asked with the old request; \<open>io\<close> answers the old and \<open>io_ext\<close> the new one.\<close>

definition snd_pcm_status0 :: "(int \<Rightarrow> snd_pcm_status \<Rightarrow> 'w \<Rightarrow> int \<times> snd_pcm_status \<times> 'w) \<Rightarrow>
    (int \<Rightarrow> snd_pcm_status \<Rightarrow> 'w \<Rightarrow> int \<times> snd_pcm_status \<times> 'w) \<Rightarrow> snd_pcm \<Rightarrow> snd_pcm_status \<Rightarrow> 'w sys \<Rightarrow>
    int \<times> snd_pcm_status \<times> 'w sys" where
  "snd_pcm_status0 io io_ext pcm st s = ioctl_object (if pcm_protocol pcm < 0x2000d then io else io_ext) (pcm_fd pcm) st s"

definition snd_pcm_info_get_device :: "snd_pcm_info \<Rightarrow> u32" where
  "snd_pcm_info_get_device obj = pi_device obj"

definition snd_pcm_info_get_subdevice :: "snd_pcm_info \<Rightarrow> u32" where
  "snd_pcm_info_get_subdevice obj = pi_subdevice obj"

definition snd_pcm_info_get_stream :: "snd_pcm_info \<Rightarrow> int" where
  "snd_pcm_info_get_stream obj = pi_stream obj"

definition snd_pcm_info_get_card :: "snd_pcm_info \<Rightarrow> int" where
  "snd_pcm_info_get_card obj = pi_card obj"

definition snd_pcm_info_get_id :: "snd_pcm_info \<Rightarrow> string" where
  "snd_pcm_info_get_id obj = pi_id obj"

definition snd_pcm_info_get_name :: "snd_pcm_info \<Rightarrow> string" where
  "snd_pcm_info_get_name obj = pi_name obj"

definition snd_pcm_info_get_subdevice_name :: "snd_pcm_info \<Rightarrow> string" where
  "snd_pcm_info_get_subdevice_name obj = pi_subname obj"

definition snd_pcm_info_get_class :: "snd_pcm_info \<Rightarrow> int" where
  "snd_pcm_info_get_class obj = pi_dev_class obj"

definition snd_pcm_info_get_subclass :: "snd_pcm_info \<Rightarrow> int" where
  "snd_pcm_info_get_subclass obj = pi_dev_subclass obj"

definition snd_pcm_info_get_subdevices_count :: "snd_pcm_info \<Rightarrow> u32" where
  "snd_pcm_info_get_subdevices_count obj = pi_subdevices_count obj"

definition snd_pcm_info_get_subdevices_avail :: "snd_pcm_info \<Rightarrow> u32" where
  "snd_pcm_info_get_subdevices_avail obj = pi_subdevices_avail obj"

definition snd_pcm_info_get_sync :: "snd_pcm_info \<Rightarrow> u8 list" where
  "snd_pcm_info_get_sync obj = pi_sync obj"

definition snd_pcm_info_set_device :: "snd_pcm_info \<Rightarrow> u32 \<Rightarrow> snd_pcm_info" where
  "snd_pcm_info_set_device obj val = obj\<lparr>pi_device := val\<rparr>"

definition snd_pcm_info_set_subdevice :: "snd_pcm_info \<Rightarrow> u32 \<Rightarrow> snd_pcm_info" where
  "snd_pcm_info_set_subdevice obj val = obj\<lparr>pi_subdevice := val\<rparr>"

definition snd_pcm_info_set_stream :: "snd_pcm_info \<Rightarrow> int \<Rightarrow> snd_pcm_info" where
  "snd_pcm_info_set_stream obj val = obj\<lparr>pi_stream := val\<rparr>"

text \<open>A time stamp in microseconds; the division is that of C.\<close>

definition to_usec :: "timespec \<Rightarrow> snd_timestamp" where
  "to_usec t = \<lparr>ts_sec = tv_sec t, ts_usec = tv_nsec t sdiv 1000\<rparr>"

definition snd_pcm_status_get_state :: "snd_pcm_status \<Rightarrow> int" where
  "snd_pcm_status_get_state obj = ps_state obj"

definition snd_pcm_status_get_trigger_tstamp :: "snd_pcm_status \<Rightarrow> snd_timestamp" where
  "snd_pcm_status_get_trigger_tstamp obj = to_usec (ps_trigger_tstamp obj)"

definition snd_pcm_status_get_trigger_htstamp :: "snd_pcm_status \<Rightarrow> timespec" where
  "snd_pcm_status_get_trigger_htstamp obj = ps_trigger_tstamp obj"

definition snd_pcm_status_get_tstamp :: "snd_pcm_status \<Rightarrow> snd_timestamp" where
  "snd_pcm_status_get_tstamp obj = to_usec (ps_tstamp obj)"

definition snd_pcm_status_get_htstamp :: "snd_pcm_status \<Rightarrow> timespec" where
  "snd_pcm_status_get_htstamp obj = ps_tstamp obj"

definition snd_pcm_status_get_audio_htstamp :: "snd_pcm_status \<Rightarrow> timespec" where
  "snd_pcm_status_get_audio_htstamp obj = ps_audio_tstamp obj"

definition snd_pcm_status_get_delay :: "snd_pcm_status \<Rightarrow> int" where
  "snd_pcm_status_get_delay obj = ps_delay obj"

definition snd_pcm_status_get_avail :: "snd_pcm_status \<Rightarrow> u64" where
  "snd_pcm_status_get_avail obj = ps_avail obj"

definition snd_pcm_status_get_avail_max :: "snd_pcm_status \<Rightarrow> u64" where
  "snd_pcm_status_get_avail_max obj = ps_avail_max obj"

definition snd_pcm_status_get_overrange :: "snd_pcm_status \<Rightarrow> u64" where
  "snd_pcm_status_get_overrange obj = ps_overrange obj"

section \<open>Names\<close>

definition snd_pcm_stream_names :: "string list" where
  "snd_pcm_stream_names = [''PLAYBACK'', ''CAPTURE'']"

definition snd_pcm_state_names :: "string list" where
  "snd_pcm_state_names = [''OPEN'', ''SETUP'', ''PREPARED'', ''RUNNING'', ''XRUN'', ''DRAINING'', ''PAUSED'', ''SUSPENDED'', ''DISCONNECTED'']"

definition snd_pcm_access_names :: "string list" where
  "snd_pcm_access_names = [''MMAP_INTERLEAVED'', ''MMAP_NONINTERLEAVED'', ''MMAP_COMPLEX'', ''RW_INTERLEAVED'', ''RW_NONINTERLEAVED'']"

text \<open>The table of the types has a null pointer at 25, the type \<^verbatim>\<open>DSHARE\<close>.\<close>

definition snd_pcm_type_names :: "string option list" where
  "snd_pcm_type_names = map Some [''HW'', ''HOOKS'', ''MULTI'', ''FILE'', ''NULL'', ''SHM'', ''INET'', ''COPY'', ''LINEAR'', ''ALAW'', ''MULAW'',
     ''ADPCM'', ''RATE'', ''ROUTE'', ''PLUG'', ''SHARE'', ''METER'', ''MIX'', ''DROUTE'', ''LBSERVER'', ''LINEAR_FLOAT'', ''LADSPA'', ''DMIX'',
     ''JACK'', ''DSNOOP''] @ [None] @ map Some [''IEC958'', ''SOFTVOL'', ''IOPLUG'', ''EXTPLUG'']"

definition snd_pcm_subformat_names :: "string list" where
  "snd_pcm_subformat_names = [''STD'']"

definition snd_pcm_subformat_descriptions :: "string list" where
  "snd_pcm_subformat_descriptions = [''Standard'']"

definition snd_pcm_tstamp_mode_names :: "string list" where
  "snd_pcm_tstamp_mode_names = [''NONE'', ''MMAP'']"

definition name_at :: "'a list \<Rightarrow> int \<Rightarrow> 'a option" where
  "name_at names i = (if i < 0 then None else array_get names (nat i))"

definition snd_pcm_stream_name :: "int \<Rightarrow> string option" where
  "snd_pcm_stream_name i = name_at snd_pcm_stream_names i"

definition snd_pcm_access_name :: "int \<Rightarrow> string option" where
  "snd_pcm_access_name i = name_at snd_pcm_access_names i"

definition snd_pcm_subformat_name :: "int \<Rightarrow> string option" where
  "snd_pcm_subformat_name i = name_at snd_pcm_subformat_names i"

definition snd_pcm_tstamp_mode_name :: "int \<Rightarrow> string option" where
  "snd_pcm_tstamp_mode_name i = name_at snd_pcm_tstamp_mode_names i"

definition snd_pcm_state_name :: "int \<Rightarrow> string option" where
  "snd_pcm_state_name i = name_at snd_pcm_state_names i"

definition snd_pcm_type_name :: "int \<Rightarrow> (string option) option" where
  "snd_pcm_type_name i = name_at snd_pcm_type_names i"

definition snd_pcm_subformat_description :: "int \<Rightarrow> string option" where
  "snd_pcm_subformat_description i = name_at snd_pcm_subformat_descriptions i"

section \<open>Capabilities of a parameter space\<close>

definition info_flag :: "u32 \<Rightarrow> snd_pcm_hw_params \<Rightarrow> int" where
  "info_flag b params = (if hwp_info params AND b \<noteq> 0 then 1 else 0)"

definition snd_pcm_hw_params_can_mmap_sample_resolution :: "snd_pcm_hw_params \<Rightarrow> int" where
  "snd_pcm_hw_params_can_mmap_sample_resolution params = info_flag 0x00000002 params"

definition snd_pcm_hw_params_is_double :: "snd_pcm_hw_params \<Rightarrow> int" where
  "snd_pcm_hw_params_is_double params = info_flag 0x00000004 params"

definition snd_pcm_hw_params_is_batch :: "snd_pcm_hw_params \<Rightarrow> int" where
  "snd_pcm_hw_params_is_batch params = info_flag 0x00000010 params"

definition snd_pcm_hw_params_is_block_transfer :: "snd_pcm_hw_params \<Rightarrow> int" where
  "snd_pcm_hw_params_is_block_transfer params = info_flag 0x00010000 params"

definition snd_pcm_hw_params_can_overrange :: "snd_pcm_hw_params \<Rightarrow> int" where
  "snd_pcm_hw_params_can_overrange params = info_flag 0x00020000 params"

definition snd_pcm_hw_params_can_pause :: "snd_pcm_hw_params \<Rightarrow> int" where
  "snd_pcm_hw_params_can_pause params = info_flag 0x00080000 params"

definition snd_pcm_hw_params_can_resume :: "snd_pcm_hw_params \<Rightarrow> int" where
  "snd_pcm_hw_params_can_resume params = info_flag 0x00040000 params"

definition snd_pcm_hw_params_is_half_duplex :: "snd_pcm_hw_params \<Rightarrow> int" where
  "snd_pcm_hw_params_is_half_duplex params = info_flag 0x00100000 params"

definition snd_pcm_hw_params_is_joint_duplex :: "snd_pcm_hw_params \<Rightarrow> int" where
  "snd_pcm_hw_params_is_joint_duplex params = info_flag 0x00200000 params"

definition snd_pcm_hw_params_can_sync_start :: "snd_pcm_hw_params \<Rightarrow> int" where
  "snd_pcm_hw_params_can_sync_start params = info_flag 0x00400000 params"

definition snd_pcm_hw_params_supports_audio_wallclock_ts :: "snd_pcm_hw_params \<Rightarrow> int" where
  "snd_pcm_hw_params_supports_audio_wallclock_ts params = info_flag 0x01000000 params"

definition snd_pcm_hw_params_can_disable_period_wakeup :: "snd_pcm_hw_params \<Rightarrow> int" where
  "snd_pcm_hw_params_can_disable_period_wakeup params = info_flag 0x00800000 params"

definition snd_pcm_hw_params_is_monotonic :: "snd_pcm_hw_params \<Rightarrow> int" where
  "snd_pcm_hw_params_is_monotonic params = info_flag 0x80000000 params"

definition snd_pcm_hw_params_get_rate_numden :: "snd_pcm_hw_params \<Rightarrow> int \<times> u32 \<times> u32" where
  "snd_pcm_hw_params_get_rate_numden params = (0, hwp_rate_num params, hwp_rate_den params)"

definition snd_pcm_hw_params_get_sbits :: "snd_pcm_hw_params \<Rightarrow> int" where
  "snd_pcm_hw_params_get_sbits params = sint (hwp_msbits params)"

definition snd_pcm_hw_params_get_fifo_size :: "snd_pcm_hw_params \<Rightarrow> int" where
  "snd_pcm_hw_params_get_fifo_size params = sint (ucast (hwp_fifo_size params) :: u32)"

text \<open>Neither getter stores a value.\<close>

definition snd_pcm_hw_params_get_rate_resample :: "u32 \<Rightarrow> int \<times> u32" where
  "snd_pcm_hw_params_get_rate_resample val = (0, val)"

definition snd_pcm_hw_params_set_export_buffer :: "u32 \<Rightarrow> int" where
  "snd_pcm_hw_params_set_export_buffer val = - EINVAL"

definition snd_pcm_hw_params_get_export_buffer :: "u32 \<Rightarrow> int \<times> u32" where
  "snd_pcm_hw_params_get_export_buffer val = (0, val)"

section \<open>Masks of access modes, formats and subformats\<close>

text \<open>An enumerator is converted to the unsigned index of the mask.\<close>

definition snd_pcm_access_mask_none :: "snd_mask \<Rightarrow> snd_mask" where
  "snd_pcm_access_mask_none m = snd_mask_none m"

definition snd_pcm_access_mask_any :: "snd_mask \<Rightarrow> snd_mask" where
  "snd_pcm_access_mask_any m = snd_mask_any m"

definition snd_pcm_access_mask_test :: "snd_mask \<Rightarrow> int \<Rightarrow> u32 option" where
  "snd_pcm_access_mask_test m val = snd_mask_test m (word_of_int val)"

definition snd_pcm_access_mask_empty :: "snd_mask \<Rightarrow> bool" where
  "snd_pcm_access_mask_empty m = snd_mask_empty m"

definition snd_pcm_access_mask_set :: "snd_mask \<Rightarrow> int \<Rightarrow> snd_mask option" where
  "snd_pcm_access_mask_set m val = snd_mask_set m (word_of_int val)"

definition snd_pcm_access_mask_reset :: "snd_mask \<Rightarrow> int \<Rightarrow> snd_mask option" where
  "snd_pcm_access_mask_reset m val = snd_mask_reset m (word_of_int val)"

definition snd_pcm_format_mask_none :: "snd_mask \<Rightarrow> snd_mask" where
  "snd_pcm_format_mask_none m = snd_mask_none m"

definition snd_pcm_format_mask_any :: "snd_mask \<Rightarrow> snd_mask" where
  "snd_pcm_format_mask_any m = snd_mask_any m"

definition snd_pcm_format_mask_test :: "snd_mask \<Rightarrow> int \<Rightarrow> u32 option" where
  "snd_pcm_format_mask_test m val = snd_mask_test m (word_of_int val)"

definition snd_pcm_format_mask_empty :: "snd_mask \<Rightarrow> bool" where
  "snd_pcm_format_mask_empty m = snd_mask_empty m"

definition snd_pcm_format_mask_set :: "snd_mask \<Rightarrow> int \<Rightarrow> snd_mask option" where
  "snd_pcm_format_mask_set m val = snd_mask_set m (word_of_int val)"

definition snd_pcm_format_mask_reset :: "snd_mask \<Rightarrow> int \<Rightarrow> snd_mask option" where
  "snd_pcm_format_mask_reset m val = snd_mask_reset m (word_of_int val)"

definition snd_pcm_subformat_mask_none :: "snd_mask \<Rightarrow> snd_mask" where
  "snd_pcm_subformat_mask_none m = snd_mask_none m"

definition snd_pcm_subformat_mask_any :: "snd_mask \<Rightarrow> snd_mask" where
  "snd_pcm_subformat_mask_any m = snd_mask_any m"

definition snd_pcm_subformat_mask_test :: "snd_mask \<Rightarrow> int \<Rightarrow> u32 option" where
  "snd_pcm_subformat_mask_test m val = snd_mask_test m (word_of_int val)"

definition snd_pcm_subformat_mask_empty :: "snd_mask \<Rightarrow> bool" where
  "snd_pcm_subformat_mask_empty m = snd_mask_empty m"

definition snd_pcm_subformat_mask_set :: "snd_mask \<Rightarrow> int \<Rightarrow> snd_mask option" where
  "snd_pcm_subformat_mask_set m val = snd_mask_set m (word_of_int val)"

definition snd_pcm_subformat_mask_reset :: "snd_mask \<Rightarrow> int \<Rightarrow> snd_mask option" where
  "snd_pcm_subformat_mask_reset m val = snd_mask_reset m (word_of_int val)"

section \<open>Bytes, samples and frames\<close>

text \<open>\<^verbatim>\<open>long\<close> times and divided by an \<^verbatim>\<open>unsigned int\<close>, in \<^verbatim>\<open>long\<close>.\<close>

definition bytes_to_units :: "u32 \<Rightarrow> int \<Rightarrow> int option" where
  "bytes_to_units n bytes = do { b \<leftarrow> long (bytes * 8); (if n = 0 then None else Some (b sdiv uint n)) }"

definition units_to_bytes :: "u32 \<Rightarrow> int \<Rightarrow> int option" where
  "units_to_bytes n units = do { b \<leftarrow> long (units * uint n); Some (b sdiv 8) }"

definition snd_pcm_bytes_to_frames :: "snd_pcm \<Rightarrow> int \<Rightarrow> int option" where
  "snd_pcm_bytes_to_frames pcm bytes = bytes_to_units (pcm_frame_bits pcm) bytes"

definition snd_pcm_frames_to_bytes :: "snd_pcm \<Rightarrow> int \<Rightarrow> int option" where
  "snd_pcm_frames_to_bytes pcm frames = units_to_bytes (pcm_frame_bits pcm) frames"

definition snd_pcm_bytes_to_samples :: "snd_pcm \<Rightarrow> int \<Rightarrow> int option" where
  "snd_pcm_bytes_to_samples pcm bytes = bytes_to_units (pcm_sample_bits pcm) bytes"

definition snd_pcm_samples_to_bytes :: "snd_pcm \<Rightarrow> int \<Rightarrow> int option" where
  "snd_pcm_samples_to_bytes pcm samples = units_to_bytes (pcm_sample_bits pcm) samples"

section \<open>Transfers through the mapped buffer\<close>

text \<open>
  \<open>mem\<close> is the memory that holds both the mapped buffer and the caller's; the areas are a null pointer unless the
  buffer is mapped.  The result of \<^verbatim>\<open>snd_pcm_mmap_begin\<close> is not looked at.
\<close>

definition area_block :: "'w pcm_kernel \<Rightarrow> snd_pcm \<Rightarrow> 'w \<Rightarrow> u64 \<Rightarrow> (nat \<times> nat \<times> u64 \<times> 'w) option" where
  "area_block k pcm w n = do {
     (_, areas, offset, n, w) \<leftarrow> snd_pcm_mmap_begin k pcm w n;
     areas \<leftarrow> areas;
     area \<leftarrow> array_get areas 0;
     a \<leftarrow> snd_pcm_channel_area_addr area offset;
     bytes \<leftarrow> snd_pcm_frames_to_bytes pcm (sint n);
     Some (a, unat (word_of_int bytes :: u64), n, w) }"

definition snd_pcm_mmap_writei :: "'w pcm_kernel \<Rightarrow> snd_pcm \<Rightarrow> 'w \<Rightarrow> memory \<Rightarrow> nat \<Rightarrow> u64 \<Rightarrow> (int \<times> memory \<times> snd_pcm \<times> 'w) option" where
  "snd_pcm_mmap_writei k pcm w mem buffer n = do {
     (a, bytes, n, w) \<leftarrow> area_block k pcm w n;
     mem \<leftarrow> mem_copy mem a buffer bytes;
     (case snd_pcm_mmap_commit k pcm w n of (r, pcm, w) \<Rightarrow> Some (r, mem, pcm, w)) }"

definition snd_pcm_mmap_readi :: "'w pcm_kernel \<Rightarrow> snd_pcm \<Rightarrow> 'w \<Rightarrow> memory \<Rightarrow> nat \<Rightarrow> u64 \<Rightarrow> (int \<times> memory \<times> snd_pcm \<times> 'w) option" where
  "snd_pcm_mmap_readi k pcm w mem buffer n = do {
     (a, bytes, n, w) \<leftarrow> area_block k pcm w n;
     mem \<leftarrow> mem_copy mem buffer a bytes;
     (case snd_pcm_mmap_commit k pcm w n of (r, pcm, w) \<Rightarrow> Some (r, mem, pcm, w)) }"

section \<open>Not implemented\<close>

definition snd_pcm_open_lconf :: int where
  "snd_pcm_open_lconf = - ENXIO"

definition snd_pcm_mmap_writen :: int where
  "snd_pcm_mmap_writen = - ENXIO"

definition snd_pcm_mmap_readn :: int where
  "snd_pcm_mmap_readn = - ENXIO"

definition snd_pcm_set_params :: int where
  "snd_pcm_set_params = - ENXIO"

section \<open>Facts\<close>

lemma sdiv_exact:
  assumes "c \<noteq> 0"
  shows "(k * c) sdiv c = (k :: int)"
proof -
  have "\<bar>k * c\<bar> div \<bar>c\<bar> = \<bar>k\<bar>" using assms by (simp add: abs_mult)
  moreover have "sgn (k * c) * sgn c = sgn k" using assms by (auto simp: sgn_if zero_less_mult_iff)
  ultimately show ?thesis by (simp add: signed_divide_int_def mult_sgn_abs)
qed

text \<open>A number of frames is what its number of bytes converts back to, negative numbers (an error code excepted by the
  caller) included, whenever the frames fill whole bytes and the product fits into \<^verbatim>\<open>long\<close>; the same holds for samples.
\<close>

theorem frames_bytes_roundtrip:
  assumes "pcm_frame_bits pcm \<noteq> 0" "8 dvd n * uint (pcm_frame_bits pcm)"
    and "- (2 ^ 63) \<le> n * uint (pcm_frame_bits pcm)" "n * uint (pcm_frame_bits pcm) < 2 ^ 63"
  shows "snd_pcm_frames_to_bytes pcm n \<bind> snd_pcm_bytes_to_frames pcm = Some n"
proof -
  let ?b = "uint (pcm_frame_bits pcm)"
  obtain k where k: "n * ?b = k * 8" using assms(2) by (auto simp: dvd_def ac_simps)
  have b: "?b \<noteq> 0" using assms(1) by (simp add: uint_0_iff)
  have "snd_pcm_frames_to_bytes pcm n = Some k"
    using assms(3,4) sdiv_exact [of 8 k] by (simp add: snd_pcm_frames_to_bytes_def units_to_bytes_def long_def k)
  moreover have "snd_pcm_bytes_to_frames pcm k = Some n"
    using assms sdiv_exact [OF b, of n] by (simp add: snd_pcm_bytes_to_frames_def bytes_to_units_def long_def k [symmetric])
  ultimately show ?thesis by simp
qed

theorem frames_bytes_roundtrip_witness:
  "snd_pcm_frames_to_bytes (small_pcm\<lparr>pcm_frame_bits := 32\<rparr>) (- 5) \<bind> snd_pcm_bytes_to_frames (small_pcm\<lparr>pcm_frame_bits := 32\<rparr>) = Some (- 5)"
  by (rule frames_bytes_roundtrip) simp_all

text \<open>The buffer of an interleaved stream: one area whose step is a frame of whole bytes, which 32 bits can address.\<close>

definition interleaved :: "snd_pcm \<Rightarrow> nat \<Rightarrow> bool" where
  "interleaved pcm base \<longleftrightarrow>
     (\<exists>rest. running_areas pcm = Some (\<lparr>addr = Some base, first = 0, step = pcm_frame_bits pcm\<rparr> # rest)) \<and>
     8 dvd unat (pcm_frame_bits pcm) \<and> 0 < bufsize pcm \<and> bufsize pcm * unat (pcm_frame_bits pcm) < 2 ^ 32"

abbreviation frame_bytes :: "snd_pcm \<Rightarrow> nat" where
  "frame_bytes pcm \<equiv> unat (pcm_frame_bits pcm) div 8"

lemma frames_to_bytes_small:
  assumes "8 dvd unat (pcm_frame_bits pcm)" "unat n * unat (pcm_frame_bits pcm) < 2 ^ 32" "unat n < 2 ^ 63"
  shows "snd_pcm_frames_to_bytes pcm (sint (n :: u64)) = Some (int (unat n * frame_bytes pcm))"
proof -
  obtain c where c: "unat (pcm_frame_bits pcm) = 8 * c" using assms(1) by (auto simp: dvd_def)
  have s: "sint n = int (unat n)" using assms(3) by (rule sint_small_u64)
  have u: "uint (pcm_frame_bits pcm) = int c * 8" using c by (simp add: uint_nat)
  have "int (unat n * (c * 8)) < 2 ^ 32" using assms(2) unfolding c by (simp add: mult.commute del: of_nat_mult)
  then have "int (unat n) * (int c * 8) < 2 ^ 32" by simp
  moreover have "- (2 ^ 60) \<le> int c * uint n" by (rule order_trans [of _ 0]) simp_all
  moreover have "(int (unat n) * (int c * 8)) sdiv 8 = int (unat n) * int c"
    using sdiv_exact [of 8 "int (unat n) * int c"] by (simp add: ac_simps)
  ultimately show ?thesis using c by (simp add: snd_pcm_frames_to_bytes_def units_to_bytes_def s u long_def)
qed

text \<open>The block that a transfer is granted: whole frames inside the buffer.\<close>

lemma area_block_inside:
  assumes "interleaved pcm base"
  shows "\<exists>ofs n' w'. area_block k pcm w n = Some (base + ofs * frame_bytes pcm, unat n' * frame_bytes pcm, n', w') \<and>
     n' \<le> n \<and> ofs + unat n' \<le> bufsize pcm"
proof -
  obtain rest where r: "running_areas pcm = Some (\<lparr>addr = Some base, first = 0, step = pcm_frame_bits pcm\<rparr> # rest)"
    "8 dvd unat (pcm_frame_bits pcm)" "0 < bufsize pcm" "bufsize pcm * unat (pcm_frame_bits pcm) < 2 ^ 32"
    using assms by (auto simp: interleaved_def)
  obtain c where c: "unat (pcm_frame_bits pcm) = 8 * c" using r(2) by (auto simp: dvd_def)
  have b: "pcm_buffer_size pcm \<noteq> 0" using r(3) by auto
  obtain ctl w1 av w2 where m: "mmap_control k pcm w = (ctl, w1)" "snd_pcm_mmap_avail k pcm w1 = (av, w2)"
    by (metis surj_pair)
  define ofs where "ofs = appl_ptr ctl mod pcm_buffer_size pcm"
  define n' where "n' = (let a = (if av > pcm_buffer_size pcm then pcm_buffer_size pcm else av); f = (if n > a then a else n)
    in if f > pcm_buffer_size pcm - ofs then pcm_buffer_size pcm - ofs else f)"
  have grant: "snd_pcm_mmap_begin k pcm w n = Some (0, running_areas pcm, ofs, n', w2)"
    using b by (simp add: snd_pcm_mmap_begin_def m ofs_def n'_def Let_def)
  have o: "unat ofs < bufsize pcm" using r(3) by (simp add: ofs_def unat_mod)
  have cont: "unat (pcm_buffer_size pcm - ofs) = bufsize pcm - unat ofs" using o by (intro unat_sub) (simp add: word_le_nat_alt)
  have n1: "n' \<le> n" unfolding n'_def Let_def by (auto split: if_splits)
  have "n' \<le> pcm_buffer_size pcm - ofs" unfolding n'_def Let_def by auto
  then have n2: "unat ofs + unat n' \<le> bufsize pcm" using cont o by (simp add: word_le_nat_alt)
  have size: "unat n' * unat (pcm_frame_bits pcm) < 2 ^ 32" "unat ofs * unat (pcm_frame_bits pcm) < 2 ^ 32"
    using r(4) n2 o by (meson le_less_trans mult_le_mono1 add_leD2 less_imp_le)+
  have sz: "unat n' < 2 ^ 63 \<or> c = 0"
  proof (cases "c = 0")
    case False
    then have "unat n' \<le> unat n' * (8 * c)" by simp
    with size(1) have "unat n' < 2 ^ 32" unfolding c by linarith
    then show ?thesis by simp
  qed simp
  have frames: "snd_pcm_frames_to_bytes pcm (sint n') = Some (int (unat n' * frame_bytes pcm))"
  proof (cases "c = 0")
    case True
    then have "pcm_frame_bits pcm = 0" using c by (simp add: unat_eq_0)
    then show ?thesis by (simp add: snd_pcm_frames_to_bytes_def units_to_bytes_def long_def signed_divide_int_def)
  next
    case False
    then show ?thesis using frames_to_bytes_small [OF r(2) size(1)] sz by simp
  qed
  have "unat (ucast (pcm_frame_bits pcm) * ofs :: u64) = unat ofs * unat (pcm_frame_bits pcm)"
    using size(2) by (subst unat_word_ariths) (simp add: mult.commute)
  then have "unat (ucast (ucast (pcm_frame_bits pcm) * ofs :: u64) :: u32) = unat ofs * (8 * c)"
    using size(2) c by (simp add: unsigned_ucast_eq take_bit_nat_eq_self)
  then have adr: "snd_pcm_channel_area_addr \<lparr>addr = Some base, first = 0, step = pcm_frame_bits pcm\<rparr> ofs = Some (base + unat ofs * c)"
    by (simp add: snd_pcm_channel_area_addr_def unat_div Let_def)
  have "unat n' * c < 2 ^ 32" using size(1) c by (simp add: ac_simps)
  then have "unat (word_of_int (int (unat n' * c)) :: u64) = unat n' * c" by (simp add: unsigned_of_nat take_bit_nat_eq_self del: of_nat_mult)
  then have "area_block k pcm w n = Some (base + unat ofs * c, unat n' * c, n', w2)"
    using grant adr frames c r(1) by (simp add: area_block_def array_get_def del: of_nat_mult)
  then show ?thesis using n1 n2 c by (intro exI [of _ "unat ofs"] exI [of _ n'] exI [of _ w2]) simp
qed

text \<open>C22. Writing through the mapped buffer of an interleaved stream always returns a number of frames, at most what was
  asked for; that many frames of the caller's buffer are copied into the ring from some frame on, and no byte outside
  the ring changes: neither an offset at the end of the ring nor a number larger than the ring leaves it.
\<close>

theorem mmap_writei_inside:
  assumes "interleaved pcm base" "base + bufsize pcm * frame_bytes pcm \<le> length mem" "unat n < 2 ^ 63"
    and "buffer + unat n * frame_bytes pcm \<le> length mem"
    and "buffer + unat n * frame_bytes pcm \<le> base \<or> base + bufsize pcm * frame_bytes pcm \<le> buffer"
  shows "\<exists>r ofs mem' pcm' w'. snd_pcm_mmap_writei k pcm w mem buffer n = Some (int r, mem', pcm', w') \<and> r \<le> unat n \<and>
     ofs + r \<le> bufsize pcm \<and> length mem' = length mem \<and>
     (\<forall>i < r * frame_bytes pcm. mem' ! (base + ofs * frame_bytes pcm + i) = mem ! (buffer + i)) \<and>
     (\<forall>a. a < base \<or> base + bufsize pcm * frame_bytes pcm \<le> a \<longrightarrow> mem' ! a = mem ! a)"
proof -
  let ?f = "frame_bytes pcm"
  from area_block_inside [OF assms(1), of k w n] obtain ofs n' w' where
    b: "area_block k pcm w n = Some (base + ofs * ?f, unat n' * ?f, n', w')" "n' \<le> n" "ofs + unat n' \<le> bufsize pcm" by blast
  have le: "unat n' \<le> unat n" using b(2) by (simp add: word_le_nat_alt)
  have in_ring: "ofs * ?f + unat n' * ?f \<le> bufsize pcm * ?f" using b(3) by (metis add_mult_distrib mult_le_mono1)
  have in_buf: "unat n' * ?f \<le> unat n * ?f" using le by simp
  have fits: "base + ofs * ?f + unat n' * ?f \<le> length mem" "buffer + unat n' * ?f \<le> length mem"
    "buffer + unat n' * ?f \<le> base + ofs * ?f \<or> base + ofs * ?f + unat n' * ?f \<le> buffer"
    using in_ring in_buf assms(2,4,5) by linarith+
  from mem_copy_in [OF this] obtain mem' where m: "mem_copy mem (base + ofs * ?f) buffer (unat n' * ?f) = Some mem'" "length mem' = length mem"
      "\<And>i. i < unat n' * ?f \<Longrightarrow> mem' ! (base + ofs * ?f + i) = mem ! (buffer + i)"
      "\<And>a. a < base + ofs * ?f \<or> base + ofs * ?f + unat n' * ?f \<le> a \<Longrightarrow> mem' ! a = mem ! a" by metis
  have s: "sint n' = int (unat n')" using le assms(3) by (intro sint_small_u64) simp
  obtain p' w'' where c: "snd_pcm_mmap_commit k pcm w' n' = (sint n', p', w'')"
    by (metis (no_types, lifting) case_prod_conv snd_pcm_mmap_commit_def surj_pair)
  have "snd_pcm_mmap_writei k pcm w mem buffer n = Some (int (unat n'), mem', p', w'')"
    using b(1) m(1) c s by (simp add: snd_pcm_mmap_writei_def)
  moreover have "mem' ! a = mem ! a" if "a < base \<or> base + bufsize pcm * ?f \<le> a" for a using that in_ring by (intro m(4)) auto
  ultimately show ?thesis using le b(3) m(2,3) by blast
qed

definition mapped_pcm :: snd_pcm where
  "mapped_pcm = small_pcm\<lparr>pcm_frame_bits := 32, running_areas := Some [\<lparr>addr = Some 0, first = 0, step = 32\<rparr>]\<rparr>"

theorem mmap_writei_inside_witness:
  "\<exists>r ofs mem' pcm' w'. snd_pcm_mmap_writei interrupted_kernel mapped_pcm idle_world (replicate 16 0 @ replicate 24 7) 16 6 =
     Some (int r, mem', pcm', w') \<and> r \<le> 6 \<and> ofs + r \<le> 4 \<and> length mem' = 40 \<and>
     (\<forall>i < r * 4. mem' ! (ofs * 4 + i) = (replicate 16 0 @ replicate 24 7) ! (16 + i)) \<and>
     (\<forall>a \<ge> 16. mem' ! a = (replicate 16 0 @ replicate 24 7) ! a)"
proof -
  have m: "interleaved mapped_pcm 0" "bufsize mapped_pcm = 4" "unat (pcm_frame_bits mapped_pcm) = 32"
    by (simp_all add: interleaved_def mapped_pcm_def small_pcm_def new_pcm_def)
  from mmap_writei_inside [OF m(1), of "replicate 16 0 @ replicate 24 7" 6 16 interrupted_kernel idle_world] m(2,3) show ?thesis by simp
qed

text \<open>A mask of formats is the set of the enumerators that are in it: setting one adds it and resetting one removes it
  and keeps the others, the test is membership, and an enumerator outside the mask, negative ones included, has no
  defined result.
\<close>

theorem format_mask_is_set:
  assumes "wf_mask m"
  shows "if 0 \<le> v \<and> v < 256
     then (\<exists>m'. snd_pcm_format_mask_set m v = Some m' \<and> wf_mask m' \<and> mask_vals m' = insert (nat v) (mask_vals m)) \<and>
       (\<exists>m'. snd_pcm_format_mask_reset m v = Some m' \<and> wf_mask m' \<and> mask_vals m' = mask_vals m - {nat v}) \<and>
       (\<exists>t. snd_pcm_format_mask_test m v = Some t \<and> (t \<noteq> 0 \<longleftrightarrow> nat v \<in> mask_vals m))
     else - (2 ^ 31) \<le> v \<and> v < 2 ^ 31 \<longrightarrow>
       snd_pcm_format_mask_set m v = None \<and> snd_pcm_format_mask_reset m v = None \<and> snd_pcm_format_mask_test m v = None"
proof (cases "0 \<le> v \<and> v < 256")
  case True
  let ?v = "word_of_int v :: u32"
  have v: "unat ?v = nat v" using True by (simp add: unsigned_of_int take_bit_int_eq_self)
  have i: "MASK_OFS ?v < length (bits m)" using True assms by (simp add: MASK_OFS_eq v wf_mask_def div_less_iff_less_mult nat_less_iff)
  have lt: "unat ?v < SND_MASK_MAX" using True by (simp add: v nat_less_iff)
  have b: "bit (MASK_BIT ?v) k \<longleftrightarrow> k = nat v mod 32" for k
    by (simp only: MASK_BIT_eq v bit_single)
  have "snd_mask_set m ?v = Some (m\<lparr>bits := (bits m)[MASK_OFS ?v := bits m ! MASK_OFS ?v OR MASK_BIT ?v]\<rparr>)"
    using i by (simp add: snd_mask_set_def)
  moreover have "mask_vals (m\<lparr>bits := (bits m)[MASK_OFS ?v := bits m ! MASK_OFS ?v OR MASK_BIT ?v]\<rparr>) = insert (nat v) (mask_vals m)"
  proof -
    have "x \<in> mask_vals m \<longleftrightarrow> bit (bits m ! (x div 32)) (x mod 32)" if "x div 32 = nat v div 32" for x
      using same_word_bound [OF that] lt by (simp add: v mask_vals_def)
    then show ?thesis
      unfolding mask_update_vals [OF assms lt] unfolding bit_or_iff b v MASK_OFS_eq by (auto dest: div_mod_32_eq)
  qed
  moreover have "wf_mask (m\<lparr>bits := (bits m)[MASK_OFS ?v := w]\<rparr>)" for w using assms by (simp add: wf_mask_def)
  moreover obtain m' where "snd_mask_reset m ?v = Some m'" "wf_mask m'" "mask_vals m' = mask_vals m - {nat v}"
    using snd_mask_reset_in [OF assms lt] v by metis
  moreover have "snd_mask_test m ?v = Some (bits m ! MASK_OFS ?v AND MASK_BIT ?v)" using i by (simp add: snd_mask_test_def)
  moreover have "bits m ! MASK_OFS ?v AND MASK_BIT ?v \<noteq> 0 \<longleftrightarrow> nat v \<in> mask_vals m"
    using True by (auto simp: u32_nonzero_bit bit_and_iff b mask_vals_def MASK_OFS_eq v)
  ultimately show ?thesis using True
    by (simp add: snd_pcm_format_mask_set_def snd_pcm_format_mask_reset_def snd_pcm_format_mask_test_def)
next
  case False
  show ?thesis
  proof (simp only: False if_False, intro impI)
    assume r: "- (2 ^ 31) \<le> v \<and> v < 2 ^ 31"
    have "256 \<le> unat (word_of_int v :: u32)"
    proof (cases "0 \<le> v")
      case True
      then show ?thesis using r False by (simp add: unsigned_of_int take_bit_int_eq_self)
    next
      case neg: False
      have "take_bit 32 v = v + 2 ^ 32" using r neg mod_pos_pos_trivial [of "v + 2 ^ 32" "2 ^ 32"] by (simp add: take_bit_eq_mod)
      moreover have "256 \<le> nat (v + 2 ^ 32)" using r by (simp add: le_nat_iff)
      ultimately show ?thesis by (simp add: unsigned_of_int)
    qed
    then have "length (bits m) \<le> MASK_OFS (word_of_int v)" using assms by (simp add: MASK_OFS_eq wf_mask_def)
    then show "snd_pcm_format_mask_set m v = None \<and> snd_pcm_format_mask_reset m v = None \<and> snd_pcm_format_mask_test m v = None"
      by (simp add: snd_pcm_format_mask_set_def snd_pcm_format_mask_reset_def snd_pcm_format_mask_test_def
          snd_mask_set_def snd_mask_reset_def snd_mask_test_def)
  qed
qed

theorem format_mask_is_set_witness:
  "\<exists>m'. snd_pcm_format_mask_set demo_mask 10 = Some m' \<and> wf_mask m' \<and> mask_vals m' = insert 10 (mask_vals demo_mask)"
  using format_mask_is_set [of demo_mask 10] demo_mask_ok by simp

end
