(* ===== verification/Hctl.thy ===== *)
theory Hctl
  imports Registry Ctl_Elem
begin

text \<open>
  The high-level control interface: \<^verbatim>\<open>src/src/hcontrol.c\<close>.  A handle keeps the elements of a control device
  on a doubly linked list and passes events to callbacks.

  The elements live on a heap, a partial map from addresses to \<^verbatim>\<open>struct _snd_hctl_elem\<close>; the state \<open>'w hctl\<close> is the
  handle, its heap and the rest of the world \<open>'w\<close>.  The callbacks, the allocator and the control
  device are the record \<open>hctl_env\<close>; a callback may do anything to the state.  A dereference of a null or
  freed pointer, and a loop that does not end, return \<open>None\<close>.
\<close>

section \<open>Definitions\<close>

record snd_hctl_elem =
  he_id :: snd_ctl_elem_id
  he_private :: "nat option"
  he_callback :: "nat option"
  he_prev :: "nat option"
  he_next :: "nat option"

type_synonym hctl_heap = "nat \<rightharpoonup> snd_hctl_elem"

record 'w hctl =
  hheap :: hctl_heap
  first_elem :: "nat option"
  last_elem :: "nat option"
  hctl_count :: u32
  hctl_callback :: bool
  hworld :: 'w

record 'w hctl_env =
  cb_hctl :: "u32 \<Rightarrow> nat \<Rightarrow> 'w hctl \<Rightarrow> int \<times> 'w hctl"
  cb_elem :: "nat \<Rightarrow> nat \<Rightarrow> u32 \<Rightarrow> 'w hctl \<Rightarrow> int \<times> 'w hctl"
  h_calloc :: "'w hctl \<Rightarrow> nat option \<times> 'w"
  c_elem_list :: "snd_ctl_elem_list \<Rightarrow> 'w \<Rightarrow> int \<times> int \<times> snd_ctl_elem_list \<times> 'w"
  c_calloc_ids :: "u32 \<Rightarrow> 'w \<Rightarrow> bool \<times> 'w"
  c_subscribe :: "int \<Rightarrow> 'w \<Rightarrow> int \<times> int \<times> 'w"
  c_read :: "'w \<Rightarrow> int \<times> int \<times> snd_ctl_event \<times> 'w"

abbreviation (input) MASK_REMOVE :: u32 where "MASK_REMOVE \<equiv> - 1"
abbreviation (input) MASK_VALUE :: u32 where "MASK_VALUE \<equiv> 1"
abbreviation (input) MASK_INFO :: u32 where "MASK_INFO \<equiv> 2"
abbreviation (input) MASK_ADD :: u32 where "MASK_ADD \<equiv> 4"

definition snd_hctl_throw_event :: "'w hctl_env \<Rightarrow> 'w hctl \<Rightarrow> u32 \<Rightarrow> nat \<Rightarrow> int \<times> 'w hctl" where
  "snd_hctl_throw_event E s evmask elem = (if hctl_callback s then cb_hctl E evmask elem s else (0, s))"

definition snd_hctl_elem_throw_event :: "'w hctl_env \<Rightarrow> 'w hctl \<Rightarrow> nat \<Rightarrow> u32 \<Rightarrow> (int \<times> 'w hctl) option" where
  "snd_hctl_elem_throw_event E s elem evmask = do {
     e \<leftarrow> hheap s elem;
     Some (case he_callback e of Some f \<Rightarrow> cb_elem E f elem evmask s | None \<Rightarrow> (0, s)) }"

definition add_elem_list :: "nat \<Rightarrow> 'w hctl \<Rightarrow> 'w hctl option" where
  "add_elem_list elem s = do {
     e \<leftarrow> hheap s elem;
     (let s = s\<lparr>hheap := (hheap s)(elem \<mapsto> e\<lparr>he_next := None, he_prev := last_elem s\<rparr>)\<rparr> in do {
     s \<leftarrow> (case last_elem s of
            Some l \<Rightarrow> do { le \<leftarrow> hheap s l; Some (s\<lparr>hheap := (hheap s)(l \<mapsto> le\<lparr>he_next := Some elem\<rparr>)\<rparr>) }
          | None \<Rightarrow> Some (s\<lparr>first_elem := Some elem\<rparr>));
     Some (s\<lparr>last_elem := Some elem, hctl_count := hctl_count s + 1\<rparr>) }) }"

definition del_elem_list :: "nat \<Rightarrow> 'w hctl \<Rightarrow> 'w hctl option" where
  "del_elem_list elem s = (let s = s\<lparr>hctl_count := hctl_count s - 1\<rparr> in do {
     e \<leftarrow> hheap s elem;
     s \<leftarrow> (case he_prev e of
            Some p \<Rightarrow> do { pe \<leftarrow> hheap s p; Some (s\<lparr>hheap := (hheap s)(p \<mapsto> pe\<lparr>he_next := he_next e\<rparr>)\<rparr>) }
          | None \<Rightarrow> Some (s\<lparr>first_elem := he_next e\<rparr>));
     e \<leftarrow> hheap s elem;
     (case he_next e of
        Some n \<Rightarrow> do { ne \<leftarrow> hheap s n; Some (s\<lparr>hheap := (hheap s)(n \<mapsto> ne\<lparr>he_prev := he_prev e\<rparr>)\<rparr>) }
      | None \<Rightarrow> Some (s\<lparr>last_elem := he_prev e\<rparr>)) })"

definition id_matches :: "snd_ctl_elem_id \<Rightarrow> snd_ctl_elem_id \<Rightarrow> bool" where
  "id_matches a b \<longleftrightarrow> id_iface a = id_iface b \<and> id_index a = id_index b \<and> id_name a = id_name b"

partial_function (option) find_elem_loop :: "hctl_heap \<Rightarrow> snd_ctl_elem_id \<Rightarrow> nat option \<Rightarrow> nat option option" where
  "find_elem_loop h eid elem =
     (case elem of
        None \<Rightarrow> Some None
      | Some a \<Rightarrow> do { e \<leftarrow> h a; if id_matches (he_id e) eid then Some (Some a) else find_elem_loop h eid (he_next e) })"

definition snd_hctl_find_elem :: "'w hctl \<Rightarrow> snd_ctl_elem_id \<Rightarrow> nat option option" where
  "snd_hctl_find_elem s eid = find_elem_loop (hheap s) eid (first_elem s)"

definition snd_hctl_elem_add :: "'w hctl_env \<Rightarrow> 'w hctl \<Rightarrow> nat \<Rightarrow> (int \<times> 'w hctl) option" where
  "snd_hctl_elem_add E s elem = do {
     e \<leftarrow> hheap s elem;
     found \<leftarrow> snd_hctl_find_elem s (he_id e);
     (if found \<noteq> None then Some (- EBUSY, s)
      else do {
        s \<leftarrow> add_elem_list elem s;
        Some (snd_hctl_throw_event E s MASK_ADD elem) }) }"

definition snd_hctl_elem_remove :: "'w hctl_env \<Rightarrow> 'w hctl \<Rightarrow> nat \<Rightarrow> 'w hctl option" where
  "snd_hctl_elem_remove E s elem = do {
     s \<leftarrow> del_elem_list elem s;
     (_, s) \<leftarrow> snd_hctl_elem_throw_event E s elem MASK_REMOVE;
     Some (s\<lparr>hheap := (hheap s)(elem := None)\<rparr>) }"

partial_function (option) snd_hctl_free :: "'w hctl_env \<Rightarrow> 'w hctl \<Rightarrow> (int \<times> 'w hctl) option" where
  "snd_hctl_free E s =
     (case last_elem s of
        None \<Rightarrow> Some (0, s)
      | Some l \<Rightarrow> do { s \<leftarrow> snd_hctl_elem_remove E s l; snd_hctl_free E s })"

section \<open>Loading\<close>

definition new_elem :: "snd_ctl_elem_id \<Rightarrow> snd_hctl_elem" where
  "new_elem eid = \<lparr>he_id = eid, he_private = None, he_callback = None, he_prev = None, he_next = None\<rparr>"

text \<open>\<^verbatim>\<open>calloc\<close>, and \<^verbatim>\<open>elem->id = id; elem->hctl = hctl;\<close>\<close>

definition calloc_elem :: "'w hctl_env \<Rightarrow> 'w hctl \<Rightarrow> snd_ctl_elem_id \<Rightarrow> nat option \<times> 'w hctl" where
  "calloc_elem E s eid =
     (case h_calloc E s of
        (None, w) \<Rightarrow> (None, s\<lparr>hworld := w\<rparr>)
      | (Some a, w) \<Rightarrow> (Some a, s\<lparr>hworld := w, hheap := (hheap s)(a \<mapsto> new_elem eid)\<rparr>))"

definition snd_ctl_elem_list0 :: "'w hctl_env \<Rightarrow> snd_ctl_elem_list \<Rightarrow> 'w \<Rightarrow> int \<times> snd_ctl_elem_list \<times> 'w" where
  "snd_ctl_elem_list0 E l w =
     (case c_elem_list E l w of (ret, errno, l, w) \<Rightarrow> (if ret < 0 then - errno else 0, l, w))"

definition snd_ctl_elem_list_alloc_space :: "'w hctl_env \<Rightarrow> snd_ctl_elem_list \<Rightarrow> u32 \<Rightarrow> 'w \<Rightarrow> int \<times> snd_ctl_elem_list \<times> 'w" where
  "snd_ctl_elem_list_alloc_space E obj entries w =
     (case c_calloc_ids E entries w of
        (False, w) \<Rightarrow> (- ENOMEM, obj\<lparr>el_pids := [], el_space := 0\<rparr>, w)
      | (True, w) \<Rightarrow> (0, obj\<lparr>el_pids := replicate (unat entries) zero_id, el_space := entries\<rparr>, w))"

definition snd_ctl_elem_list_free_space :: "snd_ctl_elem_list \<Rightarrow> snd_ctl_elem_list" where
  "snd_ctl_elem_list_free_space obj = obj\<lparr>el_pids := [], el_space := 0\<rparr>"

text \<open>\<^verbatim>\<open>while (list.count != list.used)\<close>, with the result of the last call.\<close>

partial_function (option) elem_list_loop :: "'w hctl_env \<Rightarrow> snd_ctl_elem_list \<Rightarrow> 'w \<Rightarrow> (int \<times> snd_ctl_elem_list \<times> 'w) option" where
  "elem_list_loop E l w =
     (if el_count l = el_used l then Some (0, l, w)
      else case snd_ctl_elem_list_alloc_space E l (el_count l) w of (err, l, w) \<Rightarrow>
        if err < 0 then Some (err, l, w)
        else case snd_ctl_elem_list0 E l w of (err, l, w) \<Rightarrow>
          if err < 0 then Some (err, l, w) else elem_list_loop E l w)"

text \<open>The loop over \<^verbatim>\<open>list.pids\<close>, from entry \<open>idx\<close> with \<open>n\<close> entries to go.\<close>

primrec load_elems :: "'w hctl_env \<Rightarrow> snd_ctl_elem_id list \<Rightarrow> nat \<Rightarrow> nat \<Rightarrow> 'w hctl \<Rightarrow> (int \<times> 'w hctl) option" where
  "load_elems E pids 0 idx s = Some (0, s)"
| "load_elems E pids (Suc n) idx s =
     (case array_get pids idx of
        None \<Rightarrow> None
      | Some eid \<Rightarrow>
          (case calloc_elem E s eid of
             (None, s) \<Rightarrow> Some (- ENOMEM, s)
           | (Some elem, s) \<Rightarrow> do { s \<leftarrow> add_elem_list elem s; load_elems E pids n (Suc idx) s }))"

partial_function (option) announce_loop :: "'w hctl_env \<Rightarrow> nat option \<Rightarrow> 'w hctl \<Rightarrow> 'w hctl option" where
  "announce_loop E elem s =
     (case elem of
        None \<Rightarrow> Some s
      | Some a \<Rightarrow> (let (_, s) = snd_hctl_throw_event E s MASK_ADD a in do {
          e \<leftarrow> hheap s a;
          announce_loop E (he_next e) s }))"

definition subscribe_events :: "'w hctl_env \<Rightarrow> 'w hctl \<Rightarrow> int \<Rightarrow> int \<times> 'w hctl" where
  "subscribe_events E s b =
     (case c_subscribe E b (hworld s) of (ret, errno, w) \<Rightarrow> (if ret < 0 then - errno else 0, s\<lparr>hworld := w\<rparr>))"

text \<open>From the loop over \<^verbatim>\<open>list.count\<close> to \<^verbatim>\<open>_end\<close>, and the whole up to \<^verbatim>\<open>_end\<close>.\<close>

definition load_list :: "'w hctl_env \<Rightarrow> snd_ctl_elem_list \<Rightarrow> 'w hctl \<Rightarrow> (int \<times> 'w hctl) option" where
  "load_list E l s = do {
     (err, s) \<leftarrow> load_elems E (el_pids l) (unat (el_count l)) 0 s;
     (if err < 0 then Some (err, s)
      else do {
        s \<leftarrow> announce_loop E (first_elem s) s;
        Some (subscribe_events E s 1) }) }"

definition load_body :: "'w hctl_env \<Rightarrow> 'w hctl \<Rightarrow> (int \<times> 'w hctl) option" where
  "load_body E s =
     (case snd_ctl_elem_list0 E \<lparr>el_offset = 0, el_space = 0, el_used = 0, el_count = 0, el_pids = []\<rparr> (hworld s) of
        (err, l, w) \<Rightarrow>
          if err < 0 then Some (err, s\<lparr>hworld := w\<rparr>)
          else do {
            (err, l, w) \<leftarrow> elem_list_loop E l w;
            (if err < 0 then Some (err, s\<lparr>hworld := w\<rparr>) else load_list E l (s\<lparr>hworld := w\<rparr>)) })"

definition snd_hctl_load :: "'w hctl_env \<Rightarrow> 'w hctl \<Rightarrow> (int \<times> 'w hctl) option" where
  "snd_hctl_load E s = do {
     (err, s) \<leftarrow> load_body E s;
     (if err < 0 then do { (_, s) \<leftarrow> snd_hctl_free E s; Some (err, s) } else Some (err, s)) }"

section \<open>Events\<close>

definition snd_hctl_handle_event :: "'w hctl_env \<Rightarrow> 'w hctl \<Rightarrow> snd_ctl_event \<Rightarrow> (int \<times> 'w hctl) option" where
  "snd_hctl_handle_event E s event =
     (if ev_type event \<noteq> 0 then Some (0, s)
      else if ev_mask event = MASK_REMOVE then do {
        found \<leftarrow> snd_hctl_find_elem s (ev_id event);
        (case found of
           None \<Rightarrow> Some (- ENOENT, s)
         | Some elem \<Rightarrow> do { s \<leftarrow> snd_hctl_elem_remove E s elem; Some (0, s) }) }
      else do {
        (err, s) \<leftarrow>
          (if ev_mask event AND MASK_ADD \<noteq> 0 then
             (case calloc_elem E s (ev_id event) of
                (None, s) \<Rightarrow> Some (- ENOMEM, s)
              | (Some elem, s) \<Rightarrow> snd_hctl_elem_add E s elem)
           else Some (0, s));
        (if err < 0 then Some (err, s)
         else if ev_mask event AND (MASK_VALUE OR MASK_INFO) \<noteq> 0 then do {
           found \<leftarrow> snd_hctl_find_elem s (ev_id event);
           (case found of
              None \<Rightarrow> Some (- ENOENT, s)
            | Some elem \<Rightarrow> do {
                (err, s) \<leftarrow> snd_hctl_elem_throw_event E s elem (ev_mask event AND (MASK_VALUE OR MASK_INFO));
                Some (if err < 0 then err else 0, s) }) }
         else Some (0, s)) })"

text \<open>\<^verbatim>\<open>snd_ctl_read\<close> returns 1, or \<^verbatim>\<open>-errno\<close> when the read returns nothing.\<close>

definition snd_ctl_read :: "'w hctl_env \<Rightarrow> 'w \<Rightarrow> int \<times> snd_ctl_event \<times> 'w" where
  "snd_ctl_read E w = (case c_read E w of (res, errno, event, w) \<Rightarrow> (if res \<le> 0 then - errno else 1, event, w))"

partial_function (option) handle_events_loop :: "'w hctl_env \<Rightarrow> u32 \<Rightarrow> 'w hctl \<Rightarrow> (int \<times> 'w hctl) option" where
  "handle_events_loop E n s =
     (case snd_ctl_read E (hworld s) of (res, event, w) \<Rightarrow>
        (let s = s\<lparr>hworld := w\<rparr>
         in if res = 0 \<or> res = - EAGAIN then Some (sint n, s)
            else if res < 0 then Some (res, s)
            else do {
              (res, s) \<leftarrow> snd_hctl_handle_event E s event;
              (if res < 0 then Some (res, s) else handle_events_loop E (n + 1) s) }))"

definition snd_hctl_handle_events :: "'w hctl_env \<Rightarrow> 'w hctl \<Rightarrow> (int \<times> 'w hctl) option" where
  "snd_hctl_handle_events E s = handle_events_loop E 0 s"

section \<open>The list on the heap\<close>

text \<open>
  \<open>dseg h p xs n\<close>: the elements \<open>xs\<close> form a doubly linked segment of the heap whose first element points back
  to \<open>p\<close> and whose last element points on to \<open>n\<close>.
\<close>

fun dseg :: "hctl_heap \<Rightarrow> nat option \<Rightarrow> nat list \<Rightarrow> nat option \<Rightarrow> bool" where
  "dseg h p [] n \<longleftrightarrow> True"
| "dseg h p (a # as) n \<longleftrightarrow>
     (\<exists>e. h a = Some e \<and> he_prev e = p \<and> he_next e = (case as of [] \<Rightarrow> n | b # _ \<Rightarrow> Some b) \<and> dseg h (Some a) as n)"

definition last_of :: "nat option \<Rightarrow> nat list \<Rightarrow> nat option" where
  "last_of p xs = (if xs = [] then p else Some (last xs))"

definition first_of :: "nat option \<Rightarrow> nat list \<Rightarrow> nat option" where
  "first_of n xs = (case xs of [] \<Rightarrow> n | a # _ \<Rightarrow> Some a)"

lemma first_of_simps [simp]: "first_of n [] = n" "first_of n (a # as) = Some a"
  by (simp_all add: first_of_def)

lemma last_of_simps [simp]: "last_of p [] = p" "last_of p (a # as) = last_of (Some a) as"
    "last_of p (as @ bs) = last_of (last_of p as) bs"
  by (simp_all add: last_of_def)

lemma dseg_append [simp]: "dseg h p (as @ bs) n \<longleftrightarrow> dseg h p as (first_of n bs) \<and> dseg h (last_of p as) bs n"
proof (induction as arbitrary: p)
  case (Cons a as)
  then show ?case by (cases as; cases bs) auto
qed simp

lemma dseg_frame [list_heap]: "a \<notin> set xs \<Longrightarrow> dseg (h(a := x)) p xs n = dseg h p xs n"
  by (induction xs arbitrary: p) auto

lemma dseg_cong: "(\<And>a. a \<in> set xs \<Longrightarrow> h a = h' a) \<Longrightarrow> dseg h p xs n = dseg h' p xs n"
  by (induction xs arbitrary: p) (auto 0 3)

lemma dseg_member: "dseg h p xs n \<Longrightarrow> a \<in> set xs \<Longrightarrow> \<exists>e. h a = Some e"
  by (induction xs arbitrary: p) auto

lemma dseg_set_next:
  assumes "dseg h p (as @ [a]) n" "a \<notin> set as" "h a = Some e"
  shows "dseg (h(a \<mapsto> e\<lparr>he_next := n'\<rparr>)) p (as @ [a]) n'"
  using assms by (simp add: dseg_frame)

lemma dseg_set_prev:
  assumes "dseg h p (a # as) n" "a \<notin> set as" "h a = Some e"
  shows "dseg (h(a \<mapsto> e\<lparr>he_prev := p'\<rparr>)) p' (a # as) n"
  using assms by (simp add: dseg_frame)

text \<open>What an element holds beside its links.\<close>

definition unlinked :: "snd_hctl_elem \<Rightarrow> snd_hctl_elem" where
  "unlinked e = e\<lparr>he_prev := None, he_next := None\<rparr>"

lemma unlinked_simps [simp]: "unlinked (e\<lparr>he_prev := p\<rparr>) = unlinked e" "unlinked (e\<lparr>he_next := p\<rparr>) = unlinked e"
  by (simp_all add: unlinked_def)

text \<open>The handle is in order and holds the elements \<open>xs\<close>, in this order.\<close>

definition hctl_list :: "'w hctl \<Rightarrow> nat list \<Rightarrow> bool" where
  "hctl_list s xs \<longleftrightarrow> distinct xs \<and> dseg (hheap s) None xs None \<and> first_elem s = first_of None xs \<and>
     last_elem s = last_of None xs \<and> hctl_count s = of_nat (length xs)"

lemma hctl_list_unique: "hctl_list s xs \<Longrightarrow> hctl_list s ys \<Longrightarrow> xs = ys"
proof -
  have "dseg h p xs None \<Longrightarrow> dseg h p ys None \<Longrightarrow> first_of None xs = first_of None ys \<Longrightarrow> xs = ys" for h p
  proof (induction xs arbitrary: p ys)
    case Nil
    then show ?case by (cases ys) auto
  next
    case (Cons a as)
    then show ?case by (cases ys) (auto simp: first_of_def)
  qed
  then show "hctl_list s xs \<Longrightarrow> hctl_list s ys \<Longrightarrow> xs = ys" unfolding hctl_list_def by metis
qed

lemma add_elem_list_appends:
  assumes l: "hctl_list s xs" and a: "a \<notin> set xs" "hheap s a = Some e"
  shows "\<exists>s'. add_elem_list a s = Some s' \<and> hctl_list s' (xs @ [a]) \<and>
     (\<forall>b. map_option unlinked (hheap s' b) = map_option unlinked (hheap s b)) \<and> hctl_callback s' = hctl_callback s \<and> hworld s' = hworld s"
proof (cases xs rule: rev_cases)
  case Nil
  with l a show ?thesis by (simp add: add_elem_list_def hctl_list_def)
next
  case (snoc ys y)
  then obtain ey where y: "hheap s y = Some ey" using l by (auto simp: hctl_list_def)
  have ya: "y \<noteq> a" "a \<notin> set ys" "y \<notin> set ys" using a l snoc by (auto simp: hctl_list_def)
  let ?h = "(hheap s)(a \<mapsto> e\<lparr>he_next := None, he_prev := Some y\<rparr>)"
  have "dseg ?h None (ys @ [y]) None" using l snoc ya by (simp add: hctl_list_def dseg_frame)
  then have "dseg (?h(y \<mapsto> ey\<lparr>he_next := Some a\<rparr>)) None (ys @ [y]) (Some a)"
    using ya y by (intro dseg_set_next) simp_all
  then have "dseg (?h(y \<mapsto> ey\<lparr>he_next := Some a\<rparr>)) None (xs @ [a]) None" using snoc ya by simp
  moreover have "first_of None (xs @ [a]) = first_of None xs" using snoc by (cases ys) simp_all
  ultimately show ?thesis
    using l a snoc y ya by (auto simp: add_elem_list_def hctl_list_def)
qed

lemma del_elem_list_removes:
  fixes s :: "'w hctl"
  assumes l: "hctl_list s (as @ a # bs)"
  shows "\<exists>s'. del_elem_list a s = Some s' \<and> hctl_list s' (as @ bs) \<and>
     (\<forall>b. map_option unlinked (hheap s' b) = map_option unlinked (hheap s b)) \<and>
     hheap s' a = hheap s a \<and> hctl_callback s' = hctl_callback s \<and> hworld s' = hworld s"
proof -
  have d: "distinct (as @ a # bs)" and seg: "dseg (hheap s) None as (Some a)" "dseg (hheap s) (last_of None as) (a # bs) None"
    using l by (simp_all add: hctl_list_def)
  obtain e where e: "hheap s a = Some e" "he_prev e = last_of None as" "he_next e = first_of None bs"
    using seg(2) by (auto simp: first_of_def)
  have segb: "dseg (hheap s) (Some a) bs None" using seg(2) by auto
  \<comment> \<open>the predecessor\<close>
  obtain h1 where h1: "dseg h1 None as (first_of None bs)" "dseg h1 (Some a) bs None" "h1 a = Some e"
    and m1: "\<forall>b. map_option unlinked (h1 b) = map_option unlinked (hheap s b)"
    and p: "\<And>s0 :: 'w hctl. hheap s0 = hheap s \<Longrightarrow> (case he_prev e of
            Some p \<Rightarrow> do { pe \<leftarrow> hheap s0 p; Some (s0\<lparr>hheap := (hheap s0)(p \<mapsto> pe\<lparr>he_next := he_next e\<rparr>)\<rparr>) }
          | None \<Rightarrow> Some (s0\<lparr>first_elem := he_next e\<rparr>)) =
       Some (if as = [] then s0\<lparr>first_elem := first_of None bs\<rparr> else s0\<lparr>hheap := h1\<rparr>)"
    and h1s: "as = [] \<Longrightarrow> h1 = hheap s"
  proof (cases as rule: rev_cases)
    case Nil
    with that [of "hheap s"] segb e show thesis by simp
  next
    case (snoc cs c)
    obtain ec where c: "hheap s c = Some ec" using seg(1) snoc by auto
    have ne: "c \<noteq> a" "c \<notin> set cs" "c \<notin> set bs" using d snoc by auto
    let ?h = "(hheap s)(c \<mapsto> ec\<lparr>he_next := first_of None bs\<rparr>)"
    have "dseg ?h None as (first_of None bs)" using seg(1) snoc ne c by (simp add: dseg_frame)
    moreover have "dseg ?h (Some a) bs None" using segb ne by (simp add: dseg_frame)
    ultimately show thesis using that [of ?h] c ne e snoc by simp
  qed
  \<comment> \<open>the successor\<close>
  define s0 where "s0 = s\<lparr>hctl_count := hctl_count s - 1\<rparr>"
  define s1 where "s1 = (if as = [] then s0\<lparr>first_elem := first_of None bs\<rparr> else s0\<lparr>hheap := h1\<rparr>)"
  have heap1: "hheap s1 = h1" using h1s by (simp add: s1_def s0_def)
  have p': "(case he_prev e of
            Some p \<Rightarrow> do { pe \<leftarrow> hheap s0 p; Some (s0\<lparr>hheap := (hheap s0)(p \<mapsto> pe\<lparr>he_next := he_next e\<rparr>)\<rparr>) }
          | None \<Rightarrow> Some (s0\<lparr>first_elem := he_next e\<rparr>)) = Some s1"
    unfolding s1_def by (rule p) (simp add: s0_def)
  have step: "del_elem_list a s = (case he_next e of
        Some n \<Rightarrow> do { ne \<leftarrow> hheap s1 n; Some (s1\<lparr>hheap := (hheap s1)(n \<mapsto> ne\<lparr>he_prev := he_prev e\<rparr>)\<rparr>) }
      | None \<Rightarrow> Some (s1\<lparr>last_elem := he_prev e\<rparr>))"
  proof -
    have "hheap s0 a = Some e" using e by (simp add: s0_def)
    then show ?thesis unfolding del_elem_list_def Let_def s0_def [symmetric] using h1(3) heap1 by (simp add: p')
  qed
  have fst1: "first_elem s1 = first_of None (as @ bs)"
    using l by (cases as) (simp_all add: s1_def s0_def hctl_list_def)
  have cnt: "hctl_count s1 = of_nat (length (as @ bs))" using l by (simp add: s1_def s0_def hctl_list_def)
  have keep: "hctl_callback s1 = hctl_callback s" "hworld s1 = hworld s" "last_elem s1 = last_elem s"
    by (simp_all add: s1_def s0_def)
  show ?thesis
  proof (cases bs)
    case Nil
    then show ?thesis
      using step e h1 m1 heap1 fst1 cnt keep d l by (simp add: hctl_list_def)
  next
    case (Cons b bs')
    obtain eb where b: "h1 b = Some eb" using h1(2) Cons by auto
    have ne: "b \<notin> set as" "b \<notin> set bs'" "b \<noteq> a" using d Cons by auto
    let ?h = "h1(b \<mapsto> eb\<lparr>he_prev := last_of None as\<rparr>)"
    have "dseg ?h (last_of None as) bs None" unfolding Cons using h1(2) [unfolded Cons] ne(2) b by (rule dseg_set_prev)
    moreover have "dseg ?h None as (first_of None bs)" using h1(1) ne by (simp add: dseg_frame)
    ultimately have "dseg ?h None (as @ bs) None" by simp
    moreover have "last_of None (as @ bs) = last_elem s" using l Cons by (simp add: hctl_list_def)
    moreover have "Some (unlinked eb) = map_option unlinked (hheap s b)" using m1 b by (metis option.map(2))
    ultimately show ?thesis
      using step e(1,2,3) h1(3) m1 heap1 fst1 cnt keep d b ne Cons by (auto simp: hctl_list_def)
  qed
qed

interpretation hctl: registry hctl_list "\<lambda>s a. hheap s a \<noteq> None" add_elem_list del_elem_list
proof (unfold_locales, goal_cases)
  case (1 s xs)
  then show ?case by (simp add: hctl_list_def)
next
  case (2 s xs a)
  then obtain e where "hheap s a = Some e" by blast
  from add_elem_list_appends [OF 2(1,3) this] show ?case by fastforce
next
  case (3 s xs a)
  then obtain as bs where xs: "xs = as @ a # bs" by (auto simp: in_set_conv_decomp)
  from del_elem_list_removes [OF 3(1) [unfolded xs]] xs show ?case by fastforce
qed

section \<open>Searching\<close>

lemma find_elem_loop_dseg:
  "dseg h p xs None \<Longrightarrow>
   find_elem_loop h eid (first_of None xs) = Some (find (\<lambda>a. \<exists>e. h a = Some e \<and> id_matches (he_id e) eid) xs)"
proof (induction xs arbitrary: p)
  case Nil
  then show ?case by (simp add: find_elem_loop.simps)
next
  case (Cons a as)
  then obtain e where e: "h a = Some e" "he_next e = first_of None as" "dseg h (Some a) as None"
    by (auto simp: first_of_def)
  with Cons.IH [OF e(3)] show ?case by (simp add: find_elem_loop.simps [of _ _ "Some a"])
qed

text \<open>The handle holds the elements \<open>ids\<close>, in this order.\<close>

definition hctl_ids :: "'w hctl \<Rightarrow> nat list \<Rightarrow> snd_ctl_elem_id list \<Rightarrow> bool" where
  "hctl_ids s xs ids \<longleftrightarrow> hctl_list s xs \<and> map (\<lambda>a. map_option he_id (hheap s a)) xs = map Some ids"

lemma hctl_ids_length: "hctl_ids s xs ids \<Longrightarrow> length xs = length ids"
  by (metis hctl_ids_def length_map)

lemma hctl_ids_fields:
  assumes "hctl_ids s xs ids"
  shows "distinct xs" "dseg (hheap s) None xs None" "first_elem s = first_of None xs"
    "last_elem s = last_of None xs" "hctl_count s = of_nat (length ids)"
  using assms hctl_ids_length [OF assms] by (simp_all add: hctl_ids_def hctl_list_def)

text \<open>A search on the elements is a search on their identifiers.\<close>

lemma find_ids:
  "map (\<lambda>a. map_option he_id (h a)) xs = map Some ids \<Longrightarrow>
   (case find (\<lambda>a. \<exists>e. h a = Some e \<and> P (he_id e)) xs of
      None \<Rightarrow> \<forall>i \<in> set ids. \<not> P i
    | Some a \<Rightarrow> \<exists>as bs is i js. xs = as @ a # bs \<and> ids = is @ i # js \<and> length as = length is \<and>
        map_option he_id (h a) = Some i \<and> P i \<and> (\<forall>i \<in> set is. \<not> P i))"
proof (induction xs arbitrary: ids)
  case (Cons a as)
  then obtain i js where ids: "ids = i # js" and e: "map_option he_id (h a) = Some i"
    and r: "map (\<lambda>a. map_option he_id (h a)) as = map Some js" by (cases ids) auto
  show ?case
  proof (cases "P i")
    case True
    then have "find (\<lambda>a. \<exists>e. h a = Some e \<and> P (he_id e)) (a # as) = Some a" using e by auto
    moreover have "\<exists>as' bs is i' js'. a # as = as' @ a # bs \<and> ids = is @ i' # js' \<and> length as' = length is \<and>
        map_option he_id (h a) = Some i' \<and> P i' \<and> (\<forall>i \<in> set is. \<not> P i)"
      using True ids e by (intro exI [of _ "[]"] exI [of _ as] exI [of _ i] exI [of _ js]) simp
    ultimately show ?thesis by simp
  next
    case False
    then have f: "find (\<lambda>a. \<exists>e. h a = Some e \<and> P (he_id e)) (a # as) = find (\<lambda>a. \<exists>e. h a = Some e \<and> P (he_id e)) as"
      using e by auto
    show ?thesis
    proof (cases "find (\<lambda>a. \<exists>e. h a = Some e \<and> P (he_id e)) as")
      case None
      with Cons.IH [OF r] f False ids show ?thesis by simp
    next
      case (Some b)
      with Cons.IH [OF r] obtain as' bs "is" i' js' where
        d: "as = as' @ b # bs" "js = is @ i' # js'" "length as' = length is" "map_option he_id (h b) = Some i'" "P i'"
          "\<forall>i \<in> set is. \<not> P i" by auto
      then have "a # as = (a # as') @ b # bs \<and> ids = (i # is) @ i' # js' \<and> length (a # as') = length (i # is) \<and>
        map_option he_id (h b) = Some i' \<and> P i' \<and> (\<forall>i \<in> set (i # is). \<not> P i)" using ids False by simp
      with Some f show ?thesis by (simp only: option.case) blast
    qed
  qed
qed simp

lemma find_elem_absent:
  assumes "hctl_ids s xs ids" "\<forall>i \<in> set ids. \<not> id_matches i eid"
  shows "snd_hctl_find_elem s eid = Some None"
proof -
  have m: "map (\<lambda>a. map_option he_id (hheap s a)) xs = map Some ids" using assms by (simp add: hctl_ids_def)
  have "find (\<lambda>a. \<exists>e. hheap s a = Some e \<and> id_matches (he_id e) eid) xs = None"
    using find_ids [OF m, where P = "\<lambda>i. id_matches i eid"] assms(2) by (auto split: option.splits)
  with hctl_ids_fields [OF assms(1)] show ?thesis
    by (simp add: snd_hctl_find_elem_def find_elem_loop_dseg)
qed

lemma find_elem_present:
  assumes "hctl_ids s xs ids" "\<exists>i \<in> set ids. id_matches i eid"
  obtains a as bs "is" i js where "snd_hctl_find_elem s eid = Some (Some a)" "xs = as @ a # bs" "ids = is @ i # js"
    "length as = length is" "id_matches i eid" "\<forall>i \<in> set is. \<not> id_matches i eid" "\<exists>e. hheap s a = Some e \<and> he_id e = i"
proof -
  have m: "map (\<lambda>a. map_option he_id (hheap s a)) xs = map Some ids" using assms by (simp add: hctl_ids_def)
  obtain a where a: "find (\<lambda>a. \<exists>e. hheap s a = Some e \<and> id_matches (he_id e) eid) xs = Some a"
    using find_ids [OF m, where P = "\<lambda>i. id_matches i eid"] assms(2) by (auto split: option.splits)
  have f: "snd_hctl_find_elem s eid = Some (Some a)"
    using hctl_ids_fields [OF assms(1)] a by (simp add: snd_hctl_find_elem_def find_elem_loop_dseg)
  from find_ids [OF m, where P = "\<lambda>i. id_matches i eid"] a that [OF f] show thesis by auto
qed

section \<open>Callbacks\<close>

text \<open>
  A callback may change the private data and the callbacks of elements and the rest of the world; the
  links, the identifiers and the set of elements belong to the library.
\<close>

definition elem_links :: "snd_hctl_elem \<Rightarrow> snd_ctl_elem_id \<times> nat option \<times> nat option" where
  "elem_links e = (he_id e, he_prev e, he_next e)"

definition same_links :: "'w hctl \<Rightarrow> 'w hctl \<Rightarrow> bool" where
  "same_links s s' \<longleftrightarrow> first_elem s' = first_elem s \<and> last_elem s' = last_elem s \<and> hctl_count s' = hctl_count s \<and>
     (\<forall>a. map_option elem_links (hheap s' a) = map_option elem_links (hheap s a))"

definition polite :: "'w hctl_env \<Rightarrow> bool" where
  "polite E \<longleftrightarrow> (\<forall>m a s. same_links s (snd (cb_hctl E m a s))) \<and> (\<forall>f a m s. same_links s (snd (cb_elem E f a m s)))"

text \<open>The allocator returns memory that is not in use.\<close>

definition fresh_alloc :: "'w hctl_env \<Rightarrow> bool" where
  "fresh_alloc E \<longleftrightarrow> (\<forall>s a w. h_calloc E s = (Some a, w) \<longrightarrow> hheap s a = None)"

lemma same_links_refl [simp]: "same_links s s"
  by (simp add: same_links_def)

lemma same_links_dom: "same_links s s' \<Longrightarrow> hheap s' a = None \<longleftrightarrow> hheap s a = None"
  unfolding same_links_def by (metis map_option_is_None)

lemma same_links_elem:
  assumes "same_links s s'" "hheap s a = Some e"
  shows "\<exists>e'. hheap s' a = Some e' \<and> he_id e' = he_id e \<and> he_prev e' = he_prev e \<and> he_next e' = he_next e"
proof -
  have "map_option elem_links (hheap s' a) = Some (elem_links e)" using assms by (simp add: same_links_def)
  then show ?thesis by (auto simp: elem_links_def)
qed

lemma same_links_id: "same_links s s' \<Longrightarrow> map_option he_id (hheap s' a) = map_option he_id (hheap s a)"
  using same_links_elem [of s s' a] same_links_dom [of s s' a] by (cases "hheap s a"; cases "hheap s' a") auto

lemma dseg_same_links: "same_links s s' \<Longrightarrow> dseg (hheap s) p xs n \<Longrightarrow> dseg (hheap s') p xs n"
proof (induction xs arbitrary: p)
  case (Cons a as)
  then obtain e where e: "hheap s a = Some e" "he_prev e = p" "he_next e = (case as of [] \<Rightarrow> n | b # _ \<Rightarrow> Some b)"
    "dseg (hheap s) (Some a) as n" by auto
  with same_links_elem [OF Cons.prems(1) e(1)] Cons.IH [OF Cons.prems(1) e(4)] show ?case by auto
qed simp

lemma hctl_ids_same_links:
  assumes "same_links s s'" "hctl_ids s xs ids"
  shows "hctl_ids s' xs ids"
proof -
  have "dseg (hheap s') None xs None" using dseg_same_links [OF assms(1)] assms(2) by (simp add: hctl_ids_def hctl_list_def)
  then have "hctl_list s' xs" using assms by (simp add: hctl_ids_def hctl_list_def same_links_def)
  moreover have "map (\<lambda>a. map_option he_id (hheap s' a)) xs = map Some ids"
    using assms(2) by (simp add: hctl_ids_def same_links_id [OF assms(1)])
  ultimately show ?thesis by (simp add: hctl_ids_def)
qed

lemma throw_event_same_links: "polite E \<Longrightarrow> snd_hctl_throw_event E s m a = (r, s') \<Longrightarrow> same_links s s'"
  unfolding polite_def snd_hctl_throw_event_def by (metis prod.inject same_links_refl snd_conv)

lemma elem_throw_event_same_links:
  assumes "polite E" "hheap s a = Some e"
  shows "\<exists>r s'. snd_hctl_elem_throw_event E s a m = Some (r, s') \<and> same_links s s'"
proof (cases "he_callback e")
  case None
  with assms show ?thesis by (simp add: snd_hctl_elem_throw_event_def)
next
  case (Some f)
  with assms show ?thesis unfolding polite_def snd_hctl_elem_throw_event_def by (simp del: split_paired_All) (metis prod.collapse)
qed

section \<open>Adding and removing\<close>

lemma ids_unlinked:
  "(\<forall>b. map_option unlinked (h' b) = map_option unlinked (h b)) \<Longrightarrow> map_option he_id (h' a) = map_option he_id (h a)"
proof -
  have "he_id e = he_id (unlinked e)" for e by (simp add: unlinked_def)
  then show "(\<forall>b. map_option unlinked (h' b) = map_option unlinked (h b)) \<Longrightarrow> ?thesis"
    by (cases "h' a"; cases "h a") (metis option.map_disc_iff option.simps(9) option.simps(3) option.inject)+
qed

lemma add_elem_list_ids:
  assumes "hctl_ids s xs ids" "a \<notin> set xs" "hheap s a = Some e"
  shows "\<exists>s'. add_elem_list a s = Some s' \<and> hctl_ids s' (xs @ [a]) (ids @ [he_id e]) \<and>
     (\<forall>b. hheap s' b = None \<longleftrightarrow> hheap s b = None) \<and> hworld s' = hworld s"
proof -
  from add_elem_list_appends [OF _ assms(2,3)] assms(1) obtain s' where
    s': "add_elem_list a s = Some s'" "hctl_list s' (xs @ [a])" "hworld s' = hworld s"
    and u: "\<forall>b. map_option unlinked (hheap s' b) = map_option unlinked (hheap s b)" by (auto simp: hctl_ids_def)
  have i: "map_option he_id (hheap s' b) = map_option he_id (hheap s b)" for b using u by (rule ids_unlinked)
  have "hctl_ids s' (xs @ [a]) (ids @ [he_id e])" using s'(2) assms by (simp add: hctl_ids_def i)
  moreover have "\<forall>b. hheap s' b = None \<longleftrightarrow> hheap s b = None" using u by (metis option.map_disc_iff)
  ultimately show ?thesis using s' by blast
qed

lemma del_elem_list_ids:
  assumes "hctl_ids s (as @ a # bs) (is @ i # js)" "length as = length is"
  shows "\<exists>s'. del_elem_list a s = Some s' \<and> hctl_ids s' (as @ bs) (is @ js) \<and>
     (\<forall>b. hheap s' b = None \<longleftrightarrow> hheap s b = None) \<and> hworld s' = hworld s"
proof -
  from del_elem_list_removes [of s as a bs] assms(1) obtain s' where
    s': "del_elem_list a s = Some s'" "hctl_list s' (as @ bs)" "hworld s' = hworld s"
    and u: "\<forall>b. map_option unlinked (hheap s' b) = map_option unlinked (hheap s b)" by (auto simp: hctl_ids_def)
  have i: "map_option he_id (hheap s' b) = map_option he_id (hheap s b)" for b using u by (rule ids_unlinked)
  have "hctl_ids s' (as @ bs) (is @ js)" using s'(2) assms by (simp add: hctl_ids_def i)
  moreover have "\<forall>b. hheap s' b = None \<longleftrightarrow> hheap s b = None" using u by (metis option.map_disc_iff)
  ultimately show ?thesis using s' by blast
qed

text \<open>Freeing an object that is on no list changes no list.\<close>

lemma hctl_ids_free: "hctl_ids s xs ids \<Longrightarrow> a \<notin> set xs \<Longrightarrow> hctl_ids (s\<lparr>hheap := (hheap s)(a := x)\<rparr>) xs ids"
proof -
  assume a: "hctl_ids s xs ids" "a \<notin> set xs"
  have "map (\<lambda>b. map_option he_id (((hheap s)(a := x)) b)) xs = map (\<lambda>b. map_option he_id (hheap s b)) xs"
    using a(2) by (intro map_cong) auto
  with a show "hctl_ids (s\<lparr>hheap := (hheap s)(a := x)\<rparr>) xs ids"
    by (simp add: hctl_ids_def hctl_list_def dseg_frame del: map_eq_conv fun_upd_apply)
qed

lemma hctl_ids_world [simp]: "hctl_ids (s\<lparr>hworld := w\<rparr>) xs ids = hctl_ids s xs ids"
  by (simp add: hctl_ids_def hctl_list_def)

lemma elem_remove_ids:
  assumes "polite E" "hctl_ids s (as @ a # bs) (is @ i # js)" "length as = length is"
  shows "\<exists>s'. snd_hctl_elem_remove E s a = Some s' \<and> hctl_ids s' (as @ bs) (is @ js) \<and>
     (\<forall>b. hheap s' b = None \<longleftrightarrow> b = a \<or> hheap s b = None)"
proof -
  from del_elem_list_ids [OF assms(2,3)] obtain s1 where
    s1: "del_elem_list a s = Some s1" "hctl_ids s1 (as @ bs) (is @ js)" "\<forall>b. hheap s1 b = None \<longleftrightarrow> hheap s b = None" by blast
  obtain e where "hheap s a = Some e" using hctl_ids_fields(2) [OF assms(2)] by auto
  then obtain e1 where "hheap s1 a = Some e1" using s1(3) by (cases "hheap s1 a") auto
  from elem_throw_event_same_links [OF assms(1) this] obtain r s2 where
    s2: "snd_hctl_elem_throw_event E s1 a MASK_REMOVE = Some (r, s2)" "same_links s1 s2" by blast
  have "a \<notin> set (as @ bs)" using hctl_ids_fields(1) [OF assms(2)] by simp
  with hctl_ids_same_links [OF s2(2) s1(2)] have "hctl_ids (s2\<lparr>hheap := (hheap s2)(a := None)\<rparr>) (as @ bs) (is @ js)"
    by (rule hctl_ids_free)
  moreover have "\<forall>b. ((hheap s2)(a := None)) b = None \<longleftrightarrow> b = a \<or> hheap s b = None"
    using same_links_dom [OF s2(2)] s1(3) by simp
  ultimately show ?thesis using s1(1) s2(1) by (simp add: snd_hctl_elem_remove_def)
qed

lemma hctl_free_ids:
  "polite E \<Longrightarrow> hctl_ids s xs ids \<Longrightarrow>
   \<exists>s'. snd_hctl_free E s = Some (0, s') \<and> hctl_ids s' [] [] \<and> (\<forall>b. hheap s' b = None \<longleftrightarrow> b \<in> set xs \<or> hheap s b = None)"
proof (induction xs arbitrary: s ids rule: rev_induct)
  case Nil
  then have "ids = []" "last_elem s = None" by (simp_all add: hctl_ids_def hctl_list_def)
  with Nil show ?case by (simp add: snd_hctl_free.simps)
next
  case (snoc a as)
  have "length ids = Suc (length as)" using hctl_ids_length [OF snoc.prems(2)] by simp
  then obtain "is" i where ids: "ids = is @ [i]" by (cases ids rule: rev_cases) auto
  then have "length as = length is" using \<open>length ids = Suc (length as)\<close> by simp
  with elem_remove_ids [OF snoc.prems(1), of s as a "[]" "is" i "[]"] snoc.prems(2) ids obtain s1 where
    s1: "snd_hctl_elem_remove E s a = Some s1" "hctl_ids s1 as is" "\<forall>b. hheap s1 b = None \<longleftrightarrow> b = a \<or> hheap s b = None" by auto
  from snoc.IH [OF snoc.prems(1) s1(2)] obtain s2 where
    s2: "snd_hctl_free E s1 = Some (0, s2)" "hctl_ids s2 [] []" "\<forall>b. hheap s2 b = None \<longleftrightarrow> b \<in> set as \<or> hheap s1 b = None" by blast
  have "last_elem s = Some a" using hctl_ids_fields(4) [OF snoc.prems(2)] by simp
  then have "snd_hctl_free E s = Some (0, s2)" using s1(1) s2(1) by (simp add: snd_hctl_free.simps [of E s])
  with s2 s1(3) show ?case by auto
qed

end
