(* ===== verification/Mixer.thy ===== *)
theory Mixer
  imports Hctl Ctl_Tlv
begin

text \<open>
  The simple mixer, built on the high-level control interface: \<^verbatim>\<open>src/src/mixer.c\<close> and
  \<^verbatim>\<open>src/src/mixer_macros.h\<close>.  This theory has the state, the array of mixer elements, the items of an
  element and the handling of control events; volumes and switches are in the next.

  The state is a control handle whose world is the mixer, so that the mixer's callbacks have the type the
  handle expects.  Mixer elements and items live on heaps of their own; an item is shared by two slots of an
  element when it is common to playback and capture.  \<^verbatim>\<open>pelems\<close> is the part of the array that is in use, and
  its length is \<^verbatim>\<open>count\<close>.  A slot read at the wrong type, a freed pointer or an index out of range gives \<open>None\<close>.
\<close>

section \<open>State\<close>

datatype db_info = DbNull | DbInvalid | DbData "u32 list"

record vol_body =
  v_min :: int
  v_max :: int
  v_raw_min :: int
  v_raw_max :: int
  v_db :: db_info
  v_vol :: "int list"

datatype selem_body = Vol vol_body | Sw u32 | Enum u32 "u32 list"

record selem_item =
  item_helem :: nat
  item_numid :: u32
  item_channels :: u32
  item_body :: selem_body

record mixer_elem =
  sid_name :: string
  sid_index :: u32
  e_caps :: u32
  e_inactive :: u32
  e_channels :: "u32 list"
  e_items :: "nat option list"
  e_index :: u32
  e_callback :: "nat option"

record 'w mixer =
  m_pelems :: "nat list"
  m_alloc :: int
  m_compare :: bool
  m_events :: u32
  m_callback :: bool
  m_elems :: "nat \<rightharpoonup> mixer_elem"
  m_items :: "nat \<rightharpoonup> selem_item"
  m_rest :: 'w

type_synonym 'w mstate = "'w mixer hctl"

text \<open>
  What the mixer relies on: the control device and its protocol version, the contents of memory that is not
  initialised, the allocator, \<^verbatim>\<open>qsort\<close> with the comparison of the mixer, and the callbacks.
\<close>

record 'w mixer_env =
  mx_ctl :: "'w ctl_kernel"
  mx_protocol :: int
  mx_buffer :: "u8 list"
  mx_info0 :: snd_ctl_elem_info
  mx_calloc :: "'w mixer \<Rightarrow> nat option \<times> 'w"
  mx_malloc :: "'w mixer \<Rightarrow> nat option \<times> 'w"
  mx_realloc :: "int \<Rightarrow> 'w \<Rightarrow> bool \<times> 'w"
  mx_qsort :: "nat list \<Rightarrow> 'w mixer \<Rightarrow> nat list"
  mx_cb :: "u32 \<Rightarrow> nat \<Rightarrow> 'w mstate \<Rightarrow> int \<times> 'w mstate"
  mx_elem_cb :: "nat \<Rightarrow> nat \<Rightarrow> u32 \<Rightarrow> 'w mstate \<Rightarrow> int \<times> 'w mstate"

abbreviation (input) ITEM_PVOLUME :: nat where "ITEM_PVOLUME \<equiv> 0"
abbreviation (input) ITEM_CVOLUME :: nat where "ITEM_CVOLUME \<equiv> 1"
abbreviation (input) ITEM_PSWITCH :: nat where "ITEM_PSWITCH \<equiv> 2"
abbreviation (input) ITEM_CSWITCH :: nat where "ITEM_CSWITCH \<equiv> 3"
abbreviation (input) ITEM_ENUM :: nat where "ITEM_ENUM \<equiv> 4"
abbreviation (input) SELEM_ITEMS :: nat where "SELEM_ITEMS \<equiv> 5"
abbreviation (input) CAP_GVOLUME :: u32 where "CAP_GVOLUME \<equiv> 4"
abbreviation (input) CAP_GSWITCH :: u32 where "CAP_GSWITCH \<equiv> 0x40"
abbreviation (input) CAP_PENUM :: u32 where "CAP_PENUM \<equiv> 0x100"
abbreviation (input) CAP_CENUM :: u32 where "CAP_CENUM \<equiv> 0x200"

definition mix :: "('w mixer \<Rightarrow> 'w mixer) \<Rightarrow> 'w mstate \<Rightarrow> 'w mstate" where
  "mix f s = s\<lparr>hworld := f (hworld s)\<rparr>"

definition get_elem :: "'w mstate \<Rightarrow> nat \<Rightarrow> mixer_elem option" where
  "get_elem s elem = m_elems (hworld s) elem"

definition put_elem :: "nat \<Rightarrow> mixer_elem \<Rightarrow> 'w mstate \<Rightarrow> 'w mstate" where
  "put_elem elem e = mix (\<lambda>m. m\<lparr>m_elems := (m_elems m)(elem \<mapsto> e)\<rparr>)"

definition get_item :: "'w mstate \<Rightarrow> nat \<Rightarrow> selem_item option" where
  "get_item s item = m_items (hworld s) item"

definition put_item :: "nat \<Rightarrow> selem_item \<Rightarrow> 'w mstate \<Rightarrow> 'w mstate" where
  "put_item item it = mix (\<lambda>m. m\<lparr>m_items := (m_items m)(item \<mapsto> it)\<rparr>)"

text \<open>\<^verbatim>\<open>snd_hctl_elem_info\<close>, \<^verbatim>\<open>snd_hctl_elem_read\<close> and \<^verbatim>\<open>snd_hctl_elem_write\<close>.\<close>

definition set_rest :: "'w \<Rightarrow> 'w mstate \<Rightarrow> 'w mstate" where
  "set_rest w = mix (\<lambda>m. m\<lparr>m_rest := w\<rparr>)"

definition snd_hctl_elem_info :: "'w mixer_env \<Rightarrow> nat \<Rightarrow> snd_ctl_elem_info \<Rightarrow> 'w mstate \<Rightarrow> (int \<times> snd_ctl_elem_info \<times> 'w mstate) option" where
  "snd_hctl_elem_info M helem info s = do {
     e \<leftarrow> hheap s helem;
     (case snd_ctl_elem_info0 (mx_ctl M) (info\<lparr>info_id := he_id e\<rparr>) (m_rest (hworld s)) of
        (err, info, w) \<Rightarrow> Some (err, info, set_rest w s)) }"

definition snd_hctl_elem_read :: "'w mixer_env \<Rightarrow> nat \<Rightarrow> snd_ctl_elem_value \<Rightarrow> 'w mstate \<Rightarrow> (int \<times> snd_ctl_elem_value \<times> 'w mstate) option" where
  "snd_hctl_elem_read M helem val s = do {
     e \<leftarrow> hheap s helem;
     (case snd_ctl_elem_read (mx_ctl M) (val\<lparr>value_id := he_id e\<rparr>) (m_rest (hworld s)) of
        (err, val, w) \<Rightarrow> Some (err, val, set_rest w s)) }"

definition snd_hctl_elem_write :: "'w mixer_env \<Rightarrow> nat \<Rightarrow> snd_ctl_elem_value \<Rightarrow> 'w mstate \<Rightarrow> (int \<times> 'w mstate) option" where
  "snd_hctl_elem_write M helem val s = do {
     e \<leftarrow> hheap s helem;
     (case snd_ctl_elem_write (mx_ctl M) (val\<lparr>value_id := he_id e\<rparr>) (m_rest (hworld s)) of
        (err, _, w) \<Rightarrow> Some (err, set_rest w s)) }"

section \<open>Events\<close>

definition snd_mixer_throw_event :: "'w mixer_env \<Rightarrow> u32 \<Rightarrow> nat \<Rightarrow> 'w mstate \<Rightarrow> int \<times> 'w mstate" where
  "snd_mixer_throw_event M evmask elem s =
     (let s = mix (\<lambda>m. m\<lparr>m_events := m_events m + 1\<rparr>) s
      in if m_callback (hworld s) then mx_cb M evmask elem s else (0, s))"

definition snd_mixer_elem_throw_event :: "'w mixer_env \<Rightarrow> nat \<Rightarrow> u32 \<Rightarrow> 'w mstate \<Rightarrow> (int \<times> 'w mstate) option" where
  "snd_mixer_elem_throw_event M elem evmask s = do {
     e \<leftarrow> get_elem s elem;
     (let s = mix (\<lambda>m. m\<lparr>m_events := m_events m + 1\<rparr>) s
      in Some (case e_callback e of Some f \<Rightarrow> mx_elem_cb M f elem evmask s | None \<Rightarrow> (0, s))) }"

section \<open>The array of elements\<close>

text \<open>\<^verbatim>\<open>pelems[i]->index = i\<close> for the elements from position \<open>i\<close> on.\<close>

primrec set_indices :: "nat list \<Rightarrow> nat \<Rightarrow> (nat \<rightharpoonup> mixer_elem) \<Rightarrow> (nat \<rightharpoonup> mixer_elem) option" where
  "set_indices [] i m = Some m"
| "set_indices (p # ps) i m = do { e \<leftarrow> m p; set_indices ps (Suc i) (m(p \<mapsto> e\<lparr>e_index := of_nat i\<rparr>)) }"

definition snd_mixer_sort :: "'w mixer_env \<Rightarrow> 'w mixer \<Rightarrow> 'w mixer option" where
  "snd_mixer_sort M m = (let m = (if m_compare m then m\<lparr>m_pelems := mx_qsort M (m_pelems m) m\<rparr> else m) in do {
     es \<leftarrow> set_indices (m_pelems m) 0 (m_elems m);
     Some (m\<lparr>m_elems := es\<rparr>) })"

text \<open>\<^verbatim>\<open>add_mixer_elem\<close> up to the event; the first result is false when there is no memory.\<close>

definition enter_elem :: "'w mixer_env \<Rightarrow> nat \<Rightarrow> 'w mixer \<Rightarrow> (bool \<times> 'w mixer) option" where
  "enter_elem M elem m =
     (case (if int (length (m_pelems m)) = m_alloc m
            then (case mx_realloc M (m_alloc m + 32) (m_rest m) of
                    (ok, w) \<Rightarrow> (ok, m\<lparr>m_rest := w, m_alloc := (if ok then m_alloc m + 32 else m_alloc m)\<rparr>))
            else (True, m)) of
        (False, m) \<Rightarrow> Some (False, m)
      | (True, m) \<Rightarrow> do {
          m \<leftarrow> snd_mixer_sort M (m\<lparr>m_pelems := m_pelems m @ [elem]\<rparr>);
          Some (True, m) })"

definition add_mixer_elem :: "'w mixer_env \<Rightarrow> nat \<Rightarrow> 'w mstate \<Rightarrow> (int \<times> 'w mstate) option" where
  "add_mixer_elem M elem s = do {
     (ok, m) \<leftarrow> enter_elem M elem (hworld s);
     (let s = s\<lparr>hworld := m\<rparr>
      in Some (if ok then snd_mixer_throw_event M MASK_ADD elem s else (- ENOMEM, s))) }"

text \<open>The search for the element, the shift of the ones behind it, and \<^verbatim>\<open>free\<close>.\<close>

primrec position :: "nat \<Rightarrow> nat list \<Rightarrow> nat option" where
  "position a [] = None"
| "position a (p # ps) = (if p = a then Some 0 else map_option Suc (position a ps))"

definition remove_mixer_elem :: "nat \<Rightarrow> 'w mixer \<Rightarrow> 'w mixer option" where
  "remove_mixer_elem elem m = do {
     _ \<leftarrow> m_elems m elem;
     m \<leftarrow> (case position elem (m_pelems m) of
            None \<Rightarrow> Some m
          | Some i \<Rightarrow> (let ps = take i (m_pelems m) @ drop (Suc i) (m_pelems m) in do {
              es \<leftarrow> set_indices (drop i ps) i (m_elems m);
              Some (m\<lparr>m_pelems := ps, m_elems := es\<rparr>) }));
     Some (m\<lparr>m_elems := (m_elems m)(elem := None)\<rparr>) }"

primrec find_selem_loop :: "'w mixer \<Rightarrow> string \<Rightarrow> u32 \<Rightarrow> nat list \<Rightarrow> nat option option" where
  "find_selem_loop m name index [] = Some None"
| "find_selem_loop m name index (p # ps) = do {
     e \<leftarrow> m_elems m p;
     (if sid_index e = index \<and> sid_name e = name then Some (Some p) else find_selem_loop m name index ps) }"

definition snd_mixer_find_selem :: "'w mixer \<Rightarrow> string \<Rightarrow> u32 \<Rightarrow> nat option option" where
  "snd_mixer_find_selem m name index = find_selem_loop m name index (m_pelems m)"

definition snd_mixer_first_elem :: "'w mixer \<Rightarrow> nat option" where
  "snd_mixer_first_elem m = array_get (m_pelems m) 0"

definition snd_mixer_last_elem :: "'w mixer \<Rightarrow> nat option" where
  "snd_mixer_last_elem m = (if m_pelems m = [] then None else array_get (m_pelems m) (length (m_pelems m) - 1))"

definition snd_mixer_elem_next :: "'w mixer \<Rightarrow> nat \<Rightarrow> nat option option" where
  "snd_mixer_elem_next m elem = do {
     e \<leftarrow> m_elems m elem;
     (if e_index e = of_nat (length (m_pelems m)) - 1 then Some None
      else map_option Some (array_get (m_pelems m) (unat (e_index e + 1)))) }"

definition snd_mixer_elem_prev :: "'w mixer \<Rightarrow> nat \<Rightarrow> nat option option" where
  "snd_mixer_elem_prev m elem = do {
     e \<leftarrow> m_elems m elem;
     (if e_index e = 0 then Some None else map_option Some (array_get (m_pelems m) (unat (e_index e - 1)))) }"


section \<open>Items\<close>

text \<open>The largest number of channels of each direction.\<close>

definition cap_channels :: "nat \<Rightarrow> bool \<Rightarrow> u32 \<Rightarrow> u32 list \<Rightarrow> u32 list option" where
  "cap_channels ty common n chs = do {
     c \<leftarrow> array_get chs (ty mod 2);
     (let chs = (if n > c then chs[ty mod 2 := n] else chs)
      in if common then do {
           c \<leftarrow> array_get chs (ty mod 2 + 1);
           Some (if n > c then chs[ty mod 2 + 1 := n] else chs) }
         else Some chs) }"

definition add_cap :: "nat \<Rightarrow> u32 \<Rightarrow> nat \<Rightarrow> nat \<Rightarrow> 'w mstate \<Rightarrow> 'w mstate option" where
  "add_cap elem caps ty item s = do {
     e \<leftarrow> get_elem s elem;
     it \<leftarrow> get_item s item;
     items \<leftarrow> array_set (e_items e) ty (Some item);
     h \<leftarrow> hheap s (item_helem it);
     (let common = caps AND (CAP_GVOLUME OR CAP_GSWITCH) \<noteq> 0;
          s = s\<lparr>hheap := (hheap s)(item_helem it \<mapsto> h\<lparr>he_private := Some elem\<rparr>)\<rparr>;
          e = e\<lparr>e_caps := e_caps e OR caps\<rparr>
      in if ty = ITEM_ENUM then Some (put_elem elem (e\<lparr>e_items := items\<rparr>) s)
         else do {
           items \<leftarrow> (if common then array_set items (ty + 1) (Some item) else Some items);
           chs \<leftarrow> cap_channels ty common (item_channels it) (e_channels e);
           Some (put_elem elem (e\<lparr>e_items := items, e_channels := chs\<rparr>) s) }) }"

text \<open>\<^verbatim>\<open>elem->sid.name\<close> has 60 bytes; \<^verbatim>\<open>calloc\<close> has cleared the last.\<close>

definition new_mixer_elem :: "'w mixer_env \<Rightarrow> string \<Rightarrow> u32 \<Rightarrow> 'w mstate \<Rightarrow> nat option \<times> 'w mstate" where
  "new_mixer_elem M name index s =
     (case mx_calloc M (hworld s) of
        (None, w) \<Rightarrow> (None, set_rest w s)
      | (Some a, w) \<Rightarrow> (Some a, put_elem a
          \<lparr>sid_name = take 59 name, sid_index = index, e_caps = 0, e_inactive = 0, e_channels = [0, 0],
           e_items = replicate 5 None, e_index = 0, e_callback = None\<rparr> (set_rest w s)))"

text \<open>The initial values of the items; \<open>n\<close> is \<^verbatim>\<open>info->count\<close>.\<close>

primrec read_volumes :: "snd_ctl_elem_value \<Rightarrow> nat \<Rightarrow> int list option" where
  "read_volumes val 0 = Some []"
| "read_volumes val (Suc n) = do {
     vs \<leftarrow> read_volumes val n;
     v \<leftarrow> snd_ctl_elem_value_get_integer val (of_nat n);
     Some (vs @ [v, v]) }"

primrec read_switches :: "snd_ctl_elem_value \<Rightarrow> nat \<Rightarrow> u32 option" where
  "read_switches val 0 = Some 0"
| "read_switches val (Suc n) = do {
     sw \<leftarrow> read_switches val n;
     b \<leftarrow> snd_ctl_elem_value_get_boolean val (of_nat n);
     (if b \<noteq> 0 then if n < 32 then Some (sw OR push_bit n 1) else None else Some sw) }"

primrec read_items :: "snd_ctl_elem_value \<Rightarrow> nat \<Rightarrow> u32 list option" where
  "read_items val 0 = Some []"
| "read_items val (Suc n) = do {
     vs \<leftarrow> read_items val n;
     v \<leftarrow> snd_ctl_elem_value_get_enumerated val (of_nat n);
     Some (vs @ [v]) }"

definition new_selem_vol_item :: "snd_ctl_elem_info \<Rightarrow> snd_ctl_elem_value \<Rightarrow> selem_body option" where
  "new_selem_vol_item info val = do {
     mn \<leftarrow> snd_ctl_elem_info_get_min info;
     mx \<leftarrow> snd_ctl_elem_info_get_max info;
     vs \<leftarrow> read_volumes val (unat (info_count info));
     Some (Vol \<lparr>v_min = mn, v_max = mx, v_raw_min = mn, v_raw_max = mx, v_db = DbNull, v_vol = vs\<rparr>) }"

definition new_selem_sw_item :: "snd_ctl_elem_info \<Rightarrow> snd_ctl_elem_value \<Rightarrow> selem_body option" where
  "new_selem_sw_item info val = map_option Sw (read_switches val (unat (info_count info)))"

definition new_selem_enum_item :: "snd_ctl_elem_info \<Rightarrow> snd_ctl_elem_value \<Rightarrow> selem_body option" where
  "new_selem_enum_item info val = do {
     n \<leftarrow> snd_ctl_elem_info_get_items info;
     vs \<leftarrow> read_items val (unat (info_count info));
     Some (Enum n vs) }"

definition zero_value :: snd_ctl_elem_value where
  "zero_value = \<lparr>value_id = zero_id, value_indirect = False, value_data = replicate 1024 0\<rparr>"

definition zero_info :: snd_ctl_elem_info where
  "zero_info = \<lparr>info_id = zero_id, info_type = 0, info_access = 0, info_count = 0, info_owner = 0,
     info_value = replicate 128 0, info_dimen = replicate 4 0\<rparr>"

definition new_selem_item :: "'w mixer_env \<Rightarrow> nat \<Rightarrow> snd_ctl_elem_info \<Rightarrow> 'w mstate \<Rightarrow> (nat option \<times> 'w mstate) option" where
  "new_selem_item M hp info s = do {
     (err, val, s) \<leftarrow> snd_hctl_elem_read M hp (zero_value\<lparr>value_id := info_id info\<rparr>) s;
     (if err < 0 \<or> info_type info \<notin> {TYPE_INTEGER, TYPE_BOOLEAN, TYPE_ENUMERATED} then Some (None, s)
      else case mx_malloc M (hworld s) of
        (None, w) \<Rightarrow> Some (None, set_rest w s)
      | (Some a, w) \<Rightarrow> do {
          body \<leftarrow> (if info_type info = TYPE_INTEGER then new_selem_vol_item info val
                  else if info_type info = TYPE_BOOLEAN then new_selem_sw_item info val
                  else new_selem_enum_item info val);
          Some (Some a, put_item a
            \<lparr>item_helem = hp, item_numid = id_numid (info_id info), item_channels = info_count info, item_body = body\<rparr>
            (set_rest w s)) }) }"

section \<open>Names\<close>

definition name_alias :: "(string \<times> string \<times> int) list" where
  "name_alias =
     [(''Tone Control - Switch'', ''Tone'', 0),
      (''Tone Control - Bass'', ''Bass'', 0),
      (''Tone Control - Treble'', ''Treble'', 0),
      (''Synth Tone Control - Switch'', ''Synth Tone'', 0),
      (''Synth Tone Control - Bass'', ''Synth Bass'', 0),
      (''Synth Tone Control - Treble'', ''Synth Treble'', 0)]"

definition check_elem_alias :: "string \<Rightarrow> (string \<times> int) option" where
  "check_elem_alias name = map_of name_alias name"

text \<open>\<^verbatim>\<open>strstr\<close>: the position of the first occurrence.\<close>

fun strstr :: "string \<Rightarrow> string \<Rightarrow> nat option" where
  "strstr s sfx =
     (if take (length sfx) s = sfx then Some 0
      else case s of [] \<Rightarrow> None | _ # cs \<Rightarrow> map_option Suc (strstr cs sfx))"

definition remove_suffix :: "string \<Rightarrow> string \<Rightarrow> bool \<times> string" where
  "remove_suffix name sfx =
     (case strstr name sfx of
        None \<Rightarrow> (False, name)
      | Some i \<Rightarrow> if drop i name = sfx then (True, take i name) else (False, name))"

definition strncmp_eq :: "string \<Rightarrow> string \<Rightarrow> bool" where
  "strncmp_eq name prefix \<longleftrightarrow> take (length prefix) name = prefix"

text \<open>The name of the mixer element, the direction and the flag for both directions.\<close>

definition elem_name :: "string \<Rightarrow> string \<times> int \<times> bool" where
  "elem_name hname = (let name = take 63 hname in
     case check_elem_alias name of
       Some (short, dir) \<Rightarrow> (short, dir, False)
     | None \<Rightarrow>
         let (_, name) = remove_suffix name '' Volume'';
             (_, name) = remove_suffix name '' Switch'';
             (p, pname) = remove_suffix name '' Playback'';
             (c, cname) = remove_suffix name '' Capture''
         in if p then (pname, 0, False)
            else if c then (cname, 1, False)
            else if strncmp_eq name ''Capture'' then (name, 1, False)
            else if strncmp_eq name ''Input'' then (name, 1, False)
            else (name, 0, True))"

section \<open>Adding and removing items\<close>

definition item_caps :: "int \<Rightarrow> int \<Rightarrow> bool \<Rightarrow> (u32 \<times> nat) option" where
  "item_caps ty dir gflag =
     (let caps = (if gflag then 7 else push_bit (nat dir) 1)
      in if ty = TYPE_BOOLEAN then Some (push_bit 4 caps, if dir \<noteq> 0 then ITEM_CSWITCH else ITEM_PSWITCH)
         else if ty = TYPE_INTEGER then Some (caps, if dir \<noteq> 0 then ITEM_CVOLUME else ITEM_PVOLUME)
         else if ty = TYPE_ENUMERATED then Some (push_bit (nat dir + 8) 1, ITEM_ENUM)
         else None)"

text \<open>The loop over the elements: an element with the name and a free slot, or the index for a new one.\<close>

primrec match_loop :: "'w mixer \<Rightarrow> string \<Rightarrow> nat \<Rightarrow> nat list \<Rightarrow> u32 \<Rightarrow> (nat option \<times> u32) option" where
  "match_loop m name ty [] index = Some (None, index)"
| "match_loop m name ty (p # ps) index = do {
     e \<leftarrow> m_elems m p;
     (if sid_name e = name then do {
        slot \<leftarrow> array_get (e_items e) ty;
        (let index = (if index \<le> sid_index e then sid_index e + 1 else index)
         in if slot \<noteq> None then match_loop m name ty ps index else Some (Some p, index)) }
      else match_loop m name ty ps index) }"

definition free_item :: "nat \<Rightarrow> 'w mstate \<Rightarrow> 'w mstate" where
  "free_item item = mix (\<lambda>m. m\<lparr>m_items := (m_items m)(item := None)\<rparr>)"

definition add_simple_element :: "'w mixer_env \<Rightarrow> nat \<Rightarrow> 'w mstate \<Rightarrow> (int \<times> 'w mstate) option" where
  "add_simple_element M hp s = do {
     h \<leftarrow> hheap s hp;
     (let (name, dir, gflag) = elem_name (id_name (he_id h)) in do {
     (err, info, s) \<leftarrow> snd_hctl_elem_info M hp zero_info s;
     (if err < 0 then Some (err, s)
      else case item_caps (info_type info) dir gflag of
        None \<Rightarrow> Some (0, s)
      | Some (caps, ty) \<Rightarrow> do {
          (item, s) \<leftarrow> new_selem_item M hp info s;
          (case item of
             None \<Rightarrow> Some (- ENOMEM, s)
           | Some item \<Rightarrow> do {
               (found, index) \<leftarrow> match_loop (hworld s) name ty (m_pelems (hworld s)) 0;
               (case found of
                  Some elem \<Rightarrow> do { s \<leftarrow> add_cap elem caps ty item s; Some (0, s) }
                | None \<Rightarrow>
                    (case new_mixer_elem M name index s of
                       (None, s) \<Rightarrow> Some (- ENOMEM, free_item item s)
                     | (Some elem, s) \<Rightarrow> do {
                         s \<leftarrow> add_cap elem caps ty item s;
                         add_mixer_elem M elem s })) }) }) }) }"

text \<open>The slots in order, the first one whose item belongs to \<open>hp\<close>.\<close>

primrec slot_of :: "(nat \<rightharpoonup> selem_item) \<Rightarrow> nat \<Rightarrow> nat option list \<Rightarrow> nat \<Rightarrow> (nat \<times> nat) option option" where
  "slot_of items hp [] i = Some None"
| "slot_of items hp (slot # slots) i =
     (case slot of
        None \<Rightarrow> slot_of items hp slots (Suc i)
      | Some item \<Rightarrow> do {
          it \<leftarrow> items item;
          (if item_helem it \<noteq> hp then slot_of items hp slots (Suc i) else Some (Some (i, item))) })"

definition remove_simple_element :: "nat \<Rightarrow> bool \<Rightarrow> 'w mstate \<Rightarrow> (int \<times> 'w mstate) option" where
  "remove_simple_element hp remove_mixer s = do {
     h \<leftarrow> hheap s hp;
     elem \<leftarrow> he_private h;
     e \<leftarrow> get_elem s elem;
     found \<leftarrow> slot_of (m_items (hworld s)) hp (e_items e) 0;
     (case found of
        None \<Rightarrow> Some (- ENOENT, s)
      | Some (i, item) \<Rightarrow>
          let items = (e_items e)[i := None];
              items = (if i = ITEM_PVOLUME \<and> e_caps e AND CAP_GVOLUME \<noteq> 0 then items[ITEM_CVOLUME := None]
                       else if i = ITEM_PSWITCH \<and> e_caps e AND CAP_GSWITCH \<noteq> 0 then items[ITEM_CSWITCH := None]
                       else items);
              s = free_item item (put_elem elem (e\<lparr>e_items := items\<rparr>) s)
          in if \<not> remove_mixer then Some (0, s)
             else if list_ex (\<lambda>x. x \<noteq> None) items then Some (0, s)
             else do {
               m \<leftarrow> remove_mixer_elem elem (hworld s);
               Some (0, s\<lparr>hworld := m\<rparr>) }) }"

end
