(* ===== verification/Mixer_Volume.thy ===== *)
theory Mixer_Volume
  imports Mixer
begin

text \<open>
  The values of mixer elements: the conversion between the range of the control and the range the user has
  set, reading and writing volumes, switches and enumerations, gains in dB, and the callbacks the mixer
  installs on the control handle.
\<close>

section \<open>Ranges\<close>

definition convert_from_user :: "vol_body \<Rightarrow> int \<Rightarrow> int option" where
  "convert_from_user str val =
     (if v_min str = v_raw_min str \<and> v_max str = v_raw_max str then Some val
      else if v_min str = v_max str then Some (v_raw_min str)
      else do {
        val \<leftarrow> long (val - v_min str);
        r \<leftarrow> long (v_raw_max str - v_raw_min str);
        val \<leftarrow> long (val * r);
        u \<leftarrow> long (v_max str - v_min str);
        long (val sdiv u + v_raw_min str) })"

definition convert_to_user :: "vol_body \<Rightarrow> int \<Rightarrow> int option" where
  "convert_to_user str val =
     (if v_min str = v_raw_min str \<and> v_max str = v_raw_max str then Some val
      else if v_raw_min str = v_raw_max str then Some (v_min str)
      else do {
        val \<leftarrow> long (val - v_raw_min str);
        u \<leftarrow> long (v_max str - v_min str);
        val \<leftarrow> long (val * u);
        r \<leftarrow> long (v_raw_max str - v_raw_min str);
        long (val sdiv r + v_min str) })"

abbreviation (input) USR_IDX :: "nat \<Rightarrow> nat" where "USR_IDX i \<equiv> 2 * i"
abbreviation (input) RAW_IDX :: "nat \<Rightarrow> nat" where "RAW_IDX i \<equiv> 2 * i + 1"

section \<open>Updates from the control\<close>

text \<open>The loop over the channels, for channel \<open>i\<close> with \<open>n\<close> to go; the first result is \<^verbatim>\<open>changed\<close>.\<close>

primrec update_selem_vol_item :: "nat \<Rightarrow> nat \<Rightarrow> vol_body \<Rightarrow> snd_ctl_elem_value \<Rightarrow> bool \<Rightarrow> (bool \<times> vol_body) option" where
  "update_selem_vol_item 0 i vol obj changed = Some (changed, vol)"
| "update_selem_vol_item (Suc n) i vol obj changed = do {
     val \<leftarrow> snd_ctl_elem_value_get_integer obj (of_nat i);
     old \<leftarrow> array_get (v_vol vol) (RAW_IDX i);
     vs \<leftarrow> array_set (v_vol vol) (RAW_IDX i) val;
     usr \<leftarrow> convert_to_user vol val;
     oldu \<leftarrow> array_get vs (USR_IDX i);
     vs \<leftarrow> array_set vs (USR_IDX i) usr;
     update_selem_vol_item n (Suc i) (vol\<lparr>v_vol := vs\<rparr>) obj (changed \<or> old \<noteq> val \<or> oldu \<noteq> usr) }"

definition update_selem_sw_item :: "nat \<Rightarrow> u32 \<Rightarrow> snd_ctl_elem_value \<Rightarrow> (bool \<times> u32) option" where
  "update_selem_sw_item n sw val = do {
     swbits \<leftarrow> read_switches val n;
     Some (sw \<noteq> swbits, swbits) }"

primrec update_selem_enum_item :: "nat \<Rightarrow> nat \<Rightarrow> u32 list \<Rightarrow> snd_ctl_elem_value \<Rightarrow> bool \<Rightarrow> (bool \<times> u32 list) option" where
  "update_selem_enum_item 0 i vs val changed = Some (changed, vs)"
| "update_selem_enum_item (Suc n) i vs val changed = do {
     item \<leftarrow> snd_ctl_elem_value_get_enumerated val (of_nat i);
     old \<leftarrow> array_get vs i;
     vs \<leftarrow> array_set vs i item;
     update_selem_enum_item n (Suc i) vs val (changed \<or> old \<noteq> item) }"

definition update_selem_item :: "'w mixer_env \<Rightarrow> nat \<Rightarrow> nat \<Rightarrow> 'w mstate \<Rightarrow> (int \<times> 'w mstate) option" where
  "update_selem_item M ty item s = do {
     it \<leftarrow> get_item s item;
     (err, val, s) \<leftarrow> snd_hctl_elem_read M (item_helem it) zero_value s;
     (if err < 0 then Some (0, s)
      else let n = unat (item_channels it) in
        (case item_body it of
           Vol vol \<Rightarrow> (if ty = ITEM_PVOLUME \<or> ty = ITEM_CVOLUME then do {
               (changed, vol) \<leftarrow> update_selem_vol_item n 0 vol val False;
               Some (of_bool changed, put_item item (it\<lparr>item_body := Vol vol\<rparr>) s) } else None)
         | Sw sw \<Rightarrow> (if ty = ITEM_PSWITCH \<or> ty = ITEM_CSWITCH then do {
               (changed, sw) \<leftarrow> update_selem_sw_item n sw val;
               Some (of_bool changed, put_item item (it\<lparr>item_body := Sw sw\<rparr>) s) } else None)
         | Enum k vs \<Rightarrow> (if ty = ITEM_ENUM then do {
               (changed, vs) \<leftarrow> update_selem_enum_item n 0 vs val False;
               Some (of_bool changed, put_item item (it\<lparr>item_body := Enum k vs\<rparr>) s) } else None))) }"

definition update_simple_element :: "'w mixer_env \<Rightarrow> nat \<Rightarrow> nat \<Rightarrow> 'w mstate \<Rightarrow> (int \<times> 'w mstate) option" where
  "update_simple_element M hp elem s = do {
     e \<leftarrow> get_elem s elem;
     found \<leftarrow> slot_of (m_items (hworld s)) hp (e_items e) 0;
     (case found of None \<Rightarrow> Some (0, s) | Some (i, item) \<Rightarrow> update_selem_item M i item s) }"

section \<open>The callbacks on the control handle\<close>

definition info_event :: "'w mixer_env \<Rightarrow> nat \<Rightarrow> nat \<Rightarrow> 'w mstate \<Rightarrow> (int \<times> 'w mstate) option" where
  "info_event M helem elem s = do {
     (_, s) \<leftarrow> remove_simple_element helem False s;
     (_, s) \<leftarrow> add_simple_element M helem s;
     (err, s) \<leftarrow> snd_mixer_elem_throw_event M elem MASK_INFO s;
     (if err < 0 then Some (err, s)
      else do { m \<leftarrow> snd_mixer_sort M (hworld s); Some (0, s\<lparr>hworld := m\<rparr>) }) }"

definition value_event :: "'w mixer_env \<Rightarrow> nat \<Rightarrow> nat \<Rightarrow> 'w mstate \<Rightarrow> (int \<times> 'w mstate) option" where
  "value_event M helem elem s = do {
     (err, s) \<leftarrow> update_simple_element M helem elem s;
     (if err < 0 then Some (err, s)
      else if err \<noteq> 0 then do {
        (err, s) \<leftarrow> snd_mixer_elem_throw_event M elem MASK_VALUE s;
        Some (if err < 0 then err else 0, s) }
      else Some (0, s)) }"

definition remove_event :: "'w mixer_env \<Rightarrow> nat \<Rightarrow> nat \<Rightarrow> 'w mstate \<Rightarrow> (int \<times> 'w mstate) option" where
  "remove_event M helem elem s = do {
     (err, s) \<leftarrow> snd_mixer_elem_throw_event M elem MASK_REMOVE s;
     (if err < 0 then Some (err, s)
      else do { (_, s) \<leftarrow> remove_simple_element helem True s; Some (0, s) }) }"

definition hctl_elem_event_handler :: "'w mixer_env \<Rightarrow> nat \<Rightarrow> u32 \<Rightarrow> 'w mstate \<Rightarrow> (int \<times> 'w mstate) option" where
  "hctl_elem_event_handler M helem evmask s = do {
     h \<leftarrow> hheap s helem;
     (case he_private h of
        None \<Rightarrow> Some (0, s)
      | Some elem \<Rightarrow>
          if evmask = MASK_REMOVE then remove_event M helem elem s
          else do {
            (err, s) \<leftarrow> (if evmask AND MASK_INFO \<noteq> 0 then info_event M helem elem s else Some (0, s));
            (if err < 0 then Some (err, s)
             else if evmask AND MASK_VALUE \<noteq> 0 then value_event M helem elem s
             else Some (0, s)) }) }"

text \<open>\<open>f\<close> is the address of \<^verbatim>\<open>hctl_elem_event_handler\<close>.\<close>

definition hctl_event_handler :: "'w mixer_env \<Rightarrow> nat \<Rightarrow> u32 \<Rightarrow> nat \<Rightarrow> 'w mstate \<Rightarrow> (int \<times> 'w mstate) option" where
  "hctl_event_handler M f evmask elem s = do {
     h \<leftarrow> hheap s elem;
     (if id_iface (he_id h) \<noteq> 2 then Some (0, s)
      else if evmask AND MASK_ADD \<noteq> 0
      then add_simple_element M elem (s\<lparr>hheap := (hheap s)(elem \<mapsto> h\<lparr>he_callback := Some f\<rparr>)\<rparr>)
      else Some (0, s)) }"

section \<open>Volumes\<close>

text \<open>An item of a slot at the type a volume function expects.\<close>

definition vol_item :: "'w mstate \<Rightarrow> nat \<Rightarrow> (selem_item \<times> vol_body) option" where
  "vol_item s item = do {
     it \<leftarrow> get_item s item;
     (case item_body it of Vol vol \<Rightarrow> Some (it, vol) | _ \<Rightarrow> None) }"

definition put_vol :: "nat \<Rightarrow> selem_item \<Rightarrow> vol_body \<Rightarrow> 'w mstate \<Rightarrow> 'w mstate" where
  "put_vol item it vol = put_item item (it\<lparr>item_body := Vol vol\<rparr>)"

text \<open>Read, change one entry, write: the end of the update functions.\<close>

definition read_modify_write :: "'w mixer_env \<Rightarrow> selem_item \<Rightarrow> (snd_ctl_elem_value \<Rightarrow> snd_ctl_elem_value option) \<Rightarrow> 'w mstate \<Rightarrow>
    (int \<times> 'w mstate) option" where
  "read_modify_write M it f s = do {
     (err, ctl, s) \<leftarrow> snd_hctl_elem_read M (item_helem it) zero_value s;
     (if err < 0 then Some (err, s)
      else do {
        ctl \<leftarrow> f ctl;
        snd_hctl_elem_write M (item_helem it) ctl s }) }"

definition snd_selem_update_volume :: "'w mixer_env \<Rightarrow> nat option \<Rightarrow> nat \<Rightarrow> int \<Rightarrow> 'w mstate \<Rightarrow> (int \<times> 'w mstate) option" where
  "snd_selem_update_volume M slot channel val s =
     (case slot of
        None \<Rightarrow> Some (- EINVAL, s)
      | Some item \<Rightarrow> do {
          (it, vol) \<leftarrow> vol_item s item;
          (if val < v_min vol \<or> val > v_max vol then Some (0, s)
           else do {
             old \<leftarrow> array_get (v_vol vol) (USR_IDX channel);
             (if val = old then Some (0, s)
              else do {
                vs \<leftarrow> array_set (v_vol vol) (USR_IDX channel) val;
                raw \<leftarrow> convert_from_user vol val;
                oldr \<leftarrow> array_get vs (RAW_IDX channel);
                (if raw = oldr then Some (0, put_vol item it (vol\<lparr>v_vol := vs\<rparr>) s)
                 else do {
                   vs \<leftarrow> array_set vs (RAW_IDX channel) raw;
                   read_modify_write M it (\<lambda>ctl. snd_ctl_elem_value_set_integer ctl (of_nat channel) raw)
                     (put_vol item it (vol\<lparr>v_vol := vs\<rparr>) s) }) }) }) })"

primrec update_volume_loop :: "'w mixer_env \<Rightarrow> nat \<Rightarrow> int \<Rightarrow> nat \<Rightarrow> nat \<Rightarrow> 'w mstate \<Rightarrow> (int \<times> 'w mstate) option" where
  "update_volume_loop M item val 0 i s = Some (0, s)"
| "update_volume_loop M item val (Suc n) i s = do {
     (err, s) \<leftarrow> snd_selem_update_volume M (Some item) i val s;
     (if err < 0 then Some (err, s) else update_volume_loop M item val n (Suc i) s) }"

definition snd_selem_update_volume_all :: "'w mixer_env \<Rightarrow> nat option \<Rightarrow> int \<Rightarrow> 'w mstate \<Rightarrow> (int \<times> 'w mstate) option" where
  "snd_selem_update_volume_all M slot val s =
     (case slot of
        None \<Rightarrow> Some (- EINVAL, s)
      | Some item \<Rightarrow> do {
          it \<leftarrow> get_item s item;
          update_volume_loop M item val (unat (item_channels it)) 0 s })"

primrec rescale_loop :: "nat \<Rightarrow> nat \<Rightarrow> vol_body \<Rightarrow> vol_body option" where
  "rescale_loop 0 i vol = Some vol"
| "rescale_loop (Suc n) i vol = do {
     raw \<leftarrow> array_get (v_vol vol) (RAW_IDX i);
     usr \<leftarrow> convert_to_user vol raw;
     vs \<leftarrow> array_set (v_vol vol) (USR_IDX i) usr;
     rescale_loop n (Suc i) (vol\<lparr>v_vol := vs\<rparr>) }"

text \<open>\<^verbatim>\<open>elem->items[type]\<close>.\<close>

definition elem_slot :: "'w mstate \<Rightarrow> nat \<Rightarrow> nat \<Rightarrow> nat option option" where
  "elem_slot s elem ty = do { e \<leftarrow> get_elem s elem; array_get (e_items e) ty }"

definition set_volume_range :: "nat \<Rightarrow> nat \<Rightarrow> int \<Rightarrow> int \<Rightarrow> 'w mstate \<Rightarrow> (int \<times> 'w mstate) option" where
  "set_volume_range elem ty mn mx s = do {
     sl \<leftarrow> elem_slot s elem ty;
     (case sl of
        None \<Rightarrow> Some (- EINVAL, s)
      | Some item \<Rightarrow> do {
          (it, vol) \<leftarrow> vol_item s item;
          vol \<leftarrow> rescale_loop (unat (item_channels it)) 0 (vol\<lparr>v_min := mn, v_max := mx\<rparr>);
          Some (0, put_vol item it vol s) }) }"

definition snd_mixer_selem_set_playback_volume_range :: "nat \<Rightarrow> int \<Rightarrow> int \<Rightarrow> 'w mstate \<Rightarrow> (int \<times> 'w mstate) option" where
  "snd_mixer_selem_set_playback_volume_range elem = set_volume_range elem ITEM_PVOLUME"

definition snd_mixer_selem_set_capture_volume_range :: "nat \<Rightarrow> int \<Rightarrow> int \<Rightarrow> 'w mstate \<Rightarrow> (int \<times> 'w mstate) option" where
  "snd_mixer_selem_set_capture_volume_range elem mn mx s = do {
     e \<leftarrow> get_elem s elem;
     set_volume_range elem (if e_caps e AND CAP_GVOLUME \<noteq> 0 then ITEM_PVOLUME else ITEM_CVOLUME) mn mx s }"

section \<open>Switches\<close>

definition sw_item :: "'w mstate \<Rightarrow> nat \<Rightarrow> (selem_item \<times> u32) option" where
  "sw_item s item = do {
     it \<leftarrow> get_item s item;
     (case item_body it of Sw sw \<Rightarrow> Some (it, sw) | _ \<Rightarrow> None) }"

definition set_bit_to :: "u32 \<Rightarrow> nat \<Rightarrow> bool \<Rightarrow> u32" where
  "set_bit_to sw channel b = (if b then sw OR push_bit channel 1 else sw AND NOT (push_bit channel 1))"

definition update_switch :: "'w mixer_env \<Rightarrow> nat \<Rightarrow> nat \<Rightarrow> nat \<Rightarrow> int \<Rightarrow> 'w mstate \<Rightarrow> (int \<times> 'w mstate) option" where
  "update_switch M elem ty channel val s = do {
     sl \<leftarrow> elem_slot s elem ty;
     (case sl of
        None \<Rightarrow> Some (- EINVAL, s)
      | Some item \<Rightarrow> do {
          (it, old) \<leftarrow> sw_item s item;
          (if 32 \<le> channel then None
           else let sw = set_bit_to old channel (val \<noteq> 0)
                in if old = sw then Some (0, s)
                   else read_modify_write M it (\<lambda>ctl. snd_ctl_elem_value_set_integer ctl (of_nat channel) (of_bool (val \<noteq> 0)))
                     (put_item item (it\<lparr>item_body := Sw sw\<rparr>) s)) }) }"

definition snd_mixer_selem_set_playback_switch :: "'w mixer_env \<Rightarrow> nat \<Rightarrow> nat \<Rightarrow> int \<Rightarrow> 'w mstate \<Rightarrow> (int \<times> 'w mstate) option" where
  "snd_mixer_selem_set_playback_switch M elem channel val = update_switch M elem ITEM_PSWITCH channel val"

primrec update_switch_loop :: "'w mixer_env \<Rightarrow> nat \<Rightarrow> nat \<Rightarrow> int \<Rightarrow> nat \<Rightarrow> nat \<Rightarrow> 'w mstate \<Rightarrow> (int \<times> 'w mstate) option" where
  "update_switch_loop M elem ty val 0 i s = Some (0, s)"
| "update_switch_loop M elem ty val (Suc n) i s = do {
     (err, s) \<leftarrow> update_switch M elem ty i val s;
     (if err < 0 then Some (err, s) else update_switch_loop M elem ty val n (Suc i) s) }"

definition update_switch_all :: "'w mixer_env \<Rightarrow> nat \<Rightarrow> nat \<Rightarrow> int \<Rightarrow> 'w mstate \<Rightarrow> (int \<times> 'w mstate) option" where
  "update_switch_all M elem ty val s = do {
     sl \<leftarrow> elem_slot s elem ty;
     (case sl of
        None \<Rightarrow> Some (- EINVAL, s)
      | Some item \<Rightarrow> do {
          it \<leftarrow> get_item s item;
          update_switch_loop M elem ty val (unat (item_channels it)) 0 s }) }"

definition snd_mixer_selem_set_playback_switch_all :: "'w mixer_env \<Rightarrow> nat \<Rightarrow> int \<Rightarrow> 'w mstate \<Rightarrow> (int \<times> 'w mstate) option" where
  "snd_mixer_selem_set_playback_switch_all M elem val = update_switch_all M elem ITEM_PSWITCH val"

definition capture_switch :: "mixer_elem \<Rightarrow> nat" where
  "capture_switch e = (if e_caps e AND CAP_GSWITCH \<noteq> 0 then ITEM_PSWITCH else ITEM_CSWITCH)"

definition snd_mixer_selem_set_capture_switch :: "'w mixer_env \<Rightarrow> nat \<Rightarrow> nat \<Rightarrow> int \<Rightarrow> 'w mstate \<Rightarrow> (int \<times> 'w mstate) option" where
  "snd_mixer_selem_set_capture_switch M elem channel val s = do {
     e \<leftarrow> get_elem s elem;
     update_switch M elem (capture_switch e) channel val s }"

definition snd_mixer_selem_set_capture_switch_all :: "'w mixer_env \<Rightarrow> nat \<Rightarrow> int \<Rightarrow> 'w mstate \<Rightarrow> (int \<times> 'w mstate) option" where
  "snd_mixer_selem_set_capture_switch_all M elem val s = do {
     e \<leftarrow> get_elem s elem;
     update_switch_all M elem (capture_switch e) val s }"

section \<open>Enumerations\<close>

definition enum_item :: "'w mstate \<Rightarrow> nat \<Rightarrow> (selem_item \<times> u32 \<times> u32 list) option" where
  "enum_item s item = do {
     it \<leftarrow> get_item s item;
     (case item_body it of Enum n vs \<Rightarrow> Some (it, n, vs) | _ \<Rightarrow> None) }"

definition snd_mixer_selem_set_enum_item :: "'w mixer_env \<Rightarrow> nat \<Rightarrow> nat \<Rightarrow> u32 \<Rightarrow> 'w mstate \<Rightarrow> (int \<times> 'w mstate) option" where
  "snd_mixer_selem_set_enum_item M elem channel val s = do {
     sl \<leftarrow> elem_slot s elem ITEM_ENUM;
     (case sl of
        None \<Rightarrow> Some (- EINVAL, s)
      | Some item \<Rightarrow> do {
          (it, n, vs) \<leftarrow> enum_item s item;
          old \<leftarrow> array_get vs channel;
          (if old = val then Some (0, s)
           else do {
             vs \<leftarrow> array_set vs channel val;
             read_modify_write M it (\<lambda>ctl. snd_ctl_elem_value_set_enumerated ctl (of_nat channel) val)
               (put_item item (it\<lparr>item_body := Enum n vs\<rparr>) s) }) }) }"

text \<open>The name of an item, cut to \<open>maxlen - 1\<close> characters; a \<open>maxlen\<close> of 0 writes before the buffer.\<close>

definition snd_mixer_selem_get_enum_item_name :: "'w mixer_env \<Rightarrow> nat \<Rightarrow> u32 \<Rightarrow> nat \<Rightarrow> 'w mstate \<Rightarrow> (int \<times> string option \<times> 'w mstate) option" where
  "snd_mixer_selem_get_enum_item_name M elem idx maxlen s = do {
     sl \<leftarrow> elem_slot s elem ITEM_ENUM;
     (case sl of
        None \<Rightarrow> Some (- EINVAL, None, s)
      | Some item \<Rightarrow> do {
          (it, n, _) \<leftarrow> enum_item s item;
          (if idx \<ge> n then Some (- EINVAL, None, s)
           else do {
             info \<leftarrow> snd_ctl_elem_info_set_item zero_info idx;
             (err, info, s) \<leftarrow> snd_hctl_elem_info M (item_helem it) info s;
             (if err < 0 then Some (err, None, s)
              else if maxlen = 0 then None
              else Some (0, Some (take (maxlen - 1) (snd_ctl_elem_info_get_item_name info)), s)) }) }) }"


section \<open>Gains\<close>

fun words_of :: "u8 list \<Rightarrow> u32 list" where
  "words_of (a # b # c # d # bs) = of_nat (le_nat [a, b, c, d]) # words_of bs"
| "words_of _ = []"

text \<open>The label \<^verbatim>\<open>error\<close>.\<close>

definition db_failed :: "nat \<Rightarrow> selem_item \<Rightarrow> vol_body \<Rightarrow> 'w mstate \<Rightarrow> (int \<times> 'w mstate) option" where
  "db_failed item it vol s = Some (- EINVAL, put_vol item it (vol\<lparr>v_db := DbInvalid\<rparr>) s)"

text \<open>
  From \<^verbatim>\<open>snd_hctl_elem_tlv_read\<close> on.  \<^verbatim>\<open>snd_tlv_parse_dB_info\<close> moves \<^verbatim>\<open>tlv\<close> to the entry it finds, or sets it to
  null; \<^verbatim>\<open>free(tlv)\<close> is undefined when it then points into the middle of the buffer.
\<close>

definition read_db_info :: "'w mixer_env \<Rightarrow> nat \<Rightarrow> selem_item \<Rightarrow> vol_body \<Rightarrow> 'w mstate \<Rightarrow> (int \<times> 'w mstate) option" where
  "read_db_info M item it vol s = do {
     e \<leftarrow> hheap s (item_helem it);
     (err, tlv, w) \<leftarrow> snd_ctl_elem_tlv_read (mx_ctl M) (mx_protocol M) (mx_info0 M) (he_id e) (mx_buffer M) 4096 (m_rest (hworld s));
     (let s = set_rest w s
      in if err < 0 then db_failed item it vol s
         else do {
           (sz, q) \<leftarrow> snd_tlv_parse_dB_info (words_of tlv) 0 4096;
           (if sz \<le> 0 then if q = None \<or> q = Some 0 then db_failed item it vol s else None
            else do {
              q \<leftarrow> q;
              (case k_malloc (mx_ctl M) (nat sz) (m_rest (hworld s)) of (ok, w) \<Rightarrow>
                 let s = set_rest w s
                 in if q \<noteq> 0 then None
                    else if \<not> ok then db_failed item it vol s
                    else Some (0, put_vol item it (vol\<lparr>v_db := DbData (words_of (take (nat sz) (drop (4 * q) tlv)))\<rparr>) s)) }) }) }"

definition init_db_info :: "'w mixer_env \<Rightarrow> nat option \<Rightarrow> 'w mstate \<Rightarrow> (int \<times> 'w mstate) option" where
  "init_db_info M slot s =
     (case slot of
        None \<Rightarrow> Some (- EINVAL, s)
      | Some item \<Rightarrow> do {
          (it, vol) \<leftarrow> vol_item s item;
          (case v_db vol of
             DbInvalid \<Rightarrow> Some (- EINVAL, s)
           | DbData _ \<Rightarrow> Some (0, s)
           | DbNull \<Rightarrow> do {
               (err, info, s) \<leftarrow> snd_hctl_elem_info M (item_helem it) zero_info s;
               (if err < 0 \<or> snd_ctl_elem_info_is_tlv_readable info = 0 then db_failed item it vol s
                else case k_malloc (mx_ctl M) 4096 (m_rest (hworld s)) of
                  (False, w) \<Rightarrow> db_failed item it vol (set_rest w s)
                | (True, w) \<Rightarrow> read_db_info M item it vol (set_rest w s)) }) })"

text \<open>The item and its dB data, or the error.\<close>

definition with_db :: "'w mixer_env \<Rightarrow> nat option \<Rightarrow> 'w mstate \<Rightarrow>
    (nat \<Rightarrow> selem_item \<Rightarrow> vol_body \<Rightarrow> u32 list \<Rightarrow> 'w mstate \<Rightarrow> (int \<times> 'b \<times> 'w mstate) option) \<Rightarrow> 'b \<Rightarrow> (int \<times> 'b \<times> 'w mstate) option" where
  "with_db M slot s f none = do {
     (err, s) \<leftarrow> init_db_info M slot s;
     (if err < 0 then Some (- EINVAL, none, s)
      else do {
        item \<leftarrow> slot;
        (it, vol) \<leftarrow> vol_item s item;
        (case v_db vol of DbData ws \<Rightarrow> f item it vol ws s | _ \<Rightarrow> None) }) }"

definition pick_channel :: "selem_item \<Rightarrow> nat \<Rightarrow> nat" where
  "pick_channel it channel = (if channel \<ge> unat (item_channels it) then 0 else channel)"

definition snd_selem_vol_get_dB :: "'w mixer_env \<Rightarrow> nat option \<Rightarrow> nat \<Rightarrow> 'w mstate \<Rightarrow> (int \<times> int option \<times> 'w mstate) option" where
  "snd_selem_vol_get_dB M slot channel s = with_db M slot s (\<lambda>item it vol ws s. do {
     raw \<leftarrow> array_get (v_vol vol) (RAW_IDX (pick_channel it channel));
     (err, g) \<leftarrow> snd_tlv_convert_to_dB ws 0 (v_raw_min vol) (v_raw_max vol) raw;
     Some (err, g, s) }) None"

definition snd_selem_ask_vol_dB :: "'w mixer_env \<Rightarrow> nat option \<Rightarrow> int \<Rightarrow> 'w mstate \<Rightarrow> (int \<times> int option \<times> 'w mstate) option" where
  "snd_selem_ask_vol_dB M slot val s = with_db M slot s (\<lambda>item it vol ws s. do {
     (err, g) \<leftarrow> snd_tlv_convert_to_dB ws 0 (v_raw_min vol) (v_raw_max vol) val;
     Some (err, g, s) }) None"

definition snd_selem_ask_dB_vol :: "'w mixer_env \<Rightarrow> nat option \<Rightarrow> int \<Rightarrow> int \<Rightarrow> 'w mstate \<Rightarrow> (int \<times> int option \<times> 'w mstate) option" where
  "snd_selem_ask_dB_vol M slot g xdir s = with_db M slot s (\<lambda>item it vol ws s. do {
     (err, v) \<leftarrow> snd_tlv_convert_from_dB ws 0 (v_raw_min vol) (v_raw_max vol) g xdir;
     Some (err, v, s) }) None"

definition snd_selem_vol_get_dB_range :: "'w mixer_env \<Rightarrow> nat option \<Rightarrow> int option \<Rightarrow> int option \<Rightarrow> 'w mstate \<Rightarrow>
    (int \<times> (int option \<times> int option) \<times> 'w mstate) option" where
  "snd_selem_vol_get_dB_range M slot mn mx s = with_db M slot s (\<lambda>item it vol ws s. do {
     (err, mn, mx) \<leftarrow> snd_tlv_get_dB_range ws 0 (v_raw_min vol) (v_raw_max vol) mn mx;
     Some (err, (mn, mx), s) }) (mn, mx)"

definition snd_selem_vol_set_dB :: "'w mixer_env \<Rightarrow> nat option \<Rightarrow> nat \<Rightarrow> int \<Rightarrow> int \<Rightarrow> 'w mstate \<Rightarrow> (int \<times> 'w mstate) option" where
  "snd_selem_vol_set_dB M slot channel g xdir s = do {
     (err, _, s) \<leftarrow> with_db M slot s (\<lambda>item it vol ws s. do {
       (err, v) \<leftarrow> snd_tlv_convert_from_dB ws 0 (v_raw_min vol) (v_raw_max vol) g xdir;
       (if err < 0 then Some (err, (), s)
        else do {
          v \<leftarrow> v;
          usr \<leftarrow> convert_to_user vol v;
          (err, s) \<leftarrow> snd_selem_update_volume M (Some item) (pick_channel it channel) usr s;
          Some (err, (), s) }) }) ();
     Some (err, s) }"

primrec set_dB_loop :: "'w mixer_env \<Rightarrow> nat \<Rightarrow> int \<Rightarrow> int \<Rightarrow> nat \<Rightarrow> nat \<Rightarrow> 'w mstate \<Rightarrow> (int \<times> 'w mstate) option" where
  "set_dB_loop M item g xdir 0 i s = Some (0, s)"
| "set_dB_loop M item g xdir (Suc n) i s = do {
     (err, s) \<leftarrow> snd_selem_vol_set_dB M (Some item) i g xdir s;
     (if err < 0 then Some (err, s) else set_dB_loop M item g xdir n (Suc i) s) }"

definition snd_selem_vol_set_dB_all :: "'w mixer_env \<Rightarrow> nat option \<Rightarrow> int \<Rightarrow> int \<Rightarrow> 'w mstate \<Rightarrow> (int \<times> 'w mstate) option" where
  "snd_selem_vol_set_dB_all M slot g xdir s =
     (case slot of
        None \<Rightarrow> Some (- EINVAL, s)
      | Some item \<Rightarrow> do {
          it \<leftarrow> get_item s item;
          set_dB_loop M item g xdir (unat (item_channels it)) 0 s })"


section \<open>Accessors\<close>

definition snd_mixer_get_count :: "'w mixer \<Rightarrow> u32" where
  "snd_mixer_get_count m = of_nat (length (m_pelems m))"

definition snd_mixer_selem_get_id :: "mixer_elem \<Rightarrow> string \<times> u32" where
  "snd_mixer_selem_get_id e = (sid_name e, sid_index e)"

definition snd_mixer_selem_get_name :: "mixer_elem \<Rightarrow> string" where
  "snd_mixer_selem_get_name e = sid_name e"

definition snd_mixer_selem_get_index :: "mixer_elem \<Rightarrow> u32" where
  "snd_mixer_selem_get_index e = sid_index e"

definition snd_mixer_selem_has_common_volume :: "mixer_elem \<Rightarrow> int" where
  "snd_mixer_selem_has_common_volume e = of_bool (e_caps e AND CAP_GVOLUME \<noteq> 0)"

definition snd_mixer_selem_has_common_switch :: "mixer_elem \<Rightarrow> int" where
  "snd_mixer_selem_has_common_switch e = of_bool (e_caps e AND CAP_GSWITCH \<noteq> 0)"

definition snd_mixer_selem_is_active :: "mixer_elem \<Rightarrow> int" where
  "snd_mixer_selem_is_active e = of_bool (e_inactive e = 0)"

definition snd_mixer_selem_is_playback_mono :: "mixer_elem \<Rightarrow> int option" where
  "snd_mixer_selem_is_playback_mono e = map_option (\<lambda>c. of_bool (c = 1)) (array_get (e_channels e) 0)"

definition snd_mixer_selem_has_playback_channel :: "mixer_elem \<Rightarrow> u32 \<Rightarrow> int option" where
  "snd_mixer_selem_has_playback_channel e channel = map_option (\<lambda>c. of_bool (channel < c)) (array_get (e_channels e) 0)"

definition snd_mixer_selem_is_capture_mono :: "mixer_elem \<Rightarrow> int option" where
  "snd_mixer_selem_is_capture_mono e = map_option (\<lambda>c. of_bool (c = 1)) (array_get (e_channels e) 1)"

definition snd_mixer_selem_has_capture_channel :: "mixer_elem \<Rightarrow> u32 \<Rightarrow> int option" where
  "snd_mixer_selem_has_capture_channel e channel = map_option (\<lambda>c. of_bool (channel < c)) (array_get (e_channels e) 1)"

definition snd_mixer_selem_has_joined :: "'w mstate \<Rightarrow> mixer_elem \<Rightarrow> nat \<Rightarrow> nat \<Rightarrow> int option" where
  "snd_mixer_selem_has_joined s e ty str = do {
     sl \<leftarrow> array_get (e_items e) ty;
     (case sl of
        None \<Rightarrow> Some 0
      | Some item \<Rightarrow> do {
          it \<leftarrow> get_item s item;
          c \<leftarrow> array_get (e_channels e) str;
          Some (of_bool (item_channels it < c)) }) }"

definition snd_mixer_selem_has_playback_volume :: "mixer_elem \<Rightarrow> int option" where
  "snd_mixer_selem_has_playback_volume e = map_option (\<lambda>sl. of_bool (sl \<noteq> None)) (array_get (e_items e) ITEM_PVOLUME)"

definition snd_mixer_selem_has_playback_volume_joined :: "'w mstate \<Rightarrow> mixer_elem \<Rightarrow> int option" where
  "snd_mixer_selem_has_playback_volume_joined s e = snd_mixer_selem_has_joined s e ITEM_PVOLUME 0"

definition snd_mixer_selem_has_playback_switch :: "mixer_elem \<Rightarrow> int option" where
  "snd_mixer_selem_has_playback_switch e = map_option (\<lambda>sl. of_bool (sl \<noteq> None)) (array_get (e_items e) ITEM_PSWITCH)"

definition snd_mixer_selem_has_playback_switch_joined :: "'w mstate \<Rightarrow> mixer_elem \<Rightarrow> int option" where
  "snd_mixer_selem_has_playback_switch_joined s e = snd_mixer_selem_has_joined s e ITEM_PSWITCH 0"

definition snd_mixer_selem_has_capture_volume :: "mixer_elem \<Rightarrow> int option" where
  "snd_mixer_selem_has_capture_volume e = map_option (\<lambda>sl. of_bool (sl \<noteq> None)) (array_get (e_items e) ITEM_CVOLUME)"

definition snd_mixer_selem_has_capture_volume_joined :: "'w mstate \<Rightarrow> mixer_elem \<Rightarrow> int option" where
  "snd_mixer_selem_has_capture_volume_joined s e = snd_mixer_selem_has_joined s e ITEM_CVOLUME 1"

definition snd_mixer_selem_has_capture_switch :: "mixer_elem \<Rightarrow> int option" where
  "snd_mixer_selem_has_capture_switch e = map_option (\<lambda>sl. of_bool (sl \<noteq> None)) (array_get (e_items e) ITEM_CSWITCH)"

definition snd_mixer_selem_has_capture_switch_joined :: "'w mstate \<Rightarrow> mixer_elem \<Rightarrow> int option" where
  "snd_mixer_selem_has_capture_switch_joined s e = snd_mixer_selem_has_joined s e ITEM_CSWITCH 1"

definition snd_mixer_selem_has_capture_switch_exclusive :: "mixer_elem \<Rightarrow> int" where
  "snd_mixer_selem_has_capture_switch_exclusive e = 0"

definition snd_mixer_selem_get_capture_group :: "mixer_elem \<Rightarrow> int" where
  "snd_mixer_selem_get_capture_group e = - EINVAL"

definition snd_mixer_selem_get_volume_range :: "'w mstate \<Rightarrow> mixer_elem \<Rightarrow> nat \<Rightarrow> (int \<times> (int \<times> int) option) option" where
  "snd_mixer_selem_get_volume_range s e ty = do {
     sl \<leftarrow> array_get (e_items e) ty;
     (case sl of
        None \<Rightarrow> Some (- EINVAL, None)
      | Some item \<Rightarrow> do { (_, vol) \<leftarrow> vol_item s item; Some (0, Some (v_min vol, v_max vol)) }) }"

definition snd_mixer_selem_get_volume :: "'w mstate \<Rightarrow> mixer_elem \<Rightarrow> nat \<Rightarrow> nat \<Rightarrow> (int \<times> int option) option" where
  "snd_mixer_selem_get_volume s e ty channel = do {
     sl \<leftarrow> array_get (e_items e) ty;
     (case sl of
        None \<Rightarrow> Some (- EINVAL, None)
      | Some item \<Rightarrow> do {
          (it, vol) \<leftarrow> vol_item s item;
          v \<leftarrow> array_get (v_vol vol) (USR_IDX (pick_channel it channel));
          Some (0, Some v) }) }"

definition snd_mixer_selem_get_switch :: "'w mstate \<Rightarrow> mixer_elem \<Rightarrow> nat \<Rightarrow> nat \<Rightarrow> (int \<times> int option) option" where
  "snd_mixer_selem_get_switch s e ty channel = do {
     sl \<leftarrow> array_get (e_items e) ty;
     (case sl of
        None \<Rightarrow> Some (- EINVAL, None)
      | Some item \<Rightarrow> do {
          (it, sw) \<leftarrow> sw_item s item;
          (let c = pick_channel it channel
           in if 32 \<le> c then None else Some (0, Some (of_bool (sw AND push_bit c 1 \<noteq> 0)))) }) }"

definition snd_mixer_selem_get_playback_volume_range :: "'w mstate \<Rightarrow> mixer_elem \<Rightarrow> (int \<times> (int \<times> int) option) option" where
  "snd_mixer_selem_get_playback_volume_range s e = snd_mixer_selem_get_volume_range s e ITEM_PVOLUME"

definition snd_mixer_selem_get_playback_volume :: "'w mstate \<Rightarrow> mixer_elem \<Rightarrow> nat \<Rightarrow> (int \<times> int option) option" where
  "snd_mixer_selem_get_playback_volume s e channel = snd_mixer_selem_get_volume s e ITEM_PVOLUME channel"

definition snd_mixer_selem_get_playback_switch :: "'w mstate \<Rightarrow> mixer_elem \<Rightarrow> nat \<Rightarrow> (int \<times> int option) option" where
  "snd_mixer_selem_get_playback_switch s e channel = snd_mixer_selem_get_switch s e ITEM_PSWITCH channel"

definition snd_mixer_selem_set_playback_volume :: "'w mixer_env \<Rightarrow> nat \<Rightarrow> nat \<Rightarrow> int \<Rightarrow> 'w mstate \<Rightarrow> (int \<times> 'w mstate) option" where
  "snd_mixer_selem_set_playback_volume M elem channel val s = do { sl \<leftarrow> elem_slot s elem ITEM_PVOLUME; snd_selem_update_volume M sl channel val s }"

definition snd_mixer_selem_set_playback_volume_all :: "'w mixer_env \<Rightarrow> nat \<Rightarrow> int \<Rightarrow> 'w mstate \<Rightarrow> (int \<times> 'w mstate) option" where
  "snd_mixer_selem_set_playback_volume_all M elem val s = do { sl \<leftarrow> elem_slot s elem ITEM_PVOLUME; snd_selem_update_volume_all M sl val s }"

definition snd_mixer_selem_get_playback_dB_range :: "'w mixer_env \<Rightarrow> nat \<Rightarrow> int option \<Rightarrow> int option \<Rightarrow> 'w mstate \<Rightarrow> (int \<times> (int option \<times> int option) \<times> 'w mstate) option" where
  "snd_mixer_selem_get_playback_dB_range M elem mn mx s = do { sl \<leftarrow> elem_slot s elem ITEM_PVOLUME; snd_selem_vol_get_dB_range M sl mn mx s }"

definition snd_mixer_selem_get_playback_dB :: "'w mixer_env \<Rightarrow> nat \<Rightarrow> nat \<Rightarrow> 'w mstate \<Rightarrow> (int \<times> int option \<times> 'w mstate) option" where
  "snd_mixer_selem_get_playback_dB M elem channel s = do { sl \<leftarrow> elem_slot s elem ITEM_PVOLUME; snd_selem_vol_get_dB M sl channel s }"

definition snd_mixer_selem_ask_playback_vol_dB :: "'w mixer_env \<Rightarrow> nat \<Rightarrow> int \<Rightarrow> 'w mstate \<Rightarrow> (int \<times> int option \<times> 'w mstate) option" where
  "snd_mixer_selem_ask_playback_vol_dB M elem val s = do { sl \<leftarrow> elem_slot s elem ITEM_PVOLUME; snd_selem_ask_vol_dB M sl val s }"

definition snd_mixer_selem_ask_playback_dB_vol :: "'w mixer_env \<Rightarrow> nat \<Rightarrow> int \<Rightarrow> int \<Rightarrow> 'w mstate \<Rightarrow> (int \<times> int option \<times> 'w mstate) option" where
  "snd_mixer_selem_ask_playback_dB_vol M elem g dir s = do { sl \<leftarrow> elem_slot s elem ITEM_PVOLUME; snd_selem_ask_dB_vol M sl g dir s }"

definition snd_mixer_selem_set_playback_dB :: "'w mixer_env \<Rightarrow> nat \<Rightarrow> nat \<Rightarrow> int \<Rightarrow> int \<Rightarrow> 'w mstate \<Rightarrow> (int \<times> 'w mstate) option" where
  "snd_mixer_selem_set_playback_dB M elem channel val dir s = do { sl \<leftarrow> elem_slot s elem ITEM_PVOLUME; snd_selem_vol_set_dB M sl channel val dir s }"

definition snd_mixer_selem_set_playback_dB_all :: "'w mixer_env \<Rightarrow> nat \<Rightarrow> int \<Rightarrow> int \<Rightarrow> 'w mstate \<Rightarrow> (int \<times> 'w mstate) option" where
  "snd_mixer_selem_set_playback_dB_all M elem val dir s = do { sl \<leftarrow> elem_slot s elem ITEM_PVOLUME; snd_selem_vol_set_dB_all M sl val dir s }"

definition snd_mixer_selem_get_capture_volume_range :: "'w mstate \<Rightarrow> mixer_elem \<Rightarrow> (int \<times> (int \<times> int) option) option" where
  "snd_mixer_selem_get_capture_volume_range s e = snd_mixer_selem_get_volume_range s e ITEM_CVOLUME"

definition snd_mixer_selem_get_capture_volume :: "'w mstate \<Rightarrow> mixer_elem \<Rightarrow> nat \<Rightarrow> (int \<times> int option) option" where
  "snd_mixer_selem_get_capture_volume s e channel = snd_mixer_selem_get_volume s e ITEM_CVOLUME channel"

definition snd_mixer_selem_get_capture_switch :: "'w mstate \<Rightarrow> mixer_elem \<Rightarrow> nat \<Rightarrow> (int \<times> int option) option" where
  "snd_mixer_selem_get_capture_switch s e channel = snd_mixer_selem_get_switch s e ITEM_CSWITCH channel"

definition snd_mixer_selem_set_capture_volume :: "'w mixer_env \<Rightarrow> nat \<Rightarrow> nat \<Rightarrow> int \<Rightarrow> 'w mstate \<Rightarrow> (int \<times> 'w mstate) option" where
  "snd_mixer_selem_set_capture_volume M elem channel val s = do { sl \<leftarrow> elem_slot s elem ITEM_CVOLUME; snd_selem_update_volume M sl channel val s }"

definition snd_mixer_selem_set_capture_volume_all :: "'w mixer_env \<Rightarrow> nat \<Rightarrow> int \<Rightarrow> 'w mstate \<Rightarrow> (int \<times> 'w mstate) option" where
  "snd_mixer_selem_set_capture_volume_all M elem val s = do { sl \<leftarrow> elem_slot s elem ITEM_CVOLUME; snd_selem_update_volume_all M sl val s }"

definition snd_mixer_selem_get_capture_dB_range :: "'w mixer_env \<Rightarrow> nat \<Rightarrow> int option \<Rightarrow> int option \<Rightarrow> 'w mstate \<Rightarrow> (int \<times> (int option \<times> int option) \<times> 'w mstate) option" where
  "snd_mixer_selem_get_capture_dB_range M elem mn mx s = do { sl \<leftarrow> elem_slot s elem ITEM_CVOLUME; snd_selem_vol_get_dB_range M sl mn mx s }"

definition snd_mixer_selem_get_capture_dB :: "'w mixer_env \<Rightarrow> nat \<Rightarrow> nat \<Rightarrow> 'w mstate \<Rightarrow> (int \<times> int option \<times> 'w mstate) option" where
  "snd_mixer_selem_get_capture_dB M elem channel s = do { sl \<leftarrow> elem_slot s elem ITEM_CVOLUME; snd_selem_vol_get_dB M sl channel s }"

definition snd_mixer_selem_ask_capture_vol_dB :: "'w mixer_env \<Rightarrow> nat \<Rightarrow> int \<Rightarrow> 'w mstate \<Rightarrow> (int \<times> int option \<times> 'w mstate) option" where
  "snd_mixer_selem_ask_capture_vol_dB M elem val s = do { sl \<leftarrow> elem_slot s elem ITEM_CVOLUME; snd_selem_ask_vol_dB M sl val s }"

definition snd_mixer_selem_ask_capture_dB_vol :: "'w mixer_env \<Rightarrow> nat \<Rightarrow> int \<Rightarrow> int \<Rightarrow> 'w mstate \<Rightarrow> (int \<times> int option \<times> 'w mstate) option" where
  "snd_mixer_selem_ask_capture_dB_vol M elem g dir s = do { sl \<leftarrow> elem_slot s elem ITEM_CVOLUME; snd_selem_ask_dB_vol M sl g dir s }"

definition snd_mixer_selem_set_capture_dB :: "'w mixer_env \<Rightarrow> nat \<Rightarrow> nat \<Rightarrow> int \<Rightarrow> int \<Rightarrow> 'w mstate \<Rightarrow> (int \<times> 'w mstate) option" where
  "snd_mixer_selem_set_capture_dB M elem channel val dir s = do { sl \<leftarrow> elem_slot s elem ITEM_CVOLUME; snd_selem_vol_set_dB M sl channel val dir s }"

definition snd_mixer_selem_set_capture_dB_all :: "'w mixer_env \<Rightarrow> nat \<Rightarrow> int \<Rightarrow> int \<Rightarrow> 'w mstate \<Rightarrow> (int \<times> 'w mstate) option" where
  "snd_mixer_selem_set_capture_dB_all M elem val dir s = do { sl \<leftarrow> elem_slot s elem ITEM_CVOLUME; snd_selem_vol_set_dB_all M sl val dir s }"

definition snd_mixer_selem_is_enumerated :: "mixer_elem \<Rightarrow> int option" where
  "snd_mixer_selem_is_enumerated e = map_option (\<lambda>sl. of_bool (sl \<noteq> None)) (array_get (e_items e) ITEM_ENUM)"

definition snd_mixer_selem_is_enum_playback :: "mixer_elem \<Rightarrow> int" where
  "snd_mixer_selem_is_enum_playback e = of_bool (e_caps e AND CAP_PENUM \<noteq> 0)"

definition snd_mixer_selem_is_enum_capture :: "mixer_elem \<Rightarrow> int" where
  "snd_mixer_selem_is_enum_capture e = of_bool (e_caps e AND CAP_CENUM \<noteq> 0)"

definition snd_mixer_selem_get_enum_items :: "'w mstate \<Rightarrow> mixer_elem \<Rightarrow> int option" where
  "snd_mixer_selem_get_enum_items s e = do {
     sl \<leftarrow> array_get (e_items e) ITEM_ENUM;
     (case sl of None \<Rightarrow> Some (- EINVAL) | Some item \<Rightarrow> do { (_, n, _) \<leftarrow> enum_item s item; Some (sint n) }) }"

definition snd_mixer_selem_get_enum_item :: "'w mstate \<Rightarrow> mixer_elem \<Rightarrow> nat \<Rightarrow> (int \<times> u32 option) option" where
  "snd_mixer_selem_get_enum_item s e channel = do {
     sl \<leftarrow> array_get (e_items e) ITEM_ENUM;
     (case sl of
        None \<Rightarrow> Some (- EINVAL, None)
      | Some item \<Rightarrow> do {
          (it, _, vs) \<leftarrow> enum_item s item;
          (if channel \<ge> unat (item_channels it) then Some (- EINVAL, None)
           else do { v \<leftarrow> array_get vs channel; Some (0, Some v) }) }) }"

end
