(* ===== verification/Mixer_Array.thy ===== *)
theory Mixer_Array
  imports Mixer_Volume Registry
begin

text \<open>
  The array of mixer elements and their names: the array is a registry whose elements know their positions, and
  adding the item of a control keeps names and indices unique and always returns.
\<close>

section \<open>The array in order\<close>

text \<open>Every element of the array is allocated and knows its position.\<close>

definition mixer_array :: "'w mixer \<Rightarrow> nat list \<Rightarrow> bool" where
  "mixer_array m ps \<longleftrightarrow> m_pelems m = ps \<and> distinct ps \<and>
     (\<forall>i < length ps. \<exists>e. m_elems m (ps ! i) = Some e \<and> e_index e = of_nat i)"

text \<open>What an element holds beside its position.\<close>

definition unplaced :: "mixer_elem \<Rightarrow> mixer_elem" where
  "unplaced e = e\<lparr>e_index := 0\<rparr>"

lemma unplaced_index [simp]: "unplaced (e\<lparr>e_index := i\<rparr>) = unplaced e"
  by (simp add: unplaced_def)

lemma set_indices_sets:
  "distinct ps \<Longrightarrow> \<forall>p \<in> set ps. m p \<noteq> None \<Longrightarrow>
   \<exists>es. set_indices ps i m = Some es \<and> (\<forall>j < length ps. \<exists>e. es (ps ! j) = Some e \<and> e_index e = of_nat (i + j)) \<and>
     (\<forall>p. p \<notin> set ps \<longrightarrow> es p = m p) \<and> (\<forall>p. map_option unplaced (es p) = map_option unplaced (m p))"
proof (induction ps arbitrary: i m)
  case (Cons p ps)
  then obtain e where e: "m p = Some e" by auto
  let ?m = "m(p \<mapsto> e\<lparr>e_index := of_nat i\<rparr>)"
  have "\<forall>q \<in> set ps. ?m q \<noteq> None" using Cons.prems by auto
  moreover have "distinct ps" using Cons.prems(1) by simp
  ultimately obtain es where
    es: "set_indices ps (Suc i) ?m = Some es" "\<forall>j < length ps. \<exists>e. es (ps ! j) = Some e \<and> e_index e = of_nat (Suc i + j)"
      "\<forall>q. q \<notin> set ps \<longrightarrow> es q = ?m q" "\<forall>q. map_option unplaced (es q) = map_option unplaced (?m q)"
    using Cons.IH [where i = "Suc i" and m = ?m] by blast
  have p: "es p = Some (e\<lparr>e_index := of_nat i\<rparr>)" using es(3) Cons.prems(1) by simp
  have "\<exists>e. es ((p # ps) ! j) = Some e \<and> e_index e = of_nat (i + j)" if "j < length (p # ps)" for j
    using that p es(2) by (cases j) auto
  moreover have "\<forall>q. map_option unplaced (es q) = map_option unplaced (m q)" using es(4) e by (simp add: fun_upd_def)
  moreover have "\<forall>q. q \<notin> set (p # ps) \<longrightarrow> es q = m q" using es(3) by auto
  ultimately show ?case using es(1) e by simp
qed simp

lemma mixer_array_alloc: "mixer_array m ps \<Longrightarrow> p \<in> set ps \<Longrightarrow> m_elems m p \<noteq> None"
  unfolding mixer_array_def in_set_conv_nth by (metis option.distinct(1))

text \<open>\<^verbatim>\<open>qsort\<close> permutes the array it is given.\<close>

definition sorts :: "'w mixer_env \<Rightarrow> nat list \<Rightarrow> 'w mixer \<Rightarrow> bool" where
  "sorts M ps m \<longleftrightarrow> mset (mx_qsort M ps m) = mset ps"

lemma sort_places:
  assumes "distinct (m_pelems m)" "\<forall>p \<in> set (m_pelems m). m_elems m p \<noteq> None" "m_compare m \<longrightarrow> sorts M (m_pelems m) m"
  shows "\<exists>m' ps. snd_mixer_sort M m = Some m' \<and> mixer_array m' ps \<and> mset ps = mset (m_pelems m) \<and>
     (\<forall>p. map_option unplaced (m_elems m' p) = map_option unplaced (m_elems m p)) \<and>
     m' = m\<lparr>m_pelems := ps, m_elems := m_elems m'\<rparr>"
proof -
  define ps where "ps = (if m_compare m then mx_qsort M (m_pelems m) m else m_pelems m)"
  have ms: "mset ps = mset (m_pelems m)" using assms(3) by (simp add: ps_def sorts_def)
  then have d: "distinct ps" "set ps = set (m_pelems m)"
    using assms(1) by (metis distinct_count_atmost_1 mset_eq_setD, metis mset_eq_setD)
  with assms(2) set_indices_sets [of ps "m_elems m" 0] obtain es where
    es: "set_indices ps 0 (m_elems m) = Some es" "\<forall>j < length ps. \<exists>e. es (ps ! j) = Some e \<and> e_index e = of_nat j"
      "\<forall>p. map_option unplaced (es p) = map_option unplaced (m_elems m p)" by auto
  let ?m = "m\<lparr>m_pelems := ps, m_elems := es\<rparr>"
  have "snd_mixer_sort M m = Some ?m"
    using es(1) unfolding snd_mixer_sort_def ps_def Let_def by (cases "m_compare m") simp_all
  moreover have "mixer_array ?m ps" using es(2) d by (simp add: mixer_array_def)
  ultimately show ?thesis using ms es(3) by (intro exI [of _ ?m] exI [of _ ps]) simp
qed

text \<open>There is room for another element, and the sort is one.\<close>

definition fits :: "'w mixer_env \<Rightarrow> 'w mixer \<Rightarrow> nat \<Rightarrow> bool" where
  "fits M m a \<longleftrightarrow> m_elems m a \<noteq> None \<and> (int (length (m_pelems m)) = m_alloc m \<longrightarrow> fst (mx_realloc M (m_alloc m + 32) (m_rest m))) \<and>
     (\<forall>ps m. sorts M ps m)"

definition entered :: "'w mixer_env \<Rightarrow> nat \<Rightarrow> 'w mixer \<Rightarrow> 'w mixer option" where
  "entered M a m = (case enter_elem M a m of Some (True, m') \<Rightarrow> Some m' | _ \<Rightarrow> None)"

lemma enter_elem_places:
  assumes "mixer_array m xs" "m_elems m a \<noteq> None" "\<forall>ps m. sorts M ps m" "a \<notin> set xs"
  shows "\<exists>ok m'. enter_elem M a m = Some (ok, m') \<and>
     (\<forall>p. map_option unplaced (m_elems m' p) = map_option unplaced (m_elems m p)) \<and>
     m_items m' = m_items m \<and>
     (if ok then \<exists>ys. mixer_array m' ys \<and> mset ys = add_mset a (mset xs) else mixer_array m' xs \<and> m_elems m' = m_elems m) \<and>
     (ok = (int (length xs) = m_alloc m \<longrightarrow> fst (mx_realloc M (m_alloc m + 32) (m_rest m))))"
proof -
  have xs: "m_pelems m = xs" "distinct xs" using assms(1) by (simp_all add: mixer_array_def)
  define m1 where "m1 = (if int (length xs) = m_alloc m then
      m\<lparr>m_rest := snd (mx_realloc M (m_alloc m + 32) (m_rest m)),
        m_alloc := (if fst (mx_realloc M (m_alloc m + 32) (m_rest m)) then m_alloc m + 32 else m_alloc m)\<rparr> else m)"
  define ok where "ok = (int (length xs) = m_alloc m \<longrightarrow> fst (mx_realloc M (m_alloc m + 32) (m_rest m)))"
  have m1: "m_pelems m1 = xs" "m_elems m1 = m_elems m" "m_items m1 = m_items m" by (simp_all add: m1_def xs)
  have e: "enter_elem M a m = (if ok then do { m \<leftarrow> snd_mixer_sort M (m1\<lparr>m_pelems := xs @ [a]\<rparr>); Some (True, m) } else Some (False, m1))"
    using xs(1) m1(1) by (cases "mx_realloc M (m_alloc m + 32) (m_rest m)") (simp add: enter_elem_def m1_def ok_def)
  show ?thesis
  proof (cases ok)
    case False
    have "mixer_array m1 xs" using assms(1) m1 by (simp add: mixer_array_def)
    with False e m1 show ?thesis unfolding ok_def [symmetric] by (intro exI [of _ False] exI [of _ m1]) simp
  next
    case True
    have "distinct (xs @ [a])" "\<forall>p \<in> set (xs @ [a]). m_elems m1 p \<noteq> None"
      using xs assms(2,4) m1(2) mixer_array_alloc [OF assms(1)] by auto
    with sort_places [of "m1\<lparr>m_pelems := xs @ [a]\<rparr>" M] assms(3) obtain m' ps where
      m': "snd_mixer_sort M (m1\<lparr>m_pelems := xs @ [a]\<rparr>) = Some m'" "mixer_array m' ps" "mset ps = mset (xs @ [a])"
        "\<forall>p. map_option unplaced (m_elems m' p) = map_option unplaced (m_elems m1 p)"
        "m' = m1\<lparr>m_pelems := ps, m_elems := m_elems m'\<rparr>" by auto
    have "m_items m' = m_items m" by (subst m'(5)) (simp add: m1(3))
    with True e m' m1 show ?thesis unfolding ok_def [symmetric] by (intro exI [of _ True] exI [of _ m']) auto
  qed
qed

lemma position_split: "distinct (as @ a # bs) \<Longrightarrow> position a (as @ a # bs) = Some (length as)"
  by (induction as) auto

lemma position_absent: "a \<notin> set xs \<Longrightarrow> position a xs = None"
  by (induction xs) auto

lemma remove_elem_places:
  assumes "mixer_array m (as @ a # bs)"
  shows "\<exists>m'. remove_mixer_elem a m = Some m' \<and> mixer_array m' (as @ bs) \<and> m_elems m' a = None \<and>
     (\<forall>p. p \<noteq> a \<longrightarrow> map_option unplaced (m_elems m' p) = map_option unplaced (m_elems m p)) \<and>
     m_items m' = m_items m"
proof -
  have xs: "m_pelems m = as @ a # bs" "distinct (as @ a # bs)" using assms by (simp_all add: mixer_array_def)
  have al: "\<forall>p \<in> set bs. m_elems m p \<noteq> None" "m_elems m a \<noteq> None" using mixer_array_alloc [OF assms] by simp_all
  from set_indices_sets [of bs "m_elems m" "length as"] xs(2) al(1) obtain es where
    es: "set_indices bs (length as) (m_elems m) = Some es"
      "\<forall>j < length bs. \<exists>e. es (bs ! j) = Some e \<and> e_index e = of_nat (length as + j)"
      "\<forall>p. p \<notin> set bs \<longrightarrow> es p = m_elems m p" "\<forall>p. map_option unplaced (es p) = map_option unplaced (m_elems m p)" by auto
  let ?m = "m\<lparr>m_pelems := as @ bs, m_elems := es(a := None)\<rparr>"
  have "remove_mixer_elem a m = Some ?m"
    using al(2) es(1) xs position_split [OF xs(2)] by (auto simp: remove_mixer_elem_def Let_def)
  moreover have "mixer_array ?m (as @ bs)"
    unfolding mixer_array_def
  proof (intro conjI allI impI)
    fix i assume i: "i < length (as @ bs)"
    show "\<exists>e. m_elems ?m ((as @ bs) ! i) = Some e \<and> e_index e = of_nat i"
    proof (cases "i < length as")
      case True
      then have "as ! i \<in> set as" by simp
      then have "as ! i \<notin> set bs" "as ! i \<noteq> a" using xs(2) by auto
      moreover have "\<exists>e. m_elems m (as ! i) = Some e \<and> e_index e = of_nat i"
        using assms True by (auto simp: mixer_array_def nth_append dest!: spec [of _ i])
      ultimately show ?thesis using es(3) True by (auto simp: nth_append)
    next
      case False
      define j where "j = i - length as"
      then have j: "j < length bs" "i = length as + j" using False i by auto
      then have "bs ! j \<noteq> a" using xs(2) by (metis distinct.simps(2) distinct_append nth_mem)
      with es(2) j show ?thesis by (auto simp: nth_append)
    qed
  qed (use xs in simp_all)
  ultimately show ?thesis using es(4) by auto
qed

interpretation mixer: registry mixer_array "fits M" "entered M" remove_mixer_elem for M
proof (unfold_locales, goal_cases)
  case (1 s xs)
  then show ?case by (simp add: mixer_array_def)
next
  case (2 s xs a)
  then have f: "m_elems s a \<noteq> None" "\<forall>ps m. sorts M ps m"
    "int (length xs) = m_alloc s \<longrightarrow> fst (mx_realloc M (m_alloc s + 32) (m_rest s))" by (simp_all add: fits_def mixer_array_def)
  from enter_elem_places [OF 2(1) f(1,2) 2(3)] f(3) show ?case by (auto simp: entered_def)
next
  case (3 s xs a)
  then obtain as bs where xs: "xs = as @ a # bs" by (auto simp: in_set_conv_decomp)
  from remove_elem_places [OF 3(1) [unfolded xs]] xs show ?case by fastforce
qed

text \<open>Walking the array.\<close>

lemma next_prev_walk:
  assumes "mixer_array m ps" "length ps < 2 ^ 32" "i < length ps"
  shows "snd_mixer_elem_next m (ps ! i) = Some (if Suc i = length ps then None else Some (ps ! Suc i))"
    "snd_mixer_elem_prev m (ps ! i) = Some (if i = 0 then None else Some (ps ! (i - 1)))"
proof -
  obtain e where e: "m_elems m (ps ! i) = Some e" "e_index e = of_nat i" "m_pelems m = ps"
    using assms(1,3) by (auto simp: mixer_array_def)
  have u: "unat (of_nat i :: u32) = i" "unat (of_nat (length ps) - 1 :: u32) = length ps - 1"
  proof -
    show "unat (of_nat i :: u32) = i" using assms(2,3) by (simp add: unsigned_of_nat take_bit_nat_eq_self)
    have "of_nat (length ps) - 1 = (of_nat (length ps - 1) :: u32)" using assms(3) by (simp add: of_nat_diff)
    then show "unat (of_nat (length ps) - 1 :: u32) = length ps - 1" using assms(2) by (simp only: unsigned_of_nat) (simp add: take_bit_nat_eq_self)
  qed
  have l: "of_nat i = (of_nat (length ps) - 1 :: u32) \<longleftrightarrow> Suc i = length ps"
    using u assms(3) by (auto simp: word_unat_eq_iff)
  have s: "unat (of_nat i + 1 :: u32) = Suc i" if "Suc i \<noteq> length ps"
  proof -
    have "of_nat i + 1 = (of_nat (Suc i) :: u32)" by simp
    moreover have "Suc i < 2 ^ 32" using assms(2,3) by simp
    ultimately show ?thesis by (simp only: unsigned_of_nat) (simp add: take_bit_nat_eq_self)
  qed
  show "snd_mixer_elem_next m (ps ! i) = Some (if Suc i = length ps then None else Some (ps ! Suc i))"
    using e l s assms(3) by (simp add: snd_mixer_elem_next_def)
  have z: "of_nat i = (0 :: u32) \<longleftrightarrow> i = 0" using u(1) by (auto simp: word_unat_eq_iff)
  have p: "unat (of_nat i - 1 :: u32) = i - 1" if "i \<noteq> 0"
    using that u(1) z by (simp add: unat_minus_one)
  show "snd_mixer_elem_prev m (ps ! i) = Some (if i = 0 then None else Some (ps ! (i - 1)))"
    using e z p assms(3) by (simp add: snd_mixer_elem_prev_def)
qed

section \<open>Elements and their names\<close>

definition elem_id :: "'w mixer \<Rightarrow> nat \<Rightarrow> (string \<times> u32) option" where
  "elem_id m p = map_option snd_mixer_selem_get_id (m_elems m p)"

definition slots_ok :: "mixer_elem \<Rightarrow> bool" where
  "slots_ok e \<longleftrightarrow> length (e_items e) = 5 \<and> length (e_channels e) = 2"

text \<open>The array is in order, no two elements have the same name and index, and every element has its slots.\<close>

definition mixer_ok :: "'w mixer \<Rightarrow> nat list \<Rightarrow> bool" where
  "mixer_ok m ps \<longleftrightarrow> mixer_array m ps \<and> distinct (map (elem_id m) ps) \<and> (\<forall>p \<in> set ps. \<forall>e. m_elems m p = Some e \<longrightarrow> slots_ok e)"

text \<open>
  The device describes elements whose values fit; the allocator gives memory that is not in use; the sort
  permutes; the callbacks of the application leave the mixer as it is.
\<close>

definition serves :: "'w mixer_env \<Rightarrow> bool" where
  "serves M \<longleftrightarrow>
     (\<forall>i w r i' w'. snd_ctl_elem_info0 (mx_ctl M) i w = (r, i', w') \<longrightarrow> length (info_value i') = 128 \<and>
        unat (info_count i') \<le> (if info_type i' = TYPE_BOOLEAN then 32 else 128)) \<and>
     (\<forall>v w r v' w'. snd_ctl_elem_read (mx_ctl M) v w = (r, v', w') \<longrightarrow> length (value_data v') = 1024) \<and>
     (\<forall>m a w. mx_calloc M m = (Some a, w) \<longrightarrow> m_elems m a = None) \<and>
     (\<forall>ps m. sorts M ps m) \<and>
     (\<forall>ev a s. m_pelems (hworld (snd (mx_cb M ev a s))) = m_pelems (hworld s) \<and> m_elems (hworld (snd (mx_cb M ev a s))) = m_elems (hworld s))"

lemma mixer_ok_cong:
  assumes "mixer_ok m ps" "m_pelems m' = m_pelems m" "\<forall>p \<in> set ps. m_elems m' p = m_elems m p"
  shows "mixer_ok m' ps"
proof -
  have "map (elem_id m') ps = map (elem_id m) ps" using assms(3) by (simp add: elem_id_def)
  then have "distinct (map (elem_id m') ps)" using assms(1) unfolding mixer_ok_def by argo
  moreover have "\<forall>i < length ps. m_elems m' (ps ! i) = m_elems m (ps ! i)" using assms(3) by simp
  then have "mixer_array m' ps" using assms(1,2) by (simp add: mixer_ok_def mixer_array_def)
  ultimately show ?thesis using assms(1,3) by (simp add: mixer_ok_def)
qed

text \<open>What does not depend on the position survives sorting.\<close>

lemma unplaced_simps [simp]: "snd_mixer_selem_get_id (unplaced e) = snd_mixer_selem_get_id e" "slots_ok (unplaced e) = slots_ok e"
  by (simp_all add: unplaced_def snd_mixer_selem_get_id_def slots_ok_def)

lemma unplaced_id:
  assumes "map_option unplaced x = map_option unplaced y"
  shows "map_option snd_mixer_selem_get_id x = map_option snd_mixer_selem_get_id y" "pred_option slots_ok x = pred_option slots_ok y"
proof -
  show "map_option snd_mixer_selem_get_id x = map_option snd_mixer_selem_get_id y"
    using arg_cong [OF assms, of "map_option snd_mixer_selem_get_id"] by (simp add: option.map_comp comp_def)
  show "pred_option slots_ok x = pred_option slots_ok y"
    using arg_cong [OF assms, of "pred_option slots_ok"] by (simp add: option.pred_map comp_def)
qed

lemma mixer_ok_alt: "mixer_ok m ps \<longleftrightarrow> mixer_array m ps \<and> distinct (map (elem_id m) ps) \<and> (\<forall>p \<in> set ps. pred_option slots_ok (m_elems m p))"
  by (auto simp: mixer_ok_def split: option.splits) (auto simp: option.pred_set)

text \<open>An element with a new name enters, or the last step fails and nothing has changed.\<close>

lemma enter_elem_ok:
  assumes "mixer_ok m ps" "m_elems m a = Some e" "slots_ok e" "a \<notin> set ps" "elem_id m a \<notin> elem_id m ` set ps" "\<forall>ps m. sorts M ps m"
  shows "\<exists>ok m' ps'. enter_elem M a m = Some (ok, m') \<and> mixer_ok m' ps' \<and> mset ps' = (if ok then add_mset a (mset ps) else mset ps) \<and>
     elem_id m' = elem_id m"
proof -
  have arr: "mixer_array m ps" using assms(1) by (simp add: mixer_ok_def)
  have "m_elems m a \<noteq> None" using assms(2) by simp
  from enter_elem_places [OF arr this assms(6,4)] obtain ok m' where
    m: "enter_elem M a m = Some (ok, m')" "\<forall>p. map_option unplaced (m_elems m' p) = map_option unplaced (m_elems m p)"
      "if ok then \<exists>ys. mixer_array m' ys \<and> mset ys = add_mset a (mset ps) else mixer_array m' ps \<and> m_elems m' = m_elems m"
    by (elim exE conjE) (rule that; assumption)
  have i: "elem_id m' = elem_id m" by (rule ext) (simp only: elem_id_def unplaced_id(1) [OF spec [OF m(2)]])
  have s: "pred_option slots_ok (m_elems m' p) = pred_option slots_ok (m_elems m p)" for p by (rule unplaced_id(2) [OF spec [OF m(2)]])
  show ?thesis
  proof (cases ok)
    case True
    with m(3) obtain ys where y: "mixer_array m' ys" "mset ys = add_mset a (mset ps)" by auto
    have st: "set ys = insert a (set ps)" using y(2) by (metis set_mset_add_mset_insert set_mset_mset)
    have "mset (map (elem_id m) ys) = mset (map (elem_id m) (a # ps))" using y(2) by simp
    moreover have "distinct (map (elem_id m) (a # ps))" using assms(1,5) by (simp add: mixer_ok_def)
    ultimately have "distinct (map (elem_id m) ys)" by (metis mset_eq_imp_distinct_iff)
    moreover have "\<forall>p \<in> set ys. pred_option slots_ok (m_elems m p)" using st assms(1-3) by (auto simp: mixer_ok_alt)
    ultimately have "mixer_ok m' ys" using y(1) i s by (simp add: mixer_ok_alt)
    with True m(1) y(2) i show ?thesis by auto
  next
    case False
    with m i s assms(1) show ?thesis by (intro exI [of _ ok] exI [of _ m'] exI [of _ ps]) (simp add: mixer_ok_alt)
  qed
qed

lemma remove_elem_ok:
  assumes "mixer_ok m ps" "remove_mixer_elem a m = Some m'"
  shows "mixer_ok m' (remove1 a ps)"
proof (cases "a \<in> set ps")
  case True
  then obtain as bs where ps: "ps = as @ a # bs" by (auto simp: in_set_conv_decomp)
  have arr: "mixer_array m (as @ a # bs)" using assms(1) ps by (simp add: mixer_ok_def)
  then have d: "distinct (as @ a # bs)" by (simp add: mixer_array_def)
  then have r: "remove1 a ps = as @ bs" by (simp add: ps remove1_append)
  from remove_elem_places [OF arr] assms(2) have
    m: "mixer_array m' (as @ bs)" "\<forall>p. p \<noteq> a \<longrightarrow> map_option unplaced (m_elems m' p) = map_option unplaced (m_elems m p)" by auto
  have k: "p \<noteq> a" if "p \<in> set (as @ bs)" for p using that d by auto
  have "map (elem_id m') (as @ bs) = map (elem_id m) (as @ bs)"
    using m(2) k unplaced_id(1) unfolding elem_id_def map_eq_conv by blast
  moreover have "distinct (map (elem_id m) (as @ bs))" using assms(1) by (simp add: mixer_ok_def ps)
  ultimately have "distinct (map (elem_id m') (as @ bs))" by argo
  moreover have "\<forall>p \<in> set (as @ bs). pred_option slots_ok (m_elems m' p)"
    using assms(1) m(2) k unplaced_id(2) unfolding mixer_ok_alt ps by (metis Un_iff list.set_intros(2) set_append)
  ultimately show ?thesis using m(1) r by (simp add: mixer_ok_alt)
next
  case False
  have "position a (m_pelems m) = None" using False assms(1) by (simp add: mixer_ok_def mixer_array_def position_absent)
  then have "m' = m\<lparr>m_elems := (m_elems m)(a := None)\<rparr>" using assms(2) by (auto simp: remove_mixer_elem_def split: bind_splits)
  with False assms(1) show ?thesis by (auto simp: remove1_idem intro!: mixer_ok_cong [OF assms(1)])
qed

section \<open>Adding an item\<close>

lemma load_defined: "off + w \<le> length bs \<Longrightarrow> \<exists>v. load w off bs = Some v"
  by (simp add: load_def)

lemma getters_defined:
  assumes "length (value_data val) = 1024" "n < 128"
  shows "\<exists>v. snd_ctl_elem_value_get_integer val (of_nat n) = Some v" "\<exists>v. snd_ctl_elem_value_get_boolean val (of_nat n) = Some v"
    "\<exists>v. snd_ctl_elem_value_get_enumerated val (of_nat n) = Some v"
proof -
  have u: "unat (of_nat n :: u32) = n" using assms(2) by (simp add: unsigned_of_nat take_bit_nat_eq_self)
  show "\<exists>v. snd_ctl_elem_value_get_integer val (of_nat n) = Some v" "\<exists>v. snd_ctl_elem_value_get_boolean val (of_nat n) = Some v"
    "\<exists>v. snd_ctl_elem_value_get_enumerated val (of_nat n) = Some v"
    using load_defined [of "8 * n" 8 "value_data val"] load_defined [of "4 * n" 4 "value_data val"] assms u
    by (auto simp: snd_ctl_elem_value_get_integer_def snd_ctl_elem_value_get_boolean_def snd_ctl_elem_value_get_enumerated_def
        load_array_def load_long_def load_u32_def)
qed

lemma reads_defined:
  assumes "length (value_data val) = 1024"
  shows "n \<le> 128 \<Longrightarrow> \<exists>vs. read_volumes val n = Some vs \<and> length vs = 2 * n" "n \<le> 32 \<Longrightarrow> \<exists>sw. read_switches val n = Some sw"
    "n \<le> 128 \<Longrightarrow> \<exists>vs. read_items val n = Some vs \<and> length vs = n"
proof -
  show "n \<le> 128 \<Longrightarrow> \<exists>vs. read_volumes val n = Some vs \<and> length vs = 2 * n"
  proof (induction n)
    case (Suc n)
    with getters_defined(1) [OF assms, of n] show ?case by (auto simp: Suc_le_eq)
  qed simp
  show "n \<le> 32 \<Longrightarrow> \<exists>sw. read_switches val n = Some sw"
  proof (induction n)
    case (Suc n)
    with getters_defined(2) [OF assms, of n] show ?case by (auto simp: Suc_le_eq)
  qed simp
  show "n \<le> 128 \<Longrightarrow> \<exists>vs. read_items val n = Some vs \<and> length vs = n"
  proof (induction n)
    case (Suc n)
    with getters_defined(3) [OF assms, of n] show ?case by (auto simp: Suc_le_eq)
  qed simp
qed

definition same_array :: "'w mstate \<Rightarrow> 'w mstate \<Rightarrow> bool" where
  "same_array s s' \<longleftrightarrow> m_pelems (hworld s') = m_pelems (hworld s) \<and> m_elems (hworld s') = m_elems (hworld s) \<and> hheap s' = hheap s"

lemma elem_info_serves:
  assumes "serves M" "hheap s hp = Some h"
  shows "\<exists>r info s'. snd_hctl_elem_info M hp i s = Some (r, info, s') \<and> same_array s s' \<and> length (info_value info) = 128 \<and>
     unat (info_count info) \<le> (if info_type info = TYPE_BOOLEAN then 32 else 128)"
proof -
  obtain r info w where c: "snd_ctl_elem_info0 (mx_ctl M) (i\<lparr>info_id := he_id h\<rparr>) (m_rest (hworld s)) = (r, info, w)"
    by (metis prod_cases3)
  have "length (info_value info) = 128 \<and> unat (info_count info) \<le> (if info_type info = TYPE_BOOLEAN then 32 else 128)"
    using assms(1) c unfolding serves_def by (elim conjE allE) (erule (1) impE)
  with assms(2) c show ?thesis by (simp add: snd_hctl_elem_info_def same_array_def set_rest_def mix_def)
qed

lemma elem_read_serves:
  assumes "serves M" "hheap s hp = Some h"
  shows "\<exists>r val s'. snd_hctl_elem_read M hp v s = Some (r, val, s') \<and> same_array s s' \<and> length (value_data val) = 1024"
proof -
  obtain r val w where c: "snd_ctl_elem_read (mx_ctl M) (v\<lparr>value_id := he_id h\<rparr>) (m_rest (hworld s)) = (r, val, w)"
    by (metis prod_cases3)
  have "length (value_data val) = 1024"
    using assms(1) c unfolding serves_def by (elim conjE allE) (erule (1) impE)
  with assms(2) c show ?thesis by (simp add: snd_hctl_elem_read_def same_array_def set_rest_def mix_def)
qed

lemma new_body_defined:
  assumes "length (value_data val) = 1024" "length (info_value info) = 128"
    "unat (info_count info) \<le> (if info_type info = TYPE_BOOLEAN then 32 else 128)"
  shows "\<exists>body. (if info_type info = TYPE_INTEGER then new_selem_vol_item info val
                  else if info_type info = TYPE_BOOLEAN then new_selem_sw_item info val
                  else new_selem_enum_item info val) = Some body"
proof -
  let ?n = "unat (info_count info)"
  have "?n \<le> 128" using assms(3) by (auto split: if_splits)
  with reads_defined [OF assms(1), of ?n] assms(2,3) show ?thesis
    by (auto simp: new_selem_vol_item_def new_selem_sw_item_def new_selem_enum_item_def snd_ctl_elem_info_get_min_def
        snd_ctl_elem_info_get_max_def snd_ctl_elem_info_get_items_def load_long_def load_u32_def load_def)
qed

lemma new_selem_item_returns:
  assumes "serves M" "hheap s hp = Some h" "length (info_value info) = 128"
    "unat (info_count info) \<le> (if info_type info = TYPE_BOOLEAN then 32 else 128)"
  shows "\<exists>q s'. new_selem_item M hp info s = Some (q, s') \<and> same_array s s' \<and>
     (\<forall>item. q = Some item \<longrightarrow> (\<exists>it. get_item s' item = Some it \<and> item_helem it = hp))"
proof -
  from elem_read_serves [OF assms(1,2)] obtain r val s1 where
    1: "snd_hctl_elem_read M hp (zero_value\<lparr>value_id := info_id info\<rparr>) s = Some (r, val, s1)" "same_array s s1" "length (value_data val) = 1024" by blast
  from new_body_defined [OF 1(3) assms(3,4)] obtain body where
    b: "(if info_type info = TYPE_INTEGER then new_selem_vol_item info val
                  else if info_type info = TYPE_BOOLEAN then new_selem_sw_item info val
                  else new_selem_enum_item info val) = Some body" by blast
  obtain q w where m: "mx_malloc M (hworld s1) = (q, w)" by force
  show ?thesis
    using 1 b m by (cases q) (auto simp: new_selem_item_def same_array_def set_rest_def put_item_def mix_def get_item_def split: if_splits)
qed

lemma match_loop_finds:
  assumes "ty < 5"
  shows "\<forall>p \<in> set ps. \<exists>e. m_elems m p = Some e \<and> slots_ok e \<and> sid_index e \<noteq> UINT_MAX \<Longrightarrow>
    \<exists>found idx. match_loop m name ty ps index = Some (found, idx) \<and> index \<le> idx \<and>
      (case found of Some p \<Rightarrow> p \<in> set ps
       | None \<Rightarrow> \<forall>p \<in> set ps. \<forall>e. m_elems m p = Some e \<longrightarrow> sid_name e = name \<longrightarrow> sid_index e < idx)"
proof (induction ps arbitrary: index)
  case (Cons p ps)
  then obtain e where e: "m_elems m p = Some e" "slots_ok e" "sid_index e \<noteq> UINT_MAX" by auto
  have sl: "array_get (e_items e) ty = Some (e_items e ! ty)" using e(2) assms by (simp add: slots_ok_def)
  define i where "i = (if sid_name e = name \<and> index \<le> sid_index e then sid_index e + 1 else index)"
  have i: "index \<le> i" "sid_name e = name \<longrightarrow> sid_index e < i"
  proof -
    have "sid_index e < sid_index e + 1" 
      using e(3) unatSuc [of "sid_index e"] by (simp add: word_less_nat_alt add.commute eq_neg_iff_add_eq_0)
    then show "index \<le> i" "sid_name e = name \<longrightarrow> sid_index e < i" by (auto simp: i_def)
  qed
  from Cons.IH [of i] Cons.prems obtain found idx where
    f: "match_loop m name ty ps i = Some (found, idx)" "i \<le> idx"
      "case found of Some p \<Rightarrow> p \<in> set ps
       | None \<Rightarrow> \<forall>p \<in> set ps. \<forall>e. m_elems m p = Some e \<longrightarrow> sid_name e = name \<longrightarrow> sid_index e < idx" by auto
  show ?case
  proof (cases "sid_name e = name \<and> e_items e ! ty = None")
    case True
    then have "match_loop m name ty (p # ps) index = Some (Some p, i)" using e(1) sl by (simp add: i_def)
    with i(1) show ?thesis by simp
  next
    case False
    then have "match_loop m name ty (p # ps) index = Some (found, idx)" using e(1) sl f(1) by (auto simp: i_def Let_def)
    moreover have "index \<le> idx" using i(1) f(2) by simp
    moreover have "sid_name e = name \<longrightarrow> sid_index e < idx" using i(2) f(2) by auto
    ultimately show ?thesis using f(3) e(1) by (cases found) auto
  qed
qed simp

lemma remove_suffix_length: "length (snd (remove_suffix name sfx)) \<le> length name"
  by (auto simp: remove_suffix_def split: option.splits)

lemma elem_name_dir:
  assumes "elem_name hname = (name, dir, gflag)"
  shows "dir = 0 \<or> dir = 1" "gflag \<longrightarrow> dir = 0"
proof -
  have "(dir = 0 \<or> dir = 1) \<and> (gflag \<longrightarrow> dir = 0)"
  proof (cases "check_elem_alias (take 63 hname)")
    case None
    with assms show ?thesis unfolding elem_name_def by (auto simp: Let_def split: prod.splits if_splits)
  next
    case (Some x)
    then have "x \<in> snd ` set name_alias" unfolding check_elem_alias_def by (metis image_eqI map_of_SomeD snd_conv)
    with Some assms show ?thesis by (auto simp: elem_name_def Let_def name_alias_def)
  qed
  then show "dir = 0 \<or> dir = 1" "gflag \<longrightarrow> dir = 0" by simp_all
qed

lemma elem_name_length:
  assumes "elem_name hname = (name, dir, gflag)" "length hname < 60"
  shows "length name < 60"
proof -
  define n1 where "n1 = snd (remove_suffix (take 63 hname) '' Volume'')"
  define n2 where "n2 = snd (remove_suffix n1 '' Switch'')"
  have n: "length n2 < 60"
    using remove_suffix_length [of "take 63 hname" "'' Volume''"] remove_suffix_length [of n1 "'' Switch''"] assms(2)
    by (simp add: n1_def n2_def)
  then have l: "length (snd (remove_suffix n2 x)) < 60" for x using remove_suffix_length [of n2 x] by simp
  show ?thesis
  proof (cases "check_elem_alias (take 63 hname)")
    case None
    with assms(1) n l [of "'' Playback''"] l [of "'' Capture''"] show ?thesis
      unfolding elem_name_def by (auto simp: Let_def n1_def n2_def split: prod.splits if_splits)
  next
    case (Some x)
    then have "x \<in> snd ` set name_alias" unfolding check_elem_alias_def by (metis image_eqI map_of_SomeD snd_conv)
    with Some assms(1) show ?thesis by (auto simp: elem_name_def Let_def name_alias_def)
  qed
qed

lemma item_caps_ok:
  assumes "item_caps t dir gflag = Some (caps, ty)" "dir = 0 \<or> dir = 1" "gflag \<longrightarrow> dir = 0"
  shows "ty < 5" "caps AND (CAP_GVOLUME OR CAP_GSWITCH) \<noteq> 0 \<longrightarrow> ty = 0 \<or> ty = 2"
  using assms by (auto simp: item_caps_def Let_def push_bit_eq_mult split: if_splits)

lemma add_cap_returns:
  assumes "get_elem s elem = Some e" "slots_ok e" "get_item s item = Some it" "hheap s (item_helem it) = Some h" "ty < 5"
    "caps AND (CAP_GVOLUME OR CAP_GSWITCH) \<noteq> 0 \<longrightarrow> ty = 0 \<or> ty = 2"
  shows "\<exists>e'. add_cap elem caps ty item s =
       Some (put_elem elem e' (s\<lparr>hheap := (hheap s)(item_helem it \<mapsto> h\<lparr>he_private := Some elem\<rparr>)\<rparr>)) \<and>
     slots_ok e' \<and> snd_mixer_selem_get_id e' = snd_mixer_selem_get_id e \<and> e_index e' = e_index e"
proof (cases "ty = 4")
  case True
  with assms show ?thesis by (auto simp: add_cap_def slots_ok_def snd_mixer_selem_get_id_def)
next
  case False
  let ?common = "caps AND (CAP_GVOLUME OR CAP_GSWITCH) \<noteq> 0"
  have m: "ty mod 2 < 2" "?common \<Longrightarrow> ty mod 2 + 1 < 2" "?common \<Longrightarrow> ty + 1 < 5" using assms(5,6) False by auto
  have "\<exists>chs. cap_channels ty ?common (item_channels it) (e_channels e) = Some chs \<and> length chs = 2"
    using m assms(2) by (auto simp: cap_channels_def slots_ok_def Let_def)
  then obtain chs where chs: "cap_channels ty ?common (item_channels it) (e_channels e) = Some chs" "length chs = 2" by blast
  define items where "items = (if ?common then (e_items e)[ty := Some item, ty + 1 := Some item] else (e_items e)[ty := Some item])"
  let ?e = "e\<lparr>e_caps := e_caps e OR caps, e_items := items, e_channels := chs\<rparr>"
  have "add_cap elem caps ty item s =
       Some (put_elem elem ?e (s\<lparr>hheap := (hheap s)(item_helem it \<mapsto> h\<lparr>he_private := Some elem\<rparr>)\<rparr>))"
    using assms(1-5) False m chs(1) by (simp add: add_cap_def slots_ok_def items_def)
  moreover have "slots_ok ?e" using assms(2) chs(2) by (simp add: slots_ok_def items_def)
  ultimately show ?thesis by (intro exI [of _ ?e]) (simp add: snd_mixer_selem_get_id_def)
qed

lemma put_elem_ok:
  assumes "mixer_ok (hworld s) ps" "get_elem s p = Some e" "slots_ok e'" "snd_mixer_selem_get_id e' = snd_mixer_selem_get_id e" "e_index e' = e_index e"
  shows "mixer_ok (hworld (put_elem p e' s)) ps"
proof -
  let ?m = "hworld (put_elem p e' s)"
  have m: "m_pelems ?m = m_pelems (hworld s)" "m_elems ?m = (m_elems (hworld s))(p \<mapsto> e')" by (simp_all add: put_elem_def mix_def)
  have "elem_id ?m = elem_id (hworld s)" using m(2) assms(2,4) by (auto simp: elem_id_def get_elem_def fun_eq_iff)
  moreover have "mixer_array ?m ps" using assms(1,2,5) m by (auto simp: mixer_ok_def mixer_array_def get_elem_def)
  ultimately show ?thesis using assms(1,3) m(2) by (auto simp: mixer_ok_def)
qed

lemma mixer_ok_heap [simp]: "hworld (s\<lparr>hheap := H\<rparr>) = hworld s" "get_elem (s\<lparr>hheap := H\<rparr>) = get_elem s"
  by (simp_all add: get_elem_def fun_eq_iff)

lemma add_mixer_elem_ok:
  assumes "serves M" "mixer_ok (hworld s) ps" "get_elem s a = Some e" "slots_ok e" "a \<notin> set ps"
    "elem_id (hworld s) a \<notin> elem_id (hworld s) ` set ps"
  shows "\<exists>r s' ps'. add_mixer_elem M a s = Some (r, s') \<and> mixer_ok (hworld s') ps' \<and>
     (mset ps' = mset ps \<or> mset ps' = add_mset a (mset ps) \<and> elem_id (hworld s') a = elem_id (hworld s) a)"
proof -
  have so: "\<forall>ps m. sorts M ps m"
    and cb: "\<forall>ev a s. m_pelems (hworld (snd (mx_cb M ev a s))) = m_pelems (hworld s) \<and> m_elems (hworld (snd (mx_cb M ev a s))) = m_elems (hworld s)"
    using assms(1) unfolding serves_def by blast+
  have "m_elems (hworld s) a = Some e" using assms(3) by (simp add: get_elem_def)
  from enter_elem_ok [OF assms(2) this assms(4-6) so] obtain ok m' ps' where
    m: "enter_elem M a (hworld s) = Some (ok, m')" "mixer_ok m' ps'" "mset ps' = (if ok then add_mset a (mset ps) else mset ps)"
      "elem_id m' = elem_id (hworld s)" by blast
  obtain r s' where t: "snd_mixer_throw_event M MASK_ADD a (s\<lparr>hworld := m'\<rparr>) = (r, s')" by force
  have "m_pelems (hworld s') = m_pelems m' \<and> m_elems (hworld s') = m_elems m'"
  proof (cases "m_callback m'")
    case True
    with t cb [rule_format, of MASK_ADD a "mix (\<lambda>m. m\<lparr>m_events := m_events m + 1\<rparr>) (s\<lparr>hworld := m'\<rparr>)"] show ?thesis
      by (simp add: snd_mixer_throw_event_def Let_def mix_def)
  next
    case False
    with t show ?thesis by (auto simp: snd_mixer_throw_event_def Let_def mix_def)
  qed
  then have "mixer_ok (hworld s') ps'" "elem_id (hworld s') = elem_id m'"
    using mixer_ok_cong [OF m(2), of "hworld s'"] by (auto simp: elem_id_def fun_eq_iff)
  with m t show ?thesis by (cases ok) (auto simp: add_mixer_elem_def)
qed

text \<open>The end of \<^verbatim>\<open>add_simple_element\<close>, when no element has a free slot.\<close>

lemma new_elem_ok:
  assumes "serves M" "mixer_ok (hworld s) ps" "get_item s item = Some it" "hheap s (item_helem it) = Some h" "ty < 5"
    "caps AND (CAP_GVOLUME OR CAP_GSWITCH) \<noteq> 0 \<longrightarrow> ty = 0 \<or> ty = 2" "length name < 60" "Some (name, index) \<notin> elem_id (hworld s) ` set ps"
  shows "\<exists>r s' ps'. (case new_mixer_elem M name index s of
        (None, s) \<Rightarrow> Some (- ENOMEM, free_item item s)
      | (Some elem, s) \<Rightarrow> do { s \<leftarrow> add_cap elem caps ty item s; add_mixer_elem M elem s }) = Some (r, s') \<and> mixer_ok (hworld s') ps' \<and>
     (mset ps' = mset ps \<or> (\<exists>a. mset ps' = add_mset a (mset ps) \<and> elem_id (hworld s') a = Some (name, index)))"
proof (cases "mx_calloc M (hworld s)")
  case (Pair q w)
  show ?thesis
  proof (cases q)
    case None
    have "mixer_ok (hworld (free_item item (set_rest w s))) ps"
      by (rule mixer_ok_cong [OF assms(2)]) (simp_all add: free_item_def set_rest_def mix_def)
    with None Pair show ?thesis by (auto simp: new_mixer_elem_def)
  next
    case (Some a)
    have fr: "m_elems (hworld s) a = None" using assms(1) Pair Some unfolding serves_def by blast
    have na: "a \<notin> set ps" using fr mixer_array_alloc assms(2) unfolding mixer_ok_def by blast
    define e where "e = \<lparr>sid_name = name, sid_index = index, e_caps = 0, e_inactive = 0, e_channels = [0, 0],
           e_items = replicate 5 None, e_index = 0, e_callback = None\<rparr>"
    define s1 where "s1 = put_elem a e (set_rest w s)"
    have s1: "new_mixer_elem M name index s = (Some a, s1)" using assms(7) Some Pair by (simp add: new_mixer_elem_def s1_def e_def)
    have w1: "m_pelems (hworld s1) = m_pelems (hworld s)" "m_elems (hworld s1) = (m_elems (hworld s))(a \<mapsto> e)" "hheap s1 = hheap s"
      "get_item s1 = get_item s"
      by (simp_all add: s1_def put_elem_def set_rest_def mix_def get_item_def fun_eq_iff)
    have ok1: "mixer_ok (hworld s1) ps" using na w1 by (intro mixer_ok_cong [OF assms(2)]) auto
    have e1: "get_elem s1 a = Some e" "slots_ok e" using w1(2) by (simp_all add: get_elem_def e_def slots_ok_def)
    from add_cap_returns [OF e1, of item it h ty caps] w1 assms(3-6) obtain e' where
      e': "add_cap a caps ty item s1 = Some (put_elem a e' (s1\<lparr>hheap := (hheap s1)(item_helem it \<mapsto> h\<lparr>he_private := Some a\<rparr>)\<rparr>))"
        "slots_ok e'" "snd_mixer_selem_get_id e' = snd_mixer_selem_get_id e" "e_index e' = e_index e" by auto
    define s2 where "s2 = put_elem a e' (s1\<lparr>hheap := (hheap s1)(item_helem it \<mapsto> h\<lparr>he_private := Some a\<rparr>)\<rparr>)"
    have ok2: "mixer_ok (hworld s2) ps" unfolding s2_def using ok1 e1(1) e'(2-4) by (intro put_elem_ok [of _ _ _ e]) simp_all
    have e2: "get_elem s2 a = Some e'" by (simp add: s2_def put_elem_def mix_def get_elem_def)
    have i2: "elem_id (hworld s2) a = Some (name, index)" "\<forall>p \<in> set ps. elem_id (hworld s2) p = elem_id (hworld s) p"
      using na e'(3) w1(2) by (auto simp: s2_def elem_id_def put_elem_def mix_def snd_mixer_selem_get_id_def e_def)
    have "elem_id (hworld s2) a \<notin> elem_id (hworld s2) ` set ps" using i2 assms(8) by (metis (no_types, lifting) image_cong)
    from add_mixer_elem_ok [OF assms(1) ok2 e2 e'(2) na this] s1 e'(1) i2(1) show ?thesis by (fastforce simp: s2_def)
  qed
qed

text \<open>What happens once the item exists.\<close>

definition place_item :: "'w mixer_env \<Rightarrow> string \<Rightarrow> u32 \<Rightarrow> nat \<Rightarrow> nat \<Rightarrow> 'w mstate \<Rightarrow> (int \<times> 'w mstate) option" where
  "place_item M name caps ty item s = do {
     (found, index) \<leftarrow> match_loop (hworld s) name ty (m_pelems (hworld s)) 0;
     (case found of
        Some elem \<Rightarrow> do { s \<leftarrow> add_cap elem caps ty item s; Some (0, s) }
      | None \<Rightarrow>
          (case new_mixer_elem M name index s of
             (None, s) \<Rightarrow> Some (- ENOMEM, free_item item s)
           | (Some elem, s) \<Rightarrow> do { s \<leftarrow> add_cap elem caps ty item s; add_mixer_elem M elem s })) }"

text \<open>The identifier that a new element for a name gets: the first index above those of the name.\<close>

definition free_indices :: "'w mixer \<Rightarrow> nat list \<Rightarrow> bool" where
  "free_indices m ps \<longleftrightarrow> (\<forall>p \<in> set ps. \<forall>e. m_elems m p = Some e \<longrightarrow> sid_index e \<noteq> UINT_MAX)"

lemma place_item_ok:
  assumes "serves M" "mixer_ok (hworld s) ps" "free_indices (hworld s) ps" "get_item s item = Some it" "hheap s (item_helem it) = Some h" "ty < 5"
    "caps AND (CAP_GVOLUME OR CAP_GSWITCH) \<noteq> 0 \<longrightarrow> ty = 0 \<or> ty = 2" "length name < 60"
  shows "\<exists>r s' ps'. place_item M name caps ty item s = Some (r, s') \<and> mixer_ok (hworld s') ps' \<and>
     (mset ps' = mset ps \<or> (\<exists>a index. mset ps' = add_mset a (mset ps) \<and> elem_id (hworld s') a = Some (name, index)))"
proof -
  have pel: "m_pelems (hworld s) = ps" using assms(2) by (simp add: mixer_ok_def mixer_array_def)
  have els: "\<forall>p \<in> set ps. \<exists>e. m_elems (hworld s) p = Some e \<and> slots_ok e \<and> sid_index e \<noteq> UINT_MAX"
    using assms(2,3) mixer_array_alloc unfolding mixer_ok_def free_indices_def by (metis not_None_eq)
  from match_loop_finds [OF assms(6) els] obtain found idx where
    f: "match_loop (hworld s) name ty ps 0 = Some (found, idx)"
      "case found of Some p \<Rightarrow> p \<in> set ps
       | None \<Rightarrow> \<forall>p \<in> set ps. \<forall>e. m_elems (hworld s) p = Some e \<longrightarrow> sid_name e = name \<longrightarrow> sid_index e < idx" by blast
  show ?thesis
  proof (cases found)
    case None
    have "Some (name, idx) \<notin> elem_id (hworld s) ` set ps"
    proof
      assume "Some (name, idx) \<in> elem_id (hworld s) ` set ps"
      then obtain p e where "p \<in> set ps" "m_elems (hworld s) p = Some e" "sid_name e = name" "sid_index e = idx"
        by (smt (verit) Pair_inject elem_id_def imageE map_option_eq_Some snd_mixer_selem_get_id_def)
      with f(2) None show False by auto
    qed
    from new_elem_ok [OF assms(1,2,4-8) this] show ?thesis
      unfolding place_item_def pel f(1) None by simp blast
  next
    case (Some p)
    then obtain e where e: "get_elem s p = Some e" "slots_ok e" using els f(2) by (auto simp: get_elem_def)
    from add_cap_returns [OF e assms(4-7)] obtain e' where
      a: "add_cap p caps ty item s = Some (put_elem p e' (s\<lparr>hheap := (hheap s)(item_helem it \<mapsto> h\<lparr>he_private := Some p\<rparr>)\<rparr>))"
        "slots_ok e'" "snd_mixer_selem_get_id e' = snd_mixer_selem_get_id e" "e_index e' = e_index e" by blast
    have "mixer_ok (hworld (put_elem p e' (s\<lparr>hheap := (hheap s)(item_helem it \<mapsto> h\<lparr>he_private := Some p\<rparr>)\<rparr>))) ps"
      using assms(2) e a(2-4) by (intro put_elem_ok [of _ _ _ e]) simp_all
    with a(1) Some f(1) show ?thesis unfolding place_item_def pel by auto
  qed
qed

lemma add_simple_place:
  assumes "hheap s hp = Some h" "elem_name (id_name (he_id h)) = (name, dir, gflag)"
    "snd_hctl_elem_info M hp zero_info s = Some (err, info, s1)"
  shows "add_simple_element M hp s =
    (if err < 0 then Some (err, s1)
      else case item_caps (info_type info) dir gflag of
        None \<Rightarrow> Some (0, s1)
      | Some (caps, ty) \<Rightarrow> do {
          (item, s2) \<leftarrow> new_selem_item M hp info s1;
          (case item of None \<Rightarrow> Some (- ENOMEM, s2) | Some item \<Rightarrow> place_item M name caps ty item s2) })"
  using assms by (simp add: add_simple_element_def place_item_def cong: option.case_cong)

lemma same_array_ok: "same_array s s' \<Longrightarrow> mixer_ok (hworld s) ps \<Longrightarrow> mixer_ok (hworld s') ps"
    "same_array s s' \<Longrightarrow> free_indices (hworld s) ps \<Longrightarrow> free_indices (hworld s') ps"
  using mixer_ok_cong [of "hworld s" ps "hworld s'"] by (auto simp: same_array_def free_indices_def)

lemma add_simple_ok:
  assumes "serves M" "mixer_ok (hworld s) ps" "free_indices (hworld s) ps" "hheap s hp = Some h" "length (id_name (he_id h)) < 60"
  shows "\<exists>r s' ps'. add_simple_element M hp s = Some (r, s') \<and> mixer_ok (hworld s') ps' \<and>
     (mset ps' = mset ps \<or>
      (\<exists>a index. mset ps' = add_mset a (mset ps) \<and> elem_id (hworld s') a = Some (fst (elem_name (id_name (he_id h))), index)))"
proof -
  obtain name dir gflag where n: "elem_name (id_name (he_id h)) = (name, dir, gflag)" by (rule prod_cases3)
  note n' = elem_name_length [OF n assms(5)] elem_name_dir [OF n]
  from elem_info_serves [OF assms(1,4)] obtain err info s1 where
    1: "snd_hctl_elem_info M hp zero_info s = Some (err, info, s1)" "same_array s s1" "length (info_value info) = 128"
      "unat (info_count info) \<le> (if info_type info = TYPE_BOOLEAN then 32 else 128)" by blast
  have h1: "hheap s1 hp = Some h" using 1(2) assms(4) by (simp add: same_array_def)
  note ok1 = same_array_ok(1) [OF 1(2) assms(2)] same_array_ok(2) [OF 1(2) assms(3)]
  from new_selem_item_returns [OF assms(1) h1 1(3,4)] obtain q s2 where
    2: "new_selem_item M hp info s1 = Some (q, s2)" "same_array s1 s2" "\<forall>item. q = Some item \<longrightarrow> (\<exists>it. get_item s2 item = Some it \<and> item_helem it = hp)"
    by blast
  note ok2 = same_array_ok(1) [OF 2(2) ok1(1)] same_array_ok(2) [OF 2(2) ok1(2)]
  have h2: "hheap s2 hp = Some h" using 2(2) h1 by (simp add: same_array_def)
  show ?thesis
  proof (cases "err < 0 \<or> item_caps (info_type info) dir gflag = None \<or> q = None")
    case True
    then have "\<exists>r s'. add_simple_element M hp s = Some (r, s') \<and> (s' = s1 \<or> s' = s2)"
      unfolding add_simple_place [OF assms(4) n 1(1)] using 2(1) by (auto split: option.splits)
    then show ?thesis using ok1(1) ok2(1) by blast
  next
    case False
    then obtain caps ty item where c: "\<not> err < 0" "item_caps (info_type info) dir gflag = Some (caps, ty)" "q = Some item" by auto
    then obtain it where it: "get_item s2 item = Some it" "hheap s2 (item_helem it) = Some h" using 2(3) h2 by blast
    from place_item_ok [OF assms(1) ok2 it item_caps_ok [OF c(2) n'(2,3)] n'(1)] c 2(1) n show ?thesis
      unfolding add_simple_place [OF assms(4) n 1(1)] by simp
  qed
qed

lemma remove_simple_ok:
  assumes "mixer_ok (hworld s) ps" "remove_simple_element hp b s = Some (r, s')"
  shows "\<exists>ps'. mixer_ok (hworld s') ps' \<and> (\<exists>a. ps' = ps \<or> ps' = remove1 a ps)"
proof -
  obtain h elem e found where e: "hheap s hp = Some h" "he_private h = Some elem" "get_elem s elem = Some e"
      "slot_of (m_items (hworld s)) hp (e_items e) 0 = Some found"
    using assms(2) by (auto simp: remove_simple_element_def split: bind_splits)
  show ?thesis
  proof (cases found)
    case None
    with assms e show ?thesis by (auto simp: remove_simple_element_def)
  next
    case (Some x)
    obtain i item where x: "x = (i, item)" by force
    define items where "items = (let items = (e_items e)[i := None] in
        (if i = ITEM_PVOLUME \<and> e_caps e AND CAP_GVOLUME \<noteq> 0 then items[ITEM_CVOLUME := None]
                       else if i = ITEM_PSWITCH \<and> e_caps e AND CAP_GSWITCH \<noteq> 0 then items[ITEM_CSWITCH := None]
                       else items))"
    define s1 where "s1 = free_item item (put_elem elem (e\<lparr>e_items := items\<rparr>) s)"
    have "mixer_ok (hworld (put_elem elem (e\<lparr>e_items := items\<rparr>) s)) ps"
    proof (cases "elem \<in> set ps")
      case True
      then have "slots_ok e" using assms(1) e(3) by (auto simp: mixer_ok_def get_elem_def)
      then have "slots_ok (e\<lparr>e_items := items\<rparr>)" by (simp add: slots_ok_def items_def Let_def)
      with assms(1) e(3) show ?thesis by (intro put_elem_ok) (simp_all add: snd_mixer_selem_get_id_def)
    next
      case False
      then show ?thesis by (intro mixer_ok_cong [OF assms(1)]) (auto simp: put_elem_def mix_def)
    qed
    then have ok1: "mixer_ok (hworld s1) ps"
      by (rule mixer_ok_cong) (simp_all add: s1_def free_item_def mix_def)
    have "remove_simple_element hp b s = (if \<not> b \<or> list_ex (\<lambda>x. x \<noteq> None) items then Some (0, s1)
        else do { m \<leftarrow> remove_mixer_elem elem (hworld s1); Some (0, s1\<lparr>hworld := m\<rparr>) })"
      using e Some x by (simp add: remove_simple_element_def s1_def items_def Let_def)
    with assms(2) ok1 remove_elem_ok [OF ok1, of elem] show ?thesis by (auto split: if_splits bind_splits)
  qed
qed

end
