(* ===== verification/Mixer_Types.thy ===== *)
theory Mixer_Types
  imports Mixer_Array
begin

text \<open>
  The slots of mixer elements: every slot is empty or points to an allocated item of its type, through every
  handler the mixer installs.
\<close>

section \<open>Slots and the items in them\<close>

text \<open>
  \<open>holds m p i x\<close>: slot \<open>i\<close> of element \<open>p\<close> points to item \<open>x\<close>.  An item that is common to playback and capture is
  in two slots, and the element has the flag that says so.
\<close>

definition slots_of :: "'w mixer \<Rightarrow> nat \<Rightarrow> (nat option list \<times> u32) option" where
  "slots_of m p = map_option (\<lambda>e. (e_items e, e_caps e)) (m_elems m p)"

definition holds :: "'w mixer \<Rightarrow> nat \<Rightarrow> nat \<Rightarrow> nat \<Rightarrow> bool" where
  "holds m p i x = (case slots_of m p of None \<Rightarrow> False | Some (items, caps) \<Rightarrow> array_get items i = Some (Some x))"

definition slot_type :: "nat \<Rightarrow> selem_body \<Rightarrow> bool" where
  "slot_type i body = (case body of Vol _ \<Rightarrow> i = ITEM_PVOLUME \<or> i = ITEM_CVOLUME | Sw _ \<Rightarrow> i = ITEM_PSWITCH \<or> i = ITEM_CSWITCH | Enum _ _ \<Rightarrow> i = ITEM_ENUM)"

definition shares :: "'w mixer \<Rightarrow> nat \<Rightarrow> nat \<Rightarrow> nat \<Rightarrow> bool" where
  "shares m p i j = (case slots_of m p of None \<Rightarrow> False | Some (items, caps) \<Rightarrow>
     {i, j} = {ITEM_PVOLUME, ITEM_CVOLUME} \<and> caps AND CAP_GVOLUME \<noteq> 0 \<or> {i, j} = {ITEM_PSWITCH, ITEM_CSWITCH} \<and> caps AND CAP_GSWITCH \<noteq> 0)"

definition well_typed :: "'w mixer \<Rightarrow> bool" where
  "well_typed m \<longleftrightarrow>
     (\<forall>p i x. holds m p i x \<longrightarrow> (\<exists>it. m_items m x = Some it \<and> slot_type i (item_body it))) \<and>
     (\<forall>p i q j x. holds m p i x \<longrightarrow> holds m q j x \<longrightarrow> p = q \<and> (i = j \<or> shares m p i j))"

lemma well_typed_item: "well_typed m \<Longrightarrow> holds m p i x \<Longrightarrow> \<exists>it. m_items m x = Some it \<and> slot_type i (item_body it)"
  by (simp add: well_typed_def)

lemma well_typed_cong: "slots_of m' = slots_of m \<Longrightarrow> m_items m' = m_items m \<Longrightarrow> well_typed m' = well_typed m"
  by (simp add: well_typed_def holds_def shares_def)

text \<open>The contents of an item may change, its kind may not.\<close>

lemma put_item_typed:
  assumes "well_typed (hworld s)" "get_item s x = Some it" "\<And>i. slot_type i (item_body it') = slot_type i (item_body it)"
  shows "well_typed (hworld (put_item x it' s))"
proof -
  let ?m = "hworld (put_item x it' s)"
  have m: "slots_of ?m = slots_of (hworld s)" "m_items ?m = (m_items (hworld s))(x \<mapsto> it')"
    by (simp_all add: put_item_def mix_def slots_of_def fun_eq_iff)
  then have h: "holds ?m = holds (hworld s)" "shares ?m = shares (hworld s)" by (simp_all add: holds_def shares_def fun_eq_iff)
  show ?thesis using assms m(2) by (fastforce simp: well_typed_def h get_item_def)
qed

lemma slot_type_kind [simp]: "slot_type i (Vol v) = slot_type i (Vol v')" "slot_type i (Sw w) = slot_type i (Sw w')"
    "slot_type i (Enum n vs) = slot_type i (Enum n' vs')"
  by (simp_all add: slot_type_def)

lemma set_indices_slots:
  "set_indices ps i m = Some es \<Longrightarrow> map_option (\<lambda>e. (e_items e, e_caps e)) (es p) = map_option (\<lambda>e. (e_items e, e_caps e)) (m p)"
  by (induction ps arbitrary: i m) (fastforce split: bind_splits)+

lemma sort_slots: "snd_mixer_sort M m = Some m' \<Longrightarrow> slots_of m' = slots_of m \<and> m_items m' = m_items m"
  using set_indices_slots by (fastforce simp: snd_mixer_sort_def slots_of_def Let_def split: bind_splits if_splits)

lemma enter_slots:
  assumes "enter_elem M a m = Some (ok, m')"
  shows "slots_of m' = slots_of m \<and> m_items m' = m_items m"
proof -
  define m1 where "m1 = (if int (length (m_pelems m)) = m_alloc m then
      m\<lparr>m_rest := snd (mx_realloc M (m_alloc m + 32) (m_rest m)),
        m_alloc := (if fst (mx_realloc M (m_alloc m + 32) (m_rest m)) then m_alloc m + 32 else m_alloc m)\<rparr> else m)"
  define b where "b = (int (length (m_pelems m)) = m_alloc m \<longrightarrow> fst (mx_realloc M (m_alloc m + 32) (m_rest m)))"
  have m1: "slots_of m1 = slots_of m" "m_items m1 = m_items m" by (simp_all add: m1_def slots_of_def fun_eq_iff)
  have "enter_elem M a m = (if b then do { m \<leftarrow> snd_mixer_sort M (m1\<lparr>m_pelems := m_pelems m1 @ [a]\<rparr>); Some (True, m) } else Some (False, m1))"
    by (cases "mx_realloc M (m_alloc m + 32) (m_rest m)") (simp add: enter_elem_def m1_def b_def)
  moreover have "slots_of (m1\<lparr>m_pelems := q\<rparr>) = slots_of m1" "m_items (m1\<lparr>m_pelems := q\<rparr>) = m_items m1" for q
    by (simp_all add: slots_of_def fun_eq_iff)
  ultimately show ?thesis using assms m1 sort_slots by (fastforce split: if_splits bind_splits)
qed

lemma remove_elem_typed:
  assumes "well_typed m" "remove_mixer_elem a m = Some m'"
  shows "well_typed m'"
proof -
  obtain m1 where m1: "m' = m1\<lparr>m_elems := (m_elems m1)(a := None)\<rparr>" "slots_of m1 = slots_of m" "m_items m1 = m_items m"
    using assms(2) set_indices_slots
    by (fastforce simp: remove_mixer_elem_def slots_of_def Let_def split: bind_splits option.splits)
  have w: "well_typed m1" using assms(1) well_typed_cong [OF m1(2,3)] by simp
  have s: "slots_of m' p = (if p = a then None else slots_of m1 p)" for p using m1(1) by (simp add: slots_of_def)
  have "holds m' p i x \<Longrightarrow> holds m1 p i x" "holds m' p i x \<Longrightarrow> shares m' p i j = shares m1 p i j" for p i x j
    by (auto simp: holds_def shares_def s split: if_splits)
  moreover have "m_items m' = m_items m1" using m1(1) by simp
  ultimately show ?thesis using w unfolding well_typed_def by metis
qed

text \<open>A new item enters the slots that \<^verbatim>\<open>add_cap\<close> gives it.\<close>

lemma add_cap_slots:
  assumes "add_cap p caps ty x s = Some s'"
  shows "\<exists>items c. slots_of (hworld s) p = Some (items, c) \<and> m_items (hworld s') = m_items (hworld s) \<and> ty < length items \<and>
     (let common = caps AND (CAP_GVOLUME OR CAP_GSWITCH) \<noteq> 0 \<and> ty \<noteq> ITEM_ENUM in
      (common \<longrightarrow> ty + 1 < length items) \<and>
      slots_of (hworld s') = (slots_of (hworld s))(p \<mapsto>
        (if common then items[ty := Some x, ty + 1 := Some x] else items[ty := Some x], c OR caps)))"
proof -
  obtain e it items h where e: "get_elem s p = Some e" "get_item s x = Some it"
    "array_set (e_items e) ty (Some x) = Some items" "hheap s (item_helem it) = Some h"
    using assms by (auto simp: add_cap_def split: bind_splits)
  then have i: "ty < length (e_items e)" "items = (e_items e)[ty := Some x]" by (simp_all add: array_set_eq_Some)
  have sl: "slots_of (hworld s) p = Some (e_items e, e_caps e)" using e(1) by (simp add: slots_of_def get_elem_def)
  show ?thesis
  proof (cases "ty = ITEM_ENUM")
    case True
    with assms e have "s' = put_elem p (e\<lparr>e_caps := e_caps e OR caps, e_items := items\<rparr>)
       (s\<lparr>hheap := (hheap s)(item_helem it \<mapsto> h\<lparr>he_private := Some p\<rparr>)\<rparr>)" by (simp add: add_cap_def)
    with sl i True show ?thesis by (auto simp: put_elem_def mix_def slots_of_def fun_eq_iff)
  next
    case False
    then obtain chs items' where c: "(if caps AND (CAP_GVOLUME OR CAP_GSWITCH) \<noteq> 0 then array_set items (ty + 1) (Some x) else Some items) = Some items'"
       "s' = put_elem p (e\<lparr>e_caps := e_caps e OR caps, e_items := items', e_channels := chs\<rparr>)
       (s\<lparr>hheap := (hheap s)(item_helem it \<mapsto> h\<lparr>he_private := Some p\<rparr>)\<rparr>)"
      using assms e unfolding add_cap_def Let_def by (auto split: bind_splits simp del: add_2_eq_Suc')
    have "slots_of (hworld s') = (slots_of (hworld s))(p \<mapsto> (items', e_caps e OR caps))" "m_items (hworld s') = m_items (hworld s)"
      unfolding c(2) by (simp_all add: put_elem_def mix_def slots_of_def fun_eq_iff)
    with sl i False c(1) show ?thesis by (auto simp: Let_def array_set_eq_Some split: if_splits)
  qed
qed

lemma and_or_keep: "c AND (k :: u32) \<noteq> 0 \<Longrightarrow> (c OR d) AND k \<noteq> 0" "d AND k \<noteq> 0 \<Longrightarrow> (c OR d) AND k \<noteq> 0"
  by (metis and_zero_eq bit.conj_disj_distrib2 or_eq_0_iff)+

lemma add_cap_typed:
  assumes "add_cap p caps ty x s = Some s'" "well_typed (hworld s)" "\<forall>q i. \<not> holds (hworld s) q i x"
    "get_item s x = Some it" "slot_type ty (item_body it)"
    "caps AND (CAP_GVOLUME OR CAP_GSWITCH) \<noteq> 0 \<longrightarrow> ty = ITEM_PVOLUME \<and> caps AND CAP_GVOLUME \<noteq> 0 \<or> ty = ITEM_PSWITCH \<and> caps AND CAP_GSWITCH \<noteq> 0"
  shows "well_typed (hworld s')"
proof -
  define common where "common = (caps AND (CAP_GVOLUME OR CAP_GSWITCH) \<noteq> 0 \<and> ty \<noteq> ITEM_ENUM)"
  from add_cap_slots [OF assms(1)] obtain items c where
    c: "slots_of (hworld s) p = Some (items, c)" "m_items (hworld s') = m_items (hworld s)" "ty < length items" "common \<longrightarrow> ty + 1 < length items"
      "slots_of (hworld s') = (slots_of (hworld s))(p \<mapsto>
        (if common then items[ty := Some x, ty + 1 := Some x] else items[ty := Some x], c OR caps))"
    unfolding common_def Let_def by blast
  have new: "holds (hworld s') q i x \<longleftrightarrow> q = p \<and> (i = ty \<or> common \<and> i = ty + 1)" for q i
    using assms(3) c by (auto simp: holds_def array_get_eq_Some nth_list_update split: if_splits option.splits)
  have old: "holds (hworld s') q i y \<longrightarrow> holds (hworld s) q i y" if "y \<noteq> x" for q i y
    using that c by (auto simp: holds_def array_get_eq_Some nth_list_update split: if_splits option.splits)
  have sh: "shares (hworld s) q i j \<longrightarrow> shares (hworld s') q i j" for q i j
    using c(1,5) and_or_keep(1) by (auto simp: shares_def split: option.splits)
  have ns: "common \<longrightarrow> shares (hworld s') p ty (ty + 1) \<and> shares (hworld s') p (ty + 1) ty \<and> slot_type (ty + 1) (item_body it)"
    using assms(5,6) c(5) and_or_keep(2) by (auto simp: shares_def common_def slot_type_def insert_commute split: selem_body.splits)
  have it: "m_items (hworld s') x = Some it" using assms(4) c(2) by (simp add: get_item_def)
  show ?thesis
    unfolding well_typed_def
  proof (intro conjI allI impI)
    fix q i y assume h: "holds (hworld s') q i y"
    show "\<exists>it. m_items (hworld s') y = Some it \<and> slot_type i (item_body it)"
    proof (cases "y = x")
      case True
      with h new it ns assms(5) show ?thesis by auto
    next
      case False
      with h old have "holds (hworld s) q i y" by blast
      with well_typed_item [OF assms(2)] c(2) show ?thesis by simp
    qed
  next
    fix q i q' j y assume h: "holds (hworld s') q i y" "holds (hworld s') q' j y"
    have "q = q' \<and> (i = j \<or> shares (hworld s') q i j)"
    proof (cases "y = x")
      case True
      with h new ns show ?thesis by auto
    next
      case False
      with h old assms(2) sh show ?thesis unfolding well_typed_def by blast
    qed
    then show "q = q'" "i = j \<or> shares (hworld s') q i j" by blast+
  qed
qed

section \<open>The handlers keep the types\<close>

text \<open>The application's callbacks leave elements and items as they are, and \<^verbatim>\<open>malloc\<close> returns memory that is not in use.\<close>

definition keeps_slots :: "'w mixer_env \<Rightarrow> bool" where
  "keeps_slots M \<longleftrightarrow> (\<forall>m x w. mx_malloc M m = (Some x, w) \<longrightarrow> m_items m x = None) \<and>
     (\<forall>ev a s. m_elems (hworld (snd (mx_cb M ev a s))) = m_elems (hworld s) \<and> m_items (hworld (snd (mx_cb M ev a s))) = m_items (hworld s)) \<and>
     (\<forall>f a ev s. m_elems (hworld (snd (mx_elem_cb M f a ev s))) = m_elems (hworld s) \<and> m_items (hworld (snd (mx_elem_cb M f a ev s))) = m_items (hworld s))"

definition same_slots :: "'w mstate \<Rightarrow> 'w mstate \<Rightarrow> bool" where
  "same_slots s s' \<longleftrightarrow> m_elems (hworld s') = m_elems (hworld s) \<and> m_items (hworld s') = m_items (hworld s)"

lemma same_slots_typed: "same_slots s s' \<Longrightarrow> well_typed (hworld s) \<Longrightarrow> well_typed (hworld s')"
  using well_typed_cong [of "hworld s'" "hworld s"] by (simp add: same_slots_def slots_of_def fun_eq_iff)

lemma calls_same_slots:
  "snd_hctl_elem_info M helem info s = Some (r, info', s') \<Longrightarrow> same_slots s s'"
  "snd_hctl_elem_read M helem val s = Some (r, val', s') \<Longrightarrow> same_slots s s'"
  "snd_hctl_elem_write M helem val s = Some (r, s') \<Longrightarrow> same_slots s s'"
  by (auto simp: snd_hctl_elem_info_def snd_hctl_elem_read_def snd_hctl_elem_write_def set_rest_def mix_def same_slots_def
      split: bind_splits prod.splits)

lemma throw_same_slots:
  assumes "keeps_slots M"
  shows "snd_mixer_throw_event M ev a s = (r, s') \<Longrightarrow> same_slots s s'" "snd_mixer_elem_throw_event M a ev s = Some (r, s') \<Longrightarrow> same_slots s s'"
proof -
  note k = assms [unfolded keeps_slots_def, THEN conjunct2]
  show "snd_mixer_throw_event M ev a s = (r, s') \<Longrightarrow> same_slots s s'"
    using k [THEN conjunct1, rule_format, of ev a "mix (\<lambda>m. m\<lparr>m_events := m_events m + 1\<rparr>) s"]
    by (auto simp: snd_mixer_throw_event_def Let_def mix_def same_slots_def split: if_splits)
  assume h: "snd_mixer_elem_throw_event M a ev s = Some (r, s')"
  then obtain e where e: "get_elem s a = Some e" by (auto simp: snd_mixer_elem_throw_event_def split: bind_splits)
  show "same_slots s s'"
  proof (cases "e_callback e")
    case None
    with h e show ?thesis by (auto simp: snd_mixer_elem_throw_event_def Let_def mix_def same_slots_def)
  next
    case (Some f)
    with h e k [THEN conjunct2, rule_format, of f a ev "mix (\<lambda>m. m\<lparr>m_events := m_events m + 1\<rparr>) s"]
    show ?thesis by (auto simp: snd_mixer_elem_throw_event_def Let_def mix_def same_slots_def)
  qed
qed

lemma new_item_typed:
  assumes "keeps_slots M" "well_typed (hworld s)" "new_selem_item M hp info s = Some (q, s')"
  shows "well_typed (hworld s') \<and> (\<forall>x. q = Some x \<longrightarrow> (\<forall>p i. \<not> holds (hworld s') p i x) \<and>
     (\<exists>it. get_item s' x = Some it \<and> (case item_body it of Vol _ \<Rightarrow> info_type info = TYPE_INTEGER
        | Sw _ \<Rightarrow> info_type info = TYPE_BOOLEAN | Enum _ _ \<Rightarrow> info_type info = TYPE_ENUMERATED)))"
proof -
  obtain r val s1 where 1: "snd_hctl_elem_read M hp (zero_value\<lparr>value_id := info_id info\<rparr>) s = Some (r, val, s1)"
    using assms(3) by (auto simp: new_selem_item_def split: bind_splits)
  have w1: "well_typed (hworld s1)" by (rule same_slots_typed [OF calls_same_slots(2) [OF 1] assms(2)])
  have sl: "slots_of (hworld (set_rest w s1)) = slots_of (hworld s1)" "m_items (hworld (set_rest w s1)) = m_items (hworld s1)" for w
    by (simp_all add: set_rest_def mix_def slots_of_def fun_eq_iff)
  then have w2: "well_typed (hworld (set_rest w s1))" for w using w1 well_typed_cong by metis
  obtain p w where m: "mx_malloc M (hworld s1) = (p, w)" by force
  show ?thesis
  proof (cases "r < 0 \<or> info_type info \<notin> {TYPE_INTEGER, TYPE_BOOLEAN, TYPE_ENUMERATED} \<or> p = None")
    case True
    then have "q = None \<and> (s' = s1 \<or> s' = set_rest w s1)"
      using assms(3) 1 m unfolding new_selem_item_def by (auto split: if_splits)
    with w1 w2 show ?thesis by auto
  next
    case False
    then obtain x where x: "p = Some x" by auto
    define it where "it body = \<lparr>item_helem = hp, item_numid = id_numid (info_id info), item_channels = info_count info, item_body = body\<rparr>" for body
    obtain body where b: "(if info_type info = TYPE_INTEGER then new_selem_vol_item info val
                  else if info_type info = TYPE_BOOLEAN then new_selem_sw_item info val
                  else new_selem_enum_item info val) = Some body" "q = Some x" "s' = put_item x (it body) (set_rest w s1)"
      using assms(3) 1 m False x by (auto simp: new_selem_item_def it_def split: bind_splits)
    have fr: "m_items (hworld s1) x = None" using assms(1) m x unfolding keeps_slots_def by blast
    have s': "slots_of (hworld s') = slots_of (hworld s1)" "m_items (hworld s') = (m_items (hworld s1))(x \<mapsto> it body)"
      by (simp_all add: b(3) put_item_def set_rest_def mix_def slots_of_def fun_eq_iff)
    then have h: "holds (hworld s') = holds (hworld s1)" "shares (hworld s') = shares (hworld s1)" by (simp_all add: holds_def shares_def fun_eq_iff)
    have no: "\<not> holds (hworld s1) p i x" for p i using well_typed_item [OF w1] fr by fastforce
    have "m_items (hworld s') y = m_items (hworld s1) y" if "holds (hworld s1) p i y" for p i y using no that s'(2) by auto
    then have "well_typed (hworld s')" using w1 by (simp add: well_typed_def h)
    moreover have "case body of Vol _ \<Rightarrow> info_type info = TYPE_INTEGER | Sw _ \<Rightarrow> info_type info = TYPE_BOOLEAN | Enum _ _ \<Rightarrow> info_type info = TYPE_ENUMERATED"
      using b(1) False by (auto simp: new_selem_vol_item_def new_selem_sw_item_def new_selem_enum_item_def split: if_splits bind_splits)
    ultimately show ?thesis using b(2) no h(1) s'(2) by (simp add: get_item_def it_def)
  qed
qed

lemma item_caps_typed:
  assumes "item_caps t dir gflag = Some (caps, ty)" "gflag \<longrightarrow> dir = 0" "dir = 0 \<or> dir = 1"
    "case body of Vol _ \<Rightarrow> t = TYPE_INTEGER | Sw _ \<Rightarrow> t = TYPE_BOOLEAN | Enum _ _ \<Rightarrow> t = TYPE_ENUMERATED"
  shows "slot_type ty body"
    "caps AND (CAP_GVOLUME OR CAP_GSWITCH) \<noteq> 0 \<longrightarrow> ty = ITEM_PVOLUME \<and> caps AND CAP_GVOLUME \<noteq> 0 \<or> ty = ITEM_PSWITCH \<and> caps AND CAP_GSWITCH \<noteq> 0"
  using assms by (auto simp: item_caps_def Let_def push_bit_eq_mult slot_type_def split: if_splits selem_body.splits)

lemma new_elem_typed:
  assumes "well_typed (hworld s)" "new_mixer_elem M name index s = (q, s')"
  shows "well_typed (hworld s')" "get_item s' = get_item s" "\<forall>p i. holds (hworld s') p i x \<longrightarrow> holds (hworld s) p i x"
proof -
  obtain p w where p: "mx_calloc M (hworld s) = (p, w)" by force
  have r: "slots_of (hworld (set_rest w s)) = slots_of (hworld s)" "m_items (hworld (set_rest w s)) = m_items (hworld s)"
    by (simp_all add: set_rest_def mix_def slots_of_def fun_eq_iff)
  have "well_typed (hworld s') \<and> get_item s' = get_item s \<and> (\<forall>p i. holds (hworld s') p i x \<longrightarrow> holds (hworld s) p i x)"
  proof (cases p)
    case None
    with p assms(2) have "s' = set_rest w s" by (simp add: new_mixer_elem_def)
    with r assms(1) show ?thesis using well_typed_cong [OF r] by (simp add: holds_def get_item_def fun_eq_iff)
  next
    case (Some a)
    with p assms(2) have s': "slots_of (hworld s') = (slots_of (hworld s))(a \<mapsto> (replicate 5 None, 0))" "m_items (hworld s') = m_items (hworld s)"
      by (auto simp: new_mixer_elem_def put_elem_def set_rest_def mix_def slots_of_def fun_eq_iff)
    have h: "holds (hworld s') p i y \<longrightarrow> p \<noteq> a \<and> holds (hworld s) p i y" for p i y
      by (auto simp: holds_def s' array_get_eq_Some split: if_splits)
    have sh: "p \<noteq> a \<Longrightarrow> shares (hworld s') p i j = shares (hworld s) p i j" for p i j by (simp add: shares_def s')
    have "well_typed (hworld s')" using assms(1) h sh unfolding well_typed_def s'(2) by blast
    with h s'(2) show ?thesis by (simp add: get_item_def fun_eq_iff)
  qed
  then show "well_typed (hworld s')" "get_item s' = get_item s" "\<forall>p i. holds (hworld s') p i x \<longrightarrow> holds (hworld s) p i x" by simp_all
qed

lemma free_item_typed:
  assumes "well_typed (hworld s)" "\<forall>p i. \<not> holds (hworld s) p i x"
  shows "well_typed (hworld (free_item x s))"
proof -
  let ?m = "hworld (free_item x s)"
  have m: "slots_of ?m = slots_of (hworld s)" "m_items ?m = (m_items (hworld s))(x := None)"
    by (simp_all add: free_item_def mix_def slots_of_def fun_eq_iff)
  then have h: "holds ?m = holds (hworld s)" "shares ?m = shares (hworld s)" by (simp_all add: holds_def shares_def fun_eq_iff)
  have "m_items ?m y = m_items (hworld s) y" if "holds (hworld s) p i y" for p i y using that assms(2) m(2) by auto
  then show ?thesis using assms(1) by (simp add: well_typed_def h)
qed

lemma add_mixer_elem_typed:
  assumes "keeps_slots M" "well_typed (hworld s)" "add_mixer_elem M a s = Some (r, s')"
  shows "well_typed (hworld s')"
proof -
  obtain ok m where m: "enter_elem M a (hworld s) = Some (ok, m)" using assms(3) by (auto simp: add_mixer_elem_def split: bind_splits)
  have w: "well_typed m" using enter_slots [OF m] assms(2) well_typed_cong [of m "hworld s"] by simp
  show ?thesis
  proof (cases ok)
    case True
    with assms(3) m have "snd_mixer_throw_event M MASK_ADD a (s\<lparr>hworld := m\<rparr>) = (r, s')" by (simp add: add_mixer_elem_def)
    from same_slots_typed [OF throw_same_slots(1) [OF assms(1) this]] w show ?thesis by simp
  qed (use assms(3) m w in \<open>auto simp: add_mixer_elem_def\<close>)
qed

lemma add_simple_typed:
  assumes "keeps_slots M" "well_typed (hworld s)" "add_simple_element M hp s = Some (r, s')"
  shows "well_typed (hworld s')"
proof -
  obtain h where h: "hheap s hp = Some h" using assms(3) by (auto simp: add_simple_element_def split: bind_splits)
  obtain name dir gflag where n: "elem_name (id_name (he_id h)) = (name, dir, gflag)" by (rule prod_cases3)
  obtain err info s1 where 1: "snd_hctl_elem_info M hp zero_info s = Some (err, info, s1)"
    using assms(3) h n by (auto simp: add_simple_element_def split: bind_splits)
  have w1: "well_typed (hworld s1)" by (rule same_slots_typed [OF calls_same_slots(1) [OF 1] assms(2)])
  note step = assms(3) [unfolded add_simple_place [OF h n 1]]
  show ?thesis
  proof (cases "err < 0 \<or> item_caps (info_type info) dir gflag = None")
    case True
    with step w1 show ?thesis by (auto split: if_splits)
  next
    case False
    then obtain caps ty where c: "\<not> err < 0" "item_caps (info_type info) dir gflag = Some (caps, ty)" by auto
    obtain q s2 where 2: "new_selem_item M hp info s1 = Some (q, s2)" using step c by (auto split: bind_splits)
    note t2 = new_item_typed [OF assms(1) w1 2]
    show ?thesis
    proof (cases q)
      case None
      with step c 2 t2 show ?thesis by simp
    next
      case (Some x)
      with t2 obtain it where it: "get_item s2 x = Some it" "well_typed (hworld s2)" "\<forall>p i. \<not> holds (hworld s2) p i x"
        "case item_body it of Vol _ \<Rightarrow> info_type info = TYPE_INTEGER
           | Sw _ \<Rightarrow> info_type info = TYPE_BOOLEAN | Enum _ _ \<Rightarrow> info_type info = TYPE_ENUMERATED" by blast
      have d: "dir = 0 \<or> dir = 1" "gflag \<longrightarrow> dir = 0" using elem_name_dir [OF n] by simp_all
      note ct = item_caps_typed [OF c(2) d(2,1) it(4)]
      from step c 2 Some have p: "place_item M name caps ty x s2 = Some (r, s')" by simp
      then obtain found idx where f: "match_loop (hworld s2) name ty (m_pelems (hworld s2)) 0 = Some (found, idx)"
        by (auto simp: place_item_def split: bind_splits)
      show ?thesis
      proof (cases found)
        case (Some elem)
        with p f have "add_cap elem caps ty x s2 = Some s'" by (auto simp: place_item_def split: bind_splits)
        from add_cap_typed [OF this it(2,3,1) ct] show ?thesis .
      next
        case None
        obtain a s3 where a: "new_mixer_elem M name idx s2 = (a, s3)" by force
        note t3 = new_elem_typed [OF it(2) a]
        have no: "\<forall>p i. \<not> holds (hworld s3) p i x" using t3(3) it(3) by blast
        show ?thesis
        proof (cases a)
          case None
          with p f a \<open>found = None\<close> have "s' = free_item x s3" by (simp add: place_item_def)
          then show ?thesis using free_item_typed [OF t3(1) no] by simp
        next
          case (Some elem)
          with p f a \<open>found = None\<close> obtain s4 where s4: "add_cap elem caps ty x s3 = Some s4" "add_mixer_elem M elem s4 = Some (r, s')"
            by (auto simp: place_item_def split: bind_splits)
          have "get_item s3 x = Some it" using t3(2) it(1) by simp
          from add_mixer_elem_typed [OF assms(1) add_cap_typed [OF s4(1) t3(1) no this ct] s4(2)] show ?thesis .
        qed
      qed
    qed
  qed
qed

lemma slot_of_first:
  "slot_of items hp slots k = Some (Some (i, x)) \<Longrightarrow>
     k \<le> i \<and> i < k + length slots \<and> slots ! (i - k) = Some x \<and> (\<forall>j < i - k. slots ! j \<noteq> Some x)"
proof (induction slots arbitrary: k)
  case (Cons sl slots)
  show ?case
  proof (cases "k = i \<and> sl = Some x")
    case False
    then have s: "slot_of items hp slots (Suc k) = Some (Some (i, x))" "sl \<noteq> Some x"
    proof -
      show r: "slot_of items hp slots (Suc k) = Some (Some (i, x))"
        using Cons.prems False by (auto split: option.splits bind_splits if_splits)
      show "sl \<noteq> Some x"
      proof
        assume sl: "sl = Some x"
        from r have "\<exists>it. items x = Some it \<and> item_helem it = hp"
          by (induction slots arbitrary: k) (auto split: option.splits bind_splits if_splits)
        with Cons.prems sl False show False by auto
      qed
    qed
    from Cons.IH [OF s(1)] s(2) show ?thesis
      by (auto simp: less_Suc_eq_0_disj Suc_diff_le nth_Cons' Suc_le_eq)
  qed simp
qed simp

lemma remove_simple_typed:
  assumes "well_typed (hworld s)" "remove_simple_element hp b s = Some (r, s')"
  shows "well_typed (hworld s')"
proof -
  obtain h elem e found where e: "hheap s hp = Some h" "he_private h = Some elem" "get_elem s elem = Some e"
      "slot_of (m_items (hworld s)) hp (e_items e) 0 = Some found"
    using assms(2) by (auto simp: remove_simple_element_def split: bind_splits)
  show ?thesis
  proof (cases found)
    case None
    with assms e show ?thesis by (auto simp: remove_simple_element_def)
  next
    case (Some z)
    obtain i x where z: "z = (i, x)" by force
    have f: "i < length (e_items e)" "e_items e ! i = Some x" "\<forall>j < i. e_items e ! j \<noteq> Some x"
      using slot_of_first [of "m_items (hworld s)" hp "e_items e" 0 i x] e(4) Some z by simp_all
    define items where "items = (let items = (e_items e)[i := None] in
        (if i = ITEM_PVOLUME \<and> e_caps e AND CAP_GVOLUME \<noteq> 0 then items[ITEM_CVOLUME := None]
                       else if i = ITEM_PSWITCH \<and> e_caps e AND CAP_GSWITCH \<noteq> 0 then items[ITEM_CSWITCH := None]
                       else items))"
    define s0 where "s0 = put_elem elem (e\<lparr>e_items := items\<rparr>) s"
    define s1 where "s1 = free_item x s0"
    have sl: "slots_of (hworld s) elem = Some (e_items e, e_caps e)" using e(3) by (simp add: slots_of_def get_elem_def)
    have s0: "slots_of (hworld s0) = (slots_of (hworld s))(elem \<mapsto> (items, e_caps e))" "m_items (hworld s0) = m_items (hworld s)"
      by (simp_all add: s0_def put_elem_def mix_def slots_of_def fun_eq_iff)
    have up: "xs[k := None] ! j = None \<or> xs[k := None] ! j = xs ! j" if "j < length xs" for xs :: "nat option list" and k j
      using that by (cases "k = j") simp_all
    have it: "length items = length (e_items e)" "j < length (e_items e) \<longrightarrow> items ! j = None \<or> items ! j = e_items e ! j" for j
      using up [of j "e_items e" i] up [of j "(e_items e)[i := None]" 1] up [of j "(e_items e)[i := None]" 3] by (auto simp: items_def Let_def)
    have old: "holds (hworld s0) q j y \<longrightarrow> holds (hworld s) q j y" for q j y
      using sl it(2) [of j] by (auto simp: holds_def s0 it(1) array_get_eq_Some split: if_splits)
    have sh: "shares (hworld s0) q j k = shares (hworld s) q j k" for q j k using sl by (simp add: shares_def s0)
    have hx: "holds (hworld s) elem i x" using sl f by (simp add: holds_def)
    have no: "\<not> holds (hworld s0) q j x" for q j
    proof
      assume hq: "holds (hworld s0) q j x"
      with old have hs: "holds (hworld s) q j x" by blast
      with hx assms(1) have q: "q = elem" "i = j \<or> shares (hworld s) elem i j" unfolding well_typed_def by blast+
      have j: "j < length (e_items e)" "e_items e ! j = Some x" using hs q(1) sl by (auto simp: holds_def array_get_eq_Some)
      have "\<not> j < i" using f(3) j(2) by blast
      then have "i = j \<or> i = 0 \<and> j = 1 \<and> e_caps e AND CAP_GVOLUME \<noteq> 0 \<or> i = 2 \<and> j = 3 \<and> e_caps e AND CAP_GSWITCH \<noteq> 0"
        using q(2) sl by (auto simp: shares_def doubleton_eq_iff)
      then have "items ! j = None" using f(1) j(1) by (auto simp: items_def Let_def)
      with hq q(1) show False by (simp add: holds_def s0 array_get_eq_Some)
    qed
    have "well_typed (hworld s0)" using assms(1) old sh unfolding well_typed_def s0(2) by blast
    then have t1: "well_typed (hworld s1)" unfolding s1_def using no by (intro free_item_typed) simp_all
    have "remove_simple_element hp b s = (if \<not> b \<or> list_ex (\<lambda>x. x \<noteq> None) items then Some (0, s1)
        else do { m \<leftarrow> remove_mixer_elem elem (hworld s1); Some (0, s1\<lparr>hworld := m\<rparr>) })"
      using e Some z by (simp add: remove_simple_element_def s1_def s0_def items_def Let_def)
    with assms(2) t1 remove_elem_typed [OF t1, of elem] show ?thesis by (auto split: if_splits bind_splits)
  qed
qed

lemma update_typed:
  assumes "well_typed (hworld s)" "update_simple_element M hp elem s = Some (r, s')"
  shows "well_typed (hworld s')"
proof -
  have sel: "well_typed (hworld s')" if u: "update_selem_item M ty x s = Some (r, s')" for ty x
  proof -
    obtain it where it: "get_item s x = Some it" using u by (auto simp: update_selem_item_def split: bind_splits)
    then obtain err val s1 where 1: "snd_hctl_elem_read M (item_helem it) zero_value s = Some (err, val, s1)"
      using u by (auto simp: update_selem_item_def split: bind_splits)
    note c = calls_same_slots(2) [OF 1]
    have w1: "well_typed (hworld s1)" by (rule same_slots_typed [OF c assms(1)])
    have it1: "get_item s1 x = Some it" using c it by (simp add: get_item_def same_slots_def)
    note p = put_item_typed [OF w1 it1]
    show ?thesis
    proof (cases "err < 0")
      case True
      with u it 1 w1 show ?thesis by (auto simp: update_selem_item_def)
    next
      case False
      with u it 1 show ?thesis
        by (auto simp: update_selem_item_def Let_def split: selem_body.splits if_splits bind_splits intro!: p)
          (simp_all add: slot_type_def)
    qed
  qed
  show ?thesis using assms sel by (auto simp: update_simple_element_def split: bind_splits option.splits)
qed

lemma handlers_typed:
  assumes "keeps_slots M" "well_typed (hworld s)"
  shows "hctl_elem_event_handler M helem evmask s = Some (r, s') \<Longrightarrow> well_typed (hworld s')"
    "hctl_event_handler M f evmask helem s = Some (r, s') \<Longrightarrow> well_typed (hworld s')"
proof -
  note throw = throw_same_slots(2) [OF assms(1)]
  have info: "well_typed (hworld s2)" if i: "info_event M helem elem s1 = Some (r, s2)" "well_typed (hworld s1)" for elem s1 s2 r
  proof -
    obtain r1 t1 r2 t2 r3 t3 where t: "remove_simple_element helem False s1 = Some (r1, t1)" "add_simple_element M helem t1 = Some (r2, t2)"
      "snd_mixer_elem_throw_event M elem MASK_INFO t2 = Some (r3, t3)" using i(1) by (auto simp: info_event_def split: bind_splits)
    have w: "well_typed (hworld t3)"
      using same_slots_typed [OF throw [OF t(3)] add_simple_typed [OF assms(1) remove_simple_typed [OF i(2) t(1)] t(2)]] .
    show ?thesis
    proof (cases "r3 < 0")
      case False
      then obtain m where m: "snd_mixer_sort M (hworld t3) = Some m" "s2 = t3\<lparr>hworld := m\<rparr>"
        using i(1) t by (auto simp: info_event_def split: bind_splits)
      with w well_typed_cong [of m "hworld t3"] sort_slots [OF m(1)] show ?thesis by simp
    qed (use i(1) t w in \<open>auto simp: info_event_def\<close>)
  qed
  have tt: "snd_mixer_elem_throw_event M a ev t = Some (r, t') \<Longrightarrow> well_typed (hworld t) \<Longrightarrow> well_typed (hworld t')" for a ev t r t'
    using same_slots_typed [OF throw] .
  have val: "well_typed (hworld s2)" if "value_event M helem elem s1 = Some (r, s2)" "well_typed (hworld s1)" for elem s1 s2 r
    using that(1) by (auto simp: value_event_def split: bind_splits if_splits dest!: update_typed [OF that(2)] intro: tt)
  have rem: "well_typed (hworld s2)" if "remove_event M helem elem s1 = Some (r, s2)" "well_typed (hworld s1)" for elem s1 s2 r
    using that(1) by (auto simp: remove_event_def split: bind_splits if_splits dest!: tt [OF _ that(2)] intro: remove_simple_typed)
  show "hctl_elem_event_handler M helem evmask s = Some (r, s') \<Longrightarrow> well_typed (hworld s')"
    using assms(2) unfolding hctl_elem_event_handler_def
    by (auto split: bind_splits option.splits if_splits dest: rem val dest!: info [OF _ assms(2)])
  show "hctl_event_handler M f evmask helem s = Some (r, s') \<Longrightarrow> well_typed (hworld s')"
    using assms(2) unfolding hctl_event_handler_def
    by (auto split: bind_splits if_splits dest!: add_simple_typed [OF assms(1), rotated])
qed

end
