(* ===== verification/Hctl_Events.thy ===== *)
theory Hctl_Events
  imports Hctl
begin

text \<open>
  The events of the high-level control interface: the contract of the event handler as an inductive
  relation on lists of identifiers, the refinement of it by \<^verbatim>\<open>snd_hctl_handle_event\<close>, the loading of a handle
  from its device, and the properties of the component.
\<close>

section \<open>Events\<close>

abbreviation known :: "snd_ctl_elem_id list \<Rightarrow> snd_ctl_elem_id \<Rightarrow> bool" where
  "known ids eid \<equiv> \<exists>i \<in> set ids. id_matches i eid"

text \<open>
  What an event does to the list of identifiers, with the status it returns: the contract of
  \<^verbatim>\<open>snd_hctl_handle_event\<close>.
\<close>

inductive event_step :: "snd_ctl_elem_id list \<Rightarrow> snd_ctl_event \<Rightarrow> int \<Rightarrow> snd_ctl_elem_id list \<Rightarrow> bool" where
  ignored: "ev_type ev \<noteq> 0 \<Longrightarrow> event_step ids ev 0 ids"
| removed: "ev_type ev = 0 \<Longrightarrow> ev_mask ev = MASK_REMOVE \<Longrightarrow> id_matches i (ev_id ev) \<Longrightarrow>
    \<not> known is (ev_id ev) \<Longrightarrow> event_step (is @ i # js) ev 0 (is @ js)"
| remove_unknown: "ev_type ev = 0 \<Longrightarrow> ev_mask ev = MASK_REMOVE \<Longrightarrow> \<not> known ids (ev_id ev) \<Longrightarrow> event_step ids ev (- ENOENT) ids"
| out_of_memory: "ev_type ev = 0 \<Longrightarrow> ev_mask ev \<noteq> MASK_REMOVE \<Longrightarrow> ev_mask ev AND MASK_ADD \<noteq> 0 \<Longrightarrow> event_step ids ev (- ENOMEM) ids"
| busy: "ev_type ev = 0 \<Longrightarrow> ev_mask ev \<noteq> MASK_REMOVE \<Longrightarrow> ev_mask ev AND MASK_ADD \<noteq> 0 \<Longrightarrow> known ids (ev_id ev) \<Longrightarrow>
    event_step ids ev (- EBUSY) ids"
| added: "ev_type ev = 0 \<Longrightarrow> ev_mask ev \<noteq> MASK_REMOVE \<Longrightarrow> ev_mask ev AND MASK_ADD \<noteq> 0 \<Longrightarrow> \<not> known ids (ev_id ev) \<Longrightarrow>
    r \<le> 0 \<Longrightarrow> event_step ids ev r (ids @ [ev_id ev])"
| notified: "ev_type ev = 0 \<Longrightarrow> ev_mask ev \<noteq> MASK_REMOVE \<Longrightarrow> ev_mask ev AND MASK_ADD = 0 \<Longrightarrow>
    ev_mask ev AND (MASK_VALUE OR MASK_INFO) \<noteq> 0 \<Longrightarrow> known ids (ev_id ev) \<Longrightarrow>
    r \<le> 0 \<Longrightarrow> event_step ids ev r ids"
| notify_unknown: "ev_type ev = 0 \<Longrightarrow> ev_mask ev AND MASK_ADD = 0 \<Longrightarrow> ev_mask ev AND (MASK_VALUE OR MASK_INFO) \<noteq> 0 \<Longrightarrow>
    \<not> known ids (ev_id ev) \<Longrightarrow> event_step ids ev (- ENOENT) ids"
| nothing: "ev_type ev = 0 \<Longrightarrow> ev_mask ev AND MASK_ADD = 0 \<Longrightarrow> ev_mask ev AND (MASK_VALUE OR MASK_INFO) = 0 \<Longrightarrow>
    event_step ids ev 0 ids"

lemma id_matches_refl [simp]: "id_matches i i"
  by (simp add: id_matches_def)

lemma calloc_elem_ids:
  assumes "fresh_alloc E" "hctl_ids s xs ids" "calloc_elem E s eid = (Some a, s1)"
  shows "hctl_ids s1 xs ids" "a \<notin> set xs" "hheap s1 a = Some (new_elem eid)" "\<forall>b. hheap s1 b = None \<longleftrightarrow> b \<noteq> a \<and> hheap s b = None"
proof -
  obtain w where w: "h_calloc E s = (Some a, w)" and s1: "s1 = (s\<lparr>hheap := (hheap s)(a \<mapsto> new_elem eid)\<rparr>)\<lparr>hworld := w\<rparr>"
    using assms(3) by (auto simp: calloc_elem_def split: prod.splits option.splits)
  have "hheap s a = None" using w assms(1) by (simp add: fresh_alloc_def)
  then show a: "a \<notin> set xs" using dseg_member [OF hctl_ids_fields(2) [OF assms(2)]] by fastforce
  show "hctl_ids s1 xs ids" unfolding s1 hctl_ids_world using assms(2) a by (rule hctl_ids_free)
  show "hheap s1 a = Some (new_elem eid)" "\<forall>b. hheap s1 b = None \<longleftrightarrow> b \<noteq> a \<and> hheap s b = None" by (simp_all add: s1)
qed

lemma calloc_elem_fails: "calloc_elem E s eid = (None, s1) \<Longrightarrow> hctl_ids s xs ids \<Longrightarrow> hctl_ids s1 xs ids"
  by (auto simp: calloc_elem_def split: prod.splits option.splits)

lemma elem_add_ids:
  assumes "polite E" "hctl_ids s xs ids" "a \<notin> set xs" "hheap s a = Some (new_elem eid)" "\<not> known ids eid"
  shows "\<exists>r s'. snd_hctl_elem_add E s a = Some (r, s') \<and> hctl_ids s' (xs @ [a]) (ids @ [eid])"
proof -
  have f: "snd_hctl_find_elem s eid = Some None" using assms(2,5) by (intro find_elem_absent) auto
  from add_elem_list_ids [OF assms(2,3,4)] obtain s1 where
    s1: "add_elem_list a s = Some s1" "hctl_ids s1 (xs @ [a]) (ids @ [eid])" by (auto simp: new_elem_def)
  obtain r s2 where s2: "snd_hctl_throw_event E s1 MASK_ADD a = (r, s2)" by fastforce
  from hctl_ids_same_links [OF throw_event_same_links [OF assms(1) s2] s1(2)] s1 s2 f assms(4) show ?thesis
    by (simp add: snd_hctl_elem_add_def) (simp add: new_elem_def)
qed

lemma elem_add_busy:
  assumes "hctl_ids s xs ids" "hheap s a = Some (new_elem eid)" "known ids eid"
  shows "snd_hctl_elem_add E s a = Some (- EBUSY, s)"
proof -
  from find_elem_present [OF assms(1,3)] obtain b where "snd_hctl_find_elem s eid = Some (Some b)" by metis
  with assms(2) show ?thesis by (simp add: snd_hctl_elem_add_def new_elem_def)
qed

text \<open>The second half: telling the element.\<close>

definition notify :: "'w hctl_env \<Rightarrow> 'w hctl \<Rightarrow> snd_ctl_event \<Rightarrow> (int \<times> 'w hctl) option" where
  "notify E s event =
     (if ev_mask event AND (MASK_VALUE OR MASK_INFO) \<noteq> 0 then do {
           found \<leftarrow> snd_hctl_find_elem s (ev_id event);
           (case found of
              None \<Rightarrow> Some (- ENOENT, s)
            | Some elem \<Rightarrow> do {
                (err, s) \<leftarrow> snd_hctl_elem_throw_event E s elem (ev_mask event AND (MASK_VALUE OR MASK_INFO));
                Some (if err < 0 then err else 0, s) }) }
      else Some (0, s))"

lemma notify_known:
  assumes "polite E" "hctl_ids s xs ids" "known ids (ev_id ev)"
  shows "\<exists>r s'. notify E s ev = Some (r, s') \<and> r \<le> 0 \<and> hctl_ids s' xs ids"
proof (cases "ev_mask ev AND (MASK_VALUE OR MASK_INFO) = 0")
  case True
  with assms show ?thesis by (simp add: notify_def)
next
  case False
  from find_elem_present [OF assms(2,3)] obtain a e where
    a: "snd_hctl_find_elem s (ev_id ev) = Some (Some a)" "hheap s a = Some e" by metis
  from elem_throw_event_same_links [OF assms(1) a(2), of "ev_mask ev AND (MASK_VALUE OR MASK_INFO)"] obtain r s2 where
    s2: "snd_hctl_elem_throw_event E s a (ev_mask ev AND (MASK_VALUE OR MASK_INFO)) = Some (r, s2)" "same_links s s2" by blast
  from hctl_ids_same_links [OF s2(2) assms(2)] s2(1) a False show ?thesis by (simp add: notify_def)
qed

lemma notify_unknown_id:
  assumes "hctl_ids s xs ids" "\<not> known ids (ev_id ev)" "ev_mask ev AND (MASK_VALUE OR MASK_INFO) \<noteq> 0"
  shows "notify E s ev = Some (- ENOENT, s)"
  using find_elem_absent [OF assms(1)] assms(2,3) by (simp add: notify_def)

lemma handle_event_add:
  assumes E: "polite E" "fresh_alloc E" and i: "hctl_ids s xs ids"
    and ev: "ev_type ev = 0" "ev_mask ev \<noteq> MASK_REMOVE" "ev_mask ev AND MASK_ADD \<noteq> 0"
  shows "\<exists>r s' xs' ids'. snd_hctl_handle_event E s ev = Some (r, s') \<and> event_step ids ev r ids' \<and> hctl_ids s' xs' ids'"
proof -
  obtain p s1 where c: "calloc_elem E s (ev_id ev) = (p, s1)" by fastforce
  show ?thesis
  proof (cases p)
    case None
    with c have "snd_hctl_handle_event E s ev = Some (- ENOMEM, s1)" using ev by (simp add: snd_hctl_handle_event_def)
    moreover from calloc_elem_fails [OF c [unfolded None] i] have "hctl_ids s1 xs ids" .
    ultimately show ?thesis using event_step.out_of_memory [OF ev] by blast
  next
    case (Some a)
    note c = calloc_elem_ids [OF E(2) i c [unfolded Some]] c [unfolded Some]
    show ?thesis
    proof (cases "known ids (ev_id ev)")
      case True
      have "snd_hctl_handle_event E s ev = Some (- EBUSY, s1)"
        using ev c(5) elem_add_busy [OF c(1,3) True] by (simp add: snd_hctl_handle_event_def)
      with c(1) event_step.busy [OF ev True] show ?thesis by blast
    next
      case False
      from elem_add_ids [OF E(1) c(1,2,3) False] obtain r s2 where
        s2: "snd_hctl_elem_add E s1 a = Some (r, s2)" "hctl_ids s2 (xs @ [a]) (ids @ [ev_id ev])" by blast
      have k: "known (ids @ [ev_id ev]) (ev_id ev)" by simp
      from notify_known [OF E(1) s2(2) k] obtain r' s3 where
        s3: "notify E s2 ev = Some (r', s3)" "r' \<le> 0" "hctl_ids s3 (xs @ [a]) (ids @ [ev_id ev])" by blast
      have "snd_hctl_handle_event E s ev = (if r < 0 then Some (r, s2) else notify E s2 ev)"
        using ev c(5) s2(1) by (simp add: snd_hctl_handle_event_def notify_def)
      with s2 s3 event_step.added [OF ev False] show ?thesis by (cases "r < 0") (metis less_imp_le, metis)
    qed
  qed
qed

lemma handle_event_refines:
  assumes E: "polite E" "fresh_alloc E" and i: "hctl_ids s xs ids"
  shows "\<exists>r s' xs' ids'. snd_hctl_handle_event E s ev = Some (r, s') \<and> event_step ids ev r ids' \<and> hctl_ids s' xs' ids'"
proof -
  consider "ev_type ev \<noteq> 0" | (rem) "ev_type ev = 0" "ev_mask ev = MASK_REMOVE"
    | (add) "ev_type ev = 0" "ev_mask ev \<noteq> MASK_REMOVE" "ev_mask ev AND MASK_ADD \<noteq> 0"
    | (tell) "ev_type ev = 0" "ev_mask ev \<noteq> MASK_REMOVE" "ev_mask ev AND MASK_ADD = 0" by blast
  then show ?thesis
  proof cases
    case 1
    with i show ?thesis by (auto simp: snd_hctl_handle_event_def intro: event_step.ignored)
  next
    case rem
    show ?thesis
    proof (cases "known ids (ev_id ev)")
      case True
      from find_elem_present [OF i True] obtain a as bs "is" k js where
        f: "snd_hctl_find_elem s (ev_id ev) = Some (Some a)" "xs = as @ a # bs" "ids = is @ k # js" "length as = length is"
          "id_matches k (ev_id ev)" "\<forall>i \<in> set is. \<not> id_matches i (ev_id ev)" by metis
      from elem_remove_ids [OF E(1) i [unfolded f(2,3)] f(4)] obtain s' where
        s': "snd_hctl_elem_remove E s a = Some s'" "hctl_ids s' (as @ bs) (is @ js)" by blast
      have "snd_hctl_handle_event E s ev = Some (0, s')" using rem f(1) s'(1) by (simp add: snd_hctl_handle_event_def)
      with s' event_step.removed [OF rem f(5), of "is" js] f show ?thesis by auto
    next
      case False
      with rem i find_elem_absent [OF i, of "ev_id ev"] event_step.remove_unknown [OF rem False] show ?thesis
        by (auto simp: snd_hctl_handle_event_def)
    qed
  next
    case add
    from handle_event_add [OF E i add] show ?thesis .
  next
    case tell
    have h: "snd_hctl_handle_event E s ev = notify E s ev" using tell by (simp add: snd_hctl_handle_event_def notify_def)
    consider (quiet) "ev_mask ev AND (MASK_VALUE OR MASK_INFO) = 0"
      | (known) "ev_mask ev AND (MASK_VALUE OR MASK_INFO) \<noteq> 0" "known ids (ev_id ev)"
      | (unknown) "ev_mask ev AND (MASK_VALUE OR MASK_INFO) \<noteq> 0" "\<not> known ids (ev_id ev)" by blast
    then show ?thesis
    proof cases
      case quiet
      with event_step.nothing [OF tell(1,3) quiet] h i show ?thesis by (auto simp: notify_def)
    next
      case known
      from notify_known [OF E(1) i known(2)] event_step.notified [OF tell known] h show ?thesis by fastforce
    next
      case unknown
      from notify_unknown_id [OF i unknown(2,1)] event_step.notify_unknown [OF tell(1,3) unknown] h i show ?thesis by auto
    qed
  qed
qed

text \<open>Whatever the events, no two elements of the list answer to the same identifier.\<close>

definition ids_unique :: "snd_ctl_elem_id list \<Rightarrow> bool" where
  "ids_unique ids \<longleftrightarrow> (\<forall>i < length ids. \<forall>j < i. \<not> id_matches (ids ! j) (ids ! i))"

lemma ids_unique_conv: "ids_unique ids \<longleftrightarrow> sorted_wrt (\<lambda>a b. \<not> id_matches a b) ids"
  unfolding ids_unique_def sorted_wrt_iff_nth_less by blast

lemma event_step_unique: "event_step ids ev r ids' \<Longrightarrow> ids_unique ids \<Longrightarrow> ids_unique ids'"
  by (induction rule: event_step.induct) (auto simp: ids_unique_conv sorted_wrt_append)

section \<open>Loading\<close>

text \<open>The control device lists the elements \<open>ids\<close>: the documented behaviour of \<^verbatim>\<open>SNDRV_CTL_IOCTL_ELEM_LIST\<close>.\<close>

definition lists_elems :: "'w hctl_env \<Rightarrow> snd_ctl_elem_id list \<Rightarrow> bool" where
  "lists_elems E ids \<longleftrightarrow> length ids < 2 ^ 32 \<and>
     (\<forall>l w. case c_elem_list E l w of (ret, errno, l', w') \<Rightarrow>
        if ret < 0 then 0 < errno
        else el_offset l = 0 \<longrightarrow> el_offset l' = 0 \<and> el_space l' = el_space l \<and> el_count l' = of_nat (length ids) \<and>
          el_used l' = min (el_space l) (of_nat (length ids)) \<and>
          el_pids l' = take (unat (el_used l')) ids @ drop (unat (el_used l')) (el_pids l))"

definition subscribes :: "'w hctl_env \<Rightarrow> bool" where
  "subscribes E \<longleftrightarrow> (\<forall>b w. case c_subscribe E b w of (ret, errno, w') \<Rightarrow> ret < 0 \<longrightarrow> 0 < errno)"

lemma elem_list_call:
  assumes "lists_elems E ids" "el_offset l = 0"
  shows "\<exists>r l' w'. snd_ctl_elem_list0 E l w = (r, l', w') \<and> (r < 0 \<or> r = 0 \<and> el_offset l' = 0 \<and> el_count l' = of_nat (length ids) \<and>
     el_used l' = min (el_space l) (of_nat (length ids)) \<and>
     el_pids l' = take (unat (el_used l')) ids @ drop (unat (el_used l')) (el_pids l))"
proof -
  obtain ret errno l' w' where c: "c_elem_list E l w = (ret, errno, l', w')" by (metis prod_cases4)
  have "case c_elem_list E l w of (ret, errno, l', w') \<Rightarrow>
        if ret < 0 then 0 < errno
        else el_offset l = 0 \<longrightarrow> el_offset l' = 0 \<and> el_space l' = el_space l \<and> el_count l' = of_nat (length ids) \<and>
          el_used l' = min (el_space l) (of_nat (length ids)) \<and>
          el_pids l' = take (unat (el_used l')) ids @ drop (unat (el_used l')) (el_pids l)"
    using assms(1) by (simp add: lists_elems_def)
  with c assms(2) show ?thesis by (cases "ret < 0") (auto simp: snd_ctl_elem_list0_def)
qed

lemma elem_list_loop_lists:
  assumes "lists_elems E ids" "el_offset l = 0" "el_count l = of_nat (length ids)" "el_used l = 0" "el_pids l = []"
  shows "\<exists>r l' w'. elem_list_loop E l w = Some (r, l', w') \<and>
     (r < 0 \<or> r = 0 \<and> el_count l' = of_nat (length ids) \<and> el_pids l' = ids)"
proof (cases "ids = []")
  case True
  with assms show ?thesis by (simp add: elem_list_loop.simps)
next
  case False
  have u: "unat (of_nat (length ids) :: u32) = length ids"
    using assms(1) by (simp add: lists_elems_def unsigned_of_nat take_bit_nat_eq_self)
  then have ne: "(of_nat (length ids) :: u32) \<noteq> 0" using False by (metis length_0_conv unat_0)
  obtain ok w1 where a: "c_calloc_ids E (el_count l) w = (ok, w1)" by fastforce
  show ?thesis
  proof (cases ok)
    case f: False
    then have "elem_list_loop E l w = Some (- ENOMEM, l\<lparr>el_pids := [], el_space := 0\<rparr>, w1)"
      using a ne assms by (simp add: elem_list_loop.simps [of E l] snd_ctl_elem_list_alloc_space_def)
    then show ?thesis by simp
  next
    case True
    define l1 where "l1 = l\<lparr>el_pids := replicate (length ids) zero_id, el_space := of_nat (length ids)\<rparr>"
    have s: "snd_ctl_elem_list_alloc_space E l (el_count l) w = (0, l1, w1)"
      using a True u assms(3) by (simp add: snd_ctl_elem_list_alloc_space_def l1_def)
    from elem_list_call [OF assms(1), of l1 w1] obtain r l' w' where
      c: "snd_ctl_elem_list0 E l1 w1 = (r, l', w')" "r < 0 \<or> r = 0 \<and> el_count l' = of_nat (length ids) \<and>
        el_used l' = of_nat (length ids) \<and> el_pids l' = take (unat (el_used l')) ids @ drop (unat (el_used l')) (el_pids l1)"
      using assms(2) by (auto simp: l1_def)
    have "elem_list_loop E l w = (if r < 0 then Some (r, l', w') else elem_list_loop E l' w')"
      using s c(1) ne assms(3,4) by (simp add: elem_list_loop.simps [of E l])
    with c(2) u show ?thesis by (auto simp: elem_list_loop.simps [of E l'] l1_def)
  qed
qed

lemma load_elems_ids:
  assumes "polite E" "fresh_alloc E"
  shows "hctl_ids s xs ids0 \<Longrightarrow> idx + n \<le> length pids \<Longrightarrow>
   \<exists>r s' ys is. load_elems E pids n idx s = Some (r, s') \<and> hctl_ids s' (xs @ ys) (ids0 @ is) \<and>
     (\<forall>b. hheap s' b = None \<longleftrightarrow> b \<notin> set ys \<and> hheap s b = None) \<and> (\<forall>b \<in> set ys. hheap s b = None) \<and>
     (r = - ENOMEM \<or> r = 0 \<and> is = take n (drop idx pids))"
proof (induction n arbitrary: idx s xs ids0)
  case 0
  then show ?case by (intro exI [of _ 0] exI [of _ s] exI [of _ "[]"]) simp
next
  case (Suc n)
  have g: "array_get pids idx = Some (pids ! idx)" using Suc.prems(2) by (simp add: array_get_def)
  obtain p s1 where c: "calloc_elem E s (pids ! idx) = (p, s1)" by fastforce
  show ?case
  proof (cases p)
    case None
    from calloc_elem_fails [OF c [unfolded None] Suc.prems(1)] c [unfolded None] g show ?thesis
      by (intro exI [of _ "- ENOMEM"] exI [of _ s1] exI [of _ "[]"])
        (auto simp: calloc_elem_def split: prod.splits option.splits)
  next
    case (Some a)
    note c = calloc_elem_ids [OF assms(2) Suc.prems(1) c [unfolded Some]] c [unfolded Some]
    have na: "hheap s a = None" using c(5) assms(2) by (auto simp: calloc_elem_def fresh_alloc_def split: prod.splits option.splits)
    from add_elem_list_ids [OF c(1,2,3)] obtain s2 where
      s2: "add_elem_list a s1 = Some s2" "hctl_ids s2 (xs @ [a]) (ids0 @ [pids ! idx])" "\<forall>b. hheap s2 b = None \<longleftrightarrow> hheap s1 b = None"
      by (auto simp: new_elem_def)
    from Suc.IH [OF s2(2), of "Suc idx"] Suc.prems(2) obtain r s' ys "is" where
      r: "load_elems E pids n (Suc idx) s2 = Some (r, s')" "hctl_ids s' (xs @ a # ys) (ids0 @ (pids ! idx) # is)"
        "\<forall>b. hheap s' b = None \<longleftrightarrow> b \<notin> set ys \<and> hheap s2 b = None" "\<forall>b \<in> set ys. hheap s2 b = None"
        "r = - ENOMEM \<or> r = 0 \<and> is = take n (drop (Suc idx) pids)" by auto
    have d: "take (Suc n) (drop idx pids) = (pids ! idx) # take n (drop (Suc idx) pids)"
      using Suc.prems(2) by (metis Cons_nth_drop_Suc Suc_le_lessD add_Suc_right le_add1 le_trans add_leD1 take_Suc_Cons Suc_le_eq not_less_eq_eq)
    show ?thesis
      using g c(5) s2(1) r s2(3) c(4) na d
      by (intro exI [of _ r] exI [of _ s'] exI [of _ "a # ys"] exI [of _ "(pids ! idx) # is"]) auto
  qed
qed

lemma same_links_trans: "same_links s s1 \<Longrightarrow> same_links s1 s2 \<Longrightarrow> same_links s s2"
  by (simp add: same_links_def)

lemma announce_same_links:
  assumes "polite E"
  shows "dseg (hheap s) p xs None \<Longrightarrow> \<exists>s'. announce_loop E (first_of None xs) s = Some s' \<and> same_links s s'"
proof (induction xs arbitrary: p s)
  case Nil
  then show ?case by (simp add: announce_loop.simps)
next
  case (Cons a as)
  obtain r s1 where t: "snd_hctl_throw_event E s MASK_ADD a = (r, s1)" by fastforce
  note l = throw_event_same_links [OF assms t]
  from dseg_same_links [OF l Cons.prems] obtain e where e: "hheap s1 a = Some e" "he_next e = first_of None as"
    "dseg (hheap s1) (Some a) as None" by (auto simp: first_of_def)
  from Cons.IH [OF e(3)] obtain s2 where "announce_loop E (first_of None as) s1 = Some s2" "same_links s1 s2" by blast
  with t e same_links_trans [OF l] show ?case by (simp add: announce_loop.simps [of E "Some a"])
qed

text \<open>The handle \<open>s'\<close> holds \<open>ids\<close> in memory it has allocated since \<open>s\<close>, and has nothing else allocated since.\<close>

definition grown :: "'w hctl \<Rightarrow> 'w hctl \<Rightarrow> snd_ctl_elem_id list \<Rightarrow> bool" where
  "grown s s' ids \<longleftrightarrow> (\<exists>xs. hctl_ids s' xs ids \<and> (\<forall>b \<in> set xs. hheap s b = None) \<and>
     (\<forall>b. hheap s' b = None \<longleftrightarrow> b \<notin> set xs \<and> hheap s b = None))"

lemma grown_world [simp]: "grown s (s'\<lparr>hworld := w\<rparr>) ids = grown s s' ids"
  by (simp add: grown_def)

lemma grown_same_links:
  assumes "same_links s1 s2" "grown s s1 ids"
  shows "grown s s2 ids"
proof -
  from assms(2) obtain xs where x: "hctl_ids s1 xs ids" "\<forall>b \<in> set xs. hheap s b = None"
    "\<forall>b. hheap s1 b = None \<longleftrightarrow> b \<notin> set xs \<and> hheap s b = None" by (auto simp: grown_def)
  with hctl_ids_same_links [OF assms(1) x(1)] same_links_dom [OF assms(1)] show ?thesis unfolding grown_def by auto
qed

lemma grown_start: "hctl_ids s [] [] \<Longrightarrow> grown s s []"
  by (force simp: grown_def)

lemma grown_free:
  assumes "polite E" "grown s s1 is"
  shows "\<exists>s2. snd_hctl_free E s1 = Some (0, s2) \<and> hctl_ids s2 [] [] \<and> (\<forall>b. hheap s2 b = None \<longleftrightarrow> hheap s b = None)"
proof -
  from assms(2) obtain xs where x: "hctl_ids s1 xs is" "\<forall>b \<in> set xs. hheap s b = None"
    "\<forall>b. hheap s1 b = None \<longleftrightarrow> b \<notin> set xs \<and> hheap s b = None" by (auto simp: grown_def)
  from hctl_free_ids [OF assms(1) x(1)] obtain s2 where
    s2: "snd_hctl_free E s1 = Some (0, s2)" "hctl_ids s2 [] []" "\<forall>b. hheap s2 b = None \<longleftrightarrow> b \<in> set xs \<or> hheap s1 b = None" by blast
  have "hheap s2 b = None \<longleftrightarrow> hheap s b = None" for b using x(2,3) s2(3) by (cases "b \<in> set xs") simp_all
  with s2 show ?thesis by blast
qed

lemma load_list_ids:
  assumes E: "polite E" "fresh_alloc E" "subscribes E" and i: "hctl_ids s [] []"
    and l: "el_pids l = ids" "unat (el_count l) = length ids"
  shows "\<exists>r s' is. load_list E l s = Some (r, s') \<and> grown s s' is \<and> (r < 0 \<or> r = 0 \<and> is = ids)"
proof -
  from load_elems_ids [OF E(1,2), of s "[]" "[]" 0 "length ids" ids] i obtain r s1 ys "is" where
    c: "load_elems E ids (length ids) 0 s = Some (r, s1)" "hctl_ids s1 ys is" "r = - ENOMEM \<or> r = 0 \<and> is = ids"
    and ys: "\<forall>b. hheap s1 b = None \<longleftrightarrow> b \<notin> set ys \<and> hheap s b = None" "\<forall>b \<in> set ys. hheap s b = None" by auto
  have g: "grown s s1 is" using c(2) ys unfolding grown_def by blast
  show ?thesis
  proof (cases "r < 0")
    case True
    with c g l show ?thesis by (auto simp: load_list_def)
  next
    case False
    from announce_same_links [OF E(1) hctl_ids_fields(2) [OF c(2)]] hctl_ids_fields(3) [OF c(2)] obtain s2 where
      s2: "announce_loop E (first_elem s1) s1 = Some s2" "same_links s1 s2" by auto
    obtain ret errno w where w: "c_subscribe E 1 (hworld s2) = (ret, errno, w)" by (metis prod_cases3)
    have "ret < 0 \<Longrightarrow> 0 < errno" using E(3) w unfolding subscribes_def by (metis (no_types, lifting) case_prod_conv)
    moreover have "load_list E l s = Some (if ret < 0 then - errno else 0, s2\<lparr>hworld := w\<rparr>)"
      using c(1) l False s2(1) w by (simp add: load_list_def subscribe_events_def)
    ultimately show ?thesis using grown_same_links [OF s2(2) g] c(3) False by (cases "ret < 0") fastforce+
  qed
qed

lemma load_body_ids:
  assumes E: "polite E" "fresh_alloc E" "lists_elems E ids" "subscribes E" and i: "hctl_ids s [] []"
  shows "\<exists>r s' is. load_body E s = Some (r, s') \<and> grown s s' is \<and> (r < 0 \<or> r = 0 \<and> is = ids)"
proof -
  let ?l0 = "\<lparr>el_offset = 0, el_space = 0, el_used = 0, el_count = 0, el_pids = []\<rparr>"
  from elem_list_call [OF E(3), of ?l0 "hworld s"] obtain r l w where
    c: "snd_ctl_elem_list0 E ?l0 (hworld s) = (r, l, w)" "r < 0 \<or> r = 0 \<and> el_offset l = 0 \<and>
      el_count l = of_nat (length ids) \<and> el_used l = 0 \<and> el_pids l = []" by auto
  show ?thesis
  proof (cases "r < 0")
    case True
    with c grown_start [OF i] show ?thesis by (auto simp: load_body_def)
  next
    case False
    from elem_list_loop_lists [OF E(3), of l w] c(2) False obtain r2 l2 w2 where
      c2: "elem_list_loop E l w = Some (r2, l2, w2)" "r2 < 0 \<or> r2 = 0 \<and> el_count l2 = of_nat (length ids) \<and> el_pids l2 = ids"
      by auto
    have u: "unat (of_nat (length ids) :: u32) = length ids"
      using E(3) by (simp add: lists_elems_def unsigned_of_nat take_bit_nat_eq_self)
    have b: "load_body E s = (if r2 < 0 then Some (r2, s\<lparr>hworld := w2\<rparr>) else load_list E l2 (s\<lparr>hworld := w2\<rparr>))"
      using c(1) c2(1) False by (simp add: load_body_def)
    show ?thesis
    proof (cases "r2 < 0")
      case True
      with b grown_start [OF i] show ?thesis by auto
    next
      case r2: False
      from load_list_ids [OF E(1,2,4), of "s\<lparr>hworld := w2\<rparr>" l2 ids] i c2(2) u r2 b show ?thesis
        by (auto simp: grown_def)
    qed
  qed
qed

lemma hctl_load_outcome:
  assumes E: "polite E" "fresh_alloc E" "lists_elems E ids" "subscribes E" and i: "hctl_ids s [] []"
  shows "\<exists>r s'. snd_hctl_load E s = Some (r, s') \<and>
     (r < 0 \<and> hctl_ids s' [] [] \<and> (\<forall>b. hheap s' b = None \<longleftrightarrow> hheap s b = None) \<or> r = 0 \<and> (\<exists>xs. hctl_ids s' xs ids))"
proof -
  from load_body_ids [OF assms] obtain r s1 "is" where
    b: "load_body E s = Some (r, s1)" "grown s s1 is" "r < 0 \<or> r = 0 \<and> is = ids" by blast
  show ?thesis
  proof (cases "r < 0")
    case True
    with grown_free [OF E(1) b(2)] b(1) show ?thesis by (auto simp: snd_hctl_load_def)
  next
    case False
    with b show ?thesis by (auto simp: snd_hctl_load_def grown_def)
  qed
qed

section \<open>Handling events\<close>

text \<open>A property of the world that the callbacks and the allocator keep is kept by the handling of an event.\<close>

definition keeps_world :: "'w hctl_env \<Rightarrow> ('w \<Rightarrow> bool) \<Rightarrow> bool" where
  "keeps_world E Q \<longleftrightarrow> (\<forall>m a s. Q (hworld s) \<longrightarrow> Q (hworld (snd (cb_hctl E m a s)))) \<and>
     (\<forall>f a m s. Q (hworld s) \<longrightarrow> Q (hworld (snd (cb_elem E f a m s)))) \<and> (\<forall>s. Q (hworld s) \<longrightarrow> Q (snd (h_calloc E s)))"

lemma add_elem_list_world: "add_elem_list a s = Some s' \<Longrightarrow> hworld s' = hworld s"
  by (auto simp: add_elem_list_def Let_def split: option.splits bind_splits)

lemma del_elem_list_world: "del_elem_list a s = Some s' \<Longrightarrow> hworld s' = hworld s"
  by (auto simp: del_elem_list_def Let_def split: option.splits bind_splits)

lemma throw_world:
  assumes "keeps_world E Q" "Q (hworld s)"
  shows "Q (hworld (snd (snd_hctl_throw_event E s m a)))"
    "snd_hctl_elem_throw_event E s a m = Some (r, s') \<Longrightarrow> Q (hworld s')"
    "Q (hworld (snd (calloc_elem E s eid)))"
proof -
  show "Q (hworld (snd (snd_hctl_throw_event E s m a)))"
    using assms by (simp add: keeps_world_def snd_hctl_throw_event_def)
  show "Q (hworld s')" if "snd_hctl_elem_throw_event E s a m = Some (r, s')"
    using that assms by (auto simp: keeps_world_def snd_hctl_elem_throw_event_def split: option.splits bind_splits) (metis snd_conv)+
  show "Q (hworld (snd (calloc_elem E s eid)))"
    using assms by (auto simp: keeps_world_def calloc_elem_def split: prod.splits option.splits)
qed

lemma handle_event_world:
  assumes k: "keeps_world E Q" and q: "Q (hworld s)" and h: "snd_hctl_handle_event E s ev = Some (r, s')"
  shows "Q (hworld s')"
proof -
  have rm: "snd_hctl_elem_remove E s a = Some s1 \<Longrightarrow> Q (hworld s1)" for a s1
    using throw_world(2) [OF k] q
    by (auto simp: snd_hctl_elem_remove_def dest!: del_elem_list_world split: bind_splits) metis
  have ad: "Q (hworld s0) \<Longrightarrow> snd_hctl_elem_add E s0 a = Some (r1, s1) \<Longrightarrow> Q (hworld s1)" for a s0 r1 s1
    using throw_world(1) [OF k]
    by (auto simp: snd_hctl_elem_add_def dest!: add_elem_list_world split: bind_splits if_splits) (metis snd_conv)
  have nt: "Q (hworld s0) \<Longrightarrow> notify E s0 ev = Some (r1, s1) \<Longrightarrow> Q (hworld s1)" for s0 r1 s1
    using throw_world(2) [OF k] by (auto simp: notify_def split: bind_splits if_splits option.splits)
  have ca: "calloc_elem E s (ev_id ev) = (p, s1) \<Longrightarrow> Q (hworld s1)" for p s1
    using throw_world(3) [OF k q] by (metis snd_conv)
  show ?thesis
    using h q unfolding snd_hctl_handle_event_def notify_def [symmetric]
    by (auto split: if_splits bind_splits option.splits prod.splits dest: rm dest!: ca intro: nt [OF ad] ad nt)
qed

text \<open>Events come in a finite number, and neither callbacks nor the allocator add to them.\<close>

definition drains :: "'w hctl_env \<Rightarrow> ('w \<Rightarrow> nat) \<Rightarrow> bool" where
  "drains E m \<longleftrightarrow> (\<forall>w. case c_read E w of (res, errno, ev, w') \<Rightarrow> if 0 < res then m w' < m w else 0 \<le> errno) \<and>
     (\<forall>k. keeps_world E (\<lambda>w. m w \<le> k))"

abbreviation event_steps :: "snd_ctl_elem_id list \<Rightarrow> snd_ctl_elem_id list \<Rightarrow> bool" where
  "event_steps \<equiv> (\<lambda>ids ids'. \<exists>ev r. event_step ids ev r ids')\<^sup>*\<^sup>*"

lemma event_steps_unique: "event_steps ids ids' \<Longrightarrow> ids_unique ids \<Longrightarrow> ids_unique ids'"
  by (induction rule: rtranclp_induct) (auto intro: event_step_unique)

lemma handle_events_loop_refines:
  assumes E: "polite E" "fresh_alloc E" "drains E m"
  shows "hctl_ids s xs ids \<Longrightarrow>
   \<exists>r s' xs' ids'. handle_events_loop E n s = Some (r, s') \<and> event_steps ids ids' \<and> hctl_ids s' xs' ids'"
proof (induction "m (hworld s)" arbitrary: n s xs ids rule: less_induct)
  case less
  obtain res errno ev w where rd: "c_read E (hworld s) = (res, errno, ev, w)" by (metis prod_cases4)
  have "case c_read E (hworld s) of (res, errno, ev, w') \<Rightarrow> if 0 < res then m w' < m (hworld s) else 0 \<le> errno"
    using E(3) unfolding drains_def by (elim conjE allE)
  then have dec: "0 < res \<Longrightarrow> m w < m (hworld s)" and errno: "\<not> 0 < res \<Longrightarrow> 0 \<le> errno" using rd by simp_all
  define s1 where "s1 = s\<lparr>hworld := w\<rparr>"
  have i1: "hctl_ids s1 xs ids" using less.prems by (simp add: s1_def)
  from handle_event_refines [OF E(1,2) i1, of ev] obtain r s2 ys ids2 where
    s2: "snd_hctl_handle_event E s1 ev = Some (r, s2)" "event_step ids ev r ids2" "hctl_ids s2 ys ids2" by blast
  have "keeps_world E (\<lambda>w'. m w' \<le> m w)" using E(3) by (simp add: drains_def)
  from handle_event_world [OF this _ s2(1)] have le: "m (hworld s2) \<le> m w" by (simp add: s1_def)
  show ?case
  proof (cases "0 < res")
    case True
    have lp: "handle_events_loop E n s = (if r < 0 then Some (r, s2) else handle_events_loop E (n + 1) s2)"
      using rd True s2(1) by (simp add: handle_events_loop.simps [of E n s] snd_ctl_read_def s1_def)
    show ?thesis
    proof (cases "r < 0")
      case True
      moreover have "event_steps ids ids2" using s2(2) by blast
      ultimately show ?thesis using lp s2 by auto
    next
      case False
      from less.hyps [OF _ s2(3)] le dec [OF True] obtain r' s' xs' ids' where
        "handle_events_loop E (n + 1) s2 = Some (r', s')" "event_steps ids2 ids'" "hctl_ids s' xs' ids'" by fastforce
      moreover have "event_steps ids ids2" using s2(2) by blast
      ultimately show ?thesis using lp False by (auto intro: rtranclp_trans)
    qed
  next
    case False
    then have "\<exists>r. handle_events_loop E n s = Some (r, s1)"
      using rd errno [OF False] by (simp add: handle_events_loop.simps [of E n s] snd_ctl_read_def s1_def Let_def)
    with i1 show ?thesis by blast
  qed
qed

section \<open>An environment\<close>

text \<open>
  A device with the elements \<open>ids\<close> whose pending events are the world; its allocator hands out the first
  of \<open>n\<close> addresses that is free, and its callbacks do nothing.
\<close>

definition plain_env :: "snd_ctl_elem_id list \<Rightarrow> nat \<Rightarrow> snd_ctl_event list hctl_env" where
  "plain_env ids n =
     \<lparr>cb_hctl = \<lambda>m a s. (0, s),
      cb_elem = \<lambda>f a m s. (0, s),
      h_calloc = \<lambda>s. (find (\<lambda>a. hheap s a = None) [0..<n], hworld s),
      c_elem_list = \<lambda>l w. (let n = min (el_space l) (of_nat (length ids)) in
        (0, 0, l\<lparr>el_count := of_nat (length ids), el_used := n, el_pids := take (unat n) ids @ drop (unat n) (el_pids l)\<rparr>, w)),
      c_calloc_ids = \<lambda>k w. (True, w),
      c_subscribe = \<lambda>b w. (0, 0, w),
      c_read = \<lambda>w. (case w of [] \<Rightarrow> (- 1, EAGAIN, \<lparr>ev_type = 0, ev_mask = 0, ev_id = zero_id\<rparr>, [])
                             | ev # w \<Rightarrow> (72, 0, ev, w))\<rparr>"

definition empty_hctl :: "'w \<Rightarrow> 'w hctl" where
  "empty_hctl w = \<lparr>hheap = Map.empty, first_elem = None, last_elem = None, hctl_count = 0, hctl_callback = False, hworld = w\<rparr>"

lemma plain_env_polite: "polite (plain_env ids n)"
  by (simp add: polite_def plain_env_def)

lemma plain_env_fresh: "fresh_alloc (plain_env ids n)"
  by (auto simp: fresh_alloc_def plain_env_def find_Some_iff)

lemma plain_env_lists: "length ids < 2 ^ 32 \<Longrightarrow> lists_elems (plain_env ids n) ids"
  by (simp add: lists_elems_def plain_env_def Let_def)

lemma plain_env_subscribes: "subscribes (plain_env ids n)"
  by (simp add: subscribes_def plain_env_def)

lemma plain_env_drains: "drains (plain_env ids n) length"
  by (simp add: drains_def plain_env_def keeps_world_def split: list.splits)

lemma empty_hctl_ids: "hctl_ids (empty_hctl w) [] []"
  by (simp add: hctl_ids_def hctl_list_def empty_hctl_def)

section \<open>Properties\<close>

text \<open>Entering an element of the heap into a handle appends it to the doubly linked list, taking it out again
  restores the list; both are defined on every list that is in order, whatever its length, and never
  dereference a pointer that is not allocated.\<close>

theorem elem_list_roundtrip:
  assumes "hctl_list s xs" "hheap s a \<noteq> None" "a \<notin> set xs"
  shows "\<exists>s1 s2. add_elem_list a s = Some s1 \<and> hctl_list s1 (xs @ [a]) \<and> del_elem_list a s1 = Some s2 \<and> hctl_list s2 xs"
proof -
  from assms(2) obtain e where "hheap s a = Some e" by blast
  from add_elem_list_appends [OF assms(1,3) this] obtain s1 where s1: "add_elem_list a s = Some s1" "hctl_list s1 (xs @ [a])" by blast
  from del_elem_list_removes [of s1 xs a "[]"] s1 show ?thesis by auto
qed

theorem elem_list_roundtrip_witness:
  "\<exists>s1 s2. add_elem_list 5 ((empty_hctl ())\<lparr>hheap := [5 \<mapsto> new_elem zero_id]\<rparr>) = Some s1 \<and> hctl_list s1 [5] \<and>
     del_elem_list 5 s1 = Some s2 \<and> hctl_list s2 []"
  using elem_list_roundtrip [of "(empty_hctl ())\<lparr>hheap := [5 \<mapsto> new_elem zero_id]\<rparr>" "[]" 5]
  by (simp add: hctl_list_def empty_hctl_def)

text \<open>\<^verbatim>\<open>snd_hctl_find_elem\<close> is a search of the list of elements in order: it returns the first element whose
  interface, index and name are those asked for, and a null pointer when there is none.\<close>

theorem find_elem_is_find:
  assumes "hctl_list s xs"
  shows "snd_hctl_find_elem s eid =
     Some (find (\<lambda>a. case hheap s a of None \<Rightarrow> False | Some e \<Rightarrow>
       id_iface (he_id e) = id_iface eid \<and> id_index (he_id e) = id_index eid \<and> id_name (he_id e) = id_name eid) xs)"
proof -
  have "(\<lambda>a. case hheap s a of None \<Rightarrow> False | Some e \<Rightarrow>
      id_iface (he_id e) = id_iface eid \<and> id_index (he_id e) = id_index eid \<and> id_name (he_id e) = id_name eid) =
    (\<lambda>a. \<exists>e. hheap s a = Some e \<and> id_matches (he_id e) eid)" by (auto simp: fun_eq_iff id_matches_def split: option.splits)
  moreover have "dseg (hheap s) None xs None" "first_elem s = first_of None xs" using assms by (simp_all add: hctl_list_def)
  ultimately show ?thesis by (simp add: snd_hctl_find_elem_def find_elem_loop_dseg)
qed

theorem find_elem_is_find_witness:
  "snd_hctl_find_elem \<lparr>hheap = [3 \<mapsto> new_elem zero_id], first_elem = Some 3, last_elem = Some 3, hctl_count = 1,
     hctl_callback = False, hworld = ()\<rparr> zero_id = Some (Some 3)"
  by (subst find_elem_is_find [where xs = "[3]"]) (simp_all add: hctl_list_def new_elem_def)

text \<open>C3.
  Handling an event refines the abstract list of identifiers: whatever the event, whether memory is to be
  had and whatever the callbacks answer, the handler returns, with a status and a new list that the
  contract \<^const>\<open>event_step\<close> allows, and the links are in order.\<close>

theorem handle_event_contract:
  assumes "polite E" "fresh_alloc E" "hctl_ids s xs ids"
  shows "\<exists>r s' xs' ids'. snd_hctl_handle_event E s ev = Some (r, s') \<and> event_step ids ev r ids' \<and> hctl_ids s' xs' ids'"
  using handle_event_refines [OF assms] .

theorem handle_event_contract_witness:
  "\<exists>r s' xs' ids'. snd_hctl_handle_event (plain_env [] 1) (empty_hctl []) \<lparr>ev_type = 0, ev_mask = MASK_ADD, ev_id = zero_id\<rparr> =
     Some (r, s') \<and> event_step [] \<lparr>ev_type = 0, ev_mask = MASK_ADD, ev_id = zero_id\<rparr> r ids' \<and> hctl_ids s' xs' ids'"
  by (rule handle_event_contract [OF plain_env_polite plain_env_fresh empty_hctl_ids])

text \<open>C37.
  When the device has finitely many events pending, \<^verbatim>\<open>snd_hctl_handle_events\<close> returns, the list has gone
  through steps of the contract, and no two of its elements answer to the same identifier if none did before.\<close>

theorem handle_events_return:
  assumes "polite E" "fresh_alloc E" "drains E m" "hctl_ids s xs ids" "ids_unique ids"
  shows "\<exists>r s' xs' ids'. snd_hctl_handle_events E s = Some (r, s') \<and> event_steps ids ids' \<and> hctl_ids s' xs' ids' \<and> ids_unique ids'"
  using handle_events_loop_refines [OF assms(1-4), of 0] event_steps_unique [OF _ assms(5)]
  unfolding snd_hctl_handle_events_def by blast

theorem handle_events_return_witness:
  "\<exists>r s' xs' ids'. snd_hctl_handle_events (plain_env [] 4)
       (empty_hctl [\<lparr>ev_type = 0, ev_mask = MASK_ADD, ev_id = zero_id\<rparr>, \<lparr>ev_type = 0, ev_mask = MASK_REMOVE, ev_id = zero_id\<rparr>]) =
     Some (r, s') \<and> event_steps [] ids' \<and> hctl_ids s' xs' ids' \<and> ids_unique ids'"
  by (rule handle_events_return [OF plain_env_polite plain_env_fresh plain_env_drains empty_hctl_ids]) (simp add: ids_unique_def)

text \<open>C8.
  \<^verbatim>\<open>snd_hctl_load\<close> ends; on success the handle holds exactly the elements of the device, in its order; on any
  failure, of the device, the allocator or the subscription, it is empty and everything allocated is freed.\<close>

theorem hctl_load_all_or_nothing:
  assumes "polite E" "fresh_alloc E" "lists_elems E ids" "subscribes E" "hctl_ids s [] []"
  shows "\<exists>r s'. snd_hctl_load E s = Some (r, s') \<and>
     (r < 0 \<and> hctl_ids s' [] [] \<and> (\<forall>b. hheap s' b = None \<longleftrightarrow> hheap s b = None) \<or> r = 0 \<and> (\<exists>xs. hctl_ids s' xs ids))"
  using hctl_load_outcome [OF assms] .

theorem hctl_load_all_or_nothing_witness:
  "\<exists>r s'. snd_hctl_load (plain_env [zero_id] 4) (empty_hctl []) = Some (r, s') \<and>
     (r < 0 \<and> hctl_ids s' [] [] \<and> (\<forall>b. hheap s' b = None \<longleftrightarrow> hheap (empty_hctl ([] :: snd_ctl_event list)) b = None) \<or>
      r = 0 \<and> (\<exists>xs. hctl_ids s' xs [zero_id]))"
  by (rule hctl_load_all_or_nothing [OF plain_env_polite plain_env_fresh plain_env_lists plain_env_subscribes empty_hctl_ids]) simp

text \<open>\<^verbatim>\<open>snd_hctl_free\<close> ends: it takes every element off the list, frees each of them and nothing else, and returns 0.\<close>

theorem hctl_free_frees_all:
  assumes "polite E" "hctl_ids s xs ids"
  shows "\<exists>s'. snd_hctl_free E s = Some (0, s') \<and> hctl_ids s' [] [] \<and> (\<forall>b. hheap s' b = None \<longleftrightarrow> b \<in> set xs \<or> hheap s b = None)"
  using hctl_free_ids [OF assms] .

theorem hctl_free_frees_all_witness:
  "\<exists>s'. snd_hctl_free (plain_env [] 0) \<lparr>hheap = [3 \<mapsto> new_elem zero_id], first_elem = Some 3, last_elem = Some 3, hctl_count = 1,
     hctl_callback = False, hworld = []\<rparr> = Some (0, s') \<and> hctl_ids s' [] [] \<and>
     (\<forall>b. hheap s' b = None \<longleftrightarrow> b \<in> set [3] \<or> ([3 \<mapsto> new_elem zero_id] :: hctl_heap) b = None)"
  using hctl_free_frees_all [OF plain_env_polite, of "\<lparr>hheap = [3 \<mapsto> new_elem zero_id], first_elem = Some 3, last_elem = Some 3,
    hctl_count = 1, hctl_callback = False, hworld = []\<rparr>" "[3]" "[zero_id]" "[]" 0]
  by (simp add: hctl_ids_def hctl_list_def new_elem_def)

text \<open>
  An \<^verbatim>\<open>ADD\<close> event for an identifier that is on the list allocates an element, refuses it with \<^verbatim>\<open>-EBUSY\<close>, and
  forgets it: it stays allocated on no list.
\<close>

lemma busy_event_leaks:
  assumes "fresh_alloc E" "hctl_ids s xs ids" "ev_type ev = 0" "ev_mask ev = MASK_ADD" "known ids (ev_id ev)"
    "h_calloc E s = (Some a, w)"
  shows "\<exists>s'. snd_hctl_handle_event E s ev = Some (- EBUSY, s') \<and> hctl_ids s' xs ids \<and> a \<notin> set xs \<and> hheap s' a \<noteq> None"
proof -
  obtain s1 where c: "calloc_elem E s (ev_id ev) = (Some a, s1)" using assms(6) by (simp add: calloc_elem_def)
  note i = calloc_elem_ids [OF assms(1,2) c]
  have "snd_hctl_handle_event E s ev = Some (- EBUSY, s1)"
    using assms(3,4) c elem_add_busy [OF i(1,3) assms(5)] by (simp add: snd_hctl_handle_event_def)
  with i show ?thesis by auto
qed

end
