(* ===== verification/Mixer_Links.thy ===== *)
theory Mixer_Links
  imports Mixer_Volume Hctl_Events
begin

text \<open>
  The mixer's callbacks leave the list of the control handle, which is being worked on when they are called, as it is.
\<close>

section \<open>The callbacks keep the links of the control handle\<close>

definition polite_mixer :: "'w mixer_env \<Rightarrow> bool" where
  "polite_mixer M \<longleftrightarrow> (\<forall>m a s. same_links s (snd (mx_cb M m a s))) \<and> (\<forall>f a m s. same_links s (snd (mx_elem_cb M f a m s)))"

lemma same_links_mix [simp]: "same_links s (mix f s)" "same_links s (s\<lparr>hworld := m\<rparr>)"
    "same_links s (put_elem a e s)" "same_links s (put_item i it s)" "same_links s (set_rest w s)" "same_links s (free_item i s)"
    "same_links s (put_vol i it v s)"
  by (simp_all add: mix_def same_links_def put_elem_def put_item_def set_rest_def free_item_def put_vol_def)

lemma same_links_step: "same_links s s1 \<Longrightarrow> same_links s (mix f s1)" "same_links s s1 \<Longrightarrow> same_links s (s1\<lparr>hworld := m\<rparr>)"
    "same_links s s1 \<Longrightarrow> same_links s (put_elem a e s1)" "same_links s s1 \<Longrightarrow> same_links s (put_item i it s1)"
    "same_links s s1 \<Longrightarrow> same_links s (set_rest w s1)" "same_links s s1 \<Longrightarrow> same_links s (free_item i s1)"
    "same_links s s1 \<Longrightarrow> same_links s (put_vol i it v s1)"
  by (simp_all add: mix_def same_links_def put_elem_def put_item_def set_rest_def free_item_def put_vol_def)

lemma same_links_private: "hheap s a = Some h \<Longrightarrow> same_links s (s\<lparr>hheap := (hheap s)(a \<mapsto> h\<lparr>he_private := p\<rparr>)\<rparr>)"
    "hheap s a = Some h \<Longrightarrow> same_links s (s\<lparr>hheap := (hheap s)(a \<mapsto> h\<lparr>he_callback := f\<rparr>)\<rparr>)"
  by (simp_all add: same_links_def elem_links_def)

lemma elem_calls_links:
  "snd_hctl_elem_info M helem info s = Some (r, info', s') \<Longrightarrow> same_links s s'"
  "snd_hctl_elem_read M helem val s = Some (r, val', s') \<Longrightarrow> same_links s s'"
  "snd_hctl_elem_write M helem val s = Some (r, s') \<Longrightarrow> same_links s s'"
  by (auto simp: snd_hctl_elem_info_def snd_hctl_elem_read_def snd_hctl_elem_write_def split: bind_splits prod.splits)

lemma mixer_throw_links:
  assumes "polite_mixer M"
  shows "same_links s (snd (snd_mixer_throw_event M m a s))"
    "snd_mixer_elem_throw_event M a m s = Some (r, s') \<Longrightarrow> same_links s s'"
proof -
  have cb: "same_links s (snd (mx_cb M m a (mix f s)))" "same_links s (snd (mx_elem_cb M g a m (mix f s)))" for f g
    using assms same_links_trans [OF same_links_mix(1)] unfolding polite_mixer_def by blast+
  show "same_links s (snd (snd_mixer_throw_event M m a s))"
    using cb(1) by (simp add: snd_mixer_throw_event_def Let_def)
  assume h: "snd_mixer_elem_throw_event M a m s = Some (r, s')"
  then obtain e where e: "get_elem s a = Some e" by (auto simp: snd_mixer_elem_throw_event_def split: bind_splits)
  show "same_links s s'"
  proof (cases "e_callback e")
    case None
    with h e show ?thesis by (auto simp: snd_mixer_elem_throw_event_def)
  next
    case (Some g)
    with h e have "mx_elem_cb M g a m (mix (\<lambda>m. m\<lparr>m_events := m_events m + 1\<rparr>) s) = (r, s')"
      by (simp add: snd_mixer_elem_throw_event_def Let_def)
    moreover have "same_links s (snd (mx_elem_cb M g a m (mix (\<lambda>m. m\<lparr>m_events := m_events m + 1\<rparr>) s)))" by (rule cb(2))
    ultimately show ?thesis by simp
  qed
qed

lemma add_cap_shape:
  assumes "add_cap elem caps ty item s = Some s'"
  shows "\<exists>e it h items chs. get_elem s elem = Some e \<and> get_item s item = Some it \<and> hheap s (item_helem it) = Some h \<and>
     s' = put_elem elem (e\<lparr>e_caps := e_caps e OR caps, e_items := items, e_channels := chs\<rparr>)
       (s\<lparr>hheap := (hheap s)(item_helem it \<mapsto> h\<lparr>he_private := Some elem\<rparr>)\<rparr>)"
proof -
  obtain e it items h where e: "get_elem s elem = Some e" "get_item s item = Some it"
    "array_set (e_items e) ty (Some item) = Some items" "hheap s (item_helem it) = Some h"
    using assms by (auto simp: add_cap_def split: bind_splits)
  show ?thesis
  proof (cases "ty = ITEM_ENUM")
    case True
    with assms e have "s' = put_elem elem (e\<lparr>e_caps := e_caps e OR caps, e_items := items, e_channels := e_channels e\<rparr>)
       (s\<lparr>hheap := (hheap s)(item_helem it \<mapsto> h\<lparr>he_private := Some elem\<rparr>)\<rparr>)" by (simp add: add_cap_def)
    with e show ?thesis by blast
  next
    case False
    with assms e show ?thesis by (auto simp: add_cap_def Let_def split: bind_splits)
  qed
qed

lemma add_cap_links: "add_cap elem caps ty item s = Some s' \<Longrightarrow> same_links s s'"
  using add_cap_shape [of elem caps ty item s s'] by (auto intro: same_links_step same_links_private)

lemma add_mixer_elem_links:
  assumes "polite_mixer M" "add_mixer_elem M elem s = Some (r, s')"
  shows "same_links s s'"
proof -
  have "same_links s (snd (snd_mixer_throw_event M MASK_ADD elem (s\<lparr>hworld := m\<rparr>)))" for m
    using mixer_throw_links(1) [OF assms(1)] same_links_trans [OF same_links_mix(2)] by blast
  then show ?thesis
    using assms(2) by (auto simp: add_mixer_elem_def Let_def split: bind_splits if_splits) (metis snd_conv)
qed

lemma new_links:
  "new_mixer_elem M name index s = (p, s') \<Longrightarrow> same_links s s'"
  "new_selem_item M hp info s = Some (q, s') \<Longrightarrow> same_links s s'"
proof -
  show "new_mixer_elem M name index s = (p, s') \<Longrightarrow> same_links s s'"
    by (auto simp: new_mixer_elem_def split: prod.splits option.splits intro: same_links_step)
  show "new_selem_item M hp info s = Some (q, s') \<Longrightarrow> same_links s s'"
    by (auto simp: new_selem_item_def split: bind_splits prod.splits option.splits if_splits dest!: elem_calls_links intro: same_links_step)
qed

lemma add_simple_links:
  assumes "polite_mixer M" "add_simple_element M hp s = Some (r, s')"
  shows "same_links s s'"
  using assms(2) unfolding add_simple_element_def
  by (auto split: bind_splits prod.splits option.splits if_splits simp: Let_def
      dest!: elem_calls_links new_links add_cap_links add_mixer_elem_links [OF assms(1)] intro!: same_links_step)
    (meson same_links_trans)+

lemma remove_simple_links: "remove_simple_element hp b s = Some (r, s') \<Longrightarrow> same_links s s'"
  by (auto simp: remove_simple_element_def Let_def split: bind_splits option.splits if_splits intro!: same_links_step)

lemma update_links: "update_simple_element M hp elem s = Some (r, s') \<Longrightarrow> same_links s s'"
  by (auto simp: update_simple_element_def update_selem_item_def Let_def split: bind_splits option.splits if_splits selem_body.splits
      dest!: elem_calls_links intro!: same_links_step)

lemma event_links:
  assumes "polite_mixer M"
  shows "info_event M helem elem s = Some (r, s') \<Longrightarrow> same_links s s'"
    "value_event M helem elem s = Some (r, s') \<Longrightarrow> same_links s s'"
    "remove_event M helem elem s = Some (r, s') \<Longrightarrow> same_links s s'"
proof -
  note throw = mixer_throw_links(2) [OF assms]
  show "info_event M helem elem s = Some (r, s') \<Longrightarrow> same_links s s'"
    by (auto simp: info_event_def split: bind_splits if_splits dest!: remove_simple_links add_simple_links [OF assms] throw
        intro!: same_links_step) (meson same_links_trans)+
  show "value_event M helem elem s = Some (r, s') \<Longrightarrow> same_links s s'"
    by (auto simp: value_event_def split: bind_splits if_splits dest!: update_links throw intro: same_links_trans)
  show "remove_event M helem elem s = Some (r, s') \<Longrightarrow> same_links s s'"
    by (auto simp: remove_event_def split: bind_splits if_splits dest!: remove_simple_links throw intro: same_links_trans)
qed

lemma elem_handler_links:
  assumes "polite_mixer M" "hctl_elem_event_handler M helem evmask s = Some (r, s')"
  shows "same_links s s'"
  using assms(2) unfolding hctl_elem_event_handler_def
  by (auto split: bind_splits option.splits if_splits dest!: event_links [OF assms(1)] intro: same_links_trans)

lemma handler_links:
  assumes "polite_mixer M" "hctl_event_handler M f evmask elem s = Some (r, s')"
  shows "same_links s s'"
  using assms(2) unfolding hctl_event_handler_def
  by (auto split: bind_splits if_splits dest!: add_simple_links [OF assms(1)] intro: same_links_trans same_links_private)

end
