(* ===== verification/Mixer_Values.thy ===== *)
theory Mixer_Values
  imports Mixer_Volume
begin

text \<open>
  The values of mixer elements: the conversion between the two ranges, and the cached volumes and switches against
  those of the device.
\<close>

section \<open>The range of the user and the range of the control\<close>

text \<open>Ranges whose spans can be multiplied.\<close>

definition ranges_fit :: "vol_body \<Rightarrow> bool" where
  "ranges_fit vol \<longleftrightarrow> - (2 ^ 61) \<le> v_min vol \<and> v_min vol \<le> v_max vol \<and> v_max vol \<le> 2 ^ 61 \<and>
     - (2 ^ 61) \<le> v_raw_min vol \<and> v_raw_min vol \<le> v_raw_max vol \<and> v_raw_max vol \<le> 2 ^ 61 \<and>
     (v_max vol - v_min vol) * (v_raw_max vol - v_raw_min vol) < 2 ^ 63"

lemma scale_bounds:
  fixes x U R :: int
  assumes "0 \<le> x" "x \<le> U" "0 \<le> R"
  shows "0 \<le> x * R div U" "x * R div U \<le> R" "0 \<le> x * R" "x * R \<le> U * R"
proof -
  show p: "x * R \<le> U * R" "0 \<le> x * R" using assms by (simp_all add: mult_right_mono)
  have "0 \<le> x * R div U \<and> x * R div U \<le> R"
  proof (cases "U = 0")
    case False
    then have U: "0 < U" using assms by simp
    then show ?thesis using p zdiv_mono1 [OF p(1) U] by (simp add: pos_imp_zdiv_nonneg_iff)
  qed (use assms in simp)
  then show "0 \<le> x * R div U" "x * R div U \<le> R" by simp_all
qed

lemma convert_from_user_scales:
  assumes "ranges_fit vol" "v_min vol \<le> val" "val \<le> v_max vol"
  shows "convert_from_user vol val = Some (if v_min vol = v_raw_min vol \<and> v_max vol = v_raw_max vol then val
     else (val - v_min vol) * (v_raw_max vol - v_raw_min vol) div (v_max vol - v_min vol) + v_raw_min vol)"
proof (cases "v_min vol < v_max vol")
  case True
  let ?U = "v_max vol - v_min vol" and ?R = "v_raw_max vol - v_raw_min vol" and ?x = "val - v_min vol"
  have s: "0 \<le> ?x" "?x \<le> ?U" "0 \<le> ?R" and p: "0 < ?U" using assms True by (simp_all add: ranges_fit_def)
  note b = scale_bounds [OF s]
  have m: "- 9223372036854775808 \<le> ?x * ?R" using b(3) by linarith
  have "long ?x = Some ?x" "long ?R = Some ?R" "long (?x * ?R) = Some (?x * ?R)" "long ?U = Some ?U"
    "?x * ?R sdiv ?U = ?x * ?R div ?U" "long (?x * ?R div ?U + v_raw_min vol) = Some (?x * ?R div ?U + v_raw_min vol)"
    using assms b s p m by (auto simp: ranges_fit_def long_def intro!: sdiv_pos)
  with True show ?thesis by (simp add: convert_from_user_def)
next
  case False
  then have "v_min vol = v_max vol" "val = v_min vol" using assms by (simp_all add: ranges_fit_def)
  then show ?thesis by (simp add: convert_from_user_def)
qed

lemma convert_to_user_scales:
  assumes "ranges_fit vol" "v_raw_min vol \<le> val" "val \<le> v_raw_max vol"
  shows "convert_to_user vol val = Some (if v_min vol = v_raw_min vol \<and> v_max vol = v_raw_max vol then val
     else (val - v_raw_min vol) * (v_max vol - v_min vol) div (v_raw_max vol - v_raw_min vol) + v_min vol)"
proof (cases "v_raw_min vol < v_raw_max vol")
  case True
  let ?U = "v_max vol - v_min vol" and ?R = "v_raw_max vol - v_raw_min vol" and ?x = "val - v_raw_min vol"
  have s: "0 \<le> ?x" "?x \<le> ?R" "0 \<le> ?U" and p: "0 < ?R" using assms True by (simp_all add: ranges_fit_def)
  note b = scale_bounds [OF s]
  have m: "- 9223372036854775808 \<le> ?x * ?U" using b(3) by linarith
  have "long ?x = Some ?x" "long ?R = Some ?R" "long (?x * ?U) = Some (?x * ?U)" "long ?U = Some ?U"
    "?x * ?U sdiv ?R = ?x * ?U div ?R" "long (?x * ?U div ?R + v_min vol) = Some (?x * ?U div ?R + v_min vol)"
    using assms b s p m by (auto simp: ranges_fit_def long_def mult.commute intro!: sdiv_pos)
  with True show ?thesis by (simp add: convert_to_user_def)
next
  case False
  then have "v_raw_min vol = v_raw_max vol" "val = v_raw_min vol" using assms by (simp_all add: ranges_fit_def)
  then show ?thesis by (simp add: convert_to_user_def)
qed

lemma convert_in_range:
  assumes "ranges_fit vol"
  shows "v_min vol \<le> val \<Longrightarrow> val \<le> v_max vol \<Longrightarrow> \<exists>raw. convert_from_user vol val = Some raw \<and> v_raw_min vol \<le> raw \<and> raw \<le> v_raw_max vol"
    and "v_raw_min vol \<le> val \<Longrightarrow> val \<le> v_raw_max vol \<Longrightarrow> \<exists>usr. convert_to_user vol val = Some usr \<and> v_min vol \<le> usr \<and> usr \<le> v_max vol"
proof -
  show "\<exists>raw. convert_from_user vol val = Some raw \<and> v_raw_min vol \<le> raw \<and> raw \<le> v_raw_max vol" if "v_min vol \<le> val" "val \<le> v_max vol"
    using convert_from_user_scales [OF assms that] assms that
      scale_bounds(1,2) [of "val - v_min vol" "v_max vol - v_min vol" "v_raw_max vol - v_raw_min vol"]
    by (auto simp: ranges_fit_def)
  show "\<exists>usr. convert_to_user vol val = Some usr \<and> v_min vol \<le> usr \<and> usr \<le> v_max vol" if "v_raw_min vol \<le> val" "val \<le> v_raw_max vol"
    using convert_to_user_scales [OF assms that] assms that
      scale_bounds(1,2) [of "val - v_raw_min vol" "v_raw_max vol - v_raw_min vol" "v_max vol - v_min vol"]
    by (auto simp: ranges_fit_def)
qed

text \<open>Scaling up to at least as many steps and back loses at most one.\<close>

lemma scale_back:
  fixes x U R :: int
  assumes "0 < U" "U \<le> R"
  shows "x * R div U * U div R = (if U dvd x * R then x else x - 1)"
proof -
  have R: "0 < R" using assms by simp
  show ?thesis
  proof (cases "U dvd x * R")
    case True
    then show ?thesis using R by simp
  next
    case False
    define q r where "q = x * R div U" and "r = x * R mod U"
    have qr: "q * U = x * R - r" "0 < r" "r < U"
      using False assms(1) pos_mod_bound [OF assms(1), of "x * R"] pos_mod_sign [OF assms(1), of "x * R"]
      by (simp_all add: q_def r_def dvd_eq_mod_eq_0 minus_mod_eq_div_mult order_less_le)
    have "q * U div R = x - 1"
      using qr assms R by (intro int_div_pos_eq [of _ _ _ "R - r"]) (simp_all add: algebra_simps)
    with False show ?thesis by (simp add: q_def)
  qed
qed

section \<open>The cache and the device\<close>

text \<open>
  A device that holds 1024 bytes for every element: it answers a read with them and a write replaces the
  bytes of the element it names.
\<close>

definition stores_values :: "'w ctl_kernel \<Rightarrow> ('w \<Rightarrow> snd_ctl_elem_id \<Rightarrow> u8 list) \<Rightarrow> bool" where
  "stores_values k f \<longleftrightarrow> (\<forall>w i. length (f w i) = 1024) \<and>
     (\<forall>v w. snd_ctl_elem_read k v w = (0, v\<lparr>value_data := f w (value_id v)\<rparr>, w)) \<and>
     (\<forall>v w. length (value_data v) = 1024 \<longrightarrow> (\<exists>v' w'. snd_ctl_elem_write k v w = (0, v', w') \<and> f w' (value_id v) = value_data v))"

text \<open>The raw volumes of an item are the integers the device has.\<close>

definition in_step :: "('w \<Rightarrow> snd_ctl_elem_id \<Rightarrow> u8 list) \<Rightarrow> nat \<Rightarrow> 'w mstate \<Rightarrow> bool" where
  "in_step f item s =
     (case vol_item s item of
        None \<Rightarrow> False
      | Some (it, vol) \<Rightarrow>
          (case hheap s (item_helem it) of
             None \<Rightarrow> False
           | Some h \<Rightarrow> unat (item_channels it) \<le> 128 \<and> length (v_vol vol) = 2 * unat (item_channels it) \<and>
               (\<forall>c < unat (item_channels it).
                  snd_ctl_elem_value_get_integer (zero_value\<lparr>value_data := f (m_rest (hworld s)) (he_id h)\<rparr>) (of_nat c) =
                    Some (v_vol vol ! RAW_IDX c))))"

lemma put_vol_simps [simp]:
  "vol_item (put_vol item it vol s) item = Some (it\<lparr>item_body := Vol vol\<rparr>, vol)"
  "hheap (put_vol item it vol s) = hheap s" "m_rest (hworld (put_vol item it vol s)) = m_rest (hworld s)"
  "get_elem (put_vol item it vol s) = get_elem s"
  by (simp_all add: put_vol_def put_item_def mix_def vol_item_def get_item_def get_elem_def fun_eq_iff)

lemma set_rest_simps [simp]:
  "vol_item (set_rest w s) = vol_item s" "hheap (set_rest w s) = hheap s" "m_rest (hworld (set_rest w s)) = w"
  "get_elem (set_rest w s) = get_elem s"
  by (simp_all add: set_rest_def mix_def vol_item_def get_item_def get_elem_def fun_eq_iff)

lemma get_integer_data: "value_data v = value_data v' \<Longrightarrow> snd_ctl_elem_value_get_integer v = snd_ctl_elem_value_get_integer v'"
  by (simp add: snd_ctl_elem_value_get_integer_def fun_eq_iff)

lemma read_modify_write_stores:
  assumes "stores_values (mx_ctl M) f" "hheap s (item_helem it) = Some h" "c < 128" "- (2 ^ 63) \<le> raw" "raw < 2 ^ 63"
  shows "\<exists>w. read_modify_write M it (\<lambda>ctl. snd_ctl_elem_value_set_integer ctl (of_nat c) raw) s = Some (0, set_rest w s) \<and>
     (\<forall>j < 128. snd_ctl_elem_value_get_integer (zero_value\<lparr>value_data := f w (he_id h)\<rparr>) (of_nat j) =
       (if j = c then Some raw
        else snd_ctl_elem_value_get_integer (zero_value\<lparr>value_data := f (m_rest (hworld s)) (he_id h)\<rparr>) (of_nat j)))"
proof -
  let ?d = "f (m_rest (hworld s)) (he_id h)"
  let ?v = "zero_value\<lparr>value_id := he_id h, value_data := ?d\<rparr>"
  have u: "unat (of_nat j :: u32) = j" if "j < 128" for j using that by (simp add: unsigned_of_nat take_bit_nat_eq_self)
  have "length (value_data ?v) = 1024" using assms(1) by (simp add: stores_values_def)
  from integer_set_get [OF this assms(4,5), of "of_nat c"] assms(3) u obtain v where
    v: "snd_ctl_elem_value_set_integer ?v (of_nat c) raw = Some v" "snd_ctl_elem_value_get_integer v (of_nat c) = Some raw"
      "\<forall>j. j \<noteq> of_nat c \<longrightarrow> snd_ctl_elem_value_get_integer v j = snd_ctl_elem_value_get_integer ?v j" "value_id v = he_id h"
      "length (value_data v) = 1024" by auto
  have r: "snd_hctl_elem_read M (item_helem it) zero_value s = Some (0, ?v, set_rest (m_rest (hworld s)) s)"
    using assms(1,2) by (simp add: snd_hctl_elem_read_def stores_values_def)
  have s: "set_rest (m_rest (hworld s)) s = s" by (simp add: set_rest_def mix_def)
  obtain v' w where w: "snd_ctl_elem_write (mx_ctl M) v (m_rest (hworld s)) = (0, v', w)" "f w (he_id h) = value_data v"
    using assms(1) v(4,5) unfolding stores_values_def by metis
  have vv: "v\<lparr>value_id := he_id h\<rparr> = v" using v(4) by simp
  have "read_modify_write M it (\<lambda>ctl. snd_ctl_elem_value_set_integer ctl (of_nat c) raw) s = Some (0, set_rest w s)"
    using r s v(1) w(1) assms(2) vv by (simp add: read_modify_write_def snd_hctl_elem_write_def)
  moreover have "snd_ctl_elem_value_get_integer (zero_value\<lparr>value_data := f w (he_id h)\<rparr>) (of_nat j) =
       (if j = c then Some raw else snd_ctl_elem_value_get_integer (zero_value\<lparr>value_data := ?d\<rparr>) (of_nat j))" if "j < 128" for j
  proof -
    have "snd_ctl_elem_value_get_integer (zero_value\<lparr>value_data := f w (he_id h)\<rparr>) = snd_ctl_elem_value_get_integer v"
      using w(2) by (intro get_integer_data) simp
    moreover have "snd_ctl_elem_value_get_integer ?v = snd_ctl_elem_value_get_integer (zero_value\<lparr>value_data := ?d\<rparr>)"
      by (intro get_integer_data) simp
    moreover have "(of_nat j :: u32) = of_nat c \<longleftrightarrow> j = c" using u [OF that] u [OF assms(3)] by metis
    ultimately show ?thesis using v(2,3) by simp
  qed
  ultimately show ?thesis by blast
qed

lemma in_step_D:
  assumes "in_step f item s" "vol_item s item = Some (it, vol)"
  obtains h where "hheap s (item_helem it) = Some h" "unat (item_channels it) \<le> 128" "length (v_vol vol) = 2 * unat (item_channels it)"
    "\<forall>c < unat (item_channels it).
       snd_ctl_elem_value_get_integer (zero_value\<lparr>value_data := f (m_rest (hworld s)) (he_id h)\<rparr>) (of_nat c) = Some (v_vol vol ! RAW_IDX c)"
  using assms by (auto simp: in_step_def split: option.splits)

lemma vol_item_same: "vol_item s item = Some (it, vol) \<Longrightarrow> it\<lparr>item_body := Vol vol\<rparr> = it"
  by (auto simp: vol_item_def split: bind_splits selem_body.splits)

lemma update_volume_in_step:
  assumes "stores_values (mx_ctl M) f" "in_step f item s" "vol_item s item = Some (it, vol)"
    "channel < unat (item_channels it)" "ranges_fit vol" "v_min vol \<le> val" "val \<le> v_max vol"
  shows "\<exists>s' vol'. snd_selem_update_volume M (Some item) channel val s = Some (0, s') \<and> in_step f item s' \<and>
     vol_item s' item = Some (it\<lparr>item_body := Vol vol'\<rparr>, vol') \<and> vol' = vol\<lparr>v_vol := v_vol vol'\<rparr> \<and> v_vol vol' ! USR_IDX channel = val \<and>
     (val \<noteq> v_vol vol ! USR_IDX channel \<longrightarrow> convert_from_user vol val = Some (v_vol vol' ! RAW_IDX channel)) \<and>
     (\<forall>i. i \<noteq> USR_IDX channel \<longrightarrow> i \<noteq> RAW_IDX channel \<longrightarrow> v_vol vol' ! i = v_vol vol ! i) \<and> get_elem s' = get_elem s"
proof -
  from in_step_D [OF assms(2,3)] obtain h where
    h: "hheap s (item_helem it) = Some h" "unat (item_channels it) \<le> 128" "length (v_vol vol) = 2 * unat (item_channels it)"
      "\<forall>c < unat (item_channels it).
       snd_ctl_elem_value_get_integer (zero_value\<lparr>value_data := f (m_rest (hworld s)) (he_id h)\<rparr>) (of_nat c) = Some (v_vol vol ! RAW_IDX c)" .
  obtain raw where raw: "convert_from_user vol val = Some raw" "v_raw_min vol \<le> raw" "raw \<le> v_raw_max vol"
    using convert_in_range(1) [OF assms(5-7)] by blast
  have rl: "- (2 ^ 63) \<le> raw" "raw < 2 ^ 63" using raw assms(5) by (simp_all add: ranges_fit_def)
  have ch: "channel < 128" "2 * channel + 1 < length (v_vol vol)" using assms(4) h by simp_all
  define vs where "vs = (v_vol vol)[USR_IDX channel := val]"
  have u: "snd_selem_update_volume M (Some item) channel val s =
    (if val = v_vol vol ! USR_IDX channel then Some (0, s)
     else if raw = v_vol vol ! RAW_IDX channel then Some (0, put_vol item it (vol\<lparr>v_vol := vs\<rparr>) s)
     else read_modify_write M it (\<lambda>ctl. snd_ctl_elem_value_set_integer ctl (of_nat channel) raw)
                     (put_vol item it (vol\<lparr>v_vol := vs[RAW_IDX channel := raw]\<rparr>) s))"
    using assms(3,6,7) raw(1) ch(2) by (simp add: snd_selem_update_volume_def vs_def)
  show ?thesis
  proof (cases "val = v_vol vol ! USR_IDX channel")
    case True
    with u assms(2,3) vol_item_same [OF assms(3)] show ?thesis by (intro exI [of _ s] exI [of _ vol]) simp
  next
    case ne: False
    show ?thesis
    proof (cases "raw = v_vol vol ! RAW_IDX channel")
      case True
      let ?s = "put_vol item it (vol\<lparr>v_vol := vs\<rparr>) s"
      have "in_step f item ?s" using h by (simp add: in_step_def vs_def nth_list_update double_not_eq_Suc_double)
      with True ne u vol_item_same [OF assms(3)] ch raw(1) show ?thesis
        by (intro exI [of _ ?s] exI [of _ "vol\<lparr>v_vol := vs\<rparr>"]) (simp add: vs_def)
    next
      case False
      let ?v = "vol\<lparr>v_vol := vs[RAW_IDX channel := raw]\<rparr>"
      let ?s = "put_vol item it ?v s"
      from read_modify_write_stores [OF assms(1) _ ch(1) rl, of ?s it h] h(1) obtain w where
        w: "read_modify_write M it (\<lambda>ctl. snd_ctl_elem_value_set_integer ctl (of_nat channel) raw) ?s = Some (0, set_rest w ?s)"
          "\<forall>j < 128. snd_ctl_elem_value_get_integer (zero_value\<lparr>value_data := f w (he_id h)\<rparr>) (of_nat j) =
             (if j = channel then Some raw
              else snd_ctl_elem_value_get_integer (zero_value\<lparr>value_data := f (m_rest (hworld s)) (he_id h)\<rparr>) (of_nat j))" by auto
      have "in_step f item (set_rest w ?s)" using h w(2) ch by (auto simp: in_step_def vs_def nth_list_update)
      with False ne u w(1) vol_item_same [OF assms(3)] ch raw(1) show ?thesis
        by (intro exI [of _ "set_rest w ?s"] exI [of _ ?v]) (simp add: vs_def)
    qed
  qed
qed

lemma update_volume_loop_in_step:
  assumes "stores_values (mx_ctl M) f"
  shows "in_step f item s \<Longrightarrow> vol_item s item = Some (it, vol) \<Longrightarrow> i + n \<le> unat (item_channels it) \<Longrightarrow> ranges_fit vol \<Longrightarrow>
     v_min vol \<le> val \<Longrightarrow> val \<le> v_max vol \<Longrightarrow>
     \<exists>s' vol'. update_volume_loop M item val n i s = Some (0, s') \<and> in_step f item s' \<and>
       vol_item s' item = Some (it\<lparr>item_body := Vol vol'\<rparr>, vol') \<and> vol' = vol\<lparr>v_vol := v_vol vol'\<rparr> \<and>
       (\<forall>c. i \<le> c \<longrightarrow> c < i + n \<longrightarrow> v_vol vol' ! USR_IDX c = val) \<and> (\<forall>j < 2 * i. v_vol vol' ! j = v_vol vol ! j)"
proof (induction n arbitrary: s it vol i)
  case 0
  then show ?case using vol_item_same [OF "0.prems"(2)] by (intro exI [of _ s] exI [of _ vol]) simp
next
  case (Suc n)
  from update_volume_in_step [OF assms Suc.prems(1,2) _ Suc.prems(4,5,6), of i] Suc.prems(3) obtain s1 v1 where
    1: "snd_selem_update_volume M (Some item) i val s = Some (0, s1)" "in_step f item s1"
      "vol_item s1 item = Some (it\<lparr>item_body := Vol v1\<rparr>, v1)" "v1 = vol\<lparr>v_vol := v_vol v1\<rparr>" "v_vol v1 ! USR_IDX i = val"
      "\<forall>j. j \<noteq> USR_IDX i \<longrightarrow> j \<noteq> RAW_IDX i \<longrightarrow> v_vol v1 ! j = v_vol vol ! j" by auto
  have "v_min v1 = v_min vol" "v_max v1 = v_max vol" "ranges_fit v1"
    using Suc.prems(4) by (subst 1(4), simp add: ranges_fit_def)+
  with Suc.IH [OF 1(2,3), of "Suc i"] Suc.prems obtain s2 v2 where
    2: "update_volume_loop M item val n (Suc i) s1 = Some (0, s2)" "in_step f item s2"
      "vol_item s2 item = Some (it\<lparr>item_body := Vol v2\<rparr>, v2)" "v2 = v1\<lparr>v_vol := v_vol v2\<rparr>"
      "\<forall>c. Suc i \<le> c \<longrightarrow> c < Suc i + n \<longrightarrow> v_vol v2 ! USR_IDX c = val" "\<forall>j < 2 * Suc i. v_vol v2 ! j = v_vol v1 ! j" by auto
  have "v2 = vol\<lparr>v_vol := v_vol v2\<rparr>" by (subst 2(4), subst 1(4)) simp
  moreover have "v_vol v2 ! USR_IDX c = val" if "i \<le> c" "c < i + Suc n" for c
    using that 1(5) 2(5) 2(6) [rule_format, of "2 * i"] by (cases "c = i") auto
  moreover have "v_vol v2 ! j = v_vol vol ! j" if "j < 2 * i" for j using that 2(6) 1(6) by simp
  ultimately show ?case using 1(1) 2(1-3) by auto
qed

text \<open>A value event reads the device back; it reports a change exactly when the cached volumes differ.\<close>

lemma update_selem_vol_item_reads:
  assumes "\<forall>c < m. snd_ctl_elem_value_get_integer obj (of_nat c) = Some (g c) \<and> v_raw_min vol \<le> g c \<and> g c \<le> v_raw_max vol" "ranges_fit vol"
  shows "i + n \<le> m \<Longrightarrow> length vs = 2 * m \<Longrightarrow>
     \<exists>vs'. update_selem_vol_item n i (vol\<lparr>v_vol := vs\<rparr>) obj ch = Some (ch \<or> vs' \<noteq> vs, vol\<lparr>v_vol := vs'\<rparr>) \<and> length vs' = 2 * m \<and>
       (\<forall>c. i \<le> c \<longrightarrow> c < i + n \<longrightarrow> vs' ! RAW_IDX c = g c \<and> convert_to_user vol (g c) = Some (vs' ! USR_IDX c)) \<and>
       (\<forall>j < 2 * i. vs' ! j = vs ! j)"
proof (induction n arbitrary: i vs ch)
  case 0
  then show ?case by (intro exI [of _ vs]) simp
next
  case (Suc n)
  have g: "snd_ctl_elem_value_get_integer obj (of_nat i) = Some (g i)" "v_raw_min vol \<le> g i" "g i \<le> v_raw_max vol"
    using assms(1) Suc.prems(1) by simp_all
  obtain u where u: "convert_to_user vol (g i) = Some u" using convert_in_range(2) [OF assms(2) g(2,3)] by blast
  have i: "2 * i + 1 < length vs" using Suc.prems by simp
  define v1 where "v1 = vs[RAW_IDX i := g i, USR_IDX i := u]"
  let ?ch = "(ch \<or> vs ! RAW_IDX i \<noteq> g i) \<or> vs ! USR_IDX i \<noteq> u"
  have cu: "convert_to_user (vol\<lparr>v_vol := xs\<rparr>) = convert_to_user vol" for xs
    by (rule ext) (simp add: convert_to_user_def split del: if_split cong: if_cong)
  have st: "update_selem_vol_item (Suc n) i (vol\<lparr>v_vol := vs\<rparr>) obj ch = update_selem_vol_item n (Suc i) (vol\<lparr>v_vol := v1\<rparr>) obj ?ch"
    using g(1) u i cu by (simp add: v1_def disj_assoc)
  have "length v1 = 2 * m" "Suc i + n \<le> m" using Suc.prems by (simp_all add: v1_def)
  from Suc.IH [OF this(2,1), of ?ch] obtain vs' where
    v: "update_selem_vol_item n (Suc i) (vol\<lparr>v_vol := v1\<rparr>) obj ?ch = Some (?ch \<or> vs' \<noteq> v1, vol\<lparr>v_vol := vs'\<rparr>)" "length vs' = 2 * m"
      "\<forall>c. Suc i \<le> c \<longrightarrow> c < Suc i + n \<longrightarrow> vs' ! RAW_IDX c = g c \<and> convert_to_user vol (g c) = Some (vs' ! USR_IDX c)"
      "\<forall>j < 2 * Suc i. vs' ! j = v1 ! j" by blast
  have at: "vs' ! RAW_IDX i = g i" "vs' ! USR_IDX i = u" using v(4) i by (simp_all add: v1_def)
  have "(?ch \<or> vs' \<noteq> v1) = (ch \<or> vs' \<noteq> vs)"
  proof (cases "vs ! RAW_IDX i = g i \<and> vs ! USR_IDX i = u")
    case True
    then have "v1 = vs" by (metis list_update_id v1_def)
    with True show ?thesis by simp
  next
    case False
    then have "vs' \<noteq> vs" using at by auto
    with False show ?thesis by simp
  qed
  moreover have "vs' ! RAW_IDX c = g c \<and> convert_to_user vol (g c) = Some (vs' ! USR_IDX c)" if "i \<le> c" "c < i + Suc n" for c
    using that at u v(3) by (cases "c = i") simp_all
  moreover have "\<forall>j < 2 * i. vs' ! j = vs ! j" using v(4) by (simp add: v1_def)
  ultimately show ?case using st v(1,2) by (intro exI [of _ vs']) simp
qed

lemma update_selem_item_in_step:
  assumes "stores_values (mx_ctl M) f" "vol_item s item = Some (it, vol)" "hheap s (item_helem it) = Some h" "ranges_fit vol"
    "unat (item_channels it) \<le> 128" "length (v_vol vol) = 2 * unat (item_channels it)" "ty = ITEM_PVOLUME \<or> ty = ITEM_CVOLUME"
    "\<forall>c < unat (item_channels it). \<exists>r. v_raw_min vol \<le> r \<and> r \<le> v_raw_max vol \<and>
       snd_ctl_elem_value_get_integer (zero_value\<lparr>value_data := f (m_rest (hworld s)) (he_id h)\<rparr>) (of_nat c) = Some r"
  shows "\<exists>s' vol'. update_selem_item M ty item s = Some (of_bool (v_vol vol' \<noteq> v_vol vol), s') \<and> in_step f item s' \<and>
     vol_item s' item = Some (it\<lparr>item_body := Vol vol'\<rparr>, vol') \<and> vol' = vol\<lparr>v_vol := v_vol vol'\<rparr> \<and>
     (\<forall>c < unat (item_channels it). convert_to_user vol (v_vol vol' ! RAW_IDX c) = Some (v_vol vol' ! USR_IDX c))"
proof -
  let ?n = "unat (item_channels it)"
  let ?z = "zero_value\<lparr>value_data := f (m_rest (hworld s)) (he_id h)\<rparr>"
  let ?v = "zero_value\<lparr>value_id := he_id h, value_data := f (m_rest (hworld s)) (he_id h)\<rparr>"
  have zv: "snd_ctl_elem_value_get_integer ?v = snd_ctl_elem_value_get_integer ?z" by (intro get_integer_data) simp
  define g where "g c = the (snd_ctl_elem_value_get_integer ?z (of_nat c))" for c
  have g: "\<forall>c < ?n. snd_ctl_elem_value_get_integer ?v (of_nat c) = Some (g c) \<and> v_raw_min vol \<le> g c \<and> g c \<le> v_raw_max vol"
  proof (intro allI impI)
    fix c assume "c < ?n"
    with assms(8) obtain r where "v_raw_min vol \<le> r" "r \<le> v_raw_max vol" "snd_ctl_elem_value_get_integer ?z (of_nat c) = Some r" by blast
    then show "snd_ctl_elem_value_get_integer ?v (of_nat c) = Some (g c) \<and> v_raw_min vol \<le> g c \<and> g c \<le> v_raw_max vol"
      by (simp only: zv) (simp add: g_def)
  qed
  from update_selem_vol_item_reads [OF g assms(4), of 0 ?n "v_vol vol" False] assms(6) obtain vs' where
    v: "update_selem_vol_item ?n 0 vol ?v False = Some (vs' \<noteq> v_vol vol, vol\<lparr>v_vol := vs'\<rparr>)" "length vs' = 2 * ?n"
      "\<forall>c < ?n. vs' ! RAW_IDX c = g c \<and> convert_to_user vol (g c) = Some (vs' ! USR_IDX c)" by auto
  have s: "set_rest (m_rest (hworld s)) s = s" by (simp add: set_rest_def mix_def)
  have r: "snd_hctl_elem_read M (item_helem it) zero_value s = Some (0, ?v, s)"
    using assms(1,3) s by (simp add: snd_hctl_elem_read_def stores_values_def)
  have it: "get_item s item = Some it" "item_body it = Vol vol"
    using assms(2) by (auto simp: vol_item_def split: bind_splits selem_body.splits)
  let ?s = "put_vol item it (vol\<lparr>v_vol := vs'\<rparr>) s"
  have "update_selem_item M ty item s = Some (of_bool (vs' \<noteq> v_vol vol), ?s)"
    using it r v(1) assms(7) by (auto simp: update_selem_item_def Let_def put_vol_def)
  moreover have "in_step f item ?s"
    unfolding in_step_def using assms(3,5) v(2,3) g by (simp add: zv)
  ultimately show ?thesis using v(3) by (intro exI [of _ ?s] exI [of _ "vol\<lparr>v_vol := vs'\<rparr>"]) simp
qed

section \<open>Switches\<close>

lemma put_item_simps [simp]:
  "get_item (put_item item it s) item = Some it" "hheap (put_item item it s) = hheap s"
  "m_rest (hworld (put_item item it s)) = m_rest (hworld s)" "get_elem (put_item item it s) = get_elem s"
  by (simp_all add: put_item_def mix_def get_item_def get_elem_def fun_eq_iff)

lemma set_rest_item [simp]: "get_item (set_rest w s) = get_item s"
  by (simp add: set_rest_def mix_def get_item_def fun_eq_iff)

lemma bit_set_bit_to: "c < 32 \<Longrightarrow> bit (set_bit_to sw c b) k = (if k = c then b else bit sw k)"
  using bit_imp_le_length [of sw k] by (auto simp: set_bit_to_def bit_or_iff bit_and_iff bit_not_iff bit_single simp del: push_bit_of_1)

lemma and_single: "c < 32 \<Longrightarrow> (sw AND push_bit c 1 \<noteq> (0 :: u32)) = bit sw c"
  by (auto simp: u32_nonzero_bit bit_and_iff bit_single simp del: push_bit_of_1)

lemma update_switch_effect:
  assumes "stores_values (mx_ctl M) f" "elem_slot s elem ty = Some (Some item)" "sw_item s item = Some (it, sw)"
    "hheap s (item_helem it) = Some h" "channel < 32"
  shows "\<exists>s' sw'. update_switch M elem ty channel val s = Some (0, s') \<and> sw_item s' item = Some (it\<lparr>item_body := Sw sw'\<rparr>, sw') \<and>
     (\<forall>c. bit sw' c = (if c = channel then val \<noteq> 0 else bit sw c)) \<and> get_elem s' = get_elem s \<and>
     (sw' \<noteq> sw \<longrightarrow> snd_ctl_elem_value_get_integer (zero_value\<lparr>value_data := f (m_rest (hworld s')) (he_id h)\<rparr>) (of_nat channel) =
        Some (of_bool (val \<noteq> 0)))"
proof -
  define sw' where "sw' = set_bit_to sw channel (val \<noteq> 0)"
  have b: "\<forall>c. bit sw' c = (if c = channel then val \<noteq> 0 else bit sw c)" by (simp add: sw'_def bit_set_bit_to assms(5))
  have it: "get_item s item = Some it" "it\<lparr>item_body := Sw sw\<rparr> = it"
    using assms(3) by (auto simp: sw_item_def split: bind_splits selem_body.splits)
  let ?s = "put_item item (it\<lparr>item_body := Sw sw'\<rparr>) s"
  have u: "update_switch M elem ty channel val s = (if sw = sw' then Some (0, s)
      else read_modify_write M it (\<lambda>ctl. snd_ctl_elem_value_set_integer ctl (of_nat channel) (of_bool (val \<noteq> 0))) ?s)"
    using assms(2,3,5) by (simp add: update_switch_def sw'_def Let_def)
  show ?thesis
  proof (cases "sw = sw'")
    case True
    with u b assms(3) it(2) show ?thesis by (intro exI [of _ s] exI [of _ sw]) simp
  next
    case False
    have "- (2 ^ 63) \<le> (of_bool (val \<noteq> 0) :: int)" "(of_bool (val \<noteq> 0) :: int) < 2 ^ 63" "channel < 128" "hheap ?s (item_helem it) = Some h"
      using assms(4,5) by simp_all
    from read_modify_write_stores [OF assms(1) this(4,3,1,2)] obtain w where
      w: "read_modify_write M it (\<lambda>ctl. snd_ctl_elem_value_set_integer ctl (of_nat channel) (of_bool (val \<noteq> 0))) ?s = Some (0, set_rest w ?s)"
        "\<forall>j < 128. snd_ctl_elem_value_get_integer (zero_value\<lparr>value_data := f w (he_id h)\<rparr>) (of_nat j) =
       (if j = channel then Some (of_bool (val \<noteq> 0))
        else snd_ctl_elem_value_get_integer (zero_value\<lparr>value_data := f (m_rest (hworld ?s)) (he_id h)\<rparr>) (of_nat j))" by blast
    have "sw_item (set_rest w ?s) item = Some (it\<lparr>item_body := Sw sw'\<rparr>, sw')" by (simp add: sw_item_def)
    with False u w b assms(5) show ?thesis by (intro exI [of _ "set_rest w ?s"] exI [of _ sw']) simp
  qed
qed

end
