(* ===== verification/Mixer_Props.thy ===== *)
theory Mixer_Props
  imports Mixer_Types Mixer_Links Mixer_Values
begin

text \<open>
  The properties of the mixer, with a mixer on a device with one element on which they are evaluated.
\<close>

section \<open>A mixer on a device with one element\<close>

text \<open>The value of the element is the world; the allocators hand out the first of \<open>n\<close> addresses that is free.\<close>

definition padded :: "u8 list \<Rightarrow> u8 list" where
  "padded bs = take 1024 (bs @ replicate 1024 0)"

definition plain_mixer :: "snd_ctl_elem_info \<Rightarrow> nat \<Rightarrow> snd_ctl_elem_value mixer_env" where
  "plain_mixer info n =
     \<lparr>mx_ctl = (one_elem info)\<lparr>k_elem_read := \<lambda>v w. (0, 0, v\<lparr>value_data := padded (value_data w)\<rparr>, w)\<rparr>,
      mx_protocol = 0x20007, mx_buffer = replicate 4096 0, mx_info0 = blank_info,
      mx_calloc = \<lambda>m. (find (\<lambda>a. m_elems m a = None) [0..<n], m_rest m),
      mx_malloc = \<lambda>m. (find (\<lambda>a. m_items m a = None) [0..<n], m_rest m),
      mx_realloc = \<lambda>k w. (True, w), mx_qsort = \<lambda>ps m. ps, mx_cb = \<lambda>ev a s. (0, s), mx_elem_cb = \<lambda>f a ev s. (0, s)\<rparr>"

definition empty_mixer :: "'w \<Rightarrow> 'w mixer" where
  "empty_mixer w = \<lparr>m_pelems = [], m_alloc = 0, m_compare = False, m_events = 0, m_callback = False,
     m_elems = Map.empty, m_items = Map.empty, m_rest = w\<rparr>"

lemma padded_length: "length (padded bs) = 1024"
  by (simp add: padded_def)

lemma plain_mixer_stores: "stores_values (mx_ctl (plain_mixer info n)) (\<lambda>w i. padded (value_data w))"
  by (simp add: stores_values_def plain_mixer_def padded_length snd_ctl_elem_read_def snd_ctl_elem_write_def status_def one_elem_def)
    (simp add: padded_def)

lemma plain_mixer_serves:
  assumes "length (info_value info) = 128" "unat (info_count info) \<le> 32"
  shows "serves (plain_mixer info n)"
  using assms
  by (auto simp: serves_def plain_mixer_def one_elem_def snd_ctl_elem_info0_def snd_ctl_elem_read_def status_def padded_length
      sorts_def find_Some_iff)

lemma plain_mixer_keeps: "keeps_slots (plain_mixer info n)"
  by (auto simp: keeps_slots_def plain_mixer_def find_Some_iff)

lemma plain_mixer_polite: "polite_mixer (plain_mixer info n)"
  by (simp add: polite_mixer_def plain_mixer_def same_links_def)

lemma empty_mixer_ok: "mixer_ok (empty_mixer w) []" "free_indices (empty_mixer w) []" "well_typed (empty_mixer w)"
  by (simp_all add: mixer_ok_def mixer_array_def free_indices_def well_typed_def holds_def slots_of_def empty_mixer_def)

text \<open>A handle with the element \<open>name\<close> at address 5, before the mixer has seen it.\<close>

definition one_control :: "string \<Rightarrow> snd_ctl_elem_value mstate" where
  "one_control name = (empty_hctl (empty_mixer blank_value))\<lparr>hheap := [5 \<mapsto> new_elem (zero_id\<lparr>id_name := name, id_iface := 2\<rparr>)]\<rparr>"

section \<open>Properties\<close>

text \<open>C11. No two elements of the mixer have the same name and index: adding the item of a control always returns and, with a device whose values fit,
  memory or not, either leaves the elements of the array as they are or adds one, under the name of the control without its
  suffixes; removing an item keeps the elements or takes one out.\<close>

theorem mixer_ids_unique:
  assumes "serves M" "mixer_ok (hworld s) ps" "free_indices (hworld s) ps" "hheap s hp = Some h" "length (id_name (he_id h)) < 60"
  shows "(\<exists>r s' ps'. add_simple_element M hp s = Some (r, s') \<and> mixer_ok (hworld s') ps' \<and>
      (mset ps' = mset ps \<or>
       (\<exists>a index. mset ps' = add_mset a (mset ps) \<and> elem_id (hworld s') a = Some (fst (elem_name (id_name (he_id h))), index)))) \<and>
    (\<forall>b r s'. remove_simple_element hp b s = Some (r, s') \<longrightarrow>
       (\<exists>ps'. mixer_ok (hworld s') ps' \<and> (\<exists>a. ps' = ps \<or> ps' = remove1 a ps)))"
  using add_simple_ok [OF assms] remove_simple_ok [OF assms(2)] by blast

theorem mixer_ids_unique_witness:
  "\<exists>r s' ps'. add_simple_element (plain_mixer (blank_info\<lparr>info_type := TYPE_INTEGER, info_count := 2\<rparr>) 4) 5 (one_control ''Master Volume'') = Some (r, s') \<and>
     mixer_ok (hworld s') ps' \<and> (mset ps' = {#} \<or> (\<exists>a index. mset ps' = {#a#} \<and> elem_id (hworld s') a = Some (''Master'', index)))"
proof -
  let ?i = "blank_info\<lparr>info_type := TYPE_INTEGER, info_count := 2\<rparr>"
  have "serves (plain_mixer ?i 4)" by (rule plain_mixer_serves) (simp_all add: blank_info_def)
  moreover have "mixer_ok (hworld (one_control ''Master Volume'')) []" "free_indices (hworld (one_control ''Master Volume'')) []"
    using empty_mixer_ok by (simp_all add: one_control_def empty_hctl_def)
  moreover have "hheap (one_control ''Master Volume'') 5 = Some (new_elem (zero_id\<lparr>id_name := ''Master Volume'', id_iface := 2\<rparr>))"
    by (simp add: one_control_def)
  moreover have "fst (elem_name ''Master Volume'') = ''Master''" by code_simp
  ultimately show ?thesis
    using mixer_ids_unique [of "plain_mixer ?i 4" "one_control ''Master Volume''" "[]" 5 "new_elem (zero_id\<lparr>id_name := ''Master Volume'', id_iface := 2\<rparr>)"]
    by (simp add: new_elem_def)
qed

text \<open>The array of the mixer is walked in order: the element after one, and the one before it, are its neighbours in the array, and at the ends
  there is none.  An element that is entered and taken out again leaves the array with the elements it had.\<close>

theorem mixer_walk:
  assumes "mixer_array m ps" "length ps < 2 ^ 32" "i < length ps" "fits M m a" "a \<notin> set ps"
  shows "snd_mixer_elem_next m (ps ! i) = Some (if Suc i = length ps then None else Some (ps ! Suc i)) \<and>
     snd_mixer_elem_prev m (ps ! i) = Some (if i = 0 then None else Some (ps ! (i - 1))) \<and>
     snd_mixer_first_elem m = Some (ps ! 0) \<and> snd_mixer_last_elem m = Some (last ps) \<and>
     (\<exists>m1 m2 qs. entered M a m = Some m1 \<and> remove_mixer_elem a m1 = Some m2 \<and> mixer_array m2 qs \<and> mset qs = mset ps)"
proof -
  have "m_pelems m = ps" "ps \<noteq> []" using assms(1,3) by (auto simp: mixer_array_def)
  then show ?thesis
    using next_prev_walk [OF assms(1-3)] mixer.enter_leave [OF assms(1,4,5)]
    by (simp add: snd_mixer_first_elem_def snd_mixer_last_elem_def last_conv_nth)
qed

definition two_elems :: "snd_ctl_elem_value mixer" where
  "two_elems = (let e = \<lparr>sid_name = ''A'', sid_index = 0, e_caps = 0, e_inactive = 0, e_channels = [0, 0],
           e_items = replicate 5 None, e_index = 0, e_callback = None\<rparr>
     in (empty_mixer blank_value)\<lparr>m_pelems := [3, 1], m_alloc := 32, m_elems := [3 \<mapsto> e, 1 \<mapsto> e\<lparr>e_index := 1, sid_index := 1\<rparr>, 0 \<mapsto> e]\<rparr>)"

theorem mixer_walk_witness:
  "snd_mixer_elem_next two_elems 3 = Some (Some 1) \<and> snd_mixer_elem_prev two_elems 3 = Some None \<and>
     (\<exists>m1 m2 qs. entered (plain_mixer blank_info 4) 0 two_elems = Some m1 \<and> remove_mixer_elem 0 m1 = Some m2 \<and> mixer_array m2 qs \<and> mset qs = {#3, 1#})"
proof -
  have "mixer_array two_elems [3, 1]" by (simp add: mixer_array_def two_elems_def Let_def less_Suc_eq)
  moreover have "fits (plain_mixer blank_info 4) two_elems 0"
    by (simp add: fits_def two_elems_def Let_def plain_mixer_def sorts_def)
  ultimately show ?thesis using mixer_walk [of two_elems "[3, 1]" 0 "plain_mixer blank_info 4" 0] by simp
qed

lemma typed_slot:
  assumes "well_typed (hworld s)" "elem_slot s elem ty = Some (Some x)"
  shows "\<exists>it. get_item s x = Some it \<and> slot_type ty (item_body it)"
proof -
  obtain e where e: "get_elem s elem = Some e" "array_get (e_items e) ty = Some (Some x)"
    using assms(2) by (auto simp: elem_slot_def split: bind_splits)
  then have "holds (hworld s) elem ty x" by (simp add: holds_def slots_of_def get_elem_def)
  from well_typed_item [OF assms(1) this] show ?thesis by (simp add: get_item_def)
qed

text \<open>C5. Type safety of the items: whatever the callbacks of the control handle do, every slot of every element is empty or points to an
  allocated item of the slot's type, and an item is in two slots only when it is common to playback and capture.  So a volume
  slot is never read as a switch or an enumeration, and no slot points to an item that was freed.\<close>

theorem mixer_type_safety:
  assumes "keeps_slots M" "well_typed (hworld s)"
    and "hctl_elem_event_handler M helem evmask s = Some (r, s') \<or> hctl_event_handler M f evmask helem s = Some (r, s')"
  shows "well_typed (hworld s') \<and>
    (\<forall>elem ty x. elem_slot s' elem ty = Some (Some x) \<longrightarrow>
       (if ty = ITEM_PVOLUME \<or> ty = ITEM_CVOLUME then vol_item s' x \<noteq> None
        else if ty = ITEM_PSWITCH \<or> ty = ITEM_CSWITCH then sw_item s' x \<noteq> None else enum_item s' x \<noteq> None))"
proof -
  have w: "well_typed (hworld s')" using handlers_typed [OF assms(1,2)] assms(3) by blast
  show ?thesis
  proof (intro conjI allI impI w)
    fix elem ty x assume "elem_slot s' elem ty = Some (Some x)"
    from typed_slot [OF w this] obtain it where it: "get_item s' x = Some it" "slot_type ty (item_body it)" by blast
    then show "if ty = ITEM_PVOLUME \<or> ty = ITEM_CVOLUME then vol_item s' x \<noteq> None
        else if ty = ITEM_PSWITCH \<or> ty = ITEM_CSWITCH then sw_item s' x \<noteq> None else enum_item s' x \<noteq> None"
      by (cases "item_body it") (auto simp: slot_type_def vol_item_def sw_item_def enum_item_def)
  qed
qed

theorem mixer_type_safety_witness:
  "\<exists>r s'. hctl_event_handler (plain_mixer (blank_info\<lparr>info_type := TYPE_BOOLEAN, info_count := 2\<rparr>) 4) 1 MASK_ADD 5 (one_control ''Master Switch'') = Some (r, s') \<and>
     well_typed (hworld s') \<and> (\<forall>elem x. elem_slot s' elem ITEM_PSWITCH = Some (Some x) \<longrightarrow> sw_item s' x \<noteq> None)"
proof -
  let ?M = "plain_mixer (blank_info\<lparr>info_type := TYPE_BOOLEAN, info_count := 2\<rparr>) 4"
  let ?h = "new_elem (zero_id\<lparr>id_name := ''Master Switch'', id_iface := 2\<rparr>)"
  let ?s = "(one_control ''Master Switch'')\<lparr>hheap := (hheap (one_control ''Master Switch''))(5 \<mapsto> ?h\<lparr>he_callback := Some 1\<rparr>)\<rparr>"
  have sv: "serves ?M" by (rule plain_mixer_serves) (simp_all add: blank_info_def)
  have w: "mixer_ok (hworld ?s) []" "free_indices (hworld ?s) []" "well_typed (hworld (one_control ''Master Switch''))"
    using empty_mixer_ok by (simp_all add: one_control_def empty_hctl_def)
  have h: "hheap ?s 5 = Some (?h\<lparr>he_callback := Some 1\<rparr>)" "length (id_name (he_id (?h\<lparr>he_callback := Some 1\<rparr>))) < 60"
    by (simp_all add: new_elem_def)
  from add_simple_ok [OF sv w(1,2) h] obtain r s' where a: "add_simple_element ?M 5 ?s = Some (r, s')" by blast
  then have c: "hctl_event_handler ?M 1 MASK_ADD 5 (one_control ''Master Switch'') = Some (r, s')"
    by (simp add: hctl_event_handler_def one_control_def new_elem_def)
  note t = mixer_type_safety [OF plain_mixer_keeps w(3) disjI2 [OF c]]
  have "sw_item s' x \<noteq> None" if "elem_slot s' elem ITEM_PSWITCH = Some (Some x)" for elem x
    using t [THEN conjunct2, rule_format, OF that] by simp
  with t c show ?thesis by blast
qed

text \<open>
  The environment of a control handle that runs the mixer: \<open>f\<close> is the address of \<^verbatim>\<open>hctl_elem_event_handler\<close>.  Where a
  handler of the mixer is undefined, nothing is known of the program; the model stops the callback there.
\<close>

definition attach_mixer :: "'w mixer_env \<Rightarrow> nat \<Rightarrow> 'w mixer hctl_env \<Rightarrow> 'w mixer hctl_env" where
  "attach_mixer M f E = E\<lparr>
     cb_hctl := \<lambda>m a s. (case hctl_event_handler M f m a s of Some x \<Rightarrow> x | None \<Rightarrow> (0, s)),
     cb_elem := \<lambda>g a m s. if g = f then (case hctl_elem_event_handler M a m s of Some x \<Rightarrow> x | None \<Rightarrow> (0, s)) else cb_elem E g a m s\<rparr>"

lemma attach_polite:
  assumes "polite_mixer M" "polite E"
  shows "polite (attach_mixer M f E)"
proof -
  have r: "same_links s s" for s :: "'a mstate" by (simp add: same_links_def)
  have "same_links s (snd (case hctl_event_handler M f m a s of Some x \<Rightarrow> x | None \<Rightarrow> (0, s)))" for m a s
    using handler_links [OF assms(1), of f m a s] r by (cases "hctl_event_handler M f m a s") (auto split: prod.splits)
  moreover have "same_links s (snd (case hctl_elem_event_handler M a m s of Some x \<Rightarrow> x | None \<Rightarrow> (0, s)))" for m a s
    using elem_handler_links [OF assms(1), of a m s] r by (cases "hctl_elem_event_handler M a m s") (auto split: prod.splits)
  ultimately show ?thesis using assms(2) by (simp add: polite_def attach_mixer_def)
qed


definition quiet_env :: "nat \<Rightarrow> 'w hctl_env" where
  "quiet_env n = \<lparr>cb_hctl = \<lambda>m a s. (0, s), cb_elem = \<lambda>f a m s. (0, s),
      h_calloc = \<lambda>s. (find (\<lambda>a. hheap s a = None) [0..<n], hworld s),
      c_elem_list = \<lambda>l w. (0, 0, l, w), c_calloc_ids = \<lambda>k w. (True, w), c_subscribe = \<lambda>b w. (0, 0, w),
      c_read = \<lambda>w. (- 1, EAGAIN, \<lparr>ev_type = 0, ev_mask = 0, ev_id = zero_id\<rparr>, w)\<rparr>"


section \<open>Values\<close>

text \<open>C16. Setting a volume inside the range of the user, on a device that takes the write: the call succeeds, the volume read back is the one that was set, the
  raw volume is its share of the range of the control, never outside it, the other channels keep theirs, and the raw volumes of the element
  are again the integers the device has; setting all channels leaves each of them at the volume.\<close>

theorem volume_set_get:
  assumes "stores_values (mx_ctl M) f" "in_step f item s" "vol_item s item = Some (it, vol)" "ranges_fit vol" "v_min vol \<le> val" "val \<le> v_max vol"
    and "get_elem s elem = Some e" "array_get (e_items e) ITEM_PVOLUME = Some (Some item)" "channel < unat (item_channels it)"
  shows "(\<exists>s' raw. snd_mixer_selem_set_playback_volume M elem channel val s = Some (0, s') \<and> in_step f item s' \<and>
      snd_mixer_selem_get_playback_volume s' e channel = Some (0, Some val) \<and>
      convert_from_user vol val = Some raw \<and> v_raw_min vol \<le> raw \<and> raw \<le> v_raw_max vol \<and>
      (\<forall>c < unat (item_channels it). c \<noteq> channel \<longrightarrow>
         snd_mixer_selem_get_playback_volume s' e c = snd_mixer_selem_get_playback_volume s e c)) \<and>
    (\<exists>s'. snd_mixer_selem_set_playback_volume_all M elem val s = Some (0, s') \<and> in_step f item s' \<and>
      (\<forall>c < unat (item_channels it). snd_mixer_selem_get_playback_volume s' e c = Some (0, Some val)))"
proof -
  have sl: "elem_slot s elem ITEM_PVOLUME = Some (Some item)" using assms(7,8) by (simp add: elem_slot_def)
  have get: "snd_mixer_selem_get_playback_volume t e c = Some (0, Some (v_vol v ! USR_IDX c))"
    if "vol_item t item = Some (it\<lparr>item_body := b\<rparr>, v)" "c < unat (item_channels it)" "in_step f item t" for t b v c
  proof -
    have "length (v_vol v) = 2 * unat (item_channels it)" using in_step_D [OF that(3,1)] by (metis selem_item.select_convs(3) selem_item.update_convs(4) selem_item.surjective)
    with that(1,2) assms(8) show ?thesis
      by (simp add: snd_mixer_selem_get_playback_volume_def snd_mixer_selem_get_volume_def pick_channel_def)
  qed
  have get0: "snd_mixer_selem_get_playback_volume s e c = Some (0, Some (v_vol vol ! USR_IDX c))" if "c < unat (item_channels it)" for c
    using get [of s "Vol vol" vol c] vol_item_same [OF assms(3)] assms(2,3) that by simp
  from convert_in_range(1) [OF assms(4-6)] obtain raw where
    raw: "convert_from_user vol val = Some raw" "v_raw_min vol \<le> raw" "raw \<le> v_raw_max vol" by blast
  from update_volume_in_step [OF assms(1-3,9,4-6)] obtain s1 v1 where
    1: "snd_selem_update_volume M (Some item) channel val s = Some (0, s1)" "in_step f item s1"
      "vol_item s1 item = Some (it\<lparr>item_body := Vol v1\<rparr>, v1)" "v_vol v1 ! USR_IDX channel = val"
      "\<forall>i. i \<noteq> USR_IDX channel \<longrightarrow> i \<noteq> RAW_IDX channel \<longrightarrow> v_vol v1 ! i = v_vol vol ! i" by blast
  have other: "snd_mixer_selem_get_playback_volume s1 e c = snd_mixer_selem_get_playback_volume s e c"
    if "c < unat (item_channels it)" "c \<noteq> channel" for c
    using get [OF 1(3) that(1) 1(2)] get0 [OF that(1)] 1(5) that(2) by (simp add: double_not_eq_Suc_double)
  have "\<exists>s2 v2. update_volume_loop M item val (unat (item_channels it)) 0 s = Some (0, s2) \<and> in_step f item s2 \<and>
      vol_item s2 item = Some (it\<lparr>item_body := Vol v2\<rparr>, v2) \<and> (\<forall>c < unat (item_channels it). v_vol v2 ! USR_IDX c = val)"
    using update_volume_loop_in_step [OF assms(1,2,3) _ assms(4-6), of 0 "unat (item_channels it)"] by auto
  then obtain s2 v2 where 2: "update_volume_loop M item val (unat (item_channels it)) 0 s = Some (0, s2)" "in_step f item s2"
      "vol_item s2 item = Some (it\<lparr>item_body := Vol v2\<rparr>, v2)" "\<forall>c < unat (item_channels it). v_vol v2 ! USR_IDX c = val" by blast
  have gi: "get_item s item = Some it" using assms(3) by (auto simp: vol_item_def split: bind_splits selem_body.splits)
  have "snd_mixer_selem_set_playback_volume M elem channel val s = Some (0, s1)"
    using sl 1(1) by (simp add: snd_mixer_selem_set_playback_volume_def)
  moreover have "snd_mixer_selem_get_playback_volume s1 e channel = Some (0, Some val)" using get [OF 1(3) assms(9) 1(2)] 1(4) by simp
  moreover have "snd_mixer_selem_set_playback_volume_all M elem val s = Some (0, s2)"
    using sl 2(1) gi by (simp add: snd_mixer_selem_set_playback_volume_all_def snd_selem_update_volume_all_def)
  moreover have "\<forall>c < unat (item_channels it). snd_mixer_selem_get_playback_volume s2 e c = Some (0, Some val)"
    using get [OF 2(3) _ 2(2)] 2(4) by simp
  ultimately show ?thesis using 1(2) 2(2) raw other by blast
qed

text \<open>A mixer with one element whose first slot is a stereo volume of the range 0..100 on a control of the range 0..31.\<close>

definition stereo_elem :: mixer_elem where
  "stereo_elem = \<lparr>sid_name = ''Master'', sid_index = 0, e_caps = 1, e_inactive = 0, e_channels = [2, 0],
     e_items = [Some 0, None, None, None, None], e_index = 0, e_callback = None\<rparr>"

definition stereo_vol :: vol_body where
  "stereo_vol = \<lparr>v_min = 0, v_max = 100, v_raw_min = 0, v_raw_max = 31, v_db = DbNull, v_vol = [0, 0, 0, 0]\<rparr>"

definition stereo_item :: selem_item where
  "stereo_item = \<lparr>item_helem = 5, item_numid = 1, item_channels = 2, item_body = Vol stereo_vol\<rparr>"

definition stereo_state :: "snd_ctl_elem_value mstate" where
  "stereo_state = (empty_hctl ((empty_mixer blank_value)\<lparr>m_pelems := [0], m_alloc := 32, m_elems := [0 \<mapsto> stereo_elem], m_items := [0 \<mapsto> stereo_item]\<rparr>))
     \<lparr>hheap := [5 \<mapsto> new_elem zero_id]\<rparr>"

lemma stereo_state_simps:
  "vol_item stereo_state 0 = Some (stereo_item, stereo_vol)" "get_elem stereo_state 0 = Some stereo_elem"
  "array_get (e_items stereo_elem) ITEM_PVOLUME = Some (Some 0)" "unat (item_channels stereo_item) = 2" "ranges_fit stereo_vol"
  by (simp_all add: vol_item_def get_item_def get_elem_def stereo_state_def empty_hctl_def stereo_item_def stereo_elem_def ranges_fit_def
      stereo_vol_def)

lemma stereo_zeros: "snd_ctl_elem_value_get_integer (zero_value\<lparr>value_data := padded (replicate 1024 0)\<rparr>) 0 = Some 0"
    "snd_ctl_elem_value_get_integer (zero_value\<lparr>value_data := padded (replicate 1024 0)\<rparr>) 1 = Some 0"
  by (simp_all add: snd_ctl_elem_value_get_integer_def load_array_def load_long_def load_def padded_def numeral_eq_Suc)

lemma stereo_in_step: "in_step (\<lambda>w i. padded (value_data w)) 0 stereo_state"
  using stereo_zeros stereo_state_simps(1)
  by (simp add: in_step_def stereo_state_def empty_hctl_def stereo_item_def stereo_vol_def blank_value_def empty_mixer_def less_2_cases_iff
      all_conj_distrib conj_disj_distribR)

theorem volume_set_get_witness:
  "\<exists>s' raw. snd_mixer_selem_set_playback_volume (plain_mixer blank_info 4) 0 1 50 stereo_state = Some (0, s') \<and>
     snd_mixer_selem_get_playback_volume s' stereo_elem 1 = Some (0, Some 50) \<and> convert_from_user stereo_vol 50 = Some raw \<and> 0 \<le> raw \<and> raw \<le> 31"
proof -
  have "v_min stereo_vol \<le> 50" "50 \<le> v_max stereo_vol" "v_raw_min stereo_vol = 0" "v_raw_max stereo_vol = 31" by (simp_all add: stereo_vol_def)
  with volume_set_get [OF plain_mixer_stores stereo_in_step stereo_state_simps(1,5) _ _ stereo_state_simps(2,3), of 50 1 blank_info 4] stereo_state_simps(4)
  show ?thesis by auto
qed

text \<open>A value event brings the cache up to date: when the device has values in the range of the control, updating the item returns, the
  raw volumes are the integers of the device and the volumes their share of the range of the user, and the result is 1, which is what makes
  the mixer report the change, exactly when a cached volume was different.\<close>

theorem value_event_refreshes:
  assumes "stores_values (mx_ctl M) f" "vol_item s item = Some (it, vol)" "hheap s (item_helem it) = Some h" "ranges_fit vol"
    "unat (item_channels it) \<le> 128" "length (v_vol vol) = 2 * unat (item_channels it)"
    "\<forall>c < unat (item_channels it). \<exists>r. v_raw_min vol \<le> r \<and> r \<le> v_raw_max vol \<and>
       snd_ctl_elem_value_get_integer (zero_value\<lparr>value_data := f (m_rest (hworld s)) (he_id h)\<rparr>) (of_nat c) = Some r"
  shows "\<exists>s' vol'. update_selem_item M ITEM_PVOLUME item s = Some (of_bool (v_vol vol' \<noteq> v_vol vol), s') \<and> in_step f item s' \<and>
     vol_item s' item = Some (it\<lparr>item_body := Vol vol'\<rparr>, vol') \<and>
     (\<forall>c < unat (item_channels it). convert_to_user vol (v_vol vol' ! RAW_IDX c) = Some (v_vol vol' ! USR_IDX c))"
  using update_selem_item_in_step [OF assms(1-6) _ assms(7), of ITEM_PVOLUME] by blast

theorem value_event_refreshes_witness:
  "\<exists>s' vol'. update_selem_item (plain_mixer blank_info 4) ITEM_PVOLUME 0 stereo_state = Some (of_bool (v_vol vol' \<noteq> [0, 0, 0, 0]), s') \<and>
     in_step (\<lambda>w i. padded (value_data w)) 0 s' \<and> vol_item s' 0 = Some (stereo_item\<lparr>item_body := Vol vol'\<rparr>, vol')"
proof -
  have "hheap stereo_state (item_helem stereo_item) = Some (new_elem zero_id)" "length (v_vol stereo_vol) = 2 * unat (item_channels stereo_item)"
    "unat (item_channels stereo_item) \<le> 128" "v_raw_min stereo_vol = 0" "v_raw_max stereo_vol = 31"
    by (simp_all add: stereo_state_def stereo_item_def stereo_vol_def)
  moreover have "padded (value_data (m_rest (hworld stereo_state))) = padded (replicate 1024 0)"
    by (simp add: stereo_state_def empty_hctl_def empty_mixer_def blank_value_def)
  then have "\<forall>c < unat (item_channels stereo_item). snd_ctl_elem_value_get_integer
      (zero_value\<lparr>value_data := padded (value_data (m_rest (hworld stereo_state)))\<rparr>) (of_nat c) = Some 0"
    using stereo_zeros stereo_state_simps(4) by (simp add: less_2_cases_iff)
  ultimately obtain s' vol' where
    "update_selem_item (plain_mixer blank_info 4) ITEM_PVOLUME 0 stereo_state = Some (of_bool (v_vol vol' \<noteq> v_vol stereo_vol), s')"
    "in_step (\<lambda>w i. padded (value_data w)) 0 s'" "vol_item s' 0 = Some (stereo_item\<lparr>item_body := Vol vol'\<rparr>, vol')"
    using value_event_refreshes [OF plain_mixer_stores stereo_state_simps(1) _ stereo_state_simps(5), of "new_elem zero_id" blank_info 4] by auto
  moreover have "v_vol stereo_vol = [0, 0, 0, 0]" by (simp add: stereo_vol_def)
  ultimately show ?thesis by (intro exI [of _ s'] exI [of _ vol']) simp
qed

text \<open>A volume that is set in a user range with no more steps than the control and then read back from the device, as after any value
  event, is the one that was set only if it falls on a raw volume; otherwise it has become one less, because both conversions
  round down.\<close>

theorem user_range_drift:
  assumes "ranges_fit vol" "v_min vol \<le> val" "val \<le> v_max vol" "v_min vol < v_max vol" "v_max vol - v_min vol \<le> v_raw_max vol - v_raw_min vol"
  shows "\<exists>raw. convert_from_user vol val = Some raw \<and> v_raw_min vol \<le> raw \<and> raw \<le> v_raw_max vol \<and>
     convert_to_user vol raw = Some (if (v_max vol - v_min vol) dvd (val - v_min vol) * (v_raw_max vol - v_raw_min vol) then val else val - 1)"
proof -
  let ?U = "v_max vol - v_min vol" and ?R = "v_raw_max vol - v_raw_min vol" and ?x = "val - v_min vol"
  obtain raw where raw: "convert_from_user vol val = Some raw" "v_raw_min vol \<le> raw" "raw \<le> v_raw_max vol"
    using convert_in_range(1) [OF assms(1-3)] by blast
  show ?thesis
  proof (cases "v_min vol = v_raw_min vol \<and> v_max vol = v_raw_max vol")
    case True
    then have "convert_to_user vol raw = Some raw" "raw = val"
      using raw convert_from_user_scales [OF assms(1-3)] by (simp_all add: convert_to_user_def)
    with raw True show ?thesis by simp
  next
    case False
    then have "raw = ?x * ?R div ?U + v_raw_min vol" using raw(1) convert_from_user_scales [OF assms(1-3)] by auto
    then have "convert_to_user vol raw = Some (?x * ?R div ?U * ?U div ?R + v_min vol)"
      using convert_to_user_scales [OF assms(1) raw(2,3)] False by auto
    moreover have "?x * ?R div ?U * ?U div ?R = (if ?U dvd ?x * ?R then ?x else ?x - 1)" using assms(4,5) by (intro scale_back) simp_all
    ultimately show ?thesis using raw by auto
  qed
qed

theorem user_range_drift_witness:
  "\<exists>raw. convert_from_user (stereo_vol\<lparr>v_raw_max := 255\<rparr>) 50 = Some raw \<and> 0 \<le> raw \<and> raw \<le> 255 \<and>
     convert_to_user (stereo_vol\<lparr>v_raw_max := 255\<rparr>) raw = Some 49"
  using user_range_drift [of "stereo_vol\<lparr>v_raw_max := 255\<rparr>" 50] by (simp add: stereo_vol_def ranges_fit_def)

text \<open>Setting a switch on a device that takes the write: the call succeeds, the switch of the channel reads back as set, the switches of all other
  channels keep their values, and when anything changed the device has the new value.\<close>

theorem switch_set_get:
  assumes "stores_values (mx_ctl M) f" "get_elem s elem = Some e" "array_get (e_items e) ITEM_PSWITCH = Some (Some item)"
    "sw_item s item = Some (it, sw)" "hheap s (item_helem it) = Some h" "channel < 32" "unat (item_channels it) \<le> 32"
    "channel < unat (item_channels it)"
  shows "\<exists>s'. snd_mixer_selem_set_playback_switch M elem channel val s = Some (0, s') \<and>
     (\<forall>c < unat (item_channels it). snd_mixer_selem_get_playback_switch s' e c =
        (if c = channel then Some (0, Some (of_bool (val \<noteq> 0))) else snd_mixer_selem_get_playback_switch s e c)) \<and>
     (snd_mixer_selem_get_playback_switch s e channel \<noteq> Some (0, Some (of_bool (val \<noteq> 0))) \<longrightarrow>
        snd_ctl_elem_value_get_integer (zero_value\<lparr>value_data := f (m_rest (hworld s')) (he_id h)\<rparr>) (of_nat channel) = Some (of_bool (val \<noteq> 0)))"
proof -
  have sl: "elem_slot s elem ITEM_PSWITCH = Some (Some item)" using assms(2,3) by (simp add: elem_slot_def)
  from update_switch_effect [OF assms(1) sl assms(4-6), of val] obtain s' sw' where
    u: "update_switch M elem ITEM_PSWITCH channel val s = Some (0, s')" "sw_item s' item = Some (it\<lparr>item_body := Sw sw'\<rparr>, sw')"
      "\<forall>c. bit sw' c = (if c = channel then val \<noteq> 0 else bit sw c)"
      "sw' \<noteq> sw \<longrightarrow> snd_ctl_elem_value_get_integer (zero_value\<lparr>value_data := f (m_rest (hworld s')) (he_id h)\<rparr>) (of_nat channel) =
        Some (of_bool (val \<noteq> 0))" by blast
  have get: "snd_mixer_selem_get_playback_switch t e c = Some (0, Some (of_bool (bit w c)))"
    if "sw_item t item = Some (it\<lparr>item_body := b\<rparr>, w)" "c < unat (item_channels it)" for t b w c
    using that assms(3,7)
    by (simp add: snd_mixer_selem_get_playback_switch_def snd_mixer_selem_get_switch_def pick_channel_def Let_def and_single del: push_bit_of_1)
  have same: "it\<lparr>item_body := Sw sw\<rparr> = it" using assms(4) by (auto simp: sw_item_def split: bind_splits selem_body.splits)
  have get0: "snd_mixer_selem_get_playback_switch s e c = Some (0, Some (of_bool (bit sw c)))" if "c < unat (item_channels it)" for c
    using get [of s "Sw sw" sw c] same assms(4) that by simp
  have "sw' \<noteq> sw" if "bit sw channel \<noteq> (val \<noteq> 0)" using that spec [OF u(3), of channel] by auto
  then show ?thesis
    using u get [OF u(2)] get0 assms(8) by (intro exI [of _ s']) (auto simp: snd_mixer_selem_set_playback_switch_def)
qed

definition switch_state :: "snd_ctl_elem_value mstate" where
  "switch_state = (empty_hctl ((empty_mixer blank_value)\<lparr>m_pelems := [0], m_alloc := 32,
       m_elems := [0 \<mapsto> stereo_elem\<lparr>e_items := [None, None, Some 0, None, None]\<rparr>], m_items := [0 \<mapsto> stereo_item\<lparr>item_body := Sw 2\<rparr>]\<rparr>))
     \<lparr>hheap := [5 \<mapsto> new_elem zero_id]\<rparr>"

theorem switch_set_get_witness:
  "\<exists>s'. snd_mixer_selem_set_playback_switch (plain_mixer blank_info 4) 0 0 1 switch_state = Some (0, s') \<and>
     snd_mixer_selem_get_playback_switch s' (stereo_elem\<lparr>e_items := [None, None, Some 0, None, None]\<rparr>) 0 = Some (0, Some 1)"
proof -
  let ?e = "stereo_elem\<lparr>e_items := [None, None, Some 0, None, None]\<rparr>" and ?it = "stereo_item\<lparr>item_body := Sw 2\<rparr>"
  have "get_elem switch_state 0 = Some ?e" "array_get (e_items ?e) ITEM_PSWITCH = Some (Some 0)" "sw_item switch_state 0 = Some (?it, 2)"
    "hheap switch_state (item_helem ?it) = Some (new_elem zero_id)" "unat (item_channels ?it) = 2"
    by (simp_all add: switch_state_def empty_hctl_def get_elem_def get_item_def sw_item_def stereo_item_def)
  then show ?thesis using switch_set_get [OF plain_mixer_stores, of switch_state 0 ?e 0 ?it 2 "new_elem zero_id" 0 blank_info 4 1] by auto
qed

text \<open>A write that fails leaves the cache with the volume that was not set.\<close>

lemma failed_write_cached:
  assumes "vol_item s item = Some (it, vol)" "hheap s (item_helem it) = Some h" "channel < unat (item_channels it)" "ranges_fit vol"
    "length (v_vol vol) = 2 * unat (item_channels it)" "v_min vol \<le> val" "val \<le> v_max vol" "val \<noteq> v_vol vol ! USR_IDX channel"
    "convert_from_user vol val = Some raw" "raw \<noteq> v_vol vol ! RAW_IDX channel"
    "\<forall>v w. \<exists>v' w'. snd_ctl_elem_read (mx_ctl M) v w = (- EIO, v', w')"
  shows "\<exists>s' vol'. snd_selem_update_volume M (Some item) channel val s = Some (- EIO, s') \<and>
     vol_item s' item = Some (it\<lparr>item_body := Vol vol'\<rparr>, vol') \<and> v_vol vol' ! USR_IDX channel = val"
proof -
  let ?v = "vol\<lparr>v_vol := (v_vol vol)[USR_IDX channel := val, RAW_IDX channel := raw]\<rparr>"
  obtain v' w' where r: "snd_ctl_elem_read (mx_ctl M) (zero_value\<lparr>value_id := he_id h\<rparr>) (m_rest (hworld s)) = (- EIO, v', w')"
    using assms(11) by blast
  have "snd_selem_update_volume M (Some item) channel val s = Some (- EIO, set_rest w' (put_vol item it ?v s))"
    using assms r by (simp add: snd_selem_update_volume_def read_modify_write_def snd_hctl_elem_read_def)
  then show ?thesis using assms(3,5) by (intro exI [of _ "set_rest w' (put_vol item it ?v s)"] exI [of _ ?v]) simp
qed

section \<open>Gains\<close>

lemma words_of_take: "words_of (take (4 * n) bs) = take n (words_of bs)"
proof (induction n arbitrary: bs)
  case (Suc n)
  have n: "4 * Suc n = Suc (Suc (Suc (Suc (4 * n))))" by simp
  show ?case unfolding n using Suc by (cases bs rule: words_of.cases) simp_all
qed simp

text \<open>A search that finds something returns its size, one that does not a status that is not positive.\<close>

lemma tlv_find_found:
  shows "tlv_find p t = (sz, q) \<Longrightarrow> (case q of None \<Rightarrow> sz \<le> 0 | Some i \<Rightarrow> 0 < sz \<and> p \<le> i)"
    and "tlv_scan p us = (sz, q) \<Longrightarrow> (case q of None \<Rightarrow> sz < 0 | Some i \<Rightarrow> 0 < sz \<and> p \<le> i)"
proof (induction p t and p us arbitrary: sz q and sz q rule: tlv_find_tlv_scan.induct)
  case (2 p ts)
  from 2(1) [of sz q] 2(2) show ?case by (auto split: option.splits)
next
  case (4 p t ts)
  obtain a b where ab: "tlv_find p t = (a, b)" by force
  show ?case
  proof (cases "a = 0")
    case True
    with 4(2) [OF ab [symmetric]] 4(3) ab show ?thesis by (auto split: option.splits)
  next
    case False
    with 4(1) [OF ab] 4(3) ab show ?thesis by (auto split: option.splits)
  qed
qed (auto split: if_splits)

text \<open>The dB data of a volume are found only when they are the outermost TLV entry of the control: such an entry is copied, any other single entry
  is remembered as no data, a container without dB data too, and for a container with dB data inside the program frees a pointer
  into the middle of its buffer.\<close>

theorem db_info_outermost:
  assumes "vol_item s item = Some (it, vol)" "v_db vol = DbNull" "hheap s (item_helem it) = Some h"
    "snd_ctl_elem_info0 (mx_ctl M) (zero_info\<lparr>info_id := he_id h\<rparr>) (m_rest (hworld s)) = (err, info, w1)" "0 \<le> err"
    "snd_ctl_elem_info_is_tlv_readable info \<noteq> 0" "k_malloc (mx_ctl M) 4096 w1 = (True, w2)"
    "snd_ctl_elem_tlv_read (mx_ctl M) (mx_protocol M) (mx_info0 M) (he_id h) (mx_buffer M) 4096 w2 = Some (r, bytes, w3)" "0 \<le> r"
    "words_of bytes = tlv_words t @ ys" "wf_tlv t" "4 * length (tlv_words t) \<le> 4096" "\<forall>n. k_malloc (mx_ctl M) n w3 = (True, w4)"
  shows "init_db_info M (Some item) s =
    (case t of
       Data ty ws \<Rightarrow> if db_type ty then Some (0, put_vol item it (vol\<lparr>v_db := DbData (tlv_words t)\<rparr>) (set_rest w4 s))
                    else Some (- EINVAL, put_vol item it (vol\<lparr>v_db := DbInvalid\<rparr>) (set_rest w3 s))
     | Container ts \<Rightarrow> if snd (tlv_scan 2 ts) = None then Some (- EINVAL, put_vol item it (vol\<lparr>v_db := DbInvalid\<rparr>) (set_rest w3 s)) else None)"
proof -
  have r2: "set_rest w (set_rest w' s) = set_rest w s" for w w' :: 'a by (simp add: set_rest_def mix_def)
  have i: "init_db_info M (Some item) s = read_db_info M item it vol (set_rest w2 s)"
    using assms(1-7) by (simp add: init_db_info_def snd_hctl_elem_info_def r2)
  have p: "snd_tlv_parse_dB_info (words_of bytes) 0 4096 = Some (tlv_find 0 t)"
    using parse_finds(1) [OF assms(11), of 0 "words_of bytes" ys 4096] assms(10,12) by simp
  have rd: "read_db_info M item it vol (set_rest w2 s) =
    (case tlv_find 0 t of (sz, q) \<Rightarrow>
       if sz \<le> 0 then if q = None \<or> q = Some 0 then Some (- EINVAL, put_vol item it (vol\<lparr>v_db := DbInvalid\<rparr>) (set_rest w3 s)) else None
       else do {
         q \<leftarrow> q;
         (if q \<noteq> 0 then None
          else Some (0, put_vol item it (vol\<lparr>v_db := DbData (words_of (take (nat sz) (drop (4 * q) bytes)))\<rparr>) (set_rest w4 s))) })"
  proof (cases "tlv_find 0 t")
    case (Pair sz q)
    then show ?thesis using assms(3,8,9,13) p by (cases q) (simp_all add: read_db_info_def db_failed_def r2)
  qed
  show ?thesis
  proof (cases t)
    case (Data ty ws)
    have k: "nat (int (4 * length ws + 8)) = 4 * length (tlv_words t)" using Data by simp
    have "words_of (take (nat (int (4 * length ws + 8))) bytes) = tlv_words t"
      unfolding k words_of_take using assms(10) by simp
    with i rd Data show ?thesis by (simp del: of_nat_mult of_nat_add)
  next
    case (Container ts)
    show ?thesis
    proof (cases "tlv_scan 2 ts")
      case (Pair sz o')
      have "tlv_find 0 t = (sz, o')" using Pair Container by (simp del: add_2_eq_Suc' add: add.commute)
      with Pair tlv_find_found(2) [OF Pair] i rd Container show ?thesis by (cases o') (simp_all del: tlv_find.simps add_2_eq_Suc')
    qed
  qed
qed

text \<open>A control whose TLV data are a container with a dB scale.\<close>

definition nested_tlv :: "u8 list" where
  "nested_tlv = [0,0,0,0, 16,0,0,0, 1,0,0,0, 8,0,0,0, 0,0,0,0, 100,0,0,0]"

definition nested_mixer :: "snd_ctl_elem_value mixer_env" where
  "nested_mixer = (let M = plain_mixer (blank_info\<lparr>info_access := 0x10\<rparr>) 4
     in M\<lparr>mx_ctl := (mx_ctl M)\<lparr>k_tlv := \<lambda>cmd n bs w. (0, 0, nested_tlv @ drop 24 bs, w)\<rparr>\<rparr>)"

theorem db_info_outermost_witness:
  "init_db_info nested_mixer (Some 0) (stereo_state\<lparr>hheap := [5 \<mapsto> new_elem (zero_id\<lparr>id_numid := 1\<rparr>)]\<rparr>) = None"
proof -
  let ?s = "stereo_state\<lparr>hheap := [5 \<mapsto> new_elem (zero_id\<lparr>id_numid := 1\<rparr>)]\<rparr>" and ?h = "new_elem (zero_id\<lparr>id_numid := 1\<rparr>)"
  let ?t = "Container [Data TLVT_DB_SCALE [0, 100]]"
  have s: "vol_item ?s 0 = Some (stereo_item, stereo_vol)" "v_db stereo_vol = DbNull" "hheap ?s (item_helem stereo_item) = Some ?h"
    using stereo_state_simps(1) by (simp_all add: vol_item_def get_item_def stereo_vol_def stereo_item_def)
  obtain bs where b: "store 4 0 4 (the (store 4 0xffffffff 0 (replicate 4096 0))) = Some bs"
    "\<exists>b1. store 4 0xffffffff 0 (replicate 4096 0) = Some b1" "length bs = 4096"
    by (simp add: store_def)
  have rd: "snd_ctl_elem_tlv_read (mx_ctl nested_mixer) (mx_protocol nested_mixer) (mx_info0 nested_mixer) (he_id ?h) (mx_buffer nested_mixer) 4096 w =
    Some (0, nested_tlv @ drop 24 bs, w)" for w
    using b by (auto simp: snd_ctl_elem_tlv_read_def snd_ctl_tlv_do_def hw_elem_tlv_def nested_mixer_def plain_mixer_def one_elem_def new_elem_def
        Let_def load_def nested_tlv_def)
  have w: "words_of (nested_tlv @ drop 24 bs) = tlv_words ?t @ words_of (drop 24 bs)"
    by (simp add: nested_tlv_def Let_def)
  have i: "snd_ctl_elem_info0 (mx_ctl nested_mixer) (zero_info\<lparr>info_id := he_id ?h\<rparr>) w = (0, blank_info\<lparr>info_access := 0x10, info_id := he_id ?h\<rparr>, w)" for w
    by (simp add: nested_mixer_def plain_mixer_def one_elem_def snd_ctl_elem_info0_def status_def Let_def)
  have m: "k_malloc (mx_ctl nested_mixer) n w = (True, w)" for n w by (simp add: nested_mixer_def plain_mixer_def one_elem_def Let_def)
  show ?thesis
    by (subst db_info_outermost [OF s i _ _ m rd _ w _ _ allI [OF m]])
      (simp_all add: snd_ctl_elem_info_is_tlv_readable_def db_type_def Let_def)
qed

end
