(* ===== verification/Hctl_Open.thy ===== *)
theory Hctl_Open
  imports Hctl_Events Devices
begin

text \<open>
  Opening and closing a control handle with its element list, and the accessors of handles and elements:
  \<^verbatim>\<open>src/src/hcontrol.c\<close> and \<^verbatim>\<open>src/src/hctl_macros.h\<close>.

  The handle of the control device is the record \<open>snd_ctl\<close> of \<open>Devices\<close>, and its element list the state \<open>'w hctl\<close> of
  \<open>Hctl\<close>.  Closing is written for any world of that state, since the mixer's world contains the device's; what closes the
  control device there is an argument.
\<close>

section \<open>Open and close\<close>

definition async_sys :: "('w sys \<Rightarrow> 'r \<times> 'w sys) \<Rightarrow> 'w sys async \<Rightarrow> 'r \<times> 'w sys async" where
  "async_sys f a = (case f (async_world a) of (r, s) \<Rightarrow> (r, set_world s a))"

text \<open>The result tells whether there is a new handle, which has no elements and no callback.\<close>

definition snd_hctl_open_ctl :: "'w sys_kernel \<Rightarrow> 'w sys async \<Rightarrow> int \<times> bool \<times> 'w sys async" where
  "snd_hctl_open_ctl k a = (case async_sys (sys_calloc k) a of (ok, a) \<Rightarrow> (if ok then 0 else - ENOMEM, ok, a))"

text \<open>\<open>cell\<close> is the address of the member \<^verbatim>\<open>async\<close> of the control handle.\<close>

definition snd_hctl_open :: "'w sys async_os \<Rightarrow> 'w sys_kernel \<Rightarrow> snd_ctl_card_info \<Rightarrow> nat \<Rightarrow> string \<Rightarrow> u32 \<Rightarrow> 'w sys async \<Rightarrow>
    (int \<times> snd_ctl option \<times> 'w sys async) option" where
  "snd_hctl_open os k uninit cell name mode a = do {
     (err, ctl, s) \<leftarrow> snd_ctl_open k uninit name mode (async_world a);
     (let a = set_world s a
      in if err < 0 then Some (err, None, a)
         else do {
           ctl \<leftarrow> ctl;
           (case snd_hctl_open_ctl k a of (err, ok, a) \<Rightarrow>
              if err < 0 then do { (_, a) \<leftarrow> snd_ctl_close os k cell ctl a; Some (err, None, a) }
              else Some (err, Some ctl, a)) }) }"

definition snd_hctl_close :: "'w hctl_env \<Rightarrow> ('w \<Rightarrow> (int \<times> 'w) option) \<Rightarrow> 'w hctl \<Rightarrow> (int \<times> 'w hctl) option" where
  "snd_hctl_close E close_ctl s = do {
     (_, s) \<leftarrow> snd_hctl_free E s;
     (_, w) \<leftarrow> close_ctl (hworld s);
     Some (0, s\<lparr>hworld := w\<rparr>) }"

section \<open>The handle\<close>

definition snd_hctl_name :: "snd_ctl \<Rightarrow> string option" where
  "snd_hctl_name ctl = snd_ctl_name ctl"

definition snd_hctl_nonblock :: "'w sys_kernel \<Rightarrow> snd_ctl \<Rightarrow> int \<Rightarrow> 'w sys async \<Rightarrow> int \<times> 'w sys async" where
  "snd_hctl_nonblock k ctl nonblock a = async_sys (snd_ctl_set_nonblock k ctl nonblock) a"

definition snd_hctl_set_compare :: int where
  "snd_hctl_set_compare = 0"

definition snd_hctl_compare_fast :: "snd_hctl_elem \<Rightarrow> snd_hctl_elem \<Rightarrow> int" where
  "snd_hctl_compare_fast c1 c2 = 0"

definition snd_hctl_poll_descriptors_count :: "snd_ctl \<Rightarrow> int" where
  "snd_hctl_poll_descriptors_count ctl = snd_ctl_poll_descriptors_count ctl"

definition snd_hctl_poll_descriptors :: "snd_ctl \<Rightarrow> pollfd list \<Rightarrow> u32 \<Rightarrow> (int \<times> pollfd list) option" where
  "snd_hctl_poll_descriptors ctl pfds space = snd_ctl_poll_descriptors ctl pfds space"

definition snd_hctl_poll_descriptors_revents :: "snd_ctl \<Rightarrow> pollfd list \<Rightarrow> u32 \<Rightarrow> (int \<times> u16) option" where
  "snd_hctl_poll_descriptors_revents ctl pfds nfds = snd_ctl_poll_descriptors_revents ctl pfds nfds"

definition snd_hctl_set_callback :: "bool \<Rightarrow> 'w hctl \<Rightarrow> 'w hctl" where
  "snd_hctl_set_callback callback s = s\<lparr>hctl_callback := callback\<rparr>"

definition snd_hctl_get_count :: "'w hctl \<Rightarrow> u32" where
  "snd_hctl_get_count s = hctl_count s"

definition snd_hctl_first_elem :: "'w hctl \<Rightarrow> nat option" where
  "snd_hctl_first_elem s = first_elem s"

definition snd_hctl_last_elem :: "'w hctl \<Rightarrow> nat option" where
  "snd_hctl_last_elem s = last_elem s"

definition snd_hctl_async :: int where
  "snd_hctl_async = - ENXIO"

section \<open>Elements\<close>

definition elem_field :: "(snd_hctl_elem \<Rightarrow> 'a) \<Rightarrow> 'w hctl \<Rightarrow> nat \<Rightarrow> 'a option" where
  "elem_field f s elem = map_option f (hheap s elem)"

definition snd_hctl_elem_next :: "'w hctl \<Rightarrow> nat \<Rightarrow> nat option option" where
  "snd_hctl_elem_next s elem = elem_field he_next s elem"

definition snd_hctl_elem_prev :: "'w hctl \<Rightarrow> nat \<Rightarrow> nat option option" where
  "snd_hctl_elem_prev s elem = elem_field he_prev s elem"

definition snd_hctl_elem_get_id :: "'w hctl \<Rightarrow> nat \<Rightarrow> snd_ctl_elem_id option" where
  "snd_hctl_elem_get_id s elem = elem_field he_id s elem"

definition snd_hctl_elem_get_numid :: "'w hctl \<Rightarrow> nat \<Rightarrow> u32 option" where
  "snd_hctl_elem_get_numid s elem = elem_field (\<lambda>e. id_numid (he_id e)) s elem"

definition snd_hctl_elem_get_interface :: "'w hctl \<Rightarrow> nat \<Rightarrow> int option" where
  "snd_hctl_elem_get_interface s elem = elem_field (\<lambda>e. id_iface (he_id e)) s elem"

definition snd_hctl_elem_get_device :: "'w hctl \<Rightarrow> nat \<Rightarrow> u32 option" where
  "snd_hctl_elem_get_device s elem = elem_field (\<lambda>e. id_device (he_id e)) s elem"

definition snd_hctl_elem_get_subdevice :: "'w hctl \<Rightarrow> nat \<Rightarrow> u32 option" where
  "snd_hctl_elem_get_subdevice s elem = elem_field (\<lambda>e. id_subdevice (he_id e)) s elem"

definition snd_hctl_elem_get_name :: "'w hctl \<Rightarrow> nat \<Rightarrow> string option" where
  "snd_hctl_elem_get_name s elem = elem_field (\<lambda>e. id_name (he_id e)) s elem"

definition snd_hctl_elem_get_index :: "'w hctl \<Rightarrow> nat \<Rightarrow> u32 option" where
  "snd_hctl_elem_get_index s elem = elem_field (\<lambda>e. id_index (he_id e)) s elem"

definition set_elem :: "(snd_hctl_elem \<Rightarrow> snd_hctl_elem) \<Rightarrow> nat \<Rightarrow> 'w hctl \<Rightarrow> 'w hctl option" where
  "set_elem f elem s = map_option (\<lambda>e. s\<lparr>hheap := (hheap s)(elem \<mapsto> f e)\<rparr>) (hheap s elem)"

definition snd_hctl_elem_set_callback :: "nat option \<Rightarrow> nat \<Rightarrow> 'w hctl \<Rightarrow> 'w hctl option" where
  "snd_hctl_elem_set_callback val elem s = set_elem (\<lambda>e. e\<lparr>he_callback := val\<rparr>) elem s"

definition snd_hctl_elem_set_callback_private :: "nat option \<Rightarrow> nat \<Rightarrow> 'w hctl \<Rightarrow> 'w hctl option" where
  "snd_hctl_elem_set_callback_private val elem s = set_elem (\<lambda>e. e\<lparr>he_private := val\<rparr>) elem s"

definition snd_hctl_elem_get_callback_private :: "'w hctl \<Rightarrow> nat \<Rightarrow> nat option option" where
  "snd_hctl_elem_get_callback_private s elem = elem_field he_private s elem"

definition snd_hctl_elem_tlv_read :: "'w ctl_kernel \<Rightarrow> int \<Rightarrow> snd_ctl_elem_info \<Rightarrow> nat \<Rightarrow> u8 list \<Rightarrow> u32 \<Rightarrow> 'w hctl \<Rightarrow>
    (int \<times> u8 list \<times> 'w hctl) option" where
  "snd_hctl_elem_tlv_read k protocol info0 elem tlv tlv_size s = do {
     i \<leftarrow> snd_hctl_elem_get_id s elem;
     (r, tlv, w) \<leftarrow> snd_ctl_elem_tlv_read k protocol info0 i tlv tlv_size (hworld s);
     Some (r, tlv, s\<lparr>hworld := w\<rparr>) }"

definition snd_hctl_elem_tlv_write :: "'w ctl_kernel \<Rightarrow> int \<Rightarrow> snd_ctl_elem_info \<Rightarrow> nat \<Rightarrow> u8 list \<Rightarrow> 'w hctl \<Rightarrow>
    (int \<times> u8 list \<times> 'w hctl) option" where
  "snd_hctl_elem_tlv_write k protocol info0 elem tlv s = do {
     i \<leftarrow> snd_hctl_elem_get_id s elem;
     (r, tlv, w) \<leftarrow> snd_ctl_elem_tlv_write k protocol info0 i tlv (hworld s);
     Some (r, tlv, s\<lparr>hworld := w\<rparr>) }"

definition snd_hctl_elem_tlv_command :: "'w ctl_kernel \<Rightarrow> int \<Rightarrow> snd_ctl_elem_info \<Rightarrow> nat \<Rightarrow> u8 list \<Rightarrow> 'w hctl \<Rightarrow>
    (int \<times> u8 list \<times> 'w hctl) option" where
  "snd_hctl_elem_tlv_command k protocol info0 elem tlv s = do {
     i \<leftarrow> snd_hctl_elem_get_id s elem;
     (r, tlv, w) \<leftarrow> snd_ctl_elem_tlv_command k protocol info0 i tlv (hworld s);
     Some (r, tlv, s\<lparr>hworld := w\<rparr>) }"

section \<open>Facts\<close>

lemma async_sys_simps [simp]:
  "async_world (snd (async_sys f a)) = snd (f (async_world a))" "fst (async_sys f a) = fst (f (async_world a))"
  "async_cells (snd (async_sys f a)) = async_cells a"
  by (simp_all add: async_sys_def set_world_def split: prod.splits)

lemma set_world_simps [simp]: "async_world (set_world s a) = s" "async_cells (set_world s a) = async_cells a"
  by (simp_all add: set_world_def)

text \<open>Closing a control device that has no notification handler: its descriptor is closed, and no other.\<close>

lemma close_plain:
  assumes "async_cells a cell = None"
  shows "\<exists>a'. snd_ctl_close os k cell ctl a = Some (0, a') \<and> sys_fds (async_world a') = sys_fds (async_world a) - {ctl_fd ctl} \<and>
     async_cells a' = async_cells a"
proof -
  obtain r s where c: "sys_close k (ctl_fd ctl) (async_world a) = (r, s)" by fastforce
  then have "sys_fds s = sys_fds (async_world a) - {ctl_fd ctl}" by (auto simp: sys_close_def sys_result_def split: prod.splits if_splits)
  then show ?thesis using assms c by (simp add: snd_ctl_close_def)
qed

lemma calloc_world: "sys_fds (snd (sys_calloc k s)) = sys_fds s"
  by (simp add: sys_calloc_def split: prod.splits)

text \<open>The close of the world is only reached when the list is freed, and nothing is left of it.\<close>

definition keeps_on_remove :: "'w hctl_env \<Rightarrow> ('w \<Rightarrow> bool) \<Rightarrow> bool" where
  "keeps_on_remove E Q \<longleftrightarrow> (\<forall>f a s. Q (hworld s) \<longrightarrow> Q (hworld (snd (cb_elem E f a MASK_REMOVE s))))"

lemma remove_world:
  assumes "keeps_on_remove E Q" "Q (hworld s)" "snd_hctl_elem_remove E s a = Some s'"
  shows "Q (hworld s')"
proof -
  obtain s1 r s2 where s: "del_elem_list a s = Some s1" "snd_hctl_elem_throw_event E s1 a MASK_REMOVE = Some (r, s2)"
    "s' = s2\<lparr>hheap := (hheap s2)(a := None)\<rparr>"
    using assms(3) by (auto simp: snd_hctl_elem_remove_def bind_eq_Some_conv)
  have q: "Q (hworld s1)" using assms(2) del_elem_list_world [OF s(1)] by simp
  obtain e where e: "hheap s1 a = Some e" "(r, s2) = (case he_callback e of Some f \<Rightarrow> cb_elem E f a MASK_REMOVE s1 | None \<Rightarrow> (0, s1))"
    using s(2) by (auto simp: snd_hctl_elem_throw_event_def bind_eq_Some_conv)
  have "Q (hworld s2)"
  proof (cases "he_callback e")
    case (Some f)
    then have "s2 = snd (cb_elem E f a MASK_REMOVE s1)" using e(2) by (metis option.simps(5) snd_conv)
    then show ?thesis using assms(1) q by (simp add: keeps_on_remove_def)
  qed (use e(2) q in simp)
  with s(3) show ?thesis by simp
qed

lemma free_world:
  assumes "polite E" "keeps_on_remove E Q"
  shows "hctl_ids s xs ids \<Longrightarrow> Q (hworld s) \<Longrightarrow> snd_hctl_free E s = Some (r, s') \<Longrightarrow> Q (hworld s')"
proof (induction xs arbitrary: s ids rule: rev_induct)
  case Nil
  then have "last_elem s = None" by (simp add: hctl_ids_def hctl_list_def)
  with Nil show ?case by (auto simp: snd_hctl_free.simps)
next
  case (snoc a as)
  have "length ids = Suc (length as)" using hctl_ids_length [OF snoc.prems(1)] by simp
  then obtain "is" i where ids: "ids = is @ [i]" by (cases ids rule: rev_cases) auto
  then have "length as = length is" using \<open>length ids = Suc (length as)\<close> by simp
  with elem_remove_ids [OF assms(1), of s as a "[]" "is" i "[]"] snoc.prems(1) ids obtain s1 where
    s1: "snd_hctl_elem_remove E s a = Some s1" "hctl_ids s1 as is" by auto
  have l: "last_elem s = Some a" using snoc.prems(1) by (auto simp: hctl_ids_def hctl_list_def)
  have "snd_hctl_free E s1 = Some (r, s')" using snoc.prems(3) l s1(1) by (subst (asm) snd_hctl_free.simps) simp
  from snoc.IH [OF s1(2) remove_world [OF assms(2) snoc.prems(2) s1(1)] this] show ?case .
qed

lemma hctl_open_clean_outcome:
  assumes "async_cells a cell = None" "snd_hctl_open os k uninit cell name mode a = Some (err, h, a')"
  shows "clean_open ctl_fd (async_world a) err h (async_world a') \<and> async_cells a' = async_cells a"
proof -
  obtain err1 h1 s1 where o: "snd_ctl_open k uninit name mode (async_world a) = Some (err1, h1, s1)"
    using assms(2) by (auto simp: snd_hctl_open_def bind_eq_Some_conv)
  note c = ctl_open_clean [OF o]
  show ?thesis
  proof (cases "err1 < 0")
    case True
    then show ?thesis using assms(2) o c by (auto simp: snd_hctl_open_def clean_open_def split: option.splits)
  next
    case False
    then obtain ctl where h1: "h1 = Some ctl" using c by (auto simp: clean_open_def split: option.splits)
    obtain ok a2 where al: "async_sys (sys_calloc k) (set_world s1 a) = (ok, a2)" by fastforce
    have a2: "sys_fds (async_world a2) = sys_fds s1" "async_cells a2 = async_cells a"
      using async_sys_simps(1,3) [of "sys_calloc k" "set_world s1 a"] al calloc_world [of k s1] by simp_all
    show ?thesis
    proof (cases ok)
      case True
      then show ?thesis using assms(2) o h1 False al a2 c
        by (auto simp: snd_hctl_open_def snd_hctl_open_ctl_def clean_open_def)
    next
      case fail: False
      from close_plain [of a2 cell os k ctl] assms(1) a2(2) obtain a3 where
        a3: "snd_ctl_close os k cell ctl a2 = Some (0, a3)" "sys_fds (async_world a3) = sys_fds (async_world a2) - {ctl_fd ctl}"
          "async_cells a3 = async_cells a2" by auto
      have "err = - ENOMEM \<and> h = None \<and> a' = a3"
        using assms(2) o h1 False al fail a3(1) by (simp add: snd_hctl_open_def snd_hctl_open_ctl_def)
      then show ?thesis using a3 a2 c h1 by (auto simp: clean_open_def)
    qed
  qed
qed

text \<open>Opening a control handle leaves nothing behind when it fails: whatever the device, the version check or the
  allocator does, an error returns no handle and no descriptor more than before, and success returns a handle whose
  descriptor is open.  The member that holds the notification handler of the new handle is empty.
\<close>

theorem hctl_open_clean:
  assumes "async_cells a cell = None" "snd_hctl_open os k uninit cell name mode a = Some (err, h, a')"
  shows "clean_open ctl_fd (async_world a) err h (async_world a') \<and> async_cells a' = async_cells a"
  using hctl_open_clean_outcome [OF assms] .

lemma hctl_close_frees:
  assumes "polite E" "hctl_ids s xs ids" "keeps_on_remove E Q" "Q (hworld s)" "\<And>w. Q w \<Longrightarrow> \<exists>w'. close_ctl w = Some (0, w') \<and> R w'"
  shows "\<exists>s'. snd_hctl_close E close_ctl s = Some (0, s') \<and> hctl_ids s' [] [] \<and> R (hworld s') \<and>
     (\<forall>b. hheap s' b = None \<longleftrightarrow> b \<in> set xs \<or> hheap s b = None)"
proof -
  from hctl_free_ids [OF assms(1,2)] obtain s1 where
    s1: "snd_hctl_free E s = Some (0, s1)" "hctl_ids s1 [] []" "\<forall>b. hheap s1 b = None \<longleftrightarrow> b \<in> set xs \<or> hheap s b = None" by blast
  from assms(5) [OF free_world [OF assms(1,3,2,4) s1(1)]] obtain w where w: "close_ctl (hworld s1) = Some (0, w)" "R w" by blast
  have "hctl_ids (s1\<lparr>hworld := w\<rparr>) [] []" using s1(2) by (simp add: hctl_ids_def hctl_list_def)
  with s1 w show ?thesis by (simp add: snd_hctl_close_def)
qed

text \<open>Closing a control handle frees every element of its list and nothing else, ends with an empty list, and closes the
  descriptor of the control device, when the callbacks keep the list and do not register a notification handler.
\<close>

theorem hctl_close_releases:
  assumes "polite E" "hctl_ids s xs ids" "keeps_on_remove E (\<lambda>a. async_cells a cell = None)" "async_cells (hworld s) cell = None"
  shows "\<exists>s'. snd_hctl_close E (snd_ctl_close os k cell ctl) s = Some (0, s') \<and> hctl_ids s' [] [] \<and>
     ctl_fd ctl \<notin> sys_fds (async_world (hworld s')) \<and> (\<forall>b. hheap s' b = None \<longleftrightarrow> b \<in> set xs \<or> hheap s b = None)"
proof (rule hctl_close_frees [OF assms])
  fix a :: "'a sys async"
  assume "async_cells a cell = None"
  from close_plain [OF this, of os k ctl] show "\<exists>a'. snd_ctl_close os k cell ctl a = Some (0, a') \<and> ctl_fd ctl \<notin> sys_fds (async_world a')"
    by auto
qed

section \<open>Witnesses\<close>

definition idle_async :: "int sys async" where
  "idle_async = \<lparr>async_list = None, async_heap = Map.empty, async_cells = (\<lambda>_. None), async_world = no_files\<rparr>"

definition still_env :: "'w hctl_env" where
  "still_env = \<lparr>cb_hctl = \<lambda>m a s. (0, s), cb_elem = \<lambda>f a m s. (0, s), h_calloc = \<lambda>s. (None, hworld s),
     c_elem_list = \<lambda>l w. (0, 0, l, w), c_calloc_ids = \<lambda>k w. (True, w), c_subscribe = \<lambda>b w. (0, 0, w),
     c_read = \<lambda>w. (- 1, EAGAIN, \<lparr>ev_type = 0, ev_mask = 0, ev_id = zero_id\<rparr>, w)\<rparr>"

lemma still_env_ok: "polite still_env" "keeps_on_remove still_env Q"
  by (simp_all add: polite_def keeps_on_remove_def same_links_def still_env_def)

theorem hctl_close_releases_witness:
  "\<exists>s'. snd_hctl_close still_env (snd_ctl_close quiet_os plain_sys 8 (new_ctl 0 3 1)) (empty_hctl (idle_async\<lparr>async_world := no_files\<lparr>sys_fds := {3, 4}\<rparr>\<rparr>)) = Some (0, s') \<and>
     hctl_ids s' [] [] \<and> 3 \<notin> sys_fds (async_world (hworld s'))"
  using hctl_close_releases [OF still_env_ok(1) empty_hctl_ids still_env_ok(2), of "idle_async\<lparr>async_world := no_files\<lparr>sys_fds := {3, 4}\<rparr>\<rparr>" 8
      quiet_os plain_sys "new_ctl 0 3 1"]
  by (auto simp: idle_async_def empty_hctl_def new_ctl_def)

lemma hctl_opens:
  "\<exists>h a'. snd_hctl_open quiet_os plain_sys blank_card_info 8 ''hw'' 0 idle_async = Some (0, Some h, a')"
proof -
  obtain s where "snd_ctl_open plain_sys blank_card_info ''hw'' 0 no_files = Some (0, Some (new_ctl 0 5 0x20010), s)"
    using plain_ctl_opens by blast
  then show ?thesis
    by (simp add: snd_hctl_open_def snd_hctl_open_ctl_def idle_async_def async_sys_def sys_calloc_def plain_ops2 split: prod.splits)
qed

theorem hctl_open_clean_witness:
  "\<exists>h a'. snd_hctl_open quiet_os plain_sys blank_card_info 8 ''hw'' 0 idle_async = Some (0, Some h, a') \<and>
     clean_open ctl_fd (async_world idle_async) 0 (Some h) (async_world a')"
proof -
  from hctl_opens show ?thesis using hctl_open_clean [of idle_async 8] by (auto simp: idle_async_def)
qed

end
