(* ===== verification/Mixer_Open.thy ===== *)
theory Mixer_Open
  imports Mixer_Props Hctl_Open
begin

text \<open>
  The mixer from opening to closing: attaching a control handle, loading it, handling its events and closing it, in
  \<^verbatim>\<open>src/src/mixer.c\<close>, and the accessors of the mixer in \<^verbatim>\<open>src/src/mixer_macros.h\<close>.

  A mixer is the state of \<open>Mixer\<close>, whose innermost world is the control device and the rest of the system, and the
  control handle that is attached: the address of the handle and its control device, or the null pointer.  While none
  is attached the list part of the state means nothing.  The private pointers of the callbacks are the mixer itself.
\<close>

section \<open>State\<close>

record 'w snd_mixer =
  sm_hctl :: "(nat \<times> snd_ctl) option"
  sm_state :: "'w sys async mstate"

text \<open>The system the mixer runs on; \<open>so_cell\<close> is the address of the member \<^verbatim>\<open>async\<close> of a control device to be opened, \<open>so_addr\<close> that of its handle,
  and \<open>so_handler\<close> that of \<^verbatim>\<open>hctl_elem_event_handler\<close>.\<close>

record 'w mixer_os =
  so_async :: "'w sys async_os"
  so_kernel :: "'w sys_kernel"
  so_uninit :: snd_ctl_card_info
  so_cell :: nat
  so_addr :: nat
  so_handler :: nat
  so_mixer :: "'w sys async mixer_env"
  so_env :: "'w sys async mixer hctl_env"

definition rest_of :: "'w snd_mixer \<Rightarrow> 'w sys async" where
  "rest_of mx = m_rest (hworld (sm_state mx))"

definition put_rest :: "'w sys async \<Rightarrow> 'w snd_mixer \<Rightarrow> 'w snd_mixer" where
  "put_rest a mx = mx\<lparr>sm_state := set_rest a (sm_state mx)\<rparr>"

abbreviation callbacks :: "'w mixer_os \<Rightarrow> 'w sys async mixer hctl_env" where
  "callbacks so \<equiv> attach_mixer (so_mixer so) (so_handler so) (so_env so)"

text \<open>The elements of a control handle, over another world.\<close>

definition with_list :: "'u hctl \<Rightarrow> 'v \<Rightarrow> 'v hctl" where
  "with_list hs w = \<lparr>hheap = hheap hs, first_elem = first_elem hs, last_elem = last_elem hs, hctl_count = hctl_count hs,
     hctl_callback = hctl_callback hs, hworld = w\<rparr>"

section \<open>Opening, attaching and closing\<close>

definition snd_mixer_open :: "'w mixer_os \<Rightarrow> 'w sys async \<Rightarrow> int \<times> 'w snd_mixer option \<times> 'w sys async" where
  "snd_mixer_open so a =
     (case async_sys (sys_calloc (so_kernel so)) a of (ok, a) \<Rightarrow>
        if ok then (0, Some \<lparr>sm_hctl = None, sm_state = empty_hctl (empty_mixer a)\<rparr>, a) else (- ENOMEM, None, a))"

text \<open>The handle to be attached is at \<open>addr\<close>, with the elements of \<open>hs\<close> and the callbacks of \<open>E\<close>, which matter when it is closed instead.\<close>

definition attach_failed :: "'w mixer_os \<Rightarrow> 'w sys async hctl_env \<Rightarrow> snd_ctl \<Rightarrow> 'u hctl \<Rightarrow> int \<Rightarrow> 'w sys async \<Rightarrow> 'w snd_mixer \<Rightarrow>
    (int \<times> 'w snd_mixer) option" where
  "attach_failed so E ctl hs err a mx = do {
     (_, s) \<leftarrow> snd_hctl_close E (snd_ctl_close (so_async so) (so_kernel so) (so_cell so) ctl) (with_list hs a);
     Some (err, put_rest (hworld s) mx) }"

definition snd_mixer_attach_hctl :: "'w mixer_os \<Rightarrow> 'w sys async hctl_env \<Rightarrow> nat \<Rightarrow> snd_ctl \<Rightarrow> 'u hctl \<Rightarrow> 'w snd_mixer \<Rightarrow>
    (int \<times> 'w snd_mixer) option" where
  "snd_mixer_attach_hctl so E ptr ctl hs mx =
     (if sm_hctl mx \<noteq> None then attach_failed so E ctl hs (- EBUSY) (rest_of mx) mx
      else case snd_hctl_nonblock (so_kernel so) ctl 1 (rest_of mx) of (err, a) \<Rightarrow>
        if err < 0 then attach_failed so E ctl hs err a mx
        else Some (0, mx\<lparr>sm_hctl := Some (ptr, ctl),
          sm_state := snd_hctl_set_callback True (with_list hs ((hworld (sm_state mx))\<lparr>m_rest := a\<rparr>))\<rparr>))"

text \<open>The new handle has no elements and no callbacks.\<close>

definition snd_mixer_attach :: "'w mixer_os \<Rightarrow> string \<Rightarrow> 'w snd_mixer \<Rightarrow> (int \<times> 'w snd_mixer) option" where
  "snd_mixer_attach so name mx = do {
     (err, ctl, a) \<leftarrow> snd_hctl_open (so_async so) (so_kernel so) (so_uninit so) (so_cell so) name 0 (rest_of mx);
     (let mx = put_rest a mx
      in if err < 0 then Some (err, mx)
         else do { ctl \<leftarrow> ctl; snd_mixer_attach_hctl so still_env (so_addr so) ctl (empty_hctl ()) mx }) }"

text \<open>Closing the control device that is attached.\<close>

definition close_attached :: "'w mixer_os \<Rightarrow> snd_ctl \<Rightarrow> 'w sys async mixer \<Rightarrow> (int \<times> 'w sys async mixer) option" where
  "close_attached so ctl m = do {
     (r, a) \<leftarrow> snd_ctl_close (so_async so) (so_kernel so) (so_cell so) ctl (m_rest m);
     Some (r, m\<lparr>m_rest := a\<rparr>) }"

text \<open>A mixer with nothing attached passes the null pointer on to \<^verbatim>\<open>snd_hctl_close\<close>, which dereferences it.\<close>

definition snd_mixer_detach_hctl :: "'w mixer_os \<Rightarrow> nat option \<Rightarrow> 'w snd_mixer \<Rightarrow> (int \<times> 'w snd_mixer) option" where
  "snd_mixer_detach_hctl so hctl mx =
     (if map_option fst (sm_hctl mx) \<noteq> hctl then Some (- ENOENT, mx)
      else do {
        (_, ctl) \<leftarrow> sm_hctl mx;
        (_, s) \<leftarrow> snd_hctl_close (callbacks so) (close_attached so ctl) (sm_state mx);
        Some (0, mx\<lparr>sm_hctl := None, sm_state := s\<rparr>) })"

definition snd_mixer_detach :: "'w mixer_os \<Rightarrow> 'w snd_mixer \<Rightarrow> (int \<times> 'w snd_mixer) option" where
  "snd_mixer_detach so mx = snd_mixer_detach_hctl so (map_option fst (sm_hctl mx)) mx"

definition snd_mixer_load :: "'w mixer_os \<Rightarrow> 'w snd_mixer \<Rightarrow> (int \<times> 'w snd_mixer) option" where
  "snd_mixer_load so mx =
     (if sm_hctl mx \<noteq> None then do { (err, s) \<leftarrow> snd_hctl_load (callbacks so) (sm_state mx); Some (err, mx\<lparr>sm_state := s\<rparr>) }
      else Some (0, mx))"

definition snd_mixer_free :: "'w mixer_os \<Rightarrow> 'w snd_mixer \<Rightarrow> 'w snd_mixer option" where
  "snd_mixer_free so mx =
     (if sm_hctl mx \<noteq> None then do { (_, s) \<leftarrow> snd_hctl_free (callbacks so) (sm_state mx); Some (mx\<lparr>sm_state := s\<rparr>) }
      else Some mx)"

text \<open>The array and the mixer are freed; what is left is the system.\<close>

definition snd_mixer_close :: "'w mixer_os \<Rightarrow> 'w snd_mixer \<Rightarrow> (int \<times> 'w sys async) option" where
  "snd_mixer_close so mx =
     (case sm_hctl mx of
        Some (_, ctl) \<Rightarrow> do {
          (_, s) \<leftarrow> snd_hctl_close (callbacks so) (close_attached so ctl) (sm_state mx);
          Some (0, m_rest (hworld s)) }
      | None \<Rightarrow> Some (0, rest_of mx))"

definition snd_mixer_handle_events :: "'w mixer_os \<Rightarrow> 'w snd_mixer \<Rightarrow> (int \<times> 'w snd_mixer) option" where
  "snd_mixer_handle_events so mx =
     (if sm_hctl mx = None then Some (0, mx)
      else do {
        (err, s) \<leftarrow> snd_hctl_handle_events (callbacks so) (mix (\<lambda>m. m\<lparr>m_events := 0\<rparr>) (sm_state mx));
        Some (if err < 0 then err else sint (m_events (hworld s)), mx\<lparr>sm_state := s\<rparr>) })"

text \<open>The options are \<^verbatim>\<open>abstract\<close> and \<^verbatim>\<open>device\<close>; a class cannot be returned.\<close>

definition snd_mixer_selem_register :: "'w mixer_os \<Rightarrow> (int \<times> string option) option \<Rightarrow> bool \<Rightarrow> 'w snd_mixer \<Rightarrow> (int \<times> 'w snd_mixer) option" where
  "snd_mixer_selem_register so options classp mx =
     (if classp \<or> (case options of Some (abstraction, _) \<Rightarrow> abstraction \<noteq> 0 | None \<Rightarrow> False) then Some (- EINVAL, mx)
      else case options of
        Some (_, Some dev) \<Rightarrow> do { (err, mx) \<leftarrow> snd_mixer_attach so dev mx; Some (if err < 0 then err else 0, mx) }
      | _ \<Rightarrow> Some (0, mx))"

section \<open>Accessors\<close>

definition snd_mixer_poll_descriptors_count :: int where
  "snd_mixer_poll_descriptors_count = 1"

definition snd_mixer_poll_descriptors :: "'w snd_mixer \<Rightarrow> pollfd list \<Rightarrow> u32 \<Rightarrow> (int \<times> pollfd list) option" where
  "snd_mixer_poll_descriptors mx pfds space = do { (_, ctl) \<leftarrow> sm_hctl mx; snd_hctl_poll_descriptors ctl pfds space }"

definition snd_mixer_poll_descriptors_revents :: "'w snd_mixer \<Rightarrow> pollfd list \<Rightarrow> u32 \<Rightarrow> (int \<times> u16) option" where
  "snd_mixer_poll_descriptors_revents mx pfds nfds = do { (_, ctl) \<leftarrow> sm_hctl mx; snd_hctl_poll_descriptors_revents ctl pfds nfds }"

text \<open>\<open>poll\<close> is asked for the descriptor and gives its result, \<^verbatim>\<open>errno\<close> and the world; \<open>pfd\<close> is what the uninitialised local holds.\<close>

definition snd_mixer_wait :: "(pollfd \<Rightarrow> int \<Rightarrow> 'w sys async \<Rightarrow> int \<times> int \<times> 'w sys async) \<Rightarrow> pollfd \<Rightarrow> int \<Rightarrow> 'w snd_mixer \<Rightarrow> (int \<times> 'w snd_mixer) option" where
  "snd_mixer_wait poll pfd timeout mx = do {
     (_, pfds) \<leftarrow> snd_mixer_poll_descriptors mx [pfd] 1;
     p \<leftarrow> array_get pfds 0;
     (case poll p timeout (rest_of mx) of (r, errno, a) \<Rightarrow> Some (if r < 0 then - errno else 0, put_rest a mx)) }"

definition snd_mixer_set_callback :: "bool \<Rightarrow> 'w mixer \<Rightarrow> 'w mixer" where
  "snd_mixer_set_callback val m = m\<lparr>m_callback := val\<rparr>"

definition snd_mixer_elem_set_callback :: "nat option \<Rightarrow> nat \<Rightarrow> 'w mixer \<Rightarrow> 'w mixer option" where
  "snd_mixer_elem_set_callback val elem m = map_option (\<lambda>e. m\<lparr>m_elems := (m_elems m)(elem \<mapsto> e\<lparr>e_callback := val\<rparr>)\<rparr>) (m_elems m elem)"

definition snd_mixer_elem_get_type :: int where
  "snd_mixer_elem_get_type = 0"

definition snd_mixer_set_compare :: "bool \<Rightarrow> 'w mixer \<Rightarrow> int \<times> 'w mixer" where
  "snd_mixer_set_compare cmp m = (0, m\<lparr>m_compare := cmp\<rparr>)"

definition snd_mixer_elem_info :: "'w mixer_env \<Rightarrow> nat \<Rightarrow> 'w mstate \<Rightarrow> (int \<times> 'w mstate) option" where
  "snd_mixer_elem_info M elem s = snd_mixer_elem_throw_event M elem MASK_INFO s"

definition snd_mixer_elem_value :: "'w mixer_env \<Rightarrow> nat \<Rightarrow> 'w mstate \<Rightarrow> (int \<times> 'w mstate) option" where
  "snd_mixer_elem_value M elem s = snd_mixer_elem_throw_event M elem MASK_VALUE s"

definition snd_mixer_get_hctl :: "'w snd_mixer \<Rightarrow> int \<times> nat option" where
  "snd_mixer_get_hctl mx = (case sm_hctl mx of Some (ptr, _) \<Rightarrow> (0, Some ptr) | None \<Rightarrow> (- ENOENT, None))"

definition snd_mixer_selem_channels :: "string option list" where
  "snd_mixer_selem_channels = map Some [''Front Left'', ''Front Right'', ''Rear Left'', ''Rear Right'', ''Front Center'', ''Woofer'',
     ''Side Left'', ''Side Right'', ''Rear Center''] @ replicate 23 None"

definition snd_mixer_selem_channel_name :: "int \<Rightarrow> string option" where
  "snd_mixer_selem_channel_name channel =
     (if channel < 0 then None
      else map_option (\<lambda>p. case p of Some s \<Rightarrow> s | None \<Rightarrow> ''?'') (array_get snd_mixer_selem_channels (nat channel)))"

text \<open>The identifier of a simple element: a name of at most 59 characters, and an index.\<close>

definition snd_mixer_selem_id_get_name :: "string \<times> u32 \<Rightarrow> string" where
  "snd_mixer_selem_id_get_name obj = fst obj"

definition snd_mixer_selem_id_get_index :: "string \<times> u32 \<Rightarrow> u32" where
  "snd_mixer_selem_id_get_index obj = snd obj"

definition snd_mixer_selem_id_set_name :: "string \<Rightarrow> string \<times> u32 \<Rightarrow> string \<times> u32" where
  "snd_mixer_selem_id_set_name val obj = (take 59 val, snd obj)"

definition snd_mixer_selem_id_set_index :: "u32 \<Rightarrow> string \<times> u32 \<Rightarrow> string \<times> u32" where
  "snd_mixer_selem_id_set_index val obj = (fst obj, val)"

section \<open>Facts\<close>

text \<open>The callbacks of the mixer's user keep a property of the rest of the world; then so does the removal of an element.\<close>

definition keeps_rest :: "'w mixer_env \<Rightarrow> ('w \<Rightarrow> bool) \<Rightarrow> bool" where
  "keeps_rest M Q \<longleftrightarrow> (\<forall>m a s. Q (m_rest (hworld s)) \<longrightarrow> Q (m_rest (hworld (snd (mx_cb M m a s))))) \<and>
     (\<forall>f a m s. Q (m_rest (hworld s)) \<longrightarrow> Q (m_rest (hworld (snd (mx_elem_cb M f a m s)))))"

lemma rest_simps [simp]:
  "m_rest (hworld (mix f s)) = m_rest (f (hworld s))" "m_rest (hworld (put_elem a e s)) = m_rest (hworld s)"
  "m_rest (hworld (free_item i s)) = m_rest (hworld s)" "m_rest (hworld (set_rest w s)) = w"
  by (simp_all add: mix_def put_elem_def free_item_def set_rest_def)

lemma remove_mixer_elem_rest: "remove_mixer_elem a m = Some m' \<Longrightarrow> m_rest m' = m_rest m"
  by (auto simp: remove_mixer_elem_def Let_def bind_eq_Some_conv split: option.splits)

lemma remove_simple_rest:
  assumes "remove_simple_element hp b s = Some (r, s')"
  shows "m_rest (hworld s') = m_rest (hworld s)"
proof -
  obtain h elem e found where f: "hheap s hp = Some h" "he_private h = Some elem" "get_elem s elem = Some e"
    "slot_of (m_items (hworld s)) hp (e_items e) 0 = Some found"
    using assms by (auto simp: remove_simple_element_def bind_eq_Some_conv)
  show ?thesis
  proof (cases found)
    case None
    then show ?thesis using assms f by (simp add: remove_simple_element_def)
  next
    case (Some p)
    obtain i item where p: "p = (i, item)" by fastforce
    define items where "items = (let items = (e_items e)[i := None] in
      if i = ITEM_PVOLUME \<and> e_caps e AND CAP_GVOLUME \<noteq> 0 then items[ITEM_CVOLUME := None]
      else if i = ITEM_PSWITCH \<and> e_caps e AND CAP_GSWITCH \<noteq> 0 then items[ITEM_CSWITCH := None] else items)"
    let ?s = "free_item item (put_elem elem (e\<lparr>e_items := items\<rparr>) s)"
    have "remove_simple_element hp b s = (if \<not> b then Some (0, ?s) else if list_ex (\<lambda>x. x \<noteq> None) items then Some (0, ?s)
        else do { m \<leftarrow> remove_mixer_elem elem (hworld ?s); Some (0, ?s\<lparr>hworld := m\<rparr>) })"
      unfolding remove_simple_element_def items_def Let_def by (simp only: f Some p bind.bind_lunit option.case prod.case)
    then have "(if \<not> b then Some (0, ?s) else if list_ex (\<lambda>x. x \<noteq> None) items then Some (0, ?s)
        else do { m \<leftarrow> remove_mixer_elem elem (hworld ?s); Some (0, ?s\<lparr>hworld := m\<rparr>) }) = Some (r, s')" using assms by simp
    then show ?thesis using remove_mixer_elem_rest [of elem "hworld ?s"] by (auto simp: bind_eq_Some_conv split: if_splits)
  qed
qed

lemma elem_throw_rest:
  assumes "keeps_rest M Q" "Q (m_rest (hworld s))" "snd_mixer_elem_throw_event M elem ev s = Some (r, s')"
  shows "Q (m_rest (hworld s'))"
proof -
  let ?s = "mix (\<lambda>m. m\<lparr>m_events := m_events m + 1\<rparr>) s"
  obtain e where g: "get_elem s elem = Some e" using assms(3) by (auto simp: snd_mixer_elem_throw_event_def bind_eq_Some_conv)
  have e: "(r, s') = (case e_callback e of Some f \<Rightarrow> mx_elem_cb M f elem ev ?s | None \<Rightarrow> (0, ?s))"
    using assms(3) g by (simp add: snd_mixer_elem_throw_event_def Let_def)
  have q: "Q (m_rest (hworld ?s))" using assms(2) by simp
  show ?thesis
  proof (cases "e_callback e")
    case None
    then have "s' = ?s" using e by simp
    then show ?thesis using q by simp
  next
    case (Some f)
    with e have "(r, s') = mx_elem_cb M f elem ev ?s" by (simp only: option.case)
    from arg_cong [OF this, of snd] have "s' = snd (mx_elem_cb M f elem ev ?s)" by (simp only: snd_conv)
    moreover have "Q (m_rest (hworld (snd (mx_elem_cb M f elem ev ?s))))" using assms(1) q unfolding keeps_rest_def by blast
    ultimately show ?thesis by simp
  qed
qed

lemma removal_keeps:
  assumes "keeps_rest M Q" "keeps_on_remove E (\<lambda>m. Q (m_rest m))"
  shows "keeps_on_remove (attach_mixer M f E) (\<lambda>m. Q (m_rest m))"
proof -
  have "Q (m_rest (hworld s'))" if q: "Q (m_rest (hworld s))" and h: "hctl_elem_event_handler M a MASK_REMOVE s = Some (r, s')" for s a r s'
  proof -
    obtain h where h1: "hheap s a = Some h" using h by (auto simp: hctl_elem_event_handler_def bind_eq_Some_conv)
    show ?thesis
    proof (cases "he_private h")
      case (Some elem)
      then have "remove_event M a elem s = Some (r, s')" using h h1 by (simp add: hctl_elem_event_handler_def)
      then obtain r1 s1 where s1: "snd_mixer_elem_throw_event M elem MASK_REMOVE s = Some (r1, s1)"
        "s' = s1 \<or> (\<exists>r2. remove_simple_element a True s1 = Some (r2, s'))"
        by (auto simp: remove_event_def bind_eq_Some_conv split: if_splits)
      from elem_throw_rest [OF assms(1) q s1(1)] s1(2) remove_simple_rest show ?thesis by metis
    qed (use h h1 q in \<open>simp add: hctl_elem_event_handler_def\<close>)
  qed
  then show ?thesis using assms(2)
    by (auto simp: keeps_on_remove_def attach_mixer_def split: option.splits prod.splits)
qed

text \<open>A handle that has just been attached has no elements.\<close>

lemma with_list_ids: "hctl_ids (with_list hs w) xs ids \<longleftrightarrow> hctl_ids hs xs ids"
  by (simp add: hctl_ids_def hctl_list_def with_list_def)

lemma close_empty:
  assumes "hctl_ids hs [] []" "async_cells a (so_cell so) = None"
  shows "\<exists>mx'. attach_failed so E ctl hs err a mx = Some (err, mx') \<and> sm_hctl mx' = sm_hctl mx \<and>
     sys_fds (async_world (rest_of mx')) = sys_fds (async_world a) - {ctl_fd ctl} \<and> async_cells (rest_of mx') = async_cells a"
proof -
  have "last_elem hs = None" using assms(1) by (simp add: hctl_ids_def hctl_list_def)
  then have f: "snd_hctl_free E (with_list hs a) = Some (0, with_list hs a)" by (simp add: snd_hctl_free.simps with_list_def)
  from close_plain [OF assms(2), of "so_async so" "so_kernel so" ctl] obtain a' where
    "snd_ctl_close (so_async so) (so_kernel so) (so_cell so) ctl a = Some (0, a')"
    "sys_fds (async_world a') = sys_fds (async_world a) - {ctl_fd ctl}" "async_cells a' = async_cells a" by blast
  then show ?thesis using f by (simp add: attach_failed_def snd_hctl_close_def put_rest_def rest_of_def with_list_def)
qed

lemma nonblock_fds:
  assumes "snd_hctl_nonblock k ctl b a = (err, a')"
  shows "sys_fds (async_world a') = sys_fds (async_world a)" "async_cells a' = async_cells a"
proof -
  have "sys_fds (snd (snd_ctl_set_nonblock k ctl b s)) = sys_fds s" for s
    by (auto simp: snd_ctl_set_nonblock_def snd_set_nonblock_def sys_getfl_def sys_setfl_def sys_result_def Let_def split: prod.splits)
  moreover have "a' = snd (async_sys (snd_ctl_set_nonblock k ctl b) a)" using assms by (simp add: snd_hctl_nonblock_def)
  ultimately show "sys_fds (async_world a') = sys_fds (async_world a)" "async_cells a' = async_cells a" by simp_all
qed

text \<open>C27. Attaching a device to a mixer either attaches it or leaves the mixer as it was: on every error, of the device, of
  the allocator, of the mode of the descriptor, or because a handle is attached already, the handle that was opened is
  closed again and no descriptor is left; on success the mixer had no handle before, and the new one has no elements
  and an open descriptor.
\<close>

theorem mixer_attach_clean:
  assumes "async_cells (rest_of mx) (so_cell so) = None" "snd_mixer_attach so name mx = Some (err, mx')"
  shows "err < 0 \<and> sm_hctl mx' = sm_hctl mx \<and> sys_fds (async_world (rest_of mx')) \<subseteq> sys_fds (async_world (rest_of mx)) \<or>
     err = 0 \<and> sm_hctl mx = None \<and> (\<exists>ctl. sm_hctl mx' = Some (so_addr so, ctl) \<and> ctl_fd ctl \<in> sys_fds (async_world (rest_of mx'))) \<and>
       hctl_ids (sm_state mx') [] []"
proof -
  obtain err1 h a where o: "snd_hctl_open (so_async so) (so_kernel so) (so_uninit so) (so_cell so) name 0 (rest_of mx) = Some (err1, h, a)"
    using assms(2) by (auto simp: snd_mixer_attach_def bind_eq_Some_conv)
  note c = hctl_open_clean_outcome [OF assms(1) o]
  have r: "rest_of (put_rest a mx) = a" "sm_hctl (put_rest a mx) = sm_hctl mx" by (simp_all add: rest_of_def put_rest_def)
  show ?thesis
  proof (cases "err1 < 0")
    case True
    then have "err = err1" "mx' = put_rest a mx" using assms(2) o by (simp_all add: snd_mixer_attach_def)
    then show ?thesis using True c r by (auto simp: clean_open_def split: option.splits)
  next
    case False
    then obtain ctl where h: "h = Some ctl" "ctl_fd ctl \<in> sys_fds (async_world a)"
      "sys_fds (async_world a) \<subseteq> insert (ctl_fd ctl) (sys_fds (async_world (rest_of mx)))" "async_cells a = async_cells (rest_of mx)"
      using c by (auto simp: clean_open_def split: option.splits)
    have at: "snd_mixer_attach_hctl so still_env (so_addr so) ctl (empty_hctl ()) (put_rest a mx) = Some (err, mx')"
      using assms(2) o False h(1) by (simp add: snd_mixer_attach_def)
    have failed: ?thesis if "attach_failed so still_env ctl (empty_hctl ()) e b (put_rest a mx) = Some (err, mx')" "e < 0"
      "sys_fds (async_world b) = sys_fds (async_world a)" "async_cells b = async_cells a" for e b
    proof -
      have "async_cells b (so_cell so) = None" using that(4) h(4) assms(1) by simp
      from close_empty [OF empty_hctl_ids [of "()"] this, of still_env ctl e "put_rest a mx"] that(1)
      have "err = e" "sm_hctl mx' = sm_hctl mx" "sys_fds (async_world (rest_of mx')) = sys_fds (async_world b) - {ctl_fd ctl}"
        using r by auto
      then show ?thesis using that(2,3) h(3) by auto
    qed
    obtain err2 b where n: "snd_hctl_nonblock (so_kernel so) ctl 1 a = (err2, b)" by fastforce
    show ?thesis
    proof (cases "sm_hctl mx = None \<and> \<not> err2 < 0")
      case True
      then have "err = 0" "mx' = (put_rest a mx)\<lparr>sm_hctl := Some (so_addr so, ctl),
          sm_state := snd_hctl_set_callback True (with_list (empty_hctl ()) ((hworld (sm_state (put_rest a mx)))\<lparr>m_rest := b\<rparr>))\<rparr>"
        using at n r by (simp_all add: snd_mixer_attach_hctl_def)
      then show ?thesis using True h(2) nonblock_fds [OF n] empty_hctl_ids [of "()"]
        by (simp add: rest_of_def with_list_def snd_hctl_set_callback_def hctl_ids_def hctl_list_def)
    next
      case fail: False
      show ?thesis
      proof (cases "sm_hctl mx = None")
        case True
        then show ?thesis using at n r fail failed [of err2 b] nonblock_fds [OF n] by (simp add: snd_mixer_attach_hctl_def)
      next
        case False
        then have "attach_failed so still_env ctl (empty_hctl ()) (- EBUSY) a (put_rest a mx) = Some (err, mx')"
          using at r by (simp add: snd_mixer_attach_hctl_def)
        from failed [OF this] show ?thesis by simp
      qed
    qed
  qed
qed

text \<open>Closing a mixer with a handle attached returns, and the descriptor of its control device is closed: the callbacks of
  the mixer take its elements out while the list is being freed.  It needs callbacks of the mixer's user that leave the
  list of the handle alone and register no notification on the device.
\<close>

theorem mixer_close_releases:
  assumes "polite_mixer (so_mixer so)" "polite (so_env so)" "hctl_ids (sm_state mx) xs ids" "sm_hctl mx = Some (p, ctl)"
    and "keeps_rest (so_mixer so) (\<lambda>a. async_cells a (so_cell so) = None)"
    and "keeps_on_remove (so_env so) (\<lambda>m. async_cells (m_rest m) (so_cell so) = None)" "async_cells (rest_of mx) (so_cell so) = None"
  shows "\<exists>a. snd_mixer_close so mx = Some (0, a) \<and> ctl_fd ctl \<notin> sys_fds (async_world a)"
proof -
  let ?Q = "\<lambda>m. async_cells (m_rest m) (so_cell so) = None" and ?R = "\<lambda>m. ctl_fd ctl \<notin> sys_fds (async_world (m_rest m))"
  have "\<exists>m'. close_attached so ctl m = Some (0, m') \<and> ?R m'" if "?Q m" for m
    using close_plain [OF that, of "so_async so" "so_kernel so" ctl] by (auto simp: close_attached_def)
  moreover have "?Q (hworld (sm_state mx))" using assms(7) by (simp add: rest_of_def)
  ultimately obtain s where "snd_hctl_close (callbacks so) (close_attached so ctl) (sm_state mx) = Some (0, s)" "?R (hworld s)"
    using hctl_close_frees [OF attach_polite [OF assms(1,2), of "so_handler so"] assms(3) removal_keeps [OF assms(5,6), of "so_handler so"],
        of "close_attached so ctl" ?R] by metis
  then show ?thesis using assms(4) by (simp add: snd_mixer_close_def)
qed

text \<open>Detaching from a mixer with nothing attached dereferences the null pointer, and so does polling its descriptors.\<close>

lemma detach_nothing:
  assumes "sm_hctl mx = None"
  shows "snd_mixer_detach so mx = None" "snd_mixer_poll_descriptors mx pfds n = None"
  using assms by (simp_all add: snd_mixer_detach_def snd_mixer_detach_hctl_def snd_mixer_poll_descriptors_def)

section \<open>Witnesses\<close>

text \<open>A system with two cards and a mixer whose control device has no elements, with callbacks that do nothing.\<close>

definition still_mixer :: "'w mixer_env" where
  "still_mixer = \<lparr>mx_ctl = \<lparr>k_card_info = \<lambda>c w. (0, 0, c, w), k_elem_info = \<lambda>i w. (0, 0, i, w), k_elem_add = \<lambda>i names w. (0, 0, i, w),
        k_elem_remove = \<lambda>i w. (- 1, EPERM, i, w), k_elem_read = \<lambda>v w. (0, 0, v, w), k_elem_write = \<lambda>v w. (0, 0, v, w),
        k_elem_lock = \<lambda>i w. (0, 0, i, w), k_elem_unlock = \<lambda>i w. (0, 0, i, w), k_hwdep_next = \<lambda>d w. (0, 0, - 1, w),
        k_pcm_next = \<lambda>d w. (0, 0, - 1, w), k_pcm_prefer = \<lambda>d w. (0, 0, d, w), k_rawmidi_next = \<lambda>d w. (0, 0, - 1, w),
        k_rawmidi_prefer = \<lambda>d w. (0, 0, d, w), k_tlv = \<lambda>cmd n bs w. (0, 0, bs, w), k_malloc = \<lambda>n w. (True, w), k_poll = \<lambda>t w. (1, 0, 1, w)\<rparr>,
      mx_protocol = 0x20007, mx_buffer = [], mx_info0 = blank_info, mx_calloc = \<lambda>m. (None, m_rest m), mx_malloc = \<lambda>m. (None, m_rest m),
      mx_realloc = \<lambda>k w. (True, w), mx_qsort = \<lambda>ps m. ps, mx_cb = \<lambda>ev a s. (0, s), mx_elem_cb = \<lambda>f a ev s. (0, s)\<rparr>"

definition still_os :: "int mixer_os" where
  "still_os = \<lparr>so_async = quiet_os, so_kernel = plain_sys, so_uninit = blank_card_info, so_cell = 8, so_addr = 20, so_handler = 7,
     so_mixer = still_mixer, so_env = still_env\<rparr>"

lemma still_mixer_ok: "polite_mixer still_mixer" "keeps_rest still_mixer Q"
  by (simp_all add: polite_mixer_def keeps_rest_def still_mixer_def same_links_def)

definition fresh_mixer :: "int snd_mixer" where
  "fresh_mixer = \<lparr>sm_hctl = None, sm_state = empty_hctl (empty_mixer idle_async)\<rparr>"

lemma still_nonblock: "\<exists>s'. snd_ctl_set_nonblock plain_sys ctl 1 s = (0, s')"
  by (simp add: snd_ctl_set_nonblock_def snd_set_nonblock_def sys_getfl_def sys_setfl_def sys_result_def plain_sys_def Let_def)

lemma rest_empty [simp]: "m_rest (hworld (empty_hctl (empty_mixer w))) = w"
  by (simp add: empty_hctl_def empty_mixer_def)

theorem mixer_attach_clean_witness:
  "\<exists>mx'. snd_mixer_attach still_os ''hw'' fresh_mixer = Some (0, mx') \<and> hctl_ids (sm_state mx') [] [] \<and>
     (\<exists>ctl. sm_hctl mx' = Some (20, ctl) \<and> ctl_fd ctl \<in> sys_fds (async_world (rest_of mx')))"
proof -
  have r: "rest_of fresh_mixer = idle_async" by (simp add: rest_of_def fresh_mixer_def)
  obtain h a where o: "snd_hctl_open quiet_os plain_sys blank_card_info 8 ''hw'' 0 idle_async = Some (0, Some h, a)"
    using hctl_opens by blast
  obtain s' where n: "snd_ctl_set_nonblock plain_sys h 1 (async_world a) = (0, s')" using still_nonblock by blast
  have "\<exists>mx'. snd_mixer_attach still_os ''hw'' fresh_mixer = Some (0, mx')"
    using o n by (simp add: snd_mixer_attach_def snd_mixer_attach_hctl_def still_os_def put_rest_def fresh_mixer_def rest_of_def
        snd_hctl_nonblock_def async_sys_def Let_def)
  then obtain mx' where m: "snd_mixer_attach still_os ''hw'' fresh_mixer = Some (0, mx')" ..
  have "async_cells (rest_of fresh_mixer) (so_cell still_os) = None" by (simp add: r idle_async_def)
  from mixer_attach_clean [OF this m] m show ?thesis by (auto simp: still_os_def)
qed

theorem mixer_close_releases_witness:
  "\<exists>a. snd_mixer_close still_os \<lparr>sm_hctl = Some (20, new_ctl 0 3 1),
       sm_state = empty_hctl (empty_mixer (idle_async\<lparr>async_world := no_files\<lparr>sys_fds := {3, 4}\<rparr>\<rparr>))\<rparr> = Some (0, a) \<and> 3 \<notin> sys_fds (async_world a)"
proof -
  let ?mx = "\<lparr>sm_hctl = Some (20, new_ctl 0 3 1), sm_state = empty_hctl (empty_mixer (idle_async\<lparr>async_world := no_files\<lparr>sys_fds := {3, 4}\<rparr>\<rparr>))\<rparr>"
  have "\<exists>a. snd_mixer_close still_os ?mx = Some (0, a) \<and> ctl_fd (new_ctl 0 3 1) \<notin> sys_fds (async_world a)"
    by (rule mixer_close_releases [where xs = "[]" and ids = "[]" and p = 20])
      (simp_all add: still_os_def still_mixer_ok still_env_ok empty_hctl_ids rest_of_def idle_async_def)
  then show ?thesis by (simp add: new_ctl_def)
qed

end
