(* ===== verification/Output.thy ===== *)
theory Output
  imports Salsa_Prelude
begin

text \<open>
  Output handles: \<^verbatim>\<open>src/src/output.c\<close> (built with \<^verbatim>\<open>SALSA_SUPPORT_OUTPUT_BUFFER\<close>) and the inline versions of
  \<^verbatim>\<open>src/src/output.h\<close> that replace it otherwise.

  A handle writes to a stream or to a growing buffer.  The member \<^verbatim>\<open>ptr\<close> is the stream, or the buffer with its
  contents: a list of cells, of which \<open>None\<close> has not been written since it was allocated.  The streams and the
  allocator are parameters; a formatted output is given by the text that the format and its arguments make.
  The result \<open>None\<close> is an access outside a buffer, through a null pointer or after \<^verbatim>\<open>free\<close>, or an overflow of \<^verbatim>\<open>int\<close>.
\<close>

section \<open>State\<close>

datatype snd_output_type = SND_OUTPUT_STDIO | SND_OUTPUT_BUFFER

datatype output_ptr = Null | Stream nat | Chars "char option list"

record snd_output =
  out_mode :: snd_output_type
  out_ptr :: output_ptr
  out_len :: int
  out_size :: int

record 'w output_state =
  outs :: "nat \<rightharpoonup> snd_output"
  out_world :: 'w

record 'w output_os =
  oo_malloc :: "'w output_state \<Rightarrow> nat option \<times> 'w"
  oo_realloc :: "nat \<Rightarrow> 'w \<Rightarrow> bool \<times> 'w"
  oo_uninit :: "'w \<Rightarrow> int"
  oo_fopen :: "string \<Rightarrow> string \<Rightarrow> 'w \<Rightarrow> nat option \<times> int \<times> 'w"
  oo_fclose :: "nat \<Rightarrow> 'w \<Rightarrow> int \<times> 'w"
  oo_vfprintf :: "nat \<Rightarrow> string \<Rightarrow> 'w \<Rightarrow> int \<times> 'w"
  oo_fputs :: "string \<Rightarrow> nat \<Rightarrow> 'w \<Rightarrow> int \<times> 'w"
  oo_putc :: "int \<Rightarrow> nat \<Rightarrow> 'w \<Rightarrow> int \<times> 'w"
  oo_fflush :: "nat \<Rightarrow> 'w \<Rightarrow> int \<times> 'w"

abbreviation (input) CHUNK :: int where "CHUNK \<equiv> 4000"

section \<open>Character buffers\<close>

definition put_chars :: "char option list \<Rightarrow> int \<Rightarrow> string \<Rightarrow> char option list option" where
  "put_chars buf off cs =
     (if 0 \<le> off \<and> nat off + length cs \<le> length buf
      then Some (take (nat off) buf @ map Some cs @ drop (nat off + length cs) buf) else None)"

definition put_at :: "output_ptr \<Rightarrow> int \<Rightarrow> string \<Rightarrow> output_ptr option" where
  "put_at p off cs = (case p of Chars buf \<Rightarrow> map_option Chars (put_chars buf off cs) | _ \<Rightarrow> None)"

text \<open>
  \<^verbatim>\<open>vsnprintf(p + off, n, ...)\<close>: at most \<open>n\<close> characters with the final zero are stored; the result is the length of
  the text, or negative when that is no \<^verbatim>\<open>int\<close>.  A negative size is out of its domain.
\<close>

definition vsnprintf :: "output_ptr \<Rightarrow> int \<Rightarrow> int \<Rightarrow> string \<Rightarrow> (int \<times> output_ptr) option" where
  "vsnprintf p off n cs =
     (if n < 0 then None
      else if INT_MAX < int (length cs) then Some (- 1, p)
      else if n = 0 then Some (int (length cs), p)
      else do { p \<leftarrow> put_at p off (take (nat (n - 1)) cs @ [CHR 0x00]); Some (int (length cs), p) })"

text \<open>\<^verbatim>\<open>realloc\<close> when it succeeds: the old cells are kept as far as they fit.\<close>

definition realloced :: "output_ptr \<Rightarrow> nat \<Rightarrow> output_ptr option" where
  "realloced p n =
     (case p of Null \<Rightarrow> Some (Chars (replicate n None))
      | Chars buf \<Rightarrow> Some (Chars (take n buf @ replicate (n - length buf) None))
      | Stream _ \<Rightarrow> None)"

section \<open>Opening and closing\<close>

definition out_stream :: "snd_output \<Rightarrow> nat option" where
  "out_stream out = (case out_ptr out of Stream f \<Rightarrow> Some f | _ \<Rightarrow> None)"

definition with_world :: "'w \<Rightarrow> 'w output_state \<Rightarrow> 'w output_state" where
  "with_world w s = s\<lparr>out_world := w\<rparr>"

definition store_out :: "nat \<Rightarrow> snd_output \<Rightarrow> 'w output_state \<Rightarrow> 'w output_state" where
  "store_out a out s = s\<lparr>outs := (outs s)(a \<mapsto> out)\<rparr>"

definition free_out :: "nat \<Rightarrow> 'w output_state \<Rightarrow> 'w output_state" where
  "free_out a s = s\<lparr>outs := (outs s)(a := None)\<rparr>"

text \<open>The second result is the value stored through \<^verbatim>\<open>outputp\<close>.\<close>

definition snd_output_stdio_attach :: "'w output_os \<Rightarrow> nat \<Rightarrow> int \<Rightarrow> 'w output_state \<Rightarrow> int \<times> nat option \<times> 'w output_state" where
  "snd_output_stdio_attach os fp cl s =
     (case oo_malloc os s of
        (None, w) \<Rightarrow> (- ENOMEM, None, with_world w s)
      | (Some a, w) \<Rightarrow>
          (0, Some a, store_out a \<lparr>out_mode = SND_OUTPUT_STDIO, out_ptr = Stream fp, out_len = cl, out_size = oo_uninit os w\<rparr> (with_world w s)))"

definition snd_output_stdio_open :: "'w output_os \<Rightarrow> string \<Rightarrow> string \<Rightarrow> 'w output_state \<Rightarrow> int \<times> nat option \<times> 'w output_state" where
  "snd_output_stdio_open os file mode s =
     (case oo_fopen os file mode (out_world s) of
        (None, errno, w) \<Rightarrow> (- errno, None, with_world w s)
      | (Some fp, errno, w) \<Rightarrow> snd_output_stdio_attach os fp 1 (with_world w s))"

definition snd_output_close :: "'w output_os \<Rightarrow> nat \<Rightarrow> 'w output_state \<Rightarrow> (int \<times> 'w output_state) option" where
  "snd_output_close os a s = do {
     out \<leftarrow> outs s a;
     (if out_mode out = SND_OUTPUT_STDIO \<and> out_len out \<noteq> 0
      then do { f \<leftarrow> out_stream out; (case oo_fclose os f (out_world s) of (r, w) \<Rightarrow> Some (r, with_world w s)) }
      else Some (0, free_out a s)) }"

definition resize :: "'w output_os \<Rightarrow> snd_output \<Rightarrow> int \<Rightarrow> 'w \<Rightarrow> (int \<times> snd_output \<times> 'w) option" where
  "resize os out new w = do {
     n \<leftarrow> int32 (out_len out + new);
     new_size \<leftarrow> int32 (n + CHUNK);
     let bytes = unat (word_of_int new_size :: u64);
     (case oo_realloc os bytes w of
        (False, w) \<Rightarrow> Some (- ENOMEM, out, w)
      | (True, w) \<Rightarrow> do {
          buf \<leftarrow> realloced (out_ptr out) bytes;
          Some (0, out\<lparr>out_ptr := buf, out_size := new_size\<rparr>, w) }) }"

definition snd_output_buffer_open :: "'w output_os \<Rightarrow> 'w output_state \<Rightarrow> (int \<times> nat option \<times> 'w output_state) option" where
  "snd_output_buffer_open os s =
     (case oo_malloc os s of
        (None, w) \<Rightarrow> Some (- ENOMEM, None, with_world w s)
      | (Some a, w) \<Rightarrow> do {
          let out = \<lparr>out_mode = SND_OUTPUT_BUFFER, out_ptr = Null, out_len = 0, out_size = 0\<rparr>;
          (err, out, w) \<leftarrow> resize os out 0 w;
          Some (err, Some a, store_out a out (with_world w s)) })"

section \<open>Output\<close>

definition snd_output_printf :: "'w output_os \<Rightarrow> nat \<Rightarrow> string \<Rightarrow> 'w output_state \<Rightarrow> (int \<times> 'w output_state) option" where
  "snd_output_printf os a cs s = do {
     out \<leftarrow> outs s a;
     (if out_mode out = SND_OUTPUT_STDIO
      then do { f \<leftarrow> out_stream out; (case oo_vfprintf os f cs (out_world s) of (r, w) \<Rightarrow> Some (r, with_world w s)) }
      else do {
        (ret, p) \<leftarrow> vsnprintf (out_ptr out) (out_len out) (out_size out - out_len out) cs;
        let out = out\<lparr>out_ptr := p\<rparr>;
        (if ret \<ge> out_size out - out_len out
         then do {
           (err, out, w) \<leftarrow> resize os out ret (out_world s);
           (if err < 0 then Some (- ENOMEM, store_out a out (with_world w s))
            else do {
              (ret, p) \<leftarrow> vsnprintf (out_ptr out) (out_len out) (out_size out - out_len out) cs;
              Some (ret, store_out a (out\<lparr>out_ptr := p\<rparr>) (with_world w s)) }) }
         else Some (ret, store_out a out s)) }) }"

text \<open>The local variable \<^verbatim>\<open>len\<close>, the length of the string, is the offset of the copy.\<close>

definition snd_output_puts :: "'w output_os \<Rightarrow> nat \<Rightarrow> string \<Rightarrow> 'w output_state \<Rightarrow> (int \<times> 'w output_state) option" where
  "snd_output_puts os a str s = do {
     out \<leftarrow> outs s a;
     (if out_mode out = SND_OUTPUT_STDIO
      then do { f \<leftarrow> out_stream out; (case oo_fputs os str f (out_world s) of (r, w) \<Rightarrow> Some (r, with_world w s)) }
      else do {
        let len = sint (word_of_int (int (length str)) :: 32 word);
        (err, out, w) \<leftarrow> (if out_size out - out_len out \<le> len then resize os out len (out_world s) else Some (0, out, out_world s));
        (if err < 0 then Some (- ENOMEM, store_out a out (with_world w s))
         else do {
           p \<leftarrow> put_at (out_ptr out) len (str @ [CHR 0x00]);
           Some (len, store_out a (out\<lparr>out_ptr := p\<rparr>) (with_world w s)) }) }) }"

definition snd_output_putc :: "'w output_os \<Rightarrow> nat \<Rightarrow> int \<Rightarrow> 'w output_state \<Rightarrow> (int \<times> 'w output_state) option" where
  "snd_output_putc os a c s = do {
     out \<leftarrow> outs s a;
     (if out_mode out = SND_OUTPUT_STDIO
      then do { f \<leftarrow> out_stream out; (case oo_putc os c f (out_world s) of (r, w) \<Rightarrow> Some (r, with_world w s)) }
      else do {
        n \<leftarrow> int32 (out_len out + 1);
        (err, out, w) \<leftarrow> (if n \<ge> out_size out then resize os out 1 (out_world s) else Some (0, out, out_world s));
        (if err < 0 then Some (- ENOMEM, store_out a out (with_world w s))
         else do {
           p \<leftarrow> put_at (out_ptr out) (out_len out) [char_of (nat (c mod 256))];
           Some (0, store_out a (out\<lparr>out_ptr := p, out_len := n\<rparr>) (with_world w s)) }) }) }"

definition snd_output_flush :: "'w output_os \<Rightarrow> nat \<Rightarrow> 'w output_state \<Rightarrow> (int \<times> 'w output_state) option" where
  "snd_output_flush os a s = do {
     out \<leftarrow> outs s a;
     (if out_mode out = SND_OUTPUT_STDIO
      then do { f \<leftarrow> out_stream out; (case oo_fflush os f (out_world s) of (r, w) \<Rightarrow> Some (r, with_world w s)) }
      else Some (0, store_out a (out\<lparr>out_len := 0\<rparr>) s)) }"

text \<open>The length as \<^verbatim>\<open>size_t\<close>, and the buffer.\<close>

definition snd_output_buffer_string :: "nat \<Rightarrow> 'w output_state \<Rightarrow> (u64 \<times> output_ptr) option" where
  "snd_output_buffer_string a s = do { out \<leftarrow> outs s a; Some (word_of_int (out_len out), out_ptr out) }"

section \<open>The handles of a build without buffers\<close>

text \<open>A handle is a stream, or the mark \<^verbatim>\<open>_SALSA_BUF_OUT\<close> of a buffer that keeps nothing.\<close>

datatype simple_output = SALSA_BUF_OUT | FileOut nat

definition simple_stdio_open :: "'w output_os \<Rightarrow> string \<Rightarrow> string \<Rightarrow> 'w \<Rightarrow> int \<times> simple_output option \<times> 'w" where
  "simple_stdio_open os file mode w =
     (case oo_fopen os file mode w of
        (None, errno, w) \<Rightarrow> (- errno, None, w)
      | (Some f, errno, w) \<Rightarrow> (0, Some (FileOut f), w))"

definition simple_stdio_attach :: "nat \<Rightarrow> int \<Rightarrow> int \<times> simple_output" where
  "simple_stdio_attach fp cl = (0, FileOut fp)"

text \<open>\<open>stdout\<close> and \<open>stderr\<close> are the two standard streams.\<close>

definition simple_close :: "'w output_os \<Rightarrow> nat \<Rightarrow> nat \<Rightarrow> simple_output \<Rightarrow> 'w \<Rightarrow> int \<times> 'w" where
  "simple_close os stdout stderr out w =
     (case out of FileOut f \<Rightarrow> (if f \<noteq> stdout \<and> f \<noteq> stderr then oo_fclose os f w else (0, w)) | SALSA_BUF_OUT \<Rightarrow> (0, w))"

definition simple_printf :: "'w output_os \<Rightarrow> simple_output \<Rightarrow> string \<Rightarrow> 'w \<Rightarrow> int \<times> 'w" where
  "simple_printf os out cs w = (case out of SALSA_BUF_OUT \<Rightarrow> (0, w) | FileOut f \<Rightarrow> oo_vfprintf os f cs w)"

definition simple_puts :: "'w output_os \<Rightarrow> simple_output \<Rightarrow> string \<Rightarrow> 'w \<Rightarrow> int \<times> 'w" where
  "simple_puts os out str w = (case out of FileOut f \<Rightarrow> oo_fputs os str f w | SALSA_BUF_OUT \<Rightarrow> (0, w))"

definition simple_putc :: "'w output_os \<Rightarrow> simple_output \<Rightarrow> int \<Rightarrow> 'w \<Rightarrow> int \<times> 'w" where
  "simple_putc os out c w = (case out of FileOut f \<Rightarrow> oo_putc os c f w | SALSA_BUF_OUT \<Rightarrow> (0, w))"

definition simple_flush :: "'w output_os \<Rightarrow> simple_output \<Rightarrow> 'w \<Rightarrow> int \<times> 'w" where
  "simple_flush os out w = (case out of FileOut f \<Rightarrow> oo_fflush os f w | SALSA_BUF_OUT \<Rightarrow> (0, w))"

text \<open>The buffer handed out is one zero character.\<close>

definition simple_buffer_open :: "int \<times> simple_output" where
  "simple_buffer_open = (0, SALSA_BUF_OUT)"

definition simple_buffer_string :: "simple_output \<Rightarrow> u64 \<times> char list" where
  "simple_buffer_string out = (0, [CHR 0x00])"

section \<open>Well-formed handles\<close>

text \<open>A buffer has as many cells as its size says, and room for a final zero after its contents.\<close>

fun sound_out :: "snd_output \<Rightarrow> bool" where
  "sound_out out =
     (case out_mode out of
        SND_OUTPUT_STDIO \<Rightarrow> out_stream out \<noteq> None
      | SND_OUTPUT_BUFFER \<Rightarrow>
          (case out_ptr out of
             Chars buf \<Rightarrow> int (length buf) = out_size out \<and> 0 \<le> out_len out \<and> out_len out < out_size out \<and> out_size out \<le> INT_MAX
           | _ \<Rightarrow> False))"

declare sound_out.simps [simp del]

definition sound_output :: "nat \<Rightarrow> 'w output_state \<Rightarrow> bool" where
  "sound_output a s = (case outs s a of Some out \<Rightarrow> sound_out out | None \<Rightarrow> False)"

lemma sound_buffer:
  "out_mode out = SND_OUTPUT_BUFFER \<Longrightarrow> sound_out out \<longleftrightarrow>
     (\<exists>buf. out_ptr out = Chars buf \<and> int (length buf) = out_size out \<and> 0 \<le> out_len out \<and> out_len out < out_size out \<and> out_size out \<le> INT_MAX)"
  by (auto simp: sound_out.simps split: output_ptr.splits)

lemma sound_stream: "out_mode out = SND_OUTPUT_STDIO \<Longrightarrow> sound_out out \<longleftrightarrow> (\<exists>f. out_stream out = Some f)"
  by (auto simp: sound_out.simps)

lemma put_chars_some:
  assumes "0 \<le> off" "off + int (length cs) \<le> int (length buf)"
  obtains buf' where "put_chars buf off cs = Some buf'" "length buf' = length buf"
    "take (nat off) buf' = take (nat off) buf" "take (length cs) (drop (nat off) buf') = map Some cs"
proof -
  have le: "nat off + length cs \<le> length buf" using assms by linarith
  let ?b = "take (nat off) buf @ map Some cs @ drop (nat off + length cs) buf"
  have "put_chars buf off cs = Some ?b" using assms(1) le by (simp add: put_chars_def)
  moreover have "length ?b = length buf" using le by simp
  ultimately show ?thesis by (rule that) (use le in simp_all)
qed

lemma put_at_Chars: "put_at (Chars buf) off cs = map_option Chars (put_chars buf off cs)"
  by (simp add: put_at_def)

lemma int32_in: "- (2 ^ 31) \<le> x \<Longrightarrow> x < 2 ^ 31 \<Longrightarrow> int32 x = Some x"
  by (simp add: int32_def)

lemma bytes_int: "0 \<le> n \<Longrightarrow> n < 2 ^ 31 \<Longrightarrow> unat (word_of_int n :: u64) = nat n"
  by (simp add: unat_eq_nat_uint uint_word_of_int_eq take_bit_eq_mod)

text \<open>A resize that succeeds extends the buffer and changes nothing else.\<close>

lemma resize_sound:
  assumes "out_mode out = SND_OUTPUT_BUFFER" "sound_out out" "out_ptr out = Chars buf" "0 \<le> new" "out_len out + new + CHUNK \<le> INT_MAX"
    "out_size out \<le> out_len out + new + CHUNK"
  shows "\<exists>w'. resize os out new w = Some (- ENOMEM, out, w')
    \<or> resize os out new w = Some (0, out\<lparr>out_ptr := Chars (buf @ replicate (nat (out_len out + new + CHUNK) - length buf) None),
                                       out_size := out_len out + new + CHUNK\<rparr>, w')"
proof -
  have b: "int (length buf) = out_size out" "0 \<le> out_len out" using assms(1,2,3) by (auto simp: sound_buffer)
  then have "length buf \<le> nat (out_len out + new + CHUNK)" using assms(6) by linarith
  moreover have "int32 (out_len out + new) = Some (out_len out + new)" "int32 (out_len out + new + CHUNK) = Some (out_len out + new + CHUNK)"
    using b assms(4,5) by (auto intro!: int32_in)
  moreover have "unat (word_of_int (out_len out + new + CHUNK) :: u64) = nat (out_len out + new + CHUNK)"
    using b assms(4,5) by (intro bytes_int) auto
  ultimately show ?thesis using assms(3)
    by (auto simp: resize_def realloced_def Let_def simp del: of_int_add split: prod.splits bool.splits)
qed

lemma sound_resized:
  assumes "out_mode out = SND_OUTPUT_BUFFER" "sound_out out" "out_ptr out = Chars buf" "0 \<le> new" "out_len out + new + CHUNK \<le> INT_MAX"
    "out_size out \<le> out_len out + new + CHUNK"
  shows "sound_out (out\<lparr>out_ptr := Chars (buf @ replicate (nat (out_len out + new + CHUNK) - length buf) None),
                        out_size := out_len out + new + CHUNK\<rparr>)"
  using assms by (auto simp: sound_buffer)


lemma store_out_same [simp]: "outs (store_out a out s) a = Some out"
  by (simp add: store_out_def)

lemma outs_with_world [simp]: "outs (with_world w s) = outs s"
  by (simp add: with_world_def)

lemma world_store_out [simp]: "out_world (store_out a out s) = out_world s"
  by (simp add: store_out_def)

lemma sound_store [simp]: "sound_output a (store_out a out s) \<longleftrightarrow> sound_out out"
  by (simp add: sound_output_def)

lemma sound_outputE:
  assumes "sound_output a s"
  obtains out where "outs s a = Some out" "sound_out out"
  using assms by (auto simp: sound_output_def split: option.splits)

text \<open>A formatted write of a sound buffer is inside it, and the text stands at the end of the contents, cut to the room.\<close>

lemma vsnprintf_sound:
  assumes "out_mode out = SND_OUTPUT_BUFFER" "sound_out out" "int (length cs) \<le> INT_MAX"
  obtains buf buf' where "out_ptr out = Chars buf" "length buf' = length buf"
    "vsnprintf (out_ptr out) (out_len out) (out_size out - out_len out) cs = Some (int (length cs), Chars buf')"
    "take (nat (out_len out)) buf' = take (nat (out_len out)) buf"
    "take (min (Suc (length cs)) (length buf - nat (out_len out))) (drop (nat (out_len out)) buf')
       = map Some (take (nat (out_size out - out_len out - 1)) cs @ [CHR 0x00])"
proof -
  obtain buf where b: "out_ptr out = Chars buf" "int (length buf) = out_size out" "0 \<le> out_len out" "out_len out < out_size out"
    using assms(1,2) by (auto simp: sound_buffer)
  let ?t = "take (nat (out_size out - out_len out - 1)) cs @ [CHR 0x00]"
  have l: "length ?t = min (Suc (length cs)) (length buf - nat (out_len out))" using b by (auto simp: min_def)
  then have "out_len out + int (length ?t) \<le> int (length buf)" using b by linarith
  from put_chars_some [OF b(3) this] obtain buf' where p: "put_chars buf (out_len out) ?t = Some buf'" "length buf' = length buf"
    "take (nat (out_len out)) buf' = take (nat (out_len out)) buf" "take (length ?t) (drop (nat (out_len out)) buf') = map Some ?t"
    by blast
  have "vsnprintf (out_ptr out) (out_len out) (out_size out - out_len out) cs = Some (int (length cs), Chars buf')"
    using b assms(3) p(1) by (simp add: vsnprintf_def put_at_Chars)
  from that [OF b(1) p(2) this p(3)] p(4) l show ?thesis by metis
qed

lemma sound_ptr:
  assumes "out_mode out = SND_OUTPUT_BUFFER" "sound_out out" "out_ptr out = Chars buf" "length buf' = length buf"
  shows "sound_out (out\<lparr>out_ptr := Chars buf'\<rparr>)"
  using assms by (auto simp: sound_buffer)

text \<open>A text that fits.\<close>

lemma printf_fits:
  assumes "outs s a = Some out" "out_mode out = SND_OUTPUT_BUFFER" "sound_out out" "int (length cs) < out_size out - out_len out"
  obtains buf buf' where "out_ptr out = Chars buf" "length buf' = length buf"
    "snd_output_printf os a cs s = Some (int (length cs), store_out a (out\<lparr>out_ptr := Chars buf'\<rparr>) s)"
    "take (nat (out_len out)) buf' = take (nat (out_len out)) buf"
    "take (Suc (length cs)) (drop (nat (out_len out)) buf') = map Some (cs @ [CHR 0x00])"
proof -
  have c: "int (length cs) \<le> INT_MAX" "0 \<le> out_len out" using assms(2,3,4) by (auto simp: sound_buffer)
  from vsnprintf_sound [OF assms(2,3) c(1)] obtain buf buf' where v: "out_ptr out = Chars buf" "length buf' = length buf"
    "vsnprintf (out_ptr out) (out_len out) (out_size out - out_len out) cs = Some (int (length cs), Chars buf')"
    "take (nat (out_len out)) buf' = take (nat (out_len out)) buf"
    "take (min (Suc (length cs)) (length buf - nat (out_len out))) (drop (nat (out_len out)) buf')
       = map Some (take (nat (out_size out - out_len out - 1)) cs @ [CHR 0x00])"
    by blast
  have "length buf - nat (out_len out) \<ge> Suc (length cs)" using assms v(1) c(2) by (auto simp: sound_buffer)
  then have "take (Suc (length cs)) (drop (nat (out_len out)) buf') = map Some (cs @ [CHR 0x00])"
    using v(5) assms(4) by (simp add: min_def)
  moreover have "snd_output_printf os a cs s = Some (int (length cs), store_out a (out\<lparr>out_ptr := Chars buf'\<rparr>) s)"
    using assms(1,2,4) v(3) by (simp add: snd_output_printf_def)
  ultimately show ?thesis using that v(1,2,4) by blast
qed

text \<open>A text that does not fit: the buffer grows, or the call fails.\<close>

lemma printf_grows:
  assumes "outs s a = Some out" "out_mode out = SND_OUTPUT_BUFFER" "sound_out out" "out_size out - out_len out \<le> int (length cs)"
    "out_len out + int (length cs) + CHUNK \<le> INT_MAX"
  obtains buf w buf' where "out_ptr out = Chars buf" "length buf' = length buf"
    "snd_output_printf os a cs s = Some (- ENOMEM, store_out a (out\<lparr>out_ptr := Chars buf'\<rparr>) (with_world w s))"
  | buf w buf' where "out_ptr out = Chars buf" "int (length buf') = out_len out + int (length cs) + CHUNK"
    "snd_output_printf os a cs s =
       Some (int (length cs), store_out a (out\<lparr>out_size := out_len out + int (length cs) + CHUNK, out_ptr := Chars buf'\<rparr>) (with_world w s))"
    "take (nat (out_len out)) buf' = take (nat (out_len out)) buf"
    "take (Suc (length cs)) (drop (nat (out_len out)) buf') = map Some (cs @ [CHR 0x00])"
proof -
  have c: "int (length cs) \<le> INT_MAX" "0 \<le> out_len out" "out_len out < out_size out" using assms(2,3,5) by (auto simp: sound_buffer)
  from vsnprintf_sound [OF assms(2,3) c(1)] obtain buf buf1 where v: "out_ptr out = Chars buf" "length buf1 = length buf"
    "vsnprintf (out_ptr out) (out_len out) (out_size out - out_len out) cs = Some (int (length cs), Chars buf1)"
    "take (nat (out_len out)) buf1 = take (nat (out_len out)) buf"
    by blast
  let ?out1 = "out\<lparr>out_ptr := Chars buf1\<rparr>"
  let ?n = "out_len out + int (length cs) + CHUNK"
  let ?out2 = "?out1\<lparr>out_ptr := Chars (buf1 @ replicate (nat ?n - length buf1) None), out_size := ?n\<rparr>"
  have m1: "out_mode ?out1 = SND_OUTPUT_BUFFER" and s1: "sound_out ?out1" using sound_ptr [OF assms(2,3) v(1,2)] assms(2) by simp_all
  have r: "out_size ?out1 \<le> out_len ?out1 + int (length cs) + CHUNK" "out_len ?out1 + int (length cs) + CHUNK \<le> INT_MAX"
    using assms(4,5) by simp_all
  have "\<exists>w'. resize os ?out1 (int (length cs)) (out_world s) = Some (- ENOMEM, ?out1, w')
    \<or> resize os ?out1 (int (length cs)) (out_world s) = Some (0, ?out2, w')"
    using resize_sound [OF m1 s1 _ _ r(2,1), of buf1] by simp
  then consider w' where "resize os ?out1 (int (length cs)) (out_world s) = Some (- ENOMEM, ?out1, w')"
    | w' where "resize os ?out1 (int (length cs)) (out_world s) = Some (0, ?out2, w')" by blast
  then show ?thesis
  proof cases
    case 1
    then have "snd_output_printf os a cs s = Some (- ENOMEM, store_out a ?out1 (with_world w' s))"
      using assms(1,2,4) v(3) by (simp add: snd_output_printf_def)
    with v(1,2) that(1) show ?thesis by blast
  next
    case 2
    have s2: "sound_out ?out2" and m2: "out_mode ?out2 = SND_OUTPUT_BUFFER"
      using sound_resized [OF m1 s1 _ _ r(2,1), of buf1] m1 by simp_all
    from vsnprintf_sound [OF m2 s2 c(1)] obtain buf2 buf3 where x: "out_ptr ?out2 = Chars buf2" "length buf3 = length buf2"
      "vsnprintf (out_ptr ?out2) (out_len ?out2) (out_size ?out2 - out_len ?out2) cs = Some (int (length cs), Chars buf3)"
      "take (nat (out_len ?out2)) buf3 = take (nat (out_len ?out2)) buf2"
      "take (min (Suc (length cs)) (length buf2 - nat (out_len ?out2))) (drop (nat (out_len ?out2)) buf3)
         = map Some (take (nat (out_size ?out2 - out_len ?out2 - 1)) cs @ [CHR 0x00])" by blast
    have b2: "buf2 = buf1 @ replicate (nat ?n - length buf1) None" using x(1) by simp
    have lb: "int (length buf1) = out_size out" using assms(2,3) v(1,2) by (auto simp: sound_buffer)
    have l2: "int (length buf2) = ?n" using b2 lb assms(4) c by simp
    have "take (nat (out_len out)) buf3 = take (nat (out_len out)) buf"
      using x(4) b2 v(4) lb c(3) by simp
    moreover have "take (Suc (length cs)) (drop (nat (out_len out)) buf3) = map Some (cs @ [CHR 0x00])"
    proof -
      have "min (Suc (length cs)) (length buf2 - nat (out_len out)) = Suc (length cs)" using l2 c(2) by linarith
      then show ?thesis using x(5) by simp
    qed
    moreover have "?out2\<lparr>out_ptr := Chars buf3\<rparr> = out\<lparr>out_size := ?n, out_ptr := Chars buf3\<rparr>" by simp
    then have "snd_output_printf os a cs s =
        Some (int (length cs), store_out a (out\<lparr>out_size := ?n, out_ptr := Chars buf3\<rparr>) (with_world w' s))"
      using assms(1,2,4) v(3) 2 x(3) by (simp add: snd_output_printf_def)
    moreover have "int (length buf3) = ?n" using l2 x(2) by simp
    ultimately show ?thesis using v(1) that(2) by blast
  qed
qed


text \<open>One character: the contents grow by it, or the call fails and the handle is as it was.\<close>

definition written :: "snd_output \<Rightarrow> char option list" where
  "written out = (case out_ptr out of Chars buf \<Rightarrow> take (nat (out_len out)) buf | _ \<Rightarrow> [])"

lemma put_last:
  assumes "0 \<le> off" "off < int (length buf)"
  obtains buf' where "put_chars buf off [c] = Some buf'" "length buf' = length buf" "take (nat (off + 1)) buf' = take (nat off) buf @ [Some c]"
proof -
  from put_chars_some [of off "[c]" buf] assms obtain buf' where p: "put_chars buf off [c] = Some buf'" "length buf' = length buf"
    "take (nat off) buf' = take (nat off) buf" "take 1 (drop (nat off) buf') = [Some c]" by auto
  have "take (nat (off + 1)) buf' = take (nat off) buf' @ take 1 (drop (nat off) buf')"
    using assms(1) by (simp only: nat_add_distrib take_add) (simp add: take_add [symmetric])
  with p that show ?thesis by auto
qed

lemma putc_appends:
  assumes "outs s a = Some out" "out_mode out = SND_OUTPUT_BUFFER" "sound_out out" "out_len out + 1 + CHUNK \<le> INT_MAX"
  obtains w where "snd_output_putc os a c s = Some (- ENOMEM, store_out a out (with_world w s))" "\<exists>n w. \<not> fst (oo_realloc os n w)"
  | w out' where "snd_output_putc os a c s = Some (0, store_out a out' (with_world w s))" "out_mode out' = SND_OUTPUT_BUFFER"
      "sound_out out'" "out_len out' = out_len out + 1" "written out' = written out @ [Some (char_of (nat (c mod 256)))]"
proof -
  let ?ch = "char_of (nat (c mod 256)) :: char"
  obtain buf where b: "out_ptr out = Chars buf" "int (length buf) = out_size out" "0 \<le> out_len out" "out_len out < out_size out" "out_size out \<le> INT_MAX"
    using assms(2,3) by (auto simp: sound_buffer)
  have i: "int32 (out_len out + 1) = Some (out_len out + 1)" using b assms(4) by (intro int32_in) auto
  let ?o = "\<lambda>buf' n. out\<lparr>out_size := n, out_ptr := Chars buf', out_len := out_len out + 1\<rparr>"
  have last: "\<exists>buf'. put_at (Chars buf1) (out_len out) [?ch] = Some (Chars buf') \<and> sound_out (?o buf' n) \<and> written (?o buf' n) = written out @ [Some ?ch]"
    if buf1: "int (length buf1) = n" "take (nat (out_len out)) buf1 = take (nat (out_len out)) buf" "out_len out + 1 < n" "n \<le> INT_MAX" for buf1 n
  proof -
    from put_last [OF b(3), of buf1 ?ch] buf1 obtain buf' where p: "put_chars buf1 (out_len out) [?ch] = Some buf'"
      "length buf' = length buf1" "take (nat (out_len out + 1)) buf' = take (nat (out_len out)) buf @ [Some ?ch]" by auto
    have "sound_out (?o buf' n)" using b buf1 p(2) assms(2) by (simp add: sound_buffer)
    moreover have "written (?o buf' n) = written out @ [Some ?ch]" using b p(3) by (simp add: written_def)
    ultimately show ?thesis using p(1) by (simp add: put_at_Chars)
  qed
  show ?thesis
  proof (cases "out_len out + 1 \<ge> out_size out")
    case False
    with last [of buf "out_size out"] b obtain buf' where o: "put_at (Chars buf) (out_len out) [?ch] = Some (Chars buf')"
      "sound_out (?o buf' (out_size out))" "written (?o buf' (out_size out)) = written out @ [Some ?ch]" by auto
    have "out\<lparr>out_ptr := Chars buf', out_len := out_len out + 1\<rparr> = ?o buf' (out_size out)" by (cases out) simp
    then have "snd_output_putc os a c s = Some (0, store_out a (?o buf' (out_size out)) (with_world (out_world s) s))"
      using assms(1,2) False b(1) i o(1) by (simp add: snd_output_putc_def)
    from that(2) [OF this] o assms(2) show ?thesis by simp
  next
    case True
    let ?n = "out_len out + 1 + CHUNK"
    have r: "out_size out \<le> ?n" using True by simp
    from resize_sound [OF assms(2,3) b(1) _ assms(4) r, of os "out_world s"] obtain w where
      "resize os out 1 (out_world s) = Some (- ENOMEM, out, w)
       \<or> resize os out 1 (out_world s) = Some (0, out\<lparr>out_ptr := Chars (buf @ replicate (nat ?n - length buf) None), out_size := ?n\<rparr>, w)" by auto
    then show ?thesis
    proof
      assume e: "resize os out 1 (out_world s) = Some (- ENOMEM, out, w)"
      then have "\<not> fst (oo_realloc os (unat (word_of_int (out_len out + 1 + CHUNK) :: u64)) (out_world s))"
        using i int32_in [of ?n] assms(4) b(3) b(1)
        by (cases "oo_realloc os (unat (word_of_int ?n :: u64)) (out_world s)")
          (auto simp: resize_def Let_def realloced_def simp del: of_int_add split: bool.splits)
      then have "\<exists>n w. \<not> fst (oo_realloc os n w)" by blast
      moreover have "snd_output_putc os a c s = Some (- ENOMEM, store_out a out (with_world w s))"
        using assms(1,2) True i e by (simp add: snd_output_putc_def)
      ultimately show ?thesis using that(1) by blast
    next
      let ?b1 = "buf @ replicate (nat ?n - length buf) None"
      assume e: "resize os out 1 (out_world s) = Some (0, out\<lparr>out_ptr := Chars ?b1, out_size := ?n\<rparr>, w)"
      have "int (length ?b1) = ?n" using b r by simp
      moreover have "take (nat (out_len out)) ?b1 = take (nat (out_len out)) buf" using b by simp
      moreover have "out_len out + 1 < ?n" by simp
      ultimately obtain buf' where o: "put_at (Chars ?b1) (out_len out) [?ch] = Some (Chars buf')"
        "sound_out (?o buf' ?n)" "written (?o buf' ?n) = written out @ [Some ?ch]" using last [of ?b1 ?n] assms(4) by blast
      have "out\<lparr>out_ptr := Chars ?b1, out_size := ?n\<rparr>\<lparr>out_ptr := Chars buf', out_len := out_len out + 1\<rparr> = ?o buf' ?n" by simp
      then have "snd_output_putc os a c s = Some (0, store_out a (?o buf' ?n) (with_world w s))"
        using assms(1,2) True i e o(1) by (simp add: snd_output_putc_def)
      from that(2) [OF this] o assms(2) show ?thesis by simp
    qed
  qed
qed

text \<open>A string by \<^verbatim>\<open>snd_output_puts\<close>, when it fits after the contents: the copy is at the offset of its own length.\<close>

lemma puts_copies:
  assumes "outs s a = Some out" "out_mode out = SND_OUTPUT_BUFFER" "sound_out out" "int (length str) < out_size out - out_len out"
  shows "snd_output_puts os a str s =
    do { p \<leftarrow> put_at (out_ptr out) (int (length str)) (str @ [CHR 0x00]);
         Some (int (length str), store_out a (out\<lparr>out_ptr := p\<rparr>) (with_world (out_world s) s)) }"
proof -
  have "int (length str) < 2 ^ 31" using assms(2,3,4) by (auto simp: sound_buffer)
  then have "sint (word_of_int (int (length str)) :: 32 word) = int (length str)"
    by (simp add: int_word_sint del: of_int_of_nat_eq)
  then show ?thesis using assms(1,2,4) by (simp add: snd_output_puts_def Let_def del: of_int_of_nat_eq)
qed

text \<open>The characters of a string in turn, until a call fails.\<close>

primrec putc_all :: "'w output_os \<Rightarrow> nat \<Rightarrow> string \<Rightarrow> 'w output_state \<Rightarrow> (int \<times> 'w output_state) option" where
  "putc_all os a [] s = Some (0, s)"
| "putc_all os a (c # cs) s = do {
     (err, s) \<leftarrow> snd_output_putc os a (of_char c) s;
     (if err < 0 then Some (err, s) else putc_all os a cs s) }"

lemma putc_all_appends:
  assumes "outs s a = Some out" "out_mode out = SND_OUTPUT_BUFFER" "sound_out out" "out_len out + int (length cs) + CHUNK \<le> INT_MAX"
    "\<forall>n w. fst (oo_realloc os n w)"
  shows "\<exists>s' out'. putc_all os a cs s = Some (0, s') \<and> outs s' a = Some out' \<and> out_mode out' = SND_OUTPUT_BUFFER \<and> sound_out out'
    \<and> out_len out' = out_len out + int (length cs) \<and> written out' = written out @ map Some cs"
  using assms
proof (induction cs arbitrary: s out)
  case (Cons c cs)
  from Cons.prems(4) have r: "out_len out + 1 + CHUNK \<le> INT_MAX" by simp
  have c: "char_of (nat (of_char c mod 256)) = c"
  proof -
    have 1: "(of_char c :: int) mod 256 = of_char c" by (rule of_char_mod_256)
    have 2: "nat (of_char c :: int) = (of_char c :: nat)" by (subst of_nat_of_char [symmetric]) (rule nat_int)
    show ?thesis unfolding 1 2 by (rule char_of_char)
  qed
  show ?case
  proof (rule putc_appends [OF Cons.prems(1-3) r, of os "of_char c"])
    assume "\<exists>n w. \<not> fst (oo_realloc os n w)"
    with Cons.prems(5) show ?case by simp
  next
    fix w out1
    assume p: "snd_output_putc os a (of_char c) s = Some (0, store_out a out1 (with_world w s))" "out_mode out1 = SND_OUTPUT_BUFFER"
      "sound_out out1" "out_len out1 = out_len out + 1" "written out1 = written out @ [Some (char_of (nat (of_char c mod 256)))]"
    have "out_len out1 + int (length cs) + CHUNK \<le> INT_MAX" using p(4) Cons.prems(4) by simp
    from Cons.IH [OF store_out_same p(2,3) this Cons.prems(5), of "with_world w s"] show ?case
      using p c by (simp add: add.assoc)
  qed
qed simp


lemma buffer_open_sound:
  assumes "snd_output_buffer_open os s = Some (0, Some a, s')"
  shows "outs s' a = Some \<lparr>out_mode = SND_OUTPUT_BUFFER, out_ptr = Chars (replicate 4000 None), out_len = 0, out_size = 4000\<rparr>"
  using assms
  by (auto simp: snd_output_buffer_open_def resize_def int32_def Let_def realloced_def bind_eq_Some_conv
      split: prod.splits option.splits bool.splits)

section \<open>Properties\<close>

definition in_int_range :: "nat \<Rightarrow> int \<Rightarrow> 'w output_state \<Rightarrow> bool" where
  "in_int_range a n s = (case outs s a of Some out \<Rightarrow> out_len out + n + CHUNK \<le> INT_MAX | None \<Rightarrow> False)"

lemma printf_safe:
  assumes "outs s a = Some out" "sound_out out" "out_len out + int (length cs) + CHUNK \<le> INT_MAX"
  shows "\<exists>r s'. snd_output_printf os a cs s = Some (r, s') \<and> sound_output a s'"
proof (cases "out_mode out")
  case SND_OUTPUT_STDIO
  with assms show ?thesis
    by (auto simp: snd_output_printf_def sound_stream sound_output_def split: prod.splits)
next
  case b: SND_OUTPUT_BUFFER
  show ?thesis
  proof (cases "int (length cs) < out_size out - out_len out")
    case True
    from printf_fits [OF assms(1) b assms(2) True, of os] obtain buf buf' where
      "out_ptr out = Chars buf" "length buf' = length buf"
      "snd_output_printf os a cs s = Some (int (length cs), store_out a (out\<lparr>out_ptr := Chars buf'\<rparr>) s)" by blast
    then show ?thesis using sound_ptr [OF b assms(2)] by simp
  next
    case False
    then have f: "out_size out - out_len out \<le> int (length cs)" by simp
    show ?thesis
    proof (rule printf_grows [OF assms(1) b assms(2) f assms(3), of os])
      fix buf w buf'
      assume "out_ptr out = Chars buf" "length buf' = length buf"
        "snd_output_printf os a cs s = Some (- ENOMEM, store_out a (out\<lparr>out_ptr := Chars buf'\<rparr>) (with_world w s))"
      then show ?thesis using sound_ptr [OF b assms(2)] by simp
    next
      fix buf w buf'
      assume l: "int (length buf') = out_len out + int (length cs) + CHUNK"
      and p: "snd_output_printf os a cs s =
         Some (int (length cs), store_out a (out\<lparr>out_size := out_len out + int (length cs) + CHUNK, out_ptr := Chars buf'\<rparr>) (with_world w s))"
      have "sound_out (out\<lparr>out_size := out_len out + int (length cs) + CHUNK, out_ptr := Chars buf'\<rparr>)"
        using assms(2,3) b l by (auto simp: sound_buffer)
      with p show ?thesis by simp
    qed
  qed
qed

lemma putc_safe:
  assumes "outs s a = Some out" "sound_out out" "out_len out + 1 + CHUNK \<le> INT_MAX"
  shows "\<exists>r s'. snd_output_putc os a c s = Some (r, s') \<and> sound_output a s'"
proof (cases "out_mode out")
  case SND_OUTPUT_STDIO
  with assms show ?thesis
    by (auto simp: snd_output_putc_def sound_stream sound_output_def split: prod.splits)
next
  case b: SND_OUTPUT_BUFFER
  show ?thesis
    by (rule putc_appends [OF assms(1) b assms(2,3), of os c]) (use assms(2) in simp_all)
qed

lemma flush_safe:
  assumes "outs s a = Some out" "sound_out out"
  shows "\<exists>r s'. snd_output_flush os a s = Some (r, s') \<and> sound_output a s'"
  using assms
  by (cases "out_mode out") (auto simp: snd_output_flush_def sound_stream sound_buffer sound_output_def split: prod.splits)


lemma buffer_open_is_sound:
  assumes "snd_output_buffer_open os s = Some (0, Some a, s')"
  shows "sound_output a s'"
  by (simp add: sound_output_def buffer_open_sound [OF assms] sound_buffer)

text \<open>A witness environment: the allocator always succeeds, at the address 1; the streams do nothing.\<close>

definition plain_output :: "unit output_os" where
  "plain_output = \<lparr>oo_malloc = (\<lambda>s. (Some 1, ())), oo_realloc = (\<lambda>n w. (True, ())), oo_uninit = (\<lambda>w. 0),
     oo_fopen = (\<lambda>f m w. (Some 7, 0, ())), oo_fclose = (\<lambda>f w. (0, ())), oo_vfprintf = (\<lambda>f cs w. (int (length cs), ())),
     oo_fputs = (\<lambda>cs f w. (0, ())), oo_putc = (\<lambda>c f w. (c, ())), oo_fflush = (\<lambda>f w. (0, ()))\<rparr>"

definition opened_output :: "unit output_state" where
  "opened_output = store_out 1 \<lparr>out_mode = SND_OUTPUT_BUFFER, out_ptr = Chars (replicate 4000 None), out_len = 0, out_size = 4000\<rparr>
     \<lparr>outs = Map.empty, out_world = ()\<rparr>"

lemma opened_output: "snd_output_buffer_open plain_output \<lparr>outs = Map.empty, out_world = ()\<rparr> = Some (0, Some 1, opened_output)"
  by (simp add: snd_output_buffer_open_def plain_output_def resize_def int32_def Let_def realloced_def opened_output_def with_world_def)

lemma sound_opened: "sound_output 1 opened_output" "in_int_range 1 n opened_output \<longleftrightarrow> n + 4000 \<le> INT_MAX"
  by (simp_all add: opened_output_def sound_buffer in_int_range_def)


text \<open>Characters written one by one to a new buffer are its contents: \<^verbatim>\<open>snd_output_buffer_string\<close> gives their number and
  a buffer that starts with them.\<close>
theorem putc_buffer_roundtrip:
  assumes "snd_output_buffer_open os s = Some (0, Some a, s')" "\<forall>n w. fst (oo_realloc os n w)" "int (length cs) + CHUNK \<le> INT_MAX"
  shows "\<exists>s'' buf. putc_all os a cs s' = Some (0, s'') \<and> snd_output_buffer_string a s'' = Some (word_of_nat (length cs), Chars buf)
    \<and> take (length cs) buf = map Some cs"
proof -
  let ?out = "\<lparr>out_mode = SND_OUTPUT_BUFFER, out_ptr = Chars (replicate 4000 None), out_len = 0, out_size = 4000\<rparr>"
  have "sound_out ?out" by (simp add: sound_buffer)
  from putc_all_appends [OF buffer_open_sound [OF assms(1)] _ this _ assms(2), of cs] assms(3)
  obtain s'' out' where o: "putc_all os a cs s' = Some (0, s'')" "outs s'' a = Some out'" "out_mode out' = SND_OUTPUT_BUFFER" "sound_out out'"
    "out_len out' = int (length cs)" "written out' = map Some cs" by (auto simp: written_def)
  then obtain buf where "out_ptr out' = Chars buf" by (auto simp: sound_buffer)
  with o show ?thesis by (auto simp: snd_output_buffer_string_def written_def)
qed

theorem putc_buffer_roundtrip_witness:
  "\<exists>s'' buf. putc_all plain_output 1 ''rate'' opened_output = Some (0, s'') \<and>
     snd_output_buffer_string 1 s'' = Some (4, Chars buf) \<and> take 4 buf = map Some ''rate''"
proof -
  have "\<forall>n w. fst (oo_realloc plain_output n w)" by (simp add: plain_output_def)
  from putc_buffer_roundtrip [OF opened_output this, of "''rate''"] show ?thesis
    by (simp add: eval_nat_numeral del: putc_all.simps)
qed

text \<open>C39. \<^verbatim>\<open>snd_output_puts\<close> copies a string to the offset of its own length, not to the end of the contents: when the string
  fits after the contents the copy leaves the buffer as soon as twice its length reaches the size, and otherwise the length of the
  contents is not advanced, so that the handle reports the same string length as before.\<close>
theorem puts_wrong_offset:
  assumes "outs s a = Some out" "out_mode out = SND_OUTPUT_BUFFER" "sound_out out" "int (length str) < out_size out - out_len out"
  shows "(snd_output_puts os a str s = None \<longleftrightarrow> out_size out \<le> 2 * int (length str)) \<and>
    (2 * int (length str) < out_size out \<longrightarrow>
      (\<exists>s' out' buf. snd_output_puts os a str s = Some (int (length str), s') \<and> outs s' a = Some out' \<and> out_ptr out' = Chars buf \<and>
         take (Suc (length str)) (drop (length str) buf) = map Some (str @ [CHR 0x00]) \<and> out_len out' = out_len out))"
proof -
  obtain buf where b: "out_ptr out = Chars buf" "int (length buf) = out_size out" using assms(2,3) by (auto simp: sound_buffer)
  have n: "put_chars buf (int (length str)) (str @ [CHR 0x00]) = None \<longleftrightarrow> out_size out \<le> 2 * int (length str)"
    using b(2) by (auto simp: put_chars_def)
  moreover have "\<exists>buf'. put_chars buf (int (length str)) (str @ [CHR 0x00]) = Some buf' \<and>
      take (Suc (length str)) (drop (length str) buf') = map Some (str @ [CHR 0x00])" if "2 * int (length str) < out_size out"
    using put_chars_some [of "int (length str)" "str @ [CHR 0x00]" buf] that b(2) by auto
  ultimately show ?thesis
    by (cases "put_chars buf (int (length str)) (str @ [CHR 0x00])") (auto simp: puts_copies [OF assms] b(1) put_at_Chars)
qed

theorem puts_wrong_offset_witness:
  "snd_output_puts plain_output 1 (replicate 2000 CHR ''x'') opened_output = None
   \<and> (\<exists>s'. snd_output_puts plain_output 1 ''rate'' opened_output = Some (4, s') \<and> (\<exists>out. outs s' 1 = Some out \<and> out_len out = 0))"
proof -
  let ?out = "\<lparr>out_mode = SND_OUTPUT_BUFFER, out_ptr = Chars (replicate 4000 None), out_len = 0, out_size = 4000\<rparr>"
  have o: "outs opened_output 1 = Some ?out" by (simp add: opened_output_def)
  have "sound_out ?out" by (simp add: sound_buffer)
  from puts_wrong_offset [OF o _ this, of "replicate 2000 CHR ''x''" plain_output] puts_wrong_offset [OF o _ this, of "''rate''" plain_output]
  show ?thesis by simp blast
qed

text \<open>Two formatted outputs that fit: the second stands where the first stood, because \<^verbatim>\<open>snd_output_printf\<close> does not advance
  the length of the contents; \<^verbatim>\<open>snd_output_buffer_string\<close> reports the length from before.\<close>
theorem printf_overwrites:
  assumes "outs s a = Some out" "out_mode out = SND_OUTPUT_BUFFER" "sound_out out"
    "int (length cs) < out_size out - out_len out" "int (length ds) < out_size out - out_len out"
  shows "\<exists>s1 s2 buf. snd_output_printf os a cs s = Some (int (length cs), s1) \<and> snd_output_printf os a ds s1 = Some (int (length ds), s2) \<and>
    snd_output_buffer_string a s2 = Some (word_of_int (out_len out), Chars buf) \<and>
    take (nat (out_len out)) buf = written out \<and> take (Suc (length ds)) (drop (nat (out_len out)) buf) = map Some (ds @ [CHR 0x00])"
proof -
  from printf_fits [OF assms(1-4), of os] obtain buf buf1 where p: "out_ptr out = Chars buf" "length buf1 = length buf"
    "snd_output_printf os a cs s = Some (int (length cs), store_out a (out\<lparr>out_ptr := Chars buf1\<rparr>) s)"
    "take (nat (out_len out)) buf1 = take (nat (out_len out)) buf" by blast
  let ?o = "out\<lparr>out_ptr := Chars buf1\<rparr>"
  let ?s = "store_out a ?o s"
  have "out_mode ?o = SND_OUTPUT_BUFFER" "sound_out ?o" "int (length ds) < out_size ?o - out_len ?o"
    using assms sound_ptr [OF assms(2,3) p(1,2)] by simp_all
  from printf_fits [OF store_out_same [of a ?o s] this, of os] obtain buf2 where
    "snd_output_printf os a ds ?s = Some (int (length ds), store_out a (out\<lparr>out_ptr := Chars buf2\<rparr>) ?s)"
    "take (nat (out_len out)) buf2 = take (nat (out_len out)) buf1"
    "take (Suc (length ds)) (drop (nat (out_len out)) buf2) = map Some (ds @ [CHR 0x00])" by simp blast
  with p show ?thesis by (auto simp: snd_output_buffer_string_def written_def)
qed

theorem printf_overwrites_witness:
  "\<exists>s1 s2 buf. snd_output_printf plain_output 1 ''rate'' opened_output = Some (4, s1) \<and> snd_output_printf plain_output 1 ''ok'' s1 = Some (2, s2) \<and>
     snd_output_buffer_string 1 s2 = Some (0, Chars buf) \<and> take 3 buf = map Some (''ok'' @ [CHR 0x00])"
proof -
  let ?out = "\<lparr>out_mode = SND_OUTPUT_BUFFER, out_ptr = Chars (replicate 4000 None), out_len = 0, out_size = 4000\<rparr>"
  have o: "outs opened_output 1 = Some ?out" by (simp add: opened_output_def)
  have "sound_out ?out" by (simp add: sound_buffer)
  from printf_overwrites [OF o _ this, of "''rate''" "''ok''" plain_output] show ?thesis by (simp add: numeral_3_eq_3 written_def)
qed

text \<open>Closing a stream that the handle owns does not free the handle.\<close>

lemma close_leaks_handle:
  assumes "snd_output_stdio_open os file mode s = (0, Some a, s')"
  shows "\<exists>r s''. snd_output_close os a s' = Some (r, s'') \<and> outs s'' a \<noteq> None"
  using assms
  by (auto simp: snd_output_stdio_open_def snd_output_stdio_attach_def snd_output_close_def out_stream_def split: prod.splits option.splits)

end
