(* ===== verification/Rawmidi.thy ===== *)
theory Rawmidi
  imports Device_Objects
begin

text \<open>
  MIDI devices: \<^verbatim>\<open>src/src/rawmidi.c\<close> and the calls of \<^verbatim>\<open>src/src/rawmidi_macros.h\<close> on a handle.

  An open device is shared by the handles of its two directions and counts them.  Handles and devices are on two heaps; an
  address that is not in its heap is a null pointer or freed memory, and following it has no result.
\<close>

section \<open>State\<close>

record rawmidi_hw =
  rh_name :: "string option"
  rh_fd :: int
  rh_type :: int
  rh_opened :: int

record snd_rawmidi =
  rm_fd :: int
  rm_stream :: int
  rm_mode :: u32
  rm_pollfd :: pollfd
  rm_params :: rawmidi_params
  rm_hw :: "nat option"

record 'w midi =
  midi_hws :: "nat \<rightharpoonup> rawmidi_hw"
  midi_handles :: "nat \<rightharpoonup> snd_rawmidi"
  midi_sys :: "'w sys"

record 'w midi_kernel =
  mk_sys :: "'w sys_kernel"
  mk_calloc :: "'w midi \<Rightarrow> nat option \<times> 'w"
  mk_params :: "int \<Rightarrow> rawmidi_params \<Rightarrow> 'w \<Rightarrow> int \<times> rawmidi_params \<times> 'w"

abbreviation (input) MIDI_OUTPUT :: int where "MIDI_OUTPUT \<equiv> 0"
abbreviation (input) MIDI_INPUT :: int where "MIDI_INPUT \<equiv> 1"

definition with_sys :: "'w sys \<Rightarrow> 'w midi \<Rightarrow> 'w midi" where
  "with_sys t s = s\<lparr>midi_sys := t\<rparr>"

definition midi_calloc :: "'w midi_kernel \<Rightarrow> 'w midi \<Rightarrow> nat option \<times> 'w midi" where
  "midi_calloc k s = (case mk_calloc k s of (a, w) \<Rightarrow> (a, s\<lparr>midi_sys := (midi_sys s)\<lparr>sys_world := w\<rparr>\<rparr>))"

section \<open>Calls on a handle\<close>

text \<open>\<open>params\<close> is an object of the caller; the kernel may change it.\<close>

definition snd_rawmidi_params :: "'w midi_kernel \<Rightarrow> snd_rawmidi \<Rightarrow> rawmidi_params \<Rightarrow> 'w sys \<Rightarrow> int \<times> snd_rawmidi \<times> rawmidi_params \<times> 'w sys" where
  "snd_rawmidi_params k rmidi params s =
     (case ioctl_object (mk_params k) (rm_fd rmidi) (params\<lparr>rp_stream := rm_stream rmidi\<rparr>) s of (r, params, s) \<Rightarrow>
        (r, if r < 0 then rmidi else rmidi\<lparr>rm_params := params\<rparr>, params, s))"

text \<open>The call with the parameters of the handle itself: they are changed in place.\<close>

definition rawmidi_params_self :: "'w midi_kernel \<Rightarrow> snd_rawmidi \<Rightarrow> 'w sys \<Rightarrow> int \<times> snd_rawmidi \<times> 'w sys" where
  "rawmidi_params_self k rmidi s =
     (case ioctl_object (mk_params k) (rm_fd rmidi) ((rm_params rmidi)\<lparr>rp_stream := rm_stream rmidi\<rparr>) s of (r, params, s) \<Rightarrow>
        (r, rmidi\<lparr>rm_params := params\<rparr>, s))"

definition snd_rawmidi_params_current :: "snd_rawmidi \<Rightarrow> int \<times> rawmidi_params" where
  "snd_rawmidi_params_current rmidi = (0, rm_params rmidi)"

definition snd_rawmidi_info0 :: "(int \<Rightarrow> snd_rawmidi_info \<Rightarrow> 'w \<Rightarrow> int \<times> snd_rawmidi_info \<times> 'w) \<Rightarrow> snd_rawmidi \<Rightarrow> snd_rawmidi_info \<Rightarrow> 'w sys \<Rightarrow>
    int \<times> snd_rawmidi_info \<times> 'w sys" where
  "snd_rawmidi_info0 io rmidi info s = ioctl_object io (rm_fd rmidi) (info\<lparr>ri_stream := rm_stream rmidi\<rparr>) s"

definition snd_rawmidi_status :: "(int \<Rightarrow> rawmidi_status \<Rightarrow> 'w \<Rightarrow> int \<times> rawmidi_status \<times> 'w) \<Rightarrow> snd_rawmidi \<Rightarrow> rawmidi_status \<Rightarrow> 'w sys \<Rightarrow>
    int \<times> rawmidi_status \<times> 'w sys" where
  "snd_rawmidi_status io rmidi st s = ioctl_object io (rm_fd rmidi) (st\<lparr>rs_stream := rm_stream rmidi\<rparr>) s"

text \<open>The two requests pass the direction in a variable.\<close>

definition snd_rawmidi_drain :: "(int \<Rightarrow> int \<Rightarrow> 'w \<Rightarrow> int \<times> int \<times> 'w) \<Rightarrow> snd_rawmidi \<Rightarrow> 'w sys \<Rightarrow> int \<times> 'w sys" where
  "snd_rawmidi_drain io rmidi s = (case ioctl_object io (rm_fd rmidi) (rm_stream rmidi) s of (r, _, s) \<Rightarrow> (r, s))"

definition snd_rawmidi_drop :: "(int \<Rightarrow> int \<Rightarrow> 'w \<Rightarrow> int \<times> int \<times> 'w) \<Rightarrow> snd_rawmidi \<Rightarrow> 'w sys \<Rightarrow> int \<times> 'w sys" where
  "snd_rawmidi_drop io rmidi s = (case ioctl_object io (rm_fd rmidi) (rm_stream rmidi) s of (r, _, s) \<Rightarrow> (r, s))"

definition snd_rawmidi_write :: "(int \<Rightarrow> u8 list \<Rightarrow> 'w \<Rightarrow> int \<times> 'w) \<Rightarrow> snd_rawmidi \<Rightarrow> u8 list \<Rightarrow> 'w sys \<Rightarrow> int \<times> 'w sys" where
  "snd_rawmidi_write io rmidi buf s = sys_write io (rm_fd rmidi) buf s"

definition snd_rawmidi_read :: "(int \<Rightarrow> u64 \<Rightarrow> 'w \<Rightarrow> int \<times> u8 list \<times> 'w) \<Rightarrow> snd_rawmidi \<Rightarrow> u64 \<Rightarrow> 'w sys \<Rightarrow> int \<times> u8 list \<times> 'w sys" where
  "snd_rawmidi_read io rmidi n s = sys_read io (rm_fd rmidi) n s"

definition snd_rawmidi_set_nonblock :: "'w sys_kernel \<Rightarrow> snd_rawmidi \<Rightarrow> int \<Rightarrow> 'w sys \<Rightarrow> int \<times> 'w sys" where
  "snd_rawmidi_set_nonblock k rmidi nonblock s = snd_set_nonblock k (rm_fd rmidi) nonblock s"

definition snd_rawmidi_poll_descriptors_count :: "snd_rawmidi \<Rightarrow> int" where
  "snd_rawmidi_poll_descriptors_count rmidi = 1"

definition snd_rawmidi_poll_descriptors :: "snd_rawmidi \<Rightarrow> pollfd list \<Rightarrow> u32 \<Rightarrow> (int \<times> pollfd list) option" where
  "snd_rawmidi_poll_descriptors rmidi pfds space = do { pfds \<leftarrow> array_set pfds 0 (rm_pollfd rmidi); Some (1, pfds) }"

definition snd_rawmidi_poll_descriptors_revents :: "snd_rawmidi \<Rightarrow> pollfd list \<Rightarrow> u32 \<Rightarrow> (int \<times> u16) option" where
  "snd_rawmidi_poll_descriptors_revents rawmidi pfds nfds = do { p \<leftarrow> array_get pfds 0; Some (0, pfd_events p) }"

definition rawmidi_device :: "snd_rawmidi \<Rightarrow> 'w midi \<Rightarrow> rawmidi_hw option" where
  "rawmidi_device rmidi s = do { h \<leftarrow> rm_hw rmidi; midi_hws s h }"

definition snd_rawmidi_name :: "snd_rawmidi \<Rightarrow> 'w midi \<Rightarrow> string option option" where
  "snd_rawmidi_name rmidi s = map_option rh_name (rawmidi_device rmidi s)"

definition snd_rawmidi_type :: "snd_rawmidi \<Rightarrow> 'w midi \<Rightarrow> int option" where
  "snd_rawmidi_type rmidi s = map_option rh_type (rawmidi_device rmidi s)"

definition snd_rawmidi_stream :: "snd_rawmidi \<Rightarrow> int" where
  "snd_rawmidi_stream rmidi = rm_stream rmidi"

section \<open>Closing\<close>

text \<open>A device that no handle uses any more is closed and freed.\<close>

definition release_hw :: "'w midi_kernel \<Rightarrow> nat \<Rightarrow> 'w midi \<Rightarrow> 'w midi option" where
  "release_hw k h s = do {
     x \<leftarrow> midi_hws s h;
     let x = x\<lparr>rh_opened := rh_opened x - 1\<rparr>;
     Some (if rh_opened x = 0
           then (case sys_close (mk_sys k) (rh_fd x) (midi_sys s) of (_, t) \<Rightarrow> s\<lparr>midi_hws := (midi_hws s)(h := None), midi_sys := t\<rparr>)
           else s\<lparr>midi_hws := (midi_hws s)(h \<mapsto> x)\<rparr>) }"

definition snd_rawmidi_close :: "'w midi_kernel \<Rightarrow> nat \<Rightarrow> 'w midi \<Rightarrow> (int \<times> 'w midi) option" where
  "snd_rawmidi_close k a s = do {
     rmidi \<leftarrow> midi_handles s a;
     s \<leftarrow> (case rm_hw rmidi of Some h \<Rightarrow> release_hw k h s | None \<Rightarrow> Some s);
     Some (0, s\<lparr>midi_handles := (midi_handles s)(a := None)\<rparr>) }"

section \<open>Opening\<close>

text \<open>The number of the subdevice, or \<open>- 1\<close>.\<close>

definition get_rawmidi_subdev :: "'w sys_kernel \<Rightarrow> int \<Rightarrow> u32 \<Rightarrow> 'w sys \<Rightarrow> int \<times> 'w sys" where
  "get_rawmidi_subdev k fd fmode s =
     (let stream = (if fmode AND O_ACCMODE \<noteq> O_RDONLY then MIDI_OUTPUT else MIDI_INPUT);
          (r, sub, s) = sys_subdevice k fd (RAWMIDI_INFO stream) s
      in if r < 0 then (- 1, s) else (sub, s))"

definition zero_midi_params :: rawmidi_params where
  "zero_midi_params = \<lparr>rp_stream = 0, rp_buffer_size = 4096, rp_avail_min = 1, rp_no_active_sensing = True\<rparr>"

definition fresh_rmidi :: "nat \<Rightarrow> rawmidi_hw \<Rightarrow> int \<Rightarrow> u32 \<Rightarrow> snd_rawmidi" where
  "fresh_rmidi h x stream mode = \<lparr>rm_fd = rh_fd x, rm_stream = stream, rm_mode = mode,
     rm_pollfd = \<lparr>pfd_fd = rh_fd x, pfd_events = (if stream = MIDI_OUTPUT then EV_OUT OR EV_ERR OR EV_NVAL else EV_IN OR EV_ERR OR EV_NVAL), pfd_revents = 0\<rparr>,
     rm_params = zero_midi_params, rm_hw = Some h\<rparr>"

definition new_rmidi :: "'w midi_kernel \<Rightarrow> nat \<Rightarrow> int \<Rightarrow> u32 \<Rightarrow> 'w midi \<Rightarrow> (nat option \<times> 'w midi) option" where
  "new_rmidi k h stream mode s =
     (case midi_calloc k s of
        (None, s) \<Rightarrow> Some (None, s)
      | (Some a, s) \<Rightarrow> do {
          x \<leftarrow> midi_hws s h;
          let s = s\<lparr>midi_hws := (midi_hws s)(h \<mapsto> x\<lparr>rh_opened := rh_opened x + 1\<rparr>)\<rparr>;
          let (_, rmidi, t) = rawmidi_params_self k (fresh_rmidi h x stream mode) (midi_sys s);
          Some (Some a, s\<lparr>midi_handles := (midi_handles s)(a \<mapsto> rmidi), midi_sys := t\<rparr>) })"

text \<open>The flags of \<^verbatim>\<open>open\<close>; the arguments tell whether the pointers for the two handles are not null.\<close>

definition midi_open_flags :: "bool \<Rightarrow> bool \<Rightarrow> u32 \<Rightarrow> u32" where
  "midi_open_flags inp outp mode =
     (let fmode = (if \<not> inp then O_WRONLY else if \<not> outp then O_RDONLY else O_RDWR);
          fmode = (if mode AND 1 \<noteq> 0 then fmode OR O_APPEND else fmode);
          fmode = (if mode AND 2 \<noteq> 0 then fmode OR O_NONBLOCK else fmode)
      in if mode AND 4 \<noteq> 0 then fmode OR O_SYNC else fmode)"

text \<open>The descriptor of the device, or an error.\<close>

definition open_midi_fd :: "'w sys_kernel \<Rightarrow> string \<Rightarrow> u32 \<Rightarrow> int \<Rightarrow> int \<Rightarrow> 'w sys \<Rightarrow> (int \<times> 'w sys) option" where
  "open_midi_fd k filename fmode crd subdev s =
     (if subdev \<ge> 0 then do {
        (fd, s) \<leftarrow> snd_open_subdev k filename fmode crd (RAWMIDI_PREFER_SUBDEVICE subdev) s;
        (if fd < 0 then Some (fd, s)
         else let (sub, s) = get_rawmidi_subdev k fd fmode s
           in if sub \<noteq> subdev then (case sys_close k fd s of (_, s) \<Rightarrow> Some (- EBUSY, s)) else Some (fd, s)) }
      else let (fd, s) = sys_open k filename fmode s in Some (if fd < 0 then - sys_errno s else fd, s))"

text \<open>The error exit: the handle for input is closed when there is one, and then the descriptor.\<close>

definition midi_open_error :: "'w midi_kernel \<Rightarrow> int \<Rightarrow> int \<Rightarrow> nat option \<Rightarrow> 'w midi \<Rightarrow> (int \<times> nat option \<times> nat option \<times> 'w midi) option" where
  "midi_open_error k err fd in_rmidi s = do {
     s \<leftarrow> (case in_rmidi of Some a \<Rightarrow> do { (_, s) \<leftarrow> snd_rawmidi_close k a s; Some s } | None \<Rightarrow> Some s);
     (case sys_close (mk_sys k) fd (midi_sys s) of (_, t) \<Rightarrow> Some (err, None, None, with_sys t s)) }"

text \<open>The handles on a device.\<close>

definition open_handles :: "'w midi_kernel \<Rightarrow> nat \<Rightarrow> int \<Rightarrow> bool \<Rightarrow> bool \<Rightarrow> u32 \<Rightarrow> 'w midi \<Rightarrow> (int \<times> nat option \<times> nat option \<times> 'w midi) option" where
  "open_handles k h fd inp outp mode s = do {
     (i, s) \<leftarrow> (if inp then new_rmidi k h MIDI_INPUT mode s else Some (None, s));
     (if inp \<and> i = None then midi_open_error k (- ENOMEM) fd None s
      else do {
        (out, s) \<leftarrow> (if outp then new_rmidi k h MIDI_OUTPUT mode s else Some (None, s));
        (if outp \<and> out = None then midi_open_error k (- ENOMEM) fd i s else Some (0, i, out, s)) }) }"

definition snd_rawmidi_open ::
  "'w midi_kernel \<Rightarrow> snd_ctl_card_info \<Rightarrow> bool \<Rightarrow> bool \<Rightarrow> string \<Rightarrow> u32 \<Rightarrow> 'w midi \<Rightarrow> (int \<times> nat option \<times> nat option \<times> 'w midi) option" where
  "snd_rawmidi_open k uninit inp outp name mode s = do {
     (err, crd, d, sub, t) \<leftarrow> snd_dev_get_device (mk_sys k) uninit name True True (midi_sys s);
     d \<leftarrow> d; subdev \<leftarrow> sub;
     let s = with_sys t s;
     (if err < 0 then Some (err, None, None, s)
      else do {
        let fmode = midi_open_flags inp outp mode;
        (fd, t) \<leftarrow> open_midi_fd (mk_sys k) (device_file (mk_sys k) (''/midiC'' @ show_int crd @ ''D'' @ show_int d)) fmode crd subdev t;
        let s = with_sys t s;
        (if fd < 0 then Some (fd, None, None, s)
         else let (r, ver, t) = sys_version (mk_sys k) fd RAWMIDI_PVERSION t;
                  s = with_sys t s
           in if r < 0 then midi_open_error k (- sys_errno t) fd None s
              else (case midi_calloc k s of
                  (None, s) \<Rightarrow> midi_open_error k (- ENOMEM) fd None s
                | (Some h, s) \<Rightarrow>
                    let (dup, t) = sys_calloc (mk_sys k) (midi_sys s);
                        x = \<lparr>rh_name = (if dup then Some name else None), rh_fd = fd, rh_type = 0, rh_opened = 0\<rparr>;
                        s = s\<lparr>midi_hws := (midi_hws s)(h \<mapsto> x), midi_sys := t\<rparr>
                    in open_handles k h fd inp outp mode s)) }) }"

section \<open>The count of the handles\<close>

text \<open>Every device counts the handles that point to it, and every handle points to a device.\<close>

definition users :: "'w midi \<Rightarrow> nat \<Rightarrow> nat set" where
  "users s h = {a. \<exists>m. midi_handles s a = Some m \<and> rm_hw m = Some h}"

definition midi_ok :: "'w midi \<Rightarrow> bool" where
  "midi_ok s \<longleftrightarrow> finite (dom (midi_handles s)) \<and>
     (\<forall>a m. midi_handles s a = Some m \<longrightarrow> (\<exists>h. rm_hw m = Some h \<and> midi_hws s h \<noteq> None)) \<and>
     (\<forall>h x. midi_hws s h = Some x \<longrightarrow> rh_opened x = int (card (users s h)))"

definition fresh_calloc :: "'w midi_kernel \<Rightarrow> bool" where
  "fresh_calloc k \<longleftrightarrow> (\<forall>s a w. mk_calloc k s = (Some a, w) \<longrightarrow> midi_handles s a = None \<and> midi_hws s a = None)"

lemma midi_okI:
  assumes "finite (dom (midi_handles s))" "\<And>a m. midi_handles s a = Some m \<Longrightarrow> \<exists>h. rm_hw m = Some h \<and> midi_hws s h \<noteq> None"
    "\<And>h x. midi_hws s h = Some x \<Longrightarrow> rh_opened x = int (card (users s h))"
  shows "midi_ok s"
  using assms unfolding midi_ok_def by blast

lemma midi_okD:
  assumes "midi_ok s"
  shows "finite (dom (midi_handles s))" "midi_handles s a = Some m \<Longrightarrow> \<exists>h. rm_hw m = Some h \<and> midi_hws s h \<noteq> None"
    "midi_hws s h = Some x \<Longrightarrow> rh_opened x = int (card (users s h))"
  using assms unfolding midi_ok_def by blast+

lemma users_finite: "midi_ok s \<Longrightarrow> finite (users s h)"
  by (rule finite_subset [of _ "dom (midi_handles s)"]) (auto simp: users_def midi_ok_def)

lemma midi_ok_sys [simp]: "midi_ok (s\<lparr>midi_sys := t\<rparr>) \<longleftrightarrow> midi_ok s" "midi_ok (with_sys t s) \<longleftrightarrow> midi_ok s"
  by (simp_all add: midi_ok_def users_def with_sys_def)

lemma with_sys_heaps [simp]: "midi_handles (with_sys t s) = midi_handles s" "midi_hws (with_sys t s) = midi_hws s" "midi_sys (with_sys t s) = t"
  by (simp_all add: with_sys_def)

lemma users_close: "users (s\<lparr>midi_handles := (midi_handles s)(a := None), midi_hws := hws, midi_sys := t\<rparr>) h = users s h - {a}"
  by (auto simp: users_def)

lemma close_handle:
  assumes "midi_ok s" "midi_handles s a = Some m"
  obtains h x s' where "rm_hw m = Some h" "midi_hws s h = Some x" "snd_rawmidi_close k a s = Some (0, s')" "midi_ok s'"
    "midi_handles s' = (midi_handles s)(a := None)"
    "if users s h = {a} then midi_hws s' = (midi_hws s)(h := None) \<and> midi_sys s' = snd (sys_close (mk_sys k) (rh_fd x) (midi_sys s))
     else midi_hws s' = (midi_hws s)(h \<mapsto> x\<lparr>rh_opened := rh_opened x - 1\<rparr>) \<and> midi_sys s' = midi_sys s"
proof -
  obtain h x where h: "rm_hw m = Some h" "midi_hws s h = Some x" using midi_okD(2) [OF assms] by blast
  have a: "a \<in> users s h" using assms(2) h(1) by (auto simp: users_def)
  have fin: "finite (users s h)" by (rule users_finite [OF assms(1)])
  have n: "rh_opened x = int (card (users s h))" using assms(1) h(2) by (auto simp: midi_ok_def)
  have one: "card (users s h) = 1 \<longleftrightarrow> users s h = {a}" using a by (auto simp: card_1_singleton_iff)
  have dec: "card (users s h - {a}) = card (users s h) - 1" using a fin by simp
  have pos: "0 < card (users s h)" using a fin by (auto simp: card_gt_0_iff)
  have other: "users s h' - {a} = users s h'" if "h' \<noteq> h" for h' using assms(2) h(1) that by (auto simp: users_def)
  show ?thesis
  proof (cases "users s h = {a}")
    case True
    obtain r t where c: "sys_close (mk_sys k) (rh_fd x) (midi_sys s) = (r, t)" by fastforce
    define s' where "s' = s\<lparr>midi_handles := (midi_handles s)(a := None), midi_hws := (midi_hws s)(h := None), midi_sys := t\<rparr>"
    have cl: "snd_rawmidi_close k a s = Some (0, s')"
      using assms(2) h n one True c by (simp add: snd_rawmidi_close_def release_hw_def s'_def)
    have u: "users s' h' = users s h' - {a}" for h' unfolding s'_def by (rule users_close)
    have "midi_ok s'"
    proof (intro midi_okI)
      show "finite (dom (midi_handles s'))" using midi_okD(1) [OF assms(1)] by (simp add: s'_def)
    next
      fix b m'
      assume b: "midi_handles s' b = Some m'"
      then have "midi_handles s b = Some m'" "b \<noteq> a" by (auto simp: s'_def split: if_splits)
      moreover from this have "rm_hw m' \<noteq> Some h" using True by (auto simp: users_def)
      ultimately show "\<exists>h. rm_hw m' = Some h \<and> midi_hws s' h \<noteq> None" using midi_okD(2) [OF assms(1), of b m'] by (auto simp: s'_def)
    next
      fix h' y
      assume "midi_hws s' h' = Some y"
      then show "rh_opened y = int (card (users s' h'))"
        using u midi_okD(3) [OF assms(1), of h' y] other [of h'] by (auto simp: s'_def split: if_splits)
    qed
    with cl show ?thesis using that [of h x s'] h True c by (simp add: s'_def)
  next
    case False
    define s' where "s' = s\<lparr>midi_handles := (midi_handles s)(a := None), midi_hws := (midi_hws s)(h \<mapsto> x\<lparr>rh_opened := rh_opened x - 1\<rparr>), midi_sys := midi_sys s\<rparr>"
    have "rh_opened x - 1 \<noteq> 0" using n one False by simp
    then have cl: "snd_rawmidi_close k a s = Some (0, s')"
      using assms(2) h by (simp add: snd_rawmidi_close_def release_hw_def s'_def)
    have u: "users s' h' = users s h' - {a}" for h' unfolding s'_def by (rule users_close)
    have "rh_opened y = int (card (users s' h'))" if "midi_hws s' h' = Some y" for h' y
    proof (cases "h' = h")
      case True
      then show ?thesis using that n pos dec u by (auto simp: s'_def of_nat_diff)
    next
      case False
      then show ?thesis using that u other [OF False] midi_okD(3) [OF assms(1), of h' y] by (simp add: s'_def)
    qed
    moreover have "\<exists>h. rm_hw m' = Some h \<and> midi_hws s' h \<noteq> None" if "midi_handles s' b = Some m'" for b m'
      using that midi_okD(2) [OF assms(1), of b m'] by (auto simp: s'_def split: if_splits)
    moreover have "finite (dom (midi_handles s'))" using midi_okD(1) [OF assms(1)] by (simp add: s'_def)
    ultimately have "midi_ok s'" by (intro midi_okI)
    with cl show ?thesis using that [of h x s'] h False by (simp add: s'_def)
  qed
qed

text \<open>A new handle.\<close>

lemma midi_calloc_heaps:
  assumes "fresh_calloc k" "midi_calloc k s = (q, s')"
  shows "midi_handles s' = midi_handles s" "midi_hws s' = midi_hws s" "midi_ok s' = midi_ok s" "sys_fds (midi_sys s') = sys_fds (midi_sys s)"
    "q = Some a \<Longrightarrow> midi_handles s a = None \<and> midi_hws s a = None"
  using assms by (auto simp: midi_calloc_def fresh_calloc_def split: prod.splits)

lemma new_handle:
  assumes "fresh_calloc k" "midi_ok s" "midi_hws s h = Some x" "new_rmidi k h stream mode s = Some (q, s')"
  shows "midi_ok s' \<and> sys_fds (midi_sys s') = sys_fds (midi_sys s) \<and>
    (case q of
       None \<Rightarrow> midi_handles s' = midi_handles s \<and> midi_hws s' = midi_hws s
     | Some a \<Rightarrow> midi_handles s a = None \<and> (\<exists>m. midi_handles s' = (midi_handles s)(a \<mapsto> m) \<and> rm_hw m = Some h \<and> rm_fd m = rh_fd x \<and> rm_stream m = stream) \<and>
         midi_hws s' = (midi_hws s)(h \<mapsto> x\<lparr>rh_opened := rh_opened x + 1\<rparr>))"
proof -
  obtain p s1 where c: "midi_calloc k s = (p, s1)" by fastforce
  note c' = midi_calloc_heaps [OF assms(1) c]
  show ?thesis
  proof (cases p)
    case None
    then show ?thesis using assms(2,4) c c' by (simp add: new_rmidi_def)
  next
    case (Some a)
    obtain r m t where p: "rawmidi_params_self k (fresh_rmidi h x stream mode) (midi_sys s1) = (r, m, t)" by (metis prod_cases3)
    then have m: "rm_hw m = Some h" "rm_fd m = rh_fd x" "rm_stream m = stream" and t: "sys_fds t = sys_fds (midi_sys s1)"
      by (auto simp: rawmidi_params_self_def fresh_rmidi_def ioctl_object_def sys_result_def split: prod.splits if_splits)
    have a: "midi_handles s a = None" using c'(5) Some by simp
    define s2 where "s2 = s1\<lparr>midi_hws := (midi_hws s)(h \<mapsto> x\<lparr>rh_opened := rh_opened x + 1\<rparr>), midi_handles := (midi_handles s)(a \<mapsto> m), midi_sys := t\<rparr>"
    have e: "q = Some a" "s' = s2" using assms(3,4) c c' Some p by (auto simp: new_rmidi_def s2_def)
    have u: "users s2 h' = (if h' = h then insert a (users s h) else users s h')" for h'
      using a m by (auto simp: users_def s2_def split: if_splits)
    have na: "a \<notin> users s h" using a by (simp add: users_def)
    have "rh_opened y = int (card (users s2 h'))" if "midi_hws s2 h' = Some y" for h' y
      using that u assms(3) midi_okD(3) [OF assms(2)] na users_finite [OF assms(2), of h] by (auto simp: s2_def split: if_splits)
    moreover have "\<exists>h. rm_hw m' = Some h \<and> midi_hws s2 h \<noteq> None" if "midi_handles s2 b = Some m'" for b m'
      using that midi_okD(2) [OF assms(2), of b m'] m by (auto simp: s2_def split: if_splits)
    moreover have "finite (dom (midi_handles s2))" using midi_okD(1) [OF assms(2)] by (simp add: s2_def)
    ultimately have "midi_ok s2" by (intro midi_okI)
    then show ?thesis using e a m t c' by (auto simp: s2_def)
  qed
qed

lemma open_error_ok:
  assumes "midi_ok s" "\<And>a. i = Some a \<Longrightarrow> midi_handles s a \<noteq> None" "midi_open_error k err fd i s = Some (e, i', out', s')"
  shows "midi_ok s' \<and> e = err \<and> i' = None \<and> out' = None \<and> midi_handles s' = midi_handles s |` (- set_option i)"
proof (cases i)
  case None
  then show ?thesis using assms(1,3) by (auto simp: midi_open_error_def split: prod.splits)
next
  case (Some a)
  then obtain m where "midi_handles s a = Some m" using assms(2) by blast
  from close_handle [OF assms(1) this, of k] obtain s1 where "snd_rawmidi_close k a s = Some (0, s1)" "midi_ok s1"
    "midi_handles s1 = (midi_handles s)(a := None)" by metis
  then show ?thesis using assms(3) Some by (auto simp: midi_open_error_def restrict_map_def fun_eq_iff split: prod.splits)
qed

lemma maybe_handle:
  assumes "fresh_calloc k" "midi_ok s" "midi_hws s h = Some x" "(if b then new_rmidi k h stream mode s else Some (None, s)) = Some (q, s')"
  shows "midi_ok s'" "midi_handles s' |` (- set_option q) = midi_handles s" "users s' h = set_option q \<union> users s h" "q \<noteq> None \<Longrightarrow> b"
    "\<exists>x'. midi_hws s' h = Some x' \<and> rh_opened x' = rh_opened x + of_bool (q \<noteq> None)" "q = Some a \<Longrightarrow> midi_handles s' a \<noteq> None"
proof -
  consider (skip) "q = None" "s' = s" | (none) "q = None" "midi_ok s'" "midi_handles s' = midi_handles s" "midi_hws s' = midi_hws s"
    | (made) c m where "b" "q = Some c" "midi_ok s'" "midi_handles s c = None" "midi_handles s' = (midi_handles s)(c \<mapsto> m)" "rm_hw m = Some h"
        "midi_hws s' = (midi_hws s)(h \<mapsto> x\<lparr>rh_opened := rh_opened x + 1\<rparr>)"
  proof (cases b)
    case False
    then show ?thesis using assms(4) that(1) by simp
  next
    case True
    then have "new_rmidi k h stream mode s = Some (q, s')" using assms(4) by simp
    note n = new_handle [OF assms(1-3) this]
    show ?thesis
    proof (cases q)
      case None
      then show ?thesis using n that(2) by simp
    next
      case (Some c)
      then show ?thesis using n True that(3) [of c] by auto
    qed
  qed
  then have "midi_ok s' \<and> midi_handles s' |` (- set_option q) = midi_handles s \<and> users s' h = set_option q \<union> users s h \<and> (q \<noteq> None \<longrightarrow> b) \<and>
     (\<exists>x'. midi_hws s' h = Some x' \<and> rh_opened x' = rh_opened x + of_bool (q \<noteq> None)) \<and> (q = Some a \<longrightarrow> midi_handles s' a \<noteq> None)"
  proof cases
    case skip
    then show ?thesis using assms(2,3) by (auto simp: restrict_map_def)
  next
    case none
    then show ?thesis using assms(3) by (auto simp: restrict_map_def users_def)
  next
    case made
    then have "midi_handles s' |` (- set_option q) = midi_handles s" by (auto simp: restrict_map_def fun_eq_iff)
    moreover have "users s' h = set_option q \<union> users s h" using made by (auto simp: users_def split: if_splits)
    ultimately show ?thesis using made by auto
  qed
  then show "midi_ok s'" "midi_handles s' |` (- set_option q) = midi_handles s" "users s' h = set_option q \<union> users s h" "q \<noteq> None \<Longrightarrow> b"
    "\<exists>x'. midi_hws s' h = Some x' \<and> rh_opened x' = rh_opened x + of_bool (q \<noteq> None)" "q = Some a \<Longrightarrow> midi_handles s' a \<noteq> None"
    by blast+
qed

lemma open_handles_ok:
  assumes "fresh_calloc k" "midi_ok s" "midi_hws s h = Some x" "rh_opened x = 0" "open_handles k h fd inp outp mode s = Some (err, i, out, s')"
  shows "midi_ok s' \<and> (if err < 0 then i = None \<and> out = None \<and> midi_handles s' = midi_handles s
     else err = 0 \<and> (i \<noteq> None \<longleftrightarrow> inp) \<and> (out \<noteq> None \<longleftrightarrow> outp) \<and> users s' h = set_option i \<union> set_option out \<and>
       (\<exists>x'. midi_hws s' h = Some x' \<and> rh_opened x' = of_bool inp + of_bool outp))"
proof -
  have u0: "users s h = {}" using midi_okD(3) [OF assms(2,3)] assms(4) users_finite [OF assms(2), of h] by simp
  obtain q s1 where n1: "(if inp then new_rmidi k h MIDI_INPUT mode s else Some (None, s)) = Some (q, s1)"
    using assms(5) by (auto simp: open_handles_def bind_eq_Some_conv simp del: if_split)
  note m1 = maybe_handle [OF assms(1-3) n1]
  obtain x1 where x1: "midi_hws s1 h = Some x1" "rh_opened x1 = of_bool (q \<noteq> None)" using m1(5) assms(4) by auto
  show ?thesis
  proof (cases "inp \<and> q = None")
    case True
    then have "midi_open_error k (- ENOMEM) fd None s1 = Some (err, i, out, s')" using assms(5) n1 by (simp add: open_handles_def)
    from open_error_ok [OF m1(1) _ this] show ?thesis using m1(2) True by (auto simp: restrict_map_def fun_eq_iff)
  next
    case False
    obtain p s2 where n2: "(if outp then new_rmidi k h MIDI_OUTPUT mode s1 else Some (None, s1)) = Some (p, s2)"
      using assms(5) False n1 by (auto simp: open_handles_def bind_eq_Some_conv simp del: if_split)
    note m2 = maybe_handle [OF assms(1) m1(1) x1(1) n2]
    show ?thesis
    proof (cases "outp \<and> p = None")
      case True
      then have e: "midi_open_error k (- ENOMEM) fd q s2 = Some (err, i, out, s')"
        using assms(5) False n1 n2 by (auto simp: open_handles_def)
      have h: "midi_handles s2 = midi_handles s1" using m2(2) True by (simp add: restrict_map_def)
      have "midi_handles s2 a \<noteq> None" if "q = Some a" for a using m1(6) that h by simp
      from open_error_ok [OF m2(1) this e] show ?thesis using h m1(2) by simp
    next
      case no: False
      have r: "err = 0" "i = q" "out = p" "s' = s2" using assms(5) n1 n2 False no by (auto simp: open_handles_def)
      have "(q \<noteq> None) = inp" "(p \<noteq> None) = outp" using False no m1(4) m2(4) by auto
      then show ?thesis using r m2(1,3,5) m1(3) u0 x1(2) by auto
    qed
  qed
qed

section \<open>Properties\<close>

text \<open>C21. Opening a MIDI device keeps the counts right, whatever the system calls and the allocator return: an error leaves no handle
  and every other one as it was; a success gives the handles that were asked for, which share one new device and are its only
  users.\<close>
theorem midi_open_counts:
  assumes "fresh_calloc k" "midi_ok s" "snd_rawmidi_open k uninit inp outp name mode s = Some (err, i, out, s')"
  shows "midi_ok s' \<and> (if err < 0 then i = None \<and> out = None \<and> midi_handles s' = midi_handles s
     else err = 0 \<and> (i \<noteq> None \<longleftrightarrow> inp) \<and> (out \<noteq> None \<longleftrightarrow> outp) \<and>
       (\<exists>h x. midi_hws s h = None \<and> midi_hws s' h = Some x \<and> users s' h = set_option i \<union> set_option out \<and> rh_opened x = of_bool inp + of_bool outp))"
proof -
  obtain err1 crd d sub t where g: "snd_dev_get_device (mk_sys k) uninit name True True (midi_sys s) = Some (err1, crd, Some d, Some sub, t)"
    using assms(3) by (auto simp: snd_rawmidi_open_def bind_eq_Some_conv)
  show ?thesis
  proof (cases "err1 < 0")
    case True
    then show ?thesis using assms(2,3) g by (auto simp: snd_rawmidi_open_def)
  next
    case e1: False
    obtain fd t1 where o: "open_midi_fd (mk_sys k) (device_file (mk_sys k) (''/midiC'' @ show_int crd @ ''D'' @ show_int d))
        (midi_open_flags inp outp mode) crd sub t = Some (fd, t1)"
      using assms(3) g e1 by (auto simp: snd_rawmidi_open_def bind_eq_Some_conv Let_def simp del: append_Cons)
    show ?thesis
    proof (cases "fd < 0")
      case True
      then show ?thesis using assms(2,3) g e1 o by (auto simp: snd_rawmidi_open_def simp del: append_Cons)
    next
      case fd: False
      obtain r ver t2 where v: "sys_version (mk_sys k) fd RAWMIDI_PVERSION t1 = (r, ver, t2)" by (metis prod_cases3)
      let ?s2 = "with_sys t2 (with_sys t1 (with_sys t s))"
      have ok2: "midi_ok ?s2" using assms(2) by simp
      show ?thesis
      proof (cases "r < 0")
        case True
        then have "midi_open_error k (- sys_errno t2) fd None ?s2 = Some (err, i, out, s')"
          using assms(3) g e1 o fd v by (simp add: snd_rawmidi_open_def del: append_Cons)
        from open_error_ok [OF ok2 _ this] show ?thesis using sys_version_fds [OF v] True by (auto simp: restrict_map_def fun_eq_iff)
      next
        case r: False
        obtain q s3 where c: "midi_calloc k ?s2 = (q, s3)" by fastforce
        note c' = midi_calloc_heaps [OF assms(1) c]
        show ?thesis
        proof (cases q)
          case None
          then have "midi_open_error k (- ENOMEM) fd None s3 = Some (err, i, out, s')"
            using assms(3) g e1 o fd v r c by (simp add: snd_rawmidi_open_def del: append_Cons)
          from open_error_ok [OF _ _ this] show ?thesis using c' ok2 by (auto simp: restrict_map_def fun_eq_iff)
        next
          case (Some h)
          obtain dup t3 where dup: "sys_calloc (mk_sys k) (midi_sys s3) = (dup, t3)" by fastforce
          define x where "x = \<lparr>rh_name = (if dup then Some name else None), rh_fd = fd, rh_type = 0, rh_opened = 0\<rparr>"
          define s4 where "s4 = s3\<lparr>midi_hws := (midi_hws s3)(h \<mapsto> x), midi_sys := t3\<rparr>"
          have h: "midi_hws s h = None" "midi_handles s4 = midi_handles s" "midi_hws s4 h = Some x" "rh_opened x = 0"
            using c' Some by (auto simp: s4_def x_def)
          have u: "users s4 h' = users s h'" for h' by (simp add: users_def h(2))
          have "users s h = {}" using midi_okD(2) [OF assms(2)] h(1) by (fastforce simp: users_def)
          note ok = midi_okD [OF assms(2)]
          have "midi_ok s4"
          proof (intro midi_okI)
            show "finite (dom (midi_handles s4))" using ok(1) h(2) by simp
            show "\<exists>h. rm_hw m = Some h \<and> midi_hws s4 h \<noteq> None" if "midi_handles s4 a = Some m" for a m
              using ok(2) [of a m] that h(2) c'(2) by (auto simp: s4_def)
            show "rh_opened y = int (card (users s4 h'))" if "midi_hws s4 h' = Some y" for h' y
              using that ok(3) [of h' y] u [of h'] \<open>users s h = {}\<close> c'(2) by (auto simp: s4_def x_def split: if_splits)
          qed
          have o4: "open_handles k h fd inp outp mode s4 = Some (err, i, out, s')"
            using assms(3) g e1 o fd v r c Some dup by (simp add: snd_rawmidi_open_def s4_def x_def Let_def del: append_Cons)
          note r = open_handles_ok [OF assms(1) \<open>midi_ok s4\<close> h(3,4) o4]
          show ?thesis
          proof (cases "err < 0")
            case True
            then show ?thesis using r h(2) by simp
          next
            case False
            with r obtain x' where "midi_hws s' h = Some x'" "rh_opened x' = of_bool inp + of_bool outp" by auto
            then show ?thesis using r False h(1) by auto
          qed
        qed
      qed
    qed
  qed
qed

text \<open>C30. Closing a MIDI handle always returns 0 and keeps the counts right; the device is closed and freed exactly when the handle
  was its last user.\<close>
theorem midi_close_last:
  assumes "midi_ok s" "midi_handles s a = Some m"
  shows "\<exists>h x s'. rm_hw m = Some h \<and> midi_hws s h = Some x \<and> snd_rawmidi_close k a s = Some (0, s') \<and> midi_ok s' \<and>
    midi_handles s' = (midi_handles s)(a := None) \<and>
    (if users s h = {a} then midi_hws s' = (midi_hws s)(h := None) \<and> rh_fd x \<notin> sys_fds (midi_sys s')
     else midi_hws s' h \<noteq> None \<and> midi_sys s' = midi_sys s)"
proof -
  from close_handle [OF assms, of k] obtain h x s' where c: "rm_hw m = Some h" "midi_hws s h = Some x" "snd_rawmidi_close k a s = Some (0, s')" "midi_ok s'"
    "midi_handles s' = (midi_handles s)(a := None)"
    "if users s h = {a} then midi_hws s' = (midi_hws s)(h := None) \<and> midi_sys s' = snd (sys_close (mk_sys k) (rh_fd x) (midi_sys s))
     else midi_hws s' = (midi_hws s)(h \<mapsto> x\<lparr>rh_opened := rh_opened x - 1\<rparr>) \<and> midi_sys s' = midi_sys s" by metis
  moreover have "rh_fd x \<notin> sys_fds (snd (sys_close (mk_sys k) (rh_fd x) (midi_sys s)))"
    using sys_close_fds [of "mk_sys k" "rh_fd x" "midi_sys s"] by (cases "sys_close (mk_sys k) (rh_fd x) (midi_sys s)") auto
  ultimately show ?thesis by (intro exI [of _ h] exI [of _ x] exI [of _ s']) (auto split: if_splits)
qed

text \<open>When there is no memory for the handle of a device opened for input only, the device that was allocated for it stays allocated although no
  handle points to it.\<close>
theorem midi_open_leaks_device:
  assumes "midi_hws s h = Some x" "fst (midi_calloc k s) = None"
  shows "\<exists>s'. open_handles k h fd True outp mode s = Some (- ENOMEM, None, None, s') \<and> midi_hws s' h = Some x \<and> midi_handles s' = midi_handles s"
proof -
  obtain s1 where c: "midi_calloc k s = (None, s1)" using assms(2) by (cases "midi_calloc k s") auto
  then have "midi_hws s1 = midi_hws s" "midi_handles s1 = midi_handles s" by (auto simp: midi_calloc_def split: prod.splits)
  with c assms(1) show ?thesis
    by (cases "sys_close (mk_sys k) fd (midi_sys s1)") (simp add: open_handles_def new_rmidi_def midi_open_error_def)
qed

text \<open>With both directions and no memory for the second handle the descriptor is closed twice.\<close>

lemma midi_open_double_close:
  assumes "midi_ok s" "midi_handles s a = Some m" "rm_hw m = Some h" "midi_hws s h = Some x" "users s h = {a}" "rh_fd x = fd"
  shows "\<exists>s'. midi_open_error k err fd (Some a) s = Some (err, None, None, s') \<and>
    midi_sys s' = snd (sys_close (mk_sys k) fd (snd (sys_close (mk_sys k) fd (midi_sys s))))"
proof -
  from close_handle [OF assms(1,2), of k] assms(3-6) obtain s1 where c: "snd_rawmidi_close k a s = Some (0, s1)"
    "midi_sys s1 = snd (sys_close (mk_sys k) fd (midi_sys s))" by (metis option.inject)
  obtain r t where "sys_close (mk_sys k) fd (midi_sys s1) = (r, t)" by fastforce
  with c show ?thesis by (simp add: midi_open_error_def)
qed

section \<open>Witnesses\<close>

text \<open>A machine with a few addresses; a handle for input is open at the address 1, on the device at the address 0.\<close>

definition plain_midi :: "nat \<Rightarrow> int midi_kernel" where
  "plain_midi n = \<lparr>mk_sys = plain_sys,
     mk_calloc = (\<lambda>s. (find (\<lambda>a. midi_handles s a = None \<and> midi_hws s a = None) [0..<n], sys_world (midi_sys s))),
     mk_params = (\<lambda>fd params w. (0, params, w))\<rparr>"

definition no_midi :: "int midi" where
  "no_midi = \<lparr>midi_hws = (\<lambda>a. None), midi_handles = (\<lambda>a. None), midi_sys = no_files\<rparr>"

definition midi_port :: rawmidi_hw where
  "midi_port = \<lparr>rh_name = Some ''hw'', rh_fd = 5, rh_type = 0, rh_opened = 1\<rparr>"

definition one_midi :: "int midi" where
  "one_midi = \<lparr>midi_hws = [0 \<mapsto> midi_port], midi_handles = [1 \<mapsto> fresh_rmidi 0 midi_port MIDI_INPUT 0], midi_sys = no_files\<lparr>sys_fds := {5}\<rparr>\<rparr>"

lemma plain_midi_fresh: "fresh_calloc (plain_midi n)"
  by (auto simp: fresh_calloc_def plain_midi_def find_Some_iff)

lemma no_midi_ok: "midi_ok no_midi"
  by (simp add: midi_ok_def no_midi_def)

lemma one_midi_users: "users one_midi h = (if h = 0 then {1} else {})"
  by (auto simp: users_def one_midi_def fresh_rmidi_def)

lemma one_midi_ok: "midi_ok one_midi"
  by (simp add: midi_ok_def one_midi_users) (simp add: one_midi_def fresh_rmidi_def midi_port_def)

theorem midi_open_counts_witness:
  "\<exists>i s'. snd_rawmidi_open (plain_midi 4) blank_card_info True False ''hw'' 0 no_midi = Some (0, Some i, None, s') \<and> midi_ok s' \<and>
     (\<exists>h x. midi_hws s' h = Some x \<and> users s' h = {i} \<and> rh_opened x = 1)"
proof -
  have d: "snd_dev_get_device plain_sys blank_card_info ''hw'' True True no_files = Some (0, 0, Some 0, Some (- 1), no_files)"
    by (simp add: snd_dev_get_device_def)
  have f: "device_file plain_sys (''/midiC'' @ show_int 0 @ ''D'' @ show_int 0) = ''/dev/snd/midiC0D0''"
    by (simp add: device_file_def snprintf_array_def plain_sys_def show_int_def show_nat_0)
  have o: "open_midi_fd plain_sys ''/dev/snd/midiC0D0'' fl 0 (- 1) no_files = Some (5, no_files\<lparr>sys_fds := {5}, sys_world := - 1\<rparr>)" for fl
    by (simp add: open_midi_fd_def sys_open_def plain_ops card_of_path_def two_cards_def sys_result_def no_files_def)
  have "\<exists>i s'. snd_rawmidi_open (plain_midi 4) blank_card_info True False ''hw'' 0 no_midi = Some (0, Some i, None, s')"
    using d f o
    by (simp add: snd_rawmidi_open_def open_handles_def new_rmidi_def midi_calloc_def plain_midi_def no_midi_def sys_version_def sys_calloc_def
        sys_result_def plain_ops2 rawmidi_params_self_def ioctl_object_def upt_rec with_sys_def Let_def del: append_Cons)
  then obtain i s' where r: "snd_rawmidi_open (plain_midi 4) blank_card_info True False ''hw'' 0 no_midi = Some (0, Some i, None, s')" by blast
  from midi_open_counts [OF plain_midi_fresh no_midi_ok r] r show ?thesis by auto
qed

theorem midi_close_last_witness:
  "\<exists>s'. snd_rawmidi_close (plain_midi 4) 1 one_midi = Some (0, s') \<and> midi_ok s' \<and> midi_hws s' 0 = None \<and> midi_handles s' 1 = None \<and>
     5 \<notin> sys_fds (midi_sys s')"
proof -
  have "midi_handles one_midi 1 = Some (fresh_rmidi 0 midi_port MIDI_INPUT 0)" "midi_hws one_midi 0 = Some midi_port" "rh_fd midi_port = 5"
    "rm_hw (fresh_rmidi 0 midi_port MIDI_INPUT 0) = Some 0" by (simp_all add: one_midi_def midi_port_def fresh_rmidi_def)
  with midi_close_last [OF one_midi_ok this(1), of "plain_midi 4"] one_midi_users [of 0] show ?thesis by auto
qed

theorem midi_open_leaks_device_witness:
  "\<exists>s'. open_handles (plain_midi 0) 0 5 True False 0 (one_midi\<lparr>midi_handles := (\<lambda>a. None)\<rparr>) = Some (- ENOMEM, None, None, s') \<and> midi_hws s' 0 \<noteq> None"
proof -
  let ?s = "one_midi\<lparr>midi_handles := (\<lambda>a. None)\<rparr>"
  have "midi_hws ?s 0 = Some midi_port" "fst (midi_calloc (plain_midi 0) ?s) = None"
    by (simp_all add: one_midi_def midi_calloc_def plain_midi_def)
  from midi_open_leaks_device [OF this, of 5 False 0] show ?thesis by auto
qed

end
