(* ===== verification/Pcm_Dump.thy ===== *)
theory Pcm_Dump
  imports Pcm_Objects Pcm_HwSpace Output Cards
begin

text \<open>
  The dumps of \<^verbatim>\<open>src/src/pcm.c\<close> (a stream, its setup and its status) and of \<^verbatim>\<open>src/src/pcm_params.c\<close> (a parameter space
  and the software parameters), written through an output handle of \<open>Output\<close>.

  The results of the output functions are not looked at.  A call is given the text its format and its arguments make; a
  string argument that is a null pointer has no text, and neither has a name read outside its table.  The text of \<^verbatim>\<open>%g\<close>
  for the quotient of two words is a parameter, where \<open>None\<close> stands for the constant \<^verbatim>\<open>0.0\<close>.
\<close>

section \<open>Output calls whose result is dropped\<close>

definition print_to :: "'w output_os \<Rightarrow> nat \<Rightarrow> string \<Rightarrow> 'w output_state \<Rightarrow> 'w output_state option" where
  "print_to os a cs s = do { (_, s) \<leftarrow> snd_output_printf os a cs s; Some s }"

definition puts_to :: "'w output_os \<Rightarrow> nat \<Rightarrow> string \<Rightarrow> 'w output_state \<Rightarrow> 'w output_state option" where
  "puts_to os a cs s = do { (_, s) \<leftarrow> snd_output_puts os a cs s; Some s }"

definition putc_to :: "'w output_os \<Rightarrow> nat \<Rightarrow> int \<Rightarrow> 'w output_state \<Rightarrow> 'w output_state option" where
  "putc_to os a c s = do { (_, s) \<leftarrow> snd_output_putc os a c s; Some s }"

text \<open>The conversions \<^verbatim>\<open>%u\<close> and \<^verbatim>\<open>%lu\<close>, the conversions \<^verbatim>\<open>%d\<close> and \<^verbatim>\<open>%ld\<close> of an unsigned argument, and \<^verbatim>\<open>%06ld\<close>.\<close>

definition fmt_u :: "'a::len word \<Rightarrow> string" where
  "fmt_u w = show_nat (unat w)"

definition fmt_d :: "'a::len word \<Rightarrow> string" where
  "fmt_d w = show_int (sint w)"

definition fmt_06ld :: "int \<Rightarrow> string" where
  "fmt_06ld i =
     (if i < 0 then CHR ''-'' # replicate (5 - length (show_nat (nat (- i)))) CHR ''0'' @ show_nat (nat (- i))
      else replicate (6 - length (show_nat (nat i))) CHR ''0'' @ show_nat (nat i))"

text \<open>A line \<^verbatim>\<open>"<label>%s\n"\<close>.\<close>

definition print_line :: "'w output_os \<Rightarrow> nat \<Rightarrow> string \<Rightarrow> string \<Rightarrow> 'w output_state \<Rightarrow> 'w output_state option" where
  "print_line os a label cs s = print_to os a (label @ cs @ [CHR 0x0A]) s"

section \<open>Parameter spaces\<close>

text \<open>The name \<^verbatim>\<open>s\<close> of the value \<open>i\<close> of a mask; the inner \<open>None\<close> is the \<^verbatim>\<open>continue\<close> of any other mask.\<close>

definition value_name :: "int \<Rightarrow> int \<Rightarrow> string option option" where
  "value_name var i =
     (if var = HW_ACCESS then map_option Some (snd_pcm_access_name i)
      else if var = HW_FORMAT then (case snd_pcm_format_name i of Some (Some n) \<Rightarrow> Some (Some n) | _ \<Rightarrow> None)
      else if var = HW_SUBFORMAT then map_option Some (snd_pcm_subformat_name i)
      else Some None)"

primrec mask_print_loop :: "'w output_os \<Rightarrow> nat \<Rightarrow> snd_mask \<Rightarrow> int \<Rightarrow> nat list \<Rightarrow> 'w output_state \<Rightarrow> 'w output_state option" where
  "mask_print_loop os a msk var [] s = Some s"
| "mask_print_loop os a msk var (i # is) s = do {
     t \<leftarrow> snd_mask_test msk (of_nat i);
     (if t = 0 then mask_print_loop os a msk var is s
      else do {
        nm \<leftarrow> value_name var (int i);
        (case nm of
           None \<Rightarrow> mask_print_loop os a msk var is s
         | Some n \<Rightarrow> do { s \<leftarrow> print_to os a ('' '' @ n) s; mask_print_loop os a msk var is s }) }) }"

definition snd_mask_print :: "'w output_os \<Rightarrow> nat \<Rightarrow> snd_mask \<Rightarrow> int \<Rightarrow> 'w output_state \<Rightarrow> 'w output_state option" where
  "snd_mask_print os a msk var s =
     (if snd_mask_empty msk then puts_to os a '' NONE'' s
      else if mask_is_full msk then puts_to os a '' ALL'' s
      else mask_print_loop os a msk var [0..<SND_MASK_MAX] s)"

definition interval_text :: "snd_interval \<Rightarrow> string" where
  "interval_text i =
     (if empty i then ''NONE''
      else if interval_is_full i then ''ALL''
      else if interval_is_single i \<and> integer i then fmt_u (imin i)
      else [if openmin i then CHR ''('' else CHR ''[''] @ fmt_u (imin i) @ '' '' @ fmt_u (imax i) @ [if openmax i then CHR '')'' else CHR '']''])"

definition snd_interval_print :: "'w output_os \<Rightarrow> nat \<Rightarrow> snd_interval \<Rightarrow> 'w output_state \<Rightarrow> 'w output_state option" where
  "snd_interval_print os a i s = print_to os a (interval_text i) s"

definition snd_pcm_hw_param_dump :: "'w output_os \<Rightarrow> nat \<Rightarrow> snd_pcm_hw_params \<Rightarrow> int \<Rightarrow> 'w output_state \<Rightarrow> 'w output_state option" where
  "snd_pcm_hw_param_dump os a params var s =
     (if hw_is_mask var then do { m \<leftarrow> hw_param_mask params var; snd_mask_print os a m var s }
      else if hw_is_interval var then do { i \<leftarrow> hw_param_interval params var; snd_interval_print os a i s }
      else Some s)"

text \<open>The numbers 3 to 7 have no name.\<close>

definition snd_pcm_hw_param_names :: "string option list" where
  "snd_pcm_hw_param_names = map Some [''ACCESS'', ''FORMAT'', ''SUBFORMAT''] @ replicate 5 None @
     map Some [''SAMPLE_BITS'', ''FRAME_BITS'', ''CHANNELS'', ''RATE'', ''PERIOD_TIME'', ''PERIOD_SIZE'', ''PERIOD_BYTES'', ''PERIODS'',
       ''BUFFER_TIME'', ''BUFFER_SIZE'', ''BUFFER_BYTES'', ''TICK_TIME'']"

definition dump_one_param :: "'w output_os \<Rightarrow> nat \<Rightarrow> snd_pcm_hw_params \<Rightarrow> nat \<Rightarrow> 'w output_state \<Rightarrow> 'w output_state option" where
  "dump_one_param os a params k s = do {
     nm \<leftarrow> array_get snd_pcm_hw_param_names k;
     n \<leftarrow> nm;
     s \<leftarrow> print_to os a (n @ '': '') s;
     s \<leftarrow> snd_pcm_hw_param_dump os a params (int k) s;
     putc_to os a 10 s }"

primrec dump_params_loop :: "'w output_os \<Rightarrow> nat \<Rightarrow> snd_pcm_hw_params \<Rightarrow> nat list \<Rightarrow> 'w output_state \<Rightarrow> 'w output_state option" where
  "dump_params_loop os a params [] s = Some s"
| "dump_params_loop os a params (k # ks) s = do { s \<leftarrow> dump_one_param os a params k s; dump_params_loop os a params ks s }"

definition snd_pcm_hw_params_dump :: "'w output_os \<Rightarrow> nat \<Rightarrow> snd_pcm_hw_params \<Rightarrow> 'w output_state \<Rightarrow> (int \<times> 'w output_state) option" where
  "snd_pcm_hw_params_dump os a params s = do {
     s \<leftarrow> dump_params_loop os a params [0..<3] s;
     s \<leftarrow> dump_params_loop os a params [8..<20] s;
     Some (0, s) }"

definition snd_pcm_sw_params_dump :: "'w output_os \<Rightarrow> nat \<Rightarrow> snd_pcm_sw_params \<Rightarrow> 'w output_state \<Rightarrow> (int \<times> 'w output_state) option" where
  "snd_pcm_sw_params_dump os a sw s = do {
     n \<leftarrow> snd_pcm_tstamp_mode_name (sw_tstamp_mode sw);
     s \<leftarrow> print_line os a ''tstamp_mode: '' n s;
     s \<leftarrow> print_line os a ''period_step: '' (fmt_u (sw_period_step sw)) s;
     s \<leftarrow> print_line os a ''sleep_min: '' (fmt_u (sw_sleep_min sw)) s;
     s \<leftarrow> print_line os a ''avail_min: '' (fmt_u (sw_avail_min sw)) s;
     s \<leftarrow> print_line os a ''xfer_align: '' (fmt_u (sw_xfer_align sw)) s;
     s \<leftarrow> print_line os a ''silence_threshold: '' (fmt_u (sw_silence_threshold sw)) s;
     s \<leftarrow> print_line os a ''silence_size: '' (fmt_u (sw_silence_size sw)) s;
     s \<leftarrow> print_line os a ''boundary: '' (fmt_u (sw_boundary sw)) s;
     Some (0, s) }"

section \<open>Streams\<close>

definition exact_rate :: "((u32 \<times> u32) option \<Rightarrow> string) \<Rightarrow> snd_pcm_hw_params \<Rightarrow> string" where
  "exact_rate fmt_g params =
     fmt_g (if hwp_rate_den params \<noteq> 0 then Some (hwp_rate_num params, hwp_rate_den params) else None) @
     '' ('' @ fmt_u (hwp_rate_num params) @ ''/'' @ fmt_u (hwp_rate_den params) @ '')''"

definition snd_pcm_dump_hw_setup :: "((u32 \<times> u32) option \<Rightarrow> string) \<Rightarrow> 'w output_os \<Rightarrow> nat \<Rightarrow> snd_pcm \<Rightarrow> 'w output_state \<Rightarrow>
    (int \<times> 'w output_state) option" where
  "snd_pcm_dump_hw_setup fmt_g os a pcm s = do {
     n \<leftarrow> snd_pcm_stream_name (pcm_stream pcm);
     s \<leftarrow> print_line os a ''  stream       : '' n s;
     n \<leftarrow> snd_pcm_access_name (uint (pcm_access pcm));
     s \<leftarrow> print_line os a ''  access       : '' n s;
     nm \<leftarrow> snd_pcm_format_name (sint (pcm_format pcm));
     n \<leftarrow> nm;
     s \<leftarrow> print_line os a ''  format       : '' n s;
     n \<leftarrow> snd_pcm_subformat_name (uint (pcm_subformat pcm));
     s \<leftarrow> print_line os a ''  subformat    : '' n s;
     s \<leftarrow> print_line os a ''  channels     : '' (fmt_u (pcm_channels pcm)) s;
     s \<leftarrow> print_line os a ''  rate         : '' (fmt_u (pcm_rate pcm)) s;
     s \<leftarrow> print_line os a ''  exact rate   : '' (exact_rate fmt_g (pcm_hw_params pcm)) s;
     s \<leftarrow> print_line os a ''  msbits       : '' (fmt_u (hwp_msbits (pcm_hw_params pcm))) s;
     s \<leftarrow> print_line os a ''  buffer_size  : '' (fmt_u (pcm_buffer_size pcm)) s;
     s \<leftarrow> print_line os a ''  period_size  : '' (fmt_u (pcm_period_size pcm)) s;
     s \<leftarrow> print_line os a ''  period_time  : '' (fmt_u (pcm_period_time pcm)) s;
     Some (0, s) }"

definition snd_pcm_dump_sw_setup :: "'w output_os \<Rightarrow> nat \<Rightarrow> snd_pcm \<Rightarrow> 'w output_state \<Rightarrow> (int \<times> 'w output_state) option" where
  "snd_pcm_dump_sw_setup os a pcm s = do {
     let sw = pcm_sw_params pcm;
     n \<leftarrow> snd_pcm_tstamp_mode_name (sw_tstamp_mode sw);
     s \<leftarrow> print_line os a ''  tstamp_mode  : '' n s;
     s \<leftarrow> print_line os a ''  period_step  : '' (fmt_d (sw_period_step sw)) s;
     s \<leftarrow> print_line os a ''  avail_min    : '' (fmt_d (sw_avail_min sw)) s;
     s \<leftarrow> print_line os a ''  start_threshold  : '' (fmt_d (sw_start_threshold sw)) s;
     s \<leftarrow> print_line os a ''  stop_threshold   : '' (fmt_d (sw_stop_threshold sw)) s;
     s \<leftarrow> print_line os a ''  silence_threshold: '' (fmt_d (sw_silence_threshold sw)) s;
     s \<leftarrow> print_line os a ''  silence_size : '' (fmt_d (sw_silence_size sw)) s;
     s \<leftarrow> print_line os a ''  boundary     : '' (fmt_d (sw_boundary sw)) s;
     Some (0, s) }"

definition snd_pcm_dump_setup :: "((u32 \<times> u32) option \<Rightarrow> string) \<Rightarrow> 'w output_os \<Rightarrow> nat \<Rightarrow> snd_pcm \<Rightarrow> 'w output_state \<Rightarrow>
    (int \<times> 'w output_state) option" where
  "snd_pcm_dump_setup fmt_g os a pcm s = do {
     (_, s) \<leftarrow> snd_pcm_dump_hw_setup fmt_g os a pcm s;
     (_, s) \<leftarrow> snd_pcm_dump_sw_setup os a pcm s;
     Some (0, s) }"

definition snd_pcm_status_dump :: "'w output_os \<Rightarrow> nat \<Rightarrow> snd_pcm_status \<Rightarrow> 'w output_state \<Rightarrow> (int \<times> 'w output_state) option" where
  "snd_pcm_status_dump os a st s = do {
     n \<leftarrow> snd_pcm_state_name (ps_state st);
     s \<leftarrow> print_line os a ''  state       : '' n s;
     let t = ps_trigger_tstamp st;
     s \<leftarrow> print_line os a ''  trigger_time: '' (show_int (tv_sec t) @ ''.'' @ fmt_06ld (tv_nsec t)) s;
     let t = ps_tstamp st;
     s \<leftarrow> print_line os a ''  tstamp      : '' (show_int (tv_sec t) @ ''.'' @ fmt_06ld (tv_nsec t)) s;
     s \<leftarrow> print_line os a ''  delay       : '' (show_int (ps_delay st)) s;
     s \<leftarrow> print_line os a ''  avail       : '' (fmt_d (ps_avail st)) s;
     s \<leftarrow> print_line os a ''  avail_max   : '' (fmt_d (ps_avail_max st)) s;
     Some (0, s) }"

text \<open>The card is asked for its name in the world that the handles of the output share.\<close>

definition snd_pcm_dump :: "((u32 \<times> u32) option \<Rightarrow> string) \<Rightarrow> 'w sys_kernel \<Rightarrow> snd_ctl_card_info \<Rightarrow> 'w output_os \<Rightarrow> nat \<Rightarrow> snd_pcm \<Rightarrow>
    'w sys \<Rightarrow> 'w output_state \<Rightarrow> (int \<times> 'w sys \<times> 'w output_state) option" where
  "snd_pcm_dump fmt_g k uninit os a pcm y s = do {
     (err, name, y) \<leftarrow> snd_card_get_name k uninit (pcm_card pcm) None (y\<lparr>sys_world := out_world s\<rparr>);
     let s = with_world (sys_world y) s;
     (if err < 0 then Some (err, y, s)
      else do {
        name \<leftarrow> name;
        s \<leftarrow> print_to os a (''Hardware PCM card '' @ show_int (pcm_card pcm) @ '' '' @ [CHR 0x27] @ name @ [CHR 0x27] @ '' device '' @ show_int (pcm_device pcm) @
               '' subdevice '' @ show_int (pcm_subdevice pcm) @ [CHR 0x0A]) s;
        s \<leftarrow> (if pcm_setup pcm
              then do {
                s \<leftarrow> print_to os a (''Its setup is:'' @ [CHR 0x0A]) s;
                (_, s) \<leftarrow> snd_pcm_dump_setup fmt_g os a pcm s;
                Some s }
              else Some s);
        Some (0, y\<lparr>sys_world := out_world s\<rparr>, s) }) }"

section \<open>What a handle shows of its output\<close>

text \<open>
  An output handle as the dumps use it: \<open>view\<close> is what a reader of the handle sees, \<open>pr\<close>, \<open>pu\<close> and \<open>pc\<close> are what a formatted
  output, a string and a character add to it, and \<open>level\<close> is the length the handle reports of its buffer.
\<close>

locale text_handle =
  fixes ok :: "'p \<Rightarrow> 'w output_os \<Rightarrow> nat \<Rightarrow> 'w output_state \<Rightarrow> bool"
    and level :: "'p \<Rightarrow> nat \<Rightarrow> 'w output_state \<Rightarrow> nat"
    and view :: "'p \<Rightarrow> nat \<Rightarrow> 'w output_state \<Rightarrow> 'v list"
    and pr :: "string \<Rightarrow> 'v list"
    and pu :: "string \<Rightarrow> 'v list"
    and pc :: "int \<Rightarrow> 'v list"
  assumes printf_law: "ok p os a s \<Longrightarrow> level p a s < 3000 \<Longrightarrow> length cs < 100 \<Longrightarrow>
      \<exists>r s'. snd_output_printf os a cs s = Some (r, s') \<and> ok p os a s' \<and> level p a s' = level p a s \<and> view p a s' = view p a s @ pr cs"
    and puts_law: "ok p os a s \<Longrightarrow> level p a s \<le> 3 \<Longrightarrow> 3 < length cs \<Longrightarrow> length cs < 100 \<Longrightarrow>
      \<exists>r s'. snd_output_puts os a cs s = Some (r, s') \<and> ok p os a s' \<and> level p a s' = level p a s \<and> view p a s' = view p a s @ pu cs"
    and putc_law: "ok p os a s \<Longrightarrow> level p a s < 3000 \<Longrightarrow>
      \<exists>r s'. snd_output_putc os a c s = Some (r, s') \<and> ok p os a s' \<and> level p a s' \<le> Suc (level p a s) \<and> view p a s' = view p a s @ pc c"

text \<open>The reference: what the dump of a parameter space adds, parameter by parameter.\<close>

definition value_text :: "int \<Rightarrow> nat \<Rightarrow> string" where
  "value_text var v = (case value_name var (int v) of Some (Some n) \<Rightarrow> '' '' @ n | _ \<Rightarrow> [])"

definition mask_out :: "(string \<Rightarrow> 'v list) \<Rightarrow> (string \<Rightarrow> 'v list) \<Rightarrow> snd_mask \<Rightarrow> int \<Rightarrow> 'v list" where
  "mask_out pr pu m var =
     (if mask_vals m = {} then pu '' NONE''
      else if mask_vals m = {..<SND_MASK_MAX} then pu '' ALL''
      else concat (map (\<lambda>v. pr (value_text var v)) (filter (\<lambda>v. v \<in> mask_vals m) [0..<SND_MASK_MAX])))"

definition param_name :: "nat \<Rightarrow> string" where
  "param_name k = (case snd_pcm_hw_param_names ! k of Some n \<Rightarrow> n | None \<Rightarrow> [])"

definition param_out :: "(string \<Rightarrow> 'v list) \<Rightarrow> (string \<Rightarrow> 'v list) \<Rightarrow> (int \<Rightarrow> 'v list) \<Rightarrow> snd_pcm_hw_params \<Rightarrow> nat \<Rightarrow> 'v list" where
  "param_out pr pu pc params k =
     pr (param_name k @ '': '') @
     (if k < 3 then mask_out pr pu (masks params ! k) (int k) else pr (interval_text (intervals params ! (k - 8)))) @
     pc 10"

definition params_out :: "(string \<Rightarrow> 'v list) \<Rightarrow> (string \<Rightarrow> 'v list) \<Rightarrow> (int \<Rightarrow> 'v list) \<Rightarrow> snd_pcm_hw_params \<Rightarrow> 'v list" where
  "params_out pr pu pc params = concat (map (param_out pr pu pc params) ([0..<3] @ [8..<20]))"

text \<open>Every value that the dump looks up has a name.\<close>

definition named_values :: "snd_pcm_hw_params \<Rightarrow> bool" where
  "named_values params \<longleftrightarrow>
     (\<forall>k \<in> {..<3}. mask_vals (masks params ! k) = {..<SND_MASK_MAX} \<or>
        (\<forall>v \<in> mask_vals (masks params ! k). \<exists>n. value_name (int k) (int v) = Some (Some n)))"

section \<open>Lengths of texts\<close>

lemma length_show_nat_pow: "n < 10 ^ Suc k \<Longrightarrow> length (show_nat n) \<le> Suc k"
proof (induction k arbitrary: n)
  case 0
  then show ?case by (simp add: show_nat.simps)
next
  case (Suc k)
  have "n div 10 < 10 ^ Suc k" using Suc.prems by (simp add: div_less_iff_less_mult mult.commute)
  from Suc.IH [OF this] show ?case by (subst show_nat.simps) simp
qed

lemma length_fmt_u32: "length (fmt_u (w :: u32)) \<le> 10"
proof -
  have "unat w < 10 ^ Suc 9" using unsigned_less [of w, where ?'a = nat] by simp
  from length_show_nat_pow [OF this] show ?thesis by (simp add: fmt_u_def)
qed

lemma length_interval_text: "length (interval_text i) < 100"
  using length_fmt_u32 [of "imin i"] length_fmt_u32 [of "imax i"] by (simp add: interval_text_def)

lemma short_tables:
  "list_all (\<lambda>n. length n < 30) snd_pcm_access_names"
  "list_all (\<lambda>n. length n < 30) snd_pcm_subformat_names"
  "list_all (\<lambda>x. case x of Some n \<Rightarrow> length n < 30 | None \<Rightarrow> True) snd_pcm_format_names"
  by (simp_all add: snd_pcm_access_names_def snd_pcm_subformat_names_def snd_pcm_format_names_def)

lemma value_name_short:
  assumes "value_name var i = Some (Some n)"
  shows "length n < 30"
  using assms short_tables
  by (auto simp: value_name_def snd_pcm_access_name_def snd_pcm_subformat_name_def snd_pcm_format_name_def name_at_def
      array_get_eq_Some list_all_length split: if_splits option.splits)

lemma param_names:
  "k < 3 \<or> 8 \<le> k \<and> k < 20 \<Longrightarrow> array_get snd_pcm_hw_param_names k = Some (Some (param_name k)) \<and> length (param_name k) < 30"
proof -
  assume "k < 3 \<or> 8 \<le> k \<and> k < 20"
  then have "k \<in> {0, 1, 2, 8, 9, 10, 11, 12, 13, 14, 15, 16, 17, 18, 19}" unfolding insert_iff empty_iff by arith
  then show ?thesis by (auto simp: param_name_def snd_pcm_hw_param_names_def array_get_def numeral_eq_Suc)
qed

lemma word_ones: "bit (UINT_MAX :: u32) k \<longleftrightarrow> k < 32"
proof -
  have "(UINT_MAX :: u32) = - 1" by simp
  then show ?thesis by (simp only: bit_minus_1_iff) simp
qed

lemma mask_is_full_iff: "wf_mask m \<Longrightarrow> mask_is_full m \<longleftrightarrow> mask_vals m = {..<SND_MASK_MAX}"
proof -
  assume wf: "wf_mask m"
  have ones: "w = UINT_MAX \<longleftrightarrow> (\<forall>k < 32. bit w k)" for w :: u32
  proof
    assume "\<forall>k < 32. bit w k"
    then have "w = - 1" by (intro bit_word_eqI) simp
    then show "w = UINT_MAX" by simp
  qed (simp add: word_ones)
  have "mask_is_full m \<longleftrightarrow> (\<forall>i < MASK_SIZE. \<forall>k < 32. bit (bits m ! i) k)"
    using wf by (simp add: mask_is_full_def list_all_length wf_mask_def ones)
  also have "\<dots> \<longleftrightarrow> (\<forall>v < SND_MASK_MAX. v \<in> mask_vals m)"
  proof (intro iffI allI impI)
    fix v :: nat assume "\<forall>i < MASK_SIZE. \<forall>k < 32. bit (bits m ! i) k" "v < SND_MASK_MAX"
    then show "v \<in> mask_vals m" by (simp add: mask_vals_def)
  next
    fix i k :: nat assume a: "\<forall>v < SND_MASK_MAX. v \<in> mask_vals m" "i < MASK_SIZE" "k < 32"
    then have "32 * i + k < SND_MASK_MAX" by simp
    with a show "bit (bits m ! i) k" by (metis mem_mask_vals)
  qed
  also have "\<dots> \<longleftrightarrow> mask_vals m = {..<SND_MASK_MAX}" using mask_vals_bounded [of m] by auto
  finally show ?thesis .
qed

lemma mask_test_member:
  assumes "wf_mask m" "v < SND_MASK_MAX"
  obtains t where "snd_mask_test m (of_nat v) = Some t" "t = 0 \<longleftrightarrow> v \<notin> mask_vals m"
proof -
  have u: "unat (word_of_nat v :: u32) = v" using assms(2) by (simp add: unat_of_nat)
  have l: "MASK_OFS (of_nat v) < length (bits m)" using assms MASK_OFS_less [of "of_nat v"] u by (simp add: wf_mask_def)
  then have "snd_mask_test m (of_nat v) = Some (bits m ! MASK_OFS (of_nat v) AND MASK_BIT (of_nat v))" by (simp add: snd_mask_test_def)
  moreover have "bits m ! MASK_OFS (of_nat v) AND MASK_BIT (of_nat v) \<noteq> 0 \<longleftrightarrow> v \<in> mask_vals m"
  proof -
    have b: "bit (MASK_BIT (of_nat v)) k \<longleftrightarrow> k = v mod 32" for k by (simp only: MASK_BIT_eq u bit_single)
    show ?thesis using assms(2) by (auto simp: u32_nonzero_bit bit_and_iff b mask_vals_def MASK_OFS_eq u)
  qed
  ultimately show ?thesis using that by blast
qed

section \<open>The dump of a parameter space\<close>

lemma mask_parts: "mask_vals m = {..<SND_MASK_MAX} \<Longrightarrow> mask_vals m \<noteq> {}"
  by (metis UNIV_I empty_iff lessThan_iff zero_less_numeral)

context text_handle begin

lemma print_emits:
  assumes "ok p os a s" "level p a s < 3000" "length cs < 100"
  shows "\<exists>s'. print_to os a cs s = Some s' \<and> ok p os a s' \<and> level p a s' = level p a s \<and> view p a s' = view p a s @ pr cs"
  using printf_law [OF assms] by (auto simp: print_to_def)

lemma puts_emits:
  assumes "ok p os a s" "level p a s \<le> 3" "3 < length cs" "length cs < 100"
  shows "\<exists>s'. puts_to os a cs s = Some s' \<and> ok p os a s' \<and> level p a s' = level p a s \<and> view p a s' = view p a s @ pu cs"
  using puts_law [OF assms] by (auto simp: puts_to_def)

lemma putc_emits:
  assumes "ok p os a s" "level p a s < 3000"
  shows "\<exists>s'. putc_to os a c s = Some s' \<and> ok p os a s' \<and> level p a s' \<le> Suc (level p a s) \<and> view p a s' = view p a s @ pc c"
  using putc_law [OF assms, of c] by (auto simp: putc_to_def)

lemma mask_loop_emits:
  assumes "wf_mask m" "\<forall>v \<in> mask_vals m. \<exists>n. value_name var (int v) = Some (Some n)" "ok p os a s" "level p a s < 3000"
    "\<forall>v \<in> set vs. v < SND_MASK_MAX"
  shows "\<exists>s'. mask_print_loop os a m var vs s = Some s' \<and> ok p os a s' \<and> level p a s' = level p a s \<and>
    view p a s' = view p a s @ concat (map (\<lambda>v. pr (value_text var v)) (filter (\<lambda>v. v \<in> mask_vals m) vs))"
  using assms(3-)
proof (induction vs arbitrary: s)
  case (Cons v vs)
  from Cons.prems(3) have v: "v < SND_MASK_MAX" and vs: "\<forall>v \<in> set vs. v < SND_MASK_MAX" by simp_all
  from mask_test_member [OF assms(1) v] obtain t where t: "snd_mask_test m (of_nat v) = Some t" "t = 0 \<longleftrightarrow> v \<notin> mask_vals m" .
  show ?case
  proof (cases "v \<in> mask_vals m")
    case False
    with t Cons.IH [OF Cons.prems(1,2) vs] show ?thesis by simp
  next
    case True
    then obtain n where n: "value_name var (int v) = Some (Some n)" using assms(2) by blast
    then have "length ('' '' @ n) < 100" using value_name_short [OF n] by simp
    from print_emits [OF Cons.prems(1,2) this] obtain s1 where s1: "print_to os a ('' '' @ n) s = Some s1" "ok p os a s1"
      "level p a s1 = level p a s" "view p a s1 = view p a s @ pr (value_text var v)" using n by (auto simp: value_text_def)
    from Cons.IH [OF s1(2) _ vs] Cons.prems(2) s1(3) obtain s2 where "mask_print_loop os a m var vs s1 = Some s2" "ok p os a s2"
      "level p a s2 = level p a s1" "view p a s2 = view p a s1 @ concat (map (\<lambda>v. pr (value_text var v)) (filter (\<lambda>v. v \<in> mask_vals m) vs))"
      by auto
    with True t n s1 show ?thesis by simp
  qed
qed simp

lemma mask_emits:
  assumes "wf_mask m" "mask_vals m = {..<SND_MASK_MAX} \<or> (\<forall>v \<in> mask_vals m. \<exists>n. value_name var (int v) = Some (Some n))"
    "ok p os a s" "level p a s \<le> 3"
  shows "\<exists>s'. snd_mask_print os a m var s = Some s' \<and> ok p os a s' \<and> level p a s' = level p a s \<and> view p a s' = view p a s @ mask_out pr pu m var"
proof -
  consider "mask_vals m = {}" | "mask_vals m = {..<SND_MASK_MAX}" | "mask_vals m \<noteq> {}" "mask_vals m \<noteq> {..<SND_MASK_MAX}" by blast
  then show ?thesis
  proof cases
    case 1
    then show ?thesis using puts_emits [OF assms(3,4), of "'' NONE''"] assms(1)
      by (simp add: snd_mask_print_def snd_mask_empty_iff mask_out_def)
  next
    case 2
    then have "mask_vals m \<noteq> {}" by (rule mask_parts)
    with 2 show ?thesis using puts_emits [OF assms(3,4), of "'' ALL''"] assms(1)
      by (simp add: snd_mask_print_def snd_mask_empty_iff mask_is_full_iff mask_out_def)
  next
    case 3
    then show ?thesis using mask_loop_emits [OF assms(1) _ assms(3), of var "[0..<SND_MASK_MAX]"] assms(1,2,4)
      by (simp add: snd_mask_print_def snd_mask_empty_iff mask_is_full_iff mask_out_def)
  qed
qed

lemma param_emits:
  assumes "wf_params params" "named_values params" "ok p os a s" "k < 3 \<and> level p a s \<le> 3 \<or> 8 \<le> k \<and> k < 20 \<and> level p a s < 2000"
  shows "\<exists>s'. dump_one_param os a params k s = Some s' \<and> ok p os a s' \<and> level p a s' \<le> Suc (level p a s) \<and>
    view p a s' = view p a s @ param_out pr pu pc params k"
proof -
  from assms(4) have k: "k < 3 \<or> 8 \<le> k \<and> k < 20" and l: "level p a s < 3000" by auto
  from param_names [OF k] have nm: "array_get snd_pcm_hw_param_names k = Some (Some (param_name k))" "length (param_name k @ '': '') < 100" by auto
  from print_emits [OF assms(3) l nm(2)] obtain s1 where s1: "print_to os a (param_name k @ '': '') s = Some s1" "ok p os a s1"
    "level p a s1 = level p a s" "view p a s1 = view p a s @ pr (param_name k @ '': '')" by blast
  let ?mid = "if k < 3 then mask_out pr pu (masks params ! k) (int k) else pr (interval_text (intervals params ! (k - 8)))"
  have "\<exists>s2. snd_pcm_hw_param_dump os a params (int k) s1 = Some s2 \<and> ok p os a s2 \<and> level p a s2 = level p a s1 \<and> view p a s2 = view p a s1 @ ?mid"
  proof (cases "k < 3")
    case True
    then have "wf_mask (masks params ! k)" "hw_param_mask params (int k) = Some (masks params ! k)" "hw_is_mask (int k)"
      using assms(1) by (auto simp: wf_params_def list_all_length hw_param_mask_def hw_is_mask_def)
    moreover have "mask_vals (masks params ! k) = {..<SND_MASK_MAX} \<or>
        (\<forall>v \<in> mask_vals (masks params ! k). \<exists>n. value_name (int k) (int v) = Some (Some n))"
      using assms(2) True by (simp add: named_values_def)
    moreover have "level p a s1 \<le> 3" using assms(4) True s1(3) by auto
    ultimately show ?thesis using mask_emits [OF _ _ s1(2)] True by (simp add: snd_pcm_hw_param_dump_def)
  next
    case False
    with k have "hw_param_interval params (int k) = Some (intervals params ! (k - 8))" "hw_is_interval (int k)" "\<not> hw_is_mask (int k)"
      using assms(1) by (auto simp: wf_params_def hw_param_interval_def hw_is_interval_def hw_is_mask_def nat_diff_distrib)
    with False print_emits [OF s1(2) _ length_interval_text] l s1(3) show ?thesis
      by (simp add: snd_pcm_hw_param_dump_def snd_interval_print_def)
  qed
  then obtain s2 where s2: "snd_pcm_hw_param_dump os a params (int k) s1 = Some s2" "ok p os a s2" "level p a s2 = level p a s1"
    "view p a s2 = view p a s1 @ ?mid" by blast
  from putc_emits [OF s2(2), of 10] l s1(3) s2(3) obtain s3 where "putc_to os a 10 s2 = Some s3" "ok p os a s3"
    "level p a s3 \<le> Suc (level p a s2)" "view p a s3 = view p a s2 @ pc 10" by auto
  with nm s1 s2 show ?thesis by (simp add: dump_one_param_def param_out_def)
qed

lemma params_loop_emits:
  assumes "wf_params params" "named_values params" "ok p os a s"
    "(\<forall>k \<in> set ks. k < 3) \<and> level p a s + length ks \<le> 3 \<or> (\<forall>k \<in> set ks. 8 \<le> k \<and> k < 20) \<and> level p a s + length ks < 2000"
  shows "\<exists>s'. dump_params_loop os a params ks s = Some s' \<and> ok p os a s' \<and> level p a s' \<le> level p a s + length ks \<and>
    view p a s' = view p a s @ concat (map (param_out pr pu pc params) ks)"
  using assms(3,4)
proof (induction ks arbitrary: s)
  case (Cons k ks)
  have "k < 3 \<and> level p a s \<le> 3 \<or> 8 \<le> k \<and> k < 20 \<and> level p a s < 2000" using Cons.prems(2) by auto
  from param_emits [OF assms(1,2) Cons.prems(1) this] obtain s1 where s1: "dump_one_param os a params k s = Some s1" "ok p os a s1"
    "level p a s1 \<le> Suc (level p a s)" "view p a s1 = view p a s @ param_out pr pu pc params k" by blast
  have "(\<forall>k \<in> set ks. k < 3) \<and> level p a s1 + length ks \<le> 3 \<or> (\<forall>k \<in> set ks. 8 \<le> k \<and> k < 20) \<and> level p a s1 + length ks < 2000"
    using Cons.prems(2) s1(3) by auto
  from Cons.IH [OF s1(2) this] obtain s2 where "dump_params_loop os a params ks s1 = Some s2" "ok p os a s2"
    "level p a s2 \<le> level p a s1 + length ks" "view p a s2 = view p a s1 @ concat (map (param_out pr pu pc params) ks)" by blast
  with s1 show ?case by simp
qed simp

lemma params_emits:
  assumes "wf_params params" "named_values params" "ok p os a s" "level p a s = 0"
  shows "\<exists>s'. snd_pcm_hw_params_dump os a params s = Some (0, s') \<and> ok p os a s' \<and> level p a s' \<le> 15 \<and>
    view p a s' = view p a s @ params_out pr pu pc params"
proof -
  have "(\<forall>k \<in> set [0..<3]. k < 3) \<and> level p a s + length [0..<3] \<le> 3" using assms(4) by simp
  from params_loop_emits [OF assms(1-3) disjI1 [OF this]] assms(4) obtain s1 where s1: "dump_params_loop os a params [0..<3] s = Some s1"
    "ok p os a s1" "level p a s1 \<le> 3" "view p a s1 = view p a s @ concat (map (param_out pr pu pc params) [0..<3])" by (auto simp del: upt_rec_numeral)
  have "(\<forall>k \<in> set [8..<20]. 8 \<le> k \<and> k < 20) \<and> level p a s1 + length [8..<20] < 2000" using s1(3) by (simp del: upt_rec_numeral)
  from params_loop_emits [OF assms(1,2) s1(2) disjI2 [OF this]] s1(3) obtain s2 where "dump_params_loop os a params [8..<20] s1 = Some s2"
    "ok p os a s2" "level p a s2 \<le> 15" "view p a s2 = view p a s1 @ concat (map (param_out pr pu pc params) [8..<20])" by (auto simp del: upt_rec_numeral)
  with s1 show ?thesis by (simp add: snd_pcm_hw_params_dump_def params_out_def del: upt_rec_numeral)
qed

end

section \<open>A stream\<close>

text \<open>Of the stream behind a handle it is only known what its text is: each output appends to it.\<close>

definition appending :: "('w \<Rightarrow> string) \<Rightarrow> 'w output_os \<Rightarrow> nat \<Rightarrow> bool" where
  "appending text os f \<longleftrightarrow>
     (\<forall>cs w. text (snd (oo_vfprintf os f cs w)) = text w @ cs) \<and>
     (\<forall>cs w. text (snd (oo_fputs os cs f w)) = text w @ cs) \<and>
     (\<forall>c w. text (snd (oo_putc os c f w)) = text w @ [char_of (nat (c mod 256))])"

definition stream_ok :: "('w \<Rightarrow> string) \<Rightarrow> 'w output_os \<Rightarrow> nat \<Rightarrow> 'w output_state \<Rightarrow> bool" where
  "stream_ok text os a s \<longleftrightarrow>
     (\<exists>out f. outs s a = Some out \<and> out_mode out = SND_OUTPUT_STDIO \<and> out_ptr out = Stream f \<and> appending text os f)"

definition stream_level :: "('w \<Rightarrow> string) \<Rightarrow> nat \<Rightarrow> 'w output_state \<Rightarrow> nat" where
  "stream_level text a s = 0"

definition stream_text :: "('w \<Rightarrow> string) \<Rightarrow> nat \<Rightarrow> 'w output_state \<Rightarrow> string" where
  "stream_text text a s = text (out_world s)"

definition char_text :: "int \<Rightarrow> string" where
  "char_text c = [char_of (nat (c mod 256))]"

lemma appending_calls:
  assumes "appending text os f"
  shows "text (snd (oo_vfprintf os f cs w)) = text w @ cs"
    "text (snd (oo_fputs os cs f w)) = text w @ cs"
    "text (snd (oo_putc os c f w)) = text w @ [char_of (nat (c mod 256))]"
  using assms by (simp_all add: appending_def)

interpretation stream: text_handle stream_ok stream_level stream_text "\<lambda>cs. cs" "\<lambda>cs. cs" char_text
proof
  fix p os a s cs assume "stream_ok p os a s"
  then obtain out f where o: "outs s a = Some out" "out_mode out = SND_OUTPUT_STDIO" "out_ptr out = Stream f" "appending p os f"
    by (auto simp: stream_ok_def)
  then have f: "out_stream out = Some f" by (simp add: out_stream_def)
  from o f show "\<exists>r s'. snd_output_printf os a cs s = Some (r, s') \<and> stream_ok p os a s' \<and> stream_level p a s' = stream_level p a s \<and>
      stream_text p a s' = stream_text p a s @ cs"
    using appending_calls(1) [OF o(4), of cs "out_world s"] by (cases "oo_vfprintf os f cs (out_world s)")
      (auto simp: snd_output_printf_def stream_ok_def stream_level_def stream_text_def with_world_def)
  from o f show "\<exists>r s'. snd_output_puts os a cs s = Some (r, s') \<and> stream_ok p os a s' \<and> stream_level p a s' = stream_level p a s \<and>
      stream_text p a s' = stream_text p a s @ cs"
    using appending_calls(2) [OF o(4), of cs "out_world s"] by (cases "oo_fputs os cs f (out_world s)")
      (auto simp: snd_output_puts_def stream_ok_def stream_level_def stream_text_def with_world_def)
  fix c
  from o f show "\<exists>r s'. snd_output_putc os a c s = Some (r, s') \<and> stream_ok p os a s' \<and> stream_level p a s' \<le> Suc (stream_level p a s) \<and>
      stream_text p a s' = stream_text p a s @ char_text c"
    using appending_calls(3) [OF o(4), of c "out_world s"] by (cases "oo_putc os c f (out_world s)")
      (auto simp: snd_output_putc_def stream_ok_def stream_level_def stream_text_def char_text_def with_world_def)
qed

section \<open>A buffer\<close>

definition buffer_ok :: "unit \<Rightarrow> 'w output_os \<Rightarrow> nat \<Rightarrow> 'w output_state \<Rightarrow> bool" where
  "buffer_ok p os a s \<longleftrightarrow>
     (\<exists>out. outs s a = Some out \<and> out_mode out = SND_OUTPUT_BUFFER \<and> sound_out out \<and> CHUNK \<le> out_size out)"

definition buffer_level :: "unit \<Rightarrow> nat \<Rightarrow> 'w output_state \<Rightarrow> nat" where
  "buffer_level p a s = (case outs s a of Some out \<Rightarrow> nat (out_len out) | None \<Rightarrow> 0)"

definition buffer_text :: "unit \<Rightarrow> nat \<Rightarrow> 'w output_state \<Rightarrow> char option list" where
  "buffer_text p a s = (case outs s a of Some out \<Rightarrow> written out | None \<Rightarrow> [])"

definition char_cell :: "int \<Rightarrow> char option list" where
  "char_cell c = [Some (char_of (nat (c mod 256)))]"

lemma putc_fits:
  assumes "outs s a = Some out" "out_mode out = SND_OUTPUT_BUFFER" "sound_out out" "out_len out + 1 < out_size out"
  obtains out' where "snd_output_putc os a c s = Some (0, store_out a out' (with_world (out_world s) s))" "out_mode out' = SND_OUTPUT_BUFFER"
    "sound_out out'" "out_len out' = out_len out + 1" "out_size out' = out_size out" "written out' = written out @ [Some (char_of (nat (c mod 256)))]"
proof -
  obtain buf where b: "out_ptr out = Chars buf" "int (length buf) = out_size out" "0 \<le> out_len out" "out_len out < int (length buf)" "out_size out \<le> INT_MAX"
    using assms(2,3,4) by (auto simp: sound_buffer)
  let ?ch = "char_of (nat (c mod 256)) :: char"
  from put_last [OF b(3,4), of ?ch] obtain buf' where p: "put_chars buf (out_len out) [?ch] = Some buf'" "length buf' = length buf"
    "take (nat (out_len out + 1)) buf' = take (nat (out_len out)) buf @ [Some ?ch]" .
  have "int32 (out_len out + 1) = Some (out_len out + 1)" using b(3,5) assms(4) by (intro int32_in) auto
  then have "snd_output_putc os a c s = Some (0, store_out a (out\<lparr>out_ptr := Chars buf', out_len := out_len out + 1\<rparr>) (with_world (out_world s) s))"
    using assms(1,2,4) b(1) p(1) by (simp add: snd_output_putc_def put_at_Chars)
  from that [OF this] show ?thesis using assms(2,4) b p(2,3) by (simp add: sound_buffer written_def)
qed

lemma put_keeps:
  assumes "put_chars buf off cs = Some buf'" "n \<le> nat off"
  shows "take n buf' = take n buf"
  using assms by (auto simp: put_chars_def min_def split: if_splits)

lemma buffer_stored:
  assumes "outs s a = Some out" "out_mode out = SND_OUTPUT_BUFFER" "sound_out out" "CHUNK \<le> out_size out" "out_ptr out = Chars buf"
    "length buf' = length buf" "take (nat (out_len out)) buf' = take (nat (out_len out)) buf"
  shows "buffer_ok p os a (store_out a (out\<lparr>out_ptr := Chars buf'\<rparr>) t) \<and>
    buffer_level p a (store_out a (out\<lparr>out_ptr := Chars buf'\<rparr>) t) = buffer_level p a s \<and>
    buffer_text p a (store_out a (out\<lparr>out_ptr := Chars buf'\<rparr>) t) = buffer_text p a s"
  using assms sound_ptr [OF assms(2,3,5,6)] by (simp add: buffer_ok_def buffer_level_def buffer_text_def written_def)

interpretation buffer: text_handle buffer_ok buffer_level buffer_text "\<lambda>cs. []" "\<lambda>cs. []" char_cell
proof
  fix p :: unit and os :: "'a output_os" and a s and cs :: string
  assume k: "buffer_ok p os a s"
  then obtain out where o: "outs s a = Some out" "out_mode out = SND_OUTPUT_BUFFER" "sound_out out" "CHUNK \<le> out_size out"
    by (auto simp: buffer_ok_def)
  then obtain buf where b: "out_ptr out = Chars buf" "int (length buf) = out_size out" "0 \<le> out_len out"
    by (auto simp: sound_buffer)
  have l: "buffer_level p a s = nat (out_len out)" using o(1) by (simp add: buffer_level_def)
  note stored = buffer_stored [OF o b(1), of _ p os]
  show "\<exists>r s'. snd_output_printf os a cs s = Some (r, s') \<and> buffer_ok p os a s' \<and> buffer_level p a s' = buffer_level p a s \<and>
      buffer_text p a s' = buffer_text p a s @ []" if c: "length cs < 100" and lev: "buffer_level p a s < 3000"
  proof -
    have "int (length cs) < out_size out - out_len out" using c lev l o(4) by linarith
    from printf_fits [OF o(1-3) this, of os] b(1) obtain buf' where "length buf' = length buf"
      "snd_output_printf os a cs s = Some (int (length cs), store_out a (out\<lparr>out_ptr := Chars buf'\<rparr>) s)"
      "take (nat (out_len out)) buf' = take (nat (out_len out)) buf" by auto
    with stored show ?thesis by simp
  qed
  show "\<exists>r s'. snd_output_puts os a cs s = Some (r, s') \<and> buffer_ok p os a s' \<and> buffer_level p a s' = buffer_level p a s \<and>
      buffer_text p a s' = buffer_text p a s @ []" if c: "3 < length cs" "length cs < 100" and lev: "buffer_level p a s \<le> 3"
  proof -
    have r: "int (length cs) < out_size out - out_len out" using c lev l o(4) by linarith
    have "0 \<le> int (length cs)" "int (length cs) + int (length (cs @ [CHR 0x00])) \<le> int (length buf)" using c o(4) b(2) by auto
    from put_chars_some [OF this] obtain buf' where p: "put_chars buf (int (length cs)) (cs @ [CHR 0x00]) = Some buf'" "length buf' = length buf" .
    have "nat (out_len out) \<le> nat (int (length cs))" using lev l c by simp
    from stored [OF p(2) put_keeps [OF p(1) this]] show ?thesis
      by (simp add: puts_copies [OF o(1-3) r] b(1) put_at_Chars p(1))
  qed
  show "\<exists>r s'. snd_output_putc os a c s = Some (r, s') \<and> buffer_ok p os a s' \<and> buffer_level p a s' \<le> Suc (buffer_level p a s) \<and>
      buffer_text p a s' = buffer_text p a s @ char_cell c" if lev: "buffer_level p a s < 3000" for c
  proof -
    have "out_len out + 1 < out_size out" using lev l o(4) b(3) by linarith
    from putc_fits [OF o(1-3) this, of os c] obtain out' where
      "snd_output_putc os a c s = Some (0, store_out a out' (with_world (out_world s) s))" "out_mode out' = SND_OUTPUT_BUFFER"
      "sound_out out'" "out_len out' = out_len out + 1" "out_size out' = out_size out"
      "written out' = written out @ [Some (char_of (nat (c mod 256)))]" .
    with o l b(3) show ?thesis by (auto simp: buffer_ok_def buffer_level_def buffer_text_def char_cell_def)
  qed
qed

section \<open>Properties\<close>

lemma newline_char: "char_of (10 :: nat) = CHR 0x0A"
  by code_simp

lemma params_out_newlines:
  "params_out (\<lambda>cs. []) (\<lambda>cs. []) char_cell params = replicate 15 (Some (CHR 0x0A))"
proof -
  have o: "param_out (\<lambda>cs. []) (\<lambda>cs. []) char_cell params k = [Some (CHR 0x0A)]" for k
    by (simp add: param_out_def mask_out_def char_cell_def newline_char)
  have "concat (map (\<lambda>k. [Some (CHR 0x0A)]) ks) = replicate (length ks) (Some (CHR 0x0A))" for ks :: "nat list"
    by (induction ks) (simp_all del: concat_map_singleton)
  from this [of "[0..<3] @ [8..<20]"] show ?thesis unfolding params_out_def o by (simp del: upt_rec_numeral concat_map_singleton concat_append map_append)
qed

text \<open>A witness: a space with one access, one format and every subformat, on a stream whose world is its text.\<close>

definition one_value :: "nat \<Rightarrow> snd_mask" where
  "one_value v = \<lparr>bits = (replicate MASK_SIZE 0)[0 := push_bit v 1]\<rparr>"

definition demo_space :: snd_pcm_hw_params where
  "demo_space = full_params\<lparr>masks := [one_value 3, one_value 2, full_mask]\<rparr>"

lemma demo_space: "wf_params demo_space" "named_values demo_space"
proof -
  have "mask_vals (one_value v) = {v}" if "v < 32" for v
    using that by (auto simp: mask_vals_def one_value_def nth_list_update bit_simps split: if_splits)
  then have m: "mask_vals (one_value 3) = {3}" "mask_vals (one_value 2) = {2}" by simp_all
  have f: "mask_vals full_mask = {..<SND_MASK_MAX}" using mask_vals_any [of full_mask] by (simp add: snd_mask_any_def full_mask_def)
  have "wf_mask (one_value v)" for v by (simp add: wf_mask_def one_value_def)
  then show "wf_params demo_space" using full_params_vals(1) by (simp add: wf_params_def demo_space_def full_params_def numeral_3_eq_3)
  have "value_name 0 3 = Some (Some ''RW_INTERLEAVED'')" "value_name 1 2 = Some (Some ''S16_LE'')" by code_simp+
  then show "named_values demo_space" using m f
    by (auto simp: named_values_def demo_space_def numeral_3_eq_3 lessThan_Suc)
qed

definition text_output :: "string output_os" where
  "text_output = \<lparr>oo_malloc = (\<lambda>s. (Some 1, out_world s)), oo_realloc = (\<lambda>n w. (True, w)), oo_uninit = (\<lambda>w. 0),
     oo_fopen = (\<lambda>f m w. (Some 7, 0, w)), oo_fclose = (\<lambda>f w. (0, w)), oo_vfprintf = (\<lambda>f cs w. (int (length cs), w @ cs)),
     oo_fputs = (\<lambda>cs f w. (0, w @ cs)), oo_putc = (\<lambda>c f w. (c, w @ [char_of (nat (c mod 256))])), oo_fflush = (\<lambda>f w. (0, w))\<rparr>"

definition text_state :: "string output_state" where
  "text_state = store_out 1 \<lparr>out_mode = SND_OUTPUT_STDIO, out_ptr = Stream 7, out_len = 1, out_size = 0\<rparr> \<lparr>outs = Map.empty, out_world = []\<rparr>"

lemma text_state_ok: "stream_ok (\<lambda>w. w) text_output 1 text_state"
  by (simp add: stream_ok_def text_state_def appending_def text_output_def)

text \<open>The dump of a parameter space to a stream is, line by line, the name of each parameter and its values: the names of the members of a mask in
  their order, or \<^verbatim>\<open>NONE\<close> or \<^verbatim>\<open>ALL\<close>, and the bounds of an interval.
\<close>

theorem hw_params_dump_text:
  assumes "wf_params params" "named_values params" "stream_ok text os a s"
  shows "\<exists>s'. snd_pcm_hw_params_dump os a params s = Some (0, s') \<and>
    text (out_world s') = text (out_world s) @ params_out (\<lambda>cs. cs) (\<lambda>cs. cs) char_text params"
  using stream.params_emits [OF assms] by (auto simp: stream_level_def stream_text_def)

theorem hw_params_dump_text_witness:
  "\<exists>s'. snd_pcm_hw_params_dump text_output 1 demo_space text_state = Some (0, s') \<and>
     out_world s' = params_out (\<lambda>cs. cs) (\<lambda>cs. cs) char_text demo_space"
proof -
  have "out_world text_state = []" by (simp add: text_state_def)
  with hw_params_dump_text [OF demo_space text_state_ok] show ?thesis by simp
qed

text \<open>The dump of a parameter space to a new output buffer loses every name and value: what the handle reports
  afterwards is fifteen ends of lines, because only the single characters advance the length of the contents.
\<close>

theorem hw_params_dump_buffer:
  assumes "wf_params params" "named_values params" "snd_output_buffer_open os s0 = Some (0, Some a, s)"
  shows "\<exists>s' buf. snd_pcm_hw_params_dump os a params s = Some (0, s') \<and> snd_output_buffer_string a s' = Some (15, Chars buf) \<and>
    take 15 buf = replicate 15 (Some (CHR 0x0A))"
proof -
  let ?out = "\<lparr>out_mode = SND_OUTPUT_BUFFER, out_ptr = Chars (replicate 4000 None), out_len = 0, out_size = 4000\<rparr>"
  have o: "outs s a = Some ?out" by (rule buffer_open_sound [OF assms(3)])
  then have "buffer_ok () os a s" "buffer_level () a s = 0" "buffer_text () a s = []"
    by (simp_all add: buffer_ok_def sound_buffer buffer_level_def buffer_text_def written_def)
  from buffer.params_emits [OF assms(1,2) this(1,2)] this(3) obtain s' where
    s': "snd_pcm_hw_params_dump os a params s = Some (0, s')" "buffer_ok () os a s'" "buffer_text () a s' = replicate 15 (Some (CHR 0x0A))"
    by (auto simp: params_out_newlines)
  then obtain out buf where b: "outs s' a = Some out" "out_ptr out = Chars buf" "0 \<le> out_len out" "out_len out < int (length buf)"
    by (auto simp: buffer_ok_def sound_buffer)
  then have w: "take (nat (out_len out)) buf = replicate 15 (Some (CHR 0x0A))" using s'(3) by (simp add: buffer_text_def written_def)
  have "length (take (nat (out_len out)) buf) = nat (out_len out)" using b(3,4) by simp
  then have "out_len out = 15" using w b(3) by (simp del: length_take)
  with s'(1) b w show ?thesis by (simp add: snd_output_buffer_string_def)
qed

theorem hw_params_dump_buffer_witness:
  "\<exists>s' buf. snd_pcm_hw_params_dump plain_output 1 demo_space opened_output = Some (0, s') \<and>
     snd_output_buffer_string 1 s' = Some (15, Chars buf) \<and> take 15 buf = replicate 15 (Some (CHR 0x0A))"
  using hw_params_dump_buffer [OF demo_space opened_output] .

end
