(* ===== verification/Enumerators.thy ===== *)
theory Enumerators
  imports Ctl_Ascii Pcm_Objects Pcm_Chmap Device_Objects Rawmidi Pcm_Dump
begin

text \<open>
  The enumerations of the headers under \<^verbatim>\<open>src/src\<close> as they are declared there, and the rule of C that numbers their
  members.  A name stands without the prefix its enumeration gives all its members.  The name tables of the library,
  which designate their entries by these members, are checked against them, and so are the constants of the other
  theories.  Of two branches for the byte orders the enumeration of the formats has the one for little endian.
\<close>

section \<open>Declarations\<close>

text \<open>A member has the number after the one before it, a number of its own, or the number of an earlier member and an offset.\<close>

datatype enum_init = Next | At int | From string int

type_synonym c_enum = "(string \<times> enum_init) list"

definition init_value :: "(string \<times> int) list \<Rightarrow> int \<Rightarrow> enum_init \<Rightarrow> int option" where
  "init_value vs n ini = (case ini of Next \<Rightarrow> Some n | At i \<Rightarrow> Some i | From nm d \<Rightarrow> map_option (\<lambda>v. v + d) (map_of vs nm))"

primrec enum_from :: "(string \<times> int) list \<Rightarrow> int \<Rightarrow> c_enum \<Rightarrow> (string \<times> int) list option" where
  "enum_from vs n [] = Some vs"
| "enum_from vs n (m # e) = do { v \<leftarrow> init_value vs n (snd m); enum_from (vs @ [(fst m, v)]) (v + 1) e }"

definition enum_values :: "c_enum \<Rightarrow> (string \<times> int) list option" where
  "enum_values e = enum_from [] 0 e"

definition enum_value :: "c_enum \<Rightarrow> string \<Rightarrow> int option" where
  "enum_value e nm = do { vs \<leftarrow> enum_values e; map_of vs nm }"

definition snd_hwdep_iface_t :: c_enum where
  "snd_hwdep_iface_t =
    [(''OPL2'', At 0), (''OPL3'', Next), (''OPL4'', Next), (''SB16CSP'', Next), (''EMU10K1'', Next), (''YSS225'', Next),
     (''ICS2115'', Next), (''SSCAPE'', Next), (''VX'', Next), (''MIXART'', Next), (''USX2Y'', Next),
     (''EMUX_WAVETABLE'', Next), (''BLUETOOTH'', Next), (''USX2Y_PCM'', Next), (''PCXHR'', Next), (''SB_RC'', Next),
     (''LAST'', From ''SB_RC'' 0)]"

definition snd_pcm_class_t :: c_enum where
  "snd_pcm_class_t =
    [(''GENERIC'', At 0), (''MULTI'', Next), (''MODEM'', Next), (''DIGITIZER'', Next), (''LAST'', From ''DIGITIZER'' 0)]"

definition snd_pcm_subclass_t :: c_enum where
  "snd_pcm_subclass_t =
    [(''GENERIC_MIX'', At 0), (''MULTI_MIX'', Next), (''LAST'', From ''MULTI_MIX'' 0)]"

definition snd_pcm_stream_t :: c_enum where
  "snd_pcm_stream_t =
    [(''PLAYBACK'', At 0), (''CAPTURE'', Next), (''LAST'', From ''CAPTURE'' 0)]"

definition snd_pcm_access_t :: c_enum where
  "snd_pcm_access_t =
    [(''MMAP_INTERLEAVED'', At 0), (''MMAP_NONINTERLEAVED'', Next), (''MMAP_COMPLEX'', Next), (''RW_INTERLEAVED'', Next),
     (''RW_NONINTERLEAVED'', Next), (''LAST'', From ''RW_NONINTERLEAVED'' 0)]"

definition snd_pcm_format_t :: c_enum where
  "snd_pcm_format_t =
    [(''UNKNOWN'', At (- 1)), (''S8'', At 0), (''U8'', Next), (''S16_LE'', Next), (''S16_BE'', Next), (''U16_LE'', Next),
     (''U16_BE'', Next), (''S24_LE'', Next), (''S24_BE'', Next), (''U24_LE'', Next), (''U24_BE'', Next),
     (''S32_LE'', Next), (''S32_BE'', Next), (''U32_LE'', Next), (''U32_BE'', Next), (''FLOAT_LE'', Next),
     (''FLOAT_BE'', Next), (''FLOAT64_LE'', Next), (''FLOAT64_BE'', Next), (''IEC958_SUBFRAME_LE'', Next),
     (''IEC958_SUBFRAME_BE'', Next), (''MU_LAW'', Next), (''A_LAW'', Next), (''IMA_ADPCM'', Next), (''MPEG'', Next),
     (''GSM'', Next), (''SPECIAL'', At 31), (''S24_3LE'', At 32), (''S24_3BE'', Next), (''U24_3LE'', Next),
     (''U24_3BE'', Next), (''S20_3LE'', Next), (''S20_3BE'', Next), (''U20_3LE'', Next), (''U20_3BE'', Next),
     (''S18_3LE'', Next), (''S18_3BE'', Next), (''U18_3LE'', Next), (''U18_3BE'', Next), (''G723_24'', Next),
     (''G723_24_1B'', Next), (''G723_40'', Next), (''G723_40_1B'', Next), (''DSD_U8'', Next), (''DSD_U16_LE'', Next),
     (''DSD_U32_LE'', Next), (''DSD_U16_BE'', Next), (''DSD_U32_BE'', Next), (''LAST'', From ''DSD_U32_BE'' 0),
     (''S16'', From ''S16_LE'' 0), (''U16'', From ''U16_LE'' 0), (''S24'', From ''S24_LE'' 0),
     (''U24'', From ''U24_LE'' 0), (''S32'', From ''S32_LE'' 0), (''U32'', From ''U32_LE'' 0),
     (''FLOAT'', From ''FLOAT_LE'' 0), (''FLOAT64'', From ''FLOAT64_LE'' 0),
     (''IEC958_SUBFRAME'', From ''IEC958_SUBFRAME_LE'' 0)]"

definition snd_pcm_subformat_t :: c_enum where
  "snd_pcm_subformat_t =
    [(''STD'', At 0), (''LAST'', From ''STD'' 0)]"

definition snd_pcm_state_t :: c_enum where
  "snd_pcm_state_t =
    [(''OPEN'', At 0), (''SETUP'', Next), (''PREPARED'', Next), (''RUNNING'', Next), (''XRUN'', Next),
     (''DRAINING'', Next), (''PAUSED'', Next), (''SUSPENDED'', Next), (''DISCONNECTED'', Next),
     (''LAST'', From ''DISCONNECTED'' 0)]"

definition sndrv_pcm_hw_param :: c_enum where
  "sndrv_pcm_hw_param =
    [(''ACCESS'', At 0), (''FIRST_MASK'', From ''ACCESS'' 0), (''FORMAT'', Next), (''SUBFORMAT'', Next),
     (''LAST_MASK'', From ''SUBFORMAT'' 0), (''SAMPLE_BITS'', At 8), (''FIRST_INTERVAL'', From ''SAMPLE_BITS'' 0),
     (''FRAME_BITS'', Next), (''CHANNELS'', Next), (''RATE'', Next), (''PERIOD_TIME'', Next), (''PERIOD_SIZE'', Next),
     (''PERIOD_BYTES'', Next), (''PERIODS'', Next), (''BUFFER_TIME'', Next), (''BUFFER_SIZE'', Next),
     (''BUFFER_BYTES'', Next), (''TICK_TIME'', Next), (''LAST_INTERVAL'', From ''TICK_TIME'' 0)]"

definition snd_pcm_tstamp_t :: c_enum where
  "snd_pcm_tstamp_t =
    [(''NONE'', At 0), (''ENABLE'', Next), (''MMAP'', From ''ENABLE'' 0), (''LAST'', From ''MMAP'' 0)]"

definition snd_pcm_tstamp_type_t :: c_enum where
  "snd_pcm_tstamp_type_t =
    [(''GETTIMEOFDAY'', At 0), (''MONOTONIC'', Next), (''MONOTONIC_RAW'', Next), (''LAST'', From ''MONOTONIC_RAW'' 0)]"

definition snd_pcm_audio_tstamp_type_t :: c_enum where
  "snd_pcm_audio_tstamp_type_t =
    [(''COMPAT'', At 0), (''DEFAULT'', At 1), (''LINK'', At 2), (''LINK_ABSOLUTE'', At 3), (''LINK_ESTIMATED'', At 4),
     (''LINK_SYNCHRONIZED'', At 5), (''LAST'', From ''LINK_SYNCHRONIZED'' 0)]"

definition snd_pcm_chmap_type :: c_enum where
  "snd_pcm_chmap_type =
    [(''NONE'', At 0), (''FIXED'', Next), (''VAR'', Next), (''PAIRED'', Next), (''LAST'', From ''PAIRED'' 0)]"

definition snd_pcm_chmap_position :: c_enum where
  "snd_pcm_chmap_position =
    [(''UNKNOWN'', At 0), (''NA'', Next), (''MONO'', Next), (''FL'', Next), (''FR'', Next), (''RL'', Next),
     (''RR'', Next), (''FC'', Next), (''LFE'', Next), (''SL'', Next), (''SR'', Next), (''RC'', Next), (''FLC'', Next),
     (''FRC'', Next), (''RLC'', Next), (''RRC'', Next), (''FLW'', Next), (''FRW'', Next), (''FLH'', Next),
     (''FCH'', Next), (''FRH'', Next), (''TC'', Next), (''TFL'', Next), (''TFR'', Next), (''TFC'', Next), (''TRL'', Next),
     (''TRR'', Next), (''TRC'', Next), (''TFLC'', Next), (''TFRC'', Next), (''TSL'', Next), (''TSR'', Next),
     (''LLFE'', Next), (''RLFE'', Next), (''BC'', Next), (''BLC'', Next), (''BRC'', Next), (''LAST'', From ''BRC'' 0)]"

definition snd_rawmidi_stream_t :: c_enum where
  "snd_rawmidi_stream_t =
    [(''OUTPUT'', At 0), (''INPUT'', Next), (''LAST'', From ''INPUT'' 0)]"

definition snd_timer_class_t :: c_enum where
  "snd_timer_class_t =
    [(''NONE'', At (- 1)), (''SLAVE'', At 0), (''GLOBAL'', Next), (''CARD'', Next), (''PCM'', Next),
     (''LAST'', From ''PCM'' 0)]"

definition snd_timer_slave_class_t :: c_enum where
  "snd_timer_slave_class_t =
    [(''NONE'', At 0), (''APPLICATION'', Next), (''SEQUENCER'', Next), (''OSS_SEQUENCER'', Next),
     (''LAST'', From ''OSS_SEQUENCER'' 0)]"

definition snd_timer_event_t :: c_enum where
  "snd_timer_event_t =
    [(''RESOLUTION'', At 0), (''TICK'', Next), (''START'', Next), (''STOP'', Next), (''CONTINUE'', Next),
     (''PAUSE'', Next), (''EARLY'', Next), (''SUSPEND'', Next), (''RESUME'', Next), (''MSTART'', From ''START'' 10),
     (''MSTOP'', From ''STOP'' 10), (''MCONTINUE'', From ''CONTINUE'' 10), (''MPAUSE'', From ''PAUSE'' 10),
     (''MSUSPEND'', From ''SUSPEND'' 10), (''MRESUME'', From ''RESUME'' 10)]"

definition snd_ctl_elem_type_t :: c_enum where
  "snd_ctl_elem_type_t =
    [(''NONE'', At 0), (''BOOLEAN'', Next), (''INTEGER'', Next), (''ENUMERATED'', Next), (''BYTES'', Next),
     (''IEC958'', Next), (''INTEGER64'', Next), (''LAST'', From ''INTEGER64'' 0)]"

definition snd_ctl_elem_iface_t :: c_enum where
  "snd_ctl_elem_iface_t =
    [(''CARD'', At 0), (''HWDEP'', Next), (''MIXER'', Next), (''PCM'', Next), (''RAWMIDI'', Next), (''TIMER'', Next),
     (''SEQUENCER'', Next), (''LAST'', From ''SEQUENCER'' 0)]"

definition snd_ctl_event_type_t :: c_enum where
  "snd_ctl_event_type_t =
    [(''ELEM'', At 0), (''LAST'', From ''ELEM'' 0)]"

definition snd_pcm_start_t :: c_enum where
  "snd_pcm_start_t =
    [(''DATA'', At 0), (''EXPLICIT'', Next), (''LAST'', From ''EXPLICIT'' 0)]"

definition snd_pcm_xrun_t :: c_enum where
  "snd_pcm_xrun_t =
    [(''NONE'', At 0), (''STOP'', Next), (''LAST'', From ''STOP'' 0)]"

definition snd_pcm_type_t :: c_enum where
  "snd_pcm_type_t =
    [(''HW'', At 0), (''HOOKS'', Next), (''MULTI'', Next), (''FILE'', Next), (''NULL'', Next), (''SHM'', Next),
     (''INET'', Next), (''COPY'', Next), (''LINEAR'', Next), (''ALAW'', Next), (''MULAW'', Next), (''ADPCM'', Next),
     (''RATE'', Next), (''ROUTE'', Next), (''PLUG'', Next), (''SHARE'', Next), (''METER'', Next), (''MIX'', Next),
     (''DROUTE'', Next), (''LBSERVER'', Next), (''LINEAR_FLOAT'', Next), (''LADSPA'', Next), (''DMIX'', Next),
     (''JACK'', Next), (''DSNOOP'', Next), (''DSHARE'', Next), (''IEC958'', Next), (''SOFTVOL'', Next),
     (''IOPLUG'', Next), (''EXTPLUG'', Next), (''LAST'', From ''EXTPLUG'' 0)]"

definition snd_mixer_selem_channel_id_t :: c_enum where
  "snd_mixer_selem_channel_id_t =
    [(''UNKNOWN'', At (- 1)), (''FRONT_LEFT'', At 0), (''FRONT_RIGHT'', Next), (''REAR_LEFT'', Next),
     (''REAR_RIGHT'', Next), (''FRONT_CENTER'', Next), (''WOOFER'', Next), (''SIDE_LEFT'', Next), (''SIDE_RIGHT'', Next),
     (''REAR_CENTER'', Next), (''LAST'', At 31), (''MONO'', From ''FRONT_LEFT'' 0)]"

definition snd_ctl_type_t :: c_enum where
  "snd_ctl_type_t =
    [(''HW'', Next), (''SHM'', Next), (''INET'', Next), (''EXT'', Next)]"

definition snd_seq_event_type :: c_enum where
  "snd_seq_event_type =
    [(''SYSTEM'', At 0), (''RESULT'', Next), (''NOTE'', At 5), (''NOTEON'', Next), (''NOTEOFF'', Next),
     (''KEYPRESS'', Next), (''CONTROLLER'', At 10), (''PGMCHANGE'', Next), (''CHANPRESS'', Next), (''PITCHBEND'', Next),
     (''CONTROL14'', Next), (''NONREGPARAM'', Next), (''REGPARAM'', Next), (''SONGPOS'', At 20), (''SONGSEL'', Next),
     (''QFRAME'', Next), (''TIMESIGN'', Next), (''KEYSIGN'', Next), (''START'', At 30), (''CONTINUE'', Next),
     (''STOP'', Next), (''SETPOS_TICK'', Next), (''SETPOS_TIME'', Next), (''TEMPO'', Next), (''CLOCK'', Next),
     (''TICK'', Next), (''QUEUE_SKEW'', Next), (''SYNC_POS'', Next), (''TUNE_REQUEST'', At 40), (''RESET'', Next),
     (''SENSING'', Next), (''ECHO'', At 50), (''OSS'', Next), (''CLIENT_START'', At 60), (''CLIENT_EXIT'', Next),
     (''CLIENT_CHANGE'', Next), (''PORT_START'', Next), (''PORT_EXIT'', Next), (''PORT_CHANGE'', Next),
     (''PORT_SUBSCRIBED'', Next), (''PORT_UNSUBSCRIBED'', Next), (''USR0'', At 90), (''USR1'', Next), (''USR2'', Next),
     (''USR3'', Next), (''USR4'', Next), (''USR5'', Next), (''USR6'', Next), (''USR7'', Next), (''USR8'', Next),
     (''USR9'', Next), (''SYSEX'', At 130), (''BOUNCE'', Next), (''USR_VAR0'', At 135), (''USR_VAR1'', Next),
     (''USR_VAR2'', Next), (''USR_VAR3'', Next), (''USR_VAR4'', Next), (''NONE'', At 255)]"

definition snd_seq_type_t :: c_enum where
  "snd_seq_type_t =
    [(''HW'', Next), (''SHM'', Next), (''INET'', Next)]"

definition snd_config_type_t :: c_enum where
  "snd_config_type_t =
    [(''INTEGER'', Next), (''INTEGER64'', Next), (''REAL'', Next), (''STRING'', Next), (''POINTER'', Next),
     (''COMPOUND'', At 1024)]"

section \<open>Names of control elements\<close>

definition snd_ctl_elem_type_names :: "string list" where
  "snd_ctl_elem_type_names = [''NONE'', ''BOOLEAN'', ''INTEGER'', ''ENUMERATED'', ''BYTES'', ''IEC958'', ''INTEGER64'']"

definition snd_ctl_event_type_names :: "string list" where
  "snd_ctl_event_type_names = [''ELEM'']"

definition snd_ctl_elem_type_name :: "int \<Rightarrow> string option" where
  "snd_ctl_elem_type_name i = name_at snd_ctl_elem_type_names i"

definition snd_ctl_elem_iface_name :: "int \<Rightarrow> string option" where
  "snd_ctl_elem_iface_name i = name_at snd_ctl_elem_iface_names i"

definition snd_ctl_event_type_name :: "int \<Rightarrow> string option" where
  "snd_ctl_event_type_name i = name_at snd_ctl_event_type_names i"

section \<open>Tables against enumerations\<close>

definition entry :: "string option list \<Rightarrow> int \<Rightarrow> string option" where
  "entry table i = (if 0 \<le> i \<and> nat i < length table then table ! nat i else None)"

text \<open>The entries of a table that do not stand at the number of their member, and the members with a number that is not
  negative for which the table has no entry.\<close>

definition misplaced :: "(string \<times> int) list \<Rightarrow> string option list \<Rightarrow> nat list" where
  "misplaced vs table = filter (\<lambda>i. case table ! i of None \<Rightarrow> False | Some nm \<Rightarrow> map_of vs nm \<noteq> Some (int i)) [0..<length table]"

definition missing :: "(string \<times> int) list \<Rightarrow> string option list \<Rightarrow> string list" where
  "missing vs table = map fst (filter (\<lambda>m. 0 \<le> snd m \<and> entry table (snd m) = None) vs)"

definition table_check :: "c_enum \<Rightarrow> string option list \<Rightarrow> (nat list \<times> string list) option" where
  "table_check e table = map_option (\<lambda>vs. (misplaced vs table, missing vs table)) (enum_values e)"

lemma table_checkD:
  assumes "table_check e table = Some ([], [])" "enum_values e = Some vs"
  shows "0 \<le> i \<Longrightarrow> table ! nat i = Some nm \<Longrightarrow> nat i < length table \<Longrightarrow> map_of vs nm = Some i"
    and "(nm, v) \<in> set vs \<Longrightarrow> 0 \<le> v \<Longrightarrow> nat v < length table \<and> table ! nat v \<noteq> None"
proof -
  from assms have m: "misplaced vs table = []" "missing vs table = []" by (simp_all add: table_check_def)
  show "map_of vs nm = Some i" if "0 \<le> i" "table ! nat i = Some nm" "nat i < length table"
    using m(1) that by (force simp: misplaced_def filter_empty_conv)
  show "nat v < length table \<and> table ! nat v \<noteq> None" if "(nm, v) \<in> set vs" "0 \<le> v"
    using m(2) that by (fastforce simp: missing_def filter_empty_conv entry_def split: if_splits)
qed

text \<open>The name tables agree with the enumerations: every name stands at the number of its member, and every member with a number
  has a name.  The one exception is the type \<^verbatim>\<open>DSHARE\<close> of a stream, for which the table has no entry.
\<close>

theorem tables_agree:
  "table_check snd_pcm_stream_t (map Some snd_pcm_stream_names) = Some ([], []) \<and>
   table_check snd_pcm_state_t (map Some snd_pcm_state_names) = Some ([], []) \<and>
   table_check snd_pcm_access_t (map Some snd_pcm_access_names) = Some ([], []) \<and>
   table_check snd_pcm_format_t snd_pcm_format_names = Some ([], []) \<and>
   table_check snd_pcm_subformat_t (map Some snd_pcm_subformat_names) = Some ([], []) \<and>
   table_check snd_pcm_tstamp_t (map Some snd_pcm_tstamp_mode_names) = Some ([], []) \<and>
   table_check snd_pcm_type_t snd_pcm_type_names = Some ([], [''DSHARE'']) \<and>
   table_check sndrv_pcm_hw_param snd_pcm_hw_param_names = Some ([], []) \<and>
   table_check snd_pcm_chmap_type (map Some snd_chmap_type_names) = Some ([], []) \<and>
   table_check snd_pcm_chmap_position (map Some snd_chmap_names) = Some ([], []) \<and>
   table_check snd_ctl_elem_type_t (map Some snd_ctl_elem_type_names) = Some ([], []) \<and>
   table_check snd_ctl_elem_iface_t (map Some snd_ctl_elem_iface_names) = Some ([], []) \<and>
   table_check snd_ctl_event_type_t (map Some snd_ctl_event_type_names) = Some ([], [])"
  by (intro conjI; code_simp)

text \<open>The constants of the other theories are the members of the enumerations.\<close>

lemma stream_constants:
  "map (enum_value snd_pcm_stream_t) [''PLAYBACK'', ''CAPTURE''] = [Some STREAM_PLAYBACK, Some STREAM_CAPTURE]"
  "map (enum_value snd_pcm_state_t) [''RUNNING'', ''XRUN'', ''SUSPENDED'', ''DISCONNECTED''] =
     [Some STATE_RUNNING, Some STATE_XRUN, Some STATE_SUSPENDED, Some STATE_DISCONNECTED]"
  "map (enum_value sndrv_pcm_hw_param) [''ACCESS'', ''FORMAT'', ''SUBFORMAT'', ''LAST_MASK'', ''SAMPLE_BITS'', ''FRAME_BITS'', ''CHANNELS'', ''RATE''] =
     map Some [HW_ACCESS, HW_FORMAT, HW_SUBFORMAT, HW_SUBFORMAT, HW_SAMPLE_BITS, HW_FRAME_BITS, HW_CHANNELS, HW_RATE]"
  "map (enum_value sndrv_pcm_hw_param) [''PERIOD_TIME'', ''PERIOD_SIZE'', ''PERIOD_BYTES'', ''PERIODS'', ''BUFFER_TIME'', ''BUFFER_SIZE'',
       ''BUFFER_BYTES'', ''TICK_TIME'', ''LAST_INTERVAL''] =
     map Some [HW_PERIOD_TIME, HW_PERIOD_SIZE, HW_PERIOD_BYTES, HW_PERIODS, HW_BUFFER_TIME, HW_BUFFER_SIZE, HW_BUFFER_BYTES, HW_TICK_TIME, HW_TICK_TIME]"
  by code_simp+

lemma control_constants:
  "map (enum_value snd_ctl_elem_type_t) [''BOOLEAN'', ''INTEGER'', ''ENUMERATED'', ''BYTES'', ''IEC958'', ''INTEGER64''] =
     map Some [TYPE_BOOLEAN, TYPE_INTEGER, TYPE_ENUMERATED, TYPE_BYTES, TYPE_IEC958, TYPE_INTEGER64]"
  "enum_value snd_ctl_elem_iface_t ''LAST'' = Some (int ELEM_IFACE_LAST)"
  "map (enum_value snd_rawmidi_stream_t) [''OUTPUT'', ''INPUT''] = [Some MIDI_OUTPUT, Some MIDI_INPUT]"
  by code_simp+

end
