(* ===== verification/Entry_Points.thy ===== *)
theory Entry_Points
  imports Pcm_Objects Pcm_Ring Rawmidi Mixer_Open
begin

text \<open>
  Entry points of the library that belong to no other part: the dummy configuration of \<^verbatim>\<open>src/src/conf.h\<close>, the input handles of
  \<^verbatim>\<open>src/src/input.h\<close>, the error texts of \<^verbatim>\<open>src/src/error.h\<close>, queries of a control device for its streams and ports, the
  channel status of a digital element, and the calls that do nothing but return: the sequencer
  (\<^verbatim>\<open>src/src/seq.h\<close>, \<^verbatim>\<open>src/src/seqmid.h\<close>), the configuration tree, and what a build without decibels, user elements
  or notification has in place of them.
\<close>

section \<open>Configuration\<close>

text \<open>The pointer \<^verbatim>\<open>snd_config\<close> is null or the address 1, which marks an update and is no object.  A
  pointer behind an argument is passed with its value and returned with the value afterwards.\<close>

datatype config_ptr = ConfigNull | ConfigMark

definition snd_config_update :: "config_ptr \<Rightarrow> int \<times> config_ptr" where
  "snd_config_update config = (0, ConfigMark)"

definition snd_config_update_r :: "'p \<Rightarrow> 'q \<Rightarrow> config_ptr \<Rightarrow> int \<times> 'p \<times> 'q \<times> config_ptr" where
  "snd_config_update_r cfg update config = (0, cfg, update, config)"

definition snd_config_update_free :: "config_ptr \<Rightarrow> int \<times> config_ptr" where
  "snd_config_update_free config = (0, config)"

text \<open>The assignment is to the argument itself, so the pointer of the caller keeps its value.\<close>

definition snd_config_update_ref :: "'p \<Rightarrow> config_ptr \<Rightarrow> int \<times> 'p \<times> config_ptr" where
  "snd_config_update_ref cfg config = (case snd_config_update config of (_, config) \<Rightarrow> (0, cfg, config))"

definition snd_config_unref :: "config_ptr \<Rightarrow> config_ptr" where
  "snd_config_unref config = config"

text \<open>With the dummy configuration, and without it.\<close>

definition snd_config_update_free_global :: "config_ptr \<Rightarrow> int \<times> config_ptr" where
  "snd_config_update_free_global config = (0, ConfigNull)"

definition plain_update_free_global :: "config_ptr \<Rightarrow> int \<times> config_ptr" where
  "plain_update_free_global config = (0, config)"

section \<open>Input\<close>

text \<open>An input handle is a stream of the C library, whose functions are the record \<open>input_os\<close> over a world \<open>'w\<close>.\<close>

record 'w input_os =
  io_fopen :: "string \<Rightarrow> string \<Rightarrow> 'w \<Rightarrow> nat option \<times> int \<times> 'w"
  io_fclose :: "nat \<Rightarrow> 'w \<Rightarrow> int \<times> 'w"
  io_vfscanf :: "nat \<Rightarrow> string \<Rightarrow> 'w \<Rightarrow> int \<times> 'w"
  io_fgets :: "int \<Rightarrow> nat \<Rightarrow> 'w \<Rightarrow> string option \<times> 'w"
  io_getc :: "nat \<Rightarrow> 'w \<Rightarrow> int \<times> 'w"
  io_ungetc :: "int \<Rightarrow> nat \<Rightarrow> 'w \<Rightarrow> int \<times> 'w"

text \<open>The pointer of the caller is stored in both cases.\<close>

definition snd_input_stdio_open :: "'w input_os \<Rightarrow> string \<Rightarrow> string \<Rightarrow> 'w \<Rightarrow> int \<times> nat option \<times> 'w" where
  "snd_input_stdio_open os path mode w =
     (case io_fopen os path mode w of
        (None, errno, w) \<Rightarrow> (- errno, None, w)
      | (Some fp, errno, w) \<Rightarrow> (0, Some fp, w))"

definition snd_input_stdio_attach :: "nat \<Rightarrow> int \<Rightarrow> int \<times> nat" where
  "snd_input_stdio_attach fp cl = (0, fp)"

definition snd_input_close :: "'w input_os \<Rightarrow> nat \<Rightarrow> 'w \<Rightarrow> int \<times> 'w" where
  "snd_input_close os fp w = io_fclose os fp w"

definition snd_input_scanf :: "'w input_os \<Rightarrow> nat \<Rightarrow> string \<Rightarrow> 'w \<Rightarrow> int \<times> 'w" where
  "snd_input_scanf os fp format w = io_vfscanf os fp format w"

definition snd_input_gets :: "'w input_os \<Rightarrow> nat \<Rightarrow> int \<Rightarrow> 'w \<Rightarrow> string option \<times> 'w" where
  "snd_input_gets os fp n w = io_fgets os n fp w"

definition snd_input_getc :: "'w input_os \<Rightarrow> nat \<Rightarrow> 'w \<Rightarrow> int \<times> 'w" where
  "snd_input_getc os fp w = io_getc os fp w"

definition snd_input_ungetc :: "'w input_os \<Rightarrow> nat \<Rightarrow> int \<Rightarrow> 'w \<Rightarrow> int \<times> 'w" where
  "snd_input_ungetc os fp c w = io_ungetc os c fp w"

definition snd_input_buffer_open :: "'w \<Rightarrow> int \<times> 'w" where
  "snd_input_buffer_open w = (- ENXIO, w)"

section \<open>Errors\<close>

text \<open>\<open>strerror\<close> is the function of the C library; the negation of the least \<^verbatim>\<open>int\<close> overflows.\<close>

definition snd_strerror :: "(int \<Rightarrow> string) \<Rightarrow> int \<Rightarrow> string option" where
  "snd_strerror strerror errnum =
     (if errnum < 0 then do { e \<leftarrow> int32 (- errnum); Some (strerror e) } else Some (strerror errnum))"

definition snd_lib_error_set_handler :: "'h \<Rightarrow> int" where
  "snd_lib_error_set_handler handler = 0"

section \<open>Queries of a control device\<close>

definition snd_ctl_hwdep_info :: "(int \<Rightarrow> snd_hwdep_info \<Rightarrow> 'w \<Rightarrow> int \<times> snd_hwdep_info \<times> 'w) \<Rightarrow> snd_ctl \<Rightarrow> snd_hwdep_info \<Rightarrow> 'w sys \<Rightarrow>
    int \<times> snd_hwdep_info \<times> 'w sys" where
  "snd_ctl_hwdep_info io ctl info s = ioctl_object io (ctl_fd ctl) info s"

definition snd_ctl_pcm_info :: "(int \<Rightarrow> snd_pcm_info \<Rightarrow> 'w \<Rightarrow> int \<times> snd_pcm_info \<times> 'w) \<Rightarrow> snd_ctl \<Rightarrow> snd_pcm_info \<Rightarrow> 'w sys \<Rightarrow>
    int \<times> snd_pcm_info \<times> 'w sys" where
  "snd_ctl_pcm_info io ctl info s = ioctl_object io (ctl_fd ctl) info s"

definition snd_ctl_rawmidi_info :: "(int \<Rightarrow> snd_rawmidi_info \<Rightarrow> 'w \<Rightarrow> int \<times> snd_rawmidi_info \<times> 'w) \<Rightarrow> snd_ctl \<Rightarrow> snd_rawmidi_info \<Rightarrow> 'w sys \<Rightarrow>
    int \<times> snd_rawmidi_info \<times> 'w sys" where
  "snd_ctl_rawmidi_info io ctl info s = ioctl_object io (ctl_fd ctl) info s"

text \<open>A channel status is the 176 bytes of \<^verbatim>\<open>snd_aes_iec958_t\<close>, which lies at the start of the values of an element.\<close>

definition snd_ctl_elem_value_get_iec958 :: "snd_ctl_elem_value \<Rightarrow> u8 list" where
  "snd_ctl_elem_value_get_iec958 obj = take 176 (value_data obj)"

definition snd_ctl_elem_value_set_iec958 :: "snd_ctl_elem_value \<Rightarrow> u8 list \<Rightarrow> snd_ctl_elem_value" where
  "snd_ctl_elem_value_set_iec958 obj st = obj\<lparr>value_data := take 176 st @ drop 176 (value_data obj)\<rparr>"

lemma iec958_set_get:
  assumes "length st = 176"
  shows "snd_ctl_elem_value_get_iec958 (snd_ctl_elem_value_set_iec958 obj st) = st"
    and "drop 176 (value_data (snd_ctl_elem_value_set_iec958 obj st)) = drop 176 (value_data obj)"
  using assms by (simp_all add: snd_ctl_elem_value_get_iec958_def snd_ctl_elem_value_set_iec958_def)

section \<open>Private pointers\<close>

text \<open>The private pointer of the callback of a control handle, of a mixer and of a mixer element; the library itself reads none of them.\<close>

record 'w owned_hctl = "'w hctl" +
  hctl_private :: "nat option"

record 'w owned_mixer = "'w snd_mixer" +
  mixer_private :: "nat option"

record owned_elem = mixer_elem +
  elem_private :: "nat option"

definition snd_hctl_set_callback_private :: "'w owned_hctl \<Rightarrow> nat option \<Rightarrow> 'w owned_hctl" where
  "snd_hctl_set_callback_private h val = h\<lparr>hctl_private := val\<rparr>"

definition snd_hctl_get_callback_private :: "'w owned_hctl \<Rightarrow> nat option" where
  "snd_hctl_get_callback_private h = hctl_private h"

definition snd_mixer_set_callback_private :: "'w owned_mixer \<Rightarrow> nat option \<Rightarrow> 'w owned_mixer" where
  "snd_mixer_set_callback_private mx val = mx\<lparr>mixer_private := val\<rparr>"

definition snd_mixer_get_callback_private :: "'w owned_mixer \<Rightarrow> nat option" where
  "snd_mixer_get_callback_private mx = mixer_private mx"

definition snd_mixer_elem_set_callback_private :: "owned_elem \<Rightarrow> nat option \<Rightarrow> owned_elem" where
  "snd_mixer_elem_set_callback_private e val = e\<lparr>elem_private := val\<rparr>"

definition snd_mixer_elem_get_callback_private :: "owned_elem \<Rightarrow> nat option" where
  "snd_mixer_elem_get_callback_private e = elem_private e"

section \<open>The time stamp of a stream\<close>

text \<open>\<open>stamp\<close> reads the time stamp of the status, in the page or in the copy of the handle.\<close>

definition snd_pcm_htimestamp :: "'w pcm_kernel \<Rightarrow> (snd_pcm \<Rightarrow> 'w \<Rightarrow> timespec \<times> 'w) \<Rightarrow> snd_pcm \<Rightarrow> 'w \<Rightarrow> int \<times> u64 \<times> timespec \<times> snd_pcm \<times> 'w" where
  "snd_pcm_htimestamp k stamp pcm w =
     (case snd_pcm_avail_update k pcm w of (avail, pcm, w) \<Rightarrow>
        (case stamp pcm w of (ts, w) \<Rightarrow> (0, word_of_int avail, ts, pcm, w)))"

text \<open>A stream that has stopped reports success, and the error number as a number of frames close to \<^verbatim>\<open>2^64\<close>.\<close>

lemma htimestamp_hides_xrun:
  assumes "snd_pcm_avail_update k pcm w = (- EPIPE, pcm', w')"
  shows "\<exists>ts w''. snd_pcm_htimestamp k stamp pcm w = (0, 2 ^ 64 - 32, ts, pcm', w'')"
  using assms by (cases "stamp pcm' w'") (simp add: snd_pcm_htimestamp_def)

section \<open>Releasing channel maps\<close>

text \<open>
  \<open>live\<close> is the set of the blocks that are allocated and \<open>arr\<close> the array of pointers at an address.  The result \<open>None\<close> is a
  pointer that is no block, or an array without a null pointer at its end.
\<close>

definition free_block :: "nat \<Rightarrow> nat set \<Rightarrow> nat set option" where
  "free_block p live = (if p \<in> live then Some (live - {p}) else None)"

fun free_maps :: "nat option list \<Rightarrow> nat set \<Rightarrow> nat set option" where
  "free_maps (Some p # ps) live = do { live \<leftarrow> free_block p live; free_maps ps live }"
| "free_maps (None # ps) live = Some live"
| "free_maps [] live = None"

definition snd_pcm_free_chmaps :: "(nat \<Rightarrow> nat option list) \<Rightarrow> nat option \<Rightarrow> nat set \<Rightarrow> nat set option" where
  "snd_pcm_free_chmaps arr maps live =
     (case maps of None \<Rightarrow> Some live
      | Some a \<Rightarrow> (if a \<in> live then do { live \<leftarrow> free_maps (arr a) live; free_block a live } else None))"

lemma free_maps_all:
  "distinct ps \<Longrightarrow> set ps \<subseteq> live \<Longrightarrow> free_maps (map Some ps @ None # xs) live = Some (live - set ps)"
proof (induction ps arbitrary: live)
  case (Cons p ps)
  then have "set ps \<subseteq> live - {p}" by auto
  with Cons.IH [of "live - {p}"] Cons.prems have "free_maps (map Some ps @ None # xs) (live - {p}) = Some (live - {p} - set ps)" by simp
  moreover have "live - {p} - set ps = live - set (p # ps)" by auto
  ultimately show ?case using Cons.prems(2) by (simp add: free_block_def)
qed simp

text \<open>A list of maps as the query returns it is given back completely: each map once, and the array.\<close>

lemma free_chmaps_all:
  assumes "arr a = map Some ps @ None # xs" "distinct (a # ps)" "set (a # ps) \<subseteq> live"
  shows "snd_pcm_free_chmaps arr (Some a) live = Some (live - set (a # ps))"
proof -
  have "set ps \<subseteq> live" using assms(3) by simp
  moreover have "live - set ps - {a} = live - set (a # ps)" by auto
  ultimately show ?thesis using assms by (simp add: snd_pcm_free_chmaps_def free_maps_all free_block_def)
qed

section \<open>Calls with a fixed result\<close>

text \<open>
  Functions whose body is one \<^verbatim>\<open>return\<close> of a constant, or empty, in the order of the headers: the name and the result, which is a number (an
  error number, a size or a member of an enumeration), a null pointer, or nothing.  They store nothing and touch
  none of their arguments.
\<close>

datatype fixed_result = Code int | Null | Done

definition seq_open_calls :: "(string \<times> fixed_result) list" where
  "seq_open_calls =
    [(''snd_seq_open'', Code (- ENXIO)), (''snd_seq_open_lconf'', Code (- ENXIO)), (''snd_seq_name'', Null),
     (''snd_seq_type'', Code 0), (''snd_seq_close'', Code 0), (''snd_seq_poll_descriptors_count'', Code 0),
     (''snd_seq_poll_descriptors'', Code (- ENXIO)), (''snd_seq_poll_descriptors_revents'', Code (- ENXIO)),
     (''snd_seq_nonblock'', Code (- ENXIO)), (''snd_seq_client_id'', Code (- ENXIO)),
     (''snd_seq_get_output_buffer_size'', Code 0), (''snd_seq_get_input_buffer_size'', Code 0),
     (''snd_seq_set_output_buffer_size'', Code (- ENXIO)), (''snd_seq_set_input_buffer_size'', Code (- ENXIO)),
     (''snd_seq_system_info_sizeof'', Code 0), (''snd_seq_system_info_malloc'', Code (- ENXIO)),
     (''snd_seq_system_info_free'', Done), (''snd_seq_system_info_copy'', Done),
     (''snd_seq_system_info_get_queues'', Code 0), (''snd_seq_system_info_get_clients'', Code 0),
     (''snd_seq_system_info_get_ports'', Code 0), (''snd_seq_system_info_get_channels'', Code 0),
     (''snd_seq_system_info_get_cur_clients'', Code 0), (''snd_seq_system_info_get_cur_queues'', Code 0),
     (''snd_seq_system_info'', Code (- ENXIO))]"

definition seq_client_info_sizeof_calls :: "(string \<times> fixed_result) list" where
  "seq_client_info_sizeof_calls =
    [(''snd_seq_client_info_sizeof'', Code 0), (''snd_seq_client_info_malloc'', Code (- ENXIO)),
     (''snd_seq_client_info_free'', Done), (''snd_seq_client_info_copy'', Done),
     (''snd_seq_client_info_get_client'', Code (- ENXIO)), (''snd_seq_client_info_get_type'', Code 1),
     (''snd_seq_client_info_get_name'', Null), (''snd_seq_client_info_get_broadcast_filter'', Code 0),
     (''snd_seq_client_info_get_error_bounce'', Code 0), (''snd_seq_client_info_get_event_filter'', Null),
     (''snd_seq_client_info_get_num_ports'', Code 0), (''snd_seq_client_info_get_event_lost'', Code 0),
     (''snd_seq_client_info_set_client'', Done), (''snd_seq_client_info_set_name'', Done),
     (''snd_seq_client_info_set_broadcast_filter'', Done), (''snd_seq_client_info_set_error_bounce'', Done),
     (''snd_seq_client_info_set_event_filter'', Done), (''snd_seq_get_client_info'', Code (- ENXIO)),
     (''snd_seq_get_any_client_info'', Code (- ENXIO)), (''snd_seq_set_client_info'', Code (- ENXIO)),
     (''snd_seq_query_next_client'', Code (- ENXIO)), (''snd_seq_client_pool_sizeof'', Code 0),
     (''snd_seq_client_pool_malloc'', Code (- ENXIO)), (''snd_seq_client_pool_free'', Done),
     (''snd_seq_client_pool_copy'', Done), (''snd_seq_client_pool_get_client'', Code (- ENXIO)),
     (''snd_seq_client_pool_get_output_pool'', Code 0)]"

definition seq_client_pool_get_input_pool_calls :: "(string \<times> fixed_result) list" where
  "seq_client_pool_get_input_pool_calls =
    [(''snd_seq_client_pool_get_input_pool'', Code 0), (''snd_seq_client_pool_get_output_room'', Code 0),
     (''snd_seq_client_pool_get_output_free'', Code 0), (''snd_seq_client_pool_get_input_free'', Code 0),
     (''snd_seq_client_pool_set_output_pool'', Done), (''snd_seq_client_pool_set_input_pool'', Done),
     (''snd_seq_client_pool_set_output_room'', Done), (''snd_seq_get_client_pool'', Code (- ENXIO)),
     (''snd_seq_set_client_pool'', Code (- ENXIO))]"

definition seq_port_info_sizeof_calls :: "(string \<times> fixed_result) list" where
  "seq_port_info_sizeof_calls =
    [(''snd_seq_port_info_sizeof'', Code 0), (''snd_seq_port_info_malloc'', Code (- ENXIO)),
     (''snd_seq_port_info_free'', Done), (''snd_seq_port_info_copy'', Done),
     (''snd_seq_port_info_get_client'', Code (- ENXIO)), (''snd_seq_port_info_get_port'', Code (- ENXIO)),
     (''snd_seq_port_info_get_addr'', Null), (''snd_seq_port_info_get_name'', Null),
     (''snd_seq_port_info_get_capability'', Code 0), (''snd_seq_port_info_get_type'', Code 0),
     (''snd_seq_port_info_get_midi_channels'', Code 0), (''snd_seq_port_info_get_midi_voices'', Code 0),
     (''snd_seq_port_info_get_synth_voices'', Code 0), (''snd_seq_port_info_get_read_use'', Code 0),
     (''snd_seq_port_info_get_write_use'', Code 0), (''snd_seq_port_info_get_port_specified'', Code 0),
     (''snd_seq_port_info_get_timestamping'', Code 0), (''snd_seq_port_info_get_timestamp_real'', Code 0),
     (''snd_seq_port_info_get_timestamp_queue'', Code 0), (''snd_seq_port_info_set_client'', Done),
     (''snd_seq_port_info_set_port'', Done), (''snd_seq_port_info_set_addr'', Done),
     (''snd_seq_port_info_set_name'', Done), (''snd_seq_port_info_set_capability'', Done),
     (''snd_seq_port_info_set_type'', Done), (''snd_seq_port_info_set_midi_channels'', Done),
     (''snd_seq_port_info_set_midi_voices'', Done), (''snd_seq_port_info_set_synth_voices'', Done),
     (''snd_seq_port_info_set_port_specified'', Done), (''snd_seq_port_info_set_timestamping'', Done)]"

definition seq_port_info_set_timestamp_real_calls :: "(string \<times> fixed_result) list" where
  "seq_port_info_set_timestamp_real_calls =
    [(''snd_seq_port_info_set_timestamp_real'', Done), (''snd_seq_port_info_set_timestamp_queue'', Done),
     (''snd_seq_create_port'', Code (- ENXIO)), (''snd_seq_delete_port'', Code (- ENXIO)),
     (''snd_seq_get_port_info'', Code (- ENXIO)), (''snd_seq_get_any_port_info'', Code (- ENXIO)),
     (''snd_seq_set_port_info'', Code (- ENXIO)), (''snd_seq_query_next_port'', Code (- ENXIO)),
     (''snd_seq_port_subscribe_sizeof'', Code 0), (''snd_seq_port_subscribe_malloc'', Code (- ENXIO)),
     (''snd_seq_port_subscribe_free'', Done), (''snd_seq_port_subscribe_copy'', Done),
     (''snd_seq_port_subscribe_get_sender'', Null), (''snd_seq_port_subscribe_get_dest'', Null),
     (''snd_seq_port_subscribe_get_queue'', Code 0), (''snd_seq_port_subscribe_get_exclusive'', Code 0),
     (''snd_seq_port_subscribe_get_time_update'', Code 0), (''snd_seq_port_subscribe_get_time_real'', Code 0),
     (''snd_seq_port_subscribe_set_sender'', Done), (''snd_seq_port_subscribe_set_dest'', Done),
     (''snd_seq_port_subscribe_set_queue'', Done), (''snd_seq_port_subscribe_set_exclusive'', Done),
     (''snd_seq_port_subscribe_set_time_update'', Done), (''snd_seq_port_subscribe_set_time_real'', Done),
     (''snd_seq_get_port_subscription'', Code (- ENXIO)), (''snd_seq_subscribe_port'', Code (- ENXIO)),
     (''snd_seq_unsubscribe_port'', Code (- ENXIO))]"

definition seq_query_subscribe_sizeof_calls :: "(string \<times> fixed_result) list" where
  "seq_query_subscribe_sizeof_calls =
    [(''snd_seq_query_subscribe_sizeof'', Code 0), (''snd_seq_query_subscribe_malloc'', Code (- ENXIO)),
     (''snd_seq_query_subscribe_free'', Done), (''snd_seq_query_subscribe_copy'', Done),
     (''snd_seq_query_subscribe_get_client'', Code 0), (''snd_seq_query_subscribe_get_port'', Code 0),
     (''snd_seq_query_subscribe_get_root'', Null), (''snd_seq_query_subscribe_get_type'', Code 0),
     (''snd_seq_query_subscribe_get_index'', Code 0), (''snd_seq_query_subscribe_get_num_subs'', Code 0),
     (''snd_seq_query_subscribe_get_addr'', Null), (''snd_seq_query_subscribe_get_queue'', Code 0),
     (''snd_seq_query_subscribe_get_exclusive'', Code 0), (''snd_seq_query_subscribe_get_time_update'', Code 0),
     (''snd_seq_query_subscribe_get_time_real'', Code 0), (''snd_seq_query_subscribe_set_client'', Done),
     (''snd_seq_query_subscribe_set_port'', Done), (''snd_seq_query_subscribe_set_root'', Done),
     (''snd_seq_query_subscribe_set_type'', Done), (''snd_seq_query_subscribe_set_index'', Done),
     (''snd_seq_query_port_subscribers'', Code (- ENXIO))]"

definition seq_queue_info_sizeof_calls :: "(string \<times> fixed_result) list" where
  "seq_queue_info_sizeof_calls =
    [(''snd_seq_queue_info_sizeof'', Code 0), (''snd_seq_queue_info_malloc'', Code (- ENXIO)),
     (''snd_seq_queue_info_free'', Done), (''snd_seq_queue_info_copy'', Done),
     (''snd_seq_queue_info_get_queue'', Code 0), (''snd_seq_queue_info_get_name'', Null),
     (''snd_seq_queue_info_get_owner'', Code 0), (''snd_seq_queue_info_get_locked'', Code 0),
     (''snd_seq_queue_info_get_flags'', Code 0), (''snd_seq_queue_info_set_name'', Done),
     (''snd_seq_queue_info_set_owner'', Done), (''snd_seq_queue_info_set_locked'', Done),
     (''snd_seq_queue_info_set_flags'', Done), (''snd_seq_create_queue'', Code (- ENXIO)),
     (''snd_seq_alloc_named_queue'', Code (- ENXIO)), (''snd_seq_alloc_queue'', Code (- ENXIO)),
     (''snd_seq_free_queue'', Code (- ENXIO)), (''snd_seq_get_queue_info'', Code (- ENXIO)),
     (''snd_seq_set_queue_info'', Code (- ENXIO)), (''snd_seq_query_named_queue'', Code (- ENXIO)),
     (''snd_seq_get_queue_usage'', Code (- ENXIO)), (''snd_seq_set_queue_usage'', Code (- ENXIO)),
     (''snd_seq_queue_status_sizeof'', Code 0), (''snd_seq_queue_status_malloc'', Code (- ENXIO)),
     (''snd_seq_queue_status_free'', Done), (''snd_seq_queue_status_copy'', Done),
     (''snd_seq_queue_status_get_queue'', Code 0), (''snd_seq_queue_status_get_events'', Code 0)]"

definition seq_queue_status_get_tick_time_calls :: "(string \<times> fixed_result) list" where
  "seq_queue_status_get_tick_time_calls =
    [(''snd_seq_queue_status_get_tick_time'', Code 0), (''snd_seq_queue_status_get_real_time'', Null),
     (''snd_seq_queue_status_get_status'', Code 0), (''snd_seq_get_queue_status'', Code 0),
     (''snd_seq_queue_tempo_sizeof'', Code 0), (''snd_seq_queue_tempo_malloc'', Code (- ENXIO)),
     (''snd_seq_queue_tempo_free'', Done), (''snd_seq_queue_tempo_copy'', Done),
     (''snd_seq_queue_tempo_get_queue'', Code 0), (''snd_seq_queue_tempo_get_tempo'', Code 0),
     (''snd_seq_queue_tempo_get_ppq'', Code 0), (''snd_seq_queue_tempo_get_skew'', Code 0),
     (''snd_seq_queue_tempo_get_skew_base'', Code 0), (''snd_seq_queue_tempo_set_tempo'', Done),
     (''snd_seq_queue_tempo_set_ppq'', Done), (''snd_seq_queue_tempo_set_skew'', Done),
     (''snd_seq_queue_tempo_set_skew_base'', Done), (''snd_seq_get_queue_tempo'', Code (- ENXIO)),
     (''snd_seq_set_queue_tempo'', Code (- ENXIO))]"

definition seq_queue_timer_sizeof_calls :: "(string \<times> fixed_result) list" where
  "seq_queue_timer_sizeof_calls =
    [(''snd_seq_queue_timer_sizeof'', Code 0), (''snd_seq_queue_timer_malloc'', Code (- ENXIO)),
     (''snd_seq_queue_timer_free'', Done), (''snd_seq_queue_timer_copy'', Done),
     (''snd_seq_queue_timer_get_queue'', Code 0), (''snd_seq_queue_timer_get_type'', Code 0),
     (''snd_seq_queue_timer_get_id'', Null), (''snd_seq_queue_timer_get_resolution'', Code 0),
     (''snd_seq_queue_timer_set_type'', Done), (''snd_seq_queue_timer_set_id'', Done),
     (''snd_seq_queue_timer_set_resolution'', Done), (''snd_seq_get_queue_timer'', Code (- ENXIO)),
     (''snd_seq_set_queue_timer'', Code (- ENXIO)), (''snd_seq_free_event'', Code 0),
     (''snd_seq_event_length'', Code 0), (''snd_seq_event_output'', Code (- ENXIO)),
     (''snd_seq_event_output_buffer'', Code (- ENXIO)), (''snd_seq_event_output_direct'', Code (- ENXIO)),
     (''snd_seq_event_input'', Code (- ENXIO)), (''snd_seq_event_input_pending'', Code (- ENXIO)),
     (''snd_seq_drain_output'', Code (- ENXIO)), (''snd_seq_event_output_pending'', Code (- ENXIO)),
     (''snd_seq_extract_output'', Code (- ENXIO)), (''snd_seq_drop_output'', Code (- ENXIO)),
     (''snd_seq_drop_output_buffer'', Code (- ENXIO)), (''snd_seq_drop_input'', Code (- ENXIO)),
     (''snd_seq_drop_input_buffer'', Code (- ENXIO))]"

definition seq_remove_events_sizeof_calls :: "(string \<times> fixed_result) list" where
  "seq_remove_events_sizeof_calls =
    [(''snd_seq_remove_events_sizeof'', Code 0), (''snd_seq_remove_events_malloc'', Code (- ENXIO)),
     (''snd_seq_remove_events_free'', Done), (''snd_seq_remove_events_copy'', Done),
     (''snd_seq_remove_events_get_condition'', Code 0), (''snd_seq_remove_events_get_queue'', Code 0),
     (''snd_seq_remove_events_get_time'', Null), (''snd_seq_remove_events_get_dest'', Null),
     (''snd_seq_remove_events_get_channel'', Code 0), (''snd_seq_remove_events_get_event_type'', Code 0),
     (''snd_seq_remove_events_get_tag'', Code 0), (''snd_seq_remove_events_set_condition'', Done),
     (''snd_seq_remove_events_set_queue'', Done), (''snd_seq_remove_events_set_time'', Done),
     (''snd_seq_remove_events_set_dest'', Done), (''snd_seq_remove_events_set_channel'', Done),
     (''snd_seq_remove_events_set_event_type'', Done), (''snd_seq_remove_events_set_tag'', Done),
     (''snd_seq_remove_events'', Code (- ENXIO)), (''snd_seq_set_bit'', Done), (''snd_seq_change_bit'', Code 0),
     (''snd_seq_get_bit'', Code 0)]"

definition seq_control_queue_calls :: "(string \<times> fixed_result) list" where
  "seq_control_queue_calls =
    [(''snd_seq_control_queue'', Code (- ENXIO))]"

definition seq_create_simple_port_calls :: "(string \<times> fixed_result) list" where
  "seq_create_simple_port_calls =
    [(''snd_seq_create_simple_port'', Code (- ENXIO)), (''snd_seq_delete_simple_port'', Code 0),
     (''snd_seq_connect_from'', Code (- ENXIO)), (''snd_seq_connect_to'', Code (- ENXIO)),
     (''snd_seq_disconnect_from'', Code (- ENXIO)), (''snd_seq_disconnect_to'', Code (- ENXIO)),
     (''snd_seq_set_client_name'', Code (- ENXIO)), (''snd_seq_set_client_event_filter'', Code (- ENXIO)),
     (''snd_seq_set_client_pool_output'', Code (- ENXIO)), (''snd_seq_set_client_pool_output_room'', Code (- ENXIO)),
     (''snd_seq_set_client_pool_input'', Code (- ENXIO)), (''snd_seq_sync_output_queue'', Code (- ENXIO)),
     (''snd_seq_parse_address'', Code (- ENXIO)), (''snd_seq_reset_pool_output'', Code (- ENXIO)),
     (''snd_seq_reset_pool_input'', Code (- ENXIO))]"

definition config_top_calls :: "(string \<times> fixed_result) list" where
  "config_top_calls =
    [(''snd_config_top'', Code (- ENXIO)), (''snd_config_load'', Code (- ENXIO)),
     (''snd_config_load_override'', Code (- ENXIO)), (''snd_config_save'', Code (- ENXIO))]"

definition config_search_calls :: "(string \<times> fixed_result) list" where
  "config_search_calls =
    [(''snd_config_search'', Code (- ENXIO)), (''snd_config_searchv'', Code (- ENXIO)),
     (''snd_config_search_definition'', Code (- ENXIO)), (''snd_config_expand'', Code (- ENXIO)),
     (''snd_config_evaluate'', Code (- ENXIO)), (''snd_config_add'', Code (- ENXIO)),
     (''snd_config_delete'', Code (- ENXIO)), (''snd_config_delete_compound_members'', Code (- ENXIO)),
     (''snd_config_copy'', Code (- ENXIO)), (''snd_config_make'', Code (- ENXIO)),
     (''snd_config_make_integer'', Code (- ENXIO)), (''snd_config_make_integer64'', Code (- ENXIO)),
     (''snd_config_make_real'', Code (- ENXIO)), (''snd_config_make_string'', Code (- ENXIO)),
     (''snd_config_make_pointer'', Code (- ENXIO)), (''snd_config_make_compound'', Code (- ENXIO)),
     (''snd_config_imake_integer'', Code (- ENXIO)), (''snd_config_imake_integer64'', Code (- ENXIO)),
     (''snd_config_imake_real'', Code (- ENXIO)), (''snd_config_imake_string'', Code (- ENXIO)),
     (''snd_config_imake_pointer'', Code (- ENXIO)), (''snd_config_get_type'', Code 0)]"

definition config_set_id_calls :: "(string \<times> fixed_result) list" where
  "config_set_id_calls =
    [(''snd_config_set_id'', Code (- ENXIO)), (''snd_config_set_integer'', Code (- ENXIO)),
     (''snd_config_set_integer64'', Code (- ENXIO)), (''snd_config_set_real'', Code (- ENXIO)),
     (''snd_config_set_string'', Code (- ENXIO)), (''snd_config_set_ascii'', Code (- ENXIO)),
     (''snd_config_set_pointer'', Code (- ENXIO)), (''snd_config_get_id'', Code (- ENXIO)),
     (''snd_config_get_integer'', Code (- ENXIO)), (''snd_config_get_integer64'', Code (- ENXIO)),
     (''snd_config_get_real'', Code (- ENXIO)), (''snd_config_get_ireal'', Code (- ENXIO)),
     (''snd_config_get_string'', Code (- ENXIO)), (''snd_config_get_ascii'', Code (- ENXIO)),
     (''snd_config_get_pointer'', Code (- ENXIO)), (''snd_config_test_id'', Code (- ENXIO)),
     (''snd_config_iterator_first'', Null), (''snd_config_iterator_next'', Null), (''snd_config_iterator_end'', Null),
     (''snd_config_iterator_entry'', Null), (''snd_config_get_bool_ascii'', Code (- ENXIO)),
     (''snd_config_get_bool'', Code (- ENXIO)), (''snd_config_get_ctl_iface_ascii'', Code (- ENXIO))]"

definition config_get_ctl_iface_calls :: "(string \<times> fixed_result) list" where
  "config_get_ctl_iface_calls =
    [(''snd_config_get_ctl_iface'', Code (- ENXIO))]"

definition names_list_calls :: "(string \<times> fixed_result) list" where
  "names_list_calls =
    [(''snd_names_list'', Code (- ENXIO)), (''snd_names_list_free'', Done)]"

definition ctl_no_tlv_calls :: "(string \<times> fixed_result) list" where
  "ctl_no_tlv_calls =
    [(''snd_ctl_elem_tlv_read'', Code (- ENXIO)), (''snd_ctl_elem_tlv_write'', Code (- ENXIO)),
     (''snd_ctl_elem_tlv_command'', Code (- ENXIO)), (''snd_tlv_parse_dB_info'', Code (- ENXIO)),
     (''snd_tlv_get_dB_range'', Code (- ENXIO)), (''snd_tlv_convert_to_dB'', Code (- ENXIO)),
     (''snd_tlv_convert_from_dB'', Code (- ENXIO)), (''snd_ctl_get_dB_range'', Code (- ENXIO)),
     (''snd_ctl_convert_to_dB'', Code (- ENXIO)), (''snd_ctl_convert_from_dB'', Code (- ENXIO))]"

definition hctl_no_tlv_calls :: "(string \<times> fixed_result) list" where
  "hctl_no_tlv_calls =
    [(''snd_hctl_elem_tlv_read'', Code (- ENXIO)), (''snd_hctl_elem_tlv_write'', Code (- ENXIO)),
     (''snd_hctl_elem_tlv_command'', Code (- ENXIO))]"

definition mixer_no_tlv_calls :: "(string \<times> fixed_result) list" where
  "mixer_no_tlv_calls =
    [(''snd_mixer_selem_get_playback_dB_range'', Code (- ENXIO)), (''snd_mixer_selem_get_playback_dB'', Code (- ENXIO)),
     (''snd_mixer_selem_ask_playback_vol_dB'', Code (- ENXIO)),
     (''snd_mixer_selem_ask_playback_dB_vol'', Code (- ENXIO)), (''snd_mixer_selem_set_playback_dB'', Code (- ENXIO)),
     (''snd_mixer_selem_set_playback_dB_all'', Code (- ENXIO)),
     (''snd_mixer_selem_get_capture_dB_range'', Code (- ENXIO)), (''snd_mixer_selem_get_capture_dB'', Code (- ENXIO)),
     (''snd_mixer_selem_ask_capture_vol_dB'', Code (- ENXIO)), (''snd_mixer_selem_ask_capture_dB_vol'', Code (- ENXIO)),
     (''snd_mixer_selem_set_capture_dB'', Code (- ENXIO)), (''snd_mixer_selem_set_capture_dB_all'', Code (- ENXIO))]"

definition ctl_no_user_elem_calls :: "(string \<times> fixed_result) list" where
  "ctl_no_user_elem_calls =
    [(''snd_ctl_elem_add_integer'', Code (- ENXIO)), (''snd_ctl_elem_add_integer64'', Code (- ENXIO)),
     (''snd_ctl_elem_add_boolean'', Code (- ENXIO)), (''snd_ctl_elem_add_iec958'', Code (- ENXIO)),
     (''snd_ctl_elem_add_enumerated'', Code (- ENXIO))]"

definition ctl_not_implemented_calls :: "(string \<times> fixed_result) list" where
  "ctl_not_implemented_calls =
    [(''snd_ctl_open_lconf'', Code (- ENXIO)), (''snd_ctl_set_power_state'', Code (- ENXIO)),
     (''snd_ctl_get_power_state'', Code (- ENXIO)), (''snd_device_name_hint'', Code (- ENXIO)),
     (''snd_device_name_free_hint'', Code 0), (''snd_device_name_get_hint'', Null)]"

definition timer_query_calls :: "(string \<times> fixed_result) list" where
  "timer_query_calls =
    [(''snd_timer_query_open'', Code (- ENXIO)), (''snd_timer_query_open_lconf'', Code (- ENXIO)),
     (''snd_timer_query_close'', Code 0), (''snd_timer_query_next_device'', Code (- ENXIO)),
     (''snd_timer_query_info'', Code (- ENXIO)), (''snd_timer_query_params'', Code (- ENXIO)),
     (''snd_timer_query_status'', Code (- ENXIO)), (''snd_timer_open_lconf'', Code (- ENXIO)),
     (''snd_async_add_timer_handler'', Code (- ENXIO)), (''snd_async_handler_get_timer'', Null)]"

definition ctl_no_async_calls :: "(string \<times> fixed_result) list" where
  "ctl_no_async_calls =
    [(''snd_async_add_ctl_handler'', Code (- ENXIO)), (''snd_async_handler_get_ctl'', Null)]"

definition pcm_no_async_calls :: "(string \<times> fixed_result) list" where
  "pcm_no_async_calls =
    [(''snd_async_add_pcm_handler'', Code (- ENXIO)), (''snd_async_handler_get_pcm'', Null)]"

definition rawmidi_not_implemented_calls :: "(string \<times> fixed_result) list" where
  "rawmidi_not_implemented_calls =
    [(''snd_rawmidi_open_lconf'', Code (- ENXIO))]"

definition seq_calls :: "(string \<times> fixed_result) list" where
  "seq_calls = seq_open_calls @ seq_client_info_sizeof_calls @ seq_client_pool_get_input_pool_calls @
     seq_port_info_sizeof_calls @ seq_port_info_set_timestamp_real_calls @ seq_query_subscribe_sizeof_calls @
     seq_queue_info_sizeof_calls @ seq_queue_status_get_tick_time_calls @ seq_queue_timer_sizeof_calls @
     seq_remove_events_sizeof_calls @ seq_control_queue_calls @ seq_create_simple_port_calls"

definition config_calls :: "(string \<times> fixed_result) list" where
  "config_calls = config_top_calls @ config_search_calls @ config_set_id_calls @ config_get_ctl_iface_calls @ names_list_calls"

fun starts_with :: "string \<Rightarrow> string \<Rightarrow> bool" where
  "starts_with [] s = True"
| "starts_with (c # x) (d # s) = (c = d \<and> starts_with x s)"
| "starts_with (c # x) [] = False"

definition ends_with :: "string \<Rightarrow> string \<Rightarrow> bool" where
  "ends_with x s = starts_with (rev x) (rev s)"

lemmas seq_tables = seq_open_calls_def seq_client_info_sizeof_calls_def seq_client_pool_get_input_pool_calls_def seq_port_info_sizeof_calls_def seq_port_info_set_timestamp_real_calls_def seq_query_subscribe_sizeof_calls_def seq_queue_info_sizeof_calls_def seq_queue_status_get_tick_time_calls_def seq_queue_timer_sizeof_calls_def seq_remove_events_sizeof_calls_def seq_control_queue_calls_def seq_create_simple_port_calls_def

text \<open>No call of the sequencer and none of the configuration tree makes an object: what opens, allocates, creates or makes something fails with
  \<^verbatim>\<open>ENXIO\<close>, and every size is zero.  The only number above zero is the type of a client.\<close>

lemma sequencer_makes_nothing:
  "list_all (\<lambda>(nm, r). ends_with ''_open'' nm \<or> ends_with ''_malloc'' nm \<or> starts_with ''snd_seq_create_'' nm \<or> starts_with ''snd_seq_alloc_'' nm
      \<longrightarrow> r = Code (- ENXIO)) seq_calls"
  "list_all (\<lambda>(nm, r). ends_with ''_sizeof'' nm \<longrightarrow> r = Code 0) seq_calls"
  "list_all (\<lambda>(nm, r). case r of Code n \<Rightarrow> n = 0 \<or> n = - ENXIO \<or> nm = ''snd_seq_client_info_get_type'' | _ \<Rightarrow> True) seq_calls"
  by (simp_all add: seq_calls_def seq_tables ends_with_def)

lemma configuration_makes_nothing:
  "list_all (\<lambda>(nm, r). starts_with ''snd_config_make'' nm \<or> starts_with ''snd_config_imake'' nm \<or> starts_with ''snd_config_search'' nm
      \<longrightarrow> r = Code (- ENXIO)) config_calls"
  by (simp add: config_calls_def config_top_calls_def config_search_calls_def config_set_id_calls_def config_get_ctl_iface_calls_def names_list_calls_def)

end
