(* ===== verification/Spec2Isabelle.thy ===== *)
theory Spec2Isabelle
  imports Chmap_Query Ctl_Ascii Pcm_Objects Mixer_Open Output Rawmidi Enumerators Entry_Points
begin

text \<open>
  A verification library for salsa-lib, the small replacement of the ALSA library: C code under \<^verbatim>\<open>src/src\<close> that opens the
  sound devices of the kernel, negotiates the parameters of a stream, moves samples through a mapped ring buffer, keeps the
  elements of a control device on a list, and puts a mixer of simple elements on top of that list.

  \<^bold>\<open>How the parts of the program interact.\<close>  \<^verbatim>\<open>cards.c\<close> turns the name of a device into numbers and opens its file.  \<^verbatim>\<open>control.c\<close>
  talks to a control device; \<^verbatim>\<open>hcontrol.c\<close> opens one, lists its elements and handles its events by callbacks;
  \<^verbatim>\<open>mixer.c\<close> attaches a control handle, installs its own callbacks there and groups the elements by name.  \<^verbatim>\<open>pcm.c\<close> opens a
  stream and maps its pages and its buffer; \<^verbatim>\<open>pcm_params.c\<close> narrows the parameter space of a stream together with the kernel and
  installs the result in the handle; the ring buffer of \<^verbatim>\<open>pcm.c\<close> and \<^verbatim>\<open>pcm_macros.h\<close> shares its counters with the driver.
  \<^verbatim>\<open>async.c\<close> keeps the handlers of \<^verbatim>\<open>SIGIO\<close> for streams and control devices.  \<^verbatim>\<open>output.c\<close> is what the dumps write to.
  \<^verbatim>\<open>rawmidi.c\<close>, \<^verbatim>\<open>hwdep.c\<close> and \<^verbatim>\<open>timer.c\<close> open the other devices.  The headers named \<^verbatim>\<open>*_macros.h\<close> hold most of the
  interface as inline functions.

  \<^bold>\<open>Conventions.\<close>  A C function is a definition of the same name; a leading underscore is dropped, and a \<open>0\<close> is appended when
  the name is taken by a type or by another function.  A structure is a record, a loop a recursive function of its own
  (named after its function), a machine integer a word of its width or, where the code relies on it being signed, an
  \<open>int\<close> with the range written out.  A status code is the \<open>int\<close> the code returns: zero or more for success, minus an error number
  for failure.  An outer \<open>option\<close> is \<open>None\<close> exactly where C leaves the behaviour undefined or does not return: an access outside an array, through
  a null pointer or after \<^verbatim>\<open>free\<close>, a shift too far, an overflow of a signed number, an endless loop.  A theorem that
  says a call returns is stated as \<open>\<exists>r. f x = Some r\<close>.  Loops that may not end are partial functions into \<open>option\<close>; no fuel is
  used.  Pointers that the code compares or follows are numbers and the objects are on a finite map from addresses.

  \<^bold>\<open>The build.\<close>  The model has the 64-bit little-endian build (\<^verbatim>\<open>int\<close> of 32 and \<^verbatim>\<open>long\<close> of 64 bits) with decibels, user elements,
  asynchronous notification, channel maps, four-bit samples and output buffers, and without floating point, 64-bit
  padding of time stamps or checks of the header version.

  \<^bold>\<open>What is a parameter.\<close>  The kernel (every \<^verbatim>\<open>ioctl\<close>, \<^verbatim>\<open>open\<close>, \<^verbatim>\<open>close\<close>, \<^verbatim>\<open>mmap\<close>, \<^verbatim>\<open>fcntl\<close>, \<^verbatim>\<open>poll\<close>, \<^verbatim>\<open>read\<close> and \<^verbatim>\<open>write\<close>), the allocator, \<^verbatim>\<open>qsort\<close>, the
  streams of the C library, the callbacks of the program and the contents of memory that was never written are records
  of functions over a world, passed to the definitions that use them.  What a theorem needs of them is a named
  hypothesis, such as \<open>kernel_narrows\<close> (a refinement only takes values away), and each has an instance with which the theorem is
  applied by its witness: \<open>plain_kernel\<close>, \<open>plain_sys\<close>, \<open>quiet_os\<close>, \<open>plain_midi\<close>, \<open>plain_mixer\<close>, \<open>map_kernel\<close>, \<open>interrupted_kernel\<close>, \<open>plain_output\<close>.

  \<^bold>\<open>Prelude and interfaces.\<close>
  \<^item> \<open>Salsa_Prelude\<close>: bounds-checked arrays, words, error numbers; \<open>C_String\<close>: strings, the numbers of \<^verbatim>\<open>printf\<close> and \<^verbatim>\<open>sscanf\<close>.
  \<^item> \<open>Param_Domain\<close>: the locale that masks and intervals share (sets of values with first, last and emptiness), interpreted in \<open>Pcm_Mask\<close>
    and \<open>Pcm_Interval\<close>; the parameter layer rests on it.
  \<^item> \<open>Registry\<close>: the locale of collections whose objects come and go, interpreted on the list of \<^verbatim>\<open>hcontrol.c\<close>, the list of
    \<^verbatim>\<open>async.c\<close> and the array of \<^verbatim>\<open>mixer.c\<close>.
  \<^item> \<open>Pcm_Ring\<close> has the locale of the available frames, for both directions, and \<open>Pcm_Dump\<close> that of output handles, for streams and buffers.

  \<^bold>\<open>Streams.\<close>
  \<^item> \<open>Pcm_Mask\<close>, \<open>Pcm_Interval\<close> (\<^verbatim>\<open>pcm_params.c\<close>): the two kinds of parameters; the refinements are intersections of the sets they stand
    for, with the boundary cases where they are not.
  \<^item> \<open>Pcm_HwParams\<close>, \<open>Pcm_HwSpace\<close>, \<open>Pcm_HwAccess\<close> (\<^verbatim>\<open>pcm_params.c\<close>, \<^verbatim>\<open>pcm_macros.h\<close>): the parameter space, its setters with the refinement by the
    kernel and the rollback, the choice of one configuration, and the typed accessors.  The space is also a state machine
    (\<open>hw_step\<close>) whose reachable states are consistent and never empty.
  \<^item> \<open>Pcm_Format\<close>, \<open>Pcm_Area\<close> (\<^verbatim>\<open>pcm_misc.c\<close>, \<^verbatim>\<open>pcm.c\<close>): sample formats, silence, and the areas of channels over a byte memory.
  \<^item> \<open>Pcm_Device\<close>, \<open>Pcm_Ring\<close> (\<^verbatim>\<open>pcm.c\<close>, \<^verbatim>\<open>pcm_macros.h\<close>): the handle, the requests, waiting and recovery; the counters of the ring
    buffer, with a step relation that interleaves the application and the driver (\<open>ring_step\<close>) and the invariant that the counters
    stand for the numbers of frames moved.
  \<^item> \<open>Pcm_Map\<close>, \<open>Pcm_Setup\<close>, \<open>Pcm_Open\<close> (\<^verbatim>\<open>pcm.c\<close>, \<^verbatim>\<open>pcm_params.c\<close>): mapping the buffer and the pages, installing and releasing a configuration,
    opening and closing; what is mapped and opened is exactly what is given back.
  \<^item> \<open>Pcm_Objects\<close>, \<open>Pcm_Chmap\<close>, \<open>Chmap_Query\<close>, \<open>Pcm_Dump\<close> (\<^verbatim>\<open>pcm_macros.h\<close>, \<^verbatim>\<open>pcm.c\<close>, \<^verbatim>\<open>pcm_params.c\<close>): status and information objects, name tables, channel maps as text and
    as the driver lists them, and the dumps.

  \<^bold>\<open>Control and mixer.\<close>
  \<^item> \<open>Ctl_Elem\<close>, \<open>Ctl_Tlv\<close>, \<open>Ctl_Ascii\<close> (\<^verbatim>\<open>control.c\<close>, \<^verbatim>\<open>ctl_macros.h\<close>): the objects of the control interface over the bytes of their unions, the decibel data
    and the conversions of gains, identifiers and values as text.
  \<^item> \<open>Hctl\<close>, \<open>Hctl_Events\<close>, \<open>Hctl_Open\<close> (\<^verbatim>\<open>hcontrol.c\<close>, \<^verbatim>\<open>hctl_macros.h\<close>): the doubly linked list on a heap, its representation predicate, the
    abstract relation \<open>event_step\<close> on lists of identifiers that the event handler refines, loading, and the life of a handle.
  \<^item> \<open>Mixer\<close>, \<open>Mixer_Volume\<close>, \<open>Mixer_Array\<close>, \<open>Mixer_Types\<close>, \<open>Mixer_Links\<close>, \<open>Mixer_Values\<close>, \<open>Mixer_Props\<close>, \<open>Mixer_Open\<close> (\<^verbatim>\<open>mixer.c\<close>, \<^verbatim>\<open>mixer_macros.h\<close>): the elements and their
    items, the callbacks on the control handle, volumes and ranges, unique names, the typing of the slots, the composition
    with the event handler, and the life of a mixer.

  \<^bold>\<open>The rest.\<close>
  \<^item> \<open>Cards\<close>, \<open>Devices\<close>, \<open>Device_Objects\<close>, \<open>Rawmidi\<close> (\<^verbatim>\<open>cards.c\<close>, \<^verbatim>\<open>control.c\<close>, \<^verbatim>\<open>hwdep.c\<close>, \<^verbatim>\<open>timer.c\<close>, \<^verbatim>\<open>rawmidi.c\<close> and their headers): names, opening and closing, and the objects
    of each device; a set of open descriptors shows what leaks.
  \<^item> \<open>Async\<close> (\<^verbatim>\<open>async.c\<close>), \<open>Output\<close> (\<^verbatim>\<open>output.c\<close>, \<^verbatim>\<open>output.h\<close>).
  \<^item> \<open>Enumerators\<close> (\<^verbatim>\<open>asound.h\<close> and others): the enumerations as declared, against which the name tables and the constants of the model are checked.
  \<^item> \<open>Entry_Points\<close> (\<^verbatim>\<open>conf.h\<close>, \<^verbatim>\<open>input.h\<close>, \<^verbatim>\<open>error.h\<close>, \<^verbatim>\<open>seq.h\<close> and others): small functions of no other part, and tables of the functions that only return a constant.

  \<^bold>\<open>What the lemmas show.\<close>  Each theory first relates its operations to what they stand for (sets of values, lists of
  identifiers, multisets of mappings, sets of descriptors, texts), then shows for every branch what the operation does there,
  errors included, and that the well-formedness of the component is kept.  The properties, marked by \<open>C1\<close> to \<open>C40\<close> in their texts, are the
  consequences a program relies on.  Several theorems state where the code departs from its intention; they are exact about
  when it does, and the other properties exclude these cases by their hypotheses.

  \<^bold>\<open>Bounds.\<close>  Texts are shorter than \<open>2^31\<close> characters where their length is kept in an \<^verbatim>\<open>int\<close>; the boundary of a stream, unless it is zero,
  is a multiple of the buffer's size and with one buffer more at most \<open>2^63\<close>, as the kernel chooses it; a control device has
  fewer than \<open>2^32\<close> elements.  Where a theorem needs such a bound it is a hypothesis.

  \<^bold>\<open>Not modelled.\<close>  Gains on a linear scale in floating point (\<^verbatim>\<open>tlv_to_dB_linear\<close>, \<^verbatim>\<open>tlv_from_dB_linear\<close>), since they rest on
  \<^verbatim>\<open>pow\<close> and \<^verbatim>\<open>log10\<close>; the build without four-bit samples, whose functions only refuse; the files \<^verbatim>\<open>*_abi.c\<close>, which give
  the inline functions of the headers once more as symbols, except those for input handles and names of control elements; prototypes
  and layouts; the numbers of the requests, since the requests are parameters; the contents of \<^verbatim>\<open>asoundef.h\<close>; pointers of an
  element back to its handle; and files that build the library.
\<close>

end
